(* ===== verification/Prelude.thy ===== *)
theory Prelude
  imports Main "HOL-Library.AList" "HOL-Library.Char_ord" "HOL-Library.List_Lexorder"
    "HOL-Library.Product_Lexorder"
begin

text \<open>
  Shared vocabulary of the development: the Rust scalar types, the string functions of the
  standard library the code calls, the two map types (\<^verbatim>\<open>HashMap\<close> and \<^verbatim>\<open>BTreeMap\<close>) behind one
  interface, and the combinators that stand for the question-mark operator. A Rust \<^verbatim>\<open>String\<close> is
  its list of UTF-8 bytes, so \<^verbatim>\<open>len\<close> is \<^const>\<open>length\<close> and comparison is byte-lexicographic
  (List_Lexorder over Char_ord), as in Rust.
\<close>

named_theorems str_simps \<open>equations that evaluate the string functions\<close>
named_theorems store_simps \<open>what a map answers after an update\<close>
named_theorems op_simps \<open>evaluation of the error combinators\<close>

section \<open>Scalars\<close>

text \<open>
  A \<^verbatim>\<open>u64\<close> is a \<^typ>\<open>nat\<close>; where the code adds to one, the wrap-around of the release build is
  written out by \<open>u64_succ\<close>. A \<^verbatim>\<open>DateTime<Utc>\<close> is its nanoseconds since the epoch and a
  \<^verbatim>\<open>Uuid\<close> is its 128-bit value: the code only compares them.
\<close>

type_synonym u64 = nat
type_synonym time = int
type_synonym uuid = nat

definition u64_succ :: "u64 \<Rightarrow> u64" where
  "u64_succ n = (n + 1) mod 2 ^ 64"

lemma u64_succ_small: "n < 2 ^ 64 - 1 \<Longrightarrow> u64_succ n = n + 1"
  by (simp add: u64_succ_def)

text \<open>\<^verbatim>\<open>DateTime::timestamp\<close>: whole seconds, rounded down.\<close>

definition timestamp :: "time \<Rightarrow> int" where
  "timestamp t = t div 1000000000"

section \<open>Strings\<close>

definition starts_with :: "string \<Rightarrow> string \<Rightarrow> bool" where
  "starts_with s p = (take (length p) s = p)"

definition ends_with :: "string \<Rightarrow> string \<Rightarrow> bool" where
  "ends_with s p = (length p \<le> length s \<and> drop (length s - length p) s = p)"

definition strip_prefix :: "string \<Rightarrow> string \<Rightarrow> string option" where
  "strip_prefix s p = (if starts_with s p then Some (drop (length p) s) else None)"

definition strip_suffix :: "string \<Rightarrow> string \<Rightarrow> string option" where
  "strip_suffix s p = (if ends_with s p then Some (take (length s - length p) s) else None)"

definition trim_start_matches :: "char \<Rightarrow> string \<Rightarrow> string" where
  "trim_start_matches c s = dropWhile (\<lambda>x. x = c) s"

definition trim_end_matches :: "char \<Rightarrow> string \<Rightarrow> string" where
  "trim_end_matches c s = rev (dropWhile (\<lambda>x. x = c) (rev s))"

text \<open>
  \<^verbatim>\<open>str::trim\<close> removes Unicode white space. The multi-byte white-space characters are given by
  their UTF-8 encodings; in valid UTF-8 an encoding is found at a boundary only where the
  character is.
\<close>

definition ws1 :: "char \<Rightarrow> bool" where
  "ws1 c = (c = CHR '' '' \<or> c = CHR 0x0A \<or> c = CHR 0x09 \<or> c = CHR 0x0D \<or> c = CHR 0x0B \<or> c = CHR 0x0C)"

definition ws2 :: "char \<Rightarrow> char \<Rightarrow> bool" where
  "ws2 c d = (c = CHR 0xC2 \<and> (d = CHR 0x85 \<or> d = CHR 0xA0))"

definition ws3 :: "char \<Rightarrow> char \<Rightarrow> char \<Rightarrow> bool" where
  "ws3 c d e =
     (c = CHR 0xE1 \<and> d = CHR 0x9A \<and> e = CHR 0x80 \<or>
      c = CHR 0xE2 \<and> d = CHR 0x80 \<and>
        (e \<in> {CHR 0x80, CHR 0x81, CHR 0x82, CHR 0x83, CHR 0x84, CHR 0x85, CHR 0x86, CHR 0x87,
               CHR 0x88, CHR 0x89, CHR 0x8A, CHR 0xA8, CHR 0xA9, CHR 0xAF}) \<or>
      c = CHR 0xE2 \<and> d = CHR 0x81 \<and> e = CHR 0x9F \<or>
      c = CHR 0xE3 \<and> d = CHR 0x80 \<and> e = CHR 0x80)"

fun ws_front :: "string \<Rightarrow> nat" where
  "ws_front [] = 0"
| "ws_front (c # cs) =
     (if ws1 c then 1
      else case cs of
        [] \<Rightarrow> 0
      | d # ds \<Rightarrow> if ws2 c d then 2
                 else (case ds of [] \<Rightarrow> 0 | e # _ \<Rightarrow> if ws3 c d e then 3 else 0))"

text \<open>The same at the end of a string, read on the reversed bytes.\<close>

fun ws_back :: "string \<Rightarrow> nat" where
  "ws_back [] = 0"
| "ws_back (e # cs) =
     (if ws1 e then 1
      else case cs of
        [] \<Rightarrow> 0
      | d # ds \<Rightarrow> if ws2 d e then 2
                 else (case ds of [] \<Rightarrow> 0 | c # _ \<Rightarrow> if ws3 c d e then 3 else 0))"

function trim_front :: "(string \<Rightarrow> nat) \<Rightarrow> string \<Rightarrow> string" where
  "trim_front w s = (if w s = 0 \<or> s = [] then s else trim_front w (drop (w s) s))"
  by pat_completeness auto
termination
  by (relation "measure (\<lambda>(w, s). length s)") auto

declare trim_front.simps [simp del]

lemma trim_front_Nil [simp, str_simps]: "trim_front w [] = []"
  by (simp add: trim_front.simps)

lemma trim_front_Cons [str_simps]:
  "trim_front w (c # cs) = (if w (c # cs) = 0 then c # cs else trim_front w (drop (w (c # cs)) (c # cs)))"
  by (simp add: trim_front.simps [of w "c # cs"])

definition trim_start :: "string \<Rightarrow> string" where
  "trim_start s = trim_front ws_front s"

definition str_trim :: "string \<Rightarrow> string" where
  "str_trim s = rev (trim_front ws_back (rev (trim_front ws_front s)))"

declare trim_start_def [str_simps] str_trim_def [str_simps] ws1_def [str_simps] ws2_def [str_simps]
  ws3_def [str_simps] starts_with_def [str_simps] ends_with_def [str_simps]
  strip_prefix_def [str_simps] strip_suffix_def [str_simps] trim_start_matches_def [str_simps]
  trim_end_matches_def [str_simps]

text \<open>ASCII classes and case folding (\<^verbatim>\<open>is_ascii_*\<close>, \<^verbatim>\<open>to_ascii_lowercase\<close>,
  \<^verbatim>\<open>eq_ignore_ascii_case\<close>).\<close>

definition byte :: "char \<Rightarrow> nat" where
  "byte c = of_char c"

definition is_ascii_lowercase :: "char \<Rightarrow> bool" where
  "is_ascii_lowercase c = (97 \<le> byte c \<and> byte c \<le> 122)"

definition is_ascii_uppercase :: "char \<Rightarrow> bool" where
  "is_ascii_uppercase c = (65 \<le> byte c \<and> byte c \<le> 90)"

definition is_ascii_digit :: "char \<Rightarrow> bool" where
  "is_ascii_digit c = (48 \<le> byte c \<and> byte c \<le> 57)"

definition is_ascii_alphanumeric :: "char \<Rightarrow> bool" where
  "is_ascii_alphanumeric c = (is_ascii_lowercase c \<or> is_ascii_uppercase c \<or> is_ascii_digit c)"

definition is_ascii_hexdigit :: "char \<Rightarrow> bool" where
  "is_ascii_hexdigit c =
     (is_ascii_digit c \<or> (97 \<le> byte c \<and> byte c \<le> 102) \<or> (65 \<le> byte c \<and> byte c \<le> 70))"

definition is_lower_hexdigit :: "char \<Rightarrow> bool" where
  "is_lower_hexdigit c = (is_ascii_digit c \<or> (97 \<le> byte c \<and> byte c \<le> 102))"

definition to_ascii_lower :: "char \<Rightarrow> char" where
  "to_ascii_lower c = (if is_ascii_uppercase c then char_of (byte c + 32) else c)"

definition to_ascii_lowercase :: "string \<Rightarrow> string" where
  "to_ascii_lowercase s = map to_ascii_lower s"

definition eq_ignore_ascii_case :: "string \<Rightarrow> string \<Rightarrow> bool" where
  "eq_ignore_ascii_case a b = (to_ascii_lowercase a = to_ascii_lowercase b)"

declare byte_def [str_simps] is_ascii_lowercase_def [str_simps] is_ascii_uppercase_def [str_simps]
  is_ascii_digit_def [str_simps] is_ascii_alphanumeric_def [str_simps]
  is_ascii_hexdigit_def [str_simps] is_lower_hexdigit_def [str_simps] to_ascii_lower_def [str_simps]
  to_ascii_lowercase_def [str_simps] eq_ignore_ascii_case_def [str_simps] char_of_def [str_simps]
  bit_0 [str_simps]

lemma eq_ignore_ascii_case_refl [simp]: "eq_ignore_ascii_case a a"
  by (simp add: eq_ignore_ascii_case_def)

lemma eq_ignore_ascii_case_sym: "eq_ignore_ascii_case a b = eq_ignore_ascii_case b a"
  by (auto simp: eq_ignore_ascii_case_def)

text \<open>\<^verbatim>\<open>split_once\<close>, \<^verbatim>\<open>split(c)\<close>, \<^verbatim>\<open>lines\<close> and \<^verbatim>\<open>split_whitespace\<close>.\<close>

fun split_once :: "char \<Rightarrow> string \<Rightarrow> (string \<times> string) option" where
  "split_once c [] = None"
| "split_once c (x # xs) =
     (if x = c then Some ([], xs)
      else map_option (\<lambda>(a, b). (x # a, b)) (split_once c xs))"

fun split_on :: "char \<Rightarrow> string \<Rightarrow> string list" where
  "split_on c [] = [[]]"
| "split_on c (x # xs) =
     (if x = c then [] # split_on c xs
      else case split_on c xs of [] \<Rightarrow> [[x]] | p # ps \<Rightarrow> (x # p) # ps)"

definition strip_cr :: "string \<Rightarrow> string" where
  "strip_cr l = (if l \<noteq> [] \<and> last l = CHR 0x0D then butlast l else l)"

text \<open>A carriage return is dropped only in front of a line feed, and a final line feed ends the
  last line instead of starting an empty one.\<close>

definition str_lines :: "string \<Rightarrow> string list" where
  "str_lines s =
     (let ps = split_on (CHR 0x0A) s;
          closed = map strip_cr (butlast ps)
      in if last ps = [] then closed else closed @ [last ps])"

function split_ws :: "string \<Rightarrow> string \<Rightarrow> string list" where
  "split_ws w s =
     (if s = [] then (if w = [] then [] else [w])
      else if ws_front s = 0 then split_ws (w @ [hd s]) (tl s)
      else if w = [] then split_ws [] (drop (ws_front s) s)
      else w # split_ws [] (drop (ws_front s) s))"
  by pat_completeness auto
termination
  by (relation "measure (\<lambda>(w, s). length s)") auto

declare split_ws.simps [simp del]

lemma split_ws_Nil [simp, str_simps]: "split_ws w [] = (if w = [] then [] else [w])"
  by (simp add: split_ws.simps)

lemma split_ws_Cons [str_simps]:
  "split_ws w (c # cs) =
     (if ws_front (c # cs) = 0 then split_ws (w @ [c]) cs
      else if w = [] then split_ws [] (drop (ws_front (c # cs)) (c # cs))
      else w # split_ws [] (drop (ws_front (c # cs)) (c # cs)))"
  by (simp add: split_ws.simps [of w "c # cs"])

definition split_whitespace :: "string \<Rightarrow> string list" where
  "split_whitespace s = split_ws [] s"

declare split_whitespace_def [str_simps] str_lines_def [str_simps] strip_cr_def [str_simps]

text \<open>Trimming leaves a string of printing ASCII characters alone.\<close>

definition printing :: "char \<Rightarrow> bool" where
  "printing c = (32 < byte c \<and> byte c < 127)"

lemma not_printing:
  "\<not> printing (CHR '' '')" "\<not> printing (CHR 0x0A)" "\<not> printing (CHR 0x09)" "\<not> printing (CHR 0x0D)"
  "\<not> printing (CHR 0x0B)" "\<not> printing (CHR 0x0C)" "\<not> printing (CHR 0xC2)" "\<not> printing (CHR 0x85)"
  "\<not> printing (CHR 0xA0)" "\<not> printing (CHR 0xE1)" "\<not> printing (CHR 0xE2)" "\<not> printing (CHR 0xE3)"
  "\<not> printing (CHR 0x9F)" "\<not> printing (CHR 0x80)" "\<not> printing (CHR 0x81)" "\<not> printing (CHR 0x82)"
  "\<not> printing (CHR 0x83)" "\<not> printing (CHR 0x84)" "\<not> printing (CHR 0x86)" "\<not> printing (CHR 0x87)"
  "\<not> printing (CHR 0x88)" "\<not> printing (CHR 0x89)" "\<not> printing (CHR 0x8A)" "\<not> printing (CHR 0xA8)"
  "\<not> printing (CHR 0xA9)" "\<not> printing (CHR 0xAF)"
  by code_simp+

lemma printing_ws:
  assumes "printing c"
  shows "\<not> ws1 c" and "\<not> ws2 c d" and "\<not> ws2 d c" and "\<not> ws3 c d e" and "\<not> ws3 d e c"
proof -
  show "\<not> ws1 c" "\<not> ws2 c d" "\<not> ws2 d c" "\<not> ws3 c d e"
    using assms not_printing by (auto simp only: ws1_def ws2_def ws3_def)
  show "\<not> ws3 d e c"
    using assms not_printing by (auto simp only: ws3_def insert_iff empty_iff)
qed

lemma printing_front: "printing c \<Longrightarrow> ws_front (c # s) = 0"
  by (simp add: printing_ws split: list.split)

lemma printing_back: "printing c \<Longrightarrow> ws_back (c # s) = 0"
  by (simp add: printing_ws split: list.split)

lemma trim_printing:
  assumes "list_all printing s"
  shows "str_trim s = s"
proof (cases s rule: rev_cases)
  case (snoc t x)
  then have x: "printing x" using assms by simp
  obtain c cs where s: "s = c # cs" using snoc by (metis neq_Nil_conv snoc_eq_iff_butlast)
  then have c: "printing c" using assms by simp
  have "trim_front ws_front s = s"
    using printing_front [OF c] by (simp add: s trim_front_Cons)
  moreover have "trim_front ws_back (rev s) = rev s"
    using printing_back [OF x] by (simp add: snoc trim_front_Cons)
  ultimately show ?thesis by (simp add: str_trim_def)
qed (simp add: str_trim_def)

text \<open>\<^verbatim>\<open>s.find(part)\<close>: the index of the first occurrence.\<close>

fun find_text :: "string \<Rightarrow> string \<Rightarrow> nat option" where
  "find_text part s =
     (if starts_with s part then Some 0
      else case s of [] \<Rightarrow> None | _ # rest \<Rightarrow> map_option Suc (find_text part rest))"

declare find_text.simps [simp del]

definition contains_text :: "string \<Rightarrow> string \<Rightarrow> bool" where
  "contains_text s part = (find_text part s \<noteq> None)"

lemma find_text_Some:
  "find_text part s = Some i \<longleftrightarrow>
     i \<le> length s \<and> starts_with (drop i s) part \<and> (\<forall>j < i. \<not> starts_with (drop j s) part)"
proof (induction part s arbitrary: i rule: find_text.induct)
  case (1 part s)
  show ?case
  proof (cases "starts_with s part")
    case True
    then show ?thesis by (subst find_text.simps) (auto intro: gr0I)
  next
    case False
    show ?thesis
    proof (cases s)
      case Nil
      with False show ?thesis by (subst find_text.simps) auto
    next
      case (Cons c rest)
      from 1 [OF False Cons] False Cons show ?thesis
        by (subst find_text.simps, cases i) (auto simp: less_Suc_eq_0_disj all_conj_distrib)
    qed
  qed
qed

lemma find_text_None: "find_text part s = None \<longleftrightarrow> (\<forall>i \<le> length s. \<not> starts_with (drop i s) part)"
proof
  assume none: "find_text part s = None"
  show "\<forall>i \<le> length s. \<not> starts_with (drop i s) part"
  proof (intro allI impI notI)
    fix i assume i: "i \<le> length s" "starts_with (drop i s) part"
    let ?k = "LEAST k. starts_with (drop k s) part"
    have "?k \<le> i" "starts_with (drop ?k s) part" "\<forall>j < ?k. \<not> starts_with (drop j s) part"
      using i(2) by (auto intro: Least_le LeastI dest: not_less_Least)
    with i(1) have "find_text part s = Some ?k" by (subst find_text_Some) auto
    with none show False by simp
  qed
qed (metis find_text_Some not_None_eq)

text \<open>\<^verbatim>\<open>chars().count()\<close>: the bytes that do not continue a character.\<close>

definition continuation_byte :: "char \<Rightarrow> bool" where
  "continuation_byte c = (128 \<le> byte c \<and> byte c < 192)"

definition char_count :: "string \<Rightarrow> nat" where
  "char_count s = length [c \<leftarrow> s. \<not> continuation_byte c]"

text \<open>\<^verbatim>\<open>to_string\<close> of an unsigned integer.\<close>

definition digit :: "nat \<Rightarrow> char" where
  "digit n = ''0123456789'' ! n"

fun show_nat :: "nat \<Rightarrow> string" where
  "show_nat n = (if n < 10 then [digit n] else show_nat (n div 10) @ [digit (n mod 10)])"

declare show_nat.simps [simp del]

lemma show_nat_small [str_simps]: "show_nat 0 = ''0''" "show_nat (Suc 0) = ''1''" "show_nat 1 = ''1''"
  by (simp_all add: show_nat.simps digit_def)

lemma show_nat_numeral [str_simps]:
  "show_nat (numeral k) =
     (if numeral k < (10::nat) then [digit (numeral k)]
      else show_nat (numeral k div 10) @ [digit (numeral k mod 10)])"
  by (rule show_nat.simps)

declare digit_def [str_simps]

text \<open>A \<^verbatim>\<open>Uuid\<close> is displayed as 32 lower case hexadecimal digits in groups of 8, 4, 4, 4 and 12.\<close>

definition uuid_digits :: "uuid \<Rightarrow> string" where
  "uuid_digits u = map (\<lambda>i. ''0123456789abcdef'' ! ((u div 16 ^ (31 - i)) mod 16)) [0..<32]"

definition show_uuid :: "uuid \<Rightarrow> string" where
  "show_uuid u =
     (let h = uuid_digits u
      in take 8 h @ ''-'' @ take 4 (drop 8 h) @ ''-'' @ take 4 (drop 12 h) @ ''-'' @
         take 4 (drop 16 h) @ ''-'' @ drop 20 h)"

text \<open>\<^verbatim>\<open>[&str]::join\<close>.\<close>

fun join :: "string \<Rightarrow> string list \<Rightarrow> string" where
  "join sep [] = []"
| "join sep [p] = p"
| "join sep (p # q # ps) = p @ sep @ join sep (q # ps)"

text \<open>
  \<^verbatim>\<open>{:?}\<close> of a string: quotes, with backslashes before quotes and backslashes, and escapes for the control
  characters of ASCII. What Rust escapes beyond ASCII, by the Unicode tables, is rendered as it is.
\<close>

definition hex_char :: "nat \<Rightarrow> char" where
  "hex_char n = ''0123456789abcdef'' ! (n mod 16)"

definition debug_char :: "char \<Rightarrow> string" where
  "debug_char c =
     (if c = CHR 0x22 \<or> c = CHR 0x5C then [CHR 0x5C, c]
      else if c = CHR 0x0A then [CHR 0x5C, CHR ''n'']
      else if c = CHR 0x09 then [CHR 0x5C, CHR ''t'']
      else if c = CHR 0x0D then [CHR 0x5C, CHR ''r'']
      else if c = CHR 0x00 then [CHR 0x5C, CHR ''0'']
      else if of_char c < (32 :: nat) \<or> of_char c = (127 :: nat)
      then [CHR 0x5C, CHR ''u'', CHR 0x7B] @
        (if of_char c < (16 :: nat) then [] else [hex_char (of_char c div 16)]) @ [hex_char (of_char c), CHR 0x7D]
      else [c])"

definition quoted :: "string \<Rightarrow> string" where
  "quoted s = [CHR 0x22] @ concat (map debug_char s) @ [CHR 0x22]"

text \<open>\<^verbatim>\<open>str::parse::<u64>\<close>: an optional plus sign and digits below \<open>2 ^ 64\<close>.\<close>

definition parse_u64 :: "string \<Rightarrow> u64 option" where
  "parse_u64 text =
     (let digits = (case text of c # rest \<Rightarrow> if c = CHR ''+'' \<and> rest \<noteq> [] then rest else text | [] \<Rightarrow> []);
          n = foldl (\<lambda>v d. v * 10 + (byte d - 48)) 0 digits
      in if digits = [] \<or> \<not> list_all is_ascii_digit digits \<or> 2 ^ 64 \<le> n then None else Some n)"

section \<open>Maps\<close>

text \<open>
  A \<^verbatim>\<open>HashMap\<close> is an association list with distinct keys. Its iteration order, which Rust
  leaves unspecified, is the list's. A \<^verbatim>\<open>BTreeMap\<close> is a list sorted by key, and iterates in key
  order. Clients see both through the interface below.
\<close>

type_synonym ('k, 'v) hmap = "('k \<times> 'v) list"

abbreviation hm_get :: "('k, 'v) hmap \<Rightarrow> 'k \<Rightarrow> 'v option" where
  "hm_get \<equiv> map_of"

abbreviation hm_put :: "'k \<Rightarrow> 'v \<Rightarrow> ('k, 'v) hmap \<Rightarrow> ('k, 'v) hmap" where
  "hm_put \<equiv> AList.update"

abbreviation hm_del :: "'k \<Rightarrow> ('k, 'v) hmap \<Rightarrow> ('k, 'v) hmap" where
  "hm_del \<equiv> AList.delete"

definition hm_has :: "('k, 'v) hmap \<Rightarrow> 'k \<Rightarrow> bool" where
  "hm_has m k = (hm_get m k \<noteq> None)"

definition hm_ok :: "('k, 'v) hmap \<Rightarrow> bool" where
  "hm_ok m = distinct (map fst m)"

definition hm_values :: "('k, 'v) hmap \<Rightarrow> 'v list" where
  "hm_values m = map snd m"

text \<open>\<^verbatim>\<open>retain\<close>, and \<^verbatim>\<open>entry(k).or_default()\<close> on a map of vectors.\<close>

definition hm_retain :: "('k \<Rightarrow> 'v \<Rightarrow> bool) \<Rightarrow> ('k, 'v) hmap \<Rightarrow> ('k, 'v) hmap" where
  "hm_retain P m = filter (\<lambda>(k, v). P k v) m"

text \<open>\<^verbatim>\<open>values_mut\<close> with a change of every value.\<close>

definition hm_map :: "('v \<Rightarrow> 'w) \<Rightarrow> ('k, 'v) hmap \<Rightarrow> ('k, 'w) hmap" where
  "hm_map f m = map (\<lambda>(k, v). (k, f v)) m"

definition hm_list :: "('k, 'v list) hmap \<Rightarrow> 'k \<Rightarrow> 'v list" where
  "hm_list m k = (case hm_get m k of None \<Rightarrow> [] | Some vs \<Rightarrow> vs)"

definition hm_append :: "'k \<Rightarrow> 'v list \<Rightarrow> ('k, 'v list) hmap \<Rightarrow> ('k, 'v list) hmap" where
  "hm_append k vs m = hm_put k (hm_list m k @ vs) m"

fun bt_put :: "'k::linorder \<Rightarrow> 'v \<Rightarrow> ('k \<times> 'v) list \<Rightarrow> ('k \<times> 'v) list" where
  "bt_put k v [] = [(k, v)]"
| "bt_put k v ((a, b) # m) =
     (if a = k then (k, v) # m else if k < a then (k, v) # (a, b) # m else (a, b) # bt_put k v m)"

definition bt_del :: "'k \<Rightarrow> ('k \<times> 'v) list \<Rightarrow> ('k \<times> 'v) list" where
  "bt_del k m = filter (\<lambda>p. fst p \<noteq> k) m"

definition bt_ok :: "('k::linorder \<times> 'v) list \<Rightarrow> bool" where
  "bt_ok m = (sorted (map fst m) \<and> distinct (map fst m))"

lemma bt_put_keys: "fst ` set (bt_put k v m) = insert k (fst ` set m)"
  by (induction k v m rule: bt_put.induct) auto

lemma bt_put_ok: "bt_ok m \<Longrightarrow> bt_ok (bt_put k v m)"
proof (induction k v m rule: bt_put.induct)
  case (1 k v)
  then show ?case by (simp add: bt_ok_def)
next
  case (2 k v a b m)
  then show ?case
    using bt_put_keys [of k v m] by (fastforce simp: bt_ok_def)
qed

lemma bt_put_get: "bt_ok m \<Longrightarrow> map_of (bt_put k v m) = (map_of m)(k \<mapsto> v)"
proof (induction k v m rule: bt_put.induct)
  case (1 k v)
  then show ?case by (simp add: fun_eq_iff)
next
  case (2 k v a b m)
  then have "bt_ok m" by (simp add: bt_ok_def)
  with 2 show ?case by (auto simp: fun_eq_iff)
qed

lemma bt_del_ok: "bt_ok m \<Longrightarrow> bt_ok (bt_del k m)"
  by (auto simp: bt_ok_def bt_del_def sorted_map distinct_map inj_on_def
      intro: sorted_wrt_filter distinct_filter)

lemma bt_del_get: "map_of (bt_del k m) = (map_of m)(k := None)"
  by (induction m) (auto simp: bt_del_def fun_eq_iff)

locale keyed_store =
  fixes get :: "'m \<Rightarrow> 'k \<Rightarrow> 'v option"
    and put :: "'k \<Rightarrow> 'v \<Rightarrow> 'm \<Rightarrow> 'm"
    and del :: "'k \<Rightarrow> 'm \<Rightarrow> 'm"
    and ok :: "'m \<Rightarrow> bool"
  assumes get_put: "ok m \<Longrightarrow> get (put k v m) = (get m)(k \<mapsto> v)"
    and get_del: "ok m \<Longrightarrow> get (del k m) = (get m)(k := None)"
    and ok_put: "ok m \<Longrightarrow> ok (put k v m)"
    and ok_del: "ok m \<Longrightarrow> ok (del k m)"
begin

lemma get_put_same: "ok m \<Longrightarrow> get (put k v m) k = Some v"
  by (simp add: get_put)

lemma get_put_other: "ok m \<Longrightarrow> k' \<noteq> k \<Longrightarrow> get (put k v m) k' = get m k'"
  by (simp add: get_put)

lemma get_del_same: "ok m \<Longrightarrow> get (del k m) k = None"
  by (simp add: get_del)

lemma get_move:
  assumes "ok m" and "k \<noteq> k'"
  shows "get (put k' v (del k m)) k = None" and "get (put k' v (del k m)) k' = Some v"
  using assms by (simp_all add: get_put get_del ok_del)

lemma dom_put: "ok m \<Longrightarrow> dom (get (put k v m)) = insert k (dom (get m))"
  by (simp add: get_put)

end

interpretation hash: keyed_store hm_get hm_put hm_del hm_ok
  by unfold_locales
    (auto simp: update_conv' delete_conv' hm_ok_def distinct_update distinct_delete)

interpretation btree: keyed_store map_of bt_put bt_del bt_ok
  by unfold_locales (auto simp: bt_put_get bt_del_get bt_put_ok bt_del_ok)

lemma hm_get_put [simp, store_simps]: "hm_get (hm_put k v m) = (hm_get m)(k \<mapsto> v)"
  by (rule update_conv')

lemma hm_get_del [simp, store_simps]: "hm_get (hm_del k m) = (hm_get m)(k := None)"
  by (rule delete_conv')

lemma hm_list_append [simp, store_simps]:
  "hm_list (hm_append k vs m) k' = (if k' = k then hm_list m k @ vs else hm_list m k')"
  by (simp add: hm_list_def hm_append_def)

lemma hm_append_ok: "hm_ok m \<Longrightarrow> hm_ok (hm_append k vs m)"
  by (simp add: hm_append_def hash.ok_put)

lemma hm_retain_ok: "hm_ok m \<Longrightarrow> hm_ok (hm_retain P m)"
  by (auto simp: hm_ok_def hm_retain_def distinct_map intro: inj_on_subset)

lemma hm_get_retain:
  "hm_ok m \<Longrightarrow>
    hm_get (hm_retain P m) k = (case hm_get m k of None \<Rightarrow> None | Some v \<Rightarrow> if P k v then Some v else None)"
  by (induction m)
    (auto simp: hm_ok_def hm_retain_def split: option.splits dest: map_of_SomeD intro: rev_image_eqI)

lemma hm_get_map [simp, store_simps]: "hm_get (hm_map f m) k = map_option f (hm_get m k)"
  by (induction m) (auto simp: hm_map_def)

lemma hm_map_ok [simp]: "hm_ok (hm_map f m) = hm_ok m"
proof -
  have "map fst (hm_map f m) = map fst m" by (induction m) (auto simp: hm_map_def)
  then show ?thesis by (simp add: hm_ok_def)
qed

lemma hm_has_map [simp]: "hm_has (hm_map f m) = hm_has m"
  by (rule ext) (simp add: hm_has_def)

lemma hm_has_iff: "hm_has m k \<longleftrightarrow> k \<in> fst ` set m"
  by (auto simp: hm_has_def map_of_eq_None_iff)

section \<open>Iterators\<close>

text \<open>\<^verbatim>\<open>Iterator::max_by_key\<close>: the last of the largest elements.\<close>

definition max_by_key :: "('a \<Rightarrow> 'k::linorder) \<Rightarrow> 'a list \<Rightarrow> 'a option" where
  "max_by_key f xs =
     fold (\<lambda>x best. case best of None \<Rightarrow> Some x | Some b \<Rightarrow> if f b \<le> f x then Some x else Some b) xs None"

lemma max_by_key_snoc:
  "max_by_key f (xs @ [x]) =
     (case max_by_key f xs of None \<Rightarrow> Some x | Some b \<Rightarrow> if f b \<le> f x then Some x else Some b)"
  by (simp add: max_by_key_def)

lemma max_by_key_Nil [simp]: "max_by_key f [] = None"
  by (simp add: max_by_key_def)

lemma max_by_key_None [simp]: "max_by_key f xs = None \<longleftrightarrow> xs = []"
  by (induction xs rule: rev_induct) (auto simp: max_by_key_snoc split: option.splits)

lemma max_by_key_in: "max_by_key f xs = Some m \<Longrightarrow> m \<in> set xs"
  by (induction xs arbitrary: m rule: rev_induct)
    (auto simp: max_by_key_snoc split: option.splits if_splits)

lemma max_by_key_max: "max_by_key f xs = Some m \<Longrightarrow> x \<in> set xs \<Longrightarrow> f x \<le> f m"
proof (induction xs arbitrary: m rule: rev_induct)
  case Nil
  then show ?case by simp
next
  case (snoc y ys)
  show ?case
  proof (cases "max_by_key f ys")
    case None
    with snoc.prems show ?thesis by (auto simp: max_by_key_snoc)
  next
    case (Some b)
    with snoc.prems have "m = (if f b \<le> f y then y else b)"
      by (auto simp: max_by_key_snoc split: if_splits)
    with Some snoc.prems(2) snoc.IH [of b] show ?thesis
      by (auto split: if_splits intro: order_trans)
  qed
qed

text \<open>The chosen element is the last among its equals: everything after it is smaller.\<close>

lemma max_by_key_last:
  "max_by_key f xs = Some m \<Longrightarrow> \<exists>us vs. xs = us @ m # vs \<and> (\<forall>v \<in> set vs. f v < f m)"
proof (induction xs arbitrary: m rule: rev_induct)
  case Nil
  then show ?case by simp
next
  case (snoc y ys)
  show ?case
  proof (cases "max_by_key f ys")
    case None
    with snoc.prems have "ys @ [y] = [] @ m # []" by (simp add: max_by_key_snoc)
    then show ?thesis by fastforce
  next
    case (Some b)
    then obtain us vs where split: "ys = us @ b # vs" "\<forall>v \<in> set vs. f v < f b"
      using snoc.IH by blast
    from snoc.prems Some have m: "m = (if f b \<le> f y then y else b)"
      by (auto simp: max_by_key_snoc split: if_splits)
    show ?thesis
    proof (cases "f b \<le> f y")
      case True
      with m show ?thesis by (auto intro: exI [of _ ys])
    next
      case False
      with m split have "ys @ [y] = us @ m # (vs @ [y]) \<and> (\<forall>v \<in> set (vs @ [y]). f v < f m)"
        by auto
      then show ?thesis by blast
    qed
  qed
qed

section \<open>The question mark\<close>

text \<open>
  An operation takes the shared state and returns a result and the state it leaves, also when
  it fails. \<open>try_pure r s k\<close> is \<^verbatim>\<open>r?\<close> for a pure check made while the state is \<open>s\<close>;
  \<open>try_op m k\<close> is \<^verbatim>\<open>m?\<close> for a call that may change the state; \<open>try_res\<close> is the same between pure
  functions.
\<close>

definition try_res :: "'e + 'a \<Rightarrow> ('a \<Rightarrow> 'e + 'b) \<Rightarrow> 'e + 'b" where
  "try_res r k = (case r of Inl e \<Rightarrow> Inl e | Inr x \<Rightarrow> k x)"

definition try_pure :: "'e + 'a \<Rightarrow> 's \<Rightarrow> ('a \<Rightarrow> ('e + 'b) \<times> 's) \<Rightarrow> ('e + 'b) \<times> 's" where
  "try_pure r s k = (case r of Inl e \<Rightarrow> (Inl e, s) | Inr x \<Rightarrow> k x)"

definition try_op :: "('e + 'a) \<times> 's \<Rightarrow> ('a \<Rightarrow> 's \<Rightarrow> ('e + 'b) \<times> 's) \<Rightarrow> ('e + 'b) \<times> 's" where
  "try_op m k = (case m of (r, s) \<Rightarrow> case r of Inl e \<Rightarrow> (Inl e, s) | Inr x \<Rightarrow> k x s)"

text \<open>\<^verbatim>\<open>ok_or\<close>.\<close>

definition ok_or :: "'a option \<Rightarrow> 'e \<Rightarrow> 'e + 'a" where
  "ok_or x e = (case x of None \<Rightarrow> Inl e | Some y \<Rightarrow> Inr y)"

lemma try_simps [simp, op_simps]:
  "try_res (Inl e) kr = Inl e" "try_res (Inr x) kr = kr x"
  "try_pure (Inl e) s kp = (Inl e, s)" "try_pure (Inr x) s kp = kp x"
  "try_op (Inl e, s) ko = (Inl e, s)" "try_op (Inr x, s) ko = ko x s"
  by (simp_all add: try_res_def try_pure_def try_op_def)

lemma ok_or_simps [simp, op_simps]: "ok_or None e = Inl e" "ok_or (Some x) e = Inr x"
  by (simp_all add: ok_or_def)

lemma try_res_Inr: "try_res r k = Inr y \<longleftrightarrow> (\<exists>x. r = Inr x \<and> k x = Inr y)"
  by (cases r) auto

lemma try_pure_Inr: "try_pure r s k = (Inr y, t) \<longleftrightarrow> (\<exists>x. r = Inr x \<and> k x = (Inr y, t))"
  by (cases r) auto

lemma try_op_Inr: "try_op m k = (Inr y, t) \<longleftrightarrow> (\<exists>x s. m = (Inr x, s) \<and> k x s = (Inr y, t))"
  by (cases m; cases "fst m") auto

lemma ok_or_Inr: "ok_or x e = Inr y \<longleftrightarrow> x = Some y"
  by (cases x) auto

lemmas ok_paths = try_res_Inr try_pure_Inr try_op_Inr ok_or_Inr

text \<open>What holds of the state a composed operation leaves, on every path.\<close>

lemma try_pure_leaves:
  "Q s \<Longrightarrow> (\<And>x. r = Inr x \<Longrightarrow> Q (snd (k x))) \<Longrightarrow> Q (snd (try_pure r s k))"
  by (cases r) auto

lemma try_op_leaves:
  "Q (snd m) \<Longrightarrow> (\<And>x s. m = (Inr x, s) \<Longrightarrow> Q s \<Longrightarrow> Q (snd (k x s))) \<Longrightarrow> Q (snd (try_op m k))"
  by (cases m; cases "fst m") auto

end
