(* ===== verification/Forge_Types.thy ===== *)
theory Forge_Types
  imports Prelude
begin

text \<open>
  The data model of \<^verbatim>\<open>src/crates/jeryu-core/src/model\<close> (policy, pull_requests, checks, issues,
  repo, webhooks) and the pure functions declared beside the types, in the order of the files.
  Field names carry a prefix per struct because record selectors share one name space. Serde
  attributes matter only to decoding, which is not modelled, except for the wire values of
  \<^verbatim>\<open>CheckConclusion\<close>, which are code.
\<close>

section \<open>Branch protection rules (policy.rs)\<close>

record branch_protection_rule =
  bp_owner :: string
  bp_repo :: string
  bp_branch :: string
  bp_required_status_checks :: "string list"
  bp_strict :: bool
  bp_required_approving_review_count :: u64
  bp_enforce_admins :: bool
  bp_allow_merge_override :: bool
  bp_allow_admin_review_dismissal :: bool
  bp_merge_override_status_checks :: "string list"
  bp_merge_override_status_creators :: "string list"
  bp_required_linear_history :: bool
  bp_allow_force_pushes :: bool
  bp_allow_deletions :: bool
  bp_require_signed_commits :: bool
  bp_require_jankurai_proof :: bool
  bp_dismiss_stale_approvals :: bool
  bp_require_exact_sha_approval :: bool
  bp_updated_at :: time

record set_branch_protection_request =
  sp_required_status_checks :: "string list"
  sp_required_approving_review_count :: u64
  sp_enforce_admins :: bool
  sp_allow_merge_override :: bool
  sp_allow_admin_review_dismissal :: bool
  sp_merge_override_status_checks :: "string list"
  sp_merge_override_status_creators :: "string list"
  sp_strict :: bool
  sp_required_linear_history :: bool
  sp_allow_force_pushes :: bool
  sp_allow_deletions :: bool
  sp_require_signed_commits :: bool
  sp_require_jankurai_proof :: bool
  sp_dismiss_stale_approvals :: bool
  sp_require_exact_sha_approval :: bool

definition default_set_branch_protection_request :: set_branch_protection_request where
  "default_set_branch_protection_request =
     \<lparr>sp_required_status_checks = [], sp_required_approving_review_count = 0,
      sp_enforce_admins = False, sp_allow_merge_override = False,
      sp_allow_admin_review_dismissal = False, sp_merge_override_status_checks = [],
      sp_merge_override_status_creators = [], sp_strict = False,
      sp_required_linear_history = False, sp_allow_force_pushes = False,
      sp_allow_deletions = False, sp_require_signed_commits = False,
      sp_require_jankurai_proof = False, sp_dismiss_stale_approvals = True,
      sp_require_exact_sha_approval = True\<rparr>"

section \<open>Pull requests, reviews and merge results (pull_requests.rs)\<close>

datatype pull_request_state =
  PrDraft | PrOpen | PrReadyForReview | PrBlockedByPolicy | PrBlockedByChecks | PrApproved
| PrQueued | PrSpeculativeMergeTesting | PrMergeable | PrMerged | PrClosed

record pull_request_commit =
  cm_sha :: string
  cm_verified :: bool
  cm_parents :: u64

record git_branch_ref =
  gr_label :: string
  gr_ref_name :: string
  gr_sha :: string

definition git_branch_ref_new :: "string \<Rightarrow> string \<Rightarrow> git_branch_ref" where
  "git_branch_ref_new label sha =
     \<lparr>gr_label = label,
      gr_ref_name = (case split_once (CHR '':'') label of Some (_, branch) \<Rightarrow> branch | None \<Rightarrow> label),
      gr_sha = sha\<rparr>"

record pull_request =
  pr_id :: uuid
  pr_owner :: string
  pr_repo :: string
  pr_number :: u64
  pr_issue_number :: u64
  pr_title :: string
  pr_body :: "string option"
  pr_state :: pull_request_state
  pr_draft :: bool
  pr_author :: string
  pr_source_repository :: string
  pr_head :: git_branch_ref
  pr_base :: git_branch_ref
  pr_mergeable :: bool
  pr_mergeable_state :: string
  pr_merged :: bool
  pr_merged_at :: "time option"
  pr_merge_commit_sha :: "string option"
  pr_commits :: "pull_request_commit list"
  pr_changed_files :: "string list"
  pr_head_patch_ids :: "string list"
  pr_created_at :: time
  pr_updated_at :: time

record create_pull_request_request =
  cpr_title :: string
  cpr_body :: "string option"
  cpr_head :: string
  cpr_base :: string
  cpr_head_sha :: "string option"
  cpr_base_sha :: "string option"
  cpr_source_repository :: "string option"
  cpr_draft :: bool
  cpr_commits :: "pull_request_commit list"
  cpr_changed_files :: "string list"

record update_pull_request_request =
  upr_title :: "string option"
  upr_body :: "string option"
  upr_state :: "pull_request_state option"
  upr_draft :: "bool option"
  upr_commits :: "pull_request_commit list option"
  upr_changed_files :: "string list option"

record retarget_pull_request_request =
  rtr_base :: string
  rtr_base_sha :: string
  rtr_head_sha :: string
  rtr_commits :: "pull_request_commit list"
  rtr_changed_files :: "string list"

datatype review_state = Approved | ChangesRequested | Commented | Dismissed

datatype dismissal_authority = RepositoryAdmin

record review =
  rv_id :: uuid
  rv_owner :: string
  rv_repo :: string
  rv_pull_number :: u64
  rv_author :: string
  rv_state :: review_state
  rv_body :: "string option"
  rv_head_sha :: "string option"
  rv_head_patch_ids :: "string list"
  rv_dismissed_review_id :: "uuid option"
  rv_dismissal_authority :: "dismissal_authority option"
  rv_submitted_at :: time

record review_comment =
  rc_id :: uuid
  rc_review_id :: uuid
  rc_owner :: string
  rc_repo :: string
  rc_pull_number :: u64
  rc_path :: string
  rc_line :: "u64 option"
  rc_author :: string
  rc_body :: string
  rc_created_at :: time

record review_comment_input =
  rci_path :: string
  rci_line :: "u64 option"
  rci_body :: string

record create_review_request =
  crr_body :: "string option"
  crr_event :: review_state
  crr_comments :: "review_comment_input list"
  crr_expected_head_sha :: "string option"

record dismiss_review_request =
  drr_review_id :: uuid
  drr_expected_head_sha :: string
  drr_reason :: string

record merge_pull_request_request =
  mpr_commit_title :: "string option"
  mpr_commit_message :: "string option"
  mpr_sha :: "string option"
  mpr_merge_method :: string

definition default_merge_pull_request_request :: merge_pull_request_request where
  "default_merge_pull_request_request =
     \<lparr>mpr_commit_title = None, mpr_commit_message = None, mpr_sha = None,
      mpr_merge_method = ''merge''\<rparr>"

record merge_result =
  mr_sha :: string
  mr_merged :: bool
  mr_message :: string

section \<open>Commit statuses and check runs (checks.rs)\<close>

datatype commit_status_state = StError | StFailure | StPending | StSuccess

record commit_status =
  cs_id :: uuid
  cs_owner :: string
  cs_repo :: string
  cs_sha :: string
  cs_state :: commit_status_state
  cs_context :: string
  cs_base :: "string option"
  cs_description :: "string option"
  cs_target_url :: "string option"
  cs_creator :: string
  cs_created_at :: time
  cs_updated_at :: time

record create_commit_status_request =
  ccs_state :: commit_status_state
  ccs_context :: string
  ccs_base :: "string option"
  ccs_description :: "string option"
  ccs_target_url :: "string option"

definition normalize_base_ref :: "string \<Rightarrow> string" where
  "normalize_base_ref name =
     (let name = str_trim name in
      case strip_prefix name ''refs/heads/'' of Some rest \<Rightarrow> rest | None \<Rightarrow> name)"

definition status_answers_for_base :: "commit_status \<Rightarrow> string \<Rightarrow> bool" where
  "status_answers_for_base status base_ref =
     (case cs_base status of
        Some status_base \<Rightarrow>
          (let base_ref = normalize_base_ref base_ref
           in base_ref \<noteq> [] \<and> normalize_base_ref status_base = base_ref)
      | None \<Rightarrow> True)"

text \<open>The loop of the source: \<open>current\<close> is the best row seen so far.\<close>

fun current_status_loop ::
  "commit_status option \<Rightarrow> commit_status list \<Rightarrow> string \<Rightarrow> string \<Rightarrow> commit_status option" where
  "current_status_loop current [] ctx base_ref = current"
| "current_status_loop current (status # rest) ctx base_ref =
     (if cs_context status \<noteq> ctx \<or> \<not> status_answers_for_base status base_ref
      then current_status_loop current rest ctx base_ref
      else if (case current of None \<Rightarrow> True | Some seen \<Rightarrow> cs_updated_at seen \<le> cs_updated_at status)
      then current_status_loop (Some status) rest ctx base_ref
      else current_status_loop current rest ctx base_ref)"

definition current_status_for_base ::
  "commit_status list \<Rightarrow> string \<Rightarrow> string \<Rightarrow> commit_status option" where
  "current_status_for_base statuses ctx base_ref = current_status_loop None statuses ctx base_ref"

record combined_status =
  cb_state :: commit_status_state
  cb_total_count :: nat
  cb_statuses :: "commit_status list"

datatype check_run_status = CrQueued | CrInProgress | CrCompleted

datatype check_conclusion =
  CcActionRequired | CcCancelled | CcFailure | CcNeutral | CcSuccess | CcSkipped | CcSuperseded
| CcTimedOut

definition superseded_check_conclusion :: string where
  "superseded_check_conclusion = ''st'' @ ''ale''"

fun check_conclusion_wire_value :: "check_conclusion \<Rightarrow> string" where
  "check_conclusion_wire_value CcActionRequired = ''action_required''"
| "check_conclusion_wire_value CcCancelled = ''cancelled''"
| "check_conclusion_wire_value CcFailure = ''failure''"
| "check_conclusion_wire_value CcNeutral = ''neutral''"
| "check_conclusion_wire_value CcSuccess = ''success''"
| "check_conclusion_wire_value CcSkipped = ''skipped''"
| "check_conclusion_wire_value CcSuperseded = superseded_check_conclusion"
| "check_conclusion_wire_value CcTimedOut = ''timed_out''"

text \<open>\<^verbatim>\<open>visit_str\<close>; \<open>None\<close> is the unknown-variant error.\<close>

definition check_conclusion_visit_str :: "string \<Rightarrow> check_conclusion option" where
  "check_conclusion_visit_str value =
     (if value = ''action_required'' then Some CcActionRequired
      else if value = ''cancelled'' then Some CcCancelled
      else if value = ''failure'' then Some CcFailure
      else if value = ''neutral'' then Some CcNeutral
      else if value = ''success'' then Some CcSuccess
      else if value = ''skipped'' then Some CcSkipped
      else if value = superseded_check_conclusion then Some CcSuperseded
      else if value = ''timed_out'' then Some CcTimedOut
      else None)"

record check_run_output =
  co_title :: string
  co_summary :: string
  co_text :: "string option"

record check_run =
  ck_id :: uuid
  ck_owner :: string
  ck_repo :: string
  ck_name :: string
  ck_head_sha :: string
  ck_status :: check_run_status
  ck_conclusion :: "check_conclusion option"
  ck_details_url :: "string option"
  ck_output :: "check_run_output option"
  ck_started_at :: time
  ck_completed_at :: "time option"
  ck_creation_sequence :: u64

definition recency_key :: "check_run \<Rightarrow> u64 \<times> time \<times> uuid" where
  "recency_key run = (ck_creation_sequence run, ck_started_at run, ck_id run)"

definition check_run_newest :: "check_run list \<Rightarrow> check_run option" where
  "check_run_newest runs = max_by_key recency_key runs"

record create_check_run_request =
  ccr_name :: string
  ccr_head_sha :: string
  ccr_status :: "check_run_status option"
  ccr_conclusion :: "check_conclusion option"
  ccr_details_url :: "string option"
  ccr_output :: "check_run_output option"

record check_run_list =
  cl_total_count :: nat
  cl_check_runs :: "check_run list"

record check_suite =
  su_id :: uuid
  su_owner :: string
  su_repo :: string
  su_head_sha :: string
  su_status :: check_run_status
  su_conclusion :: "check_conclusion option"
  su_check_runs :: "check_run list"

record workflow_run =
  wr_id :: uuid
  wr_name :: string
  wr_head_sha :: string
  wr_status :: check_run_status
  wr_conclusion :: "check_conclusion option"
  wr_check_runs :: "check_run list"

record workflow_run_list =
  wl_total_count :: nat
  wl_workflow_runs :: "workflow_run list"

section \<open>Issues, labels and comments (issues.rs)\<close>

datatype issue_state = IssueOpen | IssueClosed

record label =
  lb_id :: uuid
  lb_name :: string
  lb_color :: string
  lb_description :: "string option"

record create_label_request =
  clr_name :: string
  clr_color :: string
  clr_description :: "string option"

record pull_request_marker =
  pm_url :: string
  pm_html_url :: string

record issue =
  is_id :: uuid
  is_owner :: string
  is_repo :: string
  is_number :: u64
  is_title :: string
  is_body :: "string option"
  is_state :: issue_state
  is_author :: string
  is_labels :: "string list"
  is_assignees :: "string list"
  is_milestone :: "string option"
  is_comments :: u64
  is_pull_request :: "pull_request_marker option"
  is_created_at :: time
  is_updated_at :: time
  is_closed_at :: "time option"

record create_issue_request =
  cir_title :: string
  cir_body :: "string option"
  cir_labels :: "string list"
  cir_assignees :: "string list"
  cir_milestone :: "string option"

record update_issue_request =
  uir_title :: "string option"
  uir_body :: "string option"
  uir_state :: "issue_state option"
  uir_labels :: "string list option"
  uir_assignees :: "string list option"
  uir_milestone :: "string option"

record issue_comment =
  ic_id :: uuid
  ic_owner :: string
  ic_repo :: string
  ic_issue_number :: u64
  ic_author :: string
  ic_body :: string
  ic_created_at :: time
  ic_updated_at :: time

section \<open>Users, organizations, teams and repositories (repo.rs)\<close>

record user =
  us_id :: uuid
  us_login :: string
  us_name :: "string option"
  us_email :: "string option"
  us_created_at :: time

record create_user_request =
  cur_login :: string
  cur_name :: "string option"
  cur_email :: "string option"

record organization =
  og_id :: uuid
  og_login :: string
  og_display_name :: "string option"
  og_created_at :: time
  og_owners :: "string list"
  og_created_by :: "string option"

record create_organization_request =
  cog_login :: string
  cog_display_name :: "string option"

record team =
  tm_id :: uuid
  tm_organization :: string
  tm_slug :: string
  tm_name :: string
  tm_members :: "string list"
  tm_created_at :: time

record create_team_request =
  ctm_name :: string
  ctm_slug :: "string option"
  ctm_members :: "string list"

record repository =
  rp_id :: uuid
  rp_owner :: string
  rp_name :: string
  rp_full_name :: string
  rp_private :: bool
  rp_description :: "string option"
  rp_default_branch :: string
  rp_family :: "string option"
  rp_archived :: bool
  rp_disabled :: bool
  rp_created_at :: time
  rp_updated_at :: time
  rp_pushed_at :: "time option"
  rp_default_branch_protection_opt_out :: bool

record create_repository_request =
  crp_name :: string
  crp_private :: bool
  crp_description :: "string option"
  crp_default_branch :: "string option"

text \<open>An old slug kept after a move (repository_transfer.rs).\<close>

datatype repository_alias_origin = OriginTransfer | OriginRename

record repository_alias =
  al_repository_id :: uuid
  al_owner :: string
  al_name :: string
  al_canonical_owner :: string
  al_canonical_name :: string
  al_created_at :: time
  al_transaction_id :: uuid
  al_origin :: repository_alias_origin

section \<open>Merge and ref blockers (branch_protection/types.rs)\<close>

datatype merge_blocker =
  DraftPullRequest
| MissingReview (mb_required: u64) (mb_approved: u64)
| BlockedChangesRequested (mb_reviewers: "string list")
| MissingStatusCheck (mb_context: string)
| FailedStatusCheck (mb_context: string)
| JankuraiProofRequired
| ShaMismatch (mb_expected: string) (mb_actual: string)
| NonLinearHistory (mb_sha: string)
| UnsignedCommits (mb_unsigned: "string list")
| MissingCodeOwnerReview (mb_paths: "string list") (mb_owners: "string list")

datatype ref_operation = ForcePush | DeleteRef

datatype ref_operation_blocker = ForcePushNotAllowed | DeletionNotAllowed

record ref_operation_evaluation =
  re_allowed :: bool
  re_blockers :: "ref_operation_blocker list"

record evaluation_context =
  ec_codeowners :: "string option"
  ec_actor_is_admin :: bool
  ec_jankurai_proof_mandatory :: bool

record branch_protection_evaluation =
  ev_mergeable :: bool
  ev_state :: string
  ev_blockers :: "merge_blocker list"

definition evaluation_pass :: branch_protection_evaluation where
  "evaluation_pass = \<lparr>ev_mergeable = True, ev_state = ''clean'', ev_blockers = []\<rparr>"

definition from_blockers :: "merge_blocker list \<Rightarrow> branch_protection_evaluation" where
  "from_blockers blockers =
     \<lparr>ev_mergeable = (blockers = []),
      ev_state = (if blockers = [] then ''clean'' else ''blocked''),
      ev_blockers = blockers\<rparr>"

section \<open>Errors (errors.rs)\<close>

text \<open>
  The constructors are the source's. A message that the code builds with the \<^verbatim>\<open>{:?}\<close> rendering
  of a value carries the value instead of its text. \<open>Panicked\<close> is no value of the source's enum: it
  is what a call gives that panics (an \<^verbatim>\<open>expect\<close> that fails), so that panics are visible in the
  results; no operation catches it.
\<close>

datatype refusal =
  RefusalText string
| RefusalBlockers "merge_blocker list"
| RefusalRefBlockers "ref_operation_blocker list"
| RefusalOverride merge_blocker

datatype forge_error =
  NotFound string
| Conflict string
| Validation string
| Forbidden string
| BranchProtection refusal
| RepositoryArchived string
| Storage string
| WaitlistFull
| StoreCustody string
| Panicked string

section \<open>JSON values\<close>

text \<open>
  \<^verbatim>\<open>serde_json::Value\<close> as the core builds it: plain values, and domain structs serialised by
  their derived \<^verbatim>\<open>Serialize\<close>, which are kept as the struct.
\<close>

datatype json =
  JNull
| JBool bool
| JNum int
| JStr string
| JUuid uuid
| JArr "json list"
| JObj "(string \<times> json) list"
| JPull pull_request
| JIssue issue
| JIssueComment issue_comment
| JReview review
| JStatus commit_status
| JStatuses "commit_status list"
| JCheckRun check_run
| JRule branch_protection_rule
| JTime time
| JBlockers "merge_blocker list"
| JError forge_error

definition j_opt :: "('a \<Rightarrow> json) \<Rightarrow> 'a option \<Rightarrow> json" where
  "j_opt f x = (case x of None \<Rightarrow> JNull | Some y \<Rightarrow> f y)"

section \<open>Webhooks (model/webhooks.rs, webhooks.rs)\<close>

record webhook_config =
  wc_url :: string
  wc_content_type :: string
  wc_secret :: "string option"

record webhook =
  wh_id :: uuid
  wh_owner :: string
  wh_repo :: string
  wh_name :: string
  wh_active :: bool
  wh_events :: "string list"
  wh_config :: webhook_config
  wh_created_at :: time
  wh_updated_at :: time

record create_webhook_request =
  cwr_name :: string
  cwr_active :: bool
  cwr_events :: "string list"
  cwr_config :: webhook_config

definition default_create_webhook_request :: create_webhook_request where
  "default_create_webhook_request =
     \<lparr>cwr_name = ''web'', cwr_active = True, cwr_events = [''push'', ''pull_request''],
      cwr_config = \<lparr>wc_url = [], wc_content_type = ''json'', wc_secret = None\<rparr>\<rparr>"

record webhook_delivery =
  wd_id :: uuid
  wd_hook_id :: uuid
  wd_owner :: string
  wd_repo :: string
  wd_event :: string
  wd_target_url :: string
  wd_payload :: json
  wd_signature_256 :: "string option"
  wd_delivered :: bool
  wd_created_at :: time

definition should_deliver :: "webhook \<Rightarrow> string \<Rightarrow> bool" where
  "should_deliver hook event =
     (wh_active hook \<and>
      (list_ex (\<lambda>name. name = ''*'') (wh_events hook) \<or>
       list_ex (\<lambda>name. name = event) (wh_events hook)))"

definition event_payload :: "string \<Rightarrow> string \<Rightarrow> json \<Rightarrow> json" where
  "event_payload action object_name object =
     JObj [(''action'', JStr action), (object_name, object),
           (''sender'', JObj [(''login'', JStr ''jeryu'')])]"

section \<open>Patch identities (jeryu-gitd/src/patch_id.rs)\<close>

definition MAX_COMMITS :: nat where
  "MAX_COMMITS = 256"

definition is_review_patch_id :: "string \<Rightarrow> bool" where
  "is_review_patch_id value =
     (case strip_prefix value ''v2:'' of
        None \<Rightarrow> False
      | Some d \<Rightarrow> length d = 64 \<and> list_all is_ascii_hexdigit d)"

section \<open>Facts about statuses and check runs\<close>

lemma current_status_loop_eq:
  "current_status_loop cur ss ctx base =
     fold (\<lambda>x best. case best of None \<Rightarrow> Some x
             | Some b \<Rightarrow> if cs_updated_at b \<le> cs_updated_at x then Some x else Some b)
       [s \<leftarrow> ss. cs_context s = ctx \<and> status_answers_for_base s base] cur"
  by (induction cur ss ctx base rule: current_status_loop.induct) (auto split: option.splits)

text \<open>The selection loop is \<^verbatim>\<open>max_by_key(updated_at)\<close> over the rows that answer.\<close>

lemma current_status_for_base_eq:
  "current_status_for_base ss ctx base =
     max_by_key cs_updated_at [s \<leftarrow> ss. cs_context s = ctx \<and> status_answers_for_base s base]"
  by (simp add: current_status_for_base_def current_status_loop_eq max_by_key_def)

lemma current_status_answers:
  assumes "current_status_for_base ss ctx base = Some s"
  shows "s \<in> set ss" and "cs_context s = ctx" and "status_answers_for_base s base"
  using max_by_key_in [OF assms [unfolded current_status_for_base_eq]] by auto

lemma current_status_None:
  "current_status_for_base ss ctx base = None \<longleftrightarrow>
     (\<forall>s \<in> set ss. cs_context s = ctx \<longrightarrow> \<not> status_answers_for_base s base)"
  by (auto simp: current_status_for_base_eq filter_empty_conv)

lemma check_conclusion_roundtrip:
  "check_conclusion_visit_str (check_conclusion_wire_value c) = Some c"
  by (cases c) (simp_all add: check_conclusion_visit_str_def superseded_check_conclusion_def)

end
