(* ===== verification/Account_Types.thy ===== *)
theory Account_Types
  imports Forge_Types
begin

text \<open>
  Accounts, repository grants, bots, audit scores and the transfer journal as far as the modelled
  operations read or clear them (\<^verbatim>\<open>src/crates/jeryu-core/src/model/{auth,bots,jankurai,
  repository_transfer}.rs\<close>, the record types of \<^verbatim>\<open>engine/{bots,team_bots}.rs\<close>).
\<close>

section \<open>Accounts and grants (model/auth.rs)\<close>

datatype user_role = RoleAdmin | RoleUser

datatype account_status = PendingActivation | PendingMfa | Active | Disabled | Locked

definition permits_authentication :: "account_status \<Rightarrow> bool" where
  "permits_authentication status = (status = Active)"

record user_account =
  ua_canonical_login :: string
  ua_display_name :: string
  ua_password_hash :: string
  ua_role :: user_role
  ua_status :: account_status
  ua_auth_epoch :: u64
  ua_must_change_password :: bool
  ua_created_at :: time
  ua_updated_at :: time

datatype repo_access_level = AccessRead | AccessWrite | AccessAdmin

definition allows_read :: "repo_access_level \<Rightarrow> bool" where
  "allows_read level = (level = AccessRead \<or> level = AccessWrite \<or> level = AccessAdmin)"

definition allows_write :: "repo_access_level \<Rightarrow> bool" where
  "allows_write level = (level = AccessWrite \<or> level = AccessAdmin)"

definition allows_admin :: "repo_access_level \<Rightarrow> bool" where
  "allows_admin level = (level = AccessAdmin)"

text \<open>The derived order of the enum: \<^verbatim>\<open>Read < Write < Admin\<close>.\<close>

fun access_rank :: "repo_access_level \<Rightarrow> nat" where
  "access_rank AccessRead = 0"
| "access_rank AccessWrite = 1"
| "access_rank AccessAdmin = 2"

instantiation repo_access_level :: linorder
begin

definition less_eq_repo_access_level :: "repo_access_level \<Rightarrow> repo_access_level \<Rightarrow> bool" where
  "less_eq_repo_access_level a b = (access_rank a \<le> access_rank b)"

definition less_repo_access_level :: "repo_access_level \<Rightarrow> repo_access_level \<Rightarrow> bool" where
  "less_repo_access_level a b = (access_rank a < access_rank b)"

instance
proof
  fix a b :: repo_access_level
  show "a \<le> b \<Longrightarrow> b \<le> a \<Longrightarrow> a = b"
    by (cases a; cases b) (simp_all add: less_eq_repo_access_level_def)
qed (auto simp: less_eq_repo_access_level_def less_repo_access_level_def)

end

text \<open>The three permission tests are the upward closed sets of that order.\<close>

lemma allows_by_rank:
  "allows_read level \<longleftrightarrow> AccessRead \<le> level"
  "allows_write level \<longleftrightarrow> AccessWrite \<le> level"
  "allows_admin level \<longleftrightarrow> AccessAdmin \<le> level"
  by (cases level; simp add: allows_read_def allows_write_def allows_admin_def
      less_eq_repo_access_level_def)+

record repo_access_grant =
  ga_login :: string
  ga_owner :: string
  ga_repo :: string
  ga_access :: repo_access_level
  ga_granted_by :: string
  ga_granted_at :: time

section \<open>Bots (model/bots.rs, engine/bots.rs, engine/team_bots.rs)\<close>

datatype bot_owner_kind = OwnedByUser | OwnedByOrganization

datatype bot_status = BotActive | BotSuspended | BotRevoked

datatype bot_task_kind = TaskIssue | TaskPull | TaskBranch

record bot_repo_ref =
  bf_owner :: string
  bf_name :: string

datatype bot_reach =
  ReachGeneral "string list option"
| ReachOwners "string list" "string list option"
| ReachRepositories "bot_repo_ref list" "string list option"
| ReachTask bot_repo_ref bot_task_kind string "string list option"

datatype bot_repo_access = BotRead | BotWrite

record bot_record =
  bo_id :: uuid
  bo_owner :: string
  bo_owner_kind :: bot_owner_kind
  bo_steward_team :: "string option"
  bo_slug :: string
  bo_display_name :: string
  bo_kind :: string
  bo_status :: bot_status
  bo_reach :: bot_reach
  bo_auth_epoch :: u64
  bo_credential_generation :: u64
  bo_last_successful_access :: "time option"
  bo_last_auth :: "time option"
  bo_last_mutation :: "time option"
  bo_last_heartbeat :: "time option"
  bo_last_action :: "string option"
  bo_last_outcome :: "string option"
  bo_last_repo :: "string option"
  bo_created_at :: time
  bo_updated_at :: time

record bot_repo_grant_record =
  bg_bot_id :: uuid
  bg_repo_id :: uuid
  bg_access :: bot_repo_access
  bg_granted_by :: string
  bg_granted_at :: time

definition TEAM_BOT_LOGIN_SUFFIX :: string where
  "TEAM_BOT_LOGIN_SUFFIX = ''[bot]''"

definition team_bot_login :: "string \<Rightarrow> string \<Rightarrow> string" where
  "team_bot_login organization slug = organization @ ''.'' @ slug @ TEAM_BOT_LOGIN_SUFFIX"

definition login_char :: "char \<Rightarrow> bool" where
  "login_char c = (is_ascii_lowercase c \<or> is_ascii_digit c \<or> c = CHR ''-'' \<or> c = CHR ''_'')"

definition canonical_part :: "string \<Rightarrow> bool" where
  "canonical_part part = (part \<noteq> [] \<and> list_all login_char part)"

definition parse_team_bot_login :: "string \<Rightarrow> (string \<times> string) option" where
  "parse_team_bot_login login =
     (case strip_suffix login TEAM_BOT_LOGIN_SUFFIX of
        None \<Rightarrow> None
      | Some name \<Rightarrow>
          (case split_once (CHR ''.'') name of
             None \<Rightarrow> None
           | Some (organization, slug) \<Rightarrow>
               if canonical_part organization \<and> canonical_part slug
               then Some (organization, slug) else None))"

section \<open>Audit scores and the transfer journal\<close>

record jankurai_score =
  js_id :: uuid
  js_owner :: string
  js_repo :: string
  js_branch :: string
  js_commit_sha :: string
  js_score :: "nat option"
  js_hard_findings :: nat
  js_decision :: string
  js_caps_applied :: "string list"
  js_report_json :: "string option"
  js_created_at :: time

datatype repository_transfer_status = TransferPrepared | TransferCommitted | TransferFailed

record repository_transfer_journal =
  tj_transaction_id :: uuid
  tj_idempotency_key :: string
  tj_request_fingerprint :: string
  tj_repository_id :: uuid
  tj_source_owner :: string
  tj_source_name :: string
  tj_destination_owner :: string
  tj_destination_name :: string
  tj_status :: repository_transfer_status
  tj_prepared_at :: time
  tj_completed_at :: "time option"
  tj_failure :: "string option"
  tj_receipt :: "json option"

section \<open>Team bot logins\<close>

lemma split_once_here: "c \<notin> set a \<Longrightarrow> split_once c (a @ c # b) = Some (a, b)"
  by (induction a) auto

lemma split_once_Some:
  "split_once c s = Some (a, b) \<longleftrightarrow> s = a @ c # b \<and> c \<notin> set a"
proof (induction s arbitrary: a)
  case Nil
  show ?case by simp
next
  case (Cons x xs)
  show ?case
  proof (cases "x = c")
    case True
    then show ?thesis by (cases a) auto
  next
    case False
    with Cons.IH show ?thesis by (cases a) auto
  qed
qed

lemma login_char_no_dot: "canonical_part s \<Longrightarrow> CHR ''.'' \<notin> set s"
  by (auto simp: canonical_part_def list_all_iff login_char_def str_simps)

lemma login_char_no_bracket: "list_all login_char s \<Longrightarrow> CHR '']'' \<notin> set s"
  by (auto simp: list_all_iff login_char_def str_simps)

text \<open>Printing and parsing a team bot's login are inverse on canonical names.\<close>

lemma parse_team_bot_login_iff:
  "parse_team_bot_login login = Some (organization, slug) \<longleftrightarrow>
     login = team_bot_login organization slug \<and> canonical_part organization \<and> canonical_part slug"
proof -
  have strip: "strip_suffix login TEAM_BOT_LOGIN_SUFFIX = Some name \<longleftrightarrow>
      login = name @ TEAM_BOT_LOGIN_SUFFIX" for name
    by (auto simp: strip_suffix_def ends_with_def TEAM_BOT_LOGIN_SUFFIX_def)
      (metis append_take_drop_id)
  show ?thesis
  proof (cases "strip_suffix login TEAM_BOT_LOGIN_SUFFIX")
    case None
    have "login \<noteq> team_bot_login organization slug"
    proof
      assume "login = team_bot_login organization slug"
      with strip [of "organization @ ''.'' @ slug"] None show False
        by (simp add: team_bot_login_def)
    qed
    with None show ?thesis by (simp add: parse_team_bot_login_def)
  next
    case (Some name)
    with strip have login: "login = name @ TEAM_BOT_LOGIN_SUFFIX" by blast
    have "parse_team_bot_login login = Some (organization, slug) \<longleftrightarrow>
        split_once (CHR ''.'') name = Some (organization, slug) \<and>
        canonical_part organization \<and> canonical_part slug"
      using Some by (auto simp: parse_team_bot_login_def split: option.splits)
    also have "\<dots> \<longleftrightarrow> login = team_bot_login organization slug \<and>
        canonical_part organization \<and> canonical_part slug"
      using login by (auto simp: split_once_Some team_bot_login_def dest: login_char_no_dot)
    finally show ?thesis .
  qed
qed

text \<open>No account login has the shape of a team bot's: account logins hold no bracket.\<close>

lemma account_login_no_bot:
  assumes "list_all login_char login"
  shows "parse_team_bot_login login = None"
proof (rule ccontr)
  assume "parse_team_bot_login login \<noteq> None"
  then obtain organization slug where "parse_team_bot_login login = Some (organization, slug)"
    by fastforce
  then have "CHR '']'' \<in> set login"
    by (simp add: parse_team_bot_login_iff team_bot_login_def TEAM_BOT_LOGIN_SUFFIX_def)
  with login_char_no_bracket [OF assms] show False by simp
qed

end
