(* ===== verification/Credential_Types.thy ===== *)
theory Credential_Types
  imports Account_Types
begin

text \<open>
  Sessions, tokens, invitations, recovery secrets and the waitlist (the rest of \<^verbatim>\<open>model/auth.rs\<close>,
  the record types of \<^verbatim>\<open>engine/password_recovery.rs\<close>, \<^verbatim>\<open>engine/bots.rs\<close>,
  \<^verbatim>\<open>engine/bot_tokens.rs\<close>, \<^verbatim>\<open>engine/vault.rs\<close> and \<^verbatim>\<open>engine/provider_connections.rs\<close>).
\<close>

section \<open>Accounts as they are shown\<close>

record account_summary =
  as_login :: string
  as_display_name :: string
  as_role :: user_role
  as_status :: account_status
  as_auth_epoch :: u64
  as_must_change_password :: bool
  as_created_at :: time
  as_updated_at :: time

definition account_summary_from :: "user_account \<Rightarrow> account_summary" where
  "account_summary_from account =
     \<lparr>as_login = ua_canonical_login account, as_display_name = ua_display_name account,
      as_role = ua_role account, as_status = ua_status account,
      as_auth_epoch = ua_auth_epoch account,
      as_must_change_password = ua_must_change_password account,
      as_created_at = ua_created_at account, as_updated_at = ua_updated_at account\<rparr>"

section \<open>Sessions and personal tokens\<close>

record web_session =
  ws_id :: uuid
  ws_login :: string
  ws_auth_epoch :: u64
  ws_token_hash :: string
  ws_csrf_token :: string
  ws_created_at :: time
  ws_expires_at :: time

record session_receipt =
  sr_session :: web_session
  sr_token :: string

record personal_access_token =
  pt_id :: uuid
  pt_login :: string
  pt_auth_epoch :: u64
  pt_name :: string
  pt_token_hash :: string
  pt_created_at :: time
  pt_expires_at :: "time option"

record personal_access_token_summary =
  ps_id :: uuid
  ps_login :: string
  ps_name :: string
  ps_created_at :: time
  ps_expires_at :: "time option"

definition token_summary_from :: "personal_access_token \<Rightarrow> personal_access_token_summary" where
  "token_summary_from token =
     \<lparr>ps_id = pt_id token, ps_login = pt_login token, ps_name = pt_name token,
      ps_created_at = pt_created_at token, ps_expires_at = pt_expires_at token\<rparr>"

record personal_access_token_receipt =
  pe_token :: personal_access_token
  pe_secret :: string

section \<open>Invitations\<close>

record invitation_bindings =
  ib_role :: user_role
  ib_teams :: "string list"

record account_invitation =
  iv_id :: uuid
  iv_canonical_login :: string
  iv_display_name :: string
  iv_activation_secret_hash :: string
  iv_issuer_principal :: string
  iv_intended_bindings :: invitation_bindings
  iv_created_at :: time
  iv_expires_at :: time
  iv_consumed_at :: "time option"
  iv_revoked_at :: "time option"
  iv_attempt_count :: nat
  iv_bootstrap_owner :: bool

record account_invitation_summary =
  im_id :: uuid
  im_canonical_login :: string
  im_display_name :: string
  im_issuer_principal :: string
  im_intended_bindings :: invitation_bindings
  im_created_at :: time
  im_expires_at :: time
  im_consumed_at :: "time option"
  im_revoked_at :: "time option"
  im_attempt_count :: nat

definition invitation_summary_from :: "account_invitation \<Rightarrow> account_invitation_summary" where
  "invitation_summary_from invitation =
     \<lparr>im_id = iv_id invitation, im_canonical_login = iv_canonical_login invitation,
      im_display_name = iv_display_name invitation,
      im_issuer_principal = iv_issuer_principal invitation,
      im_intended_bindings = iv_intended_bindings invitation,
      im_created_at = iv_created_at invitation, im_expires_at = iv_expires_at invitation,
      im_consumed_at = iv_consumed_at invitation, im_revoked_at = iv_revoked_at invitation,
      im_attempt_count = iv_attempt_count invitation\<rparr>"

record account_invitation_receipt =
  ir_invitation :: account_invitation_summary
  ir_activation_secret :: string

record activation_start_receipt =
  ar_challenge :: string
  ar_expires_at :: time

record activation_challenge =
  ac_id :: uuid
  ac_invitation_id :: uuid
  ac_challenge_hash :: string
  ac_created_at :: time
  ac_expires_at :: time
  ac_consumed_at :: "time option"

section \<open>Password recovery\<close>

record password_recovery_record =
  py_token_id :: string
  py_login :: string
  py_secret_hash :: string
  py_auth_epoch :: u64
  py_created_at :: time
  py_expires_at :: time
  py_consumed_at :: "time option"
  py_attempt_count :: nat

record password_recovery_issued =
  pi_login :: string
  pi_token_id :: string
  pi_token :: string
  pi_expires_at :: time

record password_recovery_receipt =
  pq_account :: account_summary
  pq_sessions_ended :: nat
  pq_personal_access_tokens_revoked :: nat

record verified_spend =
  vs_login :: string
  vs_auth_epoch :: u64

datatype refusal_kind = WrongSecret | Refused

section \<open>The waitlist\<close>

datatype waitlist_status = Listed | Invited | Declined

record waitlist_signup =
  wl_email :: string
  wl_name :: "string option"
  wl_note :: "string option"
  wl_status :: waitlist_status
  wl_source :: string
  wl_request_count :: nat
  wl_created_at :: time
  wl_last_requested_at :: time

datatype waitlist_join = Created waitlist_signup | AlreadyListed waitlist_signup

section \<open>Bot credentials\<close>

record bot_key_record =
  bk_key_id :: string
  bk_bot_id :: uuid
  bk_secret_hash :: string
  bk_env :: string
  bk_created_at :: time
  bk_retired_at :: "time option"
  bk_revoked_at :: "time option"

record bot_refresh_record =
  br_token_hash :: string
  br_bot_id :: uuid
  br_key_id :: string
  br_generation :: u64
  br_expires_at :: time
  br_used_at :: "time option"

record bot_access_token_record =
  bt_token_hash :: string
  bt_token_id :: string
  bt_bot_id :: uuid
  bt_key_id :: string
  bt_generation :: u64
  bt_label :: "string option"
  bt_issued_by :: "string option"
  bt_created_at :: time
  bt_expires_at :: time
  bt_last_used_at :: "time option"
  bt_revoked_at :: "time option"

record bot_operation_record =
  bn_bot_id :: uuid
  bn_operation :: string
  bn_request_key :: string
  bn_body_digest :: string
  bn_result_json :: "string option"
  bn_created_at :: time

record bot_activity_event =
  bv_id :: uuid
  bv_bot_id :: uuid
  bv_key_id :: string
  bv_repo :: "string option"
  bv_session_id :: "string option"
  bv_action :: string
  bv_outcome :: string
  bv_scope :: string
  bv_created_at :: time

section \<open>Provider connections (model/provider_connections.rs)\<close>

datatype agent_provider = Claude | Codex | Grok

datatype credential_kind = OauthRefresh | ApiKey

datatype connection_state = ConnPending | Connected | AuthRequired | Disconnected

record provider_connection =
  pc_id :: string
  pc_owner_id :: string
  pc_provider :: agent_provider
  pc_provider_account :: string
  pc_credential_kind :: credential_kind
  pc_state :: connection_state
  pc_generation :: u64
  pc_secret_version :: u64
  pc_created_at :: time
  pc_updated_at :: time
  pc_refreshed_at :: "time option"

text \<open>\<^verbatim>\<open>SealedSecret\<close> of \<^verbatim>\<open>engine/vault.rs\<close>, \<^verbatim>\<open>Rotation\<close> and \<^verbatim>\<open>ConnectionRecord\<close> of
  \<^verbatim>\<open>engine/provider_connections.rs\<close>.\<close>

record sealed_secret =
  sl_key_id :: string
  sl_key_nonce :: string
  sl_wrapped_key :: string
  sl_nonce :: string
  sl_ciphertext :: string

record rotation =
  rt_secret_version :: u64
  rt_started_at :: time

record connection_record =
  cc_connection :: provider_connection
  cc_sealed :: "sealed_secret option"
  cc_rotation :: "rotation option"

text \<open>A summary shows nothing the account does not hold, and never the password hash or a secret.\<close>

lemma summary_login [simp]: "as_login (account_summary_from a) = ua_canonical_login a"
  "as_status (account_summary_from a) = ua_status a"
  "as_auth_epoch (account_summary_from a) = ua_auth_epoch a"
  "as_role (account_summary_from a) = ua_role a"
  by (simp_all add: account_summary_from_def)

end
