(* ===== verification/Samples.thy ===== *)
theory Samples
  imports Forge_Types
begin

text \<open>
  Concrete values on which the theorems are instantiated: a repository \<^verbatim>\<open>acme/core\<close>, a pull
  request by \<^verbatim>\<open>ann\<close> onto \<^verbatim>\<open>main\<close>, reviews, statuses, check runs and a protection rule.
\<close>

definition ex_ref :: "string \<Rightarrow> string \<Rightarrow> git_branch_ref" where
  "ex_ref name sha = \<lparr>gr_label = name, gr_ref_name = name, gr_sha = sha\<rparr>"

definition ex_pull :: pull_request where
  "ex_pull =
     \<lparr>pr_id = 1, pr_owner = ''acme'', pr_repo = ''core'', pr_number = 1, pr_issue_number = 1,
      pr_title = ''t'', pr_body = None, pr_state = PrOpen, pr_draft = False, pr_author = ''ann'',
      pr_source_repository = ''acme/core'', pr_head = ex_ref ''topic'' ''h1'',
      pr_base = ex_ref ''main'' ''b1'', pr_mergeable = False, pr_mergeable_state = ''blocked'',
      pr_merged = False, pr_merged_at = None, pr_merge_commit_sha = None, pr_commits = [],
      pr_changed_files = [''a''], pr_head_patch_ids = [], pr_created_at = 0, pr_updated_at = 0\<rparr>"

definition ex_review :: "uuid \<Rightarrow> string \<Rightarrow> review_state \<Rightarrow> review" where
  "ex_review i who verdict =
     \<lparr>rv_id = i, rv_owner = ''acme'', rv_repo = ''core'', rv_pull_number = 1, rv_author = who,
      rv_state = verdict, rv_body = None, rv_head_sha = Some ''h1'', rv_head_patch_ids = [],
      rv_dismissed_review_id = None, rv_dismissal_authority = None, rv_submitted_at = 0\<rparr>"

definition ex_status :: "string \<Rightarrow> string option \<Rightarrow> commit_status_state \<Rightarrow> time \<Rightarrow> commit_status" where
  "ex_status ctx base state at =
     \<lparr>cs_id = 1, cs_owner = ''acme'', cs_repo = ''core'', cs_sha = ''h1'', cs_state = state,
      cs_context = ctx, cs_base = base, cs_description = None, cs_target_url = None,
      cs_creator = ''ci'', cs_created_at = at, cs_updated_at = at\<rparr>"

definition ex_rule :: branch_protection_rule where
  "ex_rule =
     \<lparr>bp_owner = ''acme'', bp_repo = ''core'', bp_branch = ''main'',
      bp_required_status_checks = [''ci''], bp_strict = False,
      bp_required_approving_review_count = 1, bp_enforce_admins = False,
      bp_allow_merge_override = False, bp_allow_admin_review_dismissal = False,
      bp_merge_override_status_checks = [], bp_merge_override_status_creators = [],
      bp_required_linear_history = False, bp_allow_force_pushes = False,
      bp_allow_deletions = False, bp_require_signed_commits = False,
      bp_require_jankurai_proof = False, bp_dismiss_stale_approvals = True,
      bp_require_exact_sha_approval = True, bp_updated_at = 0\<rparr>"

definition ex_check_run :: "string \<Rightarrow> u64 \<Rightarrow> check_conclusion option \<Rightarrow> check_run" where
  "ex_check_run name at conclusion =
     \<lparr>ck_id = at, ck_owner = ''acme'', ck_repo = ''core'', ck_name = name, ck_head_sha = ''h1'',
      ck_status = CrCompleted, ck_conclusion = conclusion, ck_details_url = None, ck_output = None,
      ck_started_at = 0, ck_completed_at = None, ck_creation_sequence = at\<rparr>"

definition ex_repository :: repository where
  "ex_repository =
     \<lparr>rp_id = 7, rp_owner = ''acme'', rp_name = ''core'', rp_full_name = ''acme/core'',
      rp_private = False, rp_description = None, rp_default_branch = ''main'', rp_family = None,
      rp_archived = False, rp_disabled = False, rp_created_at = 0, rp_updated_at = 0,
      rp_pushed_at = None, rp_default_branch_protection_opt_out = False\<rparr>"

lemmas ex_simps = ex_ref_def ex_pull_def ex_review_def ex_status_def ex_rule_def ex_check_run_def
  ex_repository_def

lemma ex_pull_sel:
  "pr_owner ex_pull = ''acme''" "pr_repo ex_pull = ''core''" "pr_number ex_pull = 1"
  "pr_issue_number ex_pull = 1" "pr_author ex_pull = ''ann''" "\<not> pr_merged ex_pull"
  "\<not> pr_draft ex_pull" "pr_state ex_pull = PrOpen" "pr_source_repository ex_pull = ''acme/core''"
  "gr_ref_name (pr_head ex_pull) = ''topic''" "gr_sha (pr_head ex_pull) = ''h1''"
  "gr_ref_name (pr_base ex_pull) = ''main''" "gr_sha (pr_base ex_pull) = ''b1''"
  by (simp_all add: ex_pull_def ex_ref_def)

lemma ex_repository_sel:
  "rp_id ex_repository = 7" "rp_owner ex_repository = ''acme''" "rp_name ex_repository = ''core''"
  "rp_default_branch ex_repository = ''main''" "\<not> rp_archived ex_repository"
  "\<not> rp_default_branch_protection_opt_out ex_repository" "rp_pushed_at ex_repository = None"
  by (simp_all add: ex_repository_def)

end
