(* ===== verification/Codeowners.thy ===== *)
theory Codeowners
  imports Samples
begin

text \<open>
  CODEOWNERS parsing and path matching
  (\<^verbatim>\<open>src/crates/jeryu-core/src/branch_protection/codeowners.rs\<close>): the ordered rules of the file,
  the owners of a path, and the glob forms the matcher supports.
\<close>

type_synonym owner_rules = "(string \<times> string list) list"

text \<open>One turn of the parser's loop: \<open>None\<close> is \<^verbatim>\<open>continue\<close>.\<close>

definition codeowners_line :: "string \<Rightarrow> (string \<times> string list) option" where
  "codeowners_line line =
     (let line = str_trim line in
      if line = [] \<or> starts_with line ''#'' then None
      else case split_whitespace line of
        [] \<Rightarrow> None
      | pat # parts \<Rightarrow>
          Some (pat, filter (\<lambda>owner. owner \<noteq> []) (map (trim_start_matches (CHR ''@'')) parts)))"

definition codeowners_parse :: "string \<Rightarrow> owner_rules" where
  "codeowners_parse contents = List.map_filter codeowners_line (str_lines contents)"

definition glob_match :: "string \<Rightarrow> string \<Rightarrow> bool" where
  "glob_match pat path =
     (let path = trim_start_matches (CHR ''/'') path in
      if pat = ''*'' then True
      else case strip_prefix pat ''*'' of
        Some suffix \<Rightarrow> ends_with path suffix
      | None \<Rightarrow>
          (let pat = trim_start_matches (CHR ''/'') pat in
           case strip_suffix pat ''/**'' of
             Some prefix \<Rightarrow>
               (let prefix = trim_end_matches (CHR ''/'') prefix
                in path = prefix \<or> starts_with path (prefix @ ''/''))
           | None \<Rightarrow>
               (case strip_suffix pat ''/'' of
                  Some prefix \<Rightarrow> starts_with path (prefix @ ''/'') \<or> path = prefix
                | None \<Rightarrow> path = pat \<or> starts_with path (pat @ ''/''))))"

definition owners_for :: "owner_rules \<Rightarrow> string \<Rightarrow> string list" where
  "owners_for rules path =
     (case find (\<lambda>(pat, _). glob_match pat path) (rev rules) of
        Some (_, owners) \<Rightarrow> owners
      | None \<Rightarrow> [])"

section \<open>Which rule decides\<close>

lemma find_append:
  "find P (xs @ ys) = (case find P xs of None \<Rightarrow> find P ys | Some x \<Rightarrow> Some x)"
  by (induction xs) auto

lemma find_rev_last:
  assumes "P x" and "\<forall>y \<in> set vs. \<not> P y"
  shows "find P (rev (us @ x # vs)) = Some x"
proof -
  have "find P (rev vs) = None" using assms(2) by (simp add: find_None_iff)
  with assms(1) show ?thesis by (simp add: find_append)
qed

lemma find_in: "find P xs = Some x \<Longrightarrow> x \<in> set xs \<and> P x"
  by (induction xs) (auto split: if_splits)

lemma owners_for_last:
  assumes "glob_match pat path" and "\<forall>(p, os) \<in> set later. \<not> glob_match p path"
  shows "owners_for (earlier @ (pat, owners) # later) path = owners"
proof -
  have "find (\<lambda>(p, _). glob_match p path) (rev (earlier @ (pat, owners) # later)) = Some (pat, owners)"
    by (rule find_rev_last) (use assms in auto)
  then show ?thesis by (simp add: owners_for_def)
qed

lemma owners_for_unmatched:
  assumes "\<forall>(p, os) \<in> set rules. \<not> glob_match p path"
  shows "owners_for rules path = []"
proof -
  have "find (\<lambda>(p, _). glob_match p path) (rev rules) = None"
    using assms by (auto simp: find_None_iff)
  then show ?thesis by (simp add: owners_for_def)
qed

lemma owners_for_in:
  assumes "owners_for rules path \<noteq> []"
  shows "\<exists>pat. (pat, owners_for rules path) \<in> set rules \<and> glob_match pat path"
proof (cases "find (\<lambda>(p, _). glob_match p path) (rev rules)")
  case None
  with assms show ?thesis by (simp add: owners_for_def)
next
  case (Some rule)
  with find_in [OF Some] show ?thesis by (auto simp: owners_for_def)
qed

text \<open>A comment line adds no rule, wherever it stands.\<close>

lemma codeowners_line_comment: "starts_with (str_trim line) ''#'' \<Longrightarrow> codeowners_line line = None"
  by (simp add: codeowners_line_def Let_def)

lemma codeowners_line_owner_nonempty:
  "codeowners_line line = Some (pat, owners) \<Longrightarrow> owner \<in> set owners \<Longrightarrow> owner \<noteq> []"
  by (auto simp: codeowners_line_def Let_def split: if_splits list.splits)

lemma codeowners_parse_owner_nonempty:
  "(pat, owners) \<in> set (codeowners_parse contents) \<Longrightarrow> owner \<in> set owners \<Longrightarrow> owner \<noteq> []"
  by (auto simp: codeowners_parse_def map_filter_def dest: codeowners_line_owner_nonempty)

section \<open>Properties\<close>

text \<open>
  In a CODEOWNERS file the last matching rule decides: when a rule's glob matches a path and
  no rule after it does, its owners are exactly the owners of the path, whatever stands before.
\<close>

theorem last_matching_rule_decides:
  assumes "codeowners_parse contents = earlier @ (pat, owners) # later"
    and "glob_match pat path"
    and "\<forall>(p, os) \<in> set later. \<not> glob_match p path"
  shows "owners_for (codeowners_parse contents) path = owners"
  using owners_for_last [OF assms(2,3)] by (simp add: assms(1))

text \<open>The file \<^verbatim>\<open>* @ann\<close>, \<^verbatim>\<open>src/ @bob\<close>, \<^verbatim>\<open>docs/ @cy\<close> on the path \<^verbatim>\<open>src/a\<close>.\<close>

theorem last_matching_rule_decides_witness:
  "owners_for
     (codeowners_parse (''* @ann'' @ CHR 0x0A # ''src/ @bob'' @ CHR 0x0A # ''docs/ @cy'')) ''src/a''
   = [''bob'']"
proof (rule last_matching_rule_decides
    [where earlier = "[(''*'', [''ann''])]" and pat = "''src/''" and later = "[(''docs/'', [''cy''])]"])
  show "codeowners_parse (''* @ann'' @ CHR 0x0A # ''src/ @bob'' @ CHR 0x0A # ''docs/ @cy'') =
      [(''*'', [''ann''])] @ (''src/'', [''bob'']) # [(''docs/'', [''cy''])]"
    by (simp add: codeowners_parse_def codeowners_line_def map_filter_simps str_simps)
  show "glob_match ''src/'' ''src/a''" by (simp add: glob_match_def str_simps)
  show "\<forall>(p, os) \<in> set [(''docs/'', [''cy''])]. \<not> glob_match p ''src/a''"
    by (simp add: glob_match_def str_simps)
qed

end
