(* ===== verification/Review_Selection.thy ===== *)
theory Review_Selection
  imports Samples
begin

text \<open>
  Which verdicts count at a head (\<^verbatim>\<open>src/crates/jeryu-core/src/branch_protection/reviews.rs\<close>). The
  reviews of a pull request are a list in the order Core appended them.
\<close>

datatype verdict_reach = ExactHead | UnchangedDiff

definition verdict_reach_for_rule :: "branch_protection_rule option \<Rightarrow> verdict_reach" where
  "verdict_reach_for_rule rule =
     (case rule of
        Some rule \<Rightarrow>
          if \<not> bp_dismiss_stale_approvals rule \<and> \<not> bp_require_exact_sha_approval rule
          then UnchangedDiff else ExactHead
      | None \<Rightarrow> ExactHead)"

definition is_cross_author_dismissal :: "review list \<Rightarrow> review \<Rightarrow> bool" where
  "is_cross_author_dismissal reviews d =
     (rv_state d = Dismissed \<and> rv_head_sha d \<noteq> None \<and>
      rv_dismissal_authority d = Some RepositoryAdmin \<and>
      (case rv_dismissed_review_id d of
         None \<Rightarrow> False
       | Some target \<Rightarrow>
           list_ex (\<lambda>r. rv_id r = target \<and> rv_author r \<noteq> rv_author d) reviews))"

definition withdrawn_by :: "review list \<Rightarrow> review \<Rightarrow> uuid option" where
  "withdrawn_by reviews d =
     (case rv_dismissed_review_id d of
        None \<Rightarrow> None
      | Some target \<Rightarrow>
          if list_ex (\<lambda>r. rv_id r = target \<and>
               (rv_author r = rv_author d \<or> rv_dismissal_authority d = Some RepositoryAdmin)) reviews
          then Some target else None)"

text \<open>The \<^verbatim>\<open>BTreeSet\<close> of withdrawn ids is only asked for membership.\<close>

definition withdrawn_verdicts :: "review list \<Rightarrow> uuid list" where
  "withdrawn_verdicts reviews =
     List.map_filter (withdrawn_by reviews)
       [r \<leftarrow> reviews. rv_state r = Dismissed \<and> rv_head_sha r \<noteq> None]"

definition dismissing_admins :: "review list \<Rightarrow> string list" where
  "dismissing_admins reviews =
     [to_ascii_lowercase (rv_author r). r \<leftarrow> reviews, is_cross_author_dismissal reviews r]"

text \<open>One turn of the loop of \<^verbatim>\<open>reduce_reviews\<close>: \<open>latest\<close> is the \<^verbatim>\<open>BTreeMap\<close> by author.\<close>

definition reduce_step ::
  "uuid list \<Rightarrow> string list \<Rightarrow> string option \<Rightarrow> review \<Rightarrow> (string \<times> review) list \<Rightarrow> (string \<times> review) list"
where
  "reduce_step withdrawn admins author r latest =
     (if rv_id r \<in> set withdrawn then bt_del (rv_author r) latest
      else if rv_state r = Approved \<and>
              (case author of None \<Rightarrow> False | Some a \<Rightarrow> eq_ignore_ascii_case (rv_author r) a)
      then latest
      else if rv_state r = Approved \<and> to_ascii_lowercase (rv_author r) \<in> set admins
      then latest
      else case rv_state r of
        Approved \<Rightarrow> bt_put (rv_author r) r latest
      | ChangesRequested \<Rightarrow> bt_put (rv_author r) r latest
      | Commented \<Rightarrow> latest
      | Dismissed \<Rightarrow>
          (case map_of latest (rv_author r) of
             None \<Rightarrow> latest
           | Some current \<Rightarrow>
               (if (case rv_dismissed_review_id r of
                      Some target \<Rightarrow> target = rv_id current
                    | None \<Rightarrow> rv_state current = Approved)
                then bt_del (rv_author r) latest else latest)))"

definition carries_unchanged_diff :: "string list \<Rightarrow> verdict_reach \<Rightarrow> bool" where
  "carries_unchanged_diff head_patch_ids reach =
     (reach = UnchangedDiff \<and> head_patch_ids \<noteq> [] \<and> length head_patch_ids \<le> MAX_COMMITS \<and>
      list_all is_review_patch_id head_patch_ids)"

definition speaks_for_head :: "string \<Rightarrow> string list \<Rightarrow> verdict_reach \<Rightarrow> review \<Rightarrow> bool" where
  "speaks_for_head head_sha head_patch_ids reach r =
     (rv_head_sha r = Some head_sha \<or>
      carries_unchanged_diff head_patch_ids reach \<and> rv_head_patch_ids r = head_patch_ids)"

definition reduce_reviews ::
  "review list \<Rightarrow> string \<Rightarrow> string list \<Rightarrow> verdict_reach \<Rightarrow> string option \<Rightarrow> review list" where
  "reduce_reviews reviews head_sha head_patch_ids reach author =
     map snd
       (fold (reduce_step (withdrawn_verdicts reviews) (dismissing_admins reviews) author)
          [r \<leftarrow> reviews. speaks_for_head head_sha head_patch_ids reach r] [])"

definition effective_reviews_for_head :: "review list \<Rightarrow> string \<Rightarrow> review list" where
  "effective_reviews_for_head reviews head_sha = reduce_reviews reviews head_sha [] ExactHead None"

definition effective_reviews_for_pull_request_with ::
  "review list \<Rightarrow> pull_request \<Rightarrow> verdict_reach \<Rightarrow> review list" where
  "effective_reviews_for_pull_request_with reviews pr reach =
     reduce_reviews reviews (gr_sha (pr_head pr)) (pr_head_patch_ids pr) reach (Some (pr_author pr))"

definition effective_reviews_for_pull_request :: "review list \<Rightarrow> pull_request \<Rightarrow> review list" where
  "effective_reviews_for_pull_request reviews pr =
     effective_reviews_for_pull_request_with reviews pr ExactHead"

section \<open>What a selected verdict is\<close>

definition countable :: "review list \<Rightarrow> string option \<Rightarrow> review \<Rightarrow> bool" where
  "countable reviews author r =
     ((rv_state r = Approved \<or> rv_state r = ChangesRequested) \<and>
      rv_id r \<notin> set (withdrawn_verdicts reviews) \<and>
      (rv_state r = Approved \<longrightarrow>
         (\<forall>a. author = Some a \<longrightarrow> \<not> eq_ignore_ascii_case (rv_author r) a) \<and>
         to_ascii_lowercase (rv_author r) \<notin> set (dismissing_admins reviews)))"

definition latest_ok :: "review list \<Rightarrow> string option \<Rightarrow> review list \<Rightarrow> (string \<times> review) list \<Rightarrow> bool" where
  "latest_ok reviews author seen latest =
     (bt_ok latest \<and>
      (\<forall>(a, r) \<in> set latest. a = rv_author r \<and> r \<in> set seen \<and> countable reviews author r))"

lemma bt_put_entries: "p \<in> set (bt_put k v m) \<Longrightarrow> p = (k, v) \<or> p \<in> set m"
  by (induction k v m rule: bt_put.induct) (auto split: if_splits)

lemma bt_del_entries: "p \<in> set (bt_del k m) \<Longrightarrow> p \<in> set m"
  by (simp add: bt_del_def)

lemma latest_ok_more:
  "latest_ok reviews a seen latest \<Longrightarrow> set seen \<subseteq> set seen' \<Longrightarrow> latest_ok reviews a seen' latest"
  by (auto simp: latest_ok_def)

lemma latest_ok_del: "latest_ok reviews a seen latest \<Longrightarrow> latest_ok reviews a seen (bt_del k latest)"
  by (auto simp: latest_ok_def bt_del_ok dest: bt_del_entries)

lemma latest_ok_put:
  "latest_ok reviews a seen latest \<Longrightarrow> countable reviews a r \<Longrightarrow> r \<in> set seen \<Longrightarrow>
    latest_ok reviews a seen (bt_put (rv_author r) r latest)"
  by (auto simp: latest_ok_def bt_put_ok dest!: bt_put_entries)

lemma reduce_step_cases:
  "reduce_step (withdrawn_verdicts reviews) (dismissing_admins reviews) a r latest = latest \<or>
   reduce_step (withdrawn_verdicts reviews) (dismissing_admins reviews) a r latest
     = bt_del (rv_author r) latest \<or>
   countable reviews a r \<and>
   reduce_step (withdrawn_verdicts reviews) (dismissing_admins reviews) a r latest
     = bt_put (rv_author r) r latest"
  by (cases "rv_state r")
    (simp_all add: reduce_step_def countable_def split: option.split)

lemma reduce_step_ok:
  assumes "latest_ok reviews a seen latest"
  shows "latest_ok reviews a (seen @ [r])
           (reduce_step (withdrawn_verdicts reviews) (dismissing_admins reviews) a r latest)"
proof -
  have ok: "latest_ok reviews a (seen @ [r]) latest"
    using assms by (rule latest_ok_more) auto
  from reduce_step_cases [of reviews a r latest] show ?thesis
    by (elim disjE conjE) (simp_all add: ok latest_ok_del latest_ok_put)
qed

lemma reduce_fold_ok:
  "latest_ok reviews a rs
     (fold (reduce_step (withdrawn_verdicts reviews) (dismissing_admins reviews) a) rs [])"
proof (induction rs rule: rev_induct)
  case Nil
  show ?case by (simp add: latest_ok_def bt_ok_def)
next
  case (snoc r rs)
  then show ?case by (simp add: reduce_step_ok)
qed

lemma reduce_reviews_member:
  assumes "r \<in> set (reduce_reviews reviews head ids reach a)"
  shows "r \<in> set reviews" and "speaks_for_head head ids reach r" and "countable reviews a r"
  using reduce_fold_ok [of reviews a "[r \<leftarrow> reviews. speaks_for_head head ids reach r]"] assms
  by (auto simp: reduce_reviews_def latest_ok_def)

lemma reduce_reviews_authors:
  "sorted (map rv_author (reduce_reviews reviews head ids reach a)) \<and>
   distinct (map rv_author (reduce_reviews reviews head ids reach a))"
proof -
  let ?latest = "fold (reduce_step (withdrawn_verdicts reviews) (dismissing_admins reviews) a)
    [r \<leftarrow> reviews. speaks_for_head head ids reach r] []"
  have ok: "latest_ok reviews a [r \<leftarrow> reviews. speaks_for_head head ids reach r] ?latest"
    by (rule reduce_fold_ok)
  then have "map rv_author (map snd ?latest) = map fst ?latest"
    by (auto simp: latest_ok_def)
  moreover have "sorted (map fst ?latest)" and "distinct (map fst ?latest)"
    using ok by (simp_all add: latest_ok_def bt_ok_def)
  ultimately show ?thesis by (simp only: reduce_reviews_def)
qed

section \<open>The verdict of one reviewer\<close>

text \<open>
  An abstract reading of the selection: a reviewer's own rows, in order, decide that reviewer's
  verdict, and nobody else's rows touch it.
\<close>

definition own_step :: "uuid list \<Rightarrow> string list \<Rightarrow> string option \<Rightarrow> review \<Rightarrow> review option \<Rightarrow> review option" where
  "own_step withdrawn admins author r cur =
     (if rv_id r \<in> set withdrawn then None
      else case rv_state r of
        Approved \<Rightarrow>
          (if (\<exists>a. author = Some a \<and> eq_ignore_ascii_case (rv_author r) a) \<or>
              to_ascii_lowercase (rv_author r) \<in> set admins
           then cur else Some r)
      | ChangesRequested \<Rightarrow> Some r
      | Commented \<Rightarrow> cur
      | Dismissed \<Rightarrow>
          (case (cur, rv_dismissed_review_id r) of
             (Some c, Some target) \<Rightarrow> if target = rv_id c then None else cur
           | (Some c, None) \<Rightarrow> if rv_state c = Approved then None else cur
           | (None, _) \<Rightarrow> None))"

definition verdict_of :: "review list \<Rightarrow> string \<Rightarrow> string list \<Rightarrow> verdict_reach \<Rightarrow> string option \<Rightarrow> string \<Rightarrow> review option" where
  "verdict_of reviews head ids reach author who =
     fold (own_step (withdrawn_verdicts reviews) (dismissing_admins reviews) author)
       [r \<leftarrow> reviews. speaks_for_head head ids reach r \<and> rv_author r = who] None"

lemma reduce_step_own:
  assumes "bt_ok latest"
  shows "map_of (reduce_step w adm a r latest) who =
           (if rv_author r = who then own_step w adm a r (map_of latest who) else map_of latest who)"
  using assms
  by (cases "rv_state r"; cases "map_of latest (rv_author r)"; cases "rv_dismissed_review_id r")
    (auto simp: reduce_step_def own_step_def bt_put_get bt_del_get split: option.split)

lemma reduce_step_bt_ok: "bt_ok latest \<Longrightarrow> bt_ok (reduce_step w adm a r latest)"
  by (simp add: reduce_step_def bt_put_ok bt_del_ok split: review_state.split option.split)

lemma reduce_fold_own:
  "bt_ok latest \<Longrightarrow>
    map_of (fold (reduce_step w adm a) rs latest) who =
    fold (own_step w adm a) [r \<leftarrow> rs. rv_author r = who] (map_of latest who)"
  by (induction rs arbitrary: latest) (auto simp: reduce_step_own reduce_step_bt_ok)

lemma reduce_reviews_verdict:
  "r \<in> set (reduce_reviews reviews head ids reach a) \<longleftrightarrow>
     verdict_of reviews head ids reach a (rv_author r) = Some r"
proof -
  let ?rs = "[r \<leftarrow> reviews. speaks_for_head head ids reach r]"
  let ?latest = "fold (reduce_step (withdrawn_verdicts reviews) (dismissing_admins reviews) a) ?rs []"
  have ok: "latest_ok reviews a ?rs ?latest" by (rule reduce_fold_ok)
  then have keys: "\<And>k x. (k, x) \<in> set ?latest \<Longrightarrow> k = rv_author x" and "bt_ok ?latest"
    by (auto simp: latest_ok_def)
  then have "r \<in> snd ` set ?latest \<longleftrightarrow> map_of ?latest (rv_author r) = Some r"
    by (force simp: bt_ok_def)
  also have "map_of ?latest (rv_author r) = verdict_of reviews head ids reach a (rv_author r)"
    by (simp add: reduce_fold_own bt_ok_def verdict_of_def)
  finally show ?thesis by (simp add: reduce_reviews_def)
qed

section \<open>Withdrawals are for good\<close>

lemma withdrawn_verdicts_iff:
  "i \<in> set (withdrawn_verdicts reviews) \<longleftrightarrow>
     (\<exists>d r. d \<in> set reviews \<and> r \<in> set reviews \<and> rv_state d = Dismissed \<and> rv_head_sha d \<noteq> None \<and>
        rv_dismissed_review_id d = Some i \<and> rv_id r = i \<and>
        (rv_author r = rv_author d \<or> rv_dismissal_authority d = Some RepositoryAdmin))"
proof -
  have "i \<in> set (withdrawn_verdicts reviews) \<longleftrightarrow>
      (\<exists>d \<in> set reviews. rv_state d = Dismissed \<and> rv_head_sha d \<noteq> None \<and> withdrawn_by reviews d = Some i)"
    by (auto simp: withdrawn_verdicts_def map_filter_def image_iff)
  moreover have "\<And>d. withdrawn_by reviews d = Some i \<longleftrightarrow>
      rv_dismissed_review_id d = Some i \<and>
      (\<exists>r \<in> set reviews. rv_id r = i \<and>
        (rv_author r = rv_author d \<or> rv_dismissal_authority d = Some RepositoryAdmin))"
    by (auto simp: withdrawn_by_def list_ex_iff split: option.split)
  ultimately show ?thesis by blast
qed

lemma withdrawn_verdicts_mono:
  "set reviews \<subseteq> set later \<Longrightarrow> i \<in> set (withdrawn_verdicts reviews) \<Longrightarrow> i \<in> set (withdrawn_verdicts later)"
  unfolding withdrawn_verdicts_iff by blast

lemma dismissing_admins_iff:
  "x \<in> set (dismissing_admins reviews) \<longleftrightarrow>
     (\<exists>d \<in> set reviews. is_cross_author_dismissal reviews d \<and> x = to_ascii_lowercase (rv_author d))"
  by (auto simp: dismissing_admins_def)

lemma is_cross_author_dismissal_mono:
  "set reviews \<subseteq> set later \<Longrightarrow> is_cross_author_dismissal reviews d \<Longrightarrow> is_cross_author_dismissal later d"
  by (auto simp: is_cross_author_dismissal_def list_ex_iff split: option.splits)

lemma dismissing_admins_mono:
  "set reviews \<subseteq> set later \<Longrightarrow> x \<in> set (dismissing_admins reviews) \<Longrightarrow> x \<in> set (dismissing_admins later)"
  unfolding dismissing_admins_iff by (blast intro: is_cross_author_dismissal_mono)

section \<open>Properties\<close>

text \<open>
  C5. The selection keeps one verdict per reviewer, and it is the reviewer's own: a review is
  selected exactly when folding that reviewer's rows at this head, in order and with nobody
  else's rows, ends on it.
\<close>

theorem effective_reviews_refine_verdicts:
  "r \<in> set (effective_reviews_for_pull_request_with reviews pr reach) \<longleftrightarrow>
     verdict_of reviews (gr_sha (pr_head pr)) (pr_head_patch_ids pr) reach (Some (pr_author pr))
       (rv_author r) = Some r"
  by (simp add: effective_reviews_for_pull_request_with_def reduce_reviews_verdict)

text \<open>
  Every verdict that counts was submitted on this pull request's head (or, under a rule
  that lets verdicts carry, on the same diff), is an approval or a request for changes, is not
  withdrawn, and when it approves it is neither the pull request's author's own (compared
  without case) nor by an administrator who dismissed somebody else's verdict.
\<close>

theorem effective_reviews_countable:
  assumes "r \<in> set (effective_reviews_for_pull_request_with reviews pr reach)"
  shows "r \<in> set reviews \<and>
    speaks_for_head (gr_sha (pr_head pr)) (pr_head_patch_ids pr) reach r \<and>
    countable reviews (Some (pr_author pr)) r"
  using reduce_reviews_member [OF assms [unfolded effective_reviews_for_pull_request_with_def]]
  by blast

theorem effective_reviews_countable_witness:
  "countable [ex_review 1 ''ann'' Approved, ex_review 2 ''bob'' Approved] (Some ''ann'')
     (ex_review 2 ''bob'' Approved)"
proof -
  have "ex_review 2 ''bob'' Approved \<in> set (effective_reviews_for_pull_request_with
      [ex_review 1 ''ann'' Approved, ex_review 2 ''bob'' Approved] ex_pull ExactHead)"
    by (simp add: effective_reviews_for_pull_request_with_def reduce_reviews_def reduce_step_def
        speaks_for_head_def withdrawn_verdicts_def dismissing_admins_def map_filter_simps
        is_cross_author_dismissal_def ex_simps str_simps)
  from effective_reviews_countable [OF this] show ?thesis by (simp add: ex_pull_def)
qed

text \<open>
  The effective reviews come out sorted by reviewer with no reviewer twice, so an approval
  is counted once however often it was submitted.
\<close>

theorem effective_reviews_one_per_author:
  "sorted (map rv_author (effective_reviews_for_pull_request_with reviews pr reach)) \<and>
   distinct (map rv_author (effective_reviews_for_pull_request_with reviews pr reach))"
  by (simp add: effective_reviews_for_pull_request_with_def reduce_reviews_authors)

text \<open>
  A withdrawn verdict stays withdrawn: once a dismissal names it, with the right to, it is
  not among the effective reviews of the pull request at any head, after any later reviews,
  heads and dismissals.
\<close>

theorem withdrawn_verdict_never_counts_again:
  assumes "rv_id r \<in> set (withdrawn_verdicts reviews)"
  shows "r \<notin> set (effective_reviews_for_pull_request_with (reviews @ later) pr reach)"
proof
  assume "r \<in> set (effective_reviews_for_pull_request_with (reviews @ later) pr reach)"
  then have "countable (reviews @ later) (Some (pr_author pr)) r"
    by (auto simp: effective_reviews_for_pull_request_with_def dest: reduce_reviews_member(3))
  moreover have "rv_id r \<in> set (withdrawn_verdicts (reviews @ later))"
    by (rule withdrawn_verdicts_mono [OF _ assms]) simp
  ultimately show False by (simp add: countable_def)
qed

theorem withdrawn_verdict_never_counts_again_witness:
  "ex_review 2 ''bob'' Approved \<notin> set (effective_reviews_for_pull_request_with
     ([ex_review 2 ''bob'' Approved,
       (ex_review 3 ''bob'' Dismissed)\<lparr>rv_dismissed_review_id := Some 2\<rparr>] @
      [ex_review 2 ''bob'' Approved]) ex_pull ExactHead)"
  by (rule withdrawn_verdict_never_counts_again)
    (simp add: withdrawn_verdicts_def withdrawn_by_def map_filter_simps ex_review_def)

end
