(* ===== verification/Protection_Gate.thy ===== *)
theory Protection_Gate
  imports Codeowners Review_Selection
begin

text \<open>
  The merge gate and the ref-operation bars
  (\<^verbatim>\<open>src/crates/jeryu-core/src/branch_protection/evaluate.rs\<close>). \<open>evaluate_branch_protection_with\<close>
  pushes blockers in the order of the source; each block of the function that pushes is a
  definition of its own that gives the blockers it pushes.
\<close>

datatype required_context_state = CtxSatisfied | CtxMissing | CtxFailed

definition required_context_state ::
  "string \<Rightarrow> commit_status list \<Rightarrow> check_run list \<Rightarrow> string \<Rightarrow> required_context_state" where
  "required_context_state ctx statuses check_runs base_ref =
     (case current_status_for_base statuses ctx base_ref of
        Some status \<Rightarrow> if cs_state status = StSuccess then CtxSatisfied else CtxFailed
      | None \<Rightarrow>
          if list_ex (\<lambda>s. cs_context s = ctx \<and> cs_base s \<noteq> None) statuses then CtxMissing
          else case check_run_newest [c \<leftarrow> check_runs. ck_name c = ctx] of
            Some check \<Rightarrow>
              if ck_status check = CrCompleted \<and> ck_conclusion check = Some CcSuccess
              then CtxSatisfied else CtxFailed
          | None \<Rightarrow> CtxMissing)"

section \<open>The blocks of the evaluation\<close>

definition gate_sha :: "pull_request \<Rightarrow> string option \<Rightarrow> merge_blocker list" where
  "gate_sha pr requested_sha =
     (case requested_sha of
        Some sha \<Rightarrow> if sha \<noteq> gr_sha (pr_head pr) then [ShaMismatch (gr_sha (pr_head pr)) sha] else []
      | None \<Rightarrow> [])"

definition gate_draft :: "pull_request \<Rightarrow> merge_blocker list" where
  "gate_draft pr = (if pr_draft pr then [DraftPullRequest] else [])"

definition gate_changes_requested :: "review list \<Rightarrow> merge_blocker list" where
  "gate_changes_requested effective =
     (let reviewers = map rv_author [r \<leftarrow> effective. rv_state r = ChangesRequested]
      in if reviewers \<noteq> [] then [BlockedChangesRequested reviewers] else [])"

definition gate_proof :: "commit_status list \<Rightarrow> check_run list \<Rightarrow> string \<Rightarrow> merge_blocker list" where
  "gate_proof statuses check_runs base_ref =
     (case required_context_state ''jankurai/proof'' statuses check_runs base_ref of
        CtxSatisfied \<Rightarrow> []
      | CtxMissing \<Rightarrow> [JankuraiProofRequired]
      | CtxFailed \<Rightarrow> [JankuraiProofRequired])"

definition approvals :: "review list \<Rightarrow> u64" where
  "approvals effective = length [r \<leftarrow> effective. rv_state r = Approved]"

definition gate_approvals :: "branch_protection_rule \<Rightarrow> review list \<Rightarrow> merge_blocker list" where
  "gate_approvals rule effective =
     (if 0 < bp_required_approving_review_count rule then
        (let approved = approvals effective in
         if approved < bp_required_approving_review_count rule
         then [MissingReview (bp_required_approving_review_count rule) approved] else [])
      else [])"

definition gate_context ::
  "commit_status list \<Rightarrow> check_run list \<Rightarrow> string \<Rightarrow> string \<Rightarrow> merge_blocker list" where
  "gate_context statuses check_runs base_ref ctx =
     (case required_context_state ctx statuses check_runs base_ref of
        CtxSatisfied \<Rightarrow> []
      | CtxMissing \<Rightarrow> [MissingStatusCheck ctx]
      | CtxFailed \<Rightarrow> [FailedStatusCheck ctx])"

definition gate_statuses ::
  "branch_protection_rule \<Rightarrow> commit_status list \<Rightarrow> check_run list \<Rightarrow> string \<Rightarrow> merge_blocker list" where
  "gate_statuses rule statuses check_runs base_ref =
     concat (map (gate_context statuses check_runs base_ref) (bp_required_status_checks rule))"

definition gate_linear :: "branch_protection_rule \<Rightarrow> pull_request \<Rightarrow> merge_blocker list" where
  "gate_linear rule pr =
     (if bp_required_linear_history rule then
        (case find (\<lambda>c. 1 < cm_parents c) (pr_commits pr) of
           Some merge_commit \<Rightarrow> [NonLinearHistory (cm_sha merge_commit)]
         | None \<Rightarrow> [])
      else [])"

definition gate_signed :: "branch_protection_rule \<Rightarrow> pull_request \<Rightarrow> merge_blocker list" where
  "gate_signed rule pr =
     (if bp_require_signed_commits rule then
        (let unsigned = map cm_sha [c \<leftarrow> pr_commits pr. \<not> cm_verified c]
         in if unsigned \<noteq> [] then [UnsignedCommits unsigned] else [])
      else [])"

text \<open>A changed path is unsatisfied when it has code owners and none of them approved.\<close>

definition path_satisfied :: "owner_rules \<Rightarrow> string list \<Rightarrow> string \<Rightarrow> bool" where
  "path_satisfied owners approvers path =
     (owners_for owners path = [] \<or>
      list_ex (\<lambda>owner. owner \<in> set approvers) (owners_for owners path))"

definition gate_codeowners ::
  "string option \<Rightarrow> pull_request \<Rightarrow> review list \<Rightarrow> merge_blocker list" where
  "gate_codeowners codeowners pr effective =
     (case codeowners of
        None \<Rightarrow> []
      | Some contents \<Rightarrow>
          (let owners = codeowners_parse contents;
               approvers = map rv_author [r \<leftarrow> effective. rv_state r = Approved];
               unsatisfied = [p \<leftarrow> pr_changed_files pr. \<not> path_satisfied owners approvers p]
           in if unsatisfied \<noteq> [] then
                [MissingCodeOwnerReview (remdups_adj (sort unsatisfied))
                   (sort (remdups (concat (map (owners_for owners) unsatisfied))))]
              else []))"

definition intrinsic_blockers ::
  "pull_request \<Rightarrow> review list \<Rightarrow> commit_status list \<Rightarrow> check_run list \<Rightarrow> string option \<Rightarrow>
   evaluation_context \<Rightarrow> merge_blocker list" where
  "intrinsic_blockers pr effective statuses check_runs requested_sha context =
     gate_sha pr requested_sha @ gate_draft pr @ gate_changes_requested effective @
     (if ec_jankurai_proof_mandatory context
      then gate_proof statuses check_runs (gr_ref_name (pr_base pr)) else [])"

definition rule_blockers ::
  "branch_protection_rule \<Rightarrow> pull_request \<Rightarrow> review list \<Rightarrow> commit_status list \<Rightarrow> check_run list \<Rightarrow>
   evaluation_context \<Rightarrow> merge_blocker list" where
  "rule_blockers rule pr effective statuses check_runs context =
     gate_approvals rule effective @
     gate_statuses rule statuses check_runs (gr_ref_name (pr_base pr)) @
     (if bp_require_jankurai_proof rule \<and> \<not> ec_jankurai_proof_mandatory context
      then gate_proof statuses check_runs (gr_ref_name (pr_base pr)) else []) @
     gate_linear rule pr @ gate_signed rule pr @
     gate_codeowners (ec_codeowners context) pr effective"

definition evaluate_branch_protection_with ::
  "pull_request \<Rightarrow> branch_protection_rule option \<Rightarrow> review list \<Rightarrow> commit_status list \<Rightarrow>
   check_run list \<Rightarrow> string option \<Rightarrow> evaluation_context \<Rightarrow> branch_protection_evaluation" where
  "evaluate_branch_protection_with pr protection reviews statuses check_runs requested_sha context =
     (let effective =
            effective_reviews_for_pull_request_with reviews pr (verdict_reach_for_rule protection);
          intrinsic = intrinsic_blockers pr effective statuses check_runs requested_sha context
      in case protection of
        None \<Rightarrow> from_blockers intrinsic
      | Some rule \<Rightarrow>
          if ec_actor_is_admin context \<and> \<not> bp_enforce_admins rule then from_blockers intrinsic
          else from_blockers
                 (intrinsic @ rule_blockers rule pr effective statuses check_runs context))"

definition evaluate_ref_operation ::
  "ref_operation \<Rightarrow> branch_protection_rule option \<Rightarrow> evaluation_context \<Rightarrow> ref_operation_evaluation"
where
  "evaluate_ref_operation operation protection context =
     (let blockers =
        (case protection of
           None \<Rightarrow> []
         | Some rule \<Rightarrow>
             (let bypass = ec_actor_is_admin context \<and> \<not> bp_enforce_admins rule in
              if bypass then []
              else case operation of
                ForcePush \<Rightarrow> if \<not> bp_allow_force_pushes rule then [ForcePushNotAllowed] else []
              | DeleteRef \<Rightarrow> if \<not> bp_allow_deletions rule then [DeletionNotAllowed] else []))
      in \<lparr>re_allowed = (blockers = []), re_blockers = blockers\<rparr>)"

section \<open>When a gate is silent\<close>

named_theorems gate_silent \<open>when a block of the evaluation pushes nothing\<close>

lemma from_blockers_sel [simp]:
  "ev_mergeable (from_blockers bs) \<longleftrightarrow> bs = []" "ev_blockers (from_blockers bs) = bs"
  by (simp_all add: from_blockers_def)

lemma gate_sha_silent [gate_silent]:
  "gate_sha pr requested = [] \<longleftrightarrow> (\<forall>sha. requested = Some sha \<longrightarrow> sha = gr_sha (pr_head pr))"
  by (auto simp: gate_sha_def split: option.splits)

lemma gate_draft_silent [gate_silent]: "gate_draft pr = [] \<longleftrightarrow> \<not> pr_draft pr"
  by (simp add: gate_draft_def)

lemma gate_changes_silent [gate_silent]:
  "gate_changes_requested effective = [] \<longleftrightarrow> (\<forall>r \<in> set effective. rv_state r \<noteq> ChangesRequested)"
  by (auto simp: gate_changes_requested_def Let_def filter_empty_conv)

lemma gate_proof_silent [gate_silent]:
  "gate_proof statuses runs base = [] \<longleftrightarrow>
     required_context_state ''jankurai/proof'' statuses runs base = CtxSatisfied"
  by (auto simp: gate_proof_def split: required_context_state.splits)

lemma gate_approvals_silent [gate_silent]:
  "gate_approvals rule effective = [] \<longleftrightarrow>
     bp_required_approving_review_count rule \<le> approvals effective"
  by (auto simp: gate_approvals_def Let_def)

lemma gate_statuses_silent [gate_silent]:
  "gate_statuses rule statuses runs base = [] \<longleftrightarrow>
     (\<forall>ctx \<in> set (bp_required_status_checks rule).
        required_context_state ctx statuses runs base = CtxSatisfied)"
proof -
  have "gate_context statuses runs base ctx = [] \<longleftrightarrow>
      required_context_state ctx statuses runs base = CtxSatisfied" for ctx
    by (cases "required_context_state ctx statuses runs base") (simp_all add: gate_context_def)
  then show ?thesis by (simp add: gate_statuses_def)
qed

lemma gate_linear_silent [gate_silent]:
  "gate_linear rule pr = [] \<longleftrightarrow>
     (bp_required_linear_history rule \<longrightarrow> (\<forall>c \<in> set (pr_commits pr). cm_parents c \<le> 1))"
proof (cases "find (\<lambda>c. 1 < cm_parents c) (pr_commits pr)")
  case None
  then have "\<forall>c \<in> set (pr_commits pr). cm_parents c \<le> 1" and "gate_linear rule pr = []"
    by (simp add: find_None_iff not_less, simp add: gate_linear_def)
  then show ?thesis by simp
next
  case (Some c)
  with find_in [OF Some] have "\<not> (\<forall>c \<in> set (pr_commits pr). cm_parents c \<le> 1)"
    and "gate_linear rule pr = [] \<longleftrightarrow> \<not> bp_required_linear_history rule"
    by (fastforce simp: not_le, simp add: gate_linear_def)
  then show ?thesis by blast
qed

lemma gate_signed_silent [gate_silent]:
  "gate_signed rule pr = [] \<longleftrightarrow>
     (bp_require_signed_commits rule \<longrightarrow> (\<forall>c \<in> set (pr_commits pr). cm_verified c))"
  by (auto simp: gate_signed_def Let_def filter_empty_conv)

lemma gate_codeowners_silent [gate_silent]:
  "gate_codeowners codeowners pr effective = [] \<longleftrightarrow>
     (\<forall>contents path. codeowners = Some contents \<longrightarrow> path \<in> set (pr_changed_files pr) \<longrightarrow>
        owners_for (codeowners_parse contents) path = [] \<or>
        (\<exists>r \<in> set effective. rv_state r = Approved \<and>
           rv_author r \<in> set (owners_for (codeowners_parse contents) path)))"
proof (cases codeowners)
  case None
  then show ?thesis by (simp add: gate_codeowners_def)
next
  case (Some contents)
  then show ?thesis
    by (auto simp: gate_codeowners_def Let_def filter_empty_conv path_satisfied_def list_ex_iff)
qed

text \<open>The abstract specification of the gate: what must hold of a mergeable pull request.\<close>

definition intrinsically_clear ::
  "pull_request \<Rightarrow> review list \<Rightarrow> commit_status list \<Rightarrow> check_run list \<Rightarrow> string option \<Rightarrow>
   evaluation_context \<Rightarrow> bool" where
  "intrinsically_clear pr effective statuses runs requested context \<longleftrightarrow>
     (\<forall>sha. requested = Some sha \<longrightarrow> sha = gr_sha (pr_head pr)) \<and>
     \<not> pr_draft pr \<and>
     (\<forall>r \<in> set effective. rv_state r \<noteq> ChangesRequested) \<and>
     (ec_jankurai_proof_mandatory context \<longrightarrow>
        required_context_state ''jankurai/proof'' statuses runs (gr_ref_name (pr_base pr)) = CtxSatisfied)"

definition rule_satisfied ::
  "branch_protection_rule \<Rightarrow> pull_request \<Rightarrow> review list \<Rightarrow> commit_status list \<Rightarrow> check_run list \<Rightarrow>
   evaluation_context \<Rightarrow> bool" where
  "rule_satisfied rule pr effective statuses runs context \<longleftrightarrow>
     bp_required_approving_review_count rule \<le> approvals effective \<and>
     (\<forall>ctx \<in> set (bp_required_status_checks rule).
        required_context_state ctx statuses runs (gr_ref_name (pr_base pr)) = CtxSatisfied) \<and>
     (bp_require_jankurai_proof rule \<and> \<not> ec_jankurai_proof_mandatory context \<longrightarrow>
        required_context_state ''jankurai/proof'' statuses runs (gr_ref_name (pr_base pr)) = CtxSatisfied) \<and>
     (bp_required_linear_history rule \<longrightarrow> (\<forall>c \<in> set (pr_commits pr). cm_parents c \<le> 1)) \<and>
     (bp_require_signed_commits rule \<longrightarrow> (\<forall>c \<in> set (pr_commits pr). cm_verified c)) \<and>
     (\<forall>contents path. ec_codeowners context = Some contents \<longrightarrow> path \<in> set (pr_changed_files pr) \<longrightarrow>
        owners_for (codeowners_parse contents) path = [] \<or>
        (\<exists>r \<in> set effective. rv_state r = Approved \<and>
           rv_author r \<in> set (owners_for (codeowners_parse contents) path)))"

lemma intrinsic_silent:
  "intrinsic_blockers pr effective statuses runs requested context = [] \<longleftrightarrow>
     intrinsically_clear pr effective statuses runs requested context"
  by (simp add: intrinsic_blockers_def intrinsically_clear_def gate_silent)

lemma rule_silent:
  "rule_blockers rule pr effective statuses runs context = [] \<longleftrightarrow>
     rule_satisfied rule pr effective statuses runs context"
proof -
  have "rule_blockers rule pr effective statuses runs context = [] \<longleftrightarrow>
      gate_approvals rule effective = [] \<and>
      gate_statuses rule statuses runs (gr_ref_name (pr_base pr)) = [] \<and>
      (bp_require_jankurai_proof rule \<and> \<not> ec_jankurai_proof_mandatory context \<longrightarrow>
         gate_proof statuses runs (gr_ref_name (pr_base pr)) = []) \<and>
      gate_linear rule pr = [] \<and> gate_signed rule pr = [] \<and>
      gate_codeowners (ec_codeowners context) pr effective = []"
    by (cases "bp_require_jankurai_proof rule"; cases "ec_jankurai_proof_mandatory context")
      (simp_all add: rule_blockers_def)
  then show ?thesis by (simp only: rule_satisfied_def gate_silent)
qed

lemma mergeable_iff:
  "ev_mergeable (evaluate_branch_protection_with pr protection reviews statuses runs requested context) \<longleftrightarrow>
     (let effective =
            effective_reviews_for_pull_request_with reviews pr (verdict_reach_for_rule protection)
      in intrinsically_clear pr effective statuses runs requested context \<and>
         (\<forall>rule. protection = Some rule \<longrightarrow>
            ec_actor_is_admin context \<and> \<not> bp_enforce_admins rule \<or>
            rule_satisfied rule pr effective statuses runs context))"
  by (auto simp: evaluate_branch_protection_with_def Let_def intrinsic_silent rule_silent
      split: option.splits)

section \<open>Properties\<close>

text \<open>
  C2. The gate implements its specification: a pull request evaluates as mergeable exactly when
  the requested head is its head, it is no draft, no effective review asks for changes, the
  mandatory proof is satisfied and, unless an administrator may bypass the rule, every
  requirement of the branch rule holds: enough approvals, every required check, linear and
  signed history where asked for, and an approving code owner for every changed path that has
  owners.
\<close>

theorem mergeable_iff_specification:
  "ev_mergeable (evaluate_branch_protection_with pr protection reviews statuses runs requested context) \<longleftrightarrow>
     (let effective =
            effective_reviews_for_pull_request_with reviews pr (verdict_reach_for_rule protection)
      in intrinsically_clear pr effective statuses runs requested context \<and>
         (case protection of
            None \<Rightarrow> True
          | Some rule \<Rightarrow>
              ec_actor_is_admin context \<and> \<not> bp_enforce_admins rule \<or>
              rule_satisfied rule pr effective statuses runs context))"
  using mergeable_iff [of pr protection reviews statuses runs requested "context"]
  by (simp add: Let_def split: option.split)

text \<open>
  What an administrator may skip is a suffix of the blockers, never the first part: the
  evaluation for an administrator lists the same blockers as the one for anybody else up to the
  point where the branch rule starts, and the skipped rest comes from the rule alone. With
  \<^verbatim>\<open>enforce_admins\<close> or no rule nothing is skipped.
\<close>

theorem admin_bypass_skips_rule_only:
  "\<exists>skipped.
     ev_blockers (evaluate_branch_protection_with pr protection reviews statuses runs requested
       (context\<lparr>ec_actor_is_admin := False\<rparr>)) =
     ev_blockers (evaluate_branch_protection_with pr protection reviews statuses runs requested
       (context\<lparr>ec_actor_is_admin := True\<rparr>)) @ skipped \<and>
     (case protection of
        None \<Rightarrow> skipped = []
      | Some rule \<Rightarrow>
          skipped = (if bp_enforce_admins rule then []
            else rule_blockers rule pr
              (effective_reviews_for_pull_request_with reviews pr (verdict_reach_for_rule protection))
              statuses runs (context\<lparr>ec_actor_is_admin := False\<rparr>)))"
proof (cases protection)
  case None
  then show ?thesis
    by (simp add: evaluate_branch_protection_with_def Let_def intrinsic_blockers_def)
next
  case (Some rule)
  have same: "rule_blockers rule pr e statuses runs (context\<lparr>ec_actor_is_admin := True\<rparr>) =
      rule_blockers rule pr e statuses runs (context\<lparr>ec_actor_is_admin := False\<rparr>)" for e
    by (simp add: rule_blockers_def)
  show ?thesis
    by (simp add: Some evaluate_branch_protection_with_def Let_def intrinsic_blockers_def same)
qed

text \<open>
  A required context is satisfied in exactly two ways: its current status row for the pull
  request's base is a success; or no row answers for that base, none of its rows was ever
  recorded for a single base, and the newest check run of that name completed successfully. So
  a success recorded for another base never satisfies it.
\<close>

theorem required_context_satisfied_iff:
  "required_context_state ctx statuses runs base = CtxSatisfied \<longleftrightarrow>
     (\<exists>s. current_status_for_base statuses ctx base = Some s \<and> cs_state s = StSuccess) \<or>
     (\<forall>s \<in> set statuses. cs_context s \<noteq> ctx) \<and>
     (\<exists>c. check_run_newest [c \<leftarrow> runs. ck_name c = ctx] = Some c \<and>
        ck_status c = CrCompleted \<and> ck_conclusion c = Some CcSuccess)"
proof (cases "current_status_for_base statuses ctx base")
  case (Some s)
  with current_status_answers [OF Some] show ?thesis by (auto simp: required_context_state_def)
next
  case None
  then have silent: "\<forall>s \<in> set statuses. cs_context s = ctx \<longrightarrow> cs_base s \<noteq> None"
    by (auto simp: current_status_None status_answers_for_base_def split: option.splits)
  show ?thesis
  proof (cases "list_ex (\<lambda>s. cs_context s = ctx \<and> cs_base s \<noteq> None) statuses")
    case True
    with None show ?thesis by (auto simp: required_context_state_def list_ex_iff)
  next
    case False
    with silent have "\<forall>s \<in> set statuses. cs_context s \<noteq> ctx" by (auto simp: list_ex_iff)
    with None False show ?thesis
      by (cases "check_run_newest [c \<leftarrow> runs. ck_name c = ctx]")
        (auto simp: required_context_state_def)
  qed
qed

theorem required_context_satisfied_iff_witness:
  "required_context_state ''ci'' [] [ex_check_run ''ci'' 1 (Some CcSuccess)] ''main'' = CtxSatisfied"
  by (simp add: required_context_satisfied_iff check_run_newest_def max_by_key_def ex_check_run_def)

text \<open>
  Adding a status recorded for one base cannot make a required context satisfied on another
  base.
\<close>

theorem other_base_status_never_satisfies:
  assumes "cs_base s = Some b" and "normalize_base_ref b \<noteq> normalize_base_ref base"
    and "required_context_state ctx (statuses @ [s]) runs base = CtxSatisfied"
  shows "required_context_state ctx statuses runs base = CtxSatisfied"
proof -
  have "\<not> status_answers_for_base s base"
    using assms(1,2) by (simp add: status_answers_for_base_def Let_def)
  then have "current_status_for_base (statuses @ [s]) ctx base = current_status_for_base statuses ctx base"
    by (simp add: current_status_for_base_eq)
  with assms(3) show ?thesis
    by (auto simp: required_context_state_def split: option.splits if_splits)
qed

theorem other_base_status_never_satisfies_witness:
  "required_context_state ''ci'' [ex_status ''ci'' None StSuccess 1] [] ''main'' = CtxSatisfied"
  by (rule other_base_status_never_satisfies
      [where s = "ex_status ''ci'' (Some ''dev'') StSuccess 2" and b = "''dev''"])
    (simp_all add: ex_status_def required_context_state_def current_status_for_base_def
      status_answers_for_base_def normalize_base_ref_def str_simps)

end
