(* ===== verification/Forge_State.thy ===== *)
theory Forge_State
  imports Credential_Types Protection_Gate
begin

text \<open>
  The store of the forge (\<^verbatim>\<open>src/crates/jeryu-core/src/engine/mod.rs\<close>, the receipt type of
  \<^verbatim>\<open>engine/audit.rs\<close>, \<^verbatim>\<open>webhooks.rs\<close>): the in-memory state, its durable copy, persistence with
  rollback, repository resolution, number allocation, gate evaluation against the state, and
  the webhook outbox. Deployments, which the snapshot does not persist, are kept in a record of
  their own.
\<close>

section \<open>The state\<close>

record counters =
  cn_issue :: u64
  cn_pull :: u64

definition default_counters :: counters where
  "default_counters = \<lparr>cn_issue = 0, cn_pull = 0\<rparr>"

type_synonym slug = "string \<times> string"

record state =
  st_users :: "(string, user) hmap"
  st_accounts :: "(string, user_account) hmap"
  st_sessions :: "(string, web_session) hmap"
  st_personal_tokens :: "(uuid, personal_access_token) hmap"
  st_bots :: "(uuid, bot_record) hmap"
  st_bot_keys :: "(string, bot_key_record) hmap"
  st_bot_refresh :: "(string, bot_refresh_record) hmap"
  st_bot_access_tokens :: "(string, bot_access_token_record) hmap"
  st_bot_operations :: "(uuid \<times> string \<times> string, bot_operation_record) hmap"
  st_bot_activity :: "bot_activity_event list"
  st_bot_repo_grants :: "(uuid \<times> uuid, bot_repo_grant_record) hmap"
  st_provider_connections :: "(string, connection_record) hmap"
  st_invitations :: "(uuid, account_invitation) hmap"
  st_activation_challenges :: "(string, activation_challenge) hmap"
  st_password_recoveries :: "(string, password_recovery_record) hmap"
  st_bootstrap_owner_consumed :: bool
  st_waitlist :: "(string \<times> waitlist_signup) list"
  st_repo_grants :: "(string \<times> string \<times> string, repo_access_grant) hmap"
  st_organizations :: "(string, organization) hmap"
  st_teams :: "(string \<times> string, team) hmap"
  st_repos :: "(slug, repository) hmap"
  st_labels :: "(string \<times> string \<times> string, label) hmap"
  st_issues :: "(string \<times> string \<times> u64, issue) hmap"
  st_issue_comments :: "(string \<times> string \<times> u64, issue_comment list) hmap"
  st_pulls :: "(string \<times> string \<times> u64, pull_request) hmap"
  st_reviews :: "(string \<times> string \<times> u64, review list) hmap"
  st_review_comments :: "(string \<times> string \<times> u64, review_comment list) hmap"
  st_branch_protections :: "(string \<times> string \<times> string, branch_protection_rule) hmap"
  st_codeowners :: "(slug, string) hmap"
  st_readmes :: "(slug, string) hmap"
  st_statuses :: "(string \<times> string \<times> string, commit_status list) hmap"
  st_check_runs :: "(slug, check_run list) hmap"
  st_webhooks :: "(slug, webhook list) hmap"
  st_webhook_deliveries :: "webhook_delivery list"
  st_counters :: "(slug, counters) hmap"
  st_jankurai_scores :: "(slug, jankurai_score list) hmap"
  st_repository_aliases :: "(slug, repository_alias) hmap"
  st_repository_transfers :: "(string, repository_transfer_journal) hmap"

definition default_state :: state where
  "default_state =
     \<lparr>st_users = [], st_accounts = [], st_sessions = [], st_personal_tokens = [], st_bots = [],
      st_bot_keys = [], st_bot_refresh = [], st_bot_access_tokens = [], st_bot_operations = [],
      st_bot_activity = [], st_bot_repo_grants = [], st_provider_connections = [],
      st_invitations = [], st_activation_challenges = [], st_password_recoveries = [],
      st_bootstrap_owner_consumed = False, st_waitlist = [], st_repo_grants = [],
      st_organizations = [], st_teams = [], st_repos = [], st_labels = [], st_issues = [],
      st_issue_comments = [], st_pulls = [], st_reviews = [], st_review_comments = [],
      st_branch_protections = [], st_codeowners = [], st_readmes = [], st_statuses = [],
      st_check_runs = [], st_webhooks = [], st_webhook_deliveries = [], st_counters = [],
      st_jankurai_scores = [], st_repository_aliases = [], st_repository_transfers = []\<rparr>"

text \<open>One receipt of the audit trail; the id and the instant are kept as values, not as text.\<close>

record audit_entry =
  ae_id :: uuid
  ae_occurred_at :: time
  ae_actor :: string
  ae_action :: string
  ae_subject :: string
  ae_phase :: string
  ae_detail :: json

text \<open>
  The SQLite store as the core uses it: the state a reopen would load and the audit table. A
  \<^verbatim>\<open>ForgeCore\<close> is the live state and, unless it was made by \<^verbatim>\<open>new()\<close>, a store.
\<close>

record durable =
  du_disk :: state
  du_audit :: "audit_entry list"

record core =
  live :: state
  storage :: "durable option"

definition core_new :: core where
  "core_new = \<lparr>live = default_state, storage = None\<rparr>"

text \<open>\<^verbatim>\<open>open_sqlite\<close>, after \<^verbatim>\<open>SqliteStore::open\<close> loaded \<open>d\<close>.\<close>

definition open_sqlite :: "durable \<Rightarrow> core" where
  "open_sqlite d = \<lparr>live = du_disk d, storage = Some d\<rparr>"

text \<open>
  What one call takes from its surroundings: the successive readings of the clock
  (\<^verbatim>\<open>Utc::now()\<close>), the successive random ids (\<^verbatim>\<open>Uuid::new_v4()\<close>), the outcome of its successive
  storage writes, the environment variable \<^verbatim>\<open>JERYU_AUDIT_ENFORCE_MERGE\<close>, the hexadecimal
  HMAC-SHA256 of a serialised payload under a secret, the bytes the operating system's generator
  gives (or the text of its error), \<^verbatim>\<open>hex::encode\<close>, the hexadecimal SHA-256 of a string, the PHC
  string Argon2id makes of a password with a fresh salt, its verification, and the text of a JSON
  value. The index an operation reads one of them at
  names the call: calls that are different in the source have different indices.
\<close>

record env =
  env_clk :: "nat \<Rightarrow> time"
  env_fresh :: "nat \<Rightarrow> uuid"
  env_fault :: "nat \<Rightarrow> forge_error option"
  env_audit_enforce_merge :: "string option"
  env_hmac_hex :: "string \<Rightarrow> json \<Rightarrow> string"
  env_random :: "nat \<Rightarrow> nat \<Rightarrow> string + nat list"
  env_hex :: "nat list \<Rightarrow> string"
  env_sha256_hex :: "string \<Rightarrow> string"
  env_argon2_hash :: "nat \<Rightarrow> string \<Rightarrow> forge_error + string"
  env_argon2_verify :: "string \<Rightarrow> string \<Rightarrow> bool"
  env_json_text :: "json \<Rightarrow> string"

type_synonym 'a outcome = "(forge_error + 'a) \<times> core"

section \<open>Persistence\<close>

text \<open>
  \<^verbatim>\<open>persist_after_mutation\<close>: \<open>n\<close> says which storage write of the call this is, \<open>previous\<close> is the
  state to go back to when the write fails.
\<close>

definition persist_after_mutation :: "env \<Rightarrow> nat \<Rightarrow> state \<Rightarrow> core \<Rightarrow> unit outcome" where
  "persist_after_mutation ev n previous c =
     (case storage c of
        None \<Rightarrow> (Inr (), c)
      | Some d \<Rightarrow>
          (case env_fault ev n of
             Some e \<Rightarrow> (Inl e, c\<lparr>live := previous\<rparr>)
           | None \<Rightarrow> (Inr (), c\<lparr>storage := Some (d\<lparr>du_disk := live c\<rparr>)\<rparr>)))"

text \<open>
  The tail most operations share: the state was cloned before the first mutation, \<open>s\<close> is the
  mutated state, and \<open>x\<close> is returned once it is persisted.
\<close>

definition commit :: "env \<Rightarrow> nat \<Rightarrow> state \<Rightarrow> 'a \<Rightarrow> core \<Rightarrow> 'a outcome" where
  "commit ev n s x c =
     try_op (persist_after_mutation ev n (live c) (c\<lparr>live := s\<rparr>)) (\<lambda>_ c'. (Inr x, c'))"

text \<open>\<^verbatim>\<open>persist_with_audit\<close>: the state and the receipt in one transaction, or neither.\<close>

definition commit_with_audit :: "env \<Rightarrow> nat \<Rightarrow> audit_entry \<Rightarrow> state \<Rightarrow> 'a \<Rightarrow> core \<Rightarrow> 'a outcome" where
  "commit_with_audit ev n entry s x c =
     (case storage c of
        None \<Rightarrow> (Inr x, c\<lparr>live := s\<rparr>)
      | Some d \<Rightarrow>
          (case env_fault ev n of
             Some e \<Rightarrow> (Inl e, c)
           | None \<Rightarrow> (Inr x, c\<lparr>live := s,
                              storage := Some \<lparr>du_disk = s, du_audit = du_audit d @ [entry]\<rparr>\<rparr>)))"

section \<open>Names\<close>

definition require_name :: "string \<Rightarrow> string \<Rightarrow> forge_error + unit" where
  "require_name field value =
     (if str_trim value = [] then Inl (Validation (field @ '' cannot be empty'')) else Inr ())"

text \<open>
  \<^verbatim>\<open>to_lowercase\<close> followed by the map to \<^verbatim>\<open>-\<close> of everything that is not ASCII alphanumeric, on
  UTF-8 bytes. Only two characters outside ASCII have a lower case with an ASCII letter: the
  Kelvin sign (\<^verbatim>\<open>E2 84 AA\<close>, \<^verbatim>\<open>k\<close>) and the capital I with dot (\<^verbatim>\<open>C4 B0\<close>, \<^verbatim>\<open>i\<close> and a combining
  dot). A run of dashes counts as one separator afterwards.
\<close>

fun slug_chars :: "string \<Rightarrow> string" where
  "slug_chars [] = []"
| "slug_chars (c # cs) =
     (if c = CHR 0xE2 \<and> take 2 cs = [CHR 0x84, CHR 0xAA] then CHR ''k'' # slug_chars (drop 2 cs)
      else if c = CHR 0xC4 \<and> take 1 cs = [CHR 0xB0] then CHR ''i'' # CHR ''-'' # slug_chars (drop 1 cs)
      else (if is_ascii_alphanumeric (to_ascii_lower c) then to_ascii_lower c else CHR ''-'')
             # slug_chars cs)"

definition slugify :: "string \<Rightarrow> string" where
  "slugify value =
     join ''-'' [part \<leftarrow> split_on (CHR ''-'') (slug_chars (str_trim value)). part \<noteq> []]"

definition slug_name :: "string \<Rightarrow> string \<Rightarrow> string" where
  "slug_name owner repo = owner @ ''/'' @ repo"

definition record_name :: "string \<Rightarrow> string \<Rightarrow> u64 \<Rightarrow> string" where
  "record_name owner repo number = slug_name owner repo @ ''#'' @ show_nat number"

section \<open>Repositories and their automatic protection\<close>

definition default_branch_protection_rule ::
  "env \<Rightarrow> nat \<Rightarrow> string \<Rightarrow> string \<Rightarrow> string \<Rightarrow> branch_protection_rule" where
  "default_branch_protection_rule ev n owner repo branch =
     \<lparr>bp_owner = owner, bp_repo = repo, bp_branch = branch, bp_required_status_checks = [],
      bp_strict = False, bp_required_approving_review_count = 0, bp_enforce_admins = False,
      bp_allow_merge_override = False, bp_allow_admin_review_dismissal = False,
      bp_merge_override_status_checks = [], bp_merge_override_status_creators = [],
      bp_required_linear_history = True, bp_allow_force_pushes = False, bp_allow_deletions = False,
      bp_require_signed_commits = False, bp_require_jankurai_proof = False,
      bp_dismiss_stale_approvals = True, bp_require_exact_sha_approval = True,
      bp_updated_at = env_clk ev n\<rparr>"

definition repo_requires_status_context :: "state \<Rightarrow> string \<Rightarrow> string \<Rightarrow> bool" where
  "repo_requires_status_context s owner repo =
     list_ex (\<lambda>rule. bp_owner rule = owner \<and> bp_repo rule = repo \<and> bp_required_status_checks rule \<noteq> [])
       (hm_values (st_branch_protections s))"

definition ensure_default_branch_protection ::
  "env \<Rightarrow> nat \<Rightarrow> repository \<Rightarrow> state \<Rightarrow> bool \<times> state" where
  "ensure_default_branch_protection ev n repo s =
     (if rp_default_branch_protection_opt_out repo \<and>
         \<not> repo_requires_status_context s (rp_owner repo) (rp_name repo)
      then (False, s)
      else let key = (rp_owner repo, rp_name repo, rp_default_branch repo)
      in if hm_has (st_branch_protections s) key then (False, s)
         else (True, s\<lparr>st_branch_protections :=
                hm_put key (default_branch_protection_rule ev n (rp_owner repo) (rp_name repo)
                              (rp_default_branch repo))
                  (st_branch_protections s)\<rparr>))"

text \<open>The startup repair; the \<open>i\<close>-th repository reads the clock at \<open>i\<close>.\<close>

fun backfill_loop :: "env \<Rightarrow> nat \<Rightarrow> repository list \<Rightarrow> state \<Rightarrow> nat \<times> state" where
  "backfill_loop ev n [] s = (0, s)"
| "backfill_loop ev n (repo # repos) s =
     (case ensure_default_branch_protection ev n repo s of
        (added, s1) \<Rightarrow>
          (case backfill_loop ev (n + 1) repos s1 of
             (count, s2) \<Rightarrow> (if added then count + 1 else count, s2)))"

definition backfill_default_branch_protections :: "env \<Rightarrow> state \<Rightarrow> nat \<times> state" where
  "backfill_default_branch_protections ev s = backfill_loop ev 0 (hm_values (st_repos s)) s"

definition resolve_repository :: "state \<Rightarrow> string \<Rightarrow> string \<Rightarrow> repository option" where
  "resolve_repository s owner name =
     (case hm_get (st_repos s) (owner, name) of
        Some repo \<Rightarrow> Some repo
      | None \<Rightarrow>
          (case hm_get (st_repository_aliases s) (owner, name) of
             None \<Rightarrow> None
           | Some al \<Rightarrow>
               (case hm_get (st_repos s) (al_canonical_owner al, al_canonical_name al) of
                  None \<Rightarrow> None
                | Some repo \<Rightarrow> if rp_id repo = al_repository_id al then Some repo else None)))"

definition repository_not_found :: "string \<Rightarrow> string \<Rightarrow> forge_error" where
  "repository_not_found owner repo = NotFound (''repository '' @ slug_name owner repo)"

definition get_repository :: "state \<Rightarrow> string \<Rightarrow> string \<Rightarrow> forge_error + repository" where
  "get_repository s owner repo =
     ok_or (resolve_repository s owner repo) (repository_not_found owner repo)"

definition canonical_repository :: "state \<Rightarrow> string \<Rightarrow> string \<Rightarrow> forge_error + repository" where
  "canonical_repository s owner repo =
     ok_or (hm_get (st_repos s) (owner, repo)) (repository_not_found owner repo)"

definition ensure_repo_exists :: "state \<Rightarrow> string \<Rightarrow> string \<Rightarrow> forge_error + unit" where
  "ensure_repo_exists s owner repo = try_res (canonical_repository s owner repo) (\<lambda>_. Inr ())"

definition ensure_repository_writable :: "state \<Rightarrow> string \<Rightarrow> string \<Rightarrow> forge_error + unit" where
  "ensure_repository_writable s owner repo =
     try_res (get_repository s owner repo) (\<lambda>r.
       if rp_archived r then Inl (RepositoryArchived (slug_name owner repo)) else Inr ())"

section \<open>Numbers\<close>

definition next_record_number :: "string \<Rightarrow> string \<Rightarrow> state \<Rightarrow> u64 \<times> state" where
  "next_record_number owner repo s =
     (let current = (case hm_get (st_counters s) (owner, repo) of
                       None \<Rightarrow> default_counters | Some cn \<Rightarrow> cn);
          number = u64_succ (max (cn_issue current) (cn_pull current))
      in (number,
          s\<lparr>st_counters :=
             hm_put (owner, repo) \<lparr>cn_issue = number, cn_pull = number\<rparr> (st_counters s)\<rparr>))"

section \<open>The gate against the state\<close>

definition audit_merge_enforced :: "env \<Rightarrow> bool" where
  "audit_merge_enforced ev =
     (case env_audit_enforce_merge ev of
        None \<Rightarrow> False
      | Some v \<Rightarrow> (let v = str_trim v in v = ''1'' \<or> v = ''true'' \<or> v = ''yes'' \<or> v = ''on''))"

definition evaluate_locked ::
  "env \<Rightarrow> state \<Rightarrow> pull_request \<Rightarrow> string option \<Rightarrow> branch_protection_evaluation" where
  "evaluate_locked ev s pr requested_sha =
     (let protection =
            hm_get (st_branch_protections s) (pr_owner pr, pr_repo pr, gr_ref_name (pr_base pr));
          reviews = hm_list (st_reviews s) (pr_owner pr, pr_repo pr, pr_number pr);
          statuses = hm_list (st_statuses s) (pr_owner pr, pr_repo pr, gr_sha (pr_head pr));
          check_runs = [check \<leftarrow> hm_list (st_check_runs s) (pr_owner pr, pr_repo pr).
                          ck_head_sha check = gr_sha (pr_head pr)];
          codeowners = hm_get (st_codeowners s) (pr_owner pr, pr_repo pr);
          context = \<lparr>ec_codeowners = codeowners, ec_actor_is_admin = False,
                     ec_jankurai_proof_mandatory = audit_merge_enforced ev\<rparr>
      in evaluate_branch_protection_with pr protection reviews statuses check_runs requested_sha
           context)"

definition apply_evaluation :: "branch_protection_evaluation \<Rightarrow> pull_request \<Rightarrow> pull_request" where
  "apply_evaluation evaluation pr =
     (if pr_merged pr \<or> pr_state pr = PrMerged then
        pr\<lparr>pr_mergeable := False, pr_mergeable_state := ''merged''\<rparr>
      else if pr_state pr = PrClosed then
        pr\<lparr>pr_mergeable := False, pr_mergeable_state := ''closed''\<rparr>
      else
        pr\<lparr>pr_mergeable := ev_mergeable evaluation, pr_mergeable_state := ev_state evaluation,
           pr_state := (if pr_draft pr then PrDraft
                        else if ev_mergeable evaluation then PrMergeable
                        else PrBlockedByChecks)\<rparr>)"

definition reevaluated :: "env \<Rightarrow> state \<Rightarrow> pull_request \<Rightarrow> pull_request" where
  "reevaluated ev s pr = apply_evaluation (evaluate_locked ev s pr None) pr"

fun refresh_keys :: "env \<Rightarrow> (string \<times> string \<times> u64) list \<Rightarrow> state \<Rightarrow> state" where
  "refresh_keys ev [] s = s"
| "refresh_keys ev (key # keys) s =
     (case hm_get (st_pulls s) key of
        None \<Rightarrow> refresh_keys ev keys s
      | Some snapshot \<Rightarrow>
          refresh_keys ev keys
            (s\<lparr>st_pulls := hm_put key (reevaluated ev s snapshot) (st_pulls s)\<rparr>))"

definition refresh_pull_mergeability_for_sha ::
  "env \<Rightarrow> string \<Rightarrow> string \<Rightarrow> string \<Rightarrow> state \<Rightarrow> state" where
  "refresh_pull_mergeability_for_sha ev owner repo sha s =
     refresh_keys ev
       (map fst [((pull_owner, pull_repo, _), pr) \<leftarrow> st_pulls s.
          pull_owner = owner \<and> pull_repo = repo \<and> gr_sha (pr_head pr) = sha]) s"

section \<open>The webhook outbox\<close>

definition sign_webhook_payload :: "env \<Rightarrow> string \<Rightarrow> json \<Rightarrow> string" where
  "sign_webhook_payload ev secret payload = ''sha256='' @ env_hmac_hex ev secret payload"

definition delivery ::
  "env \<Rightarrow> string \<Rightarrow> string \<Rightarrow> string \<Rightarrow> json \<Rightarrow> nat \<Rightarrow> webhook \<Rightarrow> webhook_delivery" where
  "delivery ev owner repo event payload n hook =
     \<lparr>wd_id = env_fresh ev n, wd_hook_id = wh_id hook, wd_owner = owner, wd_repo = repo,
      wd_event = event, wd_target_url = wc_url (wh_config hook), wd_payload = payload,
      wd_signature_256 =
        map_option (\<lambda>secret. sign_webhook_payload ev secret payload) (wc_secret (wh_config hook)),
      wd_delivered = False, wd_created_at = env_clk ev n\<rparr>"

text \<open>The hooks that want the event each queue one delivery; \<open>n\<close> is the first index the
  deliveries read the ids and the clock at.\<close>

definition emit_event_locked ::
  "env \<Rightarrow> nat \<Rightarrow> string \<Rightarrow> string \<Rightarrow> string \<Rightarrow> json \<Rightarrow> state \<Rightarrow> state" where
  "emit_event_locked ev n owner repo event payload s =
     (let hooks = [hook \<leftarrow> hm_list (st_webhooks s) (owner, repo). should_deliver hook event]
      in s\<lparr>st_webhook_deliveries := st_webhook_deliveries s @
             map2 (delivery ev owner repo event payload) [n..<n + length hooks] hooks\<rparr>)"

section \<open>What a commit does\<close>

definition persisted :: "state \<Rightarrow> core \<Rightarrow> core" where
  "persisted s c =
     c\<lparr>live := s, storage := map_option (\<lambda>d. d\<lparr>du_disk := s\<rparr>) (storage c)\<rparr>"

definition write_fails :: "env \<Rightarrow> nat \<Rightarrow> core \<Rightarrow> bool" where
  "write_fails ev n c = (storage c \<noteq> None \<and> env_fault ev n \<noteq> None)"

lemma live_persisted [simp]: "live (persisted s c) = s"
  by (simp add: persisted_def)

text \<open>A commit either stores the new state in memory and on disk, or changes nothing at all.\<close>

lemma commit_eq:
  "commit ev n s x c =
     (if write_fails ev n c then (Inl (the (env_fault ev n)), c) else (Inr x, persisted s c))"
  by (cases "storage c"; cases "env_fault ev n")
    (simp_all add: commit_def persist_after_mutation_def persisted_def write_fails_def)

lemma persist_eq:
  "persist_after_mutation ev n previous c =
     (if write_fails ev n c then (Inl (the (env_fault ev n)), c\<lparr>live := previous\<rparr>)
      else (Inr (), persisted (live c) c))"
  by (cases "storage c"; cases "env_fault ev n")
    (simp_all add: persist_after_mutation_def persisted_def write_fails_def)

lemma commit_Inr [simp]:
  "commit ev n s x c = (Inr y, c') \<longleftrightarrow> \<not> write_fails ev n c \<and> y = x \<and> c' = persisted s c"
  by (auto simp: commit_eq)

lemma commit_Inl: "commit ev n s x c = (Inl e, c') \<Longrightarrow> c' = c"
  by (simp add: commit_eq split: if_splits)

text \<open>
  What the code lets the disk be behind in: when a bot or an agent token was last used, which expired
  bot operations are already forgotten, and whether a connection whose rotation is marked on disk has
  been fenced in memory (the next opening fences it too). The rest is the durable content of a state.
\<close>

definition bot_content :: "bot_record \<Rightarrow> bot_record" where
  "bot_content b = b\<lparr>bo_last_successful_access := None, bo_last_auth := None, bo_last_mutation := None,
     bo_last_action := None, bo_last_repo := None\<rparr>"

definition connection_content :: "connection_record \<Rightarrow> connection_record" where
  "connection_content r =
     (if cc_rotation r \<noteq> None
      then \<lparr>cc_connection = (cc_connection r)\<lparr>pc_state := AuthRequired, pc_updated_at := 0\<rparr>,
            cc_sealed = None, cc_rotation = None\<rparr>
      else if pc_state (cc_connection r) = AuthRequired
      then r\<lparr>cc_connection := (cc_connection r)\<lparr>pc_updated_at := 0\<rparr>\<rparr>
      else r)"

definition durable_view :: "state \<Rightarrow> state" where
  "durable_view s =
     s\<lparr>st_bots := hm_map bot_content (st_bots s),
       st_bot_access_tokens := hm_map (\<lambda>t. t\<lparr>bt_last_used_at := None\<rparr>) (st_bot_access_tokens s),
       st_bot_operations := [],
       st_provider_connections := hm_map connection_content (st_provider_connections s)\<rparr>"

text \<open>The durable copy agrees with the live state.\<close>

definition synced :: "core \<Rightarrow> bool" where
  "synced c = (\<forall>d. storage c = Some d \<longrightarrow> durable_view (du_disk d) = durable_view (live c))"

lemma synced_new: "synced core_new"
  by (simp add: synced_def core_new_def)

lemma synced_open: "synced (open_sqlite d)"
  by (simp add: synced_def open_sqlite_def)

lemma synced_persisted [simp]: "synced (persisted s c)"
  by (auto simp: synced_def persisted_def)

text \<open>
  An invariant of the state that only reads \<open>relevant\<close>. It holds of a core when it holds of the
  live state and the disk agrees; the lemmas carry it through the tails of the operations.
\<close>

locale state_invariant =
  fixes I :: "state \<Rightarrow> bool" and relevant :: "state \<Rightarrow> 'v"
  assumes reads: "relevant s = relevant s' \<Longrightarrow> I s \<Longrightarrow> I s'"
begin

lemma commit_keeps:
  assumes "synced c" and "I (live c)" and "I s"
  shows "synced (snd (commit ev n s x c)) \<and> I (live (snd (commit ev n s x c)))"
  using assms by (simp add: commit_eq)

lemma commit_beside:
  assumes "synced c" and "I (live c)" and "relevant s = relevant (live c)"
  shows "synced (snd (commit ev n s x c)) \<and> I (live (snd (commit ev n s x c)))"
  using assms reads [of "live c" s] by (simp add: commit_eq)

lemma pure_keeps:
  assumes "synced c" and "I (live c)"
    and "\<And>x. r = Inr x \<Longrightarrow> synced (snd (k x)) \<and> I (live (snd (k x)))"
  shows "synced (snd (try_pure r c k)) \<and> I (live (snd (try_pure r c k)))"
  using assms by (cases r) simp_all

lemma op_keeps:
  assumes "synced (snd m) \<and> I (live (snd m))"
    and "\<And>x c. m = (Inr x, c) \<Longrightarrow> synced c \<Longrightarrow> I (live c) \<Longrightarrow> synced (snd (k x c)) \<and> I (live (snd (k x c)))"
  shows "synced (snd (try_op m k)) \<and> I (live (snd (try_op m k)))"
  using assms by (cases m; cases "fst m") simp_all

end

text \<open>With the trivial invariant: the disk agrees.\<close>

interpretation disk: state_invariant "\<lambda>_. True" "\<lambda>_. ()"
  by unfold_locales simp

lemma commit_synced [simp]: "synced c \<Longrightarrow> synced (snd (commit ev n s x c))"
  using disk.commit_keeps by simp

section \<open>Facts about the primitives\<close>

lemma require_name_Inr: "require_name field value = Inr u \<longleftrightarrow> str_trim value \<noteq> []"
  by (simp add: require_name_def)

lemma require_name_Inl: "str_trim value = [] \<Longrightarrow>
    require_name field value = Inl (Validation (field @ '' cannot be empty''))"
  by (simp add: require_name_def)

lemma ensure_repo_exists_Inr: "ensure_repo_exists s owner repo = Inr u \<longleftrightarrow> hm_has (st_repos s) (owner, repo)"
  by (cases "hm_get (st_repos s) (owner, repo)")
    (simp_all add: ensure_repo_exists_def canonical_repository_def hm_has_def)

lemma ensure_repository_writable_Inr:
  "ensure_repository_writable s owner repo = Inr u \<longleftrightarrow>
     (\<exists>r. resolve_repository s owner repo = Some r \<and> \<not> rp_archived r)"
  by (cases "resolve_repository s owner repo")
    (simp_all add: ensure_repository_writable_def get_repository_def)

lemma ensure_repository_writable_archived:
  "resolve_repository s owner repo = Some r \<Longrightarrow> rp_archived r \<Longrightarrow>
     ensure_repository_writable s owner repo = Inl (RepositoryArchived (slug_name owner repo))"
  by (simp add: ensure_repository_writable_def get_repository_def)

text \<open>The outbox is the only part of the state an event touches, and it only grows.\<close>




lemma emit_event_deliveries:
  "st_webhook_deliveries (emit_event_locked ev n owner repo event payload s) =
     st_webhook_deliveries s @
       map2 (delivery ev owner repo event payload)
         [n..<n + length [h \<leftarrow> hm_list (st_webhooks s) (owner, repo). should_deliver h event]]
         [h \<leftarrow> hm_list (st_webhooks s) (owner, repo). should_deliver h event]"
  by (simp add: emit_event_locked_def Let_def)

lemma emit_event_sel [simp]:
  "st_users (emit_event_locked ev n owner repo event payload s) = st_users s"
  "st_accounts (emit_event_locked ev n owner repo event payload s) = st_accounts s"
  "st_repo_grants (emit_event_locked ev n owner repo event payload s) = st_repo_grants s"
  "st_repos (emit_event_locked ev n owner repo event payload s) = st_repos s"
  "st_issues (emit_event_locked ev n owner repo event payload s) = st_issues s"
  "st_issue_comments (emit_event_locked ev n owner repo event payload s) = st_issue_comments s"
  "st_pulls (emit_event_locked ev n owner repo event payload s) = st_pulls s"
  "st_reviews (emit_event_locked ev n owner repo event payload s) = st_reviews s"
  "st_review_comments (emit_event_locked ev n owner repo event payload s) = st_review_comments s"
  "st_branch_protections (emit_event_locked ev n owner repo event payload s) = st_branch_protections s"
  "st_codeowners (emit_event_locked ev n owner repo event payload s) = st_codeowners s"
  "st_statuses (emit_event_locked ev n owner repo event payload s) = st_statuses s"
  "st_check_runs (emit_event_locked ev n owner repo event payload s) = st_check_runs s"
  "st_counters (emit_event_locked ev n owner repo event payload s) = st_counters s"
  "st_repository_aliases (emit_event_locked ev n owner repo event payload s) = st_repository_aliases s"
  "st_organizations (emit_event_locked ev n owner repo event payload s) = st_organizations s"
  "st_teams (emit_event_locked ev n owner repo event payload s) = st_teams s"
  "st_invitations (emit_event_locked ev n owner repo event payload s) = st_invitations s"
  "st_password_recoveries (emit_event_locked ev n owner repo event payload s) = st_password_recoveries s"
  "st_waitlist (emit_event_locked ev n owner repo event payload s) = st_waitlist s"
  "st_jankurai_scores (emit_event_locked ev n owner repo event payload s) = st_jankurai_scores s"
  by (simp_all add: emit_event_locked_def Let_def)

lemma next_record_number_sel [simp]:
  "st_users (snd (next_record_number owner repo s)) = st_users s"
  "st_repos (snd (next_record_number owner repo s)) = st_repos s"
  "st_issues (snd (next_record_number owner repo s)) = st_issues s"
  "st_pulls (snd (next_record_number owner repo s)) = st_pulls s"
  "st_reviews (snd (next_record_number owner repo s)) = st_reviews s"
  "st_repository_aliases (snd (next_record_number owner repo s)) = st_repository_aliases s"
  "st_accounts (snd (next_record_number owner repo s)) = st_accounts s"
  "st_organizations (snd (next_record_number owner repo s)) = st_organizations s"
  "st_teams (snd (next_record_number owner repo s)) = st_teams s"
  "st_invitations (snd (next_record_number owner repo s)) = st_invitations s"
  "st_password_recoveries (snd (next_record_number owner repo s)) = st_password_recoveries s"
  "st_waitlist (snd (next_record_number owner repo s)) = st_waitlist s"
  "st_jankurai_scores (snd (next_record_number owner repo s)) = st_jankurai_scores s"
  by (simp_all add: next_record_number_def Let_def)

text \<open>Refreshing the mergeability of a head rewrites pull requests in place, nothing else.\<close>

lemma refresh_keys_sel [simp]:
  "st_users (refresh_keys ev keys s) = st_users s"
  "st_repos (refresh_keys ev keys s) = st_repos s"
  "st_issues (refresh_keys ev keys s) = st_issues s"
  "st_reviews (refresh_keys ev keys s) = st_reviews s"
  "st_statuses (refresh_keys ev keys s) = st_statuses s"
  "st_check_runs (refresh_keys ev keys s) = st_check_runs s"
  "st_counters (refresh_keys ev keys s) = st_counters s"
  "st_branch_protections (refresh_keys ev keys s) = st_branch_protections s"
  "st_webhooks (refresh_keys ev keys s) = st_webhooks s"
  "st_codeowners (refresh_keys ev keys s) = st_codeowners s"
  "st_repository_aliases (refresh_keys ev keys s) = st_repository_aliases s"
  "st_accounts (refresh_keys ev keys s) = st_accounts s"
  "st_organizations (refresh_keys ev keys s) = st_organizations s"
  "st_teams (refresh_keys ev keys s) = st_teams s"
  "st_invitations (refresh_keys ev keys s) = st_invitations s"
  "st_password_recoveries (refresh_keys ev keys s) = st_password_recoveries s"
  "st_waitlist (refresh_keys ev keys s) = st_waitlist s"
  "st_jankurai_scores (refresh_keys ev keys s) = st_jankurai_scores s"
  by (induction ev keys s rule: refresh_keys.induct) (simp_all split: option.split)

lemmas refresh_sel [simp] =
  refresh_keys_sel [of ev "map fst [((pull_owner, pull_repo, _), pr) \<leftarrow> st_pulls s.
    pull_owner = owner \<and> pull_repo = repo \<and> gr_sha (pr_head pr) = sha]" s for ev owner repo sha s,
    folded refresh_pull_mergeability_for_sha_def]

section \<open>Re-evaluation\<close>

text \<open>The gate reads six maps of the state, and only at the pull request's own keys.\<close>

lemma evaluate_locked_reads:
  assumes "st_branch_protections s = st_branch_protections s'" and "st_reviews s = st_reviews s'"
    and "st_statuses s = st_statuses s'" and "st_check_runs s = st_check_runs s'"
    and "st_codeowners s = st_codeowners s'"
  shows "evaluate_locked ev s pr requested = evaluate_locked ev s' pr requested"
  using assms by (simp add: evaluate_locked_def)

lemma reevaluated_reads:
  assumes "st_branch_protections s = st_branch_protections s'" and "st_reviews s = st_reviews s'"
    and "st_statuses s = st_statuses s'" and "st_check_runs s = st_check_runs s'"
    and "st_codeowners s = st_codeowners s'"
  shows "reevaluated ev s pr = reevaluated ev s' pr"
  using evaluate_locked_reads [OF assms] by (simp add: reevaluated_def)

lemma apply_evaluation_sel [simp]:
  "pr_owner (apply_evaluation e pr) = pr_owner pr"
  "pr_repo (apply_evaluation e pr) = pr_repo pr"
  "pr_number (apply_evaluation e pr) = pr_number pr"
  "pr_issue_number (apply_evaluation e pr) = pr_issue_number pr"
  "pr_author (apply_evaluation e pr) = pr_author pr"
  "pr_draft (apply_evaluation e pr) = pr_draft pr"
  "pr_head (apply_evaluation e pr) = pr_head pr"
  "pr_base (apply_evaluation e pr) = pr_base pr"
  "pr_merged (apply_evaluation e pr) = pr_merged pr"
  "pr_merge_commit_sha (apply_evaluation e pr) = pr_merge_commit_sha pr"
  "pr_head_patch_ids (apply_evaluation e pr) = pr_head_patch_ids pr"
  "pr_commits (apply_evaluation e pr) = pr_commits pr"
  "pr_changed_files (apply_evaluation e pr) = pr_changed_files pr"
  by (simp_all add: apply_evaluation_def)

lemma reevaluated_sel [simp]:
  "pr_owner (reevaluated ev s pr) = pr_owner pr"
  "pr_repo (reevaluated ev s pr) = pr_repo pr"
  "pr_number (reevaluated ev s pr) = pr_number pr"
  "pr_issue_number (reevaluated ev s pr) = pr_issue_number pr"
  "pr_author (reevaluated ev s pr) = pr_author pr"
  "pr_draft (reevaluated ev s pr) = pr_draft pr"
  "pr_head (reevaluated ev s pr) = pr_head pr"
  "pr_base (reevaluated ev s pr) = pr_base pr"
  "pr_merged (reevaluated ev s pr) = pr_merged pr"
  "pr_merge_commit_sha (reevaluated ev s pr) = pr_merge_commit_sha pr"
  by (simp_all add: reevaluated_def)

lemma apply_evaluation_terminal:
  "pr_merged pr \<or> pr_state pr = PrMerged \<Longrightarrow>
     pr_state (apply_evaluation e pr) = pr_state pr \<and> \<not> pr_mergeable (apply_evaluation e pr)"
  "pr_state pr = PrClosed \<Longrightarrow>
     pr_state (apply_evaluation e pr) = PrClosed \<and> \<not> pr_mergeable (apply_evaluation e pr)"
  by (auto simp: apply_evaluation_def)

lemma apply_evaluation_state_cases:
  "pr_state (apply_evaluation e pr) = pr_state pr \<or>
   (\<not> pr_merged pr \<and> pr_state pr \<noteq> PrMerged \<and> pr_state pr \<noteq> PrClosed \<and>
    pr_state (apply_evaluation e pr) \<in> {PrDraft, PrMergeable, PrBlockedByChecks})"
  by (auto simp: apply_evaluation_def)

lemma refresh_keys_pulls:
  assumes "distinct keys"
  shows "hm_get (st_pulls (refresh_keys ev keys s)) key =
           (if key \<in> set keys then map_option (reevaluated ev s) (hm_get (st_pulls s) key)
            else hm_get (st_pulls s) key)"
  using assms
proof (induction keys arbitrary: s)
  case Nil
  show ?case by simp
next
  case (Cons k ks)
  show ?case
  proof (cases "hm_get (st_pulls s) k")
    case None
    with Cons show ?thesis by auto
  next
    case (Some pr)
    let ?s = "s\<lparr>st_pulls := hm_put k (reevaluated ev s pr) (st_pulls s)\<rparr>"
    have same: "reevaluated ev ?s = reevaluated ev s"
      by (rule ext) (rule reevaluated_reads; simp)
    from Cons.IH [of ?s] Cons.prems Some same show ?thesis by auto
  qed
qed

text \<open>
  After a refresh, every pull request of the repository at that head has been judged against the
  current state, and no other pull request has changed.
\<close>

lemma refresh_pulls:
  assumes "hm_ok (st_pulls s)"
  shows "hm_get (st_pulls (refresh_pull_mergeability_for_sha ev owner repo sha s)) (o', r', n) =
    (case hm_get (st_pulls s) (o', r', n) of
       None \<Rightarrow> None
     | Some pr \<Rightarrow>
         if o' = owner \<and> r' = repo \<and> gr_sha (pr_head pr) = sha then Some (reevaluated ev s pr)
         else Some pr)"
proof -
  let ?P = "\<lambda>((pull_owner, pull_repo, n::u64), pr).
    pull_owner = owner \<and> pull_repo = repo \<and> gr_sha (pr_head pr) = sha"
  let ?keys = "map fst (filter ?P (st_pulls s))"
  have distinct: "distinct ?keys"
    using assms by (auto simp: hm_ok_def distinct_map intro: inj_on_subset)
  have mem: "(o', r', n) \<in> set ?keys \<longleftrightarrow>
      (\<exists>pr. hm_get (st_pulls s) (o', r', n) = Some pr \<and> ?P ((o', r', n), pr))"
    using assms by (auto simp: hm_ok_def image_iff)
  show ?thesis
    unfolding refresh_pull_mergeability_for_sha_def refresh_keys_pulls [OF distinct]
    using mem by (auto split: option.splits)
qed

lemma refresh_ok: "hm_ok (st_pulls s) \<Longrightarrow> hm_ok (st_pulls (refresh_keys ev keys s))"
  by (induction ev keys s rule: refresh_keys.induct) (simp_all add: hash.ok_put split: option.split)

text \<open>
  The gate does not read what the evaluation writes, so re-evaluating twice is re-evaluating
  once, and a refreshed pull request is up to date.
\<close>

lemma evaluate_apply [simp]:
  "evaluate_locked ev s (apply_evaluation e pr) requested = evaluate_locked ev s pr requested"
proof -
  have gates: "gate_sha (apply_evaluation e pr) requested = gate_sha pr requested"
    "\<And>rule. gate_linear rule (apply_evaluation e pr) = gate_linear rule pr"
    "\<And>rule. gate_signed rule (apply_evaluation e pr) = gate_signed rule pr"
    "\<And>owners rs. gate_codeowners owners (apply_evaluation e pr) rs = gate_codeowners owners pr rs"
    by (simp_all add: gate_sha_def gate_linear_def gate_signed_def gate_codeowners_def
        split: option.split)
  have "intrinsic_blockers (apply_evaluation e pr) rs ss cs requested ctx =
      intrinsic_blockers pr rs ss cs requested ctx" for rs ss cs ctx
    by (cases "ec_jankurai_proof_mandatory ctx")
      (simp_all add: intrinsic_blockers_def gates gate_draft_def)
  moreover have "rule_blockers rule (apply_evaluation e pr) rs ss cs ctx = rule_blockers rule pr rs ss cs ctx"
    for rule rs ss cs ctx
    by (cases "bp_require_jankurai_proof rule \<and> \<not> ec_jankurai_proof_mandatory ctx")
      (simp_all only: rule_blockers_def gates if_True if_False apply_evaluation_sel)
  moreover have "effective_reviews_for_pull_request_with rs (apply_evaluation e pr) reach =
      effective_reviews_for_pull_request_with rs pr reach" for rs reach
    by (simp add: effective_reviews_for_pull_request_with_def)
  ultimately have "evaluate_branch_protection_with (apply_evaluation e pr) p rs ss cs requested ctx =
      evaluate_branch_protection_with pr p rs ss cs requested ctx" for p rs ss cs ctx
    by (cases p) (simp_all add: evaluate_branch_protection_with_def Let_def)
  then show ?thesis by (simp add: evaluate_locked_def)
qed

lemma apply_evaluation_idem [simp]: "apply_evaluation e (apply_evaluation e pr) = apply_evaluation e pr"
  by (simp add: apply_evaluation_def)

lemma reevaluated_idem [simp]: "reevaluated ev s (reevaluated ev s pr) = reevaluated ev s pr"
  by (simp add: reevaluated_def)

lemma refresh_reads [simp]:
  "reevaluated ev (refresh_pull_mergeability_for_sha ev owner repo sha s) = reevaluated ev s"
  by (rule ext) (rule reevaluated_reads; simp)

lemma emit_reads [simp]:
  "reevaluated ev (emit_event_locked ev' n owner repo event payload s) = reevaluated ev s"
  by (rule ext) (rule reevaluated_reads; simp)

lemma refresh_fresh:
  assumes "hm_ok (st_pulls s)"
    and "hm_get (st_pulls (refresh_pull_mergeability_for_sha ev owner repo sha s)) (owner, repo, n) = Some pr"
    and "gr_sha (pr_head pr) = sha"
  shows "pr = reevaluated ev s pr"
  using assms by (auto simp: refresh_pulls split: option.splits if_splits)

end
