(* ===== verification/Sample_Store.thy ===== *)
theory Sample_Store
  imports Forge_State
begin

text \<open>
  A concrete store for the instances of the theorems: the repository \<^verbatim>\<open>acme/core\<close> with pull
  request 1, an administrator \<^verbatim>\<open>root\<close>, and surroundings in which every write succeeds.
\<close>

definition ex_env :: env where
  "ex_env = \<lparr>env_clk = (\<lambda>n. 100 + int n), env_fresh = (\<lambda>n. 1000 + n), env_fault = (\<lambda>_. None),
             env_audit_enforce_merge = None, env_hmac_hex = (\<lambda>_ _. ''00''),
             env_random = (\<lambda>n k. Inr (replicate k n)), env_hex = concat \<circ> map show_nat,
             env_sha256_hex = id, env_argon2_hash = (\<lambda>_ p. Inr (''$argon2id$'' @ p)),
             env_argon2_verify = (\<lambda>p h. h = ''$argon2id$'' @ p), env_json_text = (\<lambda>_. ''{}'')\<rparr>"

definition ex_user :: "string \<Rightarrow> user" where
  "ex_user login = \<lparr>us_id = 2, us_login = login, us_name = None, us_email = None, us_created_at = 0\<rparr>"

definition ex_account :: "string \<Rightarrow> user_role \<Rightarrow> user_account" where
  "ex_account login role =
     \<lparr>ua_canonical_login = login, ua_display_name = login, ua_password_hash = [], ua_role = role,
      ua_status = Active, ua_auth_epoch = 0, ua_must_change_password = False, ua_created_at = 0,
      ua_updated_at = 0\<rparr>"

definition ex_state :: state where
  "ex_state = default_state
     \<lparr>st_users := [(''ann'', ex_user ''ann''), (''bob'', ex_user ''bob''), (''ci'', ex_user ''ci'')],
      st_accounts := [(''root'', ex_account ''root'' RoleAdmin)],
      st_repos := [((''acme'', ''core''), ex_repository)],
      st_pulls := [((''acme'', ''core'', 1), ex_pull)],
      st_counters := [((''acme'', ''core''), \<lparr>cn_issue = 1, cn_pull = 1\<rparr>)]\<rparr>"

definition ex_core :: core where
  "ex_core = \<lparr>live = ex_state, storage = Some \<lparr>du_disk = ex_state, du_audit = []\<rparr>\<rparr>"

lemmas ex_store = ex_env_def ex_user_def ex_account_def ex_state_def ex_core_def default_state_def

lemma ex_state_sel [simp]:
  "st_users ex_state = [(''ann'', ex_user ''ann''), (''bob'', ex_user ''bob''), (''ci'', ex_user ''ci'')]"
  "st_accounts ex_state = [(''root'', ex_account ''root'' RoleAdmin)]"
  "st_repos ex_state = [((''acme'', ''core''), ex_repository)]"
  "st_pulls ex_state = [((''acme'', ''core'', 1), ex_pull)]"
  "st_counters ex_state = [((''acme'', ''core''), \<lparr>cn_issue = 1, cn_pull = 1\<rparr>)]"
  "st_reviews ex_state = []" "st_statuses ex_state = []" "st_check_runs ex_state = []"
  "st_branch_protections ex_state = []" "st_codeowners ex_state = []" "st_webhooks ex_state = []"
  "st_issues ex_state = []" "st_repository_aliases ex_state = []" "st_webhook_deliveries ex_state = []"
  "st_repo_grants ex_state = []" "st_organizations ex_state = []" "st_review_comments ex_state = []"
  by (simp_all add: ex_state_def default_state_def)

lemma ex_core_sel [simp]: "live ex_core = ex_state"
  "storage ex_core = Some \<lparr>du_disk = ex_state, du_audit = []\<rparr>"
  by (simp_all add: ex_core_def)

lemma ex_env_sel [simp]: "env_fault ex_env n = None" "env_clk ex_env n = 100 + int n"
  "env_fresh ex_env n = 1000 + n" "env_audit_enforce_merge ex_env = None"
  by (simp_all add: ex_env_def)

lemma ex_writes [simp]: "\<not> write_fails ex_env n c"
  by (simp add: write_fails_def)

lemma ex_writable [simp]: "ensure_repository_writable ex_state ''acme'' ''core'' = Inr ()"
  by (simp add: ensure_repository_writable_def get_repository_def resolve_repository_def
      ex_repository_def)

lemma ex_exists [simp]: "ensure_repo_exists ex_state ''acme'' ''core'' = Inr ()"
  by (simp add: ensure_repo_exists_def canonical_repository_def)

end
