(* ===== verification/Accounts.thy ===== *)
theory Accounts
  imports Sample_Store
begin

text \<open>
  Authorization (\<^verbatim>\<open>repo_access_for\<close> and its wrappers in \<^verbatim>\<open>engine/auth.rs\<close>, team bots' acting access
  in \<^verbatim>\<open>engine/team_bots.rs\<close>), the audit trail (\<^verbatim>\<open>engine/audit.rs\<close>) and users, organizations and
  teams (\<^verbatim>\<open>engine/accounts.rs\<close>).
\<close>

section \<open>Access\<close>

definition bot_account_matches :: "state \<Rightarrow> bot_record \<Rightarrow> bool" where
  "bot_account_matches s br =
     (if bo_status br \<noteq> BotActive then False
      else if bo_owner_kind br = OwnedByOrganization
      then hm_has (st_organizations s) (bo_owner br)
      else case hm_get (st_accounts s) (bo_owner br) of
        None \<Rightarrow> False
      | Some account \<Rightarrow>
          permits_authentication (ua_status account) \<and> ua_auth_epoch account = bo_auth_epoch br)"

definition grant_access :: "state \<Rightarrow> uuid \<Rightarrow> string \<Rightarrow> string \<Rightarrow> bot_repo_access option" where
  "grant_access s bot_id owner repo =
     (case hm_get (st_repos s) (owner, repo) of
        None \<Rightarrow> None
      | Some repository \<Rightarrow>
          map_option bg_access (hm_get (st_bot_repo_grants s) (bot_id, rp_id repository)))"

definition acting_repo_access :: "state \<Rightarrow> string \<Rightarrow> string \<Rightarrow> string \<Rightarrow> repo_access_level option" where
  "acting_repo_access s login owner repo =
     (case parse_team_bot_login login of
        None \<Rightarrow> None
      | Some (org, slug) \<Rightarrow>
          (case find (\<lambda>br. bo_owner_kind br = OwnedByOrganization \<and> bo_owner br = org \<and>
                       bo_slug br = slug) (hm_values (st_bots s)) of
             None \<Rightarrow> None
           | Some br \<Rightarrow>
               if \<not> bot_account_matches s br then None
               else map_option (\<lambda>access. case access of BotRead \<Rightarrow> AccessRead | BotWrite \<Rightarrow> AccessWrite)
                      (grant_access s (bo_id br) owner repo)))"

definition repo_access_for :: "state \<Rightarrow> string \<Rightarrow> string \<Rightarrow> string \<Rightarrow> repo_access_level option" where
  "repo_access_for s login owner repo =
     (if parse_team_bot_login login \<noteq> None then acting_repo_access s login owner repo
      else case hm_get (st_accounts s) login of
        None \<Rightarrow> None
      | Some account \<Rightarrow>
          if \<not> permits_authentication (ua_status account) then None
          else if ua_role account = RoleAdmin then Some AccessAdmin
          else map_option ga_access (hm_get (st_repo_grants s) (login, owner, repo)))"

definition user_can_read_repo :: "state \<Rightarrow> string \<Rightarrow> string \<Rightarrow> string \<Rightarrow> bool" where
  "user_can_read_repo s login owner repo =
     (case repo_access_for s login owner repo of None \<Rightarrow> False | Some level \<Rightarrow> allows_read level)"

definition user_can_write_repo :: "state \<Rightarrow> string \<Rightarrow> string \<Rightarrow> string \<Rightarrow> bool" where
  "user_can_write_repo s login owner repo =
     (case repo_access_for s login owner repo of None \<Rightarrow> False | Some level \<Rightarrow> allows_write level)"

definition user_can_admin_repo :: "state \<Rightarrow> string \<Rightarrow> string \<Rightarrow> string \<Rightarrow> bool" where
  "user_can_admin_repo s login owner repo =
     (case repo_access_for s login owner repo of None \<Rightarrow> False | Some level \<Rightarrow> allows_admin level)"

definition is_global_admin :: "state \<Rightarrow> string \<Rightarrow> bool" where
  "is_global_admin s login =
     (case hm_get (st_accounts s) login of
        None \<Rightarrow> False
      | Some account \<Rightarrow> permits_authentication (ua_status account) \<and> ua_role account = RoleAdmin)"

definition require_login :: "string \<Rightarrow> forge_error + unit" where
  "require_login login =
     try_res (require_name ''login'' login) (\<lambda>_.
       if str_trim login \<noteq> login \<or> \<not> list_all login_char login
       then Inl (Validation (''login must be canonical lowercase ASCII using letters, numbers, ''
                   @ ''hyphen, or underscore''))
       else Inr ())"

section \<open>The audit trail\<close>

definition AUDIT_PHASES :: "string list" where
  "AUDIT_PHASES = [''requested'', ''completed'', ''failed'']"

definition append_audit_as ::
  "env \<Rightarrow> nat \<Rightarrow> string \<Rightarrow> string \<Rightarrow> string \<Rightarrow> string \<Rightarrow> json \<Rightarrow> core \<Rightarrow> uuid outcome" where
  "append_audit_as ev n actor action subject phase detail c =
     (if str_trim actor = [] then (Inl (Validation ''audit actor cannot be empty''), c)
      else if str_trim action = [] then (Inl (Validation ''audit action cannot be empty''), c)
      else if phase \<notin> set AUDIT_PHASES
      then (Inl (Validation (''audit phase must be one of requested/completed/failed, got '' @ quoted phase)), c)
      else let entry = \<lparr>ae_id = env_fresh ev n, ae_occurred_at = env_clk ev n, ae_actor = actor,
                        ae_action = action, ae_subject = subject, ae_phase = phase,
                        ae_detail = detail\<rparr>
      in case storage c of
        None \<Rightarrow> (Inr (ae_id entry), c)
      | Some d \<Rightarrow>
          (case env_fault ev n of
             Some e \<Rightarrow> (Inl e, c)
           | None \<Rightarrow> (Inr (ae_id entry), c\<lparr>storage := Some (d\<lparr>du_audit := du_audit d @ [entry]\<rparr>)\<rparr>)))"

definition append_audit ::
  "env \<Rightarrow> nat \<Rightarrow> string \<Rightarrow> string \<Rightarrow> string \<Rightarrow> json \<Rightarrow> core \<Rightarrow> uuid outcome" where
  "append_audit ev n action subject phase detail c =
     append_audit_as ev n ''local'' action subject phase detail c"

definition list_audit :: "core \<Rightarrow> string \<Rightarrow> audit_entry list" where
  "list_audit c subject =
     (case storage c of
        None \<Rightarrow> []
      | Some d \<Rightarrow> [entry \<leftarrow> du_audit d. ae_subject entry = subject])"

section \<open>Users, organizations and teams\<close>

definition create_user :: "env \<Rightarrow> nat \<Rightarrow> create_user_request \<Rightarrow> core \<Rightarrow> user outcome" where
  "create_user ev n request c =
     try_pure (require_name ''login'' (cur_login request)) c (\<lambda>_.
       if hm_has (st_users (live c)) (cur_login request)
       then (Inl (Conflict (''user '' @ cur_login request)), c)
       else let user = \<lparr>us_id = env_fresh ev n, us_login = cur_login request,
                        us_name = cur_name request, us_email = cur_email request,
                        us_created_at = env_clk ev n\<rparr>
       in commit ev n
            ((live c)\<lparr>st_users := hm_put (cur_login request) user (st_users (live c))\<rparr>) user c)"

definition get_user :: "core \<Rightarrow> string \<Rightarrow> forge_error + user" where
  "get_user c login = ok_or (hm_get (st_users (live c)) login) (NotFound (''user '' @ login))"

text \<open>\<^verbatim>\<open>ensure_user\<close> panics when the user can not be created.\<close>

definition ensure_user :: "env \<Rightarrow> nat \<Rightarrow> string \<Rightarrow> core \<Rightarrow> user outcome" where
  "ensure_user ev n login c =
     (case get_user c login of
        Inr user \<Rightarrow> (Inr user, c)
      | Inl _ \<Rightarrow>
          (case create_user ev n \<lparr>cur_login = login, cur_name = None, cur_email = None\<rparr> c of
             (Inr user, c') \<Rightarrow> (Inr user, c')
           | (Inl _, c') \<Rightarrow>
               (Inl (Panicked ''ensure_user creates a unique user after not-found''), c')))"

definition create_organization ::
  "env \<Rightarrow> create_organization_request \<Rightarrow> core \<Rightarrow> organization outcome" where
  "create_organization ev request c =
     try_pure (require_name ''login'' (cog_login request)) c (\<lambda>_.
       if hm_has (st_organizations (live c)) (cog_login request)
       then (Inl (Conflict (''organization '' @ cog_login request)), c)
       else let organization = \<lparr>og_id = env_fresh ev 0, og_login = cog_login request,
                                og_display_name = cog_display_name request,
                                og_created_at = env_clk ev 0, og_owners = [], og_created_by = None\<rparr>
       in commit ev 0
            ((live c)\<lparr>st_organizations :=
               hm_put (cog_login request) organization (st_organizations (live c))\<rparr>) organization c)"

definition get_organization :: "core \<Rightarrow> string \<Rightarrow> forge_error + organization" where
  "get_organization c login =
     ok_or (hm_get (st_organizations (live c)) login) (NotFound (''organization '' @ login))"

definition create_team :: "env \<Rightarrow> string \<Rightarrow> create_team_request \<Rightarrow> core \<Rightarrow> team outcome" where
  "create_team ev org request c =
     try_pure (require_name ''team name'' (ctm_name request)) c (\<lambda>_.
       let slug = (case ctm_slug request of Some slug \<Rightarrow> slug | None \<Rightarrow> slugify (ctm_name request))
       in try_pure (require_name ''team slug'' slug) c (\<lambda>_.
            if \<not> hm_has (st_organizations (live c)) org
            then (Inl (NotFound (''organization '' @ org)), c)
            else if hm_has (st_teams (live c)) (org, slug)
            then (Inl (Conflict (''team '' @ slug_name org slug)), c)
            else let team = \<lparr>tm_id = env_fresh ev 0, tm_organization = org, tm_slug = slug,
                             tm_name = ctm_name request, tm_members = ctm_members request,
                             tm_created_at = env_clk ev 0\<rparr>
            in commit ev 0
                 ((live c)\<lparr>st_teams := hm_put (org, slug) team (st_teams (live c))\<rparr>) team c))"

definition list_teams :: "core \<Rightarrow> string \<Rightarrow> forge_error + team list" where
  "list_teams c org =
     (if \<not> hm_has (st_organizations (live c)) org then Inl (NotFound (''organization '' @ org))
      else Inr [tm \<leftarrow> hm_values (st_teams (live c)). tm_organization tm = org])"

section \<open>Facts\<close>

text \<open>An audit append writes no state: at most one entry is added to the trail.\<close>

lemma append_audit_live [simp]:
  "live (snd (append_audit_as ev n actor action subject phase detail c)) = live c"
  by (simp add: append_audit_as_def Let_def split: option.split)

lemma append_audit_synced [simp]:
  "synced (snd (append_audit_as ev n actor action subject phase detail c)) = synced c"
  by (auto simp: append_audit_as_def Let_def synced_def split: option.split)

lemma append_audit_trail:
  assumes "append_audit_as ev n actor action subject phase detail c = (Inr i, c')"
    and "storage c = Some d"
  shows "\<exists>entry. storage c' = Some (d\<lparr>du_audit := du_audit d @ [entry]\<rparr>) \<and> live c' = live c \<and>
           ae_id entry = i \<and> ae_actor entry = actor \<and> ae_action entry = action \<and>
           ae_subject entry = subject \<and> ae_phase entry = phase \<and> ae_detail entry = detail"
  using assms by (auto simp: append_audit_as_def Let_def split: if_splits option.splits)

lemma append_audit_grows:
  assumes "storage c = Some d"
  shows "\<exists>d' new. storage (snd (append_audit_as ev n actor action subject phase detail c)) = Some d' \<and>
           du_audit d' = du_audit d @ new \<and> du_disk d' = du_disk d"
  using assms by (auto simp: append_audit_as_def Let_def split: option.splits)

lemma append_audit_storage_None [simp]:
  "storage (snd (append_audit_as ev n actor action subject phase detail c)) = None \<longleftrightarrow> storage c = None"
  by (auto simp: append_audit_as_def Let_def split: option.splits)

text \<open>\<open>ensure_user\<close> adds at most the missing user; the rest of the live state is the same.\<close>

lemma create_user_cases:
  "(\<exists>e. create_user ev n request c = (Inl e, c)) \<or>
   (\<exists>u. create_user ev n request c =
      (Inr u, persisted ((live c)\<lparr>st_users := hm_put (cur_login request) u (st_users (live c))\<rparr>) c) \<and>
      \<not> hm_has (st_users (live c)) (cur_login request) \<and> us_login u = cur_login request)"
  by (cases "require_name ''login'' (cur_login request)")
    (simp_all add: create_user_def commit_eq Let_def)

lemma ensure_user_cases:
  "(\<exists>p. ensure_user ev n login c = (Inl (Panicked p), c)) \<or>
   (\<exists>u. ensure_user ev n login c = (Inr u, c)) \<or>
   (\<exists>u. ensure_user ev n login c =
      (Inr u, persisted ((live c)\<lparr>st_users := hm_put login u (st_users (live c))\<rparr>) c))"
proof (cases "get_user c login")
  case (Inr u)
  then show ?thesis by (simp add: ensure_user_def)
next
  case (Inl e)
  with create_user_cases [of ev n "\<lparr>cur_login = login, cur_name = None, cur_email = None\<rparr>" c]
  show ?thesis by (auto simp: ensure_user_def)
qed

text \<open>A team bot's login never administers a repository.\<close>

lemma team_bot_no_admin:
  assumes "parse_team_bot_login login \<noteq> None"
  shows "\<not> user_can_admin_repo s login owner repo"
proof -
  have "repo_access_for s login owner repo \<noteq> Some AccessAdmin"
    using assms
    by (auto simp: repo_access_for_def acting_repo_access_def split: option.splits if_splits bot_repo_access.splits)
  then show ?thesis by (auto simp: user_can_admin_repo_def allows_admin_def split: option.splits)
qed

text \<open>Who administers: exactly the active administrators and the active holders of an admin grant.\<close>

lemma user_can_admin_repo_iff:
  "user_can_admin_repo s login owner repo \<longleftrightarrow>
     parse_team_bot_login login = None \<and>
     (\<exists>account. hm_get (st_accounts s) login = Some account \<and> ua_status account = Active \<and>
        (ua_role account = RoleAdmin \<or>
         (\<exists>grant. hm_get (st_repo_grants s) (login, owner, repo) = Some grant \<and>
            ga_access grant = AccessAdmin)))"
proof (cases "parse_team_bot_login login")
  case None
  then show ?thesis
    by (auto simp: user_can_admin_repo_def repo_access_for_def allows_admin_def
        permits_authentication_def split: option.splits if_splits)
next
  case (Some b)
  with team_bot_no_admin [of login s owner repo] show ?thesis by simp
qed

end
