(* ===== verification/Repositories.thy ===== *)
theory Repositories
  imports Accounts
begin

text \<open>
  Repositories and labels (\<^verbatim>\<open>engine/repositories.rs\<close>). The bare git storage behind
  \<^verbatim>\<open>RepoBranches\<close>, the materializer that creates it and the push history are not part of this
  crate: they are parameters, and the storage's own state is the type \<open>'g\<close> the trait's methods
  read and change.
\<close>

section \<open>Creation and lookup\<close>

type_synonym materializer = "string \<Rightarrow> string \<Rightarrow> string \<Rightarrow> forge_error + unit"

definition create_repository ::
  "env \<Rightarrow> materializer option \<Rightarrow> string \<Rightarrow> create_repository_request \<Rightarrow> core \<Rightarrow> repository outcome" where
  "create_repository ev materializer owner request c =
     try_pure (require_name ''repository name'' (crp_name request)) c (\<lambda>_.
       let key = (owner, crp_name request)
       in if hm_has (st_repos (live c)) key
          then (Inl (Conflict (''repository '' @ slug_name owner (crp_name request))), c)
          else let repo = \<lparr>rp_id = env_fresh ev 0, rp_owner = owner, rp_name = crp_name request,
                           rp_full_name = slug_name owner (crp_name request),
                           rp_private = crp_private request, rp_description = crp_description request,
                           rp_default_branch = (case crp_default_branch request of
                                                  None \<Rightarrow> ''main'' | Some branch \<Rightarrow> branch),
                           rp_family = None, rp_archived = False, rp_disabled = False,
                           rp_created_at = env_clk ev 0, rp_updated_at = env_clk ev 0,
                           rp_pushed_at = None, rp_default_branch_protection_opt_out = False\<rparr>;
                   s1 = (live c)\<lparr>st_counters := hm_put key default_counters (st_counters (live c)),
                                 st_repos := hm_put key repo (st_repos (live c))\<rparr>;
                   s2 = snd (ensure_default_branch_protection ev 1 repo s1)
          in try_op (commit ev 0 s2 repo c) (\<lambda>_ c.
               case materializer of
                 None \<Rightarrow> (Inr repo, c)
               | Some materialize \<Rightarrow>
                   try_pure (materialize owner (rp_name repo) (rp_default_branch repo)) c
                     (\<lambda>_. (Inr repo, c))))"

definition list_repositories :: "state \<Rightarrow> string option \<Rightarrow> repository list" where
  "list_repositories s owner =
     sort_key rp_full_name
       [r \<leftarrow> hm_values (st_repos s). case owner of None \<Rightarrow> True | Some w \<Rightarrow> rp_owner r = w]"

section \<open>Single-field changes\<close>

text \<open>The write of a changed repository row under its canonical slug.\<close>

definition put_repo :: "string \<Rightarrow> string \<Rightarrow> repository \<Rightarrow> state \<Rightarrow> state" where
  "put_repo owner repo entry s = s\<lparr>st_repos := hm_put (owner, repo) entry (st_repos s)\<rparr>"

definition set_repository_family ::
  "env \<Rightarrow> string \<Rightarrow> string \<Rightarrow> string option \<Rightarrow> core \<Rightarrow> repository outcome" where
  "set_repository_family ev owner repo family c =
     try_pure (case family of
                 None \<Rightarrow> Inr None
               | Some value \<Rightarrow>
                   if str_trim value = []
                   then Inl (Validation ''family must not be blank; send null to clear it'')
                   else Inr (Some (str_trim value))) c (\<lambda>family.
     try_pure (canonical_repository (live c) owner repo) c (\<lambda>entry.
       let updated = entry\<lparr>rp_family := family, rp_updated_at := env_clk ev 0\<rparr>
       in commit ev 0 (put_repo owner repo updated (live c)) updated c))"

definition write_repository_archived ::
  "env \<Rightarrow> nat \<Rightarrow> string \<Rightarrow> string \<Rightarrow> bool \<Rightarrow> core \<Rightarrow> repository outcome" where
  "write_repository_archived ev n owner repo archived c =
     try_pure (canonical_repository (live c) owner repo) c (\<lambda>entry.
       let updated = entry\<lparr>rp_archived := archived, rp_updated_at := env_clk ev n\<rparr>
       in commit ev n (put_repo owner repo updated (live c)) updated c)"

definition set_repository_archived ::
  "env \<Rightarrow> string \<Rightarrow> string \<Rightarrow> string \<Rightarrow> bool \<Rightarrow> core \<Rightarrow> repository outcome" where
  "set_repository_archived ev actor owner repo archived c =
     try_pure (canonical_repository (live c) owner repo) c (\<lambda>current.
       if rp_archived current = archived then (Inr current, c)
       else let subject = slug_name owner repo;
                action = ''repository.archived'';
                detail = JObj [(''archived'', JBool archived)]
       in try_op (append_audit_as ev 0 actor action subject ''requested'' detail c) (\<lambda>_ c.
            case write_repository_archived ev 1 owner repo archived c of
              (result, c) \<Rightarrow>
                let phase = (case result of Inr _ \<Rightarrow> ''completed'' | Inl _ \<Rightarrow> ''failed'')
                in try_op (append_audit_as ev 2 actor action subject phase detail c)
                     (\<lambda>_ c. (result, c))))"

definition record_repository_push ::
  "env \<Rightarrow> string \<Rightarrow> string \<Rightarrow> time \<Rightarrow> core \<Rightarrow> repository outcome" where
  "record_repository_push ev owner repo at c =
     try_pure (canonical_repository (live c) owner repo) c (\<lambda>current.
       if (case rp_pushed_at current of None \<Rightarrow> False | Some pushed_at \<Rightarrow> at \<le> pushed_at)
       then (Inr current, c)
       else let updated = current\<lparr>rp_pushed_at := Some at\<rparr>
       in commit ev 0 (put_repo owner repo updated (live c)) updated c)"

section \<open>The default branch and git storage\<close>

record 'g repo_branches =
  branch_exists :: "'g \<Rightarrow> string \<Rightarrow> string \<Rightarrow> string \<Rightarrow> forge_error + bool"
  head_branch :: "'g \<Rightarrow> string \<Rightarrow> string \<Rightarrow> forge_error + string option"
  point_head_at :: "string \<Rightarrow> string \<Rightarrow> string \<Rightarrow> 'g \<Rightarrow> (forge_error + unit) \<times> 'g"

text \<open>\<^verbatim>\<open>if branches.head_branch(..)? != Some(branch) { branches.point_head_at(..)? }\<close>.\<close>

definition repoint_head ::
  "'g repo_branches \<Rightarrow> string \<Rightarrow> string \<Rightarrow> string \<Rightarrow> 'g \<Rightarrow> (forge_error + unit) \<times> 'g" where
  "repoint_head branches owner repo branch g =
     try_pure (head_branch branches g owner repo) g (\<lambda>head.
       if head \<noteq> Some branch then point_head_at branches owner repo branch g else (Inr (), g))"

text \<open>The part of \<^verbatim>\<open>set_repository_default_branch\<close> after \<^verbatim>\<open>HEAD\<close> agrees.\<close>

definition write_default_branch ::
  "env \<Rightarrow> string \<Rightarrow> string \<Rightarrow> string \<Rightarrow> core \<Rightarrow> repository outcome" where
  "write_default_branch ev owner repo branch c =
     try_pure (canonical_repository (live c) owner repo) c (\<lambda>entry.
       let updated = entry\<lparr>rp_default_branch := branch, rp_updated_at := env_clk ev 0\<rparr>;
           s1 = put_repo owner repo updated (live c);
           s2 = snd (ensure_default_branch_protection ev 1 updated s1)
       in commit ev 0 s2 updated c)"

definition set_repository_default_branch ::
  "env \<Rightarrow> 'g repo_branches \<Rightarrow> string \<Rightarrow> string \<Rightarrow> string \<Rightarrow> core \<times> 'g \<Rightarrow>
   (forge_error + repository) \<times> core \<times> 'g" where
  "set_repository_default_branch ev branches owner repo branch cg =
     (case cg of (c, g) \<Rightarrow>
       try_pure (require_name ''branch'' branch) cg (\<lambda>_.
         if str_trim branch \<noteq> branch
         then (Inl (Validation ''branch must not have surrounding whitespace''), cg)
         else try_pure (canonical_repository (live c) owner repo) cg (\<lambda>current.
           let owner = rp_owner current; repo = rp_name current
           in try_pure (branch_exists branches g owner repo branch) cg (\<lambda>exists.
                if \<not> exists
                then (Inl (NotFound (''branch '' @ branch @ '' in repository ''
                        @ slug_name owner repo)), cg)
                else case repoint_head branches owner repo branch g of
                  (pointed, g) \<Rightarrow>
                    try_pure pointed (c, g) (\<lambda>_.
                      if rp_default_branch current = branch then (Inr current, c, g)
                      else case write_default_branch ev owner repo branch c of
                        (result, c) \<Rightarrow> (result, c, g))))))"

datatype head_reconciled = Repaired "string option" | DefaultBranchMissing

record head_reconcile_report =
  hr_owner :: string
  hr_name :: string
  hr_default_branch :: string
  hr_outcome :: head_reconciled

definition head_report :: "repository \<Rightarrow> head_reconciled \<Rightarrow> head_reconcile_report" where
  "head_report repo result =
     \<lparr>hr_owner = rp_owner repo, hr_name = rp_name repo,
      hr_default_branch = rp_default_branch repo, hr_outcome = result\<rparr>"

text \<open>The loop over the repositories; \<open>reports\<close> is what has been pushed so far.\<close>

primrec reconcile_loop ::
  "'g repo_branches \<Rightarrow> repository list \<Rightarrow> head_reconcile_report list \<Rightarrow> 'g \<Rightarrow>
   (forge_error + head_reconcile_report list) \<times> 'g" where
  "reconcile_loop branches [] reports g = (Inr reports, g)"
| "reconcile_loop branches (repo # repos) reports g =
     (let branch = rp_default_branch repo in
      try_pure (branch_exists branches g (rp_owner repo) (rp_name repo) branch) g (\<lambda>exists.
        if exists then
          try_pure (head_branch branches g (rp_owner repo) (rp_name repo)) g (\<lambda>previous.
            if previous = Some branch then reconcile_loop branches repos reports g
            else try_op (point_head_at branches (rp_owner repo) (rp_name repo) branch g) (\<lambda>_ g.
                   reconcile_loop branches repos (reports @ [head_report repo (Repaired previous)]) g))
        else reconcile_loop branches repos (reports @ [head_report repo DefaultBranchMissing]) g))"

definition reconcile_repository_heads ::
  "'g repo_branches \<Rightarrow> state \<Rightarrow> 'g \<Rightarrow> (forge_error + head_reconcile_report list) \<times> 'g" where
  "reconcile_repository_heads branches s g =
     reconcile_loop branches (list_repositories s None) [] g"

section \<open>Default-branch protection opt-out\<close>

definition is_automatic_rule :: "branch_protection_rule \<Rightarrow> branch_protection_rule \<Rightarrow> bool" where
  "is_automatic_rule rule automatic =
     (rule\<lparr>bp_updated_at := bp_updated_at automatic\<rparr> = automatic)"

definition set_default_branch_protection_opt_out ::
  "env \<Rightarrow> string \<Rightarrow> string \<Rightarrow> string \<Rightarrow> bool \<Rightarrow> core \<Rightarrow> repository outcome" where
  "set_default_branch_protection_opt_out ev actor owner repo opt_out c =
     try_pure (canonical_repository (live c) owner repo) c (\<lambda>current.
       if \<not> is_global_admin (live c) actor
       then (Inl (BranchProtection (RefusalText ''global admin required'')), c)
       else let subject = slug_name owner repo;
                action = ''repository.default_branch_protection_opt_out'';
                detail = JObj [(''actor'', JStr actor), (''opt_out'', JBool opt_out),
                               (''default_branch'', JStr (rp_default_branch current))]
       in if opt_out \<and> repo_requires_status_context (live c) owner repo
          then try_op (append_audit ev 0 action subject ''failed'' detail c) (\<lambda>_ c.
                 (Inl (Validation (''repository '' @ slug_name owner repo @
                    '' requires a status context; its default branch cannot opt out of protection'')), c))
          else try_pure (canonical_repository (live c) owner repo) c (\<lambda>entry.
            if rp_default_branch_protection_opt_out entry = opt_out then (Inr entry, c)
            else let updated = entry\<lparr>rp_default_branch_protection_opt_out := opt_out,
                                     rp_updated_at := env_clk ev 0\<rparr>;
                     rule_key = (owner, repo, rp_default_branch updated);
                     s1 = put_repo owner repo updated (live c);
                     automatic =
                       default_branch_protection_rule ev 1 owner repo (rp_default_branch updated);
                     s2 = (if opt_out then
                             (case hm_get (st_branch_protections s1) rule_key of
                                None \<Rightarrow> s1
                              | Some rule \<Rightarrow>
                                  if is_automatic_rule rule automatic
                                  then s1\<lparr>st_branch_protections :=
                                         hm_del rule_key (st_branch_protections s1)\<rparr>
                                  else s1)
                           else snd (ensure_default_branch_protection ev 1 updated s1))
            in try_op (commit ev 0 s2 updated c) (\<lambda>_ c.
               try_op (append_audit ev 2 action subject ''completed'' detail c) (\<lambda>_ c.
                 (Inr updated, c)))))"

section \<open>Push times from history\<close>

type_synonym push_history = "string \<Rightarrow> string \<Rightarrow> forge_error + time option"

primrec newest_commits :: "push_history \<Rightarrow> slug list \<Rightarrow> forge_error + (slug \<times> time) list" where
  "newest_commits history [] = Inr []"
| "newest_commits history (key # keys) =
     try_res (history (fst key) (snd key)) (\<lambda>newest.
     try_res (newest_commits history keys) (\<lambda>found.
       Inr (case newest of None \<Rightarrow> found | Some at \<Rightarrow> (key, at) # found)))"

definition fill_pushed_at :: "slug \<times> time \<Rightarrow> nat \<times> state \<Rightarrow> nat \<times> state" where
  "fill_pushed_at entry acc =
     (case entry of (key, at) \<Rightarrow> case acc of (filled, s) \<Rightarrow>
       (case hm_get (st_repos s) key of
          None \<Rightarrow> (filled, s)
        | Some r \<Rightarrow>
            if rp_pushed_at r = None
            then (filled + 1, s\<lparr>st_repos := hm_put key (r\<lparr>rp_pushed_at := Some at\<rparr>) (st_repos s)\<rparr>)
            else (filled, s)))"

definition backfill_repository_pushed_at :: "env \<Rightarrow> push_history \<Rightarrow> core \<Rightarrow> nat outcome" where
  "backfill_repository_pushed_at ev history c =
     (let pending = map fst [(key, r) \<leftarrow> st_repos (live c). rp_pushed_at r = None]
      in try_pure (newest_commits history pending) c (\<lambda>found.
           if found = [] then (Inr 0, c)
           else case fold fill_pushed_at found (0, live c) of
             (filled, s) \<Rightarrow> if 0 < filled then commit ev 0 s filled c else (Inr filled, c\<lparr>live := s\<rparr>)))"

section \<open>Deletion\<close>

text \<open>\<^verbatim>\<open>as u32\<close> and \<^verbatim>\<open>+=\<close> on a \<^verbatim>\<open>u32\<close> wrap.\<close>

definition u32 :: "nat \<Rightarrow> nat" where
  "u32 n = n mod 2 ^ 32"

definition scoped_keys :: "string \<Rightarrow> string \<Rightarrow> (string \<times> string \<times> 'k, 'v) hmap \<Rightarrow> (string \<times> string \<times> 'k) list" where
  "scoped_keys owner repo m =
     [(key_owner, key_repo, k) \<leftarrow> map fst m. key_owner = owner \<and> key_repo = repo]"

definition drain_scoped ::
  "string \<Rightarrow> string \<Rightarrow> (string \<times> string \<times> 'k, 'v) hmap \<Rightarrow> nat \<times> (string \<times> string \<times> 'k, 'v) hmap" where
  "drain_scoped owner repo m =
     (let keys = scoped_keys owner repo m in (u32 (length keys), fold hm_del keys m))"

definition drain_bucket ::
  "'k \<Rightarrow> nat \<times> ('k, 'v list) hmap \<Rightarrow> nat \<times> ('k, 'v list) hmap" where
  "drain_bucket key acc =
     (case acc of (removed, m) \<Rightarrow>
       (case hm_get m key of
          None \<Rightarrow> (removed, m)
        | Some bucket \<Rightarrow> (u32 (removed + u32 (length bucket)), hm_del key m)))"

definition drain_scoped_vecs ::
  "string \<Rightarrow> string \<Rightarrow> (string \<times> string \<times> 'k, 'v list) hmap \<Rightarrow>
   nat \<times> (string \<times> string \<times> 'k, 'v list) hmap" where
  "drain_scoped_vecs owner repo m = fold drain_bucket (scoped_keys owner repo m) (0, m)"

text \<open>\<^verbatim>\<open>map.remove(&key)\<close> on the maps keyed by slug: the count of what goes and the map left.\<close>

definition remove_entry :: "'k \<Rightarrow> ('k, 'v) hmap \<Rightarrow> nat \<times> ('k, 'v) hmap" where
  "remove_entry key m = (if hm_has m key then 1 else 0, hm_del key m)"

definition remove_bucket :: "'k \<Rightarrow> ('k, 'v list) hmap \<Rightarrow> nat \<times> ('k, 'v list) hmap" where
  "remove_bucket key m = (u32 (length (hm_list m key)), hm_del key m)"

record repository_deletion =
  dl_repo :: repository
  dl_labels :: nat
  dl_issues :: nat
  dl_issue_comments :: nat
  dl_pulls :: nat
  dl_reviews :: nat
  dl_review_comments :: nat
  dl_branch_protections :: nat
  dl_codeowners :: nat
  dl_readmes :: nat
  dl_commit_statuses :: nat
  dl_check_runs :: nat
  dl_webhooks :: nat
  dl_webhook_deliveries :: nat
  dl_counters :: nat
  dl_jankurai_scores :: nat
  dl_repo_grants :: nat

definition removed_counts :: "repository_deletion \<Rightarrow> (string \<times> nat) list" where
  "removed_counts d =
     [(''labels'', dl_labels d), (''issues'', dl_issues d), (''issue_comments'', dl_issue_comments d),
      (''pulls'', dl_pulls d), (''reviews'', dl_reviews d),
      (''review_comments'', dl_review_comments d), (''branch_protections'', dl_branch_protections d),
      (''codeowners'', dl_codeowners d), (''readmes'', dl_readmes d),
      (''commit_statuses'', dl_commit_statuses d), (''check_runs'', dl_check_runs d),
      (''webhooks'', dl_webhooks d), (''webhook_deliveries'', dl_webhook_deliveries d),
      (''counters'', dl_counters d), (''jankurai_scores'', dl_jankurai_scores d),
      (''repo_grants'', dl_repo_grants d)]"

definition foreign_delivery :: "string \<Rightarrow> string \<Rightarrow> webhook_delivery \<Rightarrow> bool" where
  "foreign_delivery owner repo d = (\<not> (wd_owner d = owner \<and> wd_repo d = repo))"

text \<open>The state with everything scoped to the repository removed.\<close>

definition drop_repository :: "string \<Rightarrow> string \<Rightarrow> repository \<Rightarrow> state \<Rightarrow> state" where
  "drop_repository owner repo removed s =
     (let key = (owner, repo);
          grant_keys = [(login, grant_owner, grant_repo) \<leftarrow> map fst (st_repo_grants s).
                          grant_owner = owner \<and> grant_repo = repo]
      in s\<lparr>st_repos := hm_del key (st_repos s),
           st_labels := snd (drain_scoped owner repo (st_labels s)),
           st_issues := snd (drain_scoped owner repo (st_issues s)),
           st_issue_comments := snd (drain_scoped_vecs owner repo (st_issue_comments s)),
           st_pulls := snd (drain_scoped owner repo (st_pulls s)),
           st_reviews := snd (drain_scoped_vecs owner repo (st_reviews s)),
           st_review_comments := snd (drain_scoped_vecs owner repo (st_review_comments s)),
           st_branch_protections := snd (drain_scoped owner repo (st_branch_protections s)),
           st_codeowners := snd (remove_entry key (st_codeowners s)),
           st_readmes := snd (remove_entry key (st_readmes s)),
           st_statuses := snd (drain_scoped_vecs owner repo (st_statuses s)),
           st_check_runs := snd (remove_bucket key (st_check_runs s)),
           st_webhooks := snd (remove_bucket key (st_webhooks s)),
           st_webhook_deliveries := filter (foreign_delivery owner repo) (st_webhook_deliveries s),
           st_counters := snd (remove_entry key (st_counters s)),
           st_jankurai_scores := snd (remove_bucket key (st_jankurai_scores s)),
           st_repo_grants := fold hm_del grant_keys (st_repo_grants s),
           st_bot_repo_grants :=
             hm_retain (\<lambda>(_, repo_id) _. repo_id \<noteq> rp_id removed) (st_bot_repo_grants s),
           st_repository_aliases :=
             hm_retain (\<lambda>_ al. al_repository_id al \<noteq> rp_id removed) (st_repository_aliases s),
           st_repository_transfers :=
             hm_retain (\<lambda>_ journal. tj_repository_id journal \<noteq> rp_id removed)
               (st_repository_transfers s)\<rparr>)"

definition deletion_receipt :: "string \<Rightarrow> string \<Rightarrow> repository \<Rightarrow> state \<Rightarrow> repository_deletion" where
  "deletion_receipt owner repo removed s =
     (let key = (owner, repo) in
      \<lparr>dl_repo = removed,
       dl_labels = fst (drain_scoped owner repo (st_labels s)),
       dl_issues = fst (drain_scoped owner repo (st_issues s)),
       dl_issue_comments = fst (drain_scoped_vecs owner repo (st_issue_comments s)),
       dl_pulls = fst (drain_scoped owner repo (st_pulls s)),
       dl_reviews = fst (drain_scoped_vecs owner repo (st_reviews s)),
       dl_review_comments = fst (drain_scoped_vecs owner repo (st_review_comments s)),
       dl_branch_protections = fst (drain_scoped owner repo (st_branch_protections s)),
       dl_codeowners = fst (remove_entry key (st_codeowners s)),
       dl_readmes = fst (remove_entry key (st_readmes s)),
       dl_commit_statuses = fst (drain_scoped_vecs owner repo (st_statuses s)),
       dl_check_runs = fst (remove_bucket key (st_check_runs s)),
       dl_webhooks = fst (remove_bucket key (st_webhooks s)),
       dl_webhook_deliveries =
         u32 (length (st_webhook_deliveries s) -
              length (filter (foreign_delivery owner repo) (st_webhook_deliveries s))),
       dl_counters = fst (remove_entry key (st_counters s)),
       dl_jankurai_scores = fst (remove_bucket key (st_jankurai_scores s)),
       dl_repo_grants =
         u32 (length [(login, grant_owner, grant_repo) \<leftarrow> map fst (st_repo_grants s).
                        grant_owner = owner \<and> grant_repo = repo])\<rparr>)"

definition delete_repository ::
  "env \<Rightarrow> string \<Rightarrow> string \<Rightarrow> core \<Rightarrow> repository_deletion outcome" where
  "delete_repository ev owner repo c =
     try_pure (canonical_repository (live c) owner repo) c (\<lambda>removed.
       commit ev 0 (drop_repository owner repo removed (live c))
         (deletion_receipt owner repo removed (live c)) c)"

section \<open>Labels\<close>

definition create_label ::
  "env \<Rightarrow> string \<Rightarrow> string \<Rightarrow> create_label_request \<Rightarrow> core \<Rightarrow> label outcome" where
  "create_label ev owner repo request c =
     try_pure (require_name ''label name'' (clr_name request)) c (\<lambda>_.
     try_pure (ensure_repo_exists (live c) owner repo) c (\<lambda>_.
       let key = (owner, repo, clr_name request)
       in if hm_has (st_labels (live c)) key
          then (Inl (Conflict (''label '' @ slug_name owner repo @ ''/'' @ clr_name request)), c)
          else let label = \<lparr>lb_id = env_fresh ev 0, lb_name = clr_name request,
                            lb_color = clr_color request, lb_description = clr_description request\<rparr>
          in commit ev 0 ((live c)\<lparr>st_labels := hm_put key label (st_labels (live c))\<rparr>) label c))"

definition list_labels :: "state \<Rightarrow> string \<Rightarrow> string \<Rightarrow> forge_error + label list" where
  "list_labels s owner repo =
     try_res (ensure_repo_exists s owner repo) (\<lambda>_.
       Inr (sort_key lb_name
         (map snd [((label_owner, label_repo, _), _) \<leftarrow> st_labels s.
            label_owner = owner \<and> label_repo = repo])))"

end
