(* ===== verification/Protection_Ops.thy ===== *)
theory Protection_Ops
  imports Repositories
begin

text \<open>
  Branch protection rules, CODEOWNERS texts and ref-operation enforcement
  (\<^verbatim>\<open>engine/branch_protection.rs\<close>).
\<close>

section \<open>Rules\<close>

type_synonym rule_key = "string \<times> string \<times> string"

definition set_branch_protection ::
  "env \<Rightarrow> string \<Rightarrow> string \<Rightarrow> string \<Rightarrow> set_branch_protection_request \<Rightarrow> core \<Rightarrow>
   branch_protection_rule outcome" where
  "set_branch_protection ev owner repo branch request c =
     try_pure (ensure_repo_exists (live c) owner repo) c (\<lambda>_.
     try_pure (require_name ''branch'' branch) c (\<lambda>_.
       let rule =
         \<lparr>bp_owner = owner, bp_repo = repo, bp_branch = branch,
          bp_required_status_checks = sp_required_status_checks request,
          bp_strict = sp_strict request,
          bp_required_approving_review_count = sp_required_approving_review_count request,
          bp_enforce_admins = sp_enforce_admins request,
          bp_allow_merge_override = sp_allow_merge_override request,
          bp_allow_admin_review_dismissal = sp_allow_admin_review_dismissal request,
          bp_merge_override_status_checks = sp_merge_override_status_checks request,
          bp_merge_override_status_creators = sp_merge_override_status_creators request,
          bp_required_linear_history = sp_required_linear_history request,
          bp_allow_force_pushes = sp_allow_force_pushes request,
          bp_allow_deletions = sp_allow_deletions request,
          bp_require_signed_commits = sp_require_signed_commits request,
          bp_require_jankurai_proof = sp_require_jankurai_proof request,
          bp_dismiss_stale_approvals = sp_dismiss_stale_approvals request,
          bp_require_exact_sha_approval = sp_require_exact_sha_approval request,
          bp_updated_at = env_clk ev 0\<rparr>
       in commit ev 0
            ((live c)\<lparr>st_branch_protections :=
               hm_put (owner, repo, branch) rule (st_branch_protections (live c))\<rparr>) rule c))"

definition list_branch_protections ::
  "state \<Rightarrow> string \<Rightarrow> string \<Rightarrow> forge_error + branch_protection_rule list" where
  "list_branch_protections s owner repo =
     try_res (ensure_repo_exists s owner repo) (\<lambda>_.
       Inr (sort_key bp_branch
         (map snd [((rule_owner, rule_repo, _), _) \<leftarrow> st_branch_protections s.
            rule_owner = owner \<and> rule_repo = repo])))"

definition default_rule_is_mandatory :: "state \<Rightarrow> repository \<Rightarrow> bool" where
  "default_rule_is_mandatory s r =
     (\<not> rp_default_branch_protection_opt_out r \<or>
      repo_requires_status_context s (rp_owner r) (rp_name r))"

definition protection_not_found :: "string \<Rightarrow> string \<Rightarrow> string \<Rightarrow> forge_error" where
  "protection_not_found owner repo branch =
     NotFound (''branch protection '' @ slug_name owner repo @ '':'' @ branch)"

definition delete_branch_protection ::
  "env \<Rightarrow> string \<Rightarrow> string \<Rightarrow> string \<Rightarrow> string \<Rightarrow> core \<Rightarrow> branch_protection_rule outcome" where
  "delete_branch_protection ev actor owner repo branch c =
     try_pure (canonical_repository (live c) owner repo) c (\<lambda>current.
       let owner = rp_owner current; repo = rp_name current
       in try_pure (ensure_repository_writable (live c) owner repo) c (\<lambda>_.
          let subject = slug_name owner repo; action = ''branch_protection.deleted''
          in try_pure (canonical_repository (live c) owner repo) c (\<lambda>r.
             if rp_archived r then (Inl (RepositoryArchived subject), c)
             else if rp_default_branch r = branch \<and> default_rule_is_mandatory (live c) r
             then try_op (append_audit_as ev 0 actor action subject ''failed''
                            (JObj [(''branch'', JStr branch), (''reason'', JStr ''default_branch'')]) c)
                    (\<lambda>_ c. (Inl (Validation (branch @ '' is the default branch of '' @ subject @
                       '' and its protection is mandatory; opt the repository out of default branch ''
                       @ ''protection first (refused while any rule requires a status context)'')), c))
             else try_pure (ok_or (hm_get (st_branch_protections (live c)) (owner, repo, branch))
                              (protection_not_found owner repo branch)) c (\<lambda>removed.
                  try_op (commit ev 0
                            ((live c)\<lparr>st_branch_protections :=
                               hm_del (owner, repo, branch) (st_branch_protections (live c))\<rparr>)
                            removed c) (\<lambda>_ c.
                  try_op (append_audit_as ev 1 actor action subject ''completed''
                            (JObj [(''branch'', JStr branch), (''rule'', JRule removed)]) c)
                    (\<lambda>_ c. (Inr removed, c)))))))"

definition get_branch_protection ::
  "state \<Rightarrow> string \<Rightarrow> string \<Rightarrow> string \<Rightarrow> forge_error + branch_protection_rule" where
  "get_branch_protection s owner repo branch =
     ok_or (hm_get (st_branch_protections s) (owner, repo, branch))
       (protection_not_found owner repo branch)"

section \<open>Rules under percent-encoded names\<close>

definition slash_code :: "string \<Rightarrow> bool" where
  "slash_code s = (to_ascii_lowercase (take 3 s) = ''%2f'')"

fun has_encoded_slash :: "string \<Rightarrow> bool" where
  "has_encoded_slash [] = False"
| "has_encoded_slash (c # cs) = (slash_code (c # cs) \<or> has_encoded_slash cs)"

text \<open>Each round of the loop copies up to the next code, which is what this recursion does
  character by character.\<close>

fun decode_slashes :: "string \<Rightarrow> string" where
  "decode_slashes [] = []"
| "decode_slashes (c # cs) =
     (if slash_code (c # cs) then CHR ''/'' # decode_slashes (drop 2 cs)
      else c # decode_slashes cs)"

record planned_rekey =
  pk_key :: rule_key
  pk_seen :: branch_protection_rule
  pk_decoded :: string
  pk_encoded_exists :: bool
  pk_decoded_exists :: bool

datatype rekey_decision = Rekey | RemoveRule | KeepRule string

definition decide_rekey :: "state \<Rightarrow> planned_rekey \<Rightarrow> rekey_decision" where
  "decide_rekey s step =
     (case pk_key step of (owner, repo, branch) \<Rightarrow>
       if hm_get (st_branch_protections s) (pk_key step) \<noteq> Some (pk_seen step)
       then KeepRule ''rule changed since planning''
       else (case hm_get (st_repos s) (owner, repo) of
         None \<Rightarrow> KeepRule ''repository not found''
       | Some repository \<Rightarrow>
           if rp_archived repository then KeepRule ''repository archived''
           else if rp_default_branch repository = branch then KeepRule ''default branch''
           else if pk_encoded_exists step then KeepRule ''encoded name is a real branch''
           else if \<not> pk_decoded_exists step then KeepRule ''decoded branch does not exist''
           else if \<not> hm_has (st_branch_protections s) (owner, repo, pk_decoded step) then Rekey
           else if bp_required_status_checks (pk_seen step) \<noteq> []
           then KeepRule ''duplicate requires status checks''
           else RemoveRule))"

record encoded_protection_report =
  er_rekeyed :: "rule_key list"
  er_removed :: "rule_key list"
  er_kept :: "(rule_key \<times> string) list"

definition empty_report :: encoded_protection_report where
  "empty_report = \<lparr>er_rekeyed = [], er_removed = [], er_kept = []\<rparr>"

type_synonym rekey_change = "rule_key \<times> string \<times> string"

text \<open>
  One turn of the loop over the plan: the report, the changes to audit and the state. A decision
  to re-key implies that the rule is there, so the \<^verbatim>\<open>expect\<close> of the source never fails.
\<close>

definition rekey_step ::
  "planned_rekey \<Rightarrow> encoded_protection_report \<times> rekey_change list \<times> state \<Rightarrow>
   encoded_protection_report \<times> rekey_change list \<times> state" where
  "rekey_step step acc =
     (case acc of (report, changes, s) \<Rightarrow>
       (case decide_rekey s step of
          KeepRule reason \<Rightarrow> (report\<lparr>er_kept := er_kept report @ [(pk_key step, reason)]\<rparr>, changes, s)
        | RemoveRule \<Rightarrow>
            (report\<lparr>er_removed := er_removed report @ [pk_key step]\<rparr>,
             changes @ [(pk_key step, ''removed'', pk_decoded step)],
             s\<lparr>st_branch_protections := hm_del (pk_key step) (st_branch_protections s)\<rparr>)
        | Rekey \<Rightarrow>
            (case pk_key step of (owner, repo, _) \<Rightarrow>
              (case hm_get (st_branch_protections s) (pk_key step) of
                 None \<Rightarrow> (report, changes, s)
               | Some rule \<Rightarrow>
                   (report\<lparr>er_rekeyed := er_rekeyed report @ [pk_key step]\<rparr>,
                    changes @ [(pk_key step, ''rekeyed'', pk_decoded step)],
                    s\<lparr>st_branch_protections :=
                       hm_put (owner, repo, pk_decoded step) (rule\<lparr>bp_branch := pk_decoded step\<rparr>)
                         (hm_del (pk_key step) (st_branch_protections s))\<rparr>)))))"

primrec plan_rekeys ::
  "'g repo_branches \<Rightarrow> 'g \<Rightarrow> (rule_key \<times> branch_protection_rule) list \<Rightarrow>
   forge_error + planned_rekey list" where
  "plan_rekeys branches g [] = Inr []"
| "plan_rekeys branches g (entry # entries) =
     (case entry of ((owner, repo, branch), seen) \<Rightarrow>
       let decoded = decode_slashes branch in
       try_res (branch_exists branches g owner repo branch) (\<lambda>encoded_exists.
       try_res (branch_exists branches g owner repo decoded) (\<lambda>decoded_exists.
       try_res (plan_rekeys branches g entries) (\<lambda>plan.
         Inr (\<lparr>pk_key = (owner, repo, branch), pk_seen = seen, pk_decoded = decoded,
               pk_encoded_exists = encoded_exists, pk_decoded_exists = decoded_exists\<rparr> # plan)))))"

primrec audit_rekeys :: "env \<Rightarrow> string \<Rightarrow> rekey_change list \<Rightarrow> nat \<Rightarrow> core \<Rightarrow> unit outcome" where
  "audit_rekeys ev actor [] n c = (Inr (), c)"
| "audit_rekeys ev actor (change # changes) n c =
     (case change of ((owner, repo, branch), result, to) \<Rightarrow>
       try_op (append_audit_as ev n actor ''branch_protection.encoded_rekey''
                 (slug_name owner repo) ''completed''
                 (JObj [(''actor'', JStr actor), (''from'', JStr branch), (''to'', JStr to),
                        (''outcome'', JStr result)]) c)
         (\<lambda>_ c. audit_rekeys ev actor changes (n + 1) c))"

definition rekey_encoded_branch_protections ::
  "env \<Rightarrow> string \<Rightarrow> 'g repo_branches \<Rightarrow> 'g \<Rightarrow> core \<Rightarrow> encoded_protection_report outcome" where
  "rekey_encoded_branch_protections ev actor branches g c =
     (if \<not> is_global_admin (live c) actor
      then (Inl (BranchProtection (RefusalText ''global admin required'')), c)
      else let encoded = [((owner, repo, branch), rule) \<leftarrow> st_branch_protections (live c).
                            has_encoded_slash branch]
      in try_pure (plan_rekeys branches g encoded) c (\<lambda>plan.
           if plan = [] then (Inr empty_report, c)
           else case fold rekey_step plan (empty_report, [], live c) of
             (report, changes, s) \<Rightarrow>
               if changes = [] then (Inr report, c)
               else try_op (commit ev 0 s () c) (\<lambda>_ c.
                    try_op (audit_rekeys ev actor changes 1 c) (\<lambda>_ c. (Inr report, c)))))"

section \<open>CODEOWNERS texts\<close>

definition set_codeowners :: "env \<Rightarrow> string \<Rightarrow> string \<Rightarrow> string \<Rightarrow> core \<Rightarrow> unit outcome" where
  "set_codeowners ev owner repo contents c =
     try_pure (ensure_repo_exists (live c) owner repo) c (\<lambda>_.
       commit ev 0
         ((live c)\<lparr>st_codeowners := hm_put (owner, repo) contents (st_codeowners (live c))\<rparr>) () c)"

definition get_codeowners :: "state \<Rightarrow> string \<Rightarrow> string \<Rightarrow> forge_error + string" where
  "get_codeowners s owner repo =
     try_res (ensure_repo_exists s owner repo) (\<lambda>_.
       ok_or (hm_get (st_codeowners s) (owner, repo)) (NotFound (''CODEOWNERS '' @ slug_name owner repo)))"

section \<open>Enforcement\<close>

definition pull_not_found :: "string \<Rightarrow> string \<Rightarrow> u64 \<Rightarrow> forge_error" where
  "pull_not_found owner repo number = NotFound (''pull request '' @ record_name owner repo number)"

definition evaluate_pull_request ::
  "env \<Rightarrow> state \<Rightarrow> string \<Rightarrow> string \<Rightarrow> u64 \<Rightarrow> string option \<Rightarrow>
   forge_error + branch_protection_evaluation" where
  "evaluate_pull_request ev s owner repo number sha =
     try_res (ok_or (hm_get (st_pulls s) (owner, repo, number)) (pull_not_found owner repo number))
       (\<lambda>pr. Inr (evaluate_locked ev s pr sha))"

definition forge_evaluate_ref_operation ::
  "state \<Rightarrow> string \<Rightarrow> string \<Rightarrow> string \<Rightarrow> ref_operation \<Rightarrow> bool \<Rightarrow>
   forge_error + ref_operation_evaluation" where
  "forge_evaluate_ref_operation s owner repo branch operation actor_is_admin =
     try_res (ensure_repository_writable s owner repo) (\<lambda>_.
       Inr (evaluate_ref_operation operation (hm_get (st_branch_protections s) (owner, repo, branch))
              \<lparr>ec_codeowners = None, ec_actor_is_admin = actor_is_admin,
               ec_jankurai_proof_mandatory = False\<rparr>))"

definition refused_ref :: "ref_operation_evaluation \<Rightarrow> forge_error + unit" where
  "refused_ref evaluation =
     (if re_allowed evaluation then Inr ()
      else Inl (BranchProtection (RefusalRefBlockers (re_blockers evaluation))))"

definition force_push :: "state \<Rightarrow> string \<Rightarrow> string \<Rightarrow> string \<Rightarrow> bool \<Rightarrow> forge_error + unit" where
  "force_push s owner repo branch actor_is_admin =
     try_res (forge_evaluate_ref_operation s owner repo branch ForcePush actor_is_admin) refused_ref"

definition delete_ref :: "state \<Rightarrow> string \<Rightarrow> string \<Rightarrow> string \<Rightarrow> bool \<Rightarrow> forge_error + unit" where
  "delete_ref s owner repo branch actor_is_admin =
     try_res (forge_evaluate_ref_operation s owner repo branch DeleteRef actor_is_admin) refused_ref"

end
