(* ===== verification/Review_Ops.thy ===== *)
theory Review_Ops
  imports Protection_Ops
begin

text \<open>
  Submitting and dismissing reviews (\<^verbatim>\<open>engine/reviews.rs\<close>). Of the ids, clock readings and writes
  of a call, 0 is the review's own, 1 the \<^verbatim>\<open>requested\<close> receipt, 2 the user row, 3 the submission
  time; then come the comments, the last receipt and the deliveries.
\<close>

definition DISMISSAL_AUDIT_ACTION :: string where
  "DISMISSAL_AUDIT_ACTION = ''pull.review_dismissal''"

definition authorize_cross_author_dismissal ::
  "state \<Rightarrow> pull_request \<Rightarrow> review list \<Rightarrow> string \<Rightarrow> forge_error + unit" where
  "authorize_cross_author_dismissal s pr reviews actor =
     (if \<not> (parse_team_bot_login actor = None \<and>
            (case repo_access_for s actor (pr_owner pr) (pr_repo pr) of
               None \<Rightarrow> False | Some level \<Rightarrow> allows_admin level))
      then Inl (Forbidden ''dismissing another reviewer requires an active repository administrator'')
      else case (case hm_get (st_branch_protections s)
                        (pr_owner pr, pr_repo pr, gr_ref_name (pr_base pr)) of
                   None \<Rightarrow> None
                 | Some rule \<Rightarrow> if bp_allow_admin_review_dismissal rule then Some rule else None) of
        None \<Rightarrow> Inl (Forbidden (''dismissing another reviewer requires explicit ''
                  @ ''allow_admin_review_dismissal=true''))
      | Some protection \<Rightarrow>
          if bp_enforce_admins protection
          then Inl (Forbidden (''dismissing another reviewer is unavailable while the branch ''
                 @ ''enforces administrators''))
          else if eq_ignore_ascii_case (pr_author pr) actor
          then Inl (Forbidden (''a pull request author cannot dismiss another reviewer''
                 @ [CHR 0x27] @ ''s verdict on it''))
          else if list_ex (\<lambda>r. rv_state r = Approved \<and> eq_ignore_ascii_case (rv_author r) actor \<and>
                         rv_id r \<notin> set (withdrawn_verdicts reviews)) reviews
          then Inl (Forbidden (''an administrator with a standing approval cannot dismiss another ''
                 @ ''reviewer'' @ [CHR 0x27] @ ''s verdict''))
          else Inr ())"

text \<open>The refusals of \<^verbatim>\<open>record_review\<close> that concern the reviewer and the head.\<close>

definition check_reviewer ::
  "string \<Rightarrow> string \<Rightarrow> u64 \<Rightarrow> string \<Rightarrow> create_review_request \<Rightarrow> review list \<Rightarrow> pull_request \<Rightarrow>
   forge_error + unit" where
  "check_reviewer owner repo number author request reviews pr =
     (if crr_event request = Approved \<and> eq_ignore_ascii_case (pr_author pr) author
      then Inl (Forbidden ''pull request authors cannot approve their own changes'')
      else if crr_event request = Approved \<and>
              list_ex (\<lambda>r. eq_ignore_ascii_case (rv_author r) author \<and>
                         is_cross_author_dismissal reviews r) reviews
      then Inl (Forbidden (''an administrator who dismissed another reviewer'' @ [CHR 0x27] @
                  ''s verdict cannot approve this pull request''))
      else if (case crr_expected_head_sha request of
                 None \<Rightarrow> False | Some expected \<Rightarrow> expected \<noteq> gr_sha (pr_head pr))
      then Inl (Conflict (''pull request '' @ record_name owner repo number @ '' head changed''))
      else Inr ())"

text \<open>
  The refusals that concern the dismissed review, and the authority the new row carries:
  \<open>stored\<close> says whether the core has durable storage.
\<close>

definition check_dismissal ::
  "state \<Rightarrow> bool \<Rightarrow> string \<Rightarrow> string \<Rightarrow> u64 \<Rightarrow> string \<Rightarrow> review list \<Rightarrow> pull_request \<Rightarrow> uuid \<Rightarrow>
   forge_error + dismissal_authority option" where
  "check_dismissal s stored owner repo number author reviews pr target_id =
     (case find (\<lambda>r. rv_id r = target_id) reviews of
        None \<Rightarrow> Inl (NotFound (''review '' @ show_nat target_id @ '' in '' @ record_name owner repo number))
      | Some target \<Rightarrow>
          try_res (if rv_author target \<noteq> author then
                     try_res (authorize_cross_author_dismissal s pr reviews author) (\<lambda>_.
                       if \<not> stored
                       then Inl (Validation (''dismissing another reviewer requires durable audit ''
                              @ ''storage''))
                       else Inr (Some RepositoryAdmin))
                   else Inr None) (\<lambda>authority.
            if \<not> (rv_state target = Approved \<or> rv_state target = ChangesRequested)
            then Inl (Validation ''dismissal target must be an explicit review verdict'')
            else if \<not> (list_ex (\<lambda>r. rv_id r = target_id)
                          (effective_reviews_for_head reviews (gr_sha (pr_head pr))) \<or>
                       list_ex (\<lambda>r. rv_id r = target_id)
                          (effective_reviews_for_pull_request_with reviews pr UnchangedDiff))
            then Inl (Conflict (''dismissal target is not the reviewer'' @ [CHR 0x27] @
                        ''s current-head verdict''))
            else Inr authority))"

definition authority_json :: "dismissal_authority option \<Rightarrow> json" where
  "authority_json authority =
     j_opt (\<lambda>a. case a of RepositoryAdmin \<Rightarrow> JStr ''repository_admin'') authority"

definition new_review_comment ::
  "env \<Rightarrow> string \<Rightarrow> string \<Rightarrow> u64 \<Rightarrow> string \<Rightarrow> nat \<Rightarrow> review_comment_input \<Rightarrow> review_comment" where
  "new_review_comment ev owner repo number author n input =
     \<lparr>rc_id = env_fresh ev n, rc_review_id = env_fresh ev 0, rc_owner = owner, rc_repo = repo,
      rc_pull_number = number, rc_path = rci_path input, rc_line = rci_line input,
      rc_author = author, rc_body = rci_body input, rc_created_at = env_clk ev n\<rparr>"

text \<open>The state once the review is in: the user profile, the row, its comments, the re-evaluated
  pull request and the queued deliveries.\<close>

definition with_review ::
  "env \<Rightarrow> string \<Rightarrow> string \<Rightarrow> u64 \<Rightarrow> string \<Rightarrow> review_comment_input list \<Rightarrow> review \<Rightarrow> state \<Rightarrow> state" where
  "with_review ev owner repo number author inputs review s =
     (let key = (owner, repo, number);
          user = \<lparr>us_id = env_fresh ev 2, us_login = author, us_name = None, us_email = None,
                  us_created_at = env_clk ev 2\<rparr>;
          comments = map2 (new_review_comment ev owner repo number author)
                       [4..<4 + length inputs] inputs;
          s1 = (if hm_has (st_users s) author then s
                else s\<lparr>st_users := hm_put author user (st_users s)\<rparr>);
          s2 = s1\<lparr>st_reviews := hm_append key [review] (st_reviews s1),
                  st_review_comments := hm_append key comments (st_review_comments s1)\<rparr>;
          s3 = (case hm_get (st_pulls s2) key of
                  None \<Rightarrow> s2
                | Some pr \<Rightarrow> s2\<lparr>st_pulls := hm_put key (reevaluated ev s2 pr) (st_pulls s2)\<rparr>)
      in emit_event_locked ev (5 + length inputs) owner repo ''pull_request_review''
           (event_payload ''submitted'' ''review'' (JReview review)) s3)"

definition record_review ::
  "env \<Rightarrow> string \<Rightarrow> string \<Rightarrow> u64 \<Rightarrow> string \<Rightarrow> create_review_request \<Rightarrow> uuid option \<Rightarrow> core \<Rightarrow>
   review outcome" where
  "record_review ev owner repo number author request dismissed_review_id c =
     try_pure (ensure_repository_writable (live c) owner repo) c (\<lambda>_.
     try_pure (require_login author) c (\<lambda>_.
     try_pure (ok_or (hm_get (st_pulls (live c)) (owner, repo, number))
                 (pull_not_found owner repo number)) c (\<lambda>pr.
     let reviews = hm_list (st_reviews (live c)) (owner, repo, number) in
     try_pure (check_reviewer owner repo number author request reviews pr) c (\<lambda>_.
     try_pure (case dismissed_review_id of
                 None \<Rightarrow> Inr None
               | Some target_id \<Rightarrow>
                   check_dismissal (live c) (storage c \<noteq> None) owner repo number author reviews pr
                     target_id) c (\<lambda>authority.
       let review = \<lparr>rv_id = env_fresh ev 0, rv_owner = owner, rv_repo = repo,
                     rv_pull_number = number, rv_author = author, rv_state = crr_event request,
                     rv_body = crr_body request, rv_head_sha = Some (gr_sha (pr_head pr)),
                     rv_head_patch_ids = pr_head_patch_ids pr,
                     rv_dismissed_review_id = dismissed_review_id,
                     rv_dismissal_authority = authority, rv_submitted_at = env_clk ev 3\<rparr>;
           subject = record_name owner repo number;
           detail = JObj [(''pr_number'', JNum (int number)), (''dismissal_id'', JUuid (rv_id review)),
                          (''review_id'', j_opt JUuid dismissed_review_id),
                          (''head_sha'', JStr (gr_sha (pr_head pr))),
                          (''reason'', j_opt (\<lambda>body. JStr (str_trim body)) (crr_body request)),
                          (''authority'', authority_json authority)];
           n = 4 + length (crr_comments request)
       in try_op (if authority \<noteq> None
                  then append_audit_as ev 1 author DISMISSAL_AUDIT_ACTION subject ''requested'' detail c
                  else (Inr 0, c)) (\<lambda>_ c.
          try_op (commit ev 0
                    (with_review ev owner repo number author (crr_comments request) review (live c))
                    review c) (\<lambda>_ c.
            if authority \<noteq> None
            then (Inr review, snd (append_audit_as ev n author DISMISSAL_AUDIT_ACTION subject
                                     ''completed'' detail c))
            else (Inr review, c))))))))"

definition create_review ::
  "env \<Rightarrow> string \<Rightarrow> string \<Rightarrow> u64 \<Rightarrow> string \<Rightarrow> create_review_request \<Rightarrow> core \<Rightarrow> review outcome" where
  "create_review ev owner repo number author request c =
     (if crr_event request = Dismissed
      then (Inl (Validation ''use dismiss_review with a target review, exact head and reason''), c)
      else record_review ev owner repo number author request None c)"

definition audit_actor :: "string \<Rightarrow> string" where
  "audit_actor actor = (if str_trim actor = [] then ''unknown'' else actor)"

definition dismiss_review ::
  "env \<Rightarrow> string \<Rightarrow> string \<Rightarrow> u64 \<Rightarrow> string \<Rightarrow> dismiss_review_request \<Rightarrow> core \<Rightarrow> review outcome" where
  "dismiss_review ev owner repo number actor request c =
     (if str_trim (drr_reason request) = []
      then (Inl (Validation ''review dismissal requires a non-empty reason''), c)
      else if length (drr_expected_head_sha request) \<noteq> 40 \<or>
              \<not> list_all is_lower_hexdigit (drr_expected_head_sha request)
      then (Inl (Validation ''review dismissal requires a full lowercase SHA-1 head''), c)
      else let create = \<lparr>crr_body = Some (drr_reason request), crr_event = Dismissed,
                         crr_comments = [],
                         crr_expected_head_sha = Some (drr_expected_head_sha request)\<rparr>
      in case record_review ev owner repo number actor create (Some (drr_review_id request)) c of
           (Inr review, c) \<Rightarrow> (Inr review, c)
         | (Inl error, c) \<Rightarrow>
             (case find (\<lambda>r. rv_id r = drr_review_id request)
                     (hm_list (st_reviews (live c)) (owner, repo, number)) of
                None \<Rightarrow> (Inl error, c)
              | Some target \<Rightarrow>
                  if rv_author target \<noteq> actor
                  then (Inl error, snd (append_audit_as ev 4 (audit_actor actor)
                          DISMISSAL_AUDIT_ACTION (record_name owner repo number) ''failed''
                          (JObj [(''pr_number'', JNum (int number)),
                                 (''review_id'', JUuid (drr_review_id request)),
                                 (''reason'', JStr (str_trim (drr_reason request))),
                                 (''error'', JError error)]) c))
                  else (Inl error, c)))"

section \<open>Listings\<close>

definition get_pull_request ::
  "env \<Rightarrow> state \<Rightarrow> string \<Rightarrow> string \<Rightarrow> u64 \<Rightarrow> forge_error + pull_request" where
  "get_pull_request ev s owner repo number =
     try_res (ok_or (hm_get (st_pulls s) (owner, repo, number)) (pull_not_found owner repo number))
       (\<lambda>pr. Inr (reevaluated ev s pr))"

definition list_reviews ::
  "env \<Rightarrow> state \<Rightarrow> string \<Rightarrow> string \<Rightarrow> u64 \<Rightarrow> forge_error + review list" where
  "list_reviews ev s owner repo number =
     try_res (get_pull_request ev s owner repo number) (\<lambda>_.
       Inr (hm_list (st_reviews s) (owner, repo, number)))"

definition list_review_comments ::
  "env \<Rightarrow> state \<Rightarrow> string \<Rightarrow> string \<Rightarrow> u64 \<Rightarrow> forge_error + review_comment list" where
  "list_review_comments ev s owner repo number =
     try_res (get_pull_request ev s owner repo number) (\<lambda>_.
       Inr (hm_list (st_review_comments s) (owner, repo, number)))"

end
