(* ===== verification/Merge_Override.thy ===== *)
theory Merge_Override
  imports Review_Ops
begin

text \<open>
  Audited administrator decisions on failed status checks (\<^verbatim>\<open>engine/merge_overrides.rs\<close>): who may
  decide, what a decision may clear, and the permit that binds it to one state of the pull
  request.
\<close>

record merge_override_request =
  mo_actor :: string
  mo_reason :: string
  mo_expected_head_sha :: string
  mo_asserted_passport_hash :: string

record merge_override_permit =
  mp_owner :: string
  mp_repo :: string
  mp_number :: u64
  mp_actor :: string
  mp_reason :: string
  mp_head_sha :: string
  mp_base_sha :: string
  mp_passport_hash :: string
  mp_expires_at :: int
  mp_status_evidence :: "commit_status list"
  mp_evaluation :: branch_protection_evaluation
  mp_protection :: branch_protection_rule

definition permit_subject :: "merge_override_permit \<Rightarrow> string" where
  "permit_subject permit = record_name (mp_owner permit) (mp_repo permit) (mp_number permit)"

definition permit_audit_fields :: "merge_override_permit \<Rightarrow> string option \<Rightarrow> (string \<times> json) list" where
  "permit_audit_fields permit merge_sha =
     [(''pr_number'', JNum (int (mp_number permit))), (''reason'', JStr (mp_reason permit)),
      (''head_sha'', JStr (mp_head_sha permit)),
      (''caller_asserted_passport_hash'', JStr (mp_passport_hash permit)),
      (''passport_hash_verified'', JBool False),
      (''blockers'', JBlockers (ev_blockers (mp_evaluation permit))),
      (''status_evidence'', JStatuses (mp_status_evidence permit)),
      (''merge_sha'', j_opt JStr merge_sha)]"

definition audit_detail :: "merge_override_permit \<Rightarrow> string option \<Rightarrow> json" where
  "audit_detail permit merge_sha = JObj (permit_audit_fields permit merge_sha)"

record merge_override_target =
  mt_base_ref :: string
  mt_base_sha :: string
  mt_head_ref :: string
  mt_head_sha :: string
  mt_require_linear_history :: bool

section \<open>Eligibility\<close>

text \<open>The approvals of the gate that are not the deciding administrator's own.\<close>

definition independent_approvals :: "state \<Rightarrow> pull_request \<Rightarrow> branch_protection_rule \<Rightarrow> string \<Rightarrow> u64" where
  "independent_approvals s pr protection actor =
     length [r \<leftarrow> effective_reviews_for_pull_request_with
                   (hm_list (st_reviews s) (pr_owner pr, pr_repo pr, pr_number pr)) pr
                   (verdict_reach_for_rule (Some protection)).
               rv_state r = Approved \<and> \<not> eq_ignore_ascii_case (rv_author r) actor]"

definition validate_override :: "state \<Rightarrow> pull_request \<Rightarrow> string \<Rightarrow> forge_error + unit" where
  "validate_override s pr actor =
     (if \<not> (parse_team_bot_login actor = None \<and>
            (case repo_access_for s actor (pr_owner pr) (pr_repo pr) of
               None \<Rightarrow> False | Some level \<Rightarrow> allows_admin level))
      then Inl (Forbidden ''merge override requires an active repository administrator'')
      else case (case hm_get (st_branch_protections s)
                        (pr_owner pr, pr_repo pr, gr_ref_name (pr_base pr)) of
                   None \<Rightarrow> None
                 | Some rule \<Rightarrow> if bp_allow_merge_override rule then Some rule else None) of
        None \<Rightarrow> Inl (Forbidden ''merge override requires explicit allow_merge_override=true'')
      | Some protection \<Rightarrow>
          if bp_enforce_admins protection
          then Inl (Forbidden (''merge override is unavailable while the branch enforces ''
                 @ ''administrators''))
          else if actor = pr_author pr
          then Inl (Forbidden ''a pull request author cannot authorize its override'')
          else if 0 < bp_required_approving_review_count protection \<and>
                  independent_approvals s pr protection actor
                    < bp_required_approving_review_count protection
          then Inl (Forbidden (''merge override requires ''
                 @ show_nat (bp_required_approving_review_count protection)
                 @ '' approving review(s) from reviewers other than the deciding administrator''))
          else if pr_draft pr \<or> pr_state pr = PrClosed \<or> pr_state pr = PrMerged \<or> pr_merged pr
          then Inl (Validation ''merge override requires an open pull request ready for review'')
          else Inr ())"

section \<open>What a decision may clear\<close>

text \<open>
  The test of one blocker: \<open>Some\<close> is the failed row that is its evidence (or the refusal when it
  is the administrator's own), \<open>None\<close> says that the blocker can not be cleared.
\<close>

definition override_evidence ::
  "state \<Rightarrow> pull_request \<Rightarrow> string \<Rightarrow> branch_protection_rule \<Rightarrow> merge_blocker \<Rightarrow>
   (forge_error + commit_status) option" where
  "override_evidence s pr actor protection blocker =
     (case blocker of
        FailedStatusCheck ctx \<Rightarrow>
          (let rows = hm_list (st_statuses s) (pr_owner pr, pr_repo pr, gr_sha (pr_head pr));
               running = list_ex (\<lambda>run. ck_head_sha run = gr_sha (pr_head pr) \<and> ck_name run = ctx \<and>
                                    ck_status run \<noteq> CrCompleted)
                           (hm_list (st_check_runs s) (pr_owner pr, pr_repo pr))
           in case current_status_for_base rows ctx (gr_ref_name (pr_base pr)) of
                None \<Rightarrow> None
              | Some status \<Rightarrow>
                  if ctx \<in> set (bp_merge_override_status_checks protection) \<and> \<not> running \<and>
                     cs_creator status \<in> set (bp_merge_override_status_creators protection) \<and>
                     (cs_state status = StFailure \<or> cs_state status = StError)
                  then (if eq_ignore_ascii_case (cs_creator status) actor
                        then Some (Inl (Forbidden (''merge override evidence cannot come from the ''
                               @ ''deciding administrator'')))
                        else Some (Inr status))
                  else None)
      | _ \<Rightarrow> None)"

primrec clear_blockers ::
  "state \<Rightarrow> pull_request \<Rightarrow> string \<Rightarrow> branch_protection_rule \<Rightarrow> merge_blocker list \<Rightarrow>
   forge_error + commit_status list" where
  "clear_blockers s pr actor protection [] = Inr []"
| "clear_blockers s pr actor protection (blocker # blockers) =
     (case override_evidence s pr actor protection blocker of
        None \<Rightarrow> Inl (BranchProtection (RefusalOverride blocker))
      | Some found \<Rightarrow>
          try_res found (\<lambda>status.
          try_res (clear_blockers s pr actor protection blockers) (\<lambda>evidence.
            Inr (status # evidence))))"

definition validate_override_evaluation ::
  "state \<Rightarrow> pull_request \<Rightarrow> string \<Rightarrow> branch_protection_rule \<Rightarrow> branch_protection_evaluation \<Rightarrow>
   forge_error + commit_status list" where
  "validate_override_evaluation s pr actor protection evaluation =
     clear_blockers s pr actor protection (ev_blockers evaluation)"

section \<open>Preparing a decision\<close>

definition valid_passport :: "string \<Rightarrow> bool" where
  "valid_passport asserted =
     (case strip_prefix asserted ''passport:'' of
        None \<Rightarrow> False
      | Some hash \<Rightarrow> length hash = 64 \<and> list_all is_lower_hexdigit hash)"

definition prepare_merge_override_inner ::
  "env \<Rightarrow> string \<Rightarrow> string \<Rightarrow> u64 \<Rightarrow> merge_override_request \<Rightarrow> core \<Rightarrow>
   (merge_override_target \<times> merge_override_permit) outcome" where
  "prepare_merge_override_inner ev owner repo number request c =
     (let s = live c in
      try_pure (ensure_repository_writable s owner repo) c (\<lambda>_.
      if storage c = None
      then (Inl (Validation ''merge override requires durable audit storage''), c)
      else if str_trim (mo_reason request) = [] \<or> \<not> valid_passport (mo_asserted_passport_hash request)
      then (Inl (Validation ''merge override requires a reason and caller passport assertion''), c)
      else try_pure (ok_or (hm_get (st_pulls s) (owner, repo, number))
                       (pull_not_found owner repo number)) c (\<lambda>pr.
      try_pure (validate_override s pr (mo_actor request)) c (\<lambda>_.
      if mo_expected_head_sha request \<noteq> gr_sha (pr_head pr)
      then (Inl (Conflict ''merge override head changed; refresh before deciding''), c)
      else try_pure (ok_or (hm_get (st_branch_protections s) (owner, repo, gr_ref_name (pr_base pr)))
                       (Conflict ''override protection disappeared'')) c (\<lambda>protection.
      let evaluation = evaluate_locked ev s pr (Some (gr_sha (pr_head pr))) in
      try_pure (validate_override_evaluation s pr (mo_actor request) protection evaluation) c
        (\<lambda>status_evidence.
        let permit =
              \<lparr>mp_owner = owner, mp_repo = repo, mp_number = number, mp_actor = mo_actor request,
               mp_reason = str_trim (mo_reason request), mp_head_sha = gr_sha (pr_head pr),
               mp_base_sha = gr_sha (pr_base pr),
               mp_passport_hash = mo_asserted_passport_hash request,
               mp_expires_at = timestamp (env_clk ev 0) + 600,
               mp_status_evidence = status_evidence, mp_evaluation = evaluation,
               mp_protection = protection\<rparr>;
            target =
              \<lparr>mt_base_ref = gr_ref_name (pr_base pr), mt_base_sha = gr_sha (pr_base pr),
               mt_head_ref = gr_ref_name (pr_head pr), mt_head_sha = gr_sha (pr_head pr),
               mt_require_linear_history = bp_required_linear_history protection\<rparr>
        in try_op (append_audit_as ev 1 (mp_actor permit) ''pull.merge_override''
                     (permit_subject permit) ''requested'' (audit_detail permit None) c)
             (\<lambda>_ c. (Inr (target, permit), c))))))))"

definition prepare_merge_override ::
  "env \<Rightarrow> string \<Rightarrow> string \<Rightarrow> u64 \<Rightarrow> merge_override_request \<Rightarrow> core \<Rightarrow>
   (merge_override_target \<times> merge_override_permit) outcome" where
  "prepare_merge_override ev owner repo number request c =
     (case prepare_merge_override_inner ev owner repo number request c of
        (Inr prepared, c) \<Rightarrow> (Inr prepared, c)
      | (Inl error, c) \<Rightarrow>
          (Inl error, snd (append_audit_as ev 2 (audit_actor (mo_actor request))
             ''pull.merge_override'' (record_name owner repo number) ''failed''
             (JObj [(''pr_number'', JNum (int number)), (''stage'', JStr ''prepare''),
                    (''actor'', JStr (mo_actor request)), (''error'', JError error)]) c)))"

section \<open>Facts\<close>

text \<open>Exactly who may decide, and when.\<close>

lemma validate_override_Inr:
  "validate_override s pr actor = Inr u \<longleftrightarrow>
     user_can_admin_repo s actor (pr_owner pr) (pr_repo pr) \<and>
     (\<exists>rule. hm_get (st_branch_protections s) (pr_owner pr, pr_repo pr, gr_ref_name (pr_base pr)) = Some rule \<and>
        bp_allow_merge_override rule \<and> \<not> bp_enforce_admins rule \<and>
        bp_required_approving_review_count rule \<le> independent_approvals s pr rule actor) \<and>
     actor \<noteq> pr_author pr \<and>
     \<not> pr_draft pr \<and> \<not> pr_merged pr \<and> pr_state pr \<noteq> PrClosed \<and> pr_state pr \<noteq> PrMerged"
proof -
  have admin: "parse_team_bot_login actor = None \<and>
      (case repo_access_for s actor (pr_owner pr) (pr_repo pr) of
         None \<Rightarrow> False | Some level \<Rightarrow> allows_admin level) \<longleftrightarrow>
      user_can_admin_repo s actor (pr_owner pr) (pr_repo pr)"
    using team_bot_no_admin [of actor s "pr_owner pr" "pr_repo pr"]
    by (cases "parse_team_bot_login actor") (simp_all add: user_can_admin_repo_def)
  show ?thesis
    unfolding validate_override_def admin
    by (cases "hm_get (st_branch_protections s) (pr_owner pr, pr_repo pr, gr_ref_name (pr_base pr))")
      (auto simp: not_less)
qed

lemma override_evidence_Inr:
  "override_evidence s pr actor protection blocker = Some (Inr status) \<longleftrightarrow>
     (\<exists>ctx. blocker = FailedStatusCheck ctx \<and>
        current_status_for_base
          (hm_list (st_statuses s) (pr_owner pr, pr_repo pr, gr_sha (pr_head pr))) ctx
          (gr_ref_name (pr_base pr)) = Some status \<and>
        ctx \<in> set (bp_merge_override_status_checks protection) \<and>
        cs_creator status \<in> set (bp_merge_override_status_creators protection) \<and>
        (cs_state status = StFailure \<or> cs_state status = StError) \<and>
        \<not> eq_ignore_ascii_case (cs_creator status) actor \<and>
        \<not> (\<exists>run \<in> set (hm_list (st_check_runs s) (pr_owner pr, pr_repo pr)).
             ck_head_sha run = gr_sha (pr_head pr) \<and> ck_name run = ctx \<and> ck_status run \<noteq> CrCompleted))"
  by (cases blocker) (auto simp: override_evidence_def Let_def list_ex_iff split: option.splits)

lemma clear_blockers_Inr:
  "clear_blockers s pr actor protection blockers = Inr evidence \<longleftrightarrow>
     list_all2 (\<lambda>blocker status. override_evidence s pr actor protection blocker = Some (Inr status))
       blockers evidence"
proof (induction blockers arbitrary: evidence)
  case Nil
  show ?case by auto
next
  case (Cons b bs)
  then show ?case
    by (cases "override_evidence s pr actor protection b"; cases evidence)
      (auto simp: ok_paths list_all2_Cons1)
qed

end
