(* ===== verification/Pull_Requests.thy ===== *)
theory Pull_Requests
  imports Merge_Override
begin

text \<open>
  Pull requests and their merges (\<^verbatim>\<open>engine/pull_requests.rs\<close>): creation, editing, moving heads and
  bases, and the two-phase merge. The git commands behind \<^verbatim>\<open>patch_ids\<close> and \<^verbatim>\<open>review_commits\<close> and
  the branches of \<^verbatim>\<open>RepoBranches\<close> are parameters.
\<close>

section \<open>Validation\<close>

definition normalize_source_repository :: "string \<Rightarrow> string \<Rightarrow> string option \<Rightarrow> string" where
  "normalize_source_repository owner repo source_repository =
     (case source_repository of
        None \<Rightarrow> slug_name owner repo
      | Some value \<Rightarrow> (let value = str_trim value in if value = [] then slug_name owner repo else value))"

definition MAX_HEAD_PATCH_IDS :: nat where
  "MAX_HEAD_PATCH_IDS = MAX_COMMITS"

definition validate_patch_ids :: "string list \<Rightarrow> forge_error + unit" where
  "validate_patch_ids patch_ids =
     (if MAX_HEAD_PATCH_IDS < length patch_ids
      then Inl (Validation (''a diff identity covers at most '' @ show_nat MAX_HEAD_PATCH_IDS @ '' commits''))
      else if list_ex (\<lambda>i. \<not> is_review_patch_id i) patch_ids
      then Inl (Validation ''patch ids must be v2-tagged SHA-256 digests'')
      else Inr ())"

definition object_id :: "string \<Rightarrow> bool" where
  "object_id sha = ((length sha = 40 \<or> length sha = 64) \<and> list_all is_ascii_hexdigit sha)"

definition validate_diff_base :: "string \<Rightarrow> forge_error + unit" where
  "validate_diff_base base_sha =
     (if object_id base_sha then Inr () else Inl (Validation ''base sha must be 40 or 64 hex digits''))"

text \<open>The heads are a \<^verbatim>\<open>BTreeSet\<close>; only the existence of one is asked for.\<close>

definition approval_heads :: "review list \<Rightarrow> string list" where
  "approval_heads reviews =
     remdups (List.map_filter rv_head_sha [r \<leftarrow> reviews. rv_state r = Approved])"

definition standing_approval :: "review list \<Rightarrow> bool" where
  "standing_approval reviews =
     list_ex (\<lambda>head. list_ex (\<lambda>r. rv_state r = Approved) (effective_reviews_for_head reviews head))
       (approval_heads reviews)"

section \<open>Creation and listing\<close>

definition new_pull_issue ::
  "env \<Rightarrow> string \<Rightarrow> string \<Rightarrow> string \<Rightarrow> u64 \<Rightarrow> create_pull_request_request \<Rightarrow> issue" where
  "new_pull_issue ev owner repo author number request =
     \<lparr>is_id = env_fresh ev 1, is_owner = owner, is_repo = repo, is_number = number,
      is_title = cpr_title request, is_body = cpr_body request, is_state = IssueOpen,
      is_author = author, is_labels = [], is_assignees = [], is_milestone = None, is_comments = 0,
      is_pull_request = Some
        \<lparr>pm_url = ''/repos/'' @ slug_name owner repo @ ''/pulls/'' @ show_nat number,
         pm_html_url = ''/'' @ slug_name owner repo @ ''/pull/'' @ show_nat number\<rparr>,
      is_created_at = env_clk ev 1, is_updated_at = env_clk ev 1, is_closed_at = None\<rparr>"

definition new_pull ::
  "env \<Rightarrow> string \<Rightarrow> string \<Rightarrow> string \<Rightarrow> u64 \<Rightarrow> create_pull_request_request \<Rightarrow> pull_request" where
  "new_pull ev owner repo author number request =
     \<lparr>pr_id = env_fresh ev 2, pr_owner = owner, pr_repo = repo, pr_number = number,
      pr_issue_number = number, pr_title = cpr_title request, pr_body = cpr_body request,
      pr_state = (if cpr_draft request then PrDraft else PrOpen), pr_draft = cpr_draft request,
      pr_author = author,
      pr_source_repository = normalize_source_repository owner repo (cpr_source_repository request),
      pr_head = git_branch_ref_new (cpr_head request)
                  (case cpr_head_sha request of Some sha \<Rightarrow> sha | None \<Rightarrow> ''head-'' @ show_nat number),
      pr_base = git_branch_ref_new (normalize_base_ref (cpr_base request))
                  (case cpr_base_sha request of Some sha \<Rightarrow> sha | None \<Rightarrow> ''base''),
      pr_mergeable = False, pr_mergeable_state = ''unknown'', pr_merged = False,
      pr_merged_at = None, pr_merge_commit_sha = None, pr_commits = cpr_commits request,
      pr_changed_files = cpr_changed_files request, pr_head_patch_ids = [],
      pr_created_at = env_clk ev 1, pr_updated_at = env_clk ev 1\<rparr>"

definition pull_event :: "env \<Rightarrow> nat \<Rightarrow> string \<Rightarrow> string \<Rightarrow> string \<Rightarrow> pull_request \<Rightarrow> state \<Rightarrow> state" where
  "pull_event ev n owner repo action pr s =
     emit_event_locked ev n owner repo ''pull_request''
       (event_payload action ''pull_request'' (JPull pr)) s"

definition put_pull :: "string \<Rightarrow> string \<Rightarrow> u64 \<Rightarrow> pull_request \<Rightarrow> state \<Rightarrow> state" where
  "put_pull owner repo number pr s = s\<lparr>st_pulls := hm_put (owner, repo, number) pr (st_pulls s)\<rparr>"

definition create_pull_request ::
  "env \<Rightarrow> string \<Rightarrow> string \<Rightarrow> string \<Rightarrow> create_pull_request_request \<Rightarrow> core \<Rightarrow> pull_request outcome" where
  "create_pull_request ev owner repo author request c =
     try_pure (require_name ''pull request title'' (cpr_title request)) c (\<lambda>_.
     try_pure (require_name ''head'' (cpr_head request)) c (\<lambda>_.
     try_pure (require_name ''base'' (normalize_base_ref (cpr_base request))) c (\<lambda>_.
     try_pure (ensure_repository_writable (live c) owner repo) c (\<lambda>_.
     try_op (ensure_user ev 0 author c) (\<lambda>_ c.
       case next_record_number owner repo (live c) of
         (number, s1) \<Rightarrow>
           let issue = new_pull_issue ev owner repo author number request;
               pr = reevaluated ev s1 (new_pull ev owner repo author number request);
               s2 = s1\<lparr>st_issues := hm_put (owner, repo, number) issue (st_issues s1)\<rparr>;
               s3 = put_pull owner repo number pr s2;
               s4 = pull_event ev 3 owner repo ''opened'' pr s3
           in commit ev 1 s4 pr c)))))"

definition list_pull_requests ::
  "env \<Rightarrow> state \<Rightarrow> string \<Rightarrow> string \<Rightarrow> pull_request_state option \<Rightarrow> forge_error + pull_request list" where
  "list_pull_requests ev s owner repo state_filter =
     try_res (ensure_repo_exists s owner repo) (\<lambda>_.
       Inr (sort_key pr_number
         (map (reevaluated ev s)
           [pr \<leftarrow> hm_values (st_pulls s). (pr_owner pr = owner \<and> pr_repo pr = repo) \<and>
              (case state_filter of None \<Rightarrow> True | Some wanted \<Rightarrow> pr_state pr = wanted)])))"

section \<open>Editing\<close>

definition edited_pull :: "env \<Rightarrow> update_pull_request_request \<Rightarrow> pull_request \<Rightarrow> pull_request" where
  "edited_pull ev request pr =
     (let pr = (case upr_title request of None \<Rightarrow> pr | Some title \<Rightarrow> pr\<lparr>pr_title := title\<rparr>);
          pr = (if upr_body request \<noteq> None then pr\<lparr>pr_body := upr_body request\<rparr> else pr);
          pr = (case upr_draft request of
                  None \<Rightarrow> pr
                | Some draft \<Rightarrow> pr\<lparr>pr_draft := draft, pr_state := (if draft then PrDraft else PrOpen)\<rparr>);
          pr = (case upr_state request of
                  None \<Rightarrow> pr
                | Some new_state \<Rightarrow> pr\<lparr>pr_state := new_state, pr_draft := (new_state = PrDraft)\<rparr>);
          pr = (case upr_commits request of None \<Rightarrow> pr | Some commits \<Rightarrow> pr\<lparr>pr_commits := commits\<rparr>);
          pr = (case upr_changed_files request of
                  None \<Rightarrow> pr | Some files \<Rightarrow> pr\<lparr>pr_changed_files := files\<rparr>)
      in pr\<lparr>pr_updated_at := env_clk ev 0\<rparr>)"

definition update_pull_request ::
  "env \<Rightarrow> string \<Rightarrow> string \<Rightarrow> u64 \<Rightarrow> update_pull_request_request \<Rightarrow> core \<Rightarrow> pull_request outcome" where
  "update_pull_request ev owner repo number request c =
     try_pure (ensure_repository_writable (live c) owner repo) c (\<lambda>_.
     try_pure (case upr_title request of
                 None \<Rightarrow> Inr () | Some title \<Rightarrow> require_name ''pull request title'' title) c (\<lambda>_.
     try_pure (ok_or (hm_get (st_pulls (live c)) (owner, repo, number))
                 (pull_not_found owner repo number)) c (\<lambda>pr.
       let edited = edited_pull ev request pr;
           s1 = put_pull owner repo number edited (live c);
           updated = reevaluated ev s1 edited;
           s2 = put_pull owner repo number updated s1;
           s3 = pull_event ev 1 owner repo ''edited'' updated s2
       in commit ev 0 s3 updated c)))"

section \<open>Moving heads\<close>

record head_evidence =
  he_base_sha :: string
  he_patch_ids :: "string list"
  he_commits :: "pull_request_commit list option"

definition open_pull :: "pull_request \<Rightarrow> bool" where
  "open_pull pr = (\<not> pr_merged pr \<and> \<not> (pr_state pr = PrClosed \<or> pr_state pr = PrMerged))"

definition moved_commits ::
  "head_evidence \<Rightarrow> string \<Rightarrow> pull_request \<Rightarrow> pull_request_commit list" where
  "moved_commits evidence head_sha pr =
     (case he_commits evidence of
        None \<Rightarrow> pr_commits pr
      | Some commits \<Rightarrow>
          if eq_ignore_ascii_case (gr_sha (pr_base pr)) (he_base_sha evidence) then commits
          else if gr_sha (pr_head pr) \<noteq> head_sha
          then [\<lparr>cm_sha = head_sha, cm_verified = False, cm_parents = 2\<rparr>]
          else pr_commits pr)"

definition moved_pull :: "env \<Rightarrow> string \<Rightarrow> head_evidence \<Rightarrow> pull_request \<Rightarrow> pull_request" where
  "moved_pull ev head_sha evidence pr =
     pr\<lparr>pr_commits := moved_commits evidence head_sha pr,
        pr_head := (pr_head pr)\<lparr>gr_sha := head_sha\<rparr>,
        pr_head_patch_ids :=
          (if eq_ignore_ascii_case (gr_sha (pr_base pr)) (he_base_sha evidence)
           then he_patch_ids evidence else []),
        pr_updated_at := env_clk ev 0\<rparr>"

text \<open>One turn of the loop; every turn queues its own deliveries, \<open>n\<close> numbers them.\<close>

definition move_head ::
  "env \<Rightarrow> string \<Rightarrow> string \<Rightarrow> string \<Rightarrow> head_evidence \<Rightarrow> string \<times> string \<times> u64 \<Rightarrow>
   pull_request list \<times> nat \<times> state \<Rightarrow> pull_request list \<times> nat \<times> state" where
  "move_head ev owner repo head_sha evidence key acc =
     (case acc of (updated, n, s) \<Rightarrow>
       (case hm_get (st_pulls s) key of
          None \<Rightarrow> acc
        | Some old \<Rightarrow>
            (let pr = moved_pull ev head_sha evidence old;
                 s1 = s\<lparr>st_pulls := hm_put key pr (st_pulls s)\<rparr>;
                 pr = reevaluated ev s1 pr;
                 s2 = s1\<lparr>st_pulls := hm_put key pr (st_pulls s1)\<rparr>;
                 s3 = pull_event ev n owner repo ''synchronize'' pr s2
             in (updated @ [pr], n + length (hm_list (st_webhooks s) (owner, repo)), s3))))"

definition heads_on_ref :: "string \<Rightarrow> string \<Rightarrow> string \<Rightarrow> state \<Rightarrow> (string \<times> string \<times> u64) list" where
  "heads_on_ref owner repo ref_name s =
     map fst [(key, pr) \<leftarrow> st_pulls s.
       pr_owner pr = owner \<and> pr_repo pr = repo \<and> gr_ref_name (pr_head pr) = ref_name \<and> open_pull pr]"

definition refresh_pull_request_heads_with_identity ::
  "env \<Rightarrow> string \<Rightarrow> string \<Rightarrow> string \<Rightarrow> string \<Rightarrow> head_evidence \<Rightarrow> core \<Rightarrow> pull_request list outcome" where
  "refresh_pull_request_heads_with_identity ev owner repo ref_name head_sha evidence c =
     try_pure (ensure_repo_exists (live c) owner repo) c (\<lambda>_.
       let keys = heads_on_ref owner repo ref_name (live c)
       in if keys = [] then (Inr [], c)
          else case fold (move_head ev owner repo head_sha evidence) keys ([], 1, live c) of
            (updated, _, s) \<Rightarrow> commit ev 0 s updated c)"

definition refresh_pull_request_heads_for_ref ::
  "env \<Rightarrow> string \<Rightarrow> string \<Rightarrow> string \<Rightarrow> string \<Rightarrow> core \<Rightarrow> pull_request list outcome" where
  "refresh_pull_request_heads_for_ref ev owner repo ref_name head_sha c =
     refresh_pull_request_heads_with_identity ev owner repo ref_name head_sha
       \<lparr>he_base_sha = [], he_patch_ids = [], he_commits = None\<rparr> c"

definition refresh_pull_request_heads_for_ref_with_diff ::
  "env \<Rightarrow> string \<Rightarrow> string \<Rightarrow> string \<Rightarrow> string \<Rightarrow> string \<Rightarrow> string list \<Rightarrow> core \<Rightarrow>
   pull_request list outcome" where
  "refresh_pull_request_heads_for_ref_with_diff ev owner repo ref_name head_sha base_sha head_patch_ids c =
     try_pure (validate_patch_ids head_patch_ids) c (\<lambda>_.
     try_pure (validate_diff_base base_sha) c (\<lambda>_.
       if head_patch_ids \<noteq> []
       then (Inl (Validation ''diff identities must be computed from repository objects''), c)
       else refresh_pull_request_heads_with_identity ev owner repo ref_name head_sha
              \<lparr>he_base_sha = base_sha, he_patch_ids = [], he_commits = None\<rparr> c))"

text \<open>
  \<^verbatim>\<open>RepoId::new\<close> of \<^verbatim>\<open>jeryu-gitd/src/repo.rs\<close> with \<^verbatim>\<open>validate_segment\<close> of its \<^verbatim>\<open>path.rs\<close>; the error
  is the displayed text.
\<close>

definition validate_segment :: "string \<Rightarrow> string \<Rightarrow> string + unit" where
  "validate_segment name field =
     (if name = [] then Inl (''invalid path: '' @ field @ '' cannot be empty'')
      else if name = ''.'' \<or> name = ''..'' then Inl (''invalid path: '' @ field @ '' cannot be '' @ name)
      else if CHR ''/'' \<in> set name \<or> CHR 0x5C \<in> set name \<or> CHR 0x00 \<in> set name
      then Inl (''invalid path: '' @ field @ '' contains a path separator or NUL'')
      else if starts_with name ''-''
      then Inl (''invalid path: '' @ field @ '' cannot start with '' @ [CHR 0x27] @ ''-'' @ [CHR 0x27])
      else Inr ())"

definition repo_id_new :: "string \<Rightarrow> string \<Rightarrow> string + slug" where
  "repo_id_new owner name =
     (let bare = (case strip_suffix name ''.git'' of Some stem \<Rightarrow> stem | None \<Rightarrow> name)
      in try_res (validate_segment owner ''owner'') (\<lambda>_.
         try_res (validate_segment bare ''repo'') (\<lambda>_. Inr (owner, bare))))"

text \<open>The two git commands, by the bare repository's path, base and head; errors are text.\<close>

record git_commands =
  gt_patch_ids :: "string \<Rightarrow> string \<Rightarrow> string \<Rightarrow> string + string list"
  gt_review_commits :: "string \<Rightarrow> string \<Rightarrow> string \<Rightarrow> string + (string \<times> u64 \<times> bool) list"

definition map_err :: "(string \<Rightarrow> forge_error) \<Rightarrow> string + 'a \<Rightarrow> forge_error + 'a" where
  "map_err f r = (case r of Inl e \<Rightarrow> Inl (f e) | Inr x \<Rightarrow> Inr x)"

definition refresh_pull_request_heads_from_git ::
  "env \<Rightarrow> git_commands \<Rightarrow> string \<Rightarrow> string \<Rightarrow> string \<Rightarrow> string \<Rightarrow> string \<Rightarrow> string \<Rightarrow> core \<Rightarrow>
   pull_request list outcome" where
  "refresh_pull_request_heads_from_git ev git owner repo repository_path ref_name head_sha base_sha c =
     try_pure (validate_diff_base base_sha) c (\<lambda>_.
     try_pure (map_err Validation (repo_id_new owner repo)) c (\<lambda>(id_owner, id_name).
     try_pure (map_err (\<lambda>e. Validation (''cannot compute diff identity: '' @ e))
                 (gt_patch_ids git repository_path base_sha head_sha)) c (\<lambda>ids.
     try_pure (validate_patch_ids ids) c (\<lambda>_.
     try_pure (map_err (\<lambda>e. Validation (''cannot refresh commits: '' @ e))
                 (gt_review_commits git repository_path base_sha head_sha)) c (\<lambda>rows.
       refresh_pull_request_heads_with_identity ev id_owner id_name ref_name head_sha
         \<lparr>he_base_sha = base_sha, he_patch_ids = ids,
          he_commits = Some (map (\<lambda>(sha, parents, verified).
             \<lparr>cm_sha = sha, cm_verified = verified, cm_parents = parents\<rparr>) rows)\<rparr> c)))))"

end
