(* ===== verification/Merging.thy ===== *)
theory Merging
  imports Pull_Requests
begin

text \<open>
  The second half of \<^verbatim>\<open>engine/pull_requests.rs\<close>: moving a pull request's base, and the two-phase
  merge with and without an override permit.
\<close>

section \<open>Moving the base\<close>

text \<open>The refusals of a base change that do not need the state.\<close>

definition check_retarget_request ::
  "string \<Rightarrow> retarget_pull_request_request \<Rightarrow> forge_error + unit" where
  "check_retarget_request actor request =
     try_res (require_name ''base'' (normalize_base_ref (rtr_base request))) (\<lambda>_.
     try_res (validate_diff_base (rtr_base_sha request)) (\<lambda>_.
       if eq_ignore_ascii_case (rtr_base_sha request) (rtr_head_sha request)
       then Inl (Validation ''base sha must not be the head: that diff is empty'')
       else if rtr_commits request = [] \<or> rtr_changed_files request = []
       then Inl (Validation (''a retarget must carry the commit range and changed paths for its ''
              @ ''new base''))
       else if str_trim actor = [] then Inl (Validation ''audit actor cannot be empty'')
       else Inr ()))"

text \<open>The refusals about an open pull request and its head that both base changes make.\<close>

definition check_open_at ::
  "string \<Rightarrow> string \<Rightarrow> u64 \<Rightarrow> pull_request \<Rightarrow> string \<Rightarrow> forge_error + unit" where
  "check_open_at owner repo number pr head_sha =
     (if \<not> open_pull pr
      then Inl (Conflict (''pull request '' @ record_name owner repo number @ '' is not open''))
      else if gr_sha (pr_head pr) \<noteq> head_sha
      then Inl (Conflict (''pull request '' @ record_name owner repo number @ '' head changed''))
      else Inr ())"

definition check_retarget_base ::
  "string \<Rightarrow> string \<Rightarrow> u64 \<Rightarrow> pull_request \<Rightarrow> review list \<Rightarrow> string \<Rightarrow> forge_error + unit" where
  "check_retarget_base owner repo number pr reviews base =
     (let same_repository = (pr_source_repository pr = [] \<or>
                             pr_source_repository pr = slug_name owner repo)
      in if same_repository \<and> gr_ref_name (pr_head pr) = base
         then Inl (Validation (base @ '' is the head branch of pull request ''
                @ record_name owner repo number))
         else if standing_approval reviews
         then Inl (Conflict (''pull request '' @ record_name owner repo number @
                '' has approvals given against its current base; its reviewers must dismiss them '' @
                ''before a retarget, or open a new pull request against the new base''))
         else Inr ())"

definition retarget_pull_request ::
  "env \<Rightarrow> 'g repo_branches \<Rightarrow> 'g \<Rightarrow> string \<Rightarrow> string \<Rightarrow> string \<Rightarrow> u64 \<Rightarrow>
   retarget_pull_request_request \<Rightarrow> core \<Rightarrow> pull_request outcome" where
  "retarget_pull_request ev branches g actor owner repo number request c =
     (let base = normalize_base_ref (rtr_base request) in
      try_pure (check_retarget_request actor request) c (\<lambda>_.
      try_pure (ensure_repository_writable (live c) owner repo) c (\<lambda>_.
      try_pure (branch_exists branches g owner repo base) c (\<lambda>exists.
      if \<not> exists
      then (Inl (Validation (''base branch '' @ base @ '' does not exist in '' @ slug_name owner repo)), c)
      else try_pure (ok_or (hm_get (st_pulls (live c)) (owner, repo, number))
                       (pull_not_found owner repo number)) c (\<lambda>pr.
      try_pure (check_open_at owner repo number pr (rtr_head_sha request)) c (\<lambda>_.
      try_pure (check_retarget_base owner repo number pr
                  (hm_list (st_reviews (live c)) (owner, repo, number)) base) c (\<lambda>_.
        let moved = pr\<lparr>pr_base := git_branch_ref_new base (rtr_base_sha request),
                       pr_commits := rtr_commits request,
                       pr_changed_files := rtr_changed_files request,
                       pr_head_patch_ids := [], pr_updated_at := env_clk ev 0\<rparr>;
            updated = reevaluated ev (live c) moved;
            s1 = put_pull owner repo number updated (live c);
            s2 = pull_event ev 2 owner repo ''edited'' updated s1;
            entry = \<lparr>ae_id = env_fresh ev 1, ae_occurred_at = env_clk ev 1, ae_actor = actor,
                     ae_action = ''pull_request.retargeted'', ae_subject = slug_name owner repo,
                     ae_phase = ''completed'',
                     ae_detail = JObj [(''number'', JNum (int number)),
                       (''head_sha'', JStr (gr_sha (pr_head updated))),
                       (''from_base'', JStr (gr_ref_name (pr_base pr))),
                       (''from_base_sha'', JStr (gr_sha (pr_base pr))),
                       (''to_base'', JStr (gr_ref_name (pr_base updated))),
                       (''to_base_sha'', JStr (gr_sha (pr_base updated)))]\<rparr>
        in commit_with_audit ev 0 entry s2 updated c)))))))"

definition record_pull_request_base ::
  "env \<Rightarrow> string \<Rightarrow> string \<Rightarrow> string \<Rightarrow> u64 \<Rightarrow> string \<Rightarrow> string \<Rightarrow> core \<Rightarrow> pull_request outcome" where
  "record_pull_request_base ev actor owner repo number head_sha base_sha c =
     try_pure (validate_diff_base base_sha) c (\<lambda>_.
     if eq_ignore_ascii_case base_sha head_sha
     then (Inl (Validation ''base sha must not be the head: that diff is empty''), c)
     else try_pure (ensure_repo_exists (live c) owner repo) c (\<lambda>_.
     try_pure (ensure_repository_writable (live c) owner repo) c (\<lambda>_.
     try_pure (ok_or (hm_get (st_pulls (live c)) (owner, repo, number))
                 (pull_not_found owner repo number)) c (\<lambda>pr.
     try_pure (check_open_at owner repo number pr head_sha) c (\<lambda>_.
     if gr_sha (pr_base pr) = base_sha then (Inr pr, c)
     else
       let moved = pr\<lparr>pr_base := (pr_base pr)\<lparr>gr_sha := base_sha\<rparr>, pr_head_patch_ids := [],
                      pr_updated_at := env_clk ev 0\<rparr>;
           updated = reevaluated ev (live c) moved;
           s1 = put_pull owner repo number updated (live c);
           s2 = pull_event ev 2 owner repo ''edited'' updated s1
       in try_op (commit ev 0 s2 updated c) (\<lambda>_ c.
          try_op (append_audit_as ev 1 actor ''pull_request.base_recorded'' (slug_name owner repo)
                    ''completed''
                    (JObj [(''number'', JNum (int number)), (''head_sha'', JStr head_sha),
                           (''from'', JStr (gr_sha (pr_base pr))), (''to'', JStr base_sha)]) c)
            (\<lambda>_ c. (Inr updated, c))))))))"

section \<open>Readiness\<close>

datatype merge_readiness =
  Ready (rd_base_ref: string) (rd_base_sha: string) (rd_head_ref: string) (rd_head_sha: string)
    (rd_require_linear_history: bool)
| AlreadyMerged (rd_sha: string)

record merge_base =
  mb_base_ref :: string
  mb_base_sha :: string

fun readiness_merge_base :: "merge_readiness \<Rightarrow> merge_base option" where
  "readiness_merge_base (Ready base_ref base_sha _ _ _) =
     Some \<lparr>mb_base_ref = base_ref, mb_base_sha = base_sha\<rparr>"
| "readiness_merge_base (AlreadyMerged _) = None"

definition evaluate_merge_readiness ::
  "env \<Rightarrow> state \<Rightarrow> string \<Rightarrow> string \<Rightarrow> u64 \<Rightarrow> string option \<Rightarrow> forge_error + merge_readiness" where
  "evaluate_merge_readiness ev s owner repo number requested_sha =
     try_res (ok_or (hm_get (st_pulls s) (owner, repo, number)) (pull_not_found owner repo number)) (\<lambda>pr.
       if pr_merged pr
       then Inr (AlreadyMerged (case pr_merge_commit_sha pr of
                                  Some sha \<Rightarrow> sha | None \<Rightarrow> gr_sha (pr_head pr)))
       else if pr_state pr = PrClosed
       then Inl (Validation ''closed pull requests cannot be merged'')
       else let evaluation = evaluate_locked ev s pr requested_sha
       in if \<not> ev_mergeable evaluation
          then Inl (BranchProtection (RefusalBlockers (ev_blockers evaluation)))
          else Inr (Ready (gr_ref_name (pr_base pr)) (gr_sha (pr_base pr))
                      (gr_ref_name (pr_head pr)) (gr_sha (pr_head pr))
                      (case hm_get (st_branch_protections s) (owner, repo, gr_ref_name (pr_base pr)) of
                         None \<Rightarrow> False | Some rule \<Rightarrow> bp_required_linear_history rule)))"

section \<open>Finalizing\<close>

record finalize_binding =
  fb_merge_sha :: string
  fb_requested_sha :: "string option"
  fb_base :: merge_base

text \<open>The checks of a finalize with a permit; without one the gate itself must be clear.\<close>

definition check_permit ::
  "env \<Rightarrow> state \<Rightarrow> string \<Rightarrow> string \<Rightarrow> pull_request \<Rightarrow> branch_protection_evaluation \<Rightarrow>
   merge_override_permit \<Rightarrow> forge_error + unit" where
  "check_permit ev s owner repo pr evaluation permit =
     try_res (validate_override s pr (mp_actor permit)) (\<lambda>_.
     if mp_expires_at permit < timestamp (env_clk ev 0)
     then Inl (Conflict ''merge override permit expired'')
     else try_res (validate_override_evaluation s pr (mp_actor permit) (mp_protection permit) evaluation)
       (\<lambda>evidence.
       if evidence \<noteq> mp_status_evidence permit then Inl (Conflict ''override status evidence changed'')
       else if gr_sha (pr_head pr) \<noteq> mp_head_sha permit \<or> gr_sha (pr_base pr) \<noteq> mp_base_sha permit \<or>
               evaluation \<noteq> mp_evaluation permit \<or>
               hm_get (st_branch_protections s) (owner, repo, gr_ref_name (pr_base pr))
                 \<noteq> Some (mp_protection permit)
       then Inl (Conflict ''merge override gate changed; refresh and record a new decision'')
       else Inr ()))"

definition check_gate ::
  "env \<Rightarrow> state \<Rightarrow> string \<Rightarrow> string \<Rightarrow> pull_request \<Rightarrow> branch_protection_evaluation \<Rightarrow>
   merge_override_permit option \<Rightarrow> forge_error + unit" where
  "check_gate ev s owner repo pr evaluation override_permit =
     (case override_permit of
        Some permit \<Rightarrow> check_permit ev s owner repo pr evaluation permit
      | None \<Rightarrow>
          if \<not> ev_mergeable evaluation
          then Inl (BranchProtection (RefusalBlockers (ev_blockers evaluation))) else Inr ())"

definition merged_pull :: "env \<Rightarrow> string \<Rightarrow> pull_request \<Rightarrow> pull_request" where
  "merged_pull ev merge_sha pr =
     pr\<lparr>pr_merged := True, pr_state := PrMerged, pr_mergeable := False,
        pr_mergeable_state := ''merged'', pr_merged_at := Some (env_clk ev 1),
        pr_merge_commit_sha := Some merge_sha, pr_updated_at := env_clk ev 2\<rparr>"

definition close_issue :: "env \<Rightarrow> string \<times> string \<times> u64 \<Rightarrow> state \<Rightarrow> state" where
  "close_issue ev key s =
     (case hm_get (st_issues s) key of
        None \<Rightarrow> s
      | Some i \<Rightarrow>
          s\<lparr>st_issues := hm_put key
              (i\<lparr>is_state := IssueClosed, is_closed_at := Some (env_clk ev 3),
                 is_updated_at := env_clk ev 4\<rparr>) (st_issues s)\<rparr>)"

definition finalize_merge_checked ::
  "env \<Rightarrow> string \<Rightarrow> string \<Rightarrow> u64 \<Rightarrow> finalize_binding \<Rightarrow> merge_override_permit option \<Rightarrow> core \<Rightarrow>
   merge_result outcome" where
  "finalize_merge_checked ev owner repo number binding override_permit c =
     (let s = live c; merge_sha = fb_merge_sha binding; base = fb_base binding in
      try_pure (ensure_repository_writable s owner repo) c (\<lambda>_.
      try_pure (ok_or (hm_get (st_pulls s) (owner, repo, number))
                  (pull_not_found owner repo number)) c (\<lambda>pr.
      if pr_merged pr then
        (if override_permit \<noteq> None then (Inl (Conflict ''override target already merged''), c)
         else (Inr \<lparr>mr_sha = (case pr_merge_commit_sha pr of Some sha \<Rightarrow> sha | None \<Rightarrow> merge_sha),
                    mr_merged = True, mr_message = ''Pull Request already merged''\<rparr>, c))
      else if pr_state pr = PrClosed
      then (Inl (Validation ''closed pull requests cannot be merged''), c)
      else if gr_ref_name (pr_base pr) \<noteq> mb_base_ref base \<or> gr_sha (pr_base pr) \<noteq> mb_base_sha base
      then (Inl (Conflict (''pull request '' @ record_name owner repo number @
              '' base changed since readiness; re-evaluate'')), c)
      else
      let evaluation = evaluate_locked ev s pr (fb_requested_sha binding) in
      try_pure (check_gate ev s owner repo pr evaluation override_permit) c (\<lambda>_.
        let merged = merged_pull ev merge_sha pr;
            s1 = put_pull owner repo number merged s;
            s2 = close_issue ev (owner, repo, pr_issue_number merged) s1;
            s3 = pull_event ev 6 owner repo ''closed'' merged s2;
            result = \<lparr>mr_sha = merge_sha, mr_merged = True,
                      mr_message = ''Pull Request successfully merged''\<rparr>
        in case override_permit of
             None \<Rightarrow> commit ev 0 s3 result c
           | Some permit \<Rightarrow>
               if storage c = None
               then (Inl (Validation ''merge override requires durable audit storage''), c)
               else commit_with_audit ev 0
                 \<lparr>ae_id = env_fresh ev 5, ae_occurred_at = env_clk ev 5,
                  ae_actor = mp_actor permit, ae_action = ''pull.merge_override'',
                  ae_subject = permit_subject permit, ae_phase = ''completed'',
                  ae_detail = audit_detail permit (Some merge_sha)\<rparr> s3 result c))))"

definition finalize_merge ::
  "env \<Rightarrow> string \<Rightarrow> string \<Rightarrow> u64 \<Rightarrow> string \<Rightarrow> string option \<Rightarrow> merge_base \<Rightarrow> core \<Rightarrow>
   merge_result outcome" where
  "finalize_merge ev owner repo number merge_sha requested_sha base c =
     finalize_merge_checked ev owner repo number
       \<lparr>fb_merge_sha = merge_sha, fb_requested_sha = requested_sha, fb_base = base\<rparr> None c"

text \<open>A refused finalize leaves a \<^verbatim>\<open>failed\<close> receipt, or a second one that says why the first could
  not be written; neither replaces the refusal.\<close>

definition finalize_merge_with_override ::
  "env \<Rightarrow> merge_override_permit \<Rightarrow> string \<Rightarrow> core \<Rightarrow> merge_result outcome" where
  "finalize_merge_with_override ev permit merge_sha c =
     (case finalize_merge_checked ev (mp_owner permit) (mp_repo permit) (mp_number permit)
             \<lparr>fb_merge_sha = merge_sha, fb_requested_sha = Some (mp_head_sha permit),
              fb_base = \<lparr>mb_base_ref = bp_branch (mp_protection permit),
                         mb_base_sha = mp_base_sha permit\<rparr>\<rparr> (Some permit) c of
        (Inr result, c) \<Rightarrow> (Inr result, c)
      | (Inl error, c) \<Rightarrow>
          (case append_audit_as ev 6 (mp_actor permit) ''pull.merge_override'' (permit_subject permit)
                  ''failed'' (JObj (permit_audit_fields permit None @ [(''error'', JError error)])) c of
             (Inr _, c) \<Rightarrow> (Inl error, c)
           | (Inl audit_error, c) \<Rightarrow>
               (Inl error, snd (append_audit_as ev 7 (mp_actor permit) ''pull.merge_override''
                  (permit_subject permit) ''failed''
                  (JObj [(''pr_number'', JNum (int (mp_number permit))),
                         (''stage'', JStr ''finalize''), (''error'', JError error),
                         (''audit_error'', JError audit_error)]) c))))"

definition merge_pull_request ::
  "env \<Rightarrow> string \<Rightarrow> string \<Rightarrow> u64 \<Rightarrow> merge_pull_request_request \<Rightarrow> core \<Rightarrow> merge_result outcome" where
  "merge_pull_request ev owner repo number request c =
     try_pure (ensure_repository_writable (live c) owner repo) c (\<lambda>_.
     try_pure (evaluate_merge_readiness ev (live c) owner repo number (mpr_sha request)) c (\<lambda>readiness.
       case readiness of
         AlreadyMerged sha \<Rightarrow>
           (Inr \<lparr>mr_sha = sha, mr_merged = True, mr_message = ''Pull Request already merged''\<rparr>, c)
       | Ready base_ref base_sha head_ref head_sha linear \<Rightarrow>
           finalize_merge ev owner repo number (''merge-'' @ head_sha @ ''-'' @ show_nat number)
             (mpr_sha request) \<lparr>mb_base_ref = base_ref, mb_base_sha = base_sha\<rparr> c))"

end
