(* ===== verification/Statuses.thy ===== *)
theory Statuses
  imports Accounts
begin

text \<open>
  Commit statuses and their rollups (\<^verbatim>\<open>engine/commit_status.rs\<close>), check runs, suites and workflow
  runs (\<^verbatim>\<open>engine/check_runs.rs\<close>), and webhooks (\<^verbatim>\<open>engine/webhooks.rs\<close>). An operation first
  creates the acting user (write 0), then makes its own write (write 1); ids and clock readings
  are numbered the same way, and deliveries take the numbers after them.
\<close>

section \<open>Commit statuses\<close>

definition stated_base :: "string option \<Rightarrow> string option" where
  "stated_base base =
     (case map_option normalize_base_ref base of
        None \<Rightarrow> None | Some b \<Rightarrow> if b = [] then None else Some b)"

definition create_commit_status ::
  "env \<Rightarrow> string \<Rightarrow> string \<Rightarrow> string \<Rightarrow> string \<Rightarrow> create_commit_status_request \<Rightarrow> core \<Rightarrow>
   commit_status outcome" where
  "create_commit_status ev owner repo sha creator request c =
     try_pure (require_name ''sha'' sha) c (\<lambda>_.
     try_pure (ensure_repository_writable (live c) owner repo) c (\<lambda>_.
     try_op (ensure_user ev 0 creator c) (\<lambda>_ c.
       let status = \<lparr>cs_id = env_fresh ev 1, cs_owner = owner, cs_repo = repo, cs_sha = sha,
                     cs_state = ccs_state request, cs_context = ccs_context request,
                     cs_base = stated_base (ccs_base request),
                     cs_description = ccs_description request,
                     cs_target_url = ccs_target_url request, cs_creator = creator,
                     cs_created_at = env_clk ev 1, cs_updated_at = env_clk ev 1\<rparr>;
           s1 = (live c)\<lparr>st_statuses := hm_append (owner, repo, sha) [status] (st_statuses (live c))\<rparr>;
           s2 = refresh_pull_mergeability_for_sha ev owner repo sha s1;
           s3 = emit_event_locked ev 2 owner repo ''status''
                  (event_payload ''created'' ''status'' (JStatus status)) s2
       in commit ev 1 s3 status c)))"

text \<open>The loop of \<^verbatim>\<open>combined_status\<close> over the \<^verbatim>\<open>BTreeMap\<close> of current rows by context.\<close>

definition current_step ::
  "commit_status \<Rightarrow> (string \<times> commit_status) list \<Rightarrow> (string \<times> commit_status) list" where
  "current_step status current =
     (let entry = (case map_of current (cs_context status) of None \<Rightarrow> status | Some e \<Rightarrow> e)
      in bt_put (cs_context status)
           (if cs_updated_at entry \<le> cs_updated_at status then status else entry) current)"

definition rollup :: "commit_status list \<Rightarrow> commit_status_state" where
  "rollup current =
     (if list_ex (\<lambda>status. cs_state status = StError) current then StError
      else if list_ex (\<lambda>status. cs_state status = StFailure) current then StFailure
      else if current = [] \<or> list_ex (\<lambda>status. cs_state status = StPending) current then StPending
      else StSuccess)"

definition combined_status :: "state \<Rightarrow> string \<Rightarrow> string \<Rightarrow> string \<Rightarrow> forge_error + combined_status" where
  "combined_status s owner repo sha =
     try_res (ensure_repo_exists s owner repo) (\<lambda>_.
       let statuses = hm_list (st_statuses s) (owner, repo, sha);
           current = fold current_step statuses []
       in Inr \<lparr>cb_state = rollup (map snd current), cb_total_count = length statuses,
               cb_statuses = statuses\<rparr>)"

definition combined_status_for_base ::
  "state \<Rightarrow> string \<Rightarrow> string \<Rightarrow> string \<Rightarrow> string \<Rightarrow> forge_error + combined_status" where
  "combined_status_for_base s owner repo sha base =
     try_res (ensure_repo_exists s owner repo) (\<lambda>_.
       let statuses = [status \<leftarrow> hm_list (st_statuses s) (owner, repo, sha).
                         status_answers_for_base status base];
           contexts = sort (remdups (map cs_context statuses));
           current = List.map_filter (\<lambda>ctx. current_status_for_base statuses ctx base) contexts
       in Inr \<lparr>cb_state = rollup current, cb_total_count = length statuses, cb_statuses = statuses\<rparr>)"

section \<open>Check runs\<close>

definition next_creation_sequence :: "check_run list \<Rightarrow> u64" where
  "next_creation_sequence runs =
     u64_succ (if runs = [] then 0 else Max (set (map ck_creation_sequence runs)))"

definition create_check_run ::
  "env \<Rightarrow> string \<Rightarrow> string \<Rightarrow> create_check_run_request \<Rightarrow> core \<Rightarrow> check_run outcome" where
  "create_check_run ev owner repo request c =
     try_pure (require_name ''check run name'' (ccr_name request)) c (\<lambda>_.
     try_pure (require_name ''head sha'' (ccr_head_sha request)) c (\<lambda>_.
     try_pure (ensure_repository_writable (live c) owner repo) c (\<lambda>_.
       let completed = (ccr_status request = Some CrCompleted \<or> ccr_conclusion request \<noteq> None);
           runs = hm_list (st_check_runs (live c)) (owner, repo);
           check_run = \<lparr>ck_id = env_fresh ev 0, ck_owner = owner, ck_repo = repo,
                        ck_name = ccr_name request, ck_head_sha = ccr_head_sha request,
                        ck_status = (case ccr_status request of
                                       Some status \<Rightarrow> status
                                     | None \<Rightarrow> if completed then CrCompleted else CrQueued),
                        ck_conclusion = ccr_conclusion request,
                        ck_details_url = ccr_details_url request, ck_output = ccr_output request,
                        ck_started_at = env_clk ev 0,
                        ck_completed_at = (if completed then Some (env_clk ev 1) else None),
                        ck_creation_sequence = next_creation_sequence runs\<rparr>;
           s1 = (live c)\<lparr>st_check_runs := hm_append (owner, repo) [check_run] (st_check_runs (live c))\<rparr>;
           s2 = refresh_pull_mergeability_for_sha ev owner repo (ck_head_sha check_run) s1;
           s3 = emit_event_locked ev 2 owner repo ''check_run''
                  (event_payload ''created'' ''check_run'' (JCheckRun check_run)) s2
       in commit ev 0 s3 check_run c)))"

definition list_check_runs ::
  "state \<Rightarrow> string \<Rightarrow> string \<Rightarrow> string option \<Rightarrow> forge_error + check_run_list" where
  "list_check_runs s owner repo head_sha =
     try_res (ensure_repo_exists s owner repo) (\<lambda>_.
       let runs = [run \<leftarrow> hm_list (st_check_runs s) (owner, repo).
                     case head_sha of None \<Rightarrow> True | Some sha \<Rightarrow> ck_head_sha run = sha]
       in Inr \<lparr>cl_total_count = length runs, cl_check_runs = runs\<rparr>)"

definition suite_status :: "check_run list \<Rightarrow> check_run_status" where
  "suite_status runs =
     (if list_all (\<lambda>run. ck_status run = CrCompleted) runs then CrCompleted
      else if list_ex (\<lambda>run. ck_status run = CrInProgress) runs then CrInProgress
      else CrQueued)"

definition suite_conclusion :: "check_run list \<Rightarrow> check_conclusion option" where
  "suite_conclusion runs =
     (if suite_status runs = CrCompleted then
        (if list_all (\<lambda>run. ck_conclusion run = Some CcSuccess) runs then Some CcSuccess
         else Some CcFailure)
      else None)"

text \<open>The groups of a \<^verbatim>\<open>HashMap\<close> come out in no specified order; here it is the order in which
  the heads first appear. The \<open>i\<close>-th suite takes the \<open>i\<close>-th fresh id.\<close>

definition group_runs :: "check_run list \<Rightarrow> (string, check_run list) hmap" where
  "group_runs runs = fold (\<lambda>run grouped. hm_append (ck_head_sha run) [run] grouped) runs []"

definition check_suites ::
  "env \<Rightarrow> state \<Rightarrow> string \<Rightarrow> string \<Rightarrow> string option \<Rightarrow> forge_error + check_suite list" where
  "check_suites ev s owner repo head_sha =
     try_res (list_check_runs s owner repo head_sha) (\<lambda>listed.
       let grouped = group_runs (cl_check_runs listed)
       in Inr (map2 (\<lambda>n (sha, runs).
                 \<lparr>su_id = env_fresh ev n, su_owner = owner, su_repo = repo, su_head_sha = sha,
                  su_status = suite_status runs, su_conclusion = suite_conclusion runs,
                  su_check_runs = runs\<rparr>) [0..<length grouped] grouped))"

definition workflow_runs :: "env \<Rightarrow> state \<Rightarrow> string \<Rightarrow> string \<Rightarrow> forge_error + workflow_run_list" where
  "workflow_runs ev s owner repo =
     try_res (check_suites ev s owner repo None) (\<lambda>suites.
       let runs = map (\<lambda>suite. \<lparr>wr_id = su_id suite, wr_name = ''Phase 2 checks'',
                    wr_head_sha = su_head_sha suite, wr_status = su_status suite,
                    wr_conclusion = su_conclusion suite, wr_check_runs = su_check_runs suite\<rparr>) suites
       in Inr \<lparr>wl_total_count = length runs, wl_workflow_runs = runs\<rparr>)"

section \<open>Webhooks\<close>

definition create_webhook ::
  "env \<Rightarrow> string \<Rightarrow> string \<Rightarrow> create_webhook_request \<Rightarrow> core \<Rightarrow> webhook outcome" where
  "create_webhook ev owner repo request c =
     try_pure (ensure_repo_exists (live c) owner repo) c (\<lambda>_.
     try_pure (require_name ''webhook url'' (wc_url (cwr_config request))) c (\<lambda>_.
       let hook = \<lparr>wh_id = env_fresh ev 0, wh_owner = owner, wh_repo = repo,
                   wh_name = cwr_name request, wh_active = cwr_active request,
                   wh_events = cwr_events request, wh_config = cwr_config request,
                   wh_created_at = env_clk ev 0, wh_updated_at = env_clk ev 0\<rparr>
       in commit ev 0
            ((live c)\<lparr>st_webhooks := hm_append (owner, repo) [hook] (st_webhooks (live c))\<rparr>) hook c))"

definition list_webhooks :: "state \<Rightarrow> string \<Rightarrow> string \<Rightarrow> forge_error + webhook list" where
  "list_webhooks s owner repo =
     try_res (ensure_repo_exists s owner repo) (\<lambda>_. Inr (hm_list (st_webhooks s) (owner, repo)))"

definition list_webhook_deliveries ::
  "state \<Rightarrow> string \<Rightarrow> string \<Rightarrow> forge_error + webhook_delivery list" where
  "list_webhook_deliveries s owner repo =
     try_res (ensure_repo_exists s owner repo) (\<lambda>_.
       Inr [d \<leftarrow> st_webhook_deliveries s. wd_owner d = owner \<and> wd_repo d = repo])"

section \<open>Facts\<close>

lemma max_list_fresh: "x \<in> set (map f xs) \<Longrightarrow> x \<le> Max (set (map f xs))"
  by simp

lemma next_creation_sequence_above:
  assumes "run \<in> set runs" and "\<forall>r \<in> set runs. ck_creation_sequence r < 2 ^ 64 - 1"
  shows "ck_creation_sequence run < next_creation_sequence runs"
proof -
  let ?m = "Max (set (map ck_creation_sequence runs))"
  have "?m \<in> set (map ck_creation_sequence runs)"
    using assms(1) by (intro Max_in) auto
  with assms(2) have "?m < 2 ^ 64 - 1" by auto
  moreover have "ck_creation_sequence run \<le> ?m" using assms(1) by simp
  moreover have "runs \<noteq> []" using assms(1) by auto
  ultimately show ?thesis
    by (simp add: next_creation_sequence_def u64_succ_small less_Suc_eq_le)
qed

lemma max_by_key_snoc_top:
  assumes "\<forall>x \<in> set xs. f x \<le> f y"
  shows "max_by_key f (xs @ [y]) = Some y"
  using assms max_by_key_in [of f xs]
  by (auto simp: max_by_key_snoc split: option.split)

text \<open>The rollup is a success exactly when there is a row and every row is one.\<close>

lemma rollup_success:
  "rollup current = StSuccess \<longleftrightarrow> current \<noteq> [] \<and> (\<forall>s \<in> set current. cs_state s = StSuccess)"
proof -
  have "cs_state s = StSuccess \<longleftrightarrow>
      cs_state s \<noteq> StError \<and> cs_state s \<noteq> StFailure \<and> cs_state s \<noteq> StPending" for s
    by (cases "cs_state s") simp_all
  then show ?thesis by (simp add: rollup_def list_ex_iff) blast
qed

lemma current_rows:
  "status \<in> set (List.map_filter (\<lambda>ctx. current_status_for_base statuses ctx base)
      (sort (remdups (map cs_context statuses)))) \<longleftrightarrow>
   (\<exists>ctx. current_status_for_base statuses ctx base = Some status)"
proof
  assume "status \<in> set (List.map_filter (\<lambda>ctx. current_status_for_base statuses ctx base)
      (sort (remdups (map cs_context statuses))))"
  then show "\<exists>ctx. current_status_for_base statuses ctx base = Some status"
    by (force simp: map_filter_def)
next
  assume "\<exists>ctx. current_status_for_base statuses ctx base = Some status"
  then obtain ctx where "current_status_for_base statuses ctx base = Some status" by blast
  with current_status_answers [OF this]
  show "status \<in> set (List.map_filter (\<lambda>ctx. current_status_for_base statuses ctx base)
      (sort (remdups (map cs_context statuses))))"
    by (force simp: map_filter_def)
qed

lemma current_status_filtered:
  "current_status_for_base [s \<leftarrow> ss. status_answers_for_base s base] ctx base =
     current_status_for_base ss ctx base"
  by (simp add: current_status_for_base_eq) (metis (mono_tags, lifting))

text \<open>The map of \<^verbatim>\<open>combined_status\<close> holds the last of the latest rows of each context.\<close>

lemma current_step_get:
  assumes "bt_ok current"
  shows "bt_ok (current_step status current)" and
    "map_of (current_step status current) ctx =
       (if cs_context status = ctx
        then (case map_of current ctx of
                None \<Rightarrow> Some status
              | Some b \<Rightarrow> if cs_updated_at b \<le> cs_updated_at status then Some status else Some b)
        else map_of current ctx)"
  using assms
  by (auto simp: current_step_def Let_def bt_put_ok bt_put_get split: option.split)

lemma current_fold:
  "bt_ok (fold current_step statuses []) \<and>
   map_of (fold current_step statuses []) ctx =
     max_by_key cs_updated_at [s \<leftarrow> statuses. cs_context s = ctx]"
proof (induction statuses rule: rev_induct)
  case Nil
  show ?case by (simp add: bt_ok_def)
next
  case (snoc s ss)
  then show ?case by (simp add: current_step_get max_by_key_snoc)
qed

text \<open>What a posted status and a created check run leave behind.\<close>

lemma create_commit_status_Inr:
  assumes "create_commit_status ev owner repo sha creator request c = (Inr status, c')"
  obtains c1 u where
    "ensure_user ev 0 creator c = (Inr u, c1)"
    and "ensure_repository_writable (live c) owner repo = Inr ()"
    and "st_statuses (live c') = hm_append (owner, repo, sha) [status] (st_statuses (live c1))"
    and "live c' = emit_event_locked ev 2 owner repo ''status''
           (event_payload ''created'' ''status'' (JStatus status))
           (refresh_pull_mergeability_for_sha ev owner repo sha
             ((live c1)\<lparr>st_statuses := hm_append (owner, repo, sha) [status] (st_statuses (live c1))\<rparr>))"
    and "cs_state status = ccs_state request" and "cs_context status = ccs_context request"
    and "cs_base status = stated_base (ccs_base request)" and "synced c'"
  using assms unfolding create_commit_status_def Let_def ok_paths
  by (elim exE conjE) (rule that; auto)

lemma create_check_run_Inr:
  assumes "create_check_run ev owner repo request c = (Inr run, c')"
  shows "ensure_repository_writable (live c) owner repo = Inr ()"
    and "live c' = emit_event_locked ev 2 owner repo ''check_run''
           (event_payload ''created'' ''check_run'' (JCheckRun run))
           (refresh_pull_mergeability_for_sha ev owner repo (ck_head_sha run)
             ((live c)\<lparr>st_check_runs := hm_append (owner, repo) [run] (st_check_runs (live c))\<rparr>))"
    and "ck_creation_sequence run = next_creation_sequence (hm_list (st_check_runs (live c)) (owner, repo))"
    and "ck_name run = ccr_name request" and "ck_head_sha run = ccr_head_sha request"
    and "synced c'"
  using assms unfolding create_check_run_def Let_def ok_paths by auto

section \<open>Properties\<close>

text \<open>
  Posting a commit status never leaves a stale gate behind: afterwards every stored pull
  request of the repository at that head carries exactly the verdict that evaluating it against
  the new state gives.
\<close>

theorem posted_status_refreshes_pulls:
  assumes "create_commit_status ev owner repo sha creator request c = (Inr status, c')"
    and "hm_ok (st_pulls (live c))"
    and "hm_get (st_pulls (live c')) (owner, repo, n) = Some pr"
    and "gr_sha (pr_head pr) = sha"
  shows "apply_evaluation (evaluate_locked ev (live c') pr None) pr = pr"
  using assms(1)
proof (rule create_commit_status_Inr)
  fix c1 u
  assume ensured: "ensure_user ev 0 creator c = (Inr u, c1)"
    and state: "live c' = emit_event_locked ev 2 owner repo ''status''
           (event_payload ''created'' ''status'' (JStatus status))
           (refresh_pull_mergeability_for_sha ev owner repo sha
             ((live c1)\<lparr>st_statuses := hm_append (owner, repo, sha) [status] (st_statuses (live c1))\<rparr>))"
  let ?s = "(live c1)\<lparr>st_statuses := hm_append (owner, repo, sha) [status] (st_statuses (live c1))\<rparr>"
  have "st_pulls (live c1) = st_pulls (live c)"
    using ensure_user_cases [of ev 0 creator c] ensured by auto
  with assms(2-4) state refresh_fresh [of ?s ev owner repo sha n pr]
  have "pr = reevaluated ev ?s pr" by simp
  moreover have "reevaluated ev (live c') pr = reevaluated ev ?s pr" by (simp add: state)
  ultimately have "reevaluated ev (live c') pr = pr" by simp
  then show ?thesis by (simp add: reevaluated_def)
qed

theorem posted_status_refreshes_pulls_witness:
  "\<exists>status c' pr. create_commit_status ex_env ''acme'' ''core'' ''h1'' ''ci''
         \<lparr>ccs_state = StFailure, ccs_context = ''ci'', ccs_base = None, ccs_description = None,
          ccs_target_url = None\<rparr> ex_core = (Inr status, c') \<and>
     hm_get (st_pulls (live c')) (''acme'', ''core'', 1) = Some pr \<and>
     apply_evaluation (evaluate_locked ex_env (live c') pr None) pr = pr"
proof -
  let ?request = "\<lparr>ccs_state = StFailure, ccs_context = ''ci'', ccs_base = None,
    ccs_description = None, ccs_target_url = None\<rparr>"
  obtain status c' where made:
    "create_commit_status ex_env ''acme'' ''core'' ''h1'' ''ci'' ?request ex_core = (Inr status, c')"
    by (simp add: create_commit_status_def ensure_user_def get_user_def require_name_def str_simps
        Let_def)
  obtain pr where pull: "hm_get (st_pulls (live c')) (''acme'', ''core'', 1) = Some pr"
    and head: "gr_sha (pr_head pr) = ''h1''"
    using made
    by (auto simp: create_commit_status_def ensure_user_def get_user_def require_name_def str_simps
        refresh_pulls hm_ok_def Let_def ex_pull_def ex_ref_def)
  have "hm_ok (st_pulls (live ex_core))" by (simp add: hm_ok_def)
  from posted_status_refreshes_pulls [OF made this pull head] made pull show ?thesis by blast
qed

text \<open>
  The per-base rollup and the merge gate agree: \<^verbatim>\<open>combined_status_for_base\<close> reports success
  exactly when some row answers for the base and the row the gate selects for every context
  that has one is a success.
\<close>

theorem combined_status_agrees_with_gate:
  assumes "combined_status_for_base s owner repo sha base = Inr combined"
  shows "cb_state combined = StSuccess \<longleftrightarrow>
    (\<exists>status \<in> set (hm_list (st_statuses s) (owner, repo, sha)). status_answers_for_base status base) \<and>
    (\<forall>ctx status.
       current_status_for_base (hm_list (st_statuses s) (owner, repo, sha)) ctx base = Some status \<longrightarrow>
       cs_state status = StSuccess)"
proof -
  let ?all = "hm_list (st_statuses s) (owner, repo, sha)"
  let ?ss = "[status \<leftarrow> ?all. status_answers_for_base status base]"
  let ?rows = "List.map_filter (\<lambda>ctx. current_status_for_base ?ss ctx base)
    (sort (remdups (map cs_context ?ss)))"
  have state: "cb_state combined = rollup ?rows"
    using assms by (auto simp: combined_status_for_base_def ok_paths Let_def)
  have rows: "status \<in> set ?rows \<longleftrightarrow> (\<exists>ctx. current_status_for_base ?all ctx base = Some status)" for status
    using current_rows [of status ?ss base] by (simp only: current_status_filtered)
  have "(\<exists>ctx status. current_status_for_base ?all ctx base = Some status) \<longleftrightarrow>
      (\<exists>status \<in> set ?all. status_answers_for_base status base)"
    by (metis current_status_None not_Some_eq)
  then have "?rows \<noteq> [] \<longleftrightarrow> (\<exists>status \<in> set ?all. status_answers_for_base status base)"
    using rows by (metis list.set_intros(1) neq_Nil_conv empty_iff list.set(1))
  with rows show ?thesis unfolding state rollup_success by blast
qed

theorem combined_status_agrees_with_gate_witness:
  "\<exists>combined. combined_status_for_base
      (ex_state\<lparr>st_statuses := [((''acme'', ''core'', ''h1''), [ex_status ''ci'' None StSuccess 1])]\<rparr>)
      ''acme'' ''core'' ''h1'' ''main'' = Inr combined \<and> cb_state combined = StSuccess"
proof -
  let ?s = "ex_state\<lparr>st_statuses := [((''acme'', ''core'', ''h1''), [ex_status ''ci'' None StSuccess 1])]\<rparr>"
  obtain combined where got:
    "combined_status_for_base ?s ''acme'' ''core'' ''h1'' ''main'' = Inr combined"
    by (simp add: combined_status_for_base_def ensure_repo_exists_def canonical_repository_def
        Let_def)
  from combined_status_agrees_with_gate [OF got] have "cb_state combined = StSuccess"
    by (auto simp: hm_list_def status_answers_for_base_def ex_status_def current_status_for_base_def
        split: if_splits)
  with got show ?thesis by blast
qed

text \<open>
  The check run created last decides: as long as the sequence has not reached the top of
  \<^verbatim>\<open>u64\<close>, the run a create returns is the one \<^verbatim>\<open>CheckRun::newest\<close> picks among the runs of its
  name at its head, whatever the clock said.
\<close>

theorem created_check_run_is_newest:
  assumes "create_check_run ev owner repo request c = (Inr run, c')"
    and "\<forall>r \<in> set (hm_list (st_check_runs (live c)) (owner, repo)). ck_creation_sequence r < 2 ^ 64 - 1"
  shows "check_run_newest
     [r \<leftarrow> hm_list (st_check_runs (live c')) (owner, repo).
        ck_head_sha r = ck_head_sha run \<and> ck_name r = ck_name run] = Some run"
proof -
  let ?runs = "hm_list (st_check_runs (live c)) (owner, repo)"
  let ?mine = "[r \<leftarrow> ?runs. ck_head_sha r = ck_head_sha run \<and> ck_name r = ck_name run]"
  have after: "hm_list (st_check_runs (live c')) (owner, repo) = ?runs @ [run]"
    using create_check_run_Inr(2) [OF assms(1)] by simp
  have "\<forall>r \<in> set ?mine. recency_key r \<le> recency_key run"
    using next_creation_sequence_above [OF _ assms(2)] create_check_run_Inr(3) [OF assms(1)]
    by (simp add: recency_key_def less_eq_prod_def)
  from max_by_key_snoc_top [OF this] show ?thesis
    by (simp add: check_run_newest_def after)
qed

theorem created_check_run_is_newest_witness:
  "\<exists>run c'. create_check_run ex_env ''acme'' ''core''
      \<lparr>ccr_name = ''ci'', ccr_head_sha = ''h1'', ccr_status = None, ccr_conclusion = Some CcSuccess,
       ccr_details_url = None, ccr_output = None\<rparr> ex_core = (Inr run, c') \<and>
    check_run_newest [r \<leftarrow> hm_list (st_check_runs (live c')) (''acme'', ''core'').
      ck_head_sha r = ck_head_sha run \<and> ck_name r = ck_name run] = Some run"
proof -
  let ?request = "\<lparr>ccr_name = ''ci'', ccr_head_sha = ''h1'', ccr_status = None,
    ccr_conclusion = Some CcSuccess, ccr_details_url = None, ccr_output = None\<rparr>"
  obtain run c' where made: "create_check_run ex_env ''acme'' ''core'' ?request ex_core = (Inr run, c')"
    by (simp add: create_check_run_def require_name_def str_simps Let_def)
  from created_check_run_is_newest [OF this] made show ?thesis
    by (auto simp: hm_list_def)
qed

end
