(* ===== verification/Issues.thy ===== *)
theory Issues
  imports Accounts
begin

text \<open>
  Issues and their comments (\<^verbatim>\<open>engine/issues.rs\<close>) and README texts (\<^verbatim>\<open>engine/readmes.rs\<close>). An
  operation that names an author first creates the user (write 0), then makes its own write
  (write 1); deliveries take the ids and clock readings from 2 on.
\<close>

section \<open>Issues\<close>

definition create_issue ::
  "env \<Rightarrow> string \<Rightarrow> string \<Rightarrow> string \<Rightarrow> create_issue_request \<Rightarrow> core \<Rightarrow> issue outcome" where
  "create_issue ev owner repo author request c =
     try_pure (require_name ''issue title'' (cir_title request)) c (\<lambda>_.
     try_pure (ensure_repo_exists (live c) owner repo) c (\<lambda>_.
     try_op (ensure_user ev 0 author c) (\<lambda>_ c.
       case next_record_number owner repo (live c) of
         (number, s1) \<Rightarrow>
           let issue = \<lparr>is_id = env_fresh ev 1, is_owner = owner, is_repo = repo,
                        is_number = number, is_title = cir_title request,
                        is_body = cir_body request, is_state = IssueOpen, is_author = author,
                        is_labels = cir_labels request, is_assignees = cir_assignees request,
                        is_milestone = cir_milestone request, is_comments = 0,
                        is_pull_request = None, is_created_at = env_clk ev 1,
                        is_updated_at = env_clk ev 1, is_closed_at = None\<rparr>;
               s2 = s1\<lparr>st_issues := hm_put (owner, repo, number) issue (st_issues s1)\<rparr>;
               s3 = emit_event_locked ev 2 owner repo ''issues''
                      (event_payload ''opened'' ''issue'' (JIssue issue)) s2
           in commit ev 1 s3 issue c)))"

definition list_issues ::
  "state \<Rightarrow> string \<Rightarrow> string \<Rightarrow> issue_state option \<Rightarrow> forge_error + issue list" where
  "list_issues s owner repo state_filter =
     try_res (ensure_repo_exists s owner repo) (\<lambda>_.
       Inr (sort_key is_number
         [i \<leftarrow> hm_values (st_issues s). is_owner i = owner \<and> is_repo i = repo \<and>
            (case state_filter of None \<Rightarrow> True | Some wanted \<Rightarrow> is_state i = wanted)]))"

definition issue_not_found :: "string \<Rightarrow> string \<Rightarrow> u64 \<Rightarrow> forge_error" where
  "issue_not_found owner repo number = NotFound (''issue '' @ record_name owner repo number)"

definition get_issue :: "state \<Rightarrow> string \<Rightarrow> string \<Rightarrow> u64 \<Rightarrow> forge_error + issue" where
  "get_issue s owner repo number =
     ok_or (hm_get (st_issues s) (owner, repo, number)) (issue_not_found owner repo number)"

text \<open>
  \<^verbatim>\<open>update_issue\<close> edits the stored issue in place, but the only refusal after the lookup comes
  before the first edit. Of its clock readings the closing instant is the first.
\<close>

definition edited_issue :: "env \<Rightarrow> update_issue_request \<Rightarrow> issue \<Rightarrow> issue" where
  "edited_issue ev request i =
     (let i = (case uir_title request of None \<Rightarrow> i | Some title \<Rightarrow> i\<lparr>is_title := title\<rparr>);
          i = (if uir_body request \<noteq> None then i\<lparr>is_body := uir_body request\<rparr> else i);
          i = (case uir_labels request of None \<Rightarrow> i | Some labels \<Rightarrow> i\<lparr>is_labels := labels\<rparr>);
          i = (case uir_assignees request of None \<Rightarrow> i | Some assignees \<Rightarrow> i\<lparr>is_assignees := assignees\<rparr>);
          i = (if uir_milestone request \<noteq> None then i\<lparr>is_milestone := uir_milestone request\<rparr> else i);
          i = (case uir_state request of
                 None \<Rightarrow> i
               | Some new_state \<Rightarrow>
                   i\<lparr>is_state := new_state,
                     is_closed_at := (if new_state = IssueClosed then Some (env_clk ev 0) else None)\<rparr>)
      in i\<lparr>is_updated_at := env_clk ev 1\<rparr>)"

definition issue_action :: "update_issue_request \<Rightarrow> string" where
  "issue_action request =
     (case uir_state request of
        None \<Rightarrow> ''edited'' | Some IssueOpen \<Rightarrow> ''reopened'' | Some IssueClosed \<Rightarrow> ''closed'')"

definition update_issue ::
  "env \<Rightarrow> string \<Rightarrow> string \<Rightarrow> u64 \<Rightarrow> update_issue_request \<Rightarrow> core \<Rightarrow> issue outcome" where
  "update_issue ev owner repo number request c =
     try_pure (get_issue (live c) owner repo number) c (\<lambda>i.
     try_pure (case uir_title request of
                 None \<Rightarrow> Inr () | Some title \<Rightarrow> require_name ''issue title'' title) c (\<lambda>_.
       let updated = edited_issue ev request i;
           s1 = (live c)\<lparr>st_issues := hm_put (owner, repo, number) updated (st_issues (live c))\<rparr>;
           s2 = emit_event_locked ev 2 owner repo ''issues''
                  (event_payload (issue_action request) ''issue'' (JIssue updated)) s1
       in commit ev 0 s2 updated c))"

definition add_issue_comment ::
  "env \<Rightarrow> string \<Rightarrow> string \<Rightarrow> u64 \<Rightarrow> string \<Rightarrow> string \<Rightarrow> core \<Rightarrow> issue_comment outcome" where
  "add_issue_comment ev owner repo number author body c =
     try_pure (require_name ''comment body'' body) c (\<lambda>_.
     try_op (ensure_user ev 0 author c) (\<lambda>_ c.
     try_pure (get_issue (live c) owner repo number) c (\<lambda>i.
       let updated = i\<lparr>is_comments := u64_succ (is_comments i), is_updated_at := env_clk ev 1\<rparr>;
           comment = \<lparr>ic_id = env_fresh ev 1, ic_owner = owner, ic_repo = repo,
                      ic_issue_number = number, ic_author = author, ic_body = body,
                      ic_created_at = env_clk ev 2, ic_updated_at = env_clk ev 3\<rparr>;
           s1 = (live c)\<lparr>st_issues := hm_put (owner, repo, number) updated (st_issues (live c)),
                         st_issue_comments :=
                           hm_append (owner, repo, number) [comment] (st_issue_comments (live c))\<rparr>;
           s2 = emit_event_locked ev 4 owner repo ''issue_comment''
                  (event_payload ''created'' ''comment'' (JIssueComment comment)) s1
       in commit ev 1 s2 comment c)))"

definition list_issue_comments ::
  "state \<Rightarrow> string \<Rightarrow> string \<Rightarrow> u64 \<Rightarrow> forge_error + issue_comment list" where
  "list_issue_comments s owner repo number =
     try_res (get_issue s owner repo number) (\<lambda>_.
       Inr (hm_list (st_issue_comments s) (owner, repo, number)))"

section \<open>README texts\<close>

definition get_repository_readme :: "state \<Rightarrow> string \<Rightarrow> string \<Rightarrow> forge_error + string option" where
  "get_repository_readme s owner repo =
     try_res (ensure_repo_exists s owner repo) (\<lambda>_. Inr (hm_get (st_readmes s) (owner, repo)))"

definition set_repository_readme ::
  "env \<Rightarrow> string \<Rightarrow> string \<Rightarrow> string \<Rightarrow> core \<Rightarrow> string outcome" where
  "set_repository_readme ev owner repo markdown c =
     try_pure (ensure_repo_exists (live c) owner repo) c (\<lambda>_.
       commit ev 0 ((live c)\<lparr>st_readmes := hm_put (owner, repo) markdown (st_readmes (live c))\<rparr>)
         markdown c)"

definition readme_or_default :: "state \<Rightarrow> string \<Rightarrow> string \<Rightarrow> string \<Rightarrow> forge_error + string" where
  "readme_or_default s owner repo default_text =
     try_res (get_repository_readme s owner repo) (\<lambda>readme.
       Inr (case readme of None \<Rightarrow> default_text | Some text \<Rightarrow> text))"

end
