(* ===== verification/Durability.thy ===== *)
theory Durability
  imports Merging Statuses Issues
begin

text \<open>
  Every operation leaves the disk in agreement with the live state, and the operations that make
  one write leave everything as it was when they fail.
\<close>

named_theorems synced_ops \<open>operations that keep the disk in agreement with the live state\<close>

section \<open>The disk agrees\<close>

lemmas synced_intros = disk.pure_keeps [simplified] disk.op_keeps [simplified]

lemma commit_with_audit_synced [simp]:
  "synced c \<Longrightarrow> synced (snd (commit_with_audit ev n entry s x c))"
  by (cases "storage c"; cases "env_fault ev n") (simp_all add: commit_with_audit_def synced_def)

lemma create_user_synced [synced_ops]: "synced c \<Longrightarrow> synced (snd (create_user ev n request c))"
  using create_user_cases [of ev n request c] by auto

lemma ensure_user_synced [synced_ops]: "synced c \<Longrightarrow> synced (snd (ensure_user ev n login c))"
  using ensure_user_cases [of ev n login c] by auto

lemma create_organization_synced [synced_ops]:
  "synced c \<Longrightarrow> synced (snd (create_organization ev request c))"
  unfolding create_organization_def Let_def by (auto intro!: synced_intros)

lemma create_team_synced [synced_ops]: "synced c \<Longrightarrow> synced (snd (create_team ev org request c))"
  unfolding create_team_def Let_def by (auto intro!: synced_intros)

lemma create_commit_status_synced [synced_ops]:
  "synced c \<Longrightarrow> synced (snd (create_commit_status ev owner repo sha creator request c))"
  unfolding create_commit_status_def Let_def
  by (auto intro!: synced_intros simp: synced_ops)

lemma create_check_run_synced [synced_ops]:
  "synced c \<Longrightarrow> synced (snd (create_check_run ev owner repo request c))"
  unfolding create_check_run_def Let_def by (auto intro!: synced_intros)

lemma create_webhook_synced [synced_ops]:
  "synced c \<Longrightarrow> synced (snd (create_webhook ev owner repo request c))"
  unfolding create_webhook_def Let_def by (auto intro!: synced_intros)

lemma create_issue_synced [synced_ops]:
  "synced c \<Longrightarrow> synced (snd (create_issue ev owner repo author request c))"
  unfolding create_issue_def Let_def
  by (auto intro!: synced_intros simp: synced_ops split: prod.split)

lemma update_issue_synced [synced_ops]:
  "synced c \<Longrightarrow> synced (snd (update_issue ev owner repo number request c))"
  unfolding update_issue_def Let_def by (auto intro!: synced_intros)

lemma add_issue_comment_synced [synced_ops]:
  "synced c \<Longrightarrow> synced (snd (add_issue_comment ev owner repo number author body c))"
  unfolding add_issue_comment_def Let_def by (auto intro!: synced_intros simp: synced_ops)

lemma set_repository_readme_synced [synced_ops]:
  "synced c \<Longrightarrow> synced (snd (set_repository_readme ev owner repo markdown c))"
  unfolding set_repository_readme_def by (auto intro!: synced_intros)

lemma create_repository_synced [synced_ops]:
  "synced c \<Longrightarrow> synced (snd (create_repository ev materializer owner request c))"
  unfolding create_repository_def Let_def
  by (cases materializer) (auto intro!: synced_intros)

lemma set_repository_family_synced [synced_ops]:
  "synced c \<Longrightarrow> synced (snd (set_repository_family ev owner repo family c))"
  unfolding set_repository_family_def Let_def by (auto intro!: synced_intros)

lemma write_repository_archived_synced [synced_ops]:
  "synced c \<Longrightarrow> synced (snd (write_repository_archived ev n owner repo archived c))"
  unfolding write_repository_archived_def Let_def by (auto intro!: synced_intros)

lemma set_repository_archived_synced [synced_ops]:
  assumes "synced c"
  shows "synced (snd (set_repository_archived ev actor owner repo archived c))"
proof -
  have tail: "synced (snd (case write_repository_archived ev n owner repo archived c' of
      (result, c) \<Rightarrow> try_op (append_audit_as ev m actor action subject (phase result) detail c)
        (\<lambda>_. Pair result)))"
    if "synced c'" for c' action subject detail phase n m archived
    using write_repository_archived_synced [OF that, of ev n owner repo archived]
    by (cases "write_repository_archived ev n owner repo archived c'") (auto intro!: synced_intros)
  show ?thesis
    unfolding set_repository_archived_def Let_def
    by (cases archived) (auto intro!: synced_intros tail simp: assms)
qed

lemma record_repository_push_synced [synced_ops]:
  "synced c \<Longrightarrow> synced (snd (record_repository_push ev owner repo at c))"
  unfolding record_repository_push_def Let_def by (auto intro!: synced_intros)

lemma write_default_branch_synced [synced_ops]:
  "synced c \<Longrightarrow> synced (snd (write_default_branch ev owner repo branch c))"
  unfolding write_default_branch_def Let_def by (auto intro!: synced_intros)

lemma append_audit_synced' [simp]:
  "synced (snd (append_audit ev n action subject phase detail c)) = synced c"
  by (simp add: append_audit_def)

lemma opt_out_synced [synced_ops]:
  "synced c \<Longrightarrow> synced (snd (set_default_branch_protection_opt_out ev actor owner repo opt_out c))"
  unfolding set_default_branch_protection_opt_out_def Let_def by (auto intro!: synced_intros)

lemma delete_repository_synced [synced_ops]:
  "synced c \<Longrightarrow> synced (snd (delete_repository ev owner repo c))"
  unfolding delete_repository_def by (auto intro!: synced_intros)

lemma create_label_synced [synced_ops]:
  "synced c \<Longrightarrow> synced (snd (create_label ev owner repo request c))"
  unfolding create_label_def Let_def by (auto intro!: synced_intros)

lemma set_branch_protection_synced [synced_ops]:
  "synced c \<Longrightarrow> synced (snd (set_branch_protection ev owner repo branch request c))"
  unfolding set_branch_protection_def Let_def by (auto intro!: synced_intros)

lemma delete_branch_protection_synced [synced_ops]:
  "synced c \<Longrightarrow> synced (snd (delete_branch_protection ev actor owner repo branch c))"
  unfolding delete_branch_protection_def Let_def by (auto intro!: synced_intros)

lemma audit_rekeys_synced: "synced c \<Longrightarrow> synced (snd (audit_rekeys ev actor changes n c))"
  by (induction changes arbitrary: n c) (auto intro!: synced_intros split: prod.split)

lemma rekey_synced [synced_ops]:
  "synced c \<Longrightarrow> synced (snd (rekey_encoded_branch_protections ev actor branches g c))"
  unfolding rekey_encoded_branch_protections_def Let_def
  by (auto intro!: synced_intros audit_rekeys_synced split: prod.split)

lemma set_codeowners_synced [synced_ops]:
  "synced c \<Longrightarrow> synced (snd (set_codeowners ev owner repo contents c))"
  unfolding set_codeowners_def by (auto intro!: synced_intros)

lemma record_review_synced:
  "synced c \<Longrightarrow> synced (snd (record_review ev owner repo number author request dismissed c))"
  unfolding record_review_def Let_def by (auto intro!: synced_intros)

lemma create_review_synced [synced_ops]:
  "synced c \<Longrightarrow> synced (snd (create_review ev owner repo number author request c))"
  by (simp add: create_review_def record_review_synced)

lemma dismiss_review_synced [synced_ops]:
  assumes "synced c"
  shows "synced (snd (dismiss_review ev owner repo number actor request c))"
proof -
  let ?r = "record_review ev owner repo number actor
    \<lparr>crr_body = Some (drr_reason request), crr_event = Dismissed, crr_comments = [],
     crr_expected_head_sha = Some (drr_expected_head_sha request)\<rparr> (Some (drr_review_id request)) c"
  have "synced (snd ?r)" using assms by (rule record_review_synced)
  then show ?thesis
    using assms unfolding dismiss_review_def Let_def
    by (cases ?r; cases "fst ?r") (auto split: option.split)
qed

lemma prepare_inner_synced:
  "synced c \<Longrightarrow> synced (snd (prepare_merge_override_inner ev owner repo number request c))"
  unfolding prepare_merge_override_inner_def Let_def by (auto intro!: synced_intros)

lemma prepare_synced [synced_ops]:
  assumes "synced c"
  shows "synced (snd (prepare_merge_override ev owner repo number request c))"
  using prepare_inner_synced [OF assms, of ev owner repo number request]
  by (cases "prepare_merge_override_inner ev owner repo number request c";
      cases "fst (prepare_merge_override_inner ev owner repo number request c)")
    (auto simp: prepare_merge_override_def)

lemma create_pull_request_synced [synced_ops]:
  "synced c \<Longrightarrow> synced (snd (create_pull_request ev owner repo author request c))"
  unfolding create_pull_request_def Let_def
  by (auto intro!: synced_intros simp: synced_ops split: prod.split)

lemma update_pull_request_synced [synced_ops]:
  "synced c \<Longrightarrow> synced (snd (update_pull_request ev owner repo number request c))"
  unfolding update_pull_request_def Let_def by (auto intro!: synced_intros)

lemma refresh_heads_synced [synced_ops]:
  "synced c \<Longrightarrow> synced (snd (refresh_pull_request_heads_with_identity ev owner repo ref_name head_sha
     evidence c))"
  unfolding refresh_pull_request_heads_with_identity_def Let_def
  by (auto intro!: synced_intros split: prod.split)

lemma refresh_for_ref_synced [synced_ops]:
  "synced c \<Longrightarrow> synced (snd (refresh_pull_request_heads_for_ref ev owner repo ref_name head_sha c))"
  by (simp add: refresh_pull_request_heads_for_ref_def synced_ops)

lemma refresh_with_diff_synced [synced_ops]:
  "synced c \<Longrightarrow> synced (snd (refresh_pull_request_heads_for_ref_with_diff ev owner repo ref_name
     head_sha base_sha ids c))"
  unfolding refresh_pull_request_heads_for_ref_with_diff_def
  by (auto intro!: synced_intros simp: synced_ops)

lemma refresh_from_git_synced [synced_ops]:
  "synced c \<Longrightarrow> synced (snd (refresh_pull_request_heads_from_git ev git owner repo path ref_name
     head_sha base_sha c))"
  unfolding refresh_pull_request_heads_from_git_def
  by (auto intro!: synced_intros simp: synced_ops split: prod.split)

lemma retarget_synced [synced_ops]:
  "synced c \<Longrightarrow> synced (snd (retarget_pull_request ev branches g actor owner repo number request c))"
  unfolding retarget_pull_request_def Let_def by (auto intro!: synced_intros)

lemma record_base_synced [synced_ops]:
  "synced c \<Longrightarrow> synced (snd (record_pull_request_base ev actor owner repo number head_sha base_sha c))"
  unfolding record_pull_request_base_def Let_def by (auto intro!: synced_intros)

lemma finalize_checked_synced [synced_ops]:
  "synced c \<Longrightarrow> synced (snd (finalize_merge_checked ev owner repo number binding permit c))"
  unfolding finalize_merge_checked_def Let_def
  by (cases permit) (auto intro!: synced_intros)

lemma finalize_merge_synced [synced_ops]:
  "synced c \<Longrightarrow> synced (snd (finalize_merge ev owner repo number merge_sha requested base c))"
  by (simp add: finalize_merge_def synced_ops)

lemma finalize_override_synced [synced_ops]:
  assumes "synced c"
  shows "synced (snd (finalize_merge_with_override ev permit merge_sha c))"
proof -
  let ?m = "finalize_merge_checked ev (mp_owner permit) (mp_repo permit) (mp_number permit)
     \<lparr>fb_merge_sha = merge_sha, fb_requested_sha = Some (mp_head_sha permit),
      fb_base = \<lparr>mb_base_ref = bp_branch (mp_protection permit), mb_base_sha = mp_base_sha permit\<rparr>\<rparr>
     (Some permit) c"
  let ?a = "\<lambda>e. append_audit_as ev 6 (mp_actor permit) ''pull.merge_override'' (permit_subject permit)
     ''failed'' (JObj (permit_audit_fields permit None @ [(''error'', JError e)])) (snd ?m)"
  have m: "synced (snd ?m)" using assms by (rule finalize_checked_synced)
  show ?thesis
  proof (cases "fst ?m")
    case (Inr r)
    with m show ?thesis by (cases ?m) (simp add: finalize_merge_with_override_def)
  next
    case (Inl e)
    from m have "synced (snd (?a e))" by simp
    with Inl m show ?thesis
      by (cases ?m; cases "?a e"; cases "fst (?a e)")
        (simp_all add: finalize_merge_with_override_def)
  qed
qed

lemma merge_pull_request_synced [synced_ops]:
  "synced c \<Longrightarrow> synced (snd (merge_pull_request ev owner repo number request c))"
  unfolding merge_pull_request_def
  by (auto intro!: synced_intros simp: synced_ops split: merge_readiness.split)

section \<open>A failed operation changes nothing\<close>

text \<open>
  The operations whose only write is their last step. An error of one of them, whether a refusal
  or a failed write, leaves memory and disk exactly as they were.
\<close>

definition kept_on_error :: "core \<Rightarrow> 'a outcome \<Rightarrow> bool" where
  "kept_on_error c m = (case fst m of Inl _ \<Rightarrow> snd m = c | Inr _ \<Rightarrow> True)"

lemma kept_pure: "(\<And>x. r = Inr x \<Longrightarrow> kept_on_error c (k x)) \<Longrightarrow> kept_on_error c (try_pure r c k)"
  by (cases r) (simp_all add: kept_on_error_def)

lemma kept_commit: "kept_on_error c (commit ev n s x c)"
  by (simp add: commit_eq kept_on_error_def)

lemma kept_commit_audit: "kept_on_error c (commit_with_audit ev n entry s x c)"
  by (cases "storage c"; cases "env_fault ev n") (simp_all add: commit_with_audit_def kept_on_error_def)

lemma kept_same: "kept_on_error c (r, c)"
  by (cases r) (simp_all add: kept_on_error_def)

named_theorems kept_ops \<open>operations that change nothing when they fail\<close>

lemmas kept_intros = kept_pure kept_commit kept_commit_audit kept_same

lemma create_check_run_kept [kept_ops]: "kept_on_error c (create_check_run ev owner repo request c)"
  unfolding create_check_run_def Let_def by (intro kept_intros)

lemma update_issue_kept [kept_ops]: "kept_on_error c (update_issue ev owner repo number request c)"
  unfolding update_issue_def Let_def by (intro kept_intros)

lemma create_webhook_kept [kept_ops]: "kept_on_error c (create_webhook ev owner repo request c)"
  unfolding create_webhook_def Let_def by (intro kept_intros)

lemma delete_repository_kept [kept_ops]: "kept_on_error c (delete_repository ev owner repo c)"
  unfolding delete_repository_def by (intro kept_intros)

lemma set_branch_protection_kept [kept_ops]: "kept_on_error c (set_branch_protection ev owner repo branch request c)"
  unfolding set_branch_protection_def Let_def by (intro kept_intros)

lemma update_pull_request_kept [kept_ops]: "kept_on_error c (update_pull_request ev owner repo number request c)"
  unfolding update_pull_request_def Let_def by (intro kept_intros)

lemma refresh_heads_kept [kept_ops]:
  "kept_on_error c
     (refresh_pull_request_heads_with_identity ev owner repo ref_name head_sha evidence c)"
  unfolding refresh_pull_request_heads_with_identity_def Let_def
  by (auto intro!: kept_intros split: prod.split)

lemma retarget_kept [kept_ops]:
  "kept_on_error c (retarget_pull_request ev branches g actor owner repo number request c)"
  unfolding retarget_pull_request_def Let_def by (auto intro!: kept_intros)

lemma finalize_checked_kept [kept_ops]:
  "kept_on_error c (finalize_merge_checked ev owner repo number binding permit c)"
  unfolding finalize_merge_checked_def Let_def by (cases permit) (auto intro!: kept_intros)

lemma create_organization_kept [kept_ops]: "kept_on_error c (create_organization ev request c)"
  unfolding create_organization_def Let_def by (auto intro!: kept_intros)

lemma create_team_kept [kept_ops]: "kept_on_error c (create_team ev org request c)"
  unfolding create_team_def Let_def by (auto intro!: kept_intros)

lemma create_label_kept [kept_ops]: "kept_on_error c (create_label ev owner repo request c)"
  unfolding create_label_def Let_def by (auto intro!: kept_intros)

lemma set_repository_readme_kept [kept_ops]:
  "kept_on_error c (set_repository_readme ev owner repo markdown c)"
  unfolding set_repository_readme_def by (auto intro!: kept_intros)

lemma set_repository_family_kept [kept_ops]:
  "kept_on_error c (set_repository_family ev owner repo family c)"
  unfolding set_repository_family_def Let_def by (intro kept_intros)

lemma record_repository_push_kept [kept_ops]:
  "kept_on_error c (record_repository_push ev owner repo at c)"
  unfolding record_repository_push_def Let_def by (auto intro!: kept_intros)

lemma set_codeowners_kept [kept_ops]: "kept_on_error c (set_codeowners ev owner repo contents c)"
  unfolding set_codeowners_def by (intro kept_intros)

end
