(* ===== verification/Bot_Failures.thy ===== *)
theory Bot_Failures
  imports Forge_Types
begin

text \<open>
  The repair texts bot failures carry (\<^verbatim>\<open>BotFailure\<close>, \<^verbatim>\<open>explain_bot\<close> and \<^verbatim>\<open>machine_text\<close> of
  \<^verbatim>\<open>engine/bots.rs\<close>): an error is classified, and the repair of its class is appended to the part of
  its message that callers match on.
\<close>

datatype bot_failure =
  InvalidEnrollment | InvalidCredential | BfConflict | NotGranted | BfMissing | BfStorage | Benign

record bot_failure_repair =
  fr_purpose :: string
  fr_reason :: string
  fr_common_fixes :: string
  fr_docs_url :: string
  fr_repair_hint :: string

definition INVALID :: string where
  "INVALID = ''invalid bot credential''"

text \<open>\<^verbatim>\<open>split_once\<close> with a string: the parts around its first occurrence.\<close>

fun split_at_text :: "string \<Rightarrow> string \<Rightarrow> (string \<times> string) option" where
  "split_at_text sep s =
     (if starts_with s sep then Some ([], drop (length sep) s)
      else case s of
        [] \<Rightarrow> None
      | c # cs \<Rightarrow> map_option (\<lambda>(a, b). (c # a, b)) (split_at_text sep cs))"

declare split_at_text.simps [simp del]

definition machine_text :: "string \<Rightarrow> string" where
  "machine_text message =
     (case split_at_text '' purpose:'' message of Some (head, _) \<Rightarrow> head | None \<Rightarrow> message)"

text \<open>A panic is no error value, so it has no class of its own.\<close>

fun classify :: "forge_error \<Rightarrow> bot_failure" where
  "classify (Validation message) =
     (if machine_text message = INVALID then InvalidCredential else InvalidEnrollment)"
| "classify (Conflict _) = BfConflict"
| "classify (Forbidden _) = NotGranted"
| "classify (BranchProtection _) = NotGranted"
| "classify (RepositoryArchived _) = NotGranted"
| "classify (NotFound _) = BfMissing"
| "classify (Storage _) = BfStorage"
| "classify (StoreCustody _) = BfStorage"
| "classify WaitlistFull = Benign"
| "classify (Panicked _) = Benign"

primrec repair :: "bot_failure \<Rightarrow> bot_failure_repair" where
  "repair InvalidEnrollment =
     \<lparr>fr_purpose = ''enroll or rotate a Grokbot or Musebot credential'',
      fr_reason = ''the slug, display name, kind, reach, or key environment is rejected, ''
        @ ''or the account cannot authenticate'',
      fr_common_fixes = ''use a login-shaped slug; keep the display name within 80 characters; ''
        @ ''choose general reach, 1 to 20 owners, at most 100 repositories, or one ''
        @ ''issue, pull, or branch; a kind matches ^[a-z][a-z0-9-]{0,31}$'',
      fr_docs_url = ''docs/errors.md#bot-enrollment'',
      fr_repair_hint = ''rerun cargo test -p jeryu-core --lib core::bots::tests''\<rparr>"
| "repair InvalidCredential =
     \<lparr>fr_purpose = ''exchange an enrollment key or rotate a refresh token'',
      fr_reason = ''the credential is not a current enrollment key or an unused refresh ''
        @ ''token for an active Grokbot or Musebot'',
      fr_common_fixes = ''present the one-time enrollment key or the latest refresh token; do ''
        @ ''not send either as a bearer; a reused refresh token revokes the family'',
      fr_docs_url = ''docs/errors.md#bot-credential'',
      fr_repair_hint = ''rerun cargo test -p jeryu-core --lib core::bots::tests''\<rparr>"
| "repair BfConflict =
     \<lparr>fr_purpose = ''keep one slug and one idempotent body per account'',
      fr_reason = ''this account already has that slug, or the idempotency key was ''
        @ ''replayed with a different body'',
      fr_common_fixes = ''choose another slug, or resend the original request body with the same ''
        @ ''idempotency key'',
      fr_docs_url = ''docs/errors.md#bot-conflict'',
      fr_repair_hint = ''rerun cargo test -p jeryu-core --lib core::bots::tests''\<rparr>"
| "repair NotGranted =
     \<lparr>fr_purpose = ''authorize a Grokbot or Musebot inside the owner''
        @ [CHR 0x27]
        @ ''s non-admin reach'',
      fr_reason = ''the repository or ref is outside the grant, the task is not the one ''
        @ ''granted, or the effect exceeds the owner''
        @ [CHR 0x27]
        @ ''s rights'',
      fr_common_fixes = ''narrow the call to a granted repository, ref, or task; do not request ''
        @ ''forge admin, release, pin, or user administration'',
      fr_docs_url = ''docs/errors.md#bot-reach'',
      fr_repair_hint = ''rerun cargo test -p jeryu-core --lib core::bots::tests''\<rparr>"
| "repair BfMissing =
     \<lparr>fr_purpose = ''load one account-owned Grokbot or Musebot'',
      fr_reason = ''no credential exists for that id, or it has been revoked'',
      fr_common_fixes = ''enroll again or list the account roster; a revoked credential is not ''
        @ ''found for rotation'',
      fr_docs_url = ''docs/errors.md#bot-missing'',
      fr_repair_hint = ''rerun cargo test -p jeryu-core --lib core::bots::tests''\<rparr>"
| "repair BfStorage =
     \<lparr>fr_purpose = ''hash a new enrollment secret'',
      fr_reason = ''the forge could not read randomness or build the Argon2id hash'',
      fr_common_fixes = ''retry the enroll or rotate once; do not keep the secret if the hash ''
        @ ''fails'',
      fr_docs_url = ''docs/errors.md#bot-storage'',
      fr_repair_hint = ''rerun cargo test -p jeryu-core --lib core::bots::tests''\<rparr>"
| "repair Benign =
     \<lparr>fr_purpose = ''record a landing email without opening an account'',
      fr_reason = ''the waitlist is at its row cap, which is not a bot failure'',
      fr_common_fixes = ''keep the existing address; do not retry a new one in a loop'',
      fr_docs_url = ''docs/errors.md#waitlist'',
      fr_repair_hint = ''rerun cargo test -p jeryu-core waitlist''\<rparr>"

text \<open>
  \<^verbatim>\<open>message_of\<close> and \<^verbatim>\<open>rewrite\<close>. A refusal of the merge gate is kept as the blockers it renders and no
  bot operation returns one, so only the textual refusal is rewritten.
\<close>

fun rewrite_message :: "(string \<Rightarrow> string) \<Rightarrow> forge_error \<Rightarrow> forge_error" where
  "rewrite_message f (NotFound m) = NotFound (f m)"
| "rewrite_message f (Conflict m) = Conflict (f m)"
| "rewrite_message f (Validation m) = Validation (f m)"
| "rewrite_message f (Forbidden m) = Forbidden (f m)"
| "rewrite_message f (BranchProtection (RefusalText m)) = BranchProtection (RefusalText (f m))"
| "rewrite_message f (BranchProtection r) = BranchProtection r"
| "rewrite_message f (RepositoryArchived m) = RepositoryArchived (f m)"
| "rewrite_message f (Storage m) = Storage (f m)"
| "rewrite_message f (StoreCustody m) = StoreCustody (f m)"
| "rewrite_message f WaitlistFull = WaitlistFull"
| "rewrite_message f (Panicked m) = Panicked m"

definition repair_suffix :: "bot_failure_repair \<Rightarrow> string" where
  "repair_suffix r =
     '' purpose: '' @ fr_purpose r @ ''; reason: '' @ fr_reason r @ ''; common fixes: ''
       @ fr_common_fixes r @ ''; docs_url: '' @ fr_docs_url r @ ''; repair_hint: '' @ fr_repair_hint r"

definition explain_bot :: "forge_error \<Rightarrow> forge_error" where
  "explain_bot error =
     (if error = WaitlistFull then error
      else rewrite_message (\<lambda>m. machine_text m @ repair_suffix (repair (classify error))) error)"

section \<open>Facts\<close>

lemma split_at_text_Some:
  "split_at_text sep s = Some (a, b) \<Longrightarrow> s = a @ sep @ b"
proof (induction s arbitrary: a)
  case Nil
  then show ?case by (auto simp: split_at_text.simps [of sep "[]"] starts_with_def split: if_splits)
next
  case (Cons c cs)
  then show ?case
    by (auto simp: split_at_text.simps [of sep "c # cs"] starts_with_def split: if_splits)
      (metis append_take_drop_id)
qed

lemma starts_with_longer: "starts_with a sep \<Longrightarrow> starts_with (a @ b) sep"
  by (auto simp: starts_with_def) (metis length_take min.absorb_iff2 min.cobounded1 take_append append_Nil2 diff_is_0_eq take_0)

text \<open>The part before the first occurrence holds no occurrence.\<close>

lemma split_at_text_first:
  "split_at_text sep s = Some (a, b) \<Longrightarrow> sep \<noteq> [] \<Longrightarrow> split_at_text sep a = None"
proof (induction s arbitrary: a)
  case Nil
  then show ?case by (simp add: split_at_text.simps [of sep "[]"] starts_with_def split: if_splits)
next
  case (Cons c cs)
  show ?case
  proof (cases "starts_with (c # cs) sep")
    case True
    with Cons.prems show ?thesis
      by (simp add: split_at_text.simps [of sep "c # cs"] split_at_text.simps [of sep "[]"] starts_with_def)
  next
    case False
    with Cons.prems obtain a' where a: "split_at_text sep cs = Some (a', b)" "a = c # a'"
      by (auto simp: split_at_text.simps [of sep "c # cs"])
    from split_at_text_Some [OF a(1)] False starts_with_longer [of "c # a'" sep "sep @ b"]
    have "\<not> starts_with (c # a') sep" by auto
    with Cons.IH [OF a(1)] Cons.prems(2) show ?thesis
      by (simp add: a(2) split_at_text.simps [of sep "c # a'"])
  qed
qed

text \<open>A separator whose first character does not come back in it is found where it was put.\<close>

lemma split_at_text_join:
  assumes "sep = x # xs" and "x \<notin> set xs" and "split_at_text sep a = None"
  shows "split_at_text sep (a @ sep @ b) = Some (a, b)"
  using assms(3)
proof (induction a)
  case Nil
  show ?case by (simp add: split_at_text.simps [of sep "sep @ b"] starts_with_def)
next
  case (Cons c a)
  from Cons.prems have none: "split_at_text sep a = None" and no: "\<not> starts_with (c # a) sep"
    by (auto simp: split_at_text.simps [of sep "c # a"] split: if_splits)
  have "\<not> starts_with (c # a @ sep @ b) sep"
  proof
    assume start: "starts_with (c # a @ sep @ b) sep"
    show False
    proof (cases "length sep \<le> length (c # a)")
      case True
      with start no take_append [of "length sep" "c # a" "sep @ b"] show False
        by (simp add: starts_with_def)
    next
      case False
      then have short: "length a < length xs" using assms(1) by simp
      have "take (length sep) (c # a @ sep @ b) ! Suc (length a) = x"
        using short assms(1) by (simp add: nth_append)
      moreover have "take (length sep) (c # a @ sep @ b) = sep" using start by (simp add: starts_with_def)
      ultimately have "xs ! length a = x" using assms(1) by simp
      with short assms(2) show False by auto
    qed
  qed
  with Cons.IH [OF none] show ?case by (simp add: split_at_text.simps [of sep "c # a @ sep @ b"])
qed

lemma machine_text_clean: "split_at_text '' purpose:'' (machine_text m) = None"
proof (cases "split_at_text '' purpose:'' m")
  case (Some p)
  then show ?thesis
    using split_at_text_first [of "'' purpose:''" m "fst p" "snd p"] by (cases p) (simp add: machine_text_def)
qed (simp add: machine_text_def)

lemma machine_text_suffix: "machine_text (machine_text m @ repair_suffix r) = machine_text m"
proof -
  obtain rest where rest: "repair_suffix r = '' purpose:'' @ rest"
    by (simp add: repair_suffix_def)
  have "split_at_text '' purpose:'' (machine_text m @ '' purpose:'' @ rest) = Some (machine_text m, rest)"
    by (rule split_at_text_join [of _ "CHR '' ''" "''purpose:''"]) (simp_all add: machine_text_clean)
  then show ?thesis unfolding rest by (simp add: machine_text_def)
qed

lemma machine_text_idem [simp]: "machine_text (machine_text m) = machine_text m"
  using machine_text_clean [of m] by (simp add: machine_text_def)

text \<open>Explaining keeps the class of an error and its machine text.\<close>

lemma classify_explain [simp]: "classify (explain_bot e) = classify e"
  by (cases e rule: classify.cases; simp add: explain_bot_def machine_text_suffix split: refusal.splits)
    (rename_tac r, case_tac r, simp_all)

lemma explain_bot_idem: "explain_bot (explain_bot e) = explain_bot e"
proof (cases "e = WaitlistFull")
  case False
  have fuse: "rewrite_message f (rewrite_message g e) = rewrite_message (f \<circ> g) e" for f g
    by (cases e rule: classify.cases; simp) (rename_tac r, case_tac r, simp_all)
  from False have "explain_bot e \<noteq> WaitlistFull"
    by (cases e rule: classify.cases; simp add: explain_bot_def) (rename_tac r, case_tac r, simp_all)
  then have "explain_bot (explain_bot e) =
      rewrite_message (\<lambda>m. machine_text m @ repair_suffix (repair (classify (explain_bot e)))) (explain_bot e)"
    by (simp add: explain_bot_def [of "explain_bot e"])
  also have "\<dots> = explain_bot e"
    using False by (simp only: classify_explain) (simp add: explain_bot_def fuse o_def machine_text_suffix)
  finally show ?thesis .
qed (simp add: explain_bot_def)

end
