(* ===== verification/Secrets.thy ===== *)
theory Secrets
  imports Accounts Bot_Failures "HOL-Library.Word"
begin

text \<open>
  Making and comparing secrets: \<^verbatim>\<open>random_secret\<close>, \<^verbatim>\<open>token_hash\<close>, \<^verbatim>\<open>constant_time_eq\<close> and the password
  functions of \<^verbatim>\<open>engine/auth.rs\<close>; \<^verbatim>\<open>new_key_id\<close>, \<^verbatim>\<open>new_secret\<close> and \<^verbatim>\<open>base64url\<close> of \<^verbatim>\<open>engine/bots.rs\<close>. The
  generator, the hashes and \<^verbatim>\<open>hex::encode\<close> are parameters in \<^typ>\<open>env\<close>; everything the source does with
  their results is here.
\<close>

unbundle bit_operations_syntax

type_synonym byte8 = "8 word"

text \<open>\<^verbatim>\<open>as_bytes\<close>.\<close>

definition as_bytes :: "string \<Rightarrow> byte8 list" where
  "as_bytes s = map of_char s"

section \<open>Comparison in constant time\<close>

definition constant_time_eq :: "byte8 list \<Rightarrow> byte8 list \<Rightarrow> bool" where
  "constant_time_eq left right =
     (if length left \<noteq> length right then False
      else fold (\<lambda>(a, b) diff. diff OR (a XOR b)) (zip left right) 0 = 0)"

lemma or_eq_0: "(a OR b = 0) = (a = 0 \<and> b = 0)" for a b :: "'a::len word"
  by (auto simp: bit_eq_iff bit_simps)

lemma xor_eq_0: "(a XOR b = 0) = (a = b)" for a b :: "'a::len word"
  by (auto simp: bit_eq_iff bit_simps)

lemma fold_or_zero:
  "fold (\<lambda>(a, b) diff. diff OR (a XOR b)) ps d = 0 \<longleftrightarrow> d = 0 \<and> (\<forall>(a, b) \<in> set ps. a = b)"
  for ps :: "(byte8 \<times> byte8) list"
  by (induction ps arbitrary: d) (auto simp: or_eq_0 xor_eq_0)

lemma constant_time_eq_iff: "constant_time_eq left right \<longleftrightarrow> left = right"
proof (cases "length left = length right")
  case True
  then have "(\<forall>(a, b) \<in> set (zip left right). a = b) \<longleftrightarrow> left = right"
    by (induction left right rule: list_induct2) auto
  with True show ?thesis by (simp add: constant_time_eq_def fold_or_zero)
qed (auto simp: constant_time_eq_def)

lemma as_bytes_inject [simp]: "as_bytes s = as_bytes t \<longleftrightarrow> s = t"
proof -
  have "inj (of_char :: char \<Rightarrow> byte8)"
  proof (rule injI)
    fix c d :: char
    assume same: "(of_char c :: byte8) = of_char d"
    have word: "(of_char x :: byte8) = of_nat (of_char x)" for x
      by (rule of_nat_of_char [symmetric])
    have "unat (of_char c :: byte8) = unat (of_char d :: byte8)" using same by simp
    then have "(of_char c :: nat) mod 256 = of_char d mod 256"
      unfolding word unat_of_nat by simp
    then show "c = d" by simp
  qed
  then show ?thesis by (simp add: as_bytes_def)
qed

text \<open>The comparison takes every byte into account and is exactly equality.\<close>

lemma constant_time_eq_strings: "constant_time_eq (as_bytes s) (as_bytes t) \<longleftrightarrow> s = t"
  by (simp add: constant_time_eq_iff)

section \<open>Base64url without padding\<close>

definition BASE64_TABLE :: string where
  "BASE64_TABLE = ''ABCDEFGHIJKLMNOPQRSTUVWXYZabcdefghijklmnopqrstuvwxyz0123456789-_''"

definition sextet :: "32 word \<Rightarrow> nat \<Rightarrow> char" where
  "sextet chunk k = BASE64_TABLE ! unat (drop_bit k chunk AND 63)"

fun base64url :: "byte8 list \<Rightarrow> string" where
  "base64url (a # b # c # rest) =
     (let chunk = push_bit 16 (ucast a) OR push_bit 8 (ucast b) OR ucast c
      in [sextet chunk 18, sextet chunk 12, sextet chunk 6, sextet chunk 0] @ base64url rest)"
| "base64url [a, b] =
     (let chunk = push_bit 16 (ucast a) OR push_bit 8 (ucast b)
      in [sextet chunk 18, sextet chunk 12, sextet chunk 6])"
| "base64url [a] =
     (let chunk = push_bit 16 (ucast a) in [sextet chunk 18, sextet chunk 12])"
| "base64url [] = []"

lemma base64url_length:
  "length (base64url bytes) = 4 * (length bytes div 3) + (if length bytes mod 3 = 0 then 0 else length bytes mod 3 + 1)"
proof (induction bytes rule: base64url.induct)
  case (1 a b c rest)
  have "length (a # b # c # rest) div 3 = Suc (length rest div 3)"
    "length (a # b # c # rest) mod 3 = length rest mod 3"
    by (simp_all add: add.commute [of 3])
  with 1 show ?case by (simp add: Let_def)
qed (simp_all add: Let_def)

text \<open>No two byte strings have the same encoding: the table has no repetition and every bit is in
  exactly one sextet.\<close>

lemma table_inject:
  assumes "i < 64" and "j < 64"
  shows "BASE64_TABLE ! i = BASE64_TABLE ! j \<longleftrightarrow> i = j"
proof -
  have "distinct BASE64_TABLE" "length BASE64_TABLE = 64" by code_simp+
  with assms show ?thesis by (simp add: nth_eq_iff_index_eq)
qed

lemma sextet_eq: "sextet x k = sextet y k \<longleftrightarrow> (\<forall>n. k \<le> n \<and> n < k + 6 \<longrightarrow> bit x n = bit y n)"
proof -
  have small: "unat (drop_bit k z AND 63) < 64" for z :: "32 word"
  proof -
    have "drop_bit k z AND 63 \<le> 63" by (rule word_and_le1)
    then have "unat (drop_bit k z AND 63) \<le> unat (63 :: 32 word)" by (simp only: word_le_nat_alt)
    then show ?thesis by simp
  qed
  have "sextet x k = sextet y k \<longleftrightarrow> drop_bit k x AND 63 = drop_bit k y AND 63"
    unfolding sextet_def table_inject [OF small small] by (rule word_unat_eq_iff [symmetric])
  also have "\<dots> \<longleftrightarrow> take_bit 6 (drop_bit k x) = take_bit 6 (drop_bit k y)"
    by (simp add: take_bit_eq_mask mask_eq_decr_exp)
  also have "\<dots> \<longleftrightarrow> (\<forall>n. k \<le> n \<and> n < k + 6 \<longrightarrow> bit x n = bit y n)"
  proof
    assume same: "take_bit 6 (drop_bit k x) = take_bit 6 (drop_bit k y)"
    show "\<forall>n. k \<le> n \<and> n < k + 6 \<longrightarrow> bit x n = bit y n"
    proof (intro allI impI)
      fix n assume n: "k \<le> n \<and> n < k + 6"
      from same have "bit (take_bit 6 (drop_bit k x)) (n - k) = bit (take_bit 6 (drop_bit k y)) (n - k)"
        by simp
      moreover from n have "n - k < 6" by linarith
      ultimately show "bit x n = bit y n" using n by (simp add: bit_simps)
    qed
  qed (auto intro!: bit_word_eqI simp: bit_simps)
  finally show ?thesis .
qed

lemma bytes_of_chunk:
  fixes a b c a' b' c' :: byte8
  defines "x \<equiv> push_bit 16 (ucast a) OR push_bit 8 (ucast b) OR ucast c :: 32 word"
    and "y \<equiv> push_bit 16 (ucast a') OR push_bit 8 (ucast b') OR ucast c' :: 32 word"
  assumes same: "\<And>n. lo \<le> n \<Longrightarrow> n < 24 \<Longrightarrow> bit x n = bit y n"
  shows "lo \<le> 16 \<Longrightarrow> a = a'" and "lo \<le> 8 \<Longrightarrow> b = b'" and "lo = 0 \<Longrightarrow> c = c'"
proof -
  have bits: "bit x n = (n < 24 \<and> (if n < 8 then bit c n else if n < 16 then bit b (n - 8) else bit a (n - 16)))"
    "bit y n = (n < 24 \<and> (if n < 8 then bit c' n else if n < 16 then bit b' (n - 8) else bit a' (n - 16)))" for n
    unfolding x_def y_def by (auto simp: bit_simps dest: bit_imp_le_length)
  show "a = a'" if "lo \<le> 16"
  proof (rule bit_word_eqI)
    fix n assume "n < LENGTH(8)"
    with that same [of "n + 16"] show "bit a n = bit a' n" by (simp add: bits)
  qed
  show "b = b'" if "lo \<le> 8"
  proof (rule bit_word_eqI)
    fix n assume "n < LENGTH(8)"
    with that same [of "n + 8"] show "bit b n = bit b' n" by (simp add: bits)
  qed
  show "c = c'" if "lo = 0"
  proof (rule bit_word_eqI)
    fix n assume "n < LENGTH(8)"
    with that same [of n] show "bit c n = bit c' n" by (simp add: bits)
  qed
qed

lemma base64url_inject: "base64url xs = base64url ys \<Longrightarrow> xs = ys"
proof (induction xs arbitrary: ys rule: base64url.induct)
  case (1 a b c rest)
  from 1(2) obtain a' b' c' rest' where ys: "ys = a' # b' # c' # rest'"
    by (cases ys rule: base64url.cases) (auto simp: Let_def)
  let ?x = "push_bit 16 (ucast a) OR push_bit 8 (ucast b) OR ucast c :: 32 word"
  let ?y = "push_bit 16 (ucast a') OR push_bit 8 (ucast b') OR ucast c' :: 32 word"
  have parts: "sextet ?x 18 = sextet ?y 18" "sextet ?x 12 = sextet ?y 12" "sextet ?x 6 = sextet ?y 6"
    "sextet ?x 0 = sextet ?y 0" "base64url rest = base64url rest'"
    using 1(2) unfolding ys by (simp_all add: Let_def)
  have "bit ?x n = bit ?y n" if "n < 24" for n
    using that parts(1-4) unfolding sextet_eq
    by (cases "n < 6"; cases "n < 12"; cases "n < 18") simp_all
  from bytes_of_chunk [of 0, OF this] 1(1) [OF _ parts(5)] show ?case by (simp add: ys)
next
  case (2 a b)
  from 2 obtain a' b' where ys: "ys = [a', b']"
    by (cases ys rule: base64url.cases) (auto simp: Let_def)
  let ?x = "push_bit 16 (ucast a) OR push_bit 8 (ucast b) OR ucast (0 :: byte8) :: 32 word"
  let ?y = "push_bit 16 (ucast a') OR push_bit 8 (ucast b') OR ucast (0 :: byte8) :: 32 word"
  have parts: "sextet ?x 18 = sextet ?y 18" "sextet ?x 12 = sextet ?y 12" "sextet ?x 6 = sextet ?y 6"
    using 2 unfolding ys by (simp_all add: Let_def)
  have "bit ?x n = bit ?y n" if "6 \<le> n" "n < 24" for n
    using that parts unfolding sextet_eq by (cases "n < 12"; cases "n < 18") simp_all
  from bytes_of_chunk(1,2) [of 6, OF this] show ?case by (simp add: ys)
next
  case (3 a)
  from 3 obtain a' where ys: "ys = [a']"
    by (cases ys rule: base64url.cases) (auto simp: Let_def)
  let ?x = "push_bit 16 (ucast a) OR push_bit 8 (ucast (0 :: byte8)) OR ucast (0 :: byte8) :: 32 word"
  let ?y = "push_bit 16 (ucast a') OR push_bit 8 (ucast (0 :: byte8)) OR ucast (0 :: byte8) :: 32 word"
  have parts: "sextet ?x 18 = sextet ?y 18" "sextet ?x 12 = sextet ?y 12"
    using 3 unfolding ys by (simp_all add: Let_def)
  have "bit ?x n = bit ?y n" if "12 \<le> n" "n < 24" for n
    using that parts unfolding sextet_eq by (cases "n < 18") simp_all
  from bytes_of_chunk(1) [of 12, OF this] show ?case by (simp add: ys)
next
  case 4
  then show ?case by (cases ys rule: base64url.cases) (auto simp: Let_def)
qed

section \<open>Random secrets\<close>

text \<open>\<open>n\<close> says which reading of the generator this is within the operation.\<close>

definition random_secret :: "env \<Rightarrow> nat \<Rightarrow> forge_error + string" where
  "random_secret ev n =
     (case env_random ev n 32 of
        Inl err \<Rightarrow> Inl (Storage (''read randomness: '' @ err))
      | Inr bytes \<Rightarrow> Inr (env_hex ev bytes))"

definition token_hash :: "env \<Rightarrow> string \<Rightarrow> string" where
  "token_hash ev token = env_sha256_hex ev token"

definition CROCKFORD :: string where
  "CROCKFORD = ''0123456789abcdefghjkmnpqrstvwxyz''"

text \<open>One byte is read for each of the twelve characters.\<close>

primrec key_id_loop :: "env \<Rightarrow> nat \<Rightarrow> nat \<Rightarrow> forge_error + string" where
  "key_id_loop ev n 0 = Inr []"
| "key_id_loop ev n (Suc left) =
     (case env_random ev n 1 of
        Inl err \<Rightarrow> Inl (explain_bot (Storage (''read randomness: '' @ err)))
      | Inr bytes \<Rightarrow>
          try_res (key_id_loop ev (n + 1) left) (\<lambda>rest. Inr (CROCKFORD ! (hd bytes mod 32) # rest)))"

definition new_key_id :: "env \<Rightarrow> nat \<Rightarrow> forge_error + string" where
  "new_key_id ev n = key_id_loop ev n 12"

definition new_secret :: "env \<Rightarrow> nat \<Rightarrow> forge_error + string" where
  "new_secret ev n =
     (case env_random ev n 32 of
        Inl err \<Rightarrow> Inl (Storage (''read randomness: '' @ err))
      | Inr bytes \<Rightarrow> Inr (base64url (map word_of_nat bytes)))"

text \<open>The documented behaviour of the generator: it fills the buffer it is given.\<close>

definition fills_buffers :: "env \<Rightarrow> bool" where
  "fills_buffers ev = (\<forall>n k bytes. env_random ev n k = Inr bytes \<longrightarrow> length bytes = k)"

lemma ex_env_fills: "fills_buffers ex_env"
  by (simp add: fills_buffers_def ex_env_def)

lemma key_id_loop_shape:
  "key_id_loop ev n k = Inr s \<Longrightarrow> length s = k \<and> set s \<subseteq> set CROCKFORD"
proof (induction k arbitrary: n s)
  case (Suc k)
  have "CROCKFORD ! (i mod 32) \<in> set CROCKFORD" for i
    by (rule nth_mem) (simp add: CROCKFORD_def)
  with Suc show ?case by (fastforce split: sum.splits simp: ok_paths)
qed simp

text \<open>A key id has 12 characters and none of them is a dot or a slash.\<close>

lemma new_key_id_shape:
  assumes "new_key_id ev n = Inr s"
  shows "length s = 12" and "CHR ''.'' \<notin> set s"
proof -
  have shape: "length s = 12 \<and> set s \<subseteq> set CROCKFORD"
    using assms key_id_loop_shape unfolding new_key_id_def by blast
  moreover have "CHR ''.'' \<notin> set CROCKFORD" by (simp add: CROCKFORD_def)
  ultimately show "length s = 12" and "CHR ''.'' \<notin> set s" by auto
qed

lemma new_secret_length: "fills_buffers ev \<Longrightarrow> new_secret ev n = Inr s \<Longrightarrow> length s = 43"
  by (auto simp: new_secret_def fills_buffers_def base64url_length split: sum.splits)

section \<open>Passwords\<close>

definition require_password :: "string \<Rightarrow> forge_error + unit" where
  "require_password password =
     (if length password < 12 then Inl (Validation ''password must be at least 12 bytes'') else Inr ())"

text \<open>The error of the hash function itself is the parameter's.\<close>

definition hash_password :: "env \<Rightarrow> nat \<Rightarrow> string \<Rightarrow> forge_error + string" where
  "hash_password ev n password =
     try_res (env_argon2_hash ev n password) (\<lambda>hash.
       if \<not> starts_with hash ''$argon2id$''
       then Inl (Storage ''password hash was not encoded as argon2id PHC'') else Inr hash)"

definition verify_password :: "env \<Rightarrow> string \<Rightarrow> string \<Rightarrow> forge_error + unit" where
  "verify_password ev password password_hash =
     (if env_argon2_verify ev password password_hash then Inr ()
      else Inl (Validation ''invalid login or password''))"

text \<open>\<^verbatim>\<open>checked_add(1)\<close> on a \<^verbatim>\<open>u64\<close>.\<close>

definition next_auth_epoch :: "u64 \<Rightarrow> forge_error + u64" where
  "next_auth_epoch current =
     (if current + 1 < 2 ^ 64 then Inr (current + 1)
      else Inl (Storage ''account auth epoch overflow''))"

lemma next_auth_epoch_Inr: "next_auth_epoch e = Inr e' \<longleftrightarrow> e + 1 < 2 ^ 64 \<and> e' = e + 1"
  by (auto simp: next_auth_epoch_def)

lemma require_password_Inr: "require_password p = Inr u \<longleftrightarrow> 12 \<le> length p"
  by (auto simp: require_password_def)

end
