(* ===== verification/Auth.thy ===== *)
theory Auth
  imports Secrets
begin

text \<open>
  Account credentials, sessions, personal access tokens, invitations and repository grants
  (\<^verbatim>\<open>engine/auth.rs\<close>), with the revocations of bot credentials they cause (\<^verbatim>\<open>invalidate_account_bots\<close>
  of \<^verbatim>\<open>engine/bots.rs\<close>, \<^verbatim>\<open>revoke_tokens_issued_by\<close> and \<^verbatim>\<open>revoke_steward_tokens\<close> of
  \<^verbatim>\<open>engine/team_bots.rs\<close>).
\<close>

section \<open>Durations\<close>

definition duration_seconds :: "int \<Rightarrow> time" where
  "duration_seconds n = n * 1000000000"

definition duration_minutes :: "int \<Rightarrow> time" where
  "duration_minutes n = duration_seconds (60 * n)"

definition duration_hours :: "int \<Rightarrow> time" where
  "duration_hours n = duration_seconds (3600 * n)"

definition duration_days :: "int \<Rightarrow> time" where
  "duration_days n = duration_seconds (86400 * n)"

lemmas duration_defs = duration_seconds_def duration_minutes_def duration_hours_def duration_days_def

text \<open>\<^verbatim>\<open>DateTime::<Utc>::MAX_UTC\<close>, the end of the year 262142, in nanoseconds.\<close>

definition MAX_UTC :: time where
  "MAX_UTC = 8210266876799999999999"

definition SESSION_TTL_SECS :: int where "SESSION_TTL_SECS = 60 * 60 * 24 * 14"
definition PAT_DEFAULT_TTL_DAYS :: int where "PAT_DEFAULT_TTL_DAYS = 90"
definition PAT_MAX_TTL_DAYS :: int where "PAT_MAX_TTL_DAYS = 365"
definition INVITATION_MAX_TTL_HOURS :: int where "INVITATION_MAX_TTL_HOURS = 24"
definition ACTIVATION_CHALLENGE_TTL_MINUTES :: int where "ACTIVATION_CHALLENGE_TTL_MINUTES = 10"
definition ACTIVATION_MAX_ATTEMPTS :: nat where "ACTIVATION_MAX_ATTEMPTS = 5"

definition ACTIVATION_ERROR :: string where
  "ACTIVATION_ERROR = ''activation could not be completed''"

definition activation_error :: forge_error where
  "activation_error = Validation ACTIVATION_ERROR"

section \<open>Revocation of bot credentials\<close>

text \<open>\<^verbatim>\<open>saturating_add(1)\<close> on a \<^verbatim>\<open>u64\<close>.\<close>

definition u64_bump :: "u64 \<Rightarrow> u64" where
  "u64_bump n = min (n + 1) (2 ^ 64 - 1)"

definition user_bot_ids :: "string \<Rightarrow> state \<Rightarrow> uuid list" where
  "user_bot_ids login s =
     map bo_id [br \<leftarrow> hm_values (st_bots s). bo_owner_kind br = OwnedByUser \<and> bo_owner br = login]"

text \<open>The bots map is keyed by id.\<close>

definition invalidate_account_bots :: "string \<Rightarrow> time \<Rightarrow> state \<Rightarrow> state" where
  "invalidate_account_bots login now s =
     (let ids = user_bot_ids login s
      in s\<lparr>st_bots := map (\<lambda>(k, br). (k, if k \<in> set ids
               then br\<lparr>bo_credential_generation := u64_bump (bo_credential_generation br),
                       bo_updated_at := now\<rparr> else br)) (st_bots s),
           st_bot_keys := hm_map (\<lambda>key.
               if bk_bot_id key \<in> set ids \<and> bk_revoked_at key = None
               then key\<lparr>bk_revoked_at := Some now\<rparr> else key) (st_bot_keys s),
           st_bot_refresh := hm_retain (\<lambda>_ token. br_bot_id token \<notin> set ids) (st_bot_refresh s)\<rparr>)"

definition revoke_matching ::
  "time \<Rightarrow> (bot_access_token_record \<Rightarrow> bool) \<Rightarrow> state \<Rightarrow> nat \<times> state" where
  "revoke_matching now matches s =
     (length [r \<leftarrow> hm_values (st_bot_access_tokens s). bt_revoked_at r = None \<and> matches r],
      s\<lparr>st_bot_access_tokens := hm_map (\<lambda>r.
          if bt_revoked_at r = None \<and> matches r then r\<lparr>bt_revoked_at := Some now\<rparr> else r)
        (st_bot_access_tokens s)\<rparr>)"

definition revoke_steward_tokens ::
  "string \<Rightarrow> string \<Rightarrow> string \<Rightarrow> time \<Rightarrow> state \<Rightarrow> nat \<times> state" where
  "revoke_steward_tokens org team login now s =
     (let bots = map bo_id [br \<leftarrow> hm_values (st_bots s).
            bo_owner_kind br = OwnedByOrganization \<and> bo_owner br = org \<and> bo_steward_team br = Some team]
      in revoke_matching now (\<lambda>r. bt_bot_id r \<in> set bots \<and> bt_issued_by r = Some login) s)"

definition revoke_tokens_issued_by :: "string \<Rightarrow> time \<Rightarrow> state \<Rightarrow> nat \<times> state" where
  "revoke_tokens_issued_by login now s =
     (let bots = map bo_id [br \<leftarrow> hm_values (st_bots s). bo_owner_kind br = OwnedByOrganization]
      in revoke_matching now (\<lambda>r. bt_bot_id r \<in> set bots \<and> bt_issued_by r = Some login) s)"

text \<open>What every credential change does: sessions and personal tokens of the login go, the
  credentials of its bots are revoked.\<close>

definition drop_credentials :: "string \<Rightarrow> time \<Rightarrow> state \<Rightarrow> state" where
  "drop_credentials login now s =
     invalidate_account_bots login now
       (s\<lparr>st_sessions := hm_retain (\<lambda>_ session. ws_login session \<noteq> login) (st_sessions s),
          st_personal_tokens :=
            hm_retain (\<lambda>_ token. pt_login token \<noteq> login) (st_personal_tokens s)\<rparr>)"

definition put_account :: "string \<Rightarrow> user_account \<Rightarrow> state \<Rightarrow> state" where
  "put_account login account s = s\<lparr>st_accounts := hm_put login account (st_accounts s)\<rparr>"

section \<open>Accounts\<close>

definition account_not_found :: "string \<Rightarrow> forge_error" where
  "account_not_found login = NotFound (''account '' @ login)"

definition generate_one_time_password :: "env \<Rightarrow> forge_error + string" where
  "generate_one_time_password ev =
     try_res (random_secret ev 0) (\<lambda>secret. Inr (''jeryu-'' @ take 32 secret))"

definition create_account ::
  "env \<Rightarrow> string \<Rightarrow> string \<Rightarrow> user_role \<Rightarrow> core \<Rightarrow> account_summary outcome" where
  "create_account ev login password role c =
     try_pure (require_login login) c (\<lambda>_.
     try_pure (require_password password) c (\<lambda>_.
       if hm_has (st_accounts (live c)) login \<or> hm_has (st_organizations (live c)) login
       then (Inl (Conflict (''account '' @ login)), c)
       else try_pure (hash_password ev 0 password) c (\<lambda>hash.
         let now = env_clk ev 0;
             account = \<lparr>ua_canonical_login = login, ua_display_name = login,
                        ua_password_hash = hash, ua_role = role, ua_status = Active,
                        ua_auth_epoch = 0, ua_must_change_password = False,
                        ua_created_at = now, ua_updated_at = now\<rparr>;
             user = \<lparr>us_id = env_fresh ev 0, us_login = login, us_name = None, us_email = None,
                     us_created_at = now\<rparr>;
             users = (if hm_has (st_users (live c)) login then st_users (live c)
                      else hm_put login user (st_users (live c)))
         in commit ev 0 (put_account login account ((live c)\<lparr>st_users := users\<rparr>))
              (account_summary_from account) c)))"

definition list_accounts :: "state \<Rightarrow> account_summary list" where
  "list_accounts s = sort_key as_login (map account_summary_from (hm_values (st_accounts s)))"

definition get_account :: "state \<Rightarrow> string \<Rightarrow> forge_error + account_summary" where
  "get_account s login =
     ok_or (map_option account_summary_from (hm_get (st_accounts s) login)) (account_not_found login)"

definition authenticate_password ::
  "env \<Rightarrow> state \<Rightarrow> string \<Rightarrow> string \<Rightarrow> forge_error + account_summary" where
  "authenticate_password ev s login password =
     try_res (ok_or (hm_get (st_accounts s) login) (Validation ''invalid login or password'')) (\<lambda>account.
       if \<not> permits_authentication (ua_status account)
       then Inl (Validation ''invalid login or password'')
       else try_res (verify_password ev password (ua_password_hash account)) (\<lambda>_.
              Inr (account_summary_from account)))"

text \<open>
  The common end of the credential changes: the epoch is bumped after the other fields were
  written in place, so that when it is at the top of its range the call fails with the live row
  already changed and nothing stored. \<open>n\<close> is the index of the first reading of the clock.
\<close>

definition store_new_credentials ::
  "env \<Rightarrow> nat \<Rightarrow> string \<Rightarrow> user_account \<Rightarrow> (state \<Rightarrow> state) \<Rightarrow> core \<Rightarrow> account_summary outcome" where
  "store_new_credentials ev n login account further c =
     (case next_auth_epoch (ua_auth_epoch account) of
        Inl e \<Rightarrow> (Inl e, c\<lparr>live := put_account login account (live c)\<rparr>)
      | Inr epoch \<Rightarrow>
          let updated = account\<lparr>ua_auth_epoch := epoch, ua_updated_at := env_clk ev n\<rparr>
          in commit ev n (further (drop_credentials login (env_clk ev (n + 1))
                 (put_account login updated (live c)))) (account_summary_from updated) c)"

definition reset_account_password ::
  "env \<Rightarrow> string \<Rightarrow> string \<Rightarrow> core \<Rightarrow> account_summary outcome" where
  "reset_account_password ev login new_password c =
     try_pure (require_password new_password) c (\<lambda>_.
     try_pure (ok_or (hm_get (st_accounts (live c)) login) (account_not_found login)) c (\<lambda>account.
     try_pure (hash_password ev 0 new_password) c (\<lambda>hash.
       store_new_credentials ev 0 login
         (account\<lparr>ua_password_hash := hash, ua_must_change_password := True\<rparr>) id c)))"

definition change_account_password ::
  "env \<Rightarrow> string \<Rightarrow> string \<Rightarrow> string \<Rightarrow> core \<Rightarrow> account_summary outcome" where
  "change_account_password ev login current_password new_password c =
     try_pure (require_password new_password) c (\<lambda>_.
     try_pure (ok_or (hm_get (st_accounts (live c)) login) (account_not_found login)) c (\<lambda>account.
       if \<not> permits_authentication (ua_status account)
       then (Inl (Validation ''invalid login or password''), c)
       else try_pure (verify_password ev current_password (ua_password_hash account)) c (\<lambda>_.
            try_pure (hash_password ev 0 new_password) c (\<lambda>hash.
              store_new_credentials ev 0 login
                (account\<lparr>ua_password_hash := hash, ua_must_change_password := False\<rparr>) id c))))"

definition force_password_change ::
  "env \<Rightarrow> nat \<Rightarrow> string \<Rightarrow> bool \<Rightarrow> core \<Rightarrow> account_summary outcome" where
  "force_password_change ev n login forced c =
     try_pure (ok_or (hm_get (st_accounts (live c)) login) (account_not_found login)) c (\<lambda>account.
       let changed = account\<lparr>ua_must_change_password := forced\<rparr>
       in if forced then store_new_credentials ev n login changed id c
          else let updated = changed\<lparr>ua_updated_at := env_clk ev n\<rparr>
               in commit ev n (put_account login updated (live c)) (account_summary_from updated) c)"

definition create_temporary_account ::
  "env \<Rightarrow> string \<Rightarrow> string \<Rightarrow> user_role \<Rightarrow> core \<Rightarrow> account_summary outcome" where
  "create_temporary_account ev login password role c =
     try_op (create_account ev login password role c) (\<lambda>account c.
     try_op (force_password_change ev 1 login True c) (\<lambda>_ c.
       (Inr (case get_account (live c) login of Inr current \<Rightarrow> current | Inl _ \<Rightarrow> account), c)))"

section \<open>Sessions\<close>

definition require_active_account :: "state \<Rightarrow> string \<Rightarrow> forge_error + account_summary" where
  "require_active_account s login =
     try_res (get_account s login) (\<lambda>account.
       if \<not> permits_authentication (as_status account) then Inl (Validation ''account is not active'')
       else Inr account)"

definition create_session_with_ttl ::
  "env \<Rightarrow> string \<Rightarrow> time \<Rightarrow> core \<Rightarrow> session_receipt outcome" where
  "create_session_with_ttl ev login ttl c =
     (if ttl \<le> 0 then (Inl (Validation ''session ttl must be positive''), c)
      else try_pure (require_active_account (live c) login) c (\<lambda>account.
           try_pure (random_secret ev 0) c (\<lambda>token.
           try_pure (random_secret ev 1) c (\<lambda>csrf_token.
             let created_at = env_clk ev 0 in
             if MAX_UTC < created_at + ttl then (Inl (Validation ''session ttl is out of range''), c)
             else let session = \<lparr>ws_id = env_fresh ev 0, ws_login = login,
                                 ws_auth_epoch = as_auth_epoch account,
                                 ws_token_hash = token_hash ev token, ws_csrf_token = csrf_token,
                                 ws_created_at = created_at, ws_expires_at = created_at + ttl\<rparr>
             in commit ev 0
                  ((live c)\<lparr>st_sessions := hm_put (ws_token_hash session) session (st_sessions (live c))\<rparr>)
                  \<lparr>sr_session = session, sr_token = token\<rparr> c))))"

definition create_session :: "env \<Rightarrow> string \<Rightarrow> core \<Rightarrow> session_receipt outcome" where
  "create_session ev login c = create_session_with_ttl ev login (duration_seconds SESSION_TTL_SECS) c"

definition session_for_token :: "env \<Rightarrow> state \<Rightarrow> string \<Rightarrow> (account_summary \<times> web_session) option" where
  "session_for_token ev s token =
     (case hm_get (st_sessions s) (token_hash ev token) of
        None \<Rightarrow> None
      | Some session \<Rightarrow>
          if ws_expires_at session \<le> env_clk ev 0 then None
          else (case hm_get (st_accounts s) (ws_login session) of
                  None \<Rightarrow> None
                | Some account \<Rightarrow>
                    if \<not> permits_authentication (ua_status account) \<or>
                       ua_auth_epoch account \<noteq> ws_auth_epoch session
                    then None else Some (account_summary_from account, session)))"

definition authenticate_session :: "env \<Rightarrow> state \<Rightarrow> string \<Rightarrow> account_summary option" where
  "authenticate_session ev s token = map_option fst (session_for_token ev s token)"

definition session_csrf_matches :: "env \<Rightarrow> state \<Rightarrow> string \<Rightarrow> string \<Rightarrow> bool" where
  "session_csrf_matches ev s token csrf_token =
     (case session_for_token ev s token of
        None \<Rightarrow> False
      | Some (_, session) \<Rightarrow> constant_time_eq (as_bytes (ws_csrf_token session)) (as_bytes csrf_token))"

definition revoke_session :: "env \<Rightarrow> string \<Rightarrow> core \<Rightarrow> unit outcome" where
  "revoke_session ev token c =
     commit ev 0 ((live c)\<lparr>st_sessions := hm_del (token_hash ev token) (st_sessions (live c))\<rparr>) () c"

section \<open>Personal access tokens\<close>

definition validate_pat_expiry :: "env \<Rightarrow> time option \<Rightarrow> forge_error + time option" where
  "validate_pat_expiry ev expires_at =
     (let now = env_clk ev 0;
          expires_at = (case expires_at of Some t \<Rightarrow> t | None \<Rightarrow> now + duration_days PAT_DEFAULT_TTL_DAYS)
      in if expires_at \<le> now then Inl (Validation ''token expiry must be in the future'')
         else if now + duration_days PAT_MAX_TTL_DAYS < expires_at
         then Inl (Validation ''token expiry may not exceed 365 days'')
         else Inr (Some expires_at))"

definition create_personal_access_token ::
  "env \<Rightarrow> string \<Rightarrow> string \<Rightarrow> time option \<Rightarrow> core \<Rightarrow> personal_access_token_receipt outcome" where
  "create_personal_access_token ev login token_name expires_at c =
     try_pure (require_active_account (live c) login) c (\<lambda>account.
     try_pure (require_name ''token name'' token_name) c (\<lambda>_.
     try_pure (validate_pat_expiry ev expires_at) c (\<lambda>expires_at.
     try_pure (random_secret ev 0) c (\<lambda>random.
       let secret = ''jpat_'' @ random;
           token = \<lparr>pt_id = env_fresh ev 0, pt_login = login, pt_auth_epoch = as_auth_epoch account,
                    pt_name = str_trim token_name, pt_token_hash = token_hash ev secret,
                    pt_created_at = env_clk ev 1, pt_expires_at = expires_at\<rparr>
       in commit ev 0
            ((live c)\<lparr>st_personal_tokens := hm_put (pt_id token) token (st_personal_tokens (live c))\<rparr>)
            \<lparr>pe_token = token, pe_secret = secret\<rparr> c))))"

text \<open>Newest first, then by name.\<close>

definition list_personal_access_tokens ::
  "state \<Rightarrow> string \<Rightarrow> forge_error + personal_access_token_summary list" where
  "list_personal_access_tokens s login =
     try_res (get_account s login) (\<lambda>_.
       Inr (sort_key (\<lambda>t. (- ps_created_at t, ps_name t))
              (map token_summary_from
                [t \<leftarrow> hm_values (st_personal_tokens s). pt_login t = login])))"

definition revoke_personal_access_token :: "env \<Rightarrow> string \<Rightarrow> uuid \<Rightarrow> core \<Rightarrow> bool outcome" where
  "revoke_personal_access_token ev login i c =
     try_pure (get_account (live c) login) c (\<lambda>_.
       let removed = (case hm_get (st_personal_tokens (live c)) i of
                        None \<Rightarrow> False | Some token \<Rightarrow> pt_login token = login);
           s = (if removed
                then (live c)\<lparr>st_personal_tokens := hm_del i (st_personal_tokens (live c))\<rparr> else live c)
       in commit ev 0 s removed c)"

definition authenticate_personal_access_token ::
  "env \<Rightarrow> state \<Rightarrow> string \<Rightarrow> account_summary option" where
  "authenticate_personal_access_token ev s token =
     (case find (\<lambda>r. pt_token_hash r = token_hash ev token \<and>
                  (case pt_expires_at r of None \<Rightarrow> True | Some expires \<Rightarrow> env_clk ev 0 < expires))
             (hm_values (st_personal_tokens s)) of
        None \<Rightarrow> None
      | Some r \<Rightarrow>
          (case hm_get (st_accounts s) (pt_login r) of
             None \<Rightarrow> None
           | Some account \<Rightarrow>
               if \<not> permits_authentication (ua_status account) \<or> ua_auth_epoch account \<noteq> pt_auth_epoch r
               then None else Some (account_summary_from account)))"

section \<open>Team bindings\<close>

definition split_team_binding :: "string \<Rightarrow> forge_error + (string \<times> string)" where
  "split_team_binding binding =
     try_res (ok_or (split_once (CHR ''/'') binding)
                (Validation ''team binding must be canonical organization/team'')) (\<lambda>(organization, team).
       if organization = [] \<or> team = [] \<or> CHR ''/'' \<in> set team
       then Inl (Validation ''team binding must be canonical organization/team'')
       else Inr (organization, team))"

text \<open>The set is collected as a list; \<^verbatim>\<open>BTreeSet\<close> gives it back sorted without repetitions.\<close>

primrec normalize_bindings_loop :: "string list \<Rightarrow> forge_error + string list" where
  "normalize_bindings_loop [] = Inr []"
| "normalize_bindings_loop (binding # bindings) =
     try_res (split_team_binding (str_trim binding)) (\<lambda>(organization, team).
     try_res (require_login organization) (\<lambda>_.
     try_res (require_login team) (\<lambda>_.
     try_res (normalize_bindings_loop bindings) (\<lambda>rest. Inr (slug_name organization team # rest)))))"

definition normalize_team_bindings :: "string list \<Rightarrow> forge_error + string list" where
  "normalize_team_bindings bindings =
     try_res (normalize_bindings_loop bindings) (\<lambda>found. Inr (sort (remdups found)))"

text \<open>The loop over the bindings that fails on the first team that does not exist.\<close>

primrec check_team_bindings ::
  "state \<Rightarrow> (string \<Rightarrow> forge_error) \<Rightarrow> string list \<Rightarrow> forge_error + unit" where
  "check_team_bindings s missing [] = Inr ()"
| "check_team_bindings s missing (binding # bindings) =
     try_res (split_team_binding binding) (\<lambda>key.
       if \<not> hm_has (st_teams s) key then Inl (missing binding)
       else check_team_bindings s missing bindings)"

section \<open>Invitations\<close>

text \<open>Neither consumed nor revoked.\<close>

definition invitation_open :: "account_invitation \<Rightarrow> bool" where
  "invitation_open invitation = (iv_consumed_at invitation = None \<and> iv_revoked_at invitation = None)"

definition has_admin :: "state \<Rightarrow> bool" where
  "has_admin s = list_ex (\<lambda>account. ua_role account = RoleAdmin) (hm_values (st_accounts s))"

definition expired_invitations :: "time \<Rightarrow> state \<Rightarrow> uuid list" where
  "expired_invitations now s =
     map iv_id [i \<leftarrow> hm_values (st_invitations s). invitation_open i \<and> iv_expires_at i \<le> now]"

definition revoke_invitations :: "time \<Rightarrow> uuid list \<Rightarrow> state \<Rightarrow> state" where
  "revoke_invitations now ids s =
     s\<lparr>st_invitations := map (\<lambda>(k, i). (k, if k \<in> set ids then i\<lparr>iv_revoked_at := Some now\<rparr> else i))
                           (st_invitations s)\<rparr>"

text \<open>The refusals that depend on the state, in the source's order.\<close>

definition check_invitation ::
  "state \<Rightarrow> string \<Rightarrow> string list \<Rightarrow> bool \<Rightarrow> uuid list \<Rightarrow> forge_error + unit" where
  "check_invitation s canonical_login teams bootstrap_owner expired_ids =
     (if hm_has (st_accounts s) canonical_login \<or> hm_has (st_organizations s) canonical_login
      then Inl (Conflict (''account '' @ canonical_login))
      else if bootstrap_owner \<and> (st_bootstrap_owner_consumed s \<or> has_admin s)
      then Inl (Conflict ''owner bootstrap has already been consumed'')
      else try_res (check_team_bindings s (\<lambda>b. NotFound (''team '' @ b)) teams) (\<lambda>_.
        if list_ex (\<lambda>i. iv_canonical_login i = canonical_login \<and> invitation_open i \<and>
                     iv_id i \<notin> set expired_ids) (hm_values (st_invitations s))
        then Inl (Conflict (''active invitation for '' @ canonical_login))
        else if bootstrap_owner \<and>
                list_ex (\<lambda>i. iv_bootstrap_owner i \<and> invitation_open i \<and> iv_id i \<notin> set expired_ids)
                  (hm_values (st_invitations s))
        then Inl (Conflict ''active owner bootstrap invitation'')
        else Inr ()))"

definition create_account_invitation_inner ::
  "env \<Rightarrow> string \<Rightarrow> string \<Rightarrow> string \<Rightarrow> invitation_bindings \<Rightarrow> time \<Rightarrow> bool \<Rightarrow> core \<Rightarrow>
   account_invitation_receipt outcome" where
  "create_account_invitation_inner ev issuer canonical_login display_name bindings expires_at
     bootstrap_owner c =
     try_pure (require_login canonical_login) c (\<lambda>_.
     try_pure (require_name ''display name'' display_name) c (\<lambda>_.
     try_pure (require_name ''issuer principal'' issuer) c (\<lambda>_.
     try_pure (normalize_team_bindings (ib_teams bindings)) c (\<lambda>teams.
       let now = env_clk ev 0 in
       if expires_at \<le> now then (Inl (Validation ''invitation expiry must be in the future''), c)
       else if now + duration_hours INVITATION_MAX_TTL_HOURS < expires_at
       then (Inl (Validation ''invitation expiry may not exceed 24 hours''), c)
       else try_pure (random_secret ev 0) c (\<lambda>activation_secret.
         let expired_ids = expired_invitations now (live c) in
         try_pure (check_invitation (live c) canonical_login teams bootstrap_owner expired_ids) c (\<lambda>_.
         let s = revoke_invitations now expired_ids (live c);
             invitation = \<lparr>iv_id = env_fresh ev 0, iv_canonical_login = canonical_login,
                           iv_display_name = str_trim display_name,
                           iv_activation_secret_hash = token_hash ev activation_secret,
                           iv_issuer_principal = str_trim issuer,
                           iv_intended_bindings = bindings\<lparr>ib_teams := teams\<rparr>,
                           iv_created_at = now, iv_expires_at = expires_at, iv_consumed_at = None,
                           iv_revoked_at = None, iv_attempt_count = 0,
                           iv_bootstrap_owner = bootstrap_owner\<rparr>
         in commit ev 0
              (s\<lparr>st_invitations := hm_put (iv_id invitation) invitation (st_invitations s)\<rparr>)
              \<lparr>ir_invitation = invitation_summary_from invitation,
               ir_activation_secret = activation_secret\<rparr> c))))))"

definition create_account_invitation ::
  "env \<Rightarrow> string \<Rightarrow> string \<Rightarrow> string \<Rightarrow> invitation_bindings \<Rightarrow> time \<Rightarrow> core \<Rightarrow>
   account_invitation_receipt outcome" where
  "create_account_invitation ev issuer canonical_login display_name bindings expires_at c =
     create_account_invitation_inner ev issuer canonical_login display_name bindings expires_at False c"

definition create_bootstrap_owner_invitation ::
  "env \<Rightarrow> string \<Rightarrow> string \<Rightarrow> time \<Rightarrow> core \<Rightarrow> account_invitation_receipt outcome" where
  "create_bootstrap_owner_invitation ev canonical_login display_name expires_at c =
     create_account_invitation_inner ev ''local-operator'' canonical_login display_name
       \<lparr>ib_role = RoleAdmin, ib_teams = []\<rparr> expires_at True c"

definition list_account_invitations :: "state \<Rightarrow> account_invitation_summary list" where
  "list_account_invitations s =
     sort_key (\<lambda>i. (- im_created_at i, im_canonical_login i))
       (map invitation_summary_from (hm_values (st_invitations s)))"

definition revoke_account_invitation :: "env \<Rightarrow> uuid \<Rightarrow> core \<Rightarrow> bool outcome" where
  "revoke_account_invitation ev i c =
     (case hm_get (st_invitations (live c)) i of
        None \<Rightarrow> commit ev 0 (live c) False c
      | Some invitation \<Rightarrow>
          if invitation_open invitation
          then commit ev 0 ((live c)\<lparr>st_invitations :=
                 hm_put i (invitation\<lparr>iv_revoked_at := Some (env_clk ev 0)\<rparr>) (st_invitations (live c))\<rparr>)
                 True c
          else commit ev 0 (live c) False c)"

text \<open>A wrong secret counts an attempt, and that is stored; the right one opens a challenge.\<close>

definition start_account_activation ::
  "env \<Rightarrow> string \<Rightarrow> string \<Rightarrow> core \<Rightarrow> activation_start_receipt outcome" where
  "start_account_activation ev canonical_login activation_secret c =
     (if (case require_login canonical_login of Inl _ \<Rightarrow> True | Inr _ \<Rightarrow> False)
      then (Inl activation_error, c)
      else try_pure (random_secret ev 0) c (\<lambda>challenge.
        let now = env_clk ev 0; s = live c in
        try_pure (ok_or (find (\<lambda>i. iv_canonical_login i = canonical_login \<and> invitation_open i \<and>
                                 now < iv_expires_at i) (hm_values (st_invitations s)))
                    activation_error) c (\<lambda>found.
        try_pure (ok_or (hm_get (st_invitations s) (iv_id found))
                    (Panicked ''invitation id was selected from the same map'')) c (\<lambda>invitation.
        if ACTIVATION_MAX_ATTEMPTS \<le> iv_attempt_count invitation then (Inl activation_error, c)
        else
        let counted = invitation\<lparr>iv_attempt_count := iv_attempt_count invitation + 1\<rparr>;
            s1 = s\<lparr>st_invitations := hm_put (iv_id found) counted (st_invitations s)\<rparr> in
        if \<not> constant_time_eq (as_bytes (token_hash ev activation_secret))
               (as_bytes (iv_activation_secret_hash invitation))
        then try_op (commit ev 0 s1 () c) (\<lambda>_ c. (Inl activation_error, c))
        else
        let expires_at = now + duration_minutes ACTIVATION_CHALLENGE_TTL_MINUTES;
            opened = \<lparr>ac_id = env_fresh ev 0, ac_invitation_id = iv_id found,
                       ac_challenge_hash = token_hash ev challenge, ac_created_at = now,
                       ac_expires_at = expires_at, ac_consumed_at = None\<rparr>
        in commit ev 1
             (s1\<lparr>st_activation_challenges :=
                hm_put (ac_challenge_hash opened) opened (st_activation_challenges s1)\<rparr>)
             \<lparr>ar_challenge = challenge, ar_expires_at = expires_at\<rparr> c))))"

text \<open>What makes a challenge and its invitation usable.\<close>

definition usable_challenge :: "time \<Rightarrow> state \<Rightarrow> string \<Rightarrow> activation_challenge option" where
  "usable_challenge now s challenge_hash =
     (case hm_get (st_activation_challenges s) challenge_hash of
        None \<Rightarrow> None
      | Some r \<Rightarrow> if ac_consumed_at r = None \<and> now < ac_expires_at r then Some r else None)"

definition usable_invitation :: "time \<Rightarrow> state \<Rightarrow> uuid \<Rightarrow> account_invitation option" where
  "usable_invitation now s i =
     (case hm_get (st_invitations s) i of
        None \<Rightarrow> None
      | Some invitation \<Rightarrow>
          if invitation_open invitation \<and> now < iv_expires_at invitation \<and>
             iv_attempt_count invitation \<le> ACTIVATION_MAX_ATTEMPTS
          then Some invitation else None)"

text \<open>One team binding applied to the new account; the bindings were checked before.\<close>

definition join_team :: "string \<Rightarrow> string \<Rightarrow> state \<Rightarrow> state" where
  "join_team login binding s =
     (case split_team_binding binding of
        Inl _ \<Rightarrow> s
      | Inr key \<Rightarrow>
          (case hm_get (st_teams s) key of
             None \<Rightarrow> s
           | Some team \<Rightarrow>
               if login \<in> set (tm_members team) then s
               else s\<lparr>st_teams := hm_put key (team\<lparr>tm_members := sort (tm_members team @ [login])\<rparr>)
                        (st_teams s)\<rparr>))"

definition activated ::
  "env \<Rightarrow> time \<Rightarrow> string \<Rightarrow> activation_challenge \<Rightarrow> account_invitation \<Rightarrow> user_account \<Rightarrow> state \<Rightarrow> state" where
  "activated ev now challenge_hash challenge invitation account s =
     (let login = iv_canonical_login invitation;
          user = \<lparr>us_id = env_fresh ev 0, us_login = login, us_name = Some (ua_display_name account),
                  us_email = None, us_created_at = now\<rparr>;
          s1 = s\<lparr>st_activation_challenges := hm_put challenge_hash
                   (challenge\<lparr>ac_consumed_at := Some now\<rparr>) (st_activation_challenges s),
                 st_invitations := hm_put (iv_id invitation)
                   (invitation\<lparr>iv_consumed_at := Some now\<rparr>) (st_invitations s),
                 st_users := (if hm_has (st_users s) login then st_users s
                              else hm_put login user (st_users s))\<rparr>;
          s2 = fold (join_team login) (ib_teams (iv_intended_bindings invitation)) s1;
          s3 = (if iv_bootstrap_owner invitation then s2\<lparr>st_bootstrap_owner_consumed := True\<rparr> else s2)
      in put_account login account s3)"

definition complete_account_activation ::
  "env \<Rightarrow> string \<Rightarrow> string \<Rightarrow> core \<Rightarrow> account_summary outcome" where
  "complete_account_activation ev challenge password c =
     try_pure (require_password password) c (\<lambda>_.
     try_pure (hash_password ev 0 password) c (\<lambda>hash.
       let challenge_hash = token_hash ev challenge; now = env_clk ev 0; s = live c in
       try_pure (ok_or (usable_challenge now s challenge_hash) activation_error) c (\<lambda>found.
       try_pure (ok_or (usable_invitation now s (ac_invitation_id found)) activation_error) c (\<lambda>invitation.
       if hm_has (st_accounts s) (iv_canonical_login invitation) then (Inl activation_error, c)
       else try_pure (check_team_bindings s (\<lambda>_. activation_error)
                        (ib_teams (iv_intended_bindings invitation))) c (\<lambda>_.
         if iv_bootstrap_owner invitation \<and> (st_bootstrap_owner_consumed s \<or> has_admin s)
         then (Inl activation_error, c)
         else let account = \<lparr>ua_canonical_login = iv_canonical_login invitation,
                             ua_display_name = iv_display_name invitation, ua_password_hash = hash,
                             ua_role = ib_role (iv_intended_bindings invitation),
                             ua_status = PendingMfa, ua_auth_epoch = 0, ua_must_change_password = False,
                             ua_created_at = now, ua_updated_at = now\<rparr>
              in commit ev 0 (activated ev now challenge_hash found invitation account s)
                   (account_summary_from account) c)))))"

section \<open>Account status\<close>

definition refused_transition :: "account_status \<Rightarrow> string" where
  "refused_transition status =
     (case status of
        PendingMfa \<Rightarrow> ''only disabled or locked accounts may be reactivated''
      | Active \<Rightarrow> ''account is not pending MFA enrollment''
      | _ \<Rightarrow> ''account status transition is not allowed'')"

text \<open>A steward who can no longer sign in takes the team bot tokens they issued with them.\<close>

definition transition_account_status ::
  "env \<Rightarrow> string \<Rightarrow> account_status \<Rightarrow> account_status list option \<Rightarrow> core \<Rightarrow> account_summary outcome"
where
  "transition_account_status ev login status allowed_current c =
     try_pure (ok_or (hm_get (st_accounts (live c)) login) (account_not_found login)) c (\<lambda>account.
       if (case allowed_current of None \<Rightarrow> False | Some allowed \<Rightarrow> ua_status account \<notin> set allowed)
       then (Inl (Validation (refused_transition status)), c)
       else if ua_status account = status then (Inr (account_summary_from account), c)
       else store_new_credentials ev 0 login (account\<lparr>ua_status := status\<rparr>)
              (\<lambda>s. if permits_authentication status then s
                   else snd (revoke_tokens_issued_by login (env_clk ev 2) s)) c)"

definition disable_account :: "env \<Rightarrow> string \<Rightarrow> core \<Rightarrow> account_summary outcome" where
  "disable_account ev login c = transition_account_status ev login Disabled None c"

definition lock_account :: "env \<Rightarrow> string \<Rightarrow> core \<Rightarrow> account_summary outcome" where
  "lock_account ev login c = transition_account_status ev login Locked None c"

definition reactivate_account :: "env \<Rightarrow> string \<Rightarrow> core \<Rightarrow> account_summary outcome" where
  "reactivate_account ev login c =
     transition_account_status ev login PendingMfa (Some [Disabled, Locked]) c"

definition mark_account_mfa_active :: "env \<Rightarrow> string \<Rightarrow> core \<Rightarrow> account_summary outcome" where
  "mark_account_mfa_active ev login c =
     transition_account_status ev login Active (Some [PendingMfa]) c"

definition bootstrap_owner_consumed :: "state \<Rightarrow> bool" where
  "bootstrap_owner_consumed s = st_bootstrap_owner_consumed s"

section \<open>Repository grants\<close>

definition grant_repo_access ::
  "env \<Rightarrow> string \<Rightarrow> string \<Rightarrow> string \<Rightarrow> string \<Rightarrow> repo_access_level \<Rightarrow> core \<Rightarrow> repo_access_grant outcome"
where
  "grant_repo_access ev actor login owner repo access c =
     try_pure (get_account (live c) login) c (\<lambda>_.
     try_pure (canonical_repository (live c) owner repo) c (\<lambda>_.
       let grant = \<lparr>ga_login = login, ga_owner = owner, ga_repo = repo, ga_access = access,
                    ga_granted_by = actor, ga_granted_at = env_clk ev 0\<rparr>
       in commit ev 0
            ((live c)\<lparr>st_repo_grants := hm_put (login, owner, repo) grant (st_repo_grants (live c))\<rparr>)
            grant c))"

definition require_repo_admin :: "state \<Rightarrow> string \<Rightarrow> string \<Rightarrow> string \<Rightarrow> forge_error + unit" where
  "require_repo_admin s actor owner repo =
     try_res (canonical_repository s owner repo) (\<lambda>_.
       if \<not> user_can_admin_repo s actor owner repo
       then Inl (BranchProtection (RefusalText ''repo admin access required'')) else Inr ())"

definition grant_repo_access_checked ::
  "env \<Rightarrow> string \<Rightarrow> string \<Rightarrow> string \<Rightarrow> string \<Rightarrow> repo_access_level \<Rightarrow> core \<Rightarrow> repo_access_grant outcome"
where
  "grant_repo_access_checked ev actor login owner repo access c =
     try_pure (require_repo_admin (live c) actor owner repo) c (\<lambda>_.
       grant_repo_access ev actor login owner repo access c)"

definition revoke_repo_access :: "env \<Rightarrow> string \<Rightarrow> string \<Rightarrow> string \<Rightarrow> core \<Rightarrow> bool outcome" where
  "revoke_repo_access ev login owner repo c =
     commit ev 0
       ((live c)\<lparr>st_repo_grants := hm_del (login, owner, repo) (st_repo_grants (live c))\<rparr>)
       (hm_has (st_repo_grants (live c)) (login, owner, repo)) c"

definition revoke_repo_access_checked ::
  "env \<Rightarrow> string \<Rightarrow> string \<Rightarrow> string \<Rightarrow> string \<Rightarrow> core \<Rightarrow> bool outcome" where
  "revoke_repo_access_checked ev actor login owner repo c =
     try_pure (require_repo_admin (live c) actor owner repo) c (\<lambda>_.
       revoke_repo_access ev login owner repo c)"

definition list_repo_access :: "state \<Rightarrow> string \<Rightarrow> string \<Rightarrow> repo_access_grant list" where
  "list_repo_access s owner repo =
     sort_key ga_login [g \<leftarrow> hm_values (st_repo_grants s). ga_owner g = owner \<and> ga_repo g = repo]"

definition list_repo_access_checked ::
  "state \<Rightarrow> string \<Rightarrow> string \<Rightarrow> string \<Rightarrow> forge_error + repo_access_grant list" where
  "list_repo_access_checked s actor owner repo =
     try_res (require_repo_admin s actor owner repo) (\<lambda>_. Inr (list_repo_access s owner repo))"

section \<open>What a change of credentials leaves\<close>

text \<open>No session and no personal token of the login, no live credential of a bot of theirs.\<close>

definition credentials_dropped :: "string \<Rightarrow> state \<Rightarrow> bool" where
  "credentials_dropped login s =
     ((\<forall>session \<in> set (hm_values (st_sessions s)). ws_login session \<noteq> login) \<and>
      (\<forall>token \<in> set (hm_values (st_personal_tokens s)). pt_login token \<noteq> login) \<and>
      (\<forall>token \<in> set (hm_values (st_bot_refresh s)). br_bot_id token \<notin> set (user_bot_ids login s)) \<and>
      (\<forall>key \<in> set (hm_values (st_bot_keys s)).
         bk_bot_id key \<in> set (user_bot_ids login s) \<longrightarrow> bk_revoked_at key \<noteq> None))"

lemma values_retain: "v \<in> set (hm_values (hm_retain P m)) \<longleftrightarrow> (\<exists>k. (k, v) \<in> set m \<and> P k v)"
  by (force simp: hm_values_def hm_retain_def)

lemma hm_values_map [simp]: "hm_values (hm_map f m) = map f (hm_values m)"
  by (simp add: hm_values_def hm_map_def case_prod_beta)

text \<open>A change of bots in place that keeps the identity and the owner keeps the owner's bots.\<close>

lemma ids_in_place:
  assumes "\<And>br. bo_id (g br) = bo_id br" and "\<And>br. Q (g br) = Q br"
  shows "map bo_id (filter Q (hm_values (map (\<lambda>(k, br). (k, if P k then g br else br)) m))) =
     map bo_id (filter Q (hm_values m))"
  using assms by (induction m) (auto simp: hm_values_def split: if_splits)

lemma user_bot_ids_bumped:
  "user_bot_ids login (s\<lparr>st_bots := map (\<lambda>(k, br). (k, if P k
       then br\<lparr>bo_credential_generation := u64_bump (bo_credential_generation br), bo_updated_at := now\<rparr>
       else br)) (st_bots s)\<rparr>) = user_bot_ids login s"
  unfolding user_bot_ids_def by simp (rule ids_in_place; simp)

lemma user_bot_ids_cong: "st_bots s = st_bots t \<Longrightarrow> user_bot_ids login s = user_bot_ids login t"
  by (simp add: user_bot_ids_def)

lemma drop_credentials_drops: "credentials_dropped login (drop_credentials login now s)"
proof -
  let ?t = "s\<lparr>st_sessions := hm_retain (\<lambda>_ session. ws_login session \<noteq> login) (st_sessions s),
    st_personal_tokens := hm_retain (\<lambda>_ token. pt_login token \<noteq> login) (st_personal_tokens s)\<rparr>"
  have ids: "user_bot_ids login (drop_credentials login now s) = user_bot_ids login ?t"
    unfolding drop_credentials_def invalidate_account_bots_def Let_def
    using user_bot_ids_bumped [of login "\<lambda>k. k \<in> set (user_bot_ids login ?t)" now ?t]
    by (simp add: user_bot_ids_def)
  show ?thesis
    unfolding credentials_dropped_def ids
    by (auto simp: drop_credentials_def invalidate_account_bots_def Let_def values_retain)
qed

lemma drop_credentials_sel [simp]:
  "st_users (drop_credentials login now s) = st_users s"
  "st_accounts (drop_credentials login now s) = st_accounts s"
  "st_organizations (drop_credentials login now s) = st_organizations s"
  "st_teams (drop_credentials login now s) = st_teams s"
  "st_invitations (drop_credentials login now s) = st_invitations s"
  "st_password_recoveries (drop_credentials login now s) = st_password_recoveries s"
  "st_waitlist (drop_credentials login now s) = st_waitlist s"
  "st_issues (drop_credentials login now s) = st_issues s"
  "st_pulls (drop_credentials login now s) = st_pulls s"
  "st_reviews (drop_credentials login now s) = st_reviews s"
  "st_counters (drop_credentials login now s) = st_counters s"
  "st_repos (drop_credentials login now s) = st_repos s"
  "st_branch_protections (drop_credentials login now s) = st_branch_protections s"
  "st_repository_aliases (drop_credentials login now s) = st_repository_aliases s"
  "st_jankurai_scores (drop_credentials login now s) = st_jankurai_scores s"
  "st_bot_access_tokens (drop_credentials login now s) = st_bot_access_tokens s"
  by (simp_all add: drop_credentials_def invalidate_account_bots_def Let_def)

lemma revoke_tokens_state:
  "snd (revoke_tokens_issued_by login now s) =
     s\<lparr>st_bot_access_tokens := st_bot_access_tokens (snd (revoke_tokens_issued_by login now s))\<rparr>"
  by (simp add: revoke_tokens_issued_by_def revoke_matching_def Let_def)

lemma revoke_tokens_drops [simp]:
  "credentials_dropped login (snd (revoke_tokens_issued_by who now s)) = credentials_dropped login s"
  by (subst revoke_tokens_state) (simp add: credentials_dropped_def user_bot_ids_def)

text \<open>The two ways the common end of a credential change goes.\<close>

lemma store_new_credentials_cases:
  "(ua_auth_epoch account + 1 \<ge> 2 ^ 64 \<and>
    store_new_credentials ev n login account further c =
      (Inl (Storage ''account auth epoch overflow''), c\<lparr>live := put_account login account (live c)\<rparr>)) \<or>
   (ua_auth_epoch account + 1 < 2 ^ 64 \<and>
    store_new_credentials ev n login account further c =
      commit ev n (further (drop_credentials login (env_clk ev (n + 1))
        (put_account login (account\<lparr>ua_auth_epoch := ua_auth_epoch account + 1,
           ua_updated_at := env_clk ev n\<rparr>) (live c))))
        (account_summary_from (account\<lparr>ua_auth_epoch := ua_auth_epoch account + 1,
           ua_updated_at := env_clk ev n\<rparr>)) c)"
  by (auto simp: store_new_credentials_def next_auth_epoch_def Let_def)

lemma put_account_sel [simp]:
  "st_accounts (put_account login account s) = hm_put login account (st_accounts s)"
  "st_sessions (put_account login account s) = st_sessions s"
  "st_personal_tokens (put_account login account s) = st_personal_tokens s"
  "st_users (put_account login account s) = st_users s"
  "st_teams (put_account login account s) = st_teams s"
  "st_invitations (put_account login account s) = st_invitations s"
  "st_activation_challenges (put_account login account s) = st_activation_challenges s"
  "st_organizations (put_account login account s) = st_organizations s"
  by (simp_all add: put_account_def)

text \<open>A session whose epoch is not the account's opens nothing, whatever its token.\<close>

lemma session_needs_epoch:
  assumes "session_for_token ev s token = Some (account, session)"
  shows "hm_get (st_sessions s) (token_hash ev token) = Some session \<and>
    env_clk ev 0 < ws_expires_at session \<and>
    (\<exists>row. hm_get (st_accounts s) (ws_login session) = Some row \<and> ua_status row = Active \<and>
       ua_auth_epoch row = ws_auth_epoch session \<and> account = account_summary_from row)"
  using assms
  by (auto simp: session_for_token_def permits_authentication_def split: option.splits if_splits)

lemma values_get: "hm_get m k = Some v \<Longrightarrow> v \<in> set (hm_values m)"
  by (force simp: hm_values_def dest: map_of_SomeD)

text \<open>After the credentials of a login are dropped, no token of theirs opens a session or
  authenticates.\<close>

lemma dropped_session:
  assumes "credentials_dropped login s" and "session_for_token ev s token = Some (account, session)"
  shows "ws_login session \<noteq> login"
  using assms session_needs_epoch [OF assms(2)] by (auto simp: credentials_dropped_def dest: values_get)

text \<open>A personal token whose epoch is not the account's authenticates nobody.\<close>

lemma token_needs_epoch:
  assumes "authenticate_personal_access_token ev s token = Some account"
  shows "\<exists>r row. r \<in> set (hm_values (st_personal_tokens s)) \<and> pt_token_hash r = token_hash ev token \<and>
    hm_get (st_accounts s) (pt_login r) = Some row \<and> ua_status row = Active \<and>
    ua_auth_epoch row = pt_auth_epoch r \<and> account = account_summary_from row"
proof -
  from assms obtain r row where
    found: "find (\<lambda>r. pt_token_hash r = token_hash ev token \<and>
                  (case pt_expires_at r of None \<Rightarrow> True | Some expires \<Rightarrow> env_clk ev 0 < expires))
             (hm_values (st_personal_tokens s)) = Some r"
    and row: "hm_get (st_accounts s) (pt_login r) = Some row" "account = account_summary_from row"
      "ua_status row = Active" "ua_auth_epoch row = pt_auth_epoch r"
    unfolding authenticate_personal_access_token_def
    by (auto simp: permits_authentication_def split: option.splits if_splits)
  from found have "r \<in> set (hm_values (st_personal_tokens s))" "pt_token_hash r = token_hash ev token"
    by (auto simp: find_Some_iff in_set_conv_nth)
  with row show ?thesis by blast
qed

lemma dropped_token:
  assumes "credentials_dropped login s" and "authenticate_personal_access_token ev s token = Some account"
  shows "\<exists>row who. hm_get (st_accounts s) who = Some row \<and> who \<noteq> login \<and> account = account_summary_from row"
  using token_needs_epoch [OF assms(2)] assms(1) unfolding credentials_dropped_def by blast

end
