(* ===== verification/Recovery.thy ===== *)
theory Recovery
  imports Auth
begin

text \<open>
  Self-service password recovery (\<^verbatim>\<open>engine/password_recovery.rs\<close>): issuing a secret, spending it, and
  the pruning of dead ones.
\<close>

definition PASSWORD_RECOVERY_PREFIX :: string where "PASSWORD_RECOVERY_PREFIX = ''jrr_''"
definition RECOVERY_TTL_MINUTES :: int where "RECOVERY_TTL_MINUTES = 60"
definition RECOVERY_MAX_ATTEMPTS :: nat where "RECOVERY_MAX_ATTEMPTS = 5"
definition RECOVERY_ERROR :: string where
  "RECOVERY_ERROR = ''password recovery could not be completed''"
definition ISSUE_ACTION :: string where "ISSUE_ACTION = ''account.password_recovery.issue''"
definition RECOVERY_AUDIT_ACTION :: string where
  "RECOVERY_AUDIT_ACTION = ''account.password_recovery.reset''"

definition recovery_error :: forge_error where
  "recovery_error = Validation RECOVERY_ERROR"

section \<open>Records\<close>

definition is_live :: "password_recovery_record \<Rightarrow> time \<Rightarrow> bool" where
  "is_live r now =
     (py_consumed_at r = None \<and> now < py_expires_at r \<and> py_attempt_count r < RECOVERY_MAX_ATTEMPTS)"

definition prune_dead_recoveries :: "time \<Rightarrow> state \<Rightarrow> nat \<times> state" where
  "prune_dead_recoveries now s =
     (let kept = hm_retain (\<lambda>_ r. is_live r now) (st_password_recoveries s)
      in (length (st_password_recoveries s) - length kept, s\<lparr>st_password_recoveries := kept\<rparr>))"

definition retire_live_secrets :: "string \<Rightarrow> time \<Rightarrow> state \<Rightarrow> state" where
  "retire_live_secrets login now s =
     s\<lparr>st_password_recoveries := hm_map (\<lambda>r.
         if py_login r = login \<and> py_consumed_at r = None then r\<lparr>py_consumed_at := Some now\<rparr> else r)
       (st_password_recoveries s)\<rparr>"

definition recovery_audit_entry ::
  "env \<Rightarrow> nat \<Rightarrow> string \<Rightarrow> string \<Rightarrow> string \<Rightarrow> string \<Rightarrow> json \<Rightarrow> audit_entry" where
  "recovery_audit_entry ev n actor action login phase detail =
     \<lparr>ae_id = env_fresh ev n, ae_occurred_at = env_clk ev n, ae_actor = actor, ae_action = action,
      ae_subject = ''account:'' @ login, ae_phase = phase, ae_detail = detail\<rparr>"

section \<open>Issuing\<close>

text \<open>The key id reads the generator twelve times, the secret once more.\<close>

definition issue_password_recovery :: "env \<Rightarrow> string \<Rightarrow> core \<Rightarrow> password_recovery_issued outcome" where
  "issue_password_recovery ev login c =
     (if (case require_login login of Inl _ \<Rightarrow> True | Inr _ \<Rightarrow> False) then (Inl recovery_error, c)
      else try_pure (new_key_id ev 0) c (\<lambda>token_id.
           try_pure (new_secret ev 12) c (\<lambda>secret.
        let token = PASSWORD_RECOVERY_PREFIX @ token_id @ ''.'' @ secret;
            now = env_clk ev 0;
            expires_at = now + duration_minutes RECOVERY_TTL_MINUTES;
            s1 = snd (prune_dead_recoveries now (live c));
            refused = try_op (commit_with_audit ev 0
                (recovery_audit_entry ev 1 ''local'' ISSUE_ACTION login ''failed'' (JObj [])) s1 () c)
                (\<lambda>_ c. (Inl recovery_error, c))
        in case hm_get (st_accounts s1) login of
             None \<Rightarrow> refused
           | Some account \<Rightarrow>
               if \<not> permits_authentication (ua_status account) then refused
               else
               let s2 = snd (prune_dead_recoveries now (retire_live_secrets login now s1));
                   opened = \<lparr>py_token_id = token_id, py_login = login,
                             py_secret_hash = token_hash ev token,
                             py_auth_epoch = ua_auth_epoch account, py_created_at = now,
                             py_expires_at = expires_at, py_consumed_at = None, py_attempt_count = 0\<rparr>
               in commit_with_audit ev 1
                    (recovery_audit_entry ev 2 login ISSUE_ACTION login ''completed''
                       (JObj [(''token_id'', JStr token_id), (''expires_at'', JTime expires_at)]))
                    (s2\<lparr>st_password_recoveries := hm_put token_id opened (st_password_recoveries s2)\<rparr>)
                    \<lparr>pi_login = login, pi_token_id = token_id, pi_token = token,
                     pi_expires_at = expires_at\<rparr> c)))"

section \<open>Spending\<close>

definition parse_recovery_secret :: "string \<Rightarrow> string option" where
  "parse_recovery_secret value =
     (if 128 < length value then None
      else case strip_prefix value PASSWORD_RECOVERY_PREFIX of
        None \<Rightarrow> None
      | Some rest \<Rightarrow>
          (case split_once (CHR ''.'') rest of
             None \<Rightarrow> None
           | Some (token_id, secret) \<Rightarrow>
               if length token_id = 12 \<and> 32 \<le> length secret then Some token_id else None))"

definition verify_spend ::
  "env \<Rightarrow> state \<Rightarrow> string \<Rightarrow> string \<Rightarrow> time \<Rightarrow> refusal_kind + verified_spend" where
  "verify_spend ev s token_id secret now =
     (case hm_get (st_password_recoveries s) token_id of
        None \<Rightarrow> Inl Refused
      | Some r \<Rightarrow>
          if \<not> is_live r now then Inl Refused
          else if \<not> constant_time_eq (as_bytes (token_hash ev secret)) (as_bytes (py_secret_hash r))
          then Inl WrongSecret
          else (case hm_get (st_accounts s) (py_login r) of
                  None \<Rightarrow> Inl Refused
                | Some account \<Rightarrow>
                    if permits_authentication (ua_status account) \<and>
                       ua_auth_epoch account = py_auth_epoch r
                    then Inr \<lparr>vs_login = py_login r, vs_auth_epoch = py_auth_epoch r\<rparr>
                    else Inl Refused))"

text \<open>\<^verbatim>\<open>saturating_add(1)\<close> on a \<^verbatim>\<open>u32\<close>; a storage failure is swallowed.\<close>

definition count_wrong_secret :: "env \<Rightarrow> string \<Rightarrow> core \<Rightarrow> core" where
  "count_wrong_secret ev token_id c =
     (case hm_get (st_password_recoveries (live c)) token_id of
        None \<Rightarrow> c
      | Some r \<Rightarrow>
          let counted = r\<lparr>py_attempt_count := min (py_attempt_count r + 1) (2 ^ 32 - 1)\<rparr>
          in snd (commit_with_audit ev 0
               (recovery_audit_entry ev 3 ''local'' RECOVERY_AUDIT_ACTION (py_login r) ''failed''
                 (JObj [(''token_id'', JStr token_id), (''reason'', JStr ''wrong secret''),
                        (''attempt_count'', JNum (int (py_attempt_count counted)))]))
               ((live c)\<lparr>st_password_recoveries :=
                  hm_put token_id counted (st_password_recoveries (live c))\<rparr>) () c))"

text \<open>
  The spend proper, after both checks: as with the other credential changes the epoch is bumped
  after the row was changed in place.
\<close>

definition spend_secret ::
  "env \<Rightarrow> string \<Rightarrow> verified_spend \<Rightarrow> string \<Rightarrow> core \<Rightarrow> password_recovery_receipt outcome" where
  "spend_secret ev token_id verified password_hash c =
     (let login = vs_login verified; now = env_clk ev 1;
          s1 = snd (prune_dead_recoveries now (retire_live_secrets login now (live c)))
      in try_pure (ok_or (hm_get (st_accounts s1) login)
                     (Panicked ''verify_spend found the account'')) c (\<lambda>account.
         let changed = account\<lparr>ua_password_hash := password_hash, ua_must_change_password := False\<rparr>
         in case next_auth_epoch (ua_auth_epoch account) of
              Inl e \<Rightarrow> (Inl e, c\<lparr>live := put_account login changed s1\<rparr>)
            | Inr epoch \<Rightarrow>
                let updated = changed\<lparr>ua_auth_epoch := epoch, ua_updated_at := now\<rparr>;
                    s2 = put_account login updated s1;
                    s3 = drop_credentials login now s2;
                    ended = length (st_sessions s2) - length (st_sessions s3);
                    revoked = length (st_personal_tokens s2) - length (st_personal_tokens s3)
                in commit_with_audit ev 1
                     (recovery_audit_entry ev 2 login RECOVERY_AUDIT_ACTION login ''completed''
                       (JObj [(''token_id'', JStr token_id),
                              (''auth_epoch_before'', JNum (int (vs_auth_epoch verified))),
                              (''auth_epoch'', JNum (int epoch)),
                              (''sessions_ended'', JNum (int ended)),
                              (''personal_access_tokens_revoked'', JNum (int revoked)),
                              (''bot_credentials_revoked'', JBool True)]))
                     s3 \<lparr>pq_account = account_summary_from updated, pq_sessions_ended = ended,
                         pq_personal_access_tokens_revoked = revoked\<rparr> c))"

definition recover_password ::
  "env \<Rightarrow> string \<Rightarrow> string \<Rightarrow> core \<Rightarrow> password_recovery_receipt outcome" where
  "recover_password ev recovery_secret new_password c =
     try_pure (require_password new_password) c (\<lambda>_.
     try_pure (ok_or (parse_recovery_secret recovery_secret) recovery_error) c (\<lambda>token_id.
       case verify_spend ev (live c) token_id recovery_secret (env_clk ev 0) of
         Inl WrongSecret \<Rightarrow> (Inl recovery_error, count_wrong_secret ev token_id c)
       | Inl Refused \<Rightarrow> (Inl recovery_error, c)
       | Inr checked \<Rightarrow>
           try_pure (hash_password ev 0 new_password) c (\<lambda>password_hash.
             case verify_spend ev (live c) token_id recovery_secret (env_clk ev 1) of
               Inl _ \<Rightarrow> (Inl recovery_error, c)
             | Inr again \<Rightarrow>
                 if again = checked then spend_secret ev token_id again password_hash c
                 else (Inl recovery_error, c))))"

section \<open>Facts\<close>

lemma prune_sel [simp]:
  "st_password_recoveries (snd (prune_dead_recoveries now s)) =
     hm_retain (\<lambda>_ r. is_live r now) (st_password_recoveries s)"
  "st_accounts (snd (prune_dead_recoveries now s)) = st_accounts s"
  "st_sessions (snd (prune_dead_recoveries now s)) = st_sessions s"
  "st_personal_tokens (snd (prune_dead_recoveries now s)) = st_personal_tokens s"
  by (simp_all add: prune_dead_recoveries_def Let_def)

lemma prune_state:
  "snd (prune_dead_recoveries now s) =
     s\<lparr>st_password_recoveries := hm_retain (\<lambda>_ r. is_live r now) (st_password_recoveries s)\<rparr>"
  by (simp add: prune_dead_recoveries_def Let_def)

lemma retire_sel [simp]:
  "st_accounts (retire_live_secrets login now s) = st_accounts s"
  "st_sessions (retire_live_secrets login now s) = st_sessions s"
  "st_personal_tokens (retire_live_secrets login now s) = st_personal_tokens s"
  by (simp_all add: retire_live_secrets_def)

text \<open>What is stored: every record under its own id, at most one unspent record for each login, and
  no more wrong secrets counted than the limit.\<close>

definition one_unspent :: "(string, password_recovery_record) hmap \<Rightarrow> bool" where
  "one_unspent m =
     (\<forall>k1 r1 k2 r2. hm_get m k1 = Some r1 \<longrightarrow> hm_get m k2 = Some r2 \<longrightarrow>
        py_consumed_at r1 = None \<longrightarrow> py_consumed_at r2 = None \<longrightarrow> py_login r1 = py_login r2 \<longrightarrow> k1 = k2)"

definition recoveries_ok :: "(string, password_recovery_record) hmap \<Rightarrow> bool" where
  "recoveries_ok m =
     (hm_ok m \<and> one_unspent m \<and>
      (\<forall>k r. hm_get m k = Some r \<longrightarrow>
         py_token_id r = k \<and> py_attempt_count r \<le> RECOVERY_MAX_ATTEMPTS))"

lemma recoveries_ok_Nil [simp]: "recoveries_ok []"
  by (simp add: recoveries_ok_def one_unspent_def hm_ok_def)

text \<open>Dropping records and spending records keep it.\<close>

lemma recoveries_ok_less:
  assumes ok: "recoveries_ok m" and "hm_ok m'"
    and rows: "\<And>k r. hm_get m' k = Some r \<Longrightarrow> \<exists>q. hm_get m k = Some q \<and> py_login r = py_login q \<and>
      py_token_id r = py_token_id q \<and> py_attempt_count r = py_attempt_count q \<and>
      (py_consumed_at r = None \<longrightarrow> py_consumed_at q = None)"
  shows "recoveries_ok m'"
proof -
  have one: "k1 = k2"
    if 1: "hm_get m' k1 = Some r1" "py_consumed_at r1 = None"
      and 2: "hm_get m' k2 = Some r2" "py_consumed_at r2 = None" and same: "py_login r1 = py_login r2"
    for k1 r1 k2 r2
  proof -
    obtain q1 where q1: "hm_get m k1 = Some q1" "py_login r1 = py_login q1" "py_consumed_at q1 = None"
      using rows [OF 1(1)] 1(2) by blast
    obtain q2 where q2: "hm_get m k2 = Some q2" "py_login r2 = py_login q2" "py_consumed_at q2 = None"
      using rows [OF 2(1)] 2(2) by blast
    from ok q1 q2 same show "k1 = k2" by (simp add: recoveries_ok_def one_unspent_def)
  qed
  then have "one_unspent m'" unfolding one_unspent_def by blast
  moreover have "py_token_id r = k \<and> py_attempt_count r \<le> RECOVERY_MAX_ATTEMPTS"
    if "hm_get m' k = Some r" for k r
    using rows [OF that] ok by (auto simp: recoveries_ok_def)
  ultimately show ?thesis using assms(2) by (simp add: recoveries_ok_def)
qed

lemma recoveries_ok_retain:
  assumes "recoveries_ok m"
  shows "recoveries_ok (hm_retain P m)"
proof -
  have ok: "hm_ok m" using assms by (simp add: recoveries_ok_def)
  show ?thesis
    by (rule recoveries_ok_less [OF assms hm_retain_ok [OF ok]])
      (auto simp: hm_get_retain [OF ok] split: option.splits if_splits)
qed

lemma retire_get:
  "hm_get (st_password_recoveries (retire_live_secrets login now s)) k =
     map_option (\<lambda>r. if py_login r = login \<and> py_consumed_at r = None then r\<lparr>py_consumed_at := Some now\<rparr> else r)
       (hm_get (st_password_recoveries s) k)"
  by (simp add: retire_live_secrets_def)

lemma retired_rows:
  "hm_get (st_password_recoveries (retire_live_secrets login now s)) k = Some r \<Longrightarrow>
     \<exists>q. hm_get (st_password_recoveries s) k = Some q \<and> py_login r = py_login q \<and>
       py_token_id r = py_token_id q \<and> py_attempt_count r = py_attempt_count q \<and>
       (py_consumed_at r = None \<longrightarrow> py_consumed_at q = None \<and> py_login r \<noteq> login)"
  by (auto simp: retire_get)

lemma recoveries_ok_retire:
  assumes "recoveries_ok (st_password_recoveries s)"
  shows "recoveries_ok (st_password_recoveries (retire_live_secrets login now s))"
proof (rule recoveries_ok_less [OF assms])
  show "hm_ok (st_password_recoveries (retire_live_secrets login now s))"
    using assms by (simp add: recoveries_ok_def retire_live_secrets_def)
qed (blast dest: retired_rows)

text \<open>Retiring and pruning leave no record of the login.\<close>

lemma retired_and_pruned:
  assumes "hm_ok (st_password_recoveries s)"
    and "hm_get (hm_retain (\<lambda>_ r. is_live r now)
       (st_password_recoveries (retire_live_secrets login now' s))) k = Some r"
  shows "py_login r \<noteq> login \<and> hm_get (st_password_recoveries (retire_live_secrets login now' s)) k = Some r"
proof -
  have "hm_ok (st_password_recoveries (retire_live_secrets login now' s))"
    using assms(1) by (simp add: retire_live_secrets_def)
  from assms(2) [unfolded hm_get_retain [OF this]] show ?thesis
    using retired_rows [of login now' s k r] by (auto simp: is_live_def split: option.splits if_splits)
qed

lemma recoveries_ok_put:
  assumes "recoveries_ok m" and "py_token_id r = k" and "py_attempt_count r \<le> RECOVERY_MAX_ATTEMPTS"
    and "\<And>k' q. hm_get m k' = Some q \<Longrightarrow> py_consumed_at q = None \<Longrightarrow> py_login q = py_login r \<Longrightarrow>
           py_consumed_at r = None \<Longrightarrow> k' = k"
  shows "recoveries_ok (hm_put k r m)"
  using assms unfolding recoveries_ok_def one_unspent_def
  by (auto simp: hash.ok_put)

lemma recoveries_ok_count:
  assumes "recoveries_ok m" and "hm_get m k = Some r" and "py_attempt_count r < RECOVERY_MAX_ATTEMPTS"
  shows "recoveries_ok (hm_put k (r\<lparr>py_attempt_count := min (py_attempt_count r + 1) b\<rparr>) m)"
proof (rule recoveries_ok_put [OF assms(1)])
  show "py_token_id (r\<lparr>py_attempt_count := min (py_attempt_count r + 1) b\<rparr>) = k"
    using assms(1,2) by (simp add: recoveries_ok_def)
  fix k' q
  assume "hm_get m k' = Some q" "py_consumed_at q = None"
    "py_login q = py_login (r\<lparr>py_attempt_count := min (py_attempt_count r + 1) b\<rparr>)"
    "py_consumed_at (r\<lparr>py_attempt_count := min (py_attempt_count r + 1) b\<rparr>) = None"
  with assms(1,2) show "k' = k" by (simp add: recoveries_ok_def one_unspent_def)
qed (use assms(3) in simp)

end
