(* ===== verification/Waitlist.thy ===== *)
theory Waitlist
  imports Accounts
begin

text \<open>The public waitlist (\<^verbatim>\<open>engine/waitlist.rs\<close>): normalisation of an address, joining, listing.\<close>

definition EMAIL_MAX :: nat where "EMAIL_MAX = 254"
definition LOCAL_MAX :: nat where "LOCAL_MAX = 64"
definition NAME_MAX :: nat where "NAME_MAX = 80"
definition NOTE_MAX :: nat where "NOTE_MAX = 280"
definition WAITLIST_SOURCE :: string where "WAITLIST_SOURCE = ''landing''"
definition MAX_WAITLIST :: nat where "MAX_WAITLIST = 50000"

section \<open>Addresses\<close>

definition local_char :: "char \<Rightarrow> bool" where
  "local_char c = (is_ascii_alphanumeric c \<or> c \<in> set ''._%+-'')"

fun has_double_dot :: "string \<Rightarrow> bool" where
  "has_double_dot (a # b # s) = (a = CHR ''.'' \<and> b = CHR ''.'' \<or> has_double_dot (b # s))"
| "has_double_dot _ = False"

definition local_part_ok :: "string \<Rightarrow> bool" where
  "local_part_ok local =
     (\<not> starts_with local ''.'' \<and> \<not> ends_with local ''.'' \<and> \<not> has_double_dot local \<and>
      list_all local_char local)"

definition label_char :: "char \<Rightarrow> bool" where
  "label_char c = (is_ascii_alphanumeric c \<or> c = CHR ''-'')"

definition domain_ok :: "string \<Rightarrow> bool" where
  "domain_ok domain =
     (let labels = split_on (CHR ''.'') domain
      in 2 \<le> length labels \<and>
         list_all (\<lambda>label. label \<noteq> [] \<and> length label \<le> 63 \<and> \<not> starts_with label ''-'' \<and>
                     \<not> ends_with label ''-'' \<and> list_all label_char label) labels)"

definition invalid_email :: forge_error where
  "invalid_email = Validation ''enter a valid email address''"

definition normalize_waitlist_email :: "string \<Rightarrow> forge_error + string" where
  "normalize_waitlist_email raw =
     (let email = to_ascii_lowercase (str_trim raw)
      in case split_once (CHR ''@'') email of
           None \<Rightarrow> Inl invalid_email
         | Some (local, domain) \<Rightarrow>
             if length email < 3 \<or> EMAIL_MAX < length email \<or> local = [] \<or> LOCAL_MAX < length local \<or>
                count_list email (CHR ''@'') \<noteq> 1 \<or> \<not> local_part_ok local \<or> \<not> domain_ok domain
             then Inl invalid_email else Inr email)"

section \<open>Free text\<close>

text \<open>\<^verbatim>\<open>char::is_control\<close>: U+0000 to U+001F, U+007F to U+009F (\<^verbatim>\<open>C2 80\<close> to \<^verbatim>\<open>C2 9F\<close>).\<close>

fun has_control :: "string \<Rightarrow> bool" where
  "has_control [] = False"
| "has_control (c # s) =
     (byte c < 32 \<or> byte c = 127 \<or>
      byte c = 194 \<and> (case s of [] \<Rightarrow> False | d # _ \<Rightarrow> 128 \<le> byte d \<and> byte d < 160) \<or> has_control s)"

definition normalize_waitlist_text ::
  "string option \<Rightarrow> nat \<Rightarrow> string \<Rightarrow> forge_error + string option" where
  "normalize_waitlist_text raw max_chars field =
     (case raw of
        None \<Rightarrow> Inr None
      | Some raw \<Rightarrow>
          let text = str_trim raw
          in if text = [] then Inr None
             else if max_chars < char_count text \<or> has_control text
             then Inl (Validation (field @ '' must be '' @ show_nat max_chars
                    @ '' characters or fewer, without control characters''))
             else Inr (Some text))"

section \<open>Joining\<close>

definition join_waitlist ::
  "env \<Rightarrow> string \<Rightarrow> string option \<Rightarrow> string option \<Rightarrow> core \<Rightarrow> waitlist_join outcome" where
  "join_waitlist ev email name note c =
     try_pure (normalize_waitlist_email email) c (\<lambda>email.
     try_pure (normalize_waitlist_text name NAME_MAX ''name'') c (\<lambda>name.
     try_pure (normalize_waitlist_text note NOTE_MAX ''note'') c (\<lambda>note.
       case map_of (st_waitlist (live c)) email of
         Some existing \<Rightarrow> (Inr (AlreadyListed existing), c)
       | None \<Rightarrow>
           if MAX_WAITLIST \<le> length (st_waitlist (live c)) then (Inl WaitlistFull, c)
           else let now = env_clk ev 0;
                    signup = \<lparr>wl_email = email, wl_name = name, wl_note = note, wl_status = Listed,
                              wl_source = WAITLIST_SOURCE, wl_request_count = 1,
                              wl_created_at = now, wl_last_requested_at = now\<rparr>
                in commit ev 0
                     ((live c)\<lparr>st_waitlist := bt_put email signup (st_waitlist (live c))\<rparr>)
                     (Created signup) c)))"

definition waitlist_len :: "state \<Rightarrow> nat" where
  "waitlist_len s = length (st_waitlist s)"

text \<open>Oldest first, then by address.\<close>

definition list_waitlist :: "state \<Rightarrow> waitlist_signup list" where
  "list_waitlist s = sort_key (\<lambda>w. (wl_created_at w, wl_email w)) (map snd (st_waitlist s))"

section \<open>A normalised address stays as it is\<close>

lemma to_lower_printing: "printing c \<Longrightarrow> printing (to_ascii_lower c)"
  by (simp add: printing_def to_ascii_lower_def is_ascii_uppercase_def byte_def)

lemma to_lower_idem [simp]: "to_ascii_lower (to_ascii_lower c) = to_ascii_lower c"
  by (simp add: to_ascii_lower_def is_ascii_uppercase_def byte_def)

lemma lowercase_idem [simp]: "to_ascii_lowercase (to_ascii_lowercase s) = to_ascii_lowercase s"
  by (simp add: to_ascii_lowercase_def comp_def)

lemma alphanumeric_printing: "is_ascii_alphanumeric c \<Longrightarrow> printing c"
  by (auto simp: printing_def is_ascii_alphanumeric_def is_ascii_lowercase_def
      is_ascii_uppercase_def is_ascii_digit_def)

lemma address_chars: "list_all printing ''._%+-@''"
  by code_simp

lemma local_printing: "local_char c \<Longrightarrow> printing c"
  using address_chars by (auto simp: local_char_def alphanumeric_printing)

lemma label_printing: "label_char c \<Longrightarrow> printing c"
  using address_chars by (auto simp: label_char_def alphanumeric_printing)

lemma split_on_chars: "\<forall>p \<in> set (split_on c s). list_all P p \<Longrightarrow> P c \<Longrightarrow> list_all P s"
  by (induction s) (auto split: if_splits list.splits)

text \<open>A normalised address is at most 254 printing ASCII bytes, none of them an upper case letter,
  with one at sign.\<close>

definition normal_email :: "string \<Rightarrow> bool" where
  "normal_email email = (normalize_waitlist_email email = Inr email)"

lemma normalized_parts:
  assumes "normalize_waitlist_email raw = Inr email"
  obtains local domain where "email = to_ascii_lowercase (str_trim raw)"
    and "email = local @ CHR ''@'' # domain" and "CHR ''@'' \<notin> set local" and "CHR ''@'' \<notin> set domain"
    and "local \<noteq> []" and "length email \<le> EMAIL_MAX" and "length local \<le> LOCAL_MAX"
    and "local_part_ok local" and "domain_ok domain" and "3 \<le> length email"
proof -
  obtain local domain where split: "split_once (CHR ''@'') email = Some (local, domain)"
    and email: "email = to_ascii_lowercase (str_trim raw)"
    and ok: "3 \<le> length email" "length email \<le> EMAIL_MAX" "local \<noteq> []" "length local \<le> LOCAL_MAX"
      "count_list email (CHR ''@'') = 1" "local_part_ok local" "domain_ok domain"
    using assms by (auto simp: normalize_waitlist_email_def Let_def not_less split: option.splits if_splits)
  from split have parts: "email = local @ CHR ''@'' # domain" "CHR ''@'' \<notin> set local"
    by (simp_all add: split_once_Some)
  then have "CHR ''@'' \<notin> set domain" using ok(5) by (simp add: count_list_0_iff)
  with that parts email ok show thesis by blast
qed

lemma normalized_printing:
  assumes "normalize_waitlist_email raw = Inr email"
  shows "list_all printing email"
proof -
  obtain local domain where parts: "email = local @ CHR ''@'' # domain"
    and ok: "local_part_ok local" "domain_ok domain"
    using normalized_parts [OF assms] by metis
  have "list_all printing local"
    using ok(1) by (auto simp: local_part_ok_def list_all_iff local_printing)
  moreover have "list_all printing domain"
    using ok(2) address_chars
    by (intro split_on_chars [of "CHR ''.''"])
      (auto simp: domain_ok_def Let_def list_all_iff label_printing)
  ultimately show ?thesis using address_chars by (simp add: parts)
qed

lemma normalize_idem:
  assumes "normalize_waitlist_email raw = Inr email"
  shows "normal_email email"
proof -
  have "email = to_ascii_lowercase (str_trim raw)" using normalized_parts [OF assms] by metis
  then have "to_ascii_lowercase (str_trim email) = to_ascii_lowercase (str_trim raw)"
    using trim_printing [OF normalized_printing [OF assms]] by simp
  then have "normalize_waitlist_email email = normalize_waitlist_email raw"
    by (simp add: normalize_waitlist_email_def)
  with assms show ?thesis by (simp add: normal_email_def)
qed

section \<open>The list\<close>

text \<open>What a waitlist looks like: in key order, each row under its own normalised address, no more
  rows than the cap, each asked for once.\<close>

definition waitlist_ok :: "(string \<times> waitlist_signup) list \<Rightarrow> bool" where
  "waitlist_ok m =
     (bt_ok m \<and> length m \<le> MAX_WAITLIST \<and>
      (\<forall>(email, w) \<in> set m. wl_email w = email \<and> normal_email email \<and> wl_request_count w = 1))"

lemma waitlist_ok_Nil [simp]: "waitlist_ok []"
  by (simp add: waitlist_ok_def bt_ok_def)

lemma bt_put_length: "length (bt_put k v m) \<le> length m + 1"
  by (induction k v m rule: bt_put.induct) auto

lemma bt_put_set: "set (bt_put k v m) \<subseteq> insert (k, v) (set m)"
  by (induction k v m rule: bt_put.induct) auto

lemma waitlist_ok_put:
  assumes "waitlist_ok m" and "length m < MAX_WAITLIST" and "normal_email email"
    and "wl_email w = email" and "wl_request_count w = 1"
  shows "waitlist_ok (bt_put email w m)"
  using assms bt_put_length [of email w m] bt_put_set [of email w m]
  by (auto simp: waitlist_ok_def bt_put_ok)

text \<open>Joining: the ways it goes.\<close>

lemma join_waitlist_cases:
  obtains (refused) e where "join_waitlist ev raw name note c = (Inl e, c)"
  | (listed) email w where "normalize_waitlist_email raw = Inr email"
      and "map_of (st_waitlist (live c)) email = Some w"
      and "join_waitlist ev raw name note c = (Inr (AlreadyListed w), c)"
  | (created) email w where "normalize_waitlist_email raw = Inr email"
      and "map_of (st_waitlist (live c)) email = None"
      and "length (st_waitlist (live c)) < MAX_WAITLIST"
      and "wl_email w = email" and "wl_request_count w = 1" and "wl_status w = Listed"
      and "join_waitlist ev raw name note c =
             commit ev 0 ((live c)\<lparr>st_waitlist := bt_put email w (st_waitlist (live c))\<rparr>) (Created w) c"
proof (cases "normalize_waitlist_email raw")
  case (Inl e)
  with refused show thesis by (simp add: join_waitlist_def)
next
  case (Inr email)
  note email = Inr
  show thesis
  proof (cases "normalize_waitlist_text name NAME_MAX ''name''")
    case (Inl e)
    with email refused show thesis by (simp add: join_waitlist_def)
  next
    case (Inr name')
    note name = Inr
    show thesis
    proof (cases "normalize_waitlist_text note NOTE_MAX ''note''")
      case (Inl e)
      with email name refused show thesis by (simp add: join_waitlist_def)
    next
      case (Inr note')
      note inputs = email name Inr
      show thesis
      proof (cases "map_of (st_waitlist (live c)) email")
        case (Some w)
        with inputs listed show thesis by (simp add: join_waitlist_def)
      next
        case None
        let ?w = "\<lparr>wl_email = email, wl_name = name', wl_note = note', wl_status = Listed,
          wl_source = WAITLIST_SOURCE, wl_request_count = 1, wl_created_at = env_clk ev 0,
          wl_last_requested_at = env_clk ev 0\<rparr>"
        show thesis
        proof (cases "MAX_WAITLIST \<le> length (st_waitlist (live c))")
          case True
          with inputs None refused show thesis by (simp add: join_waitlist_def)
        next
          case False
          with inputs None show thesis
            by (intro created [of email ?w]) (simp_all add: join_waitlist_def Let_def)
        qed
      qed
    qed
  qed
qed

end
