(* ===== verification/Organizations.thy ===== *)
theory Organizations
  imports Auth
begin

text \<open>
  Organizations with owners and the teams they run (\<^verbatim>\<open>engine/organizations.rs\<close>): who may see and run
  an organization, the changes of owners and members, and the invariant of the owner list.
\<close>

definition MAX_OWNERS :: nat where "MAX_OWNERS = 20"
definition MAX_MEMBERS :: nat where "MAX_MEMBERS = 200"

record organization_view =
  ov_organization :: organization
  ov_teams :: "team list"
  ov_can_manage :: bool

section \<open>Who may see and run an organization\<close>

definition state_is_admin :: "state \<Rightarrow> string \<Rightarrow> bool" where
  "state_is_admin s login =
     (case hm_get (st_accounts s) login of
        None \<Rightarrow> False
      | Some account \<Rightarrow> permits_authentication (ua_status account) \<and> ua_role account = RoleAdmin)"

definition active_account :: "state \<Rightarrow> string \<Rightarrow> bool" where
  "active_account s login =
     (case hm_get (st_accounts s) login of
        None \<Rightarrow> False | Some account \<Rightarrow> permits_authentication (ua_status account))"

definition may_run_organization :: "state \<Rightarrow> string \<Rightarrow> string \<Rightarrow> bool" where
  "may_run_organization s actor org =
     (if state_is_admin s actor then True
      else active_account s actor \<and>
           (case hm_get (st_organizations s) org of
              None \<Rightarrow> False | Some organization \<Rightarrow> actor \<in> set (og_owners organization)))"

definition is_team_member :: "state \<Rightarrow> string \<Rightarrow> string \<Rightarrow> string \<Rightarrow> bool" where
  "is_team_member s org tm login =
     (case hm_get (st_teams s) (org, tm) of
        None \<Rightarrow> False | Some stored \<Rightarrow> login \<in> set (tm_members stored))"

definition may_view_organization :: "state \<Rightarrow> string \<Rightarrow> string \<Rightarrow> bool" where
  "may_view_organization s actor org =
     (may_run_organization s actor org \<or>
      list_ex (\<lambda>tm. tm_organization tm = org \<and> actor \<in> set (tm_members tm)) (hm_values (st_teams s)))"

definition organization_not_found :: "string \<Rightarrow> forge_error" where
  "organization_not_found org = NotFound (''organization '' @ org)"

definition visible_organization :: "state \<Rightarrow> string \<Rightarrow> string \<Rightarrow> forge_error + organization" where
  "visible_organization s actor org =
     (case hm_get (st_organizations s) org of
        None \<Rightarrow> Inl (organization_not_found org)
      | Some organization \<Rightarrow>
          if may_view_organization s actor org then Inr organization
          else Inl (organization_not_found org))"

definition require_active :: "state \<Rightarrow> string \<Rightarrow> forge_error + unit" where
  "require_active s actor =
     (if active_account s actor then Inr () else Inl (Validation ''account is not active''))"

definition managed_organization :: "state \<Rightarrow> string \<Rightarrow> string \<Rightarrow> forge_error + organization" where
  "managed_organization s actor org =
     try_res (require_active s actor) (\<lambda>_.
     try_res (visible_organization s actor org) (\<lambda>organization.
       if \<not> may_run_organization s actor org
       then Inl (Forbidden ''organization owner or forge administrator required'')
       else Inr organization))"

section \<open>Named people\<close>

definition active_person :: "state \<Rightarrow> string \<Rightarrow> forge_error + string" where
  "active_person s login =
     (let login = to_ascii_lowercase (str_trim login)
      in case hm_get (st_accounts s) login of
           None \<Rightarrow> Inl (Validation (login @ '' is not an active account''))
         | Some account \<Rightarrow>
             if permits_authentication (ua_status account) then Inr (ua_canonical_login account)
             else Inl (Validation (login @ '' is not an active account'')))"

fun collect_people :: "state \<Rightarrow> string list \<Rightarrow> string list \<Rightarrow> forge_error + string list" where
  "collect_people s [] people = Inr people"
| "collect_people s (login # logins) people =
     try_res (active_person s login) (\<lambda>login.
       collect_people s logins (if login \<in> set people then people else people @ [login]))"

definition active_people ::
  "state \<Rightarrow> string list \<Rightarrow> nat \<Rightarrow> string \<Rightarrow> forge_error + string list" where
  "active_people s logins limit role =
     try_res (collect_people s logins []) (\<lambda>people.
       if limit < length people
       then Inl (Validation (''at most '' @ show_nat limit @ '' '' @ role @ ''s may be named''))
       else Inr (sort people))"

section \<open>Operations\<close>

definition organization_display_name :: "string option \<Rightarrow> forge_error + string option" where
  "organization_display_name name =
     (case map_option str_trim name of
        None \<Rightarrow> Inr None
      | Some text \<Rightarrow>
          if text = [] then Inr None
          else if 80 < char_count text
          then Inl (Validation ''display name may not exceed 80 characters'') else Inr (Some text))"

definition put_organization :: "string \<Rightarrow> organization \<Rightarrow> state \<Rightarrow> state" where
  "put_organization org organization s =
     s\<lparr>st_organizations := hm_put org organization (st_organizations s)\<rparr>"

definition put_team :: "string \<Rightarrow> string \<Rightarrow> team \<Rightarrow> state \<Rightarrow> state" where
  "put_team org slug tm s = s\<lparr>st_teams := hm_put (org, slug) tm (st_teams s)\<rparr>"

text \<open>The change is stored first and then audited: a failing audit leaves the change in place.\<close>

definition commit_then_audit ::
  "env \<Rightarrow> state \<Rightarrow> 'a \<Rightarrow> string \<Rightarrow> string \<Rightarrow> string \<Rightarrow> json \<Rightarrow> core \<Rightarrow> 'a outcome" where
  "commit_then_audit ev s x actor action subject detail c =
     try_op (commit ev 0 s x c) (\<lambda>x c.
     try_op (append_audit_as ev 1 actor action subject ''completed'' detail c) (\<lambda>_ c. (Inr x, c)))"

definition create_organization_as ::
  "env \<Rightarrow> string \<Rightarrow> string \<Rightarrow> string option \<Rightarrow> string list \<Rightarrow> core \<Rightarrow> organization outcome" where
  "create_organization_as ev actor login display_name owners c =
     try_pure (require_login login) c (\<lambda>_.
     try_pure (organization_display_name display_name) c (\<lambda>display_name.
       let s = live c in
       if \<not> state_is_admin s actor
       then (Inl (Forbidden ''only a forge administrator may create an organization''), c)
       else if hm_has (st_organizations s) login \<or> hm_has (st_accounts s) login \<or> hm_has (st_users s) login
       then (Inl (Conflict (''login '' @ login @ '' is taken'')), c)
       else try_pure (active_people s owners MAX_OWNERS ''owner'') c (\<lambda>owners.
         if owners = [] then (Inl (Validation ''an organization needs at least one owner''), c)
         else let organization = \<lparr>og_id = env_fresh ev 0, og_login = login,
                                  og_display_name = display_name, og_created_at = env_clk ev 0,
                                  og_owners = owners, og_created_by = Some actor\<rparr>
              in commit_then_audit ev (put_organization login organization s) organization actor
                   ''org.create'' (''org:'' @ login)
                   (JObj [(''owners'', JArr (map JStr owners))]) c)))"

definition list_organizations_for :: "state \<Rightarrow> string \<Rightarrow> forge_error + organization list" where
  "list_organizations_for s actor =
     try_res (require_active s actor) (\<lambda>_.
       Inr (sort_key og_login
              [organization \<leftarrow> hm_values (st_organizations s).
                 may_view_organization s actor (og_login organization)]))"

definition organization_for :: "state \<Rightarrow> string \<Rightarrow> string \<Rightarrow> forge_error + organization_view" where
  "organization_for s actor org =
     try_res (require_active s actor) (\<lambda>_.
     try_res (visible_organization s actor org) (\<lambda>organization.
       Inr \<lparr>ov_organization = organization,
            ov_teams = sort_key tm_slug [tm \<leftarrow> hm_values (st_teams s). tm_organization tm = org],
            ov_can_manage = may_run_organization s actor org\<rparr>))"

definition membership_detail :: "string \<Rightarrow> json" where
  "membership_detail login = JObj [(''login'', JStr login)]"

definition add_organization_owner ::
  "env \<Rightarrow> string \<Rightarrow> string \<Rightarrow> string \<Rightarrow> core \<Rightarrow> organization outcome" where
  "add_organization_owner ev actor org login c =
     try_pure (managed_organization (live c) actor org) c (\<lambda>organization.
     try_pure (active_person (live c) login) c (\<lambda>login.
       if login \<in> set (og_owners organization) then (Inr organization, c)
       else if MAX_OWNERS \<le> length (og_owners organization)
       then (Inl (Validation (''an organization may have at most '' @ show_nat MAX_OWNERS @ '' owners'')), c)
       else let updated = organization\<lparr>og_owners := sort (og_owners organization @ [login])\<rparr>
            in commit_then_audit ev (put_organization org updated (live c)) updated actor
                 ''org.owner.add'' (''org:'' @ org) (membership_detail login) c))"

definition remove_organization_owner ::
  "env \<Rightarrow> string \<Rightarrow> string \<Rightarrow> string \<Rightarrow> core \<Rightarrow> organization outcome" where
  "remove_organization_owner ev actor org login c =
     try_pure (managed_organization (live c) actor org) c (\<lambda>organization.
       if login \<notin> set (og_owners organization) then (Inr organization, c)
       else if length (og_owners organization) = 1
       then (Inl (Validation ''last_owner: add another owner before removing the last one''), c)
       else let updated = organization\<lparr>og_owners := [owner \<leftarrow> og_owners organization. owner \<noteq> login]\<rparr>
            in commit_then_audit ev (put_organization org updated (live c)) updated actor
                 ''org.owner.remove'' (''org:'' @ org) (membership_detail login) c)"

definition team_slug :: "string \<Rightarrow> string option \<Rightarrow> string" where
  "team_slug name slug =
     (case map_option str_trim slug of
        Some text \<Rightarrow> if text \<noteq> [] then text else slugify name
      | None \<Rightarrow> slugify name)"

definition require_team_slug :: "string \<Rightarrow> forge_error + unit" where
  "require_team_slug slug =
     (case require_login slug of
        Inr u \<Rightarrow> Inr u
      | Inl _ \<Rightarrow> Inl (Validation
          ''team slug must be lowercase letters, numbers, hyphen, or underscore''))"

definition team_subject :: "string \<Rightarrow> string \<Rightarrow> string" where
  "team_subject org slug = ''team:'' @ slug_name org slug"

definition create_team_as ::
  "env \<Rightarrow> string \<Rightarrow> string \<Rightarrow> string \<Rightarrow> string option \<Rightarrow> string list \<Rightarrow> core \<Rightarrow> team outcome" where
  "create_team_as ev actor org name slug members c =
     try_pure (require_name ''team name'' name) c (\<lambda>_.
       if 80 < char_count (str_trim name)
       then (Inl (Validation ''team name may not exceed 80 characters''), c)
       else let slug = team_slug name slug in
       try_pure (require_team_slug slug) c (\<lambda>_.
       try_pure (managed_organization (live c) actor org) c (\<lambda>_.
         if hm_has (st_teams (live c)) (org, slug)
         then (Inl (Conflict (''team '' @ slug_name org slug)), c)
         else try_pure (active_people (live c) members MAX_MEMBERS ''member'') c (\<lambda>members.
           let team = \<lparr>tm_id = env_fresh ev 0, tm_organization = org, tm_slug = slug,
                       tm_name = str_trim name, tm_members = members,
                       tm_created_at = env_clk ev 0\<rparr>
           in commit_then_audit ev (put_team org slug team (live c)) team actor ''team.create''
                (team_subject org slug) (JObj [(''members'', JArr (map JStr members))]) c))))"

definition team_not_found :: "string \<Rightarrow> string \<Rightarrow> forge_error" where
  "team_not_found org slug = NotFound (''team '' @ slug_name org slug)"

definition add_team_member ::
  "env \<Rightarrow> string \<Rightarrow> string \<Rightarrow> string \<Rightarrow> string \<Rightarrow> core \<Rightarrow> team outcome" where
  "add_team_member ev actor org slug login c =
     try_pure (managed_organization (live c) actor org) c (\<lambda>_.
     try_pure (ok_or (hm_get (st_teams (live c)) (org, slug)) (team_not_found org slug)) c (\<lambda>stored.
     try_pure (active_person (live c) login) c (\<lambda>login.
       if login \<in> set (tm_members stored) then (Inr stored, c)
       else if MAX_MEMBERS \<le> length (tm_members stored)
       then (Inl (Validation (''a team may have at most '' @ show_nat MAX_MEMBERS @ '' members'')), c)
       else let updated = stored\<lparr>tm_members := sort (tm_members stored @ [login])\<rparr>
            in commit_then_audit ev (put_team org slug updated (live c)) updated actor
                 ''team.member.add'' (team_subject org slug) (membership_detail login) c)))"

definition remove_team_member ::
  "env \<Rightarrow> string \<Rightarrow> string \<Rightarrow> string \<Rightarrow> string \<Rightarrow> core \<Rightarrow> team outcome" where
  "remove_team_member ev actor org slug login c =
     try_pure (managed_organization (live c) actor org) c (\<lambda>_.
     try_pure (ok_or (hm_get (st_teams (live c)) (org, slug)) (team_not_found org slug)) c (\<lambda>stored.
       if login \<notin> set (tm_members stored) then (Inr stored, c)
       else let updated = stored\<lparr>tm_members := [member \<leftarrow> tm_members stored. member \<noteq> login]\<rparr>;
                (revoked, s) = revoke_steward_tokens org slug login (env_clk ev 0)
                                 (put_team org slug updated (live c))
            in commit_then_audit ev s updated actor ''team.member.remove'' (team_subject org slug)
                 (JObj [(''login'', JStr login), (''revoked_agent_tokens'', JNum (int revoked))]) c))"

section \<open>The owner list\<close>

definition organization_ok :: "string \<Rightarrow> organization \<Rightarrow> bool" where
  "organization_ok login organization =
     (og_login organization = login \<and> sorted (og_owners organization) \<and>
      distinct (og_owners organization) \<and> length (og_owners organization) \<le> MAX_OWNERS \<and>
      (og_created_by organization \<noteq> None \<longrightarrow> og_owners organization \<noteq> []))"

lemma collect_people_distinct:
  "collect_people s logins people = Inr found \<Longrightarrow> distinct people \<Longrightarrow> distinct found"
proof (induction s logins people rule: collect_people.induct)
  case (2 s login logins people)
  from "2.prems" obtain x where
    found: "collect_people s logins (if x \<in> set people then people else people @ [x]) = Inr found"
    by (auto simp: try_res_Inr)
  show ?case by (rule "2.IH" [OF found]) (use "2.prems"(2) in simp)
qed simp

lemma active_person_Inr:
  "active_person s login = Inr who \<Longrightarrow>
     \<exists>account. hm_get (st_accounts s) (to_ascii_lowercase (str_trim login)) = Some account \<and>
       ua_status account = Active \<and> who = ua_canonical_login account"
  by (auto simp: active_person_def Let_def permits_authentication_def split: option.splits if_splits)

lemma active_people_Inr:
  assumes "active_people s logins limit role = Inr people"
  shows "sorted people" and "distinct people" and "length people \<le> limit"
  using assms collect_people_distinct [of s logins "[]"]
  by (auto simp: active_people_def ok_paths split: if_splits)

lemma managed_organization_Inr:
  "managed_organization s actor org = Inr organization \<longleftrightarrow>
     active_account s actor \<and> may_run_organization s actor org \<and>
     hm_get (st_organizations s) org = Some organization"
  by (auto simp: managed_organization_def require_active_def visible_organization_def
      may_view_organization_def ok_paths split: option.splits if_splits)

lemma filter_one_less:
  assumes "distinct xs" and "x \<in> set xs" and "length xs \<noteq> 1"
  shows "[y \<leftarrow> xs. y \<noteq> x] \<noteq> []"
proof
  assume "[y \<leftarrow> xs. y \<noteq> x] = []"
  then have "set xs \<subseteq> {x}" by (auto simp: filter_empty_conv)
  with assms(2) have "set xs = {x}" by auto
  with assms(1,3) distinct_card [of xs] show False by simp
qed

lemma owner_added:
  assumes "organization_ok org organization" and "login \<notin> set (og_owners organization)"
    and "length (og_owners organization) < MAX_OWNERS"
  shows "organization_ok org (organization\<lparr>og_owners := sort (og_owners organization @ [login])\<rparr>)"
proof -
  have "sort (og_owners organization @ [login]) \<noteq> []"
    by (metis length_sort length_append_singleton list.size(3) nat.distinct(1))
  with assms show ?thesis by (simp add: organization_ok_def)
qed

lemma owner_removed:
  assumes "organization_ok org organization" and "login \<in> set (og_owners organization)"
    and "length (og_owners organization) \<noteq> 1"
  shows "organization_ok org (organization\<lparr>og_owners := [o' \<leftarrow> og_owners organization. o' \<noteq> login]\<rparr>)"
proof -
  have "[o' \<leftarrow> og_owners organization. o' \<noteq> login] \<noteq> []"
    using assms(1,3) by (intro filter_one_less assms(2)) (simp_all add: organization_ok_def)
  moreover have "length [o' \<leftarrow> og_owners organization. o' \<noteq> login] \<le> MAX_OWNERS"
    by (rule le_trans [OF length_filter_le]) (use assms(1) in \<open>simp add: organization_ok_def\<close>)
  ultimately show ?thesis using assms(1) by (simp add: organization_ok_def sorted_wrt_filter)
qed

text \<open>What a stored change leaves, also when its audit failed.\<close>

lemma commit_then_audit_leaves:
  "live (snd (commit_then_audit ev s x actor action subject detail c)) = s \<or>
   commit_then_audit ev s x actor action subject detail c = (Inl (the (env_fault ev 0)), c)"
proof (cases "write_fails ev 0 c")
  case True
  then show ?thesis by (simp add: commit_then_audit_def commit_eq)
next
  case False
  let ?a = "append_audit_as ev 1 actor action subject ''completed'' detail (persisted s c)"
  have "live (snd ?a) = s" by simp
  then have "live (snd (try_op ?a (\<lambda>_ c. (Inr x, c)))) = s"
    by (cases ?a; cases "fst ?a") simp_all
  then show ?thesis using False by (simp add: commit_then_audit_def commit_eq)
qed

lemma commit_then_audit_Inr:
  "commit_then_audit ev s x actor action subject detail c = (Inr y, c') \<Longrightarrow> y = x \<and> live c' = s"
  using append_audit_live [of ev 1 actor action subject "''completed''" detail "persisted s c"]
  by (auto simp: commit_then_audit_def try_op_Inr simp del: append_audit_live)

text \<open>In a core without a store both always succeed.\<close>

lemma commit_then_audit_memory:
  "storage c = None \<Longrightarrow> str_trim actor \<noteq> [] \<Longrightarrow> str_trim action \<noteq> [] \<Longrightarrow>
     commit_then_audit ev s x actor action subject detail c = (Inr x, persisted s c)"
  by (simp add: commit_then_audit_def commit_eq write_fails_def append_audit_as_def AUDIT_PHASES_def
      persisted_def Let_def)

section \<open>Properties\<close>

text \<open>An organization the actor may not see answers as one that does not exist.\<close>

lemma hidden_managed:
  assumes "active_account s actor" and "\<not> may_view_organization s actor org"
  shows "managed_organization s actor org = Inl (organization_not_found org)"
  using assms by (simp add: managed_organization_def require_active_def visible_organization_def split: option.split)

lemma hidden_organization_undisclosed_parts:
  assumes active: "active_account (live c) actor"
    and hidden: "\<not> may_view_organization (live c) actor org"
  shows "organization_for (live c) actor org = Inl (NotFound (''organization '' @ org))"
    and "add_organization_owner ev actor org login c = (Inl (NotFound (''organization '' @ org)), c)"
    and "remove_organization_owner ev actor org login c = (Inl (NotFound (''organization '' @ org)), c)"
    and "add_team_member ev actor org slug login c = (Inl (NotFound (''organization '' @ org)), c)"
    and "remove_team_member ev actor org slug login c = (Inl (NotFound (''organization '' @ org)), c)"
  using hidden_managed [OF assms] assms
  by (simp_all add: organization_for_def add_organization_owner_def remove_organization_owner_def
      add_team_member_def remove_team_member_def organization_not_found_def require_active_def
      visible_organization_def split: option.split)

text \<open>
  Who may not see an organization learns nothing of it: to an active account that neither runs it
  nor sits in one of its teams, reading it, changing its owners and changing its teams answer with the
  error an organization that does not exist gives, and change nothing.
\<close>

theorem hidden_organization_undisclosed:
  assumes "active_account (live c) actor" and "\<not> may_view_organization (live c) actor org"
  shows "organization_for (live c) actor org = Inl (NotFound (''organization '' @ org)) \<and>
    add_organization_owner ev actor org login c = (Inl (NotFound (''organization '' @ org)), c) \<and>
    remove_organization_owner ev actor org login c = (Inl (NotFound (''organization '' @ org)), c) \<and>
    add_team_member ev actor org slug login c = (Inl (NotFound (''organization '' @ org)), c) \<and>
    remove_team_member ev actor org slug login c = (Inl (NotFound (''organization '' @ org)), c)"
  using hidden_organization_undisclosed_parts [OF assms] by blast

definition ex_organization :: organization where
  "ex_organization = \<lparr>og_id = 5, og_login = ''acme'', og_display_name = None, og_created_at = 0,
                      og_owners = [''ann''], og_created_by = Some ''root''\<rparr>"

definition ex_org_core :: core where
  "ex_org_core = core_new\<lparr>live := ex_state\<lparr>
     st_accounts := [(''ann'', ex_account ''ann'' RoleUser), (''bob'', ex_account ''bob'' RoleUser)],
     st_organizations := [(''acme'', ex_organization)]\<rparr>\<rparr>"

lemma ex_org_core_sel [simp]:
  "st_accounts (live ex_org_core) = [(''ann'', ex_account ''ann'' RoleUser), (''bob'', ex_account ''bob'' RoleUser)]"
  "st_organizations (live ex_org_core) = [(''acme'', ex_organization)]"
  "st_teams (live ex_org_core) = []"
  by (simp_all add: ex_org_core_def ex_state_def default_state_def)

lemma ex_account_sel [simp]:
  "ua_status (ex_account login role) = Active" "ua_role (ex_account login role) = role"
  "ua_canonical_login (ex_account login role) = login" "ua_auth_epoch (ex_account login role) = 0"
  by (simp_all add: ex_account_def)

lemma ex_org_active: "active_account (live ex_org_core) ''bob''" "active_account (live ex_org_core) ''ann''"
  by (simp_all add: active_account_def permits_authentication_def)

theorem hidden_organization_undisclosed_witness:
  "organization_for (live ex_org_core) ''bob'' ''acme'' = Inl (NotFound ''organization acme'') \<and>
   add_organization_owner ex_env ''bob'' ''acme'' ''bob'' ex_org_core =
     (Inl (NotFound ''organization acme''), ex_org_core)"
proof -
  have hidden: "\<not> may_view_organization (live ex_org_core) ''bob'' ''acme''"
    by (simp add: may_view_organization_def may_run_organization_def state_is_admin_def
        permits_authentication_def ex_organization_def hm_values_def)
  show ?thesis
    using hidden_organization_undisclosed [OF ex_org_active(1) hidden] by simp
qed

text \<open>Who changed an organization: an active account that runs it, with the row it was given.\<close>

lemma add_owner_cases:
  obtains (same) r where "add_organization_owner ev actor org login c = (r, c)"
  | (changed) organization who where "managed_organization (live c) actor org = Inr organization"
      and "who \<notin> set (og_owners organization)" and "length (og_owners organization) < MAX_OWNERS"
      and "add_organization_owner ev actor org login c =
             commit_then_audit ev
               (put_organization org (organization\<lparr>og_owners := sort (og_owners organization @ [who])\<rparr>) (live c))
               (organization\<lparr>og_owners := sort (og_owners organization @ [who])\<rparr>) actor
               ''org.owner.add'' (''org:'' @ org) (membership_detail who) c"
proof (cases "managed_organization (live c) actor org")
  case (Inl e)
  with same show thesis by (simp add: add_organization_owner_def)
next
  case (Inr organization)
  note managed = Inr
  show thesis
  proof (cases "active_person (live c) login")
    case (Inl e)
    with managed same show thesis by (simp add: add_organization_owner_def)
  next
    case (Inr who)
    with managed same changed [of organization who] show thesis
      by (cases "who \<in> set (og_owners organization)"; cases "MAX_OWNERS \<le> length (og_owners organization)")
        (simp_all add: add_organization_owner_def Let_def not_le)
  qed
qed

lemma remove_owner_cases:
  obtains (same) r where "remove_organization_owner ev actor org login c = (r, c)"
  | (changed) organization where "managed_organization (live c) actor org = Inr organization"
      and "login \<in> set (og_owners organization)" and "length (og_owners organization) \<noteq> 1"
      and "remove_organization_owner ev actor org login c =
             commit_then_audit ev
               (put_organization org (organization\<lparr>og_owners := [o' \<leftarrow> og_owners organization. o' \<noteq> login]\<rparr>) (live c))
               (organization\<lparr>og_owners := [o' \<leftarrow> og_owners organization. o' \<noteq> login]\<rparr>) actor
               ''org.owner.remove'' (''org:'' @ org) (membership_detail login) c"
proof (cases "managed_organization (live c) actor org")
  case (Inl e)
  with same show thesis by (simp add: remove_organization_owner_def)
next
  case (Inr organization)
  with same changed show thesis
    by (cases "login \<in> set (og_owners organization)"; cases "length (og_owners organization) = 1")
      (simp_all add: remove_organization_owner_def Let_def)
qed

lemma create_organization_as_cases:
  obtains (refused) e where "create_organization_as ev actor login display owners c = (Inl e, c)"
  | (created) organization where "state_is_admin (live c) actor"
      and "\<not> hm_has (st_organizations (live c)) login" and "\<not> hm_has (st_accounts (live c)) login"
      and "organization_ok login organization" and "og_created_by organization = Some actor"
      and "create_organization_as ev actor login display owners c =
             commit_then_audit ev (put_organization login organization (live c)) organization actor
               ''org.create'' (''org:'' @ login)
               (JObj [(''owners'', JArr (map JStr (og_owners organization)))]) c"
proof (cases "require_login login")
  case (Inl e)
  with refused show thesis by (simp add: create_organization_as_def)
next
  case (Inr u)
  note login = Inr
  show thesis
  proof (cases "organization_display_name display")
    case (Inl e)
    with login refused show thesis by (simp add: create_organization_as_def)
  next
    case (Inr shown)
    note named = login Inr
    have refusal: thesis if "\<exists>e. create_organization_as ev actor login display owners c = (Inl e, c)"
      using that refused by blast
    consider "\<not> state_is_admin (live c) actor"
      | "hm_has (st_organizations (live c)) login \<or> hm_has (st_accounts (live c)) login \<or> hm_has (st_users (live c)) login"
      | e where "active_people (live c) owners MAX_OWNERS ''owner'' = Inl e"
      | "active_people (live c) owners MAX_OWNERS ''owner'' = Inr []"
      | (people) people where "state_is_admin (live c) actor"
          "\<not> (hm_has (st_organizations (live c)) login \<or> hm_has (st_accounts (live c)) login \<or> hm_has (st_users (live c)) login)"
          "active_people (live c) owners MAX_OWNERS ''owner'' = Inr people" "people \<noteq> []"
      by (cases "active_people (live c) owners MAX_OWNERS ''owner''") blast+
    then show thesis
    proof cases
      case people
      let ?o = "\<lparr>og_id = env_fresh ev 0, og_login = login, og_display_name = shown,
        og_created_at = env_clk ev 0, og_owners = people, og_created_by = Some actor\<rparr>"
      from people named active_people_Inr [OF people(3)] show thesis
        by (intro created [of ?o])
          (simp_all add: create_organization_as_def Let_def organization_ok_def)
    qed (rule refusal, use named in \<open>auto simp: create_organization_as_def Let_def\<close>)+
  qed
qed

text \<open>The bots a team stewards, by id.\<close>

definition steward_bots :: "string \<Rightarrow> string \<Rightarrow> state \<Rightarrow> uuid set" where
  "steward_bots org slug s =
     bo_id ` {br \<in> set (hm_values (st_bots s)).
       bo_owner_kind br = OwnedByOrganization \<and> bo_owner br = org \<and> bo_steward_team br = Some slug}"

lemma revoke_steward_get:
  "hm_get (st_bot_access_tokens (snd (revoke_steward_tokens org slug login now s))) k =
     map_option (\<lambda>r. if bt_revoked_at r = None \<and> bt_bot_id r \<in> steward_bots org slug s \<and>
                        bt_issued_by r = Some login
                     then r\<lparr>bt_revoked_at := Some now\<rparr> else r)
       (hm_get (st_bot_access_tokens s) k)"
  by (simp add: revoke_steward_tokens_def revoke_matching_def Let_def steward_bots_def)

lemma revoke_steward_sel [simp]:
  "st_teams (snd (revoke_steward_tokens org slug login now s)) = st_teams s"
  by (simp add: revoke_steward_tokens_def revoke_matching_def Let_def)

text \<open>
  A member who leaves a team takes their agent tokens along: after the removal they are not on
  the team, every token they issued for a bot the team stewards is revoked, no other token changed,
  and the actor ran the organization.
\<close>

theorem removed_member_loses_tokens:
  assumes ran: "remove_team_member ev actor org slug login c = (Inr tm, c')"
    and member: "is_team_member (live c) org slug login"
  shows "\<not> is_team_member (live c') org slug login \<and> may_run_organization (live c) actor org \<and>
    (\<forall>k r. hm_get (st_bot_access_tokens (live c)) k = Some r \<longrightarrow>
       (if bt_bot_id r \<in> steward_bots org slug (live c) \<and> bt_issued_by r = Some login
        then \<exists>t r'. hm_get (st_bot_access_tokens (live c')) k = Some r' \<and> bt_revoked_at r' = Some t
        else hm_get (st_bot_access_tokens (live c')) k = Some r))"
proof -
  obtain organization stored where managed: "managed_organization (live c) actor org = Inr organization"
    and stored: "hm_get (st_teams (live c)) (org, slug) = Some stored"
    using ran by (auto simp: remove_team_member_def ok_paths)
  with member have listed: "login \<in> set (tm_members stored)" by (simp add: is_team_member_def)
  let ?u = "stored\<lparr>tm_members := [m \<leftarrow> tm_members stored. m \<noteq> login]\<rparr>"
  let ?t = "put_team org slug ?u (live c)"
  have live: "live c' = snd (revoke_steward_tokens org slug login (env_clk ev 0) ?t)"
    using ran managed stored listed
    by (auto simp: remove_team_member_def Let_def split: prod.splits dest: commit_then_audit_Inr)
  have bots: "steward_bots org slug ?t = steward_bots org slug (live c)"
    and tokens: "st_bot_access_tokens ?t = st_bot_access_tokens (live c)"
    and teams: "st_teams ?t = hm_put (org, slug) ?u (st_teams (live c))"
    by (simp_all add: put_team_def steward_bots_def)
  have "\<not> is_team_member (live c') org slug login"
    by (simp add: live is_team_member_def teams)
  moreover have "may_run_organization (live c) actor org"
    using managed by (simp add: managed_organization_Inr)
  ultimately show ?thesis
    by (auto simp: live revoke_steward_get bots tokens)
qed

definition ex_steward_core :: core where
  "ex_steward_core = ex_org_core\<lparr>live := (live ex_org_core)\<lparr>
     st_teams := [((''acme'', ''ops''), \<lparr>tm_id = 6, tm_organization = ''acme'', tm_slug = ''ops'',
       tm_name = ''ops'', tm_members = [''bob''], tm_created_at = 0\<rparr>)],
     st_bots := [(7, \<lparr>bo_id = 7, bo_owner = ''acme'', bo_owner_kind = OwnedByOrganization,
       bo_steward_team = Some ''ops'', bo_slug = ''deploy'', bo_display_name = ''deploy'',
       bo_kind = ''agent'', bo_status = BotActive, bo_reach = ReachGeneral None, bo_auth_epoch = 0,
       bo_credential_generation = 0, bo_last_successful_access = None, bo_last_auth = None,
       bo_last_mutation = None, bo_last_heartbeat = None, bo_last_action = None,
       bo_last_outcome = None, bo_last_repo = None, bo_created_at = 0, bo_updated_at = 0\<rparr>)],
     st_bot_access_tokens := [(''h'', \<lparr>bt_token_hash = ''h'', bt_token_id = ''t'', bt_bot_id = 7,
       bt_key_id = ''k'', bt_generation = 0, bt_label = None, bt_issued_by = Some ''bob'',
       bt_created_at = 0, bt_expires_at = 10, bt_last_used_at = None, bt_revoked_at = None\<rparr>)]\<rparr>\<rparr>"

theorem removed_member_loses_tokens_witness:
  "\<exists>t r. hm_get (st_bot_access_tokens (live (snd
       (remove_team_member ex_env ''ann'' ''acme'' ''ops'' ''bob'' ex_steward_core)))) ''h'' = Some r \<and>
     bt_revoked_at r = Some t"
proof -
  let ?c = ex_steward_core
  have managed: "managed_organization (live ?c) ''ann'' ''acme'' = Inr ex_organization"
    by (simp add: managed_organization_Inr active_account_def permits_authentication_def
        may_run_organization_def ex_steward_core_def ex_organization_def)
  have no_store: "storage ?c = None" by (simp add: ex_steward_core_def ex_org_core_def core_new_def)
  have listed: "is_team_member (live ?c) ''acme'' ''ops'' ''bob''"
    by (simp add: is_team_member_def ex_steward_core_def)
  have stored: "\<exists>tm. hm_get (st_teams (live ?c)) (''acme'', ''ops'') = Some tm \<and> tm_members tm = [''bob'']"
    by (simp add: ex_steward_core_def)
  have named: "str_trim ''ann'' \<noteq> []" "str_trim ''team.member.remove'' \<noteq> []" by code_simp+
  have "\<exists>tm c'. remove_team_member ex_env ''ann'' ''acme'' ''ops'' ''bob'' ?c = (Inr tm, c')"
    using managed stored
    by (auto simp: remove_team_member_def Let_def case_prod_beta commit_then_audit_memory [OF no_store named])
  then obtain tm c' where ran: "remove_team_member ex_env ''ann'' ''acme'' ''ops'' ''bob'' ?c = (Inr tm, c')"
    by blast
  have "7 \<in> steward_bots ''acme'' ''ops'' (live ?c)"
    by (simp add: steward_bots_def hm_values_def ex_steward_core_def image_iff)
  moreover obtain r where "hm_get (st_bot_access_tokens (live ?c)) ''h'' = Some r" "bt_bot_id r = 7"
    "bt_issued_by r = Some ''bob''"
    by (simp add: ex_steward_core_def)
  ultimately show ?thesis
    using removed_member_loses_tokens [OF ran listed] by (fastforce simp: ran)
qed

end
