(* ===== verification/Scores.thy ===== *)
theory Scores
  imports Sample_Store
begin

text \<open>
  Audit scores of a repository (\<^verbatim>\<open>engine/jankurai.rs\<close>): recording with a cap on the rows kept for
  each branch, listing, and the newest score.
\<close>

record record_jankurai_score_request =
  rjs_branch :: string
  rjs_commit_sha :: string
  rjs_score :: "nat option"
  rjs_hard_findings :: "nat option"
  rjs_decision :: string
  rjs_caps_applied :: "string list"
  rjs_report :: "json option"
  rjs_tool_exit :: "int option"

definition MAX_SCORES_PER_BRANCH :: nat where
  "MAX_SCORES_PER_BRANCH = 200"

definition branch_count :: "string \<Rightarrow> jankurai_score list \<Rightarrow> nat" where
  "branch_count branch scores = length [s \<leftarrow> scores. js_branch s = branch]"

text \<open>\<^verbatim>\<open>scores.remove(oldest)\<close>, where \<^verbatim>\<open>oldest\<close> is the first row of the branch with the least instant
  (\<^verbatim>\<open>min_by_key\<close> keeps the first of equals): \<open>t\<close> is that instant.\<close>

definition oldest_instant :: "string \<Rightarrow> jankurai_score list \<Rightarrow> time" where
  "oldest_instant branch scores =
     Min (js_created_at ` set [s \<leftarrow> scores. js_branch s = branch])"

fun remove_first :: "('a \<Rightarrow> bool) \<Rightarrow> 'a list \<Rightarrow> 'a list" where
  "remove_first P [] = []"
| "remove_first P (x # xs) = (if P x then xs else x # remove_first P xs)"

definition remove_oldest :: "string \<Rightarrow> jankurai_score list \<Rightarrow> jankurai_score list" where
  "remove_oldest branch scores =
     remove_first (\<lambda>s. js_branch s = branch \<and> js_created_at s = oldest_instant branch scores) scores"

lemma remove_first_set: "set (remove_first P xs) \<subseteq> set xs"
  by (induction xs) auto

lemma remove_first_length: "\<exists>x \<in> set xs. P x \<Longrightarrow> length (remove_first P xs) + 1 = length xs"
  by (induction xs) auto

lemma remove_first_filter:
  "(\<And>x. P x \<Longrightarrow> Q x) \<Longrightarrow> filter Q (remove_first P xs) = remove_first P (filter Q xs)"
  by (induction xs) auto

lemma remove_first_other: "(\<And>x. P x \<Longrightarrow> \<not> Q x) \<Longrightarrow> filter Q (remove_first P xs) = filter Q xs"
  by (induction xs) auto

lemma oldest_exists:
  assumes "0 < branch_count branch scores"
  shows "\<exists>s \<in> set scores. js_branch s = branch \<and> js_created_at s = oldest_instant branch scores"
proof -
  let ?rows = "set [s \<leftarrow> scores. js_branch s = branch]"
  have "?rows \<noteq> {}" using assms by (metis branch_count_def length_greater_0_conv set_empty)
  then have "Min (js_created_at ` ?rows) \<in> js_created_at ` ?rows" by simp
  then show ?thesis by (auto simp: oldest_instant_def)
qed

text \<open>The loop ends: each turn removes a row of the branch.\<close>

function trim_scores :: "string \<Rightarrow> jankurai_score list \<Rightarrow> jankurai_score list" where
  "trim_scores branch scores =
     (if MAX_SCORES_PER_BRANCH < branch_count branch scores
      then trim_scores branch (remove_oldest branch scores) else scores)"
  by pat_completeness auto
termination
proof (relation "measure (\<lambda>(branch, scores). length scores)")
  fix branch scores
  assume "MAX_SCORES_PER_BRANCH < branch_count branch scores"
  then have "0 < branch_count branch scores" by simp
  from remove_first_length [OF oldest_exists [OF this]]
  show "((branch, remove_oldest branch scores), branch, scores)
      \<in> measure (\<lambda>(branch, scores). length scores)"
    by (simp add: remove_oldest_def)
qed simp

declare trim_scores.simps [simp del]

definition report_text :: "env \<Rightarrow> json option \<Rightarrow> int option \<Rightarrow> string option" where
  "report_text ev report tool_exit =
     (case (report, tool_exit) of
        (Some report, _) \<Rightarrow> Some (env_json_text ev report)
      | (None, Some exit) \<Rightarrow> Some (env_json_text ev (JObj [(''tool_exit'', JNum exit)]))
      | (None, None) \<Rightarrow> None)"

definition score_in_range :: "nat option \<Rightarrow> forge_error + unit" where
  "score_in_range given =
     (case given of
        None \<Rightarrow> Inr ()
      | Some score \<Rightarrow>
          if 100 < score then Inl (Validation (''score must be 0-100, got '' @ show_nat score))
          else Inr ())"

definition score_record ::
  "env \<Rightarrow> string \<Rightarrow> string \<Rightarrow> record_jankurai_score_request \<Rightarrow> jankurai_score" where
  "score_record ev owner repo request =
     \<lparr>js_id = env_fresh ev 0, js_owner = owner, js_repo = repo,
      js_branch = str_trim (rjs_branch request),
      js_commit_sha = str_trim (rjs_commit_sha request), js_score = rjs_score request,
      js_hard_findings = (case rjs_hard_findings request of None \<Rightarrow> 0 | Some found \<Rightarrow> found),
      js_decision = str_trim (rjs_decision request),
      js_caps_applied = rjs_caps_applied request,
      js_report_json = report_text ev (rjs_report request) (rjs_tool_exit request),
      js_created_at = env_clk ev 0\<rparr>"

definition put_score :: "jankurai_score \<Rightarrow> (slug, jankurai_score list) hmap \<Rightarrow> (slug, jankurai_score list) hmap" where
  "put_score r m =
     (let key = (js_owner r, js_repo r);
          kept = [s \<leftarrow> hm_list m key. \<not> (js_branch s = js_branch r \<and> js_commit_sha s = js_commit_sha r)]
      in hm_put key (trim_scores (js_branch r) (kept @ [r])) m)"

definition record_jankurai_score ::
  "env \<Rightarrow> string \<Rightarrow> string \<Rightarrow> record_jankurai_score_request \<Rightarrow> core \<Rightarrow> jankurai_score outcome" where
  "record_jankurai_score ev owner repo request c =
     try_pure (require_name ''branch'' (rjs_branch request)) c (\<lambda>_.
     try_pure (require_name ''commit sha'' (rjs_commit_sha request)) c (\<lambda>_.
     try_pure (require_name ''decision'' (rjs_decision request)) c (\<lambda>_.
     try_pure (score_in_range (rjs_score request)) c (\<lambda>_.
     try_pure (ensure_repo_exists (live c) owner repo) c (\<lambda>_.
       let r = score_record ev owner repo request
       in commit ev 0
            ((live c)\<lparr>st_jankurai_scores := put_score r (st_jankurai_scores (live c))\<rparr>) r c)))))"

definition list_jankurai_scores ::
  "state \<Rightarrow> string \<Rightarrow> string \<Rightarrow> string option \<Rightarrow> string option \<Rightarrow> forge_error + jankurai_score list" where
  "list_jankurai_scores s owner repo branch commit_sha =
     try_res (ensure_repo_exists s owner repo) (\<lambda>_.
       Inr (sort_key (\<lambda>score. - js_created_at score)
         [score \<leftarrow> hm_list (st_jankurai_scores s) (owner, repo).
            (branch = None \<or> branch = Some (js_branch score)) \<and>
            (commit_sha = None \<or> commit_sha = Some (js_commit_sha score))]))"

definition latest_jankurai_score :: "state \<Rightarrow> string \<Rightarrow> string \<Rightarrow> string \<Rightarrow> jankurai_score option" where
  "latest_jankurai_score s owner repo branch =
     max_by_key js_created_at
       [score \<leftarrow> hm_list (st_jankurai_scores s) (owner, repo). js_branch score = branch]"

section \<open>The loop\<close>

lemma trim_scores_bound: "branch_count branch (trim_scores branch scores) \<le> MAX_SCORES_PER_BRANCH"
proof (induction branch scores rule: trim_scores.induct)
  case (1 branch scores)
  then show ?case
    by (cases "MAX_SCORES_PER_BRANCH < branch_count branch scores")
      (simp_all add: trim_scores.simps [of branch scores])
qed

lemma trim_scores_set: "set (trim_scores branch scores) \<subseteq> set scores"
proof (induction branch scores rule: trim_scores.induct)
  case (1 branch scores)
  have "set (remove_oldest branch scores) \<subseteq> set scores"
    unfolding remove_oldest_def by (rule remove_first_set)
  with 1 show ?case
    by (cases "MAX_SCORES_PER_BRANCH < branch_count branch scores")
      (auto simp: trim_scores.simps [of branch scores])
qed

lemma trim_scores_other:
  assumes "branch' \<noteq> branch"
  shows "[s \<leftarrow> trim_scores branch scores. js_branch s = branch'] = [s \<leftarrow> scores. js_branch s = branch']"
  using assms
proof (induction branch scores rule: trim_scores.induct)
  case (1 branch scores)
  have "[s \<leftarrow> remove_oldest branch scores. js_branch s = branch'] = [s \<leftarrow> scores. js_branch s = branch']"
    unfolding remove_oldest_def by (rule remove_first_other) (use 1(2) in auto)
  with 1 show ?case
    by (cases "MAX_SCORES_PER_BRANCH < branch_count branch scores")
      (simp_all add: trim_scores.simps [of branch scores])
qed

lemma remove_first_sublist:
  "x \<in> set xs \<Longrightarrow> \<not> P x \<Longrightarrow> x \<in> set (remove_first P xs)"
  by (induction xs) auto

text \<open>What the loop drops from a branch is no newer than anything it keeps of it.\<close>

lemma trim_scores_newest:
  assumes "s \<in> set scores" and "s \<notin> set (trim_scores branch scores)"
  shows "js_branch s = branch \<and>
    (\<forall>t \<in> set (trim_scores branch scores). js_branch t = branch \<longrightarrow> js_created_at s \<le> js_created_at t)"
  using assms
proof (induction branch scores rule: trim_scores.induct)
  case (1 branch scores)
  then have more: "MAX_SCORES_PER_BRANCH < branch_count branch scores"
    by (cases "MAX_SCORES_PER_BRANCH < branch_count branch scores")
      (simp_all add: trim_scores.simps [of branch scores])
  then have unfolded: "trim_scores branch scores = trim_scores branch (remove_oldest branch scores)"
    by (simp add: trim_scores.simps [of branch scores])
  show ?case
  proof (cases "s \<in> set (remove_oldest branch scores)")
    case True
    from "1.IH" [OF more this] "1.prems"(2) show ?thesis unfolding unfolded by blast
  next
    case False
    with "1.prems"(1) have s: "js_branch s = branch" "js_created_at s = oldest_instant branch scores"
      using remove_first_sublist [OF "1.prems"(1),
          of "\<lambda>s. js_branch s = branch \<and> js_created_at s = oldest_instant branch scores"]
      by (simp_all only: remove_oldest_def simp_thms) blast+
    have "js_created_at s \<le> js_created_at t"
      if "t \<in> set (trim_scores branch scores)" and "js_branch t = branch" for t
    proof -
      have "t \<in> set [s \<leftarrow> scores. js_branch s = branch]"
        using that subsetD [OF trim_scores_set that(1)] by simp
      then show ?thesis by (simp add: s(2) oldest_instant_def)
    qed
    with s show ?thesis by blast
  qed
qed

text \<open>A row that is no older than the others of its branch is never the one dropped.\<close>

lemma remove_first_snoc: "\<exists>x \<in> set xs. P x \<Longrightarrow> remove_first P (xs @ [r]) = remove_first P xs @ [r]"
  by (induction xs) auto

lemma remove_oldest_snoc:
  assumes newest: "\<forall>s \<in> set xs. js_branch s = js_branch r \<longrightarrow> js_created_at s \<le> js_created_at r"
    and more: "0 < branch_count (js_branch r) xs"
  shows "\<exists>ys. remove_oldest (js_branch r) (xs @ [r]) = ys @ [r] \<and> set ys \<subseteq> set xs \<and>
    length ys < length xs"
proof -
  let ?P = "\<lambda>s. js_branch s = js_branch r \<and> js_created_at s = oldest_instant (js_branch r) (xs @ [r])"
  have "0 < branch_count (js_branch r) (xs @ [r])" by (simp add: branch_count_def)
  then obtain s where s: "s \<in> set (xs @ [r])" "?P s" using oldest_exists by blast
  have "\<exists>x \<in> set xs. ?P x"
  proof (cases "s \<in> set xs")
    case True
    with s show ?thesis by blast
  next
    case False
    with s have r: "js_created_at r = oldest_instant (js_branch r) (xs @ [r])" by simp
    obtain x where x: "x \<in> set xs" "js_branch x = js_branch r"
      using more by (auto simp: branch_count_def filter_empty_conv)
    then have "oldest_instant (js_branch r) (xs @ [r]) \<le> js_created_at x"
      by (simp add: oldest_instant_def)
    with newest x r have "js_created_at x = oldest_instant (js_branch r) (xs @ [r])" by fastforce
    with x show ?thesis by blast
  qed
  with remove_first_snoc [OF this, of r] remove_first_set [of ?P xs] remove_first_length [OF this]
  show ?thesis by (auto simp: remove_oldest_def)
qed

lemma trim_scores_snoc:
  "\<forall>s \<in> set xs. js_branch s = js_branch r \<longrightarrow> js_created_at s \<le> js_created_at r \<Longrightarrow>
     \<exists>ys. trim_scores (js_branch r) (xs @ [r]) = ys @ [r] \<and> set ys \<subseteq> set xs"
proof (induction xs rule: length_induct)
  case (1 xs)
  show ?case
  proof (cases "MAX_SCORES_PER_BRANCH < branch_count (js_branch r) (xs @ [r])")
    case False
    then show ?thesis by (simp add: trim_scores.simps [of _ "xs @ [r]"])
  next
    case True
    then have "0 < branch_count (js_branch r) xs"
      by (simp add: branch_count_def MAX_SCORES_PER_BRANCH_def del: length_greater_0_conv)
    from remove_oldest_snoc [OF "1.prems" this] obtain ys where
      ys: "remove_oldest (js_branch r) (xs @ [r]) = ys @ [r]" "set ys \<subseteq> set xs" "length ys < length xs"
      by blast
    with "1.prems" "1.IH" obtain zs where
      "trim_scores (js_branch r) (ys @ [r]) = zs @ [r]" "set zs \<subseteq> set ys"
      by blast
    with True ys show ?thesis by (auto simp: trim_scores.simps [of _ "xs @ [r]"])
  qed
qed

section \<open>Properties\<close>

definition scores_bounded :: "(slug, jankurai_score list) hmap \<Rightarrow> bool" where
  "scores_bounded m = (\<forall>key branch. branch_count branch (hm_list m key) \<le> MAX_SCORES_PER_BRANCH)"

lemma scores_bounded_Nil [simp]: "scores_bounded []"
  by (simp add: scores_bounded_def hm_list_def branch_count_def)

lemma branch_count_less: "branch_count branch [s \<leftarrow> scores. P s] \<le> branch_count branch scores"
  unfolding branch_count_def by (induction scores) auto

lemma scores_bounded_put:
  assumes "scores_bounded m"
  shows "scores_bounded (put_score r m)"
proof -
  let ?key = "(js_owner r, js_repo r)"
  define kept where
    "kept = [s \<leftarrow> hm_list m ?key. \<not> (js_branch s = js_branch r \<and> js_commit_sha s = js_commit_sha r)]"
  have "branch_count branch (trim_scores (js_branch r) (kept @ [r])) \<le> MAX_SCORES_PER_BRANCH" for branch
  proof (cases "branch = js_branch r")
    case True
    then show ?thesis by (simp add: trim_scores_bound)
  next
    case False
    then have "branch_count branch (trim_scores (js_branch r) (kept @ [r])) = branch_count branch kept"
      using trim_scores_other [OF False, of "kept @ [r]"] by (simp add: branch_count_def)
    also have "\<dots> \<le> branch_count branch (hm_list m ?key)" unfolding kept_def by (rule branch_count_less)
    finally show ?thesis using assms unfolding scores_bounded_def by (meson le_trans)
  qed
  moreover have "hm_list (put_score r m) key =
      (if key = ?key then trim_scores (js_branch r) (kept @ [r]) else hm_list m key)" for key
    by (simp add: put_score_def kept_def Let_def hm_list_def)
  ultimately show ?thesis using assms by (simp add: scores_bounded_def)
qed

lemma record_jankurai_score_cases:
  obtains (refused) e where "record_jankurai_score ev owner repo request c = (Inl e, c)"
  | (stored) r where "r = score_record ev owner repo request"
      and "hm_has (st_repos (live c)) (owner, repo)" and "score_in_range (js_score r) = Inr ()"
      and "record_jankurai_score ev owner repo request c =
        commit ev 0 ((live c)\<lparr>st_jankurai_scores := put_score r (st_jankurai_scores (live c))\<rparr>) r c"
proof -
  let ?r = "score_record ev owner repo request"
  have row: "js_score ?r = rjs_score request" by (simp add: score_record_def)
  consider (no) "\<exists>e. record_jankurai_score ev owner repo request c = (Inl e, c)"
    | (yes) "ensure_repo_exists (live c) owner repo = Inr ()" "score_in_range (rjs_score request) = Inr ()"
      "record_jankurai_score ev owner repo request c =
        commit ev 0 ((live c)\<lparr>st_jankurai_scores := put_score ?r (st_jankurai_scores (live c))\<rparr>) ?r c"
    by (cases "require_name ''branch'' (rjs_branch request)";
        cases "require_name ''commit sha'' (rjs_commit_sha request)";
        cases "require_name ''decision'' (rjs_decision request)";
        cases "score_in_range (rjs_score request)"; cases "ensure_repo_exists (live c) owner repo")
      (simp_all add: record_jankurai_score_def Let_def)
  then show thesis
  proof cases
    case no
    with refused show thesis by blast
  next
    case yes
    with stored [of ?r] show thesis by (simp add: row ensure_repo_exists_Inr)
  qed
qed

lemma recorded_score_bounded_parts:
  assumes ran: "record_jankurai_score ev owner repo request c = (Inr r, c')"
    and clock: "\<forall>s \<in> set (hm_list (st_jankurai_scores (live c)) (owner, repo)).
      js_branch s = js_branch r \<longrightarrow> js_created_at s \<le> js_created_at r"
  shows "branch_count (js_branch r) (hm_list (st_jankurai_scores (live c')) (owner, repo)) \<le> 200"
    and "latest_jankurai_score (live c') owner repo (js_branch r) = Some r"
    and "\<forall>s \<in> set (hm_list (st_jankurai_scores (live c')) (owner, repo)).
      js_branch s = js_branch r \<and> js_commit_sha s = js_commit_sha r \<longrightarrow> s = r"
    and "branch \<noteq> js_branch r \<Longrightarrow>
      [s \<leftarrow> hm_list (st_jankurai_scores (live c')) (owner, repo). js_branch s = branch] =
      [s \<leftarrow> hm_list (st_jankurai_scores (live c)) (owner, repo). js_branch s = branch]"
    and "key \<noteq> (owner, repo) \<Longrightarrow>
      hm_get (st_jankurai_scores (live c')) key = hm_get (st_jankurai_scores (live c)) key"
    and "s \<in> set (hm_list (st_jankurai_scores (live c)) (owner, repo)) \<Longrightarrow>
      s \<notin> set (hm_list (st_jankurai_scores (live c')) (owner, repo)) \<Longrightarrow>
      js_branch s = js_branch r \<and> (js_commit_sha s = js_commit_sha r \<or>
        (\<forall>t \<in> set (hm_list (st_jankurai_scores (live c')) (owner, repo)).
           js_branch t = js_branch r \<longrightarrow> js_created_at s \<le> js_created_at t))"
proof -
  let ?rows = "hm_list (st_jankurai_scores (live c)) (owner, repo)"
  define kept where
    "kept = [s \<leftarrow> ?rows. \<not> (js_branch s = js_branch r \<and> js_commit_sha s = js_commit_sha r)]"
  have kept_set: "s \<in> set kept \<longleftrightarrow>
      s \<in> set ?rows \<and> \<not> (js_branch s = js_branch r \<and> js_commit_sha s = js_commit_sha r)" for s
    by (simp add: kept_def)
  obtain live: "live c' = (live c)\<lparr>st_jankurai_scores := hm_put (owner, repo)
      (trim_scores (js_branch r) (kept @ [r])) (st_jankurai_scores (live c))\<rparr>"
    using ran by (cases rule: record_jankurai_score_cases [of ev owner repo request c])
      (auto simp: kept_def put_score_def score_record_def Let_def)
  then have rows: "hm_list (st_jankurai_scores (live c')) (owner, repo) = trim_scores (js_branch r) (kept @ [r])"
    by (simp add: hm_list_def)
  obtain ys where ys: "trim_scores (js_branch r) (kept @ [r]) = ys @ [r]" "set ys \<subseteq> set kept"
    using trim_scores_snoc [of kept r] clock kept_set by blast
  show "branch_count (js_branch r) (hm_list (st_jankurai_scores (live c')) (owner, repo)) \<le> 200"
    using trim_scores_bound by (simp add: rows MAX_SCORES_PER_BRANCH_def [symmetric])
  have "js_created_at b \<le> js_created_at r"
    if "max_by_key js_created_at [s \<leftarrow> ys. js_branch s = js_branch r] = Some b" for b
    using max_by_key_in [OF that] subsetD [OF ys(2)] clock kept_set by auto
  then show "latest_jankurai_score (live c') owner repo (js_branch r) = Some r"
    by (auto simp: latest_jankurai_score_def rows ys max_by_key_snoc split: option.split)
  show "\<forall>s \<in> set (hm_list (st_jankurai_scores (live c')) (owner, repo)).
      js_branch s = js_branch r \<and> js_commit_sha s = js_commit_sha r \<longrightarrow> s = r"
    using subsetD [OF ys(2)] kept_set by (auto simp: rows ys(1))
  show "[s \<leftarrow> hm_list (st_jankurai_scores (live c')) (owner, repo). js_branch s = branch] =
      [s \<leftarrow> ?rows. js_branch s = branch]" if "branch \<noteq> js_branch r"
  proof -
    have "[s \<leftarrow> kept. js_branch s = branch] = [s \<leftarrow> ?rows. js_branch s = branch]"
      unfolding kept_def filter_filter by (rule filter_cong) (use that in auto)
    with trim_scores_other [OF that, of "kept @ [r]"] that show ?thesis by (simp add: rows)
  qed
  show "hm_get (st_jankurai_scores (live c')) key = hm_get (st_jankurai_scores (live c)) key"
    if "key \<noteq> (owner, repo)"
    using that by (simp add: live)
  show "js_branch s = js_branch r \<and> (js_commit_sha s = js_commit_sha r \<or>
        (\<forall>t \<in> set (hm_list (st_jankurai_scores (live c')) (owner, repo)).
           js_branch t = js_branch r \<longrightarrow> js_created_at s \<le> js_created_at t))"
    if "s \<in> set ?rows" and "s \<notin> set (hm_list (st_jankurai_scores (live c')) (owner, repo))"
    using that trim_scores_newest [of s "kept @ [r]" "js_branch r"] kept_set by (auto simp: rows)
qed

text \<open>
  Recording a score ends with at most 200 rows for its branch and the row just recorded as the
  only one for its branch and commit, as long as the clock is not behind the branch's rows; it is
  then the newest of its branch; rows of other branches and of other repositories are untouched, and
  a row dropped to make room is no newer than one that stays.
\<close>

theorem recorded_score_bounded:
  assumes "record_jankurai_score ev owner repo request c = (Inr r, c')"
    and "\<forall>s \<in> set (hm_list (st_jankurai_scores (live c)) (owner, repo)).
      js_branch s = js_branch r \<longrightarrow> js_created_at s \<le> js_created_at r"
  shows "branch_count (js_branch r) (hm_list (st_jankurai_scores (live c')) (owner, repo)) \<le> 200 \<and>
    latest_jankurai_score (live c') owner repo (js_branch r) = Some r \<and>
    (\<forall>s \<in> set (hm_list (st_jankurai_scores (live c')) (owner, repo)).
      js_branch s = js_branch r \<and> js_commit_sha s = js_commit_sha r \<longrightarrow> s = r) \<and>
    (\<forall>branch. branch \<noteq> js_branch r \<longrightarrow>
      [s \<leftarrow> hm_list (st_jankurai_scores (live c')) (owner, repo). js_branch s = branch] =
      [s \<leftarrow> hm_list (st_jankurai_scores (live c)) (owner, repo). js_branch s = branch]) \<and>
    (\<forall>key. key \<noteq> (owner, repo) \<longrightarrow>
      hm_get (st_jankurai_scores (live c')) key = hm_get (st_jankurai_scores (live c)) key) \<and>
    (\<forall>s \<in> set (hm_list (st_jankurai_scores (live c)) (owner, repo)).
      s \<notin> set (hm_list (st_jankurai_scores (live c')) (owner, repo)) \<longrightarrow>
      js_branch s = js_branch r \<and> (js_commit_sha s = js_commit_sha r \<or>
        (\<forall>t \<in> set (hm_list (st_jankurai_scores (live c')) (owner, repo)).
           js_branch t = js_branch r \<longrightarrow> js_created_at s \<le> js_created_at t)))"
  using recorded_score_bounded_parts [OF assms] by blast

definition ex_score_request :: record_jankurai_score_request where
  "ex_score_request = \<lparr>rjs_branch = ''main'', rjs_commit_sha = ''c1'', rjs_score = Some 91,
     rjs_hard_findings = None, rjs_decision = ''pass'', rjs_caps_applied = [], rjs_report = None,
     rjs_tool_exit = None\<rparr>"

theorem recorded_score_bounded_witness:
  "\<exists>r. latest_jankurai_score
      (live (snd (record_jankurai_score ex_env ''acme'' ''core'' ex_score_request ex_core)))
      ''acme'' ''core'' ''main'' = Some r \<and> js_score r = Some 91"
proof -
  have trimmed: "str_trim ''main'' = ''main''" "str_trim ''c1'' = ''c1''" "str_trim ''pass'' = ''pass''"
    by code_simp+
  obtain r c' where ran: "record_jankurai_score ex_env ''acme'' ''core'' ex_score_request ex_core = (Inr r, c')"
    and r: "js_branch r = ''main''" "js_score r = Some 91"
    by (simp add: record_jankurai_score_def ex_score_request_def require_name_def trimmed Let_def
        score_in_range_def score_record_def)
  have none: "hm_list (st_jankurai_scores (live ex_core)) (''acme'', ''core'') = []"
    by (simp add: hm_list_def ex_state_def default_state_def)
  show ?thesis
    using recorded_score_bounded [OF ran] none r by (simp add: ran)
qed

end
