(* ===== verification/Writes.thy ===== *)
theory Writes
  imports Durability Recovery Waitlist Organizations Scores
begin

text \<open>
  Every operation of the store but the deletion of a repository is a sequence of few kinds of
  primitive writes. The relation below names them; each operation is shown once to be such a sequence, with the disk in agreement at
  the end, so that an invariant of the store is proved once, by cases on the primitive writes.
\<close>

type_synonym record_key = "string \<times> string \<times> u64"

section \<open>Primitive writes\<close>

text \<open>The maps the invariants speak of; a write to any other map is \<^verbatim>\<open>beside\<close> them.\<close>

definition write_view where
  "write_view s =
     ((st_issues s, st_pulls s, st_reviews s, st_counters s, st_repos s, st_branch_protections s),
      (st_accounts s, st_organizations s, st_password_recoveries s, st_waitlist s, st_jankurai_scores s))"

text \<open>Room for another number before the counter wraps.\<close>

definition record_room :: "string \<Rightarrow> string \<Rightarrow> state \<Rightarrow> bool" where
  "record_room owner repo s =
     (case hm_get (st_counters s) (owner, repo) of
        None \<Rightarrow> True | Some cn \<Rightarrow> max (cn_issue cn) (cn_pull cn) < 2 ^ 64 - 1)"

text \<open>What an edit of a pull request keeps: its keys, and its merge once it has one.\<close>

definition same_pull :: "pull_request \<Rightarrow> pull_request \<Rightarrow> bool" where
  "same_pull pr q =
     (pr_owner q = pr_owner pr \<and> pr_repo q = pr_repo pr \<and> pr_number q = pr_number pr \<and>
      pr_issue_number q = pr_issue_number pr \<and> pr_author q = pr_author pr \<and>
      (pr_merged pr \<longrightarrow> pr_merged q \<and> pr_merge_commit_sha q = pr_merge_commit_sha pr))"

definition same_issue :: "issue \<Rightarrow> issue \<Rightarrow> bool" where
  "same_issue i j = (is_owner j = is_owner i \<and> is_repo j = is_repo i \<and> is_number j = is_number i)"

definition issue_at :: "string \<Rightarrow> string \<Rightarrow> u64 \<Rightarrow> issue \<Rightarrow> bool" where
  "issue_at owner repo n i = (is_owner i = owner \<and> is_repo i = repo \<and> is_number i = n)"

definition pull_at :: "string \<Rightarrow> string \<Rightarrow> u64 \<Rightarrow> pull_request \<Rightarrow> bool" where
  "pull_at owner repo n pr =
     (pr_owner pr = owner \<and> pr_repo pr = repo \<and> pr_number pr = n \<and> pr_issue_number pr = n)"

text \<open>What a change of an account keeps: its login, and an epoch that never goes back.\<close>

definition account_step :: "string \<Rightarrow> user_account option \<Rightarrow> user_account \<Rightarrow> bool" where
  "account_step login before account =
     (case before of
        None \<Rightarrow> ua_canonical_login account = login
      | Some a \<Rightarrow> ua_canonical_login account = ua_canonical_login a \<and> ua_auth_epoch a \<le> ua_auth_epoch account)"

text \<open>An organization keeps its id and its kind of owner list, and once it has an owner it has one.\<close>

definition organization_step :: "string \<Rightarrow> organization option \<Rightarrow> organization \<Rightarrow> bool" where
  "organization_step login before organization =
     (case before of
        None \<Rightarrow> organization_ok login organization
      | Some o' \<Rightarrow> og_id organization = og_id o' \<and>
          (organization_ok login o' \<longrightarrow> organization_ok login organization) \<and>
          (og_owners o' \<noteq> [] \<longrightarrow> organization_ok login o' \<longrightarrow> og_owners organization \<noteq> []))"

type_synonym protections = "(rule_key, branch_protection_rule) hmap"

text \<open>No rule goes away but one that the default branch of no bound repository needs.\<close>

definition rules_kept :: "(slug, repository) hmap \<Rightarrow> protections \<Rightarrow> protections \<Rightarrow> bool" where
  "rules_kept repos rules rules' =
     (\<forall>owner repo branch r.
        hm_has rules (owner, repo, branch) \<longrightarrow> hm_get repos (owner, repo) = Some r \<longrightarrow>
        rp_default_branch r = branch \<longrightarrow> \<not> rp_default_branch_protection_opt_out r \<longrightarrow>
        hm_has rules' (owner, repo, branch))"

text \<open>A stored repository row has its rule unless it opted out.\<close>

definition row_protected :: "protections \<Rightarrow> repository \<Rightarrow> bool" where
  "row_protected rules r =
     (rp_default_branch_protection_opt_out r \<or>
      hm_has rules (rp_owner r, rp_name r, rp_default_branch r))"

inductive store_write :: "state \<Rightarrow> state \<Rightarrow> bool" where
  beside: "write_view s' = write_view s \<Longrightarrow> store_write s s'"
| issue_edited: "hm_get (st_issues s) key = Some i \<Longrightarrow> same_issue i j \<Longrightarrow>
    store_write s (s\<lparr>st_issues := hm_put key j (st_issues s)\<rparr>)"
| pull_edited: "hm_get (st_pulls s) key = Some pr \<Longrightarrow> same_pull pr q \<Longrightarrow>
    store_write s (s\<lparr>st_pulls := hm_put key q (st_pulls s)\<rparr>)"
| issue_opened: "record_room owner repo s \<Longrightarrow> hm_has (st_repos s) (owner, repo) \<Longrightarrow>
    next_record_number owner repo s = (n, s1) \<Longrightarrow> issue_at owner repo n i \<Longrightarrow>
    store_write s (s1\<lparr>st_issues := hm_put (owner, repo, n) i (st_issues s1)\<rparr>)"
| pull_opened: "record_room owner repo s \<Longrightarrow> hm_has (st_repos s) (owner, repo) \<Longrightarrow>
    next_record_number owner repo s = (n, s1) \<Longrightarrow> issue_at owner repo n i \<Longrightarrow>
    pull_at owner repo n pr \<Longrightarrow>
    store_write s (s1\<lparr>st_issues := hm_put (owner, repo, n) i (st_issues s1),
                st_pulls := hm_put (owner, repo, n) pr (st_pulls s1)\<rparr>)"
| review_added: "store_write s (s\<lparr>st_reviews := hm_append key [review] (st_reviews s)\<rparr>)"
| rules_changed: "rules_kept (st_repos s) (st_branch_protections s) rules \<Longrightarrow>
    store_write s (s\<lparr>st_branch_protections := rules\<rparr>)"
| repository_edited: "hm_get (st_repos s) (owner, repo) = Some r \<Longrightarrow>
    rp_owner r' = rp_owner r \<Longrightarrow> rp_name r' = rp_name r \<Longrightarrow> rp_id r' = rp_id r \<Longrightarrow>
    rules_kept (hm_del (owner, repo) (st_repos s)) (st_branch_protections s) rules \<Longrightarrow>
    row_protected (st_branch_protections s) r \<longrightarrow> row_protected rules r' \<Longrightarrow>
    store_write s (s\<lparr>st_repos := hm_put (owner, repo) r' (st_repos s), st_branch_protections := rules\<rparr>)"
| repository_created: "\<not> hm_has (st_repos s) (owner, repo) \<Longrightarrow> rp_owner r = owner \<Longrightarrow>
    rp_name r = repo \<Longrightarrow> rules_kept (st_repos s) (st_branch_protections s) rules \<Longrightarrow> row_protected rules r \<Longrightarrow>
    store_write s (s\<lparr>st_counters := hm_put (owner, repo) cn (st_counters s),
               st_repos := hm_put (owner, repo) r (st_repos s), st_branch_protections := rules\<rparr>)"
| account_written: "account_step login (hm_get (st_accounts s) login) account \<Longrightarrow>
    store_write s (put_account login account s)"
| organization_written: "organization_step org (hm_get (st_organizations s) org) organization \<Longrightarrow>
    store_write s (put_organization org organization s)"
| recoveries_changed: "recoveries_ok (st_password_recoveries s) \<longrightarrow> recoveries_ok recoveries \<Longrightarrow>
    store_write s (s\<lparr>st_password_recoveries := recoveries\<rparr>)"
| waitlist_changed: "waitlist_ok (st_waitlist s) \<longrightarrow> waitlist_ok entries \<Longrightarrow>
    store_write s (s\<lparr>st_waitlist := entries\<rparr>)"
| score_recorded: "store_write s (s\<lparr>st_jankurai_scores := put_score r (st_jankurai_scores s)\<rparr>)"

abbreviation writes :: "state \<Rightarrow> state \<Rightarrow> bool" where
  "writes \<equiv> store_write\<^sup>*\<^sup>*"

interpretation trace: state_invariant "writes s0" write_view for s0
  by unfold_locales (metis beside rtranclp.rtrancl_into_rtrancl)

section \<open>Sequences of writes\<close>

lemma hm_has_put [simp]: "hm_has (hm_put k v m) = (\<lambda>k'. k' = k \<or> hm_has m k')"
  by (auto simp: hm_has_def fun_eq_iff)

lemma hm_has_del [simp]: "hm_has (hm_del k m) = (\<lambda>k'. k' \<noteq> k \<and> hm_has m k')"
  by (auto simp: hm_has_def fun_eq_iff)

lemma hm_has_Some: "hm_get m k = Some v \<Longrightarrow> hm_has m k"
  by (simp add: hm_has_def)

lemma hm_has_put_same: "hm_get m k = Some v \<Longrightarrow> hm_has (hm_put k v' m) = hm_has m"
  by (auto simp: hm_has_def fun_eq_iff)

lemma writes_step: "writes s0 s \<Longrightarrow> store_write s s' \<Longrightarrow> writes s0 s'"
  by (rule rtranclp.rtrancl_into_rtrancl)

lemma writes_beside: "write_view s' = write_view s \<Longrightarrow> writes s0 s' = writes s0 s"
  by (metis beside writes_step)

lemma writes_frame [simp]:
  "writes s0 (s\<lparr>st_users := us\<rparr>) = writes s0 s"
  "writes s0 (s\<lparr>st_sessions := sessions\<rparr>) = writes s0 s"
  "writes s0 (s\<lparr>st_personal_tokens := tokens\<rparr>) = writes s0 s"
  "writes s0 (s\<lparr>st_invitations := invitations\<rparr>) = writes s0 s"
  "writes s0 (s\<lparr>st_activation_challenges := challenges\<rparr>) = writes s0 s"
  "writes s0 (s\<lparr>st_repo_grants := grants\<rparr>) = writes s0 s"
  "writes s0 (s\<lparr>st_bot_access_tokens := bot_tokens\<rparr>) = writes s0 s"
  "writes s0 (s\<lparr>st_repository_transfers := transfers\<rparr>) = writes s0 s"
  "writes s0 (s\<lparr>st_teams := teams\<rparr>) = writes s0 s"
  "writes s0 (s\<lparr>st_labels := labels\<rparr>) = writes s0 s"
  "writes s0 (s\<lparr>st_issue_comments := comments\<rparr>) = writes s0 s"
  "writes s0 (s\<lparr>st_review_comments := notes\<rparr>) = writes s0 s"
  "writes s0 (s\<lparr>st_codeowners := owners\<rparr>) = writes s0 s"
  "writes s0 (s\<lparr>st_readmes := readmes\<rparr>) = writes s0 s"
  "writes s0 (s\<lparr>st_statuses := rows\<rparr>) = writes s0 s"
  "writes s0 (s\<lparr>st_check_runs := runs\<rparr>) = writes s0 s"
  "writes s0 (s\<lparr>st_webhooks := hooks\<rparr>) = writes s0 s"
  "writes s0 (emit_event_locked ev n owner repo event payload s) = writes s0 s"
  by (rule writes_beside; simp add: write_view_def)+

lemma writes_put_issue:
  "writes s0 s \<Longrightarrow> hm_get (st_issues s) key = Some i \<Longrightarrow> same_issue i j \<Longrightarrow>
     writes s0 (s\<lparr>st_issues := hm_put key j (st_issues s)\<rparr>)"
  by (blast intro: writes_step issue_edited)

lemma writes_put_pull:
  "writes s0 s \<Longrightarrow> hm_get (st_pulls s) key = Some pr \<Longrightarrow> same_pull pr q \<Longrightarrow>
     writes s0 (s\<lparr>st_pulls := hm_put key q (st_pulls s)\<rparr>)"
  by (blast intro: writes_step pull_edited)

lemma same_pull_reevaluated [simp]: "same_pull pr (reevaluated ev s pr)"
  by (simp add: same_pull_def)

lemma writes_refresh: "writes s0 s \<Longrightarrow> writes s0 (refresh_keys ev keys s)"
proof (induction keys arbitrary: s)
  case Nil
  then show ?case by simp
next
  case (Cons key keys)
  show ?case
  proof (cases "hm_get (st_pulls s) key")
    case None
    with Cons show ?thesis by simp
  next
    case (Some pr)
    have "writes s0 (s\<lparr>st_pulls := hm_put key (reevaluated ev s pr) (st_pulls s)\<rparr>)"
      by (rule writes_put_pull [OF Cons.prems Some]) simp
    with Some Cons.IH show ?thesis by simp
  qed
qed

section \<open>Operations are sequences of writes\<close>

named_theorems writes_ops \<open>operations that are sequences of writes\<close>

definition sound :: "state \<Rightarrow> core \<Rightarrow> bool" where
  "sound s0 c = (synced c \<and> writes s0 (live c))"

lemma soundI: "synced c \<Longrightarrow> writes s0 (live c) \<Longrightarrow> sound s0 c"
  by (simp add: sound_def)

lemma sound_pure:
  "sound s0 c \<Longrightarrow> (\<And>x. r = Inr x \<Longrightarrow> sound s0 (snd (k x))) \<Longrightarrow> sound s0 (snd (try_pure r c k))"
  unfolding sound_def by (rule trace.pure_keeps) blast+

lemma sound_op:
  "sound s0 (snd m) \<Longrightarrow> (\<And>x c. m = (Inr x, c) \<Longrightarrow> sound s0 c \<Longrightarrow> sound s0 (snd (k x c))) \<Longrightarrow>
     sound s0 (snd (try_op m k))"
  unfolding sound_def by (rule trace.op_keeps) blast+

lemma sound_commit: "sound s0 c \<Longrightarrow> writes s0 s \<Longrightarrow> sound s0 (snd (commit ev n s x c))"
  unfolding sound_def by (rule trace.commit_keeps) blast+

lemma sound_beside:
  "sound s0 c \<Longrightarrow> write_view s = write_view (live c) \<Longrightarrow> sound s0 (snd (commit ev n s x c))"
  unfolding sound_def by (rule trace.commit_beside) blast+

lemma sound_commit_audit:
  "sound s0 c \<Longrightarrow> writes s0 s \<Longrightarrow> sound s0 (snd (commit_with_audit ev n entry s x c))"
  by (cases "storage c"; cases "env_fault ev n") (simp_all add: commit_with_audit_def sound_def synced_def)

lemma sound_audit [simp]: "sound s0 (snd (append_audit_as ev n actor action subject phase detail c)) = sound s0 c"
  by (simp add: sound_def)

lemma sound_audit' [simp]: "sound s0 (snd (append_audit ev n action subject phase detail c)) = sound s0 c"
  by (simp add: append_audit_def)

lemma write_view_emit [simp]:
  "write_view (emit_event_locked ev n owner repo event payload s) = write_view s"
  by (simp add: write_view_def)

lemma ensure_default_sel [simp]:
  "st_issues (snd (ensure_default_branch_protection ev n r s)) = st_issues s"
  "st_pulls (snd (ensure_default_branch_protection ev n r s)) = st_pulls s"
  "st_counters (snd (ensure_default_branch_protection ev n r s)) = st_counters s"
  "st_repos (snd (ensure_default_branch_protection ev n r s)) = st_repos s"
  "st_reviews (snd (ensure_default_branch_protection ev n r s)) = st_reviews s"
  "st_repository_aliases (snd (ensure_default_branch_protection ev n r s)) = st_repository_aliases s"
  by (simp_all add: ensure_default_branch_protection_def Let_def)

lemma ensure_default_state:
  "snd (ensure_default_branch_protection ev n r s) =
     s\<lparr>st_branch_protections := st_branch_protections (snd (ensure_default_branch_protection ev n r s))\<rparr>"
  by (simp add: ensure_default_branch_protection_def Let_def)

lemma ensure_default_protects:
  "row_protected (st_branch_protections (snd (ensure_default_branch_protection ev n r s))) r"
  by (simp add: row_protected_def ensure_default_branch_protection_def Let_def hm_has_def)

lemma ensure_default_keeps:
  "rules_kept repos (st_branch_protections s)
     (st_branch_protections (snd (ensure_default_branch_protection ev n r s)))"
  by (auto simp: rules_kept_def ensure_default_branch_protection_def Let_def)

lemma writes_put_repo:
  assumes "writes s0 s" and "canonical_repository s owner repo = Inr r"
    and "rp_owner r' = rp_owner r" and "rp_name r' = rp_name r" and "rp_id r' = rp_id r"
    and "rp_default_branch r' = rp_default_branch r"
    and "rp_default_branch_protection_opt_out r' = rp_default_branch_protection_opt_out r"
  shows "writes s0 (put_repo owner repo r' s)"
proof -
  have "store_write s (s\<lparr>st_repos := hm_put (owner, repo) r' (st_repos s),
      st_branch_protections := st_branch_protections s\<rparr>)"
    using assms
    by (intro repository_edited [of _ _ _ r])
      (simp_all add: canonical_repository_def ok_or_Inr rules_kept_def row_protected_def)
  with assms(1) show ?thesis by (simp add: put_repo_def writes_step)
qed

lemma writes_put_repo_rules:
  assumes "writes s0 s" and "canonical_repository s owner repo = Inr r"
    and "rp_owner r' = rp_owner r" and "rp_name r' = rp_name r" and "rp_id r' = rp_id r"
    and "rules_kept (hm_del (owner, repo) (st_repos s)) (st_branch_protections s) rules"
    and "row_protected rules r'"
  shows "writes s0 ((put_repo owner repo r' s)\<lparr>st_branch_protections := rules\<rparr>)"
proof -
  have "store_write s (s\<lparr>st_repos := hm_put (owner, repo) r' (st_repos s), st_branch_protections := rules\<rparr>)"
    using assms by (intro repository_edited [of _ _ _ r]) (simp_all add: canonical_repository_def ok_or_Inr)
  with assms(1) show ?thesis by (simp add: put_repo_def writes_step)
qed

lemma writes_rules:
  "writes s0 s \<Longrightarrow> rules_kept (st_repos s) (st_branch_protections s) rules \<Longrightarrow>
     writes s0 (s\<lparr>st_branch_protections := rules\<rparr>)"
  by (blast intro: writes_step rules_changed)

lemma sound_persisted: "writes s0 s \<Longrightarrow> sound s0 (persisted s c)"
  by (simp add: sound_def)

lemma ensure_user_sound [writes_ops]: "sound s0 c \<Longrightarrow> sound s0 (snd (ensure_user ev n login c))"
  using ensure_user_cases [of ev n login c]
  by (elim disjE exE) (simp_all add: sound_def)

lemma soundD: "sound s0 c \<Longrightarrow> writes s0 (live c)"
  by (simp add: sound_def)

lemma create_commit_status_sound [writes_ops]:
  "sound s0 c \<Longrightarrow> sound s0 (snd (create_commit_status ev owner repo sha creator request c))"
  unfolding create_commit_status_def Let_def refresh_pull_mergeability_for_sha_def
  by (intro sound_pure sound_op) (auto intro!: sound_commit writes_refresh soundD simp: writes_ops)

lemma create_check_run_sound [writes_ops]:
  "sound s0 c \<Longrightarrow> sound s0 (snd (create_check_run ev owner repo request c))"
  unfolding create_check_run_def Let_def refresh_pull_mergeability_for_sha_def
  by (intro sound_pure sound_commit) (auto intro!: writes_refresh soundD)

lemma writes_open_issue:
  "writes s0 s \<Longrightarrow> record_room owner repo s \<Longrightarrow> hm_has (st_repos s) (owner, repo) \<Longrightarrow>
     next_record_number owner repo s = (n, s1) \<Longrightarrow> issue_at owner repo n i \<Longrightarrow>
     writes s0 (s1\<lparr>st_issues := hm_put (owner, repo, n) i (st_issues s1)\<rparr>)"
  by (blast intro: writes_step issue_opened)

lemma writes_open_pull:
  "writes s0 s \<Longrightarrow> record_room owner repo s \<Longrightarrow> hm_has (st_repos s) (owner, repo) \<Longrightarrow>
     next_record_number owner repo s = (n, s1) \<Longrightarrow> issue_at owner repo n i \<Longrightarrow> pull_at owner repo n pr \<Longrightarrow>
     writes s0 (put_pull owner repo n pr (s1\<lparr>st_issues := hm_put (owner, repo, n) i (st_issues s1)\<rparr>))"
  unfolding put_pull_def
  by (rule writes_step, assumption) (drule (4) pull_opened, simp)

lemma writable_reads:
  assumes "st_repos s = st_repos s'" and "st_repository_aliases s = st_repository_aliases s'"
  shows "ensure_repository_writable s = ensure_repository_writable s'"
  by (intro ext) (simp only: ensure_repository_writable_def get_repository_def resolve_repository_def assms)

lemma ensure_user_same:
  assumes "ensure_user ev n login c = (Inr u, c')"
  shows "st_counters (live c') = st_counters (live c)" and "st_repos (live c') = st_repos (live c)"
    and "record_room owner repo (live c') = record_room owner repo (live c)"
    and "ensure_repository_writable (live c') owner repo = ensure_repository_writable (live c) owner repo"
proof -
  have same: "st_counters (live c') = st_counters (live c) \<and> st_repos (live c') = st_repos (live c) \<and>
      st_repository_aliases (live c') = st_repository_aliases (live c)"
    using ensure_user_cases [of ev n login c] assms by auto
  then show "st_counters (live c') = st_counters (live c)" and "st_repos (live c') = st_repos (live c)"
    and "record_room owner repo (live c') = record_room owner repo (live c)"
    by (simp_all add: record_room_def)
  show "ensure_repository_writable (live c') owner repo = ensure_repository_writable (live c) owner repo"
    using same by (intro fun_cong [OF fun_cong [OF writable_reads]]) simp_all
qed

lemma create_issue_sound [writes_ops]:
  assumes "sound s0 c" and "record_room owner repo (live c)"
  shows "sound s0 (snd (create_issue ev owner repo author request c))"
  unfolding create_issue_def Let_def
  by (intro sound_pure sound_op)
    (use assms in \<open>auto intro!: sound_commit writes_open_issue soundD
      simp: writes_ops ensure_repo_exists_Inr ensure_user_same issue_at_def split: prod.split\<close>)

lemma update_issue_sound [writes_ops]:
  "sound s0 c \<Longrightarrow> sound s0 (snd (update_issue ev owner repo number request c))"
  unfolding update_issue_def Let_def
  by (auto intro!: sound_pure sound_commit writes_put_issue soundD
      simp: get_issue_def ok_or_Inr same_issue_def edited_issue_def Let_def split: option.split)

lemma add_issue_comment_sound [writes_ops]:
  "sound s0 c \<Longrightarrow> sound s0 (snd (add_issue_comment ev owner repo number author body c))"
  unfolding add_issue_comment_def Let_def
  by (intro sound_pure sound_op)
    (auto intro!: sound_commit writes_put_issue soundD
      simp: writes_ops get_issue_def ok_or_Inr same_issue_def)

lemma create_pull_request_sound [writes_ops]:
  assumes "sound s0 c" and "record_room owner repo (live c)" and "hm_has (st_repos (live c)) (owner, repo)"
  shows "sound s0 (snd (create_pull_request ev owner repo author request c))"
  unfolding create_pull_request_def Let_def pull_event_def
  by (intro sound_pure sound_op)
    (use assms in \<open>auto intro!: sound_commit writes_open_pull soundD
      simp: writes_ops ensure_user_same issue_at_def pull_at_def new_pull_def new_pull_issue_def
      split: prod.split\<close>)

lemma writes_put_pull':
  "writes s0 s \<Longrightarrow> hm_get (st_pulls s) (owner, repo, number) = Some pr \<Longrightarrow> same_pull pr q \<Longrightarrow>
     writes s0 (put_pull owner repo number q s)"
  unfolding put_pull_def by (rule writes_put_pull)

lemma edited_pull_sel [simp]:
  "pr_owner (edited_pull ev request pr) = pr_owner pr" "pr_repo (edited_pull ev request pr) = pr_repo pr"
  "pr_number (edited_pull ev request pr) = pr_number pr"
  "pr_issue_number (edited_pull ev request pr) = pr_issue_number pr"
  "pr_merged (edited_pull ev request pr) = pr_merged pr"
  "pr_merge_commit_sha (edited_pull ev request pr) = pr_merge_commit_sha pr"
  "pr_head (edited_pull ev request pr) = pr_head pr" "pr_base (edited_pull ev request pr) = pr_base pr"
  "pr_author (edited_pull ev request pr) = pr_author pr"
  by (simp_all add: edited_pull_def Let_def split: option.split)

lemma same_pull_edited: "same_pull pr (edited_pull ev request pr)"
  by (simp add: same_pull_def)

lemma writes_twice:
  assumes "writes s0 s" and "hm_get (st_pulls s) (owner, repo, number) = Some pr"
    and "same_pull pr q" and "same_pull q q2"
  shows "writes s0 (put_pull owner repo number q2 (put_pull owner repo number q s))"
  by (rule writes_put_pull' [OF writes_put_pull' [OF assms(1-3)], of _ _ _ q])
    (use assms in \<open>simp_all add: put_pull_def\<close>)

lemma update_pull_request_sound [writes_ops]:
  assumes "sound s0 c"
  shows "sound s0 (snd (update_pull_request ev owner repo number request c))"
proof -
  have "writes s0 (put_pull owner repo number (reevaluated ev s (edited_pull ev request pr))
      (put_pull owner repo number (edited_pull ev request pr) (live c)))"
    if "hm_get (st_pulls (live c)) (owner, repo, number) = Some pr" for pr s
    by (rule writes_twice [OF soundD [OF assms] that same_pull_edited]) simp
  with assms show ?thesis
    unfolding update_pull_request_def Let_def pull_event_def
    by (intro sound_pure sound_commit) (auto simp: ok_or_Inr)
qed

lemma moved_pull_sel [simp]:
  "pr_owner (moved_pull ev sha evidence pr) = pr_owner pr" "pr_repo (moved_pull ev sha evidence pr) = pr_repo pr"
  "pr_number (moved_pull ev sha evidence pr) = pr_number pr"
  "pr_issue_number (moved_pull ev sha evidence pr) = pr_issue_number pr"
  "pr_merged (moved_pull ev sha evidence pr) = pr_merged pr"
  "pr_merge_commit_sha (moved_pull ev sha evidence pr) = pr_merge_commit_sha pr"
  "pr_author (moved_pull ev sha evidence pr) = pr_author pr"
  by (simp_all add: moved_pull_def)

lemma writes_move_heads:
  "writes s0 s \<Longrightarrow> writes s0 (snd (snd (fold (move_head ev owner repo sha evidence) keys (updated, n, s))))"
proof (induction keys arbitrary: updated n s)
  case Nil
  then show ?case by simp
next
  case (Cons key keys)
  obtain o' r' k where key: "key = (o', r', k)" by (cases key) auto
  have "writes s0 (snd (snd (move_head ev owner repo sha evidence key (updated, n, s))))"
  proof (cases "hm_get (st_pulls s) key")
    case None
    with Cons.prems show ?thesis by (simp add: move_head_def)
  next
    case (Some old)
    let ?pr = "moved_pull ev sha evidence old"
    have "writes s0 (put_pull o' r' k (reevaluated ev (put_pull o' r' k ?pr s) ?pr) (put_pull o' r' k ?pr s))"
      by (rule writes_twice [OF Cons.prems Some [unfolded key]]) (simp_all add: same_pull_def)
    with Some show ?thesis
      by (simp add: move_head_def Let_def pull_event_def put_pull_def key)
  qed
  with Cons.IH show ?case
    by (cases "move_head ev owner repo sha evidence key (updated, n, s)") auto
qed

lemma refresh_heads_sound [writes_ops]:
  assumes "sound s0 c"
  shows "sound s0 (snd (refresh_pull_request_heads_with_identity ev owner repo ref_name sha evidence c))"
proof -
  have "writes s0 (live c)" using assms by (simp add: sound_def)
  from writes_move_heads [OF this] have
    "writes s0 s" if "fold (move_head ev owner repo sha evidence) keys ([], Suc 0, live c) = (u, n, s)" for keys u n s
    using that by (metis snd_conv)
  with assms show ?thesis
    unfolding refresh_pull_request_heads_with_identity_def Let_def
    by (auto intro!: sound_pure sound_commit split: prod.split)
qed

lemma refresh_for_ref_sound [writes_ops]:
  "sound s0 c \<Longrightarrow> sound s0 (snd (refresh_pull_request_heads_for_ref ev owner repo ref_name sha c))"
  by (simp add: refresh_pull_request_heads_for_ref_def writes_ops)

lemma refresh_with_diff_sound [writes_ops]:
  "sound s0 c \<Longrightarrow> sound s0 (snd (refresh_pull_request_heads_for_ref_with_diff ev owner repo ref_name
     sha base_sha ids c))"
  unfolding refresh_pull_request_heads_for_ref_with_diff_def
  by (auto intro!: sound_pure simp: writes_ops)

lemma refresh_from_git_sound [writes_ops]:
  "sound s0 c \<Longrightarrow> sound s0 (snd (refresh_pull_request_heads_from_git ev git owner repo path ref_name
     sha base_sha c))"
  unfolding refresh_pull_request_heads_from_git_def
  by (auto intro!: sound_pure simp: writes_ops split: prod.split)

lemma retarget_sound [writes_ops]:
  "sound s0 c \<Longrightarrow> sound s0 (snd (retarget_pull_request ev branches g actor owner repo number request c))"
  unfolding retarget_pull_request_def Let_def pull_event_def
  by (auto intro!: sound_pure sound_commit_audit simp: ok_or_Inr)
    (erule (1) writes_put_pull' [OF soundD]; simp add: same_pull_def)

lemma record_base_sound [writes_ops]:
  "sound s0 c \<Longrightarrow> sound s0 (snd (record_pull_request_base ev actor owner repo number head_sha base_sha c))"
  unfolding record_pull_request_base_def Let_def pull_event_def
  by (auto intro!: sound_pure sound_op sound_commit simp: ok_or_Inr)
    (erule (1) writes_put_pull' [OF soundD]; simp add: same_pull_def)

lemma writes_close_issue: "writes s0 s \<Longrightarrow> writes s0 (close_issue ev key s)"
  by (cases "hm_get (st_issues s) key")
    (auto simp: close_issue_def same_issue_def intro!: writes_put_issue)

lemma merged_pull_sel [simp]:
  "pr_owner (merged_pull ev sha pr) = pr_owner pr" "pr_repo (merged_pull ev sha pr) = pr_repo pr"
  "pr_number (merged_pull ev sha pr) = pr_number pr"
  "pr_issue_number (merged_pull ev sha pr) = pr_issue_number pr"
  "pr_merged (merged_pull ev sha pr) = True" "pr_merge_commit_sha (merged_pull ev sha pr) = Some sha"
  "pr_state (merged_pull ev sha pr) = PrMerged" "pr_author (merged_pull ev sha pr) = pr_author pr"
  by (simp_all add: merged_pull_def)

lemma finalize_checked_sound [writes_ops]:
  assumes "sound s0 c"
  shows "sound s0 (snd (finalize_merge_checked ev owner repo number binding permit c))"
proof -
  have "writes s0 (close_issue ev k (put_pull owner repo number (merged_pull ev sha pr) (live c)))"
    if "hm_get (st_pulls (live c)) (owner, repo, number) = Some pr" and "\<not> pr_merged pr" for k sha pr
    by (rule writes_close_issue, rule writes_put_pull' [OF soundD [OF assms] that(1)])
      (use that in \<open>simp add: same_pull_def\<close>)
  with assms show ?thesis
    unfolding finalize_merge_checked_def Let_def pull_event_def
    by (cases permit) (auto intro!: sound_pure sound_commit sound_commit_audit simp: ok_or_Inr)
qed

lemma finalize_merge_sound [writes_ops]:
  "sound s0 c \<Longrightarrow> sound s0 (snd (finalize_merge ev owner repo number merge_sha requested base c))"
  by (simp add: finalize_merge_def writes_ops)

lemma finalize_override_live:
  fixes ev permit merge_sha c
  defines "m \<equiv> finalize_merge_checked ev (mp_owner permit) (mp_repo permit) (mp_number permit)
     \<lparr>fb_merge_sha = merge_sha, fb_requested_sha = Some (mp_head_sha permit),
      fb_base = \<lparr>mb_base_ref = bp_branch (mp_protection permit), mb_base_sha = mp_base_sha permit\<rparr>\<rparr>
     (Some permit) c"
  shows "live (snd (finalize_merge_with_override ev permit merge_sha c)) = live (snd m)"
    and "fst (finalize_merge_with_override ev permit merge_sha c) = fst m"
  by (cases m; cases "fst m"; simp add: finalize_merge_with_override_def m_def split: prod.split sum.split;
      metis append_audit_live snd_conv)+

lemma merge_pull_request_sound [writes_ops]:
  "sound s0 c \<Longrightarrow> sound s0 (snd (merge_pull_request ev owner repo number request c))"
  unfolding merge_pull_request_def
  by (auto intro!: sound_pure simp: writes_ops split: merge_readiness.split)

lemma finalize_override_sound [writes_ops]:
  assumes "sound s0 c"
  shows "sound s0 (snd (finalize_merge_with_override ev permit merge_sha c))"
  using finalize_checked_sound [OF assms] finalize_override_synced [of c ev permit merge_sha] assms
  by (simp add: sound_def finalize_override_live)

lemma writes_reput:
  assumes "writes s0 s"
  shows "writes s0 (case hm_get (st_pulls s) key of
       None \<Rightarrow> s
     | Some pr \<Rightarrow> s\<lparr>st_pulls := hm_put key (reevaluated ev s pr) (st_pulls s)\<rparr>)"
  using assms by (cases "hm_get (st_pulls s) key") (auto intro: writes_put_pull)

lemma writes_review: "writes s0 s \<Longrightarrow> writes s0 (s\<lparr>st_reviews := hm_append key [review] (st_reviews s)\<rparr>)"
  by (blast intro: writes_step review_added)

lemma writes_with_review:
  assumes "writes s0 s"
  shows "writes s0 (with_review ev owner repo number author inputs review s)"
proof -
  have added: "writes s0 (t\<lparr>st_reviews := hm_append k [review] (st_reviews t), st_review_comments := x\<rparr>)"
    if "writes s0 t" for t k x
    using writes_review [OF that] by simp
  show ?thesis
    unfolding with_review_def Let_def writes_frame
    by (intro writes_reput added) (use assms in simp)
qed

lemma record_review_sound:
  assumes "sound s0 c"
  shows "sound s0 (snd (record_review ev owner repo number author request dismissed c))"
  unfolding record_review_def Let_def
  by (intro sound_pure assms sound_op) (auto simp: assms intro: sound_commit writes_with_review soundD)

lemma create_review_sound [writes_ops]:
  "sound s0 c \<Longrightarrow> sound s0 (snd (create_review ev owner repo number author request c))"
  by (simp add: create_review_def record_review_sound)

lemma dismiss_review_live:
  "live (snd (dismiss_review ev owner repo number actor request c)) = live c \<or>
   live (snd (dismiss_review ev owner repo number actor request c)) =
     live (snd (record_review ev owner repo number actor
        \<lparr>crr_body = Some (drr_reason request), crr_event = Dismissed, crr_comments = [],
         crr_expected_head_sha = Some (drr_expected_head_sha request)\<rparr> (Some (drr_review_id request)) c))"
  by (auto simp: dismiss_review_def Let_def split: prod.split sum.split option.split)

lemma dismiss_review_sound [writes_ops]:
  assumes "sound s0 c"
  shows "sound s0 (snd (dismiss_review ev owner repo number actor request c))"
proof (rule soundI)
  show "synced (snd (dismiss_review ev owner repo number actor request c))"
    using assms by (simp add: sound_def synced_ops)
  show "writes s0 (live (snd (dismiss_review ev owner repo number actor request c)))"
    using dismiss_review_live [of ev owner repo number actor request c] assms
      record_review_sound [OF assms, of ev owner repo number actor _ "Some (drr_review_id request)"]
    by (auto simp: sound_def)
qed

lemma audit_then_live:
  "live (snd (try_op (append_audit_as ev n actor action subject phase detail c) (\<lambda>_ c. (Inr x, c)))) = live c"
  by (cases "append_audit_as ev n actor action subject phase detail c";
      cases "fst (append_audit_as ev n actor action subject phase detail c)")
    (use append_audit_live [of ev n actor action subject phase detail c] in simp_all)

lemma pure_live:
  "(\<And>x. r = Inr x \<Longrightarrow> live (snd (k x)) = live c) \<Longrightarrow> live (snd (try_pure r c k)) = live c"
  by (cases r) simp_all

lemma prepare_inner_live:
  "live (snd (prepare_merge_override_inner ev owner repo number request c)) = live c"
  unfolding prepare_merge_override_inner_def Let_def
  by (auto intro!: pure_live audit_then_live)

lemma prepare_live: "live (snd (prepare_merge_override ev owner repo number request c)) = live c"
  using prepare_inner_live [of ev owner repo number request c]
  by (cases "prepare_merge_override_inner ev owner repo number request c";
      cases "fst (prepare_merge_override_inner ev owner repo number request c)")
    (simp_all add: prepare_merge_override_def)

lemma prepare_sound [writes_ops]:
  "sound s0 c \<Longrightarrow> sound s0 (snd (prepare_merge_override ev owner repo number request c))"
  by (simp add: sound_def synced_ops prepare_live)

section \<open>Operations beside the pull requests and issues\<close>

lemma create_user_sound [writes_ops]: "sound s0 c \<Longrightarrow> sound s0 (snd (create_user ev n request c))"
  using create_user_cases [of ev n request c]
  by (elim disjE exE conjE) (simp_all add: sound_def)

lemma sound_commit_same: "sound s0 c \<Longrightarrow> writes (live c) s \<Longrightarrow> sound s0 (snd (commit ev n s x c))"
  by (meson rtranclp_trans soundD sound_commit)

lemma writes_put_organization:
  "writes s0 s \<Longrightarrow> organization_step org (hm_get (st_organizations s) org) organization \<Longrightarrow>
     writes s0 (put_organization org organization s)"
  by (blast intro: writes_step organization_written)

lemma writes_put_account:
  "writes s0 s \<Longrightarrow> account_step login (hm_get (st_accounts s) login) account \<Longrightarrow>
     writes s0 (put_account login account s)"
  by (blast intro: writes_step account_written)

lemma create_organization_sound [writes_ops]:
  "sound s0 c \<Longrightarrow> sound s0 (snd (create_organization ev request c))"
  unfolding create_organization_def Let_def
  by (auto intro!: sound_pure sound_commit writes_put_organization soundD
      simp: organization_step_def organization_ok_def hm_has_def put_organization_def [symmetric])

lemma create_team_sound [writes_ops]: "sound s0 c \<Longrightarrow> sound s0 (snd (create_team ev org request c))"
  unfolding create_team_def Let_def
  by (auto intro!: sound_pure sound_beside simp: write_view_def)

lemma create_webhook_sound [writes_ops]:
  "sound s0 c \<Longrightarrow> sound s0 (snd (create_webhook ev owner repo request c))"
  unfolding create_webhook_def Let_def
  by (auto intro!: sound_pure sound_beside simp: write_view_def)

lemma set_repository_readme_sound [writes_ops]:
  "sound s0 c \<Longrightarrow> sound s0 (snd (set_repository_readme ev owner repo markdown c))"
  unfolding set_repository_readme_def
  by (auto intro!: sound_pure sound_beside simp: write_view_def)

lemma create_label_sound [writes_ops]:
  "sound s0 c \<Longrightarrow> sound s0 (snd (create_label ev owner repo request c))"
  unfolding create_label_def Let_def
  by (auto intro!: sound_pure sound_beside simp: write_view_def)

lemma set_codeowners_sound [writes_ops]:
  "sound s0 c \<Longrightarrow> sound s0 (snd (set_codeowners ev owner repo contents c))"
  unfolding set_codeowners_def
  by (auto intro!: sound_pure sound_beside simp: write_view_def)

section \<open>Protection rules and repository rows\<close>

lemma rules_kept_put: "rules_kept repos rules (hm_put key rule rules)"
  by (auto simp: rules_kept_def)

lemma rules_kept_del:
  "(\<And>r. hm_get repos (owner, repo) = Some r \<Longrightarrow> rp_default_branch r = branch \<Longrightarrow>
       rp_default_branch_protection_opt_out r) \<Longrightarrow>
     rules_kept repos rules (hm_del (owner, repo, branch) rules)"
  by (auto simp: rules_kept_def)

lemma set_branch_protection_sound [writes_ops]:
  "sound s0 c \<Longrightarrow> sound s0 (snd (set_branch_protection ev owner repo branch request c))"
  unfolding set_branch_protection_def Let_def
  by (auto intro!: sound_pure sound_commit writes_rules rules_kept_put soundD)

lemma delete_branch_protection_sound [writes_ops]:
  "sound s0 c \<Longrightarrow> sound s0 (snd (delete_branch_protection ev actor owner repo branch c))"
  unfolding delete_branch_protection_def Let_def
  by (auto intro!: sound_pure sound_op sound_commit writes_rules rules_kept_del
      simp: soundD canonical_repository_def ok_or_Inr default_rule_is_mandatory_def)

lemma set_repository_family_sound [writes_ops]:
  "sound s0 c \<Longrightarrow> sound s0 (snd (set_repository_family ev owner repo family c))"
  unfolding set_repository_family_def Let_def
  by (intro sound_pure sound_commit) (auto intro: writes_put_repo soundD)

lemma write_repository_archived_sound:
  "sound s0 c \<Longrightarrow> sound s0 (snd (write_repository_archived ev n owner repo archived c))"
  unfolding write_repository_archived_def Let_def
  by (intro sound_pure sound_commit) (auto intro: writes_put_repo soundD)

lemma set_repository_archived_sound [writes_ops]:
  assumes "sound s0 c"
  shows "sound s0 (snd (set_repository_archived ev actor owner repo archived c))"
proof -
  have tail: "sound s0 (snd (case write_repository_archived ev n owner repo archived c' of
      (result, c) \<Rightarrow> try_op (append_audit_as ev m actor action subject (phase result) detail c)
        (\<lambda>_. Pair result)))"
    if "sound s0 c'" for c' action subject detail phase n m archived
    using write_repository_archived_sound [OF that, of ev n owner repo archived]
    by (cases "write_repository_archived ev n owner repo archived c'") (auto intro!: sound_op)
  show ?thesis
    unfolding set_repository_archived_def Let_def
    by (cases archived) (auto intro!: sound_pure sound_op tail simp: assms)
qed

lemma record_repository_push_sound [writes_ops]:
  "sound s0 c \<Longrightarrow> sound s0 (snd (record_repository_push ev owner repo at c))"
  unfolding record_repository_push_def Let_def
  by (auto intro!: sound_pure sound_commit) (erule (1) writes_put_repo [OF soundD]; simp)+

lemma write_default_branch_sound:
  assumes "sound s0 c"
  shows "sound s0 (snd (write_default_branch ev owner repo branch c))"
proof -
  have "writes s0 (snd (ensure_default_branch_protection ev n r (put_repo owner repo r (live c))))"
    if "canonical_repository (live c) owner repo = Inr entry"
      and "r = entry\<lparr>rp_default_branch := b, rp_updated_at := t\<rparr>" for r entry n b t
    by (subst ensure_default_state, rule writes_put_repo_rules [OF soundD [OF assms] that(1)])
      (use that(2) ensure_default_keeps [of _ "put_repo owner repo r (live c)"] in
        \<open>simp_all add: ensure_default_protects put_repo_def\<close>)
  with assms show ?thesis
    unfolding write_default_branch_def Let_def
    by (intro sound_pure sound_commit) auto
qed

lemma default_branch_sound [writes_ops]:
  assumes "sound s0 c"
  shows "sound s0 (fst (snd (set_repository_default_branch ev branches owner repo branch (c, g))))"
proof -
  have kept: "sound s0 (fst (snd (try_pure r (c, g) k)))"
    if "\<And>x. r = Inr x \<Longrightarrow> sound s0 (fst (snd (k x)))" for r k g
    using assms that by (cases r) simp_all
  show ?thesis
    unfolding set_repository_default_branch_def Let_def split
    by (auto intro!: kept simp: assms split: prod.split)
      (metis assms snd_conv write_default_branch_sound)+
qed

lemma opt_out_sound [writes_ops]:
  assumes "sound s0 c"
  shows "sound s0 (snd (set_default_branch_protection_opt_out ev actor owner repo opt_out c))"
proof -
  let ?r = "\<lambda>v entry t. entry\<lparr>rp_default_branch_protection_opt_out := v, rp_updated_at := t\<rparr>"
  have off: "writes s0 (case found of
         None \<Rightarrow> s1
       | Some rule \<Rightarrow>
           if P rule then s1\<lparr>st_branch_protections := hm_del key (st_branch_protections s1)\<rparr> else s1)"
    if entry: "canonical_repository (live c) owner repo = Inr entry"
      and s1: "s1 = put_repo owner repo (?r True entry t) (live c)"
      and key: "key = (owner, repo, b)" for entry t s1 key b P found
  proof -
    have rules: "writes s0 (s1\<lparr>st_branch_protections := rules\<rparr>)"
      if "rules_kept (hm_del (owner, repo) (st_repos (live c))) (st_branch_protections (live c)) rules" for rules
      unfolding s1
      by (rule writes_put_repo_rules [OF soundD [OF assms] entry])
        (use that in \<open>simp_all add: row_protected_def\<close>)
    have same: "st_branch_protections s1 = st_branch_protections (live c)" by (simp add: s1 put_repo_def)
    have "writes s0 (s1\<lparr>st_branch_protections := hm_del key (st_branch_protections s1)\<rparr>)"
      by (rule rules) (unfold key same, rule rules_kept_del, simp)
    moreover have "writes s0 (s1\<lparr>st_branch_protections := st_branch_protections s1\<rparr>)"
      by (rule rules) (simp add: same rules_kept_def)
    ultimately show ?thesis by (simp split: option.split)
  qed
  have on: "writes s0 (snd (ensure_default_branch_protection ev n (?r False entry t)
      (put_repo owner repo (?r False entry t) (live c))))"
    if entry: "canonical_repository (live c) owner repo = Inr entry" for n entry t
    by (subst ensure_default_state, rule writes_put_repo_rules [OF soundD [OF assms] entry])
      (use ensure_default_keeps [of _ "put_repo owner repo (?r False entry t) (live c)"] in
        \<open>simp_all add: ensure_default_protects put_repo_def\<close>)
  show ?thesis
  proof (rule bool.exhaust [of opt_out])
    assume 1: "opt_out = True"
    show ?thesis
      unfolding set_default_branch_protection_opt_out_def Let_def 1
      by (auto intro!: sound_op sound_pure sound_commit simp: assms) (rule off; (assumption | simp))
  next
    assume 2: "opt_out = False"
    show ?thesis
      unfolding set_default_branch_protection_opt_out_def Let_def 2
      by (auto intro!: sound_op sound_pure sound_commit on simp: assms)
  qed
qed

section \<open>Creating repositories\<close>

lemma create_repository_sound [writes_ops]:
  assumes "sound s0 c"
  shows "sound s0 (snd (create_repository ev materializer owner request c))"
proof -
  have "writes s0 (snd (ensure_default_branch_protection ev k r
      ((live c)\<lparr>st_counters := hm_put (owner, name) cn (st_counters (live c)),
        st_repos := hm_put (owner, name) r (st_repos (live c))\<rparr>)))"
    if "\<not> hm_has (st_repos (live c)) (owner, name)" and "rp_owner r = owner" and "rp_name r = name"
    for name k r cn
  proof -
    let ?s = "(live c)\<lparr>st_counters := hm_put (owner, name) cn (st_counters (live c)),
        st_repos := hm_put (owner, name) r (st_repos (live c))\<rparr>"
    have "store_write (live c) (?s\<lparr>st_branch_protections :=
        st_branch_protections (snd (ensure_default_branch_protection ev k r ?s))\<rparr>)"
      using that ensure_default_keeps [of "st_repos (live c)" ?s ev k r]
      by (intro repository_created) (simp_all add: ensure_default_protects)
    with soundD [OF assms] show ?thesis
      by (subst ensure_default_state) (rule writes_step)
  qed
  with assms show ?thesis
    unfolding create_repository_def Let_def
    by (cases materializer) (auto intro!: sound_pure sound_op sound_commit)
qed

section \<open>Repairs\<close>

lemma decide_rekey_safe:
  assumes "pk_key step = (owner, repo, branch)" and "hm_get (st_repos s) (owner, repo) = Some r"
    and "rp_default_branch r = branch"
  shows "\<exists>reason. decide_rekey s step = KeepRule reason"
  using assms by (simp add: decide_rekey_def)

lemma writes_rekey_step:
  assumes "writes s0 s"
  shows "writes s0 (snd (snd (rekey_step step (report, changes, s))))"
proof -
  obtain owner repo branch where key: "pk_key step = (owner, repo, branch)" by (cases "pk_key step")
  have kept: "rules_kept (st_repos s) (st_branch_protections s) rules"
    if "\<And>reason. decide_rekey s step \<noteq> KeepRule reason"
      and "\<And>k. hm_has (st_branch_protections s) k \<Longrightarrow> k \<noteq> (owner, repo, branch) \<Longrightarrow> hm_has rules k" for rules
    using decide_rekey_safe [OF key] that unfolding rules_kept_def by blast
  show ?thesis
  proof (cases "decide_rekey s step")
    case (KeepRule reason)
    with assms show ?thesis by (simp add: rekey_step_def)
  next
    case RemoveRule
    with assms kept [of "hm_del (owner, repo, branch) (st_branch_protections s)"] show ?thesis
      by (simp add: rekey_step_def key writes_rules)
  next
    case Rekey
    then show ?thesis
      using assms kept [of "hm_put (owner, repo, pk_decoded step) rule
          (hm_del (owner, repo, branch) (st_branch_protections s))" for rule]
      by (cases "hm_get (st_branch_protections s) (owner, repo, branch)")
        (simp_all add: rekey_step_def key writes_rules)
  qed
qed

lemma writes_rekeys: "writes s0 s \<Longrightarrow> writes s0 (snd (snd (fold rekey_step plan (report, changes, s))))"
proof (induction plan arbitrary: report changes s)
  case Nil
  then show ?case by simp
next
  case (Cons step plan)
  with Cons.IH writes_rekey_step [OF Cons.prems, of step report changes] show ?case
    by (cases "rekey_step step (report, changes, s)") auto
qed

lemma audit_rekeys_sound: "sound s0 c \<Longrightarrow> sound s0 (snd (audit_rekeys ev actor changes n c))"
  by (induction changes arbitrary: n c) (auto intro!: sound_op split: prod.split)

lemma rekey_sound [writes_ops]:
  assumes "sound s0 c"
  shows "sound s0 (snd (rekey_encoded_branch_protections ev actor branches g c))"
proof -
  have "writes s0 s"
    if "fold rekey_step plan (empty_report, [], live c) = (report, changes, s)" for plan report changes s
    using writes_rekeys [OF soundD [OF assms], of plan empty_report "[]"] that by simp
  with assms show ?thesis
    unfolding rekey_encoded_branch_protections_def Let_def
    by (auto intro!: sound_pure sound_op sound_commit audit_rekeys_sound split: prod.split)
qed

lemma writes_fill: "writes s0 s \<Longrightarrow> writes s0 (snd (fill_pushed_at entry (n, s)))"
proof -
  assume s: "writes s0 s"
  obtain owner repo at where entry: "entry = ((owner, repo), at)" by (cases entry) auto
  show ?thesis
  proof (cases "hm_get (st_repos s) (owner, repo)")
    case None
    with s show ?thesis by (simp add: fill_pushed_at_def entry)
  next
    case (Some r)
    then have "writes s0 (put_repo owner repo (r\<lparr>rp_pushed_at := Some at\<rparr>) s)"
      by (intro writes_put_repo [OF s, of _ _ r]) (simp_all add: canonical_repository_def ok_or_Inr)
    with Some s show ?thesis by (simp add: fill_pushed_at_def entry put_repo_def)
  qed
qed

lemma writes_pushes: "writes s0 s \<Longrightarrow> writes s0 (snd (fold fill_pushed_at found (n, s)))"
proof (induction found arbitrary: n s)
  case Nil
  then show ?case by simp
next
  case (Cons entry found)
  with Cons.IH writes_fill [OF Cons.prems, of entry n] show ?case
    by (cases "fill_pushed_at entry (n, s)") auto
qed

lemma pushes_none: "filled \<le> fst (fold fill_pushed_at found (filled, s)) \<and>
    (fst (fold fill_pushed_at found (filled, s)) = filled \<longrightarrow> snd (fold fill_pushed_at found (filled, s)) = s)"
proof (induction found arbitrary: filled s)
  case Nil
  show ?case by simp
next
  case (Cons entry found)
  obtain key at where entry: "entry = (key, at)" by (cases entry)
  show ?case
  proof (cases "fill_pushed_at entry (filled, s) = (filled, s)")
    case True
    with Cons.IH show ?thesis by simp
  next
    case False
    then obtain s' where "fill_pushed_at entry (filled, s) = (filled + 1, s')"
      by (auto simp: fill_pushed_at_def entry split: option.splits if_splits)
    with Cons.IH [of "filled + 1" s'] show ?thesis by auto
  qed
qed

lemma backfill_pushed_at_sound [writes_ops]:
  assumes "sound s0 c"
  shows "sound s0 (snd (backfill_repository_pushed_at ev history c))"
proof -
  have some: "writes s0 s"
    if "fold fill_pushed_at found (0, live c) = (n, s)" for found n s
    using writes_pushes [OF soundD [OF assms], of found 0] that by simp
  have none: "sound s0 (c\<lparr>live := s\<rparr>)"
    if "fold fill_pushed_at found (0, live c) = (0, s)" for found s
    using pushes_none [of 0 found "live c"] that assms by simp
  from assms some none show ?thesis
    unfolding backfill_repository_pushed_at_def Let_def
    by (auto intro!: sound_pure sound_commit split: prod.split)
qed

end
