(* ===== verification/Deployments.thy ===== *)
theory Deployments
  imports Sample_Store "HOL-Library.Option_ord"
begin

text \<open>
  Deployments and their append-only status trail (\<^verbatim>\<open>engine/deployments.rs\<close>, \<^verbatim>\<open>model/deployments.rs\<close>, the
  append path of \<^verbatim>\<open>engine/storage/deployments.rs\<close>). The two maps are part of \<^verbatim>\<open>State\<close> but not of the
  snapshot that is persisted, so they are kept beside it in a \<open>deploy_book\<close>, with the durable rows
  when there is a store.
\<close>

declare upt_Suc [simp del]

section \<open>Data\<close>

datatype deployment_state =
  DepError | DepFailure | DepInactive | DepInProgress | DepQueued | DepPending | DepSuccess

fun deployment_state_as_str :: "deployment_state \<Rightarrow> string" where
  "deployment_state_as_str DepError = ''error''"
| "deployment_state_as_str DepFailure = ''failure''"
| "deployment_state_as_str DepInactive = ''inactive''"
| "deployment_state_as_str DepInProgress = ''in_progress''"
| "deployment_state_as_str DepQueued = ''queued''"
| "deployment_state_as_str DepPending = ''pending''"
| "deployment_state_as_str DepSuccess = ''success''"

record deployment =
  dp_id :: u64
  dp_repository_id :: uuid
  dp_owner :: string
  dp_repo :: string
  dp_sha :: string
  dp_ref_name :: string
  dp_task :: string
  dp_environment :: string
  dp_description :: "string option"
  dp_payload :: json
  dp_production_environment :: bool
  dp_transient_environment :: bool
  dp_creator :: string
  dp_created_at :: time

record deployment_status =
  ds_id :: u64
  ds_deployment_id :: u64
  ds_state :: deployment_state
  ds_description :: "string option"
  ds_environment_url :: "string option"
  ds_log_url :: "string option"
  ds_creator :: string
  ds_created_at :: time

record create_deployment_request =
  cdr_sha :: string
  cdr_ref_name :: "string option"
  cdr_task :: string
  cdr_environment :: string
  cdr_description :: "string option"
  cdr_payload :: "json option"
  cdr_production_environment :: "bool option"
  cdr_transient_environment :: bool

definition default_deployment_task :: string where "default_deployment_task = ''deploy''"
definition default_deployment_environment :: string where
  "default_deployment_environment = ''production''"
definition default_auto_inactive :: bool where "default_auto_inactive = True"

record create_deployment_status_request =
  cds_state :: deployment_state
  cds_description :: "string option"
  cds_environment_url :: "string option"
  cds_log_url :: "string option"
  cds_auto_inactive :: bool

record deployment_filter =
  df_environment :: "string option"
  df_sha :: "string option"
  df_ref_name :: "string option"

record deployment_with_status =
  dw_deployment :: deployment
  dw_status :: "deployment_status option"
  dw_succeeded :: bool

record environment_summary =
  es_environment :: string
  es_latest :: "deployment_with_status option"
  es_current :: "deployment_with_status option"
  es_previous :: "deployment_with_status option"

text \<open>The durable rows are kept in the order they were appended.\<close>

record deploy_rows =
  dr_deployments :: "deployment list"
  dr_statuses :: "deployment_status list"

record deploy_book =
  db_deployments :: "(u64 \<times> deployment) list"
  db_statuses :: "(u64 \<times> deployment_status list) list"
  db_rows :: "deploy_rows option"

type_synonym 'a deploy_outcome = "(forge_error + 'a) \<times> deploy_book"

section \<open>Helpers\<close>

definition require_sha :: "string \<Rightarrow> forge_error + unit" where
  "require_sha sha =
     (if length sha = 40 \<and> list_all is_lower_hexdigit sha then Inr ()
      else Inl (Validation ''sha must be a full 40-character lowercase hex commit id''))"

definition find_repository_id :: "state \<Rightarrow> string \<Rightarrow> string \<Rightarrow> forge_error + uuid" where
  "find_repository_id s owner repo =
     ok_or (map_option rp_id (hm_get (st_repos s) (owner, repo))) (repository_not_found owner repo)"

definition statuses_of :: "deploy_book \<Rightarrow> u64 \<Rightarrow> deployment_status list" where
  "statuses_of b i = hm_list (db_statuses b) i"

definition latest_status :: "deploy_book \<Rightarrow> u64 \<Rightarrow> deployment_status option" where
  "latest_status b i = (if statuses_of b i = [] then None else Some (last (statuses_of b i)))"

definition deployment_not_found :: "uuid \<Rightarrow> u64 \<Rightarrow> forge_error" where
  "deployment_not_found repository_id i =
     NotFound (''deployment '' @ show_nat i @ '' in repository '' @ show_uuid repository_id)"

definition find_deployment :: "deploy_book \<Rightarrow> uuid \<Rightarrow> u64 \<Rightarrow> forge_error + deployment" where
  "find_deployment b repository_id i =
     (case map_of (db_deployments b) i of
        None \<Rightarrow> Inl (deployment_not_found repository_id i)
      | Some d \<Rightarrow> if dp_repository_id d = repository_id then Inr d
                  else Inl (deployment_not_found repository_id i))"

definition next_deployment_id :: "deploy_book \<Rightarrow> u64" where
  "next_deployment_id b =
     (if db_deployments b = [] then 1 else u64_succ (fst (last (db_deployments b))))"

definition all_statuses :: "deploy_book \<Rightarrow> deployment_status list" where
  "all_statuses b = concat (map snd (db_statuses b))"

definition next_deployment_status_id :: "deploy_book \<Rightarrow> u64" where
  "next_deployment_status_id b =
     (if all_statuses b = [] then 1 else u64_succ (Max (ds_id ` set (all_statuses b))))"

definition with_status :: "deploy_book \<Rightarrow> deployment \<Rightarrow> deployment_with_status" where
  "with_status b d =
     \<lparr>dw_deployment = d, dw_status = latest_status b (dp_id d),
      dw_succeeded = list_ex (\<lambda>s. ds_state s = DepSuccess) (statuses_of b (dp_id d))\<rparr>"

section \<open>Operations\<close>

text \<open>One row is inserted durably before memory is changed; a fault leaves both as they were.\<close>

definition append_deployment :: "env \<Rightarrow> deployment \<Rightarrow> deploy_book \<Rightarrow> unit deploy_outcome" where
  "append_deployment ev d b =
     (case db_rows b of
        None \<Rightarrow> (Inr (), b)
      | Some rows \<Rightarrow>
          (case env_fault ev 0 of
             Some e \<Rightarrow> (Inl e, b)
           | None \<Rightarrow> (Inr (), b\<lparr>db_rows := Some (rows\<lparr>dr_deployments := dr_deployments rows @ [d]\<rparr>)\<rparr>)))"

definition create_deployment ::
  "env \<Rightarrow> state \<Rightarrow> string \<Rightarrow> string \<Rightarrow> string \<Rightarrow> create_deployment_request \<Rightarrow> deploy_book \<Rightarrow>
   deployment deploy_outcome" where
  "create_deployment ev s owner repo creator request b =
     try_pure (require_sha (cdr_sha request)) b (\<lambda>_.
     try_pure (require_name ''environment'' (cdr_environment request)) b (\<lambda>_.
     try_pure (require_name ''task'' (cdr_task request)) b (\<lambda>_.
     try_pure (case cdr_ref_name request of
                 Some value \<Rightarrow> try_res (require_name ''ref'' value) (\<lambda>_. Inr value)
               | None \<Rightarrow> Inr (cdr_sha request)) b (\<lambda>ref_name.
     try_pure (find_repository_id s owner repo) b (\<lambda>repository_id.
       let d = \<lparr>dp_id = next_deployment_id b, dp_repository_id = repository_id, dp_owner = owner,
                dp_repo = repo, dp_sha = cdr_sha request, dp_ref_name = ref_name,
                dp_task = cdr_task request, dp_environment = cdr_environment request,
                dp_description = cdr_description request,
                dp_payload = (case cdr_payload request of None \<Rightarrow> JObj [] | Some p \<Rightarrow> p),
                dp_production_environment =
                  (case cdr_production_environment request of
                     None \<Rightarrow> cdr_environment request = ''production'' | Some flag \<Rightarrow> flag),
                dp_transient_environment = cdr_transient_environment request,
                dp_creator = creator, dp_created_at = env_clk ev 0\<rparr>
       in try_op (append_deployment ev d b) (\<lambda>_ b.
            (Inr d, b\<lparr>db_deployments := bt_put (dp_id d) d (db_deployments b)\<rparr>)))))))"

definition get_deployment :: "state \<Rightarrow> deploy_book \<Rightarrow> string \<Rightarrow> string \<Rightarrow> u64 \<Rightarrow> forge_error + deployment" where
  "get_deployment s b owner repo i =
     try_res (find_repository_id s owner repo) (\<lambda>repository_id. find_deployment b repository_id i)"

definition list_deployments ::
  "state \<Rightarrow> deploy_book \<Rightarrow> string \<Rightarrow> string \<Rightarrow> deployment_filter \<Rightarrow> forge_error + deployment list" where
  "list_deployments s b owner repo wanted =
     try_res (find_repository_id s owner repo) (\<lambda>repository_id.
       Inr [d \<leftarrow> rev (map snd (db_deployments b)).
              dp_repository_id d = repository_id \<and>
              (df_environment wanted = None \<or> df_environment wanted = Some (dp_environment d)) \<and>
              (df_sha wanted = None \<or> df_sha wanted = Some (dp_sha d)) \<and>
              (df_ref_name wanted = None \<or> df_ref_name wanted = Some (dp_ref_name d))])"

definition push_status :: "deployment_status \<Rightarrow> (u64 \<times> deployment_status list) list \<Rightarrow>
    (u64 \<times> deployment_status list) list" where
  "push_status status m = bt_put (ds_deployment_id status) (hm_list m (ds_deployment_id status) @ [status]) m"

definition append_statuses :: "env \<Rightarrow> deployment_status list \<Rightarrow> deploy_book \<Rightarrow> unit deploy_outcome" where
  "append_statuses ev statuses b =
     (let stored = b\<lparr>db_statuses := fold push_status statuses (db_statuses b)\<rparr>
      in case db_rows b of
           None \<Rightarrow> (Inr (), stored)
         | Some rows \<Rightarrow>
             (case env_fault ev 0 of
                Some e \<Rightarrow> (Inl e, b)
              | None \<Rightarrow> (Inr (), stored\<lparr>db_rows :=
                          Some (rows\<lparr>dr_statuses := dr_statuses rows @ statuses\<rparr>)\<rparr>)))"

text \<open>The deployments a success of \<open>d\<close> replaces.\<close>

definition superseded :: "deploy_book \<Rightarrow> deployment \<Rightarrow> u64 list" where
  "superseded b d =
     map dp_id [e \<leftarrow> map snd (db_deployments b).
       dp_id e \<noteq> dp_id d \<and> dp_repository_id e = dp_repository_id d \<and>
       dp_environment e = dp_environment d \<and> \<not> dp_transient_environment e \<and>
       map_option ds_state (latest_status b (dp_id e)) = Some DepSuccess]"

text \<open>The \<open>k\<close>-th extra status of a batch whose first status has the id \<open>base\<close>.\<close>

definition inactive_status ::
  "u64 \<Rightarrow> u64 \<Rightarrow> string \<Rightarrow> time \<Rightarrow> nat \<Rightarrow> u64 \<Rightarrow> deployment_status" where
  "inactive_status base replaced_by creator now k i =
     \<lparr>ds_id = (base + k) mod 2 ^ 64, ds_deployment_id = i, ds_state = DepInactive,
      ds_description = Some (''superseded by deployment '' @ show_nat replaced_by),
      ds_environment_url = None, ds_log_url = None, ds_creator = creator, ds_created_at = now\<rparr>"

definition pending_statuses ::
  "deploy_book \<Rightarrow> deployment \<Rightarrow> bool \<Rightarrow> string \<Rightarrow> time \<Rightarrow> deployment_status \<Rightarrow> deployment_status list" where
  "pending_statuses b d auto_inactive creator now status =
     (if ds_state status = DepSuccess \<and> auto_inactive
      then status # map2 (inactive_status (ds_id status) (ds_deployment_id status) creator now)
                      [1..<1 + length (superseded b d)] (superseded b d)
      else [status])"

definition create_deployment_status ::
  "env \<Rightarrow> state \<Rightarrow> string \<Rightarrow> string \<Rightarrow> u64 \<Rightarrow> string \<Rightarrow> create_deployment_status_request \<Rightarrow>
   deploy_book \<Rightarrow> deployment_status deploy_outcome" where
  "create_deployment_status ev s owner repo deployment_id creator request b =
     try_pure (find_repository_id s owner repo) b (\<lambda>repository_id.
     try_pure (find_deployment b repository_id deployment_id) b (\<lambda>d.
       let now = env_clk ev 0;
           status = \<lparr>ds_id = next_deployment_status_id b, ds_deployment_id = deployment_id,
                     ds_state = cds_state request, ds_description = cds_description request,
                     ds_environment_url = cds_environment_url request,
                     ds_log_url = cds_log_url request, ds_creator = creator, ds_created_at = now\<rparr>
       in try_op (append_statuses ev
                    (pending_statuses b d (cds_auto_inactive request) creator now status) b)
            (\<lambda>_ b. (Inr status, b))))"

definition list_deployment_statuses ::
  "state \<Rightarrow> deploy_book \<Rightarrow> string \<Rightarrow> string \<Rightarrow> u64 \<Rightarrow> forge_error + deployment_status list" where
  "list_deployment_statuses s b owner repo deployment_id =
     try_res (find_repository_id s owner repo) (\<lambda>repository_id.
     try_res (find_deployment b repository_id deployment_id) (\<lambda>_.
       Inr (rev (statuses_of b deployment_id))))"

definition newest_first :: "deploy_book \<Rightarrow> uuid \<Rightarrow> string \<Rightarrow> deployment_with_status list" where
  "newest_first b repository_id environment =
     map (with_status b)
       [d \<leftarrow> rev (map snd (db_deployments b)).
          dp_repository_id d = repository_id \<and> dp_environment d = environment]"

definition current_of :: "deployment_with_status list \<Rightarrow> deployment_with_status option" where
  "current_of ds =
     max_by_key (\<lambda>d. map_option ds_id (dw_status d))
       [d \<leftarrow> ds. case dw_status d of None \<Rightarrow> False | Some s \<Rightarrow> ds_state s = DepSuccess]"

definition newest_success :: "deploy_book \<Rightarrow> u64 \<Rightarrow> u64 option" where
  "newest_success b i =
     map_option ds_id (find (\<lambda>s. ds_state s = DepSuccess) (rev (statuses_of b i)))"

definition summarize_environment :: "deploy_book \<Rightarrow> uuid \<Rightarrow> string \<Rightarrow> environment_summary" where
  "summarize_environment b repository_id environment =
     (let ds = newest_first b repository_id environment;
          current = current_of ds
      in \<lparr>es_environment = environment,
          es_latest = (case ds of [] \<Rightarrow> None | d # _ \<Rightarrow> Some d),
          es_current = current,
          es_previous =
            (case current of
               None \<Rightarrow> None
             | Some shown \<Rightarrow>
                 max_by_key (\<lambda>d. newest_success b (dp_id (dw_deployment d)))
                   [d \<leftarrow> ds. dp_id (dw_deployment d) \<noteq> dp_id (dw_deployment shown) \<and> dw_succeeded d])\<rparr>)"

definition deployment_environments ::
  "state \<Rightarrow> deploy_book \<Rightarrow> string \<Rightarrow> string \<Rightarrow> forge_error + environment_summary list" where
  "deployment_environments s b owner repo =
     try_res (find_repository_id s owner repo) (\<lambda>repository_id.
       Inr (map (summarize_environment b repository_id)
              (sorted_list_of_set (dp_environment ` set [d \<leftarrow> map snd (db_deployments b).
                 dp_repository_id d = repository_id]))))"

section \<open>Slugs and loading\<close>

text \<open>A \<^verbatim>\<open>collect\<close> into a \<^verbatim>\<open>HashMap\<close> keeps the last entry of a key.\<close>

definition refresh_slug :: "state \<Rightarrow> deployment \<Rightarrow> deployment" where
  "refresh_slug s d =
     (case map_of (rev (map (\<lambda>r. (rp_id r, (rp_owner r, rp_name r))) (hm_values (st_repos s))))
             (dp_repository_id d) of
        None \<Rightarrow> d
      | Some (owner, name) \<Rightarrow> d\<lparr>dp_owner := owner, dp_repo := name\<rparr>)"

definition refresh_deployment_slugs :: "state \<Rightarrow> deploy_book \<Rightarrow> deploy_book" where
  "refresh_deployment_slugs s b = b\<lparr>db_deployments := hm_map (refresh_slug s) (db_deployments b)\<rparr>"

text \<open>What \<^verbatim>\<open>load_deployments\<close> reads: both tables, ordered by id.\<close>

definition load_deployment_rows :: "deployment list \<Rightarrow> (u64 \<times> deployment) list" where
  "load_deployment_rows rows = fold (\<lambda>d. bt_put (dp_id d) d) (sort_key dp_id rows) []"

definition load_status_rows :: "deployment_status list \<Rightarrow> (u64 \<times> deployment_status list) list" where
  "load_status_rows rows = fold push_status (sort_key ds_id rows) []"

definition load_deployments :: "deploy_rows \<Rightarrow> deploy_book" where
  "load_deployments rows =
     \<lparr>db_deployments = load_deployment_rows (dr_deployments rows),
      db_statuses = load_status_rows (dr_statuses rows), db_rows = Some rows\<rparr>"

text \<open>A new book, in memory or on an empty database.\<close>

definition new_book :: "deploy_rows option \<Rightarrow> deploy_book" where
  "new_book rows = \<lparr>db_deployments = [], db_statuses = [], db_rows = rows\<rparr>"

section \<open>The book\<close>

text \<open>
  What every book satisfies: both maps in key order, deployments under their id, statuses under their
  deployment and in increasing order of their ids, ids given out once over the whole forge; and the
  durable rows are in id order and hold the same statuses and, up to the slug, the same deployments.
\<close>

definition slugless :: "deployment \<Rightarrow> deployment" where
  "slugless d = d\<lparr>dp_owner := [], dp_repo := []\<rparr>"

definition rows_agree :: "deploy_book \<Rightarrow> deploy_rows \<Rightarrow> bool" where
  "rows_agree b rows =
     (sorted_wrt (<) (map dp_id (dr_deployments rows)) \<and> sorted_wrt (<) (map ds_id (dr_statuses rows)) \<and>
      map (\<lambda>d. (dp_id d, slugless d)) (dr_deployments rows) = hm_map slugless (db_deployments b) \<and>
      db_statuses b = fold push_status (dr_statuses rows) [])"

definition statuses_ok :: "(u64 \<times> deployment_status list) list \<Rightarrow> bool" where
  "statuses_ok m =
     (bt_ok m \<and>
      (\<forall>i. sorted_wrt (<) (map ds_id (hm_list m i)) \<and> (\<forall>s \<in> set (hm_list m i). ds_deployment_id s = i)) \<and>
      (\<forall>i j s t. s \<in> set (hm_list m i) \<longrightarrow> t \<in> set (hm_list m j) \<longrightarrow> ds_id s = ds_id t \<longrightarrow> s = t))"

definition book_ok :: "deploy_book \<Rightarrow> bool" where
  "book_ok b =
     (sorted_wrt (<) (map fst (db_deployments b)) \<and> (\<forall>(i, d) \<in> set (db_deployments b). dp_id d = i) \<and>
      statuses_ok (db_statuses b) \<and> (\<forall>rows. db_rows b = Some rows \<longrightarrow> rows_agree b rows))"

text \<open>Room for the ids of one more deployment or one more batch of statuses.\<close>

definition deploy_room :: "deploy_book \<Rightarrow> bool" where
  "deploy_room b =
     (next_deployment_id b \<noteq> 0 \<and> length (db_deployments b) + 1 < 2 ^ 64 \<and>
      (\<forall>(i, d) \<in> set (db_deployments b). i < 2 ^ 64) \<and>
      (\<forall>s \<in> set (all_statuses b). ds_id s + length (db_deployments b) + 1 < 2 ^ 64))"

lemma bt_put_last:
  "\<forall>(i, d) \<in> set m. i < k \<Longrightarrow> bt_put k v m = m @ [(k, v)]"
  by (induction k v m rule: bt_put.induct) auto

lemma sorted_load: "sorted_wrt (<) (map f xs) \<Longrightarrow> sort_key (f :: 'a \<Rightarrow> u64) xs = xs"
  by (rule sort_key_id_if_sorted) (auto intro: sorted_wrt_mono_rel [of _ "(<)"])

lemma load_ordered:
  "sorted_wrt (<) (map dp_id (ds @ rest)) \<Longrightarrow>
     fold (\<lambda>d. bt_put (dp_id d) d) rest (map (\<lambda>d. (dp_id d, d)) ds) = map (\<lambda>d. (dp_id d, d)) (ds @ rest)"
proof (induction rest arbitrary: ds)
  case Nil
  show ?case by simp
next
  case (Cons d rest)
  have "bt_put (dp_id d) d (map (\<lambda>d. (dp_id d, d)) ds) = map (\<lambda>d. (dp_id d, d)) (ds @ [d])"
    using Cons.prems by (subst bt_put_last) (auto simp: sorted_wrt_append)
  with Cons.IH [of "ds @ [d]"] Cons.prems show ?case by simp
qed

lemma load_deployment_rows_ordered:
  "sorted_wrt (<) (map dp_id rows) \<Longrightarrow> load_deployment_rows rows = map (\<lambda>d. (dp_id d, d)) rows"
  using load_ordered [of "[]" rows] by (simp add: load_deployment_rows_def sorted_load)

definition below :: "(u64 \<times> deployment_status list) list \<Rightarrow> u64 \<Rightarrow> bool" where
  "below m k = (\<forall>i. \<forall>s \<in> set (hm_list m i). ds_id s < k)"

lemma push_status_get:
  "bt_ok m \<Longrightarrow> hm_list (push_status s m) i = hm_list m i @ (if ds_deployment_id s = i then [s] else [])"
  by (simp add: push_status_def hm_list_def bt_put_get)

lemma push_status_bt: "bt_ok m \<Longrightarrow> bt_ok (push_status s m)"
  by (simp add: push_status_def bt_put_ok)

lemma push_statuses_bt: "bt_ok m \<Longrightarrow> bt_ok (fold push_status ss m)"
  by (induction ss arbitrary: m) (simp_all add: push_status_bt)

lemma push_statuses_get:
  "bt_ok m \<Longrightarrow> hm_list (fold push_status ss m) i = hm_list m i @ [s \<leftarrow> ss. ds_deployment_id s = i]"
  by (induction ss arbitrary: m) (auto simp: push_status_bt push_status_get)

lemma push_statuses_ok:
  assumes ok: "statuses_ok m" and ids: "sorted_wrt (<) (map ds_id ss)"
    and above: "\<forall>s \<in> set ss. below m (ds_id s)"
  shows "statuses_ok (fold push_status ss m)"
proof -
  have bt: "bt_ok m" using ok by (simp add: statuses_ok_def)
  note get = push_statuses_get [OF bt]
  have old: "ds_id t < ds_id s" if "s \<in> set ss" "t \<in> set (hm_list m i)" for s t i
    using above that by (auto simp: below_def)
  have uniq: "s = t" if "s \<in> set ss" "t \<in> set ss" "ds_id s = ds_id t" for s t
    using ids that by (auto simp: sorted_wrt_iff_nth_less in_set_conv_nth)
      (metis less_irrefl linorder_neqE_nat)
  show ?thesis
    unfolding statuses_ok_def
  proof (intro conjI allI ballI impI)
    show "bt_ok (fold push_status ss m)" using bt by (rule push_statuses_bt)
    fix i
    show "sorted_wrt (<) (map ds_id (hm_list (fold push_status ss m) i))"
      using ok ids old
      by (auto simp: get sorted_wrt_append statuses_ok_def sorted_wrt_map sorted_wrt_filter)
    show "ds_deployment_id s = i" if "s \<in> set (hm_list (fold push_status ss m) i)" for s
      using that ok by (auto simp: get statuses_ok_def)
    show "s = t" if "s \<in> set (hm_list (fold push_status ss m) i)"
      and "t \<in> set (hm_list (fold push_status ss m) j)" and "ds_id s = ds_id t" for j s t
      using that ok old [of s t j] old [of t s i] uniq [of s t] by (auto simp: get statuses_ok_def)
  qed
qed

lemma all_statuses_set:
  assumes "bt_ok (db_statuses b)"
  shows "s \<in> set (all_statuses b) \<longleftrightarrow> (\<exists>i. s \<in> set (hm_list (db_statuses b) i))"
proof
  assume "s \<in> set (all_statuses b)"
  then obtain i ss where "(i, ss) \<in> set (db_statuses b)" "s \<in> set ss"
    by (auto simp: all_statuses_def)
  moreover have "distinct (map fst (db_statuses b))" using assms by (simp add: bt_ok_def)
  ultimately show "\<exists>i. s \<in> set (hm_list (db_statuses b) i)"
    by (metis hm_list_def map_of_is_SomeI option.simps(5))
next
  assume "\<exists>i. s \<in> set (hm_list (db_statuses b) i)"
  then obtain i ss where "map_of (db_statuses b) i = Some ss" "s \<in> set ss"
    by (metis empty_iff empty_set hm_list_def option.case_eq_if option.collapse)
  then show "s \<in> set (all_statuses b)"
    unfolding all_statuses_def by (force dest: map_of_SomeD)
qed

lemma next_status_id:
  assumes "statuses_ok (db_statuses b)" and "deploy_room b"
  shows "below (db_statuses b) (next_deployment_status_id b)"
    and "next_deployment_status_id b + length (db_deployments b) < 2 ^ 64"
proof -
  have bt: "bt_ok (db_statuses b)" using assms(1) by (simp add: statuses_ok_def)
  have "below (db_statuses b) (next_deployment_status_id b) \<and>
      next_deployment_status_id b + length (db_deployments b) < 2 ^ 64"
  proof (cases "all_statuses b = []")
    case True
    then have "hm_list (db_statuses b) i = []" for i using all_statuses_set [OF bt] by (metis empty_iff empty_set list.set_intros(1) neq_Nil_conv)
    with True assms(2) show ?thesis by (simp add: below_def next_deployment_status_id_def deploy_room_def)
  next
    case False
    let ?M = "Max (ds_id ` set (all_statuses b))"
    have "?M \<in> ds_id ` set (all_statuses b)" using False by simp
    then have M: "?M + length (db_deployments b) + 1 < 2 ^ 64" using assms(2) by (auto simp: deploy_room_def)
    then have "u64_succ ?M = ?M + 1" by (simp add: u64_succ_def)
    then have "next_deployment_status_id b = ?M + 1" using False by (simp add: next_deployment_status_id_def)
    moreover have "ds_id s \<le> ?M" if "s \<in> set (hm_list (db_statuses b) i)" for s i
      using that all_statuses_set [OF bt] by (intro Max_ge) auto
    then have "below (db_statuses b) (?M + 1)" by (simp add: below_def less_Suc_eq_le)
    ultimately show ?thesis using M by simp
  qed
  then show "below (db_statuses b) (next_deployment_status_id b)"
    and "next_deployment_status_id b + length (db_deployments b) < 2 ^ 64" by simp_all
qed

lemma u64_succ_nonzero:
  assumes "n < 2 ^ 64" and "u64_succ n \<noteq> 0"
  shows "u64_succ n = n + 1"
proof (cases "n + 1 = 2 ^ 64")
  case True
  then have "u64_succ n = 0" by (simp only: u64_succ_def mod_self)
  with assms(2) show ?thesis by simp
next
  case False
  with assms(1) have "n + 1 < 2 ^ 64" by linarith
  then show ?thesis by (simp only: u64_succ_def mod_less)
qed

lemma next_deployment_above:
  assumes "book_ok b" and "deploy_room b"
  shows "\<forall>(i, d) \<in> set (db_deployments b). i < next_deployment_id b"
proof (cases "db_deployments b = []")
  case False
  let ?l = "last (db_deployments b)"
  have l: "?l \<in> set (db_deployments b)" using False by simp
  with assms(2) have small: "fst ?l < 2 ^ 64" by (auto simp: deploy_room_def)
  moreover have "u64_succ (fst ?l) \<noteq> 0"
    using assms(2) False by (simp add: deploy_room_def next_deployment_id_def)
  ultimately have "next_deployment_id b = fst ?l + 1"
    using False u64_succ_nonzero by (simp add: next_deployment_id_def)
  moreover have "i \<le> fst ?l" if "(i, d) \<in> set (db_deployments b)" for i d
  proof -
    have split: "db_deployments b = butlast (db_deployments b) @ [?l]" using False by simp
    then have "sorted_wrt (<) (map fst (butlast (db_deployments b) @ [?l]))"
      using assms(1) by (simp add: book_ok_def)
    then have "\<forall>x \<in> set (butlast (db_deployments b)). fst x < fst ?l" by (simp add: sorted_wrt_append)
    moreover from that have "(i, d) \<in> set (butlast (db_deployments b)) \<or> (i, d) = ?l"
      using split by (metis Un_iff empty_iff insert_iff list.set(1) list.set(2) set_append)
    ultimately show ?thesis by (metis fst_conv less_imp_le order_refl)
  qed
  ultimately show ?thesis by fastforce
qed simp

text \<open>The batch of a status: increasing ids, one row for every deployment it concerns.\<close>

lemma superseded_props:
  assumes "book_ok b"
  shows "distinct (superseded b d)" and "dp_id d \<notin> set (superseded b d)"
    and "length (superseded b d) \<le> length (db_deployments b)"
proof -
  have fst_id: "map fst (db_deployments b) = map dp_id (map snd (db_deployments b))"
    using assms by (auto simp: book_ok_def)
  have "distinct (map fst (db_deployments b))"
    using assms strict_sorted_iff [of "map fst (db_deployments b)"] by (simp add: book_ok_def)
  then have ids: "distinct (map dp_id (map snd (db_deployments b)))" by (simp only: fst_id)
  then show "distinct (superseded b d)"
    unfolding superseded_def by (rule distinct_map_filter)
  show "dp_id d \<notin> set (superseded b d)" by (auto simp: superseded_def)
  show "length (superseded b d) \<le> length (db_deployments b)"
    unfolding superseded_def length_map using length_filter_le [of _ "map snd (db_deployments b)"] by simp
qed

lemma inactive_batch_none:
  "i \<notin> set is \<Longrightarrow> [s \<leftarrow> map2 (inactive_status base by' who now) ks is. ds_deployment_id s = i] = []"
  by (auto simp: filter_empty_conv inactive_status_def dest: set_zip_rightD)

lemma inactive_batch_one:
  assumes "distinct is" and "i \<in> set is" and "length ks = length is"
  shows "\<exists>k. [s \<leftarrow> map2 (inactive_status base by' who now) ks is. ds_deployment_id s = i] =
       [inactive_status base by' who now k i]"
  using assms
proof (induction "is" arbitrary: ks)
  case (Cons j js)
  then obtain k ks' where ks: "ks = k # ks'" by (cases ks) auto
  show ?case
  proof (cases "j = i")
    case True
    with Cons.prems inactive_batch_none [of i js base by' who now ks'] ks show ?thesis
      by (auto simp: inactive_status_def)
  next
    case False
    with Cons ks show ?thesis by (simp add: inactive_status_def)
  qed
qed simp

lemma pending_ids:
  assumes "ds_id status + length (superseded b d) < 2 ^ 64"
  shows "map ds_id (pending_statuses b d auto who now status) =
    [ds_id status..<ds_id status + length (pending_statuses b d auto who now status)]"
proof -
  let ?n = "length (superseded b d)"
  have "map ds_id (map2 (inactive_status (ds_id status) i who now) [1..<1 + ?n] (superseded b d)) =
      [ds_id status + 1..<ds_id status + 1 + ?n]" for i
    using assms by (intro nth_equalityI) (auto simp: inactive_status_def)
  then show ?thesis by (simp add: pending_statuses_def upt_conv_Cons)
qed

lemma append_statuses_Inr:
  "append_statuses ev ss b = (Inr u, b') \<Longrightarrow>
     db_deployments b' = db_deployments b \<and> db_statuses b' = fold push_status ss (db_statuses b) \<and>
     db_rows b' = map_option (\<lambda>rows. rows\<lparr>dr_statuses := dr_statuses rows @ ss\<rparr>) (db_rows b)"
  by (auto simp: append_statuses_def Let_def split: option.splits)

lemma create_status_Inr:
  assumes "create_deployment_status ev s owner repo i creator request b = (Inr status, b')"
  obtains d where "find_repository_id s owner repo = Inr (dp_repository_id d)"
    and "map_of (db_deployments b) i = Some d"
    and "ds_id status = next_deployment_status_id b" and "ds_deployment_id status = i"
    and "ds_state status = cds_state request"
    and "db_deployments b' = db_deployments b"
    and "db_statuses b' = fold push_status
      (pending_statuses b d (cds_auto_inactive request) creator (env_clk ev 0) status) (db_statuses b)"
    and "db_rows b' = map_option (\<lambda>rows. rows\<lparr>dr_statuses := dr_statuses rows @
      pending_statuses b d (cds_auto_inactive request) creator (env_clk ev 0) status\<rparr>) (db_rows b)"
proof -
  from assms obtain repository_id d where found: "find_repository_id s owner repo = Inr repository_id"
      "find_deployment b repository_id i = Inr d"
    and appended: "append_statuses ev
        (pending_statuses b d (cds_auto_inactive request) creator (env_clk ev 0) status) b = (Inr (), b')"
    and "ds_id status = next_deployment_status_id b" "ds_deployment_id status = i"
      "ds_state status = cds_state request"
    by (auto simp: create_deployment_status_def Let_def ok_paths)
  with append_statuses_Inr [OF appended] that [of d] show thesis
    by (auto simp: find_deployment_def split: option.splits if_splits)
qed

lemma in_book:
  assumes "book_ok b"
  shows "e \<in> set (map snd (db_deployments b)) \<longleftrightarrow> map_of (db_deployments b) (dp_id e) = Some e"
proof
  assume "e \<in> set (map snd (db_deployments b))"
  then obtain i where i: "(i, e) \<in> set (db_deployments b)" by auto
  moreover have "dp_id e = i" using i assms by (auto simp: book_ok_def)
  moreover have "distinct (map fst (db_deployments b))"
    using assms strict_sorted_iff [of "map fst (db_deployments b)"] by (simp add: book_ok_def)
  ultimately show "map_of (db_deployments b) (dp_id e) = Some e" by (metis map_of_is_SomeI)
qed (force dest: map_of_SomeD)

lemma book_id: "book_ok b \<Longrightarrow> map_of (db_deployments b) j = Some e \<Longrightarrow> dp_id e = j"
  by (auto simp: book_ok_def dest: map_of_SomeD)

lemma superseded_iff:
  assumes "book_ok b" and "map_of (db_deployments b) j = Some e"
  shows "j \<in> set (superseded b d) \<longleftrightarrow> j \<noteq> dp_id d \<and> dp_repository_id e = dp_repository_id d \<and>
      dp_environment e = dp_environment d \<and> \<not> dp_transient_environment e \<and>
      map_option ds_state (latest_status b j) = Some DepSuccess"
proof -
  have "j \<in> set (superseded b d) \<longleftrightarrow> (\<exists>e \<in> set (map snd (db_deployments b)). dp_id e = j \<and> j \<noteq> dp_id d \<and>
      dp_repository_id e = dp_repository_id d \<and> dp_environment e = dp_environment d \<and>
      \<not> dp_transient_environment e \<and> map_option ds_state (latest_status b j) = Some DepSuccess)"
    unfolding superseded_def by (auto simp: image_iff)
  moreover have "(\<exists>e' \<in> set (map snd (db_deployments b)). dp_id e' = j \<and> P e') \<longleftrightarrow> P e" for P
    using in_book [OF assms(1)] book_id [OF assms] assms(2) by (metis option.inject)
  ultimately show ?thesis by simp
qed

section \<open>Properties\<close>

lemma max_by_key_unique:
  assumes "x \<in> set xs" and "\<forall>y \<in> set xs. y = x \<or> f y < f x"
  shows "max_by_key f xs = Some x"
proof -
  obtain m where m: "max_by_key f xs = Some m"
    using assms(1) max_by_key_None [of f xs] by (cases "max_by_key f xs") auto
  from max_by_key_in [OF m] max_by_key_max [OF m assms(1)] assms(2) m show ?thesis by fastforce
qed

lemma latest_status_of:
  "latest_status b i = Some s \<Longrightarrow> s \<in> set (statuses_of b i)"
  by (auto simp: latest_status_def split: if_splits)

lemma success_supersedes_parts:
  assumes ok: "book_ok b" and room: "deploy_room b"
    and ran: "create_deployment_status ev s owner repo i creator request b = (Inr status, b')"
    and request: "cds_state request = DepSuccess" "cds_auto_inactive request"
    and d: "map_of (db_deployments b) i = Some d"
  shows "map_of (db_deployments b') j = Some e \<Longrightarrow> dp_repository_id e = dp_repository_id d \<Longrightarrow>
      dp_environment e = dp_environment d \<Longrightarrow> \<not> dp_transient_environment e \<Longrightarrow>
      map_option ds_state (latest_status b' j) = Some DepSuccess \<Longrightarrow> j = i"
    and "es_current (summarize_environment b' (dp_repository_id d) (dp_environment d)) = Some (with_status b' d)"
    and "map_of (db_deployments b') j = Some e \<Longrightarrow>
      dp_repository_id e \<noteq> dp_repository_id d \<or> dp_environment e \<noteq> dp_environment d \<Longrightarrow>
      statuses_of b' j = statuses_of b j"
proof -
  define batch where "batch = pending_statuses b d (cds_auto_inactive request) creator (env_clk ev 0) status"
  obtain status': "ds_id status = next_deployment_status_id b" "ds_deployment_id status = i"
      "ds_state status = DepSuccess"
    and deployments: "db_deployments b' = db_deployments b"
    and statuses: "db_statuses b' = fold push_status batch (db_statuses b)"
    using ran d request by (auto elim!: create_status_Inr simp: batch_def)
  have bt: "bt_ok (db_statuses b)" and trail: "statuses_ok (db_statuses b)"
    using ok by (simp_all add: book_ok_def statuses_ok_def)
  define inactive where "inactive = map2 (inactive_status (ds_id status) i creator (env_clk ev 0))
      [1..<1 + length (superseded b d)] (superseded b d)"
  have batch: "batch = status # inactive"
    using request status' by (simp add: batch_def pending_statuses_def inactive_def)
  have after: "statuses_of b' j = statuses_of b j @ [s \<leftarrow> batch. ds_deployment_id s = j]" for j
    by (simp add: statuses_of_def statuses push_statuses_get [OF bt])
  have none: "[s \<leftarrow> inactive. ds_deployment_id s = j] = []" if "j \<notin> set (superseded b d)" for j
    unfolding inactive_def using that by (rule inactive_batch_none)
  have one: "\<exists>k. [s \<leftarrow> inactive. ds_deployment_id s = j] = [inactive_status (ds_id status) i creator (env_clk ev 0) k j]"
    if "j \<in> set (superseded b d)" for j
    unfolding inactive_def using superseded_props(1) [OF ok] that by (rule inactive_batch_one) simp
  note mem = superseded_iff [OF ok]
  have di: "dp_id d = i" using book_id [OF ok d] .
  have self: "statuses_of b' i = statuses_of b i @ [status]"
    using after [of i] none [of i] superseded_props(2) [OF ok, of d] by (simp add: batch status' di)
  have other: "statuses_of b' j = statuses_of b j" if "j \<noteq> i" "j \<notin> set (superseded b d)" for j
    using after [of j] none that by (simp add: batch status')
  have gone: "\<exists>t. latest_status b' j = Some t \<and> ds_state t = DepInactive" if "j \<in> set (superseded b d)" for j
  proof -
    have "j \<noteq> i" using that superseded_props(2) [OF ok, of d] di by auto
    with one [OF that] after [of j] show ?thesis
      by (auto simp: batch status' latest_status_def inactive_status_def)
  qed
  show "statuses_of b' j = statuses_of b j"
    if "map_of (db_deployments b') j = Some e"
      and "dp_repository_id e \<noteq> dp_repository_id d \<or> dp_environment e \<noteq> dp_environment d" for j e
  proof -
    have row: "map_of (db_deployments b) j = Some e" using that(1) by (simp add: deployments)
    with that(2) d have "j \<noteq> i" by auto
    moreover have "j \<notin> set (superseded b d)" using mem [OF row, of d] that(2) by blast
    ultimately show ?thesis by (rule other)
  qed
  have only: "j = i" if "map_of (db_deployments b') j = Some e" "dp_repository_id e = dp_repository_id d"
      "dp_environment e = dp_environment d" "\<not> dp_transient_environment e"
      "map_option ds_state (latest_status b' j) = Some DepSuccess" for j e
  proof (rule ccontr)
    assume j: "j \<noteq> i"
    show False
    proof (cases "j \<in> set (superseded b d)")
      case True
      with gone that(5) show False by fastforce
    next
      case False
      with other [OF j] have "latest_status b' j = latest_status b j" by (simp add: latest_status_def)
      with that(5) have "map_option ds_state (latest_status b j) = Some DepSuccess" by simp
      with mem [of j e d] that j di False show False by (simp add: deployments)
    qed
  qed
  then show "j = i" if "map_of (db_deployments b') j = Some e" "dp_repository_id e = dp_repository_id d"
      "dp_environment e = dp_environment d" "\<not> dp_transient_environment e"
      "map_option ds_state (latest_status b' j) = Some DepSuccess" for j e
    using that by blast
  let ?ds = "[w \<leftarrow> newest_first b' (dp_repository_id d) (dp_environment d).
      case dw_status w of None \<Rightarrow> False | Some s \<Rightarrow> ds_state s = DepSuccess]"
  have latest: "latest_status b' i = Some status" by (simp add: latest_status_def self)
  have "with_status b' d \<in> set ?ds"
  proof -
    have "d \<in> set (map snd (db_deployments b'))" using d di in_book [OF ok, of d] deployments by simp
    then have "with_status b' d \<in> set (newest_first b' (dp_repository_id d) (dp_environment d))"
      unfolding newest_first_def set_map by (intro imageI) simp
    with latest show ?thesis by (simp add: with_status_def di status')
  qed
  moreover have "w = with_status b' d \<or> map_option ds_id (dw_status w) < map_option ds_id (dw_status (with_status b' d))"
    if "w \<in> set ?ds" for w
  proof -
    from that obtain e where e: "e \<in> set (map snd (db_deployments b))" "w = with_status b' e"
      and success: "map_option ds_state (latest_status b' (dp_id e)) = Some DepSuccess"
      by (auto simp: newest_first_def deployments with_status_def image_iff split: option.splits)
        (metis snd_conv)
    then obtain t where t: "latest_status b' (dp_id e) = Some t" "ds_state t = DepSuccess" by auto
    have row: "map_of (db_deployments b) (dp_id e) = Some e" using e(1) in_book [OF ok] by blast
    show ?thesis
    proof (cases "dp_id e = i")
      case True
      with row d e show ?thesis by simp
    next
      case False
      have "dp_id e \<notin> set (superseded b d)" using gone [of "dp_id e"] t by fastforce
      with t other [OF False] have "t \<in> set (statuses_of b (dp_id e))"
        using latest_status_of [of b' "dp_id e"] by simp
      with next_status_id(1) [OF trail room] have "ds_id t < ds_id status"
        by (auto simp: statuses_of_def below_def status')
      with e t latest show ?thesis by (simp add: with_status_def di)
    qed
  qed
  ultimately have "max_by_key (\<lambda>w. map_option ds_id (dw_status w)) ?ds = Some (with_status b' d)"
    by (intro max_by_key_unique) blast+
  then show "es_current (summarize_environment b' (dp_repository_id d) (dp_environment d)) = Some (with_status b' d)"
    by (simp add: summarize_environment_def current_of_def Let_def)
qed

text \<open>
  A success reported with \<^verbatim>\<open>auto_inactive\<close> is what the environment runs: afterwards no other
  permanent deployment of that repository and environment has a success as its newest status, the
  environment's summary names the reported deployment as current, and the trails of deployments of
  other environments and repositories are unchanged.
\<close>

theorem success_supersedes:
  assumes "book_ok b" and "deploy_room b"
    and "create_deployment_status ev s owner repo i creator request b = (Inr status, b')"
    and "cds_state request = DepSuccess" and "cds_auto_inactive request"
    and "map_of (db_deployments b) i = Some d"
  shows "(\<forall>j e. map_of (db_deployments b') j = Some e \<longrightarrow> dp_repository_id e = dp_repository_id d \<longrightarrow>
      dp_environment e = dp_environment d \<longrightarrow> \<not> dp_transient_environment e \<longrightarrow>
      map_option ds_state (latest_status b' j) = Some DepSuccess \<longrightarrow> j = i) \<and>
    es_current (summarize_environment b' (dp_repository_id d) (dp_environment d)) = Some (with_status b' d) \<and>
    (\<forall>j e. map_of (db_deployments b') j = Some e \<longrightarrow>
      dp_repository_id e \<noteq> dp_repository_id d \<or> dp_environment e \<noteq> dp_environment d \<longrightarrow>
      statuses_of b' j = statuses_of b j)"
  using success_supersedes_parts [OF assms] by blast

definition ex_deployment :: "u64 \<Rightarrow> deployment" where
  "ex_deployment i = \<lparr>dp_id = i, dp_repository_id = 7, dp_owner = ''acme'', dp_repo = ''core'',
     dp_sha = ''h1'', dp_ref_name = ''main'', dp_task = ''deploy'', dp_environment = ''production'',
     dp_description = None, dp_payload = JObj [], dp_production_environment = True,
     dp_transient_environment = False, dp_creator = ''ci'', dp_created_at = 0\<rparr>"

definition ex_success :: "u64 \<Rightarrow> u64 \<Rightarrow> deployment_status" where
  "ex_success k i = \<lparr>ds_id = k, ds_deployment_id = i, ds_state = DepSuccess, ds_description = None,
     ds_environment_url = None, ds_log_url = None, ds_creator = ''ci'', ds_created_at = 0\<rparr>"

definition ex_book :: deploy_book where
  "ex_book = \<lparr>db_deployments = [(1, ex_deployment 1), (2, ex_deployment 2)],
              db_statuses = [(1, [ex_success 1 1])], db_rows = None\<rparr>"

definition ex_success_request :: create_deployment_status_request where
  "ex_success_request = \<lparr>cds_state = DepSuccess, cds_description = None, cds_environment_url = None,
     cds_log_url = None, cds_auto_inactive = True\<rparr>"

lemma ex_book_ok: "book_ok ex_book"
  by (auto simp: book_ok_def ex_book_def ex_deployment_def statuses_ok_def bt_ok_def hm_list_def
      ex_success_def split: if_splits)

lemma ex_book_room: "deploy_room ex_book"
  by (simp add: deploy_room_def ex_book_def next_deployment_id_def u64_succ_def all_statuses_def
      ex_success_def)

theorem success_supersedes_witness:
  "\<exists>b'. snd (create_deployment_status ex_env ex_state ''acme'' ''core'' 2 ''ci'' ex_success_request ex_book) = b' \<and>
     es_current (summarize_environment b' 7 ''production'') = Some (with_status b' (ex_deployment 2)) \<and>
     map_option ds_state (latest_status b' 1) \<noteq> Some DepSuccess"
proof -
  have row: "map_of (db_deployments ex_book) 2 = Some (ex_deployment 2)"
    "map_of (db_deployments ex_book) 1 = Some (ex_deployment 1)" by (simp_all add: ex_book_def)
  have found: "find_repository_id ex_state ''acme'' ''core'' = Inr 7"
    by (simp add: find_repository_id_def ex_repository_def)
  have keys: "dp_repository_id (ex_deployment i) = 7" "dp_environment (ex_deployment i) = ''production''"
    "\<not> dp_transient_environment (ex_deployment i)" for i by (simp_all add: ex_deployment_def)
  have request: "cds_state ex_success_request = DepSuccess" "cds_auto_inactive ex_success_request"
    by (simp_all add: ex_success_request_def)
  obtain status b' where ran:
    "create_deployment_status ex_env ex_state ''acme'' ''core'' 2 ''ci'' ex_success_request ex_book = (Inr status, b')"
    by (simp add: create_deployment_status_def found find_deployment_def row keys append_statuses_def Let_def)
      (simp add: ex_book_def)
  have kept: "map_of (db_deployments b') 1 = Some (ex_deployment 1)"
    using ran row by (auto elim!: create_status_Inr)
  show ?thesis
    using success_supersedes [OF ex_book_ok ex_book_room ran request row(1)] kept
    by (fastforce simp: ran keys)
qed

section \<open>Every book\<close>

lemma create_deployment_ok:
  assumes "book_ok b" and "deploy_room b"
  shows "book_ok (snd (create_deployment ev s owner repo creator request b))"
proof (cases "fst (create_deployment ev s owner repo creator request b)")
  case (Inl e)
  have "snd (create_deployment ev s owner repo creator request b) = b" using Inl
    by (auto simp: create_deployment_def try_pure_def append_deployment_def Let_def
        split: sum.splits option.splits)
  with assms show ?thesis by simp
next
  case (Inr d)
  then obtain b' where ran: "create_deployment ev s owner repo creator request b = (Inr d, b')"
    by (metis prod.collapse)
  then obtain b1 where id: "dp_id d = next_deployment_id b"
    and b1: "append_deployment ev d b = (Inr (), b1)"
    and b': "b' = b1\<lparr>db_deployments := bt_put (dp_id d) d (db_deployments b1)\<rparr>"
    by (auto simp: create_deployment_def Let_def ok_paths)
  from b1 have same: "db_deployments b1 = db_deployments b" "db_statuses b1 = db_statuses b"
    and rows: "db_rows b1 = map_option (\<lambda>rows. rows\<lparr>dr_deployments := dr_deployments rows @ [d]\<rparr>) (db_rows b)"
    by (auto simp: append_deployment_def split: option.splits)
  have last: "bt_put (dp_id d) d (db_deployments b) = db_deployments b @ [(dp_id d, d)]"
    using next_deployment_above [OF assms] by (intro bt_put_last) (simp add: id)
  have above: "\<forall>(i, e) \<in> set (db_deployments b). i < dp_id d"
    using next_deployment_above [OF assms] by (simp add: id)
  have "rows_agree b' (rows\<lparr>dr_deployments := dr_deployments rows @ [d]\<rparr>)" if "db_rows b = Some rows" for rows
  proof -
    have old: "rows_agree b rows" using assms(1) that by (simp add: book_ok_def)
    then have "map fst (map (\<lambda>d. (dp_id d, slugless d)) (dr_deployments rows)) =
        map fst (hm_map slugless (db_deployments b))" by (simp add: rows_agree_def)
    then have "map dp_id (dr_deployments rows) = map fst (db_deployments b)"
      by (simp add: hm_map_def case_prod_beta comp_def)
    moreover have "\<forall>i \<in> set (map fst (db_deployments b)). i < dp_id d" using above by auto
    ultimately have "\<forall>e \<in> set (dr_deployments rows). dp_id e < dp_id d"
      by (metis imageI set_map)
    with old show ?thesis by (auto simp: rows_agree_def b' same last hm_map_def sorted_wrt_append)
  qed
  moreover have "sorted_wrt (<) (map fst (db_deployments b'))"
    using assms(1) above by (auto simp: b' same last sorted_wrt_append book_ok_def)
  ultimately have "book_ok b'" using assms(1) by (auto simp: book_ok_def b' same last rows)
  with ran show ?thesis by simp
qed

lemma create_deployment_status_ok:
  assumes "book_ok b" and "deploy_room b"
  shows "book_ok (snd (create_deployment_status ev s owner repo i creator request b))"
proof (cases "fst (create_deployment_status ev s owner repo i creator request b)")
  case (Inl e)
  have "snd (create_deployment_status ev s owner repo i creator request b) = b" using Inl
    by (auto simp: create_deployment_status_def try_pure_def append_statuses_def Let_def
        split: sum.splits option.splits)
  with assms show ?thesis by simp
next
  case (Inr status)
  then obtain b' where ran: "create_deployment_status ev s owner repo i creator request b = (Inr status, b')"
    by (metis prod.collapse)
  then obtain d where id: "ds_id status = next_deployment_status_id b"
    and same: "db_deployments b' = db_deployments b"
    and stored: "db_statuses b' = fold push_status
      (pending_statuses b d (cds_auto_inactive request) creator (env_clk ev 0) status) (db_statuses b)"
    and rows: "db_rows b' = map_option (\<lambda>rows. rows\<lparr>dr_statuses := dr_statuses rows @
      pending_statuses b d (cds_auto_inactive request) creator (env_clk ev 0) status\<rparr>) (db_rows b)"
    by (rule create_status_Inr)
  let ?ss = "pending_statuses b d (cds_auto_inactive request) creator (env_clk ev 0) status"
  have trail: "statuses_ok (db_statuses b)" using assms(1) by (simp add: book_ok_def)
  note room = next_status_id [OF trail assms(2)]
  have ids: "map ds_id ?ss = [ds_id status..<ds_id status + length ?ss]"
    using room(2) superseded_props(3) [OF assms(1), of d] by (intro pending_ids) (simp add: id)
  then have sorted: "sorted_wrt (<) (map ds_id ?ss)" by (simp only: sorted_wrt_upt)
  have low: "ds_id status \<le> ds_id t" if "t \<in> set ?ss" for t
  proof -
    have "ds_id t \<in> set (map ds_id ?ss)" using that by simp
    then show ?thesis unfolding ids by simp
  qed
  have new: "below (db_statuses b) (ds_id t)" if "t \<in> set ?ss" for t
    using room(1) low [OF that] unfolding below_def id by (meson less_le_trans)
  have "rows_agree b' (rows\<lparr>dr_statuses := dr_statuses rows @ ?ss\<rparr>)" if "db_rows b = Some rows" for rows
  proof -
    have old: "rows_agree b rows" using assms(1) that by (simp add: book_ok_def)
    have "ds_id u < ds_id t" if "u \<in> set (dr_statuses rows)" "t \<in> set ?ss" for u t
    proof -
      have "u \<in> set (hm_list (db_statuses b) (ds_deployment_id u))"
        using old that(1) push_statuses_get [of "[]" "dr_statuses rows"]
        by (simp add: rows_agree_def bt_ok_def hm_list_def)
      with new [OF that(2)] show ?thesis by (auto simp: below_def)
    qed
    with old sorted show ?thesis by (auto simp: rows_agree_def same stored sorted_wrt_append)
  qed
  then have "book_ok b'"
    using assms(1) push_statuses_ok [OF trail sorted] new by (auto simp: book_ok_def same stored rows)
  with ran show ?thesis by simp
qed

lemma refresh_slug_sel [simp]: "dp_id (refresh_slug s d) = dp_id d" "slugless (refresh_slug s d) = slugless d"
  "dp_repository_id (refresh_slug s d) = dp_repository_id d"
  by (simp_all add: refresh_slug_def slugless_def split: option.split)

lemma refresh_slugs_ok:
  assumes "book_ok b"
  shows "book_ok (refresh_deployment_slugs s b)"
proof -
  have "map fst (hm_map (refresh_slug s) m) = map fst m" for m :: "(u64 \<times> deployment) list"
    by (simp add: hm_map_def case_prod_beta comp_def)
  moreover have "hm_map slugless (hm_map (refresh_slug s) m) = hm_map slugless m" for m :: "(u64 \<times> deployment) list"
    by (simp add: hm_map_def case_prod_beta comp_def)
  ultimately show ?thesis
    using assms by (auto simp: book_ok_def refresh_deployment_slugs_def rows_agree_def)
      (auto simp: hm_map_def)
qed

text \<open>Loading the durable rows gives the maps the rows agree with.\<close>

lemma load_agrees:
  assumes "rows_agree b rows"
  shows "db_deployments (load_deployments rows) = map (\<lambda>d. (dp_id d, d)) (dr_deployments rows)"
    and "db_statuses (load_deployments rows) = db_statuses b"
    and "hm_map slugless (db_deployments (load_deployments rows)) = hm_map slugless (db_deployments b)"
  using assms
  by (simp_all add: load_deployments_def rows_agree_def load_deployment_rows_ordered load_status_rows_def
      sorted_load) (simp add: hm_map_def comp_def)

lemma load_ok:
  assumes "book_ok b" and "db_rows b = Some rows"
  shows "book_ok (load_deployments rows)"
proof -
  have agree: "rows_agree b rows" using assms by (simp add: book_ok_def)
  note loaded = load_agrees [OF agree]
  have "db_rows (load_deployments rows) = Some rows" by (simp add: load_deployments_def)
  moreover have "rows_agree (load_deployments rows) rows"
    using agree loaded(2,3) by (simp add: rows_agree_def)
  ultimately show ?thesis
    using assms(1) agree loaded by (auto simp: book_ok_def rows_agree_def comp_def)
qed

inductive deploy_reachable :: "deploy_book \<Rightarrow> bool" where
  in_memory: "deploy_reachable (new_book None)"
| new_database: "deploy_reachable (new_book (Some \<lparr>dr_deployments = [], dr_statuses = []\<rparr>))"
| created: "deploy_reachable b \<Longrightarrow> deploy_room b \<Longrightarrow>
    deploy_reachable (snd (create_deployment ev s owner repo creator request b))"
| reported: "deploy_reachable b \<Longrightarrow> deploy_room b \<Longrightarrow>
    deploy_reachable (snd (create_deployment_status ev s owner repo i creator report b))"
| renamed: "deploy_reachable b \<Longrightarrow> deploy_reachable (refresh_deployment_slugs s b)"
| reopened: "deploy_reachable b \<Longrightarrow> db_rows b = Some rows \<Longrightarrow>
    deploy_reachable (refresh_deployment_slugs s (load_deployments rows))"

lemma new_book_ok:
  assumes "rows = None \<or> rows = Some \<lparr>dr_deployments = [], dr_statuses = []\<rparr>"
  shows "book_ok (new_book rows)"
  using assms
  by (auto simp: new_book_def book_ok_def statuses_ok_def bt_ok_def hm_list_def rows_agree_def hm_map_def)

lemma reachable_book_ok: "deploy_reachable b \<Longrightarrow> book_ok b"
proof (induction rule: deploy_reachable.induct)
  case (reopened b rows s)
  then show ?case by (intro refresh_slugs_ok) (rule load_ok)
qed (simp_all only: new_book_ok create_deployment_ok create_deployment_status_ok refresh_slugs_ok simp_thms)

text \<open>The refreshed slug is a function of the rest of the row when the repository exists.\<close>

lemma refresh_slug_found:
  assumes "slugless d = slugless e" and "r \<in> set (hm_values (st_repos s))" and "rp_id r = dp_repository_id e"
  shows "refresh_slug s d = refresh_slug s e"
proof -
  have parts: "dp_id d = dp_id e" "dp_repository_id d = dp_repository_id e" "dp_sha d = dp_sha e"
    "dp_ref_name d = dp_ref_name e" "dp_task d = dp_task e" "dp_environment d = dp_environment e"
    "dp_description d = dp_description e" "dp_payload d = dp_payload e"
    "dp_production_environment d = dp_production_environment e"
    "dp_transient_environment d = dp_transient_environment e" "dp_creator d = dp_creator e"
    "dp_created_at d = dp_created_at e"
    using assms(1) by (cases d; cases e; simp add: slugless_def)+
  have "map_of (rev (map (\<lambda>r. (rp_id r, (rp_owner r, rp_name r))) (hm_values (st_repos s)))) (dp_repository_id e) \<noteq> None"
    using assms(2,3) unfolding map_of_eq_None_iff by (auto simp: image_iff) (metis fst_conv)
  with parts show ?thesis by (cases d; cases e) (auto simp: refresh_slug_def split: option.splits)
qed

lemma hm_map_same:
  "hm_map f m = hm_map f n \<Longrightarrow> (\<And>v w. w \<in> snd ` set n \<Longrightarrow> f v = f w \<Longrightarrow> g v = g w) \<Longrightarrow> hm_map g m = hm_map g n"
proof (induction m arbitrary: n)
  case Nil
  then show ?case by (simp add: hm_map_def)
next
  case (Cons p m)
  then obtain q n' where n: "n = q # n'" by (cases n) (auto simp: hm_map_def)
  have "hm_map f m = hm_map f n'" using Cons.prems(1) by (simp add: n hm_map_def)
  then have "hm_map g m = hm_map g n'" using Cons.IH [of n'] Cons.prems(2) by (simp add: n)
  moreover have "fst p = fst q" "g (snd p) = g (snd q)"
    using Cons.prems by (auto simp: n hm_map_def case_prod_beta)
  ultimately show ?case by (simp add: n hm_map_def case_prod_beta)
qed

lemma deploy_history_reloads_parts:
  assumes book: "deploy_reachable b" and rows: "db_rows b = Some rows"
  shows "db_statuses (load_deployments rows) = db_statuses b"
    and "hm_map slugless (db_deployments (load_deployments rows)) = hm_map slugless (db_deployments b)"
    and "refresh_deployment_slugs s b = b \<Longrightarrow>
      (\<forall>(i, d) \<in> set (db_deployments b). \<exists>r \<in> set (hm_values (st_repos s)). rp_id r = dp_repository_id d) \<Longrightarrow>
      refresh_deployment_slugs s (load_deployments rows) = b"
proof -
  have agree: "rows_agree b rows" using reachable_book_ok [OF book] rows by (simp add: book_ok_def)
  note loaded = load_agrees [OF agree]
  show "db_statuses (load_deployments rows) = db_statuses b"
    and "hm_map slugless (db_deployments (load_deployments rows)) = hm_map slugless (db_deployments b)"
    by (rule loaded)+
  assume current: "refresh_deployment_slugs s b = b"
    and found: "\<forall>(i, d) \<in> set (db_deployments b). \<exists>r \<in> set (hm_values (st_repos s)). rp_id r = dp_repository_id d"
  have "hm_map (refresh_slug s) (db_deployments (load_deployments rows)) =
      hm_map (refresh_slug s) (db_deployments b)"
  proof (rule hm_map_same [OF loaded(3)])
    fix v w
    assume "w \<in> snd ` set (db_deployments b)" and same: "slugless v = slugless w"
    then obtain i where "(i, w) \<in> set (db_deployments b)" by auto
    with found obtain r where "r \<in> set (hm_values (st_repos s))" "rp_id r = dp_repository_id w" by blast
    with same show "refresh_slug s v = refresh_slug s w" by (rule refresh_slug_found)
  qed
  also have "\<dots> = db_deployments b"
    using arg_cong [OF current, of db_deployments] by (simp add: refresh_deployment_slugs_def)
  finally show "refresh_deployment_slugs s (load_deployments rows) = b"
    using loaded(2) rows by (cases b) (simp add: refresh_deployment_slugs_def load_deployments_def)
qed

text \<open>
  The deploy history survives a restart: in every book the operations, renames and restarts can
  lead to, loading the durable rows gives back every status of every deployment in the same order,
  and every deployment, whose slug is then the one its repository has now.
\<close>

theorem deploy_history_reloads:
  assumes "deploy_reachable b" and "db_rows b = Some rows"
  shows "db_statuses (load_deployments rows) = db_statuses b \<and>
    hm_map slugless (db_deployments (load_deployments rows)) = hm_map slugless (db_deployments b) \<and>
    (\<forall>s. refresh_deployment_slugs s b = b \<longrightarrow>
      (\<forall>(i, d) \<in> set (db_deployments b). \<exists>r \<in> set (hm_values (st_repos s)). rp_id r = dp_repository_id d) \<longrightarrow>
      refresh_deployment_slugs s (load_deployments rows) = b)"
  using deploy_history_reloads_parts [OF assms] by blast

definition ex_deploy_request :: create_deployment_request where
  "ex_deploy_request = \<lparr>cdr_sha = replicate 40 (CHR ''a''), cdr_ref_name = None, cdr_task = ''deploy'',
     cdr_environment = ''production'', cdr_description = None, cdr_payload = None,
     cdr_production_environment = None, cdr_transient_environment = False\<rparr>"

theorem deploy_history_reloads_witness:
  "\<exists>b rows. b = snd (create_deployment ex_env ex_state ''acme'' ''core'' ''ci'' ex_deploy_request
        (new_book (Some \<lparr>dr_deployments = [], dr_statuses = []\<rparr>))) \<and>
     db_rows b = Some rows \<and> length (dr_deployments rows) = 1 \<and>
     hm_map slugless (db_deployments (load_deployments rows)) = hm_map slugless (db_deployments b)"
proof -
  let ?n = "new_book (Some \<lparr>dr_deployments = [], dr_statuses = []\<rparr>)"
  let ?b = "snd (create_deployment ex_env ex_state ''acme'' ''core'' ''ci'' ex_deploy_request ?n)"
  have room: "deploy_room ?n"
    by (simp add: deploy_room_def new_book_def next_deployment_id_def all_statuses_def)
  have named: "str_trim ''production'' \<noteq> []" "str_trim ''deploy'' \<noteq> []" by code_simp+
  have sha: "require_sha (cdr_sha ex_deploy_request) = Inr ()"
    by (simp add: require_sha_def ex_deploy_request_def is_lower_hexdigit_def is_ascii_digit_def byte_def list_all_iff)
  have "\<exists>rows. db_rows ?b = Some rows \<and> length (dr_deployments rows) = 1"
    using sha by (simp add: create_deployment_def require_name_def named find_repository_id_def
        append_deployment_def Let_def) (simp add: ex_deploy_request_def require_name_def named new_book_def)
  then obtain rows where rows: "db_rows ?b = Some rows" "length (dr_deployments rows) = 1" by blast
  have "deploy_reachable ?b" by (intro deploy_reachable.created deploy_reachable.new_database room)
  from deploy_history_reloads [OF this rows(1)] rows show ?thesis by (intro exI [of _ ?b] exI [of _ rows]) simp
qed

end
