(* ===== verification/Renames.thy ===== *)
theory Renames
  imports Repositories Accounts Deployments
begin

text \<open>
  Renames and transfers of repositories (\<^verbatim>\<open>engine/repository_rename.rs\<close>, \<^verbatim>\<open>repository_transfer.rs\<close>,
  \<^verbatim>\<open>repository_transfer_state.rs\<close>): every map keyed by the old slug is re-keyed, the old slug stays as
  an alias, and the git directory moves through the \<^verbatim>\<open>RepoRelocator\<close>.
\<close>

section \<open>Re-keying\<close>

definition rekey_pairs :: "('v \<Rightarrow> 'v) \<Rightarrow> slug \<Rightarrow> slug \<Rightarrow> (slug, 'v) hmap \<Rightarrow> (slug, 'v) hmap" where
  "rekey_pairs update old new m =
     (case hm_get m old of
        None \<Rightarrow> m
      | Some value \<Rightarrow> hm_put new (update value) (hm_del old m))"

definition move_entry :: "('v \<Rightarrow> 'v) \<Rightarrow> ('k \<Rightarrow> 'k) \<Rightarrow> 'k \<Rightarrow> ('k, 'v) hmap \<Rightarrow> ('k, 'v) hmap" where
  "move_entry update target key m =
     (case hm_get m key of
        None \<Rightarrow> m
      | Some value \<Rightarrow> hm_put (target key) (update value) (hm_del key m))"

definition rekey_triples ::
  "('v \<Rightarrow> 'v) \<Rightarrow> slug \<Rightarrow> slug \<Rightarrow> (string \<times> string \<times> 'k, 'v) hmap \<Rightarrow> (string \<times> string \<times> 'k, 'v) hmap" where
  "rekey_triples update old new m =
     fold (move_entry update (\<lambda>(_, _, k). (fst new, snd new, k)))
       [(owner, repo, k) \<leftarrow> map fst m. owner = fst old \<and> repo = snd old] m"

definition rekey_grants ::
  "slug \<Rightarrow> slug \<Rightarrow> (string \<times> string \<times> string, repo_access_grant) hmap \<Rightarrow>
   (string \<times> string \<times> string, repo_access_grant) hmap" where
  "rekey_grants old new m =
     fold (move_entry (\<lambda>grant. grant\<lparr>ga_owner := fst new, ga_repo := snd new\<rparr>)
             (\<lambda>(login, _, _). (login, fst new, snd new)))
       [(login, owner, repo) \<leftarrow> map fst m. owner = fst old \<and> repo = snd old] m"

definition move_pull :: "slug \<Rightarrow> slug \<Rightarrow> pull_request \<Rightarrow> pull_request" where
  "move_pull old new pull =
     (let moved = pull\<lparr>pr_owner := fst new, pr_repo := snd new\<rparr>
      in if pr_source_repository moved = slug_name (fst old) (snd old)
         then moved\<lparr>pr_source_repository := slug_name (fst new) (snd new)\<rparr> else moved)"

text \<open>The maps scoped to a repository; \<open>repository\<close> is its row, already under the new name.\<close>

definition rekey_maps :: "slug \<Rightarrow> slug \<Rightarrow> repository \<Rightarrow> state \<Rightarrow> state" where
  "rekey_maps old new repository s =
     (let (owner, repo) = new in
      s\<lparr>st_repos := hm_put new repository (hm_del old (st_repos s)),
        st_labels := rekey_triples id old new (st_labels s),
        st_issues := rekey_triples (\<lambda>i. i\<lparr>is_owner := owner, is_repo := repo\<rparr>) old new (st_issues s),
        st_issue_comments :=
          rekey_triples (map (\<lambda>x. x\<lparr>ic_owner := owner, ic_repo := repo\<rparr>)) old new (st_issue_comments s),
        st_pulls := rekey_triples (move_pull old new) old new (st_pulls s),
        st_reviews :=
          rekey_triples (map (\<lambda>x. x\<lparr>rv_owner := owner, rv_repo := repo\<rparr>)) old new (st_reviews s),
        st_review_comments :=
          rekey_triples (map (\<lambda>x. x\<lparr>rc_owner := owner, rc_repo := repo\<rparr>)) old new (st_review_comments s),
        st_branch_protections :=
          rekey_triples (\<lambda>x. x\<lparr>bp_owner := owner, bp_repo := repo\<rparr>) old new (st_branch_protections s),
        st_codeowners := rekey_pairs id old new (st_codeowners s),
        st_readmes := rekey_pairs id old new (st_readmes s),
        st_statuses :=
          rekey_triples (map (\<lambda>x. x\<lparr>cs_owner := owner, cs_repo := repo\<rparr>)) old new (st_statuses s),
        st_check_runs :=
          rekey_pairs (map (\<lambda>x. x\<lparr>ck_owner := owner, ck_repo := repo\<rparr>)) old new (st_check_runs s),
        st_webhooks :=
          rekey_pairs (map (\<lambda>x. x\<lparr>wh_owner := owner, wh_repo := repo\<rparr>)) old new (st_webhooks s),
        st_counters := rekey_pairs id old new (st_counters s),
        st_jankurai_scores :=
          rekey_pairs (map (\<lambda>x. x\<lparr>js_owner := owner, js_repo := repo\<rparr>)) old new (st_jankurai_scores s),
        st_repo_grants := rekey_grants old new (st_repo_grants s),
        st_webhook_deliveries :=
          map (\<lambda>d. if wd_owner d = fst old \<and> wd_repo d = snd old
                   then d\<lparr>wd_owner := owner, wd_repo := repo\<rparr> else d) (st_webhook_deliveries s)\<rparr>)"

text \<open>The callers restore the clone on an error, so the error branch carries no state.\<close>

definition rekey_repository :: "env \<Rightarrow> repository_transfer_journal \<Rightarrow> state \<Rightarrow> forge_error + state" where
  "rekey_repository ev transfer s =
     (let old = (tj_source_owner transfer, tj_source_name transfer);
          new = (tj_destination_owner transfer, tj_destination_name transfer)
      in if hm_has (st_repos s) new \<or> hm_has (st_repository_aliases s) new
         then Inl (Conflict (''destination repository '' @ slug_name (fst new) (snd new)))
         else case hm_get (st_repos s) old of
           None \<Rightarrow> Inl (repository_not_found (fst old) (snd old))
         | Some repository \<Rightarrow>
             if rp_id repository \<noteq> tj_repository_id transfer
             then Inl (Validation (''repository UUID drift for '' @ slug_name (fst old) (snd old)))
             else Inr (rekey_maps old new
                    (repository\<lparr>rp_owner := fst new, rp_name := snd new,
                       rp_full_name := slug_name (fst new) (snd new),
                       rp_updated_at := env_clk ev 1\<rparr>) s))"

definition record_alias ::
  "env \<Rightarrow> repository_transfer_journal \<Rightarrow> repository_alias_origin \<Rightarrow> state \<Rightarrow> state" where
  "record_alias ev journal origin s =
     (let retargeted = hm_map (\<lambda>al. if al_repository_id al = tj_repository_id journal
            then al\<lparr>al_canonical_owner := tj_destination_owner journal,
                    al_canonical_name := tj_destination_name journal\<rparr> else al)
          (st_repository_aliases s);
          kept = \<lparr>al_repository_id = tj_repository_id journal, al_owner = tj_source_owner journal,
                  al_name = tj_source_name journal, al_canonical_owner = tj_destination_owner journal,
                  al_canonical_name = tj_destination_name journal, al_created_at = env_clk ev 2,
                  al_transaction_id = tj_transaction_id journal, al_origin = origin\<rparr>
      in s\<lparr>st_repository_aliases :=
             hm_put (tj_source_owner journal, tj_source_name journal) kept retargeted\<rparr>)"

section \<open>Renaming\<close>

definition MAX_REPOSITORY_NAME_LEN :: nat where "MAX_REPOSITORY_NAME_LEN = 100"

text \<open>A character outside ASCII has no byte below 128, so the test per character is one per byte.\<close>

definition slug_char :: "char \<Rightarrow> bool" where
  "slug_char c = (is_ascii_alphanumeric c \<or> c \<in> {CHR ''-'', CHR ''_'', CHR ''.''})"

definition validate_repository_name :: "string \<Rightarrow> forge_error + unit" where
  "validate_repository_name name =
     try_res (require_name ''repository name'' name) (\<lambda>_.
       if \<not> list_all slug_char name \<or> MAX_REPOSITORY_NAME_LEN < length name \<or>
          starts_with name ''.'' \<or> ends_with name ''.git''
       then Inl (Validation (''repository name '' @ quoted name @
              '' is not a valid slug (letters, digits, '' @ [CHR 0x27] @ ''-'' @ [CHR 0x27] @ '', '' @
              [CHR 0x27] @ ''_'' @ [CHR 0x27] @ '', '' @ [CHR 0x27] @ ''.'' @ [CHR 0x27] @
              ''; at most '' @ show_nat MAX_REPOSITORY_NAME_LEN @
              '' characters; no leading '' @ [CHR 0x27] @ ''.'' @ [CHR 0x27] @ '' or trailing '' @
              [CHR 0x27] @ ''.git'' @ [CHR 0x27] @ '')''))
       else Inr ())"

type_synonym 'g relocator = "string \<Rightarrow> string \<Rightarrow> string \<Rightarrow> string \<Rightarrow> 'g \<Rightarrow> (forge_error + unit) \<times> 'g"

definition rename_journal :: "env \<Rightarrow> slug \<Rightarrow> slug \<Rightarrow> uuid \<Rightarrow> repository_transfer_journal" where
  "rename_journal ev old new repository_id =
     (let from = slug_name (fst old) (snd old); to = slug_name (fst new) (snd new);
          transaction_id = env_fresh ev 0; now = env_clk ev 0
      in \<lparr>tj_transaction_id = transaction_id,
          tj_idempotency_key = ''rename:'' @ show_uuid transaction_id,
          tj_request_fingerprint = ''rename '' @ from @ '' -> '' @ to,
          tj_repository_id = repository_id, tj_source_owner = fst old, tj_source_name = snd old,
          tj_destination_owner = fst new, tj_destination_name = snd new,
          tj_status = TransferCommitted, tj_prepared_at = now, tj_completed_at = Some now,
          tj_failure = None, tj_receipt = Some (JObj [(''from'', JStr from), (''to'', JStr to)])\<rparr>)"

definition renamable :: "state \<Rightarrow> slug \<Rightarrow> slug \<Rightarrow> forge_error + repository" where
  "renamable s old new =
     (let from = slug_name (fst old) (snd old) in
      try_res (ok_or (hm_get (st_repos s) old) (repository_not_found (fst old) (snd old))) (\<lambda>current.
        if rp_archived current
        then Inl (Validation (''repository '' @ from @ '' is archived; unarchive it before renaming''))
        else if fst old = fst new \<and> snd old = snd new
        then Inl (Validation (''repository '' @ from @ '' already has that name''))
        else if fst old \<noteq> fst new \<and> \<not> hm_has (st_users s) (fst new) \<and> \<not> hm_has (st_organizations s) (fst new)
        then Inl (Validation (''new owner '' @ fst new @ '' is not an existing user or organization''))
        else if hm_has (st_repos s) new
        then Inl (Validation (''repository '' @ slug_name (fst new) (snd new) @ '' already exists''))
        else Inr current))"

text \<open>The mutated state; the deployments' slugs are refreshed in their own book.\<close>

definition renamed_state :: "env \<Rightarrow> repository_transfer_journal \<Rightarrow> slug \<Rightarrow> state \<Rightarrow> forge_error + state" where
  "renamed_state ev journal new s =
     try_res (rekey_repository ev journal
                (s\<lparr>st_repository_aliases := hm_del new (st_repository_aliases s)\<rparr>)) (\<lambda>s1.
       let s2 = record_alias ev journal OriginRename s1
       in Inr (s2\<lparr>st_repository_transfers :=
                 hm_put (tj_idempotency_key journal) journal (st_repository_transfers s2)\<rparr>))"

definition relocate ::
  "'g relocator option \<Rightarrow> slug \<Rightarrow> slug \<Rightarrow> 'g \<Rightarrow> (forge_error + unit) \<times> 'g" where
  "relocate relocator old new g =
     (case relocator of
        None \<Rightarrow> (Inr (), g)
      | Some move \<Rightarrow> move (fst old) (snd old) (fst new) (snd new) g)"

definition write_repository_rename ::
  "env \<Rightarrow> 'g relocator option \<Rightarrow> slug \<Rightarrow> slug \<Rightarrow> core \<times> 'g \<Rightarrow> (forge_error + repository) \<times> core \<times> 'g" where
  "write_repository_rename ev relocator old new cg =
     (case cg of (c, g) \<Rightarrow>
     try_pure (require_name ''new owner'' (fst new)) (c, g) (\<lambda>_.
     try_pure (validate_repository_name (snd new)) (c, g) (\<lambda>_.
     try_pure (renamable (live c) old new) (c, g) (\<lambda>current.
     try_pure (renamed_state ev (rename_journal ev old new (rp_id current)) new (live c)) (c, g) (\<lambda>s.
     try_pure (ok_or (hm_get (st_repos s) new) (Panicked ''rekey inserted the target'')) (c, g) (\<lambda>updated.
       case relocate relocator old new g of
         (Inl e, g1) \<Rightarrow> (Inl e, c, g1)
       | (Inr _, g1) \<Rightarrow>
           (case persist_after_mutation ev 0 (live c) (c\<lparr>live := s\<rparr>) of
              (Inl e, c1) \<Rightarrow> (Inl e, c1, snd (relocate relocator new old g1))
            | (Inr _, c1) \<Rightarrow> (Inr updated, c1, g1))))))))"

definition rename_repository ::
  "env \<Rightarrow> 'g relocator option \<Rightarrow> string \<Rightarrow> slug \<Rightarrow> slug \<Rightarrow> core \<times> 'g \<Rightarrow>
   (forge_error + repository) \<times> core \<times> 'g" where
  "rename_repository ev relocator actor old new cg =
     (case cg of (c, g) \<Rightarrow>
     try_pure (canonical_repository (live c) (fst old) (snd old)) (c, g) (\<lambda>_.
       let subject = slug_name (fst old) (snd old);
           detail = JObj [(''from'', JStr subject), (''to'', JStr (slug_name (fst new) (snd new)))]
       in case append_audit_as ev 1 actor ''repository.renamed'' subject ''requested'' detail c of
            (Inl e, c1) \<Rightarrow> (Inl e, c1, g)
          | (Inr _, c1) \<Rightarrow>
              (case write_repository_rename ev relocator old new (c1, g) of
                 (result, c2, g2) \<Rightarrow>
                   (case append_audit_as ev 2 actor ''repository.renamed'' subject
                           (case result of Inr _ \<Rightarrow> ''completed'' | Inl _ \<Rightarrow> ''failed'') detail c2 of
                      (Inl e, c3) \<Rightarrow> (Inl e, c3, g2)
                    | (Inr _, c3) \<Rightarrow> (result, c3, g2)))))"

section \<open>Transfers\<close>

record prepare_repository_transfer_request =
  ptr_repository_id :: uuid
  ptr_expected_source_owner :: string
  ptr_expected_source_name :: string
  ptr_destination_owner :: string
  ptr_request_fingerprint :: string
  ptr_idempotency_key :: string

definition get_repository_by_id :: "state \<Rightarrow> uuid \<Rightarrow> forge_error + repository" where
  "get_repository_by_id s repository_id =
     ok_or (find (\<lambda>r. rp_id r = repository_id) (hm_values (st_repos s)))
       (NotFound (''repository UUID '' @ show_uuid repository_id))"

definition get_repository_transfer :: "state \<Rightarrow> string \<Rightarrow> repository_transfer_journal option" where
  "get_repository_transfer s idempotency_key = hm_get (st_repository_transfers s) idempotency_key"

definition get_repository_alias :: "state \<Rightarrow> string \<Rightarrow> string \<Rightarrow> repository_alias option" where
  "get_repository_alias s owner name = hm_get (st_repository_aliases s) (owner, name)"

definition put_transfer :: "string \<Rightarrow> repository_transfer_journal \<Rightarrow> state \<Rightarrow> state" where
  "put_transfer key journal s =
     s\<lparr>st_repository_transfers := hm_put key journal (st_repository_transfers s)\<rparr>"

definition prepare_repository_transfer ::
  "env \<Rightarrow> prepare_repository_transfer_request \<Rightarrow> core \<Rightarrow> repository_transfer_journal outcome" where
  "prepare_repository_transfer ev request c =
     try_pure (require_name ''expected source owner'' (ptr_expected_source_owner request)) c (\<lambda>_.
     try_pure (require_name ''expected source name'' (ptr_expected_source_name request)) c (\<lambda>_.
     try_pure (require_name ''destination owner'' (ptr_destination_owner request)) c (\<lambda>_.
     try_pure (require_name ''request fingerprint'' (ptr_request_fingerprint request)) c (\<lambda>_.
     try_pure (require_name ''idempotency key'' (ptr_idempotency_key request)) c (\<lambda>_.
       let s = live c; key = ptr_idempotency_key request in
       case hm_get (st_repository_transfers s) key of
         Some existing \<Rightarrow>
           if tj_repository_id existing \<noteq> ptr_repository_id request \<or>
              tj_request_fingerprint existing \<noteq> ptr_request_fingerprint request
           then (Inl (Conflict (''idempotency key '' @ quoted key @
                   '' is already bound to another transfer'')), c)
           else (Inr existing, c)
       | None \<Rightarrow>
           try_pure (get_repository_by_id s (ptr_repository_id request)) c (\<lambda>repository.
             if rp_owner repository \<noteq> ptr_expected_source_owner request \<or>
                rp_name repository \<noteq> ptr_expected_source_name request
             then (Inl (Validation (''repository source drift: expected '' @
                     slug_name (ptr_expected_source_owner request) (ptr_expected_source_name request) @
                     '', found '' @ rp_full_name repository)), c)
             else if rp_owner repository = ptr_destination_owner request
             then (Inl (Validation ''destination owner must differ from source owner''), c)
             else let destination = (ptr_destination_owner request, rp_name repository) in
             if hm_has (st_repos s) destination \<or> hm_has (st_repository_aliases s) destination
             then (Inl (Conflict (''destination repository '' @
                     slug_name (fst destination) (snd destination))), c)
             else let journal = \<lparr>tj_transaction_id = env_fresh ev 0, tj_idempotency_key = key,
                         tj_request_fingerprint = ptr_request_fingerprint request,
                         tj_repository_id = rp_id repository, tj_source_owner = rp_owner repository,
                         tj_source_name = rp_name repository,
                         tj_destination_owner = ptr_destination_owner request,
                         tj_destination_name = rp_name repository, tj_status = TransferPrepared,
                         tj_prepared_at = env_clk ev 0, tj_completed_at = None, tj_failure = None,
                         tj_receipt = None\<rparr>
             in commit ev 0 (put_transfer key journal s) journal c))))))"

definition transfer_key_for_id :: "state \<Rightarrow> uuid \<Rightarrow> forge_error + string" where
  "transfer_key_for_id s transaction_id =
     ok_or (map_option fst (find (\<lambda>(_, journal). tj_transaction_id journal = transaction_id)
              (st_repository_transfers s)))
       (NotFound (''repository transfer '' @ show_uuid transaction_id))"

definition transfer_for_id :: "state \<Rightarrow> uuid \<Rightarrow> forge_error + string \<times> repository_transfer_journal" where
  "transfer_for_id s transaction_id =
     try_res (transfer_key_for_id s transaction_id) (\<lambda>key.
     try_res (ok_or (hm_get (st_repository_transfers s) key)
                (Panicked ''transfer key was found above'')) (\<lambda>journal. Inr (key, journal)))"

definition commit_repository_transfer ::
  "env \<Rightarrow> uuid \<Rightarrow> json \<Rightarrow> core \<Rightarrow> repository_transfer_journal outcome" where
  "commit_repository_transfer ev transaction_id receipt c =
     try_pure (transfer_for_id (live c) transaction_id) c (\<lambda>(key, journal).
       case tj_status journal of
         TransferCommitted \<Rightarrow> (Inr journal, c)
       | TransferFailed \<Rightarrow>
           (Inl (Conflict (''repository transfer '' @ show_uuid transaction_id @ '' already failed'')), c)
       | TransferPrepared \<Rightarrow>
           try_pure (rekey_repository ev journal (live c)) c (\<lambda>s1.
             let s2 = record_alias ev journal OriginTransfer s1;
                 committed = journal\<lparr>tj_status := TransferCommitted,
                               tj_completed_at := Some (env_clk ev 3), tj_receipt := Some receipt\<rparr>
             in commit ev 0 (put_transfer key committed s2) committed c))"

definition fail_repository_transfer ::
  "env \<Rightarrow> uuid \<Rightarrow> string \<Rightarrow> core \<Rightarrow> repository_transfer_journal outcome" where
  "fail_repository_transfer ev transaction_id reason c =
     try_pure (require_name ''transfer failure reason'' reason) c (\<lambda>_.
     try_pure (transfer_for_id (live c) transaction_id) c (\<lambda>(key, existing).
       case tj_status existing of
         TransferCommitted \<Rightarrow>
           (Inl (Conflict (''repository transfer '' @ show_uuid transaction_id @
              '' is already committed'')), c)
       | TransferFailed \<Rightarrow>
           if tj_failure existing = Some reason then (Inr existing, c)
           else (Inl (Conflict (''repository transfer '' @ show_uuid transaction_id @
                   '' already failed with a different reason'')), c)
       | TransferPrepared \<Rightarrow>
           let failed = existing\<lparr>tj_status := TransferFailed, tj_completed_at := Some (env_clk ev 0),
                          tj_failure := Some reason\<rparr>
           in commit ev 0 (put_transfer key failed (live c)) failed c))"

section \<open>What re-keying does\<close>

lemma find_SomeD: "find P xs = Some x \<Longrightarrow> x \<in> set xs \<and> P x"
  by (induction xs) (auto split: if_splits)

lemma move_entry_get:
  assumes "\<And>k. target k \<noteq> key"
  shows "hm_get (move_entry update target key m) k' =
    (if k' = key then None
     else if k' = target key \<and> hm_has m key then map_option update (hm_get m key)
     else hm_get m k')"
  using assms [of key] by (auto simp: move_entry_def hm_has_def split: option.split)

text \<open>Moving a list of keys to targets none of which is among them; a key that occurs again is gone by then.\<close>

lemma move_entries_get:
  assumes "\<And>k k'. k \<in> set keys \<Longrightarrow> target k' \<noteq> k" and "inj_on target (set keys)"
  shows "hm_get (fold (move_entry update target) keys m) k' =
    (if k' \<in> set keys then None
     else case find (\<lambda>k. target k = k' \<and> hm_has m k) keys of
       Some k \<Rightarrow> map_option update (hm_get m k)
     | None \<Rightarrow> hm_get m k')"
  using assms
proof (induction keys arbitrary: m)
  case Nil
  show ?case by simp
next
  case (Cons key keys)
  let ?m = "move_entry update target key m"
  have get: "hm_get ?m k = (if k = key then None
      else if k = target key \<and> hm_has m key then map_option update (hm_get m key) else hm_get m k)" for k
    using move_entry_get [of target key update m k] Cons.prems(1) by simp
  have IH: "hm_get (fold (move_entry update target) keys ?m) k' =
      (if k' \<in> set keys then None
       else case find (\<lambda>k. target k = k' \<and> hm_has ?m k) keys of
         Some k \<Rightarrow> map_option update (hm_get ?m k) | None \<Rightarrow> hm_get ?m k')"
    using Cons.prems by (intro Cons.IH) (auto intro: inj_on_subset)
  have kept: "hm_get ?m k = (if k = key then None else hm_get m k)" if "k \<in> set keys" for k
    using get [of k] that Cons.prems(1) by auto
  show ?case
  proof (cases "target key = k' \<and> hm_has m key")
    case True
    have "find (\<lambda>k. target k = k' \<and> hm_has ?m k) keys = None"
      using True Cons.prems(2) kept by (auto simp: find_None_iff inj_on_def hm_has_def split: if_splits)
    moreover have "k' \<noteq> key" "k' \<notin> set keys" using True Cons.prems(1) by auto
    ultimately show ?thesis using True by (simp add: IH get)
  next
    case False
    have agree: "(target k = k' \<and> hm_has ?m k) = (target k = k' \<and> hm_has m k)" if "k \<in> set keys" for k
      using kept [OF that] False by (auto simp: hm_has_def)
    then have same: "find (\<lambda>k. target k = k' \<and> hm_has ?m k) keys = find (\<lambda>k. target k = k' \<and> hm_has m k) keys"
      by (rule find_cong [OF refl])
    show ?thesis
    proof (cases "find (\<lambda>k. target k = k' \<and> hm_has m k) keys")
      case None
      have "k' \<noteq> key \<Longrightarrow> hm_get ?m k' = hm_get m k'" using get [of k'] False by auto
      moreover have "k' = key \<Longrightarrow> hm_get ?m k' = None" using get [of k'] by simp
      ultimately show ?thesis
        using False None by (simp only: fold_simps comp_def IH same None find.simps) auto
    next
      case (Some k)
      then have k: "k \<in> set keys" "target k = k'" "hm_has m k" using find_SomeD by fast+
      then have "k' \<noteq> key" using Cons.prems(1) [of key k] by auto
      moreover have "k \<noteq> key" using k False by auto
      ultimately show ?thesis using False Some kept [OF k(1)]
        by (simp only: fold_simps comp_def IH same Some find.simps) auto
    qed
  qed
qed

lemma rekey_triples_get:
  assumes "old \<noteq> new"
  shows "hm_get (rekey_triples update old new m) (a, b, k) =
    (if (a, b) = old then None
     else if (a, b) = new \<and> hm_has m (fst old, snd old, k)
     then map_option update (hm_get m (fst old, snd old, k))
     else hm_get m (a, b, k))"
proof -
  obtain o1 o2 where old: "old = (o1, o2)" by (cases old)
  obtain n1 n2 where new: "new = (n1, n2)" by (cases new)
  let ?keys = "[(owner, repo, k) \<leftarrow> map fst m. owner = fst old \<and> repo = snd old]"
  let ?t = "\<lambda>(_, _, k). (n1, n2, k)"
  let ?hit = "\<lambda>x. ?t x = (a, b, k) \<and> hm_has m x"
  have keys: "(a, b, k) \<in> set ?keys \<longleftrightarrow> (a, b) = old \<and> hm_has m (a, b, k)" for a b k
    by (auto simp: hm_has_iff old)
  have mem: "\<exists>k'. k = (o1, o2, k')" if "k \<in> set ?keys" for k using that by (auto simp: old)
  have got: "hm_get (fold (move_entry update ?t) ?keys m) (a, b, k) =
    (if (a, b, k) \<in> set ?keys then None
     else case find ?hit ?keys of
       Some k' \<Rightarrow> map_option update (hm_get m k') | None \<Rightarrow> hm_get m (a, b, k))"
  proof (rule move_entries_get)
    show "?t k' \<noteq> k" if "k \<in> set ?keys" for k k'
      using mem [OF that] assms by (auto simp: old new split: prod.split)
    show "inj_on ?t (set ?keys)" using mem by (auto simp: inj_on_def old)
  qed
  have hit: "x = (o1, o2, k) \<and> (a, b) = new \<and> hm_has m (o1, o2, k)" if "x \<in> set ?keys" "?hit x" for x
    using mem [OF that(1)] that(2) by (auto simp: new)
  have found: "find ?hit ?keys = (if (a, b) = new \<and> hm_has m (o1, o2, k) then Some (o1, o2, k) else None)"
  proof (cases "find ?hit ?keys")
    case None
    then have "\<not> ((a, b) = new \<and> hm_has m (o1, o2, k))"
      using keys [of o1 o2 k] by (auto simp: find_None_iff new old)
    with None show ?thesis by simp
  next
    case (Some x)
    with find_SomeD [OF Some] hit [of x] show ?thesis by simp
  qed
  from got have got: "hm_get (rekey_triples update old new m) (a, b, k) =
      (if (a, b) = old \<and> hm_has m (a, b, k) then None
       else case (if (a, b) = new \<and> hm_has m (o1, o2, k) then Some (o1, o2, k) else None) of
         Some k' \<Rightarrow> map_option update (hm_get m k') | None \<Rightarrow> hm_get m (a, b, k))"
    unfolding rekey_triples_def found by (simp only: keys new fst_conv snd_conv)
  consider "(a, b) = old" "hm_has m (a, b, k)" | "(a, b) = old" "hm_get m (a, b, k) = None"
    | "(a, b) \<noteq> old" by (auto simp: hm_has_def)
  then show ?thesis
    by cases (use got assms in \<open>auto simp: old\<close>)
qed

lemma rekey_pairs_get:
  assumes "old \<noteq> new"
  shows "hm_get (rekey_pairs update old new m) key =
    (if key = old then None
     else if key = new \<and> hm_has m old then map_option update (hm_get m old)
     else hm_get m key)"
  using assms by (auto simp: rekey_pairs_def hm_has_def split: option.split)

text \<open>The specification: \<open>m'\<close> is \<open>m\<close> with the rows of \<open>old\<close> moved to \<open>new\<close>, each changed by \<open>update\<close>.\<close>

definition moved_scope ::
  "('v \<Rightarrow> 'v) \<Rightarrow> slug \<Rightarrow> slug \<Rightarrow> (string \<times> string \<times> 'k, 'v) hmap \<Rightarrow> (string \<times> string \<times> 'k, 'v) hmap \<Rightarrow> bool"
where
  "moved_scope update old new m m' =
     (\<forall>a b k. hm_get m' (a, b, k) =
        (if (a, b) = old then None
         else if (a, b) = new \<and> hm_has m (fst old, snd old, k)
         then map_option update (hm_get m (fst old, snd old, k))
         else hm_get m (a, b, k)))"

definition moved_slug :: "('v \<Rightarrow> 'v) \<Rightarrow> slug \<Rightarrow> slug \<Rightarrow> (slug, 'v) hmap \<Rightarrow> (slug, 'v) hmap \<Rightarrow> bool" where
  "moved_slug update old new m m' =
     (\<forall>key. hm_get m' key =
        (if key = old then None
         else if key = new \<and> hm_has m old then map_option update (hm_get m old)
         else hm_get m key))"

lemma moved_triples: "old \<noteq> new \<Longrightarrow> moved_scope update old new m (rekey_triples update old new m)"
  unfolding moved_scope_def by (intro allI rekey_triples_get)

lemma moved_pairs: "old \<noteq> new \<Longrightarrow> moved_slug update old new m (rekey_pairs update old new m)"
  unfolding moved_slug_def by (intro allI rekey_pairs_get)

lemma moved_scopeD:
  "moved_scope update old new m m' \<Longrightarrow> (a, b) \<noteq> old \<Longrightarrow> (a, b) \<noteq> new \<Longrightarrow>
     hm_get m' (a, b, k) = hm_get m (a, b, k)"
  by (simp add: moved_scope_def)

lemma move_entries_ok: "hm_ok m \<Longrightarrow> hm_ok (fold (move_entry update target) keys m)"
proof (induction keys arbitrary: m)
  case (Cons key keys)
  have "hm_ok (move_entry update target key m)"
    using Cons.prems by (simp add: move_entry_def hash.ok_put hash.ok_del split: option.split)
  with Cons.IH show ?case by simp
qed simp

lemma rekey_triples_ok: "hm_ok m \<Longrightarrow> hm_ok (rekey_triples update old new m)"
  unfolding rekey_triples_def by (rule move_entries_ok)

lemma rename_Inr:
  assumes "write_repository_rename ev relocator old new (c, g) = (Inr updated, c', g')"
  obtains current s where "hm_get (st_repos (live c)) old = Some current" and "old \<noteq> new"
    and "\<not> hm_has (st_repos (live c)) new" and "\<not> rp_archived current"
    and "fst old = fst new \<or> hm_has (st_users (live c)) (fst new) \<or> hm_has (st_organizations (live c)) (fst new)"
    and "updated = current\<lparr>rp_owner := fst new, rp_name := snd new,
           rp_full_name := slug_name (fst new) (snd new), rp_updated_at := env_clk ev 1\<rparr>"
    and "s = (let j = rename_journal ev old new (rp_id current);
                  s1 = record_alias ev j OriginRename (rekey_maps old new updated
                    ((live c)\<lparr>st_repository_aliases := hm_del new (st_repository_aliases (live c))\<rparr>))
              in s1\<lparr>st_repository_transfers := hm_put (tj_idempotency_key j) j (st_repository_transfers s1)\<rparr>)"
    and "c' = persisted s c" and "relocate relocator old new g = (Inr (), g')"
proof -
  obtain current where current: "renamable (live c) old new = Inr current"
    using assms by (auto simp: write_repository_rename_def try_pure_Inr)
  let ?j = "rename_journal ev old new (rp_id current)"
  obtain s u where s: "renamed_state ev ?j new (live c) = Inr s"
    and u: "hm_get (st_repos s) new = Some u"
    and tail0: "(case relocate relocator old new g of
         (Inl e, g1) \<Rightarrow> (Inl e, c, g1)
       | (Inr _, g1) \<Rightarrow>
           (case persist_after_mutation ev 0 (live c) (c\<lparr>live := s\<rparr>) of
              (Inl e, c1) \<Rightarrow> (Inl e, c1, snd (relocate relocator new old g1))
            | (Inr _, c1) \<Rightarrow> (Inr u, c1, g1))) = (Inr updated, c', g')"
    using assms current by (auto simp: write_repository_rename_def try_pure_Inr ok_or_Inr)
  obtain g1 where moved: "relocate relocator old new g = (Inr (), g1)"
    using tail0 by (auto split: prod.splits sum.splits)
  have tail: "c' = persisted s c" "g1 = g'" "u = updated"
    using tail0 by (auto simp: moved persist_eq persisted_def split: if_splits)
  have target: "hm_get (st_repos s) new = Some updated" using u tail(3) by simp
  have row: "hm_get (st_repos (live c)) old = Some current" "old \<noteq> new" "\<not> hm_has (st_repos (live c)) new"
    "\<not> rp_archived current"
    "fst old = fst new \<or> hm_has (st_users (live c)) (fst new) \<or> hm_has (st_organizations (live c)) (fst new)"
    using current by (auto simp: renamable_def Let_def ok_paths split: if_splits)
  let ?u = "current\<lparr>rp_owner := fst new, rp_name := snd new,
           rp_full_name := slug_name (fst new) (snd new), rp_updated_at := env_clk ev 1\<rparr>"
  have journal: "tj_source_owner ?j = fst old" "tj_source_name ?j = snd old"
    "tj_destination_owner ?j = fst new" "tj_destination_name ?j = snd new" "tj_repository_id ?j = rp_id current"
    by (simp_all add: rename_journal_def Let_def)
  have state: "s = (let s1 = record_alias ev ?j OriginRename (rekey_maps old new ?u
        ((live c)\<lparr>st_repository_aliases := hm_del new (st_repository_aliases (live c))\<rparr>))
      in s1\<lparr>st_repository_transfers := hm_put (tj_idempotency_key ?j) ?j (st_repository_transfers s1)\<rparr>)"
    using s row by (auto simp: renamed_state_def rekey_repository_def journal Let_def try_res_Inr hm_has_def
        split: if_splits)
  then have "updated = ?u"
    using target by (simp add: Let_def record_alias_def rekey_maps_def split: prod.splits)
  moreover have "c' = persisted s c" "relocate relocator old new g = (Inr (), g')"
    using tail moved by simp_all
  ultimately show thesis using that [of current s] row state by (simp add: Let_def)
qed

lemma renamed_sel:
  assumes "s = (let j = rename_journal ev old new i;
      s1 = record_alias ev j OriginRename (rekey_maps old new r
        (t\<lparr>st_repository_aliases := hm_del new (st_repository_aliases t)\<rparr>))
      in s1\<lparr>st_repository_transfers := hm_put (tj_idempotency_key j) j (st_repository_transfers s1)\<rparr>)"
  shows "st_repos s = hm_put new r (hm_del old (st_repos t))"
    and "st_labels s = rekey_triples id old new (st_labels t)"
    and "st_issues s = rekey_triples (\<lambda>i. i\<lparr>is_owner := fst new, is_repo := snd new\<rparr>) old new (st_issues t)"
    and "st_issue_comments s = rekey_triples (map (\<lambda>x. x\<lparr>ic_owner := fst new, ic_repo := snd new\<rparr>)) old new
      (st_issue_comments t)"
    and "st_pulls s = rekey_triples (move_pull old new) old new (st_pulls t)"
    and "st_reviews s = rekey_triples (map (\<lambda>x. x\<lparr>rv_owner := fst new, rv_repo := snd new\<rparr>)) old new (st_reviews t)"
    and "st_review_comments s = rekey_triples (map (\<lambda>x. x\<lparr>rc_owner := fst new, rc_repo := snd new\<rparr>)) old new
      (st_review_comments t)"
    and "st_branch_protections s = rekey_triples (\<lambda>x. x\<lparr>bp_owner := fst new, bp_repo := snd new\<rparr>) old new
      (st_branch_protections t)"
    and "st_codeowners s = rekey_pairs id old new (st_codeowners t)"
    and "st_readmes s = rekey_pairs id old new (st_readmes t)"
    and "st_statuses s = rekey_triples (map (\<lambda>x. x\<lparr>cs_owner := fst new, cs_repo := snd new\<rparr>)) old new (st_statuses t)"
    and "st_check_runs s = rekey_pairs (map (\<lambda>x. x\<lparr>ck_owner := fst new, ck_repo := snd new\<rparr>)) old new (st_check_runs t)"
    and "st_webhooks s = rekey_pairs (map (\<lambda>x. x\<lparr>wh_owner := fst new, wh_repo := snd new\<rparr>)) old new (st_webhooks t)"
    and "st_counters s = rekey_pairs id old new (st_counters t)"
    and "st_jankurai_scores s = rekey_pairs (map (\<lambda>x. x\<lparr>js_owner := fst new, js_repo := snd new\<rparr>)) old new
      (st_jankurai_scores t)"
    and "st_accounts s = st_accounts t" and "st_users s = st_users t"
    and "st_organizations s = st_organizations t" and "st_teams s = st_teams t"
    and "st_password_recoveries s = st_password_recoveries t" and "st_waitlist s = st_waitlist t"
  unfolding assms by (simp_all add: Let_def record_alias_def rekey_maps_def case_prod_beta)

lemma renamed_aliases:
  assumes "s = (let j = rename_journal ev old new i;
      s1 = record_alias ev j OriginRename (rekey_maps old new r
        (t\<lparr>st_repository_aliases := hm_del new (st_repository_aliases t)\<rparr>))
      in s1\<lparr>st_repository_transfers := hm_put (tj_idempotency_key j) j (st_repository_transfers s1)\<rparr>)"
  shows "hm_get (st_repository_aliases s) key =
    (if key = old
     then Some \<lparr>al_repository_id = i, al_owner = fst old, al_name = snd old, al_canonical_owner = fst new,
                al_canonical_name = snd new, al_created_at = env_clk ev 2,
                al_transaction_id = env_fresh ev 0, al_origin = OriginRename\<rparr>
     else if key = new then None
     else map_option (\<lambda>al. if al_repository_id al = i
                         then al\<lparr>al_canonical_owner := fst new, al_canonical_name := snd new\<rparr> else al)
            (hm_get (st_repository_aliases t) key))"
  unfolding assms
  by (simp add: Let_def record_alias_def rekey_maps_def rename_journal_def case_prod_beta cong: if_cong)

section \<open>Properties\<close>

text \<open>
  A rename moves a repository whole: its row is under the new name with the same id, and every
  label, issue, comment, pull request, review, protection rule, status, check run, webhook, counter,
  readme, CODEOWNERS file and audit score filed under the old name is filed under the new one with
  its owner and repository fields updated, nothing stays behind and no other repository's row changes.
\<close>

theorem rename_moves_exactly:
  assumes ran: "write_repository_rename ev relocator old new (c, g) = (Inr updated, c', g')"
  shows "hm_get (st_repos (live c')) = (hm_get (st_repos (live c)))(old := None, new \<mapsto> updated) \<and>
    (\<exists>r. hm_get (st_repos (live c)) old = Some r \<and> rp_id updated = rp_id r \<and>
       rp_default_branch updated = rp_default_branch r \<and> rp_owner updated = fst new \<and> rp_name updated = snd new) \<and>
    moved_scope id old new (st_labels (live c)) (st_labels (live c')) \<and>
    moved_scope (\<lambda>i. i\<lparr>is_owner := fst new, is_repo := snd new\<rparr>) old new (st_issues (live c)) (st_issues (live c')) \<and>
    moved_scope (map (\<lambda>x. x\<lparr>ic_owner := fst new, ic_repo := snd new\<rparr>)) old new
      (st_issue_comments (live c)) (st_issue_comments (live c')) \<and>
    moved_scope (move_pull old new) old new (st_pulls (live c)) (st_pulls (live c')) \<and>
    moved_scope (map (\<lambda>x. x\<lparr>rv_owner := fst new, rv_repo := snd new\<rparr>)) old new
      (st_reviews (live c)) (st_reviews (live c')) \<and>
    moved_scope (map (\<lambda>x. x\<lparr>rc_owner := fst new, rc_repo := snd new\<rparr>)) old new
      (st_review_comments (live c)) (st_review_comments (live c')) \<and>
    moved_scope (\<lambda>x. x\<lparr>bp_owner := fst new, bp_repo := snd new\<rparr>) old new
      (st_branch_protections (live c)) (st_branch_protections (live c')) \<and>
    moved_scope (map (\<lambda>x. x\<lparr>cs_owner := fst new, cs_repo := snd new\<rparr>)) old new
      (st_statuses (live c)) (st_statuses (live c')) \<and>
    moved_slug id old new (st_codeowners (live c)) (st_codeowners (live c')) \<and>
    moved_slug id old new (st_readmes (live c)) (st_readmes (live c')) \<and>
    moved_slug (map (\<lambda>x. x\<lparr>ck_owner := fst new, ck_repo := snd new\<rparr>)) old new
      (st_check_runs (live c)) (st_check_runs (live c')) \<and>
    moved_slug (map (\<lambda>x. x\<lparr>wh_owner := fst new, wh_repo := snd new\<rparr>)) old new
      (st_webhooks (live c)) (st_webhooks (live c')) \<and>
    moved_slug id old new (st_counters (live c)) (st_counters (live c')) \<and>
    moved_slug (map (\<lambda>x. x\<lparr>js_owner := fst new, js_repo := snd new\<rparr>)) old new
      (st_jankurai_scores (live c)) (st_jankurai_scores (live c'))"
proof -
  obtain current s where row: "hm_get (st_repos (live c)) old = Some current" "old \<noteq> new"
    and updated: "updated = current\<lparr>rp_owner := fst new, rp_name := snd new,
           rp_full_name := slug_name (fst new) (snd new), rp_updated_at := env_clk ev 1\<rparr>"
    and s: "s = (let j = rename_journal ev old new (rp_id current);
                  s1 = record_alias ev j OriginRename (rekey_maps old new updated
                    ((live c)\<lparr>st_repository_aliases := hm_del new (st_repository_aliases (live c))\<rparr>))
              in s1\<lparr>st_repository_transfers := hm_put (tj_idempotency_key j) j (st_repository_transfers s1)\<rparr>)"
    and c': "c' = persisted s c"
    using ran by (rule rename_Inr)
  have live: "live c' = s" by (simp add: c')
  note sel = renamed_sel [OF s]
  have "hm_get (st_repos (live c')) = (hm_get (st_repos (live c)))(old := None, new \<mapsto> updated)"
    by (simp add: live sel)
  moreover have "rp_id updated = rp_id current" "rp_default_branch updated = rp_default_branch current"
    "rp_owner updated = fst new" "rp_name updated = snd new"
    by (simp_all add: updated)
  ultimately show ?thesis
    using row by (simp add: live sel moved_triples moved_pairs)
qed

text \<open>A state with one repository for each id.\<close>

definition unique_ids :: "state \<Rightarrow> bool" where
  "unique_ids s =
     (\<forall>k r k' r'. hm_get (st_repos s) k = Some r \<longrightarrow> hm_get (st_repos s) k' = Some r' \<longrightarrow>
        rp_id r = rp_id r' \<longrightarrow> k = k')"

lemma old_names_resolve_parts:
  assumes ran: "write_repository_rename ev relocator old new (c, g) = (Inr updated, c', g')"
    and ids: "unique_ids (live c)"
  shows "resolve_repository (live c) owner name = Some r \<Longrightarrow> rp_id r = rp_id updated \<Longrightarrow>
      resolve_repository (live c') owner name = Some updated"
    and "resolve_repository (live c') (fst new) (snd new) = Some updated"
    and "resolve_repository (live c) owner name = Some r \<Longrightarrow> rp_id r \<noteq> rp_id updated \<Longrightarrow>
      (owner, name) \<noteq> new \<Longrightarrow> resolve_repository (live c') owner name = Some r"
proof -
  obtain current s where row: "hm_get (st_repos (live c)) old = Some current" "old \<noteq> new"
      "\<not> hm_has (st_repos (live c)) new"
    and updated: "updated = current\<lparr>rp_owner := fst new, rp_name := snd new,
           rp_full_name := slug_name (fst new) (snd new), rp_updated_at := env_clk ev 1\<rparr>"
    and s: "s = (let j = rename_journal ev old new (rp_id current);
                  s1 = record_alias ev j OriginRename (rekey_maps old new updated
                    ((live c)\<lparr>st_repository_aliases := hm_del new (st_repository_aliases (live c))\<rparr>))
              in s1\<lparr>st_repository_transfers := hm_put (tj_idempotency_key j) j (st_repository_transfers s1)\<rparr>)"
    and c': "c' = persisted s c"
    using ran by (rule rename_Inr)
  have live: "live c' = s" by (simp add: c')
  have id: "rp_id updated = rp_id current" by (simp add: updated)
  have repos: "hm_get (st_repos s) = (hm_get (st_repos (live c)))(old := None, new \<mapsto> updated)"
    by (simp add: renamed_sel [OF s])
  note aliases = renamed_aliases [OF s]
  have new: "resolve_repository s (fst new) (snd new) = Some updated"
    by (simp add: resolve_repository_def repos)
  then show "resolve_repository (live c') (fst new) (snd new) = Some updated" by (simp add: live)
  have absent: "hm_get (st_repos (live c)) new = None" using row(3) by (simp add: hm_has_def)
  show "resolve_repository (live c') owner name = Some updated"
    if r: "resolve_repository (live c) owner name = Some r" and same: "rp_id r = rp_id updated"
  proof (cases "(owner, name) = new \<or> (owner, name) = old")
    case True
    then show ?thesis using new row by (auto simp: live resolve_repository_def repos aliases id)
  next
    case False
    have "hm_get (st_repos (live c)) (owner, name) = None"
    proof (rule ccontr)
      assume "hm_get (st_repos (live c)) (owner, name) \<noteq> None"
      then have "hm_get (st_repos (live c)) (owner, name) = Some r"
        using r by (auto simp: resolve_repository_def split: option.splits)
      with ids row(1) same id False show False unfolding unique_ids_def by metis
    qed
    moreover from this obtain al where "hm_get (st_repository_aliases (live c)) (owner, name) = Some al"
        and "al_repository_id al = rp_id current"
      using r same id by (auto simp: resolve_repository_def split: option.splits if_splits)
    ultimately show ?thesis using False by (auto simp: live resolve_repository_def repos aliases id)
  qed
  show "resolve_repository (live c') owner name = Some r"
    if r: "resolve_repository (live c) owner name = Some r" and other: "rp_id r \<noteq> rp_id updated"
      and "(owner, name) \<noteq> new"
  proof (cases "hm_get (st_repos (live c)) (owner, name)")
    case (Some q)
    with r have "q = r" by (simp add: resolve_repository_def)
    with Some other row(1) id that(3) show ?thesis
      by (auto simp: live resolve_repository_def repos)
  next
    case None
    then obtain al where al: "hm_get (st_repository_aliases (live c)) (owner, name) = Some al"
      "hm_get (st_repos (live c)) (al_canonical_owner al, al_canonical_name al) = Some r"
      "al_repository_id al = rp_id r"
      using r by (auto simp: resolve_repository_def split: option.splits if_splits)
    have "(owner, name) \<noteq> old" using None row(1) by auto
    moreover have "(al_canonical_owner al, al_canonical_name al) \<noteq> old"
      using al(2) row(1) other id by auto
    moreover have "(al_canonical_owner al, al_canonical_name al) \<noteq> new" using al(2) absent by auto
    ultimately show ?thesis
      using None al other that(3) id by (simp add: live resolve_repository_def repos aliases)
  qed
qed

text \<open>
  Old names keep working: after a rename every name that led to the repository, its old name and
  the names before that alike, leads to it under its new name in one step, and every name that led to
  another repository still does, except the new name itself, which now means the renamed repository.
\<close>

theorem old_names_resolve:
  assumes "write_repository_rename ev relocator old new (c, g) = (Inr updated, c', g')"
    and "unique_ids (live c)"
  shows "resolve_repository (live c') (fst new) (snd new) = Some updated \<and>
    (\<forall>owner name r. resolve_repository (live c) owner name = Some r \<longrightarrow>
      (rp_id r = rp_id updated \<longrightarrow> resolve_repository (live c') owner name = Some updated) \<and>
      (rp_id r \<noteq> rp_id updated \<longrightarrow> (owner, name) \<noteq> new \<longrightarrow>
         resolve_repository (live c') owner name = Some r))"
  using old_names_resolve_parts [OF assms] by blast

lemma try_pure_InlE:
  assumes "try_pure r s k = (Inl e, t)"
  obtains "t = s" | x where "k x = (Inl e, t)"
  using assms by (cases r) auto

text \<open>
  What the documentation of \<^verbatim>\<open>RepoRelocator\<close> promises: a move that fails leaves the directories where
  they were, and moving back after a successful move restores them.
\<close>

definition relocator_moves_whole :: "'g relocator \<Rightarrow> bool" where
  "relocator_moves_whole move =
     ((\<forall>o1 n1 o2 n2 g e g1. move o1 n1 o2 n2 g = (Inl e, g1) \<longrightarrow> g1 = g) \<and>
      (\<forall>o1 n1 o2 n2 g g1. move o1 n1 o2 n2 g = (Inr (), g1) \<longrightarrow> snd (move o2 n2 o1 n1 g1) = g))"

text \<open>
  A rename that fails, whatever the step, leaves the forge and the git directories as they were.
\<close>

theorem failed_rename_changes_nothing:
  assumes ran: "write_repository_rename ev relocator old new (c, g) = (Inl e, c', g')"
    and law: "case relocator of None \<Rightarrow> True | Some move \<Rightarrow> relocator_moves_whole move"
  shows "c' = c \<and> g' = g"
proof -
  have returns: "snd (relocate relocator new old g1) = g" if "relocate relocator old new g = (Inr (), g1)" for g1
    using law that by (cases relocator) (auto simp: relocate_def relocator_moves_whole_def)
  have still: "g1 = g" if "relocate relocator old new g = (Inl x, g1)" for g1 x
    using law that by (cases relocator) (auto simp: relocate_def relocator_moves_whole_def)
  have tail: "(case relocate relocator old new g of
         (Inl e, g1) \<Rightarrow> (Inl e, c, g1)
       | (Inr _, g1) \<Rightarrow>
           (case persist_after_mutation ev 0 (live c) (c\<lparr>live := s\<rparr>) of
              (Inl e, c1) \<Rightarrow> (Inl e, c1, snd (relocate relocator new old g1))
            | (Inr _, c1) \<Rightarrow> (Inr u, c1, g1))) = (Inl e, c', g') \<Longrightarrow> c' = c \<and> g' = g" for s and u :: repository
    using returns still
    by (auto simp: persist_eq split: prod.splits sum.splits if_splits)
  show ?thesis
    using ran unfolding write_repository_rename_def prod.case
    by (elim try_pure_InlE) ((erule tail | simp)+)
qed

section \<open>Instances\<close>

definition ex_moves :: "nat relocator" where
  "ex_moves o1 n1 o2 n2 g = (Inr (), g)"

lemma ex_rename:
  obtains updated c' where
    "write_repository_rename ex_env (Some ex_moves) (''acme'', ''core'') (''acme'', ''kernel'') (ex_core, g) =
       (Inr updated, c', g)"
    and "rp_id updated = 7"
proof -
  have named: "require_name ''new owner'' ''acme'' = Inr ()" "validate_repository_name ''kernel'' = Inr ()"
    by code_simp+
  have current: "renamable ex_state (''acme'', ''core'') (''acme'', ''kernel'') = Inr ex_repository"
    by (simp add: renamable_def Let_def hm_has_def ex_repository_sel)
  have "\<exists>updated c'. write_repository_rename ex_env (Some ex_moves) (''acme'', ''core'')
      (''acme'', ''kernel'') (ex_core, g) = (Inr updated, c', g) \<and> rp_id updated = 7"
    by (simp add: write_repository_rename_def named current renamed_state_def rekey_repository_def
        rename_journal_def record_alias_def rekey_maps_def Let_def hm_has_def ex_repository_sel
        relocate_def ex_moves_def persist_eq)
  with that show thesis by blast
qed

theorem rename_moves_exactly_witness:
  "\<exists>c'. fst (snd (write_repository_rename ex_env (Some ex_moves) (''acme'', ''core'') (''acme'', ''kernel'')
        (ex_core, 0))) = c' \<and>
     hm_get (st_pulls (live c')) (''acme'', ''kernel'', 1) =
       Some (move_pull (''acme'', ''core'') (''acme'', ''kernel'') ex_pull) \<and>
     hm_get (st_pulls (live c')) (''acme'', ''core'', 1) = None"
proof -
  obtain updated c' where ran: "write_repository_rename ex_env (Some ex_moves) (''acme'', ''core'')
      (''acme'', ''kernel'') (ex_core, 0) = (Inr updated, c', 0)"
    by (rule ex_rename)
  have "moved_scope (move_pull (''acme'', ''core'') (''acme'', ''kernel'')) (''acme'', ''core'') (''acme'', ''kernel'')
      (st_pulls (live ex_core)) (st_pulls (live c'))"
    using rename_moves_exactly [OF ran] by simp
  then show ?thesis by (simp add: ran moved_scope_def hm_has_def)
qed

theorem old_names_resolve_witness:
  "\<exists>c' r. fst (snd (write_repository_rename ex_env (Some ex_moves) (''acme'', ''core'') (''acme'', ''kernel'')
        (ex_core, 0))) = c' \<and>
     resolve_repository (live c') ''acme'' ''core'' = Some r \<and> rp_id r = 7"
proof -
  obtain updated c' where ran: "write_repository_rename ex_env (Some ex_moves) (''acme'', ''core'')
      (''acme'', ''kernel'') (ex_core, 0) = (Inr updated, c', 0)" and id: "rp_id updated = 7"
    by (rule ex_rename)
  have "unique_ids (live ex_core)" by (auto simp: unique_ids_def split: if_splits)
  moreover have "resolve_repository (live ex_core) ''acme'' ''core'' = Some ex_repository"
    by (simp add: resolve_repository_def)
  ultimately show ?thesis
    using old_names_resolve [OF ran] id by (simp add: ran ex_repository_sel)
qed

theorem failed_rename_changes_nothing_witness:
  "snd (write_repository_rename ex_env (Some ex_moves) (''acme'', ''core'') (''acme'', ''core'') (ex_core, 0)) =
     (ex_core, 0)"
proof -
  have named: "require_name ''new owner'' ''acme'' = Inr ()" "validate_repository_name ''core'' = Inr ()"
    by code_simp+
  obtain e c' g' where ran: "write_repository_rename ex_env (Some ex_moves) (''acme'', ''core'')
      (''acme'', ''core'') (ex_core, 0) = (Inl e, c', g')"
    by (simp add: write_repository_rename_def named renamable_def Let_def ex_repository_sel)
  have "relocator_moves_whole ex_moves" by (simp add: relocator_moves_whole_def ex_moves_def)
  with failed_rename_changes_nothing [OF ran] show ?thesis by (simp add: ran)
qed

end
