(* ===== verification/Account_Runs.thy ===== *)
theory Account_Runs
  imports Writes Renames
begin

text \<open>
  The operations on accounts, credentials, recoveries, organizations, the waitlist, scores and
  transfer journals are sequences of the primitive writes too. The ones that bump an account's epoch
  are only so while the epoch has room: at its top the code changes the live row and then fails.
\<close>

definition epoch_room :: "state \<Rightarrow> bool" where
  "epoch_room s = (\<forall>login a. hm_get (st_accounts s) login = Some a \<longrightarrow> ua_auth_epoch a + 1 < 2 ^ 64)"

lemma epoch_roomD: "epoch_room s \<Longrightarrow> hm_get (st_accounts s) login = Some a \<Longrightarrow> ua_auth_epoch a + 1 < 2 ^ 64"
  unfolding epoch_room_def by blast

section \<open>Credentials\<close>

lemma writes_drop_credentials [simp]: "writes s0 (drop_credentials login now s) = writes s0 s"
  by (rule writes_beside) (simp add: write_view_def)

lemma writes_revoke_issued [simp]: "writes s0 (snd (revoke_tokens_issued_by login now s)) = writes s0 s"
  by (subst revoke_tokens_state) simp

lemma writes_revoke_steward [simp]: "writes s0 (snd (revoke_steward_tokens org slug login now s)) = writes s0 s"
  by (simp add: revoke_steward_tokens_def revoke_matching_def Let_def)

lemma writes_update_account:
  assumes "writes s0 s" and "hm_get (st_accounts s) login = Some a"
    and "ua_canonical_login b = ua_canonical_login a" and "ua_auth_epoch a \<le> ua_auth_epoch b"
  shows "writes s0 (put_account login b s)"
  using assms by (intro writes_put_account) (simp_all add: account_step_def)

lemma store_new_credentials_sound:
  assumes "sound s0 c" and room: "epoch_room (live c)"
    and row: "hm_get (st_accounts (live c)) login = Some a"
    and same: "ua_canonical_login b = ua_canonical_login a" "ua_auth_epoch b = ua_auth_epoch a"
    and further: "\<And>s. writes s0 (further s) = writes s0 s"
  shows "sound s0 (snd (store_new_credentials ev n login b further c))"
proof -
  have "writes s0 (put_account login (b\<lparr>ua_auth_epoch := ua_auth_epoch b + 1, ua_updated_at := t\<rparr>) (live c))" for t
    by (rule writes_update_account [OF soundD [OF assms(1)] row]) (simp_all add: same)
  with store_new_credentials_cases [of b ev n login further c] epoch_roomD [OF room row] same assms(1)
  show ?thesis by (auto intro!: sound_commit simp: further)
qed

lemma create_account_sound [writes_ops]:
  "sound s0 c \<Longrightarrow> sound s0 (snd (create_account ev login password role c))"
  unfolding create_account_def Let_def
  by (auto intro!: sound_pure sound_commit writes_put_account soundD
      simp: account_step_def hm_has_def)

lemma reset_account_password_sound [writes_ops]:
  "sound s0 c \<Longrightarrow> epoch_room (live c) \<Longrightarrow> sound s0 (snd (reset_account_password ev login p c))"
  unfolding reset_account_password_def
  by (intro sound_pure store_new_credentials_sound) (auto simp: ok_or_Inr)

lemma change_account_password_sound [writes_ops]:
  "sound s0 c \<Longrightarrow> epoch_room (live c) \<Longrightarrow> sound s0 (snd (change_account_password ev login p q c))"
  unfolding change_account_password_def
  by (auto intro!: sound_pure store_new_credentials_sound simp: ok_or_Inr)

lemma force_password_change_sound [writes_ops]:
  assumes "sound s0 c" and "epoch_room (live c)"
  shows "sound s0 (snd (force_password_change ev n login forced c))"
  unfolding force_password_change_def Let_def
  using assms
  by (cases forced)
    (auto intro!: sound_pure sound_commit store_new_credentials_sound writes_update_account soundD simp: ok_or_Inr)

lemma create_account_epoch_room:
  assumes "create_account ev login password role c = (Inr account, c')" and "epoch_room (live c)"
  shows "epoch_room (live c')"
  using assms by (auto simp: create_account_def Let_def ok_paths epoch_room_def split: if_splits)

lemma create_temporary_account_sound [writes_ops]:
  assumes "sound s0 c" and "epoch_room (live c)"
  shows "sound s0 (snd (create_temporary_account ev login password role c))"
  using assms create_account_epoch_room [of ev login password role c]
  unfolding create_temporary_account_def
  by (intro sound_op) (auto simp: writes_ops)

lemma transition_sound [writes_ops]:
  assumes "sound s0 c" and "epoch_room (live c)"
  shows "sound s0 (snd (transition_account_status ev login status allowed c))"
proof -
  have "sound s0 (snd (store_new_credentials ev 0 login (account\<lparr>ua_status := status\<rparr>)
      (\<lambda>s. if permits_authentication status then s
           else snd (revoke_tokens_issued_by login (env_clk ev 2) s)) c))"
    if "hm_get (st_accounts (live c)) login = Some account" for account
    by (rule store_new_credentials_sound [OF assms that]) simp_all
  with assms(1) show ?thesis
    unfolding transition_account_status_def
    by (intro sound_pure) (auto simp: ok_or_Inr)
qed

section \<open>Sessions, tokens, invitations and grants\<close>

lemma create_session_with_ttl_sound [writes_ops]:
  "sound s0 c \<Longrightarrow> sound s0 (snd (create_session_with_ttl ev login ttl c))"
  unfolding create_session_with_ttl_def Let_def
  by (auto intro!: sound_pure sound_commit soundD)

lemma revoke_session_sound [writes_ops]: "sound s0 c \<Longrightarrow> sound s0 (snd (revoke_session ev token c))"
  unfolding revoke_session_def by (auto intro!: sound_commit soundD)

lemma create_personal_access_token_sound [writes_ops]:
  "sound s0 c \<Longrightarrow> sound s0 (snd (create_personal_access_token ev login name expires c))"
  unfolding create_personal_access_token_def Let_def
  by (auto intro!: sound_pure sound_commit soundD)

lemma revoke_personal_access_token_sound [writes_ops]:
  "sound s0 c \<Longrightarrow> sound s0 (snd (revoke_personal_access_token ev login i c))"
  unfolding revoke_personal_access_token_def Let_def
  by (auto intro!: sound_pure sound_commit soundD)

lemma writes_revoke_invitations [simp]: "writes s0 (revoke_invitations now ids s) = writes s0 s"
  by (simp add: revoke_invitations_def)

lemma create_account_invitation_inner_sound [writes_ops]:
  "sound s0 c \<Longrightarrow> sound s0 (snd (create_account_invitation_inner ev issuer login display bindings expires b c))"
  unfolding create_account_invitation_inner_def Let_def
  by (auto intro!: sound_pure sound_commit soundD)

lemma revoke_account_invitation_sound [writes_ops]:
  "sound s0 c \<Longrightarrow> sound s0 (snd (revoke_account_invitation ev i c))"
  unfolding revoke_account_invitation_def
  by (auto intro!: sound_commit soundD split: option.split)

lemma start_account_activation_sound [writes_ops]:
  "sound s0 c \<Longrightarrow> sound s0 (snd (start_account_activation ev login secret c))"
  unfolding start_account_activation_def Let_def
  by (auto intro!: sound_pure sound_op sound_commit soundD)

lemma join_team_state: "\<exists>teams. join_team login binding s = s\<lparr>st_teams := teams\<rparr>"
  by (auto simp: join_team_def split: sum.split option.split intro: exI [of _ "st_teams s"])

lemma join_teams_state: "\<exists>teams. fold (join_team login) bindings s = s\<lparr>st_teams := teams\<rparr>"
proof (induction bindings arbitrary: s)
  case Nil
  show ?case by (simp add: exI [of _ "st_teams s"])
next
  case (Cons b bindings)
  obtain teams where "join_team login b s = s\<lparr>st_teams := teams\<rparr>" using join_team_state by blast
  with Cons.IH [of "s\<lparr>st_teams := teams\<rparr>"] show ?case by auto
qed

lemma join_teams_sel [simp]:
  "st_accounts (fold (join_team login) bindings s) = st_accounts s"
  "writes s0 (fold (join_team login) bindings s) = writes s0 s"
  using join_teams_state [of login bindings s] by auto

lemma writes_bootstrap [simp]: "writes s0 (s\<lparr>st_bootstrap_owner_consumed := b\<rparr>) = writes s0 s"
  by (rule writes_beside) (simp add: write_view_def)

lemma writes_activated:
  assumes "writes s0 s" and "\<not> hm_has (st_accounts s) (iv_canonical_login invitation)"
    and "ua_canonical_login account = iv_canonical_login invitation"
  shows "writes s0 (activated ev now h found invitation account s)"
  unfolding activated_def Let_def
  by (intro writes_put_account) (use assms in \<open>simp_all add: account_step_def hm_has_def\<close>)

lemma complete_account_activation_sound [writes_ops]:
  assumes "sound s0 c"
  shows "sound s0 (snd (complete_account_activation ev challenge password c))"
  unfolding complete_account_activation_def Let_def
  by (intro sound_pure) (auto intro!: sound_pure sound_commit writes_activated soundD assms)

lemma grant_repo_access_sound [writes_ops]:
  "sound s0 c \<Longrightarrow> sound s0 (snd (grant_repo_access ev actor login owner repo access c))"
  unfolding grant_repo_access_def Let_def by (auto intro!: sound_pure sound_commit soundD)

lemma grant_checked_sound [writes_ops]:
  "sound s0 c \<Longrightarrow> sound s0 (snd (grant_repo_access_checked ev actor login owner repo access c))"
  unfolding grant_repo_access_checked_def by (auto intro!: sound_pure simp: writes_ops)

lemma revoke_repo_access_sound [writes_ops]:
  "sound s0 c \<Longrightarrow> sound s0 (snd (revoke_repo_access ev login owner repo c))"
  unfolding revoke_repo_access_def by (auto intro!: sound_commit soundD)

lemma revoke_checked_sound [writes_ops]:
  "sound s0 c \<Longrightarrow> sound s0 (snd (revoke_repo_access_checked ev actor login owner repo c))"
  unfolding revoke_repo_access_checked_def by (auto intro!: sound_pure simp: writes_ops)

section \<open>Password recovery\<close>

lemma writes_recoveries:
  "writes s0 s \<Longrightarrow> (recoveries_ok (st_password_recoveries s) \<Longrightarrow> recoveries_ok recoveries) \<Longrightarrow>
     writes s0 (s\<lparr>st_password_recoveries := recoveries\<rparr>)"
  by (blast intro: writes_step recoveries_changed)

lemma writes_prune: "writes s0 s \<Longrightarrow> writes s0 (snd (prune_dead_recoveries now s))"
  unfolding prune_state by (rule writes_recoveries) (simp_all add: recoveries_ok_retain)

lemma writes_retire: "writes s0 s \<Longrightarrow> writes s0 (retire_live_secrets login now s)"
  using recoveries_ok_retire [of s login now]
  by (simp add: retire_live_secrets_def writes_recoveries)

lemma retired_put_ok:
  assumes ok: "recoveries_ok m" and "m = st_password_recoveries s1"
    and "py_token_id opened = k" and "py_login opened = login" and "py_attempt_count opened = 0"
  shows "recoveries_ok (hm_put k opened (st_password_recoveries
           (snd (prune_dead_recoveries now (retire_live_secrets login now s1)))))"
proof (rule recoveries_ok_put)
  have ok1: "hm_ok (st_password_recoveries s1)" using ok assms(2) by (simp add: recoveries_ok_def)
  show "recoveries_ok (st_password_recoveries (snd (prune_dead_recoveries now (retire_live_secrets login now s1))))"
    using recoveries_ok_retire [of s1 login now] ok assms(2) by (simp add: recoveries_ok_retain)
  fix k' q
  assume "hm_get (st_password_recoveries (snd (prune_dead_recoveries now (retire_live_secrets login now s1)))) k' = Some q"
    and "py_login q = py_login opened"
  then show "k' = k" using retired_and_pruned [OF ok1, of now login now k' q] assms(4) by simp
qed (use assms in simp_all)

lemma issue_password_recovery_sound [writes_ops]:
  assumes "sound s0 c"
  shows "sound s0 (snd (issue_password_recovery ev login c))"
proof -
  let ?now = "env_clk ev 0"
  let ?s1 = "snd (prune_dead_recoveries ?now (live c))"
  let ?s2 = "snd (prune_dead_recoveries ?now (retire_live_secrets login ?now ?s1))"
  have s1: "writes s0 ?s1" by (rule writes_prune [OF soundD [OF assms]])
  have s2: "writes s0 (?s2\<lparr>st_password_recoveries := hm_put k opened (st_password_recoveries ?s2)\<rparr>)"
    if "py_token_id opened = k" "py_login opened = login" "py_attempt_count opened = 0" for k opened
  proof -
    have "?s2\<lparr>st_password_recoveries := m\<rparr> = ?s1\<lparr>st_password_recoveries := m\<rparr>" for m
      by (simp add: prune_state retire_live_secrets_def)
    moreover have "writes s0 (?s1\<lparr>st_password_recoveries := hm_put k opened (st_password_recoveries ?s2)\<rparr>)"
      by (rule writes_recoveries [OF s1]) (rule retired_put_ok, assumption, rule refl, use that in simp_all)
    ultimately show ?thesis by simp
  qed
  show ?thesis
    unfolding issue_password_recovery_def Let_def
    by (auto simp: assms simp del: prune_sel(1) intro!: sound_pure sound_op sound_commit_audit s1 s2 split: option.split)
qed

lemma count_wrong_secret_sound:
  assumes "sound s0 c"
    and "\<And>r. hm_get (st_password_recoveries (live c)) token_id = Some r \<Longrightarrow>
           py_attempt_count r < RECOVERY_MAX_ATTEMPTS"
  shows "sound s0 (count_wrong_secret ev token_id c)"
proof (cases "hm_get (st_password_recoveries (live c)) token_id")
  case None
  with assms(1) show ?thesis by (simp add: count_wrong_secret_def)
next
  case (Some r)
  let ?m = "hm_put token_id (r\<lparr>py_attempt_count := min (py_attempt_count r + 1) (2 ^ 32 - 1)\<rparr>)
      (st_password_recoveries (live c))"
  have "writes s0 ((live c)\<lparr>st_password_recoveries := ?m\<rparr>)"
    by (rule writes_recoveries [OF soundD [OF assms(1)]])
      (rule recoveries_ok_count [OF _ Some assms(2) [OF Some]])
  with assms(1) show ?thesis
    unfolding count_wrong_secret_def Some option.case Let_def by (rule sound_commit_audit)
qed

lemma spend_secret_sound:
  assumes "sound s0 c" and room: "epoch_room (live c)"
  shows "sound s0 (snd (spend_secret ev token_id verified password_hash c))"
proof -
  let ?now = "env_clk ev 1"
  let ?s1 = "snd (prune_dead_recoveries ?now (retire_live_secrets (vs_login verified) ?now (live c)))"
  have s1: "writes s0 ?s1" by (intro writes_prune writes_retire soundD assms)
  have "sound s0 (snd (case next_auth_epoch (ua_auth_epoch a) of
      Inl e \<Rightarrow> (Inl e, c\<lparr>live := put_account login (a\<lparr>ua_password_hash := h, ua_must_change_password := False\<rparr>) s1\<rparr>)
    | Inr epoch \<Rightarrow> commit_with_audit ev 1 (entry epoch)
        (drop_credentials login now (put_account login (a\<lparr>ua_password_hash := h, ua_must_change_password := False,
           ua_auth_epoch := epoch, ua_updated_at := now\<rparr>) s1)) (x epoch) c))"
    if "hm_get (st_accounts s1) login = Some a" and "writes s0 s1" and "st_accounts s1 = st_accounts (live c)"
    for a s1 login entry now h and x :: "nat \<Rightarrow> password_recovery_receipt"
  proof -
    have "next_auth_epoch (ua_auth_epoch a) = Inr (ua_auth_epoch a + 1)"
      using epoch_roomD [OF room, of login a] that by (simp add: next_auth_epoch_def)
    with assms(1) show ?thesis
      by (auto intro!: sound_commit_audit writes_update_account [OF that(2) that(1)])
  qed
  note spent = this [of ?s1, OF _ s1]
  from assms(1) show ?thesis
    unfolding spend_secret_def Let_def
    by (intro sound_pure) (auto intro!: spent simp: ok_or_Inr)
qed

lemma verify_spend_wrong:
  "verify_spend ev s token_id secret now = Inl WrongSecret \<Longrightarrow>
     hm_get (st_password_recoveries s) token_id = Some r \<Longrightarrow> py_attempt_count r < RECOVERY_MAX_ATTEMPTS"
  by (auto simp: verify_spend_def is_live_def split: option.splits if_splits)

lemma recover_password_sound [writes_ops]:
  "sound s0 c \<Longrightarrow> epoch_room (live c) \<Longrightarrow> sound s0 (snd (recover_password ev secret p c))"
  unfolding recover_password_def
  by (auto intro!: sound_pure count_wrong_secret_sound spend_secret_sound dest: verify_spend_wrong
      split: sum.split refusal_kind.split)

section \<open>Waitlist, organizations, scores and transfer journals\<close>

lemma join_waitlist_sound [writes_ops]:
  assumes "sound s0 c"
  shows "sound s0 (snd (join_waitlist ev raw name note c))"
proof (cases rule: join_waitlist_cases [of ev raw name "note" c])
  case (created email w)
  have "store_write (live c) ((live c)\<lparr>st_waitlist := bt_put email w (st_waitlist (live c))\<rparr>)"
    by (rule waitlist_changed) (use created normalize_idem in \<open>auto intro: waitlist_ok_put\<close>)
  with created show ?thesis
    by (auto intro!: sound_commit writes_step [OF soundD [OF assms]] simp: assms)
qed (simp_all add: assms)

lemma commit_then_audit_sound:
  "sound s0 c \<Longrightarrow> writes s0 s \<Longrightarrow> sound s0 (snd (commit_then_audit ev s x actor action subject detail c))"
  unfolding commit_then_audit_def by (intro sound_op sound_commit) auto

lemma create_organization_as_sound [writes_ops]:
  assumes "sound s0 c"
  shows "sound s0 (snd (create_organization_as ev actor login display owners c))"
  by (cases rule: create_organization_as_cases [of ev actor login display owners c])
    (auto simp: assms organization_step_def hm_has_def
      intro!: commit_then_audit_sound writes_put_organization soundD)

lemma organization_row: "managed_organization s actor org = Inr organization \<Longrightarrow>
    hm_get (st_organizations s) org = Some organization"
  using managed_organization_Inr [of s actor org organization] by simp

lemma organization_step_edit:
  "og_id organization = og_id o' \<Longrightarrow> (organization_ok org o' \<Longrightarrow> organization_ok org organization) \<Longrightarrow>
     (organization_ok org o' \<Longrightarrow> og_owners organization \<noteq> []) \<Longrightarrow>
     organization_step org (Some o') organization"
  by (simp add: organization_step_def)

lemma sort_snoc_nonempty: "sort (xs @ [x]) \<noteq> []"
  by (metis length_sort length_append_singleton list.size(3) nat.distinct(1))

lemma add_organization_owner_sound [writes_ops]:
  assumes "sound s0 c"
  shows "sound s0 (snd (add_organization_owner ev actor org login c))"
proof (cases rule: add_owner_cases [of ev actor org login c])
  case (changed organization who)
  have "organization_step org (Some organization)
      (organization\<lparr>og_owners := sort (og_owners organization @ [who])\<rparr>)"
    using owner_added [of org organization who] changed sort_snoc_nonempty
    by (intro organization_step_edit) simp_all
  with organization_row [OF changed(1)] show ?thesis
    unfolding changed(4)
    by (intro commit_then_audit_sound writes_put_organization assms soundD [OF assms]) simp
qed (simp add: assms)

lemma remove_organization_owner_sound [writes_ops]:
  assumes "sound s0 c"
  shows "sound s0 (snd (remove_organization_owner ev actor org login c))"
proof (cases rule: remove_owner_cases [of ev actor org login c])
  case (changed organization)
  have "organization_step org (Some organization)
      (organization\<lparr>og_owners := [o' \<leftarrow> og_owners organization. o' \<noteq> login]\<rparr>)"
    using owner_removed [of org organization login] changed
      filter_one_less [of "og_owners organization" login]
    by (intro organization_step_edit) (simp_all add: organization_ok_def)
  with organization_row [OF changed(1)] show ?thesis
    unfolding changed(4)
    by (intro commit_then_audit_sound writes_put_organization assms soundD [OF assms]) simp
qed (simp add: assms)

lemma writes_put_team [simp]: "writes s0 (put_team org slug tm s) = writes s0 s"
  by (simp add: put_team_def)

lemma create_team_as_sound [writes_ops]:
  "sound s0 c \<Longrightarrow> sound s0 (snd (create_team_as ev actor org name slug members c))"
  unfolding create_team_as_def Let_def
  by (auto intro!: sound_pure commit_then_audit_sound soundD)

lemma add_team_member_sound [writes_ops]:
  "sound s0 c \<Longrightarrow> sound s0 (snd (add_team_member ev actor org slug login c))"
  unfolding add_team_member_def Let_def
  by (auto intro!: sound_pure commit_then_audit_sound soundD)

lemma remove_team_member_sound [writes_ops]:
  assumes "sound s0 c"
  shows "sound s0 (snd (remove_team_member ev actor org slug login c))"
proof -
  have "writes s0 s"
    if "revoke_steward_tokens org slug login now (put_team org slug tm (live c)) = (n, s)" for n s now tm
    using writes_revoke_steward [of s0 org slug login now "put_team org slug tm (live c)"] that
      soundD [OF assms] by simp
  with assms show ?thesis
    unfolding remove_team_member_def Let_def
    by (auto intro!: sound_pure commit_then_audit_sound soundD split: prod.split)
qed

lemma record_jankurai_score_sound [writes_ops]:
  assumes "sound s0 c"
  shows "sound s0 (snd (record_jankurai_score ev owner repo request c))"
  by (cases rule: record_jankurai_score_cases [of ev owner repo request c])
    (auto simp: assms intro!: sound_commit writes_step [OF soundD [OF assms]] score_recorded)

lemma writes_put_transfer [simp]: "writes s0 (put_transfer key journal s) = writes s0 s"
  by (simp add: put_transfer_def)

lemma prepare_repository_transfer_sound [writes_ops]:
  "sound s0 c \<Longrightarrow> sound s0 (snd (prepare_repository_transfer ev request c))"
  unfolding prepare_repository_transfer_def Let_def
  by (auto intro!: sound_pure sound_commit soundD split: option.split)

lemma fail_repository_transfer_sound [writes_ops]:
  "sound s0 c \<Longrightarrow> sound s0 (snd (fail_repository_transfer ev transaction_id reason c))"
  unfolding fail_repository_transfer_def Let_def
  by (auto intro!: sound_pure sound_commit soundD split: repository_transfer_status.split prod.split)

end
