(* ===== verification/Deletion.thy ===== *)
theory Deletion
  imports Repositories Sample_Store
begin

text \<open>
  What deleting a repository removes: exactly the rows keyed to its slug, from every map, and the
  grants, aliases and transfer journals of its id.
\<close>

section \<open>Draining a map\<close>

lemma fold_del_get: "hm_get (fold hm_del keys m) k = (if k \<in> set keys then None else hm_get m k)"
  by (induction keys arbitrary: m) auto

lemma scoped_keys_mem:
  "(o', r', k) \<in> set (scoped_keys owner repo m) \<longleftrightarrow> o' = owner \<and> r' = repo \<and> hm_has m (o', r', k)"
  by (auto simp: scoped_keys_def hm_has_iff image_iff)

lemma drain_scoped_get:
  "hm_get (snd (drain_scoped owner repo m)) (o', r', k) =
     (if o' = owner \<and> r' = repo then None else hm_get m (o', r', k))"
  by (auto simp: drain_scoped_def Let_def fold_del_get scoped_keys_mem hm_has_def)

lemma drain_bucket_get:
  "hm_get (snd (fold drain_bucket keys (n, m))) k = (if k \<in> set keys then None else hm_get m k)"
proof (induction keys arbitrary: n m)
  case Nil
  show ?case by simp
next
  case (Cons key keys)
  then show ?case by (auto simp: drain_bucket_def split: option.split)
qed

lemma drain_scoped_vecs_get:
  "hm_get (snd (drain_scoped_vecs owner repo m)) (o', r', k) =
     (if o' = owner \<and> r' = repo then None else hm_get m (o', r', k))"
  by (auto simp: drain_scoped_vecs_def drain_bucket_get scoped_keys_mem hm_has_def)

lemma remove_get:
  "hm_get (snd (remove_entry key m)) k = (if k = key then None else hm_get m k)"
  "hm_get (snd (remove_bucket key n)) k = (if k = key then None else hm_get n k)"
  by (simp_all add: remove_entry_def remove_bucket_def)

lemma fold_del_ok: "hm_ok m \<Longrightarrow> hm_ok (fold hm_del keys m)"
  by (induction keys arbitrary: m) (simp_all add: hash.ok_del)

lemma drain_scoped_ok: "hm_ok m \<Longrightarrow> hm_ok (snd (drain_scoped owner repo m))"
  by (simp add: drain_scoped_def Let_def fold_del_ok)

lemma hm_list_get: "hm_list m k = (case hm_get m k of None \<Rightarrow> [] | Some vs \<Rightarrow> vs)"
  by (simp add: hm_list_def)

lemmas drained = drain_scoped_get drain_scoped_vecs_get remove_get fold_del_get

lemma delete_repository_Inr:
  "delete_repository ev owner repo c = (Inr gone, c') \<longleftrightarrow>
     (\<exists>removed. hm_get (st_repos (live c)) (owner, repo) = Some removed \<and> \<not> write_fails ev 0 c \<and>
        gone = deletion_receipt owner repo removed (live c) \<and>
        c' = persisted (drop_repository owner repo removed (live c)) c)"
  by (auto simp: delete_repository_def try_pure_Inr canonical_repository_def ok_or_Inr)

section \<open>The property\<close>

text \<open>The specification: \<open>m'\<close> is \<open>m\<close> without the rows of one repository.\<close>

definition cut_scope ::
  "string \<Rightarrow> string \<Rightarrow> (string \<times> string \<times> 'k, 'v) hmap \<Rightarrow> (string \<times> string \<times> 'k, 'v) hmap \<Rightarrow> bool" where
  "cut_scope owner repo m m' =
     (\<forall>o' r' k. hm_get m' (o', r', k) = (if o' = owner \<and> r' = repo then None else hm_get m (o', r', k)))"

definition cut_slug :: "string \<Rightarrow> string \<Rightarrow> (slug, 'v) hmap \<Rightarrow> (slug, 'v) hmap \<Rightarrow> bool" where
  "cut_slug owner repo m m' = (hm_get m' = (hm_get m)((owner, repo) := None))"

lemma cut_scope_drained [simp]:
  "cut_scope owner repo m (snd (drain_scoped owner repo m))"
  "cut_scope owner repo n (snd (drain_scoped_vecs owner repo n))"
  by (simp_all add: cut_scope_def drained)

lemma cut_slug_removed [simp]:
  "cut_slug owner repo m (hm_del (owner, repo) m)"
  "cut_slug owner repo m (snd (remove_entry (owner, repo) m))"
  "cut_slug owner repo n (snd (remove_bucket (owner, repo) n))"
  by (simp_all add: cut_slug_def remove_entry_def remove_bucket_def)

lemma cut_grants:
  "hm_get (fold hm_del [(login, grant_owner, grant_repo) \<leftarrow> map fst m.
       grant_owner = owner \<and> grant_repo = repo] m) (login, o', r') =
     (if o' = owner \<and> r' = repo then None else hm_get m (login, o', r'))"
  by (auto simp: fold_del_get map_of_eq_None_iff image_iff)

text \<open>
  C15. Deleting a repository removes exactly its own rows from the state: what is filed under its slug in the maps keyed by slug, the
  deliveries and access grants of the slug, and the bot grants, old-name aliases and transfer journals of its id; every row of another
  slug or id in these maps stays as it was, and no other field of the state changes. (Deployments, which the
  code holds in the same struct and the model in a book of its own, are among the fields the code leaves
  alone: the deployments of a deleted repository stay behind under its id.)
\<close>

theorem deletion_is_exact:
  assumes "delete_repository ev owner repo c = (Inr gone, c')"
  shows "\<exists>removed. hm_get (st_repos (live c)) (owner, repo) = Some removed \<and>
    cut_slug owner repo (st_repos (live c)) (st_repos (live c')) \<and>
    cut_scope owner repo (st_labels (live c)) (st_labels (live c')) \<and>
    cut_scope owner repo (st_issues (live c)) (st_issues (live c')) \<and>
    cut_scope owner repo (st_issue_comments (live c)) (st_issue_comments (live c')) \<and>
    cut_scope owner repo (st_pulls (live c)) (st_pulls (live c')) \<and>
    cut_scope owner repo (st_reviews (live c)) (st_reviews (live c')) \<and>
    cut_scope owner repo (st_review_comments (live c)) (st_review_comments (live c')) \<and>
    cut_scope owner repo (st_branch_protections (live c)) (st_branch_protections (live c')) \<and>
    cut_slug owner repo (st_codeowners (live c)) (st_codeowners (live c')) \<and>
    cut_slug owner repo (st_readmes (live c)) (st_readmes (live c')) \<and>
    cut_scope owner repo (st_statuses (live c)) (st_statuses (live c')) \<and>
    cut_slug owner repo (st_check_runs (live c)) (st_check_runs (live c')) \<and>
    cut_slug owner repo (st_webhooks (live c)) (st_webhooks (live c')) \<and>
    cut_slug owner repo (st_counters (live c)) (st_counters (live c')) \<and>
    cut_slug owner repo (st_jankurai_scores (live c)) (st_jankurai_scores (live c')) \<and>
    (\<forall>login o' r'. hm_get (st_repo_grants (live c')) (login, o', r') =
       (if o' = owner \<and> r' = repo then None else hm_get (st_repo_grants (live c)) (login, o', r'))) \<and>
    st_webhook_deliveries (live c') =
      [d \<leftarrow> st_webhook_deliveries (live c). \<not> (wd_owner d = owner \<and> wd_repo d = repo)] \<and>
    st_bot_repo_grants (live c') = [row \<leftarrow> st_bot_repo_grants (live c). snd (fst row) \<noteq> rp_id removed] \<and>
    st_repository_aliases (live c') =
      [row \<leftarrow> st_repository_aliases (live c). al_repository_id (snd row) \<noteq> rp_id removed] \<and>
    st_repository_transfers (live c') =
      [row \<leftarrow> st_repository_transfers (live c). tj_repository_id (snd row) \<noteq> rp_id removed] \<and>
    live c' = (live c)\<lparr>st_repos := st_repos (live c'), st_labels := st_labels (live c'), st_issues := st_issues (live c'),
      st_issue_comments := st_issue_comments (live c'), st_pulls := st_pulls (live c'), st_reviews := st_reviews (live c'),
      st_review_comments := st_review_comments (live c'), st_branch_protections := st_branch_protections (live c'),
      st_codeowners := st_codeowners (live c'), st_readmes := st_readmes (live c'), st_statuses := st_statuses (live c'),
      st_check_runs := st_check_runs (live c'), st_webhooks := st_webhooks (live c'),
      st_webhook_deliveries := st_webhook_deliveries (live c'), st_counters := st_counters (live c'),
      st_jankurai_scores := st_jankurai_scores (live c'), st_repo_grants := st_repo_grants (live c'),
      st_bot_repo_grants := st_bot_repo_grants (live c'), st_repository_aliases := st_repository_aliases (live c'),
      st_repository_transfers := st_repository_transfers (live c')\<rparr>"
proof -
  obtain removed where row: "hm_get (st_repos (live c)) (owner, repo) = Some removed"
    and c': "c' = persisted (drop_repository owner repo removed (live c)) c"
    using assms by (auto simp: delete_repository_Inr)
  show ?thesis
    by (rule exI [of _ removed])
      (simp add: row c' drop_repository_def Let_def cut_grants [unfolded case_prod_unfold] hm_retain_def case_prod_unfold foreign_delivery_def [abs_def])
qed

theorem deletion_is_exact_witness:
  "cut_scope ''acme'' ''core'' (st_pulls ex_state)
     (st_pulls (live (snd (delete_repository ex_env ''acme'' ''core'' ex_core))))"
proof -
  obtain gone c' where ran: "delete_repository ex_env ''acme'' ''core'' ex_core = (Inr gone, c')"
    by (simp add: delete_repository_Inr)
  from deletion_is_exact [OF ran] show ?thesis by (auto simp: ran)
qed

end
