(* ===== verification/Invariants.thy ===== *)
theory Invariants
  imports Account_Runs Deletion "HOL-Library.Sublist"
begin

text \<open>
  Invariants of the store, each proved once by cases on the primitive writes of \<^verbatim>\<open>Writes\<close>: the one
  number space of a repository's issues and pull requests, the rule every default branch has, the
  directory of accounts, organizations, recovery secrets and the waitlist, and what is never lost (pull
  requests, their merges, reviews, accounts with their epochs, organizations). Deletions and re-keyings,
  which are not primitive writes, are shown to keep them separately.
\<close>

section \<open>Numbers\<close>

definition pulls_keyed :: "(record_key, pull_request) hmap \<Rightarrow> (record_key, issue) hmap \<Rightarrow> bool" where
  "pulls_keyed pulls issues =
     (\<forall>key pr. hm_get pulls key = Some pr \<longrightarrow>
        key = (pr_owner pr, pr_repo pr, pr_number pr) \<and> pr_issue_number pr = pr_number pr \<and>
        hm_has issues key)"

definition issues_keyed :: "(record_key, issue) hmap \<Rightarrow> bool" where
  "issues_keyed issues =
     (\<forall>key i. hm_get issues key = Some i \<longrightarrow> key = (is_owner i, is_repo i, is_number i))"

definition numbers_counted ::
  "(record_key, issue) hmap \<Rightarrow> (slug, repository) hmap \<Rightarrow> (slug, counters) hmap \<Rightarrow> bool" where
  "numbers_counted issues repos cns =
     (\<forall>owner repo n. hm_has issues (owner, repo, n) \<longrightarrow>
        hm_has repos (owner, repo) \<and>
        (\<exists>cn. hm_get cns (owner, repo) = Some cn \<and> n \<le> max (cn_issue cn) (cn_pull cn)))"

definition numbered :: "state \<Rightarrow> bool" where
  "numbered s =
     (hm_ok (st_pulls s) \<and> pulls_keyed (st_pulls s) (st_issues s) \<and> issues_keyed (st_issues s) \<and>
      numbers_counted (st_issues s) (st_repos s) (st_counters s))"

lemma numbered_default: "numbered default_state"
  by (simp add: numbered_def default_state_def hm_ok_def hm_has_def pulls_keyed_def issues_keyed_def
      numbers_counted_def)

lemma pulls_keyedD:
  "pulls_keyed pulls issues \<Longrightarrow> hm_get pulls key = Some pr \<Longrightarrow>
     key = (pr_owner pr, pr_repo pr, pr_number pr) \<and> pr_issue_number pr = pr_number pr \<and>
     hm_has issues key"
  unfolding pulls_keyed_def by blast

lemma numbers_countedD:
  "numbers_counted issues repos cns \<Longrightarrow> hm_has issues (owner, repo, n) \<Longrightarrow>
     hm_has repos (owner, repo) \<and>
     (\<exists>cn. hm_get cns (owner, repo) = Some cn \<and> n \<le> max (cn_issue cn) (cn_pull cn))"
  unfolding numbers_counted_def by blast

lemma issues_keyedD:
  "issues_keyed issues \<Longrightarrow> hm_get issues key = Some i \<Longrightarrow> key = (is_owner i, is_repo i, is_number i)"
  unfolding issues_keyed_def by blast

lemma pulls_keyed_issues:
  "pulls_keyed pulls issues \<Longrightarrow> (\<And>key. hm_has issues key \<Longrightarrow> hm_has issues' key) \<Longrightarrow>
     pulls_keyed pulls issues'"
  unfolding pulls_keyed_def by blast

lemma pulls_keyed_put:
  assumes "pulls_keyed pulls issues"
    and "key = (pr_owner q, pr_repo q, pr_number q)" and "pr_issue_number q = pr_number q"
    and "hm_has issues key"
  shows "pulls_keyed (hm_put key q pulls) issues"
  unfolding pulls_keyed_def
proof (intro allI impI)
  fix k p
  assume "hm_get (hm_put key q pulls) k = Some p"
  then show "k = (pr_owner p, pr_repo p, pr_number p) \<and> pr_issue_number p = pr_number p \<and> hm_has issues k"
    using assms pulls_keyedD [OF assms(1), of k p] by (cases "k = key") auto
qed

lemma issues_keyed_put:
  assumes "issues_keyed issues" and "key = (is_owner i, is_repo i, is_number i)"
  shows "issues_keyed (hm_put key i issues)"
  unfolding issues_keyed_def
proof (intro allI impI)
  fix k j
  assume "hm_get (hm_put key i issues) k = Some j"
  then show "k = (is_owner j, is_repo j, is_number j)"
    using assms issues_keyedD [OF assms(1), of k j] by (cases "k = key") auto
qed

lemma next_record_number_above:
  assumes "record_room owner repo s" and "next_record_number owner repo s = (n, s')"
    and "hm_get (st_counters s) (owner, repo) = Some cn"
  shows "max (cn_issue cn) (cn_pull cn) < n"
  using assms by (auto simp: next_record_number_def Let_def record_room_def u64_succ_small)

lemma numbered_used_below:
  assumes "numbered s" and "record_room owner repo s" and "next_record_number owner repo s = (n, s')"
    and "hm_has (st_issues s) (owner, repo, m)"
  shows "m < n"
proof -
  have "numbers_counted (st_issues s) (st_repos s) (st_counters s)"
    using assms(1) by (simp add: numbered_def)
  from numbers_countedD [OF this assms(4)] obtain cn
    where cn: "hm_get (st_counters s) (owner, repo) = Some cn" and "m \<le> max (cn_issue cn) (cn_pull cn)"
    by blast
  with next_record_number_above [OF assms(2,3) cn] show ?thesis by linarith
qed

text \<open>The next number of a repository is free: no issue and no pull request has it.\<close>

lemma next_record_number_free:
  assumes "numbered s" and "record_room owner repo s" and "next_record_number owner repo s = (n, s')"
  shows "\<not> hm_has (st_issues s) (owner, repo, n)" and "\<not> hm_has (st_pulls s) (owner, repo, n)"
proof -
  show free: "\<not> hm_has (st_issues s) (owner, repo, n)"
    using numbered_used_below [OF assms, of n] by blast
  have keyed: "pulls_keyed (st_pulls s) (st_issues s)" using assms(1) by (simp add: numbered_def)
  show "\<not> hm_has (st_pulls s) (owner, repo, n)"
    using pulls_keyedD [OF keyed, of "(owner, repo, n)"] free
    by (cases "hm_get (st_pulls s) (owner, repo, n)") (auto simp: hm_has_def)
qed

lemma numbered_beside: "write_view s' = write_view s \<Longrightarrow> numbered s' = numbered s"
  by (simp add: write_view_def numbered_def)

lemma numbered_issue_edited:
  assumes "numbered s" and "hm_get (st_issues s) key = Some i" and "same_issue i j"
  shows "numbered (s\<lparr>st_issues := hm_put key j (st_issues s)\<rparr>)"
proof -
  have "issues_keyed (st_issues s)" using assms(1) by (simp add: numbered_def)
  from issues_keyedD [OF this assms(2)] this have "issues_keyed (hm_put key j (st_issues s))"
    using assms(3) by (intro issues_keyed_put) (auto simp: same_issue_def)
  moreover have "pulls_keyed (st_pulls s) (hm_put key j (st_issues s))"
    using assms(1) by (auto simp: numbered_def intro: pulls_keyed_issues)
  moreover have "numbers_counted (hm_put key j (st_issues s)) (st_repos s) (st_counters s)"
    using assms(1) by (simp add: numbers_counted_def numbered_def hm_has_put_same [OF assms(2)] del: hm_has_put)
  ultimately show ?thesis using assms(1) by (simp add: numbered_def)
qed

lemma numbered_pull_edited:
  assumes "numbered s" and "hm_get (st_pulls s) key = Some pr" and "same_pull pr q"
  shows "numbered (s\<lparr>st_pulls := hm_put key q (st_pulls s)\<rparr>)"
proof -
  have "pulls_keyed (st_pulls s) (st_issues s)" using assms(1) by (simp add: numbered_def)
  from pulls_keyedD [OF this assms(2)] this
  have "pulls_keyed (hm_put key q (st_pulls s)) (st_issues s)"
    using assms(3) by (intro pulls_keyed_put) (auto simp: same_pull_def)
  with assms(1) show ?thesis by (simp add: numbered_def hash.ok_put)
qed

lemma numbered_issue_opened:
  assumes "numbered s" and "record_room owner repo s" and "hm_has (st_repos s) (owner, repo)"
    and "next_record_number owner repo s = (n, s')"
    and "issue_at owner repo n i"
  shows "numbered (s'\<lparr>st_issues := hm_put (owner, repo, n) i (st_issues s')\<rparr>)"
proof -
  let ?cns = "hm_put (owner, repo) \<lparr>cn_issue = n, cn_pull = n\<rparr> (st_counters s)"
  have s': "s' = s\<lparr>st_counters := ?cns\<rparr>"
    using assms(4) by (auto simp: next_record_number_def Let_def)
  have "numbers_counted (hm_put (owner, repo, n) i (st_issues s)) (st_repos s) ?cns"
    unfolding numbers_counted_def
  proof (intro allI impI)
    fix o' r' m
    assume has: "hm_has (hm_put (owner, repo, n) i (st_issues s)) (o', r', m)"
    have counted: "numbers_counted (st_issues s) (st_repos s) (st_counters s)"
      using assms(1) by (simp add: numbered_def)
    show "hm_has (st_repos s) (o', r') \<and>
        (\<exists>cn. hm_get ?cns (o', r') = Some cn \<and> m \<le> max (cn_issue cn) (cn_pull cn))"
    proof (cases "(o', r') = (owner, repo)")
      case True
      with has have "m \<le> n"
        using numbered_used_below [OF assms(1,2,4), of m] by auto
      with True assms(3) show ?thesis by simp
    next
      case False
      with has have "hm_has (st_issues s) (o', r', m)" by auto
      with numbers_countedD [OF counted this] False show ?thesis by auto
    qed
  qed
  moreover have "issues_keyed (hm_put (owner, repo, n) i (st_issues s))"
    using assms(1,5) by (simp add: issues_keyed_put numbered_def issue_at_def)
  moreover have "pulls_keyed (st_pulls s) (hm_put (owner, repo, n) i (st_issues s))"
    using assms(1) by (auto simp: numbered_def intro: pulls_keyed_issues)
  ultimately show ?thesis using assms(1) by (simp add: numbered_def s')
qed

lemma numbered_new_pull:
  assumes "numbered s" and "hm_has (st_issues s) (owner, repo, n)" and "pull_at owner repo n pr"
  shows "numbered (s\<lparr>st_pulls := hm_put (owner, repo, n) pr (st_pulls s)\<rparr>)"
  using assms by (simp add: numbered_def hash.ok_put pulls_keyed_put pull_at_def)

lemma numbered_new_repository:
  assumes "numbered s" and "\<not> hm_has (st_repos s) (owner, name)"
  shows "numbered (s\<lparr>st_counters := hm_put (owner, name) cn (st_counters s),
                      st_repos := hm_put (owner, name) r (st_repos s)\<rparr>)"
proof -
  have counted: "numbers_counted (st_issues s) (st_repos s) (st_counters s)"
    using assms(1) by (simp add: numbered_def)
  have "numbers_counted (st_issues s) (hm_put (owner, name) r (st_repos s))
      (hm_put (owner, name) cn (st_counters s))"
    unfolding numbers_counted_def
  proof (intro allI impI)
    fix o' r' n
    assume "hm_has (st_issues s) (o', r', n)"
    from numbers_countedD [OF counted this] assms(2)
    show "hm_has (hm_put (owner, name) r (st_repos s)) (o', r') \<and>
        (\<exists>cna. hm_get (hm_put (owner, name) cn (st_counters s)) (o', r') = Some cna \<and>
           n \<le> max (cn_issue cna) (cn_pull cna))"
      by auto
  qed
  with assms(1) show ?thesis by (simp add: numbered_def)
qed

lemma numbered_dropped:
  assumes "numbered s"
  shows "numbered (drop_repository owner repo removed s)"
proof -
  have counted: "numbers_counted (st_issues s) (st_repos s) (st_counters s)"
    and keyed: "pulls_keyed (st_pulls s) (st_issues s)" and issues: "issues_keyed (st_issues s)"
    using assms by (simp_all add: numbered_def)
  let ?s = "drop_repository owner repo removed s"
  have maps: "st_issues ?s = snd (drain_scoped owner repo (st_issues s))"
    "st_pulls ?s = snd (drain_scoped owner repo (st_pulls s))"
    "st_repos ?s = hm_del (owner, repo) (st_repos s)"
    "st_counters ?s = hm_del (owner, repo) (st_counters s)"
    by (simp_all add: drop_repository_def Let_def remove_entry_def)
  have "numbers_counted (st_issues ?s) (st_repos ?s) (st_counters ?s)"
    unfolding numbers_counted_def
  proof (intro allI impI)
    fix o' r' n
    assume "hm_has (st_issues ?s) (o', r', n)"
    then have other: "(o', r') \<noteq> (owner, repo)" and "hm_has (st_issues s) (o', r', n)"
      by (auto simp: maps hm_has_def drained split: if_splits)
    with numbers_countedD [OF counted this(2)] show "hm_has (st_repos ?s) (o', r') \<and>
        (\<exists>cn. hm_get (st_counters ?s) (o', r') = Some cn \<and> n \<le> max (cn_issue cn) (cn_pull cn))"
      by (auto simp: maps)
  qed
  moreover have "issues_keyed (st_issues ?s)"
    unfolding issues_keyed_def
  proof (intro allI impI)
    fix key i
    assume "hm_get (st_issues ?s) key = Some i"
    then have "hm_get (st_issues s) key = Some i"
      by (cases key) (auto simp: maps drained split: if_splits)
    from issues_keyedD [OF issues this] show "key = (is_owner i, is_repo i, is_number i)" .
  qed
  moreover have "pulls_keyed (st_pulls ?s) (st_issues ?s)"
    unfolding pulls_keyed_def
  proof (intro allI impI)
    fix key pr
    assume "hm_get (st_pulls ?s) key = Some pr"
    moreover obtain o' r' n where key: "key = (o', r', n)" by (cases key) auto
    ultimately have other: "\<not> (o' = owner \<and> r' = repo)" and "hm_get (st_pulls s) key = Some pr"
      by (auto simp: maps drained split: if_splits)
    from pulls_keyedD [OF keyed this(2)] other
    show "key = (pr_owner pr, pr_repo pr, pr_number pr) \<and> pr_issue_number pr = pr_number pr \<and>
        hm_has (st_issues ?s) key"
      by (auto simp: maps hm_has_def drained key)
  qed
  moreover have "hm_ok (st_pulls ?s)"
    using assms by (simp add: numbered_def maps drain_scoped_ok)
  ultimately show ?thesis by (simp add: numbered_def)
qed

lemma rekey_maps_sel:
  "st_repos (rekey_maps old new r s) = hm_put new r (hm_del old (st_repos s))"
  "st_issues (rekey_maps old new r s) =
     rekey_triples (\<lambda>i. i\<lparr>is_owner := fst new, is_repo := snd new\<rparr>) old new (st_issues s)"
  "st_pulls (rekey_maps old new r s) = rekey_triples (move_pull old new) old new (st_pulls s)"
  "st_counters (rekey_maps old new r s) = rekey_pairs id old new (st_counters s)"
  "st_branch_protections (rekey_maps old new r s) =
     rekey_triples (\<lambda>x. x\<lparr>bp_owner := fst new, bp_repo := snd new\<rparr>) old new (st_branch_protections s)"
  "st_jankurai_scores (rekey_maps old new r s) =
     rekey_pairs (map (\<lambda>x. x\<lparr>js_owner := fst new, js_repo := snd new\<rparr>)) old new (st_jankurai_scores s)"
  "st_accounts (rekey_maps old new r s) = st_accounts s"
  "st_organizations (rekey_maps old new r s) = st_organizations s"
  "st_password_recoveries (rekey_maps old new r s) = st_password_recoveries s"
  "st_waitlist (rekey_maps old new r s) = st_waitlist s"
  by (simp_all add: rekey_maps_def case_prod_beta)

lemma rekey_has:
  assumes "old \<noteq> new"
  shows "hm_has (rekey_triples update old new m) (a, b, k) =
    (if (a, b) = old then False
     else if (a, b) = new then hm_has m (fst old, snd old, k) \<or> hm_has m (fst new, snd new, k)
     else hm_has m (a, b, k))"
  using rekey_triples_get [OF assms, of update m a b k] by (auto simp: hm_has_def)

lemma move_pull_sel [simp]:
  "pr_owner (move_pull old new pr) = fst new" "pr_repo (move_pull old new pr) = snd new"
  "pr_number (move_pull old new pr) = pr_number pr"
  "pr_issue_number (move_pull old new pr) = pr_issue_number pr"
  "pr_author (move_pull old new pr) = pr_author pr"
  by (simp_all add: move_pull_def Let_def)

text \<open>Re-keying a repository to a free slug keeps the numbering: nothing is filed under a free slug.\<close>

lemma numbered_rekeyed:
  assumes "numbered s" and "old \<noteq> new" and "\<not> hm_has (st_repos s) new" and "hm_has (st_repos s) old"
  shows "numbered (rekey_maps old new r s)"
proof -
  let ?s = "rekey_maps old new r s"
  obtain n1 n2 where new: "new = (n1, n2)" by (cases new)
  obtain o1 o2 where old: "old = (o1, o2)" by (cases old)
  have counted: "numbers_counted (st_issues s) (st_repos s) (st_counters s)"
    and keyed: "pulls_keyed (st_pulls s) (st_issues s)" and issues: "issues_keyed (st_issues s)"
    and ok: "hm_ok (st_pulls s)"
    using assms(1) by (simp_all add: numbered_def)
  have no_issue: "\<not> hm_has (st_issues s) (n1, n2, n)" for n
    using numbers_countedD [OF counted] assms(3) by (auto simp: new)
  then have no_pull: "hm_get (st_pulls s) (n1, n2, n) = None" for n
    using pulls_keyedD [OF keyed, of "(n1, n2, n)"] by (cases "hm_get (st_pulls s) (n1, n2, n)") auto
  have "numbers_counted (st_issues ?s) (st_repos ?s) (st_counters ?s)"
    unfolding numbers_counted_def
  proof (intro allI impI)
    fix a b n
    assume has: "hm_has (st_issues ?s) (a, b, n)"
    then have "hm_has (st_issues s) (if (a, b) = new then (o1, o2, n) else (a, b, n))"
      and ab: "(a, b) \<noteq> old"
      using has [unfolded rekey_maps_sel rekey_has [OF assms(2)]] no_issue
      by (auto simp: new old split: if_splits)
    then have "hm_has (st_repos s) (if (a, b) = new then old else (a, b)) \<and>
        (\<exists>cn. hm_get (st_counters s) (if (a, b) = new then old else (a, b)) = Some cn \<and>
           n \<le> max (cn_issue cn) (cn_pull cn))"
      using numbers_countedD [OF counted, of o1 o2 n] numbers_countedD [OF counted, of a b n]
      by (cases "(a, b) = new") (simp_all add: old)
    with ab assms(2)
    show "hm_has (st_repos ?s) (a, b) \<and>
        (\<exists>cn. hm_get (st_counters ?s) (a, b) = Some cn \<and> n \<le> max (cn_issue cn) (cn_pull cn))"
      by (cases "(a, b) = new") (auto simp: rekey_maps_sel rekey_pairs_get [OF assms(2)] hm_has_Some)
  qed
  moreover have "issues_keyed (st_issues ?s)"
    unfolding issues_keyed_def
  proof (intro allI impI)
    fix key i
    assume got: "hm_get (st_issues ?s) key = Some i"
    obtain a b n where key: "key = (a, b, n)" by (cases key)
    have "(\<exists>j. i = j\<lparr>is_owner := n1, is_repo := n2\<rparr> \<and> hm_get (st_issues s) (o1, o2, n) = Some j \<and> (a, b) = new) \<or>
        hm_get (st_issues s) (a, b, n) = Some i"
      using got [unfolded key rekey_maps_sel rekey_triples_get [OF assms(2)]]
      by (auto simp: new old split: if_splits)
    then show "key = (is_owner i, is_repo i, is_number i)"
      using issues_keyedD [OF issues, of "(o1, o2, n)"] issues_keyedD [OF issues, of key]
      by (auto simp: key new)
  qed
  moreover have "pulls_keyed (st_pulls ?s) (st_issues ?s)"
    unfolding pulls_keyed_def
  proof (intro allI impI)
    fix key pr
    assume got: "hm_get (st_pulls ?s) key = Some pr"
    obtain a b n where key: "key = (a, b, n)" by (cases key)
    have row: "(a, b) \<noteq> old"
      and moved: "(a, b) = new \<Longrightarrow> \<exists>q. pr = move_pull old new q \<and> hm_get (st_pulls s) (o1, o2, n) = Some q"
      and other: "(a, b) \<noteq> new \<Longrightarrow> hm_get (st_pulls s) (a, b, n) = Some pr"
      using got [unfolded key rekey_maps_sel rekey_triples_get [OF assms(2)]] no_pull
      by (auto simp: new old split: if_splits)
    show "key = (pr_owner pr, pr_repo pr, pr_number pr) \<and> pr_issue_number pr = pr_number pr \<and>
        hm_has (st_issues ?s) key"
    proof (cases "(a, b) = new")
      case True
      then obtain q where q: "pr = move_pull old new q" "hm_get (st_pulls s) (o1, o2, n) = Some q"
        using moved by blast
      from True row pulls_keyedD [OF keyed q(2)] show ?thesis
        by (simp add: key q(1) rekey_maps_sel rekey_has [OF assms(2)]) (auto simp: new old)
    next
      case False
      with row pulls_keyedD [OF keyed other [OF False]] show ?thesis
        by (simp add: key rekey_maps_sel rekey_has [OF assms(2)]) auto
    qed
  qed
  ultimately show ?thesis using ok by (simp add: numbered_def rekey_maps_sel rekey_triples_ok)
qed

lemma numbered_write: "store_write s s' \<Longrightarrow> numbered s \<Longrightarrow> numbered s'"
proof (induction rule: store_write.induct)
  case (beside s' s)
  then show ?case using numbered_beside [OF beside(1)] by blast
next
  case (issue_edited s key i j)
  show ?case by (rule numbered_issue_edited [OF issue_edited(3,1,2)])
next
  case (pull_edited s key pr q)
  show ?case by (rule numbered_pull_edited [OF pull_edited(3,1,2)])
next
  case (issue_opened owner repo s n s1 i)
  show ?case by (rule numbered_issue_opened [OF issue_opened(5,1-4)])
next
  case (pull_opened owner repo s n s1 i pr)
  have "numbered (s1\<lparr>st_issues := hm_put (owner, repo, n) i (st_issues s1)\<rparr>)"
    by (rule numbered_issue_opened [OF pull_opened.prems pull_opened.hyps(1-4)])
  from numbered_new_pull [OF this _ pull_opened.hyps(5)] show ?case by simp
next
  case (repository_edited s owner repo r r' rules)
  then show ?case by (auto simp: numbered_def numbers_counted_def)
next
  case (repository_created s owner repo r rules cn)
  from numbered_new_repository [OF repository_created.prems repository_created.hyps(1), of r cn]
  show ?case by (simp add: numbered_def)
qed (simp_all add: numbered_def put_account_def put_organization_def)

section \<open>Protected default branches\<close>

definition protected_defaults :: "state \<Rightarrow> bool" where
  "protected_defaults s =
     (\<forall>owner repo r. hm_get (st_repos s) (owner, repo) = Some r \<longrightarrow>
        rp_owner r = owner \<and> rp_name r = repo \<and> row_protected (st_branch_protections s) r)"

lemma protected_defaultsD:
  "protected_defaults s \<Longrightarrow> hm_get (st_repos s) (owner, repo) = Some r \<Longrightarrow>
     rp_owner r = owner \<and> rp_name r = repo \<and> row_protected (st_branch_protections s) r"
  unfolding protected_defaults_def by blast

lemma protected_defaults_default: "protected_defaults default_state"
  by (simp add: protected_defaults_def default_state_def)

lemma rules_kept_protects:
  assumes "rules_kept repos rules rules'" and "hm_get repos (rp_owner r, rp_name r) = Some r"
    and "row_protected rules r"
  shows "row_protected rules' r"
  using assms unfolding rules_kept_def row_protected_def by blast

lemma protected_write: "store_write s s' \<Longrightarrow> protected_defaults s \<Longrightarrow> protected_defaults s'"
proof (induction rule: store_write.induct)
  case (beside s' s)
  then show ?case by (simp add: protected_defaults_def write_view_def)
next
  case (issue_opened owner repo s n s1 i)
  then show ?case
    by (auto simp: protected_defaults_def next_record_number_def Let_def)
next
  case (pull_opened owner repo s n s1 i pr)
  then show ?case
    by (auto simp: protected_defaults_def next_record_number_def Let_def)
next
  case (rules_changed s rules)
  then show ?case
    unfolding protected_defaults_def
    by (simp) (metis rules_kept_protects)
next
  case (repository_edited s owner repo r r' rules)
  have other: "rp_owner q = o' \<and> rp_name q = n' \<and> row_protected rules q"
    if "hm_get (st_repos s) (o', n') = Some q" and "(o', n') \<noteq> (owner, repo)" for o' n' q
    using protected_defaultsD [OF repository_edited.prems that(1)] that repository_edited.hyps(5)
    by (auto intro!: rules_kept_protects [of "hm_del (owner, repo) (st_repos s)" "st_branch_protections s"])
  show ?case
    using protected_defaultsD [OF repository_edited.prems repository_edited.hyps(1)]
      repository_edited.hyps other
    by (auto simp: protected_defaults_def)
next
  case (repository_created s owner repo r rules cn)
  have other: "rp_owner q = o' \<and> rp_name q = n' \<and> row_protected rules q"
    if "hm_get (st_repos s) (o', n') = Some q" for o' n' q
    using protected_defaultsD [OF repository_created.prems that] that repository_created.hyps(4)
    by (auto intro: rules_kept_protects)
  with repository_created.hyps show ?case by (auto simp: protected_defaults_def)
qed (simp_all add: protected_defaults_def put_account_def put_organization_def)

lemma protected_dropped:
  assumes "protected_defaults s"
  shows "protected_defaults (drop_repository owner repo removed s)"
proof -
  have maps: "st_repos (drop_repository owner repo removed s) = hm_del (owner, repo) (st_repos s)"
    "st_branch_protections (drop_repository owner repo removed s) =
       snd (drain_scoped owner repo (st_branch_protections s))"
    by (simp_all add: drop_repository_def Let_def)
  show ?thesis
    using protected_defaultsD [OF assms]
    by (fastforce simp: protected_defaults_def maps row_protected_def hm_has_def drained split: if_splits)
qed

lemma protected_rekeyed:
  assumes "protected_defaults s" and "old \<noteq> new" and "hm_get (st_repos s) old = Some current"
    and row: "rp_owner r = fst new" "rp_name r = snd new"
      "rp_default_branch r = rp_default_branch current"
      "rp_default_branch_protection_opt_out r = rp_default_branch_protection_opt_out current"
  shows "protected_defaults (rekey_maps old new r s)"
  unfolding protected_defaults_def
proof (intro allI impI)
  fix owner repo q
  assume got: "hm_get (st_repos (rekey_maps old new r s)) (owner, repo) = Some q"
  obtain n1 n2 where new: "new = (n1, n2)" by (cases new)
  obtain o1 o2 where old: "old = (o1, o2)" by (cases old)
  have current: "rp_owner current = o1" "rp_name current = o2" "row_protected (st_branch_protections s) current"
    using protected_defaultsD [OF assms(1), of o1 o2 current] assms(3) by (simp_all add: old)
  have "hm_has (st_branch_protections (rekey_maps old new r s)) (n1, n2, b)"
    if "hm_has (st_branch_protections s) (o1, o2, b)" for b
    using that assms(2) by (simp add: rekey_maps_sel rekey_has [OF assms(2)]) (simp add: old new)
  with current row have protected: "row_protected (st_branch_protections (rekey_maps old new r s)) r"
    by (auto simp: row_protected_def new)
  show "rp_owner q = owner \<and> rp_name q = repo \<and>
      row_protected (st_branch_protections (rekey_maps old new r s)) q"
  proof (cases "(owner, repo) = new")
    case True
    with got have "q = r" by (simp add: rekey_maps_sel new)
    with True row protected show ?thesis by (auto simp: new)
  next
    case False
    with got have "(owner, repo) \<noteq> old" "hm_get (st_repos s) (owner, repo) = Some q"
      by (auto simp: rekey_maps_sel new split: if_splits)
    with False protected_defaultsD [OF assms(1) this(2)] show ?thesis
      by (auto simp: row_protected_def rekey_maps_sel rekey_has [OF assms(2)])
  qed
qed

section \<open>What is never lost\<close>

text \<open>Every row of \<open>m\<close> is still there, changed at most as \<open>R\<close> allows.\<close>

definition grows :: "('v \<Rightarrow> 'v \<Rightarrow> bool) \<Rightarrow> ('k, 'v) hmap \<Rightarrow> ('k, 'v) hmap \<Rightarrow> bool" where
  "grows R m m' = (\<forall>k v. hm_get m k = Some v \<longrightarrow> (\<exists>v'. hm_get m' k = Some v' \<and> R v v'))"

lemma growsD: "grows R m m' \<Longrightarrow> hm_get m k = Some v \<Longrightarrow> \<exists>v'. hm_get m' k = Some v' \<and> R v v'"
  by (simp add: grows_def)

lemma grows_refl: "(\<And>v. R v v) \<Longrightarrow> grows R m m"
  by (simp add: grows_def)

lemma grows_trans:
  assumes "\<And>a b c. R a b \<Longrightarrow> R b c \<Longrightarrow> R a c" and "grows R m1 m2" and "grows R m2 m3"
  shows "grows R m1 m3"
  unfolding grows_def
proof (intro allI impI)
  fix k v
  assume "hm_get m1 k = Some v"
  with assms(2) obtain w where "hm_get m2 k = Some w" "R v w" by (blast dest: growsD)
  with assms(1,3) show "\<exists>v'. hm_get m3 k = Some v' \<and> R v v'" by (blast dest: growsD)
qed

lemma grows_put:
  "(\<And>v. R v v) \<Longrightarrow> (\<And>v. hm_get m k = Some v \<Longrightarrow> R v w) \<Longrightarrow> grows R m (hm_put k w m)"
  by (simp add: grows_def)

lemma grows_append:
  "(\<And>v. R v v) \<Longrightarrow> (\<And>v. R v (v @ new)) \<Longrightarrow> grows R m (hm_append k new m)"
  by (auto simp: grows_def hm_append_def hm_list_def)

definition same_repository :: "repository \<Rightarrow> repository \<Rightarrow> bool" where
  "same_repository r r' = (rp_id r' = rp_id r \<and> rp_owner r' = rp_owner r \<and> rp_name r' = rp_name r)"

definition extends :: "state \<Rightarrow> state \<Rightarrow> bool" where
  "extends s s' =
     (grows same_pull (st_pulls s) (st_pulls s') \<and> grows same_issue (st_issues s) (st_issues s') \<and>
      grows prefix (st_reviews s) (st_reviews s') \<and> grows same_repository (st_repos s) (st_repos s'))"

lemma same_refl [simp]: "same_pull pr pr" "same_issue i i" "same_repository r r"
  by (simp_all add: same_pull_def same_issue_def same_repository_def)

lemma same_trans:
  "same_pull a b \<Longrightarrow> same_pull b c \<Longrightarrow> same_pull a c"
  "same_issue i j \<Longrightarrow> same_issue j k \<Longrightarrow> same_issue i k"
  "same_repository q r \<Longrightarrow> same_repository r t \<Longrightarrow> same_repository q t"
  by (auto simp: same_pull_def same_issue_def same_repository_def)

lemma extends_refl [simp]: "extends s s"
  by (simp add: extends_def grows_refl)

lemma extends_trans: "extends a b \<Longrightarrow> extends b c \<Longrightarrow> extends a c"
  unfolding extends_def
  by (auto elim!: grows_trans [rotated] intro: same_trans prefix_order.trans)

lemmas extends_intros = grows_refl grows_put grows_append

lemma numbered_free_issue:
  assumes "numbered s" and "record_room owner repo s" and "next_record_number owner repo s = (n, s1)"
  shows "hm_get (st_issues s) (owner, repo, n) = None" and "hm_get (st_pulls s) (owner, repo, n) = None"
  using next_record_number_free [OF assms] by (simp_all add: hm_has_def)

lemma extends_write: "store_write s s' \<Longrightarrow> numbered s \<Longrightarrow> extends s s'"
proof (induction rule: store_write.induct)
  case (beside s' s)
  then show ?case by (simp add: extends_def write_view_def grows_refl)
next
  case (issue_opened owner repo s n s1 i)
  have "st_pulls s1 = st_pulls s" "st_issues s1 = st_issues s" "st_reviews s1 = st_reviews s"
    "st_repos s1 = st_repos s"
    using issue_opened.hyps(3) by (auto simp: next_record_number_def Let_def)
  then show ?case
    using numbered_free_issue [OF issue_opened.prems issue_opened.hyps(1,3)]
    by (auto simp: extends_def intro!: extends_intros)
next
  case (pull_opened owner repo s n s1 i pr)
  have "st_pulls s1 = st_pulls s" "st_issues s1 = st_issues s" "st_reviews s1 = st_reviews s"
    "st_repos s1 = st_repos s"
    using pull_opened.hyps(3) by (auto simp: next_record_number_def Let_def)
  then show ?case
    using numbered_free_issue [OF pull_opened.prems pull_opened.hyps(1,3)]
    by (auto simp: extends_def intro!: extends_intros)
next
  case (repository_created s owner repo r rules cn)
  then show ?case by (auto simp: extends_def hm_has_def intro!: extends_intros)
qed (auto simp: extends_def same_repository_def put_account_def put_organization_def intro!: extends_intros)

text \<open>
  Accounts and organizations are never removed, not by deletions and re-keyings either: an account
  keeps its login and its epoch never goes back, an organization keeps its id.
\<close>

definition same_account :: "user_account \<Rightarrow> user_account \<Rightarrow> bool" where
  "same_account a b = (ua_canonical_login b = ua_canonical_login a \<and> ua_auth_epoch a \<le> ua_auth_epoch b)"

definition same_organization :: "organization \<Rightarrow> organization \<Rightarrow> bool" where
  "same_organization a b = (og_id b = og_id a \<and> (og_owners a \<noteq> [] \<longrightarrow> og_owners b \<noteq> []))"

definition people_kept :: "state \<Rightarrow> state \<Rightarrow> bool" where
  "people_kept s s' =
     (grows same_account (st_accounts s) (st_accounts s') \<and>
      grows same_organization (st_organizations s) (st_organizations s'))"

lemma same_people_refl [simp]: "same_account a a" "same_organization g g"
  by (simp_all add: same_account_def same_organization_def)

lemma same_people_trans:
  "same_account a b \<Longrightarrow> same_account b c \<Longrightarrow> same_account a c"
  "same_organization f g \<Longrightarrow> same_organization g h \<Longrightarrow> same_organization f h"
  by (auto simp: same_account_def same_organization_def)

lemma people_kept_same:
  "st_accounts s' = st_accounts s \<Longrightarrow> st_organizations s' = st_organizations s \<Longrightarrow> people_kept s s'"
  by (simp add: people_kept_def grows_refl)

lemma people_kept_trans: "people_kept a b \<Longrightarrow> people_kept b c \<Longrightarrow> people_kept a c"
  unfolding people_kept_def by (auto elim!: grows_trans [rotated] intro: same_people_trans)

section \<open>The directory\<close>

text \<open>
  What holds of the rows that belong to no repository: every account and organization is filed under
  its own login, an organization's owner list is sorted, without repetition, bounded and not empty once
  it was created with owners; the recovery secrets and the waitlist are well formed.
\<close>

definition directory_ok :: "state \<Rightarrow> bool" where
  "directory_ok s =
     ((\<forall>login a. hm_get (st_accounts s) login = Some a \<longrightarrow> ua_canonical_login a = login) \<and>
      (\<forall>org g. hm_get (st_organizations s) org = Some g \<longrightarrow> organization_ok org g) \<and>
      recoveries_ok (st_password_recoveries s) \<and> waitlist_ok (st_waitlist s))"

lemma directory_ok_default: "directory_ok default_state"
  by (simp add: directory_ok_def default_state_def)

lemma directory_ok_beside:
  "st_accounts s' = st_accounts s \<Longrightarrow> st_organizations s' = st_organizations s \<Longrightarrow>
     st_password_recoveries s' = st_password_recoveries s \<Longrightarrow> st_waitlist s' = st_waitlist s \<Longrightarrow>
     directory_ok s' = directory_ok s"
  by (simp add: directory_ok_def)

lemma next_number_sel:
  assumes "next_record_number owner repo s = (n, s')"
  shows "st_accounts s' = st_accounts s" "st_organizations s' = st_organizations s"
    "st_password_recoveries s' = st_password_recoveries s" "st_waitlist s' = st_waitlist s"
    "st_jankurai_scores s' = st_jankurai_scores s"
  using assms by (auto simp: next_record_number_def Let_def)

lemma directory_write: "store_write s s' \<Longrightarrow> directory_ok s \<Longrightarrow> directory_ok s'"
proof (induction rule: store_write.induct)
  case (beside s' s)
  then show ?case by (simp add: directory_ok_def write_view_def)
next
  case (account_written login s account)
  then show ?case
    by (auto simp: directory_ok_def put_account_def account_step_def split: option.splits)
next
  case (organization_written org s organization)
  then show ?case
    by (auto simp: directory_ok_def put_organization_def organization_step_def split: option.splits)
next
  case (recoveries_changed s recoveries)
  then show ?case by (simp add: directory_ok_def)
next
  case (waitlist_changed s entries)
  then show ?case by (simp add: directory_ok_def)
qed (simp_all add: directory_ok_def next_number_sel)

lemma people_write: "store_write s s' \<Longrightarrow> directory_ok s \<Longrightarrow> people_kept s s'"
proof (induction rule: store_write.induct)
  case (beside s' s)
  then show ?case by (intro people_kept_same) (simp_all add: write_view_def)
next
  case (account_written login s account)
  then show ?case
    by (auto simp: people_kept_def put_account_def account_step_def same_account_def
        intro!: grows_put grows_refl)
next
  case (organization_written org s organization)
  then show ?case
    by (auto simp: people_kept_def put_organization_def organization_step_def same_organization_def
        directory_ok_def intro!: grows_put grows_refl)
qed (simp_all add: people_kept_same next_number_sel)

section \<open>Audit scores\<close>

lemma scores_write:
  "store_write s s' \<Longrightarrow> scores_bounded (st_jankurai_scores s) \<Longrightarrow> scores_bounded (st_jankurai_scores s')"
  by (induction rule: store_write.induct)
    (simp_all add: write_view_def next_number_sel scores_bounded_put put_account_def put_organization_def)

lemma scores_bounded_dropped:
  assumes "scores_bounded (st_jankurai_scores s)"
  shows "scores_bounded (st_jankurai_scores (drop_repository owner repo removed s))"
proof -
  have "hm_list (st_jankurai_scores (drop_repository owner repo removed s)) key =
      (if key = (owner, repo) then [] else hm_list (st_jankurai_scores s) key)" for key
    by (simp add: drop_repository_def Let_def hm_list_def remove_bucket_def)
  with assms show ?thesis by (simp add: scores_bounded_def branch_count_def)
qed

lemma scores_bounded_rekeyed:
  assumes "scores_bounded (st_jankurai_scores s)" and "old \<noteq> new"
  shows "scores_bounded (st_jankurai_scores (rekey_maps old new r s))"
proof -
  let ?f = "\<lambda>x. x\<lparr>js_owner := fst new, js_repo := snd new\<rparr>"
  have same: "branch_count branch (map ?f rows) = branch_count branch rows" for branch rows
    by (simp add: branch_count_def filter_map comp_def)
  have "hm_list (st_jankurai_scores (rekey_maps old new r s)) key =
      (if key = old then []
       else if key = new \<and> hm_has (st_jankurai_scores s) old then map ?f (hm_list (st_jankurai_scores s) old)
       else hm_list (st_jankurai_scores s) key)" for key
    by (auto simp: rekey_maps_sel hm_list_def rekey_pairs_get [OF assms(2)] hm_has_def)
  moreover have "branch_count branch (hm_list (st_jankurai_scores s) key) \<le> MAX_SCORES_PER_BRANCH" for branch key
    using assms(1) unfolding scores_bounded_def by blast
  ultimately have "branch_count branch (hm_list (st_jankurai_scores (rekey_maps old new r s)) key) \<le>
      MAX_SCORES_PER_BRANCH" for branch key
    using same [of branch "hm_list (st_jankurai_scores s) old"] by (simp add: branch_count_def)
  then show ?thesis unfolding scores_bounded_def by blast
qed

section \<open>All of them\<close>

definition store_ok :: "state \<Rightarrow> bool" where
  "store_ok s =
     (numbered s \<and> protected_defaults s \<and> directory_ok s \<and> scores_bounded (st_jankurai_scores s))"

lemma store_ok_default: "store_ok default_state"
  by (simp add: store_ok_def numbered_default protected_defaults_default directory_ok_default)
    (simp add: default_state_def)

lemma writes_invariants:
  assumes "writes s s'" and "store_ok s"
  shows "store_ok s' \<and> extends s s' \<and> people_kept s s'"
  using assms
proof (induction rule: rtranclp_induct)
  case base
  then show ?case by (simp add: people_kept_same)
next
  case (step s1 s2)
  then have ok: "store_ok s1" by simp
  with step.hyps(2) have "store_ok s2"
    by (auto simp: store_ok_def intro: numbered_write protected_write directory_write scores_write)
  moreover have "extends s1 s2" "people_kept s1 s2"
    using ok step.hyps(2) by (auto simp: store_ok_def intro: extends_write people_write)
  ultimately show ?case using step extends_trans people_kept_trans by blast
qed

text \<open>Re-keying and deleting a repository.\<close>

lemma store_ok_dropped:
  "store_ok s \<Longrightarrow> store_ok (drop_repository owner repo removed s)"
  using directory_ok_beside [of "drop_repository owner repo removed s" s]
  by (simp add: store_ok_def numbered_dropped protected_dropped scores_bounded_dropped)
    (simp add: drop_repository_def Let_def)

definition row_moved :: "repository \<Rightarrow> slug \<Rightarrow> repository \<Rightarrow> bool" where
  "row_moved current new r =
     (rp_owner r = fst new \<and> rp_name r = snd new \<and> rp_default_branch r = rp_default_branch current \<and>
      rp_default_branch_protection_opt_out r = rp_default_branch_protection_opt_out current)"

lemma store_ok_rekeyed:
  assumes "store_ok s" and "hm_get (st_repos s) old = Some current" and "\<not> hm_has (st_repos s) new"
    and "row_moved current new r"
  shows "store_ok (rekey_maps old new r s)"
proof -
  have "old \<noteq> new" using assms(2,3) by (auto simp: hm_has_def)
  moreover have "directory_ok (rekey_maps old new r s) = directory_ok s"
    by (rule directory_ok_beside) (simp_all add: rekey_maps_sel)
  ultimately show ?thesis
    using assms by (auto simp: store_ok_def row_moved_def hm_has_Some
        intro: numbered_rekeyed protected_rekeyed scores_bounded_rekeyed)
qed

lemma store_ok_view: "write_view s' = write_view s \<Longrightarrow> store_ok s' = store_ok s"
  unfolding write_view_def store_ok_def numbered_def protected_defaults_def directory_ok_def prod.inject
  by (elim conjE) simp

end
