(* ===== verification/Vault.thy ===== *)
theory Vault
  imports Secrets
begin

text \<open>
  Envelope encryption of provider secrets (\<^verbatim>\<open>engine/vault.rs\<close>). AES-256-GCM, SHA-256 and
  \<^verbatim>\<open>hex\<close> come from libraries and are parameters, in \<open>cipher\<close> and \<^typ>\<open>env\<close>; the envelope, the
  associated data a sealed value is bound to, and the custody of the key file are the source's own.
  Bytes are numbers below 256.
\<close>

type_synonym bytes = "nat list"

text \<open>
  \<open>ci_seal key nonce aad plaintext\<close> is \<^verbatim>\<open>seal_in_place_append_tag\<close>, \<open>ci_open\<close> is \<^verbatim>\<open>open_in_place\<close>,
  \<open>ci_unhex\<close> is \<^verbatim>\<open>hex::decode\<close> and \<open>ci_digest\<close> is \<^verbatim>\<open>Sha256::digest\<close>. A key that is not 32 bytes long is
  refused by \<^verbatim>\<open>UnboundKey::new\<close>.
\<close>

record cipher =
  ci_seal :: "bytes \<Rightarrow> bytes \<Rightarrow> bytes \<Rightarrow> bytes \<Rightarrow> bytes option"
  ci_open :: "bytes \<Rightarrow> bytes \<Rightarrow> bytes \<Rightarrow> bytes \<Rightarrow> bytes option"
  ci_unhex :: "string \<Rightarrow> bytes option"
  ci_digest :: "bytes \<Rightarrow> bytes"

definition bytes_of :: "string \<Rightarrow> bytes" where
  "bytes_of s = map of_char s"

definition AAD_DOMAIN :: bytes where
  "AAD_DOMAIN = bytes_of ''jeryu.vault.provider-secret.v1'' @ [0]"

definition KEY_BYTES :: nat where
  "KEY_BYTES = 32"

definition NONCE_LEN :: nat where
  "NONCE_LEN = 12"

record vault_key =
  vk_id :: string
  vk_key :: bytes

record seal_binding =
  sb_connection_id :: string
  sb_owner_id :: string
  sb_provider :: string
  sb_generation :: u64
  sb_secret_version :: u64
  sb_credential_kind :: string

section \<open>The key\<close>

definition vault_failure :: forge_error where
  "vault_failure = Storage ''vault_crypto_failed: the vault could not seal or open a secret''"

definition key_from :: "bytes \<Rightarrow> forge_error + bytes" where
  "key_from key = (if length key = KEY_BYTES then Inr key else Inl vault_failure)"

definition from_bytes :: "env \<Rightarrow> cipher \<Rightarrow> bytes \<Rightarrow> forge_error + vault_key" where
  "from_bytes ev ci raw =
     (if length raw \<noteq> KEY_BYTES
      then Inl (Validation ''vault_key_invalid: the vault key must be exactly 32 bytes'')
      else try_res (key_from raw) (\<lambda>key.
        Inr \<lparr>vk_id = ''vk-'' @ take 16 (env_hex ev (ci_digest ci raw)), vk_key = key\<rparr>))"

text \<open>What opening the key file found: a regular file or not, its owner, its mode and its bytes.\<close>

record key_file =
  kf_regular :: bool
  kf_uid :: nat
  kf_mode :: nat
  kf_bytes :: bytes

definition ascii_space :: "nat \<Rightarrow> bool" where
  "ascii_space b = (b \<in> {9, 10, 12, 13, 32})"

text \<open>\<^verbatim>\<open>trim_ascii\<close>.\<close>

definition trim_ascii :: "bytes \<Rightarrow> bytes" where
  "trim_ascii raw = rev (dropWhile ascii_space (rev (dropWhile ascii_space raw)))"

definition from_file :: "env \<Rightarrow> cipher \<Rightarrow> nat \<Rightarrow> key_file option \<Rightarrow> forge_error + vault_key" where
  "from_file ev ci euid opened =
     (case opened of
        None \<Rightarrow> Inl (Validation ''vault_key_unavailable: the vault key file is missing or unreadable'')
      | Some f \<Rightarrow>
          if \<not> kf_regular f \<or> kf_uid f \<noteq> euid \<or> kf_mode f mod 64 \<noteq> 0
          then Inl (Validation (''vault_key_custody_denied: the vault key file must be a private ''
                 @ ''regular file owned by this service''))
          else
            let raw = take 256 (kf_bytes f); trimmed = trim_ascii raw
            in if length trimmed = KEY_BYTES * 2
               then (case ci_unhex ci (map char_of trimmed) of
                       None \<Rightarrow> Inl (Validation (''vault_key_invalid: the vault key file is neither 64 ''
                                 @ ''hex characters nor 32 raw bytes''))
                     | Some decoded \<Rightarrow> from_bytes ev ci decoded)
               else from_bytes ev ci raw)"

section \<open>Sealing and opening\<close>

text \<open>\<^verbatim>\<open>to_be_bytes\<close> of a 64-bit number.\<close>

definition be_bytes :: "u64 \<Rightarrow> bytes" where
  "be_bytes n = map (\<lambda>i. (n div 256 ^ (7 - i)) mod 256) [0..<8]"

definition aad :: "seal_binding \<Rightarrow> bytes" where
  "aad b =
     AAD_DOMAIN
       @ concat (map (\<lambda>part. bytes_of part @ [0])
           [sb_connection_id b, sb_owner_id b, sb_provider b, sb_credential_kind b])
       @ be_bytes (sb_generation b) @ be_bytes (sb_secret_version b)"

text \<open>\<open>n\<close> is the index of the read of the system's generator that makes the nonce.\<close>

definition encrypt :: "env \<Rightarrow> cipher \<Rightarrow> nat \<Rightarrow> bytes \<Rightarrow> bytes \<Rightarrow> bytes \<Rightarrow> forge_error + (bytes \<times> bytes)" where
  "encrypt ev ci n key ad plaintext =
     (case env_random ev n NONCE_LEN of
        Inl _ \<Rightarrow> Inl vault_failure
      | Inr nonce \<Rightarrow>
          (case ci_seal ci key nonce ad plaintext of
             None \<Rightarrow> Inl vault_failure
           | Some sealed \<Rightarrow> Inr (nonce, sealed)))"

definition tampered :: forge_error where
  "tampered = Validation ''vault_secret_unreadable: the sealed secret failed authentication''"

definition decrypt :: "cipher \<Rightarrow> bytes \<Rightarrow> bytes \<Rightarrow> string \<Rightarrow> string \<Rightarrow> forge_error + bytes" where
  "decrypt ci key ad nonce_hex sealed_hex =
     (case ci_unhex ci nonce_hex of
        None \<Rightarrow> Inl tampered
      | Some nonce \<Rightarrow>
          if length nonce \<noteq> NONCE_LEN then Inl tampered
          else (case ci_unhex ci sealed_hex of
                  None \<Rightarrow> Inl tampered
                | Some sealed \<Rightarrow> ok_or (ci_open ci key nonce ad sealed) tampered))"

definition vault_seal ::
  "env \<Rightarrow> cipher \<Rightarrow> nat \<Rightarrow> vault_key \<Rightarrow> seal_binding \<Rightarrow> bytes \<Rightarrow> forge_error + sealed_secret" where
  "vault_seal ev ci n vault binding secret =
     (case env_random ev n KEY_BYTES of
        Inl _ \<Rightarrow> Inl vault_failure
      | Inr data_key \<Rightarrow>
          try_res (key_from data_key) (\<lambda>key.
          try_res (encrypt ev ci (n + 1) key (aad binding) secret) (\<lambda>(nonce, ciphertext).
          try_res (encrypt ev ci (n + 2) (vk_key vault) (aad binding) data_key) (\<lambda>(key_nonce, wrapped_key).
          Inr \<lparr>sl_key_id = vk_id vault, sl_key_nonce = env_hex ev key_nonce,
               sl_wrapped_key = env_hex ev wrapped_key, sl_nonce = env_hex ev nonce,
               sl_ciphertext = env_hex ev ciphertext\<rparr>))))"

definition vault_open :: "cipher \<Rightarrow> vault_key \<Rightarrow> seal_binding \<Rightarrow> sealed_secret \<Rightarrow> forge_error + bytes" where
  "vault_open ci vault binding sealed =
     (if sl_key_id sealed \<noteq> vk_id vault
      then Inl (Validation ''vault_key_mismatch: the secret was sealed under a different vault key'')
      else try_res (decrypt ci (vk_key vault) (aad binding) (sl_key_nonce sealed) (sl_wrapped_key sealed))
        (\<lambda>data_key. try_res (key_from data_key) (\<lambda>key.
           decrypt ci key (aad binding) (sl_nonce sealed) (sl_ciphertext sealed))))"

section \<open>What the associated data binds\<close>

lemma length_be_bytes [simp]: "length (be_bytes n) = 8"
  by (simp add: be_bytes_def)

text \<open>The big-endian bytes determine the number.\<close>

lemma low_digits:
  "(\<And>i. i < k \<Longrightarrow> n div 256 ^ i mod 256 = m div 256 ^ i mod 256) \<Longrightarrow> n mod 256 ^ k = m mod 256 ^ k"
  for n m :: nat
proof (induction k)
  case (Suc k)
  have "x mod 256 ^ Suc k = 256 ^ k * (x div 256 ^ k mod 256) + x mod 256 ^ k" for x :: nat
    by (simp only: power_Suc2 mod_mult2_eq)
  with Suc show ?case by simp
qed simp

lemma be_bytes_inject:
  assumes "n < 2 ^ 64" and "m < 2 ^ 64"
  shows "be_bytes n = be_bytes m \<longleftrightarrow> n = m"
proof
  assume same: "be_bytes n = be_bytes m"
  have "n div 256 ^ i mod 256 = m div 256 ^ i mod 256" if "i < 8" for i
  proof -
    have "be_bytes x ! (7 - i) = x div 256 ^ i mod 256" for x
      using that nth_upt [of 0 "7 - i" 8] by (simp add: be_bytes_def del: upt.simps)
    with same show ?thesis by metis
  qed
  then have "n mod 256 ^ 8 = m mod 256 ^ 8" by (rule low_digits)
  with assms show "n = m" by simp
qed simp

lemma bytes_of_inject [simp]: "bytes_of s = bytes_of t \<longleftrightarrow> s = t"
  by (auto simp: bytes_of_def inj_map_eq_map inj_def)

lemma zero_bytes_of [simp]: "0 \<in> set (bytes_of s) \<longleftrightarrow> CHR 0x00 \<in> set s"
proof -
  have "of_char c = (0::nat) \<longleftrightarrow> c = CHR 0x00" for c
    using of_char_eq_iff [of c "CHR 0x00", where ?'a = nat] by simp
  then show ?thesis by (auto simp: bytes_of_def image_iff)
qed

lemma terminated_inject:
  "0 \<notin> set a \<Longrightarrow> 0 \<notin> set b \<Longrightarrow> a @ 0 # x = b @ 0 # y \<longleftrightarrow> a = b \<and> x = y" for a b :: bytes
proof (induction a arbitrary: b)
  case Nil
  then show ?case by (cases b) auto
next
  case (Cons c a)
  then show ?case by (cases b) auto
qed

text \<open>What every row the code seals has: no NUL in a field, and counters of 64 bits.\<close>

definition binding_ok :: "seal_binding \<Rightarrow> bool" where
  "binding_ok b =
     (CHR 0x00 \<notin> set (sb_connection_id b) \<union> set (sb_owner_id b) \<union> set (sb_provider b) \<union>
        set (sb_credential_kind b) \<and>
      sb_generation b < 2 ^ 64 \<and> sb_secret_version b < 2 ^ 64)"

lemma aad_inject:
  assumes "binding_ok b" and "binding_ok b'"
  shows "aad b = aad b' \<longleftrightarrow> b = b'"
proof
  assume same: "aad b = aad b'"
  from same have "be_bytes (sb_generation b) = be_bytes (sb_generation b') \<and>
      be_bytes (sb_secret_version b) = be_bytes (sb_secret_version b') \<and>
      sb_connection_id b = sb_connection_id b' \<and> sb_owner_id b = sb_owner_id b' \<and>
      sb_provider b = sb_provider b' \<and> sb_credential_kind b = sb_credential_kind b'"
    using assms by (simp add: aad_def terminated_inject binding_ok_def)
  then show "b = b'" using assms by (simp add: be_bytes_inject binding_ok_def)
qed simp

section \<open>A sealed secret opens only where it was sealed\<close>

text \<open>
  The documented behaviour of the libraries: the generator fills its buffer with bytes, the
  cipher turns bytes into bytes, decryption inverts encryption and rejects any other associated
  data, and decoding inverts encoding.
\<close>

definition is_bytes :: "bytes \<Rightarrow> bool" where
  "is_bytes bs = (\<forall>b \<in> set bs. b < 256)"

lemma aad_bytes: "is_bytes (aad b)"
proof -
  have "is_bytes (bytes_of s)" for s by (simp add: is_bytes_def bytes_of_def)
  moreover have "is_bytes (be_bytes n)" for n by (auto simp: is_bytes_def be_bytes_def)
  ultimately show ?thesis by (auto simp: aad_def AAD_DOMAIN_def is_bytes_def)
qed

definition lawful_cipher :: "env \<Rightarrow> cipher \<Rightarrow> bool" where
  "lawful_cipher ev ci =
     ((\<forall>n k bs. env_random ev n k = Inr bs \<longrightarrow> length bs = k \<and> is_bytes bs) \<and>
      (\<forall>key nonce ad p c. ci_seal ci key nonce ad p = Some c \<longrightarrow>
         is_bytes c \<and> ci_open ci key nonce ad c = Some p \<and>
         (\<forall>ad'. ad' \<noteq> ad \<longrightarrow> ci_open ci key nonce ad' c = None)) \<and>
      (\<forall>bs. is_bytes bs \<longrightarrow> ci_unhex ci (env_hex ev bs) = Some bs))"

lemma encrypt_decrypt:
  assumes law: "lawful_cipher ev ci" and made: "encrypt ev ci n key ad p = Inr (nonce, sealed)"
  shows "decrypt ci key ad' (env_hex ev nonce) (env_hex ev sealed) = (if ad' = ad then Inr p else Inl tampered)"
proof -
  have "env_random ev n NONCE_LEN = Inr nonce" "ci_seal ci key nonce ad p = Some sealed"
    using made by (auto simp: encrypt_def split: sum.splits option.splits)
  with law show ?thesis by (auto simp: decrypt_def lawful_cipher_def)
qed

lemma vault_seal_Inr:
  assumes "vault_seal ev ci n vault b secret = Inr sealed"
  obtains data_key nonce ciphertext key_nonce wrapped_key where
    "length data_key = KEY_BYTES"
    "encrypt ev ci (n + 1) data_key (aad b) secret = Inr (nonce, ciphertext)"
    "encrypt ev ci (n + 2) (vk_key vault) (aad b) data_key = Inr (key_nonce, wrapped_key)"
    "sealed = \<lparr>sl_key_id = vk_id vault, sl_key_nonce = env_hex ev key_nonce,
       sl_wrapped_key = env_hex ev wrapped_key, sl_nonce = env_hex ev nonce,
       sl_ciphertext = env_hex ev ciphertext\<rparr>"
  using assms by (auto simp: vault_seal_def key_from_def ok_paths split: sum.splits if_splits)

lemma vault_open_sealed:
  assumes law: "lawful_cipher ev ci" and sealed: "vault_seal ev ci n vault b secret = Inr sealed"
  shows "vault_open ci vault b sealed = Inr secret"
proof -
  obtain data_key nonce ciphertext key_nonce wrapped_key where made:
    "length data_key = KEY_BYTES"
    "encrypt ev ci (n + 1) data_key (aad b) secret = Inr (nonce, ciphertext)"
    "encrypt ev ci (n + 2) (vk_key vault) (aad b) data_key = Inr (key_nonce, wrapped_key)"
    "sealed = \<lparr>sl_key_id = vk_id vault, sl_key_nonce = env_hex ev key_nonce,
       sl_wrapped_key = env_hex ev wrapped_key, sl_nonce = env_hex ev nonce,
       sl_ciphertext = env_hex ev ciphertext\<rparr>"
    using sealed by (rule vault_seal_Inr)
  show ?thesis
    using made encrypt_decrypt [OF law made(2)] encrypt_decrypt [OF law made(3)]
    by (auto simp: vault_open_def key_from_def)
qed

text \<open>
  C24. A sealed secret opens only for the row it was sealed for: under the same key and the same
  connection, owner, provider, credential kind, generation and secret version it opens to the secret
  that was sealed; changing any of them, or the key, makes opening fail.
\<close>

theorem sealed_secret_bound_to_row:
  assumes law: "lawful_cipher ev ci" and row: "binding_ok b"
    and sealed: "vault_seal ev ci n vault b secret = Inr sealed"
  shows "vault_open ci vault b sealed = Inr secret \<and>
    (\<forall>b'. binding_ok b' \<longrightarrow> b' \<noteq> b \<longrightarrow> vault_open ci vault b' sealed = Inl tampered) \<and>
    (\<forall>other b'. vk_id other \<noteq> vk_id vault \<longrightarrow> isl (vault_open ci other b' sealed))"
proof -
  obtain data_key nonce ciphertext key_nonce wrapped_key where made:
    "length data_key = KEY_BYTES"
    "encrypt ev ci (n + 1) data_key (aad b) secret = Inr (nonce, ciphertext)"
    "encrypt ev ci (n + 2) (vk_key vault) (aad b) data_key = Inr (key_nonce, wrapped_key)"
    "sealed = \<lparr>sl_key_id = vk_id vault, sl_key_nonce = env_hex ev key_nonce,
       sl_wrapped_key = env_hex ev wrapped_key, sl_nonce = env_hex ev nonce,
       sl_ciphertext = env_hex ev ciphertext\<rparr>"
    using sealed by (rule vault_seal_Inr)
  show ?thesis
    using made encrypt_decrypt [OF law made(2)] encrypt_decrypt [OF law made(3)] row
    by (auto simp: vault_open_def key_from_def aad_inject)
qed

text \<open>A cipher that satisfies the laws, for the witness: it frames the associated data in unary.\<close>

definition ex_frame :: "bytes \<Rightarrow> bytes" where
  "ex_frame ad = replicate (length ad) 1 @ 0 # ad"

definition ex_cipher :: cipher where
  "ex_cipher =
     \<lparr>ci_seal = (\<lambda>key nonce ad p. if is_bytes (ad @ p) then Some (ex_frame ad @ p) else None),
      ci_open = (\<lambda>key nonce ad c.
        if take (length (ex_frame ad)) c = ex_frame ad then Some (drop (length (ex_frame ad)) c) else None),
      ci_unhex = (\<lambda>s. Some (map of_char s)), ci_digest = (\<lambda>bs. bs)\<rparr>"

definition ex_vault_env :: env where
  "ex_vault_env = ex_env\<lparr>env_random := \<lambda>n k. Inr (replicate k 7), env_hex := map char_of\<rparr>"

lemma frame_apart:
  assumes "take (length (ex_frame ad')) (ex_frame ad @ p) = ex_frame ad'"
  shows "ad' = ad"
proof -
  have eq: "ex_frame ad @ p = ex_frame ad' @ drop (length (ex_frame ad')) (ex_frame ad @ p)"
    by (metis append_take_drop_id assms)
  have "takeWhile (\<lambda>b. b = 1) (ex_frame x @ q) = replicate (length x) 1" for x q
    by (simp add: ex_frame_def takeWhile_append)
  with eq have "length ad = length ad'" by (metis length_replicate)
  with eq show ?thesis by (simp add: ex_frame_def)
qed

lemma ex_cipher_lawful: "lawful_cipher ex_vault_env ex_cipher"
proof -
  have hex: "map (of_char \<circ> (char_of :: nat \<Rightarrow> char)) bs = bs" if "is_bytes bs" for bs :: bytes
    using that by (auto simp: is_bytes_def intro: map_idI)
  have self: "take (length (ex_frame ad)) (ex_frame ad @ p) = ex_frame ad" for ad p by simp
  have framed: "is_bytes (ex_frame ad @ p)" if "is_bytes (ad @ p)" for ad p
    using that by (auto simp: is_bytes_def ex_frame_def)
  show ?thesis
    unfolding lawful_cipher_def
    by (auto simp: ex_vault_env_def ex_cipher_def hex framed self is_bytes_def [of "replicate _ _"]
        simp del: take_append dest!: frame_apart split: if_splits)
qed

lemma ex_seal:
  assumes "is_bytes secret"
  shows "\<exists>sealed. vault_seal ex_vault_env ex_cipher n vault b secret = Inr sealed"
proof -
  have plain: "is_bytes (aad b @ secret)" "is_bytes (aad b @ replicate 32 7)"
    using aad_bytes [of b] assms by (auto simp: is_bytes_def)
  have ci: "ci_seal ex_cipher key nonce ad p = Some (ex_frame ad @ p)" if "is_bytes (ad @ p)" for key nonce ad p
    using that by (simp add: ex_cipher_def)
  have fill: "env_random ex_vault_env i k = Inr (replicate k 7)" for i k by (simp add: ex_vault_env_def)
  show ?thesis
    unfolding vault_seal_def encrypt_def fill key_from_def KEY_BYTES_def
    by (simp only: sum.case length_replicate if_True refl try_simps option.case prod.case ci [OF plain(1)]
        ci [OF plain(2)] ex_simps) blast
qed

theorem sealed_secret_bound_to_row_witness:
  "\<exists>sealed. vault_seal ex_vault_env ex_cipher 0 \<lparr>vk_id = ''vk'', vk_key = replicate 32 1\<rparr>
       \<lparr>sb_connection_id = ''pc_1'', sb_owner_id = ''user/ann'', sb_provider = ''claude'',
        sb_generation = 1, sb_secret_version = 0, sb_credential_kind = ''api_key''\<rparr> [42] = Inr sealed \<and>
     vault_open ex_cipher \<lparr>vk_id = ''vk'', vk_key = replicate 32 1\<rparr>
       \<lparr>sb_connection_id = ''pc_1'', sb_owner_id = ''user/ann'', sb_provider = ''claude'',
        sb_generation = 2, sb_secret_version = 0, sb_credential_kind = ''api_key''\<rparr> sealed = Inl tampered"
proof -
  let ?b = "\<lparr>sb_connection_id = ''pc_1'', sb_owner_id = ''user/ann'', sb_provider = ''claude'',
        sb_generation = 1, sb_secret_version = 0, sb_credential_kind = ''api_key''\<rparr>"
  let ?v = "\<lparr>vk_id = ''vk'', vk_key = replicate 32 (1 :: nat)\<rparr>"
  obtain sealed where made: "vault_seal ex_vault_env ex_cipher 0 ?v ?b [42] = Inr sealed"
    using ex_seal [of "[42]" 0 ?v ?b] by (auto simp: is_bytes_def)
  have "binding_ok ?b" "binding_ok (?b\<lparr>sb_generation := 2\<rparr>)" by (simp_all add: binding_ok_def)
  with sealed_secret_bound_to_row [OF ex_cipher_lawful _ made] made show ?thesis by auto
qed

end
