(* ===== verification/Provider_Connections.thy ===== *)
theory Provider_Connections
  imports Vault Auth
begin

text \<open>
  Connect-once provider connections (\<^verbatim>\<open>engine/provider_connections.rs\<close>): who may own one, connecting,
  disconnecting, resolving and checking bindings, unsealing, and the rotation of a refresh secret with
  its durable marker. The process-wide parts of \<^verbatim>\<open>ForgeCore\<close> that only connections use (the vault key,
  the registered service names, whether the broker was issued) are a record of their own.
\<close>

record custody =
  cu_cipher :: cipher
  cu_vault :: "vault_key option"
  cu_services :: "string list"
  cu_broker_issued :: bool

record connection_binding =
  cb_provider :: agent_provider
  cb_connection_id :: string
  cb_generation :: u64

text \<open>How a provider token exchange ended; \<^typ>\<open>'a\<close> is the access material it minted.\<close>

datatype 'a token_exchange = Rotated bytes 'a | Unchanged string | Revoked string | Unknown string

definition MAX_SECRET_BYTES :: nat where
  "MAX_SECRET_BYTES = 16 * 1024"

primrec provider_as_str :: "agent_provider \<Rightarrow> string" where
  "provider_as_str Claude = ''claude''"
| "provider_as_str Codex = ''codex''"
| "provider_as_str Grok = ''grok''"

definition provider_parse :: "string \<Rightarrow> forge_error + agent_provider" where
  "provider_parse value =
     (if value = ''claude'' then Inr Claude
      else if value = ''codex'' then Inr Codex
      else if value = ''grok'' then Inr Grok
      else Inl (Validation (''provider_unknown: '' @ value @ '' is not a managed provider'')))"

primrec credential_kind_as_str :: "credential_kind \<Rightarrow> string" where
  "credential_kind_as_str OauthRefresh = ''oauth_refresh''"
| "credential_kind_as_str ApiKey = ''api_key''"

primrec connection_state_as_str :: "connection_state \<Rightarrow> string" where
  "connection_state_as_str ConnPending = ''pending''"
| "connection_state_as_str Connected = ''connected''"
| "connection_state_as_str AuthRequired = ''auth_required''"
| "connection_state_as_str Disconnected = ''disconnected''"

section \<open>Identifiers\<close>

definition alphanumeric_ends :: "string \<Rightarrow> bool" where
  "alphanumeric_ends s = (s \<noteq> [] \<and> is_ascii_alphanumeric (hd s) \<and> is_ascii_alphanumeric (last s))"

definition valid_owner_id :: "string \<Rightarrow> bool" where
  "valid_owner_id owner_id =
     (case (case strip_prefix owner_id ''user/'' of
              None \<Rightarrow> strip_prefix owner_id ''service/'' | Some name \<Rightarrow> Some name) of
        None \<Rightarrow> False
      | Some name \<Rightarrow>
          6 \<le> length owner_id \<and> length owner_id \<le> 128 \<and> alphanumeric_ends name \<and>
          list_all (\<lambda>b. is_ascii_alphanumeric b \<or> b \<in> set ''._:-'') name \<and>
          \<not> contains_text name ''..'')"

definition valid_contract_id :: "string \<Rightarrow> bool" where
  "valid_contract_id value =
     (length value \<le> 128 \<and> alphanumeric_ends value \<and>
      list_all (\<lambda>b. is_ascii_alphanumeric b \<or> b \<in> set ''._:/-'') value \<and>
      \<not> contains_text value ''..'' \<and> \<not> contains_text value ''//'')"

section \<open>Errors\<close>

definition unregistered_service :: "string \<Rightarrow> forge_error" where
  "unregistered_service name =
     Validation (''connection_owner_invalid: service/'' @ name @ '' is not a registered service namespace'')"

definition auth_required :: "agent_provider \<Rightarrow> forge_error" where
  "auth_required provider =
     Conflict (''provider_auth_required: sign in to '' @ provider_as_str provider
       @ '' again in Settings; the stored credential may no longer be valid'')"

definition stale_generation :: forge_error where
  "stale_generation =
     Conflict ''connection_generation_stale: the session is bound to an older connection generation''"

definition not_connected :: "agent_provider \<Rightarrow> forge_error" where
  "not_connected provider =
     NotFound (''provider_not_connected: connect '' @ provider_as_str provider @ '' once in Settings, then retry'')"

definition owner_mismatch :: forge_error where
  "owner_mismatch = Forbidden ''connection_owner_mismatch: the connection belongs to another owner''"

definition owner_invalid :: forge_error where
  "owner_invalid =
     Validation ''connection_owner_invalid: owner must be user/<login> or service/<name>''"

section \<open>The vault, the broker and the service names\<close>

definition with_vault_key :: "vault_key \<Rightarrow> custody \<Rightarrow> custody" where
  "with_vault_key key cu = cu\<lparr>cu_vault := Some key, cu_broker_issued := False\<rparr>"

definition register_service_namespace :: "string \<Rightarrow> custody \<Rightarrow> (forge_error + unit) \<times> custody" where
  "register_service_namespace name cu =
     (if \<not> valid_owner_id (''service/'' @ name)
      then (Inl (Validation (''connection_owner_invalid: service/'' @ name
               @ '' is not a valid service account name'')), cu)
      else (Inr (), cu\<lparr>cu_services := insort_insert name (cu_services cu)\<rparr>))"

definition revoke_service_namespace :: "string \<Rightarrow> custody \<Rightarrow> bool \<times> custody" where
  "revoke_service_namespace name cu =
     (name \<in> set (cu_services cu), cu\<lparr>cu_services := removeAll name (cu_services cu)\<rparr>)"

definition service_namespaces :: "custody \<Rightarrow> string list" where
  "service_namespaces cu = cu_services cu"

text \<open>Whether this call got the broker, which stands for the right to unseal and refresh.\<close>

definition issue_provider_broker :: "custody \<Rightarrow> bool \<times> custody" where
  "issue_provider_broker cu =
     (if cu_vault cu = None then (False, cu)
      else (\<not> cu_broker_issued cu, cu\<lparr>cu_broker_issued := True\<rparr>))"

definition the_vault :: "custody \<Rightarrow> forge_error + vault_key" where
  "the_vault cu =
     ok_or (cu_vault cu) (Validation ''vault_unavailable: this server has no vault key configured'')"

section \<open>Owners and live rows\<close>

definition unregistered :: "string list \<Rightarrow> string \<Rightarrow> string option" where
  "unregistered services owner_id =
     (case strip_prefix owner_id ''service/'' of
        None \<Rightarrow> None
      | Some name \<Rightarrow> if name \<in> set services then None else Some name)"

definition require_owner :: "custody \<Rightarrow> state \<Rightarrow> string \<Rightarrow> forge_error + unit" where
  "require_owner cu s owner_id =
     (if \<not> valid_owner_id owner_id then Inl owner_invalid
      else try_res (case strip_prefix owner_id ''user/'' of
                      None \<Rightarrow> Inr ()
                    | Some login \<Rightarrow>
                        (case require_active_account s login of Inl _ \<Rightarrow> Inl owner_invalid | Inr _ \<Rightarrow> Inr ()))
        (\<lambda>_. case unregistered (cu_services cu) owner_id of
               Some name \<Rightarrow> Inl (unregistered_service name)
             | None \<Rightarrow> Inr ()))"

definition owner_active :: "state \<Rightarrow> string \<Rightarrow> bool" where
  "owner_active s owner_id =
     (case strip_prefix owner_id ''user/'' of
        Some login \<Rightarrow>
          (case hm_get (st_accounts s) login of
             None \<Rightarrow> False | Some account \<Rightarrow> permits_authentication (ua_status account))
      | None \<Rightarrow> True)"

definition live_record ::
  "state \<Rightarrow> string list \<Rightarrow> string \<Rightarrow> connection_binding \<Rightarrow> forge_error + connection_record" where
  "live_record s services owner_id binding =
     (case hm_get (st_provider_connections s) (cb_connection_id binding) of
        None \<Rightarrow> Inl (not_connected (cb_provider binding))
      | Some record \<Rightarrow>
          let connection = cc_connection record in
          if pc_owner_id connection \<noteq> owner_id \<or> pc_provider connection \<noteq> cb_provider binding
          then Inl owner_mismatch
          else case unregistered services owner_id of
            Some name \<Rightarrow> Inl (unregistered_service name)
          | None \<Rightarrow>
              if \<not> owner_active s owner_id \<or> pc_state connection \<in> {ConnPending, Disconnected}
              then Inl (not_connected (cb_provider binding))
              else if pc_state connection = AuthRequired then Inl (auth_required (cb_provider binding))
              else if pc_generation connection \<noteq> cb_generation binding then Inl stale_generation
              else Inr record)"

definition row_binding :: "provider_connection \<Rightarrow> seal_binding" where
  "row_binding connection =
     \<lparr>sb_connection_id = pc_id connection, sb_owner_id = pc_owner_id connection,
      sb_provider = provider_as_str (pc_provider connection), sb_generation = pc_generation connection,
      sb_secret_version = pc_secret_version connection,
      sb_credential_kind = credential_kind_as_str (pc_credential_kind connection)\<rparr>"

definition fence_auth_required :: "time \<Rightarrow> connection_record \<Rightarrow> connection_record" where
  "fence_auth_required now record =
     record\<lparr>cc_connection := (cc_connection record)\<lparr>pc_state := AuthRequired, pc_updated_at := now\<rparr>,
            cc_sealed := None, cc_rotation := None\<rparr>"

text \<open>The rows in iteration order; \<open>n\<close> is the index of the clock reading of the first one.\<close>

fun fence_loop :: "env \<Rightarrow> nat \<Rightarrow> (string, connection_record) hmap \<Rightarrow> nat \<times> (string, connection_record) hmap" where
  "fence_loop ev n [] = (0, [])"
| "fence_loop ev n ((k, record) # rows) =
     (case fence_loop ev (n + 1) rows of
        (fenced, rows) \<Rightarrow>
          if cc_rotation record \<noteq> None
          then (fenced + 1, (k, fence_auth_required (env_clk ev n) record) # rows)
          else (fenced, (k, record) # rows))"

definition fence_unfinished_rotations :: "env \<Rightarrow> nat \<Rightarrow> state \<Rightarrow> nat \<times> state" where
  "fence_unfinished_rotations ev n s =
     (case fence_loop ev n (st_provider_connections s) of
        (fenced, rows) \<Rightarrow> (fenced, s\<lparr>st_provider_connections := rows\<rparr>))"

definition put_connection :: "connection_record \<Rightarrow> state \<Rightarrow> state" where
  "put_connection record s =
     s\<lparr>st_provider_connections :=
         hm_put (pc_id (cc_connection record)) record (st_provider_connections s)\<rparr>"

section \<open>Connecting, listing, disconnecting, binding\<close>

definition is_same_login :: "string \<Rightarrow> agent_provider \<Rightarrow> string \<Rightarrow> connection_record \<Rightarrow> bool" where
  "is_same_login owner_id provider account record =
     (pc_owner_id (cc_connection record) = owner_id \<and> pc_provider (cc_connection record) = provider \<and>
      pc_provider_account (cc_connection record) = account)"

definition connected_row ::
  "env \<Rightarrow> connection_record option \<Rightarrow> string \<Rightarrow> agent_provider \<Rightarrow> string \<Rightarrow> credential_kind \<Rightarrow> provider_connection" where
  "connected_row ev existing owner_id provider account credential_kind =
     (case existing of
        Some record \<Rightarrow>
          (cc_connection record)\<lparr>pc_credential_kind := credential_kind, pc_state := Connected,
             pc_generation := u64_succ (pc_generation (cc_connection record)), pc_secret_version := 0,
             pc_updated_at := env_clk ev 0, pc_refreshed_at := None\<rparr>
      | None \<Rightarrow>
          \<lparr>pc_id = ''pc_'' @ uuid_digits (env_fresh ev 0), pc_owner_id = owner_id, pc_provider = provider,
           pc_provider_account = account, pc_credential_kind = credential_kind, pc_state = Connected,
           pc_generation = 1, pc_secret_version = 0, pc_created_at = env_clk ev 0,
           pc_updated_at = env_clk ev 0, pc_refreshed_at = None\<rparr>)"

text \<open>\<open>admit\<close> is the answer of the caller's closure once the lock is held.\<close>

definition connect_provider_admitted ::
  "env \<Rightarrow> custody \<Rightarrow> string \<Rightarrow> agent_provider \<Rightarrow> string \<Rightarrow> credential_kind \<Rightarrow> bytes \<Rightarrow> bool \<Rightarrow> core \<Rightarrow>
     provider_connection outcome" where
  "connect_provider_admitted ev cu owner_id provider provider_account credential_kind secret admit c =
     try_pure (the_vault cu) c (\<lambda>vault.
     try_pure (require_owner cu (live c) owner_id) c (\<lambda>_.
       let account = str_trim provider_account in
       if \<not> valid_contract_id account
       then (Inl (Validation (''provider_account_invalid: use 1 to 128 characters of letters, digits, and ''
               @ ''._:/- starting and ending with a letter or digit'')), c)
       else if secret = [] \<or> MAX_SECRET_BYTES < length secret
       then (Inl (Validation ''provider_secret_invalid: the credential must be 1 byte to 16 KiB''), c)
       else if \<not> admit
       then (Inl (Conflict ((''provider_connect_refused: the caller'' @ [CHR 0x27])
               @ ''s authority to connect ran out before the vault took it; nothing changed'')), c)
       else
         let existing = find (is_same_login owner_id provider account)
                          (hm_values (st_provider_connections (live c)));
             connection = connected_row ev existing owner_id provider account credential_kind
         in try_pure (vault_seal ev (cu_cipher cu) 0 vault (row_binding connection) secret) c (\<lambda>sealed.
              commit ev 0
                (put_connection \<lparr>cc_connection = connection, cc_sealed = Some sealed, cc_rotation = None\<rparr> (live c))
                connection c)))"

definition connect_provider ::
  "env \<Rightarrow> custody \<Rightarrow> string \<Rightarrow> agent_provider \<Rightarrow> string \<Rightarrow> credential_kind \<Rightarrow> bytes \<Rightarrow> core \<Rightarrow>
     provider_connection outcome" where
  "connect_provider ev cu owner_id provider provider_account credential_kind secret c =
     connect_provider_admitted ev cu owner_id provider provider_account credential_kind secret True c"

definition check_provider_binding ::
  "custody \<Rightarrow> state \<Rightarrow> string \<Rightarrow> connection_binding \<Rightarrow> forge_error + provider_connection" where
  "check_provider_binding cu s owner_id binding =
     try_res (live_record s (cu_services cu) owner_id binding) (\<lambda>record. Inr (cc_connection record))"

definition list_provider_connections :: "state \<Rightarrow> string \<Rightarrow> provider_connection list" where
  "list_provider_connections s owner_id =
     sort_key (\<lambda>connection. (pc_created_at connection, pc_id connection))
       (map cc_connection [record \<leftarrow> hm_values (st_provider_connections s).
          pc_owner_id (cc_connection record) = owner_id])"

definition owned_record :: "state \<Rightarrow> string \<Rightarrow> string \<Rightarrow> forge_error + connection_record" where
  "owned_record s owner_id connection_id =
     (case hm_get (st_provider_connections s) connection_id of
        None \<Rightarrow> Inl (NotFound ''provider_not_connected: no such provider connection'')
      | Some record \<Rightarrow>
          if pc_owner_id (cc_connection record) \<noteq> owner_id then Inl owner_mismatch else Inr record)"

definition disconnected :: "time \<Rightarrow> connection_record \<Rightarrow> connection_record" where
  "disconnected now record =
     \<lparr>cc_connection = (cc_connection record)\<lparr>pc_state := Disconnected,
        pc_generation := u64_succ (pc_generation (cc_connection record)), pc_updated_at := now\<rparr>,
      cc_sealed = None, cc_rotation = None\<rparr>"

definition disconnect_provider :: "env \<Rightarrow> string \<Rightarrow> string \<Rightarrow> core \<Rightarrow> provider_connection outcome" where
  "disconnect_provider ev owner_id connection_id c =
     try_pure (owned_record (live c) owner_id connection_id) c (\<lambda>record.
       if pc_state (cc_connection record) = Disconnected then (Inr (cc_connection record), c)
       else
         let record = disconnected (env_clk ev 0) record
         in commit ev 0
              ((live c)\<lparr>st_provider_connections :=
                  hm_put connection_id record (st_provider_connections (live c))\<rparr>)
              (cc_connection record) c)"

definition resolve_provider_binding ::
  "custody \<Rightarrow> state \<Rightarrow> string \<Rightarrow> agent_provider \<Rightarrow> string option \<Rightarrow> forge_error + connection_binding" where
  "resolve_provider_binding cu s owner_id provider connection_id =
     (case unregistered (cu_services cu) owner_id of
        Some name \<Rightarrow> Inl (unregistered_service name)
      | None \<Rightarrow>
          try_res (case connection_id of
              Some i \<Rightarrow>
                (case hm_get (st_provider_connections s) i of
                   None \<Rightarrow> Inl (not_connected provider)
                 | Some record \<Rightarrow>
                     if pc_owner_id (cc_connection record) \<noteq> owner_id \<or>
                        pc_provider (cc_connection record) \<noteq> provider
                     then Inl owner_mismatch else Inr (cc_connection record))
            | None \<Rightarrow>
                let mine = [record \<leftarrow> hm_values (st_provider_connections s).
                      pc_owner_id (cc_connection record) = owner_id \<and> pc_provider (cc_connection record) = provider];
                    connected = [record \<leftarrow> mine. pc_state (cc_connection record) = Connected]
                in case connected of
                     [] \<Rightarrow> Inl (if \<exists>record \<in> set mine. pc_state (cc_connection record) = AuthRequired
                               then auth_required provider else not_connected provider)
                   | first # rest \<Rightarrow>
                       if rest \<noteq> []
                       then Inl (Conflict ''provider_connection_ambiguous: name the connection_id to use'')
                       else Inr (cc_connection first))
            (\<lambda>connection.
              case pc_state connection of
                Connected \<Rightarrow>
                  Inr \<lparr>cb_provider = provider, cb_connection_id = pc_id connection,
                       cb_generation = pc_generation connection\<rparr>
              | AuthRequired \<Rightarrow> Inl (auth_required provider)
              | ConnPending \<Rightarrow> Inl (not_connected provider)
              | Disconnected \<Rightarrow> Inl (not_connected provider)))"

definition unseal_provider_secret ::
  "custody \<Rightarrow> state \<Rightarrow> string \<Rightarrow> connection_binding \<Rightarrow> forge_error + bytes" where
  "unseal_provider_secret cu s owner_id binding =
     try_res (the_vault cu) (\<lambda>vault.
     try_res (live_record s (cu_services cu) owner_id binding) (\<lambda>record.
     try_res (ok_or (cc_sealed record) (not_connected (cb_provider binding))) (\<lambda>sealed.
       vault_open (cu_cipher cu) vault (row_binding (cc_connection record)) sealed)))"

section \<open>Rotating a secret\<close>

text \<open>
  Steps 2 to 5 of the contract's refresh, under the state lock: the stored secret and its version, once
  the marker of this rotation is durable.
\<close>

definition begin_rotation ::
  "env \<Rightarrow> custody \<Rightarrow> vault_key \<Rightarrow> string \<Rightarrow> connection_binding \<Rightarrow> core \<Rightarrow> (bytes \<times> u64) outcome" where
  "begin_rotation ev cu vault owner_id binding c =
     try_pure (live_record (live c) (cu_services cu) owner_id binding) c (\<lambda>record.
       let put = (\<lambda>r. (live c)\<lparr>st_provider_connections :=
                    hm_put (cb_connection_id binding) r (st_provider_connections (live c))\<rparr>)
       in if cc_rotation record \<noteq> None
          then try_op (commit ev 0 (put (fence_auth_required (env_clk ev 0) record)) () c)
                 (\<lambda>_ c. (Inl (auth_required (cb_provider binding)), c))
          else
            try_pure (ok_or (cc_sealed record) (not_connected (cb_provider binding))) c (\<lambda>sealed.
            try_pure (vault_open (cu_cipher cu) vault (row_binding (cc_connection record)) sealed) c (\<lambda>opened.
              let version = pc_secret_version (cc_connection record);
                  marked = record\<lparr>cc_rotation := Some \<lparr>rt_secret_version = version, rt_started_at = env_clk ev 0\<rparr>\<rparr>
              in case commit ev 0 (put marked) (opened, version) c of
                   (Inl _, c) \<Rightarrow>
                     (Inl (Storage (''refresh_persist_failed: the rotation could not be recorded; nothing ''
                        @ ''reached the provider and the stored credential stays current'')), c)
                 | (Inr x, c) \<Rightarrow> (Inr x, c))))"

text \<open>\<^verbatim>\<open>persist_fence\<close>: the write is tried, and nothing is rolled back when it fails.\<close>

definition persist_fence :: "env \<Rightarrow> nat \<Rightarrow> core \<Rightarrow> core" where
  "persist_fence ev n c =
     (case storage c of
        None \<Rightarrow> c
      | Some d \<Rightarrow> (case env_fault ev n of Some _ \<Rightarrow> c | None \<Rightarrow> c\<lparr>storage := Some (d\<lparr>du_disk := live c\<rparr>)\<rparr>))"

definition rotation_is_ours :: "state \<Rightarrow> connection_binding \<Rightarrow> u64 \<Rightarrow> bool" where
  "rotation_is_ours s binding version =
     (case hm_get (st_provider_connections s) (cb_connection_id binding) of
        None \<Rightarrow> False
      | Some record \<Rightarrow>
          pc_state (cc_connection record) = Connected \<and>
          pc_generation (cc_connection record) = cb_generation binding \<and>
          pc_secret_version (cc_connection record) = version \<and>
          map_option rt_secret_version (cc_rotation record) = Some version)"

definition rotated_seal ::
  "env \<Rightarrow> custody \<Rightarrow> vault_key \<Rightarrow> provider_connection \<Rightarrow> bytes \<Rightarrow> sealed_secret option" where
  "rotated_seal ev cu vault connection secret =
     (if secret = [] \<or> MAX_SECRET_BYTES < length secret then None
      else case vault_seal ev (cu_cipher cu) 0 vault
             (row_binding (connection\<lparr>pc_secret_version := u64_succ (pc_secret_version connection)\<rparr>)) secret of
        Inl _ \<Rightarrow> None
      | Inr sealed \<Rightarrow> Some sealed)"

definition rotated_row :: "time \<Rightarrow> u64 \<Rightarrow> sealed_secret \<Rightarrow> connection_record \<Rightarrow> connection_record" where
  "rotated_row now version sealed record =
     \<lparr>cc_connection = (cc_connection record)\<lparr>pc_secret_version := u64_succ version,
        pc_refreshed_at := Some now, pc_updated_at := now\<rparr>,
      cc_sealed = Some sealed, cc_rotation = None\<rparr>"

text \<open>Steps 7 and 8: compare the row with what step 2 read, then commit or fence.\<close>

definition commit_rotation ::
  "env \<Rightarrow> custody \<Rightarrow> vault_key \<Rightarrow> string \<Rightarrow> connection_binding \<Rightarrow> u64 \<Rightarrow> 'a token_exchange \<Rightarrow> core \<Rightarrow>
     (provider_connection \<times> 'a) outcome" where
  "commit_rotation ev cu vault owner_id binding version exchanged c =
     (if \<not> rotation_is_ours (live c) binding version
      then (Inl (case live_record (live c) (cu_services cu) owner_id binding of
                   Inl error \<Rightarrow> error | Inr _ \<Rightarrow> stale_generation), c)
      else
        let record = the (hm_get (st_provider_connections (live c)) (cb_connection_id binding));
            put = (\<lambda>r. (live c)\<lparr>st_provider_connections :=
                     hm_put (cb_connection_id binding) r (st_provider_connections (live c))\<rparr>);
            fenced = (\<lambda>n. put (fence_auth_required (env_clk ev n) record));
            in_doubt = (\<lambda>reason. Conflict (''provider_auth_required: sign in to ''
               @ provider_as_str (cb_provider binding) @ '' again; the stored credential may no longer be valid (''
               @ str_trim reason @ '')''))
        in case exchanged of
             Unchanged reason \<Rightarrow>
               (Inl (Conflict (''provider_refresh_failed: the provider did not rotate the credential (''
                  @ str_trim reason @ ''); the stored one stays current'')),
                snd (commit ev 1 (put (record\<lparr>cc_rotation := None\<rparr>)) () c))
           | Revoked reason \<Rightarrow> (Inl (in_doubt reason), persist_fence ev 1 (c\<lparr>live := fenced 1\<rparr>))
           | Unknown reason \<Rightarrow> (Inl (in_doubt reason), persist_fence ev 1 (c\<lparr>live := fenced 1\<rparr>))
           | Rotated secret access \<Rightarrow>
               (case rotated_seal ev cu vault (cc_connection record) secret of
                  None \<Rightarrow>
                    (Inl (Conflict (''provider_auth_required: sign in to ''
                       @ provider_as_str (cb_provider binding)
                       @ '' again; the rotated credential could not be stored'')),
                     persist_fence ev 1 (c\<lparr>live := fenced 1\<rparr>))
                | Some sealed \<Rightarrow>
                    let record = rotated_row (env_clk ev 1) version sealed record
                    in case commit ev 1 (put record) (cc_connection record, access) c of
                         (Inl _, c) \<Rightarrow>
                           (Inl (Storage (''refresh_persist_failed: the rotated credential could not be saved; ''
                              @ ''the connection is auth_required until it is connected again'')),
                            persist_fence ev 2 (c\<lparr>live := fenced 2\<rparr>))
                       | (Inr x, c) \<Rightarrow> (Inr x, c)))"

text \<open>
  The whole refresh. \<open>locked\<close> says whether the connection's refresh lock was got in time. While the
  provider answers, other operations run: \<open>meanwhile\<close> is what they make of the core, and \<open>cu'\<close> the
  custody after them. The vault key is fixed at the start.
\<close>

definition refresh_provider_secret ::
  "env \<Rightarrow> custody \<Rightarrow> custody \<Rightarrow> string \<Rightarrow> connection_binding \<Rightarrow> bool \<Rightarrow> (bytes \<Rightarrow> 'a token_exchange) \<Rightarrow>
     (core \<Rightarrow> core) \<Rightarrow> core \<Rightarrow> (provider_connection \<times> 'a) outcome" where
  "refresh_provider_secret ev cu cu' owner_id binding locked exchange meanwhile c =
     try_pure (the_vault cu) c (\<lambda>vault.
     try_pure (live_record (live c) (cu_services cu) owner_id binding) c (\<lambda>record.
       if pc_credential_kind (cc_connection record) = ApiKey
       then (Inl (Validation (''credential_not_refreshable: an API key does not rotate; reconnect to ''
               @ ''replace it'')), c)
       else if \<not> locked
       then (Inl (Conflict ''connection_busy: another refresh of this connection is running''), c)
       else
         try_op (begin_rotation ev cu vault owner_id binding c) (\<lambda>(current, version) c.
           commit_rotation ev cu' vault owner_id binding version (exchange current) (meanwhile c))))"

section \<open>Rows\<close>

text \<open>
  What every row is: filed under its id, holding a secret exactly when it is connected, and marked for a
  rotation only while it is connected and at the version being rotated away from.
\<close>

definition row_ok :: "string \<Rightarrow> connection_record \<Rightarrow> bool" where
  "row_ok k r =
     (pc_id (cc_connection r) = k \<and>
      (cc_sealed r \<noteq> None \<longleftrightarrow> pc_state (cc_connection r) = Connected) \<and>
      (\<forall>m. cc_rotation r = Some m \<longrightarrow>
         pc_state (cc_connection r) = Connected \<and> rt_secret_version m = pc_secret_version (cc_connection r)))"

text \<open>How a row may change: it stays well formed, keeps its identity, and its generation never falls.\<close>

definition connection_step :: "string \<Rightarrow> connection_record option \<Rightarrow> connection_record \<Rightarrow> bool" where
  "connection_step k old r =
     (case old of
        None \<Rightarrow> row_ok k r
      | Some r0 \<Rightarrow>
          (row_ok k r0 \<longrightarrow> row_ok k r) \<and>
          pc_owner_id (cc_connection r) = pc_owner_id (cc_connection r0) \<and>
          pc_provider (cc_connection r) = pc_provider (cc_connection r0) \<and>
          pc_provider_account (cc_connection r) = pc_provider_account (cc_connection r0) \<and>
          pc_generation (cc_connection r0) \<le> pc_generation (cc_connection r))"

text \<open>The generations below the top of their range, and the fresh ids not in use.\<close>

definition generation_room :: "state \<Rightarrow> bool" where
  "generation_room s = (\<forall>k r. hm_get (st_provider_connections s) k = Some r \<longrightarrow>
     pc_id (cc_connection r) = k \<and> pc_generation (cc_connection r) + 1 < 2 ^ 64)"

lemma generation_roomD:
  "generation_room s \<Longrightarrow> hm_get (st_provider_connections s) k = Some r \<Longrightarrow>
     pc_id (cc_connection r) = k \<and> u64_succ (pc_generation (cc_connection r)) = pc_generation (cc_connection r) + 1"
  by (auto simp: generation_room_def u64_succ_def)

lemma find_connection:
  assumes "hm_ok m" and "find P (hm_values m) = Some r"
  shows "\<exists>k. hm_get m k = Some r \<and> P r"
  using assms by (auto simp: find_Some_iff hm_values_def hm_ok_def in_set_conv_nth)
    (metis assms(1) hm_ok_def map_of_eq_Some_iff nth_mem prod.collapse)

lemma live_record_Inr:
  assumes "live_record s services owner_id binding = Inr r"
  shows "hm_get (st_provider_connections s) (cb_connection_id binding) = Some r \<and>
    pc_owner_id (cc_connection r) = owner_id \<and> pc_provider (cc_connection r) = cb_provider binding \<and>
    unregistered services owner_id = None \<and> owner_active s owner_id \<and>
    pc_state (cc_connection r) = Connected \<and> pc_generation (cc_connection r) = cb_generation binding"
  using assms
  by (cases "pc_state (cc_connection r)")
    (auto simp: live_record_def Let_def split: option.splits if_splits)

lemma disconnected_step:
  "u64_succ (pc_generation (cc_connection r)) = pc_generation (cc_connection r) + 1 \<Longrightarrow>
     connection_step k (Some r) (disconnected now r)"
  by (simp add: connection_step_def disconnected_def row_ok_def)

lemma fence_step: "connection_step k (Some r) (fence_auth_required now r)"
  by (simp add: connection_step_def fence_auth_required_def row_ok_def)

lemma marker_step:
  "pc_state (cc_connection r) = Connected \<Longrightarrow> rt_secret_version m = pc_secret_version (cc_connection r) \<Longrightarrow>
     connection_step k (Some r) (r\<lparr>cc_rotation := Some m\<rparr>)"
  by (simp add: connection_step_def row_ok_def)

lemma unmarked_step: "connection_step k (Some r) (r\<lparr>cc_rotation := None\<rparr>)"
  by (simp add: connection_step_def row_ok_def)

lemma rotated_step:
  "pc_state (cc_connection r) = Connected \<Longrightarrow> connection_step k (Some r) (rotated_row now version sealed r)"
  by (simp add: connection_step_def row_ok_def rotated_row_def)

lemma reconnected_step:
  assumes "u64_succ (pc_generation (cc_connection r)) = pc_generation (cc_connection r) + 1"
    and "is_same_login owner_id provider account r"
  shows "connection_step k (Some r) \<lparr>cc_connection = connected_row ev (Some r) owner_id provider account kind,
    cc_sealed = Some sealed, cc_rotation = None\<rparr>"
  using assms by (simp add: connection_step_def connected_row_def row_ok_def is_same_login_def)

section \<open>A refresh that hands out access\<close>

lemma relabelled_Inr:
  "(case m of (Inl e, s) \<Rightarrow> (Inl (f e s), h s) | (Inr x, s) \<Rightarrow> (Inr x, s)) = (Inr y, t) \<longleftrightarrow> m = (Inr y, t)"
  by (cases m; cases "fst m") auto

lemma begin_rotation_Inr:
  assumes "begin_rotation ev cu vault owner_id binding c = (Inr (current, version), c')"
  obtains r sealed where
    "live_record (live c) (cu_services cu) owner_id binding = Inr r"
    "cc_sealed r = Some sealed" "cc_rotation r = None"
    "vault_open (cu_cipher cu) vault (row_binding (cc_connection r)) sealed = Inr current"
    "version = pc_secret_version (cc_connection r)"
    "c' = persisted ((live c)\<lparr>st_provider_connections := hm_put (cb_connection_id binding)
       (r\<lparr>cc_rotation := Some \<lparr>rt_secret_version = version, rt_started_at = env_clk ev 0\<rparr>\<rparr>)
       (st_provider_connections (live c))\<rparr>) c"
  using assms
  by (auto simp: begin_rotation_def ok_paths Let_def relabelled_Inr split: if_splits)

lemma commit_rotation_Inr:
  assumes "commit_rotation ev cu vault owner_id binding version exchanged c = (Inr (connection, access), c')"
  obtains r secret sealed where
    "rotation_is_ours (live c) binding version"
    "hm_get (st_provider_connections (live c)) (cb_connection_id binding) = Some r"
    "exchanged = Rotated secret access"
    "rotated_seal ev cu vault (cc_connection r) secret = Some sealed"
    "connection = cc_connection (rotated_row (env_clk ev 1) version sealed r)"
    "c' = persisted ((live c)\<lparr>st_provider_connections := hm_put (cb_connection_id binding)
       (rotated_row (env_clk ev 1) version sealed r) (st_provider_connections (live c))\<rparr>) c"
proof -
  have ours: "rotation_is_ours (live c) binding version"
    using assms by (auto simp: commit_rotation_def split: if_splits)
  then obtain r where r: "hm_get (st_provider_connections (live c)) (cb_connection_id binding) = Some r"
    by (auto simp: rotation_is_ours_def split: option.splits)
  from assms ours r show thesis
    by (auto simp: commit_rotation_def Let_def relabelled_Inr split: token_exchange.splits option.splits intro!: that)
qed

text \<open>
  C23. Access minted by a refresh is handed out only once the rotated secret is durable: the provider
  was called with the secret an unseal of the binding gives, after a marker of the rotation was on disk;
  it answered with a new secret and the access returned; and the core now holds, live and on disk, the
  connection returned, connected at the generation of the binding, with the new secret sealed for
  exactly that row and no marker.
\<close>

theorem refresh_releases_only_durable:
  assumes "refresh_provider_secret ev cu cu' owner_id binding locked exchange meanwhile c =
    (Inr (connection, access), c')"
  shows "\<exists>vault current version secret sealed c1. cu_vault cu = Some vault \<and>
    unseal_provider_secret cu (live c) owner_id binding = Inr current \<and>
    begin_rotation ev cu vault owner_id binding c = (Inr (current, version), c1) \<and>
    (\<exists>r. hm_get (st_provider_connections (live c1)) (cb_connection_id binding) = Some r \<and> cc_rotation r \<noteq> None) \<and>
    (\<forall>d. storage c1 = Some d \<longrightarrow> du_disk d = live c1) \<and>
    exchange current = Rotated secret access \<and>
    hm_get (st_provider_connections (live c')) (cb_connection_id binding) =
      Some \<lparr>cc_connection = connection, cc_sealed = Some sealed, cc_rotation = None\<rparr> \<and>
    pc_state connection = Connected \<and> pc_generation connection = cb_generation binding \<and>
    pc_secret_version connection = u64_succ version \<and>
    vault_seal ev (cu_cipher cu') 0 vault (row_binding connection) secret = Inr sealed \<and>
    (\<forall>d. storage c' = Some d \<longrightarrow> du_disk d = live c')"
proof -
  obtain vault r0 current version c1 where vault: "cu_vault cu = Some vault"
    and begun: "begin_rotation ev cu vault owner_id binding c = (Inr (current, version), c1)"
    and committed: "commit_rotation ev cu' vault owner_id binding version (exchange current) (meanwhile c1) =
      (Inr (connection, access), c')"
    using assms by (auto simp: refresh_provider_secret_def the_vault_def ok_paths split: if_splits prod.splits)
  obtain r sealed0 where r:
    "live_record (live c) (cu_services cu) owner_id binding = Inr r" "cc_sealed r = Some sealed0"
    "vault_open (cu_cipher cu) vault (row_binding (cc_connection r)) sealed0 = Inr current"
    "c1 = persisted ((live c)\<lparr>st_provider_connections := hm_put (cb_connection_id binding)
       (r\<lparr>cc_rotation := Some \<lparr>rt_secret_version = version, rt_started_at = env_clk ev 0\<rparr>\<rparr>)
       (st_provider_connections (live c))\<rparr>) c"
    using begun by (rule begin_rotation_Inr)
  obtain q secret sealed where q: "rotation_is_ours (live (meanwhile c1)) binding version"
    "hm_get (st_provider_connections (live (meanwhile c1))) (cb_connection_id binding) = Some q"
    "exchange current = Rotated secret access"
    "rotated_seal ev cu' vault (cc_connection q) secret = Some sealed"
    "connection = cc_connection (rotated_row (env_clk ev 1) version sealed q)"
    "c' = persisted ((live (meanwhile c1))\<lparr>st_provider_connections := hm_put (cb_connection_id binding)
       (rotated_row (env_clk ev 1) version sealed q) (st_provider_connections (live (meanwhile c1)))\<rparr>) (meanwhile c1)"
    using committed by (rule commit_rotation_Inr)
  have row: "pc_state (cc_connection q) = Connected" "pc_generation (cc_connection q) = cb_generation binding"
    "pc_secret_version (cc_connection q) = version"
    using q(1,2) by (simp_all add: rotation_is_ours_def)
  have sealed: "vault_seal ev (cu_cipher cu') 0 vault (row_binding connection) secret = Inr sealed"
    using q(4) row(3) unfolding q(5)
    by (auto simp: rotated_seal_def rotated_row_def row_binding_def split: if_splits sum.splits)
  have "unseal_provider_secret cu (live c) owner_id binding = Inr current"
    by (simp add: unseal_provider_secret_def the_vault_def vault r)
  with vault begun q(3) row sealed show ?thesis
    by (auto simp: r(4) q(5,6) rotated_row_def persisted_def)
qed

text \<open>A connection of \<^verbatim>\<open>root\<close>, and a refresh of it.\<close>

definition ex_vault :: vault_key where
  "ex_vault = \<lparr>vk_id = ''vk'', vk_key = replicate 32 1\<rparr>"

definition ex_custody :: custody where
  "ex_custody = \<lparr>cu_cipher = ex_cipher, cu_vault = Some ex_vault, cu_services = [], cu_broker_issued = True\<rparr>"

definition ex_connection :: provider_connection where
  "ex_connection =
     \<lparr>pc_id = ''pc_1'', pc_owner_id = ''user/root'', pc_provider = Claude, pc_provider_account = ''root'',
      pc_credential_kind = OauthRefresh, pc_state = Connected, pc_generation = 1, pc_secret_version = 0,
      pc_created_at = 0, pc_updated_at = 0, pc_refreshed_at = None\<rparr>"

definition ex_sealed :: sealed_secret where
  "ex_sealed = projr (vault_seal ex_vault_env ex_cipher 0 ex_vault (row_binding ex_connection) [42])"

definition ex_linked :: core where
  "ex_linked = \<lparr>live = ex_state\<lparr>st_provider_connections :=
     [(''pc_1'', \<lparr>cc_connection = ex_connection, cc_sealed = Some ex_sealed, cc_rotation = None\<rparr>)]\<rparr>,
     storage = None\<rparr>"

definition ex_binding :: connection_binding where
  "ex_binding = \<lparr>cb_provider = Claude, cb_connection_id = ''pc_1'', cb_generation = 1\<rparr>"

lemma ex_opened: "vault_open ex_cipher ex_vault (row_binding ex_connection) ex_sealed = Inr [42]"
proof -
  obtain sealed where made: "vault_seal ex_vault_env ex_cipher 0 ex_vault (row_binding ex_connection) [42] = Inr sealed"
    using ex_seal [of "[42]" 0 ex_vault "row_binding ex_connection"] by (auto simp: is_bytes_def)
  then show ?thesis using vault_open_sealed [OF ex_cipher_lawful made] by (simp add: ex_sealed_def)
qed

lemma ex_linked_row [simp]:
  "hm_get (st_provider_connections (live ex_linked)) ''pc_1'' =
     Some \<lparr>cc_connection = ex_connection, cc_sealed = Some ex_sealed, cc_rotation = None\<rparr>"
  "storage ex_linked = None"
  by (simp_all add: ex_linked_def)

lemma ex_connection_sel [simp]:
  "pc_owner_id ex_connection = ''user/root''" "pc_provider ex_connection = Claude"
  "pc_state ex_connection = Connected" "pc_generation ex_connection = 1"
  "pc_secret_version ex_connection = 0" "pc_credential_kind ex_connection = OauthRefresh"
  "cb_provider ex_binding = Claude" "cb_generation ex_binding = 1" "cb_connection_id ex_binding = ''pc_1''"
  "the_vault ex_custody = Inr ex_vault" "cu_vault ex_custody = Some ex_vault" "cu_cipher ex_custody = ex_cipher"
  by (simp_all add: ex_connection_def ex_binding_def ex_custody_def the_vault_def)

lemma ex_live_record [simp]:
  "live_record (live ex_linked) services ''user/root'' ex_binding =
     Inr \<lparr>cc_connection = ex_connection, cc_sealed = Some ex_sealed, cc_rotation = None\<rparr>"
proof -
  have owner: "strip_prefix ''user/root'' ''service/'' = None" "strip_prefix ''user/root'' ''user/'' = Some ''root''"
    by code_simp+
  have "owner_active (live ex_linked) ''user/root''"
    by (simp add: owner_active_def owner ex_linked_def ex_account_def permits_authentication_def)
  then show ?thesis by (simp add: live_record_def unregistered_def owner)
qed

lemma ex_begun:
  obtains c1 where
    "begin_rotation ex_vault_env ex_custody ex_vault ''user/root'' ex_binding ex_linked = (Inr ([42], 0), c1)"
    "hm_get (st_provider_connections (live c1)) ''pc_1'' =
       Some \<lparr>cc_connection = ex_connection, cc_sealed = Some ex_sealed,
         cc_rotation = Some \<lparr>rt_secret_version = 0, rt_started_at = env_clk ex_vault_env 0\<rparr>\<rparr>"
    "storage c1 = None"
  using that [of "snd (begin_rotation ex_vault_env ex_custody ex_vault ''user/root'' ex_binding ex_linked)"]
  by (simp add: begin_rotation_def ex_opened Let_def commit_eq write_fails_def persisted_def)

lemma ex_refresh:
  obtains connection c' where
    "refresh_provider_secret ex_vault_env ex_custody ex_custody ''user/root'' ex_binding True
       (\<lambda>_. Rotated [43] ''access'') id ex_linked = (Inr (connection, ''access''), c')"
proof -
  obtain c1 where c1:
    "begin_rotation ex_vault_env ex_custody ex_vault ''user/root'' ex_binding ex_linked = (Inr ([42], 0), c1)"
    "hm_get (st_provider_connections (live c1)) ''pc_1'' =
       Some \<lparr>cc_connection = ex_connection, cc_sealed = Some ex_sealed,
         cc_rotation = Some \<lparr>rt_secret_version = 0, rt_started_at = env_clk ex_vault_env 0\<rparr>\<rparr>"
    "storage c1 = None"
    by (rule ex_begun)
  obtain sealed where made: "vault_seal ex_vault_env ex_cipher 0 ex_vault
      (row_binding (ex_connection\<lparr>pc_secret_version := u64_succ 0\<rparr>)) [43] = Inr sealed"
    using ex_seal [of "[43]" 0 ex_vault "row_binding (ex_connection\<lparr>pc_secret_version := u64_succ 0\<rparr>)"]
    by (auto simp: is_bytes_def)
  show thesis
    by (rule that)
      (simp add: refresh_provider_secret_def c1 commit_rotation_def rotation_is_ours_def Let_def commit_eq
        write_fails_def persisted_def rotated_seal_def MAX_SECRET_BYTES_def made)
qed

theorem refresh_releases_only_durable_witness:
  "\<exists>c1 r. begin_rotation ex_vault_env ex_custody ex_vault ''user/root'' ex_binding ex_linked = (Inr ([42], 0), c1) \<and>
     hm_get (st_provider_connections (live c1)) ''pc_1'' = Some r \<and> cc_rotation r \<noteq> None"
proof -
  obtain connection c' where ran: "refresh_provider_secret ex_vault_env ex_custody ex_custody ''user/root''
      ex_binding True (\<lambda>_. Rotated [43] ''access'') id ex_linked = (Inr (connection, ''access''), c')"
    by (rule ex_refresh)
  obtain c1 where begun:
    "begin_rotation ex_vault_env ex_custody ex_vault ''user/root'' ex_binding ex_linked = (Inr ([42], 0), c1)"
    by (rule ex_begun)
  from refresh_releases_only_durable [OF ran] show ?thesis using begun by auto
qed

end
