(* ===== verification/Startup.thy ===== *)
theory Startup
  imports Invariants Sample_Store Provider_Connections
begin

text \<open>
  What opening a store repairs (\<^verbatim>\<open>SqliteStore::open\<close> of \<^verbatim>\<open>engine/storage.rs\<close>): missing counters, missing
  rules of default branches, connections left in the middle of a credential rotation, and recovery
  secrets that are spent, expired or exhausted.
\<close>

section \<open>Missing counters\<close>

text \<open>\<^verbatim>\<open>.max().unwrap_or(0)\<close> over the numbers filed under one slug.\<close>

definition highest_number :: "slug \<Rightarrow> (record_key, 'v) hmap \<Rightarrow> u64" where
  "highest_number key m =
     Max (set (0 # [number. ((owner, repo, number), _) \<leftarrow> m, owner = fst key \<and> repo = snd key]))"

primrec missing_counters_loop :: "slug list \<Rightarrow> state \<Rightarrow> nat \<times> state" where
  "missing_counters_loop [] s = (0, s)"
| "missing_counters_loop (key # keys) s =
     (if hm_has (st_counters s) key then missing_counters_loop keys s
      else case missing_counters_loop keys
             (s\<lparr>st_counters := hm_put key
                 \<lparr>cn_issue = highest_number key (st_issues s),
                  cn_pull = highest_number key (st_pulls s)\<rparr> (st_counters s)\<rparr>) of
        (inserted, s) \<Rightarrow> (inserted + 1, s))"

definition backfill_missing_counters :: "state \<Rightarrow> nat \<times> state" where
  "backfill_missing_counters s =
     missing_counters_loop (map (\<lambda>r. (rp_owner r, rp_name r)) (hm_values (st_repos s))) s"

text \<open>The repaired state of a loaded one, and whether it has to be written back.\<close>

definition opening_clock :: "env \<Rightarrow> state \<Rightarrow> time" where
  "opening_clock ev s = env_clk ev (length (st_repos s) + length (st_provider_connections s))"

definition repair_on_open :: "env \<Rightarrow> state \<Rightarrow> nat \<times> state" where
  "repair_on_open ev s =
     (case backfill_missing_counters s of
        (counters_added, s) \<Rightarrow>
          case backfill_default_branch_protections ev s of
            (rules_added, s) \<Rightarrow>
              case fence_unfinished_rotations ev (length (st_repos s)) s of
                (fenced, s) \<Rightarrow>
                  case prune_dead_recoveries (opening_clock ev s) s of
                    (pruned, s) \<Rightarrow> (counters_added + rules_added + fenced + pruned, s))"

definition store_open :: "env \<Rightarrow> durable \<Rightarrow> forge_error + core" where
  "store_open ev d =
     (case repair_on_open ev (du_disk d) of
        (backfilled, s) \<Rightarrow>
          if backfilled = 0 then Inr (open_sqlite (d\<lparr>du_disk := s\<rparr>))
          else (case env_fault ev 0 of
                  Some e \<Rightarrow> Inl e
                | None \<Rightarrow> Inr (open_sqlite (d\<lparr>du_disk := s\<rparr>))))"

section \<open>Facts\<close>

lemma highest_number_above:
  "hm_has m (owner, repo, n) \<Longrightarrow> n \<le> highest_number (owner, repo) m"
  unfolding highest_number_def by (rule Max_ge) (auto simp: hm_has_iff)

lemma missing_counters_snd:
  "snd (missing_counters_loop (key # keys) s) =
     snd (missing_counters_loop keys
       (if hm_has (st_counters s) key then s
        else s\<lparr>st_counters := hm_put key
               \<lparr>cn_issue = highest_number key (st_issues s),
                cn_pull = highest_number key (st_pulls s)\<rparr> (st_counters s)\<rparr>))"
  by (simp split: prod.split)

lemma backfill_snd:
  "snd (backfill_loop ev n (r # repos) s) =
     snd (backfill_loop ev (n + 1) repos (snd (ensure_default_branch_protection ev n r s)))"
  by (simp split: prod.split)

lemma missing_counters_sel [simp]:
  "st_issues (snd (missing_counters_loop keys s)) = st_issues s"
  "st_pulls (snd (missing_counters_loop keys s)) = st_pulls s"
  "st_repos (snd (missing_counters_loop keys s)) = st_repos s"
  "st_repository_aliases (snd (missing_counters_loop keys s)) = st_repository_aliases s"
  "st_branch_protections (snd (missing_counters_loop keys s)) = st_branch_protections s"
  "st_accounts (snd (missing_counters_loop keys s)) = st_accounts s"
  "st_organizations (snd (missing_counters_loop keys s)) = st_organizations s"
  "st_password_recoveries (snd (missing_counters_loop keys s)) = st_password_recoveries s"
  "st_waitlist (snd (missing_counters_loop keys s)) = st_waitlist s"
  "st_jankurai_scores (snd (missing_counters_loop keys s)) = st_jankurai_scores s"
  "st_provider_connections (snd (missing_counters_loop keys s)) = st_provider_connections s"
  by (induction keys arbitrary: s) (simp_all add: missing_counters_snd del: missing_counters_loop.simps(2))

text \<open>A counter that is there stays; a missing one starts at the highest numbers in use.\<close>

lemma missing_counters_get:
  "hm_get (st_counters (snd (missing_counters_loop keys s))) key =
     (case hm_get (st_counters s) key of
        Some cn \<Rightarrow> Some cn
      | None \<Rightarrow>
          if key \<in> set keys
          then Some \<lparr>cn_issue = highest_number key (st_issues s),
                     cn_pull = highest_number key (st_pulls s)\<rparr>
          else None)"
  by (induction keys arbitrary: s)
    (auto simp: missing_counters_snd hm_has_def simp del: missing_counters_loop.simps(2) split: option.split)

lemma missing_counters_done:
  "\<forall>key \<in> set keys. hm_has (st_counters s) key \<Longrightarrow> missing_counters_loop keys s = (0, s)"
  by (induction keys) simp_all

text \<open>A repository the repair of rules has nothing to do for.\<close>

definition settled :: "state \<Rightarrow> repository \<Rightarrow> bool" where
  "settled s r =
     (rp_default_branch_protection_opt_out r \<and> \<not> repo_requires_status_context s (rp_owner r) (rp_name r) \<or>
      hm_has (st_branch_protections s) (rp_owner r, rp_name r, rp_default_branch r))"

lemma ensure_settled: "settled s r \<Longrightarrow> ensure_default_branch_protection ev n r s = (False, s)"
  by (auto simp: settled_def ensure_default_branch_protection_def)

lemma hm_values_new: "\<not> hm_has m k \<Longrightarrow> hm_values (hm_put k v m) = hm_values m @ [v]"
  by (induction m) (auto simp: hm_values_def hm_has_iff)

lemma ensure_settles:
  "settled (snd (ensure_default_branch_protection ev n r s)) r"
  "settled s q \<Longrightarrow> settled (snd (ensure_default_branch_protection ev n r s)) q"
  by (auto simp: settled_def ensure_default_branch_protection_def Let_def repo_requires_status_context_def
      hm_values_new default_branch_protection_rule_def hm_has_def)

lemma backfill_loop_settles:
  "settled s q \<or> q \<in> set repos \<Longrightarrow> settled (snd (backfill_loop ev n repos s)) q"
proof (induction repos arbitrary: n s)
  case Nil
  then show ?case by simp
next
  case (Cons r repos)
  then have "settled (snd (ensure_default_branch_protection ev n r s)) q \<or> q \<in> set repos"
    using ensure_settles(1) [of ev n r s] ensure_settles(2) [of s q ev n r] by auto
  with Cons.IH show ?case unfolding backfill_snd by blast
qed

lemma backfill_loop_done: "\<forall>q \<in> set repos. settled s q \<Longrightarrow> backfill_loop ev n repos s = (0, s)"
  by (induction repos arbitrary: n) (simp_all add: ensure_settled)

lemma backfill_loop_sel [simp]:
  "st_issues (snd (backfill_loop ev n repos s)) = st_issues s"
  "st_pulls (snd (backfill_loop ev n repos s)) = st_pulls s"
  "st_repos (snd (backfill_loop ev n repos s)) = st_repos s"
  "st_counters (snd (backfill_loop ev n repos s)) = st_counters s"
  "st_repository_aliases (snd (backfill_loop ev n repos s)) = st_repository_aliases s"
  by (induction repos arbitrary: n s) (simp_all add: backfill_snd del: backfill_loop.simps(2))

lemma backfill_loop_directory [simp]:
  "st_accounts (snd (backfill_loop ev n repos s)) = st_accounts s"
  "st_organizations (snd (backfill_loop ev n repos s)) = st_organizations s"
  "st_password_recoveries (snd (backfill_loop ev n repos s)) = st_password_recoveries s"
  "st_waitlist (snd (backfill_loop ev n repos s)) = st_waitlist s"
  "st_jankurai_scores (snd (backfill_loop ev n repos s)) = st_jankurai_scores s"
  "st_provider_connections (snd (backfill_loop ev n repos s)) = st_provider_connections s"
  by (induction repos arbitrary: n s)
    (simp_all add: backfill_snd ensure_default_branch_protection_def Let_def del: backfill_loop.simps(2))

text \<open>The state with its counters and rules repaired, before the recovery secrets are pruned.\<close>

definition backfilled :: "env \<Rightarrow> state \<Rightarrow> state" where
  "backfilled ev s = snd (backfill_default_branch_protections ev (snd (backfill_missing_counters s)))"

lemma backfilled_sel [simp]:
  "st_issues (backfilled ev s) = st_issues s" "st_pulls (backfilled ev s) = st_pulls s"
  "st_repos (backfilled ev s) = st_repos s" "st_accounts (backfilled ev s) = st_accounts s"
  "st_organizations (backfilled ev s) = st_organizations s"
  "st_password_recoveries (backfilled ev s) = st_password_recoveries s"
  "st_waitlist (backfilled ev s) = st_waitlist s"
  "st_jankurai_scores (backfilled ev s) = st_jankurai_scores s"
  "st_provider_connections (backfilled ev s) = st_provider_connections s"
  by (simp_all add: backfilled_def backfill_default_branch_protections_def backfill_missing_counters_def)

lemma fence_eq:
  "fence_auth_required now r =
     \<lparr>cc_connection = (cc_connection r)\<lparr>pc_state := AuthRequired, pc_updated_at := now\<rparr>,
      cc_sealed = None, cc_rotation = None\<rparr>"
  by (cases r) (simp add: fence_auth_required_def)

lemma fence_loop_length [simp]: "length (snd (fence_loop ev n rows)) = length rows"
  by (induction ev n rows rule: fence_loop.induct) (simp_all add: case_prod_beta)

lemma fence_loop_get:
  "(hm_get rows k = None \<longrightarrow> hm_get (snd (fence_loop ev n rows)) k = None) \<and>
   (\<forall>r. hm_get rows k = Some r \<longrightarrow> (\<exists>now. hm_get (snd (fence_loop ev n rows)) k =
      Some (if cc_rotation r \<noteq> None then fence_auth_required now r else r)))"
  by (induction ev n rows rule: fence_loop.induct) (auto simp: case_prod_beta split: if_splits)

lemma fence_loop_unmarked:
  "\<forall>(k, r) \<in> set (snd (fence_loop ev n rows)). cc_rotation r = None"
  by (induction ev n rows rule: fence_loop.induct) (auto simp: case_prod_beta fence_auth_required_def)

lemma fence_loop_done: "\<forall>(k, r) \<in> set rows. cc_rotation r = None \<Longrightarrow> fence_loop ev n rows = (0, rows)"
  by (induction ev n rows rule: fence_loop.induct) auto

lemma repair_on_open_state:
  "snd (repair_on_open ev s) =
     (backfilled ev s)\<lparr>
        st_provider_connections := snd (fence_loop ev (length (st_repos s)) (st_provider_connections s)),
        st_password_recoveries := hm_retain (\<lambda>_ r. is_live r (opening_clock ev s)) (st_password_recoveries s)\<rparr>"
  using backfilled_sel(3,9) [of ev s]
  by (simp add: repair_on_open_def backfilled_def prune_dead_recoveries_def fence_unfinished_rotations_def
      opening_clock_def Let_def case_prod_beta)
    (simp add: backfilled_def [symmetric])

lemma repo_value: "hm_get (st_repos s) key = Some r \<Longrightarrow> r \<in> set (hm_values (st_repos s))"
  by (auto simp: hm_values_def dest: map_of_SomeD intro: rev_image_eqI)

lemma settled_recoveries [simp]:
  "settled (s\<lparr>st_password_recoveries := m\<rparr>) r = settled s r"
  "settled (s\<lparr>st_provider_connections := rows\<rparr>) r = settled s r"
  by (simp_all add: settled_def repo_requires_status_context_def)

lemma repair_settles:
  "r \<in> set (hm_values (st_repos s)) \<Longrightarrow> settled (snd (repair_on_open ev s)) r"
  by (simp add: repair_on_open_state backfilled_def backfill_default_branch_protections_def
      backfill_missing_counters_def backfill_loop_settles)

lemma repair_sel [simp]:
  "st_issues (snd (repair_on_open ev s)) = st_issues s"
  "st_pulls (snd (repair_on_open ev s)) = st_pulls s"
  "st_repos (snd (repair_on_open ev s)) = st_repos s"
  "st_accounts (snd (repair_on_open ev s)) = st_accounts s"
  "st_organizations (snd (repair_on_open ev s)) = st_organizations s"
  "st_waitlist (snd (repair_on_open ev s)) = st_waitlist s"
  "st_jankurai_scores (snd (repair_on_open ev s)) = st_jankurai_scores s"
  by (simp_all add: repair_on_open_state)

lemma repair_counters:
  "hm_get (st_counters (snd (repair_on_open ev s))) key =
     (case hm_get (st_counters s) key of
        Some cn \<Rightarrow> Some cn
      | None \<Rightarrow>
          if key \<in> (\<lambda>r. (rp_owner r, rp_name r)) ` set (hm_values (st_repos s))
          then Some \<lparr>cn_issue = highest_number key (st_issues s),
                     cn_pull = highest_number key (st_pulls s)\<rparr>
          else None)"
  by (simp add: repair_on_open_state backfilled_def backfill_default_branch_protections_def
      backfill_missing_counters_def missing_counters_get)

lemma repair_done:
  assumes "\<forall>r \<in> set (hm_values (st_repos s)). settled s r \<and> hm_has (st_counters s) (rp_owner r, rp_name r)"
    and "\<forall>(k, r) \<in> set (st_provider_connections s). cc_rotation r = None"
  shows "repair_on_open ev s = prune_dead_recoveries (opening_clock ev s) s"
  using assms
  by (simp add: fence_unfinished_rotations_def fence_loop_done repair_on_open_def backfill_missing_counters_def missing_counters_done
      backfill_default_branch_protections_def backfill_loop_done case_prod_beta)

section \<open>The property\<close>

text \<open>
  Opening a store repairs it for good: whatever rules and counters were missing, afterwards
  every default branch that has not opted out has a rule and no issue number is above its
  repository's counter (so no number is given out twice), every recovery secret left is one that
  can still be spent, a connection whose rotation was never finished requires authentication again and
  holds no secret while every other connection is as it was, and opening the store once more only
  drops the secrets that died meanwhile.
\<close>

theorem startup_repair_restores:
  assumes keyed: "\<forall>owner repo r. hm_get (st_repos s) (owner, repo) = Some r \<longrightarrow>
      rp_owner r = owner \<and> rp_name r = repo"
    and filed: "\<forall>owner repo n. hm_has (st_issues s) (owner, repo, n) \<longrightarrow>
      hm_has (st_repos s) (owner, repo) \<and>
      (\<forall>cn. hm_get (st_counters s) (owner, repo) = Some cn \<longrightarrow> n \<le> max (cn_issue cn) (cn_pull cn))"
  shows "protected_defaults (snd (repair_on_open ev s)) \<and>
    numbers_counted (st_issues s) (st_repos s) (st_counters (snd (repair_on_open ev s))) \<and>
    (\<forall>k r. (k, r) \<in> set (st_password_recoveries (snd (repair_on_open ev s))) \<longrightarrow>
       (k, r) \<in> set (st_password_recoveries s) \<and> is_live r (opening_clock ev s)) \<and>
    (\<forall>k r. hm_get (st_provider_connections s) k = Some r \<longrightarrow>
       (\<exists>now. hm_get (st_provider_connections (snd (repair_on_open ev s))) k =
          Some (if cc_rotation r = None then r
                else \<lparr>cc_connection = (cc_connection r)\<lparr>pc_state := AuthRequired, pc_updated_at := now\<rparr>,
                      cc_sealed = None, cc_rotation = None\<rparr>))) \<and>
    repair_on_open ev' (snd (repair_on_open ev s)) =
      prune_dead_recoveries (opening_clock ev' s) (snd (repair_on_open ev s))"
proof (intro conjI)
  show "protected_defaults (snd (repair_on_open ev s))"
    unfolding protected_defaults_def
  proof (intro allI impI)
    fix owner repo r
    assume "hm_get (st_repos (snd (repair_on_open ev s))) (owner, repo) = Some r"
    then have r: "hm_get (st_repos s) (owner, repo) = Some r" by simp
    with keyed repair_settles [OF repo_value [OF r], of ev]
    show "rp_owner r = owner \<and> rp_name r = repo \<and>
        row_protected (st_branch_protections (snd (repair_on_open ev s))) r"
      by (auto simp: settled_def row_protected_def)
  qed
  show "numbers_counted (st_issues s) (st_repos s) (st_counters (snd (repair_on_open ev s)))"
    unfolding numbers_counted_def
  proof (intro allI impI)
    fix owner repo n
    assume has: "hm_has (st_issues s) (owner, repo, n)"
    from has filed have bound: "hm_has (st_repos s) (owner, repo)"
      and counted: "\<And>cn. hm_get (st_counters s) (owner, repo) = Some cn \<Longrightarrow> n \<le> max (cn_issue cn) (cn_pull cn)"
      by blast+
    from bound obtain r where r: "hm_get (st_repos s) (owner, repo) = Some r"
      by (auto simp: hm_has_def)
    with keyed have "(owner, repo) \<in> (\<lambda>r. (rp_owner r, rp_name r)) ` set (hm_values (st_repos s))"
      by (force dest: repo_value)
    with bound counted highest_number_above [OF has]
    show "hm_has (st_repos s) (owner, repo) \<and>
        (\<exists>cn. hm_get (st_counters (snd (repair_on_open ev s))) (owner, repo) = Some cn \<and>
              n \<le> max (cn_issue cn) (cn_pull cn))"
      by (auto simp: repair_counters split: option.split)
  qed
  show "\<forall>k r. (k, r) \<in> set (st_password_recoveries (snd (repair_on_open ev s))) \<longrightarrow>
      (k, r) \<in> set (st_password_recoveries s) \<and> is_live r (opening_clock ev s)"
    by (auto simp: repair_on_open_state hm_retain_def)
  show "\<forall>k r. hm_get (st_provider_connections s) k = Some r \<longrightarrow>
      (\<exists>now. hm_get (st_provider_connections (snd (repair_on_open ev s))) k =
         Some (if cc_rotation r = None then r
               else \<lparr>cc_connection = (cc_connection r)\<lparr>pc_state := AuthRequired, pc_updated_at := now\<rparr>,
                     cc_sealed = None, cc_rotation = None\<rparr>))"
  proof (intro allI impI)
    fix k r assume r: "hm_get (st_provider_connections s) k = Some r"
    with fence_loop_get [of "st_provider_connections s" k ev "length (st_repos s)"] obtain now where
      "hm_get (st_provider_connections (snd (repair_on_open ev s))) k =
         Some (if cc_rotation r \<noteq> None then fence_auth_required now r else r)"
      by (auto simp: repair_on_open_state)
    then show "\<exists>now. hm_get (st_provider_connections (snd (repair_on_open ev s))) k =
         Some (if cc_rotation r = None then r
               else \<lparr>cc_connection = (cc_connection r)\<lparr>pc_state := AuthRequired, pc_updated_at := now\<rparr>,
                     cc_sealed = None, cc_rotation = None\<rparr>)"
      by (intro exI [of _ now]) (simp add: fence_eq)
  qed
  show "repair_on_open ev' (snd (repair_on_open ev s)) =
      prune_dead_recoveries (opening_clock ev' s) (snd (repair_on_open ev s))"
  proof -
    have "opening_clock ev' (snd (repair_on_open ev s)) = opening_clock ev' s"
      by (simp add: opening_clock_def repair_on_open_state)
    moreover have "\<forall>(k, r) \<in> set (st_provider_connections (snd (repair_on_open ev s))). cc_rotation r = None"
      using fence_loop_unmarked [of ev "length (st_repos s)" "st_provider_connections s"]
      by (simp add: repair_on_open_state)
    ultimately show ?thesis
      using repair_done [of "snd (repair_on_open ev s)" ev']
      by (auto simp: repair_settles hm_has_def repair_counters split: option.splits)
  qed
qed

definition ex_unrepaired :: state where
  "ex_unrepaired = ex_state\<lparr>st_counters := [], st_branch_protections := []\<rparr>"

theorem startup_repair_restores_witness:
  "hm_has (st_counters (snd (repair_on_open ex_env ex_unrepaired))) (''acme'', ''core'') \<and>
   hm_get (st_branch_protections (snd (repair_on_open ex_env ex_unrepaired))) (''acme'', ''core'', ''main'')
     \<noteq> None \<and>
   repair_on_open ex_env (snd (repair_on_open ex_env ex_unrepaired)) =
     (0, snd (repair_on_open ex_env ex_unrepaired))"
proof -
  have repos: "st_repos ex_unrepaired = [((''acme'', ''core''), ex_repository)]"
    "st_password_recoveries ex_unrepaired = []"
    by (simp_all add: ex_unrepaired_def ex_state_def default_state_def)
  have key: "rp_owner ex_repository = ''acme''" "rp_name ex_repository = ''core''"
    "rp_default_branch ex_repository = ''main''"
    "\<not> rp_default_branch_protection_opt_out ex_repository"
    by (simp_all add: ex_repository_def)
  have "protected_defaults (snd (repair_on_open ex_env ex_unrepaired)) \<and>
      repair_on_open ex_env (snd (repair_on_open ex_env ex_unrepaired)) =
        prune_dead_recoveries (opening_clock ex_env ex_unrepaired)
          (snd (repair_on_open ex_env ex_unrepaired))"
    using startup_repair_restores [of ex_unrepaired ex_env ex_env]
    by (simp add: repos key hm_has_def ex_unrepaired_def)
  moreover have "prune_dead_recoveries now (snd (repair_on_open ex_env ex_unrepaired)) =
      (0, snd (repair_on_open ex_env ex_unrepaired))" for now
    by (simp add: prune_dead_recoveries_def repair_on_open_state repos hm_retain_def)
  ultimately show ?thesis
    using protected_defaultsD [of "snd (repair_on_open ex_env ex_unrepaired)" "''acme''" "''core''" ex_repository]
    by (simp add: repos key hm_has_def repair_counters hm_values_def row_protected_def split: option.split)
qed

end
