(* ===== verification/Moves.thy ===== *)
theory Moves
  imports Invariants Startup
begin

text \<open>
  The transitions that are not sequences of primitive writes: renames, transfers, deletions and the
  repairs at startup. Each keeps the invariants of the store and loses no account and no organization.
\<close>

section \<open>Renames and transfers\<close>

definition relocated :: "state \<Rightarrow> state \<Rightarrow> bool" where
  "relocated s s' =
     (\<exists>old new current r. hm_get (st_repos s) old = Some current \<and> \<not> hm_has (st_repos s) new \<and>
        row_moved current new r \<and> write_view s' = write_view (rekey_maps old new r s))"

lemma relocatedI:
  "hm_get (st_repos s) old = Some current \<Longrightarrow> \<not> hm_has (st_repos s) new \<Longrightarrow> row_moved current new r \<Longrightarrow>
     write_view s' = write_view (rekey_maps old new r s) \<Longrightarrow> relocated s s'"
  unfolding relocated_def by blast

lemma relocated_keeps:
  assumes "relocated s s'" and "store_ok s"
  shows "store_ok s' \<and> people_kept s s'"
proof -
  obtain old new current r where row: "hm_get (st_repos s) old = Some current" "\<not> hm_has (st_repos s) new"
      "row_moved current new r" and view: "write_view s' = write_view (rekey_maps old new r s)"
    using assms(1) unfolding relocated_def by blast
  have "st_accounts s' = st_accounts s" "st_organizations s' = st_organizations s"
    using view by (simp_all add: write_view_def rekey_maps_sel)
  with store_ok_rekeyed [OF assms(2) row] store_ok_view [OF view] show ?thesis
    by (simp add: people_kept_same)
qed

lemma write_view_alias [simp]:
  "write_view (record_alias ev journal origin s) = write_view s"
  "write_view (s\<lparr>st_repository_transfers := m\<rparr>) = write_view s"
  "write_view (rekey_maps old new r (s\<lparr>st_repository_aliases := a\<rparr>)) = write_view (rekey_maps old new r s)"
  by (simp_all add: write_view_def record_alias_def Let_def rekey_maps_def case_prod_beta)

lemma write_rename_error:
  assumes "write_repository_rename ev relocator old new (c, g) = (Inl e, c', g')"
  shows "c' = c"
proof -
  have tail: "(case relocate relocator old new g of
         (Inl e, g1) \<Rightarrow> (Inl e, c, g1)
       | (Inr _, g1) \<Rightarrow>
           (case persist_after_mutation ev 0 (live c) (c\<lparr>live := s\<rparr>) of
              (Inl e, c1) \<Rightarrow> (Inl e, c1, snd (relocate relocator new old g1))
            | (Inr _, c1) \<Rightarrow> (Inr u, c1, g1))) = (Inl e, c', g') \<Longrightarrow> c' = c" for s and u :: repository
    by (auto simp: persist_eq split: prod.splits sum.splits if_splits)
  show ?thesis
    using assms unfolding write_repository_rename_def prod.case
    by (elim try_pure_InlE) ((erule tail | simp)+)
qed

lemma write_rename_relocates:
  assumes "write_repository_rename ev relocator old new (c, g) = (result, c', g')" and "synced c"
  shows "synced c' \<and> (live c' = live c \<or> relocated (live c) (live c'))"
proof (cases result)
  case (Inl e)
  with write_rename_error [of ev relocator old new c g e c' g'] assms show ?thesis by simp
next
  case (Inr updated)
  with assms(1) have ran: "write_repository_rename ev relocator old new (c, g) = (Inr updated, c', g')" by simp
  show ?thesis
  proof (rule rename_Inr [OF ran])
    fix current s
    assume row: "hm_get (st_repos (live c)) old = Some current" "\<not> hm_has (st_repos (live c)) new"
      and updated: "updated = current\<lparr>rp_owner := fst new, rp_name := snd new,
           rp_full_name := slug_name (fst new) (snd new), rp_updated_at := env_clk ev 1\<rparr>"
      and s: "s = (let j = rename_journal ev old new (rp_id current);
                  s1 = record_alias ev j OriginRename (rekey_maps old new updated
                    ((live c)\<lparr>st_repository_aliases := hm_del new (st_repository_aliases (live c))\<rparr>))
              in s1\<lparr>st_repository_transfers := hm_put (tj_idempotency_key j) j (st_repository_transfers s1)\<rparr>)"
      and c': "c' = persisted s c"
    have "write_view s = write_view (rekey_maps old new updated (live c))" by (simp add: s Let_def)
    moreover have "row_moved current new updated" by (simp add: row_moved_def updated)
    ultimately have "relocated (live c) s" using row unfolding relocated_def by blast
    then show ?thesis by (simp add: c')
  qed
qed

lemma rename_relocates:
  assumes "rename_repository ev relocator actor old new (c, g) = (result, c', g')" and "synced c"
  shows "synced c' \<and> (live c' = live c \<or> relocated (live c) (live c'))"
proof (cases "canonical_repository (live c) (fst old) (snd old)")
  case (Inl e)
  with assms show ?thesis by (simp add: rename_repository_def)
next
  case (Inr r)
  let ?subject = "slug_name (fst old) (snd old)"
  let ?detail = "JObj [(''from'', JStr ?subject), (''to'', JStr (slug_name (fst new) (snd new)))]"
  obtain first c1 where first:
    "append_audit_as ev 1 actor ''repository.renamed'' ?subject ''requested'' ?detail c = (first, c1)"
    by (cases "append_audit_as ev 1 actor ''repository.renamed'' ?subject ''requested'' ?detail c")
  have c1: "live c1 = live c" "synced c1"
    using first assms(2) append_audit_live [of ev 1 actor "''repository.renamed''" ?subject "''requested''" ?detail c]
      append_audit_synced [of ev 1 actor "''repository.renamed''" ?subject "''requested''" ?detail c] by simp_all
  obtain inner c2 g2 where inner: "write_repository_rename ev relocator old new (c1, g) = (inner, c2, g2)"
    by (cases "write_repository_rename ev relocator old new (c1, g)") auto
  have c2: "synced c2 \<and> (live c2 = live c \<or> relocated (live c) (live c2))"
    using write_rename_relocates [OF inner c1(2)] c1(1) by simp
  let ?last = "append_audit_as ev 2 actor ''repository.renamed'' ?subject
      (case inner of Inr _ \<Rightarrow> ''completed'' | Inl _ \<Rightarrow> ''failed'') ?detail c2"
  have "c' = c1 \<or> c' = snd ?last"
    using assms(1) Inr first inner
    by (auto simp: rename_repository_def Let_def split: sum.splits prod.splits)
  then show ?thesis using c1 c2 by auto
qed

lemma commit_transfer_relocates:
  assumes "synced c"
  shows "synced (snd (commit_repository_transfer ev transaction_id receipt c)) \<and>
    (live (snd (commit_repository_transfer ev transaction_id receipt c)) = live c \<or>
     relocated (live c) (live (snd (commit_repository_transfer ev transaction_id receipt c))))"
proof -
  have moved: "relocated s (put_transfer key committed (record_alias ev journal OriginTransfer s1))"
    if rekeyed: "rekey_repository ev journal s = Inr s1" for key committed journal s s1
  proof -
    obtain r where "hm_get (st_repos s) (tj_source_owner journal, tj_source_name journal) = Some r"
      and "\<not> hm_has (st_repos s) (tj_destination_owner journal, tj_destination_name journal)"
      and "s1 = rekey_maps (tj_source_owner journal, tj_source_name journal)
          (tj_destination_owner journal, tj_destination_name journal)
          (r\<lparr>rp_owner := tj_destination_owner journal, rp_name := tj_destination_name journal,
             rp_full_name := slug_name (tj_destination_owner journal) (tj_destination_name journal),
             rp_updated_at := env_clk ev 1\<rparr>) s"
      using rekeyed by (auto simp: rekey_repository_def Let_def split: if_splits option.splits)
    then show ?thesis
      by (intro relocatedI) (auto simp: row_moved_def put_transfer_def)
  qed
  show ?thesis
    unfolding commit_repository_transfer_def
    by (cases "transfer_for_id (live c) transaction_id")
      (auto simp: assms commit_eq Let_def try_pure_def moved split: prod.split repository_transfer_status.split sum.split)
qed

section \<open>Deletion\<close>

lemma delete_keeps:
  assumes "synced c" and "store_ok (live c)"
  shows "synced (snd (delete_repository ev owner repo c)) \<and> store_ok (live (snd (delete_repository ev owner repo c))) \<and>
    people_kept (live c) (live (snd (delete_repository ev owner repo c)))"
proof -
  have "people_kept (live c) (drop_repository owner repo removed (live c))" for removed
    by (rule people_kept_same) (simp_all add: drop_repository_def Let_def)
  moreover have "people_kept (live c) (live c)" by (rule people_kept_same) simp_all
  ultimately show ?thesis
    unfolding delete_repository_def
    by (cases "canonical_repository (live c) owner repo") (simp_all add: assms commit_eq store_ok_dropped)
qed

section \<open>Startup\<close>

text \<open>What the database need not agree on is nothing the invariants look at.\<close>

lemma durable_write_view: "durable_view s' = durable_view s \<Longrightarrow> write_view s' = write_view s"
proof -
  have "write_view (durable_view t) = write_view t" for t
    by (simp add: write_view_def durable_view_def)
  then show "durable_view s' = durable_view s \<Longrightarrow> write_view s' = write_view s" by metis
qed

lemma durable_people: "durable_view s' = durable_view s \<Longrightarrow> people_kept s s'"
  by (drule durable_write_view, rule people_kept_same) (simp_all add: write_view_def)

lemma repair_keeps:
  assumes "store_ok s"
  shows "store_ok (snd (repair_on_open ev s)) \<and> people_kept s (snd (repair_on_open ev s))"
proof -
  let ?s = "snd (repair_on_open ev s)"
  have counted: "numbers_counted (st_issues s) (st_repos s) (st_counters s)"
    and numbered: "numbered s" and protected: "protected_defaults s" and directory: "directory_ok s"
    using assms by (simp_all add: store_ok_def numbered_def)
  have "numbers_counted (st_issues s) (st_repos s) (st_counters ?s)"
    unfolding numbers_counted_def
  proof (intro allI impI)
    fix owner repo n
    assume "hm_has (st_issues s) (owner, repo, n)"
    from numbers_countedD [OF counted this]
    show "hm_has (st_repos s) (owner, repo) \<and> (\<exists>cn. hm_get (st_counters ?s) (owner, repo) = Some cn \<and>
        n \<le> max (cn_issue cn) (cn_pull cn))"
      by (auto simp only: repair_counters option.case)
  qed
  then have "numbered ?s" using numbered by (simp add: numbered_def)
  moreover have "protected_defaults ?s"
    unfolding protected_defaults_def
  proof (intro allI impI)
    fix owner repo r
    assume "hm_get (st_repos ?s) (owner, repo) = Some r"
    then have r: "hm_get (st_repos s) (owner, repo) = Some r" by simp
    from protected_defaultsD [OF protected r] repair_settles [OF repo_value [OF r], of ev]
    show "rp_owner r = owner \<and> rp_name r = repo \<and> row_protected (st_branch_protections ?s) r"
      by (auto simp: settled_def row_protected_def)
  qed
  moreover have "recoveries_ok (st_password_recoveries ?s)"
    using directory by (simp add: repair_on_open_state recoveries_ok_retain directory_ok_def)
  then have "directory_ok ?s" using directory by (simp add: directory_ok_def)
  ultimately show ?thesis using assms by (simp add: store_ok_def people_kept_same)
qed

lemma reopened:
  assumes "store_open ev d = Inr c'"
  shows "live c' = snd (repair_on_open ev (du_disk d)) \<and> synced c'"
  using assms by (auto simp: store_open_def open_sqlite_def synced_def split: prod.splits if_splits option.splits)

section \<open>A pull request under an old name\<close>

text \<open>
  Opening a pull request under a name a repository had before a rename succeeds, since the check follows
  the alias, but files it under the old name, where no listing finds it.
\<close>

lemma pull_at_old_name_stranded:
  assumes ran: "create_pull_request ev owner repo author request c = (Inr pr, c')"
    and old: "hm_get (st_repos (live c)) (owner, repo) = None"
  shows "hm_get (st_pulls (live c')) (owner, repo, pr_number pr) = Some pr \<and>
    (\<exists>e. list_pull_requests ev' (live c') owner repo wanted = Inl e)"
proof -
  obtain u c1 where user: "ensure_user ev 0 author c = (Inr u, c1)"
    and rest: "(case next_record_number owner repo (live c1) of
        (number, s1) \<Rightarrow>
          let issue = new_pull_issue ev owner repo author number request;
              pr = reevaluated ev s1 (new_pull ev owner repo author number request);
              s2 = s1\<lparr>st_issues := hm_put (owner, repo, number) issue (st_issues s1)\<rparr>;
              s3 = put_pull owner repo number pr s2;
              s4 = pull_event ev 3 owner repo ''opened'' pr s3
          in commit ev 1 s4 pr c1) = (Inr pr, c')"
    using ran unfolding create_pull_request_def by (auto simp only: try_pure_Inr try_op_Inr)
  obtain number s1 where next_number: "next_record_number owner repo (live c1) = (number, s1)"
    by (cases "next_record_number owner repo (live c1)")
  have stored: "pr = reevaluated ev s1 (new_pull ev owner repo author number request)"
    "c' = persisted (pull_event ev 3 owner repo ''opened'' pr (put_pull owner repo number pr
      (s1\<lparr>st_issues := hm_put (owner, repo, number) (new_pull_issue ev owner repo author number request)
              (st_issues s1)\<rparr>))) c1"
    using rest by (auto simp: next_number Let_def)
  have "st_repos (live c1) = st_repos (live c)" using ensure_user_cases [of ev 0 author c] user by auto
  then have repos: "st_repos s1 = st_repos (live c)" using next_number by (auto simp: next_record_number_def Let_def)
  have number: "pr_number pr = number" unfolding stored(1) by (simp add: new_pull_def)
  from stored(2) number repos old show ?thesis
    by (auto simp: put_pull_def pull_event_def list_pull_requests_def ensure_repo_exists_def canonical_repository_def)
qed

end
