(* ===== verification/Bot_Reach.thy ===== *)
theory Bot_Reach
  imports Account_Types Forge_Types
begin

text \<open>
  What a bot is and may touch (\<^verbatim>\<open>model/bots.rs\<close>): kinds, summaries, reaches, and the patterns of refs a
  reach may be cut down to. Matching a pattern is proved to be the declarative reading of \<^verbatim>\<open>*\<close> as "any
  sequence", which the code decides by a left-to-right search.
\<close>

section \<open>Kinds\<close>

definition KIND_MAX_LEN :: nat where
  "KIND_MAX_LEN = 32"

definition INVALID_KIND_CODE :: string where
  "INVALID_KIND_CODE = ''invalid_bot_kind''"

definition kind_is_valid :: "string \<Rightarrow> bool" where
  "kind_is_valid value =
     (case value of
        [] \<Rightarrow> False
      | first # rest \<Rightarrow>
          is_ascii_lowercase first \<and> length value \<le> KIND_MAX_LEN \<and>
          list_all (\<lambda>b. is_ascii_lowercase b \<or> is_ascii_digit b \<or> b = CHR ''-'') rest)"

definition kind_parse :: "string \<Rightarrow> forge_error + string" where
  "kind_parse value =
     (if kind_is_valid value then Inr value
      else Inl (Validation (INVALID_KIND_CODE @ '': bot kind must match ^[a-z][a-z0-9-]{0,31}$'')))"

definition kind_label :: "string \<Rightarrow> string" where
  "kind_label kind =
     (if kind = ''grok'' then ''Grokbot'' else if kind = ''muse'' then ''Musebot'' else kind)"

primrec owner_kind_as_str :: "bot_owner_kind \<Rightarrow> string" where
  "owner_kind_as_str OwnedByUser = ''user''"
| "owner_kind_as_str OwnedByOrganization = ''organization''"

definition access_allows_write :: "bot_repo_access \<Rightarrow> bool" where
  "access_allows_write access = (access = BotWrite)"

section \<open>Calls and views\<close>

datatype bot_effect = EffectRead | EffectWrite

record bot_repo_grant =
  gv_bot_id :: uuid
  gv_owner :: string
  gv_repo :: string
  gv_access :: bot_repo_access
  gv_granted_by :: string
  gv_granted_at :: time

record bot_summary =
  bs_id :: uuid
  bs_owner :: string
  bs_owner_kind :: bot_owner_kind
  bs_steward_team :: "string option"
  bs_acting_login :: string
  bs_slug :: string
  bs_display_name :: string
  bs_kind :: string
  bs_status :: bot_status
  bs_reach :: bot_reach
  bs_credential_generation :: u64
  bs_last_successful_access :: "time option"
  bs_last_auth :: "time option"
  bs_last_mutation :: "time option"
  bs_last_heartbeat :: "time option"
  bs_last_action :: "string option"
  bs_last_outcome :: "string option"
  bs_last_repo :: "string option"
  bs_created_at :: time

record bot_enrollment =
  en_bot :: bot_summary
  en_key_id :: string
  en_enrollment_key :: string

record bot_access_token_issued =
  ti_bot :: bot_summary
  ti_token_id :: string
  ti_token :: string
  ti_label :: "string option"
  ti_created_at :: time
  ti_expires_at :: time

record bot_access_token_summary =
  ts_token_id :: string
  ts_bot_id :: uuid
  ts_label :: "string option"
  ts_issued_by :: "string option"
  ts_created_at :: time
  ts_expires_at :: time
  ts_last_used_at :: "time option"
  ts_revoked_at :: "time option"

record bot_access_token_auth =
  ta_bot :: bot_summary
  ta_token_id :: string
  ta_key_id :: string
  ta_generation :: u64
  ta_expires_at :: time

record bot_session =
  be_bot :: bot_summary
  be_key_id :: string
  be_generation :: u64
  be_refresh_token :: string
  be_refresh_expires_at :: time

record bot_call =
  ca_bot_id :: uuid
  ca_generation :: u64
  ca_key_id :: string
  ca_owner :: string
  ca_repo :: string
  ca_effect :: bot_effect
  ca_task_kind :: "bot_task_kind option"
  ca_task_id :: "string option"

record bot_observation =
  ob_key_id :: string
  ob_action :: string
  ob_outcome :: string
  ob_scope :: string
  ob_repo :: "string option"
  ob_session_id :: "string option"
  ob_success :: bool
  ob_mutation :: bool
  ob_heartbeat :: bool

datatype bot_operation_gate = Start | Replay string | InProgress

section \<open>Refs a reach is cut down to\<close>

definition MAX_REFS :: nat where
  "MAX_REFS = 100"

definition MAX_OWNERS_REACH :: nat where
  "MAX_OWNERS_REACH = 20"

definition INVALID_OWNERS_CODE :: string where
  "INVALID_OWNERS_CODE = ''invalid_reach_owners''"

fun reach_refs :: "bot_reach \<Rightarrow> string list option" where
  "reach_refs (ReachGeneral refs) = refs"
| "reach_refs (ReachOwners _ refs) = refs"
| "reach_refs (ReachRepositories _ refs) = refs"
| "reach_refs (ReachTask _ _ _ refs) = refs"

definition ref_byte_ok :: "bool \<Rightarrow> char \<Rightarrow> bool" where
  "ref_byte_ok pattern b =
     (\<not> (byte b \<le> 32 \<or> byte b = 127 \<or> b \<in> set [CHR ''~'', CHR ''^'', CHR '':'', CHR ''?'', CHR ''['', CHR 0x5C] \<or>
         \<not> pattern \<and> b = CHR ''*''))"

definition valid_bot_ref :: "string \<Rightarrow> bool \<Rightarrow> bool" where
  "valid_bot_ref value pattern =
     ((starts_with value ''refs/heads/'' \<or> starts_with value ''refs/tags/'') \<and> length value \<le> 1024 \<and>
      \<not> ends_with value ''.'' \<and> \<not> contains_text value ''..'' \<and> \<not> contains_text value (CHR ''@'' # ''{'') \<and>
      list_all (ref_byte_ok pattern) value \<and>
      list_all (\<lambda>part. part \<noteq> [] \<and> \<not> starts_with part ''.'' \<and> \<not> ends_with part ''.lock'')
        (split_on (CHR ''/'') value))"

text \<open>The loop over the parts between stars: each but the last is skipped to by its first occurrence,
  the last one ends the text.\<close>

fun match_parts :: "string list \<Rightarrow> string \<Rightarrow> bool" where
  "match_parts [] rest = (rest = [])"
| "match_parts [part] rest = ends_with rest part"
| "match_parts (part # part' # parts) rest =
     (case find_text part rest of
        None \<Rightarrow> False
      | Some index \<Rightarrow> match_parts (part' # parts) (drop (index + length part) rest))"

definition ref_pattern_matches :: "string \<Rightarrow> string \<Rightarrow> bool" where
  "ref_pattern_matches pattern reference =
     (case split_on (CHR ''*'') pattern of
        [] \<Rightarrow> match_parts [] reference
      | first # parts \<Rightarrow>
          (case strip_prefix reference first of None \<Rightarrow> False | Some rest \<Rightarrow> match_parts parts rest))"

definition allows_ref :: "bot_reach \<Rightarrow> string \<Rightarrow> bool" where
  "allows_ref reach reference =
     (case reach_refs reach of
        None \<Rightarrow> True
      | Some patterns \<Rightarrow>
          valid_bot_ref reference False \<and>
          (\<exists>pattern \<in> set patterns. valid_bot_ref pattern True \<and> ref_pattern_matches pattern reference))"

definition validate_refs :: "bot_reach \<Rightarrow> forge_error + unit" where
  "validate_refs reach =
     (case reach_refs reach of
        None \<Rightarrow> Inr ()
      | Some refs \<Rightarrow>
          if MAX_REFS < length refs \<or> (\<exists>pattern \<in> set refs. \<not> valid_bot_ref pattern True)
          then Inl (Validation (''invalid_reach_refs: expected at most 100 full refs/heads/ or refs/tags/ ''
                 @ ''patterns, each at most 1024 bytes; only * is a wildcard''))
          else Inr ())"

section \<open>Matching a pattern\<close>

text \<open>The declarative reading: a star stands for any text, every other character for itself.\<close>

fun glob :: "string \<Rightarrow> string \<Rightarrow> bool" where
  "glob [] s \<longleftrightarrow> s = []"
| "glob (c # p) s \<longleftrightarrow>
     (if c = CHR ''*'' then \<exists>i \<le> length s. glob p (drop i s) else s \<noteq> [] \<and> hd s = c \<and> glob p (tl s))"

text \<open>What the parts between the stars say of the text after the first star.\<close>

fun star_parts :: "string list \<Rightarrow> string \<Rightarrow> bool" where
  "star_parts [] s \<longleftrightarrow> s = []"
| "star_parts [part] s \<longleftrightarrow> ends_with s part"
| "star_parts (part # part' # parts) s \<longleftrightarrow>
     (\<exists>i \<le> length s. starts_with (drop i s) part \<and> star_parts (part' # parts) (drop (i + length part) s))"

lemma ends_with_iff: "ends_with s part \<longleftrightarrow> (\<exists>i \<le> length s. drop i s = part)"
proof
  assume "ends_with s part"
  then show "\<exists>i \<le> length s. drop i s = part"
    by (intro exI [of _ "length s - length part"]) (auto simp: ends_with_def)
next
  assume "\<exists>i \<le> length s. drop i s = part"
  then show "ends_with s part" by (auto simp: ends_with_def)
qed

text \<open>What matches a suffix matches the text: the star before it takes the rest.\<close>

lemma star_parts_suffix: "parts \<noteq> [] \<Longrightarrow> star_parts parts (drop k s) \<Longrightarrow> star_parts parts s"
proof (induction parts s rule: star_parts.induct)
  case (2 part s)
  then show ?case
    by (auto simp: ends_with_iff) (metis drop_all le_refl nat_le_linear)
next
  case (3 part part' parts s)
  then obtain i where i: "i \<le> length s - k" "starts_with (drop (i + k) s) part"
      "star_parts (part' # parts) (drop (i + length part + k) s)"
    by (auto simp: add_ac)
  show ?case
  proof (cases "k \<le> length s")
    case True
    with i show ?thesis by (auto simp: add_ac intro!: exI [of _ "i + k"])
  next
    case False
    with i show ?thesis by (auto simp: add_ac intro!: exI [of _ "length s"])
  qed
qed simp

text \<open>The leftmost occurrence serves whenever any does.\<close>

lemma match_parts_iff: "parts \<noteq> [] \<Longrightarrow> match_parts parts s \<longleftrightarrow> star_parts parts s"
proof (induction parts s rule: match_parts.induct)
  case (3 part part' parts s)
  show ?case
  proof (cases "find_text part s")
    case None
    then have "\<forall>i \<le> length s. \<not> starts_with (drop i s) part" by (simp add: find_text_None)
    with None show ?thesis by auto
  next
    case (Some i0)
    have first: "i0 \<le> length s" "starts_with (drop i0 s) part" "\<forall>j < i0. \<not> starts_with (drop j s) part"
      using Some by (auto simp: find_text_Some)
    have "star_parts (part # part' # parts) s \<longleftrightarrow> star_parts (part' # parts) (drop (i0 + length part) s)"
    proof
      assume "star_parts (part # part' # parts) s"
      then obtain i where i: "starts_with (drop i s) part" "star_parts (part' # parts) (drop (i + length part) s)"
        by auto
      with first(3) have "i0 \<le> i" using not_le_imp_less by blast
      then have "drop (i + length part) s = drop (i - i0) (drop (i0 + length part) s)" by (simp add: add_ac)
      with i(2) star_parts_suffix show "star_parts (part' # parts) (drop (i0 + length part) s)" by fastforce
    next
      assume "star_parts (part' # parts) (drop (i0 + length part) s)"
      with first show "star_parts (part # part' # parts) s" by auto
    qed
    with 3 Some show ?thesis by simp
  qed
qed simp_all

lemma split_on_plain: "c \<notin> set s \<Longrightarrow> split_on c s = [s]"
  by (induction s) auto

lemma split_on_first: "c \<notin> set a \<Longrightarrow> split_on c (a @ c # b) = a # split_on c b"
  by (induction a) auto

lemma split_on_nonempty [simp]: "split_on c s \<noteq> []"
  by (induction s) (auto split: list.split)

lemma glob_plain:
  "CHR ''*'' \<notin> set p \<Longrightarrow> glob (p @ q) s \<longleftrightarrow> starts_with s p \<and> glob q (drop (length p) s)"
proof (induction p arbitrary: s)
  case (Cons c p)
  then show ?case by (cases s) (auto simp: starts_with_def)
qed (simp add: starts_with_def)

lemma glob_star: "(\<exists>i \<le> length s. glob p (drop i s)) \<longleftrightarrow> star_parts (split_on (CHR ''*'') p) s"
proof (induction "length p" arbitrary: p s rule: less_induct)
  case less
  show ?case
  proof (cases "CHR ''*'' \<in> set p")
    case False
    have "glob p t \<longleftrightarrow> t = p" for t
      using glob_plain [OF False, of "[]" t] by (auto simp: starts_with_def)
    with False show ?thesis by (simp add: split_on_plain ends_with_iff)
  next
    case True
    then obtain a b where p: "p = a @ CHR ''*'' # b" "CHR ''*'' \<notin> set a" by (meson split_list_first)
    obtain q qs where parts: "split_on (CHR ''*'') b = q # qs" by (cases "split_on (CHR ''*'') b") auto
    have "glob p t \<longleftrightarrow> starts_with t a \<and> star_parts (q # qs) (drop (length a) t)" for t
      using less [of b "drop (length a) t"] by (simp add: p glob_plain parts)
    then show ?thesis by (simp add: p split_on_first parts add.commute)
  qed
qed

lemma ref_pattern_glob: "ref_pattern_matches pattern reference \<longleftrightarrow> glob pattern reference"
proof (cases "CHR ''*'' \<in> set pattern")
  case False
  have "glob pattern reference \<longleftrightarrow> starts_with reference pattern \<and> drop (length pattern) reference = []"
    using glob_plain [OF False, of "[]" reference] by simp
  with False show ?thesis
    by (auto simp: ref_pattern_matches_def split_on_plain strip_prefix_def)
next
  case True
  then obtain a b where p: "pattern = a @ CHR ''*'' # b" "CHR ''*'' \<notin> set a" by (meson split_list_first)
  then show ?thesis
    using glob_star [of "drop (length a) reference" b]
    by (simp add: ref_pattern_matches_def split_on_first strip_prefix_def glob_plain match_parts_iff)
qed

text \<open>
  C22. Matching a ref against a pattern decides the declarative reading of the pattern, in which each
  star stands for any text, slashes included: taking the first occurrence of every part between two
  stars never misses a match.
\<close>

theorem ref_pattern_is_glob: "ref_pattern_matches pattern reference \<longleftrightarrow> glob pattern reference"
  by (rule ref_pattern_glob)

section \<open>Well-formed refs\<close>

text \<open>
  A part of a text between two separators, said without splitting it: it holds no separator and is
  bounded on each side by one or by the end of the text.
\<close>

definition part_of :: "char \<Rightarrow> string \<Rightarrow> string \<Rightarrow> bool" where
  "part_of c part s \<longleftrightarrow>
     (\<exists>pre post. s = pre @ part @ post \<and> c \<notin> set part \<and>
        (pre = [] \<or> last pre = c) \<and> (post = [] \<or> hd post = c))"

lemma split_on_parts: "part \<in> set (split_on c s) \<longleftrightarrow> part_of c part s"
proof (induction s rule: length_induct)
  case (1 s)
  show ?case
  proof (cases "c \<in> set s")
    case False
    have "part = s" if "part_of c part s"
    proof -
      from that obtain pre post where s: "s = pre @ part @ post" "pre = [] \<or> last pre = c" "post = [] \<or> hd post = c"
        unfolding part_of_def by blast
      have "pre = []" using False s(1,2) by (metis UnI1 last_in_set set_append)
      moreover have "post = []" using False s(1,3) by (metis UnI2 hd_in_set set_append)
      ultimately show ?thesis by (simp add: s(1))
    qed
    moreover have "part_of c s s" unfolding part_of_def using False by (intro exI [of _ "[]"]) simp
    ultimately have "part_of c part s \<longleftrightarrow> part = s" by blast
    with False show ?thesis by (simp add: split_on_plain)
  next
    case True
    then obtain a b where s: "s = a @ c # b" "c \<notin> set a" by (meson split_list_first)
    have first: "part = a"
      if "part @ post = a @ c # b" "c \<notin> set part" "post = [] \<or> hd post = c" for post
    proof -
      have "\<forall>x \<in> set part. x \<noteq> c" "\<forall>x \<in> set a. x \<noteq> c" using that(2) s(2) by blast+
      then have "takeWhile (\<lambda>x. x \<noteq> c) (part @ post) = part" "takeWhile (\<lambda>x. x \<noteq> c) (a @ c # b) = a"
        using that(3) by (cases post; simp add: takeWhile_append2)+
      with that(1) show ?thesis by simp
    qed
    have rest: "\<exists>pre'. b = pre' @ part @ post \<and> (pre' = [] \<or> last pre' = c)"
      if "pre @ part @ post = a @ c # b" "pre \<noteq> []" "last pre = c" for pre post
    proof -
      have outside: "pre \<noteq> take n a" for n using that(2,3) s(2) by (metis in_set_takeD last_in_set)
      from that(1) consider us where "pre = a @ us" "us @ part @ post = c # b" | us where "pre @ us = a"
        by (metis append_eq_append_conv2)
      then show ?thesis
      proof cases
        case 1
        with outside [of "length a"] obtain pre' where "us = c # pre'" "pre' @ part @ post = b"
          by (cases us) auto
        with 1 that(3) show ?thesis by (intro exI [of _ pre']) (auto split: if_splits)
      next
        case 2
        with outside [of "length pre"] show ?thesis by auto
      qed
    qed
    have "part_of c part s \<longleftrightarrow> part = a \<or> part_of c part b"
    proof
      assume "part_of c part s"
      with first rest show "part = a \<or> part_of c part b" unfolding part_of_def s(1) by (metis append_Nil)
    next
      assume "part = a \<or> part_of c part b"
      then show "part_of c part s"
      proof
        assume "part = a"
        then show ?thesis unfolding part_of_def s(1) using s(2) by (metis append_Nil list.sel(1))
      next
        assume "part_of c part b"
        then obtain pre post where "b = pre @ part @ post" "c \<notin> set part" "pre = [] \<or> last pre = c"
          "post = [] \<or> hd post = c" unfolding part_of_def by blast
        then show ?thesis unfolding part_of_def s(1)
          by (intro exI [of _ "a @ c # pre"] exI [of _ post]) auto
      qed
    qed
    moreover have "part \<in> set (split_on c b) \<longleftrightarrow> part_of c part b" using 1 s(1) by simp
    ultimately show ?thesis by (simp add: s split_on_first)
  qed
qed

lemma starts_with_iff: "starts_with s p \<longleftrightarrow> (\<exists>rest. s = p @ rest)"
  unfolding starts_with_def by (metis append_eq_conv_conj)

lemma ends_with_suffix: "ends_with s p \<longleftrightarrow> (\<exists>rest. s = rest @ p)"
  unfolding ends_with_def by (metis append_eq_conv_conj append_take_drop_id diff_diff_cancel diff_le_self
      length_append length_drop le_add2 add_diff_cancel_right')

lemma contains_text_iff: "contains_text s part \<longleftrightarrow> (\<exists>pre post. s = pre @ part @ post)"
proof -
  have "contains_text s part \<longleftrightarrow> (\<exists>i \<le> length s. starts_with (drop i s) part)"
    unfolding contains_text_def using find_text_None by metis
  also have "\<dots> \<longleftrightarrow> (\<exists>pre post. s = pre @ part @ post)"
    unfolding starts_with_iff by (metis append_eq_conv_conj append_take_drop_id length_append le_add1)
  finally show ?thesis .
qed

text \<open>
  What a full ref or, with \<open>star\<close>, a pattern of full refs is: below \<^verbatim>\<open>refs/heads/\<close> or \<^verbatim>\<open>refs/tags/\<close>, no longer
  than 1024 bytes, without control characters, blanks and the characters git forbids, no two dots in a
  row, no dot at the end, and no component that is empty, starts with a dot or ends in \<^verbatim>\<open>.lock\<close>.
\<close>

definition full_ref :: "bool \<Rightarrow> string \<Rightarrow> bool" where
  "full_ref star v \<longleftrightarrow>
     (\<exists>rest. v = ''refs/heads/'' @ rest \<or> v = ''refs/tags/'' @ rest) \<and> length v \<le> 1024 \<and>
     (\<nexists>pre. v = pre @ ''.'') \<and>
     (\<nexists>pre post. v = pre @ ''..'' @ post) \<and> (\<nexists>pre post. v = pre @ [CHR ''@'', CHR ''{''] @ post) \<and>
     (\<forall>ch \<in> set v. 32 < byte ch \<and> byte ch \<noteq> 127 \<and>
        ch \<noteq> CHR ''~'' \<and> ch \<noteq> CHR ''^'' \<and> ch \<noteq> CHR '':'' \<and> ch \<noteq> CHR ''?'' \<and> ch \<noteq> CHR ''['' \<and> ch \<noteq> CHR 0x5C \<and>
        (ch = CHR ''*'' \<longrightarrow> star)) \<and>
     (\<forall>part. part_of (CHR ''/'') part v \<longrightarrow>
        part \<noteq> [] \<and> (\<nexists>rest. part = CHR ''.'' # rest) \<and> (\<nexists>pre. part = pre @ ''.lock''))"

lemma ref_byte_ok_iff:
  "ref_byte_ok star ch \<longleftrightarrow> 32 < byte ch \<and> byte ch \<noteq> 127 \<and>
     ch \<noteq> CHR ''~'' \<and> ch \<noteq> CHR ''^'' \<and> ch \<noteq> CHR '':'' \<and> ch \<noteq> CHR ''?'' \<and> ch \<noteq> CHR ''['' \<and> ch \<noteq> CHR 0x5C \<and>
     (ch = CHR ''*'' \<longrightarrow> star)"
  unfolding ref_byte_ok_def by (simp only: list.set insert_iff empty_iff de_Morgan_disj not_le) blast

lemma valid_bot_ref_iff: "valid_bot_ref v star \<longleftrightarrow> full_ref star v"
proof -
  have named: "starts_with v ''refs/heads/'' \<or> starts_with v ''refs/tags/'' \<longleftrightarrow>
      (\<exists>rest. v = ''refs/heads/'' @ rest \<or> v = ''refs/tags/'' @ rest)"
    unfolding starts_with_iff by blast
  have dot: "starts_with part ''.'' \<longleftrightarrow> (\<exists>rest. part = CHR ''.'' # rest)" for part
    unfolding starts_with_iff by simp
  have component: "(\<forall>part \<in> set (split_on (CHR ''/'') v). part \<noteq> [] \<and> \<not> starts_with part ''.'' \<and>
        \<not> ends_with part ''.lock'') \<longleftrightarrow>
      (\<forall>part. part_of (CHR ''/'') part v \<longrightarrow>
        part \<noteq> [] \<and> (\<nexists>rest. part = CHR ''.'' # rest) \<and> (\<nexists>pre. part = pre @ ''.lock''))"
    unfolding Ball_def split_on_parts dot ends_with_suffix ..
  show ?thesis
    unfolding valid_bot_ref_def full_ref_def list_all_iff named component
    unfolding ref_byte_ok_iff contains_text_iff ends_with_suffix by (simp only: conj_assoc)
qed

end
