(* ===== verification/Bots.thy ===== *)
theory Bots
  imports Bot_Reach Organizations Review_Ops Issues
begin

text \<open>
  The roster of bots (\<^verbatim>\<open>engine/bots.rs\<close>, and \<^verbatim>\<open>is_steward\<close> and the grants of \<^verbatim>\<open>engine/team_bots.rs\<close>): who
  manages a bot, what its reach and its grants allow, enrolling, listing, rotating, suspending and
  revoking.
\<close>

section \<open>Owners, stewards and grants\<close>

definition is_steward :: "state \<Rightarrow> bot_record \<Rightarrow> string \<Rightarrow> bool" where
  "is_steward s b actor =
     (if bo_owner_kind b \<noteq> OwnedByOrganization then False
      else if state_is_admin s actor then True
      else active_account s actor \<and>
        (case bo_steward_team b of None \<Rightarrow> False | Some tm \<Rightarrow> is_team_member s (bo_owner b) tm actor))"

definition may_manage_bot :: "state \<Rightarrow> string \<Rightarrow> bot_record \<Rightarrow> bool" where
  "may_manage_bot s actor b =
     (case bo_owner_kind b of
        OwnedByUser \<Rightarrow> bo_owner b = actor
      | OwnedByOrganization \<Rightarrow> is_steward s b actor)"

definition bot_not_found :: "uuid \<Rightarrow> forge_error" where
  "bot_not_found bot_id = NotFound (''bot '' @ show_uuid bot_id)"

definition managed_bot :: "state \<Rightarrow> string \<Rightarrow> uuid \<Rightarrow> forge_error + bot_record" where
  "managed_bot s actor bot_id =
     (case hm_get (st_bots s) bot_id of
        None \<Rightarrow> Inl (bot_not_found bot_id)
      | Some b \<Rightarrow> if may_manage_bot s actor b then Inr b else Inl (bot_not_found bot_id))"

definition acting_login :: "bot_record \<Rightarrow> string" where
  "acting_login b =
     (case bo_owner_kind b of
        OwnedByUser \<Rightarrow> bo_owner b
      | OwnedByOrganization \<Rightarrow> team_bot_login (bo_owner b) (bo_slug b))"

definition bot_summary_from :: "bot_record \<Rightarrow> bot_summary" where
  "bot_summary_from b =
     \<lparr>bs_id = bo_id b, bs_owner = bo_owner b, bs_owner_kind = bo_owner_kind b,
      bs_steward_team = bo_steward_team b, bs_acting_login = acting_login b, bs_slug = bo_slug b,
      bs_display_name = bo_display_name b, bs_kind = bo_kind b, bs_status = bo_status b,
      bs_reach = bo_reach b, bs_credential_generation = bo_credential_generation b,
      bs_last_successful_access = bo_last_successful_access b, bs_last_auth = bo_last_auth b,
      bs_last_mutation = bo_last_mutation b, bs_last_heartbeat = bo_last_heartbeat b,
      bs_last_action = bo_last_action b, bs_last_outcome = bo_last_outcome b,
      bs_last_repo = bo_last_repo b, bs_created_at = bo_created_at b\<rparr>"

definition grant_allows :: "state \<Rightarrow> uuid \<Rightarrow> string \<Rightarrow> string \<Rightarrow> bool \<Rightarrow> bool" where
  "grant_allows s bot_id owner repo for_write =
     (case hm_get (st_repos s) (owner, repo) of
        None \<Rightarrow> False
      | Some repository \<Rightarrow>
          if \<not> for_write \<and> \<not> rp_private repository then True
          else (case grant_access s bot_id owner repo of
                  None \<Rightarrow> False | Some access \<Rightarrow> \<not> for_write \<or> access_allows_write access))"

definition owner_has_grant :: "state \<Rightarrow> string \<Rightarrow> string \<Rightarrow> string \<Rightarrow> bool" where
  "owner_has_grant s login owner repo =
     (case hm_get (st_accounts s) login of
        None \<Rightarrow> False
      | Some account \<Rightarrow>
          permits_authentication (ua_status account) \<and>
          (case hm_get (st_repo_grants s) (login, owner, repo) of
             None \<Rightarrow> False | Some grant \<Rightarrow> allows_read (ga_access grant)))"

definition bot_has_grant :: "state \<Rightarrow> bot_record \<Rightarrow> string \<Rightarrow> string \<Rightarrow> bool" where
  "bot_has_grant s b owner repo =
     (case bo_owner_kind b of
        OwnedByUser \<Rightarrow> owner_has_grant s (bo_owner b) owner repo
      | OwnedByOrganization \<Rightarrow> grant_access s (bo_id b) owner repo \<noteq> None)"

definition owner_grant_allows :: "state \<Rightarrow> string \<Rightarrow> string \<Rightarrow> string \<Rightarrow> bool \<Rightarrow> bool" where
  "owner_grant_allows s login owner repo for_write =
     (case hm_get (st_accounts s) login of
        None \<Rightarrow> False
      | Some account \<Rightarrow>
          if \<not> permits_authentication (ua_status account) then False
          else case hm_get (st_repos s) (owner, repo) of
            None \<Rightarrow> False
          | Some repo_row \<Rightarrow>
              if \<not> for_write \<and> \<not> rp_private repo_row then True
              else case hm_get (st_repo_grants s) (login, owner, repo) of
                None \<Rightarrow> False
              | Some grant \<Rightarrow>
                  if for_write then allows_write (ga_access grant) else allows_read (ga_access grant))"

definition bot_grant_allows :: "state \<Rightarrow> bot_record \<Rightarrow> string \<Rightarrow> string \<Rightarrow> bool \<Rightarrow> bool" where
  "bot_grant_allows s b owner repo for_write =
     (case bo_owner_kind b of
        OwnedByUser \<Rightarrow> owner_grant_allows s (bo_owner b) owner repo for_write
      | OwnedByOrganization \<Rightarrow> grant_allows s (bo_id b) owner repo for_write)"

section \<open>Reach\<close>

definition names_repo :: "string \<Rightarrow> string \<Rightarrow> bot_repo_ref \<Rightarrow> bool" where
  "names_repo owner repo r = (bf_owner r = owner \<and> bf_name r = repo)"

fun reach_lists_repo :: "state \<Rightarrow> bot_record \<Rightarrow> bot_reach \<Rightarrow> string \<Rightarrow> string \<Rightarrow> bool" where
  "reach_lists_repo s b (ReachGeneral _) owner repo = bot_has_grant s b owner repo"
| "reach_lists_repo s b (ReachOwners owners _) owner repo = (owner \<in> set owners \<and> bot_has_grant s b owner repo)"
| "reach_lists_repo s b (ReachRepositories repos _) owner repo = list_ex (names_repo owner repo) repos"
| "reach_lists_repo s b (ReachTask bound _ _ _) owner repo = names_repo owner repo bound"

fun clip_reach :: "bot_reach \<Rightarrow> string \<Rightarrow> string \<Rightarrow> bot_reach" where
  "clip_reach (ReachOwners _ refs) owner repo = ReachRepositories [\<lparr>bf_owner = owner, bf_name = repo\<rparr>] refs"
| "clip_reach (ReachRepositories repos refs) owner repo =
     ReachRepositories (filter (names_repo owner repo) repos) refs"
| "clip_reach other owner repo = other"

definition clip_activity :: "bot_summary \<Rightarrow> string \<Rightarrow> string \<Rightarrow> bot_summary" where
  "clip_activity summary owner repo =
     (if bs_last_repo summary \<noteq> Some (owner @ ''/'' @ repo)
      then summary\<lparr>bs_last_repo := None, bs_last_action := None, bs_last_outcome := None,
                   bs_last_mutation := None\<rparr>
      else summary)"

fun reach_allows :: "state \<Rightarrow> bot_record \<Rightarrow> bot_reach \<Rightarrow> bot_call \<Rightarrow> bool" where
  "reach_allows s b (ReachGeneral _) call = True"
| "reach_allows s b (ReachOwners owners _) call =
     (ca_owner call \<in> set owners \<and> bot_has_grant s b (ca_owner call) (ca_repo call))"
| "reach_allows s b (ReachRepositories repos _) call = list_ex (names_repo (ca_owner call) (ca_repo call)) repos"
| "reach_allows s b (ReachTask repo task_kind task_id _) call =
     (if \<not> names_repo (ca_owner call) (ca_repo call) repo then False
      else if ca_effect call = EffectRead then True
      else ca_task_kind call = Some task_kind \<and> ca_task_id call = Some task_id)"

fun reach_denial_code :: "bot_reach \<Rightarrow> bot_call \<Rightarrow> string" where
  "reach_denial_code (ReachTask repo _ _ _) call =
     (if ca_effect call = EffectWrite \<and> names_repo (ca_owner call) (ca_repo call) repo
      then ''task_not_granted'' else ''repo_not_granted'')"
| "reach_denial_code _ call = ''repo_not_granted''"

definition owner_is_known :: "state \<Rightarrow> string \<Rightarrow> bool" where
  "owner_is_known s owner =
     (hm_has (st_accounts s) owner \<or> hm_has (st_users s) owner \<or> hm_has (st_organizations s) owner \<or>
      owner \<in> fst ` fst ` set (st_repos s))"

definition owners_count_error :: forge_error where
  "owners_count_error =
     Validation (INVALID_OWNERS_CODE @ '': owners reach needs between 1 and '' @ show_nat MAX_OWNERS_REACH
       @ '' distinct owners'')"

fun normalize_owners_loop :: "state \<Rightarrow> string list \<Rightarrow> string list \<Rightarrow> forge_error + string list" where
  "normalize_owners_loop s seen [] = Inr seen"
| "normalize_owners_loop s seen (owner # owners) =
     (let owner = to_ascii_lowercase (str_trim owner) in
      if owner = [] \<or> CHR ''/'' \<in> set owner
      then Inl (Validation (INVALID_OWNERS_CODE
             @ '': each owner must be a non-empty account or organization name''))
      else if owner \<in> set seen then normalize_owners_loop s seen owners
      else if length seen = MAX_OWNERS_REACH then Inl owners_count_error
      else if \<not> owner_is_known s owner
      then Inl (Validation (INVALID_OWNERS_CODE @ '': owner '' @ owner
             @ '' is not an account or organization on this forge''))
      else normalize_owners_loop s (seen @ [owner]) owners)"

definition normalize_owners :: "state \<Rightarrow> string list \<Rightarrow> string list option \<Rightarrow> forge_error + bot_reach" where
  "normalize_owners s owners refs =
     (if owners = [] then Inl owners_count_error
      else try_res (normalize_owners_loop s [] owners) (\<lambda>seen. Inr (ReachOwners seen refs)))"

definition require_readable_repo :: "state \<Rightarrow> string \<Rightarrow> bot_repo_ref \<Rightarrow> forge_error + bot_repo_ref" where
  "require_readable_repo s actor r =
     try_res (canonical_repository s (bf_owner r) (bf_name r)) (\<lambda>_.
       if \<not> owner_grant_allows s actor (bf_owner r) (bf_name r) False
       then Inl (Validation ''reach cannot grant a repository the account cannot access'')
       else Inr \<lparr>bf_owner = bf_owner r, bf_name = bf_name r\<rparr>)"

fun readable_repos_loop ::
  "state \<Rightarrow> string \<Rightarrow> bot_repo_ref list \<Rightarrow> bot_repo_ref list \<Rightarrow> forge_error + bot_repo_ref list" where
  "readable_repos_loop s actor seen [] = Inr seen"
| "readable_repos_loop s actor seen (r # rs) =
     try_res (require_readable_repo s actor r) (\<lambda>normalized.
       readable_repos_loop s actor (if normalized \<in> set seen then seen else seen @ [normalized]) rs)"

definition MAX_REPOS :: nat where
  "MAX_REPOS = 100"

definition validate_task ::
  "env \<Rightarrow> state \<Rightarrow> bot_repo_ref \<Rightarrow> bot_task_kind \<Rightarrow> string \<Rightarrow> forge_error + unit" where
  "validate_task ev s repo kind task_id =
     (let task_id = str_trim task_id in
      if task_id = [] then Inl (Validation ''task id cannot be empty'')
      else case kind of
        TaskBranch \<Rightarrow>
          if split_whitespace task_id \<noteq> [task_id] \<or> contains_text task_id ''..'' \<or> starts_with task_id ''/''
          then Inl (Validation ''branch task id must be a single branch name'')
          else Inr ()
      | TaskIssue \<Rightarrow>
          try_res (ok_or (parse_u64 task_id) (Validation ''issue or pull task id must be a number'')) (\<lambda>number.
          try_res (get_issue s (bf_owner repo) (bf_name repo) number) (\<lambda>_. Inr ()))
      | TaskPull \<Rightarrow>
          try_res (ok_or (parse_u64 task_id) (Validation ''issue or pull task id must be a number'')) (\<lambda>number.
          try_res (get_pull_request ev s (bf_owner repo) (bf_name repo) number) (\<lambda>_. Inr ())))"

fun normalize_kind :: "env \<Rightarrow> state \<Rightarrow> string \<Rightarrow> bot_reach \<Rightarrow> forge_error + bot_reach" where
  "normalize_kind ev s actor (ReachGeneral refs) = Inr (ReachGeneral refs)"
| "normalize_kind ev s actor (ReachOwners owners refs) = normalize_owners s owners refs"
| "normalize_kind ev s actor (ReachRepositories repos refs) =
     (if repos = [] \<or> MAX_REPOS < length repos
      then Inl (Validation ''repository reach needs between 1 and 100 repositories'')
      else try_res (readable_repos_loop s actor [] repos) (\<lambda>seen. Inr (ReachRepositories seen refs)))"
| "normalize_kind ev s actor (ReachTask repo task_kind task_id refs) =
     try_res (require_readable_repo s actor repo) (\<lambda>repo.
     try_res (validate_task ev s repo task_kind task_id) (\<lambda>_.
       Inr (ReachTask repo task_kind (str_trim task_id) refs)))"

definition normalize_reach :: "env \<Rightarrow> state \<Rightarrow> string \<Rightarrow> bot_reach \<Rightarrow> forge_error + bot_reach" where
  "normalize_reach ev s actor reach = try_res (validate_refs reach) (\<lambda>_. normalize_kind ev s actor reach)"

section \<open>Keys and audit\<close>

definition KEY_PREFIX_LIVE :: string where
  "KEY_PREFIX_LIVE = ''jbk_live''"

definition KEY_PREFIX_TEST :: string where
  "KEY_PREFIX_TEST = ''jbk_test''"

definition ROTATION_GRACE_MINUTES :: int where
  "ROTATION_GRACE_MINUTES = 5"

text \<open>\<^verbatim>\<open>saturating_add(1)\<close> of a \<^verbatim>\<open>u64\<close>.\<close>

definition u64_saturating_succ :: "u64 \<Rightarrow> u64" where
  "u64_saturating_succ n = min (n + 1) (2 ^ 64 - 1)"

definition key_is_live :: "bot_key_record \<Rightarrow> time \<Rightarrow> bool" where
  "key_is_live key now =
     (bk_revoked_at key = None \<and> (case bk_retired_at key of None \<Rightarrow> True | Some retired \<Rightarrow> now < retired))"

definition live_key_id :: "state \<Rightarrow> uuid \<Rightarrow> string option" where
  "live_key_id s bot_id =
     map_option bk_key_id (max_by_key bk_created_at
       [key \<leftarrow> hm_values (st_bot_keys s). bk_bot_id key = bot_id \<and> bk_revoked_at key = None])"

text \<open>The Argon2id hash of a bot secret; the error of the hash function is the parameter's.\<close>

definition hash_secret :: "env \<Rightarrow> nat \<Rightarrow> string \<Rightarrow> forge_error + string" where
  "hash_secret ev n secret = env_argon2_hash ev n secret"

definition record_bot_audit ::
  "env \<Rightarrow> nat \<Rightarrow> string \<Rightarrow> string \<Rightarrow> string \<Rightarrow> string \<Rightarrow> uuid \<Rightarrow> string option \<Rightarrow> string option \<Rightarrow> core \<Rightarrow>
     unit outcome" where
  "record_bot_audit ev n actor action subject phase bot_id key_id code c =
     (let detail = JObj ([(''bot_id'', JStr (show_uuid bot_id))]
            @ (case key_id of None \<Rightarrow> [] | Some k \<Rightarrow> [(''key_id'', JStr k)])
            @ (case code of None \<Rightarrow> [] | Some k \<Rightarrow> [(''code'', JStr k)]));
          rendered = env_json_text ev detail
      in if contains_text rendered ''jbk_'' \<or> contains_text rendered ''jbr_'' \<or> contains_text rendered ''eyJ''
         then (Inl (Validation ''audit detail must not contain a bot credential''), c)
         else try_op (append_audit_as ev n actor action subject phase detail c) (\<lambda>_ c. (Inr (), c)))"

definition bot_subject :: "bot_record \<Rightarrow> string" where
  "bot_subject b = bo_owner b @ ''/'' @ bo_slug b"

section \<open>Enrolling\<close>

definition validate_enrollment :: "string \<Rightarrow> string \<Rightarrow> string \<Rightarrow> forge_error + unit" where
  "validate_enrollment slug display_name key_env =
     try_res (require_login slug) (\<lambda>_.
     try_res (require_name ''display name'' display_name) (\<lambda>_.
       if 80 < char_count (str_trim display_name)
       then Inl (Validation ''display name may not exceed 80 characters'')
       else if key_env \<noteq> ''live'' \<and> key_env \<noteq> ''test''
       then Inl (Validation ''bot key environment must be live or test'')
       else Inr ()))"

definition new_bot ::
  "env \<Rightarrow> string \<Rightarrow> bot_owner_kind \<Rightarrow> string option \<Rightarrow> string \<Rightarrow> string \<Rightarrow> string \<Rightarrow> bot_reach \<Rightarrow> u64 \<Rightarrow> bot_record" where
  "new_bot ev owner owner_kind steward_team slug display_name kind reach auth_epoch =
     \<lparr>bo_id = env_fresh ev 0, bo_owner = owner, bo_owner_kind = owner_kind, bo_steward_team = steward_team,
      bo_slug = slug, bo_display_name = str_trim display_name, bo_kind = kind, bo_status = BotActive,
      bo_reach = reach, bo_auth_epoch = auth_epoch, bo_credential_generation = 1,
      bo_last_successful_access = None, bo_last_auth = None, bo_last_mutation = None,
      bo_last_heartbeat = None, bo_last_action = None, bo_last_outcome = None, bo_last_repo = None,
      bo_created_at = env_clk ev 0, bo_updated_at = env_clk ev 0\<rparr>"

text \<open>Twelve reads of the generator make the key id; the thirteenth makes the secret.\<close>

definition store_enrolled_bot :: "env \<Rightarrow> string \<Rightarrow> bot_record \<Rightarrow> string \<Rightarrow> core \<Rightarrow> bot_enrollment outcome" where
  "store_enrolled_bot ev actor b key_env c =
     try_pure (new_key_id ev 0) c (\<lambda>key_id.
     try_pure (new_secret ev 12) c (\<lambda>secret.
     try_pure (hash_secret ev 0 secret) c (\<lambda>secret_hash.
       let prefix = (if key_env = ''test'' then KEY_PREFIX_TEST else KEY_PREFIX_LIVE);
           enrollment_key = prefix @ ''.'' @ key_id @ ''.'' @ secret;
           key = \<lparr>bk_key_id = key_id, bk_bot_id = bo_id b, bk_secret_hash = secret_hash, bk_env = key_env,
                  bk_created_at = bo_created_at b, bk_retired_at = None, bk_revoked_at = None\<rparr>;
           s = live c
       in if \<exists>existing \<in> set (hm_values (st_bots s)). bo_owner existing = bo_owner b \<and> bo_slug existing = bo_slug b
          then (Inl (explain_bot (Conflict (''bot '' @ bo_owner b @ ''/'' @ bo_slug b))), c)
          else
            try_op (commit ev 0
              (s\<lparr>st_bot_keys := hm_put key_id key (st_bot_keys s), st_bots := hm_put (bo_id b) b (st_bots s)\<rparr>) () c) (\<lambda>_ c.
            try_op (record_bot_audit ev 1 actor ''bot.enroll'' (bot_subject b) ''completed'' (bo_id b) (Some key_id) None c)
              (\<lambda>_ c. (Inr \<lparr>en_bot = bot_summary_from b, en_key_id = key_id, en_enrollment_key = enrollment_key\<rparr>, c))))))"

definition enroll_bot_with_env ::
  "env \<Rightarrow> string \<Rightarrow> string \<Rightarrow> string \<Rightarrow> string \<Rightarrow> bot_reach \<Rightarrow> string \<Rightarrow> core \<Rightarrow> bot_enrollment outcome" where
  "enroll_bot_with_env ev actor slug display_name kind reach key_env c =
     try_pure (require_active_account (live c) actor) c (\<lambda>account.
     try_pure (validate_enrollment slug display_name key_env) c (\<lambda>_.
     try_pure (normalize_reach ev (live c) (as_login account) reach) c (\<lambda>reach.
       store_enrolled_bot ev (as_login account)
         (new_bot ev (as_login account) OwnedByUser None slug display_name kind reach (as_auth_epoch account))
         key_env c)))"

definition enroll_bot ::
  "env \<Rightarrow> string \<Rightarrow> string \<Rightarrow> string \<Rightarrow> string \<Rightarrow> bot_reach \<Rightarrow> core \<Rightarrow> bot_enrollment outcome" where
  "enroll_bot ev actor slug display_name kind reach c =
     enroll_bot_with_env ev actor slug display_name kind reach ''live'' c"

definition enroll_team_bot ::
  "env \<Rightarrow> string \<Rightarrow> string \<Rightarrow> string \<Rightarrow> string \<Rightarrow> string \<Rightarrow> string \<Rightarrow> bot_reach \<Rightarrow> core \<Rightarrow> bot_enrollment outcome" where
  "enroll_team_bot ev actor org steward_team slug display_name kind reach c =
     try_pure (require_active_account (live c) actor) c (\<lambda>account.
     try_pure (validate_enrollment slug display_name ''live'') c (\<lambda>_.
       let s = live c in
       if \<not> hm_has (st_organizations s) org then (Inl (NotFound (''organization '' @ org)), c)
       else if \<not> may_run_organization s (as_login account) org
       then (Inl (Forbidden ''organization owner or forge administrator required''), c)
       else if \<not> hm_has (st_teams s) (org, steward_team)
       then (Inl (Validation (''steward team '' @ org @ ''/'' @ steward_team @ '' does not exist'')), c)
       else try_pure (normalize_reach ev s (as_login account) reach) c (\<lambda>reach.
         store_enrolled_bot ev (as_login account)
           (new_bot ev org OwnedByOrganization (Some steward_team) slug display_name kind reach 0) ''live'' c)))"

section \<open>Listing\<close>

definition list_account_bots :: "state \<Rightarrow> string \<Rightarrow> forge_error + bot_summary list" where
  "list_account_bots s actor =
     try_res (require_active_account s actor) (\<lambda>_.
       Inr (sort_key bs_slug (map bot_summary_from
         [b \<leftarrow> hm_values (st_bots s). bo_owner_kind b = OwnedByUser \<and> bo_owner b = actor])))"

definition list_team_bots :: "state \<Rightarrow> string \<Rightarrow> forge_error + bot_summary list" where
  "list_team_bots s actor =
     try_res (require_active_account s actor) (\<lambda>_.
       Inr (sort_key (\<lambda>b. (bs_owner b, bs_slug b)) (map bot_summary_from
         [b \<leftarrow> hm_values (st_bots s). bo_owner_kind b = OwnedByOrganization \<and> is_steward s b actor])))"

definition repository_summary :: "bot_record \<Rightarrow> string \<Rightarrow> string \<Rightarrow> bot_summary" where
  "repository_summary b owner repo =
     (let summary = bot_summary_from b
      in clip_activity (summary\<lparr>bs_reach := clip_reach (bs_reach summary) owner repo\<rparr>) owner repo)"

definition list_repository_bots :: "state \<Rightarrow> string \<Rightarrow> string \<Rightarrow> string \<Rightarrow> forge_error + bot_summary list" where
  "list_repository_bots s actor owner repo =
     try_res (canonical_repository s owner repo) (\<lambda>_.
       if \<not> user_can_write_repo s actor owner repo then Inl (Forbidden ''repo write access required'')
       else Inr (sort_key bs_slug (map (\<lambda>b. repository_summary b owner repo)
              [b \<leftarrow> hm_values (st_bots s). reach_lists_repo s b (bo_reach b) owner repo])))"

section \<open>Rotating, suspending, revoking\<close>

definition retire_key :: "uuid \<Rightarrow> string \<Rightarrow> bool \<Rightarrow> time \<Rightarrow> bot_key_record \<Rightarrow> bot_key_record" where
  "retire_key bot_id key_id epoch_was_stale now key =
     (if bk_bot_id key = bot_id \<and> bk_revoked_at key = None \<and> bk_key_id key \<noteq> key_id
      then if epoch_was_stale then key\<lparr>bk_revoked_at := Some now\<rparr>
           else if bk_retired_at key = None
           then key\<lparr>bk_retired_at := Some (now + duration_minutes ROTATION_GRACE_MINUTES)\<rparr>
           else key
      else key)"

definition drop_refresh :: "uuid \<Rightarrow> state \<Rightarrow> state" where
  "drop_refresh bot_id s =
     s\<lparr>st_bot_refresh := hm_retain (\<lambda>_ token. br_bot_id token \<noteq> bot_id) (st_bot_refresh s)\<rparr>"

definition rotate_bot_key :: "env \<Rightarrow> string \<Rightarrow> uuid \<Rightarrow> core \<Rightarrow> bot_enrollment outcome" where
  "rotate_bot_key ev actor bot_id c =
     try_pure (require_active_account (live c) actor) c (\<lambda>account.
     try_pure (new_key_id ev 0) c (\<lambda>key_id.
     try_pure (new_secret ev 12) c (\<lambda>secret.
     try_pure (hash_secret ev 0 secret) c (\<lambda>secret_hash.
     try_pure (managed_bot (live c) actor bot_id) c (\<lambda>b.
       let now = env_clk ev 0; s = live c in
       if bo_status b = BotRevoked then (Inl (bot_not_found bot_id), c)
       else case hm_get (st_accounts s) (as_login account) of
         None \<Rightarrow> (Inl (Validation ''account is not active''), c)
       | Some stored \<Rightarrow>
           if \<not> permits_authentication (ua_status stored)
           then (Inl (Validation ''account is not active''), c)
           else
             let epoch_was_stale = (bo_owner_kind b = OwnedByUser \<and> bo_auth_epoch b \<noteq> ua_auth_epoch stored);
                 b = b\<lparr>bo_auth_epoch := (if bo_owner_kind b = OwnedByUser then ua_auth_epoch stored
                                         else bo_auth_epoch b),
                       bo_updated_at := now,
                       bo_credential_generation :=
                         (if epoch_was_stale then u64_saturating_succ (bo_credential_generation b)
                          else bo_credential_generation b)\<rparr>;
                 key = \<lparr>bk_key_id = key_id, bk_bot_id = bot_id, bk_secret_hash = secret_hash, bk_env = ''live'',
                        bk_created_at = now, bk_retired_at = None, bk_revoked_at = None\<rparr>;
                 s1 = s\<lparr>st_bot_keys := hm_map (retire_key bot_id key_id epoch_was_stale now) (st_bot_keys s)\<rparr>;
                 s2 = (if epoch_was_stale then drop_refresh bot_id s1 else s1);
                 s3 = s2\<lparr>st_bot_keys := hm_put key_id key (st_bot_keys s2), st_bots := hm_put bot_id b (st_bots s2)\<rparr>
             in try_op (commit ev 0 s3 () c) (\<lambda>_ c.
                try_op (record_bot_audit ev 1 actor ''bot.rotate'' (bot_subject b) ''completed'' bot_id (Some key_id) None c)
                  (\<lambda>_ c. (Inr \<lparr>en_bot = bot_summary_from b, en_key_id = key_id,
                           en_enrollment_key = KEY_PREFIX_LIVE @ ''.'' @ key_id @ ''.'' @ secret\<rparr>, c))))))))"

definition revoke_bot :: "env \<Rightarrow> string \<Rightarrow> uuid \<Rightarrow> core \<Rightarrow> bot_summary outcome" where
  "revoke_bot ev actor bot_id c =
     try_pure (managed_bot (live c) actor bot_id) c (\<lambda>b.
       let now = env_clk ev 0; s = live c; key_id = live_key_id s bot_id;
           b = b\<lparr>bo_status := BotRevoked,
                 bo_credential_generation := u64_saturating_succ (bo_credential_generation b),
                 bo_updated_at := now\<rparr>;
           s1 = drop_refresh bot_id (s\<lparr>st_bots := hm_put bot_id b (st_bots s),
                  st_bot_keys := hm_map (\<lambda>key. if bk_bot_id key = bot_id then key\<lparr>bk_revoked_at := Some now\<rparr> else key)
                    (st_bot_keys s)\<rparr>)
       in try_op (commit ev 0 s1 () c) (\<lambda>_ c.
          try_op (record_bot_audit ev 1 actor ''bot.revoke'' (bot_subject b) ''completed'' bot_id key_id None c)
            (\<lambda>_ c. (Inr (bot_summary_from b), c))))"

definition set_bot_status :: "env \<Rightarrow> string \<Rightarrow> uuid \<Rightarrow> bot_status \<Rightarrow> core \<Rightarrow> bot_summary outcome" where
  "set_bot_status ev actor bot_id status c =
     try_pure (managed_bot (live c) actor bot_id) c (\<lambda>b.
       if bo_status b = BotRevoked then (Inl (bot_not_found bot_id), c)
       else
         let s = live c; key_id = live_key_id s bot_id;
             b = b\<lparr>bo_status := status, bo_updated_at := env_clk ev 0\<rparr>;
             action = (case status of BotSuspended \<Rightarrow> ''bot.suspend'' | BotRevoked \<Rightarrow> ''bot.revoke''
                         | BotActive \<Rightarrow> ''bot.activate'')
         in try_op (commit ev 0 (s\<lparr>st_bots := hm_put bot_id b (st_bots s)\<rparr>) () c) (\<lambda>_ c.
            try_op (record_bot_audit ev 1 actor action (bot_subject b) ''completed'' bot_id key_id None c)
              (\<lambda>_ c. (Inr (bot_summary_from b), c))))"

definition suspend_bot :: "env \<Rightarrow> string \<Rightarrow> uuid \<Rightarrow> core \<Rightarrow> bot_summary outcome" where
  "suspend_bot ev actor bot_id c = set_bot_status ev actor bot_id BotSuspended c"

end
