(* ===== verification/Bot_Credentials.thy ===== *)
theory Bot_Credentials
  imports Bots Provider_Connections
begin

text \<open>
  How bots get in (\<^verbatim>\<open>engine/bots.rs\<close>): exchanging an enrollment key, rotating refresh tokens with and
  without an idempotency key, and authorizing a call against the live credentials, grants, task and
  refs. A replayed rotation opens the successor that was sealed into the operation's row; the JSON texts
  of that row are parameters.
\<close>

section \<open>Secrets and refresh tokens\<close>

definition REFRESH_TTL_HOURS :: int where
  "REFRESH_TTL_HOURS = 12"

definition MAX_LIVE_REFRESH :: nat where
  "MAX_LIVE_REFRESH = 5"

definition invalid_bot :: forge_error where
  "invalid_bot = explain_bot (Validation INVALID)"

definition verify_secret :: "env \<Rightarrow> string \<Rightarrow> string \<Rightarrow> forge_error + unit" where
  "verify_secret ev secret secret_hash =
     (if env_argon2_verify ev secret secret_hash then Inr () else Inl (Validation INVALID))"

definition same_secret_hash :: "string \<Rightarrow> string \<Rightarrow> bool" where
  "same_secret_hash left right = constant_time_eq (as_bytes left) (as_bytes right)"

definition parse_enrollment_key :: "string \<Rightarrow> (string \<times> string \<times> string) option" where
  "parse_enrollment_key value =
     (if 180 < length value then None
      else case split_once (CHR ''.'') value of
        None \<Rightarrow> None
      | Some (key_env, rest) \<Rightarrow>
          if key_env \<noteq> KEY_PREFIX_LIVE \<and> key_env \<noteq> KEY_PREFIX_TEST then None
          else case split_once (CHR ''.'') rest of
            None \<Rightarrow> None
          | Some (key_id, secret) \<Rightarrow>
              if length key_id \<noteq> 12 \<or> length secret < 32 then None else Some (key_env, key_id, secret))"

definition live_refresh :: "uuid \<Rightarrow> (string, bot_refresh_record) hmap \<Rightarrow> (string \<times> time) list" where
  "live_refresh bot_id tokens =
     map (\<lambda>(h, token). (h, br_expires_at token))
       [(h, token) \<leftarrow> tokens. br_bot_id token = bot_id \<and> br_used_at token = None]"

definition cap_live_refresh :: "uuid \<Rightarrow> time \<Rightarrow> state \<Rightarrow> state" where
  "cap_live_refresh bot_id now s =
     (let tokens = hm_retain (\<lambda>_ token. br_bot_id token \<noteq> bot_id \<or> now < br_expires_at token) (st_bot_refresh s);
          live = live_refresh bot_id tokens
      in if length live \<le> MAX_LIVE_REFRESH then s\<lparr>st_bot_refresh := tokens\<rparr>
         else s\<lparr>st_bot_refresh :=
                fold (\<lambda>(h, _). hm_del h) (take (length live - MAX_LIVE_REFRESH) (sort_key snd live)) tokens\<rparr>)"

text \<open>\<open>n\<close> is the index of the read of the generator.\<close>

definition issue_refresh ::
  "env \<Rightarrow> nat \<Rightarrow> bot_record \<Rightarrow> bot_key_record \<Rightarrow> time \<Rightarrow> state \<Rightarrow> forge_error + (bot_session \<times> state)" where
  "issue_refresh ev n b key now s =
     try_res (new_secret ev n) (\<lambda>secret.
       let refresh_token = ''jbr_'' @ secret;
           record = \<lparr>br_token_hash = token_hash ev refresh_token, br_bot_id = bo_id b, br_key_id = bk_key_id key,
                     br_generation = bo_credential_generation b,
                     br_expires_at = now + duration_hours REFRESH_TTL_HOURS, br_used_at = None\<rparr>
       in Inr (\<lparr>be_bot = bot_summary_from b, be_key_id = bk_key_id key,
                be_generation = bo_credential_generation b, be_refresh_token = refresh_token,
                be_refresh_expires_at = br_expires_at record\<rparr>,
               cap_live_refresh (bo_id b) now
                 (s\<lparr>st_bot_refresh := hm_put (br_token_hash record) record (st_bot_refresh s)\<rparr>)))"

definition stamp_auth :: "uuid \<Rightarrow> time \<Rightarrow> state \<Rightarrow> state" where
  "stamp_auth bot_id now s =
     (case hm_get (st_bots s) bot_id of
        None \<Rightarrow> s
      | Some b \<Rightarrow> s\<lparr>st_bots := hm_put bot_id (b\<lparr>bo_last_auth := Some now, bo_updated_at := now\<rparr>) (st_bots s)\<rparr>)"

definition revoke_refresh_family :: "uuid \<Rightarrow> time \<Rightarrow> state \<Rightarrow> state" where
  "revoke_refresh_family bot_id now s =
     (let s = drop_refresh bot_id s
      in case hm_get (st_bots s) bot_id of
           None \<Rightarrow> s
         | Some b \<Rightarrow> s\<lparr>st_bots := hm_put bot_id
               (b\<lparr>bo_credential_generation := u64_saturating_succ (bo_credential_generation b),
                  bo_updated_at := now\<rparr>) (st_bots s)\<rparr>)"

section \<open>Exchanging an enrollment key\<close>

text \<open>The key is looked up again under the write lock, where it still is what it was.\<close>

definition exchange_bot_enrollment_key :: "env \<Rightarrow> string \<Rightarrow> core \<Rightarrow> bot_session outcome" where
  "exchange_bot_enrollment_key ev enrollment_key c =
     (case parse_enrollment_key enrollment_key of
        None \<Rightarrow> (Inl invalid_bot, c)
      | Some (_, key_id, secret) \<Rightarrow>
          (case hm_get (st_bot_keys (live c)) key_id of
             None \<Rightarrow> (Inl invalid_bot, c)
           | Some key \<Rightarrow>
               let verified_hash = bk_secret_hash key in
               if verify_secret ev secret verified_hash \<noteq> Inr () then (Inl invalid_bot, c)
               else
                 let now = env_clk ev 0; s = live c in
                 if \<not> same_secret_hash (bk_secret_hash key) verified_hash \<or> \<not> key_is_live key now
                 then (Inl invalid_bot, c)
                 else case hm_get (st_bots s) (bk_bot_id key) of
                   None \<Rightarrow> (Inl invalid_bot, c)
                 | Some b \<Rightarrow>
                     if bo_owner_kind b = OwnedByOrganization \<or> \<not> bot_account_matches s b
                     then (Inl invalid_bot, c)
                     else
                       try_pure (issue_refresh ev 0 b key now s) c (\<lambda>(session, s).
                       try_op (commit ev 0 (stamp_auth (bo_id b) now s) () c) (\<lambda>_ c.
                       try_op (record_bot_audit ev 1 (bo_owner b) ''bot.token.exchange'' (bot_subject b)
                           ''completed'' (bo_id b) (Some (bk_key_id key)) None c)
                         (\<lambda>_ c. (Inr session, c))))))"

section \<open>Rotating a refresh token\<close>

text \<open>A token that was already rotated takes its family down, and the reuse is audited.\<close>

definition reuse_detected :: "env \<Rightarrow> bot_refresh_record \<Rightarrow> time \<Rightarrow> core \<Rightarrow> bot_session outcome" where
  "reuse_detected ev existing now c =
     (let bot_id = br_bot_id existing;
          (actor, subject) = (case hm_get (st_bots (live c)) bot_id of
              Some b \<Rightarrow> (bo_owner b, bot_subject b) | None \<Rightarrow> (''bot'', show_uuid bot_id))
      in try_op (commit ev 0 (revoke_refresh_family bot_id now (live c)) () c) (\<lambda>_ c.
         try_op (record_bot_audit ev 1 actor ''bot.refresh.reuse'' subject ''failed'' bot_id
             (Some (br_key_id existing)) None c)
           (\<lambda>_ c. (Inl invalid_bot, c))))"

definition mark_used :: "string \<Rightarrow> time \<Rightarrow> state \<Rightarrow> state" where
  "mark_used h now s =
     (case hm_get (st_bot_refresh s) h of
        None \<Rightarrow> s
      | Some row \<Rightarrow> s\<lparr>st_bot_refresh := hm_put h (row\<lparr>br_used_at := Some now\<rparr>) (st_bot_refresh s)\<rparr>)"

text \<open>What a presented token has to satisfy besides being unused and unexpired.\<close>

definition refresh_stands :: "state \<Rightarrow> bot_refresh_record \<Rightarrow> time \<Rightarrow> (bot_record \<times> bot_key_record) option" where
  "refresh_stands s existing now =
     (case hm_get (st_bots s) (br_bot_id existing) of
        None \<Rightarrow> None
      | Some b \<Rightarrow>
          (case hm_get (st_bot_keys s) (br_key_id existing) of
             None \<Rightarrow> None
           | Some key \<Rightarrow>
               if \<not> bot_account_matches s b \<or> bo_credential_generation b \<noteq> br_generation existing \<or>
                  \<not> key_is_live key now
               then None else Some (b, key)))"

text \<open>
  Nothing restores the state when the generator fails after the presented token was marked used: the
  mark stays in memory and is not on disk.
\<close>

definition rotate_bot_refresh_token :: "env \<Rightarrow> string \<Rightarrow> core \<Rightarrow> bot_session outcome" where
  "rotate_bot_refresh_token ev refresh_token c =
     (let h = token_hash ev refresh_token; now = env_clk ev 0; s = live c
      in case hm_get (st_bot_refresh s) h of
           None \<Rightarrow> (Inl invalid_bot, c)
         | Some existing \<Rightarrow>
             if br_used_at existing \<noteq> None then reuse_detected ev existing now c
             else if br_expires_at existing \<le> now then (Inl invalid_bot, c)
             else case refresh_stands s existing now of
               None \<Rightarrow> (Inl invalid_bot, c)
             | Some (b, key) \<Rightarrow>
                 let marked = mark_used h now s in
                 (case issue_refresh ev 0 b key now marked of
                    Inl e \<Rightarrow> (Inl e, c\<lparr>live := marked\<rparr>)
                  | Inr (session, s) \<Rightarrow> commit ev 0 (stamp_auth (bo_id b) now s) session c))"

section \<open>Rotating under an idempotency key\<close>

definition IDEMPOTENCY_KEY_MIN :: nat where
  "IDEMPOTENCY_KEY_MIN = 32"

definition IDEMPOTENCY_KEY_MAX :: nat where
  "IDEMPOTENCY_KEY_MAX = 128"

definition OPERATION_TTL_HOURS :: int where
  "OPERATION_TTL_HOURS = 24"

definition REFRESH_OPERATION :: string where
  "REFRESH_OPERATION = ''bot.token.refresh''"

definition REFRESH_REPLAY_KIND :: string where
  "REFRESH_REPLAY_KIND = ''bot.refresh.replay''"

definition REFRESH_REPLAY_PROVIDER :: string where
  "REFRESH_REPLAY_PROVIDER = ''jeryu-bot''"

record refresh_replay =
  rr_bot_id :: uuid
  rr_key_id :: string
  rr_generation :: u64
  rr_refresh_token :: string
  rr_refresh_expires_at :: time

text \<open>\<^verbatim>\<open>serde_json\<close> on the two values that are stored as text.\<close>

record replay_codec =
  rc_encode :: "refresh_replay \<Rightarrow> bytes"
  rc_decode :: "bytes \<Rightarrow> refresh_replay option"
  rc_sealed_text :: "sealed_secret \<Rightarrow> string"
  rc_sealed_of :: "string \<Rightarrow> sealed_secret option"

definition is_ascii_graphic :: "char \<Rightarrow> bool" where
  "is_ascii_graphic b = (33 \<le> byte b \<and> byte b \<le> 126)"

definition require_refresh_idempotency_key :: "string \<Rightarrow> forge_error + unit" where
  "require_refresh_idempotency_key value =
     try_res (require_name ''request key'' value) (\<lambda>_.
       if length value < IDEMPOTENCY_KEY_MIN \<or> IDEMPOTENCY_KEY_MAX < length value \<or>
          \<not> list_all is_ascii_graphic value
       then Inl (Validation ''idempotency key must be 32 to 128 visible characters'')
       else Inr ())"

definition require_digest :: "string \<Rightarrow> forge_error + unit" where
  "require_digest body_digest =
     (if length body_digest \<noteq> 64 \<or> \<not> list_all is_ascii_hexdigit body_digest
      then Inl (Validation ''operation digest must be 64 hex characters'') else Inr ())"

definition refresh_request_key :: "string \<Rightarrow> string \<Rightarrow> string" where
  "refresh_request_key h request_key = h @ '':'' @ request_key"

definition refresh_operation_key :: "uuid \<Rightarrow> string \<Rightarrow> string \<Rightarrow> uuid \<times> string \<times> string" where
  "refresh_operation_key bot_id h request_key = (bot_id, REFRESH_OPERATION, refresh_request_key h request_key)"

definition prune_bot_operations :: "time \<Rightarrow> state \<Rightarrow> state" where
  "prune_bot_operations now s =
     s\<lparr>st_bot_operations := hm_retain (\<lambda>_ record.
        (if bn_operation record = REFRESH_OPERATION then now - duration_minutes ROTATION_GRACE_MINUTES
         else now - duration_hours OPERATION_TTL_HOURS) \<le> bn_created_at record) (st_bot_operations s)\<rparr>"

definition refresh_replay_binding :: "string \<Rightarrow> string \<Rightarrow> u64 \<Rightarrow> seal_binding" where
  "refresh_replay_binding h bot_id generation =
     \<lparr>sb_connection_id = h, sb_owner_id = bot_id, sb_provider = REFRESH_REPLAY_PROVIDER,
      sb_generation = generation, sb_secret_version = 1, sb_credential_kind = REFRESH_REPLAY_KIND\<rparr>"

definition seal_refresh_replay ::
  "env \<Rightarrow> custody \<Rightarrow> replay_codec \<Rightarrow> nat \<Rightarrow> string \<Rightarrow> bot_session \<Rightarrow> forge_error + string" where
  "seal_refresh_replay ev cu rc n presented_hash session =
     try_res (the_vault cu) (\<lambda>vault.
       let replay = \<lparr>rr_bot_id = bs_id (be_bot session), rr_key_id = be_key_id session,
             rr_generation = be_generation session, rr_refresh_token = be_refresh_token session,
             rr_refresh_expires_at = be_refresh_expires_at session\<rparr>
       in try_res (vault_seal ev (cu_cipher cu) n vault
            (refresh_replay_binding presented_hash (show_uuid (bs_id (be_bot session))) (be_generation session))
            (rc_encode rc replay)) (\<lambda>sealed. Inr (rc_sealed_text rc sealed)))"

text \<open>\<^verbatim>\<open>Ok(None)\<close> is \<open>Inr None\<close>: the stored row is not this token's unused successor.\<close>

definition open_refresh_replay ::
  "env \<Rightarrow> custody \<Rightarrow> replay_codec \<Rightarrow> state \<Rightarrow> bot_refresh_record \<Rightarrow> string \<Rightarrow> string \<Rightarrow> bot_record \<Rightarrow>
     forge_error + bot_session option" where
  "open_refresh_replay ev cu rc s existing presented_hash result_json b =
     try_res (the_vault cu) (\<lambda>vault.
       case rc_sealed_of rc result_json of
         None \<Rightarrow> Inr None
       | Some sealed \<Rightarrow>
           (case vault_open (cu_cipher cu) vault
              (refresh_replay_binding presented_hash (show_uuid (br_bot_id existing)) (br_generation existing)) sealed of
              Inl _ \<Rightarrow> Inr None
            | Inr opened \<Rightarrow>
                (case rc_decode rc opened of
                   None \<Rightarrow> Inr None
                 | Some replay \<Rightarrow>
                     if rr_bot_id replay \<noteq> br_bot_id existing \<or> rr_key_id replay \<noteq> br_key_id existing \<or>
                        rr_generation replay \<noteq> br_generation existing \<or>
                        rr_generation replay \<noteq> bo_credential_generation b
                     then Inr None
                     else case hm_get (st_bot_refresh s) (token_hash ev (rr_refresh_token replay)) of
                       None \<Rightarrow> Inr None
                     | Some successor \<Rightarrow>
                         if br_bot_id successor \<noteq> br_bot_id existing \<or> br_key_id successor \<noteq> br_key_id existing \<or>
                            br_generation successor \<noteq> br_generation existing \<or> br_used_at successor \<noteq> None \<or>
                            br_expires_at successor \<le> env_clk ev 1
                         then Inr None
                         else Inr (Some \<lparr>be_bot = bot_summary_from b, be_key_id = br_key_id existing,
                                be_generation = br_generation existing,
                                be_refresh_token = rr_refresh_token replay,
                                be_refresh_expires_at = rr_refresh_expires_at replay\<rparr>))))"

definition within_rotation_grace :: "time \<Rightarrow> time \<Rightarrow> bool" where
  "within_rotation_grace now used_at = (now \<le> used_at + duration_minutes ROTATION_GRACE_MINUTES)"

text \<open>The stored answer of this idempotency key, if there is one.\<close>

definition stored_replay ::
  "(uuid \<times> string \<times> string, bot_operation_record) hmap \<Rightarrow> uuid \<times> string \<times> string \<Rightarrow> string \<Rightarrow> forge_error + string option" where
  "stored_replay operations map_key body_digest =
     (case hm_get operations map_key of
        None \<Rightarrow> Inr None
      | Some operation \<Rightarrow>
          if bn_body_digest operation \<noteq> body_digest then Inl (Conflict ''idempotency_conflict'')
          else case bn_result_json operation of
            Some result_json \<Rightarrow> Inr (Some result_json)
          | None \<Rightarrow> Inl (Conflict ''idempotency_in_progress''))"

definition rotate_fresh ::
  "env \<Rightarrow> custody \<Rightarrow> replay_codec \<Rightarrow> string \<Rightarrow> string \<Rightarrow> string \<Rightarrow> time \<Rightarrow> bot_refresh_record \<Rightarrow> bot_record \<Rightarrow>
     bot_key_record \<Rightarrow> core \<Rightarrow> bot_session outcome" where
  "rotate_fresh ev cu rc h request_key body_digest now existing b key c =
     (if br_used_at existing \<noteq> None then reuse_detected ev existing now c
      else if br_expires_at existing \<le> now then (Inl invalid_bot, c)
      else
        try_pure (issue_refresh ev 0 b key now (mark_used h now (live c))) c (\<lambda>(session, s).
        try_pure (seal_refresh_replay ev cu rc 1 h session) c (\<lambda>sealed.
          let s1 = s\<lparr>st_bot_operations := hm_put (refresh_operation_key (br_bot_id existing) h request_key)
                 \<lparr>bn_bot_id = br_bot_id existing, bn_operation = REFRESH_OPERATION,
                  bn_request_key = refresh_request_key h request_key, bn_body_digest = body_digest,
                  bn_result_json = Some sealed, bn_created_at = now\<rparr> (st_bot_operations s)\<rparr>
          in commit ev 0 (stamp_auth (bo_id b) now s1) session c)))"

text \<open>\<open>c\<close> in the body is the core after the expired operations were dropped from memory.\<close>

definition rotate_bot_refresh_token_idempotent ::
  "env \<Rightarrow> custody \<Rightarrow> replay_codec \<Rightarrow> string \<Rightarrow> string \<Rightarrow> string \<Rightarrow> core \<Rightarrow> bot_session outcome" where
  "rotate_bot_refresh_token_idempotent ev cu rc refresh_token request_key body_digest c =
     try_pure (require_refresh_idempotency_key request_key) c (\<lambda>_.
     try_pure (require_digest body_digest) c (\<lambda>_.
       let h = token_hash ev refresh_token; now = env_clk ev 0 in
       case hm_get (st_bot_refresh (live c)) h of
         None \<Rightarrow> (Inl invalid_bot, c)
       | Some existing \<Rightarrow>
           let c = c\<lparr>live := prune_bot_operations now (live c)\<rparr> in
           try_pure (stored_replay (st_bot_operations (live c))
             (refresh_operation_key (br_bot_id existing) h request_key) body_digest) c (\<lambda>replay_json.
           case refresh_stands (live c) existing now of
             None \<Rightarrow> (Inl invalid_bot, c)
           | Some (b, key) \<Rightarrow>
               (case (replay_json, br_used_at existing) of
                  (Some result_json, None) \<Rightarrow> (Inl invalid_bot, c)
                | (Some result_json, Some used_at) \<Rightarrow>
                    if within_rotation_grace now used_at
                    then try_pure (open_refresh_replay ev cu rc (live c) existing h result_json b) c (\<lambda>opened.
                      case opened of
                        None \<Rightarrow> (Inl invalid_bot, c)
                      | Some session \<Rightarrow>
                          try_op (record_bot_audit ev 1 (bo_owner b) ''bot.refresh.replay'' (bot_subject b)
                              ''completed'' (bo_id b) (Some (br_key_id existing)) None c)
                            (\<lambda>_ c. (Inr session, c)))
                    else rotate_fresh ev cu rc h request_key body_digest now existing b key c
                | (None, _) \<Rightarrow> rotate_fresh ev cu rc h request_key body_digest now existing b key c))))"

section \<open>Authorizing a call\<close>

definition presented_key_live :: "env \<Rightarrow> state \<Rightarrow> bot_record \<Rightarrow> string \<Rightarrow> bool" where
  "presented_key_live ev s b key_id =
     (case hm_get (st_bot_keys s) key_id of
        None \<Rightarrow> False | Some key \<Rightarrow> bk_bot_id key = bo_id b \<and> key_is_live key (env_clk ev 0))"

definition authenticate_bot_access ::
  "env \<Rightarrow> state \<Rightarrow> uuid \<Rightarrow> u64 \<Rightarrow> string \<Rightarrow> forge_error + bot_summary" where
  "authenticate_bot_access ev s bot_id generation key_id =
     try_res (ok_or (hm_get (st_bots s) bot_id) (Validation INVALID)) (\<lambda>b.
       if \<not> bot_account_matches s b \<or> bo_credential_generation b \<noteq> generation then Inl (Validation INVALID)
       else if \<not> presented_key_live ev s b key_id then Inl (Validation INVALID)
       else Inr (bot_summary_from b))"

definition call_denied :: "state \<Rightarrow> bot_record \<Rightarrow> bot_call \<Rightarrow> string option \<Rightarrow> string option" where
  "call_denied s b call reference =
     (let can_read = bot_grant_allows s b (ca_owner call) (ca_repo call) False;
          can_write = bot_grant_allows s b (ca_owner call) (ca_repo call) True
      in if ca_effect call = EffectWrite \<and> \<not> can_write
         then Some (if can_read then ''insufficient_scope'' else ''repo_not_granted'')
         else if ca_effect call = EffectRead \<and> \<not> can_read then Some ''repo_not_granted''
         else if \<not> reach_allows s b (bo_reach b) call then Some (reach_denial_code (bo_reach b) call)
         else if (case reference of None \<Rightarrow> False | Some r \<Rightarrow> \<not> allows_ref (bo_reach b) r)
         then Some ''ref_not_granted''
         else None)"

definition authorize_bot_call :: "env \<Rightarrow> bot_call \<Rightarrow> string option \<Rightarrow> core \<Rightarrow> bot_summary outcome" where
  "authorize_bot_call ev call reference c =
     (let s = live c in
      try_pure (ok_or (hm_get (st_bots s) (ca_bot_id call)) (Validation INVALID)) c (\<lambda>b.
        if \<not> bot_account_matches s b \<or> bo_credential_generation b \<noteq> ca_generation call
        then (Inl (Validation INVALID), c)
        else if \<not> presented_key_live ev s b (ca_key_id call) then (Inl (Validation INVALID), c)
        else case call_denied s b call reference of
          Some code \<Rightarrow>
            try_op (record_bot_audit ev 0 (acting_login b) ''bot.authorize'' (bot_subject b) ''failed'' (bo_id b)
                (Some (ca_key_id call)) (Some code) c)
              (\<lambda>_ c. (Inl (explain_bot (Forbidden code)), c))
        | None \<Rightarrow> (Inr (bot_summary_from b), c)))"

definition authorize_bot :: "env \<Rightarrow> bot_call \<Rightarrow> core \<Rightarrow> bot_summary outcome" where
  "authorize_bot ev call c = authorize_bot_call ev call None c"

definition authorize_bot_ref_write :: "env \<Rightarrow> bot_call \<Rightarrow> string \<Rightarrow> core \<Rightarrow> bot_summary outcome" where
  "authorize_bot_ref_write ev call reference c =
     authorize_bot_call ev (call\<lparr>ca_effect := EffectWrite\<rparr>) (Some reference) c"

section \<open>A bot stays inside its owner's grants\<close>

text \<open>
  What a call needs, said without the code's order of checks: someone behind the bot, the current
  credentials, a right on the repository that is not the forge administrator's, and a reach that
  names the repository, the task and the ref.
\<close>

definition right_behind :: "state \<Rightarrow> bot_record \<Rightarrow> string \<Rightarrow> string \<Rightarrow> bool \<Rightarrow> bool" where
  "right_behind s b owner repo for_write \<longleftrightarrow>
     (\<exists>repository. hm_get (st_repos s) (owner, repo) = Some repository \<and>
        ((\<not> for_write \<and> \<not> rp_private repository) \<or>
         (case bo_owner_kind b of
            OwnedByUser \<Rightarrow>
              (\<exists>grant. hm_get (st_repo_grants s) (bo_owner b, owner, repo) = Some grant \<and>
                 (for_write \<longrightarrow> ga_access grant = AccessWrite \<or> ga_access grant = AccessAdmin))
          | OwnedByOrganization \<Rightarrow>
              (\<exists>grant. hm_get (st_bot_repo_grants s) (bo_id b, rp_id repository) = Some grant \<and>
                 (for_write \<longrightarrow> bg_access grant = BotWrite)))))"

definition owner_stands :: "state \<Rightarrow> bot_record \<Rightarrow> bool" where
  "owner_stands s b \<longleftrightarrow>
     bo_status b = BotActive \<and>
     (case bo_owner_kind b of
        OwnedByUser \<Rightarrow>
          (\<exists>account. hm_get (st_accounts s) (bo_owner b) = Some account \<and> ua_status account = Active \<and>
             ua_auth_epoch account = bo_auth_epoch b)
      | OwnedByOrganization \<Rightarrow> hm_has (st_organizations s) (bo_owner b))"

lemma bot_account_matches_iff: "bot_account_matches s b \<longleftrightarrow> owner_stands s b"
  by (cases "bo_owner_kind b")
    (auto simp: bot_account_matches_def owner_stands_def permits_authentication_def split: option.split)

lemma bot_grant_allows_iff:
  assumes "owner_stands s b"
  shows "bot_grant_allows s b owner repo for_write \<longleftrightarrow> right_behind s b owner repo for_write"
proof (cases "bo_owner_kind b")
  case OwnedByUser
  with assms obtain account where "hm_get (st_accounts s) (bo_owner b) = Some account" "ua_status account = Active"
    by (auto simp: owner_stands_def)
  moreover have "allows_read level" for level by (cases level) (simp_all add: allows_read_def)
  ultimately show ?thesis
    using OwnedByUser
    by (auto simp: bot_grant_allows_def owner_grant_allows_def right_behind_def permits_authentication_def
        allows_write_def split: option.split)
next
  case OwnedByOrganization
  then show ?thesis
    by (auto simp: bot_grant_allows_def grant_allows_def grant_access_def right_behind_def
        access_allows_write_def split: option.split)
qed

lemma call_denied_None:
  "call_denied s b call reference = None \<longleftrightarrow>
     bot_grant_allows s b (ca_owner call) (ca_repo call) (ca_effect call = EffectWrite) \<and>
     reach_allows s b (bo_reach b) call \<and>
     (case reference of None \<Rightarrow> True | Some r \<Rightarrow> allows_ref (bo_reach b) r)"
  by (cases "ca_effect call") (auto simp: call_denied_def Let_def split: option.splits)

text \<open>
  What a reach covers. A general reach covers every repository; a reach of owners those of its owners on
  which a grant is recorded for whoever stands behind the bot, a public one included; a reach of
  repositories those it lists; and a task reach its one repository, a write only under the kind and the id
  of its task.
\<close>

definition recorded_grant :: "state \<Rightarrow> bot_record \<Rightarrow> string \<Rightarrow> string \<Rightarrow> bool" where
  "recorded_grant s b owner repo \<longleftrightarrow>
     (case bo_owner_kind b of
        OwnedByUser \<Rightarrow> (\<exists>grant. hm_get (st_repo_grants s) (bo_owner b, owner, repo) = Some grant)
      | OwnedByOrganization \<Rightarrow>
          (\<exists>repository grant. hm_get (st_repos s) (owner, repo) = Some repository \<and>
             hm_get (st_bot_repo_grants s) (bo_id b, rp_id repository) = Some grant))"

definition reach_covers :: "state \<Rightarrow> bot_record \<Rightarrow> bot_call \<Rightarrow> bool" where
  "reach_covers s b call \<longleftrightarrow>
     (\<exists>refs. bo_reach b = ReachGeneral refs) \<or>
     (\<exists>owners refs. bo_reach b = ReachOwners owners refs \<and> ca_owner call \<in> set owners \<and>
        recorded_grant s b (ca_owner call) (ca_repo call)) \<or>
     (\<exists>repos refs. bo_reach b = ReachRepositories repos refs \<and>
        \<lparr>bf_owner = ca_owner call, bf_name = ca_repo call\<rparr> \<in> set repos) \<or>
     (\<exists>kind task refs. bo_reach b = ReachTask \<lparr>bf_owner = ca_owner call, bf_name = ca_repo call\<rparr> kind task refs \<and>
        (ca_effect call = EffectWrite \<longrightarrow> ca_task_kind call = Some kind \<and> ca_task_id call = Some task))"

lemma bot_has_grant_iff:
  assumes "owner_stands s b"
  shows "bot_has_grant s b owner repo \<longleftrightarrow> recorded_grant s b owner repo"
proof (cases "bo_owner_kind b")
  case OwnedByUser
  with assms obtain account where "hm_get (st_accounts s) (bo_owner b) = Some account" "ua_status account = Active"
    by (auto simp: owner_stands_def)
  moreover have "allows_read level" for level by (cases level) (simp_all add: allows_read_def)
  ultimately show ?thesis
    using OwnedByUser
    by (auto simp: bot_has_grant_def recorded_grant_def owner_has_grant_def permits_authentication_def
        split: option.split)
next
  case OwnedByOrganization
  then show ?thesis
    by (auto simp: bot_has_grant_def recorded_grant_def grant_access_def split: option.splits)
qed

lemma names_repo_iff: "names_repo owner repo r \<longleftrightarrow> r = \<lparr>bf_owner = owner, bf_name = repo\<rparr>"
  by (cases r) (auto simp: names_repo_def)

lemma reach_allows_iff:
  assumes "owner_stands s b"
  shows "reach_allows s b (bo_reach b) call \<longleftrightarrow> reach_covers s b call"
  by (cases "bo_reach b"; cases "ca_effect call")
    (auto simp: reach_covers_def bot_has_grant_iff [OF assms] names_repo_iff list_ex_iff)

text \<open>The ref a call names is covered: no ref at all, a reach without ref patterns, or a full ref that one of
  the patterns of the reach matches, a star standing for any text.\<close>

definition ref_covered :: "bot_reach \<Rightarrow> string option \<Rightarrow> bool" where
  "ref_covered reach reference \<longleftrightarrow>
     (\<forall>r patterns. reference = Some r \<longrightarrow>
        (reach = ReachGeneral (Some patterns) \<or> (\<exists>owners. reach = ReachOwners owners (Some patterns)) \<or>
         (\<exists>repos. reach = ReachRepositories repos (Some patterns)) \<or>
         (\<exists>repo kind task. reach = ReachTask repo kind task (Some patterns))) \<longrightarrow>
        full_ref False r \<and> (\<exists>pattern \<in> set patterns. full_ref True pattern \<and> glob pattern r))"

lemma allows_ref_covered:
  "(case reference of None \<Rightarrow> True | Some r \<Rightarrow> allows_ref reach r) \<longleftrightarrow> ref_covered reach reference"
  by (cases reach)
    (auto simp: allows_ref_def ref_covered_def valid_bot_ref_iff ref_pattern_glob split: option.splits)

text \<open>
  C20. A bot's call is authorized exactly when the bot is active with a live account or organization
  behind it at the epoch it was enrolled under, the presented generation and key are its current ones,
  a grant of its owner (its own, for a team bot) or a public read covers the effect, and its reach
  names the repository, the task of a write and the ref. Being a forge administrator adds nothing, and
  authorizing changes nothing.
\<close>

theorem bot_authorized_iff:
  "authorize_bot_call ev call reference c = (Inr summary, c') \<longleftrightarrow>
     c' = c \<and>
     (\<exists>b key. hm_get (st_bots (live c)) (ca_bot_id call) = Some b \<and> summary = bot_summary_from b \<and>
        owner_stands (live c) b \<and> bo_credential_generation b = ca_generation call \<and>
        hm_get (st_bot_keys (live c)) (ca_key_id call) = Some key \<and> bk_bot_id key = bo_id b \<and>
        bk_revoked_at key = None \<and> \<not> (\<exists>retired \<le> env_clk ev 0. bk_retired_at key = Some retired) \<and>
        right_behind (live c) b (ca_owner call) (ca_repo call) (ca_effect call = EffectWrite) \<and>
        reach_covers (live c) b call \<and> ref_covered (bo_reach b) reference)"
proof -
  have denied: "try_op m (\<lambda>_ c. (Inl e, c)) \<noteq> (Inr summary, c')" for m :: "unit outcome" and e
    by (cases m; cases "fst m") auto
  have live: "key_is_live key now \<longleftrightarrow>
      bk_revoked_at key = None \<and> \<not> (\<exists>retired \<le> now. bk_retired_at key = Some retired)" for key now
    by (auto simp: key_is_live_def not_le split: option.split)
  have "authorize_bot_call ev call reference c = (Inr summary, c') \<longleftrightarrow>
     c' = c \<and>
     (\<exists>b. hm_get (st_bots (live c)) (ca_bot_id call) = Some b \<and> summary = bot_summary_from b \<and>
        bot_account_matches (live c) b \<and> bo_credential_generation b = ca_generation call \<and>
        presented_key_live ev (live c) b (ca_key_id call) \<and> call_denied (live c) b call reference = None)"
    by (cases "hm_get (st_bots (live c)) (ca_bot_id call)")
      (auto simp: authorize_bot_call_def Let_def denied split: option.split)
  then show ?thesis
    unfolding call_denied_None allows_ref_covered bot_account_matches_iff presented_key_live_def live
    by (auto simp: bot_grant_allows_iff reach_allows_iff split: option.splits)
qed

end
