(* ===== verification/Bot_Activity.thy ===== *)
theory Bot_Activity
  imports Bot_Credentials
begin

text \<open>
  What bots did, and what they are doing (\<^verbatim>\<open>engine/bots.rs\<close>): the activity trail with its coalescing, its
  age limit and its cap per bot, and the operations a bot runs under an idempotency key. Whether a text
  is JSON is asked of \<^verbatim>\<open>serde_json\<close> and a parameter.
\<close>

section \<open>The activity trail\<close>

definition ACTIVITY_TTL_DAYS :: int where
  "ACTIVITY_TTL_DAYS = 90"

definition ACTIVITY_COALESCE_SECS :: int where
  "ACTIVITY_COALESCE_SECS = 60"

definition ACTIVITY_CAP :: nat where
  "ACTIVITY_CAP = 500"

definition within_coalesce :: "time \<Rightarrow> time \<Rightarrow> bool" where
  "within_coalesce now past = (now - past < duration_seconds ACTIVITY_COALESCE_SECS)"

definition observation_contains_secret :: "bot_observation \<Rightarrow> bool" where
  "observation_contains_secret observation =
     list_ex (\<lambda>field. contains_text field ''jbk_'' \<or> contains_text field ''jbr_'')
       [ob_action observation, ob_outcome observation, ob_scope observation,
        case_option [] id (ob_repo observation), case_option [] id (ob_session_id observation)]"

text \<open>\<^verbatim>\<open>retain\<close> with the counter \<^verbatim>\<open>drop_remaining\<close>: the first \<open>n\<close> events of the bot go.\<close>

fun drop_events :: "uuid \<Rightarrow> nat \<Rightarrow> bot_activity_event list \<Rightarrow> bot_activity_event list" where
  "drop_events bot_id n [] = []"
| "drop_events bot_id n (event # events) =
     (if bv_bot_id event \<noteq> bot_id \<or> n = 0 then event # drop_events bot_id n events
      else drop_events bot_id (n - 1) events)"

definition cap_bot_activity :: "uuid \<Rightarrow> bot_activity_event list \<Rightarrow> bot_activity_event list" where
  "cap_bot_activity bot_id events =
     (let count = length [event \<leftarrow> events. bv_bot_id event = bot_id]
      in if count \<le> ACTIVITY_CAP then events else drop_events bot_id (count - ACTIVITY_CAP) events)"

text \<open>What an observation leaves in the row of the bot, coalesced or not.\<close>

definition touched :: "bot_observation \<Rightarrow> time \<Rightarrow> bot_record \<Rightarrow> bot_record" where
  "touched observation now b =
     b\<lparr>bo_last_action := Some (ob_action observation), bo_last_repo := ob_repo observation,
       bo_last_successful_access := (if ob_success observation then Some now else bo_last_successful_access b),
       bo_last_auth := (if ob_success observation then Some now else bo_last_auth b),
       bo_last_mutation := (if ob_mutation observation then Some now else bo_last_mutation b)\<rparr>"

definition observed_event :: "env \<Rightarrow> uuid \<Rightarrow> bot_observation \<Rightarrow> bot_activity_event" where
  "observed_event ev bot_id observation =
     \<lparr>bv_id = env_fresh ev 0, bv_bot_id = bot_id, bv_key_id = ob_key_id observation,
      bv_repo = ob_repo observation, bv_session_id = ob_session_id observation,
      bv_action = ob_action observation, bv_outcome = ob_outcome observation,
      bv_scope = ob_scope observation, bv_created_at = env_clk ev 0\<rparr>"

definition put_bot :: "uuid \<Rightarrow> bot_record \<Rightarrow> state \<Rightarrow> state" where
  "put_bot bot_id b s = s\<lparr>st_bots := hm_put bot_id b (st_bots s)\<rparr>"

definition note_bot_observation :: "env \<Rightarrow> uuid \<Rightarrow> bot_observation \<Rightarrow> core \<Rightarrow> unit outcome" where
  "note_bot_observation ev bot_id observation c =
     try_pure (require_name ''action'' (ob_action observation)) c (\<lambda>_.
       if observation_contains_secret observation
       then (Inl (Validation ''observation must not contain a bot credential''), c)
       else
         let now = env_clk ev 0; s = live c in
         case hm_get (st_bots s) bot_id of
           None \<Rightarrow> (Inl (bot_not_found bot_id), c)
         | Some b \<Rightarrow>
             if ob_heartbeat observation
             then if (case bo_last_heartbeat b of None \<Rightarrow> False | Some previous \<Rightarrow> within_coalesce now previous)
                  then (Inr (), c)
                  else commit ev 0 (put_bot bot_id (b\<lparr>bo_last_heartbeat := Some now\<rparr>) s) () c
             else if bo_last_outcome b = Some (ob_outcome observation) \<and> within_coalesce now (bo_updated_at b)
             then (Inr (), c\<lparr>live := put_bot bot_id (touched observation now b) s\<rparr>)
             else
               let s1 = put_bot bot_id ((touched observation now b)\<lparr>bo_last_outcome := Some (ob_outcome observation),
                          bo_updated_at := now\<rparr>) s;
                   cutoff = now - duration_days ACTIVITY_TTL_DAYS;
                   events = [event \<leftarrow> st_bot_activity s1 @ [observed_event ev bot_id observation].
                              bv_bot_id event \<noteq> bo_id b \<or> cutoff \<le> bv_created_at event]
               in commit ev 0 (s1\<lparr>st_bot_activity := cap_bot_activity (bo_id b) events\<rparr>) () c)"

definition list_bot_activity :: "state \<Rightarrow> string \<Rightarrow> uuid \<Rightarrow> forge_error + bot_activity_event list" where
  "list_bot_activity s actor bot_id =
     try_res (managed_bot s actor bot_id) (\<lambda>_.
       Inr (sort_key bv_created_at [event \<leftarrow> st_bot_activity s. bv_bot_id event = bot_id]))"

definition list_repository_bot_activity ::
  "state \<Rightarrow> string \<Rightarrow> string \<Rightarrow> string \<Rightarrow> forge_error + bot_activity_event list" where
  "list_repository_bot_activity s actor owner repo =
     try_res (canonical_repository s owner repo) (\<lambda>_.
       if \<not> user_can_write_repo s actor owner repo then Inl (Forbidden ''repo write access required'')
       else Inr (sort_key bv_created_at
              [event \<leftarrow> st_bot_activity s. bv_repo event = Some (owner @ ''/'' @ repo)]))"

section \<open>Operations under an idempotency key\<close>

text \<open>
  A conflict restores the state with the expired rows; a gate for a row that is there keeps the pruned
  state, in memory.
\<close>

definition reserve_bot_operation ::
  "env \<Rightarrow> uuid \<Rightarrow> string \<Rightarrow> string \<Rightarrow> string \<Rightarrow> core \<Rightarrow> bot_operation_gate outcome" where
  "reserve_bot_operation ev bot_id operation request_key body_digest c =
     try_pure (require_name ''operation'' operation) c (\<lambda>_.
       if operation = REFRESH_OPERATION then (Inl (Validation ''reserved bot operation''), c)
       else
         try_pure (require_name ''request key'' request_key) c (\<lambda>_.
         try_pure (require_digest body_digest) c (\<lambda>_.
           if \<not> hm_has (st_bots (live c)) bot_id then (Inl (bot_not_found bot_id), c)
           else
             let now = env_clk ev 0; s = prune_bot_operations now (live c);
                 map_key = (bot_id, operation, request_key)
             in case hm_get (st_bot_operations s) map_key of
                  Some existing \<Rightarrow>
                    if bn_body_digest existing \<noteq> body_digest then (Inl (Conflict ''idempotency_conflict''), c)
                    else (Inr (case bn_result_json existing of
                                 Some result_json \<Rightarrow> Replay result_json | None \<Rightarrow> InProgress),
                          c\<lparr>live := s\<rparr>)
                | None \<Rightarrow>
                    commit ev 0 (s\<lparr>st_bot_operations := hm_put map_key
                        \<lparr>bn_bot_id = bot_id, bn_operation = operation, bn_request_key = request_key,
                         bn_body_digest = body_digest, bn_result_json = None, bn_created_at = now\<rparr>
                        (st_bot_operations s)\<rparr>) Start c)))"

definition finish_bot_operation ::
  "env \<Rightarrow> (string \<Rightarrow> bool) \<Rightarrow> uuid \<Rightarrow> string \<Rightarrow> string \<Rightarrow> string \<Rightarrow> core \<Rightarrow> unit outcome" where
  "finish_bot_operation ev is_json bot_id operation request_key result_json c =
     (if \<not> is_json result_json then (Inl (Validation ''operation result must be json''), c)
      else if operation = REFRESH_OPERATION then (Inl (Validation ''reserved bot operation''), c)
      else
        let s = live c; map_key = (bot_id, operation, request_key) in
        case hm_get (st_bot_operations s) map_key of
          None \<Rightarrow> (Inl (NotFound ''bot operation''), c)
        | Some existing \<Rightarrow>
            if bn_result_json existing \<noteq> None then (Inl (Conflict ''bot operation already finished''), c)
            else commit ev 0 (s\<lparr>st_bot_operations := hm_put map_key
                   (existing\<lparr>bn_result_json := Some result_json\<rparr>) (st_bot_operations s)\<rparr>) () c)"

section \<open>The trail is bounded\<close>

lemma drop_events_mine:
  "[event \<leftarrow> drop_events bot_id n events. bv_bot_id event = bot_id] =
     drop n [event \<leftarrow> events. bv_bot_id event = bot_id]"
  by (induction bot_id n events rule: drop_events.induct) (auto simp: drop_Cons')

lemma drop_events_others:
  "other \<noteq> bot_id \<Longrightarrow> [event \<leftarrow> drop_events bot_id n events. bv_bot_id event = other] =
     [event \<leftarrow> events. bv_bot_id event = other]"
  by (induction bot_id n events rule: drop_events.induct) auto

lemma cap_mine:
  "[event \<leftarrow> cap_bot_activity bot_id events. bv_bot_id event = bot_id] =
     (let mine = [event \<leftarrow> events. bv_bot_id event = bot_id] in drop (length mine - ACTIVITY_CAP) mine)"
  by (auto simp: cap_bot_activity_def Let_def drop_events_mine)

lemma cap_others:
  "other \<noteq> bot_id \<Longrightarrow> [event \<leftarrow> cap_bot_activity bot_id events. bv_bot_id event = other] =
     [event \<leftarrow> events. bv_bot_id event = other]"
  by (simp add: cap_bot_activity_def Let_def drop_events_others)

text \<open>
  An observation that is not coalesced is recorded at the end of the bot's trail: of the events of
  that bot, those of the last ninety days stay in their order, the newest five hundred of them with the
  new one, and the trail of every other bot is what it was. A heartbeat and a repeat of the last
  outcome within a minute record nothing. No event recorded holds an enrollment key or a refresh token
  in its action, outcome or scope.
\<close>

theorem activity_keeps_the_newest:
  assumes "note_bot_observation ev bot_id observation c = (Inr (), c')"
    and "hm_get (st_bots (live c)) bot_id = Some b" and "bo_id b = bot_id"
  shows "if ob_heartbeat observation \<or>
       bo_last_outcome b = Some (ob_outcome observation) \<and> within_coalesce (env_clk ev 0) (bo_updated_at b)
    then st_bot_activity (live c') = st_bot_activity (live c)
    else
      (\<exists>dropped. [event \<leftarrow> st_bot_activity (live c). bv_bot_id event = bot_id \<and>
           env_clk ev 0 - duration_days 90 \<le> bv_created_at event] @ [observed_event ev bot_id observation] =
         dropped @ [event \<leftarrow> st_bot_activity (live c'). bv_bot_id event = bot_id] \<and>
         (dropped \<noteq> [] \<longrightarrow> length [event \<leftarrow> st_bot_activity (live c'). bv_bot_id event = bot_id] = 500)) \<and>
      length [event \<leftarrow> st_bot_activity (live c'). bv_bot_id event = bot_id] \<le> 500 \<and>
      (\<forall>other. other \<noteq> bot_id \<longrightarrow> [event \<leftarrow> st_bot_activity (live c'). bv_bot_id event = other] =
         [event \<leftarrow> st_bot_activity (live c). bv_bot_id event = other]) \<and>
      list_all (\<lambda>field. \<not> contains_text field ''jbk_'' \<and> \<not> contains_text field ''jbr_'')
        [ob_action observation, ob_outcome observation, ob_scope observation]"
proof -
  have ran: "\<not> observation_contains_secret observation"
    using assms(1) by (auto simp: note_bot_observation_def try_pure_Inr split: if_splits)
  show ?thesis
  proof (cases "ob_heartbeat observation \<or>
      bo_last_outcome b = Some (ob_outcome observation) \<and> within_coalesce (env_clk ev 0) (bo_updated_at b)")
    case True
    with assms show ?thesis
      by (auto simp: note_bot_observation_def try_pure_Inr Let_def put_bot_def split: if_splits option.splits)
  next
    case False
    let ?mine = "[event \<leftarrow> st_bot_activity (live c). bv_bot_id event = bot_id \<and>
        env_clk ev 0 - duration_days 90 \<le> bv_created_at event] @ [observed_event ev bot_id observation]"
    have recorded: "bv_bot_id (observed_event ev bot_id observation) = bot_id"
      "env_clk ev 0 - duration_days 90 \<le> bv_created_at (observed_event ev bot_id observation)"
      by (simp_all add: observed_event_def duration_days_def duration_hours_def duration_minutes_def
          duration_seconds_def)
    have trail: "st_bot_activity (live c') = cap_bot_activity bot_id
        [event \<leftarrow> st_bot_activity (live c) @ [observed_event ev bot_id observation].
          bv_bot_id event \<noteq> bot_id \<or> env_clk ev 0 - duration_days 90 \<le> bv_created_at event]"
      using assms False ran
      by (auto simp: note_bot_observation_def try_pure_Inr Let_def put_bot_def ACTIVITY_TTL_DAYS_def
          split: if_splits)
    have mine: "[event \<leftarrow> st_bot_activity (live c'). bv_bot_id event = bot_id] = drop (length ?mine - 500) ?mine"
      using recorded by (simp add: trail cap_mine ACTIVITY_CAP_def Let_def conj_commute del: drop_append cong: conj_cong)
    have other: "[event \<leftarrow> st_bot_activity (live c'). bv_bot_id event = other] =
        [event \<leftarrow> st_bot_activity (live c). bv_bot_id event = other]" if "other \<noteq> bot_id" for other
    proof -
      have "[event \<leftarrow> st_bot_activity (live c). (bv_bot_id event \<noteq> bot_id \<or>
            env_clk ev 0 - duration_days 90 \<le> bv_created_at event) \<and> bv_bot_id event = other] =
          [event \<leftarrow> st_bot_activity (live c). bv_bot_id event = other]"
        using that by (intro filter_cong) auto
      with that recorded show ?thesis by (simp add: trail cap_others conj_commute)
    qed
    have split: "?mine = take (length ?mine - 500) ?mine @ [event \<leftarrow> st_bot_activity (live c'). bv_bot_id event = bot_id]"
      unfolding mine by (rule append_take_drop_id [symmetric])
    have full: "take (length ?mine - 500) ?mine \<noteq> [] \<longrightarrow>
        length [event \<leftarrow> st_bot_activity (live c'). bv_bot_id event = bot_id] = 500"
      unfolding mine by (auto simp only: length_drop take_eq_Nil)
    have few: "length [event \<leftarrow> st_bot_activity (live c'). bv_bot_id event = bot_id] \<le> 500"
      unfolding mine by (simp only: length_drop)
    have clean: "list_all (\<lambda>field. \<not> contains_text field ''jbk_'' \<and> \<not> contains_text field ''jbr_'')
        [ob_action observation, ob_outcome observation, ob_scope observation]"
      using ran by (simp add: observation_contains_secret_def)
    show ?thesis
      unfolding if_not_P [OF False] using split full few other clean by blast
  qed
qed

text \<open>A bot of \<^verbatim>\<open>root\<close>, and what it is seen doing.\<close>

definition ex_bot :: bot_record where
  "ex_bot =
     \<lparr>bo_id = 7, bo_owner = ''root'', bo_owner_kind = OwnedByUser, bo_steward_team = None, bo_slug = ''helper'',
      bo_display_name = ''Helper'', bo_kind = ''grok'', bo_status = BotActive, bo_reach = ReachGeneral None,
      bo_auth_epoch = 0, bo_credential_generation = 1, bo_last_successful_access = None, bo_last_auth = None,
      bo_last_mutation = None, bo_last_heartbeat = None, bo_last_action = None, bo_last_outcome = None,
      bo_last_repo = None, bo_created_at = 0, bo_updated_at = 0\<rparr>"

definition ex_bot_core :: core where
  "ex_bot_core = \<lparr>live = ex_state\<lparr>st_bots := [(7, ex_bot)]\<rparr>, storage = None\<rparr>"

definition ex_observation :: bot_observation where
  "ex_observation =
     \<lparr>ob_key_id = ''k'', ob_action = ''push'', ob_outcome = ''ok'', ob_scope = ''repo'', ob_repo = None,
      ob_session_id = None, ob_success = True, ob_mutation = True, ob_heartbeat = False\<rparr>"

lemma ex_observed:
  "\<exists>c'. note_bot_observation ex_env 7 ex_observation ex_bot_core = (Inr (), c') \<and>
     st_bot_activity (live c') = [observed_event ex_env 7 ex_observation]"
proof -
  have "require_name ''action'' ''push'' = Inr ()" "\<not> observation_contains_secret ex_observation"
    by code_simp+
  then show ?thesis
    by (simp add: note_bot_observation_def ex_observation_def ex_bot_core_def ex_bot_def Let_def commit_eq
        put_bot_def persisted_def write_fails_def cap_bot_activity_def ACTIVITY_CAP_def ex_state_def
        default_state_def observed_event_def duration_days_def duration_hours_def duration_minutes_def
        duration_seconds_def ACTIVITY_TTL_DAYS_def)
qed

theorem activity_keeps_the_newest_witness:
  "\<exists>c'. note_bot_observation ex_env 7 ex_observation ex_bot_core = (Inr (), c') \<and>
     length [event \<leftarrow> st_bot_activity (live c'). bv_bot_id event = 7] \<le> 500 \<and>
     st_bot_activity (live c') \<noteq> []"
proof -
  obtain c' where ran: "note_bot_observation ex_env 7 ex_observation ex_bot_core = (Inr (), c')"
    "st_bot_activity (live c') = [observed_event ex_env 7 ex_observation]"
    using ex_observed by blast
  have "hm_get (st_bots (live ex_bot_core)) 7 = Some ex_bot" "bo_id ex_bot = 7" "bo_last_outcome ex_bot = None"
    "\<not> ob_heartbeat ex_observation"
    by (simp_all add: ex_bot_core_def ex_bot_def ex_observation_def)
  with activity_keeps_the_newest [OF ran(1)] ran show ?thesis by auto
qed

section \<open>An operation starts once\<close>

lemma hm_get_kept: "hm_get m k = Some v \<Longrightarrow> P k v \<Longrightarrow> hm_get (hm_retain P m) k = Some v"
  by (induction m) (auto simp: hm_retain_def split: if_splits)

lemma prune_keeps_recent:
  "hm_get (st_bot_operations s) k = Some row \<Longrightarrow> bn_operation row \<noteq> REFRESH_OPERATION \<Longrightarrow>
     now - duration_hours OPERATION_TTL_HOURS \<le> bn_created_at row \<Longrightarrow>
     hm_get (st_bot_operations (prune_bot_operations now s)) k = Some row"
  by (simp add: prune_bot_operations_def hm_get_kept)

lemma prune_bots [simp]: "st_bots (prune_bot_operations now s) = st_bots s"
  by (simp add: prune_bot_operations_def)

lemma reserve_Start:
  assumes "reserve_bot_operation ev bot_id operation request_key body_digest c = (Inr Start, c')"
  shows "require_name ''operation'' operation = Inr ()" and "operation \<noteq> REFRESH_OPERATION"
    and "require_name ''request key'' request_key = Inr ()" and "require_digest body_digest = Inr ()"
    and "hm_has (st_bots (live c')) bot_id"
    and "hm_get (st_bot_operations (live c')) (bot_id, operation, request_key) =
      Some \<lparr>bn_bot_id = bot_id, bn_operation = operation, bn_request_key = request_key,
        bn_body_digest = body_digest, bn_result_json = None, bn_created_at = env_clk ev 0\<rparr>"
  using assms
  by (auto simp: reserve_bot_operation_def try_pure_Inr Let_def hm_has_def split: if_splits option.splits)

lemma reserve_again:
  assumes "require_name ''operation'' operation = Inr ()" and "operation \<noteq> REFRESH_OPERATION"
    and "require_name ''request key'' request_key = Inr ()" and "require_digest body_digest = Inr ()"
    and "hm_has (st_bots (live c)) bot_id"
    and "hm_get (st_bot_operations (live c)) (bot_id, operation, request_key) = Some row"
    and "bn_operation row = operation"
    and "env_clk ev 0 - duration_hours OPERATION_TTL_HOURS \<le> bn_created_at row"
  shows "reserve_bot_operation ev bot_id operation request_key body_digest c =
    (if bn_body_digest row \<noteq> body_digest then (Inl (Conflict ''idempotency_conflict''), c)
     else (Inr (case bn_result_json row of None \<Rightarrow> InProgress | Some result_json \<Rightarrow> Replay result_json),
           c\<lparr>live := prune_bot_operations (env_clk ev 0) (live c)\<rparr>))"
  using assms prune_keeps_recent [OF assms(6), of "env_clk ev 0"]
  by (simp add: reserve_bot_operation_def Let_def)

text \<open>
  Under one idempotency key an operation starts once: after the start, for as long as its row is not
  a day old, a repeat with the same body is told that it is in progress, a repeat with another body is a
  conflict that changes nothing, and once it is finished a repeat gets the result that was stored, which
  no second finish replaces.
\<close>

theorem operation_starts_once:
  assumes "reserve_bot_operation ev bot_id operation request_key body_digest c = (Inr Start, c1)"
    and "env_clk ev' 0 \<le> env_clk ev 0 + duration_hours 24"
    and "require_digest other_digest = Inr ()" and "other_digest \<noteq> body_digest"
    and "finish_bot_operation ev'' is_json bot_id operation request_key result_json c1 = (Inr (), c2)"
  shows "fst (reserve_bot_operation ev' bot_id operation request_key body_digest c1) = Inr InProgress \<and>
    reserve_bot_operation ev' bot_id operation request_key other_digest c1 =
      (Inl (Conflict ''idempotency_conflict''), c1) \<and>
    fst (reserve_bot_operation ev' bot_id operation request_key body_digest c2) = Inr (Replay result_json) \<and>
    (\<exists>e. finish_bot_operation ev''' is_json' bot_id operation request_key other_result c2 = (Inl e, c2))"
proof -
  note start = reserve_Start [OF assms(1)]
  have in_time: "env_clk ev' 0 - duration_hours OPERATION_TTL_HOURS \<le> env_clk ev 0"
    using assms(2) by (simp add: OPERATION_TTL_HOURS_def)
  have finished: "hm_get (st_bot_operations (live c2)) (bot_id, operation, request_key) =
      Some \<lparr>bn_bot_id = bot_id, bn_operation = operation, bn_request_key = request_key,
        bn_body_digest = body_digest, bn_result_json = Some result_json, bn_created_at = env_clk ev 0\<rparr>"
    and bots: "hm_has (st_bots (live c2)) bot_id"
    using assms(5) start(2,5,6)
    by (auto simp: finish_bot_operation_def Let_def split: if_splits)
  have second: "\<exists>e. finish_bot_operation ev''' is_json' bot_id operation request_key other_result c2 = (Inl e, c2)"
    using start(2) finished by (simp add: finish_bot_operation_def)
  show ?thesis
    using reserve_again [OF start, of ev'] reserve_again [OF start(1-3) assms(3) start(5,6), of ev']
      reserve_again [OF start(1-4) bots finished, of ev'] in_time assms(4) second
    by simp
qed

definition ex_digest :: "char \<Rightarrow> string" where
  "ex_digest c = replicate 64 c"

lemma ex_started:
  "\<exists>c1 c2. reserve_bot_operation ex_env 7 ''issue.open'' ''k1'' (ex_digest (CHR ''a'')) ex_bot_core = (Inr Start, c1) \<and>
     finish_bot_operation ex_env (\<lambda>_. True) 7 ''issue.open'' ''k1'' ''{}'' c1 = (Inr (), c2)"
proof -
  have names: "require_name ''operation'' ''issue.open'' = Inr ()" "require_name ''request key'' ''k1'' = Inr ()"
    "require_digest (ex_digest (CHR ''a'')) = Inr ()" "''issue.open'' \<noteq> REFRESH_OPERATION"
    by code_simp+
  show ?thesis
    by (simp add: names reserve_bot_operation_def finish_bot_operation_def ex_bot_core_def Let_def commit_eq
        persisted_def write_fails_def hm_has_def prune_bot_operations_def ex_state_def default_state_def hm_retain_def)
qed

theorem operation_starts_once_witness:
  "\<exists>c1. reserve_bot_operation ex_env 7 ''issue.open'' ''k1'' (ex_digest (CHR ''a'')) ex_bot_core = (Inr Start, c1) \<and>
     fst (reserve_bot_operation ex_env 7 ''issue.open'' ''k1'' (ex_digest (CHR ''a'')) c1) = Inr InProgress \<and>
     reserve_bot_operation ex_env 7 ''issue.open'' ''k1'' (ex_digest (CHR ''b'')) c1 =
       (Inl (Conflict ''idempotency_conflict''), c1)"
proof -
  obtain c1 c2 where ran:
    "reserve_bot_operation ex_env 7 ''issue.open'' ''k1'' (ex_digest (CHR ''a'')) ex_bot_core = (Inr Start, c1)"
    "finish_bot_operation ex_env (\<lambda>_. True) 7 ''issue.open'' ''k1'' ''{}'' c1 = (Inr (), c2)"
    using ex_started by blast
  have "require_digest (ex_digest (CHR ''b'')) = Inr ()" "ex_digest (CHR ''b'') \<noteq> ex_digest (CHR ''a'')"
    by code_simp+
  moreover have "env_clk ex_env 0 \<le> env_clk ex_env 0 + duration_hours 24"
    by (simp add: duration_hours_def duration_minutes_def duration_seconds_def)
  ultimately show ?thesis
    using operation_starts_once [OF ran(1) _ _ _ ran(2)] ran(1) by blast
qed

end
