(* ===== verification/Bot_Tokens.thy ===== *)
theory Bot_Tokens
  imports Bot_Activity
begin

text \<open>
  Agent tokens (\<^verbatim>\<open>engine/bot_tokens.rs\<close>) and the grants of team bots (\<^verbatim>\<open>engine/team_bots.rs\<close>): long-lived
  bearers of a bot that are valid for its current generation only, and for a team bot only while
  whoever issued them stewards it; who may grant a team bot a repository, and the account a bot acts as.
\<close>

section \<open>Agent tokens\<close>

definition AGENT_TOKEN_PREFIX :: string where
  "AGENT_TOKEN_PREFIX = ''jat_''"

definition DEFAULT_TTL_DAYS :: nat where
  "DEFAULT_TTL_DAYS = 90"

definition MAX_TTL_DAYS :: nat where
  "MAX_TTL_DAYS = 365"

definition MAX_LIVE_TOKENS :: nat where
  "MAX_LIVE_TOKENS = 10"

definition LAST_USED_COALESCE_SECS :: int where
  "LAST_USED_COALESCE_SECS = 60"

definition INVALID_TOKEN :: string where
  "INVALID_TOKEN = ''invalid agent token''"

definition access_token_summary_from :: "bot_access_token_record \<Rightarrow> bot_access_token_summary" where
  "access_token_summary_from token =
     \<lparr>ts_token_id = bt_token_id token, ts_bot_id = bt_bot_id token, ts_label = bt_label token,
      ts_issued_by = bt_issued_by token, ts_created_at = bt_created_at token,
      ts_expires_at = bt_expires_at token, ts_last_used_at = bt_last_used_at token,
      ts_revoked_at = bt_revoked_at token\<rparr>"

definition token_is_live :: "bot_access_token_record \<Rightarrow> bot_record \<Rightarrow> time \<Rightarrow> bool" where
  "token_is_live token b now =
     (bt_revoked_at token = None \<and> now < bt_expires_at token \<and>
      bt_generation token = bo_credential_generation b)"

definition invalid_token :: forge_error where
  "invalid_token = explain_bot (Validation INVALID_TOKEN)"

definition newest_live_key :: "state \<Rightarrow> bot_record \<Rightarrow> time \<Rightarrow> string option" where
  "newest_live_key s b now =
     map_option bk_key_id (max_by_key bk_created_at
       [key \<leftarrow> hm_values (st_bot_keys s). bk_bot_id key = bo_id b \<and> key_is_live key now])"

definition live_tokens :: "state \<Rightarrow> bot_record \<Rightarrow> time \<Rightarrow> bot_access_token_record list" where
  "live_tokens s b now =
     [token \<leftarrow> hm_values (st_bot_access_tokens s). bt_bot_id token = bo_id b \<and> token_is_live token b now]"

definition token_label :: "string option \<Rightarrow> forge_error + string option" where
  "token_label label =
     (case map_option str_trim label of
        None \<Rightarrow> Inr None
      | Some trimmed \<Rightarrow>
          if trimmed = [] then Inr None
          else if 80 < char_count trimmed then Inl (Validation ''label must be at most 80 characters'')
          else Inr (Some trimmed))"

definition issued_row ::
  "env \<Rightarrow> string \<Rightarrow> bot_record \<Rightarrow> string \<Rightarrow> string \<Rightarrow> string \<Rightarrow> string option \<Rightarrow> time \<Rightarrow> bot_access_token_record" where
  "issued_row ev actor b key_id token_id token label expires_at =
     \<lparr>bt_token_hash = token_hash ev token, bt_token_id = token_id, bt_bot_id = bo_id b, bt_key_id = key_id,
      bt_generation = bo_credential_generation b, bt_label = label, bt_issued_by = Some actor,
      bt_created_at = env_clk ev 0, bt_expires_at = expires_at, bt_last_used_at = None, bt_revoked_at = None\<rparr>"

lemma issued_row_sel [simp]:
  "bt_token_hash (issued_row ev actor b key_id token_id token label expires_at) = token_hash ev token"
  "bt_token_id (issued_row ev actor b key_id token_id token label expires_at) = token_id"
  "bt_bot_id (issued_row ev actor b key_id token_id token label expires_at) = bo_id b"
  "bt_generation (issued_row ev actor b key_id token_id token label expires_at) = bo_credential_generation b"
  "bt_issued_by (issued_row ev actor b key_id token_id token label expires_at) = Some actor"
  "bt_created_at (issued_row ev actor b key_id token_id token label expires_at) = env_clk ev 0"
  "bt_expires_at (issued_row ev actor b key_id token_id token label expires_at) = expires_at"
  "bt_last_used_at (issued_row ev actor b key_id token_id token label expires_at) = None"
  "bt_revoked_at (issued_row ev actor b key_id token_id token label expires_at) = None"
  by (simp_all add: issued_row_def)

text \<open>Twelve reads of the generator make the token id; the thirteenth makes the secret.\<close>

definition issue_bot_access_token ::
  "env \<Rightarrow> string \<Rightarrow> uuid \<Rightarrow> string option \<Rightarrow> nat option \<Rightarrow> core \<Rightarrow> bot_access_token_issued outcome" where
  "issue_bot_access_token ev actor bot_id label ttl_days c =
     try_pure (require_active_account (live c) actor) c (\<lambda>_.
       let ttl_days = case_option DEFAULT_TTL_DAYS id ttl_days in
       if ttl_days = 0 \<or> MAX_TTL_DAYS < ttl_days
       then (Inl (Validation (''ttl_days must be between 1 and '' @ show_nat MAX_TTL_DAYS)), c)
       else
         try_pure (token_label label) c (\<lambda>label.
         try_pure (new_key_id ev 0) c (\<lambda>token_id.
         try_pure (new_secret ev 12) c (\<lambda>secret.
         let token = AGENT_TOKEN_PREFIX @ token_id @ ''.'' @ secret; now = env_clk ev 0; s = live c in
         try_pure (managed_bot s actor bot_id) c (\<lambda>b.
           if \<not> bot_account_matches s b
           then (Inl (Validation ''the bot is not active; agent tokens need an active bot''), c)
           else
             try_pure (ok_or (newest_live_key s b now)
               (Validation ''the bot has no live key; rotate its key first'')) c (\<lambda>key_id.
               if MAX_LIVE_TOKENS \<le> length (live_tokens s b now)
               then (Inl (Conflict (''the bot already has '' @ show_nat MAX_LIVE_TOKENS
                       @ '' live agent tokens; revoke one first'')), c)
               else
                 let token_row = issued_row ev actor b key_id token_id token label (now + duration_days (int ttl_days))
                 in try_op (commit ev 0 (s\<lparr>st_bot_access_tokens :=
                        hm_put (bt_token_hash token_row) token_row (st_bot_access_tokens s)\<rparr>) () c) (\<lambda>_ c.
                    try_op (record_bot_audit ev 1 actor ''bot.token.issue'' (bot_subject b) ''completed'' (bo_id b)
                        (Some key_id) None c)
                      (\<lambda>_ c. (Inr \<lparr>ti_bot = bot_summary_from b, ti_token_id = token_id, ti_token = token,
                               ti_label = label, ti_created_at = bt_created_at token_row,
                               ti_expires_at = bt_expires_at token_row\<rparr>, c)))))))))"

definition list_bot_access_tokens ::
  "state \<Rightarrow> string \<Rightarrow> uuid \<Rightarrow> forge_error + bot_access_token_summary list" where
  "list_bot_access_tokens s actor bot_id =
     try_res (managed_bot s actor bot_id) (\<lambda>_.
       Inr (sort_key (\<lambda>token. - ts_created_at token) (map access_token_summary_from
         [token \<leftarrow> hm_values (st_bot_access_tokens s). bt_bot_id token = bot_id])))"

definition revoke_bot_access_token ::
  "env \<Rightarrow> string \<Rightarrow> uuid \<Rightarrow> string \<Rightarrow> core \<Rightarrow> bot_access_token_summary outcome" where
  "revoke_bot_access_token ev actor bot_id token_id c =
     (let s = live c in
      try_pure (managed_bot s actor bot_id) c (\<lambda>b.
      try_pure (ok_or (find (\<lambda>(_, token). bt_bot_id token = bot_id \<and> bt_token_id token = token_id)
          (st_bot_access_tokens s)) (NotFound (''agent token '' @ token_id))) c (\<lambda>(h, token).
        let token = (if bt_revoked_at token = None then token\<lparr>bt_revoked_at := Some (env_clk ev 0)\<rparr> else token)
        in try_op (commit ev 0 (s\<lparr>st_bot_access_tokens := hm_put h token (st_bot_access_tokens s)\<rparr>) () c) (\<lambda>_ c.
           try_op (record_bot_audit ev 1 actor ''bot.token.revoke'' (bot_subject b) ''completed'' (bo_id b) None None c)
             (\<lambda>_ c. (Inr (access_token_summary_from token), c))))))"

text \<open>A person's bot follows its owner's account; a team bot's token works while its issuer stewards the bot.\<close>

definition issuer_still_stewards :: "state \<Rightarrow> bot_record \<Rightarrow> bot_access_token_record \<Rightarrow> bool" where
  "issuer_still_stewards s b token =
     (case bo_owner_kind b of
        OwnedByUser \<Rightarrow> True
      | OwnedByOrganization \<Rightarrow>
          (case bt_issued_by token of None \<Rightarrow> False | Some issuer \<Rightarrow> is_steward s b issuer))"

definition verified_token :: "env \<Rightarrow> state \<Rightarrow> string \<Rightarrow> forge_error + (bot_access_token_auth \<times> bool)" where
  "verified_token ev s token =
     (if \<not> starts_with token AGENT_TOKEN_PREFIX \<or> 120 < length token then Inl invalid_token
      else
        let now = env_clk ev 0 in
        try_res (ok_or (hm_get (st_bot_access_tokens s) (token_hash ev token)) invalid_token) (\<lambda>row.
        try_res (ok_or (hm_get (st_bots s) (bt_bot_id row)) invalid_token) (\<lambda>b.
          if \<not> bot_account_matches s b \<or> \<not> token_is_live row b now \<or> \<not> issuer_still_stewards s b row
          then Inl invalid_token
          else
            try_res (ok_or (newest_live_key s b now) invalid_token) (\<lambda>key_id.
              Inr (\<lparr>ta_bot = bot_summary_from b, ta_token_id = bt_token_id row, ta_key_id = key_id,
                    ta_generation = bt_generation row, ta_expires_at = bt_expires_at row\<rparr>,
                   case bt_last_used_at row of
                     None \<Rightarrow> True
                   | Some used \<Rightarrow> duration_seconds LAST_USED_COALESCE_SECS \<le> now - used)))))"

text \<open>The time of the last use is kept in memory and written with the next mutation.\<close>

definition authenticate_bot_access_token :: "env \<Rightarrow> string \<Rightarrow> core \<Rightarrow> bot_access_token_auth outcome" where
  "authenticate_bot_access_token ev token c =
     try_pure (verified_token ev (live c) token) c (\<lambda>(auth, stale).
       if stale
       then (Inr auth,
             case hm_get (st_bot_access_tokens (live c)) (token_hash ev token) of
               None \<Rightarrow> c
             | Some row \<Rightarrow> c\<lparr>live := (live c)\<lparr>st_bot_access_tokens := hm_put (token_hash ev token)
                 (row\<lparr>bt_last_used_at := Some (env_clk ev 0)\<rparr>) (st_bot_access_tokens (live c))\<rparr>\<rparr>)
       else (Inr auth, c))"

section \<open>Team bots\<close>

definition administers_repository :: "state \<Rightarrow> string \<Rightarrow> string \<Rightarrow> string \<Rightarrow> bool" where
  "administers_repository s actor owner repo =
     (if state_is_admin s actor then True
      else active_account s actor \<and>
        (case hm_get (st_repo_grants s) (actor, owner, repo) of
           None \<Rightarrow> False | Some grant \<Rightarrow> ga_access grant = AccessAdmin))"

definition granting_context ::
  "state \<Rightarrow> string \<Rightarrow> uuid \<Rightarrow> string \<Rightarrow> string \<Rightarrow> forge_error + (bot_record \<times> uuid)" where
  "granting_context s actor bot_id owner repo =
     try_res (ok_or (hm_get (st_repos s) (owner, repo)) (NotFound (''repository '' @ slug_name owner repo))) (\<lambda>repository.
       if \<not> administers_repository s actor owner repo
       then Inl (Forbidden ((''repository administrator required to change a bot'' @ [CHR 0x27]) @ ''s grant''))
       else
         case hm_get (st_bots s) bot_id of
           None \<Rightarrow> Inl (explain_bot (NotFound (''team bot '' @ show_uuid bot_id)))
         | Some b \<Rightarrow>
             if bo_owner_kind b = OwnedByOrganization then Inr (b, rp_id repository)
             else Inl (explain_bot (NotFound (''team bot '' @ show_uuid bot_id))))"

primrec access_json :: "bot_repo_access \<Rightarrow> json" where
  "access_json BotRead = JStr ''read''"
| "access_json BotWrite = JStr ''write''"

definition audit_grant ::
  "env \<Rightarrow> nat \<Rightarrow> string \<Rightarrow> string \<Rightarrow> bot_record \<Rightarrow> string \<Rightarrow> string \<Rightarrow> bot_repo_access option \<Rightarrow> core \<Rightarrow> unit outcome" where
  "audit_grant ev n actor action b owner repo access c =
     try_op (append_audit_as ev n actor action (bot_subject b) ''completed''
       (JObj [(''bot_id'', JStr (show_uuid (bo_id b))), (''repo'', JStr (slug_name owner repo)),
              (''access'', j_opt access_json access)]) c) (\<lambda>_ c. (Inr (), c))"

definition grant_bot_repository ::
  "env \<Rightarrow> string \<Rightarrow> uuid \<Rightarrow> string \<Rightarrow> string \<Rightarrow> bot_repo_access \<Rightarrow> core \<Rightarrow> bot_repo_grant outcome" where
  "grant_bot_repository ev actor bot_id owner repo access c =
     (let s = live c in
      try_pure (granting_context s actor bot_id owner repo) c (\<lambda>(b, repo_id).
        if bo_status b = BotRevoked then (Inl (bot_not_found bot_id), c)
        else
          let grant_row = \<lparr>bg_bot_id = bot_id, bg_repo_id = repo_id, bg_access = access, bg_granted_by = actor,
                           bg_granted_at = env_clk ev 0\<rparr>
          in try_op (commit ev 0 (s\<lparr>st_bot_repo_grants :=
                 hm_put (bot_id, repo_id) grant_row (st_bot_repo_grants s)\<rparr>) () c) (\<lambda>_ c.
             try_op (audit_grant ev 1 actor ''bot.grant'' b owner repo (Some access) c) (\<lambda>_ c.
               (Inr \<lparr>gv_bot_id = bot_id, gv_owner = owner, gv_repo = repo, gv_access = access,
                     gv_granted_by = bg_granted_by grant_row, gv_granted_at = bg_granted_at grant_row\<rparr>, c)))))"

definition revoke_bot_repository_grant ::
  "env \<Rightarrow> string \<Rightarrow> uuid \<Rightarrow> string \<Rightarrow> string \<Rightarrow> core \<Rightarrow> unit outcome" where
  "revoke_bot_repository_grant ev actor bot_id owner repo c =
     (let s = live c in
      try_pure (granting_context s actor bot_id owner repo) c (\<lambda>(b, repo_id).
        if \<not> hm_has (st_bot_repo_grants s) (bot_id, repo_id) then (Inr (), c)
        else
          try_op (commit ev 0 (s\<lparr>st_bot_repo_grants :=
              hm_del (bot_id, repo_id) (st_bot_repo_grants s)\<rparr>) () c) (\<lambda>_ c.
            audit_grant ev 1 actor ''bot.ungrant'' b owner repo None c)))"

definition list_bot_repo_grants :: "state \<Rightarrow> string \<Rightarrow> uuid \<Rightarrow> forge_error + bot_repo_grant list" where
  "list_bot_repo_grants s actor bot_id =
     try_res (managed_bot s actor bot_id) (\<lambda>_.
       Inr (sort_key (\<lambda>g. (gv_owner g, gv_repo g)) (List.map_filter (\<lambda>g.
         map_option (\<lambda>repository.
             \<lparr>gv_bot_id = bot_id, gv_owner = rp_owner repository, gv_repo = rp_name repository,
              gv_access = bg_access g, gv_granted_by = bg_granted_by g, gv_granted_at = bg_granted_at g\<rparr>)
           (find (\<lambda>repository. rp_id repository = bg_repo_id g) (hm_values (st_repos s))))
         [g \<leftarrow> hm_values (st_bot_repo_grants s). bg_bot_id g = bot_id])))"

definition revoke_issued_team_bot_tokens :: "env \<Rightarrow> string \<Rightarrow> core \<Rightarrow> nat outcome" where
  "revoke_issued_team_bot_tokens ev actor c =
     (case revoke_tokens_issued_by actor (env_clk ev 0) (live c) of
        (revoked, s) \<Rightarrow>
          if revoked = 0 then (Inr 0, c\<lparr>live := s\<rparr>)
          else
            try_op (commit ev 0 s () c) (\<lambda>_ c.
            try_op (append_audit_as ev 1 actor ''bot.token.revoke_issued'' (''issuer:'' @ actor) ''completed''
                (JObj [(''revoked'', JNum (int revoked))]) c)
              (\<lambda>_ c. (Inr revoked, c))))"

definition bot_acting_account :: "state \<Rightarrow> uuid \<Rightarrow> forge_error + account_summary" where
  "bot_acting_account s bot_id =
     try_res (ok_or (hm_get (st_bots s) bot_id) (bot_not_found bot_id)) (\<lambda>b.
       case bo_owner_kind b of
         OwnedByUser \<Rightarrow> get_account s (bo_owner b)
       | OwnedByOrganization \<Rightarrow>
           Inr \<lparr>as_login = team_bot_login (bo_owner b) (bo_slug b), as_display_name = bo_display_name b,
                as_role = RoleUser, as_status = Active, as_auth_epoch = 0, as_must_change_password = False,
                as_created_at = bo_created_at b, as_updated_at = bo_updated_at b\<rparr>)"

section \<open>A token works until it is revoked\<close>

lemma bot_audit_live:
  "live (snd (record_bot_audit ev n actor action subject phase bot_id key_id code c)) = live c"
  unfolding record_bot_audit_def Let_def
  by (simp add: try_op_def split: prod.split sum.split)
    (metis append_audit_live snd_conv)

lemma bot_audit_Inr: "record_bot_audit ev n actor action subject phase bot_id key_id code c = (r, c') \<Longrightarrow> live c' = live c"
  by (metis bot_audit_live snd_conv)

lemma issue_token_Inr:
  assumes "issue_bot_access_token ev actor bot_id label ttl c = (Inr issued, c')"
  obtains b key_id token_id secret shown where
    "managed_bot (live c) actor bot_id = Inr b" "bot_account_matches (live c) b"
    "length (live_tokens (live c) b (env_clk ev 0)) < MAX_LIVE_TOKENS"
    "new_key_id ev 0 = Inr token_id" "new_secret ev 12 = Inr secret"
    "ti_token_id issued = token_id" "ti_token issued = AGENT_TOKEN_PREFIX @ token_id @ ''.'' @ secret"
    "live c' = (live c)\<lparr>st_bot_access_tokens := hm_put (token_hash ev (ti_token issued))
       (issued_row ev actor b key_id token_id (ti_token issued) shown (ti_expires_at issued))
       (st_bot_access_tokens (live c))\<rparr>"
proof -
  from assms show thesis
    apply (clarsimp simp: issue_bot_access_token_def ok_paths Let_def not_le split: if_splits)
    apply (drule bot_audit_Inr)
    apply (rule that)
    apply (assumption | simp)+
    done
qed

lemma live_tokens_put:
  "length (live_tokens (s\<lparr>st_bot_access_tokens := hm_put h row (st_bot_access_tokens s)\<rparr>) b now)
     \<le> Suc (length (live_tokens s b now))"
proof -
  have "length [token \<leftarrow> hm_values (hm_put h row m). P token] \<le> Suc (length [token \<leftarrow> hm_values m. P token])" for P m
    by (induction m) (auto simp: hm_values_def)
  then show ?thesis by (simp add: live_tokens_def)
qed

lemma managed_bot_Inr:
  "managed_bot s actor bot_id = Inr b \<longleftrightarrow> hm_get (st_bots s) bot_id = Some b \<and> may_manage_bot s actor b"
  by (auto simp: managed_bot_def split: option.splits if_splits)

text \<open>What authentication looks at besides the token's own row.\<close>

lemma views_after_token [simp]:
  "bot_account_matches (s\<lparr>st_bot_access_tokens := m\<rparr>) = bot_account_matches s"
  "newest_live_key (s\<lparr>st_bot_access_tokens := m\<rparr>) = newest_live_key s"
  "is_steward (s\<lparr>st_bot_access_tokens := m\<rparr>) = is_steward s"
  "managed_bot (s\<lparr>st_bot_access_tokens := m\<rparr>) = managed_bot s"
  "issuer_still_stewards (s\<lparr>st_bot_access_tokens := m\<rparr>) = issuer_still_stewards s"
  by (intro ext; unfold bot_account_matches_def newest_live_key_def is_steward_def managed_bot_def
      may_manage_bot_def state_is_admin_def active_account_def is_team_member_def issuer_still_stewards_def;
      simp cong: option.case_cong bot_owner_kind.case_cong if_cong)+

text \<open>
  What is issued works, and stops working when it is revoked: a token issued by whoever manages a
  bot authenticates as that bot until it expires, with the id it was issued under; once it is revoked by
  that id it does not; and issuing leaves the bot with no more than ten live tokens.
\<close>

theorem agent_token_works_until_revoked:
  assumes issued: "issue_bot_access_token ev actor bot_id label ttl c = (Inr issued, c')"
    and fills: "fills_buffers ev" and filed: "\<forall>k b. hm_get (st_bots (live c)) k = Some b \<longrightarrow> bo_id b = k"
    and later: "env_clk ev' 0 < ti_expires_at issued"
    and key: "\<exists>b. hm_get (st_bots (live c)) bot_id = Some b \<and> newest_live_key (live c) b (env_clk ev' 0) \<noteq> None"
    and hashes: "token_hash ev' (ti_token issued) = token_hash ev (ti_token issued)"
    and fresh: "\<forall>(h, row) \<in> set (st_bot_access_tokens (live c)).
      bt_bot_id row = bot_id \<longrightarrow> bt_token_id row \<noteq> ti_token_id issued"
    and revoked: "revoke_bot_access_token ev'' actor' bot_id (ti_token_id issued) c' = (Inr gone, c'')"
  shows "(\<exists>auth b. fst (authenticate_bot_access_token ev' (ti_token issued) c') = Inr auth \<and>
      hm_get (st_bots (live c)) bot_id = Some b \<and> ta_bot auth = bot_summary_from b \<and>
      ta_token_id auth = ti_token_id issued \<and> ta_expires_at auth = ti_expires_at issued) \<and>
    (\<forall>b. hm_get (st_bots (live c)) bot_id = Some b \<longrightarrow> length (live_tokens (live c') b (env_clk ev 0)) \<le> 10) \<and>
    fst (authenticate_bot_access_token ev' (ti_token issued) c'') = Inl invalid_token"
proof -
  obtain b key_id token_id secret shown where
    b: "managed_bot (live c) actor bot_id = Inr b" "bot_account_matches (live c) b"
    "length (live_tokens (live c) b (env_clk ev 0)) < MAX_LIVE_TOKENS"
    and made: "new_key_id ev 0 = Inr token_id" "new_secret ev 12 = Inr secret"
    "ti_token_id issued = token_id" "ti_token issued = AGENT_TOKEN_PREFIX @ token_id @ ''.'' @ secret"
    and after: "live c' = (live c)\<lparr>st_bot_access_tokens := hm_put (token_hash ev (ti_token issued))
       (issued_row ev actor b key_id token_id (ti_token issued) shown (ti_expires_at issued))
       (st_bot_access_tokens (live c))\<rparr>"
    using issued by (rule issue_token_Inr)
  define row where "row = issued_row ev actor b key_id token_id (ti_token issued) shown (ti_expires_at issued)"
  note after = after [folded row_def]
  have row: "bt_token_id row = token_id" "bt_bot_id row = bo_id b"
    "bt_generation row = bo_credential_generation b" "bt_issued_by row = Some actor"
    "bt_revoked_at row = None" "bt_last_used_at row = None" "bt_expires_at row = ti_expires_at issued"
    by (simp_all add: row_def)
  have stored: "hm_get (st_bots (live c)) bot_id = Some b" "may_manage_bot (live c) actor b"
    using b(1) by (simp_all add: managed_bot_Inr)
  with filed have id: "bo_id b = bot_id" by blast
  obtain key_now where key_now: "newest_live_key (live c) b (env_clk ev' 0) = Some key_now"
    using key stored(1) by auto
  have shape: "starts_with (ti_token issued) AGENT_TOKEN_PREFIX" "length (ti_token issued) \<le> 120"
    using new_key_id_shape(1) [OF made(1)] new_secret_length [OF fills made(2)]
    by (simp_all add: made(4) AGENT_TOKEN_PREFIX_def starts_with_def)
  have steward: "issuer_still_stewards (live c) b row"
    using stored(2) row(4) by (cases "bo_owner_kind b") (simp_all add: issuer_still_stewards_def may_manage_bot_def)
  have works: "fst (authenticate_bot_access_token ev' (ti_token issued) c') =
      Inr \<lparr>ta_bot = bot_summary_from b, ta_token_id = token_id, ta_key_id = key_now,
           ta_generation = bt_generation row, ta_expires_at = ti_expires_at issued\<rparr>"
    using shape stored(1) id steward later key_now b(2)
    by (simp add: authenticate_bot_access_token_def verified_token_def Let_def hashes after row
        token_is_live_def)
  moreover have "length (live_tokens (live c') b (env_clk ev 0)) \<le> 10"
    using live_tokens_put [of "token_hash ev (ti_token issued)" row "live c" b "env_clk ev 0"] b(3)
    by (simp add: after MAX_LIVE_TOKENS_def)
  moreover have "fst (authenticate_bot_access_token ev' (ti_token issued) c'') = Inl invalid_token"
  proof -
    let ?ours = "\<lambda>(h, token). bt_bot_id token = bot_id \<and> bt_token_id token = token_id"
    let ?m = "st_bot_access_tokens (live c)" and ?h = "token_hash ev (ti_token issued)"
    have "find ?ours (hm_put ?h row m) = Some (?h, row)"
      if "\<forall>(h, t) \<in> set m. bt_bot_id t = bot_id \<longrightarrow> bt_token_id t \<noteq> token_id" for m
      using that row(1,2) id by (induction m) auto
    then have found: "find ?ours (hm_put ?h row ?m) = Some (?h, row)"
      using fresh made(3) by auto
    have "\<exists>e. live c'' = (live c')\<lparr>st_bot_access_tokens :=
        hm_put ?h (row\<lparr>bt_revoked_at := Some e\<rparr>) (st_bot_access_tokens (live c'))\<rparr>"
      using revoked found row(5) made(3)
      by (auto simp: revoke_bot_access_token_def ok_paths Let_def after split: if_splits dest!: bot_audit_Inr)
    then show ?thesis
      using shape stored(1) id
      by (auto simp: authenticate_bot_access_token_def verified_token_def Let_def hashes after row token_is_live_def)
  qed
  ultimately show ?thesis using stored(1) by (auto simp: made)
qed

text \<open>The bot of \<^verbatim>\<open>root\<close> with its key, a token issued for it, and the token revoked.\<close>

definition ex_bot_key :: bot_key_record where
  "ex_bot_key =
     \<lparr>bk_key_id = ''k'', bk_bot_id = 7, bk_secret_hash = [], bk_env = ''live'', bk_created_at = 0,
      bk_retired_at = None, bk_revoked_at = None\<rparr>"

definition ex_keyed_core :: core where
  "ex_keyed_core = ex_bot_core\<lparr>live := (live ex_bot_core)\<lparr>st_bot_keys := [(''k'', ex_bot_key)]\<rparr>\<rparr>"

lemma ex_bot_audit:
  "storage c = None \<Longrightarrow> action \<in> {''bot.token.issue'', ''bot.token.revoke''} \<Longrightarrow>
     record_bot_audit ex_env n ''root'' action subject ''completed'' bot_id key_id None c = (Inr (), c)"
proof -
  have "\<not> contains_text ''{}'' ''jbk_''" "\<not> contains_text ''{}'' ''jbr_''" "\<not> contains_text ''{}'' ''eyJ''"
    "str_trim ''root'' \<noteq> []" "str_trim ''bot.token.issue'' \<noteq> []" "str_trim ''bot.token.revoke'' \<noteq> []"
    "''completed'' \<in> set AUDIT_PHASES"
    by code_simp+
  then show "storage c = None \<Longrightarrow> action \<in> {''bot.token.issue'', ''bot.token.revoke''} \<Longrightarrow>
     record_bot_audit ex_env n ''root'' action subject ''completed'' bot_id key_id None c = (Inr (), c)"
    by (auto simp: record_bot_audit_def append_audit_as_def ex_env_def Let_def)
qed

lemma ex_keyed_state [simp]:
  "st_bots (live ex_keyed_core) = [(7, ex_bot)]" "st_bot_keys (live ex_keyed_core) = [(''k'', ex_bot_key)]"
  "st_accounts (live ex_keyed_core) = [(''root'', ex_account ''root'' RoleAdmin)]"
  "storage ex_keyed_core = None" "st_bot_access_tokens (live ex_keyed_core) = []"
  by (simp_all add: ex_keyed_core_def ex_bot_core_def ex_state_def default_state_def)

lemma ex_bot_sel [simp]:
  "bo_id ex_bot = 7" "bo_owner ex_bot = ''root''" "bo_owner_kind ex_bot = OwnedByUser"
  "bo_status ex_bot = BotActive" "bo_auth_epoch ex_bot = 0"
  "bk_key_id ex_bot_key = ''k''" "bk_bot_id ex_bot_key = 7" "bk_created_at ex_bot_key = 0"
  "key_is_live ex_bot_key now"
  "ua_status (ex_account login role) = Active" "ua_auth_epoch (ex_account login role) = 0"
  by (simp_all add: ex_bot_def ex_bot_key_def key_is_live_def ex_account_def)

lemma ex_keyed_sel [simp]:
  "newest_live_key (live ex_keyed_core) ex_bot now = Some ''k''"
  "bot_account_matches (live ex_keyed_core) ex_bot"
  "require_active_account (live ex_keyed_core) ''root'' = Inr (account_summary_from (ex_account ''root'' RoleAdmin))"
  "managed_bot (live ex_keyed_core) ''root'' 7 = Inr ex_bot"
  by (simp_all add: newest_live_key_def max_by_key_def bot_account_matches_iff owner_stands_def
      require_active_account_def get_account_def permits_authentication_def managed_bot_def may_manage_bot_def
      hm_values_def)

lemma ex_token_issued:
  "\<exists>issued c' gone c''. issue_bot_access_token ex_env ''root'' 7 None None ex_keyed_core = (Inr issued, c') \<and>
     0 < ti_expires_at issued - env_clk ex_env 0 \<and>
     revoke_bot_access_token ex_env ''root'' 7 (ti_token_id issued) c' = (Inr gone, c'')"
proof -
  have random: "env_random ex_env n k = Inr (replicate k n)" for n k by (simp add: ex_env_def)
  have "\<exists>i. key_id_loop ex_env n k = Inr i" for n k
  proof (induction k arbitrary: n)
    case (Suc k)
    from Suc [of "n + 1"] show ?case by (auto simp: random)
  qed simp
  then obtain key_id where "new_key_id ex_env 0 = Inr key_id" unfolding new_key_id_def by blast
  moreover obtain secret where "new_secret ex_env 12 = Inr secret" by (simp add: new_secret_def random)
  ultimately have secrets: "new_key_id ex_env 0 = Inr key_id" "new_secret ex_env 12 = Inr secret" .
  obtain issued c' where issued: "issue_bot_access_token ex_env ''root'' 7 None None ex_keyed_core = (Inr issued, c')"
    by (simp add: issue_bot_access_token_def secrets token_label_def Let_def DEFAULT_TTL_DAYS_def MAX_TTL_DAYS_def
        live_tokens_def MAX_LIVE_TOKENS_def hm_values_def commit_eq write_fails_def persisted_def ex_bot_audit)
  have after: "storage c' = None" "ti_token_id issued = key_id"
    "\<exists>h row. st_bot_access_tokens (live c') = [(h, row)] \<and> bt_bot_id row = 7 \<and> bt_token_id row = key_id"
    "managed_bot (live c') ''root'' 7 = Inr ex_bot"
    "0 < ti_expires_at issued - env_clk ex_env 0"
    using issued
    by (auto simp: issue_bot_access_token_def secrets token_label_def Let_def DEFAULT_TTL_DAYS_def MAX_TTL_DAYS_def
        live_tokens_def MAX_LIVE_TOKENS_def hm_values_def commit_eq write_fails_def persisted_def ex_bot_audit
        duration_days_def duration_hours_def duration_minutes_def duration_seconds_def)
  then have "\<exists>gone c''. revoke_bot_access_token ex_env ''root'' 7 (ti_token_id issued) c' = (Inr gone, c'')"
    by (auto simp: revoke_bot_access_token_def Let_def commit_eq write_fails_def persisted_def ex_bot_audit)
  with issued after(5) show ?thesis by blast
qed

theorem agent_token_works_until_revoked_witness:
  "\<exists>issued c' auth c''. issue_bot_access_token ex_env ''root'' 7 None None ex_keyed_core = (Inr issued, c') \<and>
     fst (authenticate_bot_access_token ex_env (ti_token issued) c') = Inr auth \<and>
     fst (authenticate_bot_access_token ex_env (ti_token issued) c'') = Inl invalid_token"
proof -
  obtain issued c' gone c'' where
    ran: "issue_bot_access_token ex_env ''root'' 7 None None ex_keyed_core = (Inr issued, c')"
      "revoke_bot_access_token ex_env ''root'' 7 (ti_token_id issued) c' = (Inr gone, c'')"
    and expires: "env_clk ex_env 0 < ti_expires_at issued"
    using ex_token_issued by auto
  have "\<forall>k b. hm_get (st_bots (live ex_keyed_core)) k = Some b \<longrightarrow> bo_id b = k" by auto
  from agent_token_works_until_revoked [OF ran(1) ex_env_fills this expires _ _ _ ran(2)] ran(1)
  show ?thesis by auto
qed

end
