(* ===== verification/Bot_Runs.thy ===== *)
theory Bot_Runs
  imports Account_Runs Bot_Tokens Provider_Connections
begin

text \<open>
  The operations on bots, their keys and tokens, the activity trail, team grants and provider
  connections are sequences of writes beside the maps the invariants speak of, and leave the disk in
  agreement with the live state up to what \<open>durable_view\<close> leaves out. The rotation of a refresh token
  without an idempotency key does so only while the generator answers: when it fails, the code keeps
  the mark it has put on the presented token, in memory only.
\<close>

section \<open>Writes beside the invariants\<close>

lemma writes_bots [simp]:
  "writes s0 (s\<lparr>st_bots := bots\<rparr>) = writes s0 s"
  "writes s0 (s\<lparr>st_bot_keys := keys\<rparr>) = writes s0 s"
  "writes s0 (s\<lparr>st_bot_refresh := refresh\<rparr>) = writes s0 s"
  "writes s0 (s\<lparr>st_bot_activity := events\<rparr>) = writes s0 s"
  "writes s0 (s\<lparr>st_bot_operations := operations\<rparr>) = writes s0 s"
  "writes s0 (s\<lparr>st_bot_repo_grants := bot_grants\<rparr>) = writes s0 s"
  "writes s0 (s\<lparr>st_provider_connections := connections\<rparr>) = writes s0 s"
  by (rule writes_beside; simp add: write_view_def)+

lemma writes_bot_steps [simp]:
  "writes s0 (drop_refresh bot_id s) = writes s0 s"
  "writes s0 (cap_live_refresh bot_id now s) = writes s0 s"
  "writes s0 (mark_used h now s) = writes s0 s"
  "writes s0 (stamp_auth bot_id now s) = writes s0 s"
  "writes s0 (put_bot bot_id b s) = writes s0 s"
  "writes s0 (prune_bot_operations now s) = writes s0 s"
  by (simp_all add: drop_refresh_def cap_live_refresh_def mark_used_def stamp_auth_def put_bot_def
      prune_bot_operations_def Let_def split: option.split)

lemma writes_revoke_family [simp]: "writes s0 (revoke_refresh_family bot_id now s) = writes s0 s"
  by (simp add: revoke_refresh_family_def Let_def split: option.split)

lemma writes_issue_refresh:
  "issue_refresh ev n b key now s = Inr (session, s') \<Longrightarrow> writes s0 s' = writes s0 s"
  by (auto simp: issue_refresh_def try_res_Inr Let_def)

lemma bot_audit_sound [simp]:
  "sound s0 (snd (record_bot_audit ev n actor action subject phase bot_id key_id code c)) = sound s0 c"
proof -
  have audited: "sound s0 (snd (append_audit_as ev n actor action subject phase detail c)) = sound s0 c" for detail
    by simp
  have tail: "snd (try_op m (\<lambda>_ c. (Inr (), c))) = snd m" for m :: "'x outcome"
    by (cases m; cases "fst m") auto
  show ?thesis unfolding record_bot_audit_def Let_def by (simp add: tail)
qed

section \<open>Changes the disk may be behind in\<close>

lemma hm_map_put_same: "hm_get m k = Some r \<Longrightarrow> f r' = f r \<Longrightarrow> hm_map f (hm_put k r' m) = hm_map f m"
  by (induction m) (auto simp: hm_map_def split: if_splits)

lemma sound_behind:
  "sound s0 c \<Longrightarrow> durable_view s = durable_view (live c) \<Longrightarrow> writes s0 s \<Longrightarrow> sound s0 (c\<lparr>live := s\<rparr>)"
  by (simp add: sound_def synced_def)

lemma durable_pruned [simp]: "durable_view (prune_bot_operations now s) = durable_view s"
  by (simp add: durable_view_def prune_bot_operations_def)

lemma durable_touched:
  "hm_get (st_bots s) bot_id = Some b \<Longrightarrow> durable_view (put_bot bot_id (touched observation now b) s) = durable_view s"
  by (simp add: durable_view_def put_bot_def hm_map_put_same bot_content_def touched_def)

lemma durable_last_used:
  "hm_get (st_bot_access_tokens s) h = Some row \<Longrightarrow>
     durable_view (s\<lparr>st_bot_access_tokens := hm_put h (row\<lparr>bt_last_used_at := used\<rparr>) (st_bot_access_tokens s)\<rparr>) =
     durable_view s"
  by (simp add: durable_view_def hm_map_put_same)

lemma revoke_none:
  assumes "revoke_tokens_issued_by login now s = (0, s')"
  shows "s' = s"
proof -
  have "hm_map f m = m" if "\<forall>r \<in> set (hm_values m). f r = r" for f and m :: "(string, bot_access_token_record) hmap"
    using that by (induction m) (auto simp: hm_map_def hm_values_def)
  with assms show ?thesis
    by (auto simp: revoke_tokens_issued_by_def revoke_matching_def Let_def filter_empty_conv)
qed

section \<open>Enrolling, rotating keys, suspending and revoking\<close>

lemma store_enrolled_bot_sound: "sound s0 c \<Longrightarrow> sound s0 (snd (store_enrolled_bot ev actor b key_env c))"
  unfolding store_enrolled_bot_def Let_def
  by (auto intro!: sound_pure sound_op sound_commit soundD)

lemma enroll_bot_sound [writes_ops]:
  "sound s0 c \<Longrightarrow> sound s0 (snd (enroll_bot_with_env ev actor slug display_name kind reach key_env c))"
  unfolding enroll_bot_with_env_def by (intro sound_pure store_enrolled_bot_sound)

lemma enroll_team_bot_sound [writes_ops]:
  "sound s0 c \<Longrightarrow> sound s0 (snd (enroll_team_bot ev actor org team slug display_name kind reach c))"
  unfolding enroll_team_bot_def Let_def by (auto intro!: sound_pure store_enrolled_bot_sound)

lemma rotate_bot_key_sound [writes_ops]: "sound s0 c \<Longrightarrow> sound s0 (snd (rotate_bot_key ev actor bot_id c))"
  unfolding rotate_bot_key_def Let_def
  by (auto intro!: sound_pure sound_op sound_commit soundD split: option.split)

lemma revoke_bot_sound [writes_ops]: "sound s0 c \<Longrightarrow> sound s0 (snd (revoke_bot ev actor bot_id c))"
  unfolding revoke_bot_def Let_def by (auto intro!: sound_pure sound_op sound_commit soundD)

lemma set_bot_status_sound [writes_ops]: "sound s0 c \<Longrightarrow> sound s0 (snd (set_bot_status ev actor bot_id status c))"
  unfolding set_bot_status_def Let_def by (auto intro!: sound_pure sound_op sound_commit soundD)

section \<open>Exchanging and rotating tokens\<close>

lemma exchange_sound [writes_ops]: "sound s0 c \<Longrightarrow> sound s0 (snd (exchange_bot_enrollment_key ev key c))"
  unfolding exchange_bot_enrollment_key_def Let_def
  by (auto intro!: sound_pure sound_op sound_commit soundD simp: writes_issue_refresh split: option.split)

lemma reuse_sound: "sound s0 c \<Longrightarrow> sound s0 (snd (reuse_detected ev existing now c))"
  unfolding reuse_detected_def Let_def
  by (auto intro!: sound_op sound_commit soundD split: prod.split option.split)

definition generator_answers :: "env \<Rightarrow> nat \<Rightarrow> bool" where
  "generator_answers ev n = (\<exists>secret. new_secret ev n = Inr secret)"

lemma rotate_refresh_sound [writes_ops]:
  assumes "sound s0 c" and "generator_answers ev 0"
  shows "sound s0 (snd (rotate_bot_refresh_token ev token c))"
proof -
  have issued: "\<exists>session s'. issue_refresh ev 0 b key now s = Inr (session, s')" for b key now s
    using assms(2) by (auto simp: generator_answers_def issue_refresh_def Let_def)
  have tail: "sound s0 (snd (case issue_refresh ev 0 b key now (mark_used h now (live c)) of
      Inl e \<Rightarrow> (Inl e, c\<lparr>live := marked\<rparr>)
    | Inr (session, s) \<Rightarrow> commit ev 0 (stamp_auth (bo_id b) now s) session c))" for b key now h marked
    using issued [of b key now "mark_used h now (live c)"] assms(1)
    by (auto intro!: sound_commit soundD simp: writes_issue_refresh)
  show ?thesis
    using assms(1) unfolding rotate_bot_refresh_token_def Let_def
    by (auto intro!: tail reuse_sound split: option.split)
qed

text \<open>Without an answer the mark is live and nowhere on disk.\<close>

lemma failed_generator_diverges:
  assumes "hm_get (st_bot_refresh (live c)) (token_hash ev token) = Some row" and "br_used_at row = None"
    and "env_clk ev 0 < br_expires_at row" and "refresh_stands (live c) row (env_clk ev 0) = Some (b, key)"
    and "new_secret ev 0 = Inl e"
  shows "rotate_bot_refresh_token ev token c =
    (Inl e, c\<lparr>live := mark_used (token_hash ev token) (env_clk ev 0) (live c)\<rparr>)"
  using assms by (simp add: rotate_bot_refresh_token_def Let_def issue_refresh_def)

lemma rotate_fresh_sound:
  "sound s0 c \<Longrightarrow> sound s0 (snd (rotate_fresh ev cu rc h request_key body_digest now existing b key c))"
  unfolding rotate_fresh_def Let_def
  by (auto intro!: reuse_sound sound_pure sound_commit soundD simp: writes_issue_refresh)

lemma rotate_idempotent_sound [writes_ops]:
  assumes "sound s0 c"
  shows "sound s0 (snd (rotate_bot_refresh_token_idempotent ev cu rc token request_key body_digest c))"
proof -
  have pruned: "sound s0 (c\<lparr>live := prune_bot_operations now (live c)\<rparr>)" for now
    using assms by (intro sound_behind) (auto dest: soundD)
  show ?thesis
    unfolding rotate_bot_refresh_token_idempotent_def Let_def
    by (auto intro!: sound_pure sound_op rotate_fresh_sound simp: pruned assms split: option.split)
qed

lemma authorize_bot_call_sound [writes_ops]:
  "sound s0 c \<Longrightarrow> sound s0 (snd (authorize_bot_call ev call reference c))"
  unfolding authorize_bot_call_def Let_def
  by (auto intro!: sound_pure sound_op split: option.split)

section \<open>Activity and idempotent operations\<close>

lemma note_observation_sound [writes_ops]:
  "sound s0 c \<Longrightarrow> sound s0 (snd (note_bot_observation ev bot_id observation c))"
  unfolding note_bot_observation_def Let_def
  by (auto intro!: sound_pure sound_commit sound_behind soundD simp: durable_touched split: option.split)

lemma reserve_sound [writes_ops]:
  "sound s0 c \<Longrightarrow> sound s0 (snd (reserve_bot_operation ev bot_id operation request_key body_digest c))"
  unfolding reserve_bot_operation_def Let_def
  by (auto intro!: sound_pure sound_commit sound_behind soundD split: option.split)

lemma finish_sound [writes_ops]:
  "sound s0 c \<Longrightarrow> sound s0 (snd (finish_bot_operation ev is_json bot_id operation request_key result_json c))"
  unfolding finish_bot_operation_def Let_def
  by (auto intro!: sound_commit soundD split: option.split)

section \<open>Agent tokens and team grants\<close>

lemma issue_access_token_sound [writes_ops]:
  "sound s0 c \<Longrightarrow> sound s0 (snd (issue_bot_access_token ev actor bot_id label ttl c))"
  unfolding issue_bot_access_token_def Let_def
  by (auto intro!: sound_pure sound_op sound_commit soundD)

lemma revoke_access_token_sound [writes_ops]:
  "sound s0 c \<Longrightarrow> sound s0 (snd (revoke_bot_access_token ev actor bot_id token_id c))"
  unfolding revoke_bot_access_token_def Let_def
  by (auto intro!: sound_pure sound_op sound_commit soundD split: prod.split)

lemma authenticate_access_token_sound [writes_ops]:
  "sound s0 c \<Longrightarrow> sound s0 (snd (authenticate_bot_access_token ev token c))"
  unfolding authenticate_bot_access_token_def
  by (auto intro!: sound_pure sound_behind soundD simp: durable_last_used split: option.split)

lemma audit_grant_sound [simp]:
  "sound s0 (snd (audit_grant ev n actor action b owner repo access c)) = sound s0 c"
proof -
  have tail: "snd (try_op m (\<lambda>_ c. (Inr (), c))) = snd m" for m :: "'x outcome"
    by (cases m; cases "fst m") auto
  show ?thesis unfolding audit_grant_def by (simp add: tail)
qed

lemma grant_bot_repository_sound [writes_ops]:
  "sound s0 c \<Longrightarrow> sound s0 (snd (grant_bot_repository ev actor bot_id owner repo access c))"
  unfolding grant_bot_repository_def Let_def
  by (auto intro!: sound_pure sound_op sound_commit soundD split: prod.split)

lemma revoke_bot_repository_grant_sound [writes_ops]:
  "sound s0 c \<Longrightarrow> sound s0 (snd (revoke_bot_repository_grant ev actor bot_id owner repo c))"
  unfolding revoke_bot_repository_grant_def Let_def
  by (auto intro!: sound_pure sound_op sound_commit soundD split: prod.split)

lemma revoke_issued_sound [writes_ops]:
  assumes "sound s0 c"
  shows "sound s0 (snd (revoke_issued_team_bot_tokens ev actor c))"
proof (cases "revoke_tokens_issued_by actor (env_clk ev 0) (live c)")
  case (Pair revoked s)
  have "writes s0 s" using writes_revoke_issued [of s0 actor "env_clk ev 0" "live c"] soundD [OF assms] Pair by simp
  with assms Pair revoke_none [of actor "env_clk ev 0" "live c" s] show ?thesis
    unfolding revoke_issued_team_bot_tokens_def
    by (auto intro!: sound_op sound_commit)
qed

section \<open>Provider connections\<close>

lemma connect_sound [writes_ops]:
  "sound s0 c \<Longrightarrow> sound s0 (snd (connect_provider_admitted ev cu owner_id provider account kind secret admit c))"
  unfolding connect_provider_admitted_def Let_def put_connection_def
  by (auto intro!: sound_pure sound_commit soundD)

lemma disconnect_sound [writes_ops]:
  "sound s0 c \<Longrightarrow> sound s0 (snd (disconnect_provider ev owner_id connection_id c))"
  unfolding disconnect_provider_def Let_def
  by (auto intro!: sound_pure sound_commit soundD)

lemma snd_relabelled: "snd (case m of (Inl e, c) \<Rightarrow> (Inl (f e), c) | (Inr x, c) \<Rightarrow> (Inr x, c)) = snd m"
  by (cases m; cases "fst m") auto

lemma begin_rotation_sound [writes_ops]:
  "sound s0 c \<Longrightarrow> sound s0 (snd (begin_rotation ev cu vault owner_id binding c))"
  unfolding begin_rotation_def Let_def
  by (auto intro!: sound_pure sound_op sound_commit soundD simp: snd_relabelled)

text \<open>A fence in memory, the disk still marked or already fenced.\<close>

lemma persist_fence_sound: "sound s0 c \<Longrightarrow> sound s0 (persist_fence ev n c)"
  by (auto simp: persist_fence_def sound_def synced_def split: option.split)

lemma durable_fenced:
  "hm_get (st_provider_connections s) k = Some r \<Longrightarrow> cc_rotation r \<noteq> None \<Longrightarrow>
     durable_view (s\<lparr>st_provider_connections :=
       hm_put k (fence_auth_required now r) (st_provider_connections s)\<rparr>) = durable_view s"
  by (simp add: durable_view_def hm_map_put_same connection_content_def fence_auth_required_def)

lemma commit_rotation_sound [writes_ops]:
  assumes "sound s0 c"
  shows "sound s0 (snd (commit_rotation ev cu vault owner_id binding version exchanged c))"
proof (cases "rotation_is_ours (live c) binding version")
  case False
  with assms show ?thesis by (simp add: commit_rotation_def)
next
  case True
  then obtain r where row: "hm_get (st_provider_connections (live c)) (cb_connection_id binding) = Some r"
    "cc_rotation r \<noteq> None"
    by (auto simp: rotation_is_ours_def split: option.splits)
  let ?put = "\<lambda>r. (live c)\<lparr>st_provider_connections :=
      hm_put (cb_connection_id binding) r (st_provider_connections (live c))\<rparr>"
  have written: "sound s0 (persisted (?put q) c)" for q
    using assms by (intro sound_persisted) (auto dest: soundD)
  have fenced: "sound s0 (persist_fence ev n (c\<lparr>live := ?put (fence_auth_required now r)\<rparr>))" for n now
    using assms row by (intro persist_fence_sound sound_behind durable_fenced) (auto dest: soundD)
  show ?thesis
    using True row
    by (auto simp: commit_rotation_def Let_def commit_eq written fenced assms
        split: token_exchange.split option.split)
qed

end
