(* ===== verification/Runs.thy ===== *)
theory Runs
  imports Moves Bot_Runs
begin

text \<open>
  The server as a whole: its operations as a step relation over the core and the git storage, with
  deletions, renames, transfers and restarts beside them, the cores that can be reached, and the
  invariants of those.
\<close>

section \<open>The system\<close>

text \<open>
  Four things a run may be asked to stay clear of. The code guards against none of them; a property
  names the ones it needs. \<open>RecordNumbers\<close>: a record is only opened while the counter of its repository
  is below \<open>2 ^ 64 - 1\<close>. \<open>StoredNames\<close>: a pull request is only opened under the name its repository is
  stored at, not under one it had before a rename (\<open>pull_at_old_name_stranded\<close> has what happens there).
  \<open>AccountEpochs\<close>: credentials are only changed while no account is at the top of the range of its
  epoch (\<open>reset_at_the_top_diverges\<close>). \<open>GeneratorAnswers\<close>: the generator of secrets answers when a refresh
  token is rotated (\<open>failed_generator_diverges\<close>).
\<close>

datatype limit = RecordNumbers | StoredNames | AccountEpochs | GeneratorAnswers

text \<open>
  One operation on the store and the git storage behind \<^verbatim>\<open>RepoBranches\<close>, within the limits of the run.
  Operations that only call another one under a guard are covered by its rule. A refresh of a provider
  credential is two steps, since others may come between them; what the provider answers beside the new
  secret is handed to the caller and does not reach the core. Git itself may change at any time (pushes
  arrive through another process), which is the last rule. Deployments are kept in a book of their own
  and are not part of the core here.
\<close>

inductive step :: "limit set \<Rightarrow> 'g repo_branches \<Rightarrow> core \<times> 'g \<Rightarrow> core \<times> 'g \<Rightarrow> bool" for limits branches where
  create_user: "step limits branches (c, g) (snd (create_user ev 0 user c), g)"
| create_organization: "step limits branches (c, g) (snd (create_organization ev organization c), g)"
| create_team: "step limits branches (c, g) (snd (create_team ev org team c), g)"
| append_audit: "step limits branches (c, g) (snd (append_audit_as ev n actor action subject phase detail c), g)"
| create_repository: "step limits branches (c, g) (snd (create_repository ev materializer owner repository c), g)"
| family: "step limits branches (c, g) (snd (set_repository_family ev owner repo family c), g)"
| archive: "step limits branches (c, g) (snd (set_repository_archived ev actor owner repo archived c), g)"
| push: "step limits branches (c, g) (snd (record_repository_push ev owner repo at c), g)"
| opt_out: "step limits branches (c, g) (snd (set_default_branch_protection_opt_out ev actor owner repo opt_out c), g)"
| backfill_pushes: "step limits branches (c, g) (snd (backfill_repository_pushed_at ev history c), g)"
| create_label: "step limits branches (c, g) (snd (create_label ev owner repo label c), g)"
| readme: "step limits branches (c, g) (snd (set_repository_readme ev owner repo markdown c), g)"
| set_protection: "step limits branches (c, g) (snd (set_branch_protection ev owner repo branch rule c), g)"
| delete_protection: "step limits branches (c, g) (snd (delete_branch_protection ev actor owner repo branch c), g)"
| codeowners: "step limits branches (c, g) (snd (set_codeowners ev owner repo contents c), g)"
| webhook: "step limits branches (c, g) (snd (create_webhook ev owner repo hook c), g)"
| status: "step limits branches (c, g) (snd (create_commit_status ev owner repo sha creator status c), g)"
| check_run: "step limits branches (c, g) (snd (create_check_run ev owner repo run c), g)"
| update_issue: "step limits branches (c, g) (snd (update_issue ev owner repo number issue_edit c), g)"
| comment: "step limits branches (c, g) (snd (add_issue_comment ev owner repo number author body c), g)"
| update_pull: "step limits branches (c, g) (snd (update_pull_request ev owner repo number pull_edit c), g)"
| heads: "step limits branches (c, g) (snd (refresh_pull_request_heads_for_ref ev owner repo ref_name sha c), g)"
| heads_with_diff: "step limits branches (c, g) (snd (refresh_pull_request_heads_for_ref_with_diff ev owner repo ref_name sha base_sha ids c), g)"
| heads_from_git: "step limits branches (c, g) (snd (refresh_pull_request_heads_from_git ev git owner repo path ref_name sha base_sha c), g)"
| record_base: "step limits branches (c, g) (snd (record_pull_request_base ev actor owner repo number sha base_sha c), g)"
| review: "step limits branches (c, g) (snd (create_review ev owner repo number author review c), g)"
| dismiss: "step limits branches (c, g) (snd (dismiss_review ev owner repo number actor dismissal c), g)"
| prepare_override: "step limits branches (c, g) (snd (prepare_merge_override ev owner repo number override c), g)"
| finalize: "step limits branches (c, g) (snd (finalize_merge ev owner repo number merge_sha requested base c), g)"
| finalize_override: "step limits branches (c, g) (snd (finalize_merge_with_override ev permit merge_sha c), g)"
| merge: "step limits branches (c, g) (snd (merge_pull_request ev owner repo number merge c), g)"
| rekey: "step limits branches (c, g) (snd (rekey_encoded_branch_protections ev actor branches g c), g)"
| retarget: "step limits branches (c, g) (snd (retarget_pull_request ev branches g actor owner repo number target c), g)"
| create_issue: "RecordNumbers \<in> limits \<longrightarrow> record_room owner repo (live c) \<Longrightarrow>
    step limits branches (c, g) (snd (create_issue ev owner repo author issue c), g)"
| create_pull: "RecordNumbers \<in> limits \<longrightarrow> record_room owner repo (live c) \<Longrightarrow>
    StoredNames \<in> limits \<longrightarrow> hm_has (st_repos (live c)) (owner, repo) \<Longrightarrow>
    step limits branches (c, g) (snd (create_pull_request ev owner repo author pull c), g)"
| default_branch: "step limits branches (c, g) (snd (set_repository_default_branch ev branches owner repo branch (c, g)))"
| create_account: "step limits branches (c, g) (snd (create_account ev login password role c), g)"
| temporary_account: "AccountEpochs \<in> limits \<longrightarrow> epoch_room (live c) \<Longrightarrow>
    step limits branches (c, g) (snd (create_temporary_account ev login password role c), g)"
| reset_password: "AccountEpochs \<in> limits \<longrightarrow> epoch_room (live c) \<Longrightarrow>
    step limits branches (c, g) (snd (reset_account_password ev login password c), g)"
| change_password: "AccountEpochs \<in> limits \<longrightarrow> epoch_room (live c) \<Longrightarrow>
    step limits branches (c, g) (snd (change_account_password ev login password password' c), g)"
| force_change: "AccountEpochs \<in> limits \<longrightarrow> epoch_room (live c) \<Longrightarrow>
    step limits branches (c, g) (snd (force_password_change ev n login forced c), g)"
| account_status: "AccountEpochs \<in> limits \<longrightarrow> epoch_room (live c) \<Longrightarrow>
    step limits branches (c, g) (snd (transition_account_status ev login account_state allowed c), g)"
| issue_recovery: "step limits branches (c, g) (snd (issue_password_recovery ev login c), g)"
| recover: "AccountEpochs \<in> limits \<longrightarrow> epoch_room (live c) \<Longrightarrow>
    step limits branches (c, g) (snd (recover_password ev secret password c), g)"
| session: "step limits branches (c, g) (snd (create_session_with_ttl ev login ttl c), g)"
| end_session: "step limits branches (c, g) (snd (revoke_session ev token c), g)"
| personal_token: "step limits branches (c, g) (snd (create_personal_access_token ev login token_name expires c), g)"
| revoke_token: "step limits branches (c, g) (snd (revoke_personal_access_token ev login token_id c), g)"
| invite: "step limits branches (c, g)
    (snd (create_account_invitation_inner ev issuer login display bindings expires_at bootstrap c), g)"
| uninvite: "step limits branches (c, g) (snd (revoke_account_invitation ev invitation_id c), g)"
| start_activation: "step limits branches (c, g) (snd (start_account_activation ev login secret c), g)"
| activate: "step limits branches (c, g) (snd (complete_account_activation ev challenge password c), g)"
| grant: "step limits branches (c, g) (snd (grant_repo_access ev actor login owner repo access c), g)"
| revoke_grant: "step limits branches (c, g) (snd (revoke_repo_access ev login owner repo c), g)"
| join_waitlist: "step limits branches (c, g) (snd (join_waitlist ev email person remark c), g)"
| organize: "step limits branches (c, g) (snd (create_organization_as ev actor login display_name owners c), g)"
| add_owner: "step limits branches (c, g) (snd (add_organization_owner ev actor org login c), g)"
| remove_owner: "step limits branches (c, g) (snd (remove_organization_owner ev actor org login c), g)"
| organize_team: "step limits branches (c, g) (snd (create_team_as ev actor org team_name slug members c), g)"
| add_member: "step limits branches (c, g) (snd (add_team_member ev actor org slug' login c), g)"
| remove_member: "step limits branches (c, g) (snd (remove_team_member ev actor org slug' login c), g)"
| score: "step limits branches (c, g) (snd (record_jankurai_score ev owner repo score c), g)"
| prepare_transfer: "step limits branches (c, g) (snd (prepare_repository_transfer ev transfer c), g)"
| fail_transfer: "step limits branches (c, g) (snd (fail_repository_transfer ev transaction_id reason c), g)"
| enroll_bot: "step limits branches (c, g) (snd (enroll_bot_with_env ev actor slug' display kind reach key_env c), g)"
| enroll_team_bot: "step limits branches (c, g) (snd (enroll_team_bot ev actor org steward slug' display kind reach c), g)"
| rotate_key: "step limits branches (c, g) (snd (rotate_bot_key ev actor bot_id c), g)"
| revoke_bot: "step limits branches (c, g) (snd (revoke_bot ev actor bot_id c), g)"
| bot_status: "step limits branches (c, g) (snd (set_bot_status ev actor bot_id status c), g)"
| exchange_key: "step limits branches (c, g) (snd (exchange_bot_enrollment_key ev enrollment_key c), g)"
| rotate_token: "GeneratorAnswers \<in> limits \<longrightarrow> generator_answers ev 0 \<Longrightarrow>
    step limits branches (c, g) (snd (rotate_bot_refresh_token ev refresh_token c), g)"
| rotate_token_once: "step limits branches (c, g)
    (snd (rotate_bot_refresh_token_idempotent ev cu rc refresh_token request_key body_digest c), g)"
| authorize_bot: "step limits branches (c, g) (snd (authorize_bot_call ev bot_call reference c), g)"
| observe_bot: "step limits branches (c, g) (snd (note_bot_observation ev bot_id observation c), g)"
| reserve_operation: "step limits branches (c, g)
    (snd (reserve_bot_operation ev bot_id bot_operation request_key body_digest c), g)"
| finish_operation: "step limits branches (c, g)
    (snd (finish_bot_operation ev is_json bot_id bot_operation request_key result_json c), g)"
| issue_agent_token: "step limits branches (c, g) (snd (issue_bot_access_token ev actor bot_id token_label' ttl_days c), g)"
| revoke_agent_token: "step limits branches (c, g) (snd (revoke_bot_access_token ev actor bot_id token_id' c), g)"
| use_agent_token: "step limits branches (c, g) (snd (authenticate_bot_access_token ev token c), g)"
| grant_team_bot: "step limits branches (c, g) (snd (grant_bot_repository ev actor bot_id owner repo bot_access c), g)"
| ungrant_team_bot: "step limits branches (c, g) (snd (revoke_bot_repository_grant ev actor bot_id owner repo c), g)"
| revoke_issued: "step limits branches (c, g) (snd (revoke_issued_team_bot_tokens ev actor c), g)"
| connect: "step limits branches (c, g)
    (snd (connect_provider_admitted ev cu owner_id provider provider_account credential_kind credential admit c), g)"
| disconnect: "step limits branches (c, g) (snd (disconnect_provider ev owner_id connection_id c), g)"
| begin_refresh: "step limits branches (c, g) (snd (begin_rotation ev cu vault owner_id binding c), g)"
| finish_refresh: "step limits branches (c, g)
    (snd (commit_rotation ev cu vault owner_id binding version (exchanged :: unit token_exchange) c), g)"
| git_changes: "step limits branches (c, g) (c, g')"

text \<open>
  What a server can go through: an operation, the deletion, the rename or the transfer of a repository
  (which moves the git directories), and a restart from what is on disk. The cores it can be in are those
  that come about from a new one, in memory or on an empty database.
\<close>

inductive transition :: "limit set \<Rightarrow> 'g repo_branches \<Rightarrow> core \<times> 'g \<Rightarrow> core \<times> 'g \<Rightarrow> bool" for limits branches where
  operation: "step limits branches cg cg' \<Longrightarrow> transition limits branches cg cg'"
| deletion: "transition limits branches (c, g) (snd (delete_repository ev owner repo c), g)"
| rename: "rename_repository ev relocator actor old new (c, g) = (result, c', g') \<Longrightarrow>
    transition limits branches (c, g) (c', g')"
| transfer: "transition limits branches (c, g) (snd (commit_repository_transfer ev transaction_id receipt c), g)"
| restart: "storage c = Some d \<Longrightarrow> store_open ev d = Inr c' \<Longrightarrow> transition limits branches (c, g) (c', g)"

inductive reachable :: "limit set \<Rightarrow> 'g repo_branches \<Rightarrow> core \<times> 'g \<Rightarrow> bool" for limits branches where
  in_memory: "reachable limits branches (core_new, g)"
| new_database: "reachable limits branches (open_sqlite \<lparr>du_disk = default_state, du_audit = []\<rparr>, g)"
| move: "reachable limits branches cg \<Longrightarrow> transition limits branches cg cg' \<Longrightarrow> reachable limits branches cg'"

lemma reachable_step: "reachable limits branches cg \<Longrightarrow> step limits branches cg cg' \<Longrightarrow> reachable limits branches cg'"
  by (rule reachable.move [OF _ transition.operation])

lemma sound_self: "synced c \<Longrightarrow> sound (live c) c"
  by (simp add: sound_def)

lemma step_sound: "step UNIV branches (c, g) (c', g') \<Longrightarrow> synced c \<Longrightarrow> sound (live c) c'"
  by (erule step.cases) (auto simp: sound_self writes_ops, metis default_branch_sound fst_conv snd_conv sound_self)

section \<open>The disk\<close>

lemma sound_synced: "sound s0 c \<Longrightarrow> synced c"
  by (simp add: sound_def)

lemma step_synced:
  assumes "step limits branches (c, g) (c', g')" and "{AccountEpochs, GeneratorAnswers} \<subseteq> limits" and "synced c"
  shows "synced c'"
  using assms
  by (elim step.cases)
    (auto intro: sound_synced [of "live c"] simp: sound_self writes_ops create_issue_synced create_pull_request_synced,
     metis default_branch_sound fst_conv snd_conv sound_self sound_synced)

lemma transition_synced:
  assumes "transition limits branches cg cg'" and "{AccountEpochs, GeneratorAnswers} \<subseteq> limits" and "synced (fst cg)"
  shows "synced (fst cg')"
  using assms
proof (induction rule: transition.induct)
  case (operation cg cg')
  then show ?case using step_synced [of limits branches "fst cg" "snd cg" "fst cg'" "snd cg'"] by simp
next
  case (rename ev relocator actor old new c g result c' g')
  then show ?case using rename_relocates [OF rename.hyps] by simp
next
  case (transfer c g ev transaction_id receipt)
  then show ?case using commit_transfer_relocates [of c ev transaction_id receipt] by simp
next
  case (restart c d ev c' g)
  then show ?case using reopened [of ev d c'] by simp
qed (simp add: delete_repository_synced)

lemma reachable_synced:
  "reachable limits branches cg \<Longrightarrow> {AccountEpochs, GeneratorAnswers} \<subseteq> limits \<Longrightarrow> synced (fst cg)"
proof (induction rule: reachable.induct)
  case (move cg cg')
  then show ?case using transition_synced by blast
qed (simp_all add: synced_new synced_open)

section \<open>Invariants of every reachable core\<close>

definition consistent :: "core \<Rightarrow> bool" where
  "consistent c = (synced c \<and> store_ok (live c))"

lemma step_consistent:
  assumes "step UNIV branches (c, g) (c', g')" and "consistent c"
  shows "consistent c' \<and> extends (live c) (live c') \<and> people_kept (live c) (live c')"
  using step_sound [OF assms(1)] assms(2) writes_invariants
  by (auto simp: consistent_def sound_def)

lemma transition_consistent:
  "transition UNIV branches cg cg' \<Longrightarrow> consistent (fst cg) \<Longrightarrow>
     consistent (fst cg') \<and> people_kept (live (fst cg)) (live (fst cg'))"
proof (induction rule: transition.induct)
  case (operation cg cg')
  then show ?case using step_consistent [of branches "fst cg" "snd cg" "fst cg'" "snd cg'"] by simp
next
  case (deletion c g ev owner repo)
  then show ?case using delete_keeps [of c ev owner repo] by (simp add: consistent_def)
next
  case (rename ev relocator actor old new c g result c' g')
  have "people_kept (live c) (live c)" by (rule people_kept_same) simp_all
  with rename rename_relocates [OF rename.hyps] relocated_keeps show ?case
    by (auto simp: consistent_def)
next
  case (transfer c g ev transaction_id receipt)
  have "people_kept (live c) (live c)" by (rule people_kept_same) simp_all
  with transfer commit_transfer_relocates [of c ev transaction_id receipt] relocated_keeps show ?case
    by (auto simp: consistent_def)
next
  case (restart c d ev c' g)
  then have same: "durable_view (du_disk d) = durable_view (live c)" by (simp add: consistent_def synced_def)
  from restart have "store_ok (du_disk d)"
    by (simp add: consistent_def store_ok_view [OF durable_write_view [OF same]])
  with restart reopened [of ev d c'] repair_keeps [of "du_disk d" ev] durable_people [OF same] show ?case
    by (auto simp: consistent_def intro: people_kept_trans)
qed

lemma reachable_consistent: "reachable UNIV branches cg \<Longrightarrow> consistent (fst cg)"
proof (induction rule: reachable.induct)
  case (in_memory g)
  show ?case by (simp add: consistent_def synced_new) (simp add: core_new_def store_ok_default)
next
  case (new_database g)
  show ?case by (simp add: consistent_def synced_open) (simp add: open_sqlite_def store_ok_default)
next
  case (move cg cg')
  then show ?case using transition_consistent by blast
qed

lemma run_consistent:
  assumes "(transition UNIV branches)\<^sup>*\<^sup>* cg cg'" and "consistent (fst cg)"
  shows "consistent (fst cg') \<and> people_kept (live (fst cg)) (live (fst cg'))"
  using assms
proof (induction rule: rtranclp_induct)
  case base
  then show ?case by (simp add: people_kept_same)
next
  case (step y z)
  then show ?case using transition_consistent people_kept_trans by blast
qed

end
