(* ===== verification/Credentials.thy ===== *)
theory Credentials
  imports Account_Runs Sample_Store
begin

text \<open>
  What changes of credentials, activations and recoveries imply: nothing issued before a change
  authenticates after it, everything issued expires, and an invitation or a recovery secret is spent once.
\<close>

section \<open>Successful runs\<close>

lemma audited_commit_live:
  assumes "commit_with_audit ev n entry s x c = (Inr y, c')"
  shows "live c' = s \<and> y = x"
  using assms by (auto simp: commit_with_audit_def split: option.splits)

lemma store_new_credentials_Inr:
  assumes "store_new_credentials ev n login account further c = (Inr shown, c')"
  shows "\<exists>t. live c' = further (drop_credentials login (env_clk ev (n + 1))
      (put_account login (account\<lparr>ua_auth_epoch := ua_auth_epoch account + 1, ua_updated_at := t\<rparr>) (live c)))"
  using assms by (auto simp: store_new_credentials_def Let_def next_auth_epoch_Inr split: sum.splits)

text \<open>What a successful recovery went through.\<close>

lemma recover_password_Inr:
  assumes "recover_password ev secret p c = (Inr receipt, c')"
  obtains token_id r a h where "parse_recovery_secret secret = Some token_id"
    and "hm_get (st_password_recoveries (live c)) token_id = Some r" and "is_live r (env_clk ev 1)"
    and "py_secret_hash r = token_hash ev secret"
    and "hm_get (st_accounts (live c)) (py_login r) = Some a" and "ua_status a = Active"
    and "ua_auth_epoch a = py_auth_epoch r"
    and "live c' = drop_credentials (py_login r) (env_clk ev 1)
           (put_account (py_login r) (a\<lparr>ua_password_hash := h, ua_must_change_password := False,
              ua_auth_epoch := ua_auth_epoch a + 1, ua_updated_at := env_clk ev 1\<rparr>)
             (snd (prune_dead_recoveries (env_clk ev 1)
                (retire_live_secrets (py_login r) (env_clk ev 1) (live c)))))"
proof -
  obtain token_id again h where token: "parse_recovery_secret secret = Some token_id"
    and verified: "verify_spend ev (live c) token_id secret (env_clk ev 1) = Inr again"
    and spent: "spend_secret ev token_id again h c = (Inr receipt, c')"
  proof -
    obtain t where t: "parse_recovery_secret secret = Some t"
      and body: "(case verify_spend ev (live c) t secret (env_clk ev 0) of
         Inl WrongSecret \<Rightarrow> (Inl recovery_error, count_wrong_secret ev t c)
       | Inl Refused \<Rightarrow> (Inl recovery_error, c)
       | Inr checked \<Rightarrow>
           try_pure (hash_password ev 0 p) c (\<lambda>password_hash.
             case verify_spend ev (live c) t secret (env_clk ev 1) of
               Inl _ \<Rightarrow> (Inl recovery_error, c)
             | Inr again \<Rightarrow>
                 if again = checked then spend_secret ev t again password_hash c
                 else (Inl recovery_error, c))) = (Inr receipt, c')"
      using assms unfolding recover_password_def by (auto simp: try_pure_Inr ok_or_Inr)
    obtain checked where first: "verify_spend ev (live c) t secret (env_clk ev 0) = Inr checked"
      using body by (cases "verify_spend ev (live c) t secret (env_clk ev 0)") (auto split: refusal_kind.splits)
    obtain again where again: "verify_spend ev (live c) t secret (env_clk ev 1) = Inr again"
      using body first by (cases "verify_spend ev (live c) t secret (env_clk ev 1)") (auto simp: try_pure_Inr)
    from body have "\<exists>h. spend_secret ev t again h c = (Inr receipt, c')"
      unfolding first again by (auto simp: try_pure_Inr split: if_splits)
    with again have "\<exists>again h. verify_spend ev (live c) t secret (env_clk ev 1) = Inr again \<and>
        spend_secret ev t again h c = (Inr receipt, c')" by blast
    with that t show thesis by blast
  qed
  obtain r a where r: "hm_get (st_password_recoveries (live c)) token_id = Some r" "is_live r (env_clk ev 1)"
      "py_secret_hash r = token_hash ev secret"
    and a: "hm_get (st_accounts (live c)) (py_login r) = Some a" "ua_status a = Active"
      "ua_auth_epoch a = py_auth_epoch r" and login: "vs_login again = py_login r"
    using verified
    by (auto simp: verify_spend_def permits_authentication_def constant_time_eq_strings split: option.splits if_splits)
  have "live c' = drop_credentials (py_login r) (env_clk ev 1)
           (put_account (py_login r) (a\<lparr>ua_password_hash := h, ua_must_change_password := False,
              ua_auth_epoch := ua_auth_epoch a + 1, ua_updated_at := env_clk ev 1\<rparr>)
             (snd (prune_dead_recoveries (env_clk ev 1)
                (retire_live_secrets (py_login r) (env_clk ev 1) (live c)))))"
    using spent a(1) unfolding spend_secret_def Let_def login
    by (auto simp: try_pure_Inr ok_or_Inr next_auth_epoch_Inr dest!: audited_commit_live split: sum.splits)
  with that token r a show thesis by blast
qed

text \<open>The row by which a personal access token authenticates.\<close>

definition token_row :: "env \<Rightarrow> state \<Rightarrow> string \<Rightarrow> personal_access_token option" where
  "token_row ev s token =
     find (\<lambda>r. pt_token_hash r = token_hash ev token \<and>
             (case pt_expires_at r of None \<Rightarrow> True | Some expires \<Rightarrow> env_clk ev 0 < expires))
       (hm_values (st_personal_tokens s))"

lemma token_row_epoch:
  assumes "authenticate_personal_access_token ev s token = Some account"
  shows "\<exists>r row. token_row ev s token = Some r \<and> hm_get (st_accounts s) (pt_login r) = Some row \<and>
    ua_auth_epoch row = pt_auth_epoch r \<and> account = account_summary_from row"
proof -
  have "authenticate_personal_access_token ev s token =
      (case token_row ev s token of
         None \<Rightarrow> None
       | Some r \<Rightarrow>
           (case hm_get (st_accounts s) (pt_login r) of
              None \<Rightarrow> None
            | Some row \<Rightarrow>
                if \<not> permits_authentication (ua_status row) \<or> ua_auth_epoch row \<noteq> pt_auth_epoch r
                then None else Some (account_summary_from row)))"
    unfolding authenticate_personal_access_token_def token_row_def ..
  with assms show ?thesis by (auto split: option.splits if_splits)
qed

section \<open>Changes of credentials\<close>

text \<open>The operations that succeed in giving a login new credentials or a new status.\<close>

inductive credential_change :: "string \<Rightarrow> core \<Rightarrow> core \<Rightarrow> bool" where
  reset: "reset_account_password ev login p c = (Inr shown, c') \<Longrightarrow> credential_change login c c'"
| changed: "change_account_password ev login p q c = (Inr shown, c') \<Longrightarrow> credential_change login c c'"
| forced: "force_password_change ev n login True c = (Inr shown, c') \<Longrightarrow> credential_change login c c'"
| transition: "transition_account_status ev login status allowed c = (Inr shown, c') \<Longrightarrow>
    hm_get (st_accounts (live c)) login = Some row \<Longrightarrow> ua_status row \<noteq> status \<Longrightarrow>
    credential_change login c c'"
| recovered: "recover_password ev secret p c = (Inr receipt, c') \<Longrightarrow>
    parse_recovery_secret secret = Some token_id \<Longrightarrow>
    hm_get (st_password_recoveries (live c)) token_id = Some r \<Longrightarrow> credential_change (py_login r) c c'"

text \<open>What they have in common.\<close>

definition cut_off :: "string \<Rightarrow> state \<Rightarrow> state \<Rightarrow> bool" where
  "cut_off login s s' =
     (credentials_dropped login s' \<and>
      (\<exists>a b. hm_get (st_accounts s) login = Some a \<and> hm_get (st_accounts s') login = Some b \<and>
         ua_auth_epoch b = ua_auth_epoch a + 1))"

lemma store_new_credentials_cut_off:
  assumes "store_new_credentials ev n login b further c = (Inr shown, c')"
    and "hm_get (st_accounts (live c)) login = Some a" and "ua_auth_epoch b = ua_auth_epoch a"
    and "\<And>s. st_accounts (further s) = st_accounts s"
    and "\<And>s. credentials_dropped login (further s) = credentials_dropped login s"
  shows "cut_off login (live c) (live c')"
  using store_new_credentials_Inr [OF assms(1)] assms(2-)
  by (auto simp: cut_off_def drop_credentials_drops)

lemma revoke_issued_accounts [simp]:
  "st_accounts (snd (revoke_tokens_issued_by who now s)) = st_accounts s"
  by (subst revoke_tokens_state) simp

lemma credential_change_cut_off: "credential_change login c c' \<Longrightarrow> cut_off login (live c) (live c')"
proof (induction rule: credential_change.induct)
  case (reset ev login p c shown c')
  then show ?case
    by (auto simp: reset_account_password_def try_pure_Inr ok_or_Inr elim!: store_new_credentials_cut_off)
next
  case (changed ev login p q c shown c')
  then show ?case
    by (auto simp: change_account_password_def try_pure_Inr ok_or_Inr elim!: store_new_credentials_cut_off
        split: if_splits)
next
  case (forced ev n login c shown c')
  then show ?case
    by (auto simp: force_password_change_def try_pure_Inr ok_or_Inr elim!: store_new_credentials_cut_off)
next
  case (transition ev login status allowed c shown c' row)
  then have "store_new_credentials ev 0 login (row\<lparr>ua_status := status\<rparr>)
      (\<lambda>s. if permits_authentication status then s
           else snd (revoke_tokens_issued_by login (env_clk ev 2) s)) c = (Inr shown, c')"
    by (auto simp: transition_account_status_def try_pure_Inr ok_or_Inr split: if_splits)
  then show ?case
    by (rule store_new_credentials_cut_off [OF _ transition.hyps(2)]) simp_all
next
  case (recovered ev secret p c receipt c' token_id r)
  show ?case
  proof (rule recover_password_Inr [OF recovered.hyps(1)])
    fix t q a h
    assume "parse_recovery_secret secret = Some t" "hm_get (st_password_recoveries (live c)) t = Some q"
      and row: "hm_get (st_accounts (live c)) (py_login q) = Some a"
      and live: "live c' = drop_credentials (py_login q) (env_clk ev 1)
           (put_account (py_login q) (a\<lparr>ua_password_hash := h, ua_must_change_password := False,
              ua_auth_epoch := ua_auth_epoch a + 1, ua_updated_at := env_clk ev 1\<rparr>)
             (snd (prune_dead_recoveries (env_clk ev 1)
                (retire_live_secrets (py_login q) (env_clk ev 1) (live c)))))"
    with recovered.hyps have "q = r" by simp
    with row live show "cut_off (py_login r) (live c) (live c')"
      by (simp add: cut_off_def drop_credentials_drops)
  qed
qed

text \<open>
  C10. A change of credentials cuts off everything issued before it: after a password reset, a password
  change, a forced change, a change of status or a recovery, no session token opens a session of the
  login and no personal access token authenticates as their account, at any later time and whatever the
  token, their bots have no key that is not revoked and no refresh token, and the account's epoch is
  one higher.
\<close>

theorem credentials_cut_off:
  assumes "credential_change login c c'"
  shows "(\<forall>ev token account session. session_for_token ev (live c') token = Some (account, session) \<longrightarrow>
      ws_login session \<noteq> login) \<and>
    (\<forall>ev token account. authenticate_personal_access_token ev (live c') token = Some account \<longrightarrow>
      (\<exists>row who. hm_get (st_accounts (live c')) who = Some row \<and> who \<noteq> login \<and>
         account = account_summary_from row)) \<and>
    (\<forall>key \<in> set (hm_values (st_bot_keys (live c'))).
      bk_bot_id key \<in> set (user_bot_ids login (live c')) \<longrightarrow> bk_revoked_at key \<noteq> None) \<and>
    (\<forall>token \<in> set (hm_values (st_bot_refresh (live c'))).
      br_bot_id token \<notin> set (user_bot_ids login (live c'))) \<and>
    (\<exists>a b. hm_get (st_accounts (live c)) login = Some a \<and> hm_get (st_accounts (live c')) login = Some b \<and>
       ua_auth_epoch b = ua_auth_epoch a + 1)"
proof -
  have cut: "cut_off login (live c) (live c')" by (rule credential_change_cut_off [OF assms])
  then have gone: "credentials_dropped login (live c')" by (simp add: cut_off_def)
  from dropped_session [OF gone] dropped_token [OF gone] cut gone show ?thesis
    by (simp add: cut_off_def) (simp add: credentials_dropped_def)
qed

text \<open>An administrator with a session resets their password.\<close>

definition ex_signed_in :: core where
  "ex_signed_in = snd (create_session ex_env ''root'' ex_core)"

lemma ex_long_password: "require_password ''correct horse battery'' = Inr ()"
  by (simp add: require_password_def)

lemma ex_hash: "hash_password ex_env 0 ''correct horse battery'' = Inr ''$argon2id$correct horse battery''"
  by (simp add: hash_password_def ex_env_def starts_with_def)

lemma ex_root_row: "hm_get (st_accounts ex_state) ''root'' = Some (ex_account ''root'' RoleAdmin)"
  by simp

lemma ex_reset:
  obtains shown where "reset_account_password ex_env ''root'' ''correct horse battery'' ex_core =
    (Inr shown, snd (reset_account_password ex_env ''root'' ''correct horse battery'' ex_core))"
proof -
  have "\<exists>shown c'. reset_account_password ex_env ''root'' ''correct horse battery'' ex_core = (Inr shown, c')"
    by (simp add: reset_account_password_def ex_long_password ex_hash store_new_credentials_def
        next_auth_epoch_def Let_def commit_eq ex_account_def)
  with that show thesis by (auto simp: prod_eq_iff)
qed

theorem credentials_cut_off_witness:
  "\<nexists>token account session. session_for_token ex_env
     (live (snd (reset_account_password ex_env ''root'' ''correct horse battery'' ex_core))) token =
       Some (account, session) \<and> ws_login session = ''root''"
proof -
  obtain shown where "reset_account_password ex_env ''root'' ''correct horse battery'' ex_core =
    (Inr shown, snd (reset_account_password ex_env ''root'' ''correct horse battery'' ex_core))"
    by (rule ex_reset)
  from credentials_cut_off [OF credential_change.reset [OF this]] show ?thesis by blast
qed

section \<open>Lifetimes\<close>

lemma create_session_Inr:
  assumes "create_session ev login c = (Inr receipt, c')"
  shows "ws_login (sr_session receipt) = login \<and>
    ws_expires_at (sr_session receipt) = ws_created_at (sr_session receipt) + duration_days 14 \<and>
    hm_get (st_sessions (live c')) (token_hash ev (sr_token receipt)) = Some (sr_session receipt)"
  using assms
  by (auto simp: create_session_def create_session_with_ttl_def try_pure_Inr Let_def duration_seconds_def
      duration_days_def SESSION_TTL_SECS_def split: if_splits)

lemma credential_lifetimes_parts:
  shows "create_session ev login c = (Inr session, c1) \<Longrightarrow>
      ws_expires_at (sr_session session) = ws_created_at (sr_session session) + duration_days 14 \<and>
      (env_sha256_hex ev' = env_sha256_hex ev \<and> ws_expires_at (sr_session session) \<le> env_clk ev' 0 \<longrightarrow>
         session_for_token ev' (live c1) (sr_token session) = None)"
    and "create_personal_access_token ev login name expires c = (Inr token, c2) \<Longrightarrow>
      \<exists>t. pt_expires_at (pe_token token) = Some t \<and> env_clk ev 0 < t \<and> t \<le> env_clk ev 0 + duration_days 365"
    and "create_account_invitation_inner ev issuer login display bindings expires_at b c = (Inr invitation, c3) \<Longrightarrow>
      env_clk ev 0 < im_expires_at (ir_invitation invitation) \<and>
      im_expires_at (ir_invitation invitation) \<le> env_clk ev 0 + duration_hours 24"
    and "start_account_activation ev login secret c = (Inr started, c4) \<Longrightarrow>
      ar_expires_at started = env_clk ev 0 + duration_minutes 10"
    and "issue_password_recovery ev login c = (Inr issued, c5) \<Longrightarrow>
      pi_expires_at issued = env_clk ev 0 + duration_minutes 60"
proof -
  show "ws_expires_at (sr_session session) = ws_created_at (sr_session session) + duration_days 14 \<and>
      (env_sha256_hex ev' = env_sha256_hex ev \<and> ws_expires_at (sr_session session) \<le> env_clk ev' 0 \<longrightarrow>
         session_for_token ev' (live c1) (sr_token session) = None)"
    if "create_session ev login c = (Inr session, c1)"
    using create_session_Inr [OF that] by (simp add: session_for_token_def token_hash_def)
  show "\<exists>t. pt_expires_at (pe_token token) = Some t \<and> env_clk ev 0 < t \<and> t \<le> env_clk ev 0 + duration_days 365"
    if "create_personal_access_token ev login name expires c = (Inr token, c2)"
    using that
    by (auto simp: create_personal_access_token_def try_pure_Inr Let_def validate_pat_expiry_def
        PAT_MAX_TTL_DAYS_def split: if_splits)
  show "env_clk ev 0 < im_expires_at (ir_invitation invitation) \<and>
      im_expires_at (ir_invitation invitation) \<le> env_clk ev 0 + duration_hours 24"
    if "create_account_invitation_inner ev issuer login display bindings expires_at b c = (Inr invitation, c3)"
    using that
    by (auto simp: create_account_invitation_inner_def try_pure_Inr Let_def INVITATION_MAX_TTL_HOURS_def
        invitation_summary_from_def split: if_splits)
  show "ar_expires_at started = env_clk ev 0 + duration_minutes 10"
    if "start_account_activation ev login secret c = (Inr started, c4)"
    using that
    by (auto simp: start_account_activation_def try_pure_Inr try_op_Inr Let_def
        ACTIVATION_CHALLENGE_TTL_MINUTES_def split: if_splits)
  show "pi_expires_at issued = env_clk ev 0 + duration_minutes 60"
    if "issue_password_recovery ev login c = (Inr issued, c5)"
    using that
    by (auto simp: issue_password_recovery_def try_pure_Inr try_op_Inr Let_def RECOVERY_TTL_MINUTES_def
        dest!: audited_commit_live split: if_splits option.splits)
qed

text \<open>
  Nothing that lets someone in lasts forever: a session ends fourteen days after it was made and
  opens nothing from then on, a personal access token expires in the future and within 365 days, an
  invitation within 24 hours, an activation challenge ten minutes and a recovery secret an hour after
  it was issued.
\<close>

theorem credential_lifetimes:
  "(\<forall>session c1 ev'. create_session ev login c = (Inr session, c1) \<longrightarrow>
      ws_expires_at (sr_session session) = ws_created_at (sr_session session) + duration_days 14 \<and>
      (env_sha256_hex ev' = env_sha256_hex ev \<and> ws_expires_at (sr_session session) \<le> env_clk ev' 0 \<longrightarrow>
         session_for_token ev' (live c1) (sr_token session) = None)) \<and>
    (\<forall>name expires token c2. create_personal_access_token ev login name expires c = (Inr token, c2) \<longrightarrow>
      (\<exists>t. pt_expires_at (pe_token token) = Some t \<and> env_clk ev 0 < t \<and> t \<le> env_clk ev 0 + duration_days 365)) \<and>
    (\<forall>issuer display bindings expires_at b invitation c3.
      create_account_invitation_inner ev issuer login display bindings expires_at b c = (Inr invitation, c3) \<longrightarrow>
      env_clk ev 0 < im_expires_at (ir_invitation invitation) \<and>
      im_expires_at (ir_invitation invitation) \<le> env_clk ev 0 + duration_hours 24) \<and>
    (\<forall>secret started c4. start_account_activation ev login secret c = (Inr started, c4) \<longrightarrow>
      ar_expires_at started = env_clk ev 0 + duration_minutes 10) \<and>
    (\<forall>issued c5. issue_password_recovery ev login c = (Inr issued, c5) \<longrightarrow>
      pi_expires_at issued = env_clk ev 0 + duration_minutes 60)"
  by (intro conjI allI; rule impI; erule credential_lifetimes_parts)

theorem credential_lifetimes_witness:
  "\<exists>session. fst (create_session ex_env ''root'' ex_core) = Inr session \<and>
     ws_expires_at (sr_session session) = ws_created_at (sr_session session) + duration_days 14"
proof -
  obtain session c' where made: "create_session ex_env ''root'' ex_core = (Inr session, c')"
    by (auto simp: create_session_def create_session_with_ttl_def require_active_account_def get_account_def
        permits_authentication_def ex_account_def random_secret_def ex_env_def Let_def commit_eq
        duration_seconds_def SESSION_TTL_SECS_def MAX_UTC_def write_fails_def)
  from credential_lifetimes [of ex_env "''root''" ex_core] made show ?thesis by auto
qed

section \<open>Invitations\<close>

text \<open>Every invitation is filed under its own id.\<close>

definition invitations_keyed :: "state \<Rightarrow> bool" where
  "invitations_keyed s = (\<forall>i row. hm_get (st_invitations s) i = Some row \<longrightarrow> iv_id row = i)"

lemma activated_sel:
  "st_accounts (activated ev now h found invitation account s) =
     hm_put (iv_canonical_login invitation) account (st_accounts s)"
  "st_invitations (activated ev now h found invitation account s) =
     hm_put (iv_id invitation) (invitation\<lparr>iv_consumed_at := Some now\<rparr>) (st_invitations s)"
  "st_activation_challenges (activated ev now h found invitation account s) =
     hm_put h (found\<lparr>ac_consumed_at := Some now\<rparr>) (st_activation_challenges s)"
proof -
  have teams: "st_invitations (fold (join_team l) bs t) = st_invitations t"
    "st_activation_challenges (fold (join_team l) bs t) = st_activation_challenges t" for l bs t
    using join_teams_state [of l bs t] by auto
  show "st_accounts (activated ev now h found invitation account s) =
     hm_put (iv_canonical_login invitation) account (st_accounts s)"
    "st_invitations (activated ev now h found invitation account s) =
     hm_put (iv_id invitation) (invitation\<lparr>iv_consumed_at := Some now\<rparr>) (st_invitations s)"
    "st_activation_challenges (activated ev now h found invitation account s) =
     hm_put h (found\<lparr>ac_consumed_at := Some now\<rparr>) (st_activation_challenges s)"
    by (simp_all add: activated_def Let_def teams)
qed

lemma complete_account_activation_Inr:
  assumes "complete_account_activation ev challenge password c = (Inr shown, c')"
  obtains found invitation account where
    "usable_challenge (env_clk ev 0) (live c) (token_hash ev challenge) = Some found"
    and "usable_invitation (env_clk ev 0) (live c) (ac_invitation_id found) = Some invitation"
    and "\<not> hm_has (st_accounts (live c)) (iv_canonical_login invitation)"
    and "ua_role account = ib_role (iv_intended_bindings invitation)" and "ua_status account = PendingMfa"
    and "ua_auth_epoch account = 0" and "shown = account_summary_from account"
    and "live c' = activated ev (env_clk ev 0) (token_hash ev challenge) found invitation account (live c)"
proof -
  let ?account = "\<lambda>hash invitation. \<lparr>ua_canonical_login = iv_canonical_login invitation,
      ua_display_name = iv_display_name invitation, ua_password_hash = hash,
      ua_role = ib_role (iv_intended_bindings invitation), ua_status = PendingMfa, ua_auth_epoch = 0,
      ua_must_change_password = False, ua_created_at = env_clk ev 0, ua_updated_at = env_clk ev 0\<rparr>"
  have "\<exists>hash found invitation.
      usable_challenge (env_clk ev 0) (live c) (token_hash ev challenge) = Some found \<and>
      usable_invitation (env_clk ev 0) (live c) (ac_invitation_id found) = Some invitation \<and>
      \<not> hm_has (st_accounts (live c)) (iv_canonical_login invitation) \<and>
      shown = account_summary_from (?account hash invitation) \<and>
      live c' = activated ev (env_clk ev 0) (token_hash ev challenge) found invitation
        (?account hash invitation) (live c)"
    using assms unfolding complete_account_activation_def Let_def
    by (auto simp: try_pure_Inr ok_or_Inr split: if_splits)
  then obtain hash found invitation where
    "usable_challenge (env_clk ev 0) (live c) (token_hash ev challenge) = Some found"
    "usable_invitation (env_clk ev 0) (live c) (ac_invitation_id found) = Some invitation"
    "\<not> hm_has (st_accounts (live c)) (iv_canonical_login invitation)"
    "shown = account_summary_from (?account hash invitation)"
    "live c' = activated ev (env_clk ev 0) (token_hash ev challenge) found invitation
       (?account hash invitation) (live c)"
    by blast
  then show thesis by (intro that [of found invitation "?account hash invitation"]) simp_all
qed

lemma invitation_spent_once_parts:
  assumes ran: "complete_account_activation ev challenge password c = (Inr shown, c')"
    and keyed: "invitations_keyed (live c)"
  shows "\<exists>found invitation row. usable_challenge (env_clk ev 0) (live c) (token_hash ev challenge) = Some found \<and>
      usable_invitation (env_clk ev 0) (live c) (ac_invitation_id found) = Some invitation \<and>
      iv_attempt_count invitation \<le> 5 \<and>
      hm_get (st_accounts (live c)) (iv_canonical_login invitation) = None \<and>
      hm_get (st_accounts (live c')) (iv_canonical_login invitation) = Some row \<and>
      ua_role row = ib_role (iv_intended_bindings invitation) \<and> ua_status row = PendingMfa \<and>
      (\<forall>now. usable_challenge now (live c') (token_hash ev challenge) = None \<and>
             usable_invitation now (live c') (ac_invitation_id found) = None)"
    and "usable_challenge (env_clk ev 0) (live c) (token_hash ev challenge) = Some found \<Longrightarrow>
      usable_challenge (env_clk ev2 0) (live c') (token_hash ev2 challenge2) = Some found2 \<Longrightarrow>
      ac_invitation_id found2 = ac_invitation_id found \<Longrightarrow>
      \<exists>e. complete_account_activation ev2 challenge2 password2 c' = (Inl e, c')"
proof -
  obtain opened invitation account where
    opened: "usable_challenge (env_clk ev 0) (live c) (token_hash ev challenge) = Some opened"
    and invitation: "usable_invitation (env_clk ev 0) (live c) (ac_invitation_id opened) = Some invitation"
    and free: "\<not> hm_has (st_accounts (live c)) (iv_canonical_login invitation)"
    and account: "ua_role account = ib_role (iv_intended_bindings invitation)" "ua_status account = PendingMfa"
    and live: "live c' = activated ev (env_clk ev 0) (token_hash ev challenge) opened invitation account (live c)"
    by (rule complete_account_activation_Inr [OF ran])
  have "hm_get (st_invitations (live c)) (ac_invitation_id opened) = Some invitation"
    and count: "iv_attempt_count invitation \<le> 5"
    using invitation by (auto simp: usable_invitation_def ACTIVATION_MAX_ATTEMPTS_def split: option.splits if_splits)
  with keyed have key: "iv_id invitation = ac_invitation_id opened" by (simp add: invitations_keyed_def)
  have spent: "usable_challenge now (live c') (token_hash ev challenge) = None"
    "usable_invitation now (live c') (ac_invitation_id opened) = None" for now
    by (simp_all add: live activated_sel key usable_challenge_def usable_invitation_def invitation_open_def)
  with opened invitation free account count
  show "\<exists>found invitation row. usable_challenge (env_clk ev 0) (live c) (token_hash ev challenge) = Some found \<and>
      usable_invitation (env_clk ev 0) (live c) (ac_invitation_id found) = Some invitation \<and>
      iv_attempt_count invitation \<le> 5 \<and>
      hm_get (st_accounts (live c)) (iv_canonical_login invitation) = None \<and>
      hm_get (st_accounts (live c')) (iv_canonical_login invitation) = Some row \<and>
      ua_role row = ib_role (iv_intended_bindings invitation) \<and> ua_status row = PendingMfa \<and>
      (\<forall>now. usable_challenge now (live c') (token_hash ev challenge) = None \<and>
             usable_invitation now (live c') (ac_invitation_id found) = None)"
    by (intro exI [of _ opened] exI [of _ invitation] exI [of _ account])
      (simp add: live activated_sel hm_has_def)
  show "\<exists>e. complete_account_activation ev2 challenge2 password2 c' = (Inl e, c')"
    if "usable_challenge (env_clk ev 0) (live c) (token_hash ev challenge) = Some found"
      and other: "usable_challenge (env_clk ev2 0) (live c') (token_hash ev2 challenge2) = Some found2"
      and same: "ac_invitation_id found2 = ac_invitation_id found"
  proof -
    have gone: "usable_invitation now (live c') (ac_invitation_id found2) = None" for now
      using spent(2) that(1) opened same by simp
    show ?thesis
      unfolding complete_account_activation_def Let_def other
      by (cases "require_password password2"; cases "hash_password ev2 0 password2") (simp_all add: ok_or_def gone)
  qed
qed

text \<open>
  An invitation is spent once: an activation that completes used an open challenge of an open
  invitation that has at most five counted attempts, creates the account with the role the invitation
  names, as yet without a second factor, and leaves both the challenge and the invitation unusable, so
  that completing with that challenge, or with any other challenge of the same invitation, fails and
  changes nothing.
\<close>

theorem invitation_spent_once:
  assumes "complete_account_activation ev challenge password c = (Inr shown, c')"
    and "invitations_keyed (live c)"
  shows "\<exists>found invitation row. usable_challenge (env_clk ev 0) (live c) (token_hash ev challenge) = Some found \<and>
      usable_invitation (env_clk ev 0) (live c) (ac_invitation_id found) = Some invitation \<and>
      iv_attempt_count invitation \<le> 5 \<and>
      hm_get (st_accounts (live c)) (iv_canonical_login invitation) = None \<and>
      hm_get (st_accounts (live c')) (iv_canonical_login invitation) = Some row \<and>
      ua_role row = ib_role (iv_intended_bindings invitation) \<and> ua_status row = PendingMfa \<and>
      (\<forall>now. usable_challenge now (live c') (token_hash ev challenge) = None \<and>
             usable_invitation now (live c') (ac_invitation_id found) = None) \<and>
      (\<forall>ev2 challenge2 found2 password2.
        usable_challenge (env_clk ev2 0) (live c') (token_hash ev2 challenge2) = Some found2 \<longrightarrow>
        ac_invitation_id found2 = ac_invitation_id found \<longrightarrow>
        (\<exists>e. complete_account_activation ev2 challenge2 password2 c' = (Inl e, c')))"
proof -
  obtain found where found: "usable_challenge (env_clk ev 0) (live c) (token_hash ev challenge) = Some found"
    using invitation_spent_once_parts(1) [OF assms] by blast
  show ?thesis
    using invitation_spent_once_parts(1) [OF assms] invitation_spent_once_parts(2) [OF assms found] found
    by auto
qed

definition ex_invitation :: account_invitation where
  "ex_invitation = \<lparr>iv_id = 5, iv_canonical_login = ''eve'', iv_display_name = ''Eve'',
     iv_activation_secret_hash = ''s'', iv_issuer_principal = ''root'',
     iv_intended_bindings = \<lparr>ib_role = RoleUser, ib_teams = []\<rparr>, iv_created_at = 0, iv_expires_at = 200,
     iv_consumed_at = None, iv_revoked_at = None, iv_attempt_count = 1, iv_bootstrap_owner = False\<rparr>"

definition ex_challenge :: activation_challenge where
  "ex_challenge = \<lparr>ac_id = 6, ac_invitation_id = 5, ac_challenge_hash = ''ch'', ac_created_at = 0,
     ac_expires_at = 200, ac_consumed_at = None\<rparr>"

definition ex_invited :: core where
  "ex_invited = ex_core\<lparr>live := ex_state\<lparr>st_invitations := [(5, ex_invitation)],
     st_activation_challenges := [(''ch'', ex_challenge)]\<rparr>\<rparr>"

lemma ex_invited_sel [simp]:
  "st_invitations (live ex_invited) = [(5, ex_invitation)]"
  "st_activation_challenges (live ex_invited) = [(''ch'', ex_challenge)]"
  "st_accounts (live ex_invited) = [(''root'', ex_account ''root'' RoleAdmin)]"
  by (simp_all add: ex_invited_def)

lemma ex_token_hash [simp]: "token_hash ex_env t = t"
  by (simp add: token_hash_def ex_env_def)

lemma ex_usable:
  "usable_challenge 100 (live ex_invited) ''ch'' = Some ex_challenge"
  "usable_invitation 100 (live ex_invited) 5 = Some ex_invitation"
  by (simp_all add: usable_challenge_def usable_invitation_def invitation_open_def ex_challenge_def
      ex_invitation_def ACTIVATION_MAX_ATTEMPTS_def)

theorem invitation_spent_once_witness:
  "\<exists>shown c'. complete_account_activation ex_env ''ch'' ''correct horse battery'' ex_invited = (Inr shown, c') \<and>
     usable_challenge 100 (live c') ''ch'' = None"
proof -
  have parts: "ac_invitation_id ex_challenge = 5" "iv_canonical_login ex_invitation = ''eve''"
    "ib_teams (iv_intended_bindings ex_invitation) = []" "\<not> iv_bootstrap_owner ex_invitation"
    by (simp_all add: ex_challenge_def ex_invitation_def)
  obtain shown c' where ran:
    "complete_account_activation ex_env ''ch'' ''correct horse battery'' ex_invited = (Inr shown, c')"
    by (simp add: complete_account_activation_def ex_long_password ex_hash ex_usable parts Let_def commit_eq
        hm_has_def)
  have "invitations_keyed (live ex_invited)" by (simp add: invitations_keyed_def ex_invitation_def)
  from invitation_spent_once [OF ran this] ran show ?thesis by auto
qed

section \<open>Recovery secrets\<close>

lemma issue_password_recovery_Inr:
  assumes "issue_password_recovery ev login c = (Inr issued, c')"
  obtains token_id secret account opened where
    "new_key_id ev 0 = Inr token_id" and "new_secret ev 12 = Inr secret"
    and "hm_get (st_accounts (live c)) login = Some account" and "ua_status account = Active"
    and "opened = \<lparr>py_token_id = token_id, py_login = login,
           py_secret_hash = token_hash ev (pi_token issued), py_auth_epoch = ua_auth_epoch account,
           py_created_at = env_clk ev 0, py_expires_at = pi_expires_at issued,
           py_consumed_at = None, py_attempt_count = 0\<rparr>"
    and "pi_token issued = ''jrr_'' @ token_id @ ''.'' @ secret" and "pi_token_id issued = token_id"
    and "st_accounts (live c') = st_accounts (live c)"
    and "st_password_recoveries (live c') = hm_put token_id opened (st_password_recoveries
           (snd (prune_dead_recoveries (env_clk ev 0) (retire_live_secrets login (env_clk ev 0)
             (snd (prune_dead_recoveries (env_clk ev 0) (live c)))))))"
proof -
  let ?now = "env_clk ev 0"
  let ?s = "snd (prune_dead_recoveries ?now (retire_live_secrets login ?now
      (snd (prune_dead_recoveries ?now (live c)))))"
  let ?expires = "?now + duration_minutes RECOVERY_TTL_MINUTES"
  let ?token = "\<lambda>token_id secret. PASSWORD_RECOVERY_PREFIX @ token_id @ ''.'' @ secret"
  have "\<exists>token_id secret account. new_key_id ev 0 = Inr token_id \<and> new_secret ev 12 = Inr secret \<and>
      hm_get (st_accounts (live c)) login = Some account \<and> permits_authentication (ua_status account) \<and>
      issued = \<lparr>pi_login = login, pi_token_id = token_id, pi_token = ?token token_id secret,
                pi_expires_at = ?expires\<rparr> \<and>
      live c' = ?s\<lparr>st_password_recoveries := hm_put token_id
        \<lparr>py_token_id = token_id, py_login = login, py_secret_hash = token_hash ev (?token token_id secret),
         py_auth_epoch = ua_auth_epoch account, py_created_at = ?now, py_expires_at = ?expires,
         py_consumed_at = None, py_attempt_count = 0\<rparr> (st_password_recoveries ?s)\<rparr>"
    using assms
    by (auto simp: issue_password_recovery_def try_pure_Inr try_op_Inr Let_def simp del: prune_sel(1)
        dest!: audited_commit_live split: if_splits option.splits)
  then show thesis
    by (elim exE conjE, intro that)
      (auto simp: permits_authentication_def PASSWORD_RECOVERY_PREFIX_def simp del: prune_sel(1) split: account_status.splits)
qed

text \<open>A secret as it is issued parses to its token id.\<close>

lemma parse_issued:
  assumes "length token_id = 12" and "CHR ''.'' \<notin> set token_id" and "length secret = 43"
  shows "parse_recovery_secret (''jrr_'' @ token_id @ ''.'' @ secret) = Some token_id"
proof -
  have "split_once (CHR ''.'') (token_id @ CHR ''.'' # secret) = Some (token_id, secret)"
    using assms(2) by (simp add: split_once_Some)
  then show ?thesis
    using assms(1,3)
    by (simp add: parse_recovery_secret_def strip_prefix_def starts_with_def PASSWORD_RECOVERY_PREFIX_def)
qed

text \<open>
  A recovery secret works: the secret a user is shown when one is issued is parsed back to its own
  token id, and as long as it has not expired, the hash function is the same and the store can be
  written, spending it with a password that can be hashed succeeds, for the login it was issued to.
\<close>

theorem issued_secret_recovers:
  assumes issued: "issue_password_recovery ev login c = (Inr issued, c')"
    and generator: "fills_buffers ev"
    and hash: "env_sha256_hex ev' = env_sha256_hex ev"
    and time: "env_clk ev' 0 < pi_expires_at issued" "env_clk ev' 1 < pi_expires_at issued"
    and password: "require_password p = Inr ()" "hash_password ev' 0 p = Inr h"
    and store: "\<not> write_fails ev' 1 c'" and room: "epoch_room (live c)"
  shows "parse_recovery_secret (pi_token issued) = Some (pi_token_id issued) \<and>
    (\<exists>receipt c''. recover_password ev' (pi_token issued) p c' = (Inr receipt, c'') \<and>
       (\<exists>a. hm_get (st_accounts (live c'')) login = Some a \<and> ua_password_hash a = h \<and>
            \<not> ua_must_change_password a))"
proof -
  obtain token_id secret account opened where
    made: "new_key_id ev 0 = Inr token_id" "new_secret ev 12 = Inr secret"
    and account: "hm_get (st_accounts (live c)) login = Some account" "ua_status account = Active"
    and opened: "opened = \<lparr>py_token_id = token_id, py_login = login,
           py_secret_hash = token_hash ev (pi_token issued), py_auth_epoch = ua_auth_epoch account,
           py_created_at = env_clk ev 0, py_expires_at = pi_expires_at issued,
           py_consumed_at = None, py_attempt_count = 0\<rparr>"
    and token: "pi_token issued = ''jrr_'' @ token_id @ ''.'' @ secret" "pi_token_id issued = token_id"
    and accounts: "st_accounts (live c') = st_accounts (live c)"
    and rows: "st_password_recoveries (live c') = hm_put token_id opened (st_password_recoveries
           (snd (prune_dead_recoveries (env_clk ev 0) (retire_live_secrets login (env_clk ev 0)
             (snd (prune_dead_recoveries (env_clk ev 0) (live c)))))))"
    by (rule issue_password_recovery_Inr [OF issued])
  have parse: "parse_recovery_secret (pi_token issued) = Some token_id"
    unfolding token
    by (rule parse_issued [OF new_key_id_shape [OF made(1)] new_secret_length [OF generator made(2)]])
  have row: "hm_get (st_password_recoveries (live c')) token_id = Some opened" unfolding rows by simp
  have verified: "verify_spend ev' (live c') token_id (pi_token issued) now =
      Inr \<lparr>vs_login = login, vs_auth_epoch = ua_auth_epoch account\<rparr>" if "now < pi_expires_at issued" for now
    using that account accounts
    by (simp add: verify_spend_def row is_live_def opened RECOVERY_MAX_ATTEMPTS_def permits_authentication_def
        token_hash_def hash constant_time_eq_strings)
  have epoch: "next_auth_epoch (ua_auth_epoch account) = Inr (ua_auth_epoch account + 1)"
    using epoch_roomD [OF room account(1)] by (simp add: next_auth_epoch_def)
  have stored: "\<exists>c''. commit_with_audit ev' 1 entry s x c' = (Inr x, c'') \<and> live c'' = s"
    for entry s and x :: password_recovery_receipt
    using store by (auto simp: commit_with_audit_def write_fails_def split: option.splits)
  have "\<exists>receipt c''. spend_secret ev' token_id \<lparr>vs_login = login, vs_auth_epoch = ua_auth_epoch account\<rparr> h c' =
      (Inr receipt, c'') \<and> (\<exists>a. hm_get (st_accounts (live c'')) login = Some a \<and> ua_password_hash a = h \<and>
            \<not> ua_must_change_password a)"
    unfolding spend_secret_def Let_def
    using account accounts by (simp add: epoch) (use stored in fastforce)
  then show ?thesis
    using verified time password
    by (simp add: recover_password_def parse token(2))
qed

text \<open>
  After a recovery no recovery record of the login is left, so that the same secret, and any other secret
  of the login that was open, is refused and changes nothing; the record spent carries the epoch the
  account had before.
\<close>

lemma recovery_spent_parts:
  assumes ran: "recover_password ev secret p c = (Inr receipt, c')"
    and rows: "recoveries_ok (st_password_recoveries (live c))"
  shows "\<exists>r token_id. parse_recovery_secret secret = Some token_id \<and>
      hm_get (st_password_recoveries (live c)) token_id = Some r \<and> is_live r (env_clk ev 1) \<and>
      py_secret_hash r = token_hash ev secret \<and>
      (\<exists>a b. hm_get (st_accounts (live c)) (py_login r) = Some a \<and> ua_auth_epoch a = py_auth_epoch r \<and>
         hm_get (st_accounts (live c')) (py_login r) = Some b \<and> ua_auth_epoch b = py_auth_epoch r + 1) \<and>
      (\<forall>k q. hm_get (st_password_recoveries (live c')) k = Some q \<longrightarrow> py_login q \<noteq> py_login r) \<and>
      (\<forall>ev' secret' p' token_id' q. parse_recovery_secret secret' = Some token_id' \<longrightarrow>
         hm_get (st_password_recoveries (live c)) token_id' = Some q \<longrightarrow> py_login q = py_login r \<longrightarrow>
         (\<exists>e. recover_password ev' secret' p' c' = (Inl e, c')))"
proof -
  obtain token_id r a h where token: "parse_recovery_secret secret = Some token_id"
    and r: "hm_get (st_password_recoveries (live c)) token_id = Some r" "is_live r (env_clk ev 1)"
      "py_secret_hash r = token_hash ev secret"
    and before: "hm_get (st_accounts (live c)) (py_login r) = Some a" "ua_auth_epoch a = py_auth_epoch r"
    and live: "live c' = drop_credentials (py_login r) (env_clk ev 1)
           (put_account (py_login r) (a\<lparr>ua_password_hash := h, ua_must_change_password := False,
              ua_auth_epoch := ua_auth_epoch a + 1, ua_updated_at := env_clk ev 1\<rparr>)
             (snd (prune_dead_recoveries (env_clk ev 1)
                (retire_live_secrets (py_login r) (env_clk ev 1) (live c)))))"
    by (rule recover_password_Inr [OF ran])
  have ok: "hm_ok (st_password_recoveries (live c))" using rows by (simp add: recoveries_ok_def)
  have after: "st_password_recoveries (live c') = hm_retain (\<lambda>_ r. is_live r (env_clk ev 1))
      (st_password_recoveries (retire_live_secrets (py_login r) (env_clk ev 1) (live c)))"
    by (simp add: live put_account_def)
  have gone: "py_login q \<noteq> py_login r \<and> (\<exists>p. hm_get (st_password_recoveries (live c)) k = Some p \<and> py_login p = py_login q)"
    if "hm_get (st_password_recoveries (live c')) k = Some q" for k q
    using retired_and_pruned [OF ok that [unfolded after]] retired_rows by metis
  have refused: "\<exists>e. recover_password ev' secret' p' c' = (Inl e, c')"
    if "parse_recovery_secret secret' = Some t" and "hm_get (st_password_recoveries (live c)) t = Some q"
      and "py_login q = py_login r" for ev' secret' p' t q
  proof -
    have "hm_get (st_password_recoveries (live c')) t = None"
      using gone that by (cases "hm_get (st_password_recoveries (live c')) t") fastforce+
    then show ?thesis
      using that(1) by (cases "require_password p'") (simp_all add: recover_password_def verify_spend_def)
  qed
  have "\<exists>b. hm_get (st_accounts (live c')) (py_login r) = Some b \<and> ua_auth_epoch b = py_auth_epoch r + 1"
    by (simp add: live put_account_def before)
  with token r before gone refused show ?thesis by blast
qed

lemma ex_root_room: "epoch_room ex_state"
  by (simp add: epoch_room_def ex_account_def)

lemma ex_issued_on:
  assumes "hm_get (st_accounts (live c)) ''root'' = Some a" and "ua_status a = Active"
  obtains issued where "issue_password_recovery ex_env ''root'' c =
      (Inr issued, snd (issue_password_recovery ex_env ''root'' c))"
    and "100 + 1 < pi_expires_at issued"
proof -
  have login: "require_login ''root'' = Inr ()" by code_simp
  have random: "env_random ex_env n k = Inr (replicate k n)" for n k by (simp add: ex_env_def)
  have "\<exists>t. key_id_loop ex_env n k = Inr t" for n k
  proof (induction k arbitrary: n)
    case (Suc k)
    obtain t where "key_id_loop ex_env (n + 1) k = Inr t" using Suc.IH by blast
    then show ?case by (simp add: random)
  qed simp
  then have random: "\<exists>t. new_key_id ex_env 0 = Inr t" "\<exists>t. new_secret ex_env 12 = Inr t"
    by (simp_all add: new_key_id_def new_secret_def random numeral_eq_Suc del: key_id_loop.simps)
  have faultless: "env_fault ex_env n = None" for n by (simp add: ex_env_def)
  have "\<exists>issued c'. issue_password_recovery ex_env ''root'' c = (Inr issued, c') \<and>
      100 + 1 < pi_expires_at issued"
    using random assms
    by (cases "storage c")
      (auto simp: issue_password_recovery_def login Let_def commit_with_audit_def permits_authentication_def
        faultless duration_minutes_def duration_seconds_def RECOVERY_TTL_MINUTES_def)
  with that show thesis by (auto simp: prod_eq_iff)
qed

lemma ex_issued:
  obtains issued where "issue_password_recovery ex_env ''root'' ex_core =
      (Inr issued, snd (issue_password_recovery ex_env ''root'' ex_core))"
    and "100 + 1 < pi_expires_at issued"
  by (rule ex_issued_on [of ex_core "ex_account ''root'' RoleAdmin"]) (simp_all add: ex_account_def)

theorem issued_secret_recovers_witness:
  "\<exists>issued receipt c''. fst (issue_password_recovery ex_env ''root'' ex_core) = Inr issued \<and>
     recover_password ex_env (pi_token issued) ''correct horse battery''
       (snd (issue_password_recovery ex_env ''root'' ex_core)) = (Inr receipt, c'')"
proof -
  obtain issued where issued: "issue_password_recovery ex_env ''root'' ex_core =
      (Inr issued, snd (issue_password_recovery ex_env ''root'' ex_core))"
    and time: "100 + 1 < pi_expires_at issued" by (rule ex_issued)
  have "fst (issue_password_recovery ex_env ''root'' ex_core) = Inr issued"
    by (subst issued) (rule fst_conv)
  moreover have "\<exists>receipt c''. recover_password ex_env (pi_token issued) ''correct horse battery''
       (snd (issue_password_recovery ex_env ''root'' ex_core)) = (Inr receipt, c'')"
  proof -
    have clock: "env_clk ex_env 0 < pi_expires_at issued" "env_clk ex_env 1 < pi_expires_at issued"
      using time by simp_all
    have room: "epoch_room (live ex_core)" using ex_root_room by simp
    from issued_secret_recovers [OF issued ex_env_fills refl clock ex_long_password ex_hash ex_writes room]
    show ?thesis by (elim conjE exE) (intro exI)
  qed
  ultimately show ?thesis by blast
qed

section \<open>The top of the epoch\<close>

text \<open>
  At the top of its range the epoch can not be bumped: the reset is refused, but the new password hash
  is already in the live account, and nowhere on disk.
\<close>

lemma reset_at_the_top_diverges:
  assumes "hm_get (st_accounts (live c)) login = Some a" and "ua_auth_epoch a = 2 ^ 64 - 1"
    and "require_password p = Inr ()" and "hash_password ev 0 p = Inr h"
  shows "reset_account_password ev login p c =
    (Inl (Storage ''account auth epoch overflow''),
     c\<lparr>live := put_account login (a\<lparr>ua_password_hash := h, ua_must_change_password := True\<rparr>) (live c)\<rparr>)"
  using assms by (simp add: reset_account_password_def store_new_credentials_def next_auth_epoch_def)

end
