(* ===== verification/Merge_Safety.thy ===== *)
theory Merge_Safety
  imports Writes Sample_Store
begin

text \<open>
  What a merge guarantees: a finalize only succeeds on a clear gate and an unmoved base, an
  override only on evidence an independent administrator may clear, and a moved base leaves no
  approval standing.
\<close>

section \<open>Finalizing\<close>

lemma pull_event_pulls [simp]:
  "st_pulls (pull_event ev n owner repo action pr s) = st_pulls s"
  "st_issues (pull_event ev n owner repo action pr s) = st_issues s"
  "st_reviews (pull_event ev n owner repo action pr s) = st_reviews s"
  "st_branch_protections (pull_event ev n owner repo action pr s) = st_branch_protections s"
  by (simp_all add: pull_event_def)

lemma close_issue_sel [simp]:
  "st_pulls (close_issue ev key s) = st_pulls s" "st_reviews (close_issue ev key s) = st_reviews s"
  by (simp_all add: close_issue_def split: option.split)

lemma put_pull_sel [simp]:
  "st_pulls (put_pull owner repo number pr s) = hm_put (owner, repo, number) pr (st_pulls s)"
  "st_issues (put_pull owner repo number pr s) = st_issues s"
  "st_reviews (put_pull owner repo number pr s) = st_reviews s"
  by (simp_all add: put_pull_def)

lemma close_issue_issues:
  "hm_get (st_issues (close_issue ev key s)) key =
     map_option (\<lambda>i. i\<lparr>is_state := IssueClosed, is_closed_at := Some (env_clk ev 3),
                       is_updated_at := env_clk ev 4\<rparr>) (hm_get (st_issues s) key)"
  by (simp add: close_issue_def split: option.split)

text \<open>The state a finalize writes for the pull request \<open>pr\<close>.\<close>

definition finalized :: "env \<Rightarrow> string \<Rightarrow> string \<Rightarrow> u64 \<Rightarrow> string \<Rightarrow> pull_request \<Rightarrow> state \<Rightarrow> state" where
  "finalized ev owner repo number merge_sha pr s =
     pull_event ev 6 owner repo ''closed'' (merged_pull ev merge_sha pr)
       (close_issue ev (owner, repo, pr_issue_number pr)
         (put_pull owner repo number (merged_pull ev merge_sha pr) s))"

lemma finalize_checked_Inr:
  assumes "finalize_merge_checked ev owner repo number binding permit c = (Inr result, c')"
    and "hm_get (st_pulls (live c)) (owner, repo, number) = Some pr" and "\<not> pr_merged pr"
  shows "pr_state pr \<noteq> PrClosed"
    and "gr_ref_name (pr_base pr) = mb_base_ref (fb_base binding)"
    and "gr_sha (pr_base pr) = mb_base_sha (fb_base binding)"
    and "check_gate ev (live c) owner repo pr
           (evaluate_locked ev (live c) pr (fb_requested_sha binding)) permit = Inr ()"
    and "live c' = finalized ev owner repo number (fb_merge_sha binding) pr (live c)"
    and "mr_sha result = fb_merge_sha binding \<and> mr_merged result"
    and "permit = Some p \<Longrightarrow> \<exists>d entry. storage c = Some d \<and>
           storage c' = Some \<lparr>du_disk = live c', du_audit = du_audit d @ [entry]\<rparr> \<and>
           ae_actor entry = mp_actor p \<and> ae_action entry = ''pull.merge_override'' \<and>
           ae_phase entry = ''completed'' \<and> ae_subject entry = permit_subject p \<and>
           ae_detail entry = audit_detail p (Some (fb_merge_sha binding))"
proof -
  have split: "ok_or (hm_get (st_pulls (live c)) (owner, repo, number)) e = Inr pr" for e
    using assms(2) by (simp add: ok_or_Inr)
  note parts = assms(1) [unfolded finalize_merge_checked_def Let_def, simplified split]
  from parts assms(3) show "pr_state pr \<noteq> PrClosed"
    by (auto simp: try_pure_Inr split: if_splits)
  from parts assms(3) show "gr_ref_name (pr_base pr) = mb_base_ref (fb_base binding)"
    by (auto simp: try_pure_Inr split: if_splits)
  from parts assms(3) show "gr_sha (pr_base pr) = mb_base_sha (fb_base binding)"
    by (auto simp: try_pure_Inr split: if_splits)
  from parts assms(3) show "check_gate ev (live c) owner repo pr
      (evaluate_locked ev (live c) pr (fb_requested_sha binding)) permit = Inr ()"
    by (auto simp: try_pure_Inr split: if_splits)
  from parts assms(3) show "live c' = finalized ev owner repo number (fb_merge_sha binding) pr (live c)"
    by (cases permit)
      (auto simp: try_pure_Inr finalized_def commit_with_audit_def split: if_splits option.splits)
  from parts assms(3) show "mr_sha result = fb_merge_sha binding \<and> mr_merged result"
    by (cases permit) (auto simp: try_pure_Inr commit_with_audit_def split: if_splits option.splits)
  from parts assms(3) show "permit = Some p \<Longrightarrow> \<exists>d entry. storage c = Some d \<and>
      storage c' = Some \<lparr>du_disk = live c', du_audit = du_audit d @ [entry]\<rparr> \<and>
      ae_actor entry = mp_actor p \<and> ae_action entry = ''pull.merge_override'' \<and>
      ae_phase entry = ''completed'' \<and> ae_subject entry = permit_subject p \<and>
      ae_detail entry = audit_detail p (Some (fb_merge_sha binding))"
    by (auto simp: try_pure_Inr commit_with_audit_def split: if_splits option.splits)
qed


text \<open>
  C1. A finalize that merges a pull request not yet merged found it not closed, its base still the
  one the merge was prepared against, and the gate of that very moment clear; it stores the pull
  request as merged with the merge commit, closes its issue and changes no other pull request.
\<close>

theorem finalize_needs_clear_gate:
  assumes "finalize_merge ev owner repo number merge_sha requested base c = (Inr result, c')"
    and "hm_get (st_pulls (live c)) (owner, repo, number) = Some pr" and "\<not> pr_merged pr"
  shows "pr_state pr \<noteq> PrClosed \<and>
    gr_ref_name (pr_base pr) = mb_base_ref base \<and> gr_sha (pr_base pr) = mb_base_sha base \<and>
    ev_mergeable (evaluate_locked ev (live c) pr requested) \<and>
    mr_sha result = merge_sha \<and>
    st_pulls (live c') =
      hm_put (owner, repo, number)
        (pr\<lparr>pr_merged := True, pr_state := PrMerged, pr_mergeable := False,
            pr_mergeable_state := ''merged'', pr_merged_at := Some (env_clk ev 1),
            pr_merge_commit_sha := Some merge_sha, pr_updated_at := env_clk ev 2\<rparr>)
        (st_pulls (live c)) \<and>
    map_option is_state (hm_get (st_issues (live c')) (owner, repo, pr_issue_number pr)) =
      map_option (\<lambda>_. IssueClosed) (hm_get (st_issues (live c)) (owner, repo, pr_issue_number pr))"
proof -
  note found = finalize_checked_Inr [OF assms(1) [unfolded finalize_merge_def] assms(2,3)]
  have "ev_mergeable (evaluate_locked ev (live c) pr requested)"
    using found(4) by (simp add: check_gate_def split: if_splits)
  with found show ?thesis
    by (simp add: finalized_def merged_pull_def close_issue_issues option.map_comp comp_def)
qed

lemma ex_pull_clear: "ev_mergeable (evaluate_locked ex_env ex_state ex_pull (Some ''h1''))"
proof -
  have "effective_reviews_for_pull_request_with [] pr reach = []" for pr reach
    by (simp add: effective_reviews_for_pull_request_with_def reduce_reviews_def)
  then show ?thesis
    by (simp add: evaluate_locked_def evaluate_branch_protection_with_def Let_def intrinsic_blockers_def
        gate_sha_def gate_draft_def gate_changes_requested_def audit_merge_enforced_def hm_list_def)
      (simp add: ex_pull_def ex_ref_def)
qed

theorem finalize_needs_clear_gate_witness:
  "\<exists>result c'. finalize_merge ex_env ''acme'' ''core'' 1 ''m1'' (Some ''h1'')
       \<lparr>mb_base_ref = ''main'', mb_base_sha = ''b1''\<rparr> ex_core = (Inr result, c') \<and>
     ev_mergeable (evaluate_locked ex_env ex_state ex_pull (Some ''h1''))"
proof -
  obtain result c' where run: "finalize_merge ex_env ''acme'' ''core'' 1 ''m1'' (Some ''h1'')
      \<lparr>mb_base_ref = ''main'', mb_base_sha = ''b1''\<rparr> ex_core = (Inr result, c')"
    using ex_pull_clear
    by (simp add: finalize_merge_def finalize_merge_checked_def check_gate_def Let_def ex_pull_sel)
  from finalize_needs_clear_gate [OF run, of ex_pull] run show ?thesis
    by (simp add: ex_pull_sel ex_pull_clear)
qed

section \<open>Overriding\<close>

text \<open>One failed check that an administrator's decision may clear, with the row that says so.\<close>

definition cleared_by ::
  "state \<Rightarrow> pull_request \<Rightarrow> string \<Rightarrow> branch_protection_rule \<Rightarrow> merge_blocker \<Rightarrow> commit_status \<Rightarrow> bool" where
  "cleared_by s pr actor rule blocker status =
     (\<exists>ctx. blocker = FailedStatusCheck ctx \<and>
        current_status_for_base (hm_list (st_statuses s) (pr_owner pr, pr_repo pr, gr_sha (pr_head pr)))
          ctx (gr_ref_name (pr_base pr)) = Some status \<and>
        (cs_state status = StFailure \<or> cs_state status = StError) \<and>
        ctx \<in> set (bp_merge_override_status_checks rule) \<and>
        cs_creator status \<in> set (bp_merge_override_status_creators rule) \<and>
        \<not> eq_ignore_ascii_case (cs_creator status) actor \<and>
        (\<forall>run \<in> set (hm_list (st_check_runs s) (pr_owner pr, pr_repo pr)).
           ck_head_sha run = gr_sha (pr_head pr) \<longrightarrow> ck_name run = ctx \<longrightarrow> ck_status run = CrCompleted))"

lemma clear_blockers_cleared:
  assumes "validate_override_evaluation s pr actor rule evaluation = Inr evidence"
  shows "list_all2 (cleared_by s pr actor rule) (ev_blockers evaluation) evidence"
proof -
  from assms have "list_all2 (\<lambda>blocker status. override_evidence s pr actor rule blocker = Some (Inr status))
      (ev_blockers evaluation) evidence"
    by (simp add: validate_override_evaluation_def clear_blockers_Inr)
  then show ?thesis
    by (rule list_all2_mono) (unfold override_evidence_Inr cleared_by_def, blast)
qed

lemma finalize_override_Inr:
  assumes "finalize_merge_with_override ev permit merge_sha c = (Inr result, c')"
  shows "finalize_merge_checked ev (mp_owner permit) (mp_repo permit) (mp_number permit)
     \<lparr>fb_merge_sha = merge_sha, fb_requested_sha = Some (mp_head_sha permit),
      fb_base = \<lparr>mb_base_ref = bp_branch (mp_protection permit), mb_base_sha = mp_base_sha permit\<rparr>\<rparr>
     (Some permit) c = (Inr result, c')"
  using assms by (auto simp: finalize_merge_with_override_def split: prod.splits sum.splits)

lemma check_permit_Inr:
  "check_permit ev s owner repo pr evaluation permit = Inr u \<longleftrightarrow>
     validate_override s pr (mp_actor permit) = Inr () \<and>
     timestamp (env_clk ev 0) \<le> mp_expires_at permit \<and>
     validate_override_evaluation s pr (mp_actor permit) (mp_protection permit) evaluation =
       Inr (mp_status_evidence permit) \<and>
     gr_sha (pr_head pr) = mp_head_sha permit \<and> gr_sha (pr_base pr) = mp_base_sha permit \<and>
     evaluation = mp_evaluation permit \<and>
     hm_get (st_branch_protections s) (owner, repo, gr_ref_name (pr_base pr)) = Some (mp_protection permit)"
  by (cases "validate_override s pr (mp_actor permit)";
      cases "validate_override_evaluation s pr (mp_actor permit) (mp_protection permit) evaluation")
    (auto simp: check_permit_def)

text \<open>
  C3. An override merge is justified at the moment it is made: the permit has not expired and its
  head, base, evaluation and rule are still the current ones; its actor administers the repository,
  is not the author, and is not counted among the approvals the rule requires; and the evidence in the permit is, blocker
  by blocker of the evaluation of now, the current status of a failed check of the rule's allow list, reported by an allowed
  creator who is not the actor, with no run of that check under way. The receipt is written in the same transaction as the merge.
\<close>

theorem override_merge_is_justified:
  assumes "finalize_merge_with_override ev permit merge_sha c = (Inr result, c')"
    and "hm_get (st_pulls (live c)) (mp_owner permit, mp_repo permit, mp_number permit) = Some pr"
    and "\<not> pr_merged pr"
  shows "user_can_admin_repo (live c) (mp_actor permit) (pr_owner pr) (pr_repo pr) \<and>
    mp_actor permit \<noteq> pr_author pr \<and> \<not> pr_draft pr \<and>
    (\<exists>rule. hm_get (st_branch_protections (live c))
        (pr_owner pr, pr_repo pr, gr_ref_name (pr_base pr)) = Some rule \<and>
      bp_allow_merge_override rule \<and> \<not> bp_enforce_admins rule \<and>
      bp_required_approving_review_count rule
        \<le> independent_approvals (live c) pr rule (mp_actor permit)) \<and>
    timestamp (env_clk ev 0) \<le> mp_expires_at permit \<and>
    gr_sha (pr_head pr) = mp_head_sha permit \<and> gr_sha (pr_base pr) = mp_base_sha permit \<and>
    mp_evaluation permit = evaluate_locked ev (live c) pr (Some (mp_head_sha permit)) \<and>
    list_all2 (cleared_by (live c) pr (mp_actor permit) (mp_protection permit))
      (ev_blockers (mp_evaluation permit)) (mp_status_evidence permit) \<and>
    hm_get (st_branch_protections (live c))
      (mp_owner permit, mp_repo permit, gr_ref_name (pr_base pr)) = Some (mp_protection permit) \<and>
    (\<exists>d entry. storage c = Some d \<and>
       storage c' = Some \<lparr>du_disk = live c', du_audit = du_audit d @ [entry]\<rparr> \<and>
       ae_actor entry = mp_actor permit \<and> ae_action entry = ''pull.merge_override'' \<and>
       ae_phase entry = ''completed'' \<and> ae_subject entry = permit_subject permit)"
proof -
  note found = finalize_checked_Inr [OF finalize_override_Inr [OF assms(1)] assms(2,3)]
  let ?evaluation = "evaluate_locked ev (live c) pr (Some (mp_head_sha permit))"
  from found(4) have permit: "check_permit ev (live c) (mp_owner permit) (mp_repo permit) pr
      ?evaluation permit = Inr ()"
    by (simp add: check_gate_def)
  then have "validate_override (live c) pr (mp_actor permit) = Inr ()"
    and evidence: "validate_override_evaluation (live c) pr (mp_actor permit) (mp_protection permit)
      ?evaluation = Inr (mp_status_evidence permit)"
    unfolding check_permit_Inr by blast+
  note allowed = this(1) [unfolded validate_override_Inr]
  have same: "?evaluation = mp_evaluation permit" using permit unfolding check_permit_Inr by blast
  with clear_blockers_cleared [OF evidence]
  have "list_all2 (cleared_by (live c) pr (mp_actor permit) (mp_protection permit))
      (ev_blockers (mp_evaluation permit)) (mp_status_evidence permit)" by simp
  with same allowed permit [unfolded check_permit_Inr] found(7) [OF refl] show ?thesis
    by metis
qed

text \<open>A failed check \<^verbatim>\<open>lint\<close> that the rule lets an administrator clear, and a permit for it.\<close>

definition ex_override_rule :: branch_protection_rule where
  "ex_override_rule = ex_rule
     \<lparr>bp_required_status_checks := [''lint''], bp_required_approving_review_count := 0,
      bp_allow_merge_override := True, bp_merge_override_status_checks := [''lint''],
      bp_merge_override_status_creators := [''ci'']\<rparr>"

definition ex_override_state :: state where
  "ex_override_state = ex_state
     \<lparr>st_branch_protections := [((''acme'', ''core'', ''main''), ex_override_rule)],
      st_statuses := [((''acme'', ''core'', ''h1''), [ex_status ''lint'' None StFailure 5])]\<rparr>"

definition ex_override_core :: core where
  "ex_override_core =
     \<lparr>live = ex_override_state, storage = Some \<lparr>du_disk = ex_override_state, du_audit = []\<rparr>\<rparr>"

definition ex_permit :: merge_override_permit where
  "ex_permit =
     \<lparr>mp_owner = ''acme'', mp_repo = ''core'', mp_number = 1, mp_actor = ''root'', mp_reason = ''flaky'',
      mp_head_sha = ''h1'', mp_base_sha = ''b1'', mp_passport_hash = [], mp_expires_at = 600,
      mp_status_evidence = [ex_status ''lint'' None StFailure 5],
      mp_evaluation = evaluate_locked ex_env ex_override_state ex_pull (Some ''h1''),
      mp_protection = ex_override_rule\<rparr>"

lemma ex_override_runs:
  "map_option mr_merged (case fst (finalize_merge_with_override ex_env ex_permit ''m1'' ex_override_core) of
     Inl e \<Rightarrow> None | Inr r \<Rightarrow> Some r) = Some True"
  by code_simp

theorem override_merge_is_justified_witness:
  "\<exists>result c'. finalize_merge_with_override ex_env ex_permit ''m1'' ex_override_core = (Inr result, c') \<and>
     user_can_admin_repo ex_override_state ''root'' ''acme'' ''core'' \<and>
     list_all2 (cleared_by ex_override_state ex_pull ''root'' ex_override_rule)
       [FailedStatusCheck ''lint''] [ex_status ''lint'' None StFailure 5]"
proof -
  obtain result c' where run:
    "finalize_merge_with_override ex_env ex_permit ''m1'' ex_override_core = (Inr result, c')"
    using ex_override_runs
    by (cases "finalize_merge_with_override ex_env ex_permit ''m1'' ex_override_core";
        cases "fst (finalize_merge_with_override ex_env ex_permit ''m1'' ex_override_core)") simp_all
  have blocked: "ev_blockers (evaluate_locked ex_env ex_override_state ex_pull (Some ''h1'')) =
      [FailedStatusCheck ''lint'']"
    by code_simp
  have parts: "live ex_override_core = ex_override_state" "mp_owner ex_permit = ''acme''"
    "mp_repo ex_permit = ''core''" "mp_number ex_permit = 1" "mp_actor ex_permit = ''root''"
    "mp_head_sha ex_permit = ''h1''" "mp_protection ex_permit = ex_override_rule"
    "mp_evaluation ex_permit = evaluate_locked ex_env ex_override_state ex_pull (Some ''h1'')"
    "mp_status_evidence ex_permit = [ex_status ''lint'' None StFailure 5]"
    by (simp_all add: ex_override_core_def ex_permit_def)
  have "hm_get (st_pulls ex_override_state) (''acme'', ''core'', 1) = Some ex_pull"
    by (simp add: ex_override_state_def)
  from override_merge_is_justified [OF run, of ex_pull] this run blocked show ?thesis
    by (simp add: parts ex_pull_sel)
qed

section \<open>Moving the base\<close>

lemma commit_with_audit_Inr:
  "commit_with_audit ev n entry s x c = (Inr y, c') \<longleftrightarrow>
     \<not> write_fails ev n c \<and> y = x \<and> live c' = s \<and>
     storage c' = map_option (\<lambda>d. \<lparr>du_disk = s, du_audit = du_audit d @ [entry]\<rparr>) (storage c)"
  by (cases c; cases c'; cases "storage c"; cases "env_fault ev n")
    (auto simp: commit_with_audit_def write_fails_def)

text \<open>
  A pull request is only moved to another base while no approval given against the old one
  stands; the move forgets the diff identity that could carry a verdict over, names the new base,
  judges the pull request against it, keeps every review, and records the move in the same
  transaction.
\<close>

theorem retarget_leaves_no_approval:
  assumes "retarget_pull_request ev branches g actor owner repo number request c = (Inr moved, c')"
  shows "\<exists>pr. hm_get (st_pulls (live c)) (owner, repo, number) = Some pr \<and>
    \<not> pr_merged pr \<and> pr_state pr \<noteq> PrClosed \<and> gr_sha (pr_head pr) = rtr_head_sha request \<and>
    \<not> standing_approval (hm_list (st_reviews (live c)) (owner, repo, number)) \<and>
    branch_exists branches g owner repo (normalize_base_ref (rtr_base request)) = Inr True \<and>
    st_pulls (live c') = hm_put (owner, repo, number) moved (st_pulls (live c)) \<and>
    st_reviews (live c') = st_reviews (live c) \<and>
    pr_head_patch_ids moved = [] \<and>
    pr_base moved = git_branch_ref_new (normalize_base_ref (rtr_base request)) (rtr_base_sha request) \<and>
    moved = reevaluated ev (live c) moved \<and>
    (\<forall>d. storage c = Some d \<longrightarrow> (\<exists>entry. storage c' =
       Some \<lparr>du_disk = live c', du_audit = du_audit d @ [entry]\<rparr> \<and>
       ae_actor entry = actor \<and> ae_action entry = ''pull_request.retargeted''))"
  using assms
  by (auto simp: retarget_pull_request_def Let_def try_pure_Inr ok_or_Inr commit_with_audit_Inr
      check_open_at_def open_pull_def check_retarget_base_def put_pull_def
      reevaluated_def pull_event_def split: if_splits)

text \<open>A storage of git branches that has every branch and never fails.\<close>

definition ex_branches :: "unit repo_branches" where
  "ex_branches =
     \<lparr>branch_exists = (\<lambda>_ _ _ _. Inr True), head_branch = (\<lambda>_ _ _. Inr (Some ''main'')),
      point_head_at = (\<lambda>_ _ _ g. (Inr (), g))\<rparr>"

definition ex_retarget :: retarget_pull_request_request where
  "ex_retarget =
     \<lparr>rtr_base = ''release'', rtr_base_sha = replicate 40 (CHR ''b''), rtr_head_sha = ''h1'',
      rtr_commits = [\<lparr>cm_sha = ''h1'', cm_verified = False, cm_parents = 1\<rparr>],
      rtr_changed_files = [''a'']\<rparr>"

lemma ex_retarget_runs:
  "(case fst (retarget_pull_request ex_env ex_branches () ''ann'' ''acme'' ''core'' 1 ex_retarget ex_core) of
     Inl e \<Rightarrow> None | Inr pr \<Rightarrow> Some (gr_ref_name (pr_base pr))) = Some ''release''"
  by code_simp

theorem retarget_leaves_no_approval_witness:
  "\<exists>moved c'. retarget_pull_request ex_env ex_branches () ''ann'' ''acme'' ''core'' 1 ex_retarget ex_core =
       (Inr moved, c') \<and>
     \<not> standing_approval (hm_list (st_reviews ex_state) (''acme'', ''core'', 1)) \<and> pr_head_patch_ids moved = []"
proof -
  let ?run = "retarget_pull_request ex_env ex_branches () ''ann'' ''acme'' ''core'' 1 ex_retarget ex_core"
  obtain moved c' where run: "?run = (Inr moved, c')"
    using ex_retarget_runs by (cases ?run; cases "fst ?run") simp_all
  from retarget_leaves_no_approval [OF run] run show ?thesis by auto
qed

section \<open>Readiness\<close>

text \<open>
  C13. A merge that was found ready goes through: when readiness reports a pull request ready and nothing changed since,
  finalizing it with the base it reported has exactly three outcomes. If the repository is not writable (readiness does not look at that:
  it is archived, or gone) the answer is that refusal and nothing changes; else, if the storage write fails, the answer is an
  error and nothing changes; else it returns the merge commit and stores the pull request as merged.
\<close>

theorem ready_merge_succeeds:
  assumes "evaluate_merge_readiness ev (live c) owner repo number requested =
      Inr (Ready base_ref base_sha head_ref head_sha linear)"
    and "finalize_merge ev owner repo number merge_sha requested
      \<lparr>mb_base_ref = base_ref, mb_base_sha = base_sha\<rparr> c = (r, c')"
  shows "case ensure_repository_writable (live c) owner repo of
      Inl e \<Rightarrow> r = Inl e \<and> c' = c
    | Inr _ \<Rightarrow>
        if write_fails ev 0 c then (\<exists>e. r = Inl e) \<and> c' = c
        else \<exists>result pr. r = Inr result \<and> mr_sha result = merge_sha \<and> mr_merged result \<and>
          hm_get (st_pulls (live c')) (owner, repo, number) = Some pr \<and>
          pr_merged pr \<and> pr_merge_commit_sha pr = Some merge_sha \<and> gr_sha (pr_head pr) = head_sha"
proof (cases "ensure_repository_writable (live c) owner repo")
  case (Inl e)
  with assms(2) show ?thesis by (simp add: finalize_merge_def finalize_merge_checked_def Let_def)
next
  case (Inr u)
  from assms(1) obtain pr where pr: "hm_get (st_pulls (live c)) (owner, repo, number) = Some pr"
      "\<not> pr_merged pr" "pr_state pr \<noteq> PrClosed" "ev_mergeable (evaluate_locked ev (live c) pr requested)"
      "gr_ref_name (pr_base pr) = base_ref" "gr_sha (pr_base pr) = base_sha" "gr_sha (pr_head pr) = head_sha"
    by (auto simp: evaluate_merge_readiness_def ok_or_def Let_def split: option.splits if_splits)
  show ?thesis
  proof (cases "write_fails ev 0 c")
    case True
    with Inr pr assms(2) show ?thesis
      by (auto simp: finalize_merge_def finalize_merge_checked_def Let_def check_gate_def commit_eq)
  next
    case False
    with Inr pr assms(2) show ?thesis
      by (auto simp: finalize_merge_def finalize_merge_checked_def Let_def check_gate_def commit_eq merged_pull_def)
  qed
qed

theorem ready_merge_succeeds_witness:
  "\<exists>result c' pr. finalize_merge ex_env ''acme'' ''core'' 1 ''m1'' None
      \<lparr>mb_base_ref = ''main'', mb_base_sha = ''b1''\<rparr> ex_core = (Inr result, c') \<and>
    mr_sha result = ''m1'' \<and> mr_merged result \<and>
    hm_get (st_pulls (live c')) (''acme'', ''core'', 1) = Some pr \<and>
    pr_merged pr \<and> pr_merge_commit_sha pr = Some ''m1'' \<and> gr_sha (pr_head pr) = ''h1''"
proof -
  have "evaluate_merge_readiness ex_env ex_state ''acme'' ''core'' 1 None =
      Inr (Ready ''main'' ''b1'' ''topic'' ''h1'' False)"
    by code_simp
  then have ready: "evaluate_merge_readiness ex_env (live ex_core) ''acme'' ''core'' 1 None =
      Inr (Ready ''main'' ''b1'' ''topic'' ''h1'' False)"
    by simp
  obtain r c' where run: "finalize_merge ex_env ''acme'' ''core'' 1 ''m1'' None
      \<lparr>mb_base_ref = ''main'', mb_base_sha = ''b1''\<rparr> ex_core = (r, c')" by fastforce
  from ready_merge_succeeds [OF ready run] run show ?thesis by simp
qed

section \<open>Terminal states\<close>

text \<open>
  Re-evaluation never brings a finished pull request back: whatever the gate says, a merged or
  closed pull request keeps its state and is not mergeable, and an open one only moves between
  draft, mergeable and blocked, being mergeable exactly when the gate is clear.
\<close>

theorem reevaluation_respects_terminal_states:
  "(pr_merged pr \<or> pr_state pr \<in> {PrMerged, PrClosed} \<longrightarrow>
      pr_state (reevaluated ev s pr) = pr_state pr \<and> \<not> pr_mergeable (reevaluated ev s pr)) \<and>
   (\<not> pr_merged pr \<and> pr_state pr \<notin> {PrMerged, PrClosed} \<longrightarrow>
      pr_state (reevaluated ev s pr) =
        (if pr_draft pr then PrDraft
         else if ev_mergeable (evaluate_locked ev s pr None) then PrMergeable else PrBlockedByChecks) \<and>
      (pr_mergeable (reevaluated ev s pr) \<longleftrightarrow> ev_mergeable (evaluate_locked ev s pr None)))"
  by (auto simp: reevaluated_def apply_evaluation_def)

theorem reevaluation_respects_terminal_states_witness:
  "pr_state (reevaluated ex_env ex_state (ex_pull\<lparr>pr_state := PrClosed\<rparr>)) = PrClosed \<and>
   pr_state (reevaluated ex_env ex_state ex_pull) \<in> {PrMergeable, PrBlockedByChecks}"
  using reevaluation_respects_terminal_states [of "ex_pull\<lparr>pr_state := PrClosed\<rparr>" ex_env ex_state]
    reevaluation_respects_terminal_states [of ex_pull ex_env ex_state]
  by (simp add: ex_pull_sel)

text \<open>
  The exception is an edit: \<^verbatim>\<open>update_pull_request\<close> writes whatever state the request names, also
  on a merged pull request, so that a row can be merged and open at once, and can be marked merged
  without any merge.
\<close>

theorem edit_overrides_merge_state:
  assumes "hm_get (st_pulls (live c)) (owner, repo, number) = Some pr"
    and "ensure_repository_writable (live c) owner repo = Inr ()" and "\<not> write_fails ev 0 c"
    and "pr_merged pr \<or> new_state = PrMerged"
    and "request = \<lparr>upr_title = None, upr_body = None, upr_state = Some new_state, upr_draft = None,
                   upr_commits = None, upr_changed_files = None\<rparr>"
  shows "\<exists>q c'. update_pull_request ev owner repo number request c = (Inr q, c') \<and>
    hm_get (st_pulls (live c')) (owner, repo, number) = Some q \<and>
    pr_state q = new_state \<and> pr_merged q = pr_merged pr"
  using assms
  by (auto simp: update_pull_request_def Let_def ok_or_def commit_eq edited_pull_def reevaluated_def
      apply_evaluation_def)

theorem edit_overrides_merge_state_witness:
  "\<exists>q c'. update_pull_request ex_env ''acme'' ''core'' 1
       \<lparr>upr_title = None, upr_body = None, upr_state = Some PrMerged, upr_draft = None,
        upr_commits = None, upr_changed_files = None\<rparr> ex_core = (Inr q, c') \<and>
     pr_state q = PrMerged \<and> \<not> pr_merged q"
  using edit_overrides_merge_state [of ex_core "''acme''" "''core''" 1 ex_pull ex_env PrMerged, OF _ _ _ _ refl]
  by (auto simp: ex_pull_sel)

end
