(* ===== verification/Review_Safety.thy ===== *)
theory Review_Safety
  imports Merge_Safety
begin

text \<open>
  What submitting and dismissing reviews guarantees: who may approve, who may take back another
  reviewer's verdict, and that a review is only ever added.
\<close>

section \<open>The state after a review\<close>

lemma with_review_reviews:
  "st_reviews (with_review ev owner repo number author inputs review s) =
     hm_append (owner, repo, number) [review] (st_reviews s)"
  by (simp add: with_review_def Let_def split: option.split)

lemma audit_cases:
  obtains (ok) i c' where "append_audit_as ev n actor action subject phase detail c = (Inr i, c')"
    and "live c' = live c"
  | (failed) e where "fst (append_audit_as ev n actor action subject phase detail c) = Inl e"
  using append_audit_live [of ev n actor action subject phase detail c]
  by (cases "append_audit_as ev n actor action subject phase detail c";
      cases "fst (append_audit_as ev n actor action subject phase detail c)") auto

lemma storage_audit_None:
  "append_audit_as ev n actor action subject phase detail c = (r, c') \<Longrightarrow>
     storage c' = None \<longleftrightarrow> storage c = None"
  by (metis append_audit_storage_None snd_conv)

text \<open>The writes of a recorded review: receipt, row, receipt.\<close>

lemma recorded_tail:
  assumes "try_op (if authority \<noteq> None
               then append_audit_as ev n actor action subject ''requested'' detail c else (Inr 0, c))
             (\<lambda>_ c. try_op (commit ev k (F (live c)) review c)
               (\<lambda>_ c. if authority \<noteq> None
                     then (Inr review, snd (append_audit_as ev m actor action subject ''completed'' detail c))
                     else (Inr review, c))) = (Inr r, c')"
  shows "r = review \<and> live c' = F (live c)"
    and "authority \<noteq> None \<Longrightarrow> storage c = Some d \<Longrightarrow> \<exists>d' requested. storage c' = Some d' \<and>
           requested \<in> set (du_audit d') \<and> ae_actor requested = actor \<and> ae_action requested = action \<and>
           ae_subject requested = subject \<and> ae_phase requested = ''requested'' \<and> ae_detail requested = detail"
proof -
  show "r = review \<and> live c' = F (live c)"
  proof (cases authority)
    case None
    with assms show ?thesis by (auto simp: try_op_Inr)
  next
    case (Some a)
    with assms obtain i c1 where
      "append_audit_as ev n actor action subject ''requested'' detail c = (Inr i, c1)"
      and "r = review" and "c' = snd (append_audit_as ev m actor action subject ''completed'' detail
        (persisted (F (live c1)) c1))"
      by (auto simp: try_op_Inr)
    with append_audit_live [of ev n actor action subject "''requested''" detail c]
    show ?thesis by simp
  qed
  assume "authority \<noteq> None" and d: "storage c = Some d"
  with assms obtain i c1 where first: "append_audit_as ev n actor action subject ''requested'' detail c = (Inr i, c1)"
      and c': "c' = snd (append_audit_as ev m actor action subject ''completed'' detail
         (persisted (F (live c1)) c1))"
    by (auto simp: try_op_Inr)
  from append_audit_trail [OF first d] obtain requested where
    "storage c1 = Some (d\<lparr>du_audit := du_audit d @ [requested]\<rparr>)" and req: "ae_actor requested = actor"
      "ae_action requested = action" "ae_subject requested = subject" "ae_phase requested = ''requested''"
      "ae_detail requested = detail"
    by blast
  then have "storage (persisted (F (live c1)) c1) =
      Some (d\<lparr>du_audit := du_audit d @ [requested], du_disk := F (live c1)\<rparr>)"
    by (simp add: persisted_def)
  from append_audit_grows [OF this, of ev m actor action subject "''completed''" detail] req
  show "\<exists>d' requested. storage c' = Some d' \<and> requested \<in> set (du_audit d') \<and>
      ae_actor requested = actor \<and> ae_action requested = action \<and> ae_subject requested = subject \<and>
      ae_phase requested = ''requested'' \<and> ae_detail requested = detail"
    by (auto simp: c')
qed

text \<open>The review a successful call stores, and the checks it passed.\<close>

definition stored_review where
  "stored_review ev owner repo number author request dismissed pr authority =
     \<lparr>rv_id = env_fresh ev 0, rv_owner = owner, rv_repo = repo, rv_pull_number = number,
      rv_author = author, rv_state = crr_event request, rv_body = crr_body request,
      rv_head_sha = Some (gr_sha (pr_head pr)), rv_head_patch_ids = pr_head_patch_ids pr,
      rv_dismissed_review_id = dismissed, rv_dismissal_authority = authority,
      rv_submitted_at = env_clk ev 3\<rparr>"

lemma record_review_Inr:
  assumes "record_review ev owner repo number author request dismissed c = (Inr review, c')"
  obtains pr authority where
    "hm_get (st_pulls (live c)) (owner, repo, number) = Some pr"
    and "ensure_repository_writable (live c) owner repo = Inr ()"
    and "check_reviewer owner repo number author request
           (hm_list (st_reviews (live c)) (owner, repo, number)) pr = Inr ()"
    and "(case dismissed of None \<Rightarrow> Inr None
          | Some target_id \<Rightarrow>
              check_dismissal (live c) (storage c \<noteq> None) owner repo number author
                (hm_list (st_reviews (live c)) (owner, repo, number)) pr target_id) = Inr authority"
    and "review = stored_review ev owner repo number author request dismissed pr authority"
    and "live c' = with_review ev owner repo number author (crr_comments request) review (live c)"
    and "\<And>d. authority \<noteq> None \<Longrightarrow> storage c = Some d \<Longrightarrow>
           \<exists>d' requested. storage c' = Some d' \<and> requested \<in> set (du_audit d') \<and>
             ae_actor requested = author \<and> ae_action requested = DISMISSAL_AUDIT_ACTION \<and>
             ae_subject requested = record_name owner repo number \<and> ae_phase requested = ''requested''"
  using assms
  unfolding record_review_def Let_def try_pure_Inr ok_or_Inr stored_review_def [symmetric]
  by - (elim exE conjE, frule recorded_tail(1), rule that, assumption, simp, simp, assumption, simp, simp,
      drule (2) recorded_tail(2), blast)

section \<open>Submitting\<close>

lemma with_review_pull:
  assumes "hm_get (st_pulls s) (owner, repo, number) = Some pr"
  shows "st_pulls (with_review ev owner repo number author inputs review s) =
    hm_put (owner, repo, number)
      (reevaluated ev (with_review ev owner repo number author inputs review s) pr) (st_pulls s)"
proof -
  let ?s = "with_review ev owner repo number author inputs review s"
  let ?t = "s\<lparr>st_reviews := hm_append (owner, repo, number) [review] (st_reviews s)\<rparr>"
  have reads: "reevaluated ev ?s pr = reevaluated ev ?t pr"
    by (rule reevaluated_reads) (simp_all add: with_review_def Let_def assms split: option.split)
  have "st_pulls ?s = hm_put (owner, repo, number) (reevaluated ev ?t pr) (st_pulls s)"
    by (simp add: with_review_def Let_def assms) (auto intro!: arg_cong [where f = "\<lambda>p. hm_put _ p _"] reevaluated_reads)
  with reads show ?thesis by simp
qed

lemma check_reviewer_Inr:
  "check_reviewer owner repo number author request reviews pr = Inr u \<longleftrightarrow>
     (crr_event request = Approved \<longrightarrow>
        \<not> eq_ignore_ascii_case (pr_author pr) author \<and>
        (\<forall>r \<in> set reviews. eq_ignore_ascii_case (rv_author r) author \<longrightarrow> \<not> is_cross_author_dismissal reviews r)) \<and>
     (\<forall>head. crr_expected_head_sha request = Some head \<longrightarrow> head = gr_sha (pr_head pr))"
  by (auto simp: check_reviewer_def list_ex_iff split: option.split)

text \<open>
  An approval is never the author's own, nor that of an administrator who dismissed another
  reviewer's verdict. A submitted review is appended to the pull request's reviews, speaks for the
  head of that moment (the expected one, if the reviewer named it), carries no dismissal authority,
  and the pull request is judged again with it in place.
\<close>

theorem submitted_review_is_independent:
  assumes "create_review ev owner repo number author request c = (Inr review, c')"
    and "hm_get (st_pulls (live c)) (owner, repo, number) = Some pr"
  shows "(rv_state review = Approved \<longrightarrow> \<not> eq_ignore_ascii_case (pr_author pr) author \<and>
      (\<forall>r \<in> set (hm_list (st_reviews (live c)) (owner, repo, number)).
         eq_ignore_ascii_case (rv_author r) author \<longrightarrow>
         \<not> is_cross_author_dismissal (hm_list (st_reviews (live c)) (owner, repo, number)) r)) \<and>
    rv_state review = crr_event request \<and> rv_state review \<noteq> Dismissed \<and> rv_author review = author \<and>
    rv_head_sha review = Some (gr_sha (pr_head pr)) \<and>
    (\<forall>head. crr_expected_head_sha request = Some head \<longrightarrow> head = gr_sha (pr_head pr)) \<and>
    rv_dismissal_authority review = None \<and>
    st_reviews (live c') = hm_append (owner, repo, number) [review] (st_reviews (live c)) \<and>
    st_pulls (live c') = hm_put (owner, repo, number) (reevaluated ev (live c') pr) (st_pulls (live c))"
proof -
  from assms(1) have "crr_event request \<noteq> Dismissed"
    and "record_review ev owner repo number author request None c = (Inr review, c')"
    by (auto simp: create_review_def split: if_splits)
  from this(2) show ?thesis
    by (rule record_review_Inr)
      (use assms(2) \<open>crr_event request \<noteq> Dismissed\<close> in
        \<open>auto simp: stored_review_def check_reviewer_Inr with_review_reviews with_review_pull [OF assms(2)]\<close>)
qed

definition ex_approval :: create_review_request where
  "ex_approval = \<lparr>crr_body = None, crr_event = Approved, crr_comments = [], crr_expected_head_sha = Some ''h1''\<rparr>"

lemma ex_approval_runs:
  "(case fst (create_review ex_env ''acme'' ''core'' 1 ''bob'' ex_approval ex_core) of
     Inl e \<Rightarrow> None | Inr r \<Rightarrow> Some (rv_state r)) = Some Approved"
  by code_simp

theorem submitted_review_is_independent_witness:
  "\<exists>review c'. create_review ex_env ''acme'' ''core'' 1 ''bob'' ex_approval ex_core = (Inr review, c') \<and>
     rv_state review = Approved \<and> \<not> eq_ignore_ascii_case ''ann'' ''bob'' \<and>
     st_reviews (live c') = hm_append (''acme'', ''core'', 1) [review] []"
proof -
  let ?run = "create_review ex_env ''acme'' ''core'' 1 ''bob'' ex_approval ex_core"
  obtain review c' where run: "?run = (Inr review, c')"
    using ex_approval_runs by (cases ?run; cases "fst ?run") simp_all
  from submitted_review_is_independent [OF run, of ex_pull] run show ?thesis
    by (simp add: ex_pull_sel ex_approval_def)
qed

section \<open>Dismissing\<close>

lemma authorize_dismissal_Inr:
  "authorize_cross_author_dismissal s pr reviews actor = Inr u \<longleftrightarrow>
     user_can_admin_repo s actor (pr_owner pr) (pr_repo pr) \<and>
     (\<exists>rule. hm_get (st_branch_protections s) (pr_owner pr, pr_repo pr, gr_ref_name (pr_base pr)) = Some rule \<and>
        bp_allow_admin_review_dismissal rule \<and> \<not> bp_enforce_admins rule) \<and>
     \<not> eq_ignore_ascii_case (pr_author pr) actor \<and>
     (\<forall>r \<in> set reviews. rv_state r = Approved \<longrightarrow> eq_ignore_ascii_case (rv_author r) actor \<longrightarrow>
        rv_id r \<in> set (withdrawn_verdicts reviews))"
proof -
  have admin: "parse_team_bot_login actor = None \<and>
      (case repo_access_for s actor (pr_owner pr) (pr_repo pr) of
         None \<Rightarrow> False | Some level \<Rightarrow> allows_admin level) \<longleftrightarrow>
      user_can_admin_repo s actor (pr_owner pr) (pr_repo pr)"
    using team_bot_no_admin [of actor s "pr_owner pr" "pr_repo pr"]
    by (cases "parse_team_bot_login actor") (simp_all add: user_can_admin_repo_def)
  show ?thesis
    unfolding authorize_cross_author_dismissal_def admin list_ex_iff
    by (cases "hm_get (st_branch_protections s) (pr_owner pr, pr_repo pr, gr_ref_name (pr_base pr))") auto
qed

lemma check_dismissal_Inr:
  assumes "check_dismissal s stored owner repo number author reviews pr target_id = Inr authority"
  obtains target where "find (\<lambda>r. rv_id r = target_id) reviews = Some target"
    and "rv_state target = Approved \<or> rv_state target = ChangesRequested"
    and "\<exists>r. rv_id r = target_id \<and>
           (r \<in> set (effective_reviews_for_head reviews (gr_sha (pr_head pr))) \<or>
            r \<in> set (effective_reviews_for_pull_request_with reviews pr UnchangedDiff))"
    and "rv_author target \<noteq> author \<Longrightarrow> stored \<and> authority = Some RepositoryAdmin \<and>
           authorize_cross_author_dismissal s pr reviews author = Inr ()"
    and "rv_author target = author \<Longrightarrow> authority = None"
proof (cases "find (\<lambda>r. rv_id r = target_id) reviews")
  case None
  with assms show thesis by (simp add: check_dismissal_def)
next
  case (Some target)
  with assms show thesis
    by (intro that [OF Some])
      (auto simp: check_dismissal_def try_res_Inr list_ex_iff split: if_splits)
qed

lemma dismiss_review_Inr:
  assumes "dismiss_review ev owner repo number actor request c = (Inr review, c')"
  shows "record_review ev owner repo number actor
      \<lparr>crr_body = Some (drr_reason request), crr_event = Dismissed, crr_comments = [],
       crr_expected_head_sha = Some (drr_expected_head_sha request)\<rparr> (Some (drr_review_id request)) c =
    (Inr review, c')"
  using assms
  by (auto simp: dismiss_review_def Let_def split: if_splits prod.splits sum.splits option.splits)

text \<open>
  C14. Only an administrator whom the branch rule lets do so takes back another reviewer's verdict:
  not under a rule that binds administrators, not the author of the pull request, and not while an
  approval of their own stands. The dismissed verdict was an explicit one for the current head (or
  an unchanged diff), the dismissal says on whose authority it was made, and its \<^verbatim>\<open>requested\<close>
  receipt is on disk.
\<close>

theorem dismissal_needs_authority:
  assumes "dismiss_review ev owner repo number actor request c = (Inr review, c')"
    and "hm_get (st_pulls (live c)) (owner, repo, number) = Some pr"
    and "find (\<lambda>r. rv_id r = drr_review_id request) (hm_list (st_reviews (live c)) (owner, repo, number)) =
      Some target"
    and "rv_author target \<noteq> actor"
  shows "user_can_admin_repo (live c) actor (pr_owner pr) (pr_repo pr) \<and>
    (\<exists>rule. hm_get (st_branch_protections (live c))
        (pr_owner pr, pr_repo pr, gr_ref_name (pr_base pr)) = Some rule \<and>
      bp_allow_admin_review_dismissal rule \<and> \<not> bp_enforce_admins rule) \<and>
    \<not> eq_ignore_ascii_case (pr_author pr) actor \<and>
    (\<forall>r \<in> set (hm_list (st_reviews (live c)) (owner, repo, number)).
       rv_state r = Approved \<and> eq_ignore_ascii_case (rv_author r) actor \<longrightarrow>
       rv_id r \<in> set (withdrawn_verdicts (hm_list (st_reviews (live c)) (owner, repo, number)))) \<and>
    (rv_state target = Approved \<or> rv_state target = ChangesRequested) \<and>
    drr_expected_head_sha request = gr_sha (pr_head pr) \<and>
    rv_state review = Dismissed \<and> rv_dismissed_review_id review = Some (drr_review_id request) \<and>
    rv_dismissal_authority review = Some RepositoryAdmin \<and>
    st_reviews (live c') = hm_append (owner, repo, number) [review] (st_reviews (live c)) \<and>
    (\<exists>d' requested. storage c' = Some d' \<and> requested \<in> set (du_audit d') \<and>
       ae_actor requested = actor \<and> ae_action requested = DISMISSAL_AUDIT_ACTION \<and>
       ae_subject requested = record_name owner repo number \<and> ae_phase requested = ''requested'')"
  using dismiss_review_Inr [OF assms(1)]
proof (rule record_review_Inr)
  fix pr' authority
  let ?reviews = "hm_list (st_reviews (live c)) (owner, repo, number)"
  assume pr': "hm_get (st_pulls (live c)) (owner, repo, number) = Some pr'"
    and reviewer: "check_reviewer owner repo number actor
      \<lparr>crr_body = Some (drr_reason request), crr_event = Dismissed, crr_comments = [],
       crr_expected_head_sha = Some (drr_expected_head_sha request)\<rparr> ?reviews pr' = Inr ()"
    and dismissal: "(case Some (drr_review_id request) of None \<Rightarrow> Inr None
      | Some target_id \<Rightarrow> check_dismissal (live c) (storage c \<noteq> None) owner repo number actor ?reviews pr'
          target_id) = Inr authority"
    and review: "review = stored_review ev owner repo number actor
      \<lparr>crr_body = Some (drr_reason request), crr_event = Dismissed, crr_comments = [],
       crr_expected_head_sha = Some (drr_expected_head_sha request)\<rparr> (Some (drr_review_id request)) pr' authority"
    and live: "live c' = with_review ev owner repo number actor
      (crr_comments \<lparr>crr_body = Some (drr_reason request), crr_event = Dismissed, crr_comments = [],
       crr_expected_head_sha = Some (drr_expected_head_sha request)\<rparr>) review (live c)"
    and receipt: "\<And>d. authority \<noteq> None \<Longrightarrow> storage c = Some d \<Longrightarrow>
      \<exists>d' requested. storage c' = Some d' \<and> requested \<in> set (du_audit d') \<and>
        ae_actor requested = actor \<and> ae_action requested = DISMISSAL_AUDIT_ACTION \<and>
        ae_subject requested = record_name owner repo number \<and> ae_phase requested = ''requested''"
  have "pr' = pr" using pr' assms(2) by simp
  with dismissal have "check_dismissal (live c) (storage c \<noteq> None) owner repo number actor ?reviews pr
      (drr_review_id request) = Inr authority" by simp
  then obtain authorized: "authorize_cross_author_dismissal (live c) pr ?reviews actor = Inr ()"
    and "authority = Some RepositoryAdmin" and stored: "storage c \<noteq> None"
    and "rv_state target = Approved \<or> rv_state target = ChangesRequested"
    using assms(3,4) by (elim check_dismissal_Inr) auto
  with authorized [unfolded authorize_dismissal_Inr] reviewer receipt \<open>pr' = pr\<close> show ?thesis
    by (auto simp: review stored_review_def live with_review_reviews check_reviewer_Inr)
qed

text \<open>\<^verbatim>\<open>bob\<close> asked for changes; the rule lets the administrator \<^verbatim>\<open>root\<close> dismiss that.\<close>

definition ex_sha :: string where
  "ex_sha = replicate 40 (CHR ''a'')"

definition ex_held_pull :: pull_request where
  "ex_held_pull = ex_pull\<lparr>pr_head := ex_ref ''topic'' ex_sha\<rparr>"

definition ex_held_state :: state where
  "ex_held_state = ex_state
     \<lparr>st_pulls := [((''acme'', ''core'', 1), ex_held_pull)],
      st_reviews := [((''acme'', ''core'', 1),
        [(ex_review 5 ''bob'' ChangesRequested)\<lparr>rv_head_sha := Some ex_sha\<rparr>])],
      st_branch_protections :=
        [((''acme'', ''core'', ''main''), ex_rule\<lparr>bp_allow_admin_review_dismissal := True\<rparr>)]\<rparr>"

definition ex_held_core :: core where
  "ex_held_core = \<lparr>live = ex_held_state, storage = Some \<lparr>du_disk = ex_held_state, du_audit = []\<rparr>\<rparr>"

definition ex_dismissal :: dismiss_review_request where
  "ex_dismissal = \<lparr>drr_review_id = 5, drr_expected_head_sha = ex_sha, drr_reason = ''stale''\<rparr>"

lemma ex_dismissal_runs:
  "(case fst (dismiss_review ex_env ''acme'' ''core'' 1 ''root'' ex_dismissal ex_held_core) of
     Inl e \<Rightarrow> None | Inr r \<Rightarrow> Some (rv_state r)) = Some Dismissed"
  by code_simp

theorem dismissal_needs_authority_witness:
  "\<exists>review c'. dismiss_review ex_env ''acme'' ''core'' 1 ''root'' ex_dismissal ex_held_core = (Inr review, c') \<and>
     user_can_admin_repo ex_held_state ''root'' ''acme'' ''core'' \<and>
     rv_dismissal_authority review = Some RepositoryAdmin"
proof -
  let ?run = "dismiss_review ex_env ''acme'' ''core'' 1 ''root'' ex_dismissal ex_held_core"
  obtain review c' where run: "?run = (Inr review, c')"
    using ex_dismissal_runs by (cases ?run; cases "fst ?run") simp_all
  have pull: "hm_get (st_pulls (live ex_held_core)) (''acme'', ''core'', 1) = Some ex_held_pull"
    by (simp add: ex_held_core_def ex_held_state_def)
  have target: "find (\<lambda>r. rv_id r = drr_review_id ex_dismissal)
      (hm_list (st_reviews (live ex_held_core)) (''acme'', ''core'', 1)) =
      Some ((ex_review 5 ''bob'' ChangesRequested)\<lparr>rv_head_sha := Some ex_sha\<rparr>)"
    by (simp add: ex_held_core_def ex_held_state_def ex_dismissal_def ex_review_def hm_list_def)
  have other: "rv_author ((ex_review 5 ''bob'' ChangesRequested)\<lparr>rv_head_sha := Some ex_sha\<rparr>) \<noteq> ''root''"
    by (simp add: ex_review_def)
  have "pr_owner ex_held_pull = ''acme''" "pr_repo ex_held_pull = ''core''" "live ex_held_core = ex_held_state"
    by (simp_all add: ex_held_pull_def ex_pull_sel ex_held_core_def)
  with dismissal_needs_authority [OF run pull target other] run show ?thesis by auto
qed

end
