(* ===== verification/Repository_Safety.thy ===== *)
theory Repository_Safety
  imports Writes Sample_Store
begin

text \<open>
  What holds of a repository as a whole: an archived one takes no writes, a protected branch is
  only rewritten or deleted as its rule says, push times never go back, and the heads of the bare
  repositories follow the stored default branches.
\<close>

section \<open>Archived repositories\<close>

text \<open>The call fails, and memory and the state on disk are what they were.\<close>

definition refused :: "core \<Rightarrow> 'a outcome \<Rightarrow> bool" where
  "refused c m =
     ((\<exists>e. fst m = Inl e) \<and> live (snd m) = live c \<and>
      map_option du_disk (storage (snd m)) = map_option du_disk (storage c))"

lemma refused_pure: "(\<And>x. r = Inr x \<Longrightarrow> refused c (k x)) \<Longrightarrow> refused c (try_pure r c k)"
  by (cases r) (simp_all add: refused_def)

lemma refused_Inl [simp]: "refused c (Inl e, c)"
  by (simp add: refused_def)

lemma archived_not_writable:
  assumes "resolve_repository s owner repo = Some r" and "rp_archived r"
  shows "ensure_repository_writable s owner repo \<noteq> Inr ()"
  using assms by (simp add: ensure_repository_writable_Inr)

lemma audit_disk [simp]:
  "map_option du_disk (storage (snd (append_audit_as ev n actor action subject phase detail c))) =
     map_option du_disk (storage c)"
  by (auto simp: append_audit_as_def Let_def split: option.split)

lemma refused_audited:
  "refused c (Inl e, snd (append_audit_as ev n actor action subject phase detail c))"
  by (simp add: refused_def)

lemma record_review_archived:
  assumes "ensure_repository_writable (live c) owner repo \<noteq> Inr ()"
  shows "\<exists>e. record_review ev owner repo number author request dismissed c = (Inl e, c)"
  using assms
  by (cases "ensure_repository_writable (live c) owner repo") (simp_all add: record_review_def)

lemma finalize_archived:
  assumes "ensure_repository_writable (live c) owner repo \<noteq> Inr ()"
  shows "\<exists>e. finalize_merge_checked ev owner repo number binding permit c = (Inl e, c)"
  using assms
  by (cases "ensure_repository_writable (live c) owner repo")
    (simp_all add: finalize_merge_checked_def Let_def)

lemma archived_refused:
  assumes "ensure_repository_writable (live c) owner repo \<noteq> Inr ()"
  shows "refused c (record_review ev owner repo number author request dismissed c)"
    and "refused c (finalize_merge_checked ev owner repo number binding permit c)"
  using record_review_archived [OF assms] finalize_archived [OF assms] refused_Inl by metis+

lemma finalize_override_archived:
  assumes "ensure_repository_writable (live c) (mp_owner permit) (mp_repo permit) \<noteq> Inr ()"
  shows "refused c (finalize_merge_with_override ev permit merge_sha c)"
proof -
  let ?binding = "\<lparr>fb_merge_sha = merge_sha, fb_requested_sha = Some (mp_head_sha permit),
     fb_base = \<lparr>mb_base_ref = bp_branch (mp_protection permit), mb_base_sha = mp_base_sha permit\<rparr>\<rparr>"
  obtain e where e: "finalize_merge_checked ev (mp_owner permit) (mp_repo permit) (mp_number permit) ?binding
      (Some permit) c = (Inl e, c)"
    using finalize_archived [OF assms] by blast
  let ?audited = "append_audit_as ev 6 (mp_actor permit) ''pull.merge_override'' (permit_subject permit) ''failed''
      (JObj (permit_audit_fields permit None @ [(''error'', JError e)])) c"
  have "refused c (Inl e, snd ?audited)" by (rule refused_audited)
  moreover have "map_option du_disk (storage (snd (append_audit_as ev n actor action subject phase detail (snd ?audited)))) =
      map_option du_disk (storage c)" for n actor action subject phase detail
    by simp
  ultimately show ?thesis
    by (cases ?audited; cases "fst ?audited") (auto simp: finalize_merge_with_override_def e refused_def)
qed

text \<open>
  C16. An archived repository takes no pull request, review, status, check or merge from outside: posting a
  status or a check run, opening, editing or retargeting a pull request, recording its base, reviewing,
  dismissing, preparing an override, and merging with or without one all fail on it, and neither the live
  state nor the one on disk changes; a force push and the deletion of a ref are refused.
  What the code does not close: the refresh of pull request heads after a push
  (\<^verbatim>\<open>refresh_pull_request_heads_*\<close>) only asks that the repository exists, and so still succeeds; nor do the operations on
  issues, labels, webhooks, grants and settings ask whether the repository is archived.
\<close>

theorem archived_repository_is_read_only:
  assumes "resolve_repository (live c) owner repo = Some r" and "rp_archived r"
  shows "refused c (create_commit_status ev owner repo sha creator status_request c) \<and>
    refused c (create_check_run ev owner repo run_request c) \<and>
    refused c (create_pull_request ev owner repo author pull_request c) \<and>
    refused c (update_pull_request ev owner repo number edit c) \<and>
    refused c (retarget_pull_request ev branches g actor owner repo number target c) \<and>
    refused c (record_pull_request_base ev actor owner repo number head_sha base_sha c) \<and>
    refused c (create_review ev owner repo number author review c) \<and>
    refused c (dismiss_review ev owner repo number actor dismissal c) \<and>
    refused c (prepare_merge_override ev owner repo number override c) \<and>
    refused c (finalize_merge ev owner repo number merge_sha requested base c) \<and>
    refused c (merge_pull_request ev owner repo number merge c) \<and>
    (mp_owner permit = owner \<longrightarrow> mp_repo permit = repo \<longrightarrow>
       refused c (finalize_merge_with_override ev permit merge_sha c)) \<and>
    force_push (live c) owner repo branch admin \<noteq> Inr () \<and>
    delete_ref (live c) owner repo branch admin \<noteq> Inr ()"
proof -
  have closed: "ensure_repository_writable (live c) owner repo \<noteq> Inr ()"
    by (rule archived_not_writable [OF assms])
  then obtain e where e: "ensure_repository_writable (live c) owner repo = Inl e"
    by (cases "ensure_repository_writable (live c) owner repo") simp_all
  obtain e' where "record_review ev owner repo number actor
      \<lparr>crr_body = Some (drr_reason dismissal), crr_event = Dismissed, crr_comments = [],
       crr_expected_head_sha = Some (drr_expected_head_sha dismissal)\<rparr>
      (Some (drr_review_id dismissal)) c = (Inl e', c)"
    using record_review_archived [OF closed] by blast
  then have dismiss: "refused c (dismiss_review ev owner repo number actor dismissal c)"
    by (simp add: dismiss_review_def Let_def refused_audited split: option.split)
  show ?thesis
    using archived_refused [OF closed] dismiss finalize_override_archived [of c permit ev merge_sha]
    by (auto simp: force_push_def delete_ref_def forge_evaluate_ref_operation_def create_commit_status_def create_check_run_def create_pull_request_def e Let_def
        update_pull_request_def retarget_pull_request_def record_pull_request_base_def create_review_def
        prepare_merge_override_def prepare_merge_override_inner_def finalize_merge_def
        merge_pull_request_def refused_audited intro!: refused_pure)
qed

definition ex_archived :: core where
  "ex_archived = ex_core\<lparr>live := ex_state\<lparr>st_repos :=
     [((''acme'', ''core''), ex_repository\<lparr>rp_archived := True\<rparr>)]\<rparr>\<rparr>"

theorem archived_repository_is_read_only_witness:
  "refused ex_archived (create_review ex_env ''acme'' ''core'' 1 ''bob''
     \<lparr>crr_body = None, crr_event = Approved, crr_comments = [], crr_expected_head_sha = None\<rparr> ex_archived) \<and>
   refused ex_archived (finalize_merge ex_env ''acme'' ''core'' 1 ''m1'' None
     \<lparr>mb_base_ref = ''main'', mb_base_sha = ''b1''\<rparr> ex_archived)"
proof -
  have found: "resolve_repository (live ex_archived) ''acme'' ''core'' =
      Some (ex_repository\<lparr>rp_archived := True\<rparr>)"
    by (simp add: ex_archived_def resolve_repository_def)
  have archived: "rp_archived (ex_repository\<lparr>rp_archived := True\<rparr>)" by simp
  show ?thesis
    by (rule conjI; rule archived_repository_is_read_only [OF found archived, THEN conjunct2, THEN conjunct2, THEN conjunct2, THEN conjunct2, THEN conjunct2, THEN conjunct2, THEN conjunct1]
        archived_repository_is_read_only [OF found archived, THEN conjunct2, THEN conjunct2, THEN conjunct2, THEN conjunct2, THEN conjunct2, THEN conjunct2, THEN conjunct2, THEN conjunct2, THEN conjunct2, THEN conjunct1])
qed

section \<open>Ref operations\<close>

text \<open>
  A force push or a deletion of a branch goes through exactly when the repository takes writes
  and no rule is stored for the branch under the slug given, or the rule allows the operation, or
  an administrator asks and the rule does not bind administrators.
\<close>

theorem ref_operations_follow_rule:
  "(force_push s owner repo branch admin = Inr () \<longleftrightarrow>
      ensure_repository_writable s owner repo = Inr () \<and>
      (case hm_get (st_branch_protections s) (owner, repo, branch) of
         None \<Rightarrow> True
       | Some rule \<Rightarrow> bp_allow_force_pushes rule \<or> (admin \<and> \<not> bp_enforce_admins rule))) \<and>
   (delete_ref s owner repo branch admin = Inr () \<longleftrightarrow>
      ensure_repository_writable s owner repo = Inr () \<and>
      (case hm_get (st_branch_protections s) (owner, repo, branch) of
         None \<Rightarrow> True
       | Some rule \<Rightarrow> bp_allow_deletions rule \<or> (admin \<and> \<not> bp_enforce_admins rule)))"
  by (cases "ensure_repository_writable s owner repo")
    (auto simp: force_push_def delete_ref_def forge_evaluate_ref_operation_def evaluate_ref_operation_def
      refused_ref_def Let_def split: option.split)

text \<open>
  The slug given matters: the write check follows an old-name alias to the repository, the
  lookup of the rule does not, so that under an old name a force push of a branch whose rule
  forbids it succeeds.
\<close>

theorem old_name_escapes_rule:
  assumes "hm_get (st_repos s) (old_owner, old_name) = None"
    and "hm_get (st_repository_aliases s) (old_owner, old_name) = Some al"
    and "hm_get (st_repos s) (al_canonical_owner al, al_canonical_name al) = Some r"
    and "rp_id r = al_repository_id al" and "\<not> rp_archived r"
    and "hm_get (st_branch_protections s) (al_canonical_owner al, al_canonical_name al, branch) = Some rule"
    and "\<not> bp_allow_force_pushes rule"
    and "hm_get (st_branch_protections s) (old_owner, old_name, branch) = None"
  shows "force_push s old_owner old_name branch False = Inr () \<and>
    (\<exists>blockers. force_push s (al_canonical_owner al) (al_canonical_name al) branch False =
       Inl (BranchProtection (RefusalRefBlockers blockers)) \<and> blockers \<noteq> [])"
proof -
  have "ensure_repository_writable s old_owner old_name = Inr ()"
    using assms by (simp add: ensure_repository_writable_Inr resolve_repository_def)
  moreover have "ensure_repository_writable s (al_canonical_owner al) (al_canonical_name al) = Inr ()"
    using assms by (simp add: ensure_repository_writable_Inr resolve_repository_def)
  ultimately show ?thesis
    using assms by (simp add: force_push_def forge_evaluate_ref_operation_def evaluate_ref_operation_def
        refused_ref_def Let_def)
qed

definition ex_renamed :: state where
  "ex_renamed = ex_state
     \<lparr>st_repository_aliases :=
        [((''acme'', ''old''), \<lparr>al_repository_id = 7, al_owner = ''acme'', al_name = ''old'',
           al_canonical_owner = ''acme'', al_canonical_name = ''core'', al_created_at = 0,
           al_transaction_id = 1, al_origin = OriginRename\<rparr>)],
      st_branch_protections := [((''acme'', ''core'', ''main''), ex_rule)]\<rparr>"

theorem old_name_escapes_rule_witness:
  "force_push ex_renamed ''acme'' ''old'' ''main'' False = Inr () \<and>
   force_push ex_renamed ''acme'' ''core'' ''main'' False \<noteq> Inr ()"
  using old_name_escapes_rule [of ex_renamed "''acme''" "''old''" _ ex_repository "''main''" ex_rule]
  by (auto simp: ex_renamed_def ex_repository_sel) (auto simp: ex_rule_def)

section \<open>Push times\<close>

text \<open>
  A push time never goes back: recording a push that is not newer than the stored one changes
  nothing, recording a newer one stores it, and no other field of the repository changes.
\<close>

theorem push_time_never_goes_back:
  assumes "record_repository_push ev owner repo at c = (Inr stored, c')"
    and "hm_get (st_repos (live c)) (owner, repo) = Some before"
  shows "hm_get (st_repos (live c')) (owner, repo) = Some stored \<and>
    stored = before\<lparr>rp_pushed_at := Some (case rp_pushed_at before of
        None \<Rightarrow> at | Some earlier \<Rightarrow> max earlier at)\<rparr>"
proof -
  have "rp_pushed_at before = Some t \<Longrightarrow> before\<lparr>rp_pushed_at := Some t\<rparr> = before" for t
    by (metis repository.surjective repository.update_convs(13))
  then show ?thesis
    using assms
    by (auto simp: record_repository_push_def Let_def try_pure_Inr canonical_repository_def ok_or_Inr put_repo_def
        max_def split: if_splits option.splits)
qed

theorem push_time_never_goes_back_witness:
  "\<exists>stored c'. record_repository_push ex_env ''acme'' ''core'' 5 ex_core = (Inr stored, c') \<and>
     rp_pushed_at stored = Some 5"
proof -
  obtain stored c' where run: "record_repository_push ex_env ''acme'' ''core'' 5 ex_core = (Inr stored, c')"
    by (simp add: record_repository_push_def Let_def canonical_repository_def ok_or_def ex_repository_sel)
  from push_time_never_goes_back [OF run] run show ?thesis by (simp add: ex_repository_sel)
qed

section \<open>Default branches and \<^verbatim>\<open>HEAD\<close>\<close>

text \<open>
  What the core relies on of the git storage behind \<^verbatim>\<open>RepoBranches\<close> (\<^verbatim>\<open>git symbolic-ref HEAD\<close>):
  pointing \<^verbatim>\<open>HEAD\<close> of one repository at a branch is seen by the next read, moves no other
  repository's \<^verbatim>\<open>HEAD\<close>, and creates or deletes no branch.
\<close>

definition git_heads :: "'g repo_branches \<Rightarrow> bool" where
  "git_heads branches =
     (\<forall>owner repo branch g g'. point_head_at branches owner repo branch g = (Inr (), g') \<longrightarrow>
        head_branch branches g' owner repo = Inr (Some branch) \<and>
        (\<forall>o' r'. (o', r') \<noteq> (owner, repo) \<longrightarrow> head_branch branches g' o' r' = head_branch branches g o' r') \<and>
        branch_exists branches g' = branch_exists branches g)"

lemma git_headsD:
  assumes "git_heads branches" and "point_head_at branches owner repo branch g = (Inr (), g')"
  shows "head_branch branches g' owner repo = Inr (Some branch)"
    and "(o', r') \<noteq> (owner, repo) \<Longrightarrow> head_branch branches g' o' r' = head_branch branches g o' r'"
    and "branch_exists branches g' = branch_exists branches g"
  using assms unfolding git_heads_def by blast+

text \<open>
  Changing the default branch keeps git and the store together: it succeeds only for a branch
  that exists, and then the stored default, \<^verbatim>\<open>HEAD\<close> of the bare repository and the protection of the
  new default branch all agree.
\<close>

theorem default_branch_change_agrees:
  assumes "git_heads branches"
    and "set_repository_default_branch ev branches owner repo branch (c, g) = (Inr r, c', g')"
    and "hm_get (st_repos (live c)) (owner, repo) = Some before"
    and "rp_owner before = owner" and "rp_name before = repo"
  shows "rp_default_branch r = branch \<and> branch_exists branches g owner repo branch = Inr True \<and>
    head_branch branches g' owner repo = Inr (Some branch) \<and>
    hm_get (st_repos (live c')) (owner, repo) = Some r \<and>
    (rp_default_branch before \<noteq> branch \<longrightarrow> row_protected (st_branch_protections (live c')) r)"
proof -
  obtain pointed g1 where repointed: "repoint_head branches owner repo branch g = (pointed, g1)"
    by (cases "repoint_head branches owner repo branch g")
  from assms(2-5) repointed have exists: "branch_exists branches g owner repo branch = Inr True"
    and pointed: "pointed = Inr ()" and g': "g' = g1"
    and rest: "if rp_default_branch before = branch then r = before \<and> c' = c
      else write_default_branch ev owner repo branch c = (Inr r, c')"
    by (auto simp: set_repository_default_branch_def Let_def try_pure_Inr canonical_repository_def
        ok_or_Inr split: if_splits prod.splits)
  have head: "head_branch branches g1 owner repo = Inr (Some branch)"
    using repointed pointed git_headsD(1) [OF assms(1)]
    by (auto simp: repoint_head_def try_pure_Inr split: if_splits)
  show ?thesis
  proof (cases "rp_default_branch before = branch")
    case True
    with rest head exists assms(3) show ?thesis by (simp add: g')
  next
    case False
    with rest assms(3) have "r = before\<lparr>rp_default_branch := branch, rp_updated_at := env_clk ev 0\<rparr>"
      and "live c' = snd (ensure_default_branch_protection ev 1 r (put_repo owner repo r (live c)))"
      by (auto simp: write_default_branch_def Let_def try_pure_Inr canonical_repository_def ok_or_Inr)
    with head exists show ?thesis
      by (simp add: g' ensure_default_protects) (simp add: put_repo_def)
  qed
qed

text \<open>A concrete storage: \<^verbatim>\<open>HEAD\<close> by repository, with the branches \<^verbatim>\<open>main\<close> and \<^verbatim>\<open>dev\<close> everywhere.\<close>

definition ex_git :: "(slug \<Rightarrow> string option) repo_branches" where
  "ex_git =
     \<lparr>branch_exists = (\<lambda>_ _ _ branch. Inr (branch = ''main'' \<or> branch = ''dev'')),
      head_branch = (\<lambda>heads owner repo. Inr (heads (owner, repo))),
      point_head_at = (\<lambda>owner repo branch heads. (Inr (), heads((owner, repo) := Some branch)))\<rparr>"

lemma ex_git_heads: "git_heads ex_git"
  by (auto simp: git_heads_def ex_git_def)

lemma ex_default_runs:
  "(case fst (set_repository_default_branch ex_env ex_git ''acme'' ''core'' ''dev'' (ex_core, \<lambda>_. Some ''main'')) of
     Inl e \<Rightarrow> None | Inr r \<Rightarrow> Some (rp_default_branch r)) = Some ''dev''"
  by code_simp

theorem default_branch_change_agrees_witness:
  "\<exists>r c' g'. set_repository_default_branch ex_env ex_git ''acme'' ''core'' ''dev'' (ex_core, \<lambda>_. Some ''main'') =
       (Inr r, c', g') \<and> head_branch ex_git g' ''acme'' ''core'' = Inr (Some ''dev'') \<and>
     row_protected (st_branch_protections (live c')) r"
proof -
  let ?run = "set_repository_default_branch ex_env ex_git ''acme'' ''core'' ''dev'' (ex_core, \<lambda>_. Some ''main'')"
  obtain r c' g' where run: "?run = (Inr r, c', g')"
    using ex_default_runs by (cases ?run; cases "fst ?run") auto
  have row: "hm_get (st_repos (live ex_core)) (''acme'', ''core'') = Some ex_repository" by simp
  from default_branch_change_agrees [OF ex_git_heads run row] run show ?thesis
    by (simp add: ex_repository_sel)
qed

abbreviation repo_slug :: "repository \<Rightarrow> slug" where
  "repo_slug r \<equiv> (rp_owner r, rp_name r)"

abbreviation has_default where
  "has_default branches g r \<equiv>
     branch_exists branches g (rp_owner r) (rp_name r) (rp_default_branch r) = Inr True"

text \<open>What one report says of a repository.\<close>

definition reported :: "'g repo_branches \<Rightarrow> 'g \<Rightarrow> repository \<Rightarrow> head_reconcile_report \<Rightarrow> bool" where
  "reported branches g r report =
     (report = head_report r DefaultBranchMissing \<and>
        branch_exists branches g (rp_owner r) (rp_name r) (rp_default_branch r) = Inr False \<or>
      (\<exists>previous. report = head_report r (Repaired previous) \<and> previous \<noteq> Some (rp_default_branch r) \<and>
        has_default branches g r))"

text \<open>One turn of the loop: the storage and the reports it leaves.\<close>

lemma reconcile_turn:
  assumes "git_heads branches"
    and "reconcile_loop branches (r # repos) reports g = (Inr out, g')"
  obtains new g1 where "reconcile_loop branches repos (reports @ new) g1 = (Inr out, g')"
    and "branch_exists branches g1 = branch_exists branches g"
    and "\<And>o' r'. (o', r') \<noteq> repo_slug r \<Longrightarrow> head_branch branches g1 o' r' = head_branch branches g o' r'"
    and "has_default branches g r \<Longrightarrow>
           head_branch branches g1 (rp_owner r) (rp_name r) = Inr (Some (rp_default_branch r))"
    and "\<forall>report \<in> set new. reported branches g r report"
proof -
  from assms(2) obtain exists where exists:
      "branch_exists branches g (rp_owner r) (rp_name r) (rp_default_branch r) = Inr exists"
    by (auto simp: Let_def try_pure_Inr)
  show thesis
  proof (cases exists)
    case False
    with assms(2) exists
    have "reconcile_loop branches repos (reports @ [head_report r DefaultBranchMissing]) g = (Inr out, g')"
      by (simp add: Let_def)
    then show thesis
      by (rule that) (use False exists in \<open>simp_all add: reported_def\<close>)
  next
    case True
    with assms(2) exists obtain previous where head: "head_branch branches g (rp_owner r) (rp_name r) = Inr previous"
      by (auto simp: Let_def try_pure_Inr)
    show thesis
    proof (cases "previous = Some (rp_default_branch r)")
      case True
      with assms(2) exists \<open>exists\<close> head have "reconcile_loop branches repos (reports @ []) g = (Inr out, g')"
        by (simp add: Let_def)
      then show thesis by (rule that) (use True head in simp_all)
    next
      case False
      with assms(2) exists \<open>exists\<close> head obtain g1 where
        point: "point_head_at branches (rp_owner r) (rp_name r) (rp_default_branch r) g = (Inr (), g1)"
        and rest: "reconcile_loop branches repos (reports @ [head_report r (Repaired previous)]) g1 = (Inr out, g')"
        by (auto simp: Let_def try_op_Inr)
      from rest show thesis
        by (rule that)
          (use git_headsD [OF assms(1) point] False exists \<open>exists\<close> in \<open>auto simp: reported_def\<close>)
    qed
  qed
qed

lemma reconcile_loop_heads:
  assumes "git_heads branches" and "distinct (map repo_slug repos)"
    and "reconcile_loop branches repos reports g = (Inr out, g')"
  shows "branch_exists branches g' = branch_exists branches g \<and>
    (\<forall>o' r'. (o', r') \<notin> set (map repo_slug repos) \<longrightarrow>
       head_branch branches g' o' r' = head_branch branches g o' r') \<and>
    (\<forall>r \<in> set repos. has_default branches g r \<longrightarrow>
       head_branch branches g' (rp_owner r) (rp_name r) = Inr (Some (rp_default_branch r))) \<and>
    (\<exists>new. out = reports @ new \<and> (\<forall>report \<in> set new. \<exists>r \<in> set repos. reported branches g r report))"
  using assms(2,3)
proof (induction repos arbitrary: reports g)
  case Nil
  then show ?case by simp
next
  case (Cons r repos)
  from reconcile_turn [OF assms(1) Cons.prems(2)] obtain new g1 where
    rest: "reconcile_loop branches repos (reports @ new) g1 = (Inr out, g')"
    and exists: "branch_exists branches g1 = branch_exists branches g"
    and others: "\<And>o' r'. (o', r') \<noteq> repo_slug r \<Longrightarrow> head_branch branches g1 o' r' = head_branch branches g o' r'"
    and head: "has_default branches g r \<Longrightarrow>
      head_branch branches g1 (rp_owner r) (rp_name r) = Inr (Some (rp_default_branch r))"
    and new: "\<forall>report \<in> set new. reported branches g r report" by metis
  have "distinct (map repo_slug repos)" and fresh: "repo_slug r \<notin> set (map repo_slug repos)"
    using Cons.prems(1) by simp_all
  note IH = Cons.IH [OF this(1) rest]
  have same: "reported branches g1 = reported branches g"
    by (intro ext) (simp add: reported_def exists)
  from IH obtain new' where "out = (reports @ new) @ new'"
    and new': "\<forall>report \<in> set new'. \<exists>r \<in> set repos. reported branches g r report"
    unfolding same by blast
  then have "\<exists>new. out = reports @ new \<and> (\<forall>report \<in> set new. \<exists>r \<in> set (r # repos). reported branches g r report)"
    using new by (intro exI [of _ "new @ new'"]) auto
  moreover have "head_branch branches g' (rp_owner r) (rp_name r) = Inr (Some (rp_default_branch r))"
    if "has_default branches g r"
    using IH head [OF that] fresh by simp
  ultimately show ?case
    using IH others exists by auto
qed

text \<open>
  The startup reconciliation makes git follow the store: once it returns, \<^verbatim>\<open>HEAD\<close> of every
  repository whose stored default branch exists names that branch, and every report is of a
  repository whose default branch is missing or whose \<^verbatim>\<open>HEAD\<close> was elsewhere and has been repaired.
\<close>

theorem reconciled_heads_follow_store:
  assumes "git_heads branches"
    and "reconcile_repository_heads branches s g = (Inr reports, g')"
    and "distinct (map (\<lambda>r. (rp_owner r, rp_name r)) (hm_values (st_repos s)))"
  shows "(\<forall>r \<in> set (hm_values (st_repos s)).
      branch_exists branches g (rp_owner r) (rp_name r) (rp_default_branch r) = Inr True \<longrightarrow>
      head_branch branches g' (rp_owner r) (rp_name r) = Inr (Some (rp_default_branch r))) \<and>
    (\<forall>report \<in> set reports. \<exists>r \<in> set (hm_values (st_repos s)). reported branches g r report)"
proof -
  have listed: "set (list_repositories s None) = set (hm_values (st_repos s))"
    by (simp add: list_repositories_def)
  have "distinct (map repo_slug (list_repositories s None))"
    using assms(3) by (simp add: list_repositories_def distinct_map)
  from reconcile_loop_heads [OF assms(1) this assms(2) [unfolded reconcile_repository_heads_def]]
  show ?thesis by (auto simp: listed)
qed

theorem reconciled_heads_follow_store_witness:
  "\<exists>reports g'. reconcile_repository_heads ex_git ex_state (\<lambda>_. Some ''old'') = (Inr reports, g') \<and>
     head_branch ex_git g' ''acme'' ''core'' = Inr (Some ''main'')"
proof -
  have one: "list_repositories ex_state None = [ex_repository]"
    by (simp add: list_repositories_def hm_values_def)
  obtain reports g' where run: "reconcile_repository_heads ex_git ex_state (\<lambda>_. Some ''old'') = (Inr reports, g')"
    by (simp add: reconcile_repository_heads_def one Let_def ex_git_def ex_repository_sel)
  have "distinct (map repo_slug (hm_values (st_repos ex_state)))" by (simp add: hm_values_def)
  from reconciled_heads_follow_store [OF ex_git_heads run this] run show ?thesis
    by (simp add: hm_values_def ex_repository_sel) (simp add: ex_git_def)
qed

end
