(* ===== verification/Bot_Sessions.thy ===== *)
theory Bot_Sessions
  imports Bot_Tokens "HOL-Library.Countable"
begin

text \<open>
  Chains of bot credentials: no more than five refresh tokens of a bot are live after one is issued and
  the new one is among them, presenting a spent token ends the whole family, an enrollment key that was
  handed out opens a session, and a rotation whose answer was lost gives the same successor when it is
  asked for again.
\<close>

section \<open>The cap on live refresh tokens\<close>

definition mine_live :: "uuid \<Rightarrow> bot_refresh_record \<Rightarrow> bool" where
  "mine_live bot_id row = (br_bot_id row = bot_id \<and> br_used_at row = None)"

lemma live_refresh_eq:
  "live_refresh bot_id m = map (\<lambda>(h, row). (h, br_expires_at row)) [(h, row) \<leftarrow> m. mine_live bot_id row]"
  by (simp add: live_refresh_def mine_live_def)

lemma fold_drop_get:
  "hm_get (fold (\<lambda>(h, _). hm_del h) hs m) k = (if k \<in> fst ` set hs then None else hm_get m k)"
proof (induction hs arbitrary: m)
  case (Cons p hs)
  then show ?case by (cases p) auto
qed simp

lemma fold_del_eq: "fold (\<lambda>(h, _). hm_del h) hs m = [p \<leftarrow> m. fst p \<notin> fst ` set hs]"
proof (induction hs arbitrary: m)
  case (Cons p hs)
  then show ?case
    by (cases p) (auto simp: AList.delete_eq intro!: filter_cong)
qed simp

lemma live_refresh_filter:
  "live_refresh bot_id [p \<leftarrow> m. P (fst p)] = [p \<leftarrow> live_refresh bot_id m. P (fst p)]"
  by (induction m) (auto simp: live_refresh_def)

lemma live_refresh_keys: "hm_ok m \<Longrightarrow> distinct (map fst (live_refresh bot_id m))"
proof -
  have "map fst (live_refresh bot_id m) = map fst [p \<leftarrow> m. mine_live bot_id (snd p)]"
    by (induction m) (auto simp: live_refresh_def mine_live_def)
  then show "hm_ok m \<Longrightarrow> ?thesis" by (simp add: hm_ok_def distinct_map_filter)
qed

text \<open>Of distinct keyed entries, dropping the keys of the first \<open>n\<close> leaves the others.\<close>

lemma filter_out_prefix:
  "distinct (map fst xs) \<Longrightarrow> [p \<leftarrow> xs. fst p \<notin> fst ` set (take n xs)] = drop n xs"
proof (induction xs arbitrary: n)
  case (Cons x xs)
  show ?case
  proof (cases n)
    case (Suc m)
    have "[p \<leftarrow> xs. fst p \<notin> fst ` set (take n (x # xs))] = [p \<leftarrow> xs. fst p \<notin> fst ` set (take m xs)]"
      using Cons.prems Suc by (intro filter_cong) (auto simp: rev_image_eqI)
    with Cons Suc show ?thesis by simp
  qed (simp add: filter_True)
qed simp

lemma capped_count:
  assumes "hm_ok m" and "hs = take (length (live_refresh bot_id m) - k) (sort_key snd (live_refresh bot_id m))"
    and "k \<le> length (live_refresh bot_id m)"
  shows "length (live_refresh bot_id (fold (\<lambda>(h, _). hm_del h) hs m)) = k"
proof -
  let ?live = "live_refresh bot_id m"
  let ?sorted = "sort_key snd ?live"
  have "distinct (map fst ?sorted)"
    using live_refresh_keys [OF assms(1), of bot_id] by (simp add: distinct_map)
  then have "[p \<leftarrow> ?sorted. fst p \<notin> fst ` set hs] = drop (length ?live - k) ?sorted"
    unfolding assms(2) by (rule filter_out_prefix)
  then have "length [p \<leftarrow> ?sorted. fst p \<notin> fst ` set hs] = k" using assms(3) by simp
  moreover have "length [p \<leftarrow> ?sorted. fst p \<notin> fst ` set hs] = length [p \<leftarrow> ?live. fst p \<notin> fst ` set hs]"
    by (simp add: filter_sort)
  ultimately show ?thesis
    using live_refresh_filter [of bot_id "\<lambda>k. k \<notin> fst ` set hs" m] by (simp add: fold_del_eq)
qed

text \<open>The newest entry of a stable sort is the last, if it came last.\<close>

lemma insort_key_snoc: "f y \<le> f x \<Longrightarrow> insort_key f y (ys @ [x]) = insort_key f y ys @ [x]"
  by (induction ys) auto

lemma sort_key_last: "\<forall>y \<in> set xs. f y \<le> f x \<Longrightarrow> sort_key f (xs @ [x]) = sort_key f xs @ [x]"
  by (induction xs) (simp_all add: insort_key_snoc)

text \<open>What \<^verbatim>\<open>cap_live_refresh\<close> leaves.\<close>

lemma cap_only_drops:
  assumes "hm_ok (st_bot_refresh s)" and "hm_get (st_bot_refresh (cap_live_refresh bot_id now s)) h = Some row"
  shows "hm_get (st_bot_refresh s) h = Some row"
proof -
  let ?m = "hm_retain (\<lambda>_ token. br_bot_id token \<noteq> bot_id \<or> now < br_expires_at token) (st_bot_refresh s)"
  have "hm_get ?m h = Some row"
    using assms(2) by (auto simp: cap_live_refresh_def Let_def fold_drop_get split: if_splits)
  with assms(1) show ?thesis by (auto simp: hm_get_retain split: option.splits if_splits)
qed

lemma cap_bound:
  assumes "hm_ok (st_bot_refresh s)"
  shows "length (live_refresh bot_id (st_bot_refresh (cap_live_refresh bot_id now s))) \<le> MAX_LIVE_REFRESH"
proof -
  let ?m = "hm_retain (\<lambda>_ token. br_bot_id token \<noteq> bot_id \<or> now < br_expires_at token) (st_bot_refresh s)"
  have "hm_ok ?m" using assms by (rule hm_retain_ok)
  from capped_count [OF this refl, of MAX_LIVE_REFRESH bot_id] show ?thesis
    by (simp add: cap_live_refresh_def Let_def)
qed

text \<open>A token put at the end whose expiry is the latest survives the cap.\<close>

lemma cap_keeps_newest:
  assumes ok: "hm_ok m" and fresh: "\<not> hm_has m h" and bot: "br_bot_id row = bot_id" "br_used_at row = None"
    and ahead: "now < br_expires_at row"
    and latest: "\<forall>(k, other) \<in> set m. mine_live bot_id other \<longrightarrow> br_expires_at other \<le> br_expires_at row"
  shows "hm_get (st_bot_refresh (cap_live_refresh bot_id now (s\<lparr>st_bot_refresh := hm_put h row m\<rparr>))) h = Some row"
proof -
  let ?keep = "\<lambda>_ token. br_bot_id token \<noteq> bot_id \<or> now < br_expires_at token"
  have put: "hm_put h row m = m @ [(h, row)]"
    using fresh by (induction m) (auto simp: hm_has_def)
  let ?m = "hm_retain ?keep m"
  have kept: "hm_retain ?keep (hm_put h row m) = ?m @ [(h, row)]"
    using ahead by (simp add: put hm_retain_def)
  have live: "live_refresh bot_id (?m @ [(h, row)]) = live_refresh bot_id ?m @ [(h, br_expires_at row)]"
    using bot by (simp add: live_refresh_def)
  have "\<forall>y \<in> set (live_refresh bot_id ?m). snd y \<le> snd (h, br_expires_at row)"
    using latest by (auto simp: live_refresh_def hm_retain_def mine_live_def)
  then have sorted: "sort_key snd (live_refresh bot_id (?m @ [(h, row)])) =
      sort_key snd (live_refresh bot_id ?m) @ [(h, br_expires_at row)]"
    unfolding live by (rule sort_key_last)
  have new: "h \<notin> fst ` set (live_refresh bot_id ?m)"
    using fresh by (auto simp: live_refresh_def hm_retain_def hm_has_iff rev_image_eqI)
  have "set (take (length (live_refresh bot_id (?m @ [(h, row)])) - MAX_LIVE_REFRESH)
        (sort_key snd (live_refresh bot_id (?m @ [(h, row)])))) \<subseteq> set (live_refresh bot_id ?m)"
    if "MAX_LIVE_REFRESH < length (live_refresh bot_id (?m @ [(h, row)]))"
  proof -
    have "length (live_refresh bot_id (?m @ [(h, row)])) - MAX_LIVE_REFRESH \<le> length (live_refresh bot_id ?m)"
      unfolding live by (simp add: MAX_LIVE_REFRESH_def)
    then show ?thesis unfolding sorted by (auto dest: in_set_takeD)
  qed
  with new have gone: "h \<notin> fst ` set (take (length (live_refresh bot_id (?m @ [(h, row)])) - MAX_LIVE_REFRESH)
        (sort_key snd (live_refresh bot_id (?m @ [(h, row)]))))"
    if "MAX_LIVE_REFRESH < length (live_refresh bot_id (?m @ [(h, row)]))"
    using that by blast
  have "hm_get ?m h = None"
    using fresh ok by (simp add: hm_get_retain hm_has_def)
  then have there: "hm_get (?m @ [(h, row)]) h = Some row" by (simp add: map_add_def)
  have "hm_get (st_bot_refresh (cap_live_refresh bot_id now (s\<lparr>st_bot_refresh := hm_put h row m\<rparr>))) h =
      (if length (live_refresh bot_id (?m @ [(h, row)])) \<le> MAX_LIVE_REFRESH \<or>
          h \<notin> fst ` set (take (length (live_refresh bot_id (?m @ [(h, row)])) - MAX_LIVE_REFRESH)
            (sort_key snd (live_refresh bot_id (?m @ [(h, row)]))))
       then hm_get (?m @ [(h, row)]) h else None)"
    unfolding kept [symmetric] by (simp add: cap_live_refresh_def Let_def fold_drop_get)
  with gone there show ?thesis by (simp only: not_le [symmetric] split: if_split) blast
qed

section \<open>A rotation hands over\<close>

definition issued_refresh :: "env \<Rightarrow> bot_record \<Rightarrow> bot_key_record \<Rightarrow> time \<Rightarrow> string \<Rightarrow> bot_refresh_record" where
  "issued_refresh ev b key now token =
     \<lparr>br_token_hash = token_hash ev token, br_bot_id = bo_id b, br_key_id = bk_key_id key,
      br_generation = bo_credential_generation b, br_expires_at = now + duration_hours 12, br_used_at = None\<rparr>"

lemma issued_refresh_sel [simp]:
  "br_bot_id (issued_refresh ev b key now token) = bo_id b"
  "br_key_id (issued_refresh ev b key now token) = bk_key_id key"
  "br_generation (issued_refresh ev b key now token) = bo_credential_generation b"
  "br_expires_at (issued_refresh ev b key now token) = now + duration_hours 12"
  "br_used_at (issued_refresh ev b key now token) = None"
  by (simp_all add: issued_refresh_def)

lemma issue_refresh_Inr:
  assumes "issue_refresh ev n b key now s = Inr (session, s')"
  shows "be_generation session = bo_credential_generation b \<and> be_bot session = bot_summary_from b \<and>
    be_key_id session = bk_key_id key \<and> be_refresh_expires_at session = now + duration_hours 12 \<and>
    s' = cap_live_refresh (bo_id b) now (s\<lparr>st_bot_refresh :=
      hm_put (token_hash ev (be_refresh_token session)) (issued_refresh ev b key now (be_refresh_token session))
        (st_bot_refresh s)\<rparr>)"
  using assms by (auto simp: issue_refresh_def ok_paths Let_def issued_refresh_def REFRESH_TTL_HOURS_def)

lemma cap_bots [simp]: "st_bots (cap_live_refresh bot_id now s) = st_bots s"
  by (simp add: cap_live_refresh_def Let_def)

lemma cap_ok: "hm_ok (st_bot_refresh s) \<Longrightarrow> hm_ok (st_bot_refresh (cap_live_refresh bot_id now s))"
  by (simp add: cap_live_refresh_def Let_def hm_retain_ok fold_del_eq)
    (simp add: hm_ok_def hm_retain_def distinct_map_filter)

lemma stamp_auth_refresh [simp]: "st_bot_refresh (stamp_auth bot_id now s) = st_bot_refresh s"
  by (simp add: stamp_auth_def split: option.split)

lemma refresh_stands_Some:
  "refresh_stands s row now = Some (b, key) \<longleftrightarrow>
     hm_get (st_bots s) (br_bot_id row) = Some b \<and> hm_get (st_bot_keys s) (br_key_id row) = Some key \<and>
     bot_account_matches s b \<and> bo_credential_generation b = br_generation row \<and> key_is_live key now"
  by (auto simp: refresh_stands_def split: option.splits if_splits)

lemma rotate_Inr:
  assumes "rotate_bot_refresh_token ev token c = (Inr session, c')"
  obtains row b key where
    "hm_get (st_bot_refresh (live c)) (token_hash ev token) = Some row" "br_used_at row = None"
    "env_clk ev 0 < br_expires_at row" "refresh_stands (live c) row (env_clk ev 0) = Some (b, key)"
    "be_generation session = bo_credential_generation b" "be_bot session = bot_summary_from b"
    "live c' = stamp_auth (bo_id b) (env_clk ev 0) (cap_live_refresh (bo_id b) (env_clk ev 0)
       ((live c)\<lparr>st_bot_refresh := hm_put (token_hash ev (be_refresh_token session))
          (issued_refresh ev b key (env_clk ev 0) (be_refresh_token session))
          (hm_put (token_hash ev token) (row\<lparr>br_used_at := Some (env_clk ev 0)\<rparr>) (st_bot_refresh (live c)))\<rparr>))"
proof -
  have reuse: "reuse_detected ev row now c \<noteq> (Inr session, c')" for row now
    by (auto simp: reuse_detected_def Let_def ok_paths split: option.splits)
  from assms show thesis
    by (auto simp: rotate_bot_refresh_token_def Let_def reuse mark_used_def not_le split: option.splits if_splits sum.splits
        dest!: issue_refresh_Inr intro!: that)
qed

lemma hm_put_entries: "p \<in> set (hm_put k v m) \<Longrightarrow> p = (k, v) \<or> p \<in> set m"
  by (induction m) (auto split: if_splits)

text \<open>What the rotation leaves under the presented hash: the row, marked used.\<close>

lemma fold_del_keeps: "h \<notin> fst ` set hs \<Longrightarrow> hm_get (fold (\<lambda>(h, _). hm_del h) hs m) h = hm_get m h"
  by (simp add: fold_drop_get)

lemma cap_keeps_used:
  assumes "hm_ok (st_bot_refresh s)" and "hm_get (st_bot_refresh s) h = Some row"
    and "br_used_at row \<noteq> None" and "now < br_expires_at row"
  shows "hm_get (st_bot_refresh (cap_live_refresh bot_id now s)) h = Some row"
proof -
  let ?m = "hm_retain (\<lambda>_ token. br_bot_id token \<noteq> bot_id \<or> now < br_expires_at token) (st_bot_refresh s)"
  have ok: "hm_ok ?m" using assms(1) by (rule hm_retain_ok)
  have kept: "hm_get ?m h = Some row" using assms(2,4) by (simp add: hm_get_kept)
  have "h \<notin> fst ` set (live_refresh bot_id ?m)"
  proof
    assume "h \<in> fst ` set (live_refresh bot_id ?m)"
    then obtain other where other: "(h, other) \<in> set ?m" "br_used_at other = None"
      by (auto simp: live_refresh_def)
    with ok kept assms(3) show False by (metis hm_ok_def map_of_is_SomeI option.inject)
  qed
  then have "h \<notin> fst ` set (take n (sort_key snd (live_refresh bot_id ?m)))" for n
    by (auto dest!: in_set_takeD)
  with kept show ?thesis by (simp add: cap_live_refresh_def Let_def fold_drop_get)
qed

text \<open>Marking one row used and issuing its successor leaves both rows.\<close>

lemma handed_over:
  fixes s :: state and row :: bot_refresh_record and b :: bot_record and key :: bot_key_record
  defines "used now \<equiv> row\<lparr>br_used_at := Some now\<rparr>"
  assumes ok: "hm_ok (st_bot_refresh s)" and row: "hm_get (st_bot_refresh s) h = Some row" "now < br_expires_at row"
    and fresh: "\<not> hm_has (st_bot_refresh s) (token_hash ev token)"
    and past: "\<forall>(h, row) \<in> set (st_bot_refresh s). br_expires_at row \<le> now + duration_hours 12"
  defines "t \<equiv> cap_live_refresh (bo_id b) now (s\<lparr>st_bot_refresh := hm_put (token_hash ev token)
      (issued_refresh ev b key now token) (hm_put h (used now) (st_bot_refresh s))\<rparr>)"
  shows "hm_get (st_bot_refresh t) h = Some (used now)"
    and "hm_get (st_bot_refresh t) (token_hash ev token) = Some (issued_refresh ev b key now token)"
    and "hm_ok (st_bot_refresh t)"
proof -
  let ?h' = "token_hash ev token" and ?row' = "issued_refresh ev b key now token"
  let ?m = "hm_put h (used now) (st_bot_refresh s)"
  have ok': "hm_ok ?m" using ok by (simp add: hash.ok_put)
  have other: "?h' \<noteq> h" using fresh row(1) by (auto simp: hm_has_def)
  have fresh': "\<not> hm_has ?m ?h'" using fresh other by (simp add: hm_has_def)
  have ahead: "0 < duration_hours 12"
    by (simp add: duration_hours_def duration_minutes_def duration_seconds_def)
  have "\<forall>(k, r) \<in> set ?m. mine_live (bo_id b) r \<longrightarrow> br_expires_at r \<le> br_expires_at ?row'"
    using past by (auto simp: mine_live_def used_def dest!: hm_put_entries)
  from cap_keeps_newest [OF ok' fresh' _ _ _ this, of now s] ahead
  show "hm_get (st_bot_refresh t) ?h' = Some ?row'" by (simp add: t_def)
  show "hm_get (st_bot_refresh t) h = Some (used now)"
    using cap_keeps_used [of "s\<lparr>st_bot_refresh := hm_put ?h' ?row' ?m\<rparr>" h "used now" now "bo_id b"]
      ok' other row(2)
    by (simp add: t_def hash.ok_put used_def)
  show "hm_ok (st_bot_refresh t)" unfolding t_def by (rule cap_ok) (simp add: ok' hash.ok_put)
qed


section \<open>A spent token ends the family\<close>

lemma drop_refresh_gone: "hm_get (st_bot_refresh (drop_refresh bot_id s)) h = Some row \<Longrightarrow> br_bot_id row \<noteq> bot_id"
  by (auto simp: drop_refresh_def hm_retain_def dest: map_of_SomeD)

lemma revoke_family_sel:
  "st_bot_refresh (revoke_refresh_family bot_id now s) = st_bot_refresh (drop_refresh bot_id s)"
  "hm_get (st_bots s) bot_id = Some b \<Longrightarrow>
     hm_get (st_bots (revoke_refresh_family bot_id now s)) bot_id =
       Some (b\<lparr>bo_credential_generation := u64_saturating_succ (bo_credential_generation b), bo_updated_at := now\<rparr>)"
  by (simp_all add: revoke_refresh_family_def Let_def drop_refresh_def split: option.split)

lemma reuse_runs:
  assumes "hm_get (st_bot_refresh (live c)) (token_hash ev token) = Some row" and "br_used_at row \<noteq> None"
    and "\<not> write_fails ev 0 c"
  shows "(\<exists>actor subject. fst (rotate_bot_refresh_token ev token c) =
      (case fst (record_bot_audit ev 1 actor ''bot.refresh.reuse'' subject ''failed'' (br_bot_id row)
           (Some (br_key_id row)) None
           (persisted (revoke_refresh_family (br_bot_id row) (env_clk ev 0) (live c)) c)) of
         Inl e \<Rightarrow> Inl e | Inr _ \<Rightarrow> Inl invalid_bot)) \<and>
    live (snd (rotate_bot_refresh_token ev token c)) = revoke_refresh_family (br_bot_id row) (env_clk ev 0) (live c)"
proof -
  obtain actor subject where names: "(case hm_get (st_bots (live c)) (br_bot_id row) of
      Some b \<Rightarrow> (bo_owner b, bot_subject b) | None \<Rightarrow> (''bot'', show_uuid (br_bot_id row))) = (actor, subject)"
    by (meson surj_pair)
  have run: "rotate_bot_refresh_token ev token c =
      try_op (record_bot_audit ev 1 actor ''bot.refresh.reuse'' subject ''failed'' (br_bot_id row)
          (Some (br_key_id row)) None (persisted (revoke_refresh_family (br_bot_id row) (env_clk ev 0) (live c)) c))
        (\<lambda>_ c. (Inl invalid_bot, c))"
    using assms(1,2) unfolding rotate_bot_refresh_token_def reuse_detected_def Let_def
    by (simp add: names commit_eq assms(3))
  show ?thesis
    using bot_audit_live [of ev 1 actor "''bot.refresh.reuse''" subject "''failed''" "br_bot_id row"
        "Some (br_key_id row)" None "persisted (revoke_refresh_family (br_bot_id row) (env_clk ev 0) (live c)) c"]
    unfolding run try_op_def
    by (intro conjI exI [of _ actor] exI [of _ subject]) (auto split: prod.splits sum.splits)
qed

lemma unknown_refresh:
  "hm_get (st_bot_refresh (live c)) (token_hash ev token) = None \<Longrightarrow>
     rotate_bot_refresh_token ev token c = (Inl invalid_bot, c)"
  by (simp add: rotate_bot_refresh_token_def)

lemma stale_generation_refused:
  assumes "hm_get (st_bots (live c)) (ca_bot_id call) = Some b" and "bo_credential_generation b \<noteq> ca_generation call"
  shows "authorize_bot_call ev call reference c = (Inl (Validation INVALID), c)"
  using assms by (simp add: authorize_bot_call_def)

text \<open>What a rotation leaves behind: the presented row, spent, the bot at its generation, the successor's row.\<close>

lemma rotation_leaves:
  assumes ran: "rotate_bot_refresh_token ev token c = (Inr session, c1)"
    and ok: "hm_ok (st_bot_refresh (live c))"
    and filed: "\<forall>k b. hm_get (st_bots (live c)) k = Some b \<longrightarrow> bo_id b = k"
    and other: "token_hash ev (be_refresh_token session) \<noteq> token_hash ev token"
  obtains row b1 where
    "hm_get (st_bot_refresh (live c1)) (token_hash ev token) = Some row" "br_used_at row \<noteq> None"
    "br_bot_id row = bs_id (be_bot session)"
    "hm_get (st_bots (live c1)) (bs_id (be_bot session)) = Some b1" "bo_credential_generation b1 = be_generation session"
    "hm_ok (st_bot_refresh (live c1))"
    "\<forall>t. hm_get (st_bot_refresh (live c1)) (token_hash ev (be_refresh_token session)) = Some t \<longrightarrow>
       br_bot_id t = bs_id (be_bot session)"
proof -
  obtain row b key where row: "hm_get (st_bot_refresh (live c)) (token_hash ev token) = Some row"
      "br_used_at row = None" "env_clk ev 0 < br_expires_at row"
      "refresh_stands (live c) row (env_clk ev 0) = Some (b, key)"
    and session: "be_generation session = bo_credential_generation b" "be_bot session = bot_summary_from b"
    and after: "live c1 = stamp_auth (bo_id b) (env_clk ev 0) (cap_live_refresh (bo_id b) (env_clk ev 0)
       ((live c)\<lparr>st_bot_refresh := hm_put (token_hash ev (be_refresh_token session))
          (issued_refresh ev b key (env_clk ev 0) (be_refresh_token session))
          (hm_put (token_hash ev token) (row\<lparr>br_used_at := Some (env_clk ev 0)\<rparr>) (st_bot_refresh (live c)))\<rparr>))"
    using ran by (rule rotate_Inr)
  let ?now = "env_clk ev 0" and ?h = "token_hash ev token" and ?h' = "token_hash ev (be_refresh_token session)"
  let ?used = "row\<lparr>br_used_at := Some ?now\<rparr>"
  let ?put = "(live c)\<lparr>st_bot_refresh := hm_put ?h' (issued_refresh ev b key ?now (be_refresh_token session))
      (hm_put ?h ?used (st_bot_refresh (live c)))\<rparr>"
  have stored: "hm_get (st_bots (live c)) (br_bot_id row) = Some b" and id: "bo_id b = br_bot_id row"
    using row(4) filed by (auto simp: refresh_stands_Some)
  have ok': "hm_ok (st_bot_refresh ?put)" using ok by (simp add: hash.ok_put)
  have spent: "hm_get (st_bot_refresh (live c1)) ?h = Some ?used"
    using cap_keeps_used [OF ok', of ?h ?used ?now "bo_id b"] other row(3) by (simp add: after)
  have bots: "\<exists>b1. hm_get (st_bots (live c1)) (br_bot_id row) = Some b1 \<and>
      bo_credential_generation b1 = be_generation session"
    using stored id session by (simp add: after stamp_auth_def)
  have mine: "bs_id (be_bot session) = br_bot_id row" using id by (simp add: session bot_summary_from_def)
  have successor: "\<forall>t. hm_get (st_bot_refresh (live c1)) ?h' = Some t \<longrightarrow> br_bot_id t = br_bot_id row"
    using cap_only_drops [OF ok', of "bo_id b" ?now ?h'] id by (auto simp: after)
  show thesis
    using that [of ?used] spent bots successor cap_ok [OF ok'] by (auto simp: mine after)
qed

text \<open>
  C18. Whoever presents a refresh token a second time, thief or owner, ends the family. This is about
  \<^verbatim>\<open>rotate_bot_refresh_token\<close>, the rotation without an idempotency key, and a second presentation in the core
  the rotation left. When the write of the revocation fails, its error is returned and nothing changes.
  Otherwise the answer is the invalid credential, unless the receipt of the reuse cannot be written, when
  it is that error; and either way no refresh token of the bot is left, the successor of the first rotation
  no longer rotates, and no call under the generation of that session is authorized any more.
\<close>

theorem spent_token_ends_family:
  assumes ran: "rotate_bot_refresh_token ev token c = (Inr session, c1)"
    and ok: "hm_ok (st_bot_refresh (live c))"
    and filed: "\<forall>k b. hm_get (st_bots (live c)) k = Some b \<longrightarrow> bo_id b = k"
    and other: "token_hash ev (be_refresh_token session) \<noteq> token_hash ev token"
    and again: "rotate_bot_refresh_token ev' token c1 = (r, c2)"
    and hashes: "token_hash ev' = token_hash ev"
    and room: "be_generation session < 2 ^ 64 - 1"
  shows "if write_fails ev' 0 c1 then r = Inl (the (env_fault ev' 0)) \<and> c2 = c1
    else
     (\<exists>actor subject key_id. r =
        (case fst (record_bot_audit ev' 1 actor ''bot.refresh.reuse'' subject ''failed'' (bs_id (be_bot session))
             (Some key_id) None
             (persisted (revoke_refresh_family (bs_id (be_bot session)) (env_clk ev' 0) (live c1)) c1)) of
           Inl e \<Rightarrow> Inl e | Inr _ \<Rightarrow> Inl invalid_bot)) \<and>
     (\<forall>h row. hm_get (st_bot_refresh (live c2)) h = Some row \<longrightarrow> br_bot_id row \<noteq> bs_id (be_bot session)) \<and>
     rotate_bot_refresh_token ev' (be_refresh_token session) c2 = (Inl invalid_bot, c2) \<and>
     (\<forall>call reference ev''. ca_bot_id call = bs_id (be_bot session) \<longrightarrow>
        ca_generation call = be_generation session \<longrightarrow>
        authorize_bot_call ev'' call reference c2 = (Inl (Validation INVALID), c2))"
proof -
  obtain row b1 where spent: "hm_get (st_bot_refresh (live c1)) (token_hash ev token) = Some row"
      "br_used_at row \<noteq> None" "br_bot_id row = bs_id (be_bot session)"
    and bot: "hm_get (st_bots (live c1)) (bs_id (be_bot session)) = Some b1"
      "bo_credential_generation b1 = be_generation session"
    and ok1: "hm_ok (st_bot_refresh (live c1))"
    and successor: "\<forall>t. hm_get (st_bot_refresh (live c1)) (token_hash ev (be_refresh_token session)) = Some t \<longrightarrow>
       br_bot_id t = bs_id (be_bot session)"
    using rotation_leaves [OF ran ok filed other] by blast
  have spent': "hm_get (st_bot_refresh (live c1)) (token_hash ev' token) = Some row" using spent(1) by (simp add: hashes)
  show ?thesis
  proof (cases "write_fails ev' 0 c1")
    case True
    with spent' spent(2) again have "r = Inl (the (env_fault ev' 0)) \<and> c2 = c1"
      by (auto simp: rotate_bot_refresh_token_def reuse_detected_def Let_def commit_eq split: option.splits)
    with True show ?thesis by simp
  next
    case False
    from reuse_runs [OF spent' spent(2) this] again have ended: "\<exists>actor subject. r =
        (case fst (record_bot_audit ev' 1 actor ''bot.refresh.reuse'' subject ''failed'' (bs_id (be_bot session))
             (Some (br_key_id row)) None
             (persisted (revoke_refresh_family (bs_id (be_bot session)) (env_clk ev' 0) (live c1)) c1)) of
           Inl e \<Rightarrow> Inl e | Inr _ \<Rightarrow> Inl invalid_bot)"
      "live c2 = revoke_refresh_family (bs_id (be_bot session)) (env_clk ev' 0) (live c1)"
      by (auto simp: spent(3))
    have gone: "hm_get (st_bot_refresh (live c2)) h = Some t \<longrightarrow> br_bot_id t \<noteq> bs_id (be_bot session)" for h t
      using drop_refresh_gone by (auto simp: ended(2) revoke_family_sel)
    have "hm_get (st_bot_refresh (live c2)) (token_hash ev (be_refresh_token session)) = None"
      using ok1 successor
      by (auto simp: ended(2) revoke_family_sel drop_refresh_def hm_get_retain split: option.splits)
    then have dead: "rotate_bot_refresh_token ev' (be_refresh_token session) c2 = (Inl invalid_bot, c2)"
      by (intro unknown_refresh) (simp add: hashes)
    have "\<exists>b2. hm_get (st_bots (live c2)) (bs_id (be_bot session)) = Some b2 \<and>
        bo_credential_generation b2 \<noteq> be_generation session"
      using bot room by (simp add: ended(2) revoke_family_sel u64_saturating_succ_def)
    then have "authorize_bot_call ev'' call reference c2 = (Inl (Validation INVALID), c2)"
      if "ca_bot_id call = bs_id (be_bot session)" "ca_generation call = be_generation session" for call reference ev''
      using stale_generation_refused that by metis
    with False ended(1) gone dead show ?thesis by (simp del: split_paired_All) blast
  qed
qed

text \<open>A session of the bot, rotated, and its spent token presented again.\<close>

definition ex_refresh_row :: bot_refresh_record where
  "ex_refresh_row =
     \<lparr>br_token_hash = ''t'', br_bot_id = 7, br_key_id = ''k'', br_generation = 1, br_expires_at = 1000,
      br_used_at = None\<rparr>"

definition ex_session_core :: core where
  "ex_session_core = ex_keyed_core\<lparr>live := (live ex_keyed_core)\<lparr>st_bot_refresh := [(''t'', ex_refresh_row)]\<rparr>\<rparr>"

lemma ex_session_state [simp]:
  "st_bot_refresh (live ex_session_core) = [(''t'', ex_refresh_row)]" "storage ex_session_core = None"
  "st_bots (live ex_session_core) = [(7, ex_bot)]"
  "refresh_stands (live ex_session_core) ex_refresh_row now = Some (ex_bot, ex_bot_key)"
  by (simp_all add: ex_session_core_def ex_refresh_row_def refresh_stands_Some bot_account_matches_iff owner_stands_def)
    (simp add: ex_bot_def)

lemma ex_rotated:
  obtains session c1 where "rotate_bot_refresh_token ex_env ''t'' ex_session_core = (Inr session, c1)"
    "token_hash ex_env (be_refresh_token session) \<noteq> ''t''" "be_generation session = 1" "bs_id (be_bot session) = 7"
    "storage c1 = None"
proof -
  obtain secret where secret: "new_secret ex_env 0 = Inr secret" by (simp add: new_secret_def ex_env_def)
  have hash: "token_hash ex_env t = t" for t by (simp add: token_hash_def ex_env_def)
  have "\<exists>session c1. rotate_bot_refresh_token ex_env ''t'' ex_session_core = (Inr session, c1) \<and>
      be_refresh_token session = ''jbr_'' @ secret \<and> be_generation session = bo_credential_generation ex_bot \<and>
      be_bot session = bot_summary_from ex_bot \<and> storage c1 = None"
    by (simp add: rotate_bot_refresh_token_def hash issue_refresh_def secret Let_def commit_eq write_fails_def
        persisted_def)
      (simp add: ex_refresh_row_def ex_env_def)
  with that show thesis by (fastforce simp: hash ex_bot_def bot_summary_from_def)
qed


theorem spent_token_ends_family_witness:
  "\<exists>session c1 r c2. rotate_bot_refresh_token ex_env ''t'' ex_session_core = (Inr session, c1) \<and>
     rotate_bot_refresh_token ex_env ''t'' c1 = (r, c2) \<and>
     rotate_bot_refresh_token ex_env (be_refresh_token session) c2 = (Inl invalid_bot, c2)"
proof -
  obtain session c1 where ran: "rotate_bot_refresh_token ex_env ''t'' ex_session_core = (Inr session, c1)"
    "token_hash ex_env (be_refresh_token session) \<noteq> ''t''" "be_generation session = 1" "storage c1 = None"
    by (rule ex_rotated)
  obtain r c2 where again: "rotate_bot_refresh_token ex_env ''t'' c1 = (r, c2)" by (meson surj_pair)
  have "hm_ok (st_bot_refresh (live ex_session_core))" by (simp add: hm_ok_def)
  moreover have "\<forall>k b. hm_get (st_bots (live ex_session_core)) k = Some b \<longrightarrow> bo_id b = k" by simp
  moreover have "token_hash ex_env (be_refresh_token session) \<noteq> token_hash ex_env ''t''"
    using ran(2) by (simp add: token_hash_def ex_env_def)
  moreover have "be_generation session < 2 ^ 64 - 1" by (simp add: ran(3))
  ultimately show ?thesis
    using spent_token_ends_family [OF ran(1) _ _ _ again refl] ran(1,4) again by (fastforce simp: write_fails_def)
qed

section \<open>A lost answer is given again\<close>

lemma prune_operations_sel [simp]:
  "st_bot_refresh (prune_bot_operations now s) = st_bot_refresh s"
  "st_bot_keys (prune_bot_operations now s) = st_bot_keys s"
  "refresh_stands (prune_bot_operations now s) = refresh_stands s"
proof -
  have matches: "bot_account_matches (t\<lparr>st_bot_operations := m\<rparr>) = bot_account_matches t" for t m
    by (intro ext) (simp add: bot_account_matches_def cong: bot_owner_kind.case_cong option.case_cong)
  have "refresh_stands (t\<lparr>st_bot_operations := m\<rparr>) = refresh_stands t" for t m
    unfolding refresh_stands_def by (simp add: matches cong: option.case_cong if_cong)
  then show "refresh_stands (prune_bot_operations now s) = refresh_stands s"
    unfolding prune_bot_operations_def .
qed (simp_all add: prune_bot_operations_def)

lemma prune_keeps_rotation:
  "hm_get (st_bot_operations s) k = Some row \<Longrightarrow> bn_operation row = REFRESH_OPERATION \<Longrightarrow>
     now - duration_minutes ROTATION_GRACE_MINUTES \<le> bn_created_at row \<Longrightarrow>
     hm_get (st_bot_operations (prune_bot_operations now s)) k = Some row"
  by (simp add: prune_bot_operations_def hm_get_kept)

text \<open>What a first rotation under an idempotency key leaves.\<close>

lemma rotate_idempotent_Inr:
  assumes "rotate_bot_refresh_token_idempotent ev cu rc token request_key body_digest c = (Inr session, c1)"
    and "hm_get (st_bot_refresh (live c)) (token_hash ev token) = Some row" and "br_used_at row = None"
  obtains b key vault sealed s where
    "require_refresh_idempotency_key request_key = Inr ()" "require_digest body_digest = Inr ()"
    "env_clk ev 0 < br_expires_at row" "refresh_stands (live c) row (env_clk ev 0) = Some (b, key)"
    "be_generation session = bo_credential_generation b" "be_bot session = bot_summary_from b"
    "be_key_id session = bk_key_id key" "be_refresh_expires_at session = env_clk ev 0 + duration_hours 12"
    "s = cap_live_refresh (bo_id b) (env_clk ev 0) ((prune_bot_operations (env_clk ev 0) (live c))\<lparr>st_bot_refresh :=
       hm_put (token_hash ev (be_refresh_token session))
          (issued_refresh ev b key (env_clk ev 0) (be_refresh_token session))
          (hm_put (token_hash ev token) (row\<lparr>br_used_at := Some (env_clk ev 0)\<rparr>) (st_bot_refresh (live c)))\<rparr>)"
    "cu_vault cu = Some vault"
    "vault_seal ev (cu_cipher cu) 1 vault (refresh_replay_binding (token_hash ev token)
        (show_uuid (bo_id b)) (bo_credential_generation b))
      (rc_encode rc \<lparr>rr_bot_id = bo_id b, rr_key_id = bk_key_id key, rr_generation = bo_credential_generation b,
         rr_refresh_token = be_refresh_token session,
         rr_refresh_expires_at = env_clk ev 0 + duration_hours 12\<rparr>) = Inr sealed"
    "live c1 = stamp_auth (bo_id b) (env_clk ev 0) (s\<lparr>st_bot_operations :=
       hm_put (refresh_operation_key (br_bot_id row) (token_hash ev token) request_key)
         \<lparr>bn_bot_id = br_bot_id row, bn_operation = REFRESH_OPERATION,
          bn_request_key = refresh_request_key (token_hash ev token) request_key, bn_body_digest = body_digest,
          bn_result_json = Some (rc_sealed_text rc sealed), bn_created_at = env_clk ev 0\<rparr> (st_bot_operations s)\<rparr>)"
proof -
  let ?now = "env_clk ev 0" and ?h = "token_hash ev token"
  let ?c = "c\<lparr>live := prune_bot_operations ?now (live c)\<rparr>"
  have marked: "mark_used ?h ?now (prune_bot_operations n (live c)) =
      (prune_bot_operations n (live c))\<lparr>st_bot_refresh := hm_put ?h (row\<lparr>br_used_at := Some ?now\<rparr>)
         (st_bot_refresh (live c))\<rparr>" for n
    using assms(2) by (simp add: mark_used_def)
  obtain b key where names: "require_refresh_idempotency_key request_key = Inr ()" "require_digest body_digest = Inr ()"
    and stands: "refresh_stands (live c) row ?now = Some (b, key)"
    and fresh: "rotate_fresh ev cu rc ?h request_key body_digest ?now row b key ?c = (Inr session, c1)"
    using assms unfolding rotate_bot_refresh_token_idempotent_def Let_def
    by (auto simp: try_pure_Inr split: option.splits)
  have unspent: "?now < br_expires_at row"
    using fresh assms(3) by (auto simp: rotate_fresh_def split: if_splits)
  obtain s sealed where issued: "issue_refresh ev 0 b key ?now (mark_used ?h ?now (live ?c)) = Inr (session, s)"
    and made: "seal_refresh_replay ev cu rc 1 ?h session = Inr sealed"
    and after: "live c1 = stamp_auth (bo_id b) ?now (s\<lparr>st_bot_operations :=
        hm_put (refresh_operation_key (br_bot_id row) ?h request_key)
         \<lparr>bn_bot_id = br_bot_id row, bn_operation = REFRESH_OPERATION,
          bn_request_key = refresh_request_key ?h request_key, bn_body_digest = body_digest,
          bn_result_json = Some sealed, bn_created_at = ?now\<rparr> (st_bot_operations s)\<rparr>)"
    using fresh assms(3) unspent by (auto simp: rotate_fresh_def ok_paths Let_def)
  note parts = issue_refresh_Inr [OF issued]
  obtain vault raw where vault: "cu_vault cu = Some vault" "sealed = rc_sealed_text rc raw"
    and raw: "vault_seal ev (cu_cipher cu) 1 vault
      (refresh_replay_binding ?h (show_uuid (bs_id (be_bot session))) (be_generation session))
      (rc_encode rc \<lparr>rr_bot_id = bs_id (be_bot session), rr_key_id = be_key_id session,
         rr_generation = be_generation session, rr_refresh_token = be_refresh_token session,
         rr_refresh_expires_at = be_refresh_expires_at session\<rparr>) = Inr raw"
    using made by (auto simp: seal_refresh_replay_def the_vault_def ok_paths Let_def)
  have id: "bs_id (bot_summary_from b) = bo_id b" by (simp add: bot_summary_from_def)
  show thesis
    by (rule that [OF names unspent stands _ _ _ _ _ vault(1) _ after [unfolded vault(2)]])
      (use parts raw in \<open>simp_all add: id marked\<close>)
qed

text \<open>The JSON texts of the replay row read back what was written.\<close>

definition lawful_codec :: "replay_codec \<Rightarrow> bool" where
  "lawful_codec rc =
     ((\<forall>replay. rc_decode rc (rc_encode rc replay) = Some replay) \<and>
      (\<forall>sealed. rc_sealed_of rc (rc_sealed_text rc sealed) = Some sealed))"

lemma replay_opens:
  assumes "lawful_codec rc" and "cu_vault cu = Some vault"
    and "vault_open (cu_cipher cu) vault (refresh_replay_binding h (show_uuid (br_bot_id row)) (br_generation row)) sealed =
      Inr (rc_encode rc \<lparr>rr_bot_id = br_bot_id row, rr_key_id = br_key_id row, rr_generation = br_generation row,
        rr_refresh_token = token, rr_refresh_expires_at = expires\<rparr>)"
    and "hm_get (st_bot_refresh s) (token_hash ev token) = Some successor"
    and "br_bot_id successor = br_bot_id row" and "br_key_id successor = br_key_id row"
    and "br_generation successor = br_generation row" and "br_used_at successor = None"
    and "env_clk ev 1 < br_expires_at successor" and "bo_credential_generation b = br_generation row"
  shows "open_refresh_replay ev cu rc s row h (rc_sealed_text rc sealed) b =
    Inr (Some \<lparr>be_bot = bot_summary_from b, be_key_id = br_key_id row, be_generation = br_generation row,
      be_refresh_token = token, be_refresh_expires_at = expires\<rparr>)"
  using assms by (simp add: open_refresh_replay_def the_vault_def lawful_codec_def)

text \<open>
  A rotation whose answer was lost can be asked for again: within five minutes the same token with the
  same idempotency key and body gives the very successor of the first rotation, with its expiry, and
  issues nothing, as long as the bot's credentials still stand and the audit trail can be written; no
  family is revoked.
\<close>

theorem lost_rotation_is_answered_again:
  assumes first: "rotate_bot_refresh_token_idempotent ev cu rc token request_key body_digest c = (Inr session, c1)"
    and row: "hm_get (st_bot_refresh (live c)) (token_hash ev token) = Some row" "br_used_at row = None"
    and ok: "hm_ok (st_bot_refresh (live c))"
    and filed: "\<forall>k b. hm_get (st_bots (live c)) k = Some b \<longrightarrow> bo_id b = k"
      "\<forall>k key. hm_get (st_bot_keys (live c)) k = Some key \<longrightarrow> bk_key_id key = k"
    and fresh: "\<not> hm_has (st_bot_refresh (live c)) (token_hash ev (be_refresh_token session))"
    and past: "\<forall>(h, row) \<in> set (st_bot_refresh (live c)). br_expires_at row \<le> env_clk ev 0 + duration_hours 12"
    and laws: "lawful_cipher ev (cu_cipher cu)" "lawful_codec rc"
    and same: "token_hash ev' = token_hash ev" "cu_vault cu' = cu_vault cu" "cu_cipher cu' = cu_cipher cu"
    and grace: "env_clk ev' 0 \<le> env_clk ev 0 + duration_minutes 5" "env_clk ev' 1 < be_refresh_expires_at session"
    and standing: "refresh_stands (live c1) (row\<lparr>br_used_at := Some (env_clk ev 0)\<rparr>) (env_clk ev' 0) = Some (b1, key1)"
    and audited: "\<forall>c. \<exists>c'. record_bot_audit ev' 1 (bo_owner b1) ''bot.refresh.replay'' (bot_subject b1) ''completed''
        (bo_id b1) (Some (br_key_id row)) None c = (Inr (), c')"
  shows "\<exists>session' c2.
    rotate_bot_refresh_token_idempotent ev' cu' rc token request_key body_digest c1 = (Inr session', c2) \<and>
    be_refresh_token session' = be_refresh_token session \<and>
    be_refresh_expires_at session' = be_refresh_expires_at session \<and>
    be_generation session' = be_generation session \<and> st_bot_refresh (live c2) = st_bot_refresh (live c1)"
proof -
  let ?now = "env_clk ev 0" and ?h = "token_hash ev token" and ?row1 = "row\<lparr>br_used_at := Some (env_clk ev 0)\<rparr>"
  obtain b key vault sealed s where names: "require_refresh_idempotency_key request_key = Inr ()"
      "require_digest body_digest = Inr ()"
    and unspent: "?now < br_expires_at row" and stands: "refresh_stands (live c) row ?now = Some (b, key)"
    and session: "be_generation session = bo_credential_generation b" "be_key_id session = bk_key_id key"
      "be_refresh_expires_at session = ?now + duration_hours 12"
    and s: "s = cap_live_refresh (bo_id b) ?now ((prune_bot_operations ?now (live c))\<lparr>st_bot_refresh :=
       hm_put (token_hash ev (be_refresh_token session)) (issued_refresh ev b key ?now (be_refresh_token session))
          (hm_put ?h ?row1 (st_bot_refresh (live c)))\<rparr>)"
    and vault: "cu_vault cu = Some vault"
    and made: "vault_seal ev (cu_cipher cu) 1 vault
      (refresh_replay_binding ?h (show_uuid (bo_id b)) (bo_credential_generation b))
      (rc_encode rc \<lparr>rr_bot_id = bo_id b, rr_key_id = bk_key_id key, rr_generation = bo_credential_generation b,
         rr_refresh_token = be_refresh_token session, rr_refresh_expires_at = ?now + duration_hours 12\<rparr>) = Inr sealed"
    and after: "live c1 = stamp_auth (bo_id b) ?now (s\<lparr>st_bot_operations :=
       hm_put (refresh_operation_key (br_bot_id row) ?h request_key)
         \<lparr>bn_bot_id = br_bot_id row, bn_operation = REFRESH_OPERATION,
          bn_request_key = refresh_request_key ?h request_key, bn_body_digest = body_digest,
          bn_result_json = Some (rc_sealed_text rc sealed), bn_created_at = ?now\<rparr> (st_bot_operations s)\<rparr>)"
    using first row by (rule rotate_idempotent_Inr)
  have b: "hm_get (st_bots (live c)) (br_bot_id row) = Some b" "hm_get (st_bot_keys (live c)) (br_key_id row) = Some key"
    "bo_credential_generation b = br_generation row"
    using stands by (simp_all add: refresh_stands_Some)
  with filed have id: "bo_id b = br_bot_id row" "bk_key_id key = br_key_id row" by blast+
  let ?s = "prune_bot_operations ?now (live c)"
  have rows: "hm_get (st_bot_refresh (live c1)) ?h = Some ?row1"
    "hm_get (st_bot_refresh (live c1)) (token_hash ev (be_refresh_token session)) =
       Some (issued_refresh ev b key ?now (be_refresh_token session))"
    using handed_over [of ?s ?h row ?now ev "be_refresh_token session" b key] ok row(1) unspent fresh past
    by (simp_all add: after s)
  have operation: "hm_get (st_bot_operations (prune_bot_operations (env_clk ev' 0) (live c1)))
      (refresh_operation_key (br_bot_id row) ?h request_key) =
      Some \<lparr>bn_bot_id = br_bot_id row, bn_operation = REFRESH_OPERATION,
          bn_request_key = refresh_request_key ?h request_key, bn_body_digest = body_digest,
          bn_result_json = Some (rc_sealed_text rc sealed), bn_created_at = ?now\<rparr>"
    using grace(1) by (intro prune_keeps_rotation) (simp_all add: after stamp_auth_def ROTATION_GRACE_MINUTES_def split: option.split)
  have standing': "refresh_stands (prune_bot_operations (env_clk ev' 0) (live c1)) ?row1 (env_clk ev' 0) = Some (b1, key1)"
    using standing by simp
  have b1: "bo_credential_generation b1 = br_generation row" using standing by (simp add: refresh_stands_Some)
  have opened: "vault_open (cu_cipher cu) vault (refresh_replay_binding ?h (show_uuid (br_bot_id row)) (br_generation row)) sealed =
      Inr (rc_encode rc \<lparr>rr_bot_id = br_bot_id row, rr_key_id = br_key_id row, rr_generation = br_generation row,
         rr_refresh_token = be_refresh_token session, rr_refresh_expires_at = ?now + duration_hours 12\<rparr>)"
    using vault_open_sealed [OF laws(1) made] by (simp add: id b(3))
  have "open_refresh_replay ev' cu' rc (prune_bot_operations (env_clk ev' 0) (live c1)) ?row1 ?h
      (rc_sealed_text rc sealed) b1 =
    Inr (Some \<lparr>be_bot = bot_summary_from b1, be_key_id = br_key_id row, be_generation = br_generation row,
      be_refresh_token = be_refresh_token session, be_refresh_expires_at = ?now + duration_hours 12\<rparr>)"
    using replay_opens [OF laws(2), of cu' vault ?h ?row1 sealed "be_refresh_token session" _ _ ev' _ b1] vault opened
      rows(2) id b(3) b1 grace(2) session(3)
    by (simp add: same)
  moreover have "within_rotation_grace (env_clk ev' 0) ?now"
    using grace(1) by (simp add: within_rotation_grace_def ROTATION_GRACE_MINUTES_def)
  moreover obtain c2 where "record_bot_audit ev' 1 (bo_owner b1) ''bot.refresh.replay'' (bot_subject b1) ''completed''
      (bo_id b1) (Some (br_key_id row)) None (c1\<lparr>live := prune_bot_operations (env_clk ev' 0) (live c1)\<rparr>) = (Inr (), c2)"
    using audited by blast
  ultimately show ?thesis
    using names rows(1) operation standing' session b(3) bot_audit_Inr
    by (simp add: rotate_bot_refresh_token_idempotent_def same stored_replay_def refresh_operation_key_def Let_def)
qed

text \<open>A codec that keeps its laws, counting instead of writing JSON, and a rotation asked for twice.\<close>

definition ex_codec :: replay_codec where
  "ex_codec =
     \<lparr>rc_encode = (\<lambda>r. replicate (to_nat (rr_bot_id r, rr_key_id r, rr_generation r, rr_refresh_token r,
                              rr_refresh_expires_at r)) 1),
      rc_decode = (\<lambda>bs. case from_nat (length bs) of
         (bot_id, key_id, generation, token, expires) \<Rightarrow>
           Some \<lparr>rr_bot_id = bot_id, rr_key_id = key_id, rr_generation = generation, rr_refresh_token = token,
             rr_refresh_expires_at = expires\<rparr>),
      rc_sealed_text = (\<lambda>s. replicate (to_nat (sl_key_id s, sl_key_nonce s, sl_wrapped_key s, sl_nonce s,
                                   sl_ciphertext s)) (CHR ''x'')),
      rc_sealed_of = (\<lambda>t. case from_nat (length t) of
         (key_id, key_nonce, wrapped_key, nonce, ciphertext) \<Rightarrow>
           Some \<lparr>sl_key_id = key_id, sl_key_nonce = key_nonce, sl_wrapped_key = wrapped_key, sl_nonce = nonce,
             sl_ciphertext = ciphertext\<rparr>)\<rparr>"

lemma ex_codec_lawful: "lawful_codec ex_codec"
  by (simp add: lawful_codec_def ex_codec_def)

abbreviation ex_retry_key :: string where
  "ex_retry_key \<equiv> replicate 32 (CHR ''k'')"

lemma ex_vault_env_sel [simp]:
  "env_clk ex_vault_env n = 100 + int n" "env_fault ex_vault_env n = None"
  "env_random ex_vault_env n k = Inr (replicate k 7)" "token_hash ex_vault_env t = t"
  "env_json_text ex_vault_env j = ''{}''"
  by (simp_all add: ex_vault_env_def ex_env_def token_hash_def)

lemma ex_retry_names:
  "require_refresh_idempotency_key ex_retry_key = Inr ()" "require_digest (ex_digest (CHR ''a'')) = Inr ()"
  by code_simp+

lemma ex_first_rotation:
  obtains session c1 where
    "rotate_bot_refresh_token_idempotent ex_vault_env ex_custody ex_codec ''t'' ex_retry_key (ex_digest (CHR ''a''))
       ex_session_core = (Inr session, c1)" "be_refresh_token session \<noteq> ''t''"
proof -
  let ?live = "mark_used ''t'' 100 (prune_bot_operations 100 (live ex_session_core))"
  obtain session s where issued: "issue_refresh ex_vault_env 0 ex_bot ex_bot_key 100 ?live = Inr (session, s)"
    "be_refresh_token session \<noteq> ''t''"
    by (simp add: issue_refresh_def new_secret_def Let_def)
  have seal: "\<exists>sealed. vault_seal ex_vault_env ex_cipher (Suc 0) ex_vault binding (rc_encode ex_codec replay) = Inr sealed"
    for binding replay by (rule ex_seal) (simp add: ex_codec_def is_bytes_def)
  then obtain sealed where "seal_refresh_replay ex_vault_env ex_custody ex_codec 1 ''t'' session = Inr sealed"
    unfolding seal_refresh_replay_def by (simp add: Let_def ok_paths) blast
  moreover have "st_bot_operations (prune_bot_operations 100 (live ex_session_core)) = []"
    by (simp add: ex_session_core_def ex_keyed_core_def ex_bot_core_def ex_state_def default_state_def
        prune_bot_operations_def hm_retain_def)
  moreover have "br_used_at ex_refresh_row = None" "br_expires_at ex_refresh_row = 1000"
    by (simp_all add: ex_refresh_row_def)
  ultimately have "rotate_bot_refresh_token_idempotent ex_vault_env ex_custody ex_codec ''t'' ex_retry_key
      (ex_digest (CHR ''a'')) ex_session_core = (Inr session, snd (rotate_bot_refresh_token_idempotent ex_vault_env
        ex_custody ex_codec ''t'' ex_retry_key (ex_digest (CHR ''a'')) ex_session_core))"
    using issued(1)
    by (simp add: rotate_bot_refresh_token_idempotent_def ex_retry_names Let_def stored_replay_def
        rotate_fresh_def commit_eq write_fails_def)
  with issued(2) that show thesis by blast
qed

lemma rotate_idempotent_frame:
  assumes "rotate_bot_refresh_token_idempotent ev cu rc token request_key body_digest c = (Inr session, c1)"
    and "hm_get (st_bot_refresh (live c)) (token_hash ev token) = Some row" and "br_used_at row = None"
  shows "be_refresh_expires_at session = env_clk ev 0 + duration_hours 12"
    and "st_bot_keys (live c1) = st_bot_keys (live c)" and "st_accounts (live c1) = st_accounts (live c)"
    and "\<exists>b. hm_get (st_bots (live c)) (br_bot_id row) = Some b \<and> (bo_id b = br_bot_id row \<longrightarrow>
      hm_get (st_bots (live c1)) (br_bot_id row) =
        Some (b\<lparr>bo_last_auth := Some (env_clk ev 0), bo_updated_at := env_clk ev 0\<rparr>))"
proof -
  obtain b key s where stands: "refresh_stands (live c) row (env_clk ev 0) = Some (b, key)"
    and expires: "be_refresh_expires_at session = env_clk ev 0 + duration_hours 12"
    and s: "\<exists>m. s = cap_live_refresh (bo_id b) (env_clk ev 0)
       ((prune_bot_operations (env_clk ev 0) (live c))\<lparr>st_bot_refresh := m\<rparr>)"
    and after: "\<exists>m. live c1 = stamp_auth (bo_id b) (env_clk ev 0) (s\<lparr>st_bot_operations := m\<rparr>)"
    using assms by (rule rotate_idempotent_Inr) blast
  have cap: "st_bot_keys (cap_live_refresh i now t) = st_bot_keys t" "st_accounts (cap_live_refresh i now t) = st_accounts t"
    for i now t by (simp_all add: cap_live_refresh_def Let_def)
  have stamp: "st_bot_keys (stamp_auth i now t) = st_bot_keys t" "st_accounts (stamp_auth i now t) = st_accounts t"
    for i now t by (simp_all add: stamp_auth_def split: option.split)
  have prune: "st_accounts (prune_bot_operations now t) = st_accounts t" for now t
    by (simp add: prune_bot_operations_def)
  have bot: "hm_get (st_bots (live c)) (br_bot_id row) = Some b" using stands by (simp add: refresh_stands_Some)
  show "be_refresh_expires_at session = env_clk ev 0 + duration_hours 12" by (rule expires)
  show "st_bot_keys (live c1) = st_bot_keys (live c)" "st_accounts (live c1) = st_accounts (live c)"
    using s after by (auto simp: cap stamp prune)
  have "st_bots s = st_bots (live c)" using s by auto
  with after bot show "\<exists>b. hm_get (st_bots (live c)) (br_bot_id row) = Some b \<and> (bo_id b = br_bot_id row \<longrightarrow>
      hm_get (st_bots (live c1)) (br_bot_id row) =
        Some (b\<lparr>bo_last_auth := Some (env_clk ev 0), bo_updated_at := env_clk ev 0\<rparr>))"
    by (auto simp: stamp_auth_def)
qed

lemma ex_retry_audit:
  "\<exists>c'. record_bot_audit ex_vault_env 1 ''root'' ''bot.refresh.replay'' subject ''completed'' bot_id key_id None c =
     (Inr (), c')"
proof -
  have "\<not> contains_text ''{}'' ''jbk_''" "\<not> contains_text ''{}'' ''jbr_''" "\<not> contains_text ''{}'' ''eyJ''"
    "str_trim ''root'' \<noteq> []" "str_trim ''bot.refresh.replay'' \<noteq> []" "''completed'' \<in> set AUDIT_PHASES"
    by code_simp+
  then show ?thesis by (simp add: record_bot_audit_def append_audit_as_def Let_def split: option.split)
qed

theorem lost_rotation_is_answered_again_witness:
  "\<exists>session c1 session' c2.
     rotate_bot_refresh_token_idempotent ex_vault_env ex_custody ex_codec ''t'' ex_retry_key (ex_digest (CHR ''a''))
       ex_session_core = (Inr session, c1) \<and>
     rotate_bot_refresh_token_idempotent ex_vault_env ex_custody ex_codec ''t'' ex_retry_key (ex_digest (CHR ''a''))
       c1 = (Inr session', c2) \<and>
     be_refresh_token session' = be_refresh_token session"
proof -
  let ?row1 = "ex_refresh_row\<lparr>br_used_at := Some (env_clk ex_vault_env 0)\<rparr>"
  obtain session c1 where first: "rotate_bot_refresh_token_idempotent ex_vault_env ex_custody ex_codec ''t''
      ex_retry_key (ex_digest (CHR ''a'')) ex_session_core = (Inr session, c1)" "be_refresh_token session \<noteq> ''t''"
    by (rule ex_first_rotation)
  have row: "hm_get (st_bot_refresh (live ex_session_core)) (token_hash ex_vault_env ''t'') = Some ex_refresh_row"
    "br_used_at ex_refresh_row = None" "br_key_id ex_refresh_row = ''k''" "br_bot_id ex_refresh_row = 7"
    "br_generation ex_refresh_row = 1"
    by (simp_all add: ex_refresh_row_def)
  have hours: "100 \<le> 100 + duration_hours 12" "1000 \<le> 100 + duration_hours 12" "101 < 100 + duration_hours 12"
    "100 \<le> 100 + duration_minutes 5"
    by (simp_all add: duration_hours_def duration_minutes_def duration_seconds_def)
  note after = rotate_idempotent_frame [OF first(1) row(1,2)]
  have expires: "be_refresh_expires_at session = 100 + duration_hours 12" using after(1) by simp
  have bots: "hm_get (st_bots (live c1)) 7 = Some (ex_bot\<lparr>bo_last_auth := Some 100, bo_updated_at := 100\<rparr>)"
    "hm_get (st_bot_keys (live c1)) ''k'' = Some ex_bot_key"
    "hm_get (st_accounts (live c1)) ''root'' = Some (ex_account ''root'' RoleAdmin)"
    using after(2-4) by (simp_all add: row(4) ex_session_core_def)
  have standing: "refresh_stands (live c1) ?row1 (env_clk ex_vault_env 0) =
      Some (ex_bot\<lparr>bo_last_auth := Some 100, bo_updated_at := 100\<rparr>, ex_bot_key)"
    using bots by (simp add: refresh_stands_Some row bot_account_matches_iff owner_stands_def) (simp add: ex_bot_def)
  have "hm_ok (st_bot_refresh (live ex_session_core))" by (simp add: hm_ok_def)
  moreover have "\<forall>k b. hm_get (st_bots (live ex_session_core)) k = Some b \<longrightarrow> bo_id b = k" by simp
  moreover have "\<forall>k key. hm_get (st_bot_keys (live ex_session_core)) k = Some key \<longrightarrow> bk_key_id key = k"
    by (simp add: ex_session_core_def)
  moreover have "\<not> hm_has (st_bot_refresh (live ex_session_core)) (token_hash ex_vault_env (be_refresh_token session))"
    using first(2) by (simp add: hm_has_def)
  moreover have "\<forall>(h, row) \<in> set (st_bot_refresh (live ex_session_core)).
      br_expires_at row \<le> env_clk ex_vault_env 0 + duration_hours 12"
    using hours by (simp add: ex_refresh_row_def)
  moreover have "lawful_cipher ex_vault_env (cu_cipher ex_custody)" using ex_cipher_lawful by simp
  moreover have "env_clk ex_vault_env 0 \<le> env_clk ex_vault_env 0 + duration_minutes 5"
    "env_clk ex_vault_env 1 < be_refresh_expires_at session"
    using hours expires by simp_all
  moreover have "\<forall>c. \<exists>c'. record_bot_audit ex_vault_env 1 (bo_owner (ex_bot\<lparr>bo_last_auth := Some 100, bo_updated_at := 100\<rparr>))
      ''bot.refresh.replay'' (bot_subject (ex_bot\<lparr>bo_last_auth := Some 100, bo_updated_at := 100\<rparr>)) ''completed''
      (bo_id (ex_bot\<lparr>bo_last_auth := Some 100, bo_updated_at := 100\<rparr>)) (Some (br_key_id ex_refresh_row)) None c = (Inr (), c')"
    using ex_retry_audit by simp
  ultimately show ?thesis
    using lost_rotation_is_answered_again [OF first(1) row(1,2) _ _ _ _ _ _ ex_codec_lawful refl refl refl _ _ standing]
      first(1) by blast
qed

end
