(* ===== verification/Bot_Entry.thy ===== *)
theory Bot_Entry
  imports Bot_Sessions
begin

text \<open>
  Getting in for the first time: the enrollment key that \<^verbatim>\<open>enroll_bot\<close> shows once is what
  \<^verbatim>\<open>exchange_bot_enrollment_key\<close> takes, and a key with another secret gets the answer an unknown key gets.
\<close>

section \<open>The text of an enrollment key\<close>

lemma split_once_plain: "c \<notin> set a \<Longrightarrow> split_once c (a @ c # b) = Some (a, b)"
  by (induction a) auto

lemma enrollment_key_text:
  assumes "length key_id = 12" and "CHR ''.'' \<notin> set key_id" and "32 \<le> length secret" and "length secret \<le> 128"
  shows "parse_enrollment_key (KEY_PREFIX_LIVE @ ''.'' @ key_id @ ''.'' @ secret) = Some (KEY_PREFIX_LIVE, key_id, secret)"
proof -
  have "CHR ''.'' \<notin> set KEY_PREFIX_LIVE" by (simp add: KEY_PREFIX_LIVE_def)
  with assms split_once_plain [of "CHR ''.''" KEY_PREFIX_LIVE "key_id @ CHR ''.'' # secret"]
    split_once_plain [of "CHR ''.''" key_id secret]
  show ?thesis by (simp add: parse_enrollment_key_def) (simp add: KEY_PREFIX_LIVE_def)
qed

section \<open>Enrolling, then exchanging\<close>

lemma store_enrolled_Inr:
  assumes "store_enrolled_bot ev actor b ''live'' c = (Inr en, c1)"
  obtains key_id secret secret_hash where
    "new_key_id ev 0 = Inr key_id" "new_secret ev 12 = Inr secret" "env_argon2_hash ev 0 secret = Inr secret_hash"
    "en_bot en = bot_summary_from b" "en_key_id en = key_id"
    "en_enrollment_key en = KEY_PREFIX_LIVE @ ''.'' @ key_id @ ''.'' @ secret"
    "live c1 = (live c)\<lparr>st_bot_keys := hm_put key_id
        \<lparr>bk_key_id = key_id, bk_bot_id = bo_id b, bk_secret_hash = secret_hash, bk_env = ''live'',
         bk_created_at = bo_created_at b, bk_retired_at = None, bk_revoked_at = None\<rparr> (st_bot_keys (live c)),
      st_bots := hm_put (bo_id b) b (st_bots (live c))\<rparr>"
proof -
  from assms show thesis
    apply (clarsimp simp: store_enrolled_bot_def hash_secret_def ok_paths Let_def split: if_splits)
    apply (erule disjE, blast)
    apply clarify
    apply (drule bot_audit_Inr)
    apply (rule that)
    apply (assumption | simp)+
    done
qed

lemma enroll_bot_Inr:
  assumes "enroll_bot ev actor slug display_name kind reach c = (Inr en, c1)"
  obtains account reach' where "require_active_account (live c) actor = Inr account"
    "store_enrolled_bot ev (as_login account)
       (new_bot ev (as_login account) OwnedByUser None slug display_name kind reach' (as_auth_epoch account))
       ''live'' c = (Inr en, c1)"
  using assms by (auto simp: enroll_bot_def enroll_bot_with_env_def ok_paths intro: that)

lemma same_secret_refl [simp]: "same_secret_hash h h"
  by (simp add: same_secret_hash_def constant_time_eq_iff)

text \<open>An exchange under a stored, live key whose secret verifies, up to the storage.\<close>

lemma exchange_runs:
  assumes "parse_enrollment_key text = Some (key_env, key_id, secret)"
    and "hm_get (st_bot_keys (live c)) key_id = Some key" and "env_argon2_verify ev secret (bk_secret_hash key)"
    and "key_is_live key (env_clk ev 0)" and "hm_get (st_bots (live c)) (bk_bot_id key) = Some b"
    and "bo_owner_kind b = OwnedByUser" and "bot_account_matches (live c) b"
    and "env_random ev 0 32 = Inr random" and "\<not> write_fails ev 0 c"
    and "\<forall>c. \<exists>c'. record_bot_audit ev 1 (bo_owner b) ''bot.token.exchange'' (bot_subject b) ''completed'' (bo_id b)
      (Some (bk_key_id key)) None c = (Inr (), c')"
  shows "\<exists>session c'. exchange_bot_enrollment_key ev text c = (Inr session, c') \<and> be_key_id session = bk_key_id key \<and>
    be_bot session = bot_summary_from b \<and> be_generation session = bo_credential_generation b"
proof -
  obtain session s where issued: "issue_refresh ev 0 b key (env_clk ev 0) (live c) = Inr (session, s)"
    using assms(8) by (simp add: issue_refresh_def new_secret_def Let_def)
  note parts = issue_refresh_Inr [OF issued]
  obtain c' where "record_bot_audit ev 1 (bo_owner b) ''bot.token.exchange'' (bot_subject b) ''completed'' (bo_id b)
      (Some (bk_key_id key)) None (persisted (stamp_auth (bo_id b) (env_clk ev 0) s) c) = (Inr (), c')"
    using assms(10) by blast
  then have "exchange_bot_enrollment_key ev text c = (Inr session, c')"
    using assms(1-7,9) issued
    by (simp add: exchange_bot_enrollment_key_def verify_secret_def Let_def commit_eq)
  with parts show ?thesis by blast
qed

lemma exchange_refuses:
  "parse_enrollment_key text = Some (key_env, key_id, secret) \<Longrightarrow>
     (\<And>key. hm_get (st_bot_keys (live c)) key_id = Some key \<Longrightarrow> \<not> env_argon2_verify ev secret (bk_secret_hash key)) \<Longrightarrow>
     exchange_bot_enrollment_key ev text c = (Inl invalid_bot, c)"
  by (simp add: exchange_bot_enrollment_key_def verify_secret_def Let_def split: option.split)

text \<open>
  C21. The key shown at enrollment gets the bot in: exchanged later it opens a session of that bot under
  that key at its first generation, as long as the owner's account is as it was, the generator and the
  storage work; and a key with the same id and a secret that does not verify gets the very answer of a
  key that was never issued, and changes nothing.
\<close>

theorem enrollment_key_gets_in:
  assumes enrolled: "enroll_bot ev actor slug display_name kind reach c = (Inr en, c1)"
    and fills: "fills_buffers ev"
    and filed: "\<forall>k a. hm_get (st_accounts (live c)) k = Some a \<longrightarrow> ua_canonical_login a = k"
    and verifies: "\<forall>secret h. env_argon2_hash ev 0 secret = Inr h \<longrightarrow>
      (\<forall>other. env_argon2_verify ev' other h \<longleftrightarrow> other = secret)"
    and works: "env_random ev' 0 32 = Inr random" "\<not> write_fails ev' 0 c1"
    and audited: "\<forall>c. \<exists>c'. record_bot_audit ev' 1 (bs_owner (en_bot en)) ''bot.token.exchange''
      (bs_owner (en_bot en) @ ''/'' @ bs_slug (en_bot en)) ''completed'' (bs_id (en_bot en)) (Some (en_key_id en)) None c =
      (Inr (), c')"
    and wrong: "new_secret ev 12 \<noteq> Inr wrong_secret" "32 \<le> length wrong_secret" "length wrong_secret \<le> 128"
  shows "(\<exists>session c2. exchange_bot_enrollment_key ev' (en_enrollment_key en) c1 = (Inr session, c2) \<and>
      bs_id (be_bot session) = bs_id (en_bot en) \<and> be_key_id session = en_key_id en \<and> be_generation session = 1) \<and>
    exchange_bot_enrollment_key ev' (KEY_PREFIX_LIVE @ ''.'' @ en_key_id en @ ''.'' @ wrong_secret) c1 =
      (Inl invalid_bot, c1) \<and>
    (\<forall>key_id. length key_id = 12 \<longrightarrow> CHR ''.'' \<notin> set key_id \<longrightarrow> \<not> hm_has (st_bot_keys (live c1)) key_id \<longrightarrow>
       exchange_bot_enrollment_key ev' (KEY_PREFIX_LIVE @ ''.'' @ key_id @ ''.'' @ wrong_secret) c1 = (Inl invalid_bot, c1))"
proof -
  obtain account reach' where account: "require_active_account (live c) actor = Inr account"
    and stored: "store_enrolled_bot ev (as_login account)
       (new_bot ev (as_login account) OwnedByUser None slug display_name kind reach' (as_auth_epoch account))
       ''live'' c = (Inr en, c1)"
    using enrolled by (rule enroll_bot_Inr)
  let ?b = "new_bot ev (as_login account) OwnedByUser None slug display_name kind reach' (as_auth_epoch account)"
  obtain key_id secret secret_hash where made: "new_key_id ev 0 = Inr key_id" "new_secret ev 12 = Inr secret"
      "env_argon2_hash ev 0 secret = Inr secret_hash"
    and en: "en_bot en = bot_summary_from ?b" "en_key_id en = key_id"
      "en_enrollment_key en = KEY_PREFIX_LIVE @ ''.'' @ key_id @ ''.'' @ secret"
    and after: "live c1 = (live c)\<lparr>st_bot_keys := hm_put key_id
        \<lparr>bk_key_id = key_id, bk_bot_id = bo_id ?b, bk_secret_hash = secret_hash, bk_env = ''live'',
         bk_created_at = bo_created_at ?b, bk_retired_at = None, bk_revoked_at = None\<rparr> (st_bot_keys (live c)),
      st_bots := hm_put (bo_id ?b) ?b (st_bots (live c))\<rparr>"
    using stored by (rule store_enrolled_Inr)
  note shape = new_key_id_shape [OF made(1)]
  have shown: "parse_enrollment_key (en_enrollment_key en) = Some (KEY_PREFIX_LIVE, key_id, secret)"
    using new_secret_length [OF fills made(2)] enrollment_key_text [OF shape, of secret] by (simp add: en)
  have wrong_text: "parse_enrollment_key (KEY_PREFIX_LIVE @ ''.'' @ k @ ''.'' @ wrong_secret) = Some (KEY_PREFIX_LIVE, k, wrong_secret)"
    if "length k = 12" "CHR ''.'' \<notin> set k" for k
    using enrollment_key_text [OF that wrong(2,3)] .
  have bot: "bo_id ?b = env_fresh ev 0" "bo_owner ?b = as_login account" "bo_owner_kind ?b = OwnedByUser"
    "bo_slug ?b = slug" "bo_credential_generation ?b = 1" "bo_status ?b = BotActive" "bo_auth_epoch ?b = as_auth_epoch account"
    by (simp_all add: new_bot_def)
  have matches: "bot_account_matches (live c1) ?b"
    using account filed
    by (auto simp: bot_account_matches_iff owner_stands_def bot after require_active_account_def get_account_def
        permits_authentication_def ok_paths account_summary_from_def split: if_splits option.splits)
  have audited': "\<forall>c. \<exists>c'. record_bot_audit ev' 1 (bo_owner ?b) ''bot.token.exchange'' (bot_subject ?b) ''completed''
      (bo_id ?b) (Some key_id) None c = (Inr (), c')"
    using audited by (simp add: en bot_subject_def bot_summary_from_def)
  have "\<exists>session c2. exchange_bot_enrollment_key ev' (en_enrollment_key en) c1 = (Inr session, c2) \<and>
      be_key_id session = key_id \<and> be_bot session = bot_summary_from ?b \<and> be_generation session = bo_credential_generation ?b"
    using exchange_runs [OF shown, of c1 _ ev' ?b random] verifies made(3) matches works audited' bot(3)
    by (simp add: after key_is_live_def)
  then have "\<exists>session c2. exchange_bot_enrollment_key ev' (en_enrollment_key en) c1 = (Inr session, c2) \<and>
      bs_id (be_bot session) = bs_id (en_bot en) \<and> be_key_id session = en_key_id en \<and> be_generation session = 1"
    by (auto simp: en bot)
  moreover have "exchange_bot_enrollment_key ev' (KEY_PREFIX_LIVE @ ''.'' @ k @ ''.'' @ wrong_secret) c1 = (Inl invalid_bot, c1)"
    if "length k = 12" "CHR ''.'' \<notin> set k" "k = key_id \<or> \<not> hm_has (st_bot_keys (live c1)) k" for k
  proof (rule exchange_refuses [OF wrong_text [OF that(1,2)]])
    fix key
    assume "hm_get (st_bot_keys (live c1)) k = Some key"
    with that(3) have "bk_secret_hash key = secret_hash" by (auto simp: after hm_has_def)
    then show "\<not> env_argon2_verify ev' wrong_secret (bk_secret_hash key)"
      using verifies made(2,3) wrong(1) by auto
  qed
  ultimately show ?thesis using shape unfolding en(2) by blast
qed

definition ex_forgetful_core :: core where
  "ex_forgetful_core = \<lparr>live = ex_state, storage = None\<rparr>"

lemma ex_entry_audit:
  "action \<in> {''bot.enroll'', ''bot.token.exchange''} \<Longrightarrow>
     \<exists>c'. record_bot_audit ex_env n ''root'' action subject ''completed'' bot_id key_id None c =
     (Inr (), c')"
proof -
  have "\<not> contains_text ''{}'' ''jbk_''" "\<not> contains_text ''{}'' ''jbr_''" "\<not> contains_text ''{}'' ''eyJ''"
    "str_trim ''root'' \<noteq> []" "str_trim ''bot.enroll'' \<noteq> []" "str_trim ''bot.token.exchange'' \<noteq> []"
    "''completed'' \<in> set AUDIT_PHASES"
    by code_simp+
  then show "action \<in> {''bot.enroll'', ''bot.token.exchange''} \<Longrightarrow> ?thesis"
    by (auto simp: record_bot_audit_def append_audit_as_def ex_env_def Let_def split: option.split)
qed

lemma ex_enrolled:
  obtains en c1 where
    "enroll_bot ex_env ''root'' ''helper'' ''Helper'' ''grok'' (ReachGeneral None) ex_forgetful_core = (Inr en, c1)"
    "bs_owner (en_bot en) = ''root''"
proof -
  have names: "validate_enrollment ''helper'' ''Helper'' ''live'' = Inr ()" by code_simp
  have random: "env_random ex_env n k = Inr (replicate k n)" for n k by (simp add: ex_env_def)
  have "\<exists>i. key_id_loop ex_env n k = Inr i" for n k
  proof (induction k arbitrary: n)
    case (Suc k)
    from Suc [of "n + 1"] show ?case by (auto simp: random)
  qed simp
  then obtain key_id where key_id: "new_key_id ex_env 0 = Inr key_id" unfolding new_key_id_def by blast
  obtain secret where secret: "new_secret ex_env 12 = Inr secret" by (simp add: new_secret_def random)
  have hash: "env_argon2_hash ex_env 0 secret = Inr (''$argon2id$'' @ secret)" by (simp add: ex_env_def)
  have account: "require_active_account ex_state ''root'' = Inr (account_summary_from (ex_account ''root'' RoleAdmin))"
    "as_login (account_summary_from (ex_account ''root'' RoleAdmin)) = ''root''"
    by (simp_all add: require_active_account_def get_account_def permits_authentication_def ex_account_def)
  let ?b = "new_bot ex_env ''root'' OwnedByUser None ''helper'' ''Helper'' ''grok'' (ReachGeneral None)
    (as_auth_epoch (account_summary_from (ex_account ''root'' RoleAdmin)))"
  have reach: "normalize_reach ex_env ex_state ''root'' (ReachGeneral None) = Inr (ReachGeneral None)"
    by (simp add: normalize_reach_def validate_refs_def try_res_def)
  have owner: "bo_owner ?b = ''root''" by (simp add: new_bot_def)
  have running: "enroll_bot ex_env ''root'' ''helper'' ''Helper'' ''grok'' (ReachGeneral None) ex_forgetful_core =
    store_enrolled_bot ex_env ''root'' ?b ''live'' ex_forgetful_core"
    using account names reach by (simp add: enroll_bot_def enroll_bot_with_env_def ex_forgetful_core_def)
  have no_fault: "\<not> write_fails ex_env n c" for n c by (simp add: write_fails_def ex_env_def)
  have none_yet: "st_bots (live ex_forgetful_core) = []" by (simp add: ex_forgetful_core_def ex_state_def default_state_def)
  have audit: "\<exists>c'. record_bot_audit ex_env n ''root'' ''bot.enroll'' subject ''completed'' bot_id key None c = (Inr (), c')"
    for n subject bot_id key c by (rule ex_entry_audit) simp
  obtain c' where "record_bot_audit ex_env 1 ''root'' ''bot.enroll'' (bot_subject ?b) ''completed'' (bo_id ?b) (Some key_id) None
      (persisted ((live ex_forgetful_core)\<lparr>st_bot_keys := hm_put key_id
        \<lparr>bk_key_id = key_id, bk_bot_id = bo_id ?b, bk_secret_hash = ''$argon2id$'' @ secret, bk_env = ''live'',
         bk_created_at = bo_created_at ?b, bk_retired_at = None, bk_revoked_at = None\<rparr> (st_bot_keys (live ex_forgetful_core)),
        st_bots := hm_put (bo_id ?b) ?b (st_bots (live ex_forgetful_core))\<rparr>) ex_forgetful_core) = (Inr (), c')"
    using audit by blast
  then have "\<exists>en c1. store_enrolled_bot ex_env ''root'' ?b ''live'' ex_forgetful_core = (Inr en, c1) \<and> en_bot en = bot_summary_from ?b"
    using key_id secret hash none_yet no_fault
    by (simp add: store_enrolled_bot_def hash_secret_def commit_eq Let_def hm_values_def)
  with running owner that show thesis by (auto simp: bot_summary_from_def)
qed

lemma new_secret_ex: "new_secret ex_env 12 \<noteq> Inr (replicate 43 (CHR ''!''))"
  by code_simp

theorem enrollment_key_gets_in_witness:
  "\<exists>(en::bot_enrollment) c1 session c2. exchange_bot_enrollment_key ex_env (en_enrollment_key en) c1 = (Inr session, c2) \<and>
     be_key_id session = en_key_id en \<and> be_generation session = 1 \<and>
     exchange_bot_enrollment_key ex_env (KEY_PREFIX_LIVE @ ''.'' @ en_key_id en @ ''.'' @ replicate 43 (CHR ''!'')) c1 =
       (Inl invalid_bot, c1)"
proof -
  obtain en c1 where enrolled:
    "enroll_bot ex_env ''root'' ''helper'' ''Helper'' ''grok'' (ReachGeneral None) ex_forgetful_core = (Inr en, c1)"
    and owner: "bs_owner (en_bot en) = ''root''" by (rule ex_enrolled)
  have fills: "fills_buffers ex_env" by (simp add: fills_buffers_def ex_env_def)
  have filed: "\<forall>k a. hm_get (st_accounts (live ex_forgetful_core)) k = Some a \<longrightarrow> ua_canonical_login a = k"
    by (simp add: ex_forgetful_core_def ex_account_def)
  have verifies: "\<forall>secret h. env_argon2_hash ex_env 0 secret = Inr h \<longrightarrow>
      (\<forall>other. env_argon2_verify ex_env other h \<longleftrightarrow> other = secret)"
    by (auto simp: ex_env_def)
  have works: "env_random ex_env 0 32 = Inr (replicate 32 0)" "\<not> write_fails ex_env 0 c1"
    by (simp_all add: ex_env_def write_fails_def)
  have audited: "\<forall>c. \<exists>c'. record_bot_audit ex_env 1 (bs_owner (en_bot en)) ''bot.token.exchange''
      (bs_owner (en_bot en) @ ''/'' @ bs_slug (en_bot en)) ''completed'' (bs_id (en_bot en)) (Some (en_key_id en)) None c =
      (Inr (), c')"
    unfolding owner by (intro allI ex_entry_audit) simp
  have wrong: "new_secret ex_env 12 \<noteq> Inr (replicate 43 (CHR ''!''))" "32 \<le> length (replicate 43 (CHR ''!''))"
    "length (replicate 43 (CHR ''!'')) \<le> 128" using new_secret_ex by simp_all
  note both = enrollment_key_gets_in [OF enrolled fills filed verifies works audited wrong]
  then obtain session c2 where "exchange_bot_enrollment_key ex_env (en_enrollment_key en) c1 = (Inr session, c2)"
    "be_key_id session = en_key_id en" "be_generation session = 1" by (elim conjE exE)
  with both have "exchange_bot_enrollment_key ex_env (en_enrollment_key en) c1 = (Inr session, c2) \<and>
     be_key_id session = en_key_id en \<and> be_generation session = 1 \<and>
     exchange_bot_enrollment_key ex_env (KEY_PREFIX_LIVE @ ''.'' @ en_key_id en @ ''.'' @ replicate 43 (CHR ''!'')) c1 =
       (Inl invalid_bot, c1)" by (intro conjI) (elim conjE, assumption)+
  then show ?thesis by (intro exI)
qed

end
