(* ===== verification/Connection_Errors.thy ===== *)
theory Connection_Errors
  imports Provider_Connections
begin

text \<open>
  The error codes of provider connections (\<^verbatim>\<open>ConnectionErrorCode\<close> of \<^verbatim>\<open>model/provider_connections.rs\<close>):
  an edge recovers the code from the text of the error, and answers with its status and its repair hint.
  How a refusal of the merge gate renders its blockers is a parameter; no vault error is one.
\<close>

datatype connection_error_code =
  ProviderUnknown | ConnectionOwnerInvalid | ConnectionOwnerMismatch | ProviderNotConnected
| ConnectionGenerationStale | ProviderConnectionAmbiguous | ProviderAccountInvalid | ProviderSecretInvalid
| CredentialNotRefreshable | ConnectionBusy | RefreshPersistFailed | ProviderAuthRequired
| ProviderRefreshFailed | VaultUnavailable | VaultSecretUnreadable

text \<open>The text \<^verbatim>\<open>thiserror\<close> gives the code, which is its \<^verbatim>\<open>reason()\<close> too.\<close>

primrec code_reason :: "connection_error_code \<Rightarrow> string" where
  "code_reason ProviderUnknown = ''provider_unknown''"
| "code_reason ConnectionOwnerInvalid = ''connection_owner_invalid''"
| "code_reason ConnectionOwnerMismatch = ''connection_owner_mismatch''"
| "code_reason ProviderNotConnected = ''provider_not_connected''"
| "code_reason ConnectionGenerationStale = ''connection_generation_stale''"
| "code_reason ProviderConnectionAmbiguous = ''provider_connection_ambiguous''"
| "code_reason ProviderAccountInvalid = ''provider_account_invalid''"
| "code_reason ProviderSecretInvalid = ''provider_secret_invalid''"
| "code_reason CredentialNotRefreshable = ''credential_not_refreshable''"
| "code_reason ConnectionBusy = ''connection_busy''"
| "code_reason RefreshPersistFailed = ''refresh_persist_failed''"
| "code_reason ProviderAuthRequired = ''provider_auth_required''"
| "code_reason ProviderRefreshFailed = ''provider_refresh_failed''"
| "code_reason VaultUnavailable = ''vault_unavailable''"
| "code_reason VaultSecretUnreadable = ''vault_secret_unreadable''"

definition ALL_CODES :: "connection_error_code list" where
  "ALL_CODES =
     [ProviderUnknown, ConnectionOwnerInvalid, ConnectionOwnerMismatch, ProviderNotConnected,
      ConnectionGenerationStale, ProviderConnectionAmbiguous, ProviderAccountInvalid, ProviderSecretInvalid,
      CredentialNotRefreshable, ConnectionBusy, RefreshPersistFailed, ProviderAuthRequired,
      ProviderRefreshFailed, VaultUnavailable, VaultSecretUnreadable]"

text \<open>The texts of \<^verbatim>\<open>errors.rs\<close>. A panic is no error value.\<close>

fun forge_error_text :: "(refusal \<Rightarrow> string) \<Rightarrow> forge_error \<Rightarrow> string" where
  "forge_error_text render (NotFound m) = ''not found: '' @ m"
| "forge_error_text render (Conflict m) = ''already exists: '' @ m"
| "forge_error_text render (Validation m) = ''validation failed: '' @ m"
| "forge_error_text render (Forbidden m) = ''forbidden: '' @ m"
| "forge_error_text render (BranchProtection r) = ''branch protection blocked the operation: '' @ render r"
| "forge_error_text render (RepositoryArchived m) =
     ''repository_archived: repository '' @ m @ '' is archived and read-only''"
| "forge_error_text render (Storage m) = ''storage failed: '' @ m"
| "forge_error_text render WaitlistFull = ''waitlist_full: the waitlist is not accepting new addresses''"
| "forge_error_text render (StoreCustody m) = m"
| "forge_error_text render (Panicked m) = m"

definition from_error :: "(refusal \<Rightarrow> string) \<Rightarrow> forge_error \<Rightarrow> connection_error_code option" where
  "from_error render error =
     (let shown = forge_error_text render error;
          code = (case split_at_text '': '' shown of None \<Rightarrow> shown | Some (_, rest) \<Rightarrow> rest);
          code = takeWhile (\<lambda>b. b \<noteq> CHR '':'') code
      in find (\<lambda>candidate. code_reason candidate = code) ALL_CODES)"

fun http_status :: "connection_error_code \<Rightarrow> nat" where
  "http_status ConnectionOwnerMismatch = 403"
| "http_status ProviderNotConnected = 404"
| "http_status ConnectionGenerationStale = 409"
| "http_status ProviderConnectionAmbiguous = 409"
| "http_status ConnectionBusy = 409"
| "http_status ProviderAuthRequired = 409"
| "http_status RefreshPersistFailed = 503"
| "http_status ProviderRefreshFailed = 503"
| "http_status VaultUnavailable = 503"
| "http_status VaultSecretUnreadable = 503"
| "http_status _ = 422"

record agent_repair_hint =
  ah_purpose :: string
  ah_reason :: string
  ah_common_fixes :: "string list"
  ah_docs_url :: string
  ah_repair_hint :: string

definition CONNECTION_DOCS :: string where
  "CONNECTION_DOCS = ''contracts/connection-v1/connection-v1.md''"

primrec guidance :: "connection_error_code \<Rightarrow> string \<times> string list \<times> string" where
  "guidance ProviderUnknown =
     (''choose a managed agent provider'', [''use claude, codex, or grok''],
      ''retry with a supported provider name'')"
| "guidance ConnectionOwnerInvalid =
     (''name the owner of a provider connection'',
      [''use user/<login> for a person or service/<name> for automation''],
      ''fix the owner id, then reconnect'')"
| "guidance ConnectionOwnerMismatch =
     (''use a provider connection'',
      [''use a connection that belongs to the session owner'',
       ''ask an admin to bind a service account connection''],
      ''resolve the binding again for the right owner'')"
| "guidance ProviderNotConnected =
     (''use a provider connection'',
      [''connect the provider once in Settings, Agent providers'', ''reconnect if it was disconnected''],
      ''connect the provider, then start a new session'')"
| "guidance ConnectionGenerationStale =
     (''use a provider connection'',
      [''the credential was replaced or disconnected; start a new session''],
      ''sign a new lease at the current connection generation'')"
| "guidance ProviderConnectionAmbiguous =
     (''pick a provider connection'', [''pass the connection_id to use''],
      ''retry with an explicit connection_id'')"
| "guidance ProviderAccountInvalid =
     (''label a provider account'',
      [''use letters, digits, and ._:/-, starting and ending with a letter or digit''],
      ''fix the account label, then reconnect'')"
| "guidance ProviderSecretInvalid =
     (''store a provider credential'', [''send a credential between 1 byte and 16 KiB''],
      ''reconnect with the full credential'')"
| "guidance CredentialNotRefreshable =
     (''refresh a provider credential'', [''API keys do not rotate; reconnect to replace one''],
      ''reconnect with the new API key'')"
| "guidance ConnectionBusy =
     (''refresh a provider credential'', [''another refresh is running; wait and retry''],
      ''retry the refresh after a few seconds'')"
| "guidance RefreshPersistFailed =
     (''persist a rotated credential'',
      [''check forge storage health'',
       ''if the provider had already rotated the credential, the connection is auth_required: ''
         @ ''connect the provider again''],
      ''retry once storage is healthy, or reconnect if the connection is auth_required'')"
| "guidance ProviderAuthRequired =
     (''use a provider connection'',
      [''sign in to the provider again in Settings, Agent providers'',
       (''a refresh'' @ [CHR 0x27]) @ ''s outcome was unknown or the provider revoked the credential''],
      ''connect the provider again, then start a new session'')"
| "guidance ProviderRefreshFailed =
     (''refresh a provider credential'',
      [''the provider did not rotate the credential this time; the stored one stays current''],
      ''retry the refresh later'')"
| "guidance VaultUnavailable =
     (''open the credential vault'', [''configure the vault key file for this server''],
      ''restart with a private vault key file'')"
| "guidance VaultSecretUnreadable =
     (''open a stored credential'',
      [''the stored credential no longer matches its row or key; reconnect it''],
      ''disconnect and reconnect the provider'')"

definition code_repair_hint :: "connection_error_code \<Rightarrow> agent_repair_hint" where
  "code_repair_hint code =
     (case guidance code of
        (purpose, common_fixes, hint) \<Rightarrow>
          \<lparr>ah_purpose = purpose, ah_reason = code_reason code, ah_common_fixes = common_fixes,
           ah_docs_url = CONNECTION_DOCS, ah_repair_hint = hint\<rparr>)"

section \<open>Codes survive the trip through the text\<close>

lemma split_at_text_skip:
  "\<not> starts_with (c # s) sep \<Longrightarrow>
     split_at_text sep (c # s) = map_option (\<lambda>(a, b). (c # a, b)) (split_at_text sep s)"
  by (subst split_at_text.simps) simp

lemma split_at_text_here: "split_at_text sep (sep @ s) = Some ([], s)"
  by (subst split_at_text.simps) (simp add: starts_with_def)

lemma starts_with_colon: "starts_with (c # s) '': '' \<longleftrightarrow> c = CHR '':'' \<and> s \<noteq> [] \<and> hd s = CHR '' ''"
  by (cases s) (auto simp: starts_with_def)

lemma split_after_colon:
  "CHR '':'' \<notin> set p \<Longrightarrow> split_at_text '': '' (p @ '': '' @ s) = Some (p, s)"
proof (induction p)
  case Nil
  show ?case using split_at_text_here [of "'': ''" s] by simp
next
  case (Cons c p)
  then show ?case by (auto simp: split_at_text_skip starts_with_colon)
qed

lemma code_reason_plain: "CHR '':'' \<notin> set (code_reason code)"
  by (cases code) simp_all

lemma take_code: "takeWhile (\<lambda>b. b \<noteq> CHR '':'') (code_reason code @ CHR '':'' # rest) = code_reason code"
  using code_reason_plain [of code] by (subst takeWhile_append2) auto

lemma find_code: "find (\<lambda>candidate. code_reason candidate = code_reason code) ALL_CODES = Some code"
  by (cases code) (simp_all add: ALL_CODES_def)

text \<open>A class of errors and what its text starts with.\<close>

definition wraps :: "(string \<Rightarrow> forge_error) \<Rightarrow> string \<Rightarrow> bool" where
  "wraps err head = (\<forall>render m. forge_error_text render (err m) = head @ '': '' @ m)"

lemma from_coded:
  assumes "wraps err head" and "CHR '':'' \<notin> set head"
  shows "from_error render (err (code_reason code @ CHR '':'' # rest)) = Some code"
  using assms split_after_colon [OF assms(2), of "code_reason code @ CHR '':'' # rest"]
  by (simp add: from_error_def wraps_def Let_def take_code find_code)

lemma coded:
  "from_error render (NotFound (code_reason code @ CHR '':'' # rest)) = Some code"
  "from_error render (Conflict (code_reason code @ CHR '':'' # rest)) = Some code"
  "from_error render (Validation (code_reason code @ CHR '':'' # rest)) = Some code"
  "from_error render (Forbidden (code_reason code @ CHR '':'' # rest)) = Some code"
  "from_error render (Storage (code_reason code @ CHR '':'' # rest)) = Some code"
  using from_coded [of NotFound "''not found''" render code rest]
    from_coded [of Conflict "''already exists''" render code rest]
    from_coded [of Validation "''validation failed''" render code rest]
    from_coded [of Forbidden "''forbidden''" render code rest]
    from_coded [of Storage "''storage failed''" render code rest]
  by (simp_all add: wraps_def)

lemma refusals_coded:
  "from_error render (not_connected provider) = Some ProviderNotConnected"
  "from_error render owner_mismatch = Some ConnectionOwnerMismatch"
  "from_error render owner_invalid = Some ConnectionOwnerInvalid"
  "from_error render (unregistered_service service) = Some ConnectionOwnerInvalid"
  "from_error render (auth_required provider) = Some ProviderAuthRequired"
  "from_error render stale_generation = Some ConnectionGenerationStale"
  using coded(1) [of render ProviderNotConnected] coded(4) [of render ConnectionOwnerMismatch]
    coded(3) [of render ConnectionOwnerInvalid] coded(2) [of render ProviderAuthRequired]
    coded(2) [of render ConnectionGenerationStale]
  by (simp_all add: not_connected_def owner_mismatch_def owner_invalid_def unregistered_service_def
      auth_required_def stale_generation_def)

text \<open>Who an owner id names, said without parsing it.\<close>

lemma strip_prefix_iff: "strip_prefix s p = Some rest \<longleftrightarrow> s = p @ rest"
  unfolding strip_prefix_def starts_with_def by (auto, metis append_take_drop_id)

lemma strip_prefix_None: "strip_prefix s p = None \<longleftrightarrow> (\<nexists>rest. s = p @ rest)"
  using strip_prefix_iff by (metis not_None_eq)

lemma unregistered_iff:
  "unregistered services owner_id \<noteq> None \<longleftrightarrow> (\<exists>name. owner_id = ''service/'' @ name \<and> name \<notin> set services)"
proof (cases "strip_prefix owner_id ''service/''")
  case None
  have "owner_id \<noteq> ''service/'' @ rest" for rest using None unfolding strip_prefix_None by blast
  then show ?thesis unfolding unregistered_def None option.case by blast
next
  case (Some name)
  then have "owner_id = ''service/'' @ name" by (simp only: strip_prefix_iff)
  with Some show ?thesis by (simp add: unregistered_def)
qed

lemma owner_active_iff:
  "owner_active s owner_id \<longleftrightarrow>
     (\<forall>login. owner_id = ''user/'' @ login \<longrightarrow>
        (\<exists>account. hm_get (st_accounts s) login = Some account \<and> ua_status account = Active))"
proof (cases "strip_prefix owner_id ''user/''")
  case None
  have "owner_id \<noteq> ''user/'' @ rest" for rest using None unfolding strip_prefix_None by blast
  then show ?thesis unfolding owner_active_def None option.case by blast
next
  case (Some login)
  then have "owner_id = ''user/'' @ login" by (simp only: strip_prefix_iff)
  with Some show ?thesis by (auto simp: owner_active_def permits_authentication_def split: option.split)
qed

text \<open>
  C25. A refused binding says why, and the edge can tell: from the text of the error alone
  \<^verbatim>\<open>from_error\<close> recovers the code, and \<^verbatim>\<open>http_status\<close> the status to answer with. Code and status are those
  of the first reason in the order of the contract: no such row, not connected with 404; another owner's
  or provider's row, an owner mismatch with 403; a service name no longer registered, an invalid owner
  with 422; a person whose account is gone or not active, or a row that is pending or disconnected, not
  connected with 404; a row that needs a sign-in, authorization required with 409; and otherwise a
  generation that is not the row's, stale with 409. Two texts of the vault are in no code: a key mismatch
  and a failure of the cipher are answered as no vault error at all.
\<close>

theorem refused_binding_carries_code:
  assumes "check_provider_binding cu s owner_id binding = Inl e"
  shows "map_option (\<lambda>code. (code, http_status code)) (from_error render e) = Some
     (case hm_get (st_provider_connections s) (cb_connection_id binding) of
        None \<Rightarrow> (ProviderNotConnected, 404)
      | Some r \<Rightarrow>
          if pc_owner_id (cc_connection r) \<noteq> owner_id \<or> pc_provider (cc_connection r) \<noteq> cb_provider binding
          then (ConnectionOwnerMismatch, 403)
          else if \<exists>name. owner_id = ''service/'' @ name \<and> name \<notin> set (cu_services cu)
          then (ConnectionOwnerInvalid, 422)
          else if \<exists>login. owner_id = ''user/'' @ login \<and>
                  (\<nexists>account. hm_get (st_accounts s) login = Some account \<and> ua_status account = Active)
          then (ProviderNotConnected, 404)
          else case pc_state (cc_connection r) of
            ConnPending \<Rightarrow> (ProviderNotConnected, 404)
          | Disconnected \<Rightarrow> (ProviderNotConnected, 404)
          | AuthRequired \<Rightarrow> (ProviderAuthRequired, 409)
          | Connected \<Rightarrow> (ConnectionGenerationStale, 409)) \<and>
    from_error render vault_failure = None \<and>
    from_error render (Validation ''vault_key_mismatch: the secret was sealed under a different vault key'') = None"
proof (intro conjI)
  have refused: "live_record s (cu_services cu) owner_id binding = Inl e"
    using assms by (cases "live_record s (cu_services cu) owner_id binding") (simp_all add: check_provider_binding_def)
  have gone: "(\<exists>login. owner_id = ''user/'' @ login \<and>
      (\<nexists>account. hm_get (st_accounts s) login = Some account \<and> ua_status account = Active)) \<longleftrightarrow> \<not> owner_active s owner_id"
    unfolding owner_active_iff by blast
  show "map_option (\<lambda>code. (code, http_status code)) (from_error render e) = Some
     (case hm_get (st_provider_connections s) (cb_connection_id binding) of
        None \<Rightarrow> (ProviderNotConnected, 404)
      | Some r \<Rightarrow>
          if pc_owner_id (cc_connection r) \<noteq> owner_id \<or> pc_provider (cc_connection r) \<noteq> cb_provider binding
          then (ConnectionOwnerMismatch, 403)
          else if \<exists>name. owner_id = ''service/'' @ name \<and> name \<notin> set (cu_services cu)
          then (ConnectionOwnerInvalid, 422)
          else if \<exists>login. owner_id = ''user/'' @ login \<and>
                  (\<nexists>account. hm_get (st_accounts s) login = Some account \<and> ua_status account = Active)
          then (ProviderNotConnected, 404)
          else case pc_state (cc_connection r) of
            ConnPending \<Rightarrow> (ProviderNotConnected, 404)
          | Disconnected \<Rightarrow> (ProviderNotConnected, 404)
          | AuthRequired \<Rightarrow> (ProviderAuthRequired, 409)
          | Connected \<Rightarrow> (ConnectionGenerationStale, 409))"
    unfolding gone unregistered_iff [symmetric]
    using refused
    by (auto simp: live_record_def Let_def refusals_coded split: option.splits if_splits connection_state.splits)
  have "split_at_text '': '' (''validation failed: '' @ m) = Some (''validation failed'', m)"
    "split_at_text '': '' (''storage failed: '' @ m) = Some (''storage failed'', m)" for m
    using split_after_colon [of "''validation failed''" m] split_after_colon [of "''storage failed''" m] by simp_all
  then show "from_error render vault_failure = None"
    "from_error render (Validation ''vault_key_mismatch: the secret was sealed under a different vault key'') = None"
    by (simp_all add: from_error_def vault_failure_def ALL_CODES_def Let_def)
qed

theorem refused_binding_carries_code_witness:
  "\<exists>e. check_provider_binding ex_custody (live ex_linked) ''user/root'' (ex_binding\<lparr>cb_generation := 2\<rparr>) = Inl e \<and>
     from_error (\<lambda>_. []) e = Some ConnectionGenerationStale"
proof -
  have owner: "strip_prefix ''user/root'' ''service/'' = None" "strip_prefix ''user/root'' ''user/'' = Some ''root''"
    by code_simp+
  have active: "owner_active (live ex_linked) ''user/root''" "unregistered services ''user/root'' = None" for services
    by (simp_all add: owner_active_def unregistered_def owner ex_linked_def ex_account_def permits_authentication_def)
  then have refused: "check_provider_binding ex_custody (live ex_linked) ''user/root''
      (ex_binding\<lparr>cb_generation := 2\<rparr>) = Inl stale_generation"
    by (simp add: check_provider_binding_def live_record_def)
  from refused_binding_carries_code [OF this, of "\<lambda>_. []"] refused show ?thesis
    using active unfolding unregistered_iff [symmetric] owner_active_iff by auto
qed

end
