(* ===== verification/Git_Wire.thy ===== *)
theory Git_Wire
  imports Prelude
begin

text \<open>
  The wire format of the git daemon: \<^verbatim>\<open>pktline.rs\<close> (framing and unframing of packets) and
  \<^verbatim>\<open>wire_protocol.rs\<close> (the capability advertisement and the requests of protocol version 2), with the
  errors of \<^verbatim>\<open>error.rs\<close>. A byte string is the list of its bytes, as everywhere; where the source
  asks for UTF-8 the check is \<open>utf8_valid\<close>. Shown: framing and unframing are inverse exactly up
  to the largest payload a four digit length can announce, and a request read back from its packets
  is the request.
\<close>

section \<open>Errors\<close>

datatype gitd_error =
    GitdIo string
  | InvalidInput string
  | InvalidPath string
  | GitCommandFailed string "int option" string
  | RepoNotFound string
  | ProtectedRefDenied string
  | MergeConflict string
  | NonFastForwardRequired
  | Protocol string
  | HttpError string
  | Lfs string
  | Unauthorized
  | GitdForbidden string
  | RepositoryArchived string
  | Busy string

section \<open>UTF-8\<close>

text \<open>\<^verbatim>\<open>str::from_utf8\<close>: the well-formed byte sequences of the Unicode standard.\<close>

definition byte_in :: "nat \<Rightarrow> nat \<Rightarrow> char \<Rightarrow> bool" where
  "byte_in lo hi c = (lo \<le> byte c \<and> byte c \<le> hi)"

fun utf8_valid :: "string \<Rightarrow> bool" where
  "utf8_valid [] = True"
| "utf8_valid (a # rest) =
     (if byte a < 128 then utf8_valid rest
      else case rest of
        [] \<Rightarrow> False
      | b # rest \<Rightarrow>
          if byte_in 0xC2 0xDF a then continuation_byte b \<and> utf8_valid rest
          else case rest of
            [] \<Rightarrow> False
          | c # rest \<Rightarrow>
              if byte a = 0xE0 then byte_in 0xA0 0xBF b \<and> continuation_byte c \<and> utf8_valid rest
              else if byte a = 0xED then byte_in 0x80 0x9F b \<and> continuation_byte c \<and> utf8_valid rest
              else if byte_in 0xE1 0xEF a then continuation_byte b \<and> continuation_byte c \<and> utf8_valid rest
              else case rest of
                [] \<Rightarrow> False
              | d # rest \<Rightarrow>
                  (byte a = 0xF0 \<and> byte_in 0x90 0xBF b \<or> byte_in 0xF1 0xF3 a \<and> continuation_byte b \<or>
                   byte a = 0xF4 \<and> byte_in 0x80 0x8F b) \<and>
                  continuation_byte c \<and> continuation_byte d \<and> utf8_valid rest)"

lemma utf8_ascii: "list_all (\<lambda>c. byte c < 128) s \<Longrightarrow> utf8_valid s"
  by (induction s) auto

section \<open>Hexadecimal numbers\<close>

definition hex_digit :: "nat \<Rightarrow> char" where
  "hex_digit n = ''0123456789abcdef'' ! n"

fun show_hex :: "nat \<Rightarrow> string" where
  "show_hex n = (if n < 16 then [hex_digit n] else show_hex (n div 16) @ [hex_digit (n mod 16)])"

declare show_hex.simps [simp del]

text \<open>\<^verbatim>\<open>format!("{len:04x}")\<close>: at least four digits.\<close>

definition pad_hex :: "nat \<Rightarrow> string" where
  "pad_hex n = replicate (4 - length (show_hex n)) (CHR ''0'') @ show_hex n"

text \<open>\<^verbatim>\<open>usize::from_str_radix(_, 16)\<close>: an optional plus sign, then at least one digit of either case.\<close>

definition hex_value :: "char \<Rightarrow> nat option" where
  "hex_value c =
     (if is_ascii_digit c then Some (byte c - 48)
      else if byte_in 97 102 c then Some (byte c - 87)
      else if byte_in 65 70 c then Some (byte c - 55)
      else None)"

fun radix16 :: "nat \<Rightarrow> string \<Rightarrow> nat option" where
  "radix16 n [] = Some n"
| "radix16 n (c # rest) =
     (case hex_value c of
        None \<Rightarrow> None
      | Some d \<Rightarrow> if 2 ^ 64 \<le> n * 16 + d then None else radix16 (n * 16 + d) rest)"

definition usize_from_hex :: "string \<Rightarrow> nat option" where
  "usize_from_hex s =
     (let digits = (case s of [] \<Rightarrow> [] | c # rest \<Rightarrow> if c = CHR ''+'' then rest else s)
      in if digits = [] then None else radix16 0 digits)"

lemma hex_digit_cases:
  fixes n :: nat
  assumes "n < 16"
  shows "n \<in> {0, 1, 2, 3, 4, 5, 6, 7, 8, 9, 10, 11, 12, 13, 14, 15}"
  using assms by simp arith

lemma hex_digit_value: "n < 16 \<Longrightarrow> hex_value (hex_digit n) = Some n"
  by (drule hex_digit_cases) (auto simp: hex_digit_def hex_value_def byte_in_def str_simps)

lemma hex_digit_ascii: "n < 16 \<Longrightarrow> byte (hex_digit n) < 128 \<and> hex_digit n \<noteq> CHR ''+''"
  by (drule hex_digit_cases) (auto simp: hex_digit_def str_simps)

lemma pad_hex_digits:
  assumes "n < 65536"
  shows "pad_hex n = map hex_digit [n div 4096, n div 256 mod 16, n div 16 mod 16, n mod 16]"
proof -
  have zero: "hex_digit 0 = CHR ''0''" by (simp add: hex_digit_def)
  have split: "n div 16 div 16 = n div 256" "n div 256 div 16 = n div 4096"
    by (simp_all add: div_mult2_eq [symmetric])
  have zeros: "replicate 3 x = [x, x, x]" "replicate 2 x = [x, x]" for x :: char
    by (simp_all add: numeral_eq_Suc)
  note step = show_hex.simps [of n] show_hex.simps [of "n div 16"] show_hex.simps [of "n div 256"]
    show_hex.simps [of "n div 4096"]
  consider "n < 16" | "16 \<le> n" "n < 256" | "256 \<le> n" "n < 4096" | "4096 \<le> n" by linarith
  then show ?thesis
  proof cases
    case 1
    then show ?thesis by (simp add: pad_hex_def step zero zeros)
  next
    case 2
    then have "n div 16 < 16" "n div 256 = 0" "n div 4096 = 0" by simp_all
    with 2 show ?thesis by (simp add: pad_hex_def step zero zeros)
  next
    case 3
    then have "16 \<le> n div 16" "n div 256 < 16" "n div 4096 = 0" by simp_all
    with 3 show ?thesis by (simp add: pad_hex_def step zero zeros split)
  next
    case 4
    then have "16 \<le> n div 16" "16 \<le> n div 256" "n div 4096 < 16" using assms by simp_all
    with 4 show ?thesis by (simp add: pad_hex_def step zero zeros split)
  qed
qed

lemma radix16_bound: "radix16 n s = Some m \<Longrightarrow> m < (n + 1) * 16 ^ length s"
proof (induction s arbitrary: n)
  case (Cons c rest)
  then obtain d where d: "hex_value c = Some d" "radix16 (n * 16 + d) rest = Some m"
    by (auto split: option.splits if_splits)
  from d(1) have "d < 16" by (auto simp: hex_value_def byte_in_def str_simps split: if_splits)
  then have "(n * 16 + d + 1) * 16 ^ length rest \<le> ((n + 1) * 16) * 16 ^ length rest" by (intro mult_le_mono1) simp
  with Cons.IH [OF d(2)] have "m < ((n + 1) * 16) * 16 ^ length rest" by (rule less_le_trans)
  then show ?case by (simp only: list.size power_Suc add_0_right Nat.add_Suc_right mult.assoc)
qed simp

lemma usize_from_hex_bound: "usize_from_hex s = Some m \<Longrightarrow> m < 16 ^ length s"
proof -
  assume "usize_from_hex s = Some m"
  then obtain ds where "radix16 0 ds = Some m" "length ds \<le> length s"
    by (cases s) (auto simp: usize_from_hex_def Let_def split: if_splits)
  then have "m < 16 ^ length ds" using radix16_bound [of 0 ds m] by simp
  also have "(16 :: nat) ^ length ds \<le> 16 ^ length s" using \<open>length ds \<le> length s\<close> by (intro power_increasing) auto
  finally show ?thesis .
qed

lemma usize_from_pad_hex:
  assumes "n < 65536"
  shows "usize_from_hex (pad_hex n) = Some n" and "length (pad_hex n) = 4" and "utf8_valid (pad_hex n)"
proof -
  let ?a = "n div 4096" and ?b = "n div 256 mod 16" and ?c = "n div 16 mod 16" and ?d = "n mod 16"
  have small: "?a < 16" "?b < 16" "?c < 16" "?d < 16" using assms by simp_all
  have whole: "((?a * 16 + ?b) * 16 + ?c) * 16 + ?d = n"
  proof -
    have "n = n div 16 * 16 + ?d" "n div 16 = n div 256 * 16 + ?c" "n div 256 = ?a * 16 + ?b"
      using div_mult_mod_eq [of "n div 16" 16] div_mult_mod_eq [of "n div 256" 16]
      by (simp_all add: div_mult2_eq [symmetric])
    then show ?thesis by presburger
  qed
  note ascii = small [THEN hex_digit_ascii] and val = small [THEN hex_digit_value]
  have room: "?a < 2 ^ 64" "?a * 16 + ?b < 2 ^ 64" "(?a * 16 + ?b) * 16 + ?c < 2 ^ 64"
    "((?a * 16 + ?b) * 16 + ?c) * 16 + ?d < 2 ^ 64" using small by simp_all
  show "usize_from_hex (pad_hex n) = Some n"
    using ascii val room whole by (simp add: pad_hex_digits [OF assms] usize_from_hex_def)
  show "length (pad_hex n) = 4" by (simp add: pad_hex_digits [OF assms])
  show "utf8_valid (pad_hex n)"
    using ascii by (intro utf8_ascii) (simp add: pad_hex_digits [OF assms])
qed

section \<open>Packets\<close>

datatype pkt_line = Flush | Delim | ResponseEnd | PktData string

definition pkt_encode :: "string \<Rightarrow> string" where
  "pkt_encode payload = pad_hex (length payload + 4) @ payload"

definition flush_pkt :: string where
  "flush_pkt = ''0000''"

text \<open>The loop of \<^verbatim>\<open>decode_all\<close>: what is left of the input, and the packets read so far.\<close>

function decode_loop :: "string \<Rightarrow> pkt_line list \<Rightarrow> gitd_error + pkt_line list" where
  "decode_loop input packets =
     (if input = [] then Inr packets
      else if length input < 4 then Inl (Protocol ''pkt-line missing length'')
      else if \<not> utf8_valid (take 4 input) then Inl (Protocol ''pkt-line length is not utf8'')
      else case usize_from_hex (take 4 input) of
        None \<Rightarrow> Inl (Protocol (''invalid pkt-line length: '' @ take 4 input))
      | Some n \<Rightarrow>
          let rest = drop 4 input
          in if n = 0 then decode_loop rest (packets @ [Flush])
             else if n = 1 then decode_loop rest (packets @ [Delim])
             else if n = 2 then decode_loop rest (packets @ [ResponseEnd])
             else if n = 3 then Inl (Protocol ''reserved pkt-line length 0003'')
             else if length rest < n - 4 then Inl (Protocol ''pkt-line payload truncated'')
             else decode_loop (drop (n - 4) rest) (packets @ [PktData (take (n - 4) rest)]))"
  by pat_completeness auto
termination
  by (relation "measure (\<lambda>(input, _). length input)") auto

declare decode_loop.simps [simp del]

definition decode_all :: "string \<Rightarrow> gitd_error + pkt_line list" where
  "decode_all input = decode_loop input []"

text \<open>The bytes of a packet, and the packets whose length four digits can announce.\<close>

fun pkt_bytes :: "pkt_line \<Rightarrow> string" where
  "pkt_bytes Flush = ''0000''"
| "pkt_bytes Delim = ''0001''"
| "pkt_bytes ResponseEnd = ''0002''"
| "pkt_bytes (PktData payload) = pkt_encode payload"

fun pkt_fits :: "pkt_line \<Rightarrow> bool" where
  "pkt_fits (PktData payload) = (length payload \<le> 65531)"
| "pkt_fits _ = True"

lemma decode_loop_packet:
  assumes "pkt_fits p"
  shows "decode_loop (pkt_bytes p @ rest) packets = decode_loop rest (packets @ [p])"
proof (cases p)
  case (PktData payload)
  with assms have n: "length payload + 4 < 65536" by simp
  note hdr = usize_from_pad_hex [OF n]
  have "pad_hex (length payload + 4) \<noteq> []" using hdr(2) by auto
  with hdr show ?thesis
    by (subst decode_loop.simps) (simp add: PktData pkt_encode_def Let_def)
qed (subst decode_loop.simps, simp add: usize_from_hex_def hex_value_def str_simps)+

lemma decode_loop_packets:
  "list_all pkt_fits ps \<Longrightarrow> decode_loop (concat (map pkt_bytes ps)) packets = Inr (packets @ ps)"
proof (induction ps arbitrary: packets)
  case Nil
  show ?case by (subst decode_loop.simps) simp
qed (simp add: decode_loop_packet)

lemma decode_loop_step:
  assumes "decode_loop input packets = Inr ps" and "input \<noteq> []"
  obtains p rest where "decode_loop rest (packets @ [p]) = Inr ps" "pkt_fits p" "length rest < length input"
proof -
  obtain n where n: "usize_from_hex (take 4 input) = Some n" and long: "4 \<le> length input"
    using assms by (subst (asm) decode_loop.simps) (auto split: if_splits option.splits)
  have "(16 :: nat) ^ length (take 4 input) \<le> 16 ^ 4" by (intro power_increasing) auto
  with usize_from_hex_bound [OF n] have small: "n < 65536" by simp
  show thesis
  proof (cases "n \<in> {0, 1, 2}")
    case True
    with assms n long that [of "drop 4 input"] show ?thesis
      by (subst (asm) decode_loop.simps) (auto split: if_splits)
  next
    case False
    then have "decode_loop (drop (n - 4) (drop 4 input)) (packets @ [PktData (take (n - 4) (drop 4 input))]) = Inr ps"
      using assms n by (subst (asm) decode_loop.simps) (auto simp: Let_def split: if_splits)
    then show ?thesis
      by (rule that) (use small long in auto)
  qed
qed

lemma decode_loop_fits:
  "decode_loop input packets = Inr ps \<Longrightarrow> list_all pkt_fits packets \<Longrightarrow> list_all pkt_fits ps"
proof (induction input arbitrary: packets rule: length_induct)
  case (1 input)
  show ?case
  proof (cases "input = []")
    case True
    with 1 show ?thesis by (subst (asm) (2) decode_loop.simps) simp
  next
    case False
    from decode_loop_step [OF 1(2) False] obtain p rest where
      "decode_loop rest (packets @ [p]) = Inr ps" "pkt_fits p" "length rest < length input" .
    with 1 show ?thesis by simp
  qed
qed

text \<open>
  C30. Framing and unframing are inverse to each other on exactly the packets whose length fits the four
  digits of the header: the bytes of a list of packets are read back as that list if and only if no
  payload is longer than 65531 bytes. Reading always ends, since every turn of the loop takes at least the four
  bytes of a header off the input.
\<close>

theorem packets_round_trip:
  "decode_all (concat (map pkt_bytes packets)) = Inr packets \<longleftrightarrow> list_all pkt_fits packets"
  using decode_loop_fits [of _ "[]" packets] decode_loop_packets [of packets "[]"]
  by (auto simp: decode_all_def)

text \<open>Every accepted input is used up by its packets.\<close>

lemma pkt_bytes_length: "pkt_fits p \<Longrightarrow> 4 \<le> length (pkt_bytes p)"
  by (cases p) (simp_all add: pkt_encode_def usize_from_pad_hex)

section \<open>Protocol version 2\<close>

record capability_set =
  cs_agent :: string
  cs_ls_refs :: bool
  cs_fetch :: bool
  cs_object_info :: bool

definition default_capability_set :: capability_set where
  "default_capability_set =
     \<lparr>cs_agent = ''jeryu_gitd/0.1 phase1'', cs_ls_refs = True, cs_fetch = True, cs_object_info = False\<rparr>"

definition newline :: string where
  "newline = [CHR 0x0A]"

definition advertise :: "capability_set \<Rightarrow> string" where
  "advertise caps =
     pkt_encode (''version 2'' @ newline) @ pkt_encode (''agent='' @ cs_agent caps @ newline) @
     (if cs_ls_refs caps then pkt_encode (''ls-refs=unborn'' @ newline) else []) @
     (if cs_fetch caps then pkt_encode (''fetch=shallow wait-for-done filter'' @ newline) else []) @
     (if cs_object_info caps then pkt_encode (''object-info'' @ newline) else []) @ flush_pkt"

record v2_request =
  vr_command :: string
  vr_lines :: "string list"

text \<open>One turn of the loop of \<^verbatim>\<open>parse_request\<close>: the last command wins, empty lines are dropped.\<close>

fun parse_packets :: "pkt_line list \<Rightarrow> string option \<Rightarrow> string list \<Rightarrow> gitd_error + (string option \<times> string list)" where
  "parse_packets [] command lines = Inr (command, lines)"
| "parse_packets (PktData payload # rest) command lines =
     (if \<not> utf8_valid payload then Inl (Protocol ''v2 request line is not utf8'')
      else let line = trim_end_matches (CHR 0x0A) payload
        in case strip_prefix line ''command='' of
             Some name \<Rightarrow> parse_packets rest (Some name) lines
           | None \<Rightarrow> parse_packets rest command (if line = [] then lines else lines @ [line]))"
| "parse_packets (_ # rest) command lines = parse_packets rest command lines"

definition parse_request :: "string \<Rightarrow> gitd_error + v2_request" where
  "parse_request input =
     try_res (decode_all input) (\<lambda>packets.
     try_res (parse_packets packets None []) (\<lambda>(command, lines).
       case command of
         None \<Rightarrow> Inl (Protocol ''protocol v2 request missing command'')
       | Some name \<Rightarrow> Inr \<lparr>vr_command = name, vr_lines = lines\<rparr>))"

text \<open>A line as a client frames it, and what makes it readable again.\<close>

definition line_pkt :: "string \<Rightarrow> pkt_line" where
  "line_pkt line = PktData (line @ newline)"

definition readable_line :: "string \<Rightarrow> bool" where
  "readable_line line =
     (utf8_valid (line @ newline) \<and> length line < 65531 \<and> line \<noteq> [] \<and> last line \<noteq> CHR 0x0A)"

definition request_pkts :: "v2_request \<Rightarrow> pkt_line list" where
  "request_pkts r = line_pkt (''command='' @ vr_command r) # Delim # map line_pkt (vr_lines r) @ [Flush]"

lemma trim_line: "line \<noteq> [] \<Longrightarrow> last line \<noteq> CHR 0x0A \<Longrightarrow> trim_end_matches (CHR 0x0A) (line @ newline) = line"
  by (cases line rule: rev_cases) (auto simp: trim_end_matches_def newline_def)

lemma parse_line:
  "readable_line line \<Longrightarrow> parse_packets (line_pkt line # rest) command lines =
     (case strip_prefix line ''command='' of
        Some name \<Rightarrow> parse_packets rest (Some name) lines
      | None \<Rightarrow> parse_packets rest command (lines @ [line]))"
  by (simp add: line_pkt_def readable_line_def trim_line)

lemma parse_lines:
  "list_all readable_line ls \<Longrightarrow> list_all (\<lambda>l. \<not> starts_with l ''command='') ls \<Longrightarrow>
     parse_packets (map line_pkt ls @ rest) command lines = parse_packets rest command (lines @ ls)"
  by (induction ls arbitrary: lines) (simp_all add: parse_line strip_prefix_def)

lemma line_pkt_fits: "readable_line line \<Longrightarrow> pkt_fits (line_pkt line)"
  by (simp add: line_pkt_def readable_line_def newline_def)

text \<open>
  A request survives the wire: framed by a client as its command, a delimiter, its lines and a flush,
  it is parsed back as the same request, for every command and every list of lines that are UTF-8, not
  empty, without a line feed at their end, short enough for one packet, and not themselves commands.
\<close>

theorem request_round_trip:
  assumes "readable_line (''command='' @ vr_command r)" and "list_all readable_line (vr_lines r)"
    and "list_all (\<lambda>l. \<not> starts_with l ''command='') (vr_lines r)"
  shows "parse_request (concat (map pkt_bytes (request_pkts r))) = Inr r"
proof -
  have "list_all pkt_fits (request_pkts r)"
    using assms(1,2) by (auto simp: request_pkts_def line_pkt_fits list_all_iff)
  then have "decode_all (concat (map pkt_bytes (request_pkts r))) = Inr (request_pkts r)"
    by (simp add: decode_all_def decode_loop_packets)
  moreover have "parse_packets (request_pkts r) None [] = Inr (Some (vr_command r), vr_lines r)"
    using assms by (simp add: request_pkts_def parse_line parse_lines strip_prefix_def starts_with_def)
  ultimately show ?thesis by (simp add: parse_request_def try_res_def)
qed

theorem request_round_trip_witness:
  "parse_request (concat (map pkt_bytes (request_pkts \<lparr>vr_command = ''ls-refs'', vr_lines = [''peel'']\<rparr>))) =
     Inr \<lparr>vr_command = ''ls-refs'', vr_lines = [''peel'']\<rparr>"
  by (rule request_round_trip) (simp_all add: readable_line_def newline_def str_simps)

end
