(* ===== verification/Receive_Pack.thy ===== *)
theory Receive_Pack
  imports Git_Wire
begin

text \<open>
  The prelude of a push (\<^verbatim>\<open>pack.rs\<close>): the ref update commands a client sends in front of its pack, the policy
  that keeps direct pushes off the trunk, and the two ways the policy sees them. A request held in memory is checked as a whole; a streamed
  one is read just far enough to see its commands, in however many pieces the network delivers. Shown:
  both ways accept exactly the same requests, and nothing accepted names the trunk. Running git itself on the
  accepted bytes is not part of the model.
\<close>

section \<open>Services\<close>

datatype pack_service = UploadPack | ReceivePack

fun http_name :: "pack_service \<Rightarrow> string" where
  "http_name UploadPack = ''git-upload-pack''"
| "http_name ReceivePack = ''git-receive-pack''"

fun is_write :: "pack_service \<Rightarrow> bool" where
  "is_write UploadPack = False"
| "is_write ReceivePack = True"

fun git_subcommand :: "pack_service \<Rightarrow> string" where
  "git_subcommand UploadPack = ''upload-pack''"
| "git_subcommand ReceivePack = ''receive-pack''"

definition pack_service_parse :: "string \<Rightarrow> pack_service option" where
  "pack_service_parse service =
     (if service = ''git-upload-pack'' then Some UploadPack
      else if service = ''git-receive-pack'' then Some ReceivePack else None)"

definition RECEIVE_PACK_GIT_CONFIG :: "string list" where
  "RECEIVE_PACK_GIT_CONFIG = [''-c'', ''receive.fsckObjects=true'']"

definition service_argv :: "pack_service \<Rightarrow> string list \<Rightarrow> string \<Rightarrow> string list" where
  "service_argv service extra path =
     (if service = ReceivePack then RECEIVE_PACK_GIT_CONFIG else []) @ [git_subcommand service] @ extra @ [path]"

section \<open>Records of the prelude\<close>

definition TRUNK_REF :: string where
  "TRUNK_REF = ''refs/heads/main''"

definition MAX_RECEIVE_PACK_PRELUDE_BYTES :: nat where
  "MAX_RECEIVE_PACK_PRELUDE_BYTES = 1024 * 1024"

definition is_lowercase_sha1 :: "string \<Rightarrow> bool" where
  "is_lowercase_sha1 value = (length value = 40 \<and> list_all (\<lambda>b. is_ascii_digit b \<or> byte_in 97 102 b) value)"

record receive_pack_command =
  rc_old_oid :: string
  rc_new_oid :: string
  rc_ref_name :: string

text \<open>The length a header announces; the same few lines stand at the top of each loop over packets.\<close>

definition pkt_header :: "string \<Rightarrow> gitd_error + nat" where
  "pkt_header hdr =
     (if \<not> utf8_valid hdr then Inl (Protocol ''pkt-line length is not utf8'')
      else case usize_from_hex hdr of
        None \<Rightarrow> Inl (Protocol (''invalid pkt-line length: '' @ hdr))
      | Some n \<Rightarrow> Inr n)"

text \<open>A shallow declaration (\<open>Inl\<close>) or an update command (\<open>Inr\<close>); \<open>first\<close> is \<^verbatim>\<open>first_command\<close>.\<close>

definition command_text :: "bool \<Rightarrow> string \<Rightarrow> gitd_error + string" where
  "command_text first line =
     (if first then Inr (case split_once (CHR 0x00) line of None \<Rightarrow> line | Some (command, _) \<Rightarrow> command)
      else if CHR 0x00 \<in> set line
      then Inl (Protocol ''capabilities appear after first receive-pack command'')
      else Inr line)"

definition command_record :: "string \<Rightarrow> gitd_error + receive_pack_command" where
  "command_record command =
     (case split_on (CHR '' '') command of
        [] \<Rightarrow> Inl (Protocol ''receive-pack command missing old oid'')
      | [_] \<Rightarrow> Inl (Protocol ''receive-pack command missing new oid'')
      | [_, _] \<Rightarrow> Inl (Protocol ''receive-pack command missing ref name'')
      | old_oid # new_oid # ref_name # others \<Rightarrow>
          if others \<noteq> [] \<or> \<not> is_lowercase_sha1 old_oid \<or> \<not> is_lowercase_sha1 new_oid \<or>
             \<not> starts_with ref_name ''refs/'' \<or> length ref_name = 5
          then Inl (Protocol ''invalid receive-pack command record'')
          else Inr \<lparr>rc_old_oid = old_oid, rc_new_oid = new_oid, rc_ref_name = ref_name\<rparr>)"

definition prelude_record :: "bool \<Rightarrow> string list \<Rightarrow> string \<Rightarrow> gitd_error + string + receive_pack_command" where
  "prelude_record first shallow payload =
     (if \<not> utf8_valid payload then Inl (Protocol ''receive-pack prelude record is not valid utf8'')
      else let line = (case strip_suffix payload newline of None \<Rightarrow> payload | Some l \<Rightarrow> l)
        in case strip_prefix line ''shallow '' of
             Some oid \<Rightarrow>
               if \<not> first then Inl (Protocol ''shallow declaration follows receive-pack command'')
               else if \<not> is_lowercase_sha1 oid then Inl (Protocol ''invalid shallow declaration oid'')
               else if oid \<in> set shallow then Inl (Protocol ''duplicate shallow declaration'')
               else Inr (Inl oid)
           | None \<Rightarrow>
               try_res (command_text first line) (\<lambda>command.
               try_res (command_record command) (\<lambda>c. Inr (Inr c))))"

text \<open>The loop of \<^verbatim>\<open>receive_pack_commands\<close>, with its three variables.\<close>

function commands_loop ::
  "string \<Rightarrow> receive_pack_command list \<Rightarrow> bool \<Rightarrow> string list \<Rightarrow> gitd_error + receive_pack_command list" where
  "commands_loop input commands first shallow =
     (if input = [] then Inr commands
      else if length input < 4 then Inl (Protocol ''pkt-line missing length'')
      else case pkt_header (take 4 input) of
        Inl e \<Rightarrow> Inl e
      | Inr n \<Rightarrow>
          if n = 0 then Inr commands
          else if n = 1 \<or> n = 2 then Inl (Protocol ''unexpected control packet in receive-pack prelude'')
          else if n = 3 then Inl (Protocol ''reserved pkt-line length 0003'')
          else if length (drop 4 input) < n - 4 then Inl (Protocol ''pkt-line payload truncated'')
          else case prelude_record first shallow (take (n - 4) (drop 4 input)) of
            Inl e \<Rightarrow> Inl e
          | Inr (Inl oid) \<Rightarrow> commands_loop (drop n input) commands first (oid # shallow)
          | Inr (Inr c) \<Rightarrow> commands_loop (drop n input) (commands @ [c]) False shallow)"
  by pat_completeness auto
termination
  by (relation "measure (\<lambda>(input, _). length input)") auto

declare commands_loop.simps [simp del]

definition receive_pack_commands :: "string \<Rightarrow> gitd_error + receive_pack_command list" where
  "receive_pack_commands input = commands_loop input [] True []"

definition ensure_receive_pack_policy :: "string \<Rightarrow> gitd_error + unit" where
  "ensure_receive_pack_policy body =
     try_res (receive_pack_commands body) (\<lambda>commands.
       if \<exists>c \<in> set commands. rc_ref_name c = TRUNK_REF
       then Inl (ProtectedRefDenied (''direct pushes to refs/heads/main are blocked; ''
          @ ''open a pull request and merge through Jeryu''))
       else Inr ())"

section \<open>Reading a streamed prelude\<close>

datatype prelude_state = Complete nat | Need nat

text \<open>The scan resumes at \<open>offset\<close>, which it returns advanced.\<close>

function receive_pack_prelude_state :: "string \<Rightarrow> nat \<Rightarrow> gitd_error + (prelude_state \<times> nat)" where
  "receive_pack_prelude_state input offset =
     (let remaining = length input - offset
      in if remaining < 4 then Inr (Need (4 - remaining), offset)
         else case pkt_header (take 4 (drop offset input)) of
           Inl e \<Rightarrow> Inl e
         | Inr n \<Rightarrow>
             if n = 0 then Inr (Complete (offset + 4), offset)
             else if n = 1 \<or> n = 2 then receive_pack_prelude_state input (offset + 4)
             else if n = 3 then Inl (Protocol ''reserved pkt-line length 0003'')
             else if remaining < n then Inr (Need (n - remaining), offset)
             else receive_pack_prelude_state input (offset + n))"
  by pat_completeness auto
termination
  by (relation "measure (\<lambda>(input, offset). length input - offset)") auto

declare receive_pack_prelude_state.simps [simp del]

lemma prelude_state_Need: "receive_pack_prelude_state input offset = Inr (Need k, o') \<Longrightarrow> 0 < k"
proof (induction input offset rule: receive_pack_prelude_state.induct)
  case (1 input offset)
  show ?case
  proof (cases "length input - offset < 4")
    case True
    with 1(3) show ?thesis by (subst (asm) receive_pack_prelude_state.simps) (auto simp: Let_def)
  next
    case False
    with 1(3) obtain n where n: "pkt_header (take 4 (drop offset input)) = Inr n"
      by (subst (asm) receive_pack_prelude_state.simps) (auto simp: Let_def split: sum.splits)
    note again = 1(1) [OF refl False n] 1(2) [OF refl False n]
    from 1(3) False n show ?thesis
      by (subst (asm) receive_pack_prelude_state.simps)
        (auto simp: Let_def again split: if_splits)
  qed
qed

text \<open>
  The reader is the bytes still to come; \<^verbatim>\<open>read_exact\<close> takes the needed ones or fails. The result is the prefix read
  so far and the bytes left in the reader.
\<close>

function prefix_loop :: "string \<Rightarrow> nat \<Rightarrow> string \<Rightarrow> nat \<Rightarrow> gitd_error + (string \<times> string)" where
  "prefix_loop reader content_length prefix offset =
     (case receive_pack_prelude_state prefix offset of
        Inl e \<Rightarrow> Inl e
      | Inr (Complete prelude_len, _) \<Rightarrow>
          if MAX_RECEIVE_PACK_PRELUDE_BYTES < prelude_len
          then Inl (Protocol ''receive-pack command prelude exceeds limit'')
          else try_res (ensure_receive_pack_policy (take prelude_len prefix)) (\<lambda>_. Inr (prefix, reader))
      | Inr (Need needed, offset) \<Rightarrow>
          let next_len = length prefix + needed
          in if MAX_RECEIVE_PACK_PRELUDE_BYTES < next_len
             then Inl (Protocol ''receive-pack command prelude exceeds limit'')
             else if content_length < next_len
             then Inl (Protocol ''receive-pack command prelude is truncated'')
             else if length reader < needed
             then Inl (Protocol ''receive-pack command prelude is truncated: failed to fill whole buffer'')
             else prefix_loop (drop needed reader) content_length (prefix @ take needed reader) offset)"
  by pat_completeness auto
termination
  by (relation "measure (\<lambda>(reader, _). length reader)") (auto dest: prelude_state_Need)

declare prefix_loop.simps [simp del]

definition read_receive_pack_prefix :: "string \<Rightarrow> nat \<Rightarrow> string \<Rightarrow> gitd_error + (string \<times> string)" where
  "read_receive_pack_prefix reader content_length prefix =
     (if content_length < length prefix then Inl (Protocol ''receive-pack prefix exceeds Content-Length'')
      else prefix_loop reader content_length prefix 0)"

section \<open>The two ways agree\<close>

abbreviation scan :: "string \<Rightarrow> nat \<Rightarrow> gitd_error + (prelude_state \<times> nat)" where
  "scan \<equiv> receive_pack_prelude_state"

lemma scan_short: "length input - offset < 4 \<Longrightarrow> scan input offset = Inr (Need (4 - (length input - offset)), offset)"
  by (subst receive_pack_prelude_state.simps) (simp add: Let_def)

lemma scan_error: "4 \<le> length input - offset \<Longrightarrow> pkt_header (take 4 (drop offset input)) = Inl e \<Longrightarrow> scan input offset = Inl e"
  by (subst receive_pack_prelude_state.simps) (simp add: Let_def)

lemma scan_header:
  "4 \<le> length input - offset \<Longrightarrow> pkt_header (take 4 (drop offset input)) = Inr n \<Longrightarrow>
     scan input offset =
       (if n = 0 then Inr (Complete (offset + 4), offset)
        else if n = 1 \<or> n = 2 then scan input (offset + 4)
        else if n = 3 then Inl (Protocol ''reserved pkt-line length 0003'')
        else if length input - offset < n then Inr (Need (n - (length input - offset)), offset)
        else scan input (offset + n))"
  by (subst receive_pack_prelude_state.simps) (simp add: Let_def)

text \<open>Induction over the scan: a short rest, a bad header, the flush, a packet that is stepped over, and a packet that is not
  there yet.\<close>

lemma scan_cases [case_names short error flush reserved partial step]:
  assumes "\<And>offset. length input - offset < 4 \<Longrightarrow> P offset"
    and "\<And>offset e. 4 \<le> length input - offset \<Longrightarrow> pkt_header (take 4 (drop offset input)) = Inl e \<Longrightarrow> P offset"
    and "\<And>offset. 4 \<le> length input - offset \<Longrightarrow> pkt_header (take 4 (drop offset input)) = Inr 0 \<Longrightarrow> P offset"
    and "\<And>offset. 4 \<le> length input - offset \<Longrightarrow> pkt_header (take 4 (drop offset input)) = Inr 3 \<Longrightarrow> P offset"
    and "\<And>offset n. 4 \<le> length input - offset \<Longrightarrow> pkt_header (take 4 (drop offset input)) = Inr n \<Longrightarrow> 4 \<le> n \<Longrightarrow>
      length input - offset < n \<Longrightarrow> P offset"
    and "\<And>offset n k. 4 \<le> length input - offset \<Longrightarrow> pkt_header (take 4 (drop offset input)) = Inr n \<Longrightarrow>
      n = 1 \<and> k = 4 \<or> n = 2 \<and> k = 4 \<or> 4 \<le> n \<and> k = n \<Longrightarrow> k \<le> length input - offset \<Longrightarrow>
      scan input offset = scan input (offset + k) \<Longrightarrow> P (offset + k) \<Longrightarrow> P offset"
  shows "P offset"
proof (induction "length input - offset" arbitrary: offset rule: less_induct)
  case less
  show ?case
  proof (cases "length input - offset < 4")
    case long: False
    show ?thesis
    proof (cases "pkt_header (take 4 (drop offset input))")
      case (Inr n)
      have step: "P (offset + k)" if "4 \<le> k" "k \<le> length input - offset" for k
        using less that long by simp
      consider "n = 0" | "n = 1 \<or> n = 2" | "n = 3" | "4 \<le> n" "length input - offset < n" | "4 \<le> n" "n \<le> length input - offset"
        by linarith
      then show ?thesis
      proof cases
        case 2
        with Inr long step [of 4] show ?thesis
          by (intro assms(6) [of offset n 4]) (auto simp: scan_header [OF _ Inr])
      next
        case 5
        with Inr long step [of n] show ?thesis
          by (intro assms(6) [of offset n n]) (auto simp: scan_header [OF _ Inr])
      qed (use Inr long assms(3-5) in auto)
    qed (use long assms(2) in auto)
  qed (rule assms(1))
qed

lemma header_extend: "4 \<le> length input - offset \<Longrightarrow> take 4 (drop offset (input @ later)) = take 4 (drop offset input)"
  by simp

text \<open>A flush is found behind the offset and inside the input.\<close>

lemma scan_Complete:
  "scan input offset = Inr (Complete n, at) \<Longrightarrow> offset + 4 \<le> n \<and> n \<le> length input"
proof (induction offset rule: scan_cases [where input = input])
  case (flush offset)
  then show ?case by (auto simp: scan_header [OF flush(1,2)])
next
  case (reserved offset)
  then show ?case by (auto simp: scan_header [OF reserved(1,2)])
next
  case (partial offset m)
  then show ?case by (auto simp: scan_header [OF partial(1,2)])
qed (auto simp: scan_short scan_error)

text \<open>What later bytes change: nothing once the scan is decided; otherwise it can be resumed where it stopped, and it needs
  every byte it asked for.\<close>

lemma scan_extend:
  "offset \<le> length input \<Longrightarrow>
     (case scan input offset of
        Inl e \<Rightarrow> scan (input @ later) offset = Inl e
      | Inr (Complete n, at) \<Rightarrow> scan (input @ later) offset = Inr (Complete n, at)
      | Inr (Need k, at) \<Rightarrow> at \<le> length input \<and> scan (input @ later) offset = scan (input @ later) at \<and>
          (\<forall>n at'. scan (input @ later) offset = Inr (Complete n, at') \<longrightarrow> length input + k \<le> n))"
proof (induction offset rule: scan_cases [where input = input])
  case (short offset)
  then show ?case
    using scan_Complete [of "input @ later" offset] by (fastforce simp: scan_short)
next
  case (error offset e)
  then have "pkt_header (take 4 (drop offset (input @ later))) = Inl e" by (simp only: header_extend)
  with error show ?case by (simp add: scan_error)
next
  case (flush offset)
  then have "pkt_header (take 4 (drop offset (input @ later))) = Inr 0" by (simp only: header_extend)
  with flush show ?case by (simp add: scan_header)
next
  case (reserved offset)
  then have "pkt_header (take 4 (drop offset (input @ later))) = Inr 3" by (simp only: header_extend)
  with reserved show ?case by (simp add: scan_header)
next
  case (partial offset m)
  then have "pkt_header (take 4 (drop offset (input @ later))) = Inr m" by (simp only: header_extend)
  then have "offset + m \<le> n" if "scan (input @ later) offset = Inr (Complete n, at')" for n at'
    using partial that scan_Complete [of "input @ later" "offset + m" n at']
    by (auto simp: scan_header split: if_splits)
  with partial show ?case by (auto simp: scan_header [OF partial(1,2)])
next
  case (step offset m k)
  then have "pkt_header (take 4 (drop offset (input @ later))) = Inr m" by (simp only: header_extend)
  with step(1,3,4) have same: "scan (input @ later) offset = scan (input @ later) (offset + k)"
    by (subst scan_header) auto
  from step(4,7) have "offset + k \<le> length input" by simp
  from step(6) [OF this] show ?case unfolding step(5) same .
qed

text \<open>The parser stops at the flush the scan finds, so it does not look behind the prelude.\<close>

lemma commands_header:
  "4 \<le> length input \<Longrightarrow> pkt_header (take 4 input) = Inr n \<Longrightarrow>
     commands_loop input commands first shallow =
       (if n = 0 then Inr commands
        else if n = 1 \<or> n = 2 then Inl (Protocol ''unexpected control packet in receive-pack prelude'')
        else if n = 3 then Inl (Protocol ''reserved pkt-line length 0003'')
        else if length input - 4 < n - 4 then Inl (Protocol ''pkt-line payload truncated'')
        else case prelude_record first shallow (take (n - 4) (drop 4 input)) of
          Inl e \<Rightarrow> Inl e
        | Inr (Inl oid) \<Rightarrow> commands_loop (drop n input) commands first (oid # shallow)
        | Inr (Inr c) \<Rightarrow> commands_loop (drop n input) (commands @ [c]) False shallow)"
  by (subst commands_loop.simps) auto

lemma commands_loop_prelude:
  "scan input offset = Inr (Complete n, at) \<Longrightarrow>
     commands_loop (drop offset (take n input)) commands first shallow =
     commands_loop (drop offset input) commands first shallow"
proof (induction offset arbitrary: commands first shallow rule: scan_cases [where input = input])
  case (flush offset)
  then have n: "n = offset + 4" by (simp add: scan_header)
  with flush have "take 4 (drop offset (take n input)) = take 4 (drop offset input)" by (simp add: drop_take)
  with flush n show ?case
    by (subst (1 2) commands_loop.simps) (auto simp: drop_take)
next
  case (step offset m k)
  with scan_Complete [of input "offset + k" n at] have n: "offset + k + 4 \<le> n" "n \<le> length input" by simp_all
  have hdr: "take 4 (drop offset (take n input)) = take 4 (drop offset input)"
    and payload: "k = m \<Longrightarrow> take (m - 4) (drop 4 (drop offset (take n input))) = take (m - 4) (drop 4 (drop offset input))"
    and long: "4 \<le> length (drop offset (take n input))" "k \<le> length (drop offset (take n input))"
    using n by (auto simp: drop_take min_def)
  have IH: "commands_loop (drop k (drop offset (take n input))) cs f sh = commands_loop (drop k (drop offset input)) cs f sh"
    for cs f sh using step(6) [of cs f sh] step(5,7) by (simp add: add.commute)
  have here: "4 \<le> length (drop offset input)" "k \<le> length (drop offset input)" using step(1,4) by simp_all
  have header: "pkt_header (take 4 (drop offset (take n input))) = Inr m" using hdr step(2) by simp
  note headers = commands_header [OF long(1) header] commands_header [OF here(1) step(2)]
  consider "m = 1 \<or> m = 2" | "4 \<le> m" "k = m" using step(3) by blast
  then show ?case
  proof cases
    case 1
    then have "m \<noteq> 0" by auto
    with 1 show ?thesis by (simp only: headers if_True if_False)
  next
    case 2
    have big: "m \<noteq> 0" "m \<noteq> 1" "m \<noteq> 2" "m \<noteq> 3" using 2 by simp_all
    have room: "\<not> length (drop offset (take n input)) - 4 < m - 4" "\<not> length (drop offset input) - 4 < m - 4"
      using long here 2 by simp_all
    show ?thesis
      by (simp only: headers big room if_False simp_thms payload [OF 2(2)] IH [unfolded 2(2)])
  qed
next
  case (reserved offset)
  then show ?case by (simp add: scan_header [OF reserved(1,2)])
next
  case (partial offset m)
  then show ?case by (auto simp: scan_header [OF partial(1,2)] split: if_splits)
qed (simp_all add: scan_short scan_error)

lemma policy_prelude:
  "scan input 0 = Inr (Complete n, at) \<Longrightarrow> ensure_receive_pack_policy (take n input) = ensure_receive_pack_policy input"
  using commands_loop_prelude [of input 0 n at "[]" True "[]"]
  by (simp add: ensure_receive_pack_policy_def receive_pack_commands_def)

text \<open>The requests the streaming reader lets through.\<close>

definition prelude_in_order :: "string \<Rightarrow> bool" where
  "prelude_in_order body =
     ((\<exists>n at. scan body 0 = Inr (Complete n, at) \<and> n \<le> MAX_RECEIVE_PACK_PRELUDE_BYTES) \<and>
      ensure_receive_pack_policy body = Inr ())"

lemma prefix_loop_iff:
  "offset \<le> length prefix \<Longrightarrow> scan (prefix @ reader) 0 = scan (prefix @ reader) offset \<Longrightarrow>
     content_length = length (prefix @ reader) \<Longrightarrow>
     (case prefix_loop reader content_length prefix offset of
        Inl _ \<Rightarrow> \<not> prelude_in_order (prefix @ reader)
      | Inr (p, rest) \<Rightarrow> prelude_in_order (prefix @ reader) \<and> p @ rest = prefix @ reader)"
proof (induction reader content_length prefix offset rule: prefix_loop.induct)
  case (1 reader content_length prefix offset)
  let ?body = "prefix @ reader"
  show ?case
  proof (cases "scan prefix offset")
    case (Inl e)
    with scan_extend [OF 1(2), of reader] have "scan ?body offset = Inl e" by simp
    with Inl 1(3) show ?thesis by (subst prefix_loop.simps) (simp add: prelude_in_order_def)
  next
    case (Inr found)
    obtain state at where found: "found = (state, at)" by (cases found)
    show ?thesis
    proof (cases state)
      case (Complete n)
      with Inr found scan_extend [OF 1(2), of reader] 1(3) have body: "scan ?body 0 = Inr (Complete n, at)" by simp
      from Inr found Complete have "n \<le> length prefix" by (auto dest: scan_Complete)
      then have "take n ?body = take n prefix" by simp
      with policy_prelude [OF body] have "ensure_receive_pack_policy (take n prefix) = ensure_receive_pack_policy ?body"
        by (simp only:)
      with Inr found Complete body show ?thesis
        by (subst prefix_loop.simps) (auto simp: prelude_in_order_def try_res_def split: sum.splits)
    next
      case (Need k)
      with Inr found scan_extend [OF 1(2), of reader] have
        at: "at \<le> length prefix" "scan ?body offset = scan ?body at"
        and needs: "\<And>n at'. scan ?body offset = Inr (Complete n, at') \<Longrightarrow> length prefix + k \<le> n"
        by auto
      have far: "length prefix + k \<le> n" "n \<le> length ?body" if "scan ?body 0 = Inr (Complete n, at')" for n at'
        using needs [of n at'] that 1(3) scan_Complete [OF that] by simp_all
      show ?thesis
      proof (cases "length prefix + k \<le> MAX_RECEIVE_PACK_PRELUDE_BYTES \<and> k \<le> length reader")
        case True
        define prefix' where "prefix' = prefix @ take k reader"
        define reader' where "reader' = drop k reader"
        have whole: "prefix' @ reader' = ?body" by (simp add: prefix'_def reader'_def)
        have len: "content_length = length (prefix' @ reader')" "at \<le> length prefix'"
          unfolding whole using 1(4) at(1) by (simp_all add: prefix'_def)
        have turn: "prefix_loop reader content_length prefix offset = prefix_loop reader' content_length prefix' at"
          using True Inr found Need 1(4) by (subst prefix_loop.simps) (simp add: prefix'_def reader'_def Let_def)
        have "scan ?body 0 = scan ?body at" using 1(3) at(2) by simp
        then have "case prefix_loop reader' content_length prefix' at of
            Inl _ \<Rightarrow> \<not> prelude_in_order (prefix' @ reader')
          | Inr (p, rest) \<Rightarrow> prelude_in_order (prefix' @ reader') \<and> p @ rest = prefix' @ reader'"
          unfolding prefix'_def reader'_def
          using True Inr found Need 1(4) at(1)
          by (intro 1(1) [of found state at k "length prefix + k"]) auto
        then show ?thesis unfolding turn whole .
      next
        case False
        then have "\<not> prelude_in_order ?body" using far by (fastforce simp: prelude_in_order_def)
        moreover have "\<exists>e. prefix_loop reader content_length prefix offset = Inl e"
          using False Inr found Need 1(4) by (subst prefix_loop.simps) (auto simp: Let_def)
        ultimately show ?thesis by auto
      qed
    qed
  qed
qed

text \<open>
  C28. A streamed push and a push held in memory are judged alike: whatever part of the body had arrived with the request
  head, reading the prelude off the connection succeeds exactly when the body as a whole passes the
  policy and its command list ends within the first mebibyte, and then no byte has been lost or reordered on the way to git.
\<close>

theorem streamed_push_judged_alike:
  "(\<exists>p rest. read_receive_pack_prefix reader (length (prefix @ reader)) prefix = Inr (p, rest) \<and> p @ rest = prefix @ reader) =
     prelude_in_order (prefix @ reader)"
proof -
  have "case prefix_loop reader (length (prefix @ reader)) prefix 0 of
      Inl _ \<Rightarrow> \<not> prelude_in_order (prefix @ reader)
    | Inr (p, rest) \<Rightarrow> prelude_in_order (prefix @ reader) \<and> p @ rest = prefix @ reader"
    by (rule prefix_loop_iff) simp_all
  then show ?thesis by (auto simp: read_receive_pack_prefix_def split: sum.splits)
qed

section \<open>What gets through\<close>

definition command_ok :: "receive_pack_command \<Rightarrow> bool" where
  "command_ok c =
     (is_lowercase_sha1 (rc_old_oid c) \<and> is_lowercase_sha1 (rc_new_oid c) \<and>
      starts_with (rc_ref_name c) ''refs/'' \<and> 5 < length (rc_ref_name c))"

lemma starts_with_length: "starts_with s p \<Longrightarrow> length p \<le> length s"
  unfolding starts_with_def by (metis length_take min.cobounded1)

lemma command_record_ok:
  assumes "command_record command = Inr c"
  shows "command_ok c"
proof -
  from assms obtain old_oid new_oid ref_name where
    "c = \<lparr>rc_old_oid = old_oid, rc_new_oid = new_oid, rc_ref_name = ref_name\<rparr>"
    "is_lowercase_sha1 old_oid" "is_lowercase_sha1 new_oid" "starts_with ref_name ''refs/''" "length ref_name \<noteq> 5"
    by (auto simp: command_record_def split: list.splits if_splits)
  moreover from this(4) have "5 \<le> length ref_name" by (auto dest: starts_with_length)
  ultimately show ?thesis by (simp add: command_ok_def)
qed

lemma prelude_record_ok: "prelude_record first shallow payload = Inr (Inr c) \<Longrightarrow> command_ok c"
  by (auto simp: prelude_record_def Let_def try_res_def split: if_splits option.splits sum.splits
      dest: command_record_ok)

lemma commands_loop_ok:
  "commands_loop input commands first shallow = Inr out \<Longrightarrow> list_all command_ok commands \<Longrightarrow> list_all command_ok out"
proof (induction input commands first shallow rule: commands_loop.induct)
  case (1 input commands first shallow)
  show ?case
  proof (cases "input = [] \<or> length input < 4")
    case True
    with 1(3,4) show ?thesis by (subst (asm) commands_loop.simps) (auto split: if_splits)
  next
    case long: False
    with 1(3) obtain n where n: "pkt_header (take 4 input) = Inr n"
      by (subst (asm) commands_loop.simps) (auto split: sum.splits)
    show ?thesis
    proof (cases "n \<in> {0, 1, 2, 3} \<or> length (drop 4 input) < n - 4")
      case True
      with 1(3,4) long n show ?thesis
        by (subst (asm) commands_loop.simps) (auto split: if_splits)
    next
      case False
      then show ?thesis
      proof (cases "prelude_record first shallow (take (n - 4) (drop 4 input))")
        case (Inr r)
        with False long n 1(3) have rest:
          "case r of Inl oid \<Rightarrow> commands_loop (drop n input) commands first (oid # shallow) = Inr out
           | Inr c \<Rightarrow> commands_loop (drop n input) (commands @ [c]) False shallow = Inr out"
          by (subst (asm) commands_loop.simps) (auto split: sum.splits if_splits)
        have go: "input \<noteq> []" "\<not> length input < 4" "n \<noteq> 0" "\<not> (n = 1 \<or> n = 2)" "n \<noteq> 3"
          "\<not> length (drop 4 input) < n - 4"
          using False long by auto
        note IH = 1(1) [OF go(1,2) n go(3-6) Inr] 1(2) [OF go(1,2) n go(3-6) Inr]
        show ?thesis
        proof (cases r)
          case (Inl oid)
          with rest 1(4) IH(1) show ?thesis by simp
        next
          case (Inr c)
          with \<open>prelude_record _ _ _ = Inr r\<close> have "command_ok c" by (simp add: prelude_record_ok)
          with rest Inr 1(4) IH(2) [OF Inr] show ?thesis by simp
        qed
      next
        case (Inl e)
        with False long n 1(3) show ?thesis
          by (subst (asm) commands_loop.simps) (auto split: if_splits)
      qed
    qed
  qed
qed

text \<open>
  The policy passes a request exactly when its commands parse and none of them names the trunk; every
  command it passes has two full lower case object ids and a ref below \<^verbatim>\<open>refs/\<close>, so no malformed record and no
  direct push to the trunk reaches git.
\<close>

theorem passed_commands_well_formed:
  "ensure_receive_pack_policy body = Inr () \<longleftrightarrow>
     (\<exists>commands. receive_pack_commands body = Inr commands \<and>
        list_all (\<lambda>c. command_ok c \<and> rc_ref_name c \<noteq> TRUNK_REF) commands)"
  using commands_loop_ok [of body "[]" True "[]"]
  by (auto simp: ensure_receive_pack_policy_def receive_pack_commands_def try_res_def list_all_iff split: sum.splits)

end
