(* ===== verification/Git_Hash.thy ===== *)
theory Git_Hash
  imports Prelude "HOL-Library.Word"
begin

text \<open>
  \<^verbatim>\<open>hash.rs\<close> of the git daemon: SHA-256 written out by hand, on 32-bit words whose addition wraps, with
  the padding loop, the message schedule and the 64 rounds as the source has them. Shown: the routine computes
  the function that FIPS 180-4 defines by recurrences, for every input. That function is stated on operations and constants of
  its own: the constants as the fractional parts of roots of the first primes, the logical functions bit by bit. Bytes are 8-bit words here.
\<close>

unbundle bit_operations_syntax

type_synonym w32 = "32 word"
type_synonym octet = "8 word"

section \<open>The routine\<close>

definition SHA_H0 :: "w32 list" where
  "SHA_H0 =
     [0x6a09e667, 0xbb67ae85, 0x3c6ef372, 0xa54ff53a, 0x510e527f, 0x9b05688c, 0x1f83d9ab, 0x5be0cd19]"

text \<open>The rows as the source lays them out.\<close>

definition SHA_K :: "w32 list" where
  "SHA_K =
     [0x428a2f98, 0x71374491, 0xb5c0fbcf, 0xe9b5dba5, 0x3956c25b, 0x59f111f1, 0x923f82a4] @
     [0xab1c5ed5, 0xd807aa98, 0x12835b01, 0x243185be, 0x550c7dc3, 0x72be5d74, 0x80deb1fe] @
     [0x9bdc06a7, 0xc19bf174, 0xe49b69c1, 0xefbe4786, 0x0fc19dc6, 0x240ca1cc, 0x2de92c6f] @
     [0x4a7484aa, 0x5cb0a9dc, 0x76f988da, 0x983e5152, 0xa831c66d, 0xb00327c8, 0xbf597fc7] @
     [0xc6e00bf3, 0xd5a79147, 0x06ca6351, 0x14292967, 0x27b70a85, 0x2e1b2138, 0x4d2c6dfc] @
     [0x53380d13, 0x650a7354, 0x766a0abb, 0x81c2c92e, 0x92722c85, 0xa2bfe8a1, 0xa81a664b] @
     [0xc24b8b70, 0xc76c51a3, 0xd192e819, 0xd6990624, 0xf40e3585, 0x106aa070, 0x19a4c116] @
     [0x1e376c08, 0x2748774c, 0x34b0bcb5, 0x391c0cb3, 0x4ed8aa4a, 0x5b9cca4f, 0x682e6ff3] @
     [0x748f82ee, 0x78a5636f, 0x84c87814, 0x8cc70208, 0x90befffa, 0xa4506ceb, 0xbef9a3f7] @
     [0xc67178f2]"

text \<open>How many zeros bring a length with the given rest modulo 64 to the rest 56.\<close>

definition zeros_left :: "nat \<Rightarrow> nat" where
  "zeros_left r = (if r \<le> 56 then 56 - r else 120 - r)"

text \<open>\<^verbatim>\<open>while (data.len() % 64) != 56 { data.push(0); }\<close>\<close>

function pad_zeros :: "octet list \<Rightarrow> octet list" where
  "pad_zeros bytes = (if length bytes mod 64 = 56 then bytes else pad_zeros (bytes @ [0]))"
  by pat_completeness auto
termination
proof (relation "measure (\<lambda>bytes. zeros_left (length bytes mod 64))")
  fix bytes :: "octet list"
  define r where "r = length bytes mod 64"
  assume "length bytes mod 64 \<noteq> 56"
  then have r: "r \<noteq> 56" "r < 64" by (simp_all add: r_def)
  have "length (bytes @ [0]) mod 64 = (if r = 63 then 0 else r + 1)"
    by (simp add: mod_Suc r_def)
  with r show "(bytes @ [0], bytes) \<in> measure (\<lambda>bytes. zeros_left (length bytes mod 64))"
    unfolding zeros_left_def r_def [symmetric] in_measure by auto
qed simp

declare pad_zeros.simps [simp del]

definition be64 :: "nat \<Rightarrow> octet list" where
  "be64 n = map (\<lambda>i. word_of_nat (n div 256 ^ (7 - i))) [0..<8]"

definition padded :: "octet list \<Rightarrow> octet list" where
  "padded input = pad_zeros (input @ [0x80]) @ be64 (length input * 8 mod 2 ^ 64)"

function chunks64 :: "'a list \<Rightarrow> 'a list list" where
  "chunks64 xs = (if xs = [] then [] else take 64 xs # chunks64 (drop 64 xs))"
  by pat_completeness auto
termination
  by (relation "measure length") auto

declare chunks64.simps [simp del]

definition word_from_be :: "octet \<Rightarrow> octet \<Rightarrow> octet \<Rightarrow> octet \<Rightarrow> w32" where
  "word_from_be a b c d = push_bit 24 (ucast a) OR push_bit 16 (ucast b) OR push_bit 8 (ucast c) OR ucast d"

definition be32 :: "w32 \<Rightarrow> octet list" where
  "be32 w = [ucast (drop_bit 24 w), ucast (drop_bit 16 w), ucast (drop_bit 8 w), ucast w]"

definition small_sigma0 :: "w32 \<Rightarrow> w32" where
  "small_sigma0 x = word_rotr 7 x XOR word_rotr 18 x XOR drop_bit 3 x"

definition small_sigma1 :: "w32 \<Rightarrow> w32" where
  "small_sigma1 x = word_rotr 17 x XOR word_rotr 19 x XOR drop_bit 10 x"

definition big_sigma0 :: "w32 \<Rightarrow> w32" where
  "big_sigma0 x = word_rotr 2 x XOR word_rotr 13 x XOR word_rotr 22 x"

definition big_sigma1 :: "w32 \<Rightarrow> w32" where
  "big_sigma1 x = word_rotr 6 x XOR word_rotr 11 x XOR word_rotr 25 x"

definition choice :: "w32 \<Rightarrow> w32 \<Rightarrow> w32 \<Rightarrow> w32" where
  "choice e f g = (e AND f) XOR (NOT e AND g)"

definition majority :: "w32 \<Rightarrow> w32 \<Rightarrow> w32 \<Rightarrow> w32" where
  "majority a b c = (a AND b) XOR (a AND c) XOR (b AND c)"

text \<open>The two loops over \<^verbatim>\<open>w\<close>: sixteen words out of the chunk, then each later one out of four earlier ones.\<close>

definition load_words :: "octet list \<Rightarrow> w32 list" where
  "load_words chunk =
     fold (\<lambda>i w. w[i := word_from_be (chunk ! (4 * i)) (chunk ! (4 * i + 1)) (chunk ! (4 * i + 2)) (chunk ! (4 * i + 3))])
       [0..<16] (replicate 64 0)"

definition extend_words :: "w32 list \<Rightarrow> w32 list" where
  "extend_words w0 =
     fold (\<lambda>i w. w[i := w ! (i - 16) + small_sigma0 (w ! (i - 15)) + w ! (i - 7) + small_sigma1 (w ! (i - 2))])
       [16..<64] w0"

type_synonym sha_state = "w32 \<times> w32 \<times> w32 \<times> w32 \<times> w32 \<times> w32 \<times> w32 \<times> w32"

fun sha_round :: "w32 list \<Rightarrow> nat \<Rightarrow> sha_state \<Rightarrow> sha_state" where
  "sha_round w i (a, b, c, d, e, f, g, h) =
     (let temp1 = h + big_sigma1 e + choice e f g + SHA_K ! i + w ! i;
          temp2 = big_sigma0 a + majority a b c
      in (temp1 + temp2, a, b, c, d + temp1, e, f, g))"

fun add_state :: "sha_state \<Rightarrow> sha_state \<Rightarrow> sha_state" where
  "add_state (a, b, c, d, e, f, g, h) (a', b', c', d', e', f', g', h') =
     (a + a', b + b', c + c', d + d', e + e', f + f', g + g', h + h')"

definition sha_chunk :: "octet list \<Rightarrow> sha_state \<Rightarrow> sha_state" where
  "sha_chunk chunk s = add_state s (fold (sha_round (extend_words (load_words chunk))) [0..<64] s)"

definition sha_start :: sha_state where
  "sha_start = (SHA_H0 ! 0, SHA_H0 ! 1, SHA_H0 ! 2, SHA_H0 ! 3, SHA_H0 ! 4, SHA_H0 ! 5, SHA_H0 ! 6, SHA_H0 ! 7)"

fun sha_output :: "sha_state \<Rightarrow> octet list" where
  "sha_output (a, b, c, d, e, f, g, h) = concat (map be32 [a, b, c, d, e, f, g, h])"

definition sha256 :: "octet list \<Rightarrow> octet list" where
  "sha256 input = sha_output (fold sha_chunk (chunks64 (padded input)) sha_start)"

definition hex_octet :: "octet \<Rightarrow> string" where
  "hex_octet b = [''0123456789abcdef'' ! unat (drop_bit 4 b), ''0123456789abcdef'' ! unat (b AND 15)]"

definition sha256_hex :: "octet list \<Rightarrow> string" where
  "sha256_hex input = concat (map hex_octet (sha256 input))"

section \<open>The standard\<close>

text \<open>
  FIPS 180-4, stated without the routine's operations and tables. The constants are the first 32 bits of
  the fractional parts of the cube roots of the first 64 primes and of the square roots of the first eight;
  rotations, shifts and the logical functions are given bit by bit; bytes and words are related as digits
  of a number. The message is followed by a one bit, the fewest zero bits that leave room for its length,
  and its length in bits; each block of 16 words is expanded by a recurrence and mixed in over 64 rounds.
\<close>

text \<open>The first 64 primes, as the standard's derivation of the tables uses them.\<close>

definition small_primes :: "nat list" where
  "small_primes =
     [2, 3, 5, 7, 11, 13, 17, 19, 23, 29, 31, 37, 41, 43, 47, 53,
      59, 61, 67, 71, 73, 79, 83, 89, 97, 101, 103, 107, 109, 113, 127, 131,
      137, 139, 149, 151, 157, 163, 167, 173, 179, 181, 191, 193, 197, 199, 211, 223,
      227, 229, 233, 239, 241, 251, 257, 263, 269, 271, 277, 281, 283, 293, 307, 311]"

text \<open>\<open>root_digits k p w\<close>: \<open>w\<close> holds the first 32 fractional bits of the k-th root of \<open>p\<close>, whose whole part is
  the number of roots below it.\<close>

definition whole_root :: "nat \<Rightarrow> nat \<Rightarrow> nat" where
  "whole_root k p = length (takeWhile (\<lambda>n. n ^ k \<le> p) [1, 2, 3, 4, 5, 6, 7])"

definition root_digits :: "nat \<Rightarrow> nat \<Rightarrow> nat \<Rightarrow> bool" where
  "root_digits k p f =
     (let n = whole_root k p * 2 ^ 32 + f in f < 2 ^ 32 \<and> n ^ k \<le> p * 2 ^ (32 * k) \<and> p * 2 ^ (32 * k) < (n + 1) ^ k)"

lemma sha_constants:
  "list_all2 (\<lambda>p w. root_digits 2 p (unat w)) (take 8 small_primes) SHA_H0 \<and>
   list_all2 (\<lambda>p w. root_digits 3 p (unat w)) small_primes SHA_K"
  by (simp add: small_primes_def SHA_H0_def SHA_K_def root_digits_def whole_root_def)

definition root_fraction :: "nat \<Rightarrow> nat \<Rightarrow> nat" where
  "root_fraction k p = (GREATEST n. n ^ k \<le> p * 2 ^ (32 * k)) mod 2 ^ 32"

definition fips_K :: "nat \<Rightarrow> w32" where
  "fips_K t = word_of_nat (root_fraction 3 (small_primes ! t))"

definition fips_H :: "nat \<Rightarrow> w32" where
  "fips_H i = word_of_nat (root_fraction 2 (small_primes ! i))"

definition of_bits :: "(nat \<Rightarrow> bool) \<Rightarrow> w32" where
  "of_bits f = horner_sum of_bool 2 (map f [0..<32])"

definition fips_rotr :: "nat \<Rightarrow> w32 \<Rightarrow> w32" where
  "fips_rotr n x = of_bits (\<lambda>i. bit x ((i + n) mod 32))"

definition fips_shr :: "nat \<Rightarrow> w32 \<Rightarrow> w32" where
  "fips_shr n x = of_bits (\<lambda>i. i + n < 32 \<and> bit x (i + n))"

definition fips_parity :: "w32 \<Rightarrow> w32 \<Rightarrow> w32 \<Rightarrow> w32" where
  "fips_parity x y z = of_bits (\<lambda>i. odd (of_bool (bit x i) + of_bool (bit y i) + of_bool (bit z i) :: nat))"

definition fips_ch :: "w32 \<Rightarrow> w32 \<Rightarrow> w32 \<Rightarrow> w32" where
  "fips_ch x y z = of_bits (\<lambda>i. if bit x i then bit y i else bit z i)"

definition fips_maj :: "w32 \<Rightarrow> w32 \<Rightarrow> w32 \<Rightarrow> w32" where
  "fips_maj x y z = of_bits (\<lambda>i. 2 \<le> (of_bool (bit x i) + of_bool (bit y i) + of_bool (bit z i) :: nat))"

definition fips_Sum0 :: "w32 \<Rightarrow> w32" where
  "fips_Sum0 x = fips_parity (fips_rotr 2 x) (fips_rotr 13 x) (fips_rotr 22 x)"

definition fips_Sum1 :: "w32 \<Rightarrow> w32" where
  "fips_Sum1 x = fips_parity (fips_rotr 6 x) (fips_rotr 11 x) (fips_rotr 25 x)"

definition fips_sig0 :: "w32 \<Rightarrow> w32" where
  "fips_sig0 x = fips_parity (fips_rotr 7 x) (fips_rotr 18 x) (fips_shr 3 x)"

definition fips_sig1 :: "w32 \<Rightarrow> w32" where
  "fips_sig1 x = fips_parity (fips_rotr 17 x) (fips_rotr 19 x) (fips_shr 10 x)"

text \<open>The \<open>k\<close> digits of a number to the base 256, the most significant first.\<close>

definition fips_bytes :: "nat \<Rightarrow> nat \<Rightarrow> octet list" where
  "fips_bytes k n = map (\<lambda>i. word_of_nat (n div 256 ^ (k - 1 - i))) [0..<k]"

definition fips_zeros :: "nat \<Rightarrow> nat" where
  "fips_zeros l = (LEAST k. (l + 1 + k) mod 64 = 56)"

definition fips_pad :: "octet list \<Rightarrow> octet list" where
  "fips_pad input =
     input @ [128] @ replicate (fips_zeros (length input)) 0 @ fips_bytes 8 (8 * length input mod 2 ^ 64)"

definition fips_block :: "octet list \<Rightarrow> nat \<Rightarrow> nat \<Rightarrow> w32" where
  "fips_block bytes n j =
     word_of_nat (\<Sum>k<4. unat (bytes ! (64 * n + 4 * j + k)) * 256 ^ (3 - k))"

function fips_schedule :: "(nat \<Rightarrow> w32) \<Rightarrow> nat \<Rightarrow> w32" where
  "fips_schedule m t =
     (if t < 16 then m t
      else fips_sig1 (fips_schedule m (t - 2)) + fips_schedule m (t - 7) +
           fips_sig0 (fips_schedule m (t - 15)) + fips_schedule m (t - 16))"
  by pat_completeness auto
termination by (relation "measure snd") auto

declare fips_schedule.simps [simp del]

fun fips_round :: "w32 \<Rightarrow> w32 \<Rightarrow> sha_state \<Rightarrow> sha_state" where
  "fips_round k w (a, b, c, d, e, f, g, h) =
     (let t1 = h + fips_Sum1 e + fips_ch e f g + k + w; t2 = fips_Sum0 a + fips_maj a b c
      in (t1 + t2, a, b, c, d + t1, e, f, g))"

primrec fips_rounds :: "(nat \<Rightarrow> w32) \<Rightarrow> nat \<Rightarrow> sha_state \<Rightarrow> sha_state" where
  "fips_rounds m 0 s = s"
| "fips_rounds m (Suc t) s = fips_round (fips_K t) (fips_schedule m t) (fips_rounds m t s)"

fun fips_add :: "sha_state \<Rightarrow> sha_state \<Rightarrow> sha_state" where
  "fips_add (a, b, c, d, e, f, g, h) (a', b', c', d', e', f', g', h') =
     (a' + a, b' + b, c' + c, d' + d, e' + e, f' + f, g' + g, h' + h)"

primrec fips_hash :: "octet list \<Rightarrow> nat \<Rightarrow> sha_state" where
  "fips_hash bytes 0 = (fips_H 0, fips_H 1, fips_H 2, fips_H 3, fips_H 4, fips_H 5, fips_H 6, fips_H 7)"
| "fips_hash bytes (Suc n) =
     fips_add (fips_hash bytes n) (fips_rounds (fips_block bytes n) 64 (fips_hash bytes n))"

fun fips_digest :: "sha_state \<Rightarrow> octet list" where
  "fips_digest (a, b, c, d, e, f, g, h) =
     concat (map (\<lambda>w. fips_bytes 4 (unat w)) [a, b, c, d, e, f, g, h])"

definition fips_sha256 :: "octet list \<Rightarrow> octet list" where
  "fips_sha256 input = fips_digest (fips_hash (fips_pad input) (length (fips_pad input) div 64))"

section \<open>Operations and constants agree\<close>

lemma bit_of_bits: "bit (of_bits f) i \<longleftrightarrow> i < 32 \<and> f i"
  by (auto simp: of_bits_def bit_horner_sum_bit_word_iff)

lemma fips_rotr_eq: "fips_rotr n x = word_rotr n x"
  by (rule bit_word_eqI) (simp add: fips_rotr_def bit_of_bits bit_word_rotr_iff)

lemma fips_shr_eq: "fips_shr n x = drop_bit n x"
  by (rule bit_word_eqI) (auto simp: fips_shr_def bit_of_bits bit_drop_bit_eq add.commute dest: bit_imp_le_length)

lemma fips_parity_eq: "fips_parity x y z = x XOR y XOR z"
  by (rule bit_word_eqI) (auto simp: fips_parity_def bit_of_bits bit_xor_iff)

lemma choice_fips: "choice x y z = fips_ch x y z"
  by (rule bit_word_eqI) (auto simp: choice_def fips_ch_def bit_of_bits bit_xor_iff bit_and_iff bit_not_iff)

lemma majority_fips: "majority x y z = fips_maj x y z"
  by (rule bit_word_eqI) (auto simp: majority_def fips_maj_def bit_of_bits bit_xor_iff bit_and_iff)

lemma sigma_fips:
  "big_sigma0 x = fips_Sum0 x" "big_sigma1 x = fips_Sum1 x"
  "small_sigma0 x = fips_sig0 x" "small_sigma1 x = fips_sig1 x"
  by (simp_all add: big_sigma0_def big_sigma1_def small_sigma0_def small_sigma1_def fips_Sum0_def fips_Sum1_def
      fips_sig0_def fips_sig1_def fips_parity_eq fips_rotr_eq fips_shr_eq)

lemma root_fraction_digits:
  assumes "root_digits k p f" and "k \<noteq> 0"
  shows "root_fraction k p = f"
proof -
  let ?n = "whole_root k p * 2 ^ 32 + f"
  have f: "f < 2 ^ 32" "?n ^ k \<le> p * 2 ^ (32 * k)" "p * 2 ^ (32 * k) < (?n + 1) ^ k"
    using assms(1) by (simp_all only: root_digits_def Let_def)
  have "(GREATEST n. n ^ k \<le> p * 2 ^ (32 * k)) = ?n"
  proof (rule Greatest_equality)
    show "?n ^ k \<le> p * 2 ^ (32 * k)" by (rule f(2))
    fix y
    assume "y ^ k \<le> p * 2 ^ (32 * k)"
    then have "y ^ k < (?n + 1) ^ k" using f(3) by (rule le_less_trans)
    then have "y < ?n + 1" by (rule power_less_imp_less_base) simp
    then show "y \<le> ?n" by simp
  qed
  with f(1) show ?thesis by (simp only: root_fraction_def) simp
qed

lemma SHA_K_fips: "t < 64 \<Longrightarrow> SHA_K ! t = fips_K t"
proof -
  assume "t < 64"
  then have "root_digits 3 (small_primes ! t) (unat (SHA_K ! t))"
    using sha_constants by (intro list_all2_nthD [where P = "\<lambda>p w. root_digits 3 p (unat w)"])
      (simp_all add: small_primes_def)
  then show ?thesis by (simp add: fips_K_def root_fraction_digits)
qed

lemma SHA_H_fips: "i < 8 \<Longrightarrow> SHA_H0 ! i = fips_H i"
proof -
  assume "i < 8"
  then have "root_digits 2 (take 8 small_primes ! i) (unat (SHA_H0 ! i))"
    using sha_constants by (intro list_all2_nthD [where P = "\<lambda>p w. root_digits 2 p (unat w)"])
      (simp_all add: small_primes_def)
  with \<open>i < 8\<close> show ?thesis by (simp add: fips_H_def root_fraction_digits)
qed

lemma sha_start_fips: "sha_start = fips_hash bytes 0"
  by (simp add: sha_start_def SHA_H_fips [symmetric])

lemma be64_fips: "be64 n = fips_bytes 8 n"
  by (simp add: be64_def fips_bytes_def)

lemma be32_fips: "be32 w = fips_bytes 4 (unat w)"
proof -
  have "ucast (drop_bit n w) = (word_of_nat (unat w div 2 ^ n) :: octet)" for n
  proof -
    have "unat (drop_bit n w) = unat w div 2 ^ n" by (rule trans [OF unat_drop_bit_eq drop_bit_eq_div])
    then show ?thesis by (metis of_nat_unat)
  qed
  from this [of 24] this [of 16] this [of 8] show ?thesis
    by (simp add: be32_def fips_bytes_def upt_rec)
qed

lemma add_state_fips: "add_state s t = fips_add s t"
  by (cases s rule: sha_output.cases; cases t rule: sha_output.cases) (simp add: add.commute)

lemma sha_output_fips: "sha_output s = fips_digest s"
  by (cases s rule: sha_output.cases) (simp add: be32_fips)

lemma or_is_add:
  fixes x y :: w32
  shows "(\<And>n. bit x n \<Longrightarrow> \<not> bit y n) \<Longrightarrow> x OR y = x + y"
  by (intro disjunctive_add [symmetric]) auto

lemma word_from_be_fips:
  "word_from_be a b c d = word_of_nat (unat a * 2 ^ 24 + unat b * 2 ^ 16 + unat c * 2 ^ 8 + unat d)"
proof -
  have small: "bit (ucast x :: w32) n \<Longrightarrow> n < 8" for x :: octet and n
    by (auto simp: bit_ucast_iff dest: bit_imp_le_length)
  have "push_bit 8 (ucast c) OR ucast d = push_bit 8 (ucast c) + (ucast d :: w32)"
    by (intro or_is_add) (auto simp: bit_push_bit_iff dest!: small)
  moreover have "push_bit 16 (ucast b) OR (push_bit 8 (ucast c) OR ucast d) =
      push_bit 16 (ucast b) + (push_bit 8 (ucast c) OR (ucast d :: w32))"
    by (intro or_is_add) (auto simp: bit_push_bit_iff bit_or_iff dest!: small)
  moreover have "push_bit 24 (ucast a) OR (push_bit 16 (ucast b) OR (push_bit 8 (ucast c) OR ucast d)) =
      push_bit 24 (ucast a) + (push_bit 16 (ucast b) OR (push_bit 8 (ucast c) OR (ucast d :: w32)))"
    by (intro or_is_add) (auto simp: bit_push_bit_iff bit_or_iff dest!: small)
  ultimately have "word_from_be a b c d =
      push_bit 24 (ucast a) + (push_bit 16 (ucast b) + (push_bit 8 (ucast c) + ucast d))"
    by (simp only: word_from_be_def or.assoc)
  then show ?thesis by (simp add: push_bit_eq_mult add.assoc)
qed

lemma fips_block_eq:
  "fips_block bytes n j = word_from_be (bytes ! (64 * n + 4 * j)) (bytes ! (64 * n + 4 * j + 1))
     (bytes ! (64 * n + 4 * j + 2)) (bytes ! (64 * n + 4 * j + 3))"
proof -
  have four: "(\<Sum>k<4. f k) = f 0 + f 1 + f 2 + f 3" for f :: "nat \<Rightarrow> nat"
    by (simp add: eval_nat_numeral)
  show ?thesis unfolding fips_block_def four word_from_be_fips by simp
qed

section \<open>The routine computes the standard\<close>

lemma zeros_left_bound: "m < 64 \<Longrightarrow> zeros_left m < 64"
  by (auto simp: zeros_left_def)

lemma zeros_left_reach: "(n + zeros_left (n mod 64)) mod 64 = 56"
proof -
  have "n mod 64 < 64" by simp
  then have "n mod 64 + zeros_left (n mod 64) \<in> {56, 120}" by (auto simp: zeros_left_def)
  then have "(n mod 64 + zeros_left (n mod 64)) mod 64 = 56" by auto
  then show ?thesis by (simp add: mod_add_left_eq)
qed

lemma zeros_left_least: "(n + k) mod 64 = 56 \<Longrightarrow> zeros_left (n mod 64) \<le> k"
proof -
  assume "(n + k) mod 64 = 56"
  then have sum: "(n mod 64 + k) mod 64 = 56" by (simp add: mod_add_left_eq)
  have r: "n mod 64 < 64" by simp
  show ?thesis
  proof (rule ccontr)
    assume "\<not> zeros_left (n mod 64) \<le> k"
    with r consider "n mod 64 + k < 56" | "56 < n mod 64 + k" "n mod 64 + k < 120"
      by (auto simp: zeros_left_def split: if_splits)
    then show False
    proof cases
      case 1
      then have "(n mod 64 + k) mod 64 = n mod 64 + k" by (intro mod_less) simp
      with 1 sum show False by simp
    next
      case 2
      define m where "m = n mod 64 + k"
      have "m mod 64 = (if m < 64 then m else m - 64)"
        using 2 by (auto simp: m_def [symmetric] le_mod_geq)
      with 2 sum show False unfolding m_def [symmetric] by (auto split: if_splits)
    qed
  qed
qed

lemma fips_zeros_eq: "fips_zeros l = zeros_left ((l + 1) mod 64)"
  unfolding fips_zeros_def
  by (rule Least_equality) (simp_all only: zeros_left_reach zeros_left_least)

lemma pad_zeros_eq: "pad_zeros bytes = bytes @ replicate (zeros_left (length bytes mod 64)) 0"
proof (induction bytes rule: pad_zeros.induct)
  case (1 bytes)
  show ?case
  proof (cases "length bytes mod 64 = 56")
    case True
    then show ?thesis by (simp add: pad_zeros.simps zeros_left_def)
  next
    case False
    have "length bytes mod 64 < 64" by simp
    with False have "zeros_left (length bytes mod 64) = Suc (zeros_left (length (bytes @ [0]) mod 64))"
      by (auto simp: zeros_left_def mod_Suc)
    with 1 [OF False] False show ?thesis by (subst pad_zeros.simps) simp
  qed
qed

lemma padded_eq: "padded input = fips_pad input"
  by (simp add: padded_def fips_pad_def pad_zeros_eq fips_zeros_eq be64_fips mult.commute)

lemma fips_pad_length: "64 dvd length (fips_pad input)"
proof -
  have "(length input + 1 + fips_zeros (length input)) mod 64 = 56"
    by (simp only: fips_zeros_eq zeros_left_reach)
  then have "(length input + 1 + fips_zeros (length input) + 8) mod 64 = (56 + 8) mod 64"
    by (subst mod_add_left_eq [symmetric]) simp
  moreover have "length (fips_pad input) = length input + 1 + fips_zeros (length input) + 8"
    by (simp add: fips_pad_def fips_bytes_def)
  ultimately show ?thesis by (simp only: dvd_eq_mod_eq_0) simp
qed

text \<open>
  C40. The loop of \<^verbatim>\<open>finalize\<close> that pads with zero bytes ends on every input: it appends fewer than 64 of them and stops
  exactly where eight bytes are missing to a whole block, so the padded message, length field included, is a whole number of blocks.
\<close>

theorem padding_ends:
  "\<exists>n. n < 64 \<and> pad_zeros bytes = bytes @ replicate n 0 \<and> (length bytes + n) mod 64 = 56 \<and>
    length (padded bytes) mod 64 = 0"
proof (intro exI conjI)
  let ?n = "zeros_left (length bytes mod 64)"
  show "?n < 64" by (rule zeros_left_bound) simp
  show "pad_zeros bytes = bytes @ replicate ?n 0" by (rule pad_zeros_eq)
  show "(length bytes + ?n) mod 64 = 56" by (rule zeros_left_reach)
  show "length (padded bytes) mod 64 = 0"
    using fips_pad_length [of bytes] by (simp add: padded_eq dvd_eq_mod_eq_0)
qed

lemma chunks64_eq:
  "64 dvd length xs \<Longrightarrow> chunks64 xs = map (\<lambda>n. take 64 (drop (64 * n) xs)) [0..<length xs div 64]"
proof (induction xs rule: chunks64.induct)
  case (1 xs)
  show ?case
  proof (cases "xs = []")
    case True
    then show ?thesis by (simp add: chunks64.simps)
  next
    case False
    with 1(2) have long: "64 \<le> length xs" by (auto dest: dvd_imp_le)
    then have "length xs div 64 = Suc (length (drop 64 xs) div 64)"
      by (simp add: le_div_geq)
    then have "[0..<length xs div 64] = 0 # map Suc [0..<length (drop 64 xs) div 64]"
      by (simp add: map_Suc_upt upt_conv_Cons del: upt_Suc)
    moreover have "64 dvd length (drop 64 xs)" using 1(2) by (simp add: dvd_diff_nat)
    ultimately show ?thesis
      using 1(1) [OF False] False by (subst chunks64.simps) (simp add: comp_def add.commute)
  qed
qed

lemma fold_update_length: "length (fold (\<lambda>i w. w[i := f i w]) is w) = length w"
  by (induction "is" arbitrary: w) auto

lemma load_words_upto:
  "n \<le> 16 \<Longrightarrow> fold (\<lambda>i w. w[i := g i]) [0..<n] (replicate 64 0) = map g [0..<n] @ replicate (64 - n) (0 :: w32)"
proof (induction n)
  case (Suc n)
  then have "64 - n = Suc (63 - n)" by simp
  with Suc show ?case by (simp add: list_update_append)
qed simp

lemma load_words_nth:
  "j < 16 \<Longrightarrow> load_words (take 64 (drop (64 * n) bytes)) ! j =
     word_from_be (take 64 (drop (64 * n) bytes) ! (4 * j)) (take 64 (drop (64 * n) bytes) ! (4 * j + 1))
       (take 64 (drop (64 * n) bytes) ! (4 * j + 2)) (take 64 (drop (64 * n) bytes) ! (4 * j + 3))"
  unfolding load_words_def by (subst load_words_upto) (simp_all add: nth_append)

lemma load_words_length: "length (load_words chunk) = 64"
  by (simp add: load_words_def fold_update_length)

lemma extend_upto:
  assumes "length w = 64" and "\<And>j. j < 16 \<Longrightarrow> w ! j = m j" and "n \<le> 48"
  shows "\<forall>t < 16 + n.
    fold (\<lambda>i w. w[i := w ! (i - 16) + small_sigma0 (w ! (i - 15)) + w ! (i - 7) + small_sigma1 (w ! (i - 2))])
      [16..<16 + n] w ! t = fips_schedule m t"
  using assms(3)
proof (induction n)
  case 0
  with assms(2) show ?case by (simp add: fips_schedule.simps)
next
  case (Suc n)
  let ?f = "\<lambda>i w. w[i := w ! (i - 16) + small_sigma0 (w ! (i - 15)) + w ! (i - 7) + small_sigma1 (w ! (i - 2))]"
  define W where "W = fold ?f [16..<16 + n] w"
  have all: "W ! t = fips_schedule m t" if "t < 16 + n" for t using Suc that by (simp add: W_def)
  have len: "length W = 64" by (simp add: W_def fold_update_length assms(1))
  have "W ! (16 + n - 16) + small_sigma0 (W ! (16 + n - 15)) + W ! (16 + n - 7) + small_sigma1 (W ! (16 + n - 2)) =
      fips_schedule m (16 + n)"
    by (simp add: all fips_schedule.simps [of m "n + 16"] sigma_fips ac_simps)
  note next_word = this
  have upt: "[16..<16 + Suc n] = [16..<16 + n] @ [16 + n]"
    unfolding add_Suc_right by (rule upt_Suc_append) simp
  have "fold ?f [16..<16 + Suc n] w = ?f (16 + n) W" unfolding upt W_def by (simp del: upt_Suc)
  then have step: "fold ?f [16..<16 + Suc n] w = W[16 + n := fips_schedule m (16 + n)]"
    by (simp only: next_word)
  show ?case unfolding step
  proof (intro allI impI)
    fix t
    assume "t < 16 + Suc n"
    then consider "t = 16 + n" | "t < 16 + n" by linarith
    then show "W[16 + n := fips_schedule m (16 + n)] ! t = fips_schedule m t"
      by cases (use all len Suc.prems in auto)
  qed
qed

lemma extend_words_nth:
  assumes "length w = 64" and "\<And>j. j < 16 \<Longrightarrow> w ! j = m j" and "t < 64"
  shows "extend_words w ! t = fips_schedule m t"
proof -
  have "(16 :: nat) + 48 = 64" by simp
  with extend_upto [OF assms(1,2), where n = 48] assms(3) show ?thesis
    unfolding extend_words_def by (simp only: le_refl simp_thms)
qed

lemma sha_round_fips: "t < 64 \<Longrightarrow> sha_round w t s = fips_round (fips_K t) (w ! t) s"
  by (cases s rule: sha_output.cases) (simp add: SHA_K_fips sigma_fips choice_fips majority_fips)

lemma rounds_upto:
  assumes "\<And>t. t < 64 \<Longrightarrow> w ! t = fips_schedule m t" and "n \<le> 64"
  shows "fold (sha_round w) [0..<n] s = fips_rounds m n s"
  using assms(2) by (induction n) (simp_all add: sha_round_fips assms(1))

lemma fips_schedule_cong: "(\<And>j. j < 16 \<Longrightarrow> m j = m' j) \<Longrightarrow> fips_schedule m t = fips_schedule m' t"
proof (induction t rule: less_induct)
  case (less t)
  show ?case
  proof (cases "t < 16")
    case True
    with less.prems show ?thesis by (simp add: fips_schedule.simps)
  next
    case False
    then have "fips_schedule m (t - k) = fips_schedule m' (t - k)" if "0 < k" for k
      using less that by simp
    with False show ?thesis by (subst (1 2) fips_schedule.simps) simp
  qed
qed

lemma sha_chunk_fips:
  assumes "64 * n + 64 \<le> length bytes"
  shows "sha_chunk (take 64 (drop (64 * n) bytes)) s = fips_add s (fips_rounds (fips_block bytes n) 64 s)"
proof -
  let ?chunk = "take 64 (drop (64 * n) bytes)"
  have "load_words ?chunk ! j = fips_block bytes n j" if "j < 16" for j
    unfolding load_words_nth [OF that] fips_block_eq using assms that by (simp add: add.assoc)
  then have "extend_words (load_words ?chunk) ! t = fips_schedule (fips_block bytes n) t" if "t < 64" for t
    using that by (intro extend_words_nth) (simp_all add: load_words_length)
  then show ?thesis by (simp only: sha_chunk_def rounds_upto order_refl add_state_fips)
qed

lemma fold_chunks_fips:
  "64 * n \<le> length bytes \<Longrightarrow>
     fold sha_chunk (map (\<lambda>n. take 64 (drop (64 * n) bytes)) [0..<n]) sha_start = fips_hash bytes n"
  by (induction n) (simp_all add: sha_chunk_fips sha_start_fips [of bytes, simplified])

text \<open>
  C29. The hand-written SHA-256 is the function of the standard, which is stated here without any operation or
  table of the routine: its padding loop appends the fewest zeros that leave eight bytes for the length, its tables hold
  the first 32 fractional bits of the roots of the primes, its rotations, shifts and logical functions are the standard's bit
  by bit, the schedule kept in an array is the standard's recurrence, and the digest is the standard's for every input.
\<close>

theorem sha256_is_fips: "sha256 input = fips_sha256 input"
proof -
  have "64 * (length (fips_pad input) div 64) \<le> length (fips_pad input)" by simp
  then show ?thesis
    by (simp add: sha256_def fips_sha256_def padded_eq chunks64_eq fips_pad_length fold_chunks_fips sha_output_fips)
qed

end
