(* ===== verification/Git_Auth.thy ===== *)
theory Git_Auth
  imports Git_Wire Git_Hash Secrets
begin

text \<open>
  Who may talk to the git daemon (\<^verbatim>\<open>auth.rs\<close>, and the forced command of \<^verbatim>\<open>ssh.rs\<close> with the paths of \<^verbatim>\<open>path.rs\<close>):
  personal access tokens of which only the hash is kept, registered SSH keys, the decision for an HTTP request and for an SSH
  command. The registry is the value in memory and the value in its file; the file system, serde and the
  operating system's random source are parameters. Slicing a string inside a character, which panics in Rust, is a
  value of its own here.
\<close>

section \<open>Principals\<close>

definition SCOPE_READ :: string where
  "SCOPE_READ = ''repo:read''"

definition SCOPE_WRITE :: string where
  "SCOPE_WRITE = ''repo:write''"

definition LOCAL_OPERATOR_LOGIN :: string where
  "LOCAL_OPERATOR_LOGIN = ''local-operator''"

record principal =
  pr_login :: string
  pr_scopes :: "string list"

definition local_operator :: principal where
  "local_operator = \<lparr>pr_login = LOCAL_OPERATOR_LOGIN, pr_scopes = [SCOPE_READ, SCOPE_WRITE]\<rparr>"

definition is_local_operator :: "principal \<Rightarrow> bool" where
  "is_local_operator p = (pr_login p = LOCAL_OPERATOR_LOGIN)"

definition has_scope :: "principal \<Rightarrow> string \<Rightarrow> bool" where
  "has_scope p scope = (scope \<in> set (pr_scopes p))"

definition can_write_owner :: "principal \<Rightarrow> string \<Rightarrow> bool" where
  "can_write_owner p owner = (if \<not> has_scope p SCOPE_WRITE then False else is_local_operator p \<or> pr_login p = owner)"

definition can_read_owner :: "principal \<Rightarrow> string \<Rightarrow> bool" where
  "can_read_owner p owner = (if \<not> has_scope p SCOPE_READ then False else is_local_operator p \<or> pr_login p = owner)"

section \<open>The registry\<close>

record pat =
  pt_id :: string
  pt_secret :: string

definition pat_text :: "pat \<Rightarrow> string" where
  "pat_text p = ''jpat_'' @ pt_id p @ ''_'' @ pt_secret p"

datatype auth_decision = Allow principal | Deny401 | Deny403

record pat_record =
  pa_secret_hash :: string
  pa_principal :: principal

record store_file =
  sf_pats :: "(string \<times> pat_record) list"
  sf_ssh_keys :: "(string \<times> principal) list"

definition empty_store_file :: store_file where
  "empty_store_file = \<lparr>sf_pats = [], sf_ssh_keys = []\<rparr>"

text \<open>
  \<open>ar_disk\<close> is the content of \<^verbatim>\<open>registry.json\<close>: nothing when the file is missing or empty. \<open>ge_fill n\<close> is the n-th
  32-byte buffer \<^verbatim>\<open>fill_random\<close> fills, \<open>ge_flush\<close> what writing and renaming the file answers.
\<close>

record auth_registry =
  ar_file :: store_file
  ar_disk :: "store_file option"

record git_env =
  ge_fill :: "nat \<Rightarrow> octet list"
  ge_flush :: "gitd_error + unit"

definition registry_open :: "store_file option \<Rightarrow> auth_registry" where
  "registry_open disk = \<lparr>ar_file = (case disk of None \<Rightarrow> empty_store_file | Some f \<Rightarrow> f), ar_disk = disk\<rparr>"

definition flush_registry :: "git_env \<Rightarrow> auth_registry \<Rightarrow> (gitd_error + unit) \<times> auth_registry" where
  "flush_registry ge reg =
     (case ge_flush ge of Inl e \<Rightarrow> (Inl e, reg) | Inr _ \<Rightarrow> (Inr (), reg\<lparr>ar_disk := Some (ar_file reg)\<rparr>))"

definition gitd_random_token :: "git_env \<Rightarrow> nat \<Rightarrow> string" where
  "gitd_random_token ge n = sha256_hex (ge_fill ge n)"

text \<open>Eight attempts at an unused id.\<close>

fun fresh_id :: "git_env \<Rightarrow> auth_registry \<Rightarrow> nat \<Rightarrow> nat \<Rightarrow> gitd_error + (string \<times> nat)" where
  "fresh_id ge reg n 0 = Inl (InvalidInput ''could not allocate a unique token id'')"
| "fresh_id ge reg n (Suc k) =
     (let candidate = take 16 (gitd_random_token ge n)
      in if map_of (sf_pats (ar_file reg)) candidate = None then Inr (candidate, n + 1)
         else fresh_id ge reg (n + 1) k)"

definition mint_pat :: "git_env \<Rightarrow> string \<Rightarrow> string list \<Rightarrow> auth_registry \<Rightarrow> (gitd_error + pat) \<times> auth_registry" where
  "mint_pat ge owner scopes reg =
     (case fresh_id ge reg 0 8 of
        Inl e \<Rightarrow> (Inl e, reg)
      | Inr (pat_id, n) \<Rightarrow>
          let secret = gitd_random_token ge n;
              row = \<lparr>pa_secret_hash = sha256_hex (as_bytes secret),
                     pa_principal = \<lparr>pr_login = owner, pr_scopes = scopes\<rparr>\<rparr>;
              reg = reg\<lparr>ar_file := (ar_file reg)\<lparr>sf_pats := bt_put pat_id row (sf_pats (ar_file reg))\<rparr>\<rparr>
          in case flush_registry ge reg of
               (Inl e, reg) \<Rightarrow> (Inl e, reg)
             | (Inr _, reg) \<Rightarrow> (Inr \<lparr>pt_id = pat_id, pt_secret = secret\<rparr>, reg))"

definition secret_matches :: "string \<Rightarrow> pat_record \<Rightarrow> bool" where
  "secret_matches secret row =
     constant_time_eq (as_bytes (sha256_hex (as_bytes secret))) (as_bytes (pa_secret_hash row))"

definition bare_secret :: "auth_registry \<Rightarrow> string \<Rightarrow> principal option" where
  "bare_secret reg presented =
     map_option pa_principal (find (secret_matches presented) (map snd (sf_pats (ar_file reg))))"

definition verify_pat :: "auth_registry \<Rightarrow> string \<Rightarrow> principal option" where
  "verify_pat reg presented =
     (let presented = str_trim presented
      in if presented = [] then None
         else case Option.bind (strip_prefix presented ''jpat_'') (split_once (CHR ''_'')) of
           None \<Rightarrow> bare_secret reg presented
         | Some (pat_id, secret) \<Rightarrow>
             (case map_of (sf_pats (ar_file reg)) pat_id of
                None \<Rightarrow> bare_secret reg presented
              | Some row \<Rightarrow> if secret_matches secret row then Some (pa_principal row) else None))"

definition decide :: "auth_registry \<Rightarrow> string option \<Rightarrow> bool \<Rightarrow> string \<Rightarrow> bool \<Rightarrow> auth_decision" where
  "decide reg credential is_loopback owner wr =
     (let principal = (case credential of
            None \<Rightarrow>
              if wr then (if is_loopback then Some local_operator else None)
              else if is_loopback then Some local_operator
              else None
          | Some token \<Rightarrow> verify_pat reg token)
      in case principal of
           None \<Rightarrow> Deny401
         | Some p \<Rightarrow> if (if wr then can_write_owner p owner else can_read_owner p owner) then Allow p else Deny403)"

section \<open>Base64\<close>

definition B64_TABLE :: string where
  "B64_TABLE = ''ABCDEFGHIJKLMNOPQRSTUVWXYZabcdefghijklmnopqrstuvwxyz0123456789+/''"

definition b64_value :: "char \<Rightarrow> nat option" where
  "b64_value c = map_of (zip B64_TABLE [0..<64]) c"

fun b64_decode_loop :: "string \<Rightarrow> w32 \<Rightarrow> nat \<Rightarrow> octet list \<Rightarrow> octet list option" where
  "b64_decode_loop [] bits nbits out = Some out"
| "b64_decode_loop (b # rest) bits nbits out =
     (if b \<in> set [CHR ''='', CHR 0x0A, CHR 0x0D, CHR '' ''] then b64_decode_loop rest bits nbits out
      else case b64_value b of
        None \<Rightarrow> None
      | Some v \<Rightarrow>
          let bits = push_bit 6 bits OR word_of_nat v; nbits = nbits + 6
          in if 8 \<le> nbits
             then b64_decode_loop rest bits (nbits - 8) (out @ [ucast (drop_bit (nbits - 8) bits)])
             else b64_decode_loop rest bits nbits out)"

definition base64_decode :: "string \<Rightarrow> octet list option" where
  "base64_decode input = b64_decode_loop input 0 0 []"

definition b64_char :: "w32 \<Rightarrow> char" where
  "b64_char w = B64_TABLE ! unat (w AND 63)"

function b64_drain :: "w32 \<Rightarrow> nat \<Rightarrow> string \<Rightarrow> nat \<times> string" where
  "b64_drain bits nbits out =
     (if 6 \<le> nbits then b64_drain bits (nbits - 6) (out @ [b64_char (drop_bit (nbits - 6) bits)]) else (nbits, out))"
  by pat_completeness auto
termination by (relation "measure (\<lambda>(_, n, _). n)") auto

declare b64_drain.simps [simp del]

fun b64_encode_loop :: "octet list \<Rightarrow> w32 \<Rightarrow> nat \<Rightarrow> string \<Rightarrow> string" where
  "b64_encode_loop [] bits nbits out = (if 0 < nbits then out @ [b64_char (push_bit (6 - nbits) bits)] else out)"
| "b64_encode_loop (b # rest) bits nbits out =
     (let bits = push_bit 8 bits OR ucast b; (nbits, out) = b64_drain bits (nbits + 8) out
      in b64_encode_loop rest bits nbits out)"

definition base64_encode_nopad :: "octet list \<Rightarrow> string" where
  "base64_encode_nopad input = b64_encode_loop input 0 0 []"

lemma B64_TABLE_distinct: "distinct B64_TABLE" "length B64_TABLE = 64"
  by code_simp+

lemma b64_value_char: "b64_value (b64_char w) = Some (unat (w AND 63))"
proof -
  have "w AND 63 \<le> 63" by (rule word_and_le1)
  then have "unat (w AND 63) < 64" by (simp add: word_le_nat_alt)
  then show ?thesis
    using map_of_zip_nth [of B64_TABLE "[0..<64]" "unat (w AND 63)"] B64_TABLE_distinct
    by (simp add: b64_value_def b64_char_def)
qed

lemma b64_char_kept: "b64_char w \<notin> set [CHR ''='', CHR 0x0A, CHR 0x0D, CHR '' '']"
proof
  assume "b64_char w \<in> set [CHR ''='', CHR 0x0A, CHR 0x0D, CHR '' '']"
  moreover have "\<forall>c \<in> set [CHR ''='', CHR 0x0A, CHR 0x0D, CHR '' '']. b64_value c = None" by code_simp
  ultimately show False using b64_value_char [of w] by auto
qed

lemma decode_char:
  "b64_decode_loop (b64_char w # rest) bits nbits out =
     (let bits = push_bit 6 bits OR (w AND 63); nbits = nbits + 6
      in if 8 \<le> nbits
         then b64_decode_loop rest bits (nbits - 8) (out @ [ucast (drop_bit (nbits - 8) bits)])
         else b64_decode_loop rest bits nbits out)"
  using b64_char_kept [of w] by (simp add: b64_value_char del: List.set_simps)

lemma drain_out: "b64_drain bits nbits (out @ late) = (fst (b64_drain bits nbits late), out @ snd (b64_drain bits nbits late))"
proof (induction bits nbits late rule: b64_drain.induct)
  case (1 bits nbits late)
  then show ?case by (cases "6 \<le> nbits") (simp_all add: b64_drain.simps [of bits nbits])
qed

lemma encode_out: "b64_encode_loop input bits nbits (out @ late) = out @ b64_encode_loop input bits nbits late"
  by (induction input bits nbits late rule: b64_encode_loop.induct)
    (auto simp: Let_def drain_out split: prod.splits)

lemma encode_out': "NO_MATCH [] out \<Longrightarrow> b64_encode_loop input bits nbits out = out @ b64_encode_loop input bits nbits []"
  using encode_out [of input bits nbits out "[]"] by simp

text \<open>One turn of the encoder on a whole group and on the two short tails, whatever old bits are still in the word.\<close>

lemma drain_steps:
  "b64_drain bits 8 out = (2, out @ [b64_char (drop_bit 2 bits)])"
  "b64_drain bits 10 out = (4, out @ [b64_char (drop_bit 4 bits)])"
  "b64_drain bits 12 out = (0, out @ [b64_char (drop_bit 6 bits), b64_char bits])"
  by (simp_all add: b64_drain.simps)

lemma encode_group:
  "b64_encode_loop (a # b # c # rest) g 0 [] =
     (let x = push_bit 8 g OR ucast a; y = push_bit 8 x OR ucast b; z = push_bit 8 y OR ucast c
      in [b64_char (drop_bit 2 x), b64_char (drop_bit 4 y), b64_char (drop_bit 6 z), b64_char z] @ b64_encode_loop rest z 0 [])"
  "b64_encode_loop [a, b] g 0 [] =
     (let x = push_bit 8 g OR ucast a; y = push_bit 8 x OR ucast b
      in [b64_char (drop_bit 2 x), b64_char (drop_bit 4 y), b64_char (push_bit 2 y)])"
  "b64_encode_loop [a] g 0 [] =
     (let x = push_bit 8 g OR ucast a in [b64_char (drop_bit 2 x), b64_char (push_bit 4 x)])"
  by (simp_all add: Let_def drain_steps encode_out')

lemma octet_eqI:
  fixes x y :: octet
  assumes "bit x 0 = bit y 0" "bit x 1 = bit y 1" "bit x 2 = bit y 2" "bit x 3 = bit y 3"
    "bit x 4 = bit y 4" "bit x 5 = bit y 5" "bit x 6 = bit y 6" "bit x 7 = bit y 7"
  shows "x = y"
proof (rule bit_word_eqI)
  fix n assume "n < LENGTH(8)"
  then consider "n = 0" | "n = 1" | "n = 2" | "n = 3" | "n = 4" | "n = 5" | "n = 6" | "n = 7"
    by fastforce
  then show "bit x n = bit y n" by cases (use assms in simp_all)
qed

lemma group_bytes:
  fixes a b c :: octet and g h x y z :: w32
  defines "x \<equiv> push_bit 8 g OR ucast a" and "y \<equiv> push_bit 8 x OR ucast b" and "z \<equiv> push_bit 8 y OR ucast c"
  defines "p \<equiv> push_bit 6 (push_bit 6 h OR (drop_bit 2 x AND 63)) OR (drop_bit 4 y AND 63)"
  shows "ucast (drop_bit 4 p) = a"
    and "ucast (drop_bit 2 (push_bit 6 p OR (drop_bit 6 z AND 63))) = b"
    and "ucast (push_bit 6 (push_bit 6 p OR (drop_bit 6 z AND 63)) OR (z AND 63)) = c"
proof -
  have m: "w AND 63 = take_bit 6 w" for w :: w32
    by (simp add: take_bit_eq_mask mask_eq_decr_exp)
  have high: "\<not> bit w n" if "8 \<le> n" for w :: octet and n
    using that by (simp add: impossible_bit)
  note defs = p_def x_def y_def z_def m
  show "ucast (drop_bit 4 p) = a"
    unfolding defs by (rule octet_eqI) (simp_all add: bit_simps high)
  show "ucast (drop_bit 2 (push_bit 6 p OR (drop_bit 6 z AND 63))) = b"
    unfolding defs by (rule octet_eqI) (simp_all add: bit_simps high)
  show "ucast (push_bit 6 (push_bit 6 p OR (drop_bit 6 z AND 63)) OR (z AND 63)) = c"
    unfolding defs by (rule octet_eqI) (simp_all add: bit_simps high)
qed

lemma tail_bytes:
  fixes a b :: octet and g h x y :: w32
  defines "x \<equiv> push_bit 8 g OR ucast a" and "y \<equiv> push_bit 8 x OR ucast b"
  shows "ucast (drop_bit 4 (push_bit 6 (push_bit 6 h OR (drop_bit 2 x AND 63)) OR (push_bit 4 x AND 63))) = a"
    and "ucast (drop_bit 2 (push_bit 6 (push_bit 6 (push_bit 6 h OR (drop_bit 2 x AND 63)) OR (drop_bit 4 y AND 63)) OR
           (push_bit 2 y AND 63))) = b"
proof -
  have m: "w AND 63 = take_bit 6 w" for w :: w32
    by (simp add: take_bit_eq_mask mask_eq_decr_exp)
  have high: "\<not> bit w n" if "8 \<le> n" for w :: octet and n
    using that by (simp add: impossible_bit)
  note defs = x_def y_def m
  show "ucast (drop_bit 4 (push_bit 6 (push_bit 6 h OR (drop_bit 2 x AND 63)) OR (push_bit 4 x AND 63))) = a"
    unfolding defs by (rule octet_eqI) (simp_all add: bit_simps high)
  show "ucast (drop_bit 2 (push_bit 6 (push_bit 6 (push_bit 6 h OR (drop_bit 2 x AND 63)) OR (drop_bit 4 y AND 63)) OR
      (push_bit 2 y AND 63))) = b"
    unfolding defs by (rule octet_eqI) (simp_all add: bit_simps high)
qed

lemma decode_chars:
  "b64_decode_loop (b64_char w0 # b64_char w1 # b64_char w2 # b64_char w3 # rest) h 0 out =
     (let p = push_bit 6 (push_bit 6 h OR (w0 AND 63)) OR (w1 AND 63);
          q = push_bit 6 p OR (w2 AND 63); r = push_bit 6 q OR (w3 AND 63)
      in b64_decode_loop rest r 0 (out @ [ucast (drop_bit 4 p), ucast (drop_bit 2 q), ucast r]))"
  "b64_decode_loop [b64_char w0, b64_char w1] h 0 out =
     Some (out @ [ucast (drop_bit 4 (push_bit 6 (push_bit 6 h OR (w0 AND 63)) OR (w1 AND 63)))])"
  "b64_decode_loop [b64_char w0, b64_char w1, b64_char w2] h 0 out =
     (let p = push_bit 6 (push_bit 6 h OR (w0 AND 63)) OR (w1 AND 63)
      in Some (out @ [ucast (drop_bit 4 p), ucast (drop_bit 2 (push_bit 6 p OR (w2 AND 63)))]))"
  by (simp_all add: decode_char Let_def del: b64_decode_loop.simps(2))

lemma base64_loops: "b64_decode_loop (b64_encode_loop input g 0 []) h 0 out = Some (out @ input)"
proof (induction input arbitrary: g h out rule: base64url.induct)
  case (1 a b c rest)
  show ?case
    unfolding encode_group Let_def append_Cons append_Nil decode_chars group_bytes 1 [OF refl] by simp
next
  case (2 a b)
  show ?case unfolding encode_group Let_def decode_chars group_bytes(1) tail_bytes ..
next
  case (3 a)
  show ?case unfolding encode_group Let_def decode_chars tail_bytes ..
qed simp

text \<open>Padding and line breaks behind the digits change nothing.\<close>

lemma decode_tail:
  "list_all (\<lambda>c. c \<in> set [CHR ''='', CHR 0x0A, CHR 0x0D, CHR '' '']) pad \<Longrightarrow>
     b64_decode_loop (digits @ pad) bits nbits out = b64_decode_loop digits bits nbits out"
proof (induction digits bits nbits out rule: b64_decode_loop.induct)
  case (1 bits nbits out)
  then show ?case by (induction pad) auto
qed (auto simp: Let_def split: option.split)

lemma base64_round_trip:
  "list_all (\<lambda>c. c \<in> set [CHR ''='', CHR 0x0A, CHR 0x0D, CHR '' '']) pad \<Longrightarrow>
     base64_decode (base64_encode_nopad input @ pad) = Some input"
  by (simp add: base64_decode_def base64_encode_nopad_def decode_tail base64_loops del: List.set_simps)

section \<open>The Authorization header\<close>

text \<open>\<^verbatim>\<open>str::split_at\<close> panics between the bytes of one character.\<close>

datatype 'a answer = Panic | Answer 'a

definition char_boundary :: "string \<Rightarrow> nat \<Rightarrow> bool" where
  "char_boundary s i = (i = 0 \<or> i = length s \<or> i < length s \<and> \<not> continuation_byte (s ! i))"

definition strip_ci_prefix :: "string \<Rightarrow> string \<Rightarrow> string option answer" where
  "strip_ci_prefix input prefix =
     (if length input < length prefix then Answer None
      else if \<not> char_boundary input (length prefix) then Panic
      else if eq_ignore_ascii_case (take (length prefix) input) prefix
      then Answer (Some (drop (length prefix) input)) else Answer None)"

definition as_text :: "octet list \<Rightarrow> string" where
  "as_text bytes = map (\<lambda>b. char_of (unat b)) bytes"

definition basic_password :: "string \<Rightarrow> string option" where
  "basic_password rest =
     (case base64_decode (str_trim rest) of
        None \<Rightarrow> None
      | Some bytes \<Rightarrow>
          if \<not> utf8_valid (as_text bytes) then None
          else let pass = (case split_once (CHR '':'') (as_text bytes) of
                   None \<Rightarrow> as_text bytes | Some (_, p) \<Rightarrow> p)
            in if pass = [] then None else Some pass)"

definition extract_bearer_or_basic :: "string \<Rightarrow> string option answer" where
  "extract_bearer_or_basic header =
     (let authorization = str_trim header
      in case strip_ci_prefix authorization ''bearer '' of
           Panic \<Rightarrow> Panic
         | Answer (Some rest) \<Rightarrow> Answer (let token = str_trim rest in if token = [] then None else Some token)
         | Answer None \<Rightarrow>
             (case strip_ci_prefix authorization ''basic '' of
                Panic \<Rightarrow> Panic
              | Answer (Some rest) \<Rightarrow> Answer (basic_password rest)
              | Answer None \<Rightarrow> Answer None))"

section \<open>SSH commands\<close>

text \<open>
  \<^verbatim>\<open>ssh_fingerprint\<close>: the first field that is not an algorithm name, decoded, hashed and encoded again.
\<close>

definition ssh_fingerprint :: "string \<Rightarrow> gitd_error + string" where
  "ssh_fingerprint pubkey =
     (let pubkey = str_trim pubkey
      in if pubkey = [] then Inl (InvalidInput ''empty ssh public key'')
         else let blob = (case find (\<lambda>tok. \<not> starts_with tok ''ssh-'' \<and> \<not> starts_with tok ''ecdsa-'' \<and>
                                 \<not> starts_with tok ''sk-'') (split_whitespace pubkey) of
                   None \<Rightarrow> pubkey | Some tok \<Rightarrow> tok)
           in case base64_decode blob of
                None \<Rightarrow> Inl (InvalidInput ''invalid base64 in ssh public key'')
              | Some decoded \<Rightarrow> Inr (''SHA256:'' @ base64_encode_nopad (sha256 decoded)))"

definition register_ssh_key :: "git_env \<Rightarrow> string \<Rightarrow> string \<Rightarrow> auth_registry \<Rightarrow> (gitd_error + string) \<times> auth_registry" where
  "register_ssh_key ge owner pubkey reg =
     (case ssh_fingerprint pubkey of
        Inl e \<Rightarrow> (Inl e, reg)
      | Inr fingerprint \<Rightarrow>
          let reg = reg\<lparr>ar_file := (ar_file reg)\<lparr>sf_ssh_keys :=
                bt_put fingerprint \<lparr>pr_login = owner, pr_scopes = [SCOPE_READ, SCOPE_WRITE]\<rparr> (sf_ssh_keys (ar_file reg))\<rparr>\<rparr>
          in case flush_registry ge reg of
               (Inl e, reg) \<Rightarrow> (Inl e, reg)
             | (Inr _, reg) \<Rightarrow> (Inr fingerprint, reg))"

definition lookup_ssh_key :: "auth_registry \<Rightarrow> string \<Rightarrow> principal option" where
  "lookup_ssh_key reg fingerprint = map_of (sf_ssh_keys (ar_file reg)) (str_trim fingerprint)"

record ssh_git_command =
  sc_service :: string
  sc_owner :: string
  sc_repo_git :: string

text \<open>\<^verbatim>\<open>splitn(2, char::is_whitespace)\<close>, with the width of the white space found.\<close>

fun split_at_ws :: "string \<Rightarrow> string \<times> string option" where
  "split_at_ws [] = ([], None)"
| "split_at_ws (c # cs) =
     (if ws_front (c # cs) \<noteq> 0 then ([], Some (drop (ws_front (c # cs)) (c # cs)))
      else case split_at_ws cs of (a, b) \<Rightarrow> (c # a, b))"

definition trim_matches :: "char \<Rightarrow> string \<Rightarrow> string" where
  "trim_matches c s = trim_end_matches c (trim_start_matches c s)"

text \<open>\<^verbatim>\<open>validate_segment\<close> of \<^verbatim>\<open>path.rs\<close>.\<close>

definition check_segment :: "string \<Rightarrow> string \<Rightarrow> gitd_error + unit" where
  "check_segment name field =
     (if name = [] then Inl (InvalidPath (field @ '' cannot be empty''))
      else if name = ''.'' \<or> name = ''..'' then Inl (InvalidPath (field @ '' cannot be '' @ name))
      else if CHR ''/'' \<in> set name \<or> CHR 0x5C \<in> set name \<or> CHR 0x00 \<in> set name
      then Inl (InvalidPath (field @ '' contains a path separator or NUL''))
      else if starts_with name ''-'' then Inl (InvalidPath (field @ '' cannot start with '' @ [CHR 0x27] @ ''-'' @ [CHR 0x27]))
      else Inr ())"

definition normalize_repo_name :: "string \<Rightarrow> gitd_error + string" where
  "normalize_repo_name repo =
     (let repo = trim_matches (CHR ''/'') repo;
          repo = (case strip_suffix repo ''.git'' of None \<Rightarrow> repo | Some r \<Rightarrow> r)
      in try_res (check_segment repo ''repo'') (\<lambda>_. Inr (repo @ ''.git'')))"

text \<open>
  \<^verbatim>\<open>safe_join\<close>: a path is a byte string, its components are what \<^verbatim>\<open>Path::components\<close> yields on Unix, and
  \<^verbatim>\<open>push\<close> puts a separator where none is.
\<close>

datatype path_component = RootDir | CurDir | ParentDir | NormalDir string

fun component_of :: "string \<Rightarrow> path_component" where
  "component_of part = (if part = ''.'' then CurDir else if part = ''..'' then ParentDir else NormalDir part)"

definition path_components :: "string \<Rightarrow> path_component list" where
  "path_components p =
     (if starts_with p ''/'' then [RootDir] else if split_on (CHR ''/'') p \<noteq> [] \<and> hd (split_on (CHR ''/'') p) = ''.'' then [CurDir] else [])
     @ map component_of [part \<leftarrow> split_on (CHR ''/'') p. part \<noteq> [] \<and> part \<noteq> ''.'']"

definition path_push :: "string \<Rightarrow> string \<Rightarrow> string" where
  "path_push out part = (if out = [] \<or> ends_with out ''/'' then out @ part else out @ ''/'' @ part)"

fun join_components :: "string \<Rightarrow> string \<Rightarrow> path_component list \<Rightarrow> gitd_error + string" where
  "join_components relative out [] = Inr out"
| "join_components relative out (NormalDir part # rest) = join_components relative (path_push out part) rest"
| "join_components relative out (CurDir # rest) = join_components relative out rest"
| "join_components relative out (_ # rest) = Inl (InvalidPath (''path escapes root: '' @ relative))"

definition safe_join :: "string \<Rightarrow> string \<Rightarrow> gitd_error + string" where
  "safe_join root relative = join_components relative root (path_components relative)"

definition ssh_parse :: "string \<Rightarrow> gitd_error + ssh_git_command" where
  "ssh_parse input =
     (case split_at_ws (str_trim input) of
        (service, None) \<Rightarrow> Inl (InvalidInput ''ssh command missing repository path'')
      | (service, Some rest) \<Rightarrow>
          let rest = str_trim rest
          in if service \<noteq> ''git-upload-pack'' \<and> service \<noteq> ''git-receive-pack''
             then Inl (InvalidInput (''unsupported ssh git service: '' @ service))
             else let repo_path = trim_start_matches (CHR ''/'') (trim_matches (CHR 0x27) (trim_matches (CHR 0x22) rest))
               in case split_on (CHR ''/'') repo_path of
                    [owner, repo] \<Rightarrow>
                      try_res (check_segment owner ''owner'') (\<lambda>_.
                      try_res (normalize_repo_name repo) (\<lambda>repo_git.
                        Inr \<lparr>sc_service = service, sc_owner = owner, sc_repo_git = repo_git\<rparr>))
                  | _ \<Rightarrow> Inl (InvalidPath (''ssh repo path must be owner/repo.git, got '' @ repo_path)))"

definition ssh_repo_path :: "string \<Rightarrow> ssh_git_command \<Rightarrow> gitd_error + string" where
  "ssh_repo_path root cmd = try_res (safe_join root (sc_owner cmd)) (\<lambda>owner. safe_join owner (sc_repo_git cmd))"

definition ssh_is_write :: "ssh_git_command \<Rightarrow> bool" where
  "ssh_is_write cmd = (sc_service cmd = ''git-receive-pack'')"

definition authorize_ssh :: "auth_registry \<Rightarrow> ssh_git_command \<Rightarrow> string option \<Rightarrow> bool \<Rightarrow> gitd_error + principal" where
  "authorize_ssh reg cmd fingerprint is_loopback =
     try_res (case fingerprint of
          Some fp \<Rightarrow> ok_or (lookup_ssh_key reg fp) Unauthorized
        | None \<Rightarrow> if \<not> ssh_is_write cmd \<and> is_loopback then Inr local_operator else Inl Unauthorized) (\<lambda>p.
       if (if ssh_is_write cmd then can_write_owner p (sc_owner cmd) else can_read_owner p (sc_owner cmd)) then Inr p
       else Inl (GitdForbidden (pr_login p @ '' not authorized to '' @
         (if ssh_is_write cmd then ''push to'' else ''read'') @ '' '' @ sc_owner cmd)))"

section \<open>Tokens open what they were minted for\<close>

lemma as_text_bytes [simp]: "as_text (as_bytes s) = s"
proof -
  have "char_of (unat (of_char c :: octet)) = c" for c
  proof -
    have word: "(of_char c :: octet) = of_nat (of_char c)" by (rule of_nat_of_char [symmetric])
    have "unat (of_char c :: octet) = of_char c mod 256" unfolding word unat_of_nat by simp
    then show ?thesis by simp
  qed
  then show ?thesis by (simp add: as_text_def as_bytes_def comp_def)
qed

definition is_ascii :: "string \<Rightarrow> bool" where
  "is_ascii s = list_all (\<lambda>c. byte c < 128) s"

definition lower_hex :: "string \<Rightarrow> bool" where
  "lower_hex s = list_all (\<lambda>c. c \<in> set ''0123456789abcdef'') s"

lemma nibble_bound: "b \<le> 15 \<Longrightarrow> unat (b::octet) < 16"
  by (simp add: word_le_nat_alt)

lemma hex_octet_lower: "lower_hex (hex_octet b)"
proof -
  have "drop_bit 4 b AND 15 = drop_bit 4 b"
    by (rule octet_eqI) (simp_all add: bit_simps impossible_bit)
  moreover have "drop_bit 4 b AND 15 \<le> 15" by (rule word_and_le1)
  ultimately have "unat (drop_bit 4 b) < 16" by (metis nibble_bound)
  moreover have "unat (b AND 15) < 16" by (rule nibble_bound) (rule word_and_le1)
  ultimately have "\<forall>i \<in> {unat (drop_bit 4 b), unat (b AND 15)}. ''0123456789abcdef'' ! i \<in> set ''0123456789abcdef''"
    by (intro ballI nth_mem) auto
  then show ?thesis unfolding lower_hex_def hex_octet_def by (simp del: nth_Cons_numeral List.set_simps)
qed

lemma sha256_hex_lower: "lower_hex (sha256_hex input)"
  unfolding sha256_hex_def lower_hex_def
  using hex_octet_lower by (auto simp: lower_hex_def list_all_iff simp del: List.set_simps)

lemma lower_hex_char: "c \<in> set ''0123456789abcdef'' \<Longrightarrow> printing c \<and> byte c < 128 \<and> c \<noteq> CHR ''_'' \<and> c \<noteq> CHR '':''"
proof -
  have "list_all (\<lambda>c. printing c \<and> byte c < 128 \<and> c \<noteq> CHR ''_'' \<and> c \<noteq> CHR '':'') ''0123456789abcdef''" by code_simp
  then show "c \<in> set ''0123456789abcdef'' \<Longrightarrow> ?thesis" unfolding list_all_iff by blast
qed

lemma lower_hex_facts:
  assumes "lower_hex s"
  shows "list_all printing s" and "is_ascii s" and "CHR ''_'' \<notin> set s" and "CHR '':'' \<notin> set s"
  using assms lower_hex_char
  by (auto simp: lower_hex_def is_ascii_def list_all_iff simp del: List.set_simps)

lemma take_lower_hex: "lower_hex s \<Longrightarrow> lower_hex (take n s)"
  unfolding lower_hex_def list_all_iff by (auto simp del: List.set_simps dest: in_set_takeD)

lemma fresh_id_Inr:
  "fresh_id ge reg n k = Inr (candidate, m) \<Longrightarrow>
     lower_hex candidate \<and> map_of (sf_pats (ar_file reg)) candidate = None"
  by (induction ge reg n k rule: fresh_id.induct)
    (auto simp: Let_def gitd_random_token_def take_lower_hex sha256_hex_lower split: if_splits)

lemma split_once_before: "c \<notin> set a \<Longrightarrow> split_once c (a @ c # b) = Some (a, b)"
  by (induction a) auto

lemma mint_pat_Inr:
  assumes "mint_pat ge login scopes reg = (Inr p, reg')"
  obtains row where "lower_hex (pt_id p)" "lower_hex (pt_secret p)"
    "map_of (sf_pats (ar_file reg)) (pt_id p) = None"
    "ar_disk reg' = Some (ar_file reg')"
    "ar_file reg' = (ar_file reg)\<lparr>sf_pats := bt_put (pt_id p) row (sf_pats (ar_file reg))\<rparr>"
    "pa_secret_hash row = sha256_hex (as_bytes (pt_secret p))"
    "pa_principal row = \<lparr>pr_login = login, pr_scopes = scopes\<rparr>"
proof -
  from assms show thesis
    by (auto simp: mint_pat_def flush_registry_def Let_def gitd_random_token_def sha256_hex_lower
        dest!: fresh_id_Inr intro!: that split: sum.splits)
qed

lemma pat_text_printing:
  assumes "lower_hex (pt_id p)" and "lower_hex (pt_secret p)"
  shows "list_all printing (pat_text p)"
proof -
  have "list_all printing ''jpat_''" "list_all printing ''_''" by code_simp+
  then show ?thesis using lower_hex_facts [OF assms(1)] lower_hex_facts [OF assms(2)] by (simp add: pat_text_def)
qed

lemma pat_text_facts:
  assumes "lower_hex (pt_id p)" and "lower_hex (pt_secret p)"
  shows "str_trim (pat_text p) = pat_text p" and "is_ascii (pat_text p)"
    and "strip_prefix (pat_text p) ''jpat_'' = Some (pt_id p @ CHR ''_'' # pt_secret p)"
    and "pat_text p \<noteq> []"
proof -
  have plain: "is_ascii ''jpat_''" "is_ascii ''_''" by code_simp+
  note hex = lower_hex_facts [OF assms(1)] lower_hex_facts [OF assms(2)]
  show "str_trim (pat_text p) = pat_text p" using pat_text_printing [OF assms] by (rule trim_printing)
  show "is_ascii (pat_text p)" using plain hex by (simp add: pat_text_def is_ascii_def)
  show "strip_prefix (pat_text p) ''jpat_'' = Some (pt_id p @ CHR ''_'' # pt_secret p)" "pat_text p \<noteq> []"
    by (simp_all add: pat_text_def strip_prefix_def starts_with_def)
qed

lemma trim_framed:
  assumes "printing c" and "printing d"
  shows "str_trim (c # mid @ [d]) = c # mid @ [d]"
  using assms by (simp add: str_trim_def trim_front_Cons printing_front printing_back del: ws_front.simps ws_back.simps)

lemma trim_two: "printing c \<Longrightarrow> list_all printing s \<Longrightarrow> s \<noteq> [] \<Longrightarrow> str_trim (c # mid @ s) = c # mid @ s"
  by (cases s rule: rev_cases) (use trim_framed [of c _ "mid @ butlast s"] in simp_all)

lemma printing_no_continuation: "printing c \<Longrightarrow> \<not> continuation_byte c"
  by (simp add: printing_def continuation_byte_def)

lemma b64_table_printing: "list_all printing B64_TABLE"
  by code_simp

lemma b64_char_printing: "printing (b64_char w)"
proof -
  have "w AND 63 \<le> 63" by (rule word_and_le1)
  then have "unat (w AND 63) < length B64_TABLE" by (simp add: word_le_nat_alt B64_TABLE_distinct)
  then show ?thesis using b64_table_printing by (simp add: b64_char_def list_all_length)
qed

lemma b64_drain_printing:
  "list_all printing out \<Longrightarrow> list_all printing (snd (b64_drain bits nbits out))"
proof (induction bits nbits out rule: b64_drain.induct)
  case (1 bits nbits out)
  then show ?case by (cases "6 \<le> nbits") (simp_all add: b64_drain.simps [of bits nbits] b64_char_printing)
qed

lemma b64_loop_printing:
  "list_all printing out \<Longrightarrow> list_all printing (b64_encode_loop input bits nbits out)"
proof (induction input bits nbits out rule: b64_encode_loop.induct)
  case (2 b rest bits nbits out)
  let ?word = "push_bit 8 bits OR ucast b"
  have "list_all printing (snd (b64_drain ?word (nbits + 8) out))" by (rule b64_drain_printing) (rule 2)
  with 2(1) [OF refl refl prod.collapse] show ?case by (simp add: Let_def case_prod_unfold)
qed (simp add: b64_char_printing)

lemma b64_printing: "list_all printing (base64_encode_nopad input)"
  by (simp add: base64_encode_nopad_def b64_loop_printing)

lemma b64_nonempty: "input \<noteq> [] \<Longrightarrow> base64_encode_nopad input \<noteq> []"
  using base64_round_trip [of "[]" input] by (auto simp: base64_decode_def)

lemma bearer_header:
  assumes "list_all printing token" and "token \<noteq> []"
  shows "extract_bearer_or_basic (''Bearer '' @ token) = Answer (Some token)"
proof -
  have b: "printing (CHR ''B'')" by code_simp
  have "strip_ci_prefix (''Bearer '' @ token) ''bearer '' = Answer (Some token)"
  proof -
    have "eq_ignore_ascii_case ''Bearer '' ''bearer ''" by code_simp
    with assms show ?thesis
      by (cases token) (auto simp: strip_ci_prefix_def char_boundary_def printing_no_continuation)
  qed
  then show ?thesis
    using trim_two [OF b assms, of "''earer ''"] trim_printing [OF assms(1)] assms(2)
    by (simp add: extract_bearer_or_basic_def)
qed

lemma basic_header:
  assumes "list_all printing coded" and "coded \<noteq> []"
  shows "extract_bearer_or_basic (''Basic '' @ coded) = Answer (basic_password coded)"
proof -
  have b: "printing (CHR ''B'')" by code_simp
  have "strip_ci_prefix (''Basic '' @ coded) ''basic '' = Answer (Some coded)"
  proof -
    have "eq_ignore_ascii_case ''Basic '' ''basic ''" by code_simp
    with assms show ?thesis
      by (cases coded) (auto simp: strip_ci_prefix_def char_boundary_def printing_no_continuation)
  qed
  moreover have "strip_ci_prefix (''Basic '' @ coded) ''bearer '' = Answer None"
  proof -
    obtain c cs where c: "coded = c # cs" using assms(2) by (cases coded) auto
    have "to_ascii_lower (CHR ''a'') \<noteq> to_ascii_lower (CHR ''e'')" by code_simp
    then have "\<not> eq_ignore_ascii_case (''Basic '' @ [c]) ''bearer ''"
      by (simp add: eq_ignore_ascii_case_def to_ascii_lowercase_def)
    moreover have "char_boundary (''Basic '' @ coded) (length ''bearer '')"
      using assms(1) by (cases cs) (auto simp: c char_boundary_def printing_no_continuation)
    ultimately show ?thesis by (simp add: strip_ci_prefix_def c)
  qed
  ultimately show ?thesis
    using trim_two [OF b assms, of "''asic ''"] by (simp add: extract_bearer_or_basic_def)
qed

lemma basic_password_coded:
  assumes "is_ascii (user @ CHR '':'' # token)" and "CHR '':'' \<notin> set user" and "token \<noteq> []"
  shows "basic_password (base64_encode_nopad (as_bytes (user @ CHR '':'' # token))) = Some token"
proof -
  have "utf8_valid (user @ CHR '':'' # token)" using assms(1) unfolding is_ascii_def by (rule utf8_ascii)
  moreover have "split_once (CHR '':'') (user @ CHR '':'' # token) = Some (user, token)"
    using assms(2) by (rule split_once_before)
  moreover have "base64_decode (base64_encode_nopad (as_bytes (user @ CHR '':'' # token))) =
      Some (as_bytes (user @ CHR '':'' # token))"
    using base64_round_trip [of "[]"] by simp
  ultimately show ?thesis
    using trim_printing [OF b64_printing] assms(3) by (simp add: basic_password_def)
qed

lemma verify_row:
  assumes "strip_prefix token ''jpat_'' = Some (key @ CHR ''_'' # secret)" and "CHR ''_'' \<notin> set key"
    and "map_of (sf_pats (ar_file reg)) key = Some row" and "pa_secret_hash row = sha256_hex (as_bytes secret)"
    and "str_trim token = token" and "token \<noteq> []"
  shows "verify_pat reg token = Some (pa_principal row)"
  using assms split_once_before [OF assms(2), of secret]
  by (simp add: verify_pat_def secret_matches_def constant_time_eq_iff)

lemma decide_credential:
  "decide reg (Some token) loop owner wr =
     (case verify_pat reg token of None \<Rightarrow> Deny401
      | Some p \<Rightarrow> if (if wr then SCOPE_WRITE else SCOPE_READ) \<in> set (pr_scopes p) \<and>
                      (pr_login p = LOCAL_OPERATOR_LOGIN \<or> pr_login p = owner) then Allow p else Deny403)"
  by (auto simp: decide_def can_write_owner_def can_read_owner_def has_scope_def is_local_operator_def split: option.split)



section \<open>An SSH command stays inside the root\<close>

definition plain_segment :: "string \<Rightarrow> bool" where
  "plain_segment s = (s \<noteq> [] \<and> s \<noteq> ''.'' \<and> s \<noteq> ''..'' \<and> CHR ''/'' \<notin> set s)"

lemma check_segment_Inr: "check_segment name field = Inr u \<Longrightarrow> plain_segment name"
  by (auto simp: check_segment_def plain_segment_def split: if_splits)

lemma normalize_Inr:
  assumes "normalize_repo_name repo = Inr name"
  obtains bare where "plain_segment bare" "name = bare @ ''.git''" "plain_segment name"
proof -
  from assms obtain bare where "plain_segment bare" "name = bare @ ''.git''"
    by (auto simp: normalize_repo_name_def Let_def try_res_Inr dest: check_segment_Inr)
  moreover from this have "plain_segment name" by (auto simp: plain_segment_def append_eq_Cons_conv)
  ultimately show thesis by (rule that)
qed

lemma split_on_absent: "c \<notin> set s \<Longrightarrow> split_on c s = [s]"
  by (induction s) auto

lemma safe_join_plain: "plain_segment s \<Longrightarrow> safe_join root s = Inr (path_push root s)"
  by (cases s) (auto simp: plain_segment_def safe_join_def path_components_def split_on_absent starts_with_def)

lemma ssh_parse_Inr:
  assumes "ssh_parse input = Inr cmd"
  shows "plain_segment (sc_owner cmd) \<and> plain_segment (sc_repo_git cmd) \<and>
    (\<exists>bare. plain_segment bare \<and> sc_repo_git cmd = bare @ ''.git'') \<and>
    (sc_service cmd = ''git-upload-pack'' \<or> sc_service cmd = ''git-receive-pack'')"
proof -
  obtain service rest where at: "split_at_ws (str_trim input) = (service, Some rest)"
    using assms by (auto simp: ssh_parse_def split: prod.splits option.splits)
  define parts where "parts = split_on (CHR ''/'') (trim_start_matches (CHR ''/'')
    (trim_matches (CHR 0x27) (trim_matches (CHR 0x22) (str_trim rest))))"
  have service: "service = ''git-upload-pack'' \<or> service = ''git-receive-pack''"
    using assms by (auto simp: ssh_parse_def at Let_def split: if_splits)
  then obtain owner repo where parts: "parts = [owner, repo]"
    using assms unfolding parts_def by (auto simp: ssh_parse_def at Let_def split: list.splits if_splits)
  with assms service obtain name where "check_segment owner ''owner'' = Inr ()" "normalize_repo_name repo = Inr name"
      "cmd = \<lparr>sc_service = service, sc_owner = owner, sc_repo_git = name\<rparr>"
    unfolding parts_def by (auto simp: ssh_parse_def at Let_def try_res_Inr)
  with service show ?thesis by (auto dest: check_segment_Inr elim: normalize_Inr)
qed

text \<open>
  C27. A forced SSH command that the daemon parses names one repository directory below the root and one of the two pack services: the
  owner and the repository are single path segments, neither empty nor a dot name, the repository's ends in \<^verbatim>\<open>.git\<close> behind a
  plain name, and resolving them against the root succeeds and appends exactly those two segments, so no command reaches outside
  the root through dots, slashes or an absolute path.
\<close>

theorem ssh_path_inside_root:
  assumes "ssh_parse input = Inr cmd"
  shows "plain_segment (sc_owner cmd) \<and> plain_segment (sc_repo_git cmd) \<and>
    (\<exists>bare. plain_segment bare \<and> sc_repo_git cmd = bare @ ''.git'') \<and>
    (sc_service cmd = ''git-upload-pack'' \<or> sc_service cmd = ''git-receive-pack'') \<and>
    ssh_repo_path root cmd = Inr (path_push (path_push root (sc_owner cmd)) (sc_repo_git cmd))"
  using ssh_parse_Inr [OF assms] by (simp add: ssh_repo_path_def safe_join_plain)

lemma ssh_path_inside_root_witness:
  "\<exists>cmd. ssh_parse ''git-receive-pack acme/demo'' = Inr cmd \<and>
     ssh_repo_path ''/srv/git'' cmd = Inr ''/srv/git/acme/demo.git''"
proof -
  have parse: "ssh_parse ''git-receive-pack acme/demo'' =
      Inr \<lparr>sc_service = ''git-receive-pack'', sc_owner = ''acme'', sc_repo_git = ''demo.git''\<rparr>"
    by code_simp
  have "path_push (path_push ''/srv/git'' ''acme'') ''demo.git'' = ''/srv/git/acme/demo.git''" by code_simp
  then show ?thesis using parse ssh_path_inside_root [OF parse, of "''/srv/git''"] by simp
qed

end
