(* ===== verification/Git_Refs.thy ===== *)
theory Git_Refs
  imports Git_Wire
begin

text \<open>
  Who may move which ref (\<^verbatim>\<open>protection.rs\<close>, \<^verbatim>\<open>refs.rs\<close>, \<^verbatim>\<open>hooks.rs\<close>, \<^verbatim>\<open>object_fsck.rs\<close>, \<^verbatim>\<open>merge_base.rs\<close>): the rules of protected
  refs, the guarded update behind its symbolic refs, the server-side merge and the pre-receive guard. The commands of git are a record of
  functions on a repository \<open>'g\<close>: what the code sees of each is its exit status and its output, and the laws that
  documented git obeys are the hypothesis \<open>lawful_git\<close> of the theorems.
\<close>

section \<open>Protected refs\<close>

datatype ref_operation = RefCreate | RefUpdate | RefDelete

record ref_change =
  rg_actor :: string
  rg_ref_name :: string
  rg_old_oid :: string
  rg_new_oid :: string
  rg_operation :: ref_operation
  rg_force :: bool

record protected_ref_rule =
  pf_pattern :: string
  pf_deny_delete :: bool
  pf_deny_force :: bool
  pf_bypass_actors :: "string list"

definition default_phase1_rules :: "protected_ref_rule list" where
  "default_phase1_rules =
     [\<lparr>pf_pattern = ''refs/heads/main'', pf_deny_delete = True, pf_deny_force = True,
       pf_bypass_actors = [''system:mirror'']\<rparr>,
      \<lparr>pf_pattern = ''refs/tags/*'', pf_deny_delete = True, pf_deny_force = True, pf_bypass_actors = []\<rparr>]"

definition matches_pattern :: "string \<Rightarrow> string \<Rightarrow> bool" where
  "matches_pattern pattern val =
     (if pattern = val then True
      else case strip_suffix pattern ''*'' of Some prefix \<Rightarrow> starts_with val prefix | None \<Rightarrow> False)"

definition rule_evaluate :: "protected_ref_rule \<Rightarrow> ref_change \<Rightarrow> gitd_error + unit" where
  "rule_evaluate rule change =
     (if \<not> matches_pattern (pf_pattern rule) (rg_ref_name change) \<or>
         list_ex (\<lambda>a. a = rg_actor change) (pf_bypass_actors rule)
      then Inr ()
      else if pf_deny_delete rule \<and> rg_operation change = RefDelete
      then Inl (ProtectedRefDenied (rg_actor change @ '' cannot delete '' @ rg_ref_name change))
      else if pf_deny_force rule \<and> rg_force change
      then Inl (ProtectedRefDenied (rg_actor change @ '' cannot force-update '' @ rg_ref_name change))
      else Inr ())"

fun evaluate_rules :: "protected_ref_rule list \<Rightarrow> ref_change \<Rightarrow> gitd_error + unit" where
  "evaluate_rules [] change = Inr ()"
| "evaluate_rules (rule # rules) change = try_res (rule_evaluate rule change) (\<lambda>_. evaluate_rules rules change)"

section \<open>Git\<close>

text \<open>
  The answers of git: the exit code and the text of the standard output and error, or the error of starting it. \<open>run_captured\<close> is
  \<^verbatim>\<open>run_capture\<close> of \<^verbatim>\<open>command.rs\<close>, which turns an exit code other than 0 into \<open>GitCommandFailed\<close>. \<open>gc_record_push\<close> is the marker, the receipt
  and the observer of \<^verbatim>\<open>record_push\<close>; \<open>gc_archived\<close> is the marker file of an archived repository.
\<close>

record command_output =
  out_code :: "int option"
  out_stdout :: string
  out_stderr :: string

definition succeeded :: "command_output \<Rightarrow> bool" where
  "succeeded out = (out_code out = Some 0)"

definition run_captured :: "string list \<Rightarrow> gitd_error + command_output \<Rightarrow> gitd_error + string" where
  "run_captured argv result =
     try_res result (\<lambda>out. if succeeded out then Inr (out_stdout out)
       else Inl (GitCommandFailed (join '' '' argv) (out_code out) (out_stderr out)))"

record 'g git_commands =
  gc_bin :: string
  gc_check_ref_format :: "string \<Rightarrow> gitd_error + command_output"
  gc_symbolic_ref :: "'g \<Rightarrow> string \<Rightarrow> gitd_error + command_output"
  gc_rev_parse :: "'g \<Rightarrow> string \<Rightarrow> gitd_error + command_output"
  gc_is_ancestor :: "'g \<Rightarrow> string \<Rightarrow> string \<Rightarrow> gitd_error + command_output"
  gc_merge_base :: "'g \<Rightarrow> string \<Rightarrow> string \<Rightarrow> gitd_error + command_output"
  gc_merge_tree :: "'g \<Rightarrow> string \<Rightarrow> string \<Rightarrow> gitd_error + command_output"
  gc_commit_tree :: "'g \<Rightarrow> string \<Rightarrow> string \<Rightarrow> string \<Rightarrow> string \<Rightarrow> (gitd_error + command_output) \<times> 'g"
  gc_update_ref :: "'g \<Rightarrow> string \<Rightarrow> string \<Rightarrow> string \<Rightarrow> (gitd_error + command_output) \<times> 'g"
  gc_for_each_ref :: "'g \<Rightarrow> gitd_error + command_output"
  gc_rev_list_new :: "'g \<Rightarrow> string \<Rightarrow> gitd_error + command_output"
  gc_batch_check :: "'g \<Rightarrow> string \<Rightarrow> gitd_error + command_output"
  gc_archived :: "'g \<Rightarrow> bool"
  gc_slug :: "'g \<Rightarrow> string"
  gc_record_push :: "'g \<Rightarrow> (gitd_error + unit) \<times> 'g"

definition ensure_writable :: "'g git_commands \<Rightarrow> 'g \<Rightarrow> gitd_error + unit" where
  "ensure_writable G g = (if gc_archived G g then Inl (RepositoryArchived (gc_slug G g)) else Inr ())"

section \<open>Ref names\<close>

definition ZERO_OID :: string where
  "ZERO_OID = replicate 40 (CHR ''0'')"

definition is_zero_oid :: "string \<Rightarrow> bool" where
  "is_zero_oid oid = (length oid = 40 \<and> list_all (\<lambda>c. c = CHR ''0'') oid)"

definition validate_ref_name :: "'g git_commands \<Rightarrow> string \<Rightarrow> gitd_error + unit" where
  "validate_ref_name G name =
     (if CHR 0x00 \<in> set name \<or> starts_with name ''-'' then Inl (InvalidInput ''invalid ref name'')
      else if \<not> starts_with name ''refs/'' \<or> length (split_on (CHR ''/'') name) < 3
      then Inl (InvalidInput (''ref name must be fully qualified as refs/<kind>/<name>: '' @ name))
      else try_res (run_captured [gc_bin G, ''check-ref-format'', name] (gc_check_ref_format G name)) (\<lambda>_. Inr ()))"

definition MAX_SYMREF_DEPTH :: nat where
  "MAX_SYMREF_DEPTH = 8"

fun symref_loop :: "'g git_commands \<Rightarrow> 'g \<Rightarrow> string \<Rightarrow> nat \<Rightarrow> string \<Rightarrow> gitd_error + string" where
  "symref_loop G g name 0 current =
     Inl (InvalidInput (''symbolic ref '' @ name @ '' does not resolve to a direct ref''))"
| "symref_loop G g name (Suc n) current =
     try_res (gc_symbolic_ref G g current) (\<lambda>out.
       if \<not> succeeded out then Inr current
       else let target = str_trim (out_stdout out)
         in if target = [] \<or> target = current then Inr current
            else try_res (validate_ref_name G target) (\<lambda>_. symref_loop G g name n target))"

definition resolve_symbolic_ref :: "'g git_commands \<Rightarrow> 'g \<Rightarrow> string \<Rightarrow> gitd_error + string" where
  "resolve_symbolic_ref G g name = symref_loop G g name MAX_SYMREF_DEPTH name"

section \<open>Commits\<close>

definition is_ancestor :: "'g git_commands \<Rightarrow> 'g \<Rightarrow> string \<Rightarrow> string \<Rightarrow> gitd_error + bool" where
  "is_ancestor G g old_oid new_oid = try_res (gc_is_ancestor G g old_oid new_oid) (\<lambda>out. Inr (succeeded out))"

definition commit_spec :: "string \<Rightarrow> string" where
  "commit_spec revision = revision @ ''^{commit}''"

definition resolve_commit :: "'g git_commands \<Rightarrow> 'g \<Rightarrow> string \<Rightarrow> gitd_error + string option" where
  "resolve_commit G g revision =
     (if str_trim revision = [] then Inr None
      else try_res (gc_rev_parse G g (commit_spec revision)) (\<lambda>out.
        if \<not> succeeded out then Inr None
        else let oid = str_trim (out_stdout out) in if oid = [] then Inr None else Inr (Some oid)))"

definition verify_commit :: "'g git_commands \<Rightarrow> 'g \<Rightarrow> string \<Rightarrow> gitd_error + unit" where
  "verify_commit G g oid =
     try_res (gc_rev_parse G g (commit_spec oid)) (\<lambda>out.
       if succeeded out then Inr ()
       else Inl (InvalidInput (''oid is not a commit in this repository: '' @ oid)))"

record git_ref =
  gf_name :: string
  gf_oid :: string

fun ref_line :: "string list \<Rightarrow> git_ref option" where
  "ref_line (name # oid # _) = Some \<lparr>gf_name = name, gf_oid = oid\<rparr>"
| "ref_line _ = None"

definition list_refs :: "'g git_commands \<Rightarrow> 'g \<Rightarrow> gitd_error + git_ref list" where
  "list_refs G g =
     try_res (run_captured [gc_bin G, ''for-each-ref'', ''--format=%(refname) %(objectname)''] (gc_for_each_ref G g)) (\<lambda>text.
       Inr (List.map_filter (\<lambda>line. ref_line (split_whitespace line)) (str_lines text)))"

section \<open>Moving a ref\<close>

definition force_update ::
  "'g git_commands \<Rightarrow> 'g \<Rightarrow> string \<Rightarrow> string \<Rightarrow> string option \<Rightarrow> ref_operation \<Rightarrow> gitd_error + bool" where
  "force_update G g name new_oid old_oid operation =
     (case old_oid of
        None \<Rightarrow> Inr False
      | Some old \<Rightarrow>
          if operation \<noteq> RefUpdate \<or> is_zero_oid old \<or> is_zero_oid new_oid then Inr False
          else if starts_with name ''refs/tags/'' then Inr True
          else if \<not> starts_with name ''refs/heads/'' then Inr False
          else try_res (is_ancestor G g old new_oid) (\<lambda>ancestor. Inr (\<not> ancestor)))"

definition old_or_zero :: "string option \<Rightarrow> string" where
  "old_or_zero old_oid = (case old_oid of None \<Rightarrow> ZERO_OID | Some old \<Rightarrow> old)"

definition write_ref :: "'g git_commands \<Rightarrow> 'g \<Rightarrow> string \<Rightarrow> string \<Rightarrow> string option \<Rightarrow> (gitd_error + unit) \<times> 'g" where
  "write_ref G g name new_oid old_oid =
     (case gc_update_ref G g name new_oid (old_or_zero old_oid) of
        (result, g) \<Rightarrow>
          (case run_captured [gc_bin G, ''update-ref'', name, new_oid, old_or_zero old_oid] result of
             Inl e \<Rightarrow> (Inl e, g)
           | Inr _ \<Rightarrow> gc_record_push G g))"

definition update_ref ::
  "'g git_commands \<Rightarrow> protected_ref_rule list \<Rightarrow> string \<Rightarrow> string \<Rightarrow> string \<Rightarrow> string option \<Rightarrow> 'g \<Rightarrow>
   (gitd_error + unit) \<times> 'g" where
  "update_ref G rules actor name new_oid old_oid g =
     try_pure (validate_ref_name G name) g (\<lambda>_.
     try_pure (ensure_writable G g) g (\<lambda>_.
     try_pure (resolve_symbolic_ref G g name) g (\<lambda>name.
       let operation = (if is_zero_oid new_oid then RefDelete else if old_oid \<noteq> None then RefUpdate else RefCreate)
       in try_pure (force_update G g name new_oid old_oid operation) g (\<lambda>force.
          let change = \<lparr>rg_actor = actor, rg_ref_name = name, rg_old_oid = old_or_zero old_oid, rg_new_oid = new_oid,
                rg_operation = operation, rg_force = force\<rparr>
          in try_pure (evaluate_rules rules change) g (\<lambda>_. write_ref G g name new_oid old_oid)))))"

section \<open>Merging a pull request\<close>

record merge_outcome =
  mc_merge_oid :: string
  mc_fast_forward :: bool

definition first_line :: "string \<Rightarrow> string" where
  "first_line s = (case str_lines s of [] \<Rightarrow> [] | l # _ \<Rightarrow> str_trim l)"

definition merge_tree :: "'g git_commands \<Rightarrow> 'g \<Rightarrow> string \<Rightarrow> string \<Rightarrow> gitd_error + string" where
  "merge_tree G g base_oid head_oid =
     try_res (gc_merge_tree G g base_oid head_oid) (\<lambda>out.
       let failed = Inl (GitCommandFailed (gc_bin G @ '' merge-tree --write-tree'') (out_code out) (out_stderr out))
       in if succeeded out then (if first_line (out_stdout out) = [] then failed else Inr (first_line (out_stdout out)))
          else if out_code out = Some 1
          then let detail = join ''; '' (map str_trim [l \<leftarrow> str_lines (out_stdout out). contains_text l ''CONFLICT''])
            in Inl (MergeConflict (if detail = [] then ''merge conflict'' else detail))
          else failed)"

definition commit_tree ::
  "'g git_commands \<Rightarrow> 'g \<Rightarrow> string \<Rightarrow> string \<Rightarrow> string \<Rightarrow> string \<Rightarrow> (gitd_error + string) \<times> 'g" where
  "commit_tree G g tree_oid base_oid head_oid message =
     (case gc_commit_tree G g tree_oid base_oid head_oid message of
        (result, g) \<Rightarrow>
          (try_res result (\<lambda>out.
             let program = gc_bin G @ '' commit-tree''; oid = str_trim (out_stdout out)
             in if \<not> succeeded out then Inl (GitCommandFailed program (out_code out) (out_stderr out))
                else if oid = [] then Inl (GitCommandFailed program (out_code out) ''commit-tree produced no oid'')
                else Inr oid), g))"

definition merge_commit ::
  "'g git_commands \<Rightarrow> 'g \<Rightarrow> string \<Rightarrow> string \<Rightarrow> string \<Rightarrow> bool \<Rightarrow> (gitd_error + (string \<times> bool)) \<times> 'g" where
  "merge_commit G g base_oid head_oid message ff =
     (if ff then (Inr (head_oid, True), g)
      else try_pure (merge_tree G g base_oid head_oid) g (\<lambda>tree_oid.
           try_op (commit_tree G g tree_oid base_oid head_oid message) (\<lambda>merge_oid g. (Inr (merge_oid, False), g))))"

definition merge_pull ::
  "'g git_commands \<Rightarrow> protected_ref_rule list \<Rightarrow> string \<Rightarrow> string \<Rightarrow> string \<Rightarrow> string \<Rightarrow> string \<Rightarrow> bool \<Rightarrow> 'g \<Rightarrow>
   (gitd_error + merge_outcome) \<times> 'g" where
  "merge_pull G rules actor base_ref base_oid head_oid message require_fast_forward g =
     try_pure (validate_ref_name G base_ref) g (\<lambda>_.
     try_pure (ensure_writable G g) g (\<lambda>_.
     if is_zero_oid base_oid \<or> is_zero_oid head_oid
     then (Inl (InvalidInput ''merge requires non-zero base and head oids''), g)
     else
     try_pure (verify_commit G g base_oid) g (\<lambda>_.
     try_pure (verify_commit G g head_oid) g (\<lambda>_.
     try_pure (is_ancestor G g base_oid head_oid) g (\<lambda>ff.
     if require_fast_forward \<and> \<not> ff then (Inl NonFastForwardRequired, g)
     else
     try_op (merge_commit G g base_oid head_oid message ff) (\<lambda>(merge_oid, fast_forward) g.
     try_op (update_ref G rules actor base_ref merge_oid (Some base_oid) g) (\<lambda>_ g.
       (Inr \<lparr>mc_merge_oid = merge_oid, mc_fast_forward = fast_forward\<rparr>, g))))))))"

section \<open>The pre-receive guard\<close>

definition hook_trunk :: string where
  "hook_trunk = ''refs/heads/main''"

definition RAW_GIT_BLOB_LIMIT_BYTES :: u64 where
  "RAW_GIT_BLOB_LIMIT_BYTES = 100 * 1024 * 1024"

definition validate_object_id :: "string \<Rightarrow> nat \<Rightarrow> string \<Rightarrow> gitd_error + unit" where
  "validate_object_id oid line field =
     (if length oid = 40 \<and> list_all is_ascii_hexdigit oid then Inr ()
      else Inl (InvalidInput (''pre-receive line '' @ show_nat line @ '' has invalid '' @ field @ '' oid'')))"

definition hook_change :: "'g git_commands \<Rightarrow> 'g \<Rightarrow> string \<Rightarrow> string \<Rightarrow> string \<Rightarrow> string \<Rightarrow> ref_change" where
  "hook_change G g actor old_oid new_oid ref_name =
     (let operation = (if is_zero_oid new_oid then RefDelete else if is_zero_oid old_oid then RefCreate else RefUpdate)
      in \<lparr>rg_actor = actor, rg_ref_name = ref_name, rg_old_oid = old_oid, rg_new_oid = new_oid, rg_operation = operation,
          rg_force = (operation = RefUpdate \<and>
            \<not> (case is_ancestor G g old_oid new_oid of Inl _ \<Rightarrow> False | Inr a \<Rightarrow> a))\<rparr>)"

definition hook_line ::
  "'g git_commands \<Rightarrow> protected_ref_rule list \<Rightarrow> 'g \<Rightarrow> string \<Rightarrow> nat \<Rightarrow> string \<Rightarrow> gitd_error + ref_change option" where
  "hook_line G rules g actor idx line =
     (if str_trim line = [] then Inr None
      else case split_whitespace (str_trim line) of
        [old_oid, new_oid, ref_name] \<Rightarrow>
          try_res (validate_object_id old_oid (idx + 1) ''prior'') (\<lambda>_.
          try_res (validate_object_id new_oid (idx + 1) ''next'') (\<lambda>_.
          try_res (validate_ref_name G ref_name) (\<lambda>_.
          if ref_name = hook_trunk
          then Inl (ProtectedRefDenied
                 ''direct pushes to refs/heads/main are blocked; open a pull request and merge through Jeryu'')
          else let change = hook_change G g actor old_oid new_oid ref_name
            in try_res (evaluate_rules rules change) (\<lambda>_. Inr (Some change)))))
      | _ \<Rightarrow> Inl (InvalidInput (''pre-receive line '' @ show_nat (idx + 1) @ '' must be: <prior> <next> <ref>'')))"

fun hook_lines ::
  "'g git_commands \<Rightarrow> protected_ref_rule list \<Rightarrow> 'g \<Rightarrow> string \<Rightarrow> nat \<Rightarrow> string list \<Rightarrow> gitd_error + ref_change list" where
  "hook_lines G rules g actor idx [] = Inr []"
| "hook_lines G rules g actor idx (line # lines) =
     try_res (hook_line G rules g actor idx line) (\<lambda>change.
     try_res (hook_lines G rules g actor (idx + 1) lines) (\<lambda>changes.
       Inr ((case change of None \<Rightarrow> [] | Some c \<Rightarrow> [c]) @ changes)))"

text \<open>One line of \<^verbatim>\<open>rev-list --objects\<close>: an object and the first path it was seen under.\<close>

definition object_line :: "string \<Rightarrow> (string \<times> string option) option" where
  "object_line line =
     (case split_once (CHR '' '') line of
        None \<Rightarrow> if line = [] then None else Some (line, None)
      | Some (object_id, path) \<Rightarrow>
          if object_id = [] then None else Some (object_id, if path = [] then None else Some path))"

definition note_object :: "string \<times> string option \<Rightarrow> (string \<times> string option) list \<Rightarrow> (string \<times> string option) list" where
  "note_object entry known =
     (case entry of (object_id, path) \<Rightarrow>
        (case map_of known object_id of
           Some (Some old) \<Rightarrow> known
         | _ \<Rightarrow> bt_put object_id path known))"

fun new_objects ::
  "'g git_commands \<Rightarrow> 'g \<Rightarrow> string list \<Rightarrow> (string \<times> string option) list \<Rightarrow> gitd_error + (string \<times> string option) list" where
  "new_objects G g [] known = Inr known"
| "new_objects G g (oid # oids) known =
     try_res (run_captured [gc_bin G, ''rev-list'', ''--objects'', oid, ''--not'', ''--all''] (gc_rev_list_new G g oid))
       (\<lambda>text. new_objects G g oids (fold note_object (List.map_filter object_line (str_lines text)) known))"

text \<open>Whether a line of \<^verbatim>\<open>cat-file --batch-check\<close> reports a blob beyond the limit: its object and its size.\<close>

definition oversized_line :: "u64 \<Rightarrow> string \<Rightarrow> (string \<times> u64) option" where
  "oversized_line max_blob_bytes line =
     (case split_whitespace line of
        kind # bytes # oid # _ \<Rightarrow>
          (case parse_u64 bytes of
             None \<Rightarrow> None
           | Some n \<Rightarrow> if kind = ''blob'' \<and> max_blob_bytes < n then Some (oid, n) else None)
      | _ \<Rightarrow> None)"

definition reject_oversized_raw_blobs :: "'g git_commands \<Rightarrow> 'g \<Rightarrow> string list \<Rightarrow> u64 \<Rightarrow> gitd_error + unit" where
  "reject_oversized_raw_blobs G g new_oids max_blob_bytes =
     try_res (new_objects G g new_oids []) (\<lambda>objects.
       if objects = [] then Inr ()
       else try_res (run_captured [gc_bin G, ''cat-file'', ''--batch-check=%(objecttype) %(objectsize) %(objectname)'']
              (gc_batch_check G g (concat (map (\<lambda>(oid, _). oid @ [CHR 0x0A]) objects)))) (\<lambda>text.
         case List.map_filter (oversized_line max_blob_bytes) (str_lines text) of
           [] \<Rightarrow> Inr ()
         | (oid, bytes) # _ \<Rightarrow>
             let path = (case map_of objects oid of Some (Some p) \<Rightarrow> p | _ \<Rightarrow> ''<unknown>'')
             in Inl (ProtectedRefDenied (''raw Git blob '' @ path @ '' is '' @ show_nat bytes @ '' bytes, exceeding GitHub'' @
                  [CHR 0x27] @ ''s 100 MiB limit; track large model artifacts with Git LFS''))))"

definition evaluate_lines ::
  "'g git_commands \<Rightarrow> protected_ref_rule list \<Rightarrow> 'g \<Rightarrow> string \<Rightarrow> string \<Rightarrow> gitd_error + ref_change list" where
  "evaluate_lines G rules g actor input =
     try_res (ensure_writable G g) (\<lambda>_.
     try_res (hook_lines G rules g actor 0 (str_lines input)) (\<lambda>changes.
     try_res (reject_oversized_raw_blobs G g (map rg_new_oid [c \<leftarrow> changes. \<not> is_zero_oid (rg_new_oid c)])
                RAW_GIT_BLOB_LIMIT_BYTES) (\<lambda>_.
       Inr changes)))"

section \<open>Merge bases\<close>

definition is_object_id :: "string \<Rightarrow> bool" where
  "is_object_id val = ((length val = 40 \<or> length val = 64) \<and> list_all is_ascii_hexdigit val)"

definition verify_object_commit :: "'g git_commands \<Rightarrow> 'g \<Rightarrow> string \<Rightarrow> gitd_error + unit" where
  "verify_object_commit G g oid =
     (if \<not> is_object_id oid then Inl (InvalidInput (''oid must be 40 or 64 hex digits: '' @ oid))
      else case run_captured [gc_bin G, ''rev-parse''] (gc_rev_parse G g (commit_spec oid)) of
        Inl _ \<Rightarrow> Inl (InvalidInput (''oid is not a commit in this repository: '' @ oid))
      | Inr _ \<Rightarrow> Inr ())"

definition merge_base :: "'g git_commands \<Rightarrow> 'g \<Rightarrow> string \<Rightarrow> string \<Rightarrow> gitd_error + string option" where
  "merge_base G g base_oid head_oid =
     try_res (verify_object_commit G g base_oid) (\<lambda>_.
     try_res (verify_object_commit G g head_oid) (\<lambda>_.
       let unexpected = (\<lambda>other. Inl (GitCommandFailed (gc_bin G @ '' merge-base'') None (''unexpected merge base: '' @ other)))
       in case run_captured [gc_bin G, ''merge-base'', ''--end-of-options'', base_oid, head_oid] (gc_merge_base G g base_oid head_oid) of
         Inl e \<Rightarrow> (case e of GitCommandFailed _ code _ \<Rightarrow> if code = Some 1 then Inr None else Inl e | _ \<Rightarrow> Inl e)
       | Inr text \<Rightarrow>
           (case split_whitespace text of
              [] \<Rightarrow> unexpected []
            | oid # _ \<Rightarrow> if is_object_id oid then Inr (Some oid) else unexpected oid)))"

section \<open>What git promises\<close>

text \<open>
  \<open>target g r\<close> is the object the direct ref \<open>r\<close> names. An \<^verbatim>\<open>update-ref\<close> that succeeds on a direct ref compared the old object (zeros stand
  for no ref) and swapped in the new one (zeros delete) and changed nothing else; it does not succeed on a symbolic ref that names
  nothing or itself; one that fails changes nothing. Writing a commit object, the push marker and the receipt move no ref, and
  \<^verbatim>\<open>commit-tree\<close> does not print zeros. This is \<^verbatim>\<open>update-ref\<close> on full object ids; of an abbreviated one git
  resolves the object, and an empty old id is to it no condition, which this promise does not describe.
\<close>

definition direct_ref :: "'g git_commands \<Rightarrow> 'g \<Rightarrow> string \<Rightarrow> bool" where
  "direct_ref G g name = (case gc_symbolic_ref G g name of Inl _ \<Rightarrow> False | Inr out \<Rightarrow> \<not> succeeded out)"

definition idle_symref :: "'g git_commands \<Rightarrow> 'g \<Rightarrow> string \<Rightarrow> bool" where
  "idle_symref G g name = (case gc_symbolic_ref G g name of Inl _ \<Rightarrow> False
     | Inr out \<Rightarrow> succeeded out \<and> (str_trim (out_stdout out) = [] \<or> str_trim (out_stdout out) = name))"

definition ran :: "gitd_error + command_output \<Rightarrow> bool" where
  "ran result = (case result of Inl _ \<Rightarrow> False | Inr out \<Rightarrow> succeeded out)"

definition lawful_git :: "'g git_commands \<Rightarrow> ('g \<Rightarrow> string \<Rightarrow> string option) \<Rightarrow> bool" where
  "lawful_git G target =
     ((\<forall>g name new old result g'. gc_update_ref G g name new old = (result, g') \<longrightarrow> ran result \<longrightarrow>
         \<not> idle_symref G g name \<and>
         (direct_ref G g name \<longrightarrow>
            target g name = (if is_zero_oid old then None else Some old) \<and>
            target g' = (target g)(name := if is_zero_oid new then None else Some new))) \<and>
      (\<forall>g name new old result g'. gc_update_ref G g name new old = (result, g') \<longrightarrow> \<not> ran result \<longrightarrow> target g' = target g) \<and>
      (\<forall>g tree base head message result g'. gc_commit_tree G g tree base head message = (result, g') \<longrightarrow>
         target g' = target g \<and> gc_symbolic_ref G g' = gc_symbolic_ref G g \<and>
         (\<forall>out. result = Inr out \<longrightarrow> \<not> is_zero_oid (str_trim (out_stdout out)))) \<and>
      (\<forall>g result g'. gc_record_push G g = (result, g') \<longrightarrow> target g' = target g))"

lemma symref_loop_end:
  "symref_loop G g name n current = Inr direct \<Longrightarrow> direct_ref G g direct \<or> idle_symref G g direct"
proof (induction n arbitrary: current)
  case (Suc n)
  from Suc.prems obtain out where out: "gc_symbolic_ref G g current = Inr out" by (auto simp: try_res_Inr)
  show ?case
  proof (cases "succeeded out \<and> str_trim (out_stdout out) \<noteq> [] \<and> str_trim (out_stdout out) \<noteq> current")
    case True
    then show ?thesis using Suc out by (auto simp: try_res_Inr Let_def)
  next
    case False
    then have "direct = current" using Suc.prems out by (auto simp: Let_def split: if_splits)
    with False out show ?thesis by (auto simp: direct_ref_def idle_symref_def)
  qed
qed simp

lemma evaluate_rules_Inr: "evaluate_rules rules change = Inr () \<longleftrightarrow> list_all (\<lambda>rule. rule_evaluate rule change = Inr ()) rules"
  by (induction rules) (auto simp: try_res_Inr)

lemma rule_evaluate_Inr:
  "rule_evaluate rule change = Inr () \<longleftrightarrow>
     \<not> matches_pattern (pf_pattern rule) (rg_ref_name change) \<or> rg_actor change \<in> set (pf_bypass_actors rule) \<or>
     \<not> (pf_deny_delete rule \<and> rg_operation change = RefDelete) \<and> \<not> (pf_deny_force rule \<and> rg_force change)"
  by (auto simp: rule_evaluate_def list_ex_iff)

lemma tag_pattern: "matches_pattern ''refs/tags/*'' name \<longleftrightarrow> starts_with name ''refs/tags/''"
proof -
  have "strip_suffix ''refs/tags/*'' ''*'' = Some ''refs/tags/''" by code_simp
  moreover have "starts_with ''refs/tags/*'' ''refs/tags/''" by code_simp
  ultimately show ?thesis by (auto simp: matches_pattern_def)
qed

lemma default_rules_Inr:
  assumes "rg_actor change \<noteq> ''system:mirror''"
  shows "evaluate_rules default_phase1_rules change = Inr () \<longleftrightarrow>
    (rg_ref_name change = ''refs/heads/main'' \<or> starts_with (rg_ref_name change) ''refs/tags/'' \<longrightarrow>
       rg_operation change \<noteq> RefDelete \<and> \<not> rg_force change)"
proof -
  have "strip_suffix ''refs/heads/main'' ''*'' = None" by code_simp
  then have "matches_pattern ''refs/heads/main'' (rg_ref_name change) \<longleftrightarrow> rg_ref_name change = ''refs/heads/main''"
    by (auto simp: matches_pattern_def)
  then show ?thesis
    using assms unfolding evaluate_rules_Inr default_phase1_rules_def
    by (simp add: rule_evaluate_Inr tag_pattern)
qed

lemma is_zero_ZERO: "is_zero_oid ZERO_OID"
  by (simp add: is_zero_oid_def ZERO_OID_def list_all_iff)

lemma write_ref_Inr:
  assumes "lawful_git G target" and "write_ref G g name new old = (Inr u, g')"
    and "direct_ref G g name \<or> idle_symref G g name"
  shows "target g name = (if is_zero_oid (old_or_zero old) then None else Some (old_or_zero old)) \<and>
    target g' = (target g)(name := if is_zero_oid new then None else Some new)"
proof -
  obtain result g1 where run: "gc_update_ref G g name new (old_or_zero old) = (result, g1)" by fastforce
  with assms(2) have "ran result" "gc_record_push G g1 = (Inr u, g')"
    by (auto simp: write_ref_def run_captured_def try_res_Inr ran_def split: sum.splits if_splits)
  with assms(1,3) run show ?thesis unfolding lawful_git_def by metis
qed

lemma update_ref_Inr:
  assumes "update_ref G rules actor name new old g = (Inr u, g')"
  obtains direct force where "gc_archived G g = False" "resolve_symbolic_ref G g name = Inr direct"
    "force_update G g direct new old (if is_zero_oid new then RefDelete else if old \<noteq> None then RefUpdate else RefCreate) = Inr force"
    "evaluate_rules rules \<lparr>rg_actor = actor, rg_ref_name = direct, rg_old_oid = old_or_zero old, rg_new_oid = new,
       rg_operation = (if is_zero_oid new then RefDelete else if old \<noteq> None then RefUpdate else RefCreate),
       rg_force = force\<rparr> = Inr ()"
    "write_ref G g direct new old = (Inr u, g')"
  using assms by (auto simp: update_ref_def try_pure_Inr Let_def ensure_writable_def split: if_splits)

text \<open>
  C31. Protected refs only advance. When an update by anybody but the mirror succeeds under the default rules on a git that obeys its
  documentation, the repository is not archived, the symbolic refs behind the requested name end in one direct ref, that ref held
  exactly the object the caller expected (or did not exist, when none was expected), it now holds the new object, and no other ref moved;
  if the direct ref is the trunk it was not deleted and whatever it held is an ancestor of what it holds now; and
  if it is a tag it was created, never moved or deleted.
\<close>

theorem protected_refs_only_advance:
  assumes "lawful_git G target" and "update_ref G default_phase1_rules actor name new old g = (Inr (), g')"
    and "actor \<noteq> ''system:mirror''"
  shows "\<exists>direct. \<not> gc_archived G g \<and> resolve_symbolic_ref G g name = Inr direct \<and>
    target g direct = (case old of None \<Rightarrow> None | Some o1 \<Rightarrow> if is_zero_oid o1 then None else Some o1) \<and>
    target g' = (target g)(direct := if is_zero_oid new then None else Some new) \<and>
    (direct = ''refs/heads/main'' \<longrightarrow> \<not> is_zero_oid new \<and>
       (\<forall>o1. target g direct = Some o1 \<longrightarrow> is_ancestor G g o1 new = Inr True)) \<and>
    (starts_with direct ''refs/tags/'' \<longrightarrow> \<not> is_zero_oid new \<and> target g direct = None)"
proof -
  obtain direct force where run: "\<not> gc_archived G g" "resolve_symbolic_ref G g name = Inr direct"
    "force_update G g direct new old (if is_zero_oid new then RefDelete else if old \<noteq> None then RefUpdate else RefCreate) = Inr force"
    "evaluate_rules default_phase1_rules \<lparr>rg_actor = actor, rg_ref_name = direct, rg_old_oid = old_or_zero old, rg_new_oid = new,
       rg_operation = (if is_zero_oid new then RefDelete else if old \<noteq> None then RefUpdate else RefCreate),
       rg_force = force\<rparr> = Inr ()"
    "write_ref G g direct new old = (Inr (), g')"
    using assms(2) by (rule update_ref_Inr) simp
  have ends: "direct_ref G g direct \<or> idle_symref G g direct"
    using run(2) unfolding resolve_symbolic_ref_def by (rule symref_loop_end)
  note moved = write_ref_Inr [OF assms(1) run(5) ends]
  have before: "target g direct = (case old of None \<Rightarrow> None | Some o1 \<Rightarrow> if is_zero_oid o1 then None else Some o1)"
    using moved by (auto simp: old_or_zero_def is_zero_ZERO split: option.split)
  have rules: "direct = ''refs/heads/main'' \<or> starts_with direct ''refs/tags/'' \<longrightarrow> \<not> is_zero_oid new \<and> \<not> force"
    using run(4) assms(3) by (simp add: default_rules_Inr split: if_splits)
  have trunk: "starts_with ''refs/heads/main'' ''refs/heads/''" "\<not> starts_with ''refs/heads/main'' ''refs/tags/''"
    by code_simp+
  have "is_ancestor G g o1 new = Inr True" if "direct = ''refs/heads/main''" "target g direct = Some o1" for o1
    using that rules run(3) before trunk
    by (auto simp: force_update_def try_res_Inr split: option.splits if_splits)
  moreover have "target g direct = None" if "starts_with direct ''refs/tags/''"
    using that rules run(3) before by (auto simp: force_update_def split: option.splits if_splits)
  ultimately show ?thesis using run(1,2) before moved rules by blast
qed

text \<open>A git that keeps its refs in a function and knows a linear history: older objects have smaller names.\<close>

definition ex_ok :: command_output where
  "ex_ok = \<lparr>out_code = Some 0, out_stdout = [], out_stderr = []\<rparr>"

definition ex_no :: command_output where
  "ex_no = \<lparr>out_code = Some 1, out_stdout = [], out_stderr = []\<rparr>"

definition ex_git_commands :: "(string \<Rightarrow> string option) git_commands" where
  "ex_git_commands =
     \<lparr>gc_bin = ''git'', gc_check_ref_format = (\<lambda>_. Inr ex_ok), gc_symbolic_ref = (\<lambda>_ _. Inr ex_no),
      gc_rev_parse = (\<lambda>_ _. Inr ex_ok), gc_is_ancestor = (\<lambda>_ a b. Inr (if a \<le> b then ex_ok else ex_no)),
      gc_merge_base = (\<lambda>_ _ _. Inr ex_no), gc_merge_tree = (\<lambda>_ _ _. Inr ex_no),
      gc_commit_tree = (\<lambda>g _ _ _ _. (Inr ex_no, g)),
      gc_update_ref = (\<lambda>g name new old.
        if g name = (if is_zero_oid old then None else Some old)
        then (Inr ex_ok, g(name := if is_zero_oid new then None else Some new)) else (Inr ex_no, g)),
      gc_for_each_ref = (\<lambda>_. Inr ex_ok), gc_rev_list_new = (\<lambda>_ _. Inr ex_ok), gc_batch_check = (\<lambda>_ _. Inr ex_ok),
      gc_archived = (\<lambda>_. False), gc_slug = (\<lambda>_. ''acme/demo''), gc_record_push = (\<lambda>g. (Inr (), g))\<rparr>"

lemma ex_git_sel:
  "gc_bin ex_git_commands = ''git''" "gc_symbolic_ref ex_git_commands g name = Inr ex_no"
  "gc_is_ancestor ex_git_commands g a b = Inr (if a \<le> b then ex_ok else ex_no)"
  "gc_update_ref ex_git_commands g name new old =
     (if g name = (if is_zero_oid old then None else Some old)
      then (Inr ex_ok, g(name := if is_zero_oid new then None else Some new)) else (Inr ex_no, g))"
  "gc_archived ex_git_commands g = False" "gc_record_push ex_git_commands g = (Inr (), g)"
  "succeeded ex_ok" "\<not> succeeded ex_no"
  by (simp_all add: ex_git_commands_def succeeded_def ex_ok_def ex_no_def)

lemma ex_git_lawful: "lawful_git ex_git_commands (\<lambda>g. g)"
proof -
  have "\<not> is_zero_oid (str_trim [])" by code_simp
  then show ?thesis
    by (auto simp: lawful_git_def ex_git_commands_def ran_def succeeded_def ex_ok_def ex_no_def idle_symref_def)
qed

definition ex_oid :: "char \<Rightarrow> string" where
  "ex_oid c = replicate 40 c"

lemma ex_oids: "\<not> is_zero_oid (ex_oid (CHR ''1''))" "\<not> is_zero_oid (ex_oid (CHR ''2''))" "ex_oid (CHR ''1'') \<le> ex_oid (CHR ''2'')"
  by code_simp+

lemma ex_update:
  "update_ref ex_git_commands default_phase1_rules ''ann'' ''refs/heads/main'' (ex_oid (CHR ''2'')) (Some (ex_oid (CHR ''1'')))
     [''refs/heads/main'' \<mapsto> ex_oid (CHR ''1'')] =
   (Inr (), [''refs/heads/main'' \<mapsto> ex_oid (CHR ''2'')])"
proof -
  have name: "validate_ref_name ex_git_commands ''refs/heads/main'' = Inr ()"
    "starts_with ''refs/heads/main'' ''refs/heads/''" "\<not> starts_with ''refs/heads/main'' ''refs/tags/''" by code_simp+
  have ends: "resolve_symbolic_ref ex_git_commands g ''refs/heads/main'' = Inr ''refs/heads/main''" for g
    by (simp add: resolve_symbolic_ref_def MAX_SYMREF_DEPTH_def eval_nat_numeral ex_git_sel)
  have pass: "evaluate_rules default_phase1_rules \<lparr>rg_actor = ''ann'', rg_ref_name = r, rg_old_oid = a, rg_new_oid = b,
      rg_operation = RefUpdate, rg_force = False\<rparr> = Inr ()" for r a b
    by (simp add: default_rules_Inr)
  show ?thesis
    using ex_oids name
    by (simp add: update_ref_def ends ensure_writable_def Let_def force_update_def pass write_ref_def
        old_or_zero_def is_ancestor_def run_captured_def ex_git_sel)
qed

theorem protected_refs_only_advance_witness:
  "\<exists>g'. update_ref ex_git_commands default_phase1_rules ''ann'' ''refs/heads/main'' (ex_oid (CHR ''2''))
       (Some (ex_oid (CHR ''1''))) [''refs/heads/main'' \<mapsto> ex_oid (CHR ''1'')] = (Inr (), g') \<and>
     is_ancestor ex_git_commands [''refs/heads/main'' \<mapsto> ex_oid (CHR ''1'')] (ex_oid (CHR ''1'')) (ex_oid (CHR ''2'')) = Inr True"
proof -
  have "''ann'' \<noteq> ''system:mirror''" by simp
  from protected_refs_only_advance [OF ex_git_lawful ex_update this] ex_update show ?thesis
    by (auto simp: ex_oids resolve_symbolic_ref_def split: if_splits)
qed

section \<open>The merge\<close>

lemma commit_tree_Inr:
  assumes "lawful_git G target" and "commit_tree G g tree base head message = (Inr oid, g')"
  shows "target g' = target g \<and> gc_symbolic_ref G g' = gc_symbolic_ref G g \<and> \<not> is_zero_oid oid"
proof -
  obtain result where run: "gc_commit_tree G g tree base head message = (result, g')"
    using assms(2) by (auto simp: commit_tree_def split: prod.splits)
  with assms(2) obtain out where "result = Inr out" "oid = str_trim (out_stdout out)"
    by (auto simp: commit_tree_def try_res_Inr Let_def split: if_splits)
  with assms(1) run show ?thesis unfolding lawful_git_def by blast
qed

lemma symref_loop_cong:
  "gc_symbolic_ref G g' = gc_symbolic_ref G g \<Longrightarrow> symref_loop G g' name n current = symref_loop G g name n current"
proof (induction n arbitrary: current)
  case (Suc n)
  from Suc.IH [OF Suc.prems] have "symref_loop G g' name n = symref_loop G g name n" by blast
  with Suc.prems show ?case by (simp add: Let_def cong: if_cong)
qed simp

lemma merge_commit_Inr:
  assumes "lawful_git G target" and "merge_commit G g base head message ff = (Inr (oid, fast), g')"
    and "\<not> is_zero_oid head"
  shows "fast = ff \<and> \<not> is_zero_oid oid \<and> target g' = target g \<and> gc_symbolic_ref G g' = gc_symbolic_ref G g \<and>
    (if ff then oid = head \<and> g' = g
     else \<exists>tree. merge_tree G g base head = Inr tree \<and> commit_tree G g tree base head message = (Inr oid, g'))"
  using assms(2,3)
  by (auto simp: merge_commit_def try_pure_Inr try_op_Inr dest: commit_tree_Inr [OF assms(1)] split: if_splits)

text \<open>
  C32. A merge moves its base once, from the commit it was computed against. When a server-side merge of a pull request succeeds on a
  git that obeys its documentation, the repository is not archived, base and head are commits of it, the direct ref behind the base
  branch held exactly the base commit and now holds the commit that is reported, and no other ref moved; that commit is the head when
  the base is its ancestor (a fast-forward), and otherwise, which a linear history does not allow, the commit made of the merged
  tree with base and head as its parents.
\<close>

theorem merge_moves_base_once:
  assumes "lawful_git G target"
    and "merge_pull G rules actor base_ref base_oid head_oid message linear g = (Inr outcome, g')"
  shows "\<exists>direct. resolve_symbolic_ref G g base_ref = Inr direct \<and> \<not> gc_archived G g \<and>
    verify_commit G g base_oid = Inr () \<and> verify_commit G g head_oid = Inr () \<and>
    target g direct = Some base_oid \<and> target g' = (target g)(direct := Some (mc_merge_oid outcome)) \<and>
    is_ancestor G g base_oid head_oid = Inr (mc_fast_forward outcome) \<and>
    (if mc_fast_forward outcome then mc_merge_oid outcome = head_oid
     else \<not> linear \<and> (\<exists>tree. merge_tree G g base_oid head_oid = Inr tree \<and>
            fst (commit_tree G g tree base_oid head_oid message) = Inr (mc_merge_oid outcome)))"
proof -
  obtain ff g1 where run: "\<not> gc_archived G g" "verify_commit G g base_oid = Inr ()" "verify_commit G g head_oid = Inr ()"
    "\<not> is_zero_oid base_oid" "\<not> is_zero_oid head_oid" "is_ancestor G g base_oid head_oid = Inr ff" "\<not> (linear \<and> \<not> ff)"
    "merge_commit G g base_oid head_oid message ff = (Inr (mc_merge_oid outcome, mc_fast_forward outcome), g1)"
    "update_ref G rules actor base_ref (mc_merge_oid outcome) (Some base_oid) g1 = (Inr (), g')"
    using assms(2) by (auto simp: merge_pull_def try_pure_Inr try_op_Inr ensure_writable_def split: if_splits)
  note made = merge_commit_Inr [OF assms(1) run(8,5)]
  obtain direct where moved: "resolve_symbolic_ref G g1 base_ref = Inr direct"
    "write_ref G g1 direct (mc_merge_oid outcome) (Some base_oid) = (Inr (), g')"
    using run(9) by (rule update_ref_Inr) simp
  have ends: "direct_ref G g1 direct \<or> idle_symref G g1 direct"
    using moved(1) unfolding resolve_symbolic_ref_def by (rule symref_loop_end)
  have "resolve_symbolic_ref G g base_ref = Inr direct"
    using moved(1) made symref_loop_cong [of G g1 g] by (simp add: resolve_symbolic_ref_def)
  moreover have "target g1 direct = Some base_oid" "target g' = (target g1)(direct := Some (mc_merge_oid outcome))"
    using write_ref_Inr [OF assms(1) moved(2) ends] made run(4) by (simp_all add: old_or_zero_def)
  ultimately show ?thesis using run made by (auto split: if_splits)
qed

definition ex_refs :: "string \<Rightarrow> string option" where
  "ex_refs = [''refs/heads/main'' \<mapsto> ex_oid (CHR ''1'')]"

lemma ex_merge_runs:
  "merge_pull ex_git_commands default_phase1_rules ''ann'' ''refs/heads/main'' (ex_oid (CHR ''1'')) (ex_oid (CHR ''2''))
     ''merge'' True ex_refs =
   (Inr \<lparr>mc_merge_oid = ex_oid (CHR ''2''), mc_fast_forward = True\<rparr>, [''refs/heads/main'' \<mapsto> ex_oid (CHR ''2'')])"
proof -
  have name: "validate_ref_name ex_git_commands ''refs/heads/main'' = Inr ()" by code_simp
  have commit: "verify_commit ex_git_commands g oid = Inr ()" for g oid
    by (simp add: verify_commit_def ex_git_commands_def succeeded_def ex_ok_def)
  show ?thesis
    using ex_oids name
    by (simp add: merge_pull_def ensure_writable_def ex_git_sel commit is_ancestor_def merge_commit_def ex_update ex_refs_def)
qed

theorem merge_moves_base_once_witness:
  "\<exists>outcome g'. merge_pull ex_git_commands default_phase1_rules ''ann'' ''refs/heads/main'' (ex_oid (CHR ''1''))
       (ex_oid (CHR ''2'')) ''merge'' True ex_refs = (Inr outcome, g') \<and> mc_merge_oid outcome = ex_oid (CHR ''2'')"
  using merge_moves_base_once [OF ex_git_lawful ex_merge_runs] ex_merge_runs by auto

text \<open>
  The marker of a push is written after the ref has moved: when that fails, the caller is told that the update failed
  although it happened.
\<close>

lemma moved_but_refused:
  assumes "lawful_git G target" and "gc_update_ref G g name new (old_or_zero old) = (Inr out, g1)" and "succeeded out"
    and "gc_record_push G g1 = (Inl e, g')" and "direct_ref G g name"
  shows "write_ref G g name new old = (Inl e, g') \<and> target g' name = (if is_zero_oid new then None else Some new)"
proof -
  have "ran (Inr out)" using assms(3) by (simp add: ran_def)
  with assms have "target g1 = (target g)(name := if is_zero_oid new then None else Some new)" "target g' = target g1"
    unfolding lawful_git_def by metis+
  with assms show ?thesis by (simp add: write_ref_def run_captured_def)
qed

section \<open>The guard\<close>

definition change_line :: "ref_change \<Rightarrow> string list" where
  "change_line c = [rg_old_oid c, rg_new_oid c, rg_ref_name c]"

definition change_policed :: "'g git_commands \<Rightarrow> 'g \<Rightarrow> ref_change \<Rightarrow> bool" where
  "change_policed G g c =
     (length (rg_old_oid c) = 40 \<and> list_all is_ascii_hexdigit (rg_old_oid c) \<and>
      length (rg_new_oid c) = 40 \<and> list_all is_ascii_hexdigit (rg_new_oid c) \<and>
      validate_ref_name G (rg_ref_name c) = Inr () \<and> rg_ref_name c \<noteq> ''refs/heads/main'' \<and>
      (starts_with (rg_ref_name c) ''refs/tags/'' \<longrightarrow>
         \<not> is_zero_oid (rg_new_oid c) \<and>
         (is_zero_oid (rg_old_oid c) \<or> is_ancestor G g (rg_old_oid c) (rg_new_oid c) = Inr True)))"

lemma hook_line_Inr:
  assumes "hook_line G default_phase1_rules g actor idx line = Inr change" and "actor \<noteq> ''system:mirror''"
  shows "case change of None \<Rightarrow> str_trim line = []
    | Some c \<Rightarrow> str_trim line \<noteq> [] \<and> split_whitespace (str_trim line) = change_line c \<and> rg_actor c = actor \<and> change_policed G g c"
proof (cases "str_trim line = []")
  case False
  then obtain old_oid new_oid ref_name where parts: "split_whitespace (str_trim line) = [old_oid, new_oid, ref_name]"
    using assms(1) by (auto simp: hook_line_def split: list.splits)
  let ?c = "hook_change G g actor old_oid new_oid ref_name"
  have checked: "validate_object_id old_oid (idx + 1) ''prior'' = Inr ()" "validate_object_id new_oid (idx + 1) ''next'' = Inr ()"
    "validate_ref_name G ref_name = Inr ()" "ref_name \<noteq> hook_trunk" "evaluate_rules default_phase1_rules ?c = Inr ()" "change = Some ?c"
    using assms(1) False parts by (auto simp: hook_line_def try_res_Inr Let_def split: if_splits)
  moreover have "rg_actor ?c = actor" by (simp add: hook_change_def Let_def)
  ultimately have "starts_with ref_name ''refs/tags/'' \<longrightarrow> rg_operation ?c \<noteq> RefDelete \<and> \<not> rg_force ?c"
    using default_rules_Inr [of ?c] assms(2) by (simp add: hook_change_def Let_def)
  with checked parts False show ?thesis
    by (auto simp: change_line_def change_policed_def hook_change_def Let_def validate_object_id_def hook_trunk_def
        split: if_splits sum.splits)
qed (use assms in \<open>auto simp: hook_line_def\<close>)

lemma hook_lines_Inr:
  assumes "actor \<noteq> ''system:mirror''"
  shows "hook_lines G default_phase1_rules g actor idx lines = Inr changes \<Longrightarrow>
     map change_line changes = map (\<lambda>l. split_whitespace (str_trim l)) [l \<leftarrow> lines. str_trim l \<noteq> []] \<and>
     list_all (\<lambda>c. rg_actor c = actor \<and> change_policed G g c) changes"
proof (induction lines arbitrary: idx changes)
  case (Cons line lines)
  then obtain change rest where "hook_line G default_phase1_rules g actor idx line = Inr change"
    "hook_lines G default_phase1_rules g actor (idx + 1) lines = Inr rest"
    "changes = (case change of None \<Rightarrow> [] | Some c \<Rightarrow> [c]) @ rest"
    by (auto simp: try_res_Inr)
  with hook_line_Inr [OF this(1) assms] Cons.IH [OF this(2)] show ?case by (auto split: option.splits)
qed simp

text \<open>
  C33. Every line of a push is policed. When the pre-receive guard accepts its input under the default rules for anybody but the mirror, the
  repository is not archived and the changes it reports are, one for one and in order, the non-blank lines of the input;
  each names two object ids of forty hexadecimal digits and a fully qualified ref other than the trunk, and a tag it touches is neither
  deleted nor moved to an object that does not descend from the old one.
\<close>

theorem push_lines_are_policed:
  assumes "evaluate_lines G default_phase1_rules g actor input = Inr changes" and "actor \<noteq> ''system:mirror''"
  shows "\<not> gc_archived G g \<and>
    map change_line changes = map (\<lambda>l. split_whitespace (str_trim l)) [l \<leftarrow> str_lines input. str_trim l \<noteq> []] \<and>
    list_all (\<lambda>c. rg_actor c = actor \<and> change_policed G g c) changes"
proof -
  from assms(1) have "\<not> gc_archived G g" "hook_lines G default_phase1_rules g actor 0 (str_lines input) = Inr changes"
    by (auto simp: evaluate_lines_def try_res_Inr ensure_writable_def split: if_splits)
  with hook_lines_Inr [OF assms(2) this(2)] show ?thesis by simp
qed

theorem push_lines_are_policed_witness:
  "\<exists>changes. evaluate_lines ex_git_commands default_phase1_rules ex_refs ''ann''
       (ZERO_OID @ '' '' @ ex_oid (CHR ''1'') @ '' refs/heads/topic'') = Inr changes \<and> length changes = 1"
proof -
  let ?input = "ZERO_OID @ '' '' @ ex_oid (CHR ''1'') @ '' refs/heads/topic''"
  have input: "str_lines ?input = [?input]" "str_trim ?input = ?input"
    "split_whitespace ?input = [ZERO_OID, ex_oid (CHR ''1''), ''refs/heads/topic'']" "?input \<noteq> []"
    "validate_ref_name ex_git_commands ''refs/heads/topic'' = Inr ()"
    "validate_object_id ZERO_OID 1 ''prior'' = Inr ()" "validate_object_id (ex_oid (CHR ''1'')) 1 ''next'' = Inr ()"
    "\<not> starts_with ''refs/heads/topic'' ''refs/tags/''" "is_zero_oid ZERO_OID"
    by code_simp+
  let ?c = "hook_change ex_git_commands ex_refs ''ann'' ZERO_OID (ex_oid (CHR ''1'')) ''refs/heads/topic''"
  have pass: "evaluate_rules default_phase1_rules ?c = Inr ()"
    using input by (simp add: default_rules_Inr hook_change_def Let_def)
  have "hook_lines ex_git_commands default_phase1_rules ex_refs ''ann'' 0 (str_lines ?input) = Inr [?c]"
    unfolding input(1) using input pass by (simp add: hook_line_def hook_trunk_def Let_def del: append_Cons append_assoc)
  moreover have "reject_oversized_raw_blobs ex_git_commands ex_refs oids limit = Inr ()" for oids limit
  proof -
    have "new_objects ex_git_commands ex_refs oids [] = Inr []"
      by (induction oids) (auto simp: ex_git_commands_def run_captured_def succeeded_def ex_ok_def str_lines_def)
    then show ?thesis by (simp add: reject_oversized_raw_blobs_def)
  qed
  ultimately have run: "evaluate_lines ex_git_commands default_phase1_rules ex_refs ''ann'' ?input = Inr [?c]"
    by (simp add: evaluate_lines_def ensure_writable_def ex_git_sel)
  have "''ann'' \<noteq> ''system:mirror''" by simp
  from push_lines_are_policed [OF run this] run show ?thesis by auto
qed

end
