(* ===== verification/Lfs.thy ===== *)
theory Lfs
  imports Git_Auth
begin

text \<open>
  The object store of Git LFS (\<^verbatim>\<open>lfs.rs\<close>): uploads into a content-addressed store through a temporary file, reads, sizes, and the
  answers of the Batch API. The store is the map of its files; what the operating system does (every call that may fail, the
  names of temporary files), the \<^verbatim>\<open>sha2\<close> crate and the bytes a reader delivers are parameters.
\<close>

section \<open>Object ids and paths\<close>

definition TEMP_NAME_ATTEMPTS :: nat where
  "TEMP_NAME_ATTEMPTS = 64"

definition DEFAULT_LFS_MAX_OBJECT_BYTES :: u64 where
  "DEFAULT_LFS_MAX_OBJECT_BYTES = 5 * 1024 * 1024 * 1024"

definition normalize_oid :: "string \<Rightarrow> gitd_error + string" where
  "normalize_oid oid =
     (if length oid \<noteq> 64 \<or> \<not> list_all is_ascii_hexdigit oid
      then Inl (Lfs ''LFS oid must be 64 lowercase/uppercase hex characters'')
      else Inr (to_ascii_lowercase oid))"

definition validate_oid :: "string \<Rightarrow> gitd_error + unit" where
  "validate_oid oid = try_res (normalize_oid oid) (\<lambda>_. Inr ())"

text \<open>The files below the root, by path relative to it: \<^verbatim>\<open>aa/bb/oid\<close>.\<close>

type_synonym lfs_store = "(string, octet list) hmap"

definition oid_dir :: "string \<Rightarrow> string" where
  "oid_dir oid = take 2 oid @ ''/'' @ take 2 (drop 2 oid) @ ''/''"

definition object_path :: "string \<Rightarrow> gitd_error + string" where
  "object_path oid = try_res (normalize_oid oid) (\<lambda>oid. Inr (oid_dir oid @ oid))"

section \<open>Uploads\<close>

text \<open>
  \<open>le_read\<close> and the other faults say whether the call fails. The name of the \<open>n\<close>-th temporary file is made of the process id, the
  clock and a counter. \<open>le_sha256\<close> is the digest of the \<^verbatim>\<open>sha2\<close> crate.
\<close>

record lfs_env =
  le_pid :: nat
  le_now :: "nat \<Rightarrow> nat"
  le_counter :: "nat \<Rightarrow> nat"
  le_sha256 :: "octet list \<Rightarrow> octet list"
  le_mkdir :: "gitd_error option"
  le_create :: "nat \<Rightarrow> gitd_error option"
  le_write :: "nat \<Rightarrow> gitd_error option"
  le_sync :: "gitd_error option"
  le_remove :: "gitd_error option"
  le_rename :: "gitd_error option"
  le_sync_dir :: "gitd_error option"
  le_cleanup :: bool

definition fault :: "gitd_error option \<Rightarrow> gitd_error + unit" where
  "fault f = (case f of None \<Rightarrow> Inr () | Some e \<Rightarrow> Inl e)"

definition temp_name :: "lfs_env \<Rightarrow> string \<Rightarrow> nat \<Rightarrow> string" where
  "temp_name en oid n =
     oid_dir oid @ ''.'' @ oid @ ''.tmp.'' @ show_nat (le_pid en) @ ''.'' @ show_nat (le_now en n) @ ''.'' @ show_nat (le_counter en n)"

fun create_temp_file :: "lfs_env \<Rightarrow> string \<Rightarrow> lfs_store \<Rightarrow> nat \<Rightarrow> nat \<Rightarrow> (gitd_error + string) \<times> lfs_store" where
  "create_temp_file en oid store n 0 =
     (Inl (Lfs (''could not reserve a fresh upload name for '' @ oid_dir oid @ oid)), store)"
| "create_temp_file en oid store n (Suc k) =
     (if hm_has store (temp_name en oid n) then create_temp_file en oid store (n + 1) k
      else case le_create en n of
        Some e \<Rightarrow> (Inl e, store)
      | None \<Rightarrow> (Inr (temp_name en oid n), hm_put (temp_name en oid n) [] store))"

text \<open>
  The copying loop: every \<^verbatim>\<open>read\<close> of the reader, in order, an empty one ending it (as does the end of the list). The total is checked
  before a chunk is hashed and written.
\<close>

definition too_large :: "string \<Rightarrow> u64 \<Rightarrow> gitd_error" where
  "too_large oid max_size =
     Lfs (''LFS object '' @ oid @ '' is larger than the configured limit of '' @ show_nat max_size @ '' bytes'')"

fun copy_loop ::
  "lfs_env \<Rightarrow> string \<Rightarrow> u64 \<Rightarrow> string \<Rightarrow> (gitd_error + octet list) list \<Rightarrow> nat \<Rightarrow> octet list \<Rightarrow> lfs_store \<Rightarrow>
   (gitd_error + octet list) \<times> lfs_store" where
  "copy_loop en oid max_size tmp [] n seen store = (Inr seen, store)"
| "copy_loop en oid max_size tmp (Inl e # reads) n seen store = (Inl e, store)"
| "copy_loop en oid max_size tmp (Inr chunk # reads) n seen store =
     (if chunk = [] then (Inr seen, store)
      else if 2 ^ 64 \<le> length seen + length chunk then (Inl (Lfs ''LFS object size overflowed u64''), store)
      else if max_size < length seen + length chunk then (Inl (too_large oid max_size), store)
      else case le_write en n of
        Some e \<Rightarrow> (Inl e, store)
      | None \<Rightarrow> copy_loop en oid max_size tmp reads (n + 1) (seen @ chunk) (hm_put tmp (seen @ chunk) store))"

definition finalize_sha256_hex :: "lfs_env \<Rightarrow> octet list \<Rightarrow> string" where
  "finalize_sha256_hex en seen = concat (map hex_octet (le_sha256 en seen))"

definition size_mismatch :: "string \<Rightarrow> u64 \<Rightarrow> u64 \<Rightarrow> gitd_error" where
  "size_mismatch oid expected actual =
     Lfs (''size mismatch for '' @ oid @ '': expected '' @ show_nat expected @ '', got '' @ show_nat actual)"

definition digest_mismatch :: "string \<Rightarrow> string \<Rightarrow> gitd_error" where
  "digest_mismatch oid actual = Lfs (''sha256 mismatch: expected '' @ oid @ '', got '' @ actual)"

text \<open>What follows the loop: the checks, and publishing the temporary file.\<close>

definition publish_object ::
  "lfs_env \<Rightarrow> string \<Rightarrow> u64 option \<Rightarrow> string \<Rightarrow> octet list \<Rightarrow> lfs_store \<Rightarrow> (gitd_error + u64) \<times> lfs_store" where
  "publish_object en oid expected_size tmp seen store =
     (let path = oid_dir oid @ oid; copied = length seen; actual = finalize_sha256_hex en seen
      in try_pure (fault (le_sync en)) store (\<lambda>_.
         if (case expected_size of None \<Rightarrow> False | Some expected \<Rightarrow> copied \<noteq> expected)
         then (Inl (size_mismatch oid (the expected_size) copied), store)
         else if actual \<noteq> oid then (Inl (digest_mismatch oid actual), store)
         else if hm_has store path
         then try_pure (fault (le_remove en)) store (\<lambda>_. (Inr copied, hm_del tmp store))
         else try_pure (fault (le_rename en)) store (\<lambda>_.
              let store = hm_put path (hm_list store tmp) (hm_del tmp store)
              in try_pure (fault (le_sync_dir en)) store (\<lambda>_. (Inr copied, store)))))"

definition put_reader_with_limit ::
  "lfs_env \<Rightarrow> string \<Rightarrow> u64 option \<Rightarrow> u64 \<Rightarrow> (gitd_error + octet list) list \<Rightarrow> lfs_store \<Rightarrow>
   (gitd_error + u64) \<times> lfs_store" where
  "put_reader_with_limit en oid expected_size max_size reader store =
     try_pure (normalize_oid oid) store (\<lambda>oid.
       if (case expected_size of None \<Rightarrow> False | Some expected \<Rightarrow> max_size < expected)
       then (Inl (too_large oid max_size), store)
       else try_pure (fault (le_mkdir en)) store (\<lambda>_.
       try_op (create_temp_file en oid store 0 TEMP_NAME_ATTEMPTS) (\<lambda>tmp store.
         case try_op (copy_loop en oid max_size tmp reader 0 [] store) (publish_object en oid expected_size tmp) of
           (Inr copied, store) \<Rightarrow> (Inr copied, store)
         | (Inl e, store) \<Rightarrow> (Inl e, if le_cleanup en then hm_del tmp store else store))))"

definition u64_top :: u64 where
  "u64_top = 2 ^ 64 - 1"

definition put_reader ::
  "lfs_env \<Rightarrow> string \<Rightarrow> (gitd_error + octet list) list \<Rightarrow> lfs_store \<Rightarrow> (gitd_error + u64) \<times> lfs_store" where
  "put_reader en oid reader store = put_reader_with_limit en oid None u64_top reader store"

text \<open>\<open>reads\<close> are the pieces in which the slice is delivered.\<close>

definition put_bytes ::
  "lfs_env \<Rightarrow> string \<Rightarrow> octet list \<Rightarrow> (octet list \<Rightarrow> octet list list) \<Rightarrow> lfs_store \<Rightarrow> (gitd_error + unit) \<times> lfs_store" where
  "put_bytes en oid data pieces store =
     try_pure (normalize_oid oid) store (\<lambda>oid.
       let actual = sha256_hex data
       in if actual \<noteq> oid then (Inl (digest_mismatch oid actual), store)
          else try_op (put_reader_with_limit en oid (Some (length data)) u64_top (map Inr (pieces data)) store)
                 (\<lambda>_ store. (Inr (), store)))"

section \<open>Reads\<close>

definition not_there :: gitd_error where
  "not_there = GitdIo ''No such file or directory''"

definition lfs_get :: "string \<Rightarrow> lfs_store \<Rightarrow> gitd_error + octet list" where
  "lfs_get oid store = try_res (object_path oid) (\<lambda>path. ok_or (hm_get store path) not_there)"

definition lfs_exists :: "string \<Rightarrow> lfs_store \<Rightarrow> bool" where
  "lfs_exists oid store = (case object_path oid of Inl _ \<Rightarrow> False | Inr path \<Rightarrow> hm_has store path)"

definition lfs_size :: "string \<Rightarrow> lfs_store \<Rightarrow> gitd_error + u64 option" where
  "lfs_size oid store = try_res (object_path oid) (\<lambda>path. Inr (map_option length (hm_get store path)))"

definition lfs_verify :: "string \<Rightarrow> u64 \<Rightarrow> lfs_store \<Rightarrow> gitd_error + unit" where
  "lfs_verify oid expected_size store =
     try_res (normalize_oid oid) (\<lambda>oid.
     try_res (lfs_size oid store) (\<lambda>bytes.
       case bytes of
         None \<Rightarrow> Inl (Lfs (''LFS object not found: '' @ oid))
       | Some actual \<Rightarrow> if actual \<noteq> expected_size then Inl (size_mismatch oid expected_size actual) else Inr ()))"

section \<open>The Batch API\<close>

datatype lfs_operation = LfsUpload | LfsDownload

record lfs_batch_object =
  lo_oid :: string
  lo_size :: u64

record lfs_batch_request =
  lr_operation :: string
  lr_transfers :: "string list option"
  lr_hash_algo :: "string option"
  lr_objects :: "lfs_batch_object list"

record lfs_action =
  la_href :: string
  la_header :: "(string \<times> string) list option"

record lfs_object_error =
  lx_code :: nat
  lx_message :: string

record lfs_batch_object_response =
  lb_oid :: string
  lb_size :: u64
  lb_authenticated :: bool
  lb_actions :: "(string \<times> lfs_action) list"
  lb_error :: "lfs_object_error option"

record lfs_batch_response =
  lp_transfer :: string
  lp_hash_algo :: string
  lp_objects :: "lfs_batch_object_response list"

definition batch_object_new :: "string \<Rightarrow> u64 \<Rightarrow> lfs_batch_object_response" where
  "batch_object_new oid bytes =
     \<lparr>lb_oid = oid, lb_size = bytes, lb_authenticated = True, lb_actions = [], lb_error = None\<rparr>"

definition batch_object_error :: "string \<Rightarrow> u64 \<Rightarrow> nat \<Rightarrow> string \<Rightarrow> lfs_batch_object_response" where
  "batch_object_error oid bytes code message =
     \<lparr>lb_oid = oid, lb_size = bytes, lb_authenticated = True, lb_actions = [],
      lb_error = Some \<lparr>lx_code = code, lx_message = message\<rparr>\<rparr>"

definition auth_action_header :: "string \<Rightarrow> (string \<times> string) list" where
  "auth_action_header val = [(''Authorization'', val)]"

definition object_href :: "string \<Rightarrow> string \<Rightarrow> string" where
  "object_href objects_url oid = trim_end_matches (CHR ''/'') objects_url @ ''/'' @ oid"

definition upload_batch_object ::
  "string \<Rightarrow> u64 \<Rightarrow> string \<Rightarrow> (string \<times> string) list option \<Rightarrow> lfs_store \<Rightarrow> gitd_error + lfs_batch_object_response" where
  "upload_batch_object oid bytes objects_url header store =
     try_res (lfs_size oid store) (\<lambda>stored.
       case stored of
         Some actual_size \<Rightarrow>
           if actual_size \<noteq> bytes
           then Inr (batch_object_error oid bytes 422 ''stored object size does not match requested size'')
           else Inr (batch_object_new oid bytes)
       | None \<Rightarrow>
           let url = object_href objects_url oid
           in Inr ((batch_object_new oid bytes)\<lparr>lb_actions :=
                bt_put ''verify'' \<lparr>la_href = url @ ''/verify'', la_header = header\<rparr>
                  (bt_put ''upload'' \<lparr>la_href = url, la_header = header\<rparr> [])\<rparr>))"

definition download_batch_object ::
  "string \<Rightarrow> u64 \<Rightarrow> string \<Rightarrow> (string \<times> string) list option \<Rightarrow> lfs_store \<Rightarrow> gitd_error + lfs_batch_object_response" where
  "download_batch_object oid bytes objects_url header store =
     try_res (lfs_size oid store) (\<lambda>stored.
       case stored of
         None \<Rightarrow> Inr (batch_object_error oid bytes 404 ''object not found'')
       | Some actual_size \<Rightarrow>
           if actual_size \<noteq> bytes
           then Inr (batch_object_error oid bytes 422 ''stored object size does not match requested size'')
           else Inr ((batch_object_new oid bytes)\<lparr>lb_actions :=
                  bt_put ''download'' \<lparr>la_href = object_href objects_url oid, la_header = header\<rparr> []\<rparr>))"

definition batch_object ::
  "lfs_operation \<Rightarrow> string \<Rightarrow> (string \<times> string) list option \<Rightarrow> u64 \<Rightarrow> lfs_store \<Rightarrow> lfs_batch_object \<Rightarrow>
   gitd_error + lfs_batch_object_response" where
  "batch_object operation objects_url header max_object_bytes store obj =
     try_res (normalize_oid (lo_oid obj)) (\<lambda>oid.
       if max_object_bytes < lo_size obj
       then Inr (batch_object_error oid (lo_size obj) 413 ''object exceeds the configured LFS size limit'')
       else case operation of
         LfsUpload \<Rightarrow> upload_batch_object oid (lo_size obj) objects_url header store
       | LfsDownload \<Rightarrow> download_batch_object oid (lo_size obj) objects_url header store)"

fun batch_objects ::
  "lfs_operation \<Rightarrow> string \<Rightarrow> (string \<times> string) list option \<Rightarrow> u64 \<Rightarrow> lfs_store \<Rightarrow> lfs_batch_object list \<Rightarrow>
   gitd_error + lfs_batch_object_response list" where
  "batch_objects operation objects_url header max_object_bytes store [] = Inr []"
| "batch_objects operation objects_url header max_object_bytes store (obj # objs) =
     try_res (batch_object operation objects_url header max_object_bytes store obj) (\<lambda>r.
     try_res (batch_objects operation objects_url header max_object_bytes store objs) (\<lambda>rs. Inr (r # rs)))"

definition batch_response_for ::
  "lfs_batch_request \<Rightarrow> string \<Rightarrow> string option \<Rightarrow> u64 \<Rightarrow> lfs_store \<Rightarrow> gitd_error + lfs_batch_response" where
  "batch_response_for request objects_url auth_header max_object_bytes store =
     (if (case lr_hash_algo request of None \<Rightarrow> ''sha256'' | Some a \<Rightarrow> a) \<noteq> ''sha256''
      then Inl (Lfs ''unsupported LFS hash algorithm; only sha256 is supported'')
      else if (case lr_transfers request of None \<Rightarrow> False | Some ts \<Rightarrow> ts \<noteq> [] \<and> ''basic'' \<notin> set ts)
      then Inl (Lfs ''unsupported LFS transfer adapter; only basic is supported'')
      else try_res (if lr_operation request = ''upload'' then Inr LfsUpload
             else if lr_operation request = ''download'' then Inr LfsDownload
             else Inl (Lfs (''unsupported LFS batch operation: '' @ lr_operation request))) (\<lambda>operation.
           try_res (batch_objects operation objects_url (map_option auth_action_header auth_header) max_object_bytes store
               (lr_objects request)) (\<lambda>objects.
             Inr \<lparr>lp_transfer = ''basic'', lp_hash_algo = ''sha256'', lp_objects = objects\<rparr>)))"

section \<open>The store is content addressed\<close>

definition hex_name :: "string \<Rightarrow> bool" where
  "hex_name oid = (normalize_oid oid = Inr oid)"

definition path_of :: "string \<Rightarrow> string" where
  "path_of oid = oid_dir oid @ oid"

lemma lower_hexdigit: "is_ascii_hexdigit c \<Longrightarrow> is_ascii_hexdigit (to_ascii_lower c) \<and> to_ascii_lower (to_ascii_lower c) = to_ascii_lower c"
proof (cases "is_ascii_uppercase c")
  case True
  then have "byte (to_ascii_lower c) = byte c + 32"
    by (simp add: to_ascii_lower_def is_ascii_uppercase_def byte_def)
  with True show "is_ascii_hexdigit c \<Longrightarrow> ?thesis"
    by (auto simp: is_ascii_hexdigit_def is_ascii_digit_def is_ascii_uppercase_def to_ascii_lower_def [of "to_ascii_lower c"])
qed (simp add: to_ascii_lower_def)

lemma normalize_hex: "normalize_oid oid = Inr name \<Longrightarrow> hex_name name"
  by (auto simp: hex_name_def normalize_oid_def to_ascii_lowercase_def list_all_iff lower_hexdigit split: if_splits)

lemma hex_name_chars: "hex_name oid \<Longrightarrow> CHR ''.'' \<notin> set oid"
proof -
  have "\<not> is_ascii_hexdigit (CHR ''.'')" by code_simp
  then show "hex_name oid \<Longrightarrow> ?thesis" by (auto simp: hex_name_def normalize_oid_def list_all_iff split: if_splits)
qed

lemma path_of_inject: "hex_name a \<Longrightarrow> hex_name b \<Longrightarrow> path_of a = path_of b \<longleftrightarrow> a = b"
proof
  assume hex: "hex_name a" "hex_name b" and same: "path_of a = path_of b"
  have "length a = length b" using hex by (auto simp: hex_name_def normalize_oid_def split: if_splits)
  with same show "a = b" by (simp add: path_of_def)
qed simp

lemma temp_no_object: "hex_name a \<Longrightarrow> temp_name en oid n \<noteq> path_of a"
proof
  assume hex: "hex_name a" and same: "temp_name en oid n = path_of a"
  have "CHR ''.'' \<in> set (temp_name en oid n)" by (simp add: temp_name_def)
  moreover have "CHR ''.'' \<notin> set (path_of a)"
    using hex_name_chars [OF hex] by (auto simp: path_of_def oid_dir_def dest: in_set_takeD in_set_dropD)
  ultimately show False using same by simp
qed

lemma create_temp_Inr:
  assumes "create_temp_file en oid store n k = (Inr tmp, store')"
  shows "\<exists>m. tmp = temp_name en oid m \<and> store' = hm_put tmp [] store \<and> hm_get store tmp = None"
  using assms by (induction en oid store n k rule: create_temp_file.induct)
    (auto simp: hm_has_def split: if_splits option.splits)

lemma create_temp_Inl: "create_temp_file en oid store n k = (Inl e, store') \<Longrightarrow> store' = store"
  by (induction en oid store n k rule: create_temp_file.induct) (auto split: if_splits option.splits)

lemma copy_loop_frame:
  assumes "copy_loop en oid max_size tmp reads n seen store = (r, store')"
  shows "(\<forall>p. p \<noteq> tmp \<longrightarrow> hm_get store' p = hm_get store p) \<and>
    (\<forall>seen'. r = Inr seen' \<longrightarrow> hm_get store tmp = Some seen \<longrightarrow> hm_get store' tmp = Some seen')"
  using assms by (induction en oid max_size tmp reads n seen store rule: copy_loop.induct)
    (auto split: if_splits option.splits)

lemma publish_frame:
  assumes "publish_object en oid expected tmp seen store = (r, store')" and "le_sha256 en = sha256"
    and "hm_get store tmp = Some seen" and "tmp \<noteq> path_of oid" and "p \<noteq> tmp"
  shows "hm_get store' p = hm_get store p \<or>
    p = path_of oid \<and> hm_get store p = None \<and> hm_get store' p = Some seen \<and> sha256_hex seen = oid"
  using assms
  by (auto simp: publish_object_def Let_def fault_def finalize_sha256_hex_def sha256_hex_def path_of_def hm_has_def hm_list_def
      split: if_splits option.splits)

lemma put_frame:
  assumes "put_reader_with_limit en oid expected max_size reader store = (r, store')" and "le_sha256 en = sha256"
    and "hex_name k"
  shows "hm_get store' (path_of k) = hm_get store (path_of k) \<or>
    hm_get store (path_of k) = None \<and> (\<exists>bytes. hm_get store' (path_of k) = Some bytes \<and> sha256_hex bytes = k)"
proof (cases "normalize_oid oid")
  case (Inr name)
  show ?thesis
  proof (cases "create_temp_file en name store 0 TEMP_NAME_ATTEMPTS")
    case (Pair made store1)
    show ?thesis
    proof (cases made)
      case (Inl e)
      then show ?thesis using assms(1) Inr Pair create_temp_Inl [of en name store 0 TEMP_NAME_ATTEMPTS]
        by (auto simp: put_reader_with_limit_def fault_def split: if_splits option.splits)
    next
      case made: (Inr tmp)
      from create_temp_Inr [OF Pair [unfolded made]] obtain m where tmp: "tmp = temp_name en name m"
        "store1 = hm_put tmp [] store" "hm_get store tmp = None" by blast
      have apart: "tmp \<noteq> path_of k" "tmp \<noteq> path_of name"
        using temp_no_object assms(3) normalize_hex [OF Inr] tmp(1) by metis+
      obtain r1 store2 where loop: "copy_loop en name max_size tmp reader 0 [] store1 = (r1, store2)" by fastforce
      note frame = copy_loop_frame [OF loop]
      have kept: "hm_get store2 (path_of k) = hm_get store (path_of k)" using frame apart tmp by simp
      have final: "hm_get store' (path_of k) = hm_get store2 (path_of k) \<or>
          hm_get store2 (path_of k) = None \<and> (\<exists>bytes. hm_get store' (path_of k) = Some bytes \<and> sha256_hex bytes = k)"
        if "store' = store3 \<or> store' = hm_del tmp store3" and "publish_object en name expected tmp seen store2 = (r3, store3)"
          and "r1 = Inr seen" for seen r3 store3
        using publish_frame [OF that(2) assms(2) _ apart(2), of "path_of k"] frame that(1,3) tmp apart
          path_of_inject [OF assms(3) normalize_hex [OF Inr]] by auto
      show ?thesis
      proof (cases r1)
        case (Inl e)
        then show ?thesis using assms(1) \<open>normalize_oid oid = Inr name\<close> Pair made loop kept apart
          by (auto simp: put_reader_with_limit_def fault_def split: if_splits option.splits)
      next
        case seen: (Inr seen)
        obtain r3 store3 where done1: "publish_object en name expected tmp seen store2 = (r3, store3)" by fastforce
        have "store' = store \<or> store' = store3 \<or> store' = hm_del tmp store3"
          using assms(1) \<open>normalize_oid oid = Inr name\<close> Pair made loop seen done1
          by (auto simp: put_reader_with_limit_def fault_def split: if_splits option.splits sum.splits)
        then show ?thesis using final [OF _ done1 seen] kept by auto
      qed
    qed
  qed
qed (use assms(1) in \<open>simp add: put_reader_with_limit_def\<close>)

text \<open>A history of uploads into an empty store: each with its own faults, limits and reader.\<close>

record lfs_upload =
  up_env :: lfs_env
  up_oid :: string
  up_expected :: "u64 option"
  up_limit :: u64
  up_reader :: "(gitd_error + octet list) list"

definition upload :: "lfs_upload \<Rightarrow> lfs_store \<Rightarrow> lfs_store" where
  "upload u store = snd (put_reader_with_limit (up_env u) (up_oid u) (up_expected u) (up_limit u) (up_reader u) store)"

definition digests_sha256 :: "lfs_upload list \<Rightarrow> bool" where
  "digests_sha256 uploads = list_all (\<lambda>u. le_sha256 (up_env u) = sha256) uploads"

definition addressed :: "lfs_store \<Rightarrow> bool" where
  "addressed store = (\<forall>k bytes. hex_name k \<longrightarrow> hm_get store (path_of k) = Some bytes \<longrightarrow> sha256_hex bytes = k)"

lemma upload_frame:
  assumes "le_sha256 (up_env u) = sha256" and "hex_name k"
  shows "hm_get (upload u store) (path_of k) = hm_get store (path_of k) \<or>
    hm_get store (path_of k) = None \<and> (\<exists>bytes. hm_get (upload u store) (path_of k) = Some bytes \<and> sha256_hex bytes = k)"
  unfolding upload_def by (rule put_frame [OF surjective_pairing assms])

lemma uploads_addressed: "digests_sha256 uploads \<Longrightarrow> addressed store \<Longrightarrow> addressed (fold upload uploads store)"
proof (induction uploads arbitrary: store)
  case (Cons u uploads)
  have "addressed (upload u store)" unfolding addressed_def
  proof (intro allI impI)
    fix k bytes assume "hex_name k" "hm_get (upload u store) (path_of k) = Some bytes"
    with upload_frame [of u k store] Cons.prems show "sha256_hex bytes = k"
      by (auto simp: addressed_def digests_sha256_def)
  qed
  with Cons show ?case by (simp add: digests_sha256_def)
qed simp

lemma uploads_keep:
  assumes "hex_name k"
  shows "digests_sha256 uploads \<Longrightarrow> hm_get store (path_of k) = Some bytes \<Longrightarrow>
    hm_get (fold upload uploads store) (path_of k) = Some bytes"
proof (induction uploads arbitrary: store)
  case (Cons u uploads)
  then show ?case using upload_frame [OF _ assms, of u store] by (auto simp: digests_sha256_def)
qed simp

lemma lfs_get_Inr: "lfs_get oid store = Inr bytes \<longleftrightarrow> (\<exists>name. normalize_oid oid = Inr name \<and> hm_get store (path_of name) = Some bytes)"
  by (auto simp: lfs_get_def object_path_def try_res_Inr ok_or_Inr path_of_def)

text \<open>
  C34. The store is content addressed for good. Whatever uploads a store has seen since it was empty, with whatever limits, expected sizes,
  broken readers and failing calls of the operating system, an object that can be read hashes to the id it is read under;
  and it stays, byte for byte, whatever uploads follow, under the same id or others. What is relied on is that the digest of the
  \<^verbatim>\<open>sha2\<close> crate is SHA-256.
\<close>

theorem stored_objects_match_their_ids:
  assumes "digests_sha256 (uploads @ later)" and "lfs_get oid (fold upload uploads []) = Inr bytes"
  shows "normalize_oid oid = Inr (sha256_hex bytes) \<and> lfs_get oid (fold upload (uploads @ later) []) = Inr bytes"
proof -
  obtain name where name: "normalize_oid oid = Inr name" "hm_get (fold upload uploads []) (path_of name) = Some bytes"
    using assms(2) by (auto simp: lfs_get_Inr)
  have digests: "digests_sha256 uploads" "digests_sha256 later" using assms(1) by (simp_all add: digests_sha256_def)
  have "addressed (fold upload uploads [])" by (rule uploads_addressed [OF digests(1)]) (simp add: addressed_def)
  then have "sha256_hex bytes = name" using name normalize_hex by (auto simp: addressed_def)
  moreover have "hm_get (fold upload later (fold upload uploads [])) (path_of name) = Some bytes"
    by (rule uploads_keep [OF normalize_hex [OF name(1)] digests(2) name(2)])
  ultimately show ?thesis using name by (simp add: lfs_get_Inr)
qed

section \<open>What is published\<close>

text \<open>An operating system on which no call fails.\<close>

definition calm :: "lfs_env \<Rightarrow> bool" where
  "calm en = (le_mkdir en = None \<and> le_sync en = None \<and> le_remove en = None \<and> le_rename en = None \<and>
     le_sync_dir en = None \<and> le_cleanup en \<and> le_create en 0 = None \<and> le_write en = (\<lambda>_. None))"

lemma copy_loop_calm:
  assumes "calm en" and "list_all (\<lambda>c. c \<noteq> []) chunks"
  shows "case copy_loop en oid max_size tmp (map Inr chunks) n seen store of
      (Inr all, _) \<Rightarrow> all = seen @ concat chunks \<and> (chunks = [] \<or> length all \<le> max_size \<and> length all < 2 ^ 64)
    | (Inl e, _) \<Rightarrow> max_size < length (seen @ concat chunks) \<or> 2 ^ 64 \<le> length (seen @ concat chunks)"
  using assms(2)
proof (induction chunks arbitrary: n seen store)
  case (Cons c cs)
  have writes: "le_write en n = None" using assms(1) by (simp add: calm_def)
  show ?case
  proof (cases "2 ^ 64 \<le> length seen + length c \<or> max_size < length seen + length c")
    case False
    with Cons.prems writes Cons.IH [where n = "n + 1" and seen = "seen @ c" and store = "hm_put tmp (seen @ c) store"] show ?thesis
      by (auto split: prod.splits sum.splits)
  qed (use Cons.prems in \<open>auto\<close>)
qed simp

definition publishable :: "string \<Rightarrow> u64 option \<Rightarrow> u64 \<Rightarrow> octet list \<Rightarrow> bool" where
  "publishable oid expected max_size bytes =
     (normalize_oid oid = Inr (sha256_hex bytes) \<and> length bytes \<le> max_size \<and> length bytes < 2 ^ 64 \<and>
      (expected = None \<or> expected = Some (length bytes)))"

lemma temp_free:
  assumes "calm en" and "hm_get store (temp_name en name 0) = None"
  shows "create_temp_file en name store 0 TEMP_NAME_ATTEMPTS = (Inr (temp_name en name 0), hm_put (temp_name en name 0) [] store)"
proof -
  have "create_temp_file en name store 0 (Suc k) = (Inr (temp_name en name 0), hm_put (temp_name en name 0) [] store)" for k
    using assms by (simp add: hm_has_def calm_def)
  from this [of 63] show ?thesis by (simp add: TEMP_NAME_ATTEMPTS_def)
qed

lemma upload_published:
  assumes "calm en" and "le_sha256 en = sha256" and "list_all (\<lambda>c. c \<noteq> []) chunks"
    and "hm_get store (temp_name en (to_ascii_lowercase oid) 0) = None"
    and "put_reader_with_limit en oid expected max_size (map Inr chunks) store = (r, store')"
  shows "if publishable oid expected max_size (concat chunks)
    then r = Inr (length (concat chunks)) \<and>
      (hm_get store (path_of (sha256_hex (concat chunks))) \<noteq> None \<longrightarrow> hm_get store' = hm_get store) \<and>
      (hm_get store (path_of (sha256_hex (concat chunks))) = None \<longrightarrow>
         lfs_get oid store' = Inr (concat chunks) \<and>
         hm_get store' = (hm_get store)(path_of (sha256_hex (concat chunks)) \<mapsto> concat chunks))
    else (\<exists>e. r = Inl e) \<and> hm_get store' = hm_get store"
proof (cases "normalize_oid oid")
  case (Inl e)
  then show ?thesis using assms(5) by (auto simp: put_reader_with_limit_def publishable_def)
next
  case (Inr name)
  then have named: "to_ascii_lowercase oid = name" by (auto simp: normalize_oid_def split: if_splits)
  let ?tmp = "temp_name en name 0"
  have calm: "fault (le_mkdir en) = Inr ()" "fault (le_sync en) = Inr ()" "fault (le_remove en) = Inr ()"
    "fault (le_rename en) = Inr ()" "fault (le_sync_dir en) = Inr ()" "le_cleanup en"
    using assms(1) by (simp_all add: calm_def fault_def)
  have free: "hm_get store ?tmp = None" using assms(4) named by simp
  note made = temp_free [OF assms(1) free]
  have apart: "?tmp \<noteq> path_of name" by (rule temp_no_object [OF normalize_hex [OF Inr]])
  obtain r1 store1 where loop:
    "copy_loop en name max_size ?tmp (map Inr chunks) 0 [] (hm_put ?tmp [] store) = (r1, store1)" by fastforce
  note frame = copy_loop_frame [OF loop]
  note calm_loop = copy_loop_calm [OF assms(1,3), where oid = name and max_size = max_size and tmp = ?tmp and n = 0 and seen = "[]" and store = "hm_put ?tmp [] store", unfolded loop]
  have del: "hm_get (hm_del ?tmp store1) = hm_get store"
    using frame free by (auto simp: fun_eq_iff)
  note put = assms(5) [unfolded put_reader_with_limit_def, simplified Inr try_simps calm made loop]
  show ?thesis
  proof (cases "(case expected of None \<Rightarrow> False | Some n \<Rightarrow> max_size < n) \<or> (\<exists>e. r1 = Inl e)")
    case True
    then have "\<exists>e. r = Inl e" "hm_get store' = hm_get store"
      using put del calm by (auto split: if_splits option.splits sum.splits)
    moreover have "\<not> publishable oid expected max_size (concat chunks)"
      using True calm_loop by (auto simp: publishable_def split: option.splits sum.splits)
    ultimately show ?thesis by simp
  next
    case False
    then obtain seen where seen: "r1 = Inr seen" by (cases r1) auto
    have all: "seen = concat chunks" "chunks = [] \<or> length seen \<le> max_size \<and> length seen < 2 ^ 64"
      using calm_loop by (auto simp add: seen)
    have tmp: "hm_get store1 ?tmp = Some seen" using frame seen by simp
    have same: "publishable oid expected max_size (concat chunks) \<longleftrightarrow>
        sha256_hex seen = name \<and> (expected = None \<or> expected = Some (length seen))"
      using all Inr False by (auto simp: publishable_def)
    have old: "hm_has store1 (path_of name) \<longleftrightarrow> hm_get store (path_of name) \<noteq> None"
      using frame apart by (simp add: hm_has_def)
    have moved: "hm_get (hm_put (path_of name) (hm_list store1 ?tmp) (hm_del ?tmp store1)) = (hm_get store)(path_of name \<mapsto> seen)"
      using del tmp by (simp add: hm_list_def)
    show ?thesis
      using put False seen same del old moved calm Inr apart all(1)
      by (auto simp: publish_object_def Let_def finalize_sha256_hex_def assms(2) sha256_hex_def [symmetric] path_of_def [symmetric]
          lfs_get_Inr split: if_splits option.splits)
  qed
qed

lemma sha256_hex_name: "normalize_oid (sha256_hex input) = Inr (sha256_hex input)"
proof -
  have plain: "is_ascii_hexdigit c \<and> to_ascii_lower c = c" if "c \<in> set ''0123456789abcdef''" for c
  proof -
    have "list_all (\<lambda>c. is_ascii_hexdigit c \<and> to_ascii_lower c = c) ''0123456789abcdef''" by code_simp
    with that show ?thesis by (simp only: list_all_iff)
  qed
  then have "list_all is_ascii_hexdigit (sha256_hex input)" "to_ascii_lowercase (sha256_hex input) = sha256_hex input"
    using sha256_hex_lower [of input]
    by (auto simp: lower_hex_def list_all_iff to_ascii_lowercase_def map_idI simp del: List.set_simps)
  moreover have "length (sha256_hex input) = 64"
  proof -
    have "length (sha_output s) = 32" for s by (cases s rule: sha_output.cases) (simp add: be32_def)
    then have "length (sha256 input) = 32" by (simp add: sha256_def)
    then show ?thesis by (simp add: sha256_hex_def hex_octet_def length_concat comp_def sum_list_triv)
  qed
  ultimately show ?thesis by (simp add: normalize_oid_def)
qed

text \<open>
  C35. What an upload publishes. When the calls of the operating system succeed and the first name of a temporary file is free, an upload
  succeeds if and only if the id it names is the SHA-256 of what the reader delivers, that is within the limit and
  as long as announced; the answer is then the length, the object reads back, and no other file has changed; and when it fails the
  files are what they were before.
\<close>

theorem upload_published_iff:
  assumes "calm en" and "le_sha256 en = sha256" and "list_all (\<lambda>c. c \<noteq> []) chunks"
    and "hm_get store (temp_name en (to_ascii_lowercase oid) 0) = None"
    and "put_reader_with_limit en oid expected max_size (map Inr chunks) store = (r, store')"
  shows "if publishable oid expected max_size (concat chunks)
    then r = Inr (length (concat chunks)) \<and>
      (hm_get store (path_of (sha256_hex (concat chunks))) \<noteq> None \<longrightarrow> hm_get store' = hm_get store) \<and>
      (hm_get store (path_of (sha256_hex (concat chunks))) = None \<longrightarrow>
         lfs_get oid store' = Inr (concat chunks) \<and>
         hm_get store' = (hm_get store)(path_of (sha256_hex (concat chunks)) \<mapsto> concat chunks))
    else (\<exists>e. r = Inl e) \<and> hm_get store' = hm_get store"
  using assms by (rule upload_published)

definition ex_lfs_env :: lfs_env where
  "ex_lfs_env = \<lparr>le_pid = 1, le_now = (\<lambda>n. n), le_counter = (\<lambda>n. n), le_sha256 = sha256, le_mkdir = None, le_create = (\<lambda>_. None),
     le_write = (\<lambda>_. None), le_sync = None, le_remove = None, le_rename = None, le_sync_dir = None, le_cleanup = True\<rparr>"

definition ex_upload :: lfs_upload where
  "ex_upload = \<lparr>up_env = ex_lfs_env, up_oid = sha256_hex [1, 2, 3], up_expected = Some 3, up_limit = 10,
     up_reader = map Inr [[1, 2], [3]]\<rparr>"

lemma ex_lfs_calm: "calm ex_lfs_env" "le_sha256 ex_lfs_env = sha256"
  by (simp_all add: calm_def ex_lfs_env_def)

lemma ex_publishable: "publishable (sha256_hex [1, 2, 3]) (Some 3) 10 (concat [[1, 2], [3]])"
  by (simp add: publishable_def sha256_hex_name)

theorem upload_published_iff_witness:
  "\<exists>store'. put_reader_with_limit ex_lfs_env (sha256_hex [1, 2, 3]) (Some 3) 10 (map Inr [[1, 2], [3]]) [] = (Inr 3, store') \<and>
     lfs_get (sha256_hex [1, 2, 3]) store' = Inr [1, 2, 3]"
proof -
  obtain r store' where run:
    "put_reader_with_limit ex_lfs_env (sha256_hex [1, 2, 3]) (Some 3) 10 (map Inr [[1, 2], [3]]) [] = (r, store')"
    by (metis surj_pair)
  have free: "hm_get ([] :: lfs_store) (temp_name ex_lfs_env (to_ascii_lowercase (sha256_hex [1, 2, 3])) 0) = None" by simp
  have "list_all (\<lambda>c. c \<noteq> []) [[1, 2], [3 :: octet]]" by simp
  from upload_published_iff [OF ex_lfs_calm this free run] run ex_publishable show ?thesis by simp
qed

lemma ex_stored: "lfs_get (sha256_hex [1, 2, 3]) (fold upload [ex_upload] []) = Inr [1, 2, 3]"
proof -
  obtain r store' where run:
    "put_reader_with_limit ex_lfs_env (sha256_hex [1, 2, 3]) (Some 3) 10 (map Inr [[1, 2], [3]]) [] = (r, store')"
    by (metis surj_pair)
  have free: "hm_get ([] :: lfs_store) (temp_name ex_lfs_env (to_ascii_lowercase (sha256_hex [1, 2, 3])) 0) = None" by simp
  have "list_all (\<lambda>c. c \<noteq> []) [[1, 2], [3 :: octet]]" by simp
  from upload_published [OF ex_lfs_calm this free run] run ex_publishable show ?thesis
    by (simp add: upload_def ex_upload_def)
qed

theorem stored_objects_match_their_ids_witness:
  "normalize_oid (sha256_hex [1, 2, 3]) = Inr (sha256_hex [1, 2, 3]) \<and>
     lfs_get (sha256_hex [1, 2, 3]) (fold upload [ex_upload, ex_upload] []) = Inr [1, 2, 3]"
proof -
  have "digests_sha256 ([ex_upload] @ [ex_upload])"
    by (simp add: digests_sha256_def ex_upload_def ex_lfs_calm)
  from stored_objects_match_their_ids [OF this ex_stored] show ?thesis by simp
qed

end
