(* ===== verification/Proof_Engine.thy ===== *)
theory Proof_Engine
  imports Git_Wire
begin

text \<open>
  The proof runner (\<^verbatim>\<open>src/crates/jeryu-proof\<close>) on the types of Core's \<^verbatim>\<open>phase7.rs\<close>, \<^verbatim>\<open>receipt.rs\<close> and \<^verbatim>\<open>ids.rs\<close>: path patterns,
  the plan a change set needs (owners and proof lanes for every path), and the witness minted from the evidence of the lanes.
  The process-wide counter of fresh ids is threaded through, the clock of a receipt is an argument.
\<close>

section \<open>Identifiers and receipts\<close>

text \<open>\<^verbatim>\<open>fetch_add\<close> wraps around at the top of \<^verbatim>\<open>u64\<close>.\<close>

definition pad16_hex :: "nat \<Rightarrow> string" where
  "pad16_hex n = replicate (16 - length (show_hex n)) (CHR ''0'') @ show_hex n"

definition fresh_proof_id :: "string \<Rightarrow> u64 \<Rightarrow> string \<times> u64" where
  "fresh_proof_id prefix counter = (prefix @ ''_'' @ pad16_hex counter, (counter + 1) mod 2 ^ 64)"

datatype receipt_kind = ReceiptProofPlan | ReceiptProofWitness | ReceiptAgentDryRunPatch | ReceiptAgentProposedFix
  | ReceiptAgentHotfix | ReceiptMergeQueue | ReceiptRepair

record receipt =
  re_id :: string
  re_kind :: receipt_kind
  re_repo :: string
  re_agent :: "string option"
  re_subject :: string
  re_sha :: string
  re_summary :: string
  re_commands :: "string list"
  re_residual_risk :: string
  re_created_at_ms :: nat

text \<open>\<open>now\<close> is the time since the epoch in milliseconds, nothing when the clock stands before it.\<close>

definition receipt_new ::
  "nat option \<Rightarrow> receipt_kind \<Rightarrow> string \<Rightarrow> string option \<Rightarrow> string \<Rightarrow> string \<Rightarrow> string \<Rightarrow> string list \<Rightarrow> string \<Rightarrow> u64 \<Rightarrow>
   receipt \<times> u64" where
  "receipt_new now kind repo agent subject sha summary commands residual_risk counter =
     (let created_at_ms = (case now of Some ms \<Rightarrow> ms | None \<Rightarrow> 0);
          (fresh, counter) = fresh_proof_id ''receipt'' counter
      in (\<lparr>re_id = fresh, re_kind = kind, re_repo = repo, re_agent = agent, re_subject = subject, re_sha = sha,
           re_summary = summary, re_commands = commands, re_residual_risk = residual_risk,
           re_created_at_ms = created_at_ms\<rparr>, counter))"

section \<open>Changes, scopes and witnesses\<close>

record changed_path =
  cp_path :: string
  cp_sensitive :: bool

definition changed_path_new :: "string \<Rightarrow> changed_path" where
  "changed_path_new path = \<lparr>cp_path = path, cp_sensitive = False\<rparr>"

definition mark_sensitive :: "changed_path \<Rightarrow> changed_path" where
  "mark_sensitive c = c\<lparr>cp_sensitive := True\<rparr>"

text \<open>A \<^verbatim>\<open>BTreeSet\<close> is the ascending list of its elements.\<close>

definition bset_extend :: "'a::linorder list \<Rightarrow> 'a list \<Rightarrow> 'a list" where
  "bset_extend elems xs = fold insort_insert xs elems"

record proof_pull_request =
  pp_repo :: string
  pp_id :: string
  pp_source_branch :: string
  pp_target_branch :: string
  pp_base_sha :: string
  pp_head_sha :: string
  pp_changed_paths :: "changed_path list"

definition changed_path_set :: "proof_pull_request \<Rightarrow> string list" where
  "changed_path_set pr = bset_extend [] (map cp_path (pp_changed_paths pr))"

record proof_witness =
  pw_id :: string
  pw_repo :: string
  pw_pr :: string
  pw_head_sha :: string
  pw_changed_paths :: "string list"
  pw_lanes :: "string list"
  pw_owners :: "string list"
  pw_receipt :: receipt

datatype queue_entry_state = QueueQueued | QueueSpeculativeMergeTesting | QueueMergeable | QueueDequeuedConflict
  | QueueDequeuedFailedValidation

record queue_entry =
  qe_id :: string
  qe_pr :: proof_pull_request
  qe_proof_witness :: proof_witness
  qe_speculative_sha :: "string option"
  qe_state :: queue_entry_state
  qe_receipts :: "receipt list"

record agent_scope =
  sp_agent :: string
  sp_repo :: string
  sp_allowed_paths :: "string list"
  sp_max_paths :: nat

definition permits_all :: "agent_scope \<Rightarrow> string list \<Rightarrow> bool" where
  "permits_all scope paths =
     (paths \<noteq> [] \<and> length paths \<le> sp_max_paths scope \<and>
      list_all (\<lambda>path. list_ex (\<lambda>prefix. path = prefix \<or> starts_with path prefix) (sp_allowed_paths scope)) paths)"

section \<open>Patterns and maps\<close>

definition proof_path_matches :: "string \<Rightarrow> string \<Rightarrow> bool" where
  "proof_path_matches pattern path =
     (if pattern = ''**'' \<or> pattern = ''*'' then True
      else case strip_suffix pattern ''/**'' of
        Some prefix \<Rightarrow> path = prefix \<or> starts_with path (prefix @ ''/'')
      | None \<Rightarrow>
          (case strip_suffix pattern ''*'' of
             Some prefix \<Rightarrow> starts_with path prefix
           | None \<Rightarrow> pattern = path))"

record owner_rule =
  ow_pattern :: string
  ow_owners :: "string list"

record test_rule =
  te_pattern :: string
  te_lanes :: "string list"

record generated_zone =
  gz_pattern :: string
  gz_allow_agent_edits :: bool
  gz_reason :: string

record proof_lane =
  ln_name :: string
  ln_commands :: "string list"
  ln_required :: bool

record change_set =
  ch_repo :: string
  ch_pr :: string
  ch_head_sha :: string
  ch_paths :: "changed_path list"
  ch_agent_authored :: bool

record proof_plan =
  pl_repo :: string
  pl_pr :: string
  pl_head_sha :: string
  pl_paths :: "string list"
  pl_owners :: "string list"
  pl_lanes :: "proof_lane list"

record proof_evidence =
  ef_lane :: string
  ef_commands :: "string list"
  ef_success :: bool
  ef_log_digest :: string

datatype proof_blocker = OwnerlessPath string | UnmappedProofLane string | GeneratedZoneEditDenied string string
  | MissingEvidence string | FailedLane string

fun blocker_message :: "proof_blocker \<Rightarrow> string" where
  "blocker_message (OwnerlessPath path) = ''ownerless path blocks merge: '' @ path"
| "blocker_message (UnmappedProofLane path) = ''unmapped proof lane blocks merge: '' @ path"
| "blocker_message (GeneratedZoneEditDenied path reason) = ''generated zone edit denied for '' @ path @ '': '' @ reason"
| "blocker_message (MissingEvidence lane) = ''missing proof evidence for lane: '' @ lane"
| "blocker_message (FailedLane lane) = ''proof lane failed: '' @ lane"

section \<open>The engine\<close>

record proof_engine =
  pe_owner_rules :: "owner_rule list"
  pe_test_rules :: "test_rule list"
  pe_generated_zones :: "generated_zone list"
  pe_lanes :: "(string \<times> proof_lane) list"

definition engine_new :: "owner_rule list \<Rightarrow> test_rule list \<Rightarrow> generated_zone list \<Rightarrow> proof_lane list \<Rightarrow> proof_engine" where
  "engine_new owner_rules test_rules generated_zones lanes =
     \<lparr>pe_owner_rules = owner_rules, pe_test_rules = test_rules, pe_generated_zones = generated_zones,
      pe_lanes = fold (\<lambda>lane. bt_put (ln_name lane) lane) lanes []\<rparr>"

definition path_owners :: "proof_engine \<Rightarrow> string \<Rightarrow> string list" where
  "path_owners engine path =
     concat (map ow_owners [rule \<leftarrow> pe_owner_rules engine. proof_path_matches (ow_pattern rule) path])"

definition path_lanes :: "proof_engine \<Rightarrow> string \<Rightarrow> string list" where
  "path_lanes engine path =
     concat (map te_lanes [rule \<leftarrow> pe_test_rules engine. proof_path_matches (te_pattern rule) path])"

definition denied_zone :: "proof_engine \<Rightarrow> bool \<Rightarrow> string \<Rightarrow> generated_zone option" where
  "denied_zone engine agent_authored path =
     (case find (\<lambda>zone. proof_path_matches (gz_pattern zone) path) (pe_generated_zones engine) of
        None \<Rightarrow> None
      | Some zone \<Rightarrow> if agent_authored \<and> \<not> gz_allow_agent_edits zone then Some zone else None)"

fun plan_loop ::
  "proof_engine \<Rightarrow> bool \<Rightarrow> changed_path list \<Rightarrow> string list \<Rightarrow> string list \<Rightarrow> string list \<Rightarrow>
   proof_blocker + (string list \<times> string list \<times> string list)" where
  "plan_loop engine agent_authored [] owners lane_names paths = Inr (owners, lane_names, paths)"
| "plan_loop engine agent_authored (changed # rest) owners lane_names paths =
     (case denied_zone engine agent_authored (cp_path changed) of
        Some zone \<Rightarrow> Inl (GeneratedZoneEditDenied (cp_path changed) (gz_reason zone))
      | None \<Rightarrow>
          if path_owners engine (cp_path changed) = [] then Inl (OwnerlessPath (cp_path changed))
          else if path_lanes engine (cp_path changed) = [] then Inl (UnmappedProofLane (cp_path changed))
          else let lane_names = bset_extend lane_names (path_lanes engine (cp_path changed));
                   lane_names = (if cp_sensitive changed then bset_extend lane_names [''policy''] else lane_names)
            in plan_loop engine agent_authored rest
                 (bset_extend owners (path_owners engine (cp_path changed))) lane_names (paths @ [cp_path changed]))"

fun lanes_loop :: "(string \<times> proof_lane) list \<Rightarrow> string list \<Rightarrow> proof_lane list \<Rightarrow> proof_blocker + proof_lane list" where
  "lanes_loop known [] lanes = Inr lanes"
| "lanes_loop known (lane_name # rest) lanes =
     (case map_of known lane_name of
        Some lane \<Rightarrow> lanes_loop known rest (lanes @ [lane])
      | None \<Rightarrow> Inl (UnmappedProofLane lane_name))"

definition plan_proof :: "proof_engine \<Rightarrow> change_set \<Rightarrow> proof_blocker + proof_plan" where
  "plan_proof engine change_set =
     try_res (plan_loop engine (ch_agent_authored change_set) (ch_paths change_set) [] [] []) (\<lambda>(owners, lane_names, paths).
     try_res (lanes_loop (pe_lanes engine) lane_names []) (\<lambda>lanes.
       Inr \<lparr>pl_repo = ch_repo change_set, pl_pr = ch_pr change_set, pl_head_sha = ch_head_sha change_set,
            pl_paths = paths, pl_owners = owners, pl_lanes = lanes\<rparr>))"

text \<open>Of several entries for one lane the map keeps the last.\<close>

definition evidence_by_lane :: "proof_evidence list \<Rightarrow> (string \<times> proof_evidence) list" where
  "evidence_by_lane evidence = fold (\<lambda>entry. bt_put (ef_lane entry) entry) evidence []"

fun check_lanes :: "(string \<times> proof_evidence) list \<Rightarrow> proof_lane list \<Rightarrow> proof_blocker + unit" where
  "check_lanes by_lane [] = Inr ()"
| "check_lanes by_lane (lane # rest) =
     (if \<not> ln_required lane then check_lanes by_lane rest
      else case map_of by_lane (ln_name lane) of
        None \<Rightarrow> Inl (MissingEvidence (ln_name lane))
      | Some entry \<Rightarrow> if \<not> ef_success entry then Inl (FailedLane (ln_name lane)) else check_lanes by_lane rest)"

definition verify_proof ::
  "nat option \<Rightarrow> proof_plan \<Rightarrow> proof_evidence list \<Rightarrow> u64 \<Rightarrow> (proof_blocker + proof_witness) \<times> u64" where
  "verify_proof now plan evidence counter =
     (case check_lanes (evidence_by_lane evidence) (pl_lanes plan) of
        Inl e \<Rightarrow> (Inl e, counter)
      | Inr _ \<Rightarrow>
          let lane_names = map ln_name (pl_lanes plan);
              (receipt, counter) = receipt_new now ReceiptProofWitness (pl_repo plan) None (pl_pr plan) (pl_head_sha plan)
                (''proof witness covers '' @ show_nat (length (pl_paths plan)) @ '' path(s) and '' @
                 show_nat (length lane_names) @ '' lane(s)'')
                (map (\<lambda>lane. ''proof-lane:'' @ lane) lane_names) ''none: all required lanes passed'' counter
          in (Inr \<lparr>pw_id = re_id receipt, pw_repo = pl_repo plan, pw_pr = pl_pr plan, pw_head_sha = pl_head_sha plan,
                   pw_changed_paths = pl_paths plan, pw_lanes = lane_names, pw_owners = pl_owners plan,
                   pw_receipt = receipt\<rparr>, counter))"

text \<open>The rules of the archive's own tree.\<close>

definition default_owner_rules :: "owner_rule list" where
  "default_owner_rules =
     [\<lparr>ow_pattern = ''crates/jeryu_core/**'', ow_owners = [''@jeryu_core'']\<rparr>,
      \<lparr>ow_pattern = ''crates/jeryu_proof/**'', ow_owners = [''@jeryu_proof'']\<rparr>,
      \<lparr>ow_pattern = ''crates/jeryu_ci_scheduler/**'', ow_owners = [''@scheduler'']\<rparr>,
      \<lparr>ow_pattern = ''crates/jeryu_agentbridge/**'', ow_owners = [''@jeryu_agentbridge'']\<rparr>,
      \<lparr>ow_pattern = ''crates/jeryu_phase7_cli/**'', ow_owners = [''@phase7'']\<rparr>,
      \<lparr>ow_pattern = ''agent/**'', ow_owners = [''@jankurai'']\<rparr>,
      \<lparr>ow_pattern = ''ops/ci/**'', ow_owners = [''@ops'']\<rparr>,
      \<lparr>ow_pattern = ''scripts/**'', ow_owners = [''@ops'']\<rparr>,
      \<lparr>ow_pattern = ''docs/**'', ow_owners = [''@docs'', ''@phase7'']\<rparr>,
      \<lparr>ow_pattern = ''Cargo.toml'', ow_owners = [''@phase7'']\<rparr>,
      \<lparr>ow_pattern = ''rust-toolchain.toml'', ow_owners = [''@phase7'']\<rparr>,
      \<lparr>ow_pattern = ''Justfile'', ow_owners = [''@ops'', ''@phase7'']\<rparr>,
      \<lparr>ow_pattern = ''AGENTS.md'', ow_owners = [''@jankurai'']\<rparr>]"

definition default_test_rules :: "test_rule list" where
  "default_test_rules =
     [\<lparr>te_pattern = ''crates/jeryu_core/**'', te_lanes = [''unit'', ''policy'']\<rparr>,
      \<lparr>te_pattern = ''crates/jeryu_proof/**'', te_lanes = [''unit'', ''jankurai-proof'']\<rparr>,
      \<lparr>te_pattern = ''crates/jeryu_ci_scheduler/**'', te_lanes = [''unit'', ''merge-queue-sim'']\<rparr>,
      \<lparr>te_pattern = ''crates/jeryu_agentbridge/**'', te_lanes = [''unit'', ''agent-safety'']\<rparr>,
      \<lparr>te_pattern = ''agent/**'', te_lanes = [''jankurai-proof'', ''policy'']\<rparr>,
      \<lparr>te_pattern = ''ops/ci/**'', te_lanes = [''local-ci-parity'']\<rparr>,
      \<lparr>te_pattern = ''scripts/**'', te_lanes = [''local-ci-parity'']\<rparr>,
      \<lparr>te_pattern = ''docs/**'', te_lanes = [''docs'']\<rparr>,
      \<lparr>te_pattern = ''Cargo.toml'', te_lanes = [''unit'', ''local-ci-parity'']\<rparr>,
      \<lparr>te_pattern = ''rust-toolchain.toml'', te_lanes = [''unit'', ''local-ci-parity'']\<rparr>,
      \<lparr>te_pattern = ''Justfile'', te_lanes = [''local-ci-parity'']\<rparr>,
      \<lparr>te_pattern = ''AGENTS.md'', te_lanes = [''jankurai-proof'']\<rparr>]"

definition default_lanes :: "proof_lane list" where
  "default_lanes =
     [\<lparr>ln_name = ''unit'', ln_commands = [''cargo test --workspace''], ln_required = True\<rparr>,
      \<lparr>ln_name = ''jankurai-proof'', ln_commands = [''cargo test -p jeryu_proof''], ln_required = True\<rparr>,
      \<lparr>ln_name = ''merge-queue-sim'', ln_commands = [''cargo test -p jeryu_ci_scheduler concurrent''], ln_required = True\<rparr>,
      \<lparr>ln_name = ''agent-safety'', ln_commands = [''cargo test -p jeryu_agentbridge''], ln_required = True\<rparr>,
      \<lparr>ln_name = ''local-ci-parity'', ln_commands = [''./scripts/ci-local.sh''], ln_required = True\<rparr>,
      \<lparr>ln_name = ''policy'', ln_commands = [''cargo test --workspace policy''], ln_required = True\<rparr>,
      \<lparr>ln_name = ''docs'', ln_commands = [''cargo test --workspace docs''], ln_required = False\<rparr>]"

definition default_phase7_engine :: proof_engine where
  "default_phase7_engine =
     engine_new default_owner_rules default_test_rules
       [\<lparr>gz_pattern = ''target/**'', gz_allow_agent_edits = False, gz_reason = ''Build outputs are generated.''\<rparr>]
       default_lanes"

section \<open>What a plan holds\<close>

lemma bset_extend_facts:
  assumes "sorted elems" and "distinct elems"
  shows "sorted (bset_extend elems xs)" and "distinct (bset_extend elems xs)" and "set (bset_extend elems xs) = set elems \<union> set xs"
  using assms unfolding bset_extend_def
  by (induction xs arbitrary: elems)
    (auto simp: sorted_insort_insert distinct_insort_insert set_insort_insert)

definition path_clear :: "proof_engine \<Rightarrow> bool \<Rightarrow> string \<Rightarrow> bool" where
  "path_clear engine agent path =
     (denied_zone engine agent path = None \<and> path_owners engine path \<noteq> [] \<and> path_lanes engine path \<noteq> [])"

definition needed_lanes :: "proof_engine \<Rightarrow> changed_path list \<Rightarrow> string set" where
  "needed_lanes engine changes =
     (\<Union>c \<in> set changes. set (path_lanes engine (cp_path c)) \<union> (if cp_sensitive c then {''policy''} else {}))"

definition needed_owners :: "proof_engine \<Rightarrow> changed_path list \<Rightarrow> string set" where
  "needed_owners engine changes = (\<Union>c \<in> set changes. set (path_owners engine (cp_path c)))"

text \<open>The first path that is not clear decides the blocker.\<close>

definition path_blocker :: "proof_engine \<Rightarrow> bool \<Rightarrow> string \<Rightarrow> proof_blocker" where
  "path_blocker engine agent path =
     (case denied_zone engine agent path of
        Some zone \<Rightarrow> GeneratedZoneEditDenied path (gz_reason zone)
      | None \<Rightarrow> if path_owners engine path = [] then OwnerlessPath path else UnmappedProofLane path)"

lemma plan_loop_blocked:
  "find (\<lambda>c. \<not> path_clear engine agent (cp_path c)) changes = Some c \<Longrightarrow>
     plan_loop engine agent changes owners lanes paths = Inl (path_blocker engine agent (cp_path c))"
  by (induction engine agent changes owners lanes paths rule: plan_loop.induct)
    (auto simp: path_clear_def path_blocker_def split: if_splits option.splits)

lemma plan_loop_clear:
  assumes "list_all (\<lambda>c. path_clear engine agent (cp_path c)) changes"
    and "sorted owners" "distinct owners" "sorted lanes" "distinct lanes"
  shows "\<exists>owners' lanes'. plan_loop engine agent changes owners lanes paths = Inr (owners', lanes', paths @ map cp_path changes) \<and>
    sorted owners' \<and> distinct owners' \<and> sorted lanes' \<and> distinct lanes' \<and>
    set owners' = set owners \<union> needed_owners engine changes \<and> set lanes' = set lanes \<union> needed_lanes engine changes"
  using assms
proof (induction engine agent changes owners lanes paths rule: plan_loop.induct)
  case (2 engine agent c rest owners lanes paths)
  let ?owners = "bset_extend owners (path_owners engine (cp_path c))"
  let ?lanes = "bset_extend lanes (path_lanes engine (cp_path c))"
  let ?all = "if cp_sensitive c then bset_extend ?lanes [''policy''] else ?lanes"
  note sets = bset_extend_facts [OF 2(3,4), of "path_owners engine (cp_path c)"] bset_extend_facts [OF 2(5,6), of "path_lanes engine (cp_path c)"]
  have lanes: "sorted ?all" "distinct ?all"
    "set ?all = set lanes \<union> set (path_lanes engine (cp_path c)) \<union> (if cp_sensitive c then {''policy''} else {})"
    using sets bset_extend_facts [of ?lanes "[''policy'']"] by auto
  have clear: "denied_zone engine agent (cp_path c) = None" "path_owners engine (cp_path c) \<noteq> []" "path_lanes engine (cp_path c) \<noteq> []"
    "list_all (\<lambda>c. path_clear engine agent (cp_path c)) rest"
    using 2(2) by (simp_all add: path_clear_def)
  from 2(1) [OF clear(1-3) refl refl clear(4) sets(1,2) lanes(1,2)] obtain owners' lanes' where
    "plan_loop engine agent rest ?owners ?all (paths @ [cp_path c]) =
       Inr (owners', lanes', (paths @ [cp_path c]) @ map cp_path rest)"
    "sorted owners'" "distinct owners'" "sorted lanes'" "distinct lanes'"
    "set owners' = set ?owners \<union> needed_owners engine rest" "set lanes' = set ?all \<union> needed_lanes engine rest" by blast
  with clear lanes(3) sets(3) show ?case
    by (auto simp: needed_owners_def needed_lanes_def Let_def)
qed (auto simp: needed_owners_def needed_lanes_def)

lemma lanes_loop_Inr:
  "lanes_loop known names lanes = Inr found \<longleftrightarrow>
     list_all (\<lambda>n. map_of known n \<noteq> None) names \<and> found = lanes @ map (\<lambda>n. the (map_of known n)) names"
  by (induction known names lanes rule: lanes_loop.induct) (auto split: option.splits)

lemma sorted_distinct_list: "sorted xs \<Longrightarrow> distinct xs \<Longrightarrow> xs = sorted_list_of_set (set xs)"
  by (simp add: sorted_list_of_set.idem_if_sorted_distinct)

lemma find_first_bad: "\<not> list_all P xs \<Longrightarrow> \<exists>x. find (\<lambda>x. \<not> P x) xs = Some x"
  by (induction xs) auto

lemma needed_finite: "finite (needed_lanes engine changes)" "finite (needed_owners engine changes)"
  by (simp_all add: needed_lanes_def needed_owners_def)

lemma plan_proof_Inr:
  "plan_proof engine cs = Inr plan \<longleftrightarrow>
     list_all (\<lambda>c. path_clear engine (ch_agent_authored cs) (cp_path c)) (ch_paths cs) \<and>
     needed_lanes engine (ch_paths cs) \<subseteq> fst ` set (pe_lanes engine) \<and>
     plan = \<lparr>pl_repo = ch_repo cs, pl_pr = ch_pr cs, pl_head_sha = ch_head_sha cs, pl_paths = map cp_path (ch_paths cs),
       pl_owners = sorted_list_of_set (needed_owners engine (ch_paths cs)),
       pl_lanes = map (\<lambda>n. the (map_of (pe_lanes engine) n)) (sorted_list_of_set (needed_lanes engine (ch_paths cs)))\<rparr>"
proof (cases "list_all (\<lambda>c. path_clear engine (ch_agent_authored cs) (cp_path c)) (ch_paths cs)")
  case True
  obtain owners lanes where loop:
    "plan_loop engine (ch_agent_authored cs) (ch_paths cs) [] [] [] = Inr (owners, lanes, map cp_path (ch_paths cs))"
    "sorted owners" "distinct owners" "sorted lanes" "distinct lanes"
    "set owners = needed_owners engine (ch_paths cs)" "set lanes = needed_lanes engine (ch_paths cs)"
    using plan_loop_clear [OF True, of "[]" "[]" "[]"] by auto
  then have lists: "owners = sorted_list_of_set (needed_owners engine (ch_paths cs))"
    "lanes = sorted_list_of_set (needed_lanes engine (ch_paths cs))"
    using sorted_distinct_list [of owners] sorted_distinct_list [of lanes] by simp_all
  have defined: "list_all (\<lambda>n. map_of (pe_lanes engine) n \<noteq> None) lanes \<longleftrightarrow> needed_lanes engine (ch_paths cs) \<subseteq> fst ` set (pe_lanes engine)"
    using loop(7) by (auto simp: list_all_iff map_of_eq_None_iff)
  show ?thesis
    using True defined lists loop(1) by (auto simp: plan_proof_def try_res_Inr lanes_loop_Inr)
next
  case False
  then obtain c where "find (\<lambda>c. \<not> path_clear engine (ch_agent_authored cs) (cp_path c)) (ch_paths cs) = Some c"
    using find_first_bad by blast
  from plan_loop_blocked [OF this, of "[]" "[]" "[]"] False show ?thesis
    unfolding plan_proof_def by simp
qed

text \<open>
  The same said by the rules themselves. A pattern covers a path when it is a bare star, when it is a
  directory followed by \<^verbatim>\<open>/**\<close> and the path is that directory or below it, when it is another text
  followed by a star and the path starts with that text, and otherwise when it is the path. An owner or a lane
  is asked for by any rule whose pattern covers the path. Of the generated zones the first one that covers a
  path decides.
\<close>

definition pattern_covers :: "string \<Rightarrow> string \<Rightarrow> bool" where
  "pattern_covers pattern path \<longleftrightarrow>
     pattern = ''*'' \<or> pattern = ''**'' \<or>
     (\<exists>dir. pattern = dir @ ''/**'' \<and> (path = dir \<or> (\<exists>rest. path = dir @ ''/'' @ rest))) \<or>
     ((\<nexists>dir. pattern = dir @ ''/**'') \<and> (\<exists>start rest. pattern = start @ ''*'' \<and> path = start @ rest)) \<or>
     ((\<nexists>start. pattern = start @ ''*'') \<and> pattern = path)"

definition owner_asked :: "proof_engine \<Rightarrow> string \<Rightarrow> string \<Rightarrow> bool" where
  "owner_asked engine path person \<longleftrightarrow>
     (\<exists>rule \<in> set (pe_owner_rules engine). pattern_covers (ow_pattern rule) path \<and> person \<in> set (ow_owners rule))"

definition lane_asked :: "proof_engine \<Rightarrow> string \<Rightarrow> string \<Rightarrow> bool" where
  "lane_asked engine path lane \<longleftrightarrow>
     (\<exists>rule \<in> set (pe_test_rules engine). pattern_covers (te_pattern rule) path \<and> lane \<in> set (te_lanes rule))"

definition zone_admits :: "proof_engine \<Rightarrow> string \<Rightarrow> bool" where
  "zone_admits engine path \<longleftrightarrow>
     (\<forall>i < length (pe_generated_zones engine).
        pattern_covers (gz_pattern (pe_generated_zones engine ! i)) path \<longrightarrow>
        (\<forall>j < i. \<not> pattern_covers (gz_pattern (pe_generated_zones engine ! j)) path) \<longrightarrow>
        gz_allow_agent_edits (pe_generated_zones engine ! i))"

lemma ends_with_append_iff: "ends_with s p \<longleftrightarrow> (\<exists>rest. s = rest @ p)"
  unfolding ends_with_def by (metis append_eq_conv_conj append_take_drop_id diff_diff_cancel diff_le_self
      length_append length_drop le_add2 add_diff_cancel_right')

lemma strip_suffix_iff: "strip_suffix s p = Some rest \<longleftrightarrow> s = rest @ p"
  unfolding strip_suffix_def using ends_with_append_iff [of s p] by auto

lemma strip_suffix_None: "strip_suffix s p = None \<longleftrightarrow> (\<nexists>rest. s = rest @ p)"
  using strip_suffix_iff by (metis not_None_eq)

lemma starts_with_rest: "starts_with s p \<longleftrightarrow> (\<exists>rest. s = p @ rest)"
  unfolding starts_with_def by (metis append_eq_conv_conj)

lemma double_star: "pattern = dir @ ''/**'' \<Longrightarrow> pattern = (dir @ ''/*'') @ ''*''"
  by simp

lemma proof_path_matches_covers: "proof_path_matches pattern path \<longleftrightarrow> pattern_covers pattern path"
proof (cases "strip_suffix pattern ''/**''")
  case (Some dir)
  then have "pattern = dir @ ''/**''" by (simp only: strip_suffix_iff)
  with Some show ?thesis
    by (auto simp: proof_path_matches_def pattern_covers_def starts_with_rest)
next
  case None
  then have no_dir: "\<nexists>dir. pattern = dir @ ''/**''" by (rule strip_suffix_None [THEN iffD1])
  show ?thesis
  proof (cases "strip_suffix pattern ''*''")
    case (Some start)
    then have "pattern = start @ ''*''" by (simp only: strip_suffix_iff)
    with Some None no_dir show ?thesis
      by (auto simp: proof_path_matches_def pattern_covers_def starts_with_rest)
  next
    case no_star: None
    then have "\<nexists>start. pattern = start @ ''*''" by (rule strip_suffix_None [THEN iffD1])
    with no_star None no_dir show ?thesis
      by (auto simp: proof_path_matches_def pattern_covers_def)
  qed
qed

lemma path_owners_asked: "set (path_owners engine path) = {person. owner_asked engine path person}"
  by (auto simp: path_owners_def owner_asked_def proof_path_matches_covers)

lemma path_lanes_asked: "set (path_lanes engine path) = {lane. lane_asked engine path lane}"
  by (auto simp: path_lanes_def lane_asked_def proof_path_matches_covers)

lemma find_index:
  "(\<forall>x. find P xs = Some x \<longrightarrow> Q x) \<longleftrightarrow> (\<forall>i < length xs. P (xs ! i) \<longrightarrow> (\<forall>j < i. \<not> P (xs ! j)) \<longrightarrow> Q (xs ! i))"
  unfolding find_Some_iff by blast

lemma denied_zone_admits: "denied_zone engine agent path = None \<longleftrightarrow> (agent \<longrightarrow> zone_admits engine path)"
proof -
  have "denied_zone engine agent path = None \<longleftrightarrow>
      (\<forall>zone. find (\<lambda>zone. proof_path_matches (gz_pattern zone) path) (pe_generated_zones engine) = Some zone \<longrightarrow>
         agent \<longrightarrow> gz_allow_agent_edits zone)"
    by (auto simp: denied_zone_def split: option.split)
  also have "\<dots> \<longleftrightarrow> (agent \<longrightarrow> zone_admits engine path)"
    unfolding find_index zone_admits_def proof_path_matches_covers by blast
  finally show ?thesis .
qed

lemma path_clear_asked:
  "path_clear engine agent path \<longleftrightarrow>
     (agent \<longrightarrow> zone_admits engine path) \<and> (\<exists>person. owner_asked engine path person) \<and>
     (\<exists>lane. lane_asked engine path lane)"
proof -
  have "path_owners engine path \<noteq> [] \<longleftrightarrow> (\<exists>person. owner_asked engine path person)"
    using path_owners_asked [of engine path] by (metis (mono_tags) empty_Collect_eq set_empty)
  moreover have "path_lanes engine path \<noteq> [] \<longleftrightarrow> (\<exists>lane. lane_asked engine path lane)"
    using path_lanes_asked [of engine path] by (metis (mono_tags) empty_Collect_eq set_empty)
  ultimately show ?thesis by (simp only: path_clear_def denied_zone_admits)
qed

definition asked_lanes :: "proof_engine \<Rightarrow> changed_path list \<Rightarrow> string set" where
  "asked_lanes engine changes =
     {lane. \<exists>c \<in> set changes. lane_asked engine (cp_path c) lane \<or> cp_sensitive c \<and> lane = ''policy''}"

definition asked_owners :: "proof_engine \<Rightarrow> changed_path list \<Rightarrow> string set" where
  "asked_owners engine changes = {person. \<exists>c \<in> set changes. owner_asked engine (cp_path c) person}"

lemma needed_asked:
  "needed_lanes engine changes = asked_lanes engine changes"
  "needed_owners engine changes = asked_owners engine changes"
  unfolding needed_lanes_def needed_owners_def asked_lanes_def asked_owners_def path_lanes_asked path_owners_asked
  by (auto split: if_splits)

text \<open>
  C36. A plan is exactly what the change needs. The engine plans a change set if and only if for every changed path the first
  generated zone that covers it, if the author is an agent, admits agents, some owner rule that covers it names an owner and some
  test rule that covers it names a lane, and every lane asked for is defined; the plan is bound to the repository, the pull
  request and the head of the change, lists the changed paths, all owners of all rules that cover one, and the definitions of all lanes
  of all rules that cover one, together with the policy lane when a path is sensitive, each once and in ascending order.
\<close>

theorem plan_is_what_the_change_needs:
  "plan_proof engine cs = Inr plan \<longleftrightarrow>
     (\<forall>c \<in> set (ch_paths cs).
        (ch_agent_authored cs \<longrightarrow> zone_admits engine (cp_path c)) \<and> (\<exists>person. owner_asked engine (cp_path c) person) \<and>
        (\<exists>lane. lane_asked engine (cp_path c) lane)) \<and>
     (\<forall>lane \<in> asked_lanes engine (ch_paths cs). \<exists>found. map_of (pe_lanes engine) lane = Some found) \<and>
     plan = \<lparr>pl_repo = ch_repo cs, pl_pr = ch_pr cs, pl_head_sha = ch_head_sha cs, pl_paths = map cp_path (ch_paths cs),
       pl_owners = sorted_list_of_set (asked_owners engine (ch_paths cs)),
       pl_lanes = map (\<lambda>n. the (map_of (pe_lanes engine) n)) (sorted_list_of_set (asked_lanes engine (ch_paths cs)))\<rparr>"
proof -
  have "X \<subseteq> fst ` set m \<longleftrightarrow> (\<forall>k \<in> X. \<exists>found. map_of m k = Some found)" for X and m :: "(string \<times> proof_lane) list"
    by (auto simp: dom_map_of_conv_image_fst [symmetric] dom_def)
  then show ?thesis
    unfolding plan_proof_Inr needed_asked list_all_iff path_clear_asked by simp
qed

text \<open>A change of the documentation in the tree of the archive.\<close>

definition ex_docs_change :: change_set where
  "ex_docs_change = \<lparr>ch_repo = ''acme/core'', ch_pr = ''1'', ch_head_sha = ''h1'',
     ch_paths = [changed_path_new ''docs/a.md''], ch_agent_authored = True\<rparr>"

theorem plan_is_what_the_change_needs_witness:
  "\<exists>plan. plan_proof default_phase7_engine ex_docs_change = Inr plan \<and> pl_paths plan = [''docs/a.md''] \<and>
     pl_owners plan = [''@docs'', ''@phase7''] \<and>
     pl_owners plan = sorted_list_of_set (asked_owners default_phase7_engine (ch_paths ex_docs_change))"
proof -
  have "(case plan_proof default_phase7_engine ex_docs_change of
      Inl _ \<Rightarrow> False | Inr plan \<Rightarrow> pl_paths plan = [''docs/a.md''] \<and> pl_owners plan = [''@docs'', ''@phase7''])"
    by code_simp
  then obtain plan where plan: "plan_proof default_phase7_engine ex_docs_change = Inr plan"
    "pl_paths plan = [''docs/a.md'']" "pl_owners plan = [''@docs'', ''@phase7'']"
    by (auto split: sum.splits)
  from plan_is_what_the_change_needs [THEN iffD1, OF plan(1)] plan show ?thesis by (metis proof_plan.select_convs(5))
qed

section \<open>What a witness stands for\<close>

lemma find_snoc: "find P (xs @ [x]) = (case find P xs of None \<Rightarrow> if P x then Some x else None | Some y \<Rightarrow> Some y)"
  by (induction xs) auto

lemma find_Some_in: "find P xs = Some x \<Longrightarrow> x \<in> set xs \<and> P x"
  by (induction xs) (auto split: if_splits)

lemma fold_put_find: "bt_ok m \<Longrightarrow> map_of (fold (\<lambda>x. bt_put (key x) x) xs m) k =
     (case find (\<lambda>x. key x = k) (rev xs) of None \<Rightarrow> map_of m k | Some x \<Rightarrow> Some x)"
proof (induction xs arbitrary: m)
  case (Cons x xs)
  then have "map_of (fold (\<lambda>x. bt_put (key x) x) xs (bt_put (key x) x m)) k =
      (case find (\<lambda>x. key x = k) (rev xs) of None \<Rightarrow> map_of (bt_put (key x) x m) k | Some x \<Rightarrow> Some x)"
    by (simp add: bt_put_ok)
  with Cons.prems show ?case
    by (auto simp: bt_put_get find_snoc split: option.splits)
qed simp

lemma evidence_last: "map_of (evidence_by_lane evidence) name = find (\<lambda>e. ef_lane e = name) (rev evidence)"
  unfolding evidence_by_lane_def by (subst fold_put_find) (simp_all add: bt_ok_def split: option.splits)

lemma engine_lane_name:
  "map_of (pe_lanes (engine_new owner_rules test_rules zones lanes)) name = Some lane \<Longrightarrow> ln_name lane = name \<and> lane \<in> set lanes"
  unfolding engine_new_def by (auto simp: fold_put_find bt_ok_def dest: find_Some_in split: option.splits)

lemma check_lanes_Inr:
  "check_lanes by_lane lanes = Inr () \<longleftrightarrow>
     list_all (\<lambda>lane. ln_required lane \<longrightarrow> (case map_of by_lane (ln_name lane) of None \<Rightarrow> False | Some e \<Rightarrow> ef_success e)) lanes"
  by (induction by_lane lanes rule: check_lanes.induct) (auto split: option.splits)

text \<open>
  C37. A witness stands for every required lane of the change. When the evidence for the plan of a change set is verified, the
  witness is bound to the repository, pull request and head commit of that change and lists every changed path; each path has an
  owner rule that matches it, all of whose owners the witness lists; and for every test rule that matches a changed path, each lane it
  asks for is one of the witness's lanes, and if the lane is a required one, the last evidence entry for it reports success. The receipt
  inside names the same pull request and commit.
\<close>

theorem witness_stands_for_the_lanes:
  assumes "engine = engine_new owner_rules test_rules zones lanes"
    and "plan_proof engine cs = Inr plan" and "verify_proof now plan evidence n = (Inr w, n')"
    and "changed \<in> set (ch_paths cs)"
  shows "pw_repo w = ch_repo cs \<and> pw_pr w = ch_pr cs \<and> pw_head_sha w = ch_head_sha cs \<and>
    re_subject (pw_receipt w) = ch_pr cs \<and> re_sha (pw_receipt w) = ch_head_sha cs \<and>
    cp_path changed \<in> set (pw_changed_paths w) \<and>
    (\<exists>rule \<in> set owner_rules. proof_path_matches (ow_pattern rule) (cp_path changed) \<and> set (ow_owners rule) \<subseteq> set (pw_owners w)) \<and>
    (\<forall>rule name. rule \<in> set test_rules \<longrightarrow> proof_path_matches (te_pattern rule) (cp_path changed) \<longrightarrow> name \<in> set (te_lanes rule) \<longrightarrow>
       name \<in> set (pw_lanes w) \<and>
       (\<exists>lane. map_of (pe_lanes engine) name = Some lane \<and>
          (ln_required lane \<longrightarrow> (\<exists>e. find (\<lambda>e. ef_lane e = name) (rev evidence) = Some e \<and> ef_success e))))"
proof -
  note plan = assms(2) [unfolded plan_proof_Inr]
  have checked: "check_lanes (evidence_by_lane evidence) (pl_lanes plan) = Inr ()"
    and w: "pw_repo w = pl_repo plan" "pw_pr w = pl_pr plan" "pw_head_sha w = pl_head_sha plan"
      "re_subject (pw_receipt w) = pl_pr plan" "re_sha (pw_receipt w) = pl_head_sha plan"
      "pw_changed_paths w = pl_paths plan" "pw_owners w = pl_owners plan" "pw_lanes w = map ln_name (pl_lanes plan)"
    using assms(3) by (auto simp: verify_proof_def receipt_new_def Let_def split: sum.splits prod.splits)
  have parts: "pe_owner_rules engine = owner_rules" "pe_test_rules engine = test_rules"
    by (simp_all add: assms(1) engine_new_def)
  have clear: "path_owners engine (cp_path changed) \<noteq> []"
    using plan assms(4) by (auto simp: list_all_iff path_clear_def)
  have owners: "set (pl_owners plan) = needed_owners engine (ch_paths cs)"
    using plan by (simp add: needed_finite)
  have owned: "\<exists>rule \<in> set owner_rules. proof_path_matches (ow_pattern rule) (cp_path changed) \<and>
      set (ow_owners rule) \<subseteq> set (pl_owners plan)"
    using clear assms(4) unfolding owners needed_owners_def path_owners_def parts by fastforce
  have lane: "name \<in> set (pw_lanes w) \<and> (\<exists>lane. map_of (pe_lanes engine) name = Some lane \<and>
      (ln_required lane \<longrightarrow> (\<exists>e. find (\<lambda>e. ef_lane e = name) (rev evidence) = Some e \<and> ef_success e)))"
    if "rule \<in> set test_rules" "proof_path_matches (te_pattern rule) (cp_path changed)" "name \<in> set (te_lanes rule)" for rule name
  proof -
    have needed: "name \<in> needed_lanes engine (ch_paths cs)"
      using that assms(4) unfolding needed_lanes_def path_lanes_def parts by fastforce
    then have "map_of (pe_lanes engine) name \<noteq> None" using plan by (auto simp: map_of_eq_None_iff)
    then obtain lane where lane: "map_of (pe_lanes engine) name = Some lane" by blast
    then have named: "ln_name lane = name" using engine_lane_name unfolding assms(1) by blast
    have "lane \<in> set (pl_lanes plan)" using plan lane needed by (force simp: needed_finite)
    with checked named lane w(8) show ?thesis
      by (auto simp: check_lanes_Inr list_all_iff evidence_last split: option.splits dest!: bspec)
  qed
  show ?thesis using w plan owned lane assms(4) by auto
qed

definition ex_proof_change :: change_set where
  "ex_proof_change = \<lparr>ch_repo = ''repo_phase7'', ch_pr = ''pr_1'', ch_head_sha = ''head001'',
     ch_paths = [changed_path_new ''crates/jeryu_proof/src/lib.rs''], ch_agent_authored = True\<rparr>"

definition ex_proof_plan :: proof_plan where
  "ex_proof_plan = \<lparr>pl_repo = ''repo_phase7'', pl_pr = ''pr_1'', pl_head_sha = ''head001'',
     pl_paths = [''crates/jeryu_proof/src/lib.rs''], pl_owners = [''@jeryu_proof''],
     pl_lanes =
       [\<lparr>ln_name = ''jankurai-proof'', ln_commands = [''cargo test -p jeryu_proof''], ln_required = True\<rparr>,
        \<lparr>ln_name = ''unit'', ln_commands = [''cargo test --workspace''], ln_required = True\<rparr>]\<rparr>"

definition ex_proof_evidence :: "proof_evidence list" where
  "ex_proof_evidence = map (\<lambda>lane. \<lparr>ef_lane = ln_name lane, ef_commands = ln_commands lane, ef_success = True,
     ef_log_digest = ''digest''\<rparr>) (pl_lanes ex_proof_plan)"

lemma ex_proof_planned: "plan_proof default_phase7_engine ex_proof_change = Inr ex_proof_plan"
  by code_simp

theorem witness_stands_for_the_lanes_witness:
  "\<exists>w n'. verify_proof (Some 0) ex_proof_plan ex_proof_evidence 1 = (Inr w, n') \<and>
     pw_head_sha w = ''head001'' \<and> ''unit'' \<in> set (pw_lanes w)"
proof -
  have "check_lanes (evidence_by_lane ex_proof_evidence) (pl_lanes ex_proof_plan) = Inr ()" by code_simp
  then obtain w n' where made: "verify_proof (Some 0) ex_proof_plan ex_proof_evidence 1 = (Inr w, n')"
    by (simp add: verify_proof_def receipt_new_def fresh_proof_id_def Let_def)
  have changed: "changed_path_new ''crates/jeryu_proof/src/lib.rs'' \<in> set (ch_paths ex_proof_change)"
    by (simp add: ex_proof_change_def)
  have rule: "\<lparr>te_pattern = ''crates/jeryu_proof/**'', te_lanes = [''unit'', ''jankurai-proof'']\<rparr> \<in> set default_test_rules"
    "proof_path_matches ''crates/jeryu_proof/**'' ''crates/jeryu_proof/src/lib.rs''" "ch_head_sha ex_proof_change = ''head001''"
    by code_simp+
  from witness_stands_for_the_lanes [OF default_phase7_engine_def ex_proof_planned made changed] rule made show ?thesis
    by (fastforce simp: changed_path_new_def)
qed

text \<open>
  The default rules own \<^verbatim>\<open>crates/jeryu_phase7_cli\<close> and name no lane for it: no change that touches that crate is ever planned.
\<close>

lemma phase7_cli_never_planned:
  assumes "c \<in> set (ch_paths cs)" and "cp_path c = ''crates/jeryu_phase7_cli/src/main.rs''"
  shows "plan_proof default_phase7_engine cs \<noteq> Inr plan"
proof -
  have "path_lanes default_phase7_engine ''crates/jeryu_phase7_cli/src/main.rs'' = []" by code_simp
  then have "\<not> path_clear default_phase7_engine (ch_agent_authored cs) (cp_path c)"
    by (simp only: assms(2) path_clear_def not_False_eq_True simp_thms)
  with assms(1) show ?thesis by (auto simp only: plan_proof_Inr list_all_iff)
qed

end
