(* ===== verification/Bug_Tracker.thy ===== *)
theory Bug_Tracker
  imports Git_Hash Secrets "HOL-Library.Product_Lexorder" "HOL-Library.Multiset"
begin

text \<open>
  The bug tracker (\<^verbatim>\<open>src/crates/jeryu-bugtracker\<close>): the enumerations with their wire names, the intake gate of a report, the
  triage order, the store of \<^verbatim>\<open>memory.rs\<close> and the canonical Markdown. Times are the RFC 3339 texts the store keeps; the digest of the
  \<^verbatim>\<open>sha2\<close> crate is a parameter. Errors are the texts of \<^verbatim>\<open>bail!\<close>.
\<close>

section \<open>Enumerations\<close>

datatype bug_severity = S0 | S1 | S2 | S3 | S4

fun severity_label :: "bug_severity \<Rightarrow> string" where
  "severity_label S0 = ''S0''" | "severity_label S1 = ''S1''" | "severity_label S2 = ''S2''"
| "severity_label S3 = ''S3''" | "severity_label S4 = ''S4''"

fun severity_rank :: "bug_severity \<Rightarrow> nat" where
  "severity_rank S0 = 0" | "severity_rank S1 = 1" | "severity_rank S2 = 2" | "severity_rank S3 = 3" | "severity_rank S4 = 4"

definition to_ascii_uppercase :: "string \<Rightarrow> string" where
  "to_ascii_uppercase s = map (\<lambda>c. if is_ascii_lowercase c then char_of (byte c - 32) else c) s"

definition parse_among :: "'a list \<Rightarrow> ('a \<Rightarrow> string) \<Rightarrow> string \<Rightarrow> string \<Rightarrow> string + 'a" where
  "parse_among values name what input =
     (case find (\<lambda>v. name v = input) values of
        Some v \<Rightarrow> Inr v | None \<Rightarrow> Inl (''unknown '' @ what @ '' '' @ [CHR 0x27] @ input @ [CHR 0x27]))"

definition severity_parse :: "string \<Rightarrow> string + bug_severity" where
  "severity_parse input = parse_among [S0, S1, S2, S3, S4] severity_label ''bug severity'' (to_ascii_uppercase input)"

datatype bug_priority = P0 | P1 | P2 | P3 | P4

fun priority_label :: "bug_priority \<Rightarrow> string" where
  "priority_label P0 = ''P0''" | "priority_label P1 = ''P1''" | "priority_label P2 = ''P2''"
| "priority_label P3 = ''P3''" | "priority_label P4 = ''P4''"

fun priority_rank :: "bug_priority \<Rightarrow> nat" where
  "priority_rank P0 = 0" | "priority_rank P1 = 1" | "priority_rank P2 = 2" | "priority_rank P3 = 3" | "priority_rank P4 = 4"

definition priority_parse :: "string \<Rightarrow> string + bug_priority" where
  "priority_parse input = parse_among [P0, P1, P2, P3, P4] priority_label ''bug priority'' (to_ascii_uppercase input)"

datatype bug_status = NeedsTriage | NeedsInfo | Accepted | Ready | InProgress | Blocked | FixProposed | Reviewing | Verifying
  | Done | Duplicate | Invalid | CannotReproduce | WontDo

fun status_as_str :: "bug_status \<Rightarrow> string" where
  "status_as_str NeedsTriage = ''needs_triage''"
| "status_as_str NeedsInfo = ''needs_info''"
| "status_as_str Accepted = ''accepted''"
| "status_as_str Ready = ''ready''"
| "status_as_str InProgress = ''in_progress''"
| "status_as_str Blocked = ''blocked''"
| "status_as_str FixProposed = ''fix_proposed''"
| "status_as_str Reviewing = ''reviewing''"
| "status_as_str Verifying = ''verifying''"
| "status_as_str Done = ''done''"
| "status_as_str Duplicate = ''duplicate''"
| "status_as_str Invalid = ''invalid''"
| "status_as_str CannotReproduce = ''cannot_reproduce''"
| "status_as_str WontDo = ''wont_do''"

definition status_parse :: "string \<Rightarrow> string + bug_status" where
  "status_parse input = parse_among [NeedsTriage, NeedsInfo, Accepted, Ready, InProgress, Blocked, FixProposed, Reviewing,
     Verifying, Done, Duplicate, Invalid, CannotReproduce, WontDo] status_as_str ''bug status'' input"

definition is_terminal :: "bug_status \<Rightarrow> bool" where
  "is_terminal s = (s \<in> {Done, Duplicate, Invalid, CannotReproduce, WontDo})"

datatype bug_sort = SortRank | SortSeverity | SortPriority | SortDifficulty | SortReady | SortUpdated | SortAttempts

fun sort_name :: "bug_sort \<Rightarrow> string" where
  "sort_name SortRank = ''rank''" | "sort_name SortSeverity = ''severity''" | "sort_name SortPriority = ''priority''"
| "sort_name SortDifficulty = ''difficulty''" | "sort_name SortReady = ''ready''" | "sort_name SortUpdated = ''updated''"
| "sort_name SortAttempts = ''attempts''"

definition sort_parse :: "string \<Rightarrow> string + bug_sort" where
  "sort_parse input = parse_among [SortRank, SortSeverity, SortPriority, SortDifficulty, SortReady, SortUpdated, SortAttempts]
     sort_name ''bug sort'' input"

datatype attempt_status = AttPending | AttStarted | AttFailed | AttFixProposed | AttVerified | AttAbandoned

fun attempt_as_str :: "attempt_status \<Rightarrow> string" where
  "attempt_as_str AttPending = ''pending''" | "attempt_as_str AttStarted = ''started''" | "attempt_as_str AttFailed = ''failed''"
| "attempt_as_str AttFixProposed = ''fix_proposed''" | "attempt_as_str AttVerified = ''verified''"
| "attempt_as_str AttAbandoned = ''abandoned''"

definition attempt_parse :: "string \<Rightarrow> string + attempt_status" where
  "attempt_parse input = parse_among [AttPending, AttStarted, AttFailed, AttFixProposed, AttVerified, AttAbandoned]
     attempt_as_str ''attempt status'' input"

section \<open>Records\<close>

record bug_evidence_input =
  be_kind :: string
  be_summary :: string
  be_path :: "string option"
  be_url :: "string option"
  be_digest :: "string option"
  be_redacted :: bool

record bug_report =
  br_target_project :: string
  br_source_project :: string
  br_title :: string
  br_component :: "string option"
  br_current_behavior :: string
  br_expected_behavior :: string
  br_environment :: string
  br_frequency :: string
  br_impact :: string
  br_security_privacy :: string
  br_no_secrets_confirmed :: bool
  br_reproduction_steps :: "string list"
  br_evidence :: "bug_evidence_input list"
  br_acceptance_criteria :: "string list"
  br_severity :: bug_severity
  br_priority :: bug_priority
  br_difficulty :: nat

record bug_project_input =
  pi_alias :: string
  pi_repo_root :: string
  pi_repo_slug :: string
  pi_provider_kind :: string
  pi_provider_project_id :: "string option"
  pi_default_branch :: string

record bug_project = bug_project_input +
  bj_created_at :: string
  bj_updated_at :: string

record bug_record =
  bg_id :: string
  bg_title :: string
  bg_source_project :: string
  bg_target_project :: string
  bg_component :: "string option"
  bg_status :: bug_status
  bg_severity :: bug_severity
  bg_priority :: bug_priority
  bg_difficulty :: nat
  bg_impact :: string
  bg_security :: bool
  bg_owner :: "string option"
  bg_body :: bug_report
  bg_created_at :: string
  bg_updated_at :: string
  bg_attempt_count :: int
  bg_failed_attempt_count :: int

text \<open>The payload of an event is one of the JSON objects the store writes.\<close>

datatype bug_payload =
    PayloadSubmitted bug_status
  | PayloadTriaged bug_status bug_severity bug_priority "string option" "string option"
  | PayloadAttempt attempt_status int

record bug_event =
  bv_id :: int
  bv_bug_id :: string
  bv_event_type :: string
  bv_actor :: string
  bv_payload :: bug_payload
  bv_created_at :: string

record bug_attempt_input =
  ai_agent :: "string option"
  ai_status :: attempt_status
  ai_sandbox_path :: "string option"
  ai_branch :: "string option"
  ai_base_sha :: "string option"
  ai_head_sha :: "string option"
  ai_pr_url :: "string option"
  ai_ci_evidence :: "string option"
  ai_notes :: "string option"

record bug_attempt =
  at_id :: int
  at_bug_id :: string
  at_input :: bug_attempt_input
  at_created_at :: string
  at_updated_at :: string

record bug_detail =
  bd_bug :: bug_record
  bd_events :: "bug_event list"
  bd_attempts :: "bug_attempt list"

section \<open>Intake\<close>

definition require_text :: "string \<Rightarrow> string \<Rightarrow> string + unit" where
  "require_text field val = (if str_trim val = [] then Inl (field @ '' is required'') else Inr ())"

definition validate_report :: "bug_report \<Rightarrow> string + bug_status" where
  "validate_report r =
     try_res (require_text ''target_project'' (br_target_project r)) (\<lambda>_.
     try_res (require_text ''source_project'' (br_source_project r)) (\<lambda>_.
     try_res (require_text ''title'' (br_title r)) (\<lambda>_.
     try_res (require_text ''current_behavior'' (br_current_behavior r)) (\<lambda>_.
     try_res (require_text ''expected_behavior'' (br_expected_behavior r)) (\<lambda>_.
     try_res (require_text ''environment'' (br_environment r)) (\<lambda>_.
     try_res (require_text ''frequency'' (br_frequency r)) (\<lambda>_.
     try_res (require_text ''impact'' (br_impact r)) (\<lambda>_.
     try_res (require_text ''security_privacy'' (br_security_privacy r)) (\<lambda>_.
       if \<not> br_no_secrets_confirmed r then Inl ''no_secrets_confirmed must be true before a bug can be stored''
       else if \<not> (1 \<le> br_difficulty r \<and> br_difficulty r \<le> 5) then Inl ''difficulty must be between 1 and 5''
       else if br_reproduction_steps r = [] \<and> br_evidence r = [] then Inr NeedsInfo
       else Inr NeedsTriage)))))))))"

definition is_security_sensitive :: "bug_report \<Rightarrow> bool" where
  "is_security_sensitive r =
     (to_ascii_lowercase (str_trim (br_security_privacy r)) \<notin> {''no'', ''none'', ''no security impact'', ''no privacy impact''})"

text \<open>\<open>now\<close> is the time of the submission: its text and its nanoseconds since the epoch, nothing when they do not fit.\<close>

record bug_clock =
  cl_text :: string
  cl_nanos :: "int option"

definition show_int :: "int \<Rightarrow> string" where
  "show_int i = (if i < 0 then ''-'' @ show_nat (nat (- i)) else show_nat (nat i))"

definition generate_bug_id :: "(octet list \<Rightarrow> octet list) \<Rightarrow> bug_report \<Rightarrow> bug_clock \<Rightarrow> string" where
  "generate_bug_id digest r now =
     (let submit_nanos = (case cl_nanos now of Some n \<Rightarrow> n | None \<Rightarrow> 0);
          input = br_target_project r @ [CHR 0x00] @ br_source_project r @ [CHR 0x00] @ br_title r @ [CHR 0x00] @
            show_int submit_nanos
      in ''bug-'' @ concat (map hex_octet (take 5 (digest (as_bytes input)))))"

definition branch_name :: "string \<Rightarrow> string \<Rightarrow> string" where
  "branch_name bug_id title =
     (let dashed = map (\<lambda>c. if is_ascii_alphanumeric c then to_ascii_lower c else CHR ''-'') title;
          slug = join ''-'' (take 6 [part \<leftarrow> split_on (CHR ''-'') dashed. part \<noteq> []])
      in ''bug/'' @ bug_id @ ''-'' @ (if slug = [] then ''fix'' else slug))"

section \<open>Triage\<close>

definition validate_transition :: "bug_status \<Rightarrow> bug_status \<Rightarrow> string + unit" where
  "validate_transition from to =
     (if is_terminal from \<and> from \<noteq> to
      then Inl (''terminal bug status '' @ status_as_str from @ '' cannot transition to '' @ status_as_str to)
      else Inr ())"

definition ready_rank :: "bug_status \<Rightarrow> nat" where
  "ready_rank status =
     (if status = Ready then 0
      else if status = Accepted \<or> status = NeedsTriage then 1
      else if status = Blocked \<or> status = NeedsInfo then 3
      else if is_terminal status then 5 else 2)"

definition ranking_key :: "bug_record \<Rightarrow> nat \<times> nat \<times> nat \<times> nat \<times> int \<times> string" where
  "ranking_key bug =
     (severity_rank (bg_severity bug), priority_rank (bg_priority bug), ready_rank (bg_status bug), bg_difficulty bug,
      - bg_failed_attempt_count bug, bg_updated_at bug)"

text \<open>\<^verbatim>\<open>sort_by_key\<close> is stable; a descending stable sort is the ascending one of the reversed list, reversed.\<close>

definition sort_bugs :: "bug_sort \<Rightarrow> bug_record list \<Rightarrow> bug_record list" where
  "sort_bugs by bugs =
     (case by of
        SortRank \<Rightarrow> sort_key ranking_key bugs
      | SortSeverity \<Rightarrow> sort_key (\<lambda>bug. severity_rank (bg_severity bug)) bugs
      | SortPriority \<Rightarrow> sort_key (\<lambda>bug. priority_rank (bg_priority bug)) bugs
      | SortDifficulty \<Rightarrow> sort_key bg_difficulty bugs
      | SortReady \<Rightarrow> sort_key (\<lambda>bug. if bg_status bug = Ready then 0 else 1 :: nat) bugs
      | SortUpdated \<Rightarrow> rev (sort_key bg_updated_at (rev bugs))
      | SortAttempts \<Rightarrow> sort_key (\<lambda>bug. - bg_attempt_count bug) bugs)"

section \<open>The store\<close>

record bug_store =
  bs_projects :: "(string \<times> bug_project) list"
  bs_bugs :: "(string \<times> bug_record) list"
  bs_events :: "bug_event list"
  bs_attempts :: "bug_attempt list"
  bs_idempotency :: "(string \<times> string) list"
  bs_next_event_id :: int
  bs_next_attempt_id :: int

definition new_bug_store :: bug_store where
  "new_bug_store = \<lparr>bs_projects = [], bs_bugs = [], bs_events = [], bs_attempts = [], bs_idempotency = [],
     bs_next_event_id = 0, bs_next_attempt_id = 0\<rparr>"

definition append_event :: "string \<Rightarrow> string \<Rightarrow> string \<Rightarrow> string \<Rightarrow> bug_payload \<Rightarrow> bug_store \<Rightarrow> bug_store" where
  "append_event now bug_id event_type actor payload s =
     (let i = bs_next_event_id s + 1
      in s\<lparr>bs_next_event_id := i,
           bs_events := bs_events s @ [\<lparr>bv_id = i, bv_bug_id = bug_id, bv_event_type = event_type, bv_actor = actor,
             bv_payload = payload, bv_created_at = now\<rparr>]\<rparr>)"

definition attach_attempt_counts :: "bug_store \<Rightarrow> bug_record \<Rightarrow> bug_record" where
  "attach_attempt_counts s bug =
     (let attempts = [a \<leftarrow> bs_attempts s. at_bug_id a = bg_id bug]
      in bug\<lparr>bg_attempt_count := int (length attempts),
             bg_failed_attempt_count := int (length [a \<leftarrow> attempts. attempt_as_str (ai_status (at_input a)) = ''failed''])\<rparr>)"

definition add_project :: "string \<Rightarrow> bug_project_input \<Rightarrow> bug_store \<Rightarrow> bug_project \<times> bug_store" where
  "add_project now input s =
     (let created_at = (case map_of (bs_projects s) (pi_alias input) of Some p \<Rightarrow> bj_created_at p | None \<Rightarrow> now);
          project = bug_project_input.extend input \<lparr>bj_created_at = created_at, bj_updated_at = now\<rparr>
      in (project, s\<lparr>bs_projects := bt_put (pi_alias input) project (bs_projects s)\<rparr>))"

definition bug_project_of :: "string \<Rightarrow> bug_store \<Rightarrow> string + bug_project" where
  "bug_project_of alias s = ok_or (map_of (bs_projects s) alias) (''load bug project '' @ alias)"

definition list_projects :: "bug_store \<Rightarrow> bug_project list" where
  "list_projects s = map snd (bs_projects s)"

definition new_bug :: "string \<Rightarrow> bug_status \<Rightarrow> bug_report \<Rightarrow> string \<Rightarrow> bug_record" where
  "new_bug bug_id status r now =
     \<lparr>bg_id = bug_id, bg_title = br_title r, bg_source_project = br_source_project r,
      bg_target_project = br_target_project r, bg_component = br_component r, bg_status = status,
      bg_severity = br_severity r, bg_priority = br_priority r, bg_difficulty = br_difficulty r, bg_impact = br_impact r,
      bg_security = is_security_sensitive r, bg_owner = None, bg_body = r, bg_created_at = now, bg_updated_at = now,
      bg_attempt_count = 0, bg_failed_attempt_count = 0\<rparr>"

definition submit_bug ::
  "(octet list \<Rightarrow> octet list) \<Rightarrow> bug_clock \<Rightarrow> string \<Rightarrow> bug_report \<Rightarrow> string option \<Rightarrow> string \<Rightarrow> bug_store \<Rightarrow>
   (string + bug_record) \<times> bug_store" where
  "submit_bug digest now event_time r idempotency_key actor s =
     try_pure (validate_report r) s (\<lambda>status.
       case Option.bind (Option.bind idempotency_key (map_of (bs_idempotency s))) (map_of (bs_bugs s)) of
         Some existing \<Rightarrow> (Inr (attach_attempt_counts s existing), s)
       | None \<Rightarrow>
           let bug_id = generate_bug_id digest r now;
               bug = new_bug bug_id status r (cl_text now);
               s = s\<lparr>bs_bugs := bt_put bug_id bug (bs_bugs s),
                     bs_idempotency := (case idempotency_key of None \<Rightarrow> bs_idempotency s
                       | Some key \<Rightarrow> bt_put key bug_id (bs_idempotency s))\<rparr>;
               s = append_event event_time bug_id ''submitted'' actor (PayloadSubmitted status) s
           in (Inr (attach_attempt_counts s bug), s))"

definition list_bugs :: "string option \<Rightarrow> bug_status option \<Rightarrow> bug_sort \<Rightarrow> bug_store \<Rightarrow> bug_record list" where
  "list_bugs project status by s =
     sort_bugs by (map (attach_attempt_counts s)
       [bug \<leftarrow> map snd (bs_bugs s).
          (case project of None \<Rightarrow> True | Some p \<Rightarrow> p = ''all'' \<or> bg_target_project bug = p) \<and>
          (case status of None \<Rightarrow> True | Some st \<Rightarrow> bg_status bug = st)])"

definition ready_bugs :: "string option \<Rightarrow> bug_store \<Rightarrow> bug_record list" where
  "ready_bugs project s = [bug \<leftarrow> list_bugs project (Some Ready) SortRank s. bg_failed_attempt_count bug < 3]"

definition show_bug :: "string \<Rightarrow> bug_store \<Rightarrow> string + bug_detail" where
  "show_bug bug_id s =
     try_res (ok_or (map_of (bs_bugs s) bug_id) (''load bug '' @ bug_id)) (\<lambda>bug.
       Inr \<lparr>bd_bug = attach_attempt_counts s bug,
            bd_events = sort_key bv_id [e \<leftarrow> bs_events s. bv_bug_id e = bug_id],
            bd_attempts = sort_key at_id [a \<leftarrow> bs_attempts s. at_bug_id a = bug_id]\<rparr>)"

definition or_else :: "'a option \<Rightarrow> 'a option \<Rightarrow> 'a option" where
  "or_else new old = (case new of Some v \<Rightarrow> Some v | None \<Rightarrow> old)"

definition triaged ::
  "bug_status option \<Rightarrow> bug_severity option \<Rightarrow> bug_priority option \<Rightarrow> string option \<Rightarrow> string option \<Rightarrow> string \<Rightarrow>
   bug_record \<Rightarrow> bug_record" where
  "triaged status severity priority component owner now bug =
     bug\<lparr>bg_status := (case status of Some v \<Rightarrow> v | None \<Rightarrow> bg_status bug),
         bg_severity := (case severity of Some v \<Rightarrow> v | None \<Rightarrow> bg_severity bug),
         bg_priority := (case priority of Some v \<Rightarrow> v | None \<Rightarrow> bg_priority bug),
         bg_component := or_else component (bg_component bug), bg_owner := or_else owner (bg_owner bug),
         bg_updated_at := now\<rparr>"

definition update_bug ::
  "string \<Rightarrow> string \<Rightarrow> string \<Rightarrow> bug_status option \<Rightarrow> bug_severity option \<Rightarrow> bug_priority option \<Rightarrow> string option \<Rightarrow>
   string option \<Rightarrow> string \<Rightarrow> bug_store \<Rightarrow> (string + bug_record) \<times> bug_store" where
  "update_bug now event_time bug_id status severity priority component owner actor s =
     try_pure (ok_or (map_of (bs_bugs s) bug_id) (''load bug '' @ bug_id)) s (\<lambda>before.
     try_pure (validate_transition (bg_status before) (case status of Some v \<Rightarrow> v | None \<Rightarrow> bg_status before)) s (\<lambda>_.
       let bug = triaged status severity priority component owner now before;
           s = s\<lparr>bs_bugs := bt_put bug_id bug (bs_bugs s)\<rparr>;
           s = append_event event_time bug_id ''triaged'' actor
                 (PayloadTriaged (bg_status bug) (bg_severity bug) (bg_priority bug) (bg_component bug) (bg_owner bug)) s
       in (Inr (attach_attempt_counts s bug), s)))"

definition record_attempt ::
  "string \<Rightarrow> string \<Rightarrow> string \<Rightarrow> bug_attempt_input \<Rightarrow> string \<Rightarrow> bug_store \<Rightarrow> (string + bug_attempt) \<times> bug_store" where
  "record_attempt now event_time bug_id input actor s =
     (if map_of (bs_bugs s) bug_id = None then (Inl (''load bug '' @ bug_id), s)
      else let i = bs_next_attempt_id s + 1;
               attempt = \<lparr>at_id = i, at_bug_id = bug_id, at_input = input, at_created_at = now, at_updated_at = now\<rparr>;
               s = s\<lparr>bs_next_attempt_id := i, bs_attempts := bs_attempts s @ [attempt]\<rparr>;
               s = append_event event_time bug_id ''attempt_recorded'' actor (PayloadAttempt (ai_status input) i) s
        in (Inr attempt, s))"

section \<open>The canonical Markdown\<close>

definition nl :: string where
  "nl = [CHR 0x0A]"

definition md_section :: "string \<Rightarrow> string \<Rightarrow> string" where
  "md_section title body = ''## '' @ title @ nl @ str_trim body @ nl @ nl"

definition ticked :: "string \<Rightarrow> string" where
  "ticked s = [CHR 0x60] @ s @ [CHR 0x60]"

definition md_evidence :: "bug_evidence_input \<Rightarrow> string" where
  "md_evidence item =
     ''- '' @ be_kind item @ '': '' @ be_summary item
       @ (case be_path item of None \<Rightarrow> [] | Some path \<Rightarrow> '' path='' @ path)
       @ (case be_url item of None \<Rightarrow> [] | Some url \<Rightarrow> '' url='' @ url)
       @ (if be_redacted item then '' redacted=true'' else []) @ nl"

definition canonical_markdown :: "bug_report \<Rightarrow> string" where
  "canonical_markdown r =
     ''# '' @ str_trim (br_title r) @ nl @ nl
       @ ''Target project: '' @ ticked (br_target_project r) @ nl
       @ ''Source project: '' @ ticked (br_source_project r) @ nl
       @ (case br_component r of None \<Rightarrow> [] | Some component \<Rightarrow> ''Component: '' @ ticked component @ nl)
       @ nl
       @ md_section ''Current behavior'' (br_current_behavior r)
       @ md_section ''Expected behavior'' (br_expected_behavior r)
       @ md_section ''Environment'' (br_environment r)
       @ md_section ''Frequency'' (br_frequency r)
       @ md_section ''Impact'' (br_impact r)
       @ md_section ''Security/privacy'' (br_security_privacy r)
       @ nl @ ''No secrets confirmed: '' @ (if br_no_secrets_confirmed r then ''true'' else ''false'') @ nl @ nl
       @ ''## Reproduction'' @ nl
       @ (if br_reproduction_steps r = [] then ''- Not provided'' @ nl
          else concat (map (\<lambda>(idx, step). show_nat (idx + 1) @ ''. '' @ step @ nl)
                 (zip [0..<length (br_reproduction_steps r)] (br_reproduction_steps r))))
       @ nl @ ''## Evidence'' @ nl
       @ (if br_evidence r = [] then ''- Not provided'' @ nl else concat (map md_evidence (br_evidence r)))
       @ nl @ ''## Acceptance criteria'' @ nl
       @ (if br_acceptance_criteria r = [] then ''- Fix restores expected behavior'' @ nl
          else concat (map (\<lambda>criterion. ''- '' @ criterion @ nl) (br_acceptance_criteria r)))"

section \<open>Runs\<close>

lemma status_round_trip: "status_parse (status_as_str s) = Inr s"
  by (cases s) (simp_all add: status_parse_def parse_among_def)

lemma attempt_round_trip: "attempt_parse (attempt_as_str a) = Inr a"
  by (cases a) (simp_all add: attempt_parse_def parse_among_def)

lemma labels_are_upper:
  "to_ascii_uppercase (severity_label s) = severity_label s" "to_ascii_uppercase (priority_label p) = priority_label p"
proof -
  have "list_all (\<lambda>s. to_ascii_uppercase (severity_label s) = severity_label s) [S0, S1, S2, S3, S4]" by code_simp
  then show "to_ascii_uppercase (severity_label s) = severity_label s" by (cases s) simp_all
  have "list_all (\<lambda>p. to_ascii_uppercase (priority_label p) = priority_label p) [P0, P1, P2, P3, P4]" by code_simp
  then show "to_ascii_uppercase (priority_label p) = priority_label p" by (cases p) simp_all
qed

lemma severity_round_trip: "severity_parse (severity_label s) = Inr s"
  unfolding severity_parse_def labels_are_upper by (cases s) (simp_all add: parse_among_def)

lemma priority_round_trip: "priority_parse (priority_label p) = Inr p"
  unfolding priority_parse_def labels_are_upper by (cases p) (simp_all add: parse_among_def)

text \<open>The operations that write, each with the times it reads.\<close>

datatype bug_op =
    AddProject string bug_project_input
  | Submit bug_clock string bug_report "string option" string
  | Update string string string "bug_status option" "bug_severity option" "bug_priority option" "string option" "string option" string
  | RecordAttempt string string string bug_attempt_input string

fun run_bug_op :: "(octet list \<Rightarrow> octet list) \<Rightarrow> bug_op \<Rightarrow> bug_store \<Rightarrow> bug_store" where
  "run_bug_op digest (AddProject now input) s = snd (add_project now input s)"
| "run_bug_op digest (Submit now event_time r key actor) s = snd (submit_bug digest now event_time r key actor s)"
| "run_bug_op digest (Update now event_time bug_id status severity priority component owner actor) s =
     snd (update_bug now event_time bug_id status severity priority component owner actor s)"
| "run_bug_op digest (RecordAttempt now event_time bug_id input actor) s =
     snd (record_attempt now event_time bug_id input actor s)"

definition run_bugs :: "(octet list \<Rightarrow> octet list) \<Rightarrow> bug_op list \<Rightarrow> bug_store \<Rightarrow> bug_store" where
  "run_bugs digest ops s = fold (run_bug_op digest) ops s"

fun mints :: "(octet list \<Rightarrow> octet list) \<Rightarrow> string \<Rightarrow> bug_op \<Rightarrow> bool" where
  "mints digest bug_id (Submit now event_time r key actor) = (generate_bug_id digest r now = bug_id)"
| "mints digest bug_id _ = False"

text \<open>What holds of the store on every run.\<close>

definition bug_store_ok :: "bug_store \<Rightarrow> bool" where
  "bug_store_ok s =
     (bt_ok (bs_bugs s) \<and>
      map bv_id (bs_events s) = map int [1..<length (bs_events s) + 1] \<and> bs_next_event_id s = int (length (bs_events s)) \<and>
      map at_id (bs_attempts s) = map int [1..<length (bs_attempts s) + 1] \<and>
      bs_next_attempt_id s = int (length (bs_attempts s)) \<and>
      list_all (\<lambda>e. map_of (bs_bugs s) (bv_bug_id e) \<noteq> None) (bs_events s) \<and>
      list_all (\<lambda>a. map_of (bs_bugs s) (at_bug_id a) \<noteq> None) (bs_attempts s) \<and>
      list_all (\<lambda>(key, bug). bg_id bug = key \<and> (\<exists>status. validate_report (bg_body bug) = Inr status) \<and>
        list_ex (\<lambda>e. bv_bug_id e = key \<and> bv_event_type e = ''submitted'') (bs_events s)) (bs_bugs s))"

lemma map_int_snoc: "map int [1..<length (xs @ [x]) + 1] = map int [1..<length xs + 1] @ [int (length xs) + 1]"
  by simp

lemma bug_rows_put: "set (bt_put k v m) \<subseteq> insert (k, v) (set m)"
  by (induction k v m rule: bt_put.induct) auto

lemma append_event_sel:
  "bs_events (append_event now bug_id kind actor payload s) =
     bs_events s @ [\<lparr>bv_id = bs_next_event_id s + 1, bv_bug_id = bug_id, bv_event_type = kind, bv_actor = actor,
       bv_payload = payload, bv_created_at = now\<rparr>]"
  "bs_next_event_id (append_event now bug_id kind actor payload s) = bs_next_event_id s + 1"
  "bs_bugs (append_event now bug_id kind actor payload s) = bs_bugs s"
  "bs_attempts (append_event now bug_id kind actor payload s) = bs_attempts s"
  "bs_next_attempt_id (append_event now bug_id kind actor payload s) = bs_next_attempt_id s"
  by (simp_all add: append_event_def Let_def)

text \<open>Writing one bug, with its event behind it.\<close>

lemma bug_put_ok:
  assumes "bug_store_ok s" and "bg_id bug = k" and "validate_report (bg_body bug) = Inr status"
    and "kind = ''submitted'' \<or> (\<exists>old. map_of (bs_bugs s) k = Some old)"
    and "bs_bugs t = bt_put k bug (bs_bugs s)" "bs_events t = bs_events s" "bs_next_event_id t = bs_next_event_id s"
      "bs_attempts t = bs_attempts s" "bs_next_attempt_id t = bs_next_attempt_id s"
  shows "bug_store_ok (append_event now k kind actor payload t)"
proof -
  have ok: "bt_ok (bs_bugs s)" using assms(1) by (simp add: bug_store_ok_def)
  note get = bt_put_get [OF ok, of k bug]
  let ?events = "bs_events (append_event now k kind actor payload t)"
  have rows: "bg_id b = i \<and> (\<exists>st. validate_report (bg_body b) = Inr st) \<and>
      list_ex (\<lambda>e. bv_bug_id e = i \<and> bv_event_type e = ''submitted'') ?events"
    if "(i, b) \<in> set (bt_put k bug (bs_bugs s))" for i b
  proof (cases "i = k")
    case True
    then have b: "b = bug"
      using that get bt_put_ok [OF ok, of k bug] by (metis bt_ok_def fun_upd_same map_of_is_SomeI option.inject)
    have "list_ex (\<lambda>e. bv_bug_id e = k \<and> bv_event_type e = ''submitted'') ?events"
    proof (cases "kind = ''submitted''")
      case False
      then obtain old where "(k, old) \<in> set (bs_bugs s)" using assms(4) map_of_SomeD by metis
      with assms(1,6) show ?thesis by (auto simp: bug_store_ok_def list_all_iff append_event_sel)
    qed (simp add: append_event_sel)
    with True b assms(2,3) show ?thesis by blast
  next
    case False
    then have "(i, b) \<in> set (bs_bugs s)" using that bug_rows_put by fastforce
    with assms(1,6) show ?thesis by (auto simp: bug_store_ok_def list_all_iff append_event_sel)
  qed
  have known: "map_of (bs_bugs s) i \<noteq> None \<Longrightarrow> map_of (bt_put k bug (bs_bugs s)) i \<noteq> None" for i
    by (simp add: get)
  have events: "list_all (\<lambda>e. map_of (bt_put k bug (bs_bugs s)) (bv_bug_id e) \<noteq> None) ?events"
    using assms(1,6) known get by (auto simp: bug_store_ok_def append_event_sel list_all_iff)
  have attempts: "list_all (\<lambda>a. map_of (bt_put k bug (bs_bugs s)) (at_bug_id a) \<noteq> None) (bs_attempts s)"
    using assms(1) known by (auto simp: bug_store_ok_def list_all_iff)
  have numbers: "map bv_id ?events = map int [1..<length ?events + 1]"
    using assms(1,6,7) by (simp add: bug_store_ok_def append_event_sel del: upt_Suc) (simp add: upt_Suc)
  have good: "list_all (\<lambda>(key, bug). bg_id bug = key \<and> (\<exists>status. validate_report (bg_body bug) = Inr status) \<and>
      list_ex (\<lambda>e. bv_bug_id e = key \<and> bv_event_type e = ''submitted'') ?events) (bt_put k bug (bs_bugs s))"
    unfolding list_all_iff using rows by blast
  show ?thesis
    unfolding bug_store_ok_def
    using assms(1,5-9) good events attempts numbers bt_put_ok [OF ok, of k bug]
    by (simp add: append_event_sel(2-5) bug_store_ok_def) (simp add: append_event_sel)
qed

lemma bt_put_same:
  fixes k :: "'k::linorder"
  shows "bt_ok m \<Longrightarrow> map_of m k = Some v \<Longrightarrow> bt_put k v m = m"
  by (induction k v m rule: bt_put.induct) (force simp: bt_ok_def dest: map_of_SomeD)+

lemma bug_store_ok_row:
  assumes "bug_store_ok s" "map_of (bs_bugs s) k = Some bug"
  shows "bg_id bug = k" "\<exists>status. validate_report (bg_body bug) = Inr status"
  using assms map_of_SomeD [OF assms(2)] by (auto simp: bug_store_ok_def list_all_iff)

lemma submit_keeps_ok:
  assumes "bug_store_ok s"
  shows "bug_store_ok (snd (submit_bug digest now event_time r key actor s))"
proof (cases "validate_report r")
  case (Inr status)
  show ?thesis
  proof (cases "Option.bind (Option.bind key (map_of (bs_idempotency s))) (map_of (bs_bugs s))")
    case None
    have "bug_store_ok (append_event event_time (generate_bug_id digest r now) ''submitted'' actor (PayloadSubmitted status)
        (s\<lparr>bs_bugs := bt_put (generate_bug_id digest r now) (new_bug (generate_bug_id digest r now) status r (cl_text now)) (bs_bugs s),
           bs_idempotency := (case key of None \<Rightarrow> bs_idempotency s
             | Some k \<Rightarrow> bt_put k (generate_bug_id digest r now) (bs_idempotency s))\<rparr>))"
      by (rule bug_put_ok [OF assms, where status = status and
            bug = "new_bug (generate_bug_id digest r now) status r (cl_text now)"])
         (simp_all add: new_bug_def Inr)
    with None Inr show ?thesis by (simp add: submit_bug_def try_pure_def Let_def)
  qed (use assms Inr in \<open>simp add: submit_bug_def try_pure_def\<close>)
qed (use assms in \<open>simp add: submit_bug_def try_pure_def\<close>)

lemma update_keeps_ok:
  assumes "bug_store_ok s"
  shows "bug_store_ok (snd (update_bug now event_time k status severity priority component owner actor s))"
proof (cases "map_of (bs_bugs s) k")
  case (Some old)
  let ?to = "case status of Some v \<Rightarrow> v | None \<Rightarrow> bg_status old"
  let ?bug = "triaged status severity priority component owner now old"
  obtain st where st: "validate_report (bg_body old) = Inr st"
    using bug_store_ok_row(2) [OF assms Some] by blast
  show ?thesis
  proof (cases "validate_transition (bg_status old) ?to")
    case (Inr u)
    have "bug_store_ok (append_event event_time k ''triaged'' actor
        (PayloadTriaged (bg_status ?bug) (bg_severity ?bug) (bg_priority ?bug) (bg_component ?bug) (bg_owner ?bug))
        (s\<lparr>bs_bugs := bt_put k ?bug (bs_bugs s)\<rparr>))"
      by (rule bug_put_ok [OF assms, where status = st and bug = ?bug])
         (use Some st bug_store_ok_row(1) [OF assms Some] in \<open>simp_all add: triaged_def\<close>)
    with Some Inr show ?thesis by (simp add: update_bug_def try_pure_def Let_def)
  qed (use assms Some in \<open>simp add: update_bug_def try_pure_def\<close>)
qed (use assms in \<open>simp add: update_bug_def try_pure_def\<close>)

lemma attempt_keeps_ok:
  assumes "bug_store_ok s"
  shows "bug_store_ok (snd (record_attempt now event_time k input actor s))"
proof (cases "map_of (bs_bugs s) k")
  case (Some old)
  let ?s1 = "s\<lparr>bs_next_attempt_id := bs_next_attempt_id s + 1, bs_attempts := bs_attempts s @
    [\<lparr>at_id = bs_next_attempt_id s + 1, at_bug_id = k, at_input = input, at_created_at = now, at_updated_at = now\<rparr>]\<rparr>"
  have ok1: "bug_store_ok ?s1"
    using assms Some by (simp add: bug_store_ok_def)
  obtain st where st: "validate_report (bg_body old) = Inr st"
    using bug_store_ok_row(2) [OF assms Some] by blast
  have ok: "bt_ok (bs_bugs s)" using assms by (simp add: bug_store_ok_def)
  have "bug_store_ok (append_event event_time k ''attempt_recorded'' actor (PayloadAttempt (ai_status input) (bs_next_attempt_id s + 1)) ?s1)"
    by (rule bug_put_ok [OF ok1, where bug = old and status = st])
       (use Some st bug_store_ok_row(1) [OF assms Some] bt_put_same [OF ok Some] in simp_all)
  with Some show ?thesis by (simp add: record_attempt_def Let_def)
qed (use assms in \<open>simp add: record_attempt_def\<close>)

lemma bug_op_keeps_ok: "bug_store_ok s \<Longrightarrow> bug_store_ok (run_bug_op digest op s)"
proof (cases op)
  case (AddProject now input)
  moreover assume "bug_store_ok s"
  ultimately show ?thesis by (simp add: add_project_def Let_def bug_store_ok_def)
qed (simp_all add: submit_keeps_ok update_keeps_ok attempt_keeps_ok)

lemma bug_run_keeps_ok: "bug_store_ok s \<Longrightarrow> bug_store_ok (run_bugs digest ops s)"
  unfolding run_bugs_def by (induction ops arbitrary: s) (simp_all add: bug_op_keeps_ok)

lemma new_bug_store_ok: "bug_store_ok new_bug_store"
  by (simp add: bug_store_ok_def new_bug_store_def bt_ok_def)

text \<open>
  C38. On every run of the store of the bug tracker from the empty one, whatever the digest, the clocks and the reports: the bugs lie in the
  order of their ids under their own id, every stored report passes the intake gate and has a "submitted" event behind it, and the
  events and the attempts are numbered 1, 2, ... without a gap and speak of stored bugs.
\<close>

theorem bug_store_in_order: "bug_store_ok (run_bugs digest ops new_bug_store)"
  by (rule bug_run_keeps_ok [OF new_bug_store_ok])

text \<open>A terminal status is left by no operation that does not mint the id again.\<close>

definition closed_as :: "bug_status \<Rightarrow> string \<Rightarrow> bug_store \<Rightarrow> bool" where
  "closed_as status k s = (case map_of (bs_bugs s) k of Some bug \<Rightarrow> bg_status bug = status | None \<Rightarrow> False)"

lemma op_keeps_closed:
  assumes "bug_store_ok s" "is_terminal status" "closed_as status k s" "\<not> mints digest k op"
  shows "closed_as status k (run_bug_op digest op s)"
proof -
  have ok: "bt_ok (bs_bugs s)" using assms(1) by (simp add: bug_store_ok_def)
  obtain bug where bug: "map_of (bs_bugs s) k = Some bug" "bg_status bug = status"
    using assms(3) by (auto simp: closed_as_def split: option.splits)
  show ?thesis
  proof (cases op)
    case (AddProject now input)
    with assms(3) show ?thesis by (simp add: add_project_def Let_def closed_as_def)
  next
    case (Submit now event_time r key actor)
    with assms(4) bug show ?thesis
      by (auto simp: closed_as_def submit_bug_def try_pure_def Let_def append_event_sel bt_put_get [OF ok]
          split: sum.splits option.splits)
  next
    case (Update now event_time i to severity priority component owner actor)
    show ?thesis
    proof (cases "i = k")
      case True
      with Update bug assms(2) show ?thesis
        by (auto simp: closed_as_def update_bug_def try_pure_def Let_def append_event_sel bt_put_get [OF ok]
            validate_transition_def triaged_def split: sum.splits option.splits if_splits)
    next
      case False
      with Update bug show ?thesis
        by (auto simp: closed_as_def update_bug_def try_pure_def Let_def append_event_sel bt_put_get [OF ok]
            split: sum.splits option.splits)
    qed
  next
    case (RecordAttempt now event_time i input actor)
    with bug show ?thesis by (simp add: closed_as_def record_attempt_def Let_def append_event_sel)
  qed
qed

lemma run_keeps_closed:
  "bug_store_ok s \<Longrightarrow> is_terminal status \<Longrightarrow> closed_as status k s \<Longrightarrow> list_all (\<lambda>op. \<not> mints digest k op) ops \<Longrightarrow>
   closed_as status k (run_bugs digest ops s)"
  unfolding run_bugs_def by (induction ops arbitrary: s) (simp_all add: op_keeps_closed bug_op_keeps_ok)

text \<open>
  C39. A bug that reached a terminal status on some run keeps exactly that status on every longer run in which no submission mints its
  id again, whatever triage, attempts and submissions follow. (A submission that does mint it overwrites the record.)
\<close>

theorem terminal_bug_stays:
  assumes "is_terminal status" and "closed_as status k (run_bugs digest before new_bug_store)"
    and "list_all (\<lambda>op. \<not> mints digest k op) after"
  shows "closed_as status k (run_bugs digest (before @ after) new_bug_store)"
proof -
  have "run_bugs digest (before @ after) new_bug_store = run_bugs digest after (run_bugs digest before new_bug_store)"
    by (simp add: run_bugs_def)
  with assms show ?thesis by (simp add: run_keeps_closed bug_run_keeps_ok new_bug_store_ok)
qed

text \<open>The triage order in words: severity, priority, difficulty, more failed attempts first, least recently updated first.\<close>

definition bug_before :: "bug_record \<Rightarrow> bug_record \<Rightarrow> bool" where
  "bug_before a b =
     (if bg_severity a \<noteq> bg_severity b then severity_rank (bg_severity a) < severity_rank (bg_severity b)
      else if bg_priority a \<noteq> bg_priority b then priority_rank (bg_priority a) < priority_rank (bg_priority b)
      else if bg_difficulty a \<noteq> bg_difficulty b then bg_difficulty a < bg_difficulty b
      else if bg_failed_attempt_count a \<noteq> bg_failed_attempt_count b
        then bg_failed_attempt_count b < bg_failed_attempt_count a
      else bg_updated_at a \<le> bg_updated_at b)"

lemma rank_inj: "severity_rank a = severity_rank b \<longleftrightarrow> a = b" "priority_rank p = priority_rank q \<longleftrightarrow> p = q"
  by (cases a; cases b; simp) (cases p; cases q; simp)

lemma ranking_key_before:
  "bg_status a = Ready \<Longrightarrow> bg_status b = Ready \<Longrightarrow> ranking_key a \<le> ranking_key b \<longleftrightarrow> bug_before a b"
  by (auto simp: ranking_key_def bug_before_def rank_inj ready_rank_def less_eq_prod_def less_le)

definition workable :: "string option \<Rightarrow> bug_record \<Rightarrow> bool" where
  "workable project bug =
     (bg_status bug = Ready \<and> bg_failed_attempt_count bug < 3 \<and>
      (project = None \<or> project = Some ''all'' \<or> project = Some (bg_target_project bug)))"

lemma attach_sel [simp]:
  "bg_status (attach_attempt_counts s bug) = bg_status bug"
  "bg_target_project (attach_attempt_counts s bug) = bg_target_project bug"
  by (simp_all add: attach_attempt_counts_def Let_def)

text \<open>
  The queue of ready bugs offered to an agent holds exactly the stored bugs of the project that are Ready with fewer than three failed
  attempts, each with its attempts counted and as often as it is stored, and it is ordered by severity, then priority, then
  difficulty, then MORE failed attempts first, then the least recently updated first.
\<close>

theorem ready_bugs_ranked:
  "mset (ready_bugs project s) = mset (filter (workable project) (map (\<lambda>row. attach_attempt_counts s (snd row)) (bs_bugs s))) \<and>
   sorted_wrt bug_before (ready_bugs project s)"
proof -
  have queue: "ready_bugs project s =
      sort_key ranking_key (filter (workable project) (map (\<lambda>row. attach_attempt_counts s (snd row)) (bs_bugs s)))"
    unfolding ready_bugs_def list_bugs_def sort_bugs_def
    by (auto simp: filter_sort filter_map comp_def workable_def intro!: arg_cong [where f = "sort_key ranking_key"]
        arg_cong [where f = "map _"] filter_cong split: option.splits)
  have "sorted_wrt (\<lambda>a b. ranking_key a \<le> ranking_key b) (ready_bugs project s)"
    unfolding queue using sorted_sort_key [of ranking_key] by (simp only: sorted_map)
  then have "sorted_wrt bug_before (ready_bugs project s)"
    by (rule sorted_wrt_mono_rel [rotated]) (auto simp: queue workable_def ranking_key_before)
  with queue show ?thesis by simp
qed

text \<open>A run for the witness: a bug is submitted and triaged to done; then reopening is tried and another bug comes in.\<close>

definition ex_report :: "string \<Rightarrow> bug_report" where
  "ex_report title = \<lparr>br_target_project = ''app'', br_source_project = ''app'', br_title = title, br_component = None,
     br_current_behavior = ''fails'', br_expected_behavior = ''works'', br_environment = ''linux'', br_frequency = ''always'',
     br_impact = ''high'', br_security_privacy = ''none'', br_no_secrets_confirmed = True, br_reproduction_steps = [''run''],
     br_evidence = [], br_acceptance_criteria = [], br_severity = S1, br_priority = P1, br_difficulty = 2\<rparr>"

definition ex_tail :: "octet list \<Rightarrow> octet list" where
  "ex_tail bytes = rev bytes"

definition ex_clock :: "int \<Rightarrow> bug_clock" where
  "ex_clock n = \<lparr>cl_text = ''t'', cl_nanos = Some n\<rparr>"

definition ex_bug_id :: string where
  "ex_bug_id = generate_bug_id ex_tail (ex_report ''crash'') (ex_clock 7)"

definition ex_before :: "bug_op list" where
  "ex_before = [Submit (ex_clock 7) ''t'' (ex_report ''crash'') (Some ''key'') ''ada'',
     Update ''u'' ''u'' ex_bug_id (Some Done) None None None None ''ada'']"

definition ex_after :: "bug_op list" where
  "ex_after = [Update ''v'' ''v'' ex_bug_id (Some Ready) (Some S0) None None None ''bob'',
     Submit (ex_clock 8) ''t'' (ex_report ''hangs'') None ''bob'', Update ''w'' ''w'' ex_bug_id None None (Some P0) None None ''bob'']"

theorem terminal_bug_stays_witness:
  "closed_as Done ex_bug_id (run_bugs ex_tail (ex_before @ ex_after) new_bug_store)"
proof (rule terminal_bug_stays)
  show "is_terminal Done" by code_simp
  show "closed_as Done ex_bug_id (run_bugs ex_tail ex_before new_bug_store)" by code_simp
  show "list_all (\<lambda>op. \<not> mints ex_tail ex_bug_id op) ex_after" by code_simp
qed

end
