(* ===== verification/Spec2Isabelle.thy ===== *)
theory Spec2Isabelle
  imports Runs Credentials Merge_Safety Review_Safety Repository_Safety Codeowners Bot_Entry Connection_Errors
    Receive_Pack Git_Auth Git_Refs Lfs Proof_Engine Bug_Tracker
begin

text \<open>
  Jeryu Core, translated function by function: the forge engine (\<^verbatim>\<open>src/crates/jeryu-core\<close>), the git daemon
  beside it (\<^verbatim>\<open>src/crates/jeryu-gitd\<close>), the proof runner (\<^verbatim>\<open>src/crates/jeryu-proof\<close>) and the bug tracker
  (\<^verbatim>\<open>src/crates/jeryu-bugtracker\<close>).

  \<^bold>\<open>The program.\<close> A \<^verbatim>\<open>ForgeCore\<close> holds one \<^verbatim>\<open>State\<close> (maps of repositories, issues, pull requests, reviews,
  statuses, rules, accounts, credentials, bots and provider connections) behind a lock and, optionally, an
  SQLite store of the same state with an append-only audit table. Every write takes the lock, clones the
  state, changes it, and either persists it or restores the clone (\<^verbatim>\<open>persist_after_mutation\<close>,
  \<^verbatim>\<open>persist_with_audit\<close> in \<^verbatim>\<open>engine/mod.rs\<close> and \<^verbatim>\<open>engine/storage.rs\<close>). The merge gate
  (\<^verbatim>\<open>branch_protection/\<close>) is a pure function of a pull request, the rule of its base branch, its reviews,
  statuses, check runs and CODEOWNERS; the engine stores its verdict in the pull request
  (\<^verbatim>\<open>apply_evaluation\<close>) and asks again before it merges. Git is outside Core: what Core asks of it is the trait
  \<^verbatim>\<open>RepoBranches\<close> and arguments of the operations. The daemon speaks the git protocols, decides who may read
  and write, guards refs and stores large objects. The proof runner plans the checks a change needs and
  accepts their evidence. The bug tracker takes in reports and moves them through their states.

  \<^bold>\<open>The theories of Core.\<close>
  \<^item> Types: \<open>Prelude\<close> (integers, times, identifiers, the string functions of Rust's standard library the code
    calls, \<^verbatim>\<open>HashMap\<close> and \<^verbatim>\<open>BTreeMap\<close> behind the interface \<open>keyed_store\<close>, the \<^verbatim>\<open>?\<close> combinators);
    \<open>Forge_Types\<close>, \<open>Account_Types\<close>, \<open>Credential_Types\<close> (the structs and enums of \<^verbatim>\<open>model/*.rs\<close>,
    \<^verbatim>\<open>errors.rs\<close> and \<^verbatim>\<open>branch_protection/types.rs\<close>); \<open>Bot_Failures\<close> (the repair texts of bot errors).
    \<open>Samples\<close> and \<open>Sample_Store\<close> hold the values the witnesses run on.
  \<^item> The gate: \<open>Codeowners\<close>, \<open>Review_Selection\<close>, \<open>Protection_Gate\<close> (\<^verbatim>\<open>branch_protection/codeowners.rs\<close>,
    \<^verbatim>\<open>reviews.rs\<close>, \<^verbatim>\<open>evaluate.rs\<close>). The gate is equivalent to a specification that lists what each blocker
    stands for; the review reduction is, reviewer by reviewer, the fold of the reviewer's own rows, counts
    only countable verdicts, and never counts a withdrawn one again.
  \<^item> The store: \<open>Forge_State\<close> (\<^verbatim>\<open>engine/mod.rs\<close>, \<^verbatim>\<open>webhooks.rs\<close>): the state, the core with its store,
    persistence with rollback, alias resolution, numbering, evaluation, the webhook outbox, and the interface
    \<open>state_invariant\<close>, the induction principle of every operation proof.
  \<^item> The operations, one definition for each public function: \<open>Accounts\<close> (\<^verbatim>\<open>accounts.rs\<close>, \<^verbatim>\<open>audit.rs\<close>, access checks
    of \<^verbatim>\<open>auth.rs\<close>), \<open>Statuses\<close> (\<^verbatim>\<open>commit_status.rs\<close>, \<^verbatim>\<open>check_runs.rs\<close>, \<^verbatim>\<open>webhooks.rs\<close>), \<open>Issues\<close>
    (\<^verbatim>\<open>issues.rs\<close>, \<^verbatim>\<open>readmes.rs\<close>), \<open>Repositories\<close>, \<open>Renames\<close> (\<^verbatim>\<open>repository_rename.rs\<close>,
    \<^verbatim>\<open>repository_transfer.rs\<close>), \<open>Protection_Ops\<close> (\<^verbatim>\<open>engine/branch_protection.rs\<close>), \<open>Review_Ops\<close>, \<open>Merge_Override\<close>,
    \<open>Pull_Requests\<close> and \<open>Merging\<close> (\<^verbatim>\<open>pull_requests.rs\<close>), \<open>Organizations\<close>, \<open>Waitlist\<close>, \<open>Scores\<close>
    (\<^verbatim>\<open>jankurai.rs\<close>), \<open>Deployments\<close>, \<open>Startup\<close> (the repairs of \<^verbatim>\<open>SqliteStore::open\<close>).
  \<^item> Credentials: \<open>Secrets\<close>, \<open>Auth\<close> (\<^verbatim>\<open>engine/auth.rs\<close>), \<open>Recovery\<close>; the bots (\<^verbatim>\<open>bots.rs\<close>, \<^verbatim>\<open>bot_tokens.rs\<close>,
    \<^verbatim>\<open>team_bots.rs\<close>) in \<open>Bot_Reach\<close>, \<open>Bots\<close>, \<open>Bot_Credentials\<close>, \<open>Bot_Activity\<close>, \<open>Bot_Tokens\<close>; the
    connections to providers in \<open>Vault\<close>, \<open>Provider_Connections\<close>, \<open>Connection_Errors\<close>.
  \<^item> What the operations keep: \<open>Durability\<close> (disk and live state agree, a failing operation changes nothing), \<open>Writes\<close>,
    \<open>Account_Runs\<close>, \<open>Bot_Runs\<close> (every operation is a sequence of a few kinds of primitive writes),
    \<open>Invariants\<close> (what a sequence of those keeps), \<open>Moves\<close> (deletions, renames, transfers, repairs),
    \<open>Runs\<close> (the step relation, what a server goes through, the cores it reaches).
  \<^item> What single operations promise: \<open>Merge_Safety\<close>, \<open>Review_Safety\<close>, \<open>Repository_Safety\<close>, \<open>Deletion\<close>,
    \<open>Credentials\<close>, \<open>Bot_Sessions\<close>, \<open>Bot_Entry\<close>, and the theories of the operations themselves.

  \<^bold>\<open>The theories of the other crates.\<close> \<open>Git_Wire\<close> (pkt-lines, advertisement, requests), \<open>Git_Hash\<close>
  (SHA-256), \<open>Receive_Pack\<close> (the commands in front of a pushed pack), \<open>Git_Auth\<close> (tokens, keys, SSH commands,
  paths), \<open>Git_Refs\<close> (protected refs, updates, merges, the pre-receive guard) and \<open>Lfs\<close> model the daemon;
  \<open>Proof_Engine\<close> the proof runner; \<open>Bug_Tracker\<close> the bug tracker. Each is a program of its own, with its
  properties stated on its operations; they are not part of the step relation over Core.

  \<^bold>\<open>How state and effects are represented.\<close> A \<^verbatim>\<open>HashMap\<close> is an association list in its iteration order
  (the order is not specified by Rust; the model's is one of those possible, and no property depends on
  it), a \<^verbatim>\<open>BTreeMap\<close> a sorted one. A \<open>core\<close> is the live state with the optional store; an operation
  takes the core and returns an error or a value together with the core after it. What the code reads
  from its surroundings is in the record \<open>env\<close>: the times of successive \<^verbatim>\<open>Utc::now()\<close> calls, the fresh
  identifiers, the random bytes, the fault, if any, of each storage write, and the hash functions. They are
  indexed by the order of the calls within one operation, so that every failure pattern is an instance.
  \<^verbatim>\<open>u64\<close> is \<^typ>\<open>nat\<close>, with the wrap-around (or, where the code uses \<^verbatim>\<open>checked_add\<close>, the failure) at
  \<open>2 ^ 64\<close> written out at every addition of the code; the \<^verbatim>\<open>i64\<close> counters of the bug tracker are \<^typ>\<open>int\<close>, since they
  count rows of a \<^verbatim>\<open>Vec\<close>. Bytes and the 32-bit words of the hash and of base64 are words. Timestamps are
  compared as numbers. No definition uses fuel: the loops run over the lists they traverse, the functions
  with another measure have termination proofs, and the two bounded loops (eight attempts at an unused
  identifier, eight symbolic refs) have the bound the code has.

  \<^bold>\<open>Disk and memory.\<close> What the code keeps in memory only, or writes without asking whether the write
  succeeded: when a bot and an agent token were last used, the reserved operations of bots, and the fence put on
  a provider connection whose rotation is unfinished, which the next opening puts on again. \<open>durable_view\<close> leaves
  exactly these out, and \<open>synced\<close> says that the rest is equal on disk.

  \<^bold>\<open>Runs.\<close> \<open>step\<close> has a rule for every operation of Core that changes the state, \<open>transition\<close> adds deletions,
  renames, transfers and restarts, and \<open>reachable\<close> is what comes about from a new core. In a few corners
  that the code does not guard against, its own invariants break. A run may be asked to stay clear of
  them, through the set of limits that the three relations take: counters of records and epochs of accounts below
  the top of \<^verbatim>\<open>u64\<close> (\<open>RecordNumbers\<close>, \<open>AccountEpochs\<close>), no pull request opened under a name its repository
  had before a rename (\<open>StoredNames\<close>), and a generator of secrets that answers when a refresh token is
  rotated (\<open>GeneratorAnswers\<close>). A limit is a condition on the run and not on the code: with the empty set, the
  relations are the program's. For three of them a theorem shows what goes wrong without: \<open>reset_at_the_top_diverges\<close>,
  \<open>pull_at_old_name_stranded\<close>, \<open>failed_generator_diverges\<close>. Deployments are kept in
  a book of their own with a durable table of their own (\<open>Deployments\<close>), and are not a part of the core that
  runs speak of. Each property names the limits it needs.

  \<^bold>\<open>Bounds of the model.\<close> Operations are atomic: the code drops the lock between a check and the write in
  a few of them (\<^verbatim>\<open>ensure_user\<close> before the insert, \<^verbatim>\<open>ensure_repository_writable\<close> before the write lock), and
  interleavings inside one operation are not represented; interleavings of whole operations are, and a
  refresh of a provider credential is two steps. The cryptographic hashes, Argon2, the cipher of the vault, the
  random generator, the file system, serde and git are parameters. What a theorem relies on of them is a hypothesis with
  a concrete instance in the witness: \<open>lawful_git\<close> for the commands of git, stated for full object ids (git
  also accepts abbreviated ones, and takes an empty old id as no condition), the laws of the cipher, the
  file system of the object store. Text inside error messages is rendered up to the escapes Rust's \<^verbatim>\<open>Debug\<close>
  makes beyond ASCII.

  \<^bold>\<open>Not modelled:\<close> of Core, the SQL of the store, its migrations and row decoding, and the overlap scores
  (\<^verbatim>\<open>overlap.rs\<close>, floating point); of the daemon, the HTTP server and the running of packs (\<^verbatim>\<open>smart_http.rs\<close>,
  \<^verbatim>\<open>pack_rpc.rs\<close>), what only drives git or files (\<^verbatim>\<open>push.rs\<close>, \<^verbatim>\<open>audit.rs\<close>, \<^verbatim>\<open>config.rs\<close>, \<^verbatim>\<open>quarantine.rs\<close>,
  \<^verbatim>\<open>import.rs\<close>, \<^verbatim>\<open>mirror.rs\<close>, \<^verbatim>\<open>cli.rs\<close>, most of \<^verbatim>\<open>repo.rs\<close>); and the crates \<^verbatim>\<open>domain\<close>,
  \<^verbatim>\<open>jeryu-mirror\<close>, \<^verbatim>\<open>jeryu-mirror-cli\<close>, \<^verbatim>\<open>jeryu-readmodel\<close>, \<^verbatim>\<open>jeryu-enterprise\<close> and \<^verbatim>\<open>jeryu-tui\<close>.
\<close>

section \<open>A concrete run\<close>

text \<open>An empty database, the repository \<^verbatim>\<open>acme/core\<close>, and its first issue.\<close>

definition ex_fresh :: core where
  "ex_fresh = open_sqlite \<lparr>du_disk = default_state, du_audit = []\<rparr>"

definition ex_with_repo :: core where
  "ex_with_repo = snd (create_repository ex_env None ''acme''
     \<lparr>crp_name = ''core'', crp_private = False, crp_description = None, crp_default_branch = None\<rparr> ex_fresh)"

definition ex_with_issue :: core where
  "ex_with_issue = snd (create_issue ex_env ''acme'' ''core'' ''ann''
     \<lparr>cir_title = ''first'', cir_body = None, cir_labels = [], cir_assignees = [], cir_milestone = None\<rparr>
     ex_with_repo)"

lemma ex_names: "str_trim ''core'' = ''core''" "str_trim ''first'' = ''first''" "require_login ''ann'' = Inr ()"
  "require_name ''login'' ''ann'' = Inr ()"
  by code_simp+

lemma ex_fresh_sel [simp]: "live ex_fresh = default_state" "storage ex_fresh \<noteq> None"
  by (simp_all add: ex_fresh_def open_sqlite_def)

lemma ex_with_repo_sel [simp]:
  "st_counters (live ex_with_repo) = [((''acme'', ''core''), default_counters)]"
  "st_issues (live ex_with_repo) = []" "st_users (live ex_with_repo) = []"
  "hm_has (st_repos (live ex_with_repo)) (''acme'', ''core'')" "storage ex_with_repo \<noteq> None"
  by (simp_all add: ex_with_repo_def create_repository_def Let_def require_name_def ex_names commit_eq
      persisted_def hm_has_def default_state_def ensure_default_branch_protection_def)

lemma ex_with_repo_reachable: "reachable limits ex_git (ex_with_repo, \<lambda>_. None)"
  unfolding ex_with_repo_def ex_fresh_def
  by (rule reachable_step [OF reachable.new_database step.create_repository])

lemma ex_with_repo_room: "record_room ''acme'' ''core'' (live ex_with_repo)"
  by (simp add: record_room_def default_counters_def)

lemma ex_with_issue_reachable: "reachable limits ex_git (ex_with_issue, \<lambda>_. None)"
  unfolding ex_with_issue_def
  by (rule reachable_step [OF ex_with_repo_reachable step.create_issue]) (simp add: ex_with_repo_room)

lemma ex_repo_exists [simp]: "ensure_repo_exists (live ex_with_repo) ''acme'' ''core'' = Inr ()"
  by (simp add: ensure_repo_exists_Inr)

lemma ex_author: "\<exists>u. ensure_user ex_env 0 ''ann'' ex_with_repo = (Inr u,
    persisted ((live ex_with_repo)\<lparr>st_users := hm_put ''ann'' u (st_users (live ex_with_repo))\<rparr>) ex_with_repo)"
  by (simp add: ensure_user_def get_user_def create_user_def ex_names Let_def hm_has_def commit_eq)

lemma ex_with_issue_sel:
  "st_counters (live ex_with_issue) = [((''acme'', ''core''), \<lparr>cn_issue = 1, cn_pull = 1\<rparr>)]"
  "hm_get (st_issues (live ex_with_issue)) (''acme'', ''core'', 1) \<noteq> None"
  "storage ex_with_issue \<noteq> None"
proof -
  obtain u where "ensure_user ex_env 0 ''ann'' ex_with_repo = (Inr u,
      persisted ((live ex_with_repo)\<lparr>st_users := hm_put ''ann'' u (st_users (live ex_with_repo))\<rparr>) ex_with_repo)"
    using ex_author by blast
  then show "st_counters (live ex_with_issue) = [((''acme'', ''core''), \<lparr>cn_issue = 1, cn_pull = 1\<rparr>)]"
    "hm_get (st_issues (live ex_with_issue)) (''acme'', ''core'', 1) \<noteq> None"
    "storage ex_with_issue \<noteq> None"
    by (simp_all add: ex_with_issue_def create_issue_def require_name_def ex_names persisted_def
        next_record_number_def Let_def default_counters_def u64_succ_def commit_eq)
qed

section \<open>Properties of every run\<close>

text \<open>
  C4. The database holds the live state at every point of every run of the operations of \<open>step\<close>, of
  deletions, renames, transfers and restarts, whatever writes fail on the way, provided that the run
  stays within two limits: no credentials are changed while an account stands at the top of its epoch,
  and no refresh token is rotated while the generator of secrets fails. Beyond either limit it is false:
  the code then keeps a change in memory that is not on disk (\<open>reset_at_the_top_diverges\<close>,
  \<open>failed_generator_diverges\<close>). A server restarted from the database therefore loads what is on disk, as
  repaired by the opening. What may differ otherwise is what the code keeps in memory only, and nothing
  else: when a bot or an agent token was last used, the bots' operation book, and a fence put on an
  unfinished rotation that the opening puts on again.
\<close>

theorem disk_agrees_on_every_run:
  assumes "reachable {AccountEpochs, GeneratorAnswers} branches (c, g)" and "storage c = Some d"
  shows "durable_view (du_disk d) = durable_view (live c) \<and>
    (\<forall>ev c'. store_open ev d = Inr c' \<longrightarrow> live c' = snd (repair_on_open ev (du_disk d)))"
  using reachable_synced [OF assms(1)] assms(2) reopened
  by (auto simp: synced_def)

theorem disk_agrees_on_every_run_witness:
  "\<exists>d. storage ex_with_issue = Some d \<and> durable_view (du_disk d) = durable_view (live ex_with_issue)"
proof -
  obtain d where "storage ex_with_issue = Some d" using ex_with_issue_sel(3) by blast
  with disk_agrees_on_every_run [OF ex_with_issue_reachable this] show ?thesis by blast
qed

text \<open>
  C7. No number is given out twice, on every core reachable within the limits of \<open>Runs\<close>: while the counter
  of a repository is below the top of its range, its next number belongs to no issue and no pull request
  of it; and every pull request is stored under its own owner, repository and number, with the issue of
  the same number beside it. The limits are part of the claim: at the top the counter wraps to numbers in
  use, and a pull request opened under the name a repository had before a rename is numbered by a counter
  that a new repository of that name starts again.
\<close>

theorem record_numbers_are_fresh:
  assumes "reachable UNIV branches (c, g)" and "record_room owner repo (live c)"
    and "next_record_number owner repo (live c) = (n, s)"
  shows "hm_get (st_issues (live c)) (owner, repo, n) = None \<and>
    hm_get (st_pulls (live c)) (owner, repo, n) = None \<and>
    (\<forall>o' r' m pr. hm_get (st_pulls (live c)) (o', r', m) = Some pr \<longrightarrow>
       pr_owner pr = o' \<and> pr_repo pr = r' \<and> pr_number pr = m \<and> pr_issue_number pr = m \<and>
       hm_get (st_issues (live c)) (o', r', m) \<noteq> None)"
proof -
  have numbered: "numbered (live c)"
    using reachable_consistent [OF assms(1)] by (simp add: consistent_def store_ok_def)
  then have "pulls_keyed (st_pulls (live c)) (st_issues (live c))" by (simp add: numbered_def)
  from pulls_keyedD [OF this] numbered_free_issue [OF numbered assms(2,3)] show ?thesis
    by (fastforce simp: hm_has_def)
qed

theorem record_numbers_are_fresh_witness:
  "fst (next_record_number ''acme'' ''core'' (live ex_with_issue)) = 2 \<and>
   hm_get (st_issues (live ex_with_issue)) (''acme'', ''core'', 1) \<noteq> None \<and>
   hm_get (st_issues (live ex_with_issue)) (''acme'', ''core'', 2) = None"
proof -
  have room: "record_room ''acme'' ''core'' (live ex_with_issue)"
    by (simp add: record_room_def ex_with_issue_sel)
  have two: "fst (next_record_number ''acme'' ''core'' (live ex_with_issue)) = 2"
    by (simp add: next_record_number_def ex_with_issue_sel Let_def u64_succ_def)
  then have given: "next_record_number ''acme'' ''core'' (live ex_with_issue) =
      (2, snd (next_record_number ''acme'' ''core'' (live ex_with_issue)))"
    by (simp add: prod_eq_iff)
  from record_numbers_are_fresh [OF ex_with_issue_reachable room given] ex_with_issue_sel(2) two show ?thesis by blast
qed


text \<open>
  C6. On every core reachable within the limits of \<open>Runs\<close>, every repository is stored under its own slug,
  and unless it has opted out the rule of its default branch is there: it can be changed, but no sequence
  of operations deletes it, re-keys it away or leaves a new default branch without one.
\<close>

theorem default_branch_always_protected:
  assumes "reachable UNIV branches (c, g)" and "hm_get (st_repos (live c)) (owner, repo) = Some r"
  shows "rp_owner r = owner \<and> rp_name r = repo \<and>
    (rp_default_branch_protection_opt_out r \<or>
     (\<exists>rule. get_branch_protection (live c) owner repo (rp_default_branch r) = Inr rule))"
  using protected_defaultsD [OF _ assms(2)] reachable_consistent [OF assms(1)]
  by (auto simp: consistent_def store_ok_def row_protected_def hm_has_def get_branch_protection_def)

theorem default_branch_always_protected_witness:
  "\<exists>r rule. hm_get (st_repos (live ex_with_repo)) (''acme'', ''core'') = Some r \<and>
     get_branch_protection (live ex_with_repo) ''acme'' ''core'' (rp_default_branch r) = Inr rule"
proof -
  have "\<exists>r. hm_get (st_repos (live ex_with_repo)) (''acme'', ''core'') = Some r \<and>
      \<not> rp_default_branch_protection_opt_out r"
    by (simp add: ex_with_repo_def create_repository_def Let_def require_name_def ex_names commit_eq
        persisted_def default_state_def hm_has_def)
  then obtain r where r: "hm_get (st_repos (live ex_with_repo)) (''acme'', ''core'') = Some r"
    "\<not> rp_default_branch_protection_opt_out r" by blast
  with default_branch_always_protected [OF ex_with_repo_reachable r(1)] show ?thesis by blast
qed

text \<open>
  C8. History is kept: along every sequence of the operations of \<open>step\<close> from a reachable core (all within
  the limits of \<open>Runs\<close>; deletions, renames, transfers and restarts are not steps), a pull request that is
  merged stays merged with the same commit, no pull request or issue disappears or is renumbered, a pull
  request keeps its author, reviews are only added at the end, and a repository keeps its identity.
\<close>

theorem history_is_kept:
  assumes "reachable UNIV branches (c, g)" and "(step UNIV branches)\<^sup>*\<^sup>* (c, g) (c', g')"
  shows "(\<forall>key pr. hm_get (st_pulls (live c)) key = Some pr \<longrightarrow>
      (\<exists>q. hm_get (st_pulls (live c')) key = Some q \<and> pr_number q = pr_number pr \<and> pr_author q = pr_author pr \<and>
        (pr_merged pr \<longrightarrow> pr_merged q \<and> pr_merge_commit_sha q = pr_merge_commit_sha pr))) \<and>
    (\<forall>key i. hm_get (st_issues (live c)) key = Some i \<longrightarrow>
      (\<exists>j. hm_get (st_issues (live c')) key = Some j \<and> is_number j = is_number i)) \<and>
    (\<forall>key rows. hm_get (st_reviews (live c)) key = Some rows \<longrightarrow>
      (\<exists>more_rows. hm_get (st_reviews (live c')) key = Some (rows @ more_rows))) \<and>
    (\<forall>key r. hm_get (st_repos (live c)) key = Some r \<longrightarrow>
      (\<exists>r'. hm_get (st_repos (live c')) key = Some r' \<and> rp_id r' = rp_id r))"
proof -
  have "consistent (fst (c', g')) \<and> extends (live (fst (c, g))) (live (fst (c', g')))"
    using assms(2)
  proof (induction rule: rtranclp_induct)
    case base
    then show ?case using reachable_consistent [OF assms(1)] by simp
  next
    case (step y z)
    then show ?case
      using step_consistent [of branches "fst y" "snd y" "fst z" "snd z"] extends_trans by auto
  qed
  then have kept: "extends (live c) (live c')" by simp
  then have pulls: "grows same_pull (st_pulls (live c)) (st_pulls (live c'))"
    and issues: "grows same_issue (st_issues (live c)) (st_issues (live c'))"
    and reviews: "grows prefix (st_reviews (live c)) (st_reviews (live c'))"
    and repos: "grows same_repository (st_repos (live c)) (st_repos (live c'))"
    by (simp_all add: extends_def)
  show ?thesis
    using growsD [OF pulls] growsD [OF issues] growsD [OF reviews] growsD [OF repos]
    unfolding same_pull_def same_issue_def same_repository_def prefix_def by blast
qed

theorem history_is_kept_witness:
  "\<exists>i j. hm_get (st_issues (live ex_with_issue)) (''acme'', ''core'', 1) = Some i \<and>
     hm_get (st_issues (live (snd (create_label ex_env ''acme'' ''core''
       \<lparr>clr_name = ''bug'', clr_color = [], clr_description = None\<rparr> ex_with_issue)))) (''acme'', ''core'', 1) = Some j \<and>
     is_number j = is_number i"
proof -
  have run: "(step UNIV ex_git)\<^sup>*\<^sup>* (ex_with_issue, \<lambda>_. None) (snd (create_label ex_env ''acme'' ''core''
      \<lparr>clr_name = ''bug'', clr_color = [], clr_description = None\<rparr> ex_with_issue), \<lambda>_. None)"
    by (rule r_into_rtranclp) (rule step.create_label)
  obtain i where i: "hm_get (st_issues (live ex_with_issue)) (''acme'', ''core'', 1) = Some i"
    using ex_with_issue_sel(2) by blast
  from history_is_kept [OF ex_with_issue_reachable run] i show ?thesis by blast
qed


text \<open>
  C17. A failed operation changes nothing: when one of the operations that write once fails, be it
  refused or because the storage write failed, live state, disk and audit trail are exactly what
  they were.
\<close>

theorem failed_operations_change_nothing:
  "kept_on_error c (create_organization ev organization c) \<and>
   kept_on_error c (create_team ev org team c) \<and>
   kept_on_error c (create_label ev owner repo label c) \<and>
   kept_on_error c (set_repository_readme ev owner repo markdown c) \<and>
   kept_on_error c (set_repository_family ev owner repo family c) \<and>
   kept_on_error c (record_repository_push ev owner repo at c) \<and>
   kept_on_error c (set_branch_protection ev owner repo branch rule c) \<and>
   kept_on_error c (set_codeowners ev owner repo contents c) \<and>
   kept_on_error c (create_webhook ev owner repo hook c) \<and>
   kept_on_error c (create_check_run ev owner repo run c) \<and>
   kept_on_error c (update_issue ev owner repo number issue_edit c) \<and>
   kept_on_error c (update_pull_request ev owner repo number pull_edit c) \<and>
   kept_on_error c (refresh_pull_request_heads_with_identity ev owner repo ref_name sha evidence c) \<and>
   kept_on_error c (retarget_pull_request ev branches g actor owner repo number target c) \<and>
   kept_on_error c (finalize_merge ev owner repo number merge_sha requested base c) \<and>
   kept_on_error c (delete_repository ev owner repo c)"
  by (intro conjI)
    (simp_all add: kept_ops finalize_merge_def)

lemma reachable_run:
  "(transition limits branches)\<^sup>*\<^sup>* cg cg' \<Longrightarrow> reachable limits branches cg \<Longrightarrow> reachable limits branches cg'"
  by (induction rule: rtranclp_induct) (auto intro: reachable.move)

lemma run_account:
  assumes "reachable UNIV branches (c, g)" and "(transition UNIV branches)\<^sup>*\<^sup>* (c, g) (c', g')"
    and "hm_get (st_accounts (live c)) login = Some a"
  shows "\<exists>b. hm_get (st_accounts (live c')) login = Some b \<and> ua_auth_epoch a \<le> ua_auth_epoch b"
proof -
  have "people_kept (live c) (live c')"
    using run_consistent [OF assms(2)] reachable_consistent [OF assms(1)] by simp
  then have "grows same_account (st_accounts (live c)) (st_accounts (live c'))" by (simp add: people_kept_def)
  from growsD [OF this assms(3)] show ?thesis by (auto simp: same_account_def)
qed

text \<open>
  C9. What a change of credentials cuts off stays cut off. Take any run within the limits of \<open>Runs\<close>
  (operations, deletions, renames, transfers and restarts) in which one transition is a successful
  password reset, password change, forced change, change of status or recovery for a login. No session
  that opened for the login at any point before the change opens at any point after it, under any token;
  and no row of a personal access token by which the login authenticated before the change authenticates
  after it. What does open or authenticate for the login afterwards was issued under a newer epoch than the
  account had when the change was made.
\<close>

theorem stale_credentials_stay_dead:
  assumes "reachable UNIV branches (c0, g0)" and "(transition UNIV branches)\<^sup>*\<^sup>* (c0, g0) (c, g)"
    and "transition UNIV branches (c, g) (c1, g1)" and "credential_change login c c1"
    and "(transition UNIV branches)\<^sup>*\<^sup>* (c1, g1) (c', g')"
  shows "(\<forall>ev token shown session ev' token' shown'.
      session_for_token ev (live c0) token = Some (shown, session) \<longrightarrow> ws_login session = login \<longrightarrow>
      session_for_token ev' (live c') token' \<noteq> Some (shown', session)) \<and>
    (\<forall>ev token shown row ev' token'.
      authenticate_personal_access_token ev (live c0) token = Some shown \<longrightarrow>
      token_row ev (live c0) token = Some row \<longrightarrow> pt_login row = login \<longrightarrow>
      token_row ev' (live c') token' = Some row \<longrightarrow>
      authenticate_personal_access_token ev' (live c') token' = None) \<and>
    (\<exists>a. hm_get (st_accounts (live c)) login = Some a \<and>
      (\<forall>ev token shown session. session_for_token ev (live c') token = Some (shown, session) \<longrightarrow>
         ws_login session = login \<longrightarrow> ua_auth_epoch a < ws_auth_epoch session) \<and>
      (\<forall>ev token shown row. authenticate_personal_access_token ev (live c') token = Some shown \<longrightarrow>
         token_row ev (live c') token = Some row \<longrightarrow> pt_login row = login \<longrightarrow>
         ua_auth_epoch a < pt_auth_epoch row))"
proof -
  have reach: "reachable UNIV branches (c1, g1)"
    by (rule reachable.move [OF reachable_run [OF assms(2,1)] assms(3)])
  obtain a b where a: "hm_get (st_accounts (live c)) login = Some a"
    and b: "hm_get (st_accounts (live c1)) login = Some b" "ua_auth_epoch b = ua_auth_epoch a + 1"
    using credential_change_cut_off [OF assms(4)] by (auto simp: cut_off_def)
  obtain z where z: "hm_get (st_accounts (live c')) login = Some z" "ua_auth_epoch a < ua_auth_epoch z"
    using run_account [OF reach assms(5) b(1)] b(2) by auto
  have old: "ua_auth_epoch a0 \<le> ua_auth_epoch a" if "hm_get (st_accounts (live c0)) login = Some a0" for a0
    using run_account [OF assms(1,2) that] a by auto
  have session_new: "ua_auth_epoch a < ws_auth_epoch session"
    if "session_for_token ev (live c') token = Some (shown, session)" and "ws_login session = login"
    for ev token shown session
    using session_needs_epoch [OF that(1)] that(2) z by auto
  have token_new: "ua_auth_epoch a < pt_auth_epoch row"
    if "authenticate_personal_access_token ev (live c') token = Some shown"
      and "token_row ev (live c') token = Some row" and "pt_login row = login" for ev token shown row
    using token_row_epoch [OF that(1)] that(2,3) z by auto
  have session_old: "ws_auth_epoch session \<le> ua_auth_epoch a"
    if "session_for_token ev (live c0) token = Some (shown, session)" and "ws_login session = login"
    for ev token shown session
    using session_needs_epoch [OF that(1)] that(2) old by auto
  have token_old: "pt_auth_epoch row \<le> ua_auth_epoch a"
    if "authenticate_personal_access_token ev (live c0) token = Some shown"
      and "token_row ev (live c0) token = Some row" and "pt_login row = login" for ev token shown row
    using token_row_epoch [OF that(1)] that(2,3) old by auto
  show ?thesis
  proof (intro conjI exI [of _ a] a allI impI)
    fix ev token shown session ev' token' shown'
    assume one: "session_for_token ev (live c0) token = Some (shown, session)" "ws_login session = login"
    show "session_for_token ev' (live c') token' \<noteq> Some (shown', session)"
      using session_old [OF one] session_new [OF _ one(2), of ev' token' shown'] by (auto simp: not_less)
  next
    fix ev token shown row ev' token'
    assume one: "authenticate_personal_access_token ev (live c0) token = Some shown"
      "token_row ev (live c0) token = Some row" "pt_login row = login" and "token_row ev' (live c') token' = Some row"
    then show "authenticate_personal_access_token ev' (live c') token' = None"
      using token_old [OF one] token_new [OF _ _ one(3), of ev' token'] by (fastforce simp: not_less)
  qed (use session_new token_new in blast)+
qed

text \<open>A server with one administrator, signed in.\<close>

definition ex_member :: core where
  "ex_member = snd (create_account ex_env ''root'' ''correct horse battery'' RoleAdmin ex_fresh)"

definition ex_member_in :: core where
  "ex_member_in = snd (create_session ex_env ''root'' ex_member)"

lemma ex_root_name: "require_login ''root'' = Inr ()"
  by code_simp

lemma ex_member_account:
  "\<exists>a. hm_get (st_accounts (live ex_member)) ''root'' = Some a \<and> ua_status a = Active \<and> ua_auth_epoch a = 0"
  "storage ex_member \<noteq> None"
  by (simp_all add: ex_member_def create_account_def ex_root_name ex_long_password ex_hash hm_has_def Let_def
      commit_eq persisted_def default_state_def)

lemma ex_member_reachable: "reachable limits ex_git (ex_member, \<lambda>_. None)"
  unfolding ex_member_def ex_fresh_def
  by (rule reachable_step [OF reachable.new_database step.create_account])

lemma ex_member_session:
  obtains receipt where "create_session ex_env ''root'' ex_member = (Inr receipt, ex_member_in)"
proof -
  obtain a where a: "hm_get (st_accounts (live ex_member)) ''root'' = Some a" "ua_status a = Active"
    using ex_member_account(1) by blast
  have "\<exists>receipt c'. create_session ex_env ''root'' ex_member = (Inr receipt, c')"
    using a
    by (auto simp: create_session_def create_session_with_ttl_def require_active_account_def get_account_def
        permits_authentication_def random_secret_def ex_env_def Let_def commit_eq
        duration_seconds_def SESSION_TTL_SECS_def MAX_UTC_def write_fails_def)
  with that show thesis by (auto simp: ex_member_in_def)
qed

lemma create_session_epoch:
  assumes "create_session ev login c = (Inr receipt, c')"
    and "hm_get (st_accounts (live c)) login = Some a"
  shows "ws_auth_epoch (sr_session receipt) = ua_auth_epoch a \<and>
    env_clk ev 0 < ws_expires_at (sr_session receipt) \<and> st_accounts (live c') = st_accounts (live c)"
  using assms
  by (auto simp: create_session_def create_session_with_ttl_def require_active_account_def get_account_def
      try_pure_Inr try_res_Inr ok_or_Inr Let_def duration_seconds_def SESSION_TTL_SECS_def split: if_splits)

lemma ex_member_in_opens:
  obtains token shown session where "session_for_token ex_env (live ex_member_in) token = Some (shown, session)"
    and "ws_login session = ''root''"
proof -
  obtain a where a: "hm_get (st_accounts (live ex_member)) ''root'' = Some a" "ua_status a = Active"
    "ua_auth_epoch a = 0" using ex_member_account(1) by blast
  obtain receipt where made: "create_session ex_env ''root'' ex_member = (Inr receipt, ex_member_in)"
    by (rule ex_member_session)
  have receipt: "ws_login (sr_session receipt) = ''root''"
    "hm_get (st_sessions (live ex_member_in)) (token_hash ex_env (sr_token receipt)) = Some (sr_session receipt)"
    "ws_auth_epoch (sr_session receipt) = 0" "env_clk ex_env 0 < ws_expires_at (sr_session receipt)"
    "st_accounts (live ex_member_in) = st_accounts (live ex_member)"
    using create_session_Inr [OF made] create_session_epoch [OF made a(1)] a(3) by simp_all
  have "session_for_token ex_env (live ex_member_in) (sr_token receipt) =
      Some (account_summary_from a, sr_session receipt)"
    using a receipt by (simp add: session_for_token_def permits_authentication_def del: ex_token_hash)
  with receipt(1) that show thesis by blast
qed

lemma ex_member_in_accounts: "st_accounts (live ex_member_in) = st_accounts (live ex_member)"
proof -
  obtain receipt where made: "create_session ex_env ''root'' ex_member = (Inr receipt, ex_member_in)"
    by (rule ex_member_session)
  obtain a where "hm_get (st_accounts (live ex_member)) ''root'' = Some a" using ex_member_account(1) by blast
  with create_session_epoch [OF made this] show ?thesis by simp
qed

lemma ex_member_in_reachable: "reachable limits ex_git (ex_member_in, \<lambda>_. None)"
  unfolding ex_member_in_def create_session_def
  by (rule reachable_step [OF ex_member_reachable step.session])

lemma ex_member_accounts:
  "hm_get (st_accounts (live ex_member)) who = Some row \<Longrightarrow> ua_status row = Active \<and> ua_auth_epoch row = 0"
  by (simp add: ex_member_def create_account_def ex_root_name ex_long_password ex_hash hm_has_def Let_def
      commit_eq persisted_def default_state_def split: if_splits) auto

lemma ex_member_room: "epoch_room (live ex_member)" "epoch_room (live ex_member_in)"
  using ex_member_accounts by (force simp: epoch_room_def ex_member_in_accounts)+

text \<open>The administrator's password is reset while the session is open.\<close>

definition ex_member_reset :: core where
  "ex_member_reset = snd (reset_account_password ex_env ''root'' ''correct horse battery'' ex_member_in)"

lemma ex_member_change: "credential_change ''root'' ex_member_in ex_member_reset"
proof -
  obtain a where a: "hm_get (st_accounts (live ex_member_in)) ''root'' = Some a" "ua_auth_epoch a = 0"
    using ex_member_account(1) ex_member_in_accounts by auto
  have faultless: "\<not> write_fails ex_env n c" for n c by (simp add: write_fails_def ex_env_def)
  have "\<exists>shown c'. reset_account_password ex_env ''root'' ''correct horse battery'' ex_member_in = (Inr shown, c')"
    using a by (simp add: reset_account_password_def ex_long_password ex_hash store_new_credentials_def
        next_auth_epoch_def Let_def commit_eq faultless)
  then obtain shown where "reset_account_password ex_env ''root'' ''correct horse battery'' ex_member_in =
      (Inr shown, ex_member_reset)"
    by (auto simp: ex_member_reset_def)
  then show ?thesis by (rule credential_change.reset)
qed

theorem stale_credentials_stay_dead_witness:
  "\<exists>token shown session. session_for_token ex_env (live ex_member_in) token = Some (shown, session) \<and>
     ws_login session = ''root'' \<and>
     (\<forall>ev' token' shown'. session_for_token ev' (live ex_member_reset) token' \<noteq> Some (shown', session))"
proof -
  obtain token shown session where opened:
    "session_for_token ex_env (live ex_member_in) token = Some (shown, session)" "ws_login session = ''root''"
    by (rule ex_member_in_opens)
  have "transition UNIV ex_git (ex_member_in, \<lambda>_. None) (ex_member_reset, \<lambda>_. None)"
    unfolding ex_member_reset_def
    by (rule transition.operation [OF step.reset_password]) (simp add: ex_member_room)
  note dead = stale_credentials_stay_dead [OF ex_member_in_reachable rtranclp.rtrancl_refl this ex_member_change
      rtranclp.rtrancl_refl]
  show ?thesis
    by (intro exI conjI, rule opened, rule opened)
      (intro allI, rule dead [THEN conjunct1, rule_format, OF opened])
qed

text \<open>
  C11. A recovery secret is spent once. In the core after a recovery no recovery record of the login is
  left, so that the same secret, and any other secret of the login that was open, is refused and changes
  nothing. And at the end of every later run within the limits of \<open>Runs\<close> a secret with the id of a
  record the login had then can only reset a password if that id was issued again since: the record found
  under it belongs to another login or carries a newer epoch of the account.
\<close>

theorem recovery_secret_spent_once:
  assumes "reachable UNIV branches (c, g)" and "transition UNIV branches (c, g) (c', g1)"
    and "recover_password ev secret p c = (Inr receipt, c')"
  shows "\<exists>r token_id. parse_recovery_secret secret = Some token_id \<and>
      hm_get (st_password_recoveries (live c)) token_id = Some r \<and> py_secret_hash r = token_hash ev secret \<and>
      (\<forall>k q. hm_get (st_password_recoveries (live c')) k = Some q \<longrightarrow> py_login q \<noteq> py_login r) \<and>
      (\<forall>ev' secret' p' token_id' q. parse_recovery_secret secret' = Some token_id' \<longrightarrow>
         hm_get (st_password_recoveries (live c)) token_id' = Some q \<longrightarrow> py_login q = py_login r \<longrightarrow>
         (\<exists>e. recover_password ev' secret' p' c' = (Inl e, c'))) \<and>
      (\<forall>c2 g2 ev' secret' p' token_id' q receipt' c3.
         (transition UNIV branches)\<^sup>*\<^sup>* (c', g1) (c2, g2) \<longrightarrow>
         parse_recovery_secret secret' = Some token_id' \<longrightarrow>
         hm_get (st_password_recoveries (live c)) token_id' = Some q \<longrightarrow> py_login q = py_login r \<longrightarrow>
         recover_password ev' secret' p' c2 = (Inr receipt', c3) \<longrightarrow>
         (\<exists>z. hm_get (st_password_recoveries (live c2)) token_id' = Some z \<and>
              (py_login z \<noteq> py_login r \<or> py_auth_epoch r < py_auth_epoch z)))"
proof -
  have "recoveries_ok (st_password_recoveries (live c))"
    using reachable_consistent [OF assms(1)] by (simp add: consistent_def store_ok_def directory_ok_def)
  from recovery_spent_parts [OF assms(3) this] obtain r token_id b where
    r: "parse_recovery_secret secret = Some token_id"
      "hm_get (st_password_recoveries (live c)) token_id = Some r" "py_secret_hash r = token_hash ev secret"
    and b: "hm_get (st_accounts (live c')) (py_login r) = Some b" "ua_auth_epoch b = py_auth_epoch r + 1"
    and gone: "\<forall>k q. hm_get (st_password_recoveries (live c')) k = Some q \<longrightarrow> py_login q \<noteq> py_login r"
    and refused: "\<forall>ev' secret' p' token_id' q. parse_recovery_secret secret' = Some token_id' \<longrightarrow>
         hm_get (st_password_recoveries (live c)) token_id' = Some q \<longrightarrow> py_login q = py_login r \<longrightarrow>
         (\<exists>e. recover_password ev' secret' p' c' = (Inl e, c'))"
    by auto
  have later: "\<exists>z. hm_get (st_password_recoveries (live c2)) t = Some z \<and>
      (py_login z \<noteq> py_login r \<or> py_auth_epoch r < py_auth_epoch z)"
    if run: "(transition UNIV branches)\<^sup>*\<^sup>* (c', g1) (c2, g2)" and t: "parse_recovery_secret secret' = Some t"
      and again: "recover_password ev' secret' p' c2 = (Inr receipt', c3)" for c2 g2 ev' secret' p' t receipt' c3
  proof -
    obtain z a where "hm_get (st_password_recoveries (live c2)) t = Some z"
      and a: "hm_get (st_accounts (live c2)) (py_login z) = Some a" "ua_auth_epoch a = py_auth_epoch z"
      using recover_password_Inr [OF again] t by (metis option.inject)
    moreover from run_account [OF reachable.move [OF assms(1,2)] run b(1)] b(2) a
    have "py_login z = py_login r \<Longrightarrow> py_auth_epoch r < py_auth_epoch z" by auto
    ultimately show ?thesis by blast
  qed
  from r gone refused later show ?thesis by blast
qed

definition ex_member_asked :: core where
  "ex_member_asked = snd (issue_password_recovery ex_env ''root'' ex_member)"

lemma ex_member_asked_reachable: "reachable limits ex_git (ex_member_asked, \<lambda>_. None)"
  unfolding ex_member_asked_def by (rule reachable_step [OF ex_member_reachable step.issue_recovery])

theorem recovery_secret_spent_once_witness:
  "\<exists>issued receipt c'. issue_password_recovery ex_env ''root'' ex_member = (Inr issued, ex_member_asked) \<and>
     recover_password ex_env (pi_token issued) ''correct horse battery'' ex_member_asked = (Inr receipt, c') \<and>
     (\<exists>e. recover_password ex_env (pi_token issued) ''correct horse battery'' c' = (Inl e, c'))"
proof -
  obtain a where a: "hm_get (st_accounts (live ex_member)) ''root'' = Some a" "ua_status a = Active"
    using ex_member_account(1) by blast
  obtain issued where issued: "issue_password_recovery ex_env ''root'' ex_member = (Inr issued, ex_member_asked)"
    and time: "100 + 1 < pi_expires_at issued"
    using ex_issued_on [OF a] unfolding ex_member_asked_def by metis
  have clock: "env_clk ex_env 0 < pi_expires_at issued" "env_clk ex_env 1 < pi_expires_at issued"
    using time by simp_all
  have store: "\<not> write_fails ex_env 1 ex_member_asked" by (simp add: write_fails_def ex_env_def)
  obtain receipt c' where ran:
    "recover_password ex_env (pi_token issued) ''correct horse battery'' ex_member_asked = (Inr receipt, c')"
    using issued_secret_recovers [OF issued ex_env_fills refl clock ex_long_password ex_hash store ex_member_room(1)]
    by blast
  have "st_accounts (live ex_member_asked) = st_accounts (live ex_member)"
    using issue_password_recovery_Inr [OF issued] by metis
  then have "epoch_room (live ex_member_asked)" using ex_member_room(1) by (simp add: epoch_room_def)
  then have "transition UNIV ex_git (ex_member_asked, \<lambda>_. None) (c', \<lambda>_. None)"
    using transition.operation [OF step.recover, of UNIV ex_member_asked ex_git "\<lambda>_. None" ex_env "pi_token issued"
        "''correct horse battery''"] ran by simp
  from recovery_secret_spent_once [OF ex_member_asked_reachable this ran] have
    "\<exists>e. recover_password ex_env (pi_token issued) ''correct horse battery'' c' = (Inl e, c')" by blast
  with issued ran show ?thesis by blast
qed

text \<open>
  C12. On every core reachable within the limits of \<open>Runs\<close> the directory is in order: an account is filed
  under its own login; a login has at most one recovery secret that is
  not spent and no more than five wrong attempts are counted on any; an organization is filed under its
  own login with at most twenty different owners, and one that was created with owners still has one; the
  waitlist has at most 50000 entries, each under its own normalised address; and at most 200 audit scores
  are kept for any branch of any repository.
\<close>

theorem directory_in_order_on_every_run:
  assumes "reachable UNIV branches (c, g)"
  shows "(\<forall>who row. hm_get (st_accounts (live c)) who = Some row \<longrightarrow> ua_canonical_login row = who) \<and>
    (\<forall>k1 r1 k2 r2. hm_get (st_password_recoveries (live c)) k1 = Some r1 \<longrightarrow>
        hm_get (st_password_recoveries (live c)) k2 = Some r2 \<longrightarrow> py_consumed_at r1 = None \<longrightarrow>
        py_consumed_at r2 = None \<longrightarrow> py_login r1 = py_login r2 \<longrightarrow> k1 = k2) \<and>
    (\<forall>k r. hm_get (st_password_recoveries (live c)) k = Some r \<longrightarrow> py_attempt_count r \<le> 5) \<and>
    (\<forall>org g. hm_get (st_organizations (live c)) org = Some g \<longrightarrow>
       og_login g = org \<and> distinct (og_owners g) \<and> length (og_owners g) \<le> 20 \<and>
       (og_created_by g \<noteq> None \<longrightarrow> og_owners g \<noteq> [])) \<and>
    length (st_waitlist (live c)) \<le> 50000 \<and>
    (\<forall>(email, w) \<in> set (st_waitlist (live c)). wl_email w = email \<and> normalize_waitlist_email email = Inr email) \<and>
    (\<forall>owner repo branch.
       length [r \<leftarrow> hm_list (st_jankurai_scores (live c)) (owner, repo). js_branch r = branch] \<le> 200)"
proof -
  have ok: "directory_ok (live c)" "scores_bounded (st_jankurai_scores (live c))"
    using reachable_consistent [OF assms] by (simp_all add: consistent_def store_ok_def)
  then have recoveries: "recoveries_ok (st_password_recoveries (live c))"
    and organizations: "\<forall>org g. hm_get (st_organizations (live c)) org = Some g \<longrightarrow> organization_ok org g"
    and waitlist: "waitlist_ok (st_waitlist (live c))"
    by (simp_all add: directory_ok_def)
  show ?thesis
  proof (intro conjI)
    show "\<forall>who row. hm_get (st_accounts (live c)) who = Some row \<longrightarrow> ua_canonical_login row = who"
      using ok(1) by (simp add: directory_ok_def)
    show "\<forall>k1 r1 k2 r2. hm_get (st_password_recoveries (live c)) k1 = Some r1 \<longrightarrow>
        hm_get (st_password_recoveries (live c)) k2 = Some r2 \<longrightarrow> py_consumed_at r1 = None \<longrightarrow>
        py_consumed_at r2 = None \<longrightarrow> py_login r1 = py_login r2 \<longrightarrow> k1 = k2"
      using recoveries unfolding recoveries_ok_def one_unspent_def by blast
    show "\<forall>k r. hm_get (st_password_recoveries (live c)) k = Some r \<longrightarrow> py_attempt_count r \<le> 5"
      using recoveries by (simp add: recoveries_ok_def RECOVERY_MAX_ATTEMPTS_def)
    show "\<forall>org g. hm_get (st_organizations (live c)) org = Some g \<longrightarrow>
       og_login g = org \<and> distinct (og_owners g) \<and> length (og_owners g) \<le> 20 \<and>
       (og_created_by g \<noteq> None \<longrightarrow> og_owners g \<noteq> [])"
      using organizations by (simp add: organization_ok_def MAX_OWNERS_def)
    show "length (st_waitlist (live c)) \<le> 50000"
      using waitlist by (simp add: waitlist_ok_def MAX_WAITLIST_def)
    show "\<forall>(email, w) \<in> set (st_waitlist (live c)). wl_email w = email \<and> normalize_waitlist_email email = Inr email"
      using waitlist by (auto simp: waitlist_ok_def normal_email_def)
    show "\<forall>owner repo branch.
       length [r \<leftarrow> hm_list (st_jankurai_scores (live c)) (owner, repo). js_branch r = branch] \<le> 200"
      using ok(2) by (simp add: scores_bounded_def branch_count_def MAX_SCORES_PER_BRANCH_def)
  qed
qed

definition ex_with_org :: core where
  "ex_with_org = snd (create_organization_as ex_env ''root'' ''acme'' None [''root''] ex_member)"

lemma try_op_value: "snd (try_op m (\<lambda>_. Pair r)) = snd m"
  by (cases m; cases "fst m") auto

lemma ex_with_org_row:
  "\<exists>g. hm_get (st_organizations (live ex_with_org)) ''acme'' = Some g \<and> og_created_by g \<noteq> None"
proof -
  obtain a where a: "hm_get (st_accounts (live ex_member)) ''root'' = Some a" "ua_status a = Active"
    "ua_role a = RoleAdmin" "ua_canonical_login a = ''root''"
    by (simp add: ex_member_def create_account_def ex_root_name ex_long_password ex_hash hm_has_def Let_def
        commit_eq persisted_def default_state_def)
  have free: "\<not> hm_has (st_organizations (live ex_member)) ''acme''" "\<not> hm_has (st_accounts (live ex_member)) ''acme''"
    "\<not> hm_has (st_users (live ex_member)) ''acme''"
    by (simp_all add: ex_member_def create_account_def ex_root_name ex_long_password ex_hash hm_has_def Let_def
        commit_eq persisted_def default_state_def)
  have names: "require_login ''acme'' = Inr ()" "str_trim ''root'' = ''root''"
    "to_ascii_lowercase ''root'' = ''root''"
    by code_simp+
  have person: "active_people (live ex_member) [''root''] MAX_OWNERS ''owner'' = Inr [''root'']"
    using a by (simp add: active_people_def active_person_def Let_def permits_authentication_def
        names MAX_OWNERS_def)
  show ?thesis
    using a free
    by (simp add: ex_with_org_def create_organization_as_def names person organization_display_name_def
        state_is_admin_def permits_authentication_def Let_def commit_then_audit_def commit_eq
        put_organization_def try_op_value)
qed

theorem directory_in_order_on_every_run_witness:
  "\<exists>g. hm_get (st_organizations (live ex_with_org)) ''acme'' = Some g \<and> og_owners g \<noteq> []"
proof -
  have "reachable UNIV ex_git (ex_with_org, \<lambda>_. None)"
    unfolding ex_with_org_def by (rule reachable_step [OF ex_member_reachable step.organize])
  from directory_in_order_on_every_run [OF this] have owned:
    "\<forall>org g. hm_get (st_organizations (live ex_with_org)) org = Some g \<longrightarrow>
       og_login g = org \<and> distinct (og_owners g) \<and> length (og_owners g) \<le> 20 \<and>
       (og_created_by g \<noteq> None \<longrightarrow> og_owners g \<noteq> [])"
    by (elim conjE)
  obtain g where "hm_get (st_organizations (live ex_with_org)) ''acme'' = Some g" "og_created_by g \<noteq> None"
    using ex_with_org_row by blast
  with owned show ?thesis by blast
qed

end
